(* ===== verification/EvPrelude.thy ===== *)
theory EvPrelude
  imports Main "HOL-Library.Word" "HOL-Library.Char_ord"
begin

unbundle bit_operations_syntax

text \<open>
  Shared vocabulary of the development: the fixed-width integer types of the C sources, the
  error codes of ESP-IDF that the sources name, NUL-terminated C strings, the wrap-around
  counters that skip zero, elapsed-time arithmetic on the 32-bit millisecond clock, and two
  generic interfaces. \<open>event_machine\<close> lifts an invariant of single steps to runs; it is
  interpreted by every component whose operations form a state machine. \<open>fresh_counter\<close> is
  what the generation, transition and cookie counters promise to their users.

  Conventions used in all theories. A pointer argument that the code compares with NULL is an
  \<open>option\<close>; an output parameter is the option of the storage it points to, and is returned
  updated. Static variables of a C file form one record, passed in and returned. A mutex turns
  the section it protects into one atomic definition.
\<close>

section \<open>Machine integers and error codes\<close>

type_synonym u8 = "8 word"
type_synonym u16 = "16 word"
type_synonym u32 = "32 word"
type_synonym u64 = "64 word"

lemma unat_less_u8: "unat (i :: u8) < 256"
  by (rule order_less_le_trans [OF unsigned_less]) simp

lemma unat_less_u16: "unat (i :: u16) < 65536"
  by (rule order_less_le_trans [OF unsigned_less]) simp

lemma unat_less_u32: "unat (i :: u32) < 4294967296"
  by (rule order_less_le_trans [OF unsigned_less]) simp

lemma unat_plus_1_u32:
  assumes "(c :: u32) \<noteq> - 1"
  shows "unat (c + 1) = Suc (unat c)"
proof -
  have "1 + c \<noteq> 0" using assms by (metis add_eq_0_iff)
  then show ?thesis by (simp add: unatSuc add.commute)
qed

lemma increment_less_u32: "(c :: u32) \<noteq> - 1 \<Longrightarrow> c < c + 1"
  by (simp add: word_less_nat_alt unat_plus_1_u32)

lemma unat_low_nibble: "unat ((b :: u8) AND 15) < 16"
proof -
  have "b AND 15 \<le> 15" by (rule word_and_le1)
  then have "unat (b AND 15) \<le> unat (15 :: u8)" by (simp only: word_le_nat_alt)
  then show ?thesis by simp
qed

lemma unat_high_nibble: "unat (drop_bit 4 (b :: u8)) < 16"
proof -
  have "unat (drop_bit 4 b) = drop_bit 4 (unat b)" by (rule unat_drop_bit_eq)
  then show ?thesis using unat_less_u8 [of b] by (simp only: drop_bit_eq_div) simp
qed

datatype esp_err =
    ESP_OK
  | ESP_FAIL
  | ESP_ERR_NO_MEM
  | ESP_ERR_INVALID_ARG
  | ESP_ERR_INVALID_STATE
  | ESP_ERR_INVALID_SIZE
  | ESP_ERR_NOT_FOUND
  | ESP_ERR_NOT_SUPPORTED
  | ESP_ERR_TIMEOUT

named_theorems state_defs \<open>unfoldings of the operations of a component\<close>

section \<open>C strings\<close>

text \<open>
  A \<open>char\<close> array that holds a NUL-terminated string is the HOL string of the characters before
  the terminator, so that \<open>strlen\<close> is \<open>length\<close> and \<open>strcmp (a, b) == 0\<close> is \<open>a = b\<close>. Code
  that walks the array by index reads the terminator at index \<open>length s\<close>.
\<close>

type_synonym cstring = string

definition c_at :: "cstring \<Rightarrow> nat \<Rightarrow> char" where
  "c_at s i = (if i < length s then s ! i else CHR 0x00)"

text \<open>The string in an array of characters that is larger.\<close>

definition c_string :: "string \<Rightarrow> cstring" where
  "c_string a = takeWhile (\<lambda>c. c \<noteq> CHR 0x00) a"

definition lower_hex :: "char \<Rightarrow> bool" where
  "lower_hex c \<longleftrightarrow>
     (CHR ''0'' \<le> c \<and> c \<le> CHR ''9'') \<or> (CHR ''a'' \<le> c \<and> c \<le> CHR ''f'')"

lemma lower_hex_NUL [simp]: "\<not> lower_hex (CHR 0x00)"
  by (simp add: lower_hex_def less_eq_char_def)

lemma c_at_inside [simp]: "i < length s \<Longrightarrow> c_at s i = s ! i"
  by (simp add: c_at_def)

lemma c_at_outside [simp]: "length s \<le> i \<Longrightarrow> c_at s i = CHR 0x00"
  by (simp add: c_at_def)

section \<open>Wrap-around counters\<close>

text \<open>
  The link generations, the transition identifiers and the scope cookies are 32-bit counters
  that skip zero when they wrap, so that zero can mean ``none''.
\<close>

locale fresh_counter =
  fixes nxt :: "u32 \<Rightarrow> u32"
  assumes nxt_nonzero: "nxt c \<noteq> 0"
    and nxt_changes: "nxt c \<noteq> c"
    and nxt_inc: "c \<noteq> - 1 \<Longrightarrow> nxt c = c + 1"
begin

lemma nxt_unat: "unat c < 2 ^ 32 - 1 \<Longrightarrow> unat (nxt c) = Suc (unat c)"
proof -
  assume less: "unat c < 2 ^ 32 - 1"
  then have "c \<noteq> - 1" by (auto simp: unsigned_minus_1_eq_mask mask_eq_exp_minus_1)
  then have "nxt c = c + 1" by (rule nxt_inc)
  moreover have "c + 1 \<noteq> 0"
  proof
    assume "c + 1 = 0"
    then have "c = - 1" by (metis add_eq_0_iff2)
    with \<open>c \<noteq> - 1\<close> show False by simp
  qed
  ultimately show ?thesis by (simp add: unatSuc add.commute)
qed

lemma nxt_iterate_unat:
  "unat c + n < 2 ^ 32 \<Longrightarrow> unat ((nxt ^^ n) c) = unat c + n"
proof (induction n)
  case 0
  then show ?case by simp
next
  case (Suc n)
  then have IH: "unat ((nxt ^^ n) c) = unat c + n" by simp
  with Suc.prems have "unat ((nxt ^^ n) c) < 2 ^ 32 - 1" by simp
  from nxt_unat [OF this] IH show ?case by simp
qed

lemma nxt_iterate_distinct:
  assumes "unat c + n < 2 ^ 32" and "m < n"
  shows "(nxt ^^ m) c \<noteq> (nxt ^^ n) c"
proof
  assume "(nxt ^^ m) c = (nxt ^^ n) c"
  moreover have "unat ((nxt ^^ m) c) = unat c + m" using assms by (intro nxt_iterate_unat) simp
  moreover have "unat ((nxt ^^ n) c) = unat c + n" using assms by (intro nxt_iterate_unat)
  ultimately show False using \<open>m < n\<close> by simp
qed

end

section \<open>The millisecond clock\<close>

text \<open>
  \<open>(uint32_t)(now_ms - then_ms)\<close>: the time that passed on a clock of 32 bits. It is exact as
  long as less than \<open>2 ^ 32\<close> milliseconds passed, also across the wrap of the clock.
\<close>

lemma elapsed_exact: "d < 2 ^ 32 \<Longrightarrow> unat ((t + of_nat d) - t :: u32) = d"
  by (simp add: unat_of_nat take_bit_nat_eq_self)

lemma elapsed_ge_iff:
  "d < 2 ^ 32 \<Longrightarrow> (n :: u32) \<le> (t + of_nat d) - t \<longleftrightarrow> unat n \<le> d"
  by (simp add: word_le_nat_alt unat_of_nat take_bit_nat_eq_self)

section \<open>Step functions and their runs\<close>

locale event_machine =
  fixes step :: "'s \<Rightarrow> 'e \<Rightarrow> 's"
    and inv :: "'s \<Rightarrow> bool"
  assumes step_inv: "inv s \<Longrightarrow> inv (step s e)"
begin

lemma run_inv: "inv s \<Longrightarrow> inv (foldl step s es)"
  by (induction es arbitrary: s) (auto intro: step_inv)

lemma run_prefix_inv: "inv s \<Longrightarrow> inv (foldl step s (take n es))"
  by (rule run_inv)

lemma run_transfer:
  assumes "\<And>s e. inv s \<Longrightarrow> P s \<Longrightarrow> P (step s e)" and "inv s" and "P s"
  shows "P (foldl step s es)"
  using assms(2,3) by (induction es arbitrary: s) (auto intro: step_inv assms(1))

end

section \<open>Lists\<close>

lemma nth_upd_outside [simp]: "j \<noteq> i \<Longrightarrow> xs[i := v] ! j = xs ! j"
  by (metis nth_list_update_neq)

lemma mod_Suc_wrap: "i < n \<Longrightarrow> Suc i mod n = (if Suc i = n then 0 else Suc i)"
  by simp

lemma ring_index_inj:
  assumes "h < (n :: nat)" "i < n" "j < n" "(h + i) mod n = (h + j) mod n"
  shows "i = j"
proof -
  have red: "(h + k) mod n = (if h + k < n then h + k else h + k - n)" if "k < n" for k
    using that assms(1) by (auto simp: mod_if)
  show ?thesis using assms(4) red [OF assms(2)] red [OF assms(3)] assms(1-3)
    by (auto split: if_splits)
qed

end
