(* ===== verification/Transport.thy ===== *)
theory Transport
  imports EvPrelude
begin

text \<open>
  The endpoint registry of \<open>platform/ev_transport.c\<close> and \<open>platform/ev_transport.h\<close>: which
  links are open, the generation that makes a link reference stale, the owner mark, and the
  nonblocking reads and writes. The state \<open>transport\<close> holds the file's static variables. A
  build is described by \<open>board\<close> (the \<open>MICROPY_HW_*\<close> switches and the two sink names of
  \<open>boardconfig.h\<close>); the byte rings, the serial drivers and the TCP socket backend are
  parameters of the operations that call them.
\<close>

section \<open>Data\<close>

datatype ev_transport_id =
    EV_TRANSPORT_USJ
  | EV_TRANSPORT_USB
  | EV_TRANSPORT_UART
  | EV_TRANSPORT_TCP
  | EV_TRANSPORT_MAX

text \<open>The C enumeration is compared with \<open><\<close> and \<open>>=\<close>: its order is that of its values.\<close>

primrec transport_value :: "ev_transport_id \<Rightarrow> nat" where
  "transport_value EV_TRANSPORT_USJ = 0"
| "transport_value EV_TRANSPORT_USB = 1"
| "transport_value EV_TRANSPORT_UART = 2"
| "transport_value EV_TRANSPORT_TCP = 3"
| "transport_value EV_TRANSPORT_MAX = 4"

instantiation ev_transport_id :: linorder
begin

definition less_eq_ev_transport_id :: "ev_transport_id \<Rightarrow> ev_transport_id \<Rightarrow> bool" where
  "less_eq_ev_transport_id a b \<longleftrightarrow> transport_value a \<le> transport_value b"

definition less_ev_transport_id :: "ev_transport_id \<Rightarrow> ev_transport_id \<Rightarrow> bool" where
  "less_ev_transport_id a b \<longleftrightarrow> transport_value a < transport_value b"

instance
proof
  fix a b :: ev_transport_id
  show "a \<le> b \<Longrightarrow> b \<le> a \<Longrightarrow> a = b"
    by (cases a; cases b) (simp_all add: less_eq_ev_transport_id_def)
qed (auto simp: less_eq_ev_transport_id_def less_ev_transport_id_def)

end

lemmas transport_order = less_eq_ev_transport_id_def less_ev_transport_id_def

lemma transport_below_TCP:
  "i < EV_TRANSPORT_TCP \<longleftrightarrow>
     i = EV_TRANSPORT_USJ \<or> i = EV_TRANSPORT_USB \<or> i = EV_TRANSPORT_UART"
  by (cases i) (simp_all add: transport_order)

lemma transport_below_MAX: "i < EV_TRANSPORT_MAX \<longleftrightarrow> i \<noteq> EV_TRANSPORT_MAX"
  by (cases i) (simp_all add: transport_order)

lemma transport_from_MAX: "EV_TRANSPORT_MAX \<le> i \<longleftrightarrow> i = EV_TRANSPORT_MAX"
  by (cases i) (simp_all add: transport_order)

lemma transport_from_TCP:
  "EV_TRANSPORT_TCP \<le> i \<longleftrightarrow> i = EV_TRANSPORT_TCP \<or> i = EV_TRANSPORT_MAX"
  by (cases i) (simp_all add: transport_order)

lemmas transport_bounds [simp] =
  transport_below_TCP transport_below_MAX transport_from_MAX transport_from_TCP

definition EV_TRANSPORT_PHYSICAL_SLOT :: u8 where
  "EV_TRANSPORT_PHYSICAL_SLOT = 0"

definition EV_TRANSPORT_TCP_LINKS :: u8 where
  "EV_TRANSPORT_TCP_LINKS = 3"

definition EV_IO_VECTORS_MAX :: nat where
  "EV_IO_VECTORS_MAX = 4"

lemmas transport_consts [simp] =
  EV_TRANSPORT_PHYSICAL_SLOT_def EV_TRANSPORT_TCP_LINKS_def EV_IO_VECTORS_MAX_def

record ev_link_ref =
  lr_transport_id :: ev_transport_id
  lr_slot :: u8
  lr_generation :: u32

text \<open>\<open>memset(&link, 0, sizeof link)\<close>.\<close>

definition zero_link :: ev_link_ref where
  "zero_link = \<lparr>lr_transport_id = EV_TRANSPORT_USJ, lr_slot = 0, lr_generation = 0\<rparr>"

datatype ev_io_status = EV_IO_PROGRESS | EV_IO_WOULD_BLOCK | EV_IO_CLOSED | EV_IO_ERROR

record ev_io_result =
  io_status :: ev_io_status
  io_transferred :: nat
  io_error :: esp_err

record ev_transport_endpoint_state_t =
  es_supported :: bool
  es_present_known :: bool
  es_present :: bool
  es_connected_known :: bool
  es_connected :: bool
  es_ready :: bool
  es_owner :: bool

record ev_transport_link_state =
  ls_generation :: u32
  ls_open :: bool

text \<open>The build switches of a board.\<close>

record board =
  hw_usb_serial_jtag :: bool
  hw_usb_cdc :: bool
  hw_uart_repl :: bool
  hw_tcp :: bool
  default_sink :: cstring
  fallback_sink :: cstring

text \<open>The static variables of the file; \<open>s_links\<close> is the two-dimensional array.\<close>

record transport =
  s_links :: "ev_transport_id \<Rightarrow> u8 \<Rightarrow> ev_transport_link_state"
  s_supported :: "ev_transport_id \<Rightarrow> bool"
  s_transport_ready :: bool
  s_has_owner :: bool
  s_owner :: ev_link_ref
  s_serial_io_lock :: "ev_transport_id \<Rightarrow> bool"

definition zero_link_state :: ev_transport_link_state where
  "zero_link_state = \<lparr>ls_generation = 0, ls_open = False\<rparr>"

definition transport_reset :: transport where
  "transport_reset = \<lparr>s_links = (\<lambda>_ _. zero_link_state), s_supported = (\<lambda>_. False),
     s_transport_ready = False, s_has_owner = False, s_owner = zero_link,
     s_serial_io_lock = (\<lambda>_. False)\<rparr>"

definition set_link ::
  "transport \<Rightarrow> ev_transport_id \<Rightarrow> u8 \<Rightarrow> ev_transport_link_state \<Rightarrow> transport" where
  "set_link t i k ls = t\<lparr>s_links := (s_links t)(i := (s_links t i)(k := ls))\<rparr>"

section \<open>The registry operations\<close>

definition ev_transport_serial_io_take :: "transport \<Rightarrow> ev_transport_id \<Rightarrow> bool" where
  "ev_transport_serial_io_take t i = (if EV_TRANSPORT_TCP \<le> i then False else s_serial_io_lock t i)"

definition ev_transport_valid_slot :: "ev_transport_id \<Rightarrow> u8 \<Rightarrow> bool" where
  "ev_transport_valid_slot i k =
     (if EV_TRANSPORT_MAX \<le> i then False
      else if i = EV_TRANSPORT_TCP then k < EV_TRANSPORT_TCP_LINKS else k = 0)"

definition ev_transport_next_generation :: "u32 \<Rightarrow> u32" where
  "ev_transport_next_generation g = (let g' = g + 1 in if g' = 0 then 1 else g')"

definition ev_transport_id_supported :: "transport \<Rightarrow> ev_transport_id \<Rightarrow> bool" where
  "ev_transport_id_supported t i \<longleftrightarrow> i < EV_TRANSPORT_MAX \<and> s_supported t i"

definition ev_transport_ref_matches_locked :: "transport \<Rightarrow> ev_link_ref option \<Rightarrow> bool" where
  "ev_transport_ref_matches_locked t link =
     (case link of None \<Rightarrow> False
      | Some l \<Rightarrow> ev_transport_valid_slot (lr_transport_id l) (lr_slot l) \<and>
          ev_transport_id_supported t (lr_transport_id l) \<and>
          ls_open (s_links t (lr_transport_id l) (lr_slot l)) \<and>
          ls_generation (s_links t (lr_transport_id l) (lr_slot l)) = lr_generation l)"

definition ev_transport_ref_matches :: "transport \<Rightarrow> ev_link_ref option \<Rightarrow> bool" where
  "ev_transport_ref_matches t link =
     (case link of None \<Rightarrow> False
      | Some l \<Rightarrow>
          if \<not> ev_transport_valid_slot (lr_transport_id l) (lr_slot l) then False
          else ev_transport_ref_matches_locked t link)"

definition ev_transport_result :: "ev_io_status \<Rightarrow> nat \<Rightarrow> esp_err \<Rightarrow> ev_io_result" where
  "ev_transport_result status transferred error =
     \<lparr>io_status = status, io_transferred = transferred, io_error = error\<rparr>"

definition ev_transport_serial_supported :: "board \<Rightarrow> ev_transport_id \<Rightarrow> bool" where
  "ev_transport_serial_supported b i =
     (case i of EV_TRANSPORT_USJ \<Rightarrow> hw_usb_serial_jtag b
      | EV_TRANSPORT_USB \<Rightarrow> hw_usb_cdc b
      | EV_TRANSPORT_UART \<Rightarrow> hw_uart_repl b
      | _ \<Rightarrow> False)"

text \<open>
  The driver calls are parameters: \<open>baudrate\<close> is the answer of \<open>uart_stdout_baudrate\<close>,
  \<open>set_baud\<close> that of \<open>uart_stdout_set_baudrate\<close>, which runs under the UART write lock.
\<close>

definition ev_transport_uart_baudrate :: "board \<Rightarrow> u32 \<Rightarrow> u32" where
  "ev_transport_uart_baudrate b baudrate = (if hw_uart_repl b then baudrate else 0)"

definition ev_transport_uart_set_baudrate ::
  "board \<Rightarrow> transport \<Rightarrow> (u32 \<Rightarrow> esp_err) \<Rightarrow> u32 \<Rightarrow> esp_err" where
  "ev_transport_uart_set_baudrate b t set_baud baud =
     (if hw_uart_repl b
      then if \<not> ev_transport_serial_io_take t EV_TRANSPORT_UART then ESP_ERR_INVALID_STATE
           else set_baud baud
      else ESP_ERR_NOT_SUPPORTED)"

text \<open>
  Creating the three write mutexes, in order; \<open>mk i\<close> says whether
  \<open>xSemaphoreCreateMutexStatic\<close> returned a handle. The loop stops at the first failure.
\<close>

fun create_serial_locks ::
  "(ev_transport_id \<Rightarrow> bool) \<Rightarrow> ev_transport_id list \<Rightarrow> transport \<Rightarrow> bool \<times> transport" where
  "create_serial_locks mk [] t = (True, t)"
| "create_serial_locks mk (i # is) t =
     (let t' = (if \<not> s_serial_io_lock t i
                then t\<lparr>s_serial_io_lock := (s_serial_io_lock t)(i := mk i)\<rparr> else t)
      in if \<not> s_serial_io_lock t' i then (False, t') else create_serial_locks mk is t')"

fun open_serial_links :: "ev_transport_id list \<Rightarrow> transport \<Rightarrow> transport" where
  "open_serial_links [] t = t"
| "open_serial_links (i # is) t =
     open_serial_links is
       (if s_supported t i then set_link t i 0 \<lparr>ls_generation = 1, ls_open = True\<rparr> else t)"

definition ev_transport_init0 ::
  "board \<Rightarrow> (ev_transport_id \<Rightarrow> bool) \<Rightarrow> transport \<Rightarrow> esp_err \<times> transport" where
  "ev_transport_init0 b mk t =
     (if s_transport_ready t then (ESP_OK, t)
      else
        let serial = [EV_TRANSPORT_USJ, EV_TRANSPORT_USB, EV_TRANSPORT_UART];
            (created, t1) = create_serial_locks mk serial t
        in if \<not> created then (ESP_ERR_NO_MEM, t1)
           else
             let t2 = t1\<lparr>s_links := (\<lambda>_ _. zero_link_state),
                   s_supported := (\<lambda>i. if i = EV_TRANSPORT_TCP then hw_tcp b
                                       else ev_transport_serial_supported b i)\<rparr>;
                 t3 = open_serial_links serial t2
             in (ESP_OK, t3\<lparr>s_has_owner := False, s_owner := zero_link,
                            s_transport_ready := True\<rparr>))"

definition ev_transport_name :: "ev_transport_id \<Rightarrow> cstring" where
  "ev_transport_name i =
     (case i of EV_TRANSPORT_USJ \<Rightarrow> ''usj'' | EV_TRANSPORT_USB \<Rightarrow> ''usb''
      | EV_TRANSPORT_UART \<Rightarrow> ''uart'' | EV_TRANSPORT_TCP \<Rightarrow> ''tcp''
      | EV_TRANSPORT_MAX \<Rightarrow> ''unknown'')"

text \<open>The search over the four names; the result is the identifier that is stored.\<close>

definition ev_transport_id_from_name :: "cstring option \<Rightarrow> ev_transport_id option" where
  "ev_transport_id_from_name name =
     (case name of None \<Rightarrow> None
      | Some n \<Rightarrow> find (\<lambda>i. n = ev_transport_name i)
          [EV_TRANSPORT_USJ, EV_TRANSPORT_USB, EV_TRANSPORT_UART, EV_TRANSPORT_TCP])"

definition ev_transport_link_ref ::
  "transport \<Rightarrow> ev_transport_id \<Rightarrow> u8 \<Rightarrow> ev_link_ref option \<Rightarrow> bool \<times> ev_link_ref option" where
  "ev_transport_link_ref t i k out =
     (if out = None \<or> \<not> ev_transport_valid_slot i k then (False, out)
      else if ev_transport_id_supported t i \<and> ls_open (s_links t i k)
      then (True, Some \<lparr>lr_transport_id = i, lr_slot = k,
                        lr_generation = ls_generation (s_links t i k)\<rparr>)
      else (False, out))"

definition ev_transport_link_is_current :: "transport \<Rightarrow> ev_link_ref option \<Rightarrow> bool" where
  "ev_transport_link_is_current t link = ev_transport_ref_matches t link"

definition ev_transport_link_open ::
  "transport \<Rightarrow> ev_transport_id \<Rightarrow> u8 \<Rightarrow> ev_link_ref option
     \<Rightarrow> esp_err \<times> ev_link_ref option \<times> transport" where
  "ev_transport_link_open t i k out =
     (if out = None \<or> \<not> ev_transport_valid_slot i k then (ESP_ERR_INVALID_ARG, out, t)
      else if \<not> s_transport_ready t \<or> \<not> ev_transport_id_supported t i
      then (ESP_ERR_NOT_SUPPORTED, out, t)
      else if ls_open (s_links t i k) then (ESP_ERR_INVALID_STATE, out, t)
      else
        let g = ev_transport_next_generation (ls_generation (s_links t i k))
        in (ESP_OK, Some \<lparr>lr_transport_id = i, lr_slot = k, lr_generation = g\<rparr>,
            set_link t i k \<lparr>ls_generation = g, ls_open = True\<rparr>))"

text \<open>
  Closing a link. The second component is the link handed to \<open>ev_tcp_link_close\<close>, the weak
  symbol that is linked in exactly on boards with TCP.
\<close>

definition ev_transport_link_close ::
  "board \<Rightarrow> transport \<Rightarrow> ev_link_ref option \<Rightarrow> transport \<times> ev_link_ref option" where
  "ev_transport_link_close b t link =
     (case link of None \<Rightarrow> (t, None)
      | Some l \<Rightarrow>
        if \<not> ev_transport_valid_slot (lr_transport_id l) (lr_slot l) then (t, None)
        else if lr_transport_id l < EV_TRANSPORT_TCP \<and>
                \<not> ev_transport_serial_io_take t (lr_transport_id l) then (t, None)
        else
          let t' = (if ev_transport_ref_matches_locked t link
                    then
                      let g = ls_generation (s_links t (lr_transport_id l) (lr_slot l));
                          t1 = set_link t (lr_transport_id l) (lr_slot l)
                                 \<lparr>ls_generation = ev_transport_next_generation g, ls_open = False\<rparr>
                      in if s_has_owner t1 \<and>
                            lr_transport_id (s_owner t1) = lr_transport_id l \<and>
                            lr_slot (s_owner t1) = lr_slot l \<and>
                            lr_generation (s_owner t1) = lr_generation l
                         then t1\<lparr>s_has_owner := False\<rparr> else t1
                    else t)
          in (t', if lr_transport_id l = EV_TRANSPORT_TCP \<and> hw_tcp b then Some l else None))"

definition ev_transport_link_advance_generation ::
  "transport \<Rightarrow> ev_link_ref option \<Rightarrow> ev_link_ref option
     \<Rightarrow> bool \<times> ev_link_ref option \<times> transport" where
  "ev_transport_link_advance_generation t link out =
     (case link of None \<Rightarrow> (False, out, t)
      | Some l \<Rightarrow>
        if out = None \<or> \<not> ev_transport_valid_slot (lr_transport_id l) (lr_slot l)
        then (False, out, t)
        else if lr_transport_id l < EV_TRANSPORT_TCP \<and>
                \<not> ev_transport_serial_io_take t (lr_transport_id l) then (False, out, t)
        else if ev_transport_ref_matches_locked t link
        then
          let ls = s_links t (lr_transport_id l) (lr_slot l);
              g = ev_transport_next_generation (ls_generation ls);
              l' = l\<lparr>lr_generation := g\<rparr>;
              t1 = set_link t (lr_transport_id l) (lr_slot l) (ls\<lparr>ls_generation := g\<rparr>);
              t2 = (if s_has_owner t1 \<and> lr_transport_id (s_owner t1) = lr_transport_id l \<and>
                       lr_slot (s_owner t1) = lr_slot l
                    then t1\<lparr>s_owner := l'\<rparr> else t1)
          in (True, Some l', t2)
        else (False, out, t))"

definition ev_transport_set_owner :: "transport \<Rightarrow> ev_link_ref option \<Rightarrow> transport" where
  "ev_transport_set_owner t link =
     (case link of
        Some l \<Rightarrow> if ev_transport_ref_matches_locked t link
                  then t\<lparr>s_owner := l, s_has_owner := True\<rparr>
                  else t\<lparr>s_owner := zero_link, s_has_owner := False\<rparr>
      | None \<Rightarrow> t\<lparr>s_owner := zero_link, s_has_owner := False\<rparr>)"

section \<open>Reading and writing\<close>

text \<open>
  \<open>ring_get i\<close> is \<open>ringbuf_get\<close> on the input ring of the serial endpoint \<open>i\<close>: the next
  byte, or a negative number when the ring is empty, and the rings afterwards.
\<close>

definition ev_transport_serial_ring_get ::
  "board \<Rightarrow> (ev_transport_id \<Rightarrow> 'r \<Rightarrow> int \<times> 'r) \<Rightarrow> ev_transport_id \<Rightarrow> 'r \<Rightarrow> int \<times> 'r" where
  "ev_transport_serial_ring_get b ring_get i r =
     (if ev_transport_serial_supported b i then ring_get i r else (- 1, r))"

fun serial_read_loop :: "('r \<Rightarrow> int \<times> 'r) \<Rightarrow> nat \<Rightarrow> 'r \<Rightarrow> u8 list \<times> 'r" where
  "serial_read_loop get 0 r = ([], r)"
| "serial_read_loop get (Suc room) r =
     (let (c, r') = get r
      in if c < 0 then ([], r')
         else let (bytes, r'') = serial_read_loop get room r' in (word_of_int c # bytes, r''))"

definition ev_transport_read ::
  "board \<Rightarrow> (ev_transport_id \<Rightarrow> 'r \<Rightarrow> int \<times> 'r)
     \<Rightarrow> (ev_link_ref \<Rightarrow> u8 list \<Rightarrow> nat \<Rightarrow> 'r \<Rightarrow> ev_io_result \<times> u8 list \<times> 'r)
     \<Rightarrow> transport \<Rightarrow> ev_link_ref option \<Rightarrow> u8 list option \<Rightarrow> nat \<Rightarrow> 'r
     \<Rightarrow> ev_io_result \<times> u8 list option \<times> 'r" where
  "ev_transport_read b ring_get tcp_read t link buffer capacity r =
     (case buffer of None \<Rightarrow> (ev_transport_result EV_IO_ERROR 0 ESP_ERR_INVALID_ARG, None, r)
      | Some buf \<Rightarrow>
        if capacity = 0 then (ev_transport_result EV_IO_ERROR 0 ESP_ERR_INVALID_ARG, buffer, r)
        else
          case link of
            None \<Rightarrow> (ev_transport_result EV_IO_CLOSED 0 ESP_ERR_INVALID_STATE, buffer, r)
          | Some l \<Rightarrow>
            if \<not> ev_transport_ref_matches t link
            then (ev_transport_result EV_IO_CLOSED 0 ESP_ERR_INVALID_STATE, buffer, r)
            else if lr_transport_id l = EV_TRANSPORT_TCP
            then if \<not> hw_tcp b
                 then (ev_transport_result EV_IO_ERROR 0 ESP_ERR_NOT_SUPPORTED, buffer, r)
                 else let (res, buf', r') = tcp_read l buf capacity r in (res, Some buf', r')
            else
              let (bytes, r') = serial_read_loop
                    (ev_transport_serial_ring_get b ring_get (lr_transport_id l)) capacity r;
                  n = length bytes;
                  buf' = bytes @ drop n buf
              in (if n \<noteq> 0 then ev_transport_result EV_IO_PROGRESS n ESP_OK
                  else ev_transport_result EV_IO_WOULD_BLOCK 0 ESP_OK, Some buf', r'))"

text \<open>
  \<open>tx_some i\<close> is the nonblocking driver call of endpoint \<open>i\<close>: how many bytes it took, and the
  drivers afterwards.
\<close>

definition ev_transport_serial_write ::
  "board \<Rightarrow> (ev_transport_id \<Rightarrow> u8 list \<Rightarrow> 'd \<Rightarrow> int \<times> 'd) \<Rightarrow> ev_transport_id \<Rightarrow> u8 list \<Rightarrow> 'd
     \<Rightarrow> ev_io_result \<times> 'd" where
  "ev_transport_serial_write b tx_some i data d =
     (let (written, d') = (if ev_transport_serial_supported b i then tx_some i data d
                           else (- 1, d))
      in (if written > 0 then ev_transport_result EV_IO_PROGRESS (nat written) ESP_OK
          else if written = 0 then ev_transport_result EV_IO_WOULD_BLOCK 0 ESP_OK
          else ev_transport_result EV_IO_WOULD_BLOCK 0 ESP_OK, d'))"

definition ev_transport_write ::
  "board \<Rightarrow> (ev_transport_id \<Rightarrow> u8 list \<Rightarrow> 'd \<Rightarrow> int \<times> 'd)
     \<Rightarrow> (ev_link_ref \<Rightarrow> u8 list \<Rightarrow> 'd \<Rightarrow> ev_io_result \<times> 'd)
     \<Rightarrow> transport \<Rightarrow> ev_link_ref option \<Rightarrow> u8 list option \<Rightarrow> 'd \<Rightarrow> ev_io_result \<times> 'd" where
  "ev_transport_write b tx_some tcp_write t link buffer d =
     (case buffer of None \<Rightarrow> (ev_transport_result EV_IO_ERROR 0 ESP_ERR_INVALID_ARG, d)
      | Some data \<Rightarrow>
        if length data = 0 then (ev_transport_result EV_IO_ERROR 0 ESP_ERR_INVALID_ARG, d)
        else
          case link of None \<Rightarrow> (ev_transport_result EV_IO_CLOSED 0 ESP_ERR_INVALID_STATE, d)
          | Some l \<Rightarrow>
            if lr_transport_id l = EV_TRANSPORT_TCP
            then if \<not> ev_transport_ref_matches t link
                 then (ev_transport_result EV_IO_CLOSED 0 ESP_ERR_INVALID_STATE, d)
                 else if \<not> hw_tcp b
                 then (ev_transport_result EV_IO_ERROR 0 ESP_ERR_NOT_SUPPORTED, d)
                 else tcp_write l data d
            else if EV_TRANSPORT_TCP \<le> lr_transport_id l \<or>
                    \<not> ev_transport_serial_io_take t (lr_transport_id l)
            then (ev_transport_result EV_IO_CLOSED 0 ESP_ERR_INVALID_STATE, d)
            else if \<not> ev_transport_ref_matches t link
            then (ev_transport_result EV_IO_CLOSED 0 ESP_ERR_INVALID_STATE, d)
            else ev_transport_serial_write b tx_some (lr_transport_id l) data d)"

text \<open>A vector whose base is NULL is \<open>None\<close>; \<open>count\<close> is the length of the array.\<close>

definition ev_transport_writev ::
  "board \<Rightarrow> (ev_transport_id \<Rightarrow> u8 list \<Rightarrow> 'd \<Rightarrow> int \<times> 'd)
     \<Rightarrow> (ev_link_ref \<Rightarrow> u8 list \<Rightarrow> 'd \<Rightarrow> ev_io_result \<times> 'd)
     \<Rightarrow> (ev_link_ref \<Rightarrow> u8 list list \<Rightarrow> 'd \<Rightarrow> ev_io_result \<times> 'd)
     \<Rightarrow> transport \<Rightarrow> ev_link_ref option \<Rightarrow> u8 list option list option \<Rightarrow> 'd
     \<Rightarrow> ev_io_result \<times> 'd" where
  "ev_transport_writev b tx_some tcp_write tcp_writev t link vectors d =
     (case vectors of None \<Rightarrow> (ev_transport_result EV_IO_ERROR 0 ESP_ERR_INVALID_ARG, d)
      | Some vs \<Rightarrow>
        if length vs = 0 \<or> length vs > EV_IO_VECTORS_MAX \<or>
           list_ex (\<lambda>v. v = None \<or> v = Some []) vs
        then (ev_transport_result EV_IO_ERROR 0 ESP_ERR_INVALID_ARG, d)
        else case link of
          Some l \<Rightarrow>
            if lr_transport_id l = EV_TRANSPORT_TCP \<and> hw_tcp b
            then if \<not> ev_transport_ref_matches t link
                 then (ev_transport_result EV_IO_CLOSED 0 ESP_ERR_INVALID_STATE, d)
                 else tcp_writev l (map the vs) d
            else ev_transport_write b tx_some tcp_write t link (hd vs) d
        | None \<Rightarrow> ev_transport_write b tx_some tcp_write t link (hd vs) d)"

section \<open>Endpoint state\<close>

definition zero_endpoint :: ev_transport_endpoint_state_t where
  "zero_endpoint = \<lparr>es_supported = False, es_present_known = False, es_present = False,
     es_connected_known = False, es_connected = False, es_ready = False, es_owner = False\<rparr>"

definition slot_owned :: "transport \<Rightarrow> ev_transport_id \<Rightarrow> u8 \<Rightarrow> bool" where
  "slot_owned t i k \<longleftrightarrow> s_has_owner t \<and> lr_transport_id (s_owner t) = i \<and>
     lr_slot (s_owner t) = k \<and> lr_generation (s_owner t) = ls_generation (s_links t i k)"

text \<open>\<open>cdc\<close> is what \<open>mp_usbd_cdc_transport_endpoint_state\<close> stores: present, mounted, ready.\<close>

definition ev_transport_endpoint_state ::
  "board \<Rightarrow> bool \<times> bool \<times> bool \<Rightarrow> transport \<Rightarrow> ev_transport_id \<Rightarrow> u8
     \<Rightarrow> ev_transport_endpoint_state_t option \<Rightarrow> ev_transport_endpoint_state_t option" where
  "ev_transport_endpoint_state b cdc t i k out =
     (if out = None then None
      else if \<not> ev_transport_valid_slot i k then Some zero_endpoint
      else
        let supported = ev_transport_id_supported t i;
            all_tcp = (i = EV_TRANSPORT_TCP \<and> k = EV_TRANSPORT_PHYSICAL_SLOT);
            is_open = (supported \<and> ls_open (s_links t i k)) \<or>
                   (all_tcp \<and> list_ex (\<lambda>j. supported \<and> ls_open (s_links t i j)) [0, 1, 2]);
            owner = slot_owned t i k \<or> (all_tcp \<and> list_ex (slot_owned t i) [0, 1, 2]);
            base = zero_endpoint\<lparr>es_supported := supported, es_owner := owner\<rparr>
        in Some
          (case i of
             EV_TRANSPORT_TCP \<Rightarrow>
               base\<lparr>es_present_known := True, es_present := is_open, es_connected_known := True,
                    es_connected := is_open, es_ready := is_open\<rparr>
           | EV_TRANSPORT_USJ \<Rightarrow>
               (if hw_usb_serial_jtag b then base\<lparr>es_ready := supported\<rparr> else base)
           | EV_TRANSPORT_USB \<Rightarrow>
               (if hw_usb_cdc b
                then case cdc of (present, mounted, ready) \<Rightarrow>
                  base\<lparr>es_present_known := True, es_present := present,
                       es_connected_known := True, es_connected := mounted, es_ready := ready\<rparr>
                else base)
           | EV_TRANSPORT_UART \<Rightarrow>
               (if hw_uart_repl b then base\<lparr>es_ready := supported\<rparr> else base)
           | EV_TRANSPORT_MAX \<Rightarrow> base))"

section \<open>Basic facts\<close>

lemma serial_supported_simps [simp]:
  "ev_transport_serial_supported b EV_TRANSPORT_USJ = hw_usb_serial_jtag b"
  "ev_transport_serial_supported b EV_TRANSPORT_USB = hw_usb_cdc b"
  "ev_transport_serial_supported b EV_TRANSPORT_UART = hw_uart_repl b"
  "\<not> ev_transport_serial_supported b EV_TRANSPORT_TCP"
  "\<not> ev_transport_serial_supported b EV_TRANSPORT_MAX"
  by (simp_all add: ev_transport_serial_supported_def)

lemma set_link_simps [simp]:
  "s_links (set_link t i k ls) = (s_links t)(i := (s_links t i)(k := ls))"
  "s_supported (set_link t i k ls) = s_supported t"
  "s_transport_ready (set_link t i k ls) = s_transport_ready t"
  "s_has_owner (set_link t i k ls) = s_has_owner t"
  "s_owner (set_link t i k ls) = s_owner t"
  "s_serial_io_lock (set_link t i k ls) = s_serial_io_lock t"
  by (simp_all add: set_link_def)

lemma result_simps [simp]:
  "io_status (ev_transport_result st n e) = st"
  "io_transferred (ev_transport_result st n e) = n"
  "io_error (ev_transport_result st n e) = e"
  by (simp_all add: ev_transport_result_def)

lemma ref_matches_eq_locked: "ev_transport_ref_matches t l = ev_transport_ref_matches_locked t l"
  by (auto simp: ev_transport_ref_matches_def ev_transport_ref_matches_locked_def
        split: option.splits)

lemmas link_current_defs =
  ev_transport_link_is_current_def ref_matches_eq_locked ev_transport_ref_matches_locked_def
  ev_transport_id_supported_def

lemma link_current_iff:
  "ev_transport_link_is_current t (Some l) \<longleftrightarrow>
     ev_transport_valid_slot (lr_transport_id l) (lr_slot l) \<and>
     s_supported t (lr_transport_id l) \<and>
     ls_open (s_links t (lr_transport_id l) (lr_slot l)) \<and>
     ls_generation (s_links t (lr_transport_id l) (lr_slot l)) = lr_generation l"
  by (auto simp: link_current_defs ev_transport_valid_slot_def)

lemma link_current_None [simp]: "\<not> ev_transport_link_is_current t None"
  by (simp add: link_current_defs)

lemma locked_eq_current:
  "ev_transport_ref_matches_locked t l = ev_transport_link_is_current t l"
  by (simp add: ev_transport_link_is_current_def ref_matches_eq_locked)

lemma valid_slot_not_MAX [simp]: "\<not> ev_transport_valid_slot EV_TRANSPORT_MAX k"
  by (simp add: ev_transport_valid_slot_def)

lemma next_generation_wrap: "(- 1 :: u32) + 1 = 0"
  by simp

interpretation gen: fresh_counter ev_transport_next_generation
proof
  fix c :: u32
  show "ev_transport_next_generation c \<noteq> 0"
    by (simp add: ev_transport_next_generation_def Let_def)
  show "ev_transport_next_generation c \<noteq> c"
  proof (cases "c + 1 = 0")
    case True
    then have "c \<noteq> 1" by auto
    with True show ?thesis by (simp add: ev_transport_next_generation_def)
  qed (simp add: ev_transport_next_generation_def)
  show "c \<noteq> - 1 \<Longrightarrow> ev_transport_next_generation c = c + 1"
    by (auto simp: ev_transport_next_generation_def Let_def add_eq_0_iff2)
qed

section \<open>The registry as a map, and its interface\<close>

text \<open>
  What the registry promises: each endpoint slot is closed or carries one live generation.
  A reference is current exactly when it names the live generation of its slot.
\<close>

definition live :: "transport \<Rightarrow> (ev_transport_id \<times> u8) \<Rightarrow> u32 option" where
  "live t = (\<lambda>(i, k).
     if ev_transport_valid_slot i k \<and> s_supported t i \<and> ls_open (s_links t i k)
     then Some (ls_generation (s_links t i k)) else None)"

definition slot_of :: "ev_link_ref \<Rightarrow> ev_transport_id \<times> u8" where
  "slot_of l = (lr_transport_id l, lr_slot l)"

lemma current_live: "ev_transport_link_is_current t (Some l) \<longleftrightarrow> live t (slot_of l) = Some (lr_generation l)"
  by (auto simp: link_current_iff live_def slot_of_def)

definition retire :: "transport \<Rightarrow> ev_link_ref \<Rightarrow> transport" where
  "retire t l = snd (snd (ev_transport_link_advance_generation t (Some l) (Some zero_link)))"

lemma live_set_owner [simp]: "live (ev_transport_set_owner t l) = live t"
  by (auto simp: live_def ev_transport_set_owner_def split: option.splits)

lemma live_upd_has_owner [simp]: "live (t\<lparr>s_has_owner := v\<rparr>) = live t"
  by (auto simp: live_def)

lemma live_upd_owner [simp]: "live (t\<lparr>s_owner := l\<rparr>) = live t"
  by (auto simp: live_def)

lemma live_set_link:
  "ev_transport_valid_slot i k \<Longrightarrow> s_supported t i \<Longrightarrow>
   live (set_link t i k ls) =
     (live t)((i, k) := (if ls_open ls then Some (ls_generation ls) else None))"
  by (auto simp: live_def fun_eq_iff)

lemma open_link_upd:
  "ls_open x \<Longrightarrow> x\<lparr>ls_generation := g\<rparr> = \<lparr>ls_generation = g, ls_open = True\<rparr>"
  by (cases x) simp

lemma link_advance_cases:
  "ev_transport_link_advance_generation t (Some l) (Some x) =
     (if ev_transport_link_is_current t (Some l) \<and>
         (lr_transport_id l < EV_TRANSPORT_TCP \<longrightarrow> s_serial_io_lock t (lr_transport_id l))
      then
        let g = ev_transport_next_generation (lr_generation l);
            l' = l\<lparr>lr_generation := g\<rparr>;
            t1 = set_link t (lr_transport_id l) (lr_slot l)
                   \<lparr>ls_generation = g, ls_open = True\<rparr>
        in (True, Some l',
            if s_has_owner t \<and> slot_of (s_owner t) = slot_of l then t1\<lparr>s_owner := l'\<rparr> else t1)
      else (False, Some x, t))"
proof (cases "ev_transport_link_is_current t (Some l)")
  case True
  then have "ev_transport_valid_slot (lr_transport_id l) (lr_slot l)"
    and "ls_open (s_links t (lr_transport_id l) (lr_slot l))"
    and "ls_generation (s_links t (lr_transport_id l) (lr_slot l)) = lr_generation l"
    by (simp_all add: link_current_iff)
  moreover from this(1) have "lr_transport_id l \<noteq> EV_TRANSPORT_MAX" by auto
  ultimately show ?thesis using True
    by (cases "lr_transport_id l")
      (simp_all add: ev_transport_link_advance_generation_def locked_eq_current Let_def
        ev_transport_serial_io_take_def slot_of_def open_link_upd)
next
  case False
  then show ?thesis
    by (simp add: ev_transport_link_advance_generation_def locked_eq_current)
qed

lemma live_retire:
  "ev_transport_link_is_current t (Some l) \<Longrightarrow>
   (lr_transport_id l < EV_TRANSPORT_TCP \<longrightarrow> s_serial_io_lock t (lr_transport_id l)) \<Longrightarrow>
   live (retire t l) = (live t)(slot_of l \<mapsto> ev_transport_next_generation (lr_generation l))"
  by (simp add: retire_def link_advance_cases Let_def live_set_link link_current_iff slot_of_def)

lemma live_retire_frame: "slot_of l' \<noteq> slot_of l \<Longrightarrow> live (retire t l) (slot_of l') = live t (slot_of l')"
proof (cases "ev_transport_link_is_current t (Some l) \<and>
    (lr_transport_id l < EV_TRANSPORT_TCP \<longrightarrow> s_serial_io_lock t (lr_transport_id l))")
  case True
  moreover assume "slot_of l' \<noteq> slot_of l"
  ultimately show ?thesis using live_retire [of t l] by simp
next
  case False
  then show ?thesis by (simp only: retire_def link_advance_cases if_False snd_conv)
qed

text \<open>
  The contract the session relies on: at most one reference of a slot is current, retiring
  a current reference makes it stale and leaves every other slot alone.
\<close>

locale link_registry =
  fixes current :: "'t \<Rightarrow> 'l \<Rightarrow> bool"
    and slot :: "'l \<Rightarrow> 'p"
    and retire_link :: "'t \<Rightarrow> 'l \<Rightarrow> 't"
    and usable :: "'t \<Rightarrow> bool"
  assumes current_unique: "current t l \<Longrightarrow> current t l' \<Longrightarrow> slot l = slot l' \<Longrightarrow> l = l'"
    and retire_stale: "usable t \<Longrightarrow> current t l \<Longrightarrow> \<not> current (retire_link t l) l"
    and retire_frame: "slot l' \<noteq> slot l \<Longrightarrow> current (retire_link t l) l' = current t l'"
    and retire_usable: "usable t \<Longrightarrow> usable (retire_link t l)"
begin

lemma retired_slot_has_no_old_ref:
  assumes "usable t" and "current t l" and "current (retire_link t l) l'"
  shows "l' \<noteq> l \<and> (slot l' = slot l \<longrightarrow> \<not> current t l')"
  using assms retire_stale current_unique by metis

lemma retire_all_frame:
  "\<forall>x \<in> set ls. slot x \<noteq> slot l \<Longrightarrow> current (foldl retire_link t ls) l = current t l"
  by (induction ls arbitrary: t) (auto simp: retire_frame)

lemma retire_all_usable: "usable t \<Longrightarrow> usable (foldl retire_link t ls)"
  by (induction ls arbitrary: t) (auto intro: retire_usable)

lemma retire_all_stale:
  assumes "usable t" and "distinct (map slot ls)" and "\<forall>l \<in> set ls. current t l"
    and "l \<in> set ls"
  shows "\<not> current (foldl retire_link t ls) l"
  using assms
proof (induction ls arbitrary: t)
  case Nil
  then show ?case by simp
next
  case (Cons x xs)
  show ?case
  proof (cases "l = x")
    case True
    with Cons.prems(2) have "\<forall>y \<in> set xs. slot y \<noteq> slot l" by (auto simp: image_iff)
    then show ?thesis using True Cons.prems retire_stale by (simp add: retire_all_frame)
  next
    case False
    have "\<forall>y \<in> set xs. current (retire_link t x) y"
      using Cons.prems(2,3) retire_frame by (force simp: image_iff)
    with False Cons show ?thesis by (simp add: retire_usable)
  qed
qed

end

definition serial_locks_ready :: "transport \<Rightarrow> bool" where
  "serial_locks_ready t \<longleftrightarrow> (\<forall>i < EV_TRANSPORT_TCP. s_serial_io_lock t i)"

lemma retire_locks [simp]: "s_serial_io_lock (retire t l) = s_serial_io_lock t"
  by (simp add: retire_def link_advance_cases Let_def)

lemma retire_stale:
  "serial_locks_ready t \<Longrightarrow> ev_transport_link_is_current t (Some l) \<Longrightarrow>
   \<not> ev_transport_link_is_current (retire t l) (Some l)"
  using gen.nxt_changes [of "lr_generation l"]
  by (simp add: serial_locks_ready_def current_live [of "retire t l"] live_retire)

interpretation reg: link_registry
  "\<lambda>t l. ev_transport_link_is_current t (Some l)" slot_of retire serial_locks_ready
proof
  fix t :: transport and l l' :: ev_link_ref
  show "ev_transport_link_is_current t (Some l) \<Longrightarrow> ev_transport_link_is_current t (Some l') \<Longrightarrow>
      slot_of l = slot_of l' \<Longrightarrow> l = l'"
    by (simp add: current_live slot_of_def)
  show "serial_locks_ready t \<Longrightarrow> ev_transport_link_is_current t (Some l) \<Longrightarrow>
      \<not> ev_transport_link_is_current (retire t l) (Some l)"
    by (rule retire_stale)
  show "slot_of l' \<noteq> slot_of l \<Longrightarrow>
      ev_transport_link_is_current (retire t l) (Some l') = ev_transport_link_is_current t (Some l')"
    by (simp add: current_live live_retire_frame)
  show "serial_locks_ready t \<Longrightarrow> serial_locks_ready (retire t l)"
    by (simp add: serial_locks_ready_def)
qed

end
