(* ===== verification/TransportProps.thy ===== *)
theory TransportProps
  imports Transport
begin

text \<open>
  Correctness of the endpoint registry: its invariant over every sequence of operations, the
  refinement to a map of live generations, permanent staleness of retired references, and the
  contract of the nonblocking reads and writes.
\<close>

section \<open>Operations and runs\<close>

datatype transport_op =
    Op_init board "ev_transport_id \<Rightarrow> bool"
  | Op_open ev_transport_id u8
  | Op_close board "ev_link_ref option"
  | Op_advance "ev_link_ref option"
  | Op_set_owner "ev_link_ref option"

fun transport_step :: "transport \<Rightarrow> transport_op \<Rightarrow> transport" where
  "transport_step t (Op_init b mk) = snd (ev_transport_init0 b mk t)"
| "transport_step t (Op_open i k) = snd (snd (ev_transport_link_open t i k (Some zero_link)))"
| "transport_step t (Op_close b l) = fst (ev_transport_link_close b t l)"
| "transport_step t (Op_advance l) =
     snd (snd (ev_transport_link_advance_generation t l (Some zero_link)))"
| "transport_step t (Op_set_owner l) = ev_transport_set_owner t l"

text \<open>
  The invariant: only supported, valid slots are open and their generation is not zero; the
  recorded owner is a current link; nothing is open before initialisation.
\<close>

definition transport_inv :: "transport \<Rightarrow> bool" where
  "transport_inv t \<longleftrightarrow>
     (\<forall>i k. ls_open (s_links t i k) \<longrightarrow>
        ev_transport_valid_slot i k \<and> s_supported t i \<and> ls_generation (s_links t i k) \<noteq> 0 \<and>
        s_transport_ready t) \<and>
     (s_has_owner t \<longrightarrow> ev_transport_link_is_current t (Some (s_owner t)))"

lemma transport_inv_openD:
  assumes "transport_inv t" and "ls_open (s_links t i k)"
  shows "ev_transport_valid_slot i k" and "s_supported t i"
    and "ls_generation (s_links t i k) \<noteq> 0" and "s_transport_ready t"
  using assms unfolding transport_inv_def by blast+

lemma transport_inv_ownerD:
  "transport_inv t \<Longrightarrow> s_has_owner t \<Longrightarrow> ev_transport_link_is_current t (Some (s_owner t))"
  by (simp add: transport_inv_def)

lemma inv_reset: "transport_inv transport_reset"
  by (simp add: transport_inv_def transport_reset_def zero_link_state_def)

lemma inv_lock_upd [simp]:
  "transport_inv (t\<lparr>s_serial_io_lock := f\<rparr>) = transport_inv t"
  by (simp add: transport_inv_def link_current_iff)

lemma create_serial_locks_inv:
  "transport_inv t \<Longrightarrow> transport_inv (snd (create_serial_locks mk ids t))"
  by (induction mk ids t rule: create_serial_locks.induct) (auto simp: Let_def)

lemma open_serial_links_state:
  "s_supported (open_serial_links ids t) = s_supported t"
  "s_links (open_serial_links ids t) i k =
     (if i \<in> set ids \<and> s_supported t i \<and> k = 0 then \<lparr>ls_generation = 1, ls_open = True\<rparr>
      else s_links t i k)"
  by (induction ids arbitrary: t) auto

lemma init0_inv:
  assumes "transport_inv t"
  shows "transport_inv (snd (ev_transport_init0 b mk t))"
proof -
  obtain created t1 where
    c: "create_serial_locks mk [EV_TRANSPORT_USJ, EV_TRANSPORT_USB, EV_TRANSPORT_UART] t =
        (created, t1)"
    by fastforce
  with create_serial_locks_inv [OF assms] have "transport_inv t1" by (metis snd_conv)
  with assms c show ?thesis
    by (simp add: ev_transport_init0_def Let_def transport_inv_def open_serial_links_state
        zero_link_state_def)
      (auto simp: ev_transport_valid_slot_def)
qed

lemma link_open_inv:
  assumes "transport_inv t"
  shows "transport_inv (snd (snd (ev_transport_link_open t i k out)))"
proof (cases "out = None \<or> \<not> ev_transport_valid_slot i k \<or> \<not> s_transport_ready t \<or>
    \<not> ev_transport_id_supported t i \<or> ls_open (s_links t i k)")
  case True
  then show ?thesis using assms by (auto simp: ev_transport_link_open_def Let_def)
next
  case False
  then have t': "snd (snd (ev_transport_link_open t i k out)) =
      set_link t i k \<lparr>ls_generation = ev_transport_next_generation (ls_generation (s_links t i k)),
        ls_open = True\<rparr>"
    by (auto simp: ev_transport_link_open_def Let_def)
  from False assms have "s_has_owner t \<Longrightarrow> slot_of (s_owner t) \<noteq> (i, k)"
    by (auto simp: transport_inv_def link_current_iff slot_of_def)
  with False assms show ?thesis unfolding t'
    by (auto simp: transport_inv_def link_current_iff slot_of_def gen.nxt_nonzero
        ev_transport_id_supported_def)
qed

lemma link_close_cases:
  "fst (ev_transport_link_close b t (Some l)) =
     (if ev_transport_link_is_current t (Some l) \<and>
         (lr_transport_id l < EV_TRANSPORT_TCP \<longrightarrow> s_serial_io_lock t (lr_transport_id l))
      then
        let t1 = set_link t (lr_transport_id l) (lr_slot l)
              \<lparr>ls_generation = ev_transport_next_generation (lr_generation l), ls_open = False\<rparr>
        in if s_has_owner t \<and> s_owner t = l then t1\<lparr>s_has_owner := False\<rparr> else t1
      else t)"
proof (cases "ev_transport_link_is_current t (Some l)")
  case True
  then have "ev_transport_valid_slot (lr_transport_id l) (lr_slot l)"
    and "ls_generation (s_links t (lr_transport_id l) (lr_slot l)) = lr_generation l"
    by (simp_all add: link_current_iff)
  moreover from this(1) have "lr_transport_id l \<noteq> EV_TRANSPORT_MAX" by auto
  moreover have "(s_owner t = l) = (lr_transport_id (s_owner t) = lr_transport_id l \<and>
      lr_slot (s_owner t) = lr_slot l \<and> lr_generation (s_owner t) = lr_generation l)"
    by (cases "s_owner t"; cases l) auto
  ultimately show ?thesis using True
    by (cases "lr_transport_id l")
      (simp_all add: ev_transport_link_close_def locked_eq_current Let_def
        ev_transport_serial_io_take_def)
next
  case False
  then show ?thesis by (simp add: ev_transport_link_close_def locked_eq_current)
qed

lemma link_close_None: "fst (ev_transport_link_close b t None) = t"
  by (simp add: ev_transport_link_close_def)

lemma link_close_inv:
  assumes "transport_inv t"
  shows "transport_inv (fst (ev_transport_link_close b t link))"
proof (cases link)
  case None
  then show ?thesis using assms by (simp add: link_close_None)
next
  case (Some l)
  have "slot_of (s_owner t) \<noteq> slot_of l"
    if "ev_transport_link_is_current t (Some l)" "s_has_owner t" "s_owner t \<noteq> l"
    using that transport_inv_ownerD [OF assms] reg.current_unique by blast
  with assms show ?thesis unfolding Some link_close_cases
    by (auto simp: Let_def transport_inv_def link_current_iff slot_of_def)
qed

lemma advance_None: "snd (snd (ev_transport_link_advance_generation t None out)) = t"
  by (simp add: ev_transport_link_advance_generation_def)

lemma advance_inv:
  assumes "transport_inv t"
  shows "transport_inv (snd (snd (ev_transport_link_advance_generation t link (Some out))))"
proof (cases link)
  case None
  then show ?thesis using assms by (simp add: advance_None)
next
  case (Some l)
  from assms show ?thesis unfolding Some link_advance_cases
    by (auto simp: Let_def transport_inv_def link_current_iff slot_of_def gen.nxt_nonzero)
qed

lemma set_owner_inv: "transport_inv t \<Longrightarrow> transport_inv (ev_transport_set_owner t l)"
  by (auto simp: transport_inv_def ev_transport_set_owner_def locked_eq_current link_current_iff
      split: option.splits)

interpretation tm: event_machine transport_step transport_inv
proof
  fix t e
  assume "transport_inv t"
  then show "transport_inv (transport_step t e)"
    by (cases e) (auto intro: init0_inv link_open_inv link_close_inv advance_inv set_owner_inv)
qed

text \<open>
  From power-on, whatever sequence of initialisations, opens, closes, generation
  advances and owner changes runs, the registry invariant holds: every open slot is a valid
  slot of a supported endpoint with a nonzero generation, and a recorded owner is current.
\<close>

theorem transport_runs_keep_invariant:
  "transport_inv (foldl transport_step transport_reset ops)"
  by (rule tm.run_inv) (rule inv_reset)

section \<open>Refinement: a map of live generations\<close>

text \<open>
  What one operation does to the map from slots to live generations: opening a closed slot
  gives it the next generation, closing a current link empties its slot, advancing replaces
  the generation, and nothing else changes the map.
\<close>

fun live_step :: "(ev_transport_id \<times> u8 \<Rightarrow> bool) \<Rightarrow> (ev_transport_id \<times> u8 \<Rightarrow> u32) \<Rightarrow>
    (ev_transport_id \<times> u8 \<rightharpoonup> u32) \<Rightarrow> transport_op \<Rightarrow> (ev_transport_id \<times> u8 \<rightharpoonup> u32)" where
  "live_step can gen_at m (Op_init b mk) = m"
| "live_step can gen_at m (Op_open i k) =
     (if can (i, k) \<and> m (i, k) = None
      then m((i, k) \<mapsto> ev_transport_next_generation (gen_at (i, k))) else m)"
| "live_step can gen_at m (Op_close b l) =
     (case l of Some r \<Rightarrow> if m (slot_of r) = Some (lr_generation r) then m(slot_of r := None) else m
      | None \<Rightarrow> m)"
| "live_step can gen_at m (Op_advance l) =
     (case l of Some r \<Rightarrow> if m (slot_of r) = Some (lr_generation r)
        then m(slot_of r \<mapsto> ev_transport_next_generation (lr_generation r)) else m
      | None \<Rightarrow> m)"
| "live_step can gen_at m (Op_set_owner l) = m"

definition slot_usable :: "transport \<Rightarrow> ev_transport_id \<times> u8 \<Rightarrow> bool" where
  "slot_usable t = (\<lambda>(i, k). ev_transport_valid_slot i k \<and> s_supported t i)"

definition slot_generation :: "transport \<Rightarrow> ev_transport_id \<times> u8 \<Rightarrow> u32" where
  "slot_generation t = (\<lambda>(i, k). ls_generation (s_links t i k))"

lemma live_link_open:
  assumes "s_transport_ready t"
  shows "live (transport_step t (Op_open i k)) =
    live_step (slot_usable t) (slot_generation t) (live t) (Op_open i k)"
  using assms
  by (auto simp: ev_transport_link_open_def Let_def slot_usable_def slot_generation_def
      live_set_link ev_transport_id_supported_def live_def [of t] transport_below_MAX)

lemma live_link_close:
  assumes "serial_locks_ready t"
  shows "live (transport_step t (Op_close b l)) =
    live_step (slot_usable t) (slot_generation t) (live t) (Op_close b l)"
proof (cases l)
  case None
  then show ?thesis by (simp add: link_close_None)
next
  case (Some r)
  show ?thesis
  proof (cases "ev_transport_link_is_current t (Some r)")
    case True
    then have "live (set_link t (lr_transport_id r) (lr_slot r)
        \<lparr>ls_generation = g, ls_open = False\<rparr>) = (live t)(slot_of r := None)" for g
      by (simp add: link_current_iff live_set_link slot_of_def)
    with True assms show ?thesis
      by (simp add: Some link_close_cases serial_locks_ready_def Let_def current_live
          del: transport_bounds)
  next
    case False
    then show ?thesis by (simp add: Some link_close_cases current_live)
  qed
qed

lemma live_advance:
  assumes "serial_locks_ready t"
  shows "live (transport_step t (Op_advance l)) =
    live_step (slot_usable t) (slot_generation t) (live t) (Op_advance l)"
proof (cases l)
  case None
  then show ?thesis by (simp add: advance_None)
next
  case (Some r)
  show ?thesis
  proof (cases "ev_transport_link_is_current t (Some r)")
    case True
    with assms have "live (retire t r) =
        (live t)(slot_of r \<mapsto> ev_transport_next_generation (lr_generation r))"
      by (intro live_retire) (simp_all add: serial_locks_ready_def)
    with True show ?thesis by (simp add: Some retire_def current_live)
  next
    case False
    then show ?thesis by (simp add: Some link_advance_cases current_live)
  qed
qed

text \<open>
  Property C7: once initialised, every registry operation acts on the live generations exactly
  as the map specification says (a simulation with \<open>live\<close> as abstraction function).
\<close>

theorem transport_refines_live_map:
  assumes "s_transport_ready t" and "serial_locks_ready t"
  shows "live (transport_step t op) =
    live_step (slot_usable t) (slot_generation t) (live t) op"
proof (cases op)
  case (Op_init b mk)
  with assms(1) show ?thesis by (simp add: ev_transport_init0_def)
next
  case (Op_open i k)
  show ?thesis unfolding Op_open by (rule live_link_open [OF assms(1)])
next
  case (Op_close b l)
  show ?thesis unfolding Op_close by (rule live_link_close [OF assms(2)])
next
  case (Op_advance l)
  show ?thesis unfolding Op_advance by (rule live_advance [OF assms(2)])
next
  case (Op_set_owner l)
  then show ?thesis by simp
qed

section \<open>Stale references stay stale\<close>

lemma open_close_gen:
  "slot_generation (snd (snd (ev_transport_link_open t i k out))) p \<in>
     {slot_generation t p, ev_transport_next_generation (slot_generation t p)}"
  by (auto simp: ev_transport_link_open_def Let_def slot_generation_def split: prod.splits)

lemma link_close_gen:
  "slot_generation (fst (ev_transport_link_close b t l)) p \<in>
     {slot_generation t p, ev_transport_next_generation (slot_generation t p)}"
  by (cases l) (auto simp: link_close_None link_close_cases Let_def slot_generation_def
      link_current_iff split: prod.splits)

lemma advance_gen:
  "slot_generation (snd (snd (ev_transport_link_advance_generation t l (Some x)))) p \<in>
     {slot_generation t p, ev_transport_next_generation (slot_generation t p)}"
  by (cases l) (auto simp: advance_None link_advance_cases Let_def slot_generation_def
      link_current_iff split: prod.splits)

lemma set_owner_gen: "slot_generation (ev_transport_set_owner t l) p = slot_generation t p"
  by (auto simp: ev_transport_set_owner_def slot_generation_def split: option.splits prod.splits)

lemma step_generation:
  assumes "s_transport_ready t"
  shows "slot_generation (transport_step t op) p \<in>
     {slot_generation t p, ev_transport_next_generation (slot_generation t p)}"
  using assms open_close_gen [of t] link_close_gen [of _ t] advance_gen [of t] set_owner_gen [of t]
  by (cases op) (auto simp: ev_transport_init0_def)

lemma step_ready: "s_transport_ready t \<Longrightarrow> s_transport_ready (transport_step t op)"
proof (cases op)
  case (Op_close b l)
  then show "s_transport_ready t \<Longrightarrow> ?thesis"
    by (cases l) (simp_all add: link_close_None link_close_cases Let_def)
next
  case (Op_advance l)
  then show "s_transport_ready t \<Longrightarrow> ?thesis"
    by (cases l) (simp_all add: advance_None link_advance_cases Let_def)
qed (auto simp: ev_transport_init0_def ev_transport_link_open_def Let_def
    ev_transport_set_owner_def split: option.splits)

lemma step_generation_unat:
  assumes "s_transport_ready t" and "unat (slot_generation t p) + 1 < 2 ^ 32"
  shows "unat (slot_generation t p) \<le> unat (slot_generation (transport_step t op) p)"
    and "unat (slot_generation (transport_step t op) p) \<le> unat (slot_generation t p) + 1"
proof -
  have "unat (ev_transport_next_generation (slot_generation t p)) = Suc (unat (slot_generation t p))"
    using assms(2) by (intro gen.nxt_unat) simp
  with step_generation [OF assms(1), of op p]
  show "unat (slot_generation t p) \<le> unat (slot_generation (transport_step t op) p)"
    and "unat (slot_generation (transport_step t op) p) \<le> unat (slot_generation t p) + 1"
    by auto
qed

lemma run_generation_mono:
  assumes "s_transport_ready t" and "unat (slot_generation t p) + length ops < 2 ^ 32"
  shows "unat (slot_generation t p) \<le> unat (slot_generation (foldl transport_step t ops) p)"
  using assms
proof (induction ops arbitrary: t)
  case Nil
  then show ?case by simp
next
  case (Cons op ops)
  have "unat (slot_generation t p) + 1 < 2 ^ 32" using Cons.prems by simp
  note one = step_generation_unat [OF Cons.prems(1) this, of op]
  have "unat (slot_generation (transport_step t op) p)
      \<le> unat (slot_generation (foldl transport_step (transport_step t op) ops) p)"
    using Cons.prems one by (intro Cons.IH step_ready) simp_all
  with one show ?case by simp
qed

lemma current_generation:
  "ev_transport_link_is_current t (Some l) \<Longrightarrow> slot_generation t (slot_of l) = lr_generation l"
  by (simp add: link_current_iff slot_generation_def slot_of_def)

lemma retired_generation:
  assumes "serial_locks_ready t" and "ev_transport_link_is_current t (Some l)"
    and "op = Op_close b (Some l) \<or> op = Op_advance (Some l)"
  shows "slot_generation (transport_step t op) (slot_of l) =
    ev_transport_next_generation (lr_generation l)"
  using assms
  by (auto simp: link_close_cases link_advance_cases serial_locks_ready_def Let_def
      slot_generation_def slot_of_def)

text \<open>
  A reference whose link was closed or advanced is never current again, whatever
  operations follow, for as long as its slot does not run through all generations (fewer
  operations than are left below the 32-bit wrap-around).
\<close>

theorem retired_reference_stays_stale:
  assumes "s_transport_ready t" and "serial_locks_ready t"
    and "ev_transport_link_is_current t (Some l)"
    and "op = Op_close b (Some l) \<or> op = Op_advance (Some l)"
    and "unat (lr_generation l) + length ops + 1 < 2 ^ 32"
  shows "\<not> ev_transport_link_is_current (foldl transport_step (transport_step t op) ops) (Some l)"
proof
  assume cur: "ev_transport_link_is_current (foldl transport_step (transport_step t op) ops) (Some l)"
  have g: "unat (slot_generation (transport_step t op) (slot_of l)) = Suc (unat (lr_generation l))"
    using retired_generation [OF assms(2-4)] assms(5) gen.nxt_unat [of "lr_generation l"] by simp
  have "unat (slot_generation (transport_step t op) (slot_of l)) \<le>
      unat (slot_generation (foldl transport_step (transport_step t op) ops) (slot_of l))"
    using assms(5) by (intro run_generation_mono step_ready assms(1)) (simp add: g)
  with g have "Suc (unat (lr_generation l)) \<le>
      unat (slot_generation (foldl transport_step (transport_step t op) ops) (slot_of l))"
    by simp
  with current_generation [OF cur] show False by simp
qed

section \<open>Reads and writes\<close>

lemma serial_read_loop_length: "length (fst (serial_read_loop get n r)) \<le> n"
  by (induction get n r rule: serial_read_loop.induct) (auto simp: Let_def split: prod.splits)

text \<open>The documented behaviour of a backend: progress is at least one byte, at most the room.\<close>

definition progress_within :: "nat \<Rightarrow> ev_io_result \<Rightarrow> bool" where
  "progress_within n res \<longleftrightarrow>
     (io_status res = EV_IO_PROGRESS \<longrightarrow> 0 < io_transferred res \<and> io_transferred res \<le> n)"

lemma read_progress_within:
  assumes "\<And>l buf n r. progress_within n (fst (tcp_read l buf n r))"
  shows "progress_within capacity (fst (ev_transport_read b ring_get tcp_read t link buffer capacity r))"
proof (cases "\<exists>buf l. buffer = Some buf \<and> link = Some l \<and> capacity \<noteq> 0 \<and>
    ev_transport_ref_matches t link \<and> lr_transport_id l \<noteq> EV_TRANSPORT_TCP")
  case True
  then obtain buf l where c: "buffer = Some buf" "link = Some l" "capacity \<noteq> 0"
    "ev_transport_ref_matches t link" "lr_transport_id l \<noteq> EV_TRANSPORT_TCP" by blast
  have "length (fst (serial_read_loop
      (ev_transport_serial_ring_get b ring_get (lr_transport_id l)) capacity r)) \<le> capacity"
    by (rule serial_read_loop_length)
  with c show ?thesis
    by (auto simp: ev_transport_read_def progress_within_def Let_def split_beta)
next
  case False
  then show ?thesis using assms [of capacity]
    by (auto simp: ev_transport_read_def progress_within_def split_beta split: option.splits)
qed

lemma read_stale:
  "\<not> ev_transport_link_is_current t link \<Longrightarrow> 0 < capacity \<Longrightarrow>
   ev_transport_read b ring_get tcp_read t link (Some buf) capacity r =
     (ev_transport_result EV_IO_CLOSED 0 ESP_ERR_INVALID_STATE, Some buf, r)"
  by (cases link) (simp_all add: ev_transport_read_def ev_transport_link_is_current_def)

text \<open>
  A read that reports progress transferred at least one byte and at most the
  capacity, given that the TCP backend does; and a read through a missing or stale reference
  reports CLOSED, leaves the buffer alone and takes no byte from any input ring.
\<close>

theorem transport_read_contract:
  assumes "\<And>l buf n r. progress_within n (fst (tcp_read l buf n r))" and "0 < capacity"
  shows "progress_within capacity
      (fst (ev_transport_read b ring_get tcp_read t link (Some buf) capacity r)) \<and>
    (\<not> ev_transport_link_is_current t link \<longrightarrow>
      ev_transport_read b ring_get tcp_read t link (Some buf) capacity r =
        (ev_transport_result EV_IO_CLOSED 0 ESP_ERR_INVALID_STATE, Some buf, r))"
proof (intro conjI impI)
  show "progress_within capacity
      (fst (ev_transport_read b ring_get tcp_read t link (Some buf) capacity r))"
    by (rule read_progress_within) (rule assms(1))
qed (rule read_stale [OF _ assms(2)])

text \<open>
  Writing: a stale or missing reference reaches neither the serial driver nor the socket
  backend, whose state is returned unchanged.
\<close>

lemma write_stale:
  "\<not> ev_transport_link_is_current t link \<Longrightarrow>
   snd (ev_transport_write b tx_some tcp_write t link buffer d) = d \<and>
   io_status (fst (ev_transport_write b tx_some tcp_write t link buffer d)) \<in> {EV_IO_CLOSED, EV_IO_ERROR}"
  by (cases link) (auto simp: ev_transport_write_def ev_transport_link_is_current_def
      split: option.splits)

lemma writev_stale:
  "\<not> ev_transport_link_is_current t link \<Longrightarrow>
   snd (ev_transport_writev b tx_some tcp_write tcp_writev t link vs d) = d \<and>
   io_status (fst (ev_transport_writev b tx_some tcp_write tcp_writev t link vs d))
     \<in> {EV_IO_CLOSED, EV_IO_ERROR}"
  using write_stale [of t link b tx_some tcp_write _ d]
  by (auto simp: ev_transport_writev_def ev_transport_link_is_current_def split: option.splits)

lemma serial_write_progress:
  assumes "\<And>i x d. fst (tx_some i x d) \<le> int (length x)"
  shows "progress_within (length x) (fst (ev_transport_serial_write b tx_some i x d))"
  using assms [of i x d] by (auto simp: ev_transport_serial_write_def progress_within_def split_beta)

text \<open>
  A write sends only over a current link, and what it reports as progress is at
  least one byte and no more than was offered, when the drivers never take more than offered.
\<close>

theorem transport_write_contract:
  assumes "\<And>i x d. fst (tx_some i x d) \<le> int (length x)"
    and "\<And>l x d. progress_within (length x) (fst (tcp_write l x d))"
  shows "progress_within (length x)
      (fst (ev_transport_write b tx_some tcp_write t link (Some x) d)) \<and>
    (\<not> ev_transport_link_is_current t link \<longrightarrow>
      snd (ev_transport_write b tx_some tcp_write t link (Some x) d) = d)"
proof (intro conjI impI)
  have serial: "progress_within (length x) (fst (ev_transport_serial_write b tx_some i x d))" for i
    by (rule serial_write_progress) (rule assms(1))
  have tcp: "progress_within (length x) (fst (tcp_write l x d))" for l
    by (rule assms(2))
  show "progress_within (length x)
      (fst (ev_transport_write b tx_some tcp_write t link (Some x) d))"
  proof (cases link)
    case None
    then show ?thesis by (simp add: ev_transport_write_def progress_within_def)
  next
    case (Some l)
    then show ?thesis using serial [of "lr_transport_id l"] tcp [of l]
      by (simp add: ev_transport_write_def progress_within_def)
  qed
  show "\<not> ev_transport_link_is_current t link \<Longrightarrow>
      snd (ev_transport_write b tx_some tcp_write t link (Some x) d) = d"
    by (rule write_stale [THEN conjunct1])
qed

end
