(* ===== verification/Channel.thy ===== *)
theory Channel
  imports TransportProps
begin

text \<open>
  Output routing of \<open>platform/ev_channel.c\<close>: both streams go to the owner's link while a
  session owns the device and to a fixed serial sink otherwise. The state \<open>channel\<close> holds the
  file's static variables. The legacy route callback is modelled by the list of its
  invocations, in order. \<open>console_write\<close> stands for \<open>mp_hal_stdout_tx_strn\<close>.
\<close>

section \<open>Data\<close>

datatype ev_stream = EV_STREAM_USER | EV_STREAM_DEBUG | EV_STREAM_MAX

record channel =
  c_has_owner :: bool
  c_owner_link :: ev_link_ref
  c_no_owner_sink :: cstring
  c_initialized :: bool
  c_route_cb :: bool

definition channel_reset :: "board \<Rightarrow> channel" where
  "channel_reset b = \<lparr>c_has_owner = False, c_owner_link = zero_link,
     c_no_owner_sink = default_sink b, c_initialized = False, c_route_cb = False\<rparr>"

record ev_local_sink =
  sink_id :: cstring
  sink_ready :: bool

definition s_local_sinks :: "ev_local_sink list" where
  "s_local_sinks = [\<lparr>sink_id = ''console'', sink_ready = True\<rparr>,
                    \<lparr>sink_id = ''null'', sink_ready = True\<rparr>]"

text \<open>One call of the route callback: the stream, the sink name, the auto flag, the reason.\<close>

type_synonym route_call = "ev_stream \<times> cstring \<times> bool \<times> cstring"

section \<open>The compile-time check of the sink names\<close>

definition sink_config_ok :: "board \<Rightarrow> cstring \<Rightarrow> bool" where
  "sink_config_ok b name \<longleftrightarrow>
     (name = ''usj'' \<and> hw_usb_serial_jtag b) \<or> (name = ''usb'' \<and> hw_usb_cdc b) \<or>
     (name = ''uart'' \<and> hw_uart_repl b)"

definition board_config_ok :: "board \<Rightarrow> bool" where
  "board_config_ok b \<longleftrightarrow> sink_config_ok b (default_sink b) \<and> sink_config_ok b (fallback_sink b)"

section \<open>Operations\<close>

definition ev_local_sink_find :: "cstring option \<Rightarrow> ev_local_sink option" where
  "ev_local_sink_find name =
     (case name of None \<Rightarrow> None
      | Some n \<Rightarrow>
        (case find (\<lambda>s. n = sink_id s) s_local_sinks of
           Some s \<Rightarrow> Some s
         | None \<Rightarrow> if n = ''none'' then Some (s_local_sinks ! 1) else None))"

definition ev_channel_no_owner_link ::
  "transport \<Rightarrow> cstring \<Rightarrow> ev_link_ref option \<Rightarrow> bool \<times> ev_link_ref option" where
  "ev_channel_no_owner_link t name out =
     (case ev_transport_id_from_name (Some name) of
        None \<Rightarrow> (False, out)
      | Some i \<Rightarrow> ev_transport_link_ref t i EV_TRANSPORT_PHYSICAL_SLOT out)"

definition ev_channel_init0 :: "board \<Rightarrow> channel \<Rightarrow> channel" where
  "ev_channel_init0 b c =
     (if \<not> c_initialized c
      then c\<lparr>c_owner_link := zero_link, c_has_owner := False,
             c_no_owner_sink := default_sink b, c_initialized := True\<rparr>
      else c)"

definition ev_channel_ensure_init :: "board \<Rightarrow> channel \<Rightarrow> channel" where
  "ev_channel_ensure_init b c = (if \<not> c_initialized c then ev_channel_init0 b c else c)"

definition ev_channel_set_route_changed_cb :: "channel \<Rightarrow> bool \<Rightarrow> channel" where
  "ev_channel_set_route_changed_cb c installed = c\<lparr>c_route_cb := installed\<rparr>"

definition ev_channel_set_owner_link ::
  "board \<Rightarrow> transport \<Rightarrow> channel \<Rightarrow> ev_link_ref option \<Rightarrow> esp_err \<times> channel \<times> route_call list" where
  "ev_channel_set_owner_link b t c link =
     (let c = ev_channel_ensure_init b c
      in if link \<noteq> None \<and> \<not> ev_transport_link_is_current t link
         then (ESP_ERR_INVALID_STATE, c, [])
         else
           let c1 = (case link of
                       Some l \<Rightarrow> c\<lparr>c_has_owner := True, c_owner_link := l\<rparr>
                     | None \<Rightarrow> c\<lparr>c_has_owner := False, c_owner_link := zero_link,
                                 c_no_owner_sink := fallback_sink b\<rparr>);
               (has_target, target) =
                 (if c_has_owner c1 then (True, Some (c_owner_link c1))
                  else ev_channel_no_owner_link t (c_no_owner_sink c1) (Some zero_link));
               target_name =
                 (if has_target
                  then ev_transport_name (lr_transport_id (the target))
                  else if c_has_owner c1 then ''null'' else c_no_owner_sink c1);
               reason = (if c_has_owner c1 then ''session_acquired'' else ''session_released'')
           in (ESP_OK, c1,
               if c_route_cb c1
               then [(EV_STREAM_USER, target_name, False, reason),
                     (EV_STREAM_DEBUG, target_name, False, reason)]
               else []))"

definition ev_channel_target_link ::
  "board \<Rightarrow> transport \<Rightarrow> channel \<Rightarrow> ev_stream \<Rightarrow> ev_link_ref option
     \<Rightarrow> bool \<times> ev_link_ref option \<times> channel" where
  "ev_channel_target_link b t c stream out =
     (if stream = EV_STREAM_MAX \<or> out = None then (False, out, c)
      else
        let c = ev_channel_ensure_init b c
        in if c_has_owner c
           then if ev_transport_link_is_current t (Some (c_owner_link c))
                then (True, Some (c_owner_link c), c) else (False, out, c)
           else let (found, out') = ev_channel_no_owner_link t (c_no_owner_sink c) out
                in (found, out', c))"

definition ev_channel_sink_link ::
  "transport \<Rightarrow> cstring option \<Rightarrow> u8 \<Rightarrow> ev_link_ref option \<Rightarrow> bool \<times> ev_link_ref option" where
  "ev_channel_sink_link t name k out =
     (case ev_transport_id_from_name name of
        None \<Rightarrow> (False, out) | Some i \<Rightarrow> ev_transport_link_ref t i k out)"

definition ev_channel_bind :: "ev_stream \<Rightarrow> cstring option \<Rightarrow> esp_err" where
  "ev_channel_bind stream name = ESP_ERR_NOT_SUPPORTED"

definition ev_channel_bind_auto :: "ev_stream \<Rightarrow> esp_err" where
  "ev_channel_bind_auto stream = ESP_ERR_NOT_SUPPORTED"

definition ev_channel_get :: "board \<Rightarrow> channel \<Rightarrow> ev_stream \<Rightarrow> cstring \<times> channel" where
  "ev_channel_get b c stream =
     (if stream = EV_STREAM_MAX then (''null'', c)
      else
        let c = ev_channel_ensure_init b c
        in (if c_has_owner c then ev_transport_name (lr_transport_id (c_owner_link c))
            else c_no_owner_sink c, c))"

definition ev_channel_is_auto :: "ev_stream \<Rightarrow> bool" where
  "ev_channel_is_auto stream = False"

definition endpoint ::
  "board \<Rightarrow> bool \<times> bool \<times> bool \<Rightarrow> transport \<Rightarrow> ev_transport_id \<Rightarrow> u8 \<Rightarrow> ev_transport_endpoint_state_t"
  where
  "endpoint b cdc t i k = the (ev_transport_endpoint_state b cdc t i k (Some zero_endpoint))"

definition ev_channel_ready ::
  "board \<Rightarrow> bool \<times> bool \<times> bool \<Rightarrow> transport \<Rightarrow> channel \<Rightarrow> ev_stream \<Rightarrow> bool \<times> channel" where
  "ev_channel_ready b cdc t c stream =
     (let (found, target, c) = ev_channel_target_link b t c stream (Some zero_link)
      in if \<not> found then (False, c)
         else (es_ready (endpoint b cdc t (lr_transport_id (the target)) (lr_slot (the target))), c))"

definition ev_channel_sink_supported ::
  "board \<Rightarrow> bool \<times> bool \<times> bool \<Rightarrow> transport \<Rightarrow> cstring option \<Rightarrow> bool" where
  "ev_channel_sink_supported b cdc t name =
     (case ev_transport_id_from_name name of
        None \<Rightarrow> ev_local_sink_find name \<noteq> None
      | Some i \<Rightarrow> es_supported (endpoint b cdc t i EV_TRANSPORT_PHYSICAL_SLOT))"

definition ev_channel_sink_ready ::
  "board \<Rightarrow> bool \<times> bool \<times> bool \<Rightarrow> transport \<Rightarrow> cstring option \<Rightarrow> bool" where
  "ev_channel_sink_ready b cdc t name =
     (case ev_transport_id_from_name name of
        Some i \<Rightarrow> es_ready (endpoint b cdc t i EV_TRANSPORT_PHYSICAL_SLOT)
      | None \<Rightarrow> (case ev_local_sink_find name of None \<Rightarrow> False | Some s \<Rightarrow> sink_ready s))"

definition ev_channel_sink_present ::
  "board \<Rightarrow> bool \<times> bool \<times> bool \<Rightarrow> transport \<Rightarrow> cstring option \<Rightarrow> bool" where
  "ev_channel_sink_present b cdc t name =
     (case ev_transport_id_from_name name of
        None \<Rightarrow> ev_local_sink_find name \<noteq> None
      | Some i \<Rightarrow> let st = endpoint b cdc t i EV_TRANSPORT_PHYSICAL_SLOT
                 in es_present_known st \<and> es_present st)"

definition ev_channel_sink_state ::
  "board \<Rightarrow> bool \<times> bool \<times> bool \<Rightarrow> transport \<Rightarrow> cstring option \<Rightarrow> cstring" where
  "ev_channel_sink_state b cdc t name =
     (case ev_transport_id_from_name name of
        None \<Rightarrow> if ev_local_sink_find name \<noteq> None then ''active'' else ''unknown''
      | Some i \<Rightarrow>
        let st = endpoint b cdc t i EV_TRANSPORT_PHYSICAL_SLOT
        in if \<not> es_supported st then ''unsupported''
           else if es_ready st then ''active''
           else if es_present_known st \<and> es_present st then ''present''
           else ''idle'')"

definition io_to_ssize :: "ev_io_result \<Rightarrow> int" where
  "io_to_ssize r =
     (if io_status r = EV_IO_PROGRESS then int (io_transferred r)
      else if io_status r = EV_IO_WOULD_BLOCK then 0 else - 1)"

definition ev_channel_write ::
  "board \<Rightarrow> (ev_transport_id \<Rightarrow> u8 list \<Rightarrow> 'd \<Rightarrow> int \<times> 'd)
     \<Rightarrow> (ev_link_ref \<Rightarrow> u8 list \<Rightarrow> 'd \<Rightarrow> ev_io_result \<times> 'd)
     \<Rightarrow> transport \<Rightarrow> channel \<Rightarrow> ev_stream \<Rightarrow> u8 list option \<Rightarrow> 'd \<Rightarrow> int \<times> channel \<times> 'd" where
  "ev_channel_write b tx_some tcp_write t c stream buf d =
     (if stream = EV_STREAM_MAX \<or> buf = None \<or> buf = Some [] then (0, c, d)
      else
        let (found, target, c) = ev_channel_target_link b t c stream (Some zero_link)
        in if \<not> found then (- 1, c, d)
           else let (r, d') = ev_transport_write b tx_some tcp_write t target buf d
                in (io_to_ssize r, c, d'))"

definition local_sink_write ::
  "(u8 list \<Rightarrow> 'd \<Rightarrow> int \<times> 'd) \<Rightarrow> ev_local_sink \<Rightarrow> u8 list \<Rightarrow> 'd \<Rightarrow> int \<times> 'd" where
  "local_sink_write console_write s data d =
     (if sink_id s = ''console'' then console_write data d else (int (length data), d))"

definition ev_channel_write_sink_if_present ::
  "board \<Rightarrow> (ev_transport_id \<Rightarrow> u8 list \<Rightarrow> 'd \<Rightarrow> int \<times> 'd)
     \<Rightarrow> (ev_link_ref \<Rightarrow> u8 list \<Rightarrow> 'd \<Rightarrow> ev_io_result \<times> 'd)
     \<Rightarrow> (u8 list \<Rightarrow> 'd \<Rightarrow> int \<times> 'd)
     \<Rightarrow> transport \<Rightarrow> cstring option \<Rightarrow> u8 list option \<Rightarrow> 'd \<Rightarrow> int \<times> 'd" where
  "ev_channel_write_sink_if_present b tx_some tcp_write console_write t name buf d =
     (if name = None \<or> buf = None \<or> buf = Some [] then (0, d)
      else
        let (found, link) = ev_channel_sink_link t name EV_TRANSPORT_PHYSICAL_SLOT (Some zero_link)
        in if found
           then let (r, d') = ev_transport_write b tx_some tcp_write t link buf d
                in (io_to_ssize r, d')
           else (case ev_local_sink_find name of
                   None \<Rightarrow> (- 1, d)
                 | Some s \<Rightarrow> if sink_ready s then local_sink_write console_write s (the buf) d
                            else (- 1, d)))"

section \<open>Facts\<close>

lemma ensure_init_initialized [simp]: "c_initialized (ev_channel_ensure_init b c)"
  by (simp add: ev_channel_ensure_init_def ev_channel_init0_def)

lemma ensure_init_id [simp]: "c_initialized c \<Longrightarrow> ev_channel_ensure_init b c = c"
  by (simp add: ev_channel_ensure_init_def)

lemma set_owner_link_None:
  "fst (snd (ev_channel_set_owner_link b t c None)) =
     (ev_channel_ensure_init b c)\<lparr>c_has_owner := False, c_owner_link := zero_link,
        c_no_owner_sink := fallback_sink b\<rparr>"
  by (simp add: ev_channel_set_owner_link_def Let_def split_beta)

lemma set_owner_link_current:
  "ev_transport_link_is_current t (Some l) \<Longrightarrow>
   fst (snd (ev_channel_set_owner_link b t c (Some l))) =
     (ev_channel_ensure_init b c)\<lparr>c_has_owner := True, c_owner_link := l\<rparr>"
  by (simp add: ev_channel_set_owner_link_def Let_def split_beta)

lemma set_owner_link_stale:
  "\<not> ev_transport_link_is_current t (Some l) \<Longrightarrow>
   ev_channel_set_owner_link b t c (Some l) = (ESP_ERR_INVALID_STATE, ev_channel_ensure_init b c, [])"
  by (simp add: ev_channel_set_owner_link_def)

text \<open>Every name of a serial endpoint that the build accepts is found again.\<close>

lemma id_from_name_name: "i \<noteq> EV_TRANSPORT_MAX \<Longrightarrow>
    ev_transport_id_from_name (Some (ev_transport_name i)) = Some i"
  by (cases i) (simp_all add: ev_transport_id_from_name_def ev_transport_name_def)

lemma id_from_name_Some:
  "ev_transport_id_from_name (Some n) = Some i \<Longrightarrow> ev_transport_name i = n \<and> i \<noteq> EV_TRANSPORT_MAX"
  by (auto simp: ev_transport_id_from_name_def split: if_splits)

text \<open>
  The four endpoint names and identifiers convert into each other without loss,
  and nothing else is an endpoint name; in particular no local sink is.
\<close>

theorem transport_names_roundtrip:
  "ev_transport_id_from_name (Some n) = Some i \<longleftrightarrow>
     i \<noteq> EV_TRANSPORT_MAX \<and> n = ev_transport_name i"
  using id_from_name_name id_from_name_Some by blast

lemma sink_config_id:
  "sink_config_ok b n \<Longrightarrow>
     \<exists>i. ev_transport_id_from_name (Some n) = Some i \<and> i < EV_TRANSPORT_TCP \<and>
         ev_transport_serial_supported b i"
  by (auto simp: sink_config_ok_def ev_transport_id_from_name_def ev_transport_name_def)


text \<open>
  Without an owner the stream goes to the configured sink. A board that passes the build's
  compile-time check names a serial endpoint there, so the target is the live link of that
  endpoint whenever it is open.
\<close>

lemma unowned_target:
  assumes "c_initialized c" and "\<not> c_has_owner c" and "stream \<noteq> EV_STREAM_MAX"
    and "sink_config_ok b (c_no_owner_sink c)"
  shows "\<exists>i. i < EV_TRANSPORT_TCP \<and> ev_transport_name i = c_no_owner_sink c \<and>
    ev_channel_target_link b t c stream (Some x) =
      (case live t (i, 0) of
         Some g \<Rightarrow> (True, Some \<lparr>lr_transport_id = i, lr_slot = 0, lr_generation = g\<rparr>, c)
       | None \<Rightarrow> (False, Some x, c))"
proof -
  obtain i where i: "ev_transport_id_from_name (Some (c_no_owner_sink c)) = Some i"
    "i < EV_TRANSPORT_TCP" using sink_config_id [OF assms(4)] by blast
  then have "ev_transport_valid_slot i 0"
    by (auto simp: ev_transport_valid_slot_def)
  with i assms(1-3) id_from_name_Some [OF i(1)] show ?thesis
    by (intro exI [of _ i])
      (simp add: ev_channel_target_link_def ev_channel_no_owner_link_def ev_transport_link_ref_def
        ev_transport_id_supported_def live_def)
qed

text \<open>The two sinks a channel can fall back to are always among the configured ones.\<close>

definition channel_inv :: "board \<Rightarrow> channel \<Rightarrow> bool" where
  "channel_inv b c \<longleftrightarrow> c_no_owner_sink c \<in> {default_sink b, fallback_sink b}"

lemma channel_inv_ops:
  "channel_inv b (channel_reset b)"
  "channel_inv b c \<Longrightarrow> channel_inv b (ev_channel_init0 b c)"
  "channel_inv b c \<Longrightarrow> channel_inv b (fst (snd (ev_channel_set_owner_link b t c l)))"
  "channel_inv b c \<Longrightarrow> channel_inv b (snd (snd (ev_channel_target_link b t c st out)))"
  by (auto simp: channel_inv_def channel_reset_def ev_channel_init0_def
      ev_channel_set_owner_link_def ev_channel_target_link_def ev_channel_ensure_init_def
      Let_def split_beta split: option.splits)

end
