(* ===== verification/Session.thy ===== *)
theory Session
  imports Channel
begin

text \<open>
  Exclusive ownership of the device, \<open>platform/ev_session.c\<close> and \<open>platform/ev_session.h\<close>: a
  session is acquired by one link with a client nonce, confirmed by the hello handshake, kept
  alive within a lease, and released, lost or expired. The record \<open>session\<close> holds the file's
  static variables; \<open>world\<close> joins it with the registry and the router it drives, and with the
  calls made to the two change callbacks. Each section between lock and unlock is one
  definition (suffix \<open>locked\<close>); the operations compose them in the code's order.
  \<open>rnd\<close> is what four calls of \<open>esp_random\<close> return, \<open>timer\<close> the millisecond clock read
  inside an operation.
\<close>

section \<open>Data\<close>

definition EV_SESSION_ID_HEX_LEN :: nat where
  "EV_SESSION_ID_HEX_LEN = 32"

definition EV_SESSION_NONCE_HEX_LEN :: nat where
  "EV_SESSION_NONCE_HEX_LEN = 32"

definition EV_SESSION_LEASE_MS :: u32 where
  "EV_SESSION_LEASE_MS = 15000"

lemmas session_consts [simp] =
  EV_SESSION_ID_HEX_LEN_def EV_SESSION_NONCE_HEX_LEN_def EV_SESSION_LEASE_MS_def

datatype ev_session_state = EV_SESSION_FREE | EV_SESSION_OWNED | EV_SESSION_RELEASING

datatype ev_session_result =
    EV_SESSION_RESULT_OK
  | EV_SESSION_RESULT_BUSY
  | EV_SESSION_RESULT_SESSION_REQUIRED
  | EV_SESSION_RESULT_NOT_OWNER
  | EV_SESSION_RESULT_VM_BUSY
  | EV_SESSION_RESULT_VM_EPOCH_MISMATCH
  | EV_SESSION_RESULT_STALE_LINK
  | EV_SESSION_RESULT_INVALID_ARGUMENT

datatype ev_session_change_reason =
    EV_SESSION_CHANGE_ACQUIRED
  | EV_SESSION_CHANGE_RELEASED
  | EV_SESSION_CHANGE_EXPIRED
  | EV_SESSION_CHANGE_LINK_LOST
  | EV_SESSION_CHANGE_TX_FAILED

record ev_session_snapshot_t =
  sn_state :: ev_session_state
  sn_has_owner :: bool
  sn_owner_link :: ev_link_ref
  sn_session_id :: cstring
  sn_client_nonce :: cstring
  sn_lease_remaining_ms :: u32
  sn_vm_epoch :: u32
  sn_input_generation :: u32
  sn_transition_id :: u32
  sn_handshake_complete :: bool
  sn_vm_ready :: bool
  sn_user_route :: ev_transport_id
  sn_debug_route :: ev_transport_id
  sn_user_route_slot :: u8
  sn_debug_route_slot :: u8

record session =
  ss_state :: ev_session_state
  ss_owner_link :: ev_link_ref
  ss_session_id :: cstring
  ss_client_nonce :: cstring
  ss_last_activity_ms :: u32
  ss_vm_epoch :: u32
  ss_input_generation :: u32
  ss_transition_id :: u32
  ss_handshake_complete :: bool
  ss_vm_ready :: bool
  ss_no_owner_route :: ev_transport_id
  ss_changed_cb :: bool
  ss_initialized :: bool
  ss_input_generation_atomic :: u32

definition session_reset :: session where
  "session_reset = \<lparr>ss_state = EV_SESSION_FREE, ss_owner_link = zero_link, ss_session_id = [],
     ss_client_nonce = [], ss_last_activity_ms = 0, ss_vm_epoch = 0, ss_input_generation = 0,
     ss_transition_id = 0, ss_handshake_complete = False, ss_vm_ready = False,
     ss_no_owner_route = EV_TRANSPORT_USJ, ss_changed_cb = False, ss_initialized = False,
     ss_input_generation_atomic = 0\<rparr>"

text \<open>One call of the change callback: snapshot, reason, transition, previous link and id.\<close>

type_synonym session_change =
  "ev_session_snapshot_t \<times> ev_session_change_reason \<times> u32 \<times> ev_link_ref option \<times> cstring option"

record world =
  w_transport :: transport
  w_channel :: channel
  w_session :: session
  w_changes :: "session_change list"
  w_routes :: "route_call list"

section \<open>Helpers\<close>

definition ev_session_link_equal :: "ev_link_ref option \<Rightarrow> ev_link_ref option \<Rightarrow> bool" where
  "ev_session_link_equal a b =
     (case (a, b) of
        (Some x, Some y) \<Rightarrow> lr_transport_id x = lr_transport_id y \<and> lr_slot x = lr_slot y \<and>
          lr_generation x = lr_generation y
      | _ \<Rightarrow> False)"

definition ev_session_hex_nonce_valid :: "cstring option \<Rightarrow> bool" where
  "ev_session_hex_nonce_valid nonce =
     (case nonce of None \<Rightarrow> False
      | Some n \<Rightarrow> length n = EV_SESSION_NONCE_HEX_LEN \<and> list_all lower_hex n)"

definition ev_session_next_counter :: "u32 \<Rightarrow> u32" where
  "ev_session_next_counter c = (let c' = c + 1 in if c' = 0 then 1 else c')"

definition ev_session_bump_input_generation_locked :: "session \<Rightarrow> session" where
  "ev_session_bump_input_generation_locked s =
     (let g = ev_session_next_counter (ss_input_generation s)
      in s\<lparr>ss_input_generation := g, ss_input_generation_atomic := g\<rparr>)"

text \<open>\<open>"%08x"\<close> of a 32-bit value, and the identifier made from four of them.\<close>

definition hex_digit :: "u32 \<Rightarrow> char" where
  "hex_digit d = ''0123456789abcdef'' ! unat (d AND 15)"

definition hex8 :: "u32 \<Rightarrow> cstring" where
  "hex8 w = map (\<lambda>i. hex_digit (drop_bit (28 - 4 * i) w)) [0, 1, 2, 3, 4, 5, 6, 7]"

definition ev_session_make_id :: "u32 \<times> u32 \<times> u32 \<times> u32 \<Rightarrow> cstring" where
  "ev_session_make_id rnd =
     (let (a, b, c, d) = rnd; out = hex8 a @ hex8 b @ hex8 c @ hex8 d
      in if length out \<noteq> EV_SESSION_ID_HEX_LEN \<or> c_at out 0 = CHR 0x00
         then replicate (EV_SESSION_ID_HEX_LEN - 1) (CHR ''0'') @ ''1''
         else out)"

definition ev_session_snapshot_locked :: "session \<Rightarrow> u32 \<Rightarrow> ev_session_snapshot_t" where
  "ev_session_snapshot_locked s now =
     (let owner = (ss_state s \<noteq> EV_SESSION_FREE);
          elapsed = now - ss_last_activity_ms s
      in \<lparr>sn_state = ss_state s, sn_has_owner = owner,
          sn_owner_link = (if owner then ss_owner_link s else zero_link),
          sn_session_id = (if owner then ss_session_id s else []),
          sn_client_nonce = (if owner then ss_client_nonce s else []),
          sn_lease_remaining_ms =
            (if owner then if elapsed \<ge> EV_SESSION_LEASE_MS then 0
                           else EV_SESSION_LEASE_MS - elapsed
             else 0),
          sn_vm_epoch = ss_vm_epoch s, sn_input_generation = ss_input_generation s,
          sn_transition_id = ss_transition_id s,
          sn_handshake_complete = ss_handshake_complete s, sn_vm_ready = ss_vm_ready s,
          sn_user_route = (if owner then lr_transport_id (ss_owner_link s) else ss_no_owner_route s),
          sn_debug_route = (if owner then lr_transport_id (ss_owner_link s) else ss_no_owner_route s),
          sn_user_route_slot = (if owner then lr_slot (ss_owner_link s) else 0),
          sn_debug_route_slot = (if owner then lr_slot (ss_owner_link s) else 0)\<rparr>)"

section \<open>Applying a route\<close>

text \<open>
  \<open>ev_session_apply_route\<close> runs under its own lock: it first asks, under the session lock,
  whether the snapshot is still the current state, and then sets the owner of the registry
  and of the router. The two halves are kept apart, because other tasks can change the
  session between them.
\<close>

definition apply_route_check :: "session \<Rightarrow> ev_session_snapshot_t \<Rightarrow> bool" where
  "apply_route_check s snap \<longleftrightarrow>
     ss_transition_id s = sn_transition_id snap \<and> ss_state s = sn_state snap \<and>
     (\<not> sn_has_owner snap \<or>
      ev_session_link_equal (Some (ss_owner_link s)) (Some (sn_owner_link snap)))"

definition apply_route_commit :: "board \<Rightarrow> world \<Rightarrow> ev_session_snapshot_t \<Rightarrow> world" where
  "apply_route_commit b w snap =
     (let link = (if sn_has_owner snap then Some (sn_owner_link snap) else None);
          t = ev_transport_set_owner (w_transport w) link;
          (_, c, calls) = ev_channel_set_owner_link b t (w_channel w) link
      in w\<lparr>w_transport := t, w_channel := c, w_routes := w_routes w @ calls\<rparr>)"

definition ev_session_apply_route :: "board \<Rightarrow> world \<Rightarrow> ev_session_snapshot_t \<Rightarrow> bool \<times> world" where
  "ev_session_apply_route b w snap =
     (if apply_route_check (w_session w) snap then (True, apply_route_commit b w snap)
      else (False, w))"

definition ev_session_notify_change ::
  "world \<Rightarrow> ev_session_snapshot_t \<Rightarrow> ev_session_change_reason \<Rightarrow> u32 \<Rightarrow> bool
     \<Rightarrow> ev_link_ref option \<Rightarrow> cstring option \<Rightarrow> world" where
  "ev_session_notify_change w snap reason tid cb prev_link prev_id =
     (if cb then w\<lparr>w_changes := w_changes w @ [(snap, reason, tid, prev_link, prev_id)]\<rparr> else w)"

section \<open>Initialisation and plain accessors\<close>

definition ev_session_init0 :: "board \<Rightarrow> u32 \<Rightarrow> world \<Rightarrow> esp_err \<times> world" where
  "ev_session_init0 b epoch w =
     (let s = w_session w
      in if ss_initialized s then (ESP_OK, w)
         else
           let s' = session_reset\<lparr>ss_changed_cb := ss_changed_cb s,
                 ss_vm_epoch := (if epoch = 0 then 1 else epoch),
                 ss_input_generation := 1, ss_input_generation_atomic := 1,
                 ss_no_owner_route := (case ev_transport_id_from_name (Some (default_sink b)) of
                                         Some i \<Rightarrow> i | None \<Rightarrow> ss_no_owner_route session_reset),
                 ss_initialized := True\<rparr>
           in (ESP_OK, w\<lparr>w_session := s',
                         w_transport := ev_transport_set_owner (w_transport w) None\<rparr>))"

definition ev_session_set_changed_cb :: "session \<Rightarrow> bool \<Rightarrow> session" where
  "ev_session_set_changed_cb s installed = s\<lparr>ss_changed_cb := installed\<rparr>"

definition ev_session_snapshot ::
  "session \<Rightarrow> u32 \<Rightarrow> ev_session_snapshot_t option \<Rightarrow> bool \<times> ev_session_snapshot_t option" where
  "ev_session_snapshot s timer out =
     (if out = None \<or> \<not> ss_initialized s then (False, out)
      else (True, Some (ev_session_snapshot_locked s timer)))"

definition ev_session_vm_epoch :: "session \<Rightarrow> u32" where
  "ev_session_vm_epoch s = ss_vm_epoch s"

definition ev_session_vm_epoch_advance :: "session \<Rightarrow> u32 \<times> session" where
  "ev_session_vm_epoch_advance s =
     (let s' = ev_session_bump_input_generation_locked
                 (s\<lparr>ss_vm_epoch := ev_session_next_counter (ss_vm_epoch s)\<rparr>)
      in (ss_vm_epoch s', s'))"

definition ev_session_input_generation :: "session \<Rightarrow> u32" where
  "ev_session_input_generation s = ss_input_generation_atomic s"

definition ev_session_set_vm_ready :: "session \<Rightarrow> bool \<Rightarrow> session" where
  "ev_session_set_vm_ready s ready = s\<lparr>ss_vm_ready := ready\<rparr>"

definition ev_session_vm_ready :: "session \<Rightarrow> bool" where
  "ev_session_vm_ready s = ss_vm_ready s"

definition ev_session_result_code :: "ev_session_result \<Rightarrow> cstring" where
  "ev_session_result_code r =
     (case r of
        EV_SESSION_RESULT_OK \<Rightarrow> ''OK''
      | EV_SESSION_RESULT_BUSY \<Rightarrow> ''SESSION_BUSY''
      | EV_SESSION_RESULT_SESSION_REQUIRED \<Rightarrow> ''SESSION_REQUIRED''
      | EV_SESSION_RESULT_NOT_OWNER \<Rightarrow> ''NOT_OWNER''
      | EV_SESSION_RESULT_VM_BUSY \<Rightarrow> ''VM_BUSY''
      | EV_SESSION_RESULT_VM_EPOCH_MISMATCH \<Rightarrow> ''VM_EPOCH_MISMATCH''
      | EV_SESSION_RESULT_STALE_LINK \<Rightarrow> ''NOT_OWNER''
      | EV_SESSION_RESULT_INVALID_ARGUMENT \<Rightarrow> ''INVALID_ARGUMENT'')"

section \<open>Losing the owner\<close>

definition serial_rotates :: "ev_link_ref \<Rightarrow> bool" where
  "serial_rotates l \<longleftrightarrow> lr_transport_id l = EV_TRANSPORT_USJ \<or> lr_transport_id l = EV_TRANSPORT_UART"

definition no_owner_route :: "board \<Rightarrow> ev_transport_id \<Rightarrow> ev_transport_id" where
  "no_owner_route b old =
     (case ev_transport_id_from_name (Some (fallback_sink b)) of
        Some i \<Rightarrow> i
      | None \<Rightarrow> (case ev_transport_id_from_name (Some (default_sink b)) of
                  Some i \<Rightarrow> i | None \<Rightarrow> old))"

text \<open>
  The body both \<open>ev_session_clear_owner\<close> and \<open>ev_session_tick\<close> run under the lock: rotate the
  generation of a serial link, wipe the owner, bump the counters.
\<close>

definition drop_owner_locked :: "board \<Rightarrow> world \<Rightarrow> ev_link_ref \<Rightarrow> world" where
  "drop_owner_locked b w link =
     (let t = (if serial_rotates link
               then snd (snd (ev_transport_link_advance_generation (w_transport w) (Some link)
                                (Some zero_link)))
               else w_transport w);
          s = (w_session w)\<lparr>ss_session_id := [], ss_client_nonce := [],
                 ss_owner_link := zero_link, ss_state := EV_SESSION_FREE,
                 ss_handshake_complete := False\<rparr>;
          s = ev_session_bump_input_generation_locked s;
          s = s\<lparr>ss_no_owner_route := no_owner_route b (ss_no_owner_route s),
                ss_transition_id := ev_session_next_counter (ss_transition_id s)\<rparr>
      in w\<lparr>w_transport := t, w_session := s\<rparr>)"

text \<open>What is left to do after the unlock: apply the route and tell the callback.\<close>

record route_job =
  rj_snapshot :: ev_session_snapshot_t
  rj_reason :: ev_session_change_reason
  rj_transition :: u32
  rj_callback :: bool
  rj_prev_link :: "ev_link_ref option"
  rj_prev_id :: "cstring option"

definition finish_route_job :: "board \<Rightarrow> world \<Rightarrow> route_job \<Rightarrow> world" where
  "finish_route_job b w j =
     (let (applied, w') = ev_session_apply_route b w (rj_snapshot j)
      in if applied
         then ev_session_notify_change w' (rj_snapshot j) (rj_reason j) (rj_transition j)
                (rj_callback j) (rj_prev_link j) (rj_prev_id j)
         else w')"

definition clear_owner_locked ::
  "board \<Rightarrow> u32 \<Rightarrow> world \<Rightarrow> ev_link_ref option \<Rightarrow> ev_session_change_reason \<Rightarrow> bool \<Rightarrow> cstring option
     \<Rightarrow> route_job option \<times> world" where
  "clear_owner_locked b timer w link reason require_releasing session_id =
     (let s = w_session w
      in case link of
           None \<Rightarrow> (None, w)
         | Some l \<Rightarrow>
           if ss_state s = EV_SESSION_FREE \<or>
              \<not> ev_session_link_equal link (Some (ss_owner_link s)) \<or>
              (require_releasing \<and> ss_state s \<noteq> EV_SESSION_RELEASING) \<or>
              (session_id \<noteq> None \<and> session_id \<noteq> Some (ss_session_id s))
           then (None, w)
           else
             let w' = drop_owner_locked b w l; s' = w_session w'
             in (Some \<lparr>rj_snapshot = ev_session_snapshot_locked s' timer, rj_reason = reason,
                       rj_transition = ss_transition_id s', rj_callback = ss_changed_cb s',
                       rj_prev_link = Some (ss_owner_link s),
                       rj_prev_id = Some (ss_session_id s)\<rparr>, w'))"

definition ev_session_clear_owner ::
  "board \<Rightarrow> u32 \<Rightarrow> world \<Rightarrow> ev_link_ref option \<Rightarrow> ev_session_change_reason \<Rightarrow> bool \<Rightarrow> cstring option
     \<Rightarrow> bool \<times> world" where
  "ev_session_clear_owner b timer w link reason require_releasing session_id =
     (case clear_owner_locked b timer w link reason require_releasing session_id of
        (None, w') \<Rightarrow> (False, w')
      | (Some j, w') \<Rightarrow> (True, finish_route_job b w' j))"

definition ev_session_release_finish ::
  "board \<Rightarrow> u32 \<Rightarrow> world \<Rightarrow> ev_link_ref option \<Rightarrow> cstring option \<Rightarrow> ev_session_change_reason
     \<Rightarrow> bool \<times> world" where
  "ev_session_release_finish b timer w link session_id reason =
     ev_session_clear_owner b timer w link reason True session_id"

definition ev_session_link_lost ::
  "board \<Rightarrow> u32 \<Rightarrow> world \<Rightarrow> ev_link_ref option \<Rightarrow> ev_session_change_reason \<Rightarrow> bool \<times> world" where
  "ev_session_link_lost b timer w link reason =
     ev_session_clear_owner b timer w link reason False None"

definition tick_locked :: "board \<Rightarrow> world \<Rightarrow> u32 \<Rightarrow> route_job option \<times> world" where
  "tick_locked b w now =
     (let s = w_session w
      in if ss_state s \<noteq> EV_SESSION_OWNED \<or> now - ss_last_activity_ms s < EV_SESSION_LEASE_MS
         then (None, w)
         else
           let w' = drop_owner_locked b w (ss_owner_link s); s' = w_session w'
           in (Some \<lparr>rj_snapshot = ev_session_snapshot_locked s' now,
                     rj_reason = EV_SESSION_CHANGE_EXPIRED,
                     rj_transition = ss_transition_id s', rj_callback = ss_changed_cb s',
                     rj_prev_link = Some (ss_owner_link s),
                     rj_prev_id = Some (ss_session_id s)\<rparr>, w'))"

definition ev_session_tick :: "board \<Rightarrow> world \<Rightarrow> u32 \<Rightarrow> bool \<times> world" where
  "ev_session_tick b w now =
     (case tick_locked b w now of
        (None, w') \<Rightarrow> (False, w')
      | (Some j, w') \<Rightarrow> (True, finish_route_job b w' j))"

section \<open>The owner's operations\<close>

text \<open>
  The critical section of \<open>ev_session_acquire\<close>: the result, whether the owner is new, and
  the snapshot it stores.
\<close>

definition acquire_locked ::
  "u32 \<times> u32 \<times> u32 \<times> u32 \<Rightarrow> session \<Rightarrow> ev_link_ref \<Rightarrow> cstring \<Rightarrow> u32
     \<Rightarrow> (ev_session_result \<times> bool \<times> ev_session_snapshot_t option) \<times> session" where
  "acquire_locked rnd s link nonce now =
     (if \<not> ss_initialized s then ((EV_SESSION_RESULT_INVALID_ARGUMENT, False, None), s)
      else if ss_state s = EV_SESSION_FREE
      then
        let s1 = s\<lparr>ss_state := EV_SESSION_OWNED, ss_owner_link := link, ss_client_nonce := nonce,
                   ss_session_id := ev_session_make_id rnd, ss_last_activity_ms := now,
                   ss_handshake_complete := False,
                   ss_transition_id := ev_session_next_counter (ss_transition_id s)\<rparr>;
            s2 = ev_session_bump_input_generation_locked s1
        in ((EV_SESSION_RESULT_OK, True, Some (ev_session_snapshot_locked s2 now)), s2)
      else if ss_state s = EV_SESSION_OWNED \<and>
              ev_session_link_equal (Some link) (Some (ss_owner_link s)) \<and>
              nonce = ss_client_nonce s
      then
        let s1 = s\<lparr>ss_last_activity_ms := now\<rparr>
        in ((EV_SESSION_RESULT_OK, False, Some (ev_session_snapshot_locked s1 now)), s1)
      else ((EV_SESSION_RESULT_BUSY, False, Some (ev_session_snapshot_locked s now)), s))"

text \<open>
  The whole operation. \<open>mid\<close> is what other tasks do to the world between the unlock and the
  second look at the link: it is the identity when nothing intervenes.
\<close>

definition ev_session_acquire ::
  "board \<Rightarrow> u32 \<times> u32 \<times> u32 \<times> u32 \<Rightarrow> u32 \<Rightarrow> (world \<Rightarrow> world) \<Rightarrow> world \<Rightarrow> ev_link_ref option
     \<Rightarrow> cstring option \<Rightarrow> u32 \<Rightarrow> ev_session_snapshot_t option
     \<Rightarrow> ev_session_result \<times> ev_session_snapshot_t option \<times> world" where
  "ev_session_acquire b rnd timer mid w link nonce now out =
     (case link of
        None \<Rightarrow> (EV_SESSION_RESULT_INVALID_ARGUMENT, out, w)
      | Some l \<Rightarrow>
        if out = None \<or> \<not> ev_session_hex_nonce_valid nonce
        then (EV_SESSION_RESULT_INVALID_ARGUMENT, out, w)
        else if \<not> ev_transport_link_is_current (w_transport w) link
        then (EV_SESSION_RESULT_STALE_LINK, out, w)
        else
          case acquire_locked rnd (w_session w) l (the nonce) now of
            ((result, acquired, snap), s1) \<Rightarrow>
              if result \<noteq> EV_SESSION_RESULT_OK
              then (result, if snap = None then out else snap, w\<lparr>w_session := s1\<rparr>)
              else
                let w2 = mid (w\<lparr>w_session := s1\<rparr>)
                in if \<not> ev_transport_link_is_current (w_transport w2) link
                   then (EV_SESSION_RESULT_STALE_LINK, snap,
                         snd (ev_session_link_lost b timer w2 link EV_SESSION_CHANGE_LINK_LOST))
                   else if acquired
                   then (EV_SESSION_RESULT_OK, snap,
                         snd (ev_session_apply_route b w2 (the snap)))
                   else (EV_SESSION_RESULT_OK, snap, w2))"

definition ev_session_check_owner_locked ::
  "session \<Rightarrow> ev_link_ref option \<Rightarrow> cstring option \<Rightarrow> u32 \<Rightarrow> ev_session_snapshot_t
     \<Rightarrow> ev_session_result \<times> ev_session_snapshot_t" where
  "ev_session_check_owner_locked s link session_id now out =
     (if ss_state s = EV_SESSION_FREE \<or> ss_state s = EV_SESSION_RELEASING
      then (EV_SESSION_RESULT_SESSION_REQUIRED, out)
      else if \<not> ev_session_link_equal link (Some (ss_owner_link s)) \<or>
              session_id = None \<or> session_id \<noteq> Some (ss_session_id s)
      then (EV_SESSION_RESULT_NOT_OWNER, out)
      else if \<not> ss_handshake_complete s then (EV_SESSION_RESULT_SESSION_REQUIRED, out)
      else (EV_SESSION_RESULT_OK, ev_session_snapshot_locked s now))"

definition ev_session_keepalive ::
  "transport \<Rightarrow> session \<Rightarrow> ev_link_ref option \<Rightarrow> cstring option \<Rightarrow> u32 \<Rightarrow> ev_session_snapshot_t option
     \<Rightarrow> ev_session_result \<times> ev_session_snapshot_t option \<times> session" where
  "ev_session_keepalive t s link session_id now out =
     (case out of
        None \<Rightarrow> (EV_SESSION_RESULT_SESSION_REQUIRED, out, s)
      | Some o0 \<Rightarrow>
        if link = None \<or> session_id = None then (EV_SESSION_RESULT_SESSION_REQUIRED, out, s)
        else if \<not> ev_transport_link_is_current t link
        then (EV_SESSION_RESULT_STALE_LINK, out, s)
        else
          let (result, o1) = ev_session_check_owner_locked s link session_id now o0
          in if result = EV_SESSION_RESULT_OK
             then let s1 = s\<lparr>ss_last_activity_ms := now\<rparr>
                  in (result, Some (ev_session_snapshot_locked s1 now), s1)
             else (result, Some o1, s))"

definition ev_session_authorize ::
  "transport \<Rightarrow> session \<Rightarrow> ev_link_ref option \<Rightarrow> cstring option \<Rightarrow> bool \<Rightarrow> bool \<Rightarrow> u32 \<Rightarrow> u32
     \<Rightarrow> ev_session_snapshot_t option \<Rightarrow> ev_session_result \<times> ev_session_snapshot_t option \<times> session" where
  "ev_session_authorize t s link session_id vm_related has_vm_epoch vm_epoch now out =
     (case out of
        None \<Rightarrow> (EV_SESSION_RESULT_SESSION_REQUIRED, out, s)
      | Some o0 \<Rightarrow>
        if link = None then (EV_SESSION_RESULT_SESSION_REQUIRED, out, s)
        else if \<not> ev_transport_link_is_current t link
        then (EV_SESSION_RESULT_STALE_LINK, out, s)
        else
          let (result0, _) = ev_session_check_owner_locked s link session_id now o0;
              result1 =
                (if result0 = EV_SESSION_RESULT_OK \<and> vm_related
                 then if \<not> has_vm_epoch then EV_SESSION_RESULT_VM_EPOCH_MISMATCH
                      else if vm_epoch \<noteq> ss_vm_epoch s then EV_SESSION_RESULT_VM_EPOCH_MISMATCH
                      else if \<not> ss_vm_ready s then EV_SESSION_RESULT_VM_BUSY
                      else result0
                 else result0);
              result2 =
                (if result1 = EV_SESSION_RESULT_OK \<and> \<not> ss_handshake_complete s
                 then EV_SESSION_RESULT_SESSION_REQUIRED else result1);
              s1 = (if result2 = EV_SESSION_RESULT_OK then s\<lparr>ss_last_activity_ms := now\<rparr> else s)
          in (result2, Some (ev_session_snapshot_locked s1 now), s1))"

definition ev_session_release_prepare ::
  "transport \<Rightarrow> session \<Rightarrow> u32 \<Rightarrow> ev_link_ref option \<Rightarrow> cstring option \<Rightarrow> ev_session_snapshot_t option
     \<Rightarrow> ev_session_result \<times> ev_session_snapshot_t option \<times> session" where
  "ev_session_release_prepare t s timer link session_id out =
     (if link = None \<or> session_id = None \<or> out = None
      then (EV_SESSION_RESULT_SESSION_REQUIRED, out, s)
      else if \<not> ev_transport_link_is_current t link
      then (EV_SESSION_RESULT_STALE_LINK, out, s)
      else if ss_state s = EV_SESSION_FREE \<or> ss_state s = EV_SESSION_RELEASING
      then (EV_SESSION_RESULT_SESSION_REQUIRED, out, s)
      else if \<not> ev_session_link_equal link (Some (ss_owner_link s)) \<or>
              session_id \<noteq> Some (ss_session_id s)
      then (EV_SESSION_RESULT_NOT_OWNER, out, s)
      else
        let s1 = ev_session_bump_input_generation_locked (s\<lparr>ss_state := EV_SESSION_RELEASING\<rparr>)
        in (EV_SESSION_RESULT_OK, Some (ev_session_snapshot_locked s1 timer), s1))"

text \<open>
  The critical section of a successful hello: the answer, and the job left after the unlock
  when the handshake became complete just now.
\<close>

definition hello_complete_locked ::
  "session \<Rightarrow> u32 \<Rightarrow> ev_link_ref option \<Rightarrow> cstring option \<Rightarrow> (bool \<times> route_job option) \<times> session"
  where
  "hello_complete_locked s timer link session_id =
     (if ss_state s \<noteq> EV_SESSION_OWNED \<or>
         \<not> ev_session_link_equal link (Some (ss_owner_link s)) \<or>
         session_id \<noteq> Some (ss_session_id s)
      then ((False, None), s)
      else if ss_handshake_complete s then ((True, None), s)
      else
        let s1 = s\<lparr>ss_handshake_complete := True\<rparr>; snap = ev_session_snapshot_locked s1 timer
        in ((True, Some \<lparr>rj_snapshot = snap, rj_reason = EV_SESSION_CHANGE_ACQUIRED,
               rj_transition = sn_transition_id snap, rj_callback = ss_changed_cb s1,
               rj_prev_link = None, rj_prev_id = None\<rparr>), s1))"

definition ev_session_hello_complete ::
  "board \<Rightarrow> u32 \<Rightarrow> world \<Rightarrow> ev_link_ref option \<Rightarrow> cstring option \<Rightarrow> bool \<Rightarrow> bool \<times> world" where
  "ev_session_hello_complete b timer w link session_id tx_succeeded =
     (if link = None \<or> session_id = None then (False, w)
      else if \<not> tx_succeeded
      then ev_session_clear_owner b timer w link EV_SESSION_CHANGE_TX_FAILED False session_id
      else
        case hello_complete_locked (w_session w) timer link session_id of
          ((answer, None), s1) \<Rightarrow> (answer, w\<lparr>w_session := s1\<rparr>)
        | ((answer, Some j), s1) \<Rightarrow> (answer, finish_route_job b (w\<lparr>w_session := s1\<rparr>) j))"

definition ev_session_output_ready ::
  "transport \<Rightarrow> session \<Rightarrow> ev_link_ref option \<Rightarrow> cstring option \<Rightarrow> bool" where
  "ev_session_output_ready t s link session_id =
     (if link = None \<or> session_id = None \<or> \<not> ev_transport_link_is_current t link then False
      else ss_state s = EV_SESSION_OWNED \<and> ss_handshake_complete s \<and>
           ev_session_link_equal link (Some (ss_owner_link s)) \<and>
           session_id = Some (ss_session_id s))"

section \<open>Basic facts\<close>

lemma link_equal_iff [simp]: "ev_session_link_equal (Some a) (Some b) \<longleftrightarrow> a = b"
  by (cases a; cases b) (auto simp: ev_session_link_equal_def)

lemma link_equal_None [simp]:
  "\<not> ev_session_link_equal None b" "\<not> ev_session_link_equal a None"
  by (auto simp: ev_session_link_equal_def split: option.splits)

lemma link_equal_option: "ev_session_link_equal a (Some b) \<longleftrightarrow> a = Some b"
  by (cases a) auto

lemma next_counter_eq: "ev_session_next_counter = ev_transport_next_generation"
  by (simp add: fun_eq_iff ev_session_next_counter_def ev_transport_next_generation_def)

interpretation counter: fresh_counter ev_session_next_counter
  unfolding next_counter_eq by unfold_locales

lemma bump_simps [simp]:
  "ss_state (ev_session_bump_input_generation_locked s) = ss_state s"
  "ss_owner_link (ev_session_bump_input_generation_locked s) = ss_owner_link s"
  "ss_session_id (ev_session_bump_input_generation_locked s) = ss_session_id s"
  "ss_client_nonce (ev_session_bump_input_generation_locked s) = ss_client_nonce s"
  "ss_last_activity_ms (ev_session_bump_input_generation_locked s) = ss_last_activity_ms s"
  "ss_vm_epoch (ev_session_bump_input_generation_locked s) = ss_vm_epoch s"
  "ss_transition_id (ev_session_bump_input_generation_locked s) = ss_transition_id s"
  "ss_handshake_complete (ev_session_bump_input_generation_locked s) = ss_handshake_complete s"
  "ss_vm_ready (ev_session_bump_input_generation_locked s) = ss_vm_ready s"
  "ss_no_owner_route (ev_session_bump_input_generation_locked s) = ss_no_owner_route s"
  "ss_changed_cb (ev_session_bump_input_generation_locked s) = ss_changed_cb s"
  "ss_initialized (ev_session_bump_input_generation_locked s) = ss_initialized s"
  "ss_input_generation (ev_session_bump_input_generation_locked s) =
     ev_session_next_counter (ss_input_generation s)"
  "ss_input_generation_atomic (ev_session_bump_input_generation_locked s) =
     ev_session_next_counter (ss_input_generation s)"
  by (simp_all add: ev_session_bump_input_generation_locked_def Let_def)

lemma snapshot_simps [simp]:
  "sn_state (ev_session_snapshot_locked s now) = ss_state s"
  "sn_has_owner (ev_session_snapshot_locked s now) = (ss_state s \<noteq> EV_SESSION_FREE)"
  "sn_transition_id (ev_session_snapshot_locked s now) = ss_transition_id s"
  "sn_vm_epoch (ev_session_snapshot_locked s now) = ss_vm_epoch s"
  "sn_input_generation (ev_session_snapshot_locked s now) = ss_input_generation s"
  "sn_handshake_complete (ev_session_snapshot_locked s now) = ss_handshake_complete s"
  "sn_vm_ready (ev_session_snapshot_locked s now) = ss_vm_ready s"
  "ss_state s \<noteq> EV_SESSION_FREE \<Longrightarrow> sn_owner_link (ev_session_snapshot_locked s now) = ss_owner_link s"
  "ss_state s \<noteq> EV_SESSION_FREE \<Longrightarrow> sn_session_id (ev_session_snapshot_locked s now) = ss_session_id s"
  by (simp_all add: ev_session_snapshot_locked_def Let_def)

lemma length_hex8 [simp]: "length (hex8 w) = 8"
  by (simp add: hex8_def)

lemma digits_lower_hex: "k < 16 \<Longrightarrow> lower_hex (''0123456789abcdef'' ! k)"
proof -
  have all: "list_all lower_hex ''0123456789abcdef''"
    by (simp add: lower_hex_def less_eq_char_def)
  assume "k < 16"
  then show ?thesis using all unfolding list_all_length by simp
qed

lemma hex_digit_lower_hex: "lower_hex (hex_digit d)"
proof -
  have "d AND 15 \<le> 15" by (rule word_and_le1)
  then have "unat (d AND 15) \<le> unat (15 :: u32)" by (simp only: word_le_nat_alt)
  then show ?thesis unfolding hex_digit_def by (intro digits_lower_hex) simp
qed

lemma hex8_lower_hex: "list_all lower_hex (hex8 w)"
  by (simp add: hex8_def hex_digit_lower_hex)

lemma c_at_0_hex8: "c_at (hex8 w @ xs) 0 \<noteq> CHR 0x00"
  using hex_digit_lower_hex [of "drop_bit 28 w"] by (auto simp: c_at_def hex8_def)

lemma make_id_eq:
  "ev_session_make_id (a, b, c, d) = hex8 a @ hex8 b @ hex8 c @ hex8 d"
  using c_at_0_hex8 [of a "hex8 b @ hex8 c @ hex8 d"] by (simp add: ev_session_make_id_def Let_def)

lemma make_id_valid:
  "length (ev_session_make_id rnd) = 32 \<and> list_all lower_hex (ev_session_make_id rnd)"
  by (cases rnd) (simp add: make_id_eq hex8_lower_hex)

end
