(* ===== verification/SessionProps.thy ===== *)
theory SessionProps
  imports Session
begin

text \<open>
  Correctness of session ownership, one operation at a time: the invariant of the session
  record, exclusivity of acquisition, exactness of authorisation, the lease, and what losing
  the owner does to the link and to the counters other components compare.
\<close>

section \<open>The invariant\<close>

definition nonce_ok :: "cstring \<Rightarrow> bool" where
  "nonce_ok n \<longleftrightarrow> length n = 32 \<and> list_all lower_hex n"

definition session_inv :: "session \<Rightarrow> bool" where
  "session_inv s \<longleftrightarrow>
     ss_input_generation_atomic s = ss_input_generation s \<and>
     (ss_initialized s \<longrightarrow> ss_vm_epoch s \<noteq> 0 \<and> ss_input_generation s \<noteq> 0) \<and>
     (\<not> ss_initialized s \<longrightarrow> ss_state s = EV_SESSION_FREE) \<and>
     (if ss_state s = EV_SESSION_FREE
      then ss_owner_link s = zero_link \<and> ss_session_id s = [] \<and> ss_client_nonce s = [] \<and>
           \<not> ss_handshake_complete s
      else nonce_ok (ss_session_id s) \<and> nonce_ok (ss_client_nonce s))"

lemma session_inv_reset: "session_inv session_reset"
  by (simp add: session_inv_def session_reset_def)

lemma session_inv_bump: "session_inv s \<Longrightarrow> session_inv (ev_session_bump_input_generation_locked s)"
  by (simp add: session_inv_def counter.nxt_nonzero)

lemma session_inv_activity [simp]: "session_inv (s\<lparr>ss_last_activity_ms := n\<rparr>) = session_inv s"
  by (simp add: session_inv_def)

lemma session_inv_ready [simp]: "session_inv (s\<lparr>ss_vm_ready := r\<rparr>) = session_inv s"
  by (simp add: session_inv_def)

lemma hex_nonce_valid_iff: "ev_session_hex_nonce_valid (Some n) = nonce_ok n"
  by (simp add: ev_session_hex_nonce_valid_def nonce_ok_def)

lemma hex_nonce_valid_Some: "ev_session_hex_nonce_valid n \<Longrightarrow> \<exists>m. n = Some m \<and> nonce_ok m"
  by (cases n) (auto simp: nonce_ok_def ev_session_hex_nonce_valid_def)

lemma drop_owner_session:
  "w_session (drop_owner_locked b w l) =
     (let s = ev_session_bump_input_generation_locked ((w_session w)\<lparr>ss_session_id := [],
            ss_client_nonce := [], ss_owner_link := zero_link, ss_state := EV_SESSION_FREE,
            ss_handshake_complete := False\<rparr>)
      in s\<lparr>ss_no_owner_route := no_owner_route b (ss_no_owner_route s),
           ss_transition_id := ev_session_next_counter (ss_transition_id s)\<rparr>)"
  by (simp add: drop_owner_locked_def Let_def)

lemma drop_owner_simps [simp]:
  "ss_state (w_session (drop_owner_locked b w l)) = EV_SESSION_FREE"
  "ss_owner_link (w_session (drop_owner_locked b w l)) = zero_link"
  "ss_session_id (w_session (drop_owner_locked b w l)) = []"
  "ss_client_nonce (w_session (drop_owner_locked b w l)) = []"
  "\<not> ss_handshake_complete (w_session (drop_owner_locked b w l))"
  "ss_vm_epoch (w_session (drop_owner_locked b w l)) = ss_vm_epoch (w_session w)"
  "ss_initialized (w_session (drop_owner_locked b w l)) = ss_initialized (w_session w)"
  "ss_changed_cb (w_session (drop_owner_locked b w l)) = ss_changed_cb (w_session w)"
  "ss_input_generation (w_session (drop_owner_locked b w l)) =
     ev_session_next_counter (ss_input_generation (w_session w))"
  "ss_input_generation_atomic (w_session (drop_owner_locked b w l)) =
     ev_session_next_counter (ss_input_generation (w_session w))"
  "ss_transition_id (w_session (drop_owner_locked b w l)) =
     ev_session_next_counter (ss_transition_id (w_session w))"
  "w_channel (drop_owner_locked b w l) = w_channel w"
  by (simp_all add: drop_owner_locked_def Let_def)

lemma session_inv_drop: "session_inv (w_session w) \<Longrightarrow> session_inv (w_session (drop_owner_locked b w l))"
  by (simp add: session_inv_def counter.nxt_nonzero)

lemma clear_owner_locked_cases:
  "clear_owner_locked b timer w link reason rr sid =
     (if ss_state (w_session w) \<noteq> EV_SESSION_FREE \<and> link = Some (ss_owner_link (w_session w)) \<and>
         (rr \<longrightarrow> ss_state (w_session w) = EV_SESSION_RELEASING) \<and>
         (sid = None \<or> sid = Some (ss_session_id (w_session w)))
      then
        let w' = drop_owner_locked b w (ss_owner_link (w_session w)); s' = w_session w'
        in (Some \<lparr>rj_snapshot = ev_session_snapshot_locked s' timer, rj_reason = reason,
                  rj_transition = ss_transition_id s', rj_callback = ss_changed_cb s',
                  rj_prev_link = Some (ss_owner_link (w_session w)),
                  rj_prev_id = Some (ss_session_id (w_session w))\<rparr>, w')
      else (None, w))"
  by (cases link) (auto simp: clear_owner_locked_def Let_def)

lemma session_inv_clear:
  "session_inv (w_session w) \<Longrightarrow>
   session_inv (w_session (snd (clear_owner_locked b timer w link reason rr sid)))"
  by (simp add: clear_owner_locked_cases Let_def session_inv_drop)

lemma session_inv_tick_locked:
  "session_inv (w_session w) \<Longrightarrow> session_inv (w_session (snd (tick_locked b w now)))"
  by (simp add: tick_locked_def Let_def session_inv_drop)

lemma commit_session [simp]: "w_session (apply_route_commit b w snap) = w_session w"
  by (simp add: apply_route_commit_def Let_def split_beta)

lemma finish_route_job_session [simp]: "w_session (finish_route_job b w j) = w_session w"
  by (simp add: finish_route_job_def ev_session_apply_route_def ev_session_notify_change_def)

lemma session_inv_acquire_locked:
  "session_inv s \<Longrightarrow> nonce_ok n \<Longrightarrow> session_inv (snd (acquire_locked rnd s l n now))"
  using make_id_valid [of rnd]
  by (auto simp: acquire_locked_def Let_def session_inv_def nonce_ok_def counter.nxt_nonzero)

lemma session_inv_hello_locked:
  "session_inv s \<Longrightarrow> session_inv (snd (hello_complete_locked s timer link sid))"
  by (auto simp: hello_complete_locked_def Let_def session_inv_def)

lemma session_inv_release_prepare:
  "session_inv s \<Longrightarrow> session_inv (snd (snd (ev_session_release_prepare t s timer link sid out)))"
  by (auto simp: ev_session_release_prepare_def Let_def session_inv_def counter.nxt_nonzero)

lemma session_inv_keepalive:
  "session_inv s \<Longrightarrow> session_inv (snd (snd (ev_session_keepalive t s link sid now out)))"
  by (auto simp: ev_session_keepalive_def Let_def split_beta split: option.splits)

lemma session_inv_authorize:
  "session_inv s \<Longrightarrow> session_inv (snd (snd (ev_session_authorize t s link sid vr he e now out)))"
  by (auto simp: ev_session_authorize_def Let_def split_beta split: option.splits)

lemma session_inv_vm_epoch_advance:
  "session_inv s \<Longrightarrow> session_inv (snd (ev_session_vm_epoch_advance s))"
  by (simp add: ev_session_vm_epoch_advance_def Let_def session_inv_def counter.nxt_nonzero)

lemma session_inv_init0:
  "session_inv (w_session w) \<Longrightarrow> session_inv (w_session (snd (ev_session_init0 b epoch w)))"
  by (simp add: ev_session_init0_def Let_def session_inv_def session_reset_def)

section \<open>Single-threaded runs of the whole interface\<close>

datatype session_call =
    Call_init u32
  | Call_callback bool
  | Call_acquire "u32 \<times> u32 \<times> u32 \<times> u32" u32 "ev_link_ref option" "cstring option" u32
  | Call_keepalive "ev_link_ref option" "cstring option" u32
  | Call_authorize "ev_link_ref option" "cstring option" bool bool u32 u32
  | Call_release_prepare u32 "ev_link_ref option" "cstring option"
  | Call_hello u32 "ev_link_ref option" "cstring option" bool
  | Call_release_finish u32 "ev_link_ref option" "cstring option" ev_session_change_reason
  | Call_link_lost u32 "ev_link_ref option" ev_session_change_reason
  | Call_tick u32
  | Call_vm_epoch_advance
  | Call_vm_ready bool
  | Call_transport transport_op

definition zero_snapshot :: ev_session_snapshot_t where
  "zero_snapshot = ev_session_snapshot_locked session_reset 0"

fun run_call :: "board \<Rightarrow> world \<Rightarrow> session_call \<Rightarrow> world" where
  "run_call b w (Call_init e) = snd (ev_session_init0 b e w)"
| "run_call b w (Call_callback f) = w\<lparr>w_session := ev_session_set_changed_cb (w_session w) f\<rparr>"
| "run_call b w (Call_acquire rnd tm l n now) =
     snd (snd (ev_session_acquire b rnd tm id w l n now (Some zero_snapshot)))"
| "run_call b w (Call_keepalive l sid now) = w\<lparr>w_session :=
     snd (snd (ev_session_keepalive (w_transport w) (w_session w) l sid now (Some zero_snapshot)))\<rparr>"
| "run_call b w (Call_authorize l sid vr he e now) = w\<lparr>w_session :=
     snd (snd (ev_session_authorize (w_transport w) (w_session w) l sid vr he e now
       (Some zero_snapshot)))\<rparr>"
| "run_call b w (Call_release_prepare tm l sid) = w\<lparr>w_session :=
     snd (snd (ev_session_release_prepare (w_transport w) (w_session w) tm l sid
       (Some zero_snapshot)))\<rparr>"
| "run_call b w (Call_hello tm l sid ok) = snd (ev_session_hello_complete b tm w l sid ok)"
| "run_call b w (Call_release_finish tm l sid r) =
     snd (ev_session_release_finish b tm w l sid r)"
| "run_call b w (Call_link_lost tm l r) = snd (ev_session_link_lost b tm w l r)"
| "run_call b w (Call_tick now) = snd (ev_session_tick b w now)"
| "run_call b w Call_vm_epoch_advance =
     w\<lparr>w_session := snd (ev_session_vm_epoch_advance (w_session w))\<rparr>"
| "run_call b w (Call_vm_ready r) =
     w\<lparr>w_session := ev_session_set_vm_ready (w_session w) r\<rparr>"
| "run_call b w (Call_transport op) = w\<lparr>w_transport := transport_step (w_transport w) op\<rparr>"

definition world_reset :: "board \<Rightarrow> world" where
  "world_reset b = \<lparr>w_transport = transport_reset, w_channel = channel_reset b,
     w_session = session_reset, w_changes = [], w_routes = []\<rparr>"

definition world_inv :: "world \<Rightarrow> bool" where
  "world_inv w \<longleftrightarrow> transport_inv (w_transport w) \<and> session_inv (w_session w)"

lemma world_inv_session [simp]:
  "world_inv w \<Longrightarrow> world_inv (w\<lparr>w_session := s\<rparr>) = session_inv s"
  by (simp add: world_inv_def)

lemma world_invD: "world_inv w \<Longrightarrow> session_inv (w_session w)"
  by (simp add: world_inv_def)

lemma drop_owner_transport_inv:
  "transport_inv (w_transport w) \<Longrightarrow> transport_inv (w_transport (drop_owner_locked b w l))"
  by (simp add: drop_owner_locked_def Let_def advance_inv)

lemma clear_world_inv:
  "world_inv w \<Longrightarrow> world_inv (snd (clear_owner_locked b timer w link reason rr sid))"
  by (simp add: world_inv_def clear_owner_locked_cases Let_def session_inv_drop
      drop_owner_transport_inv)

lemma tick_world_inv: "world_inv w \<Longrightarrow> world_inv (snd (tick_locked b w now))"
  by (simp add: world_inv_def tick_locked_def Let_def session_inv_drop drop_owner_transport_inv)

lemma commit_world_inv: "world_inv w \<Longrightarrow> world_inv (apply_route_commit b w snap)"
  by (simp add: world_inv_def apply_route_commit_def Let_def split_beta set_owner_inv)

lemma apply_world_inv: "world_inv w \<Longrightarrow> world_inv (snd (ev_session_apply_route b w snap))"
  by (simp add: ev_session_apply_route_def commit_world_inv)

lemma finish_world_inv: "world_inv w \<Longrightarrow> world_inv (finish_route_job b w j)"
  using apply_world_inv [of w b "rj_snapshot j"]
  by (simp add: finish_route_job_def ev_session_notify_change_def split_beta world_inv_def)

lemma clear_owner_world_inv:
  "world_inv w \<Longrightarrow> world_inv (snd (ev_session_clear_owner b timer w link reason rr sid))"
  using clear_world_inv [of w b timer link reason rr sid]
  by (auto simp: ev_session_clear_owner_def finish_world_inv split: prod.splits option.splits)

lemma acquire_world_inv:
  assumes "world_inv w"
  shows "world_inv (snd (snd (ev_session_acquire b rnd tm id w l n now out)))"
proof (cases "l = None \<or> \<not> ev_session_hex_nonce_valid n")
  case True
  then show ?thesis using assms by (auto simp: ev_session_acquire_def split: option.splits)
next
  case False
  then obtain m k where l: "l = Some m" and n: "n = Some k" "nonce_ok k"
    by (auto dest: hex_nonce_valid_Some)
  have "session_inv (snd (acquire_locked rnd (w_session w) m k now))"
    using assms n(2) by (simp add: world_inv_def session_inv_acquire_locked)
  with assms have "world_inv (w\<lparr>w_session := snd (acquire_locked rnd (w_session w) m k now)\<rparr>)"
    by (simp add: world_inv_def)
  then show ?thesis using assms
    by (auto simp: ev_session_acquire_def l n apply_world_inv clear_owner_world_inv
        ev_session_link_lost_def split_beta Let_def)
qed

interpretation sm: event_machine "run_call b" world_inv for b
proof
  fix w e
  assume w: "world_inv w"
  show "world_inv (run_call b w e)"
  proof (cases e)
    case (Call_hello tm l sid ok)
    have "world_inv (w\<lparr>w_session := snd (hello_complete_locked (w_session w) tm l sid)\<rparr>)"
      using w by (simp add: world_inv_def session_inv_hello_locked)
    with w show ?thesis unfolding Call_hello
      by (auto simp: ev_session_hello_complete_def clear_owner_world_inv finish_world_inv
          split: prod.splits option.splits)
  next
    case (Call_tick now)
    with tick_world_inv [OF w, of b now] show ?thesis
      by (auto simp: ev_session_tick_def finish_world_inv split: prod.splits option.splits)
  next
    case (Call_init e)
    with w session_inv_init0 [of w b e] set_owner_inv [of "w_transport w" None] show ?thesis
      by (simp add: world_inv_def ev_session_init0_def Let_def)
  next
    case (Call_transport op)
    with w tm.step_inv show ?thesis by (simp add: world_inv_def)
  next
    case (Call_callback f)
    with w show ?thesis by (simp add: world_inv_def ev_session_set_changed_cb_def session_inv_def)
  qed (use w in \<open>simp_all add: acquire_world_inv clear_owner_world_inv ev_session_release_finish_def
      ev_session_link_lost_def session_inv_keepalive session_inv_authorize
      session_inv_release_prepare session_inv_vm_epoch_advance ev_session_set_vm_ready_def
      world_invD\<close>)
qed

text \<open>
  Property C1: from power-on and through any sequence of session and registry calls, the
  session record stays well formed (a free session keeps no identity and no completed
  handshake; an owned one has a 32-digit identifier and nonce; the VM epoch and the input
  generation are nonzero once initialised, and the lock-free copy of the generation agrees
  with the locked one), together with the registry invariant.
\<close>

theorem session_runs_keep_invariant: "world_inv (foldl (run_call b) (world_reset b) calls)"
  by (rule sm.run_inv)
    (simp add: world_inv_def world_reset_def inv_reset session_inv_reset)

section \<open>Acquisition\<close>

lemma acquire_call:
  assumes "ev_transport_link_is_current (w_transport w) (Some l)" and "nonce_ok n"
    and "ss_initialized (w_session w)"
  shows "ev_session_acquire b rnd tm id w (Some l) (Some n) now (Some x) =
    (let s = w_session w
     in if ss_state s = EV_SESSION_FREE
        then let s' = snd (acquire_locked rnd s l n now); sn = ev_session_snapshot_locked s' now
             in (EV_SESSION_RESULT_OK, Some sn,
                 apply_route_commit b (w\<lparr>w_session := s'\<rparr>) sn)
        else if ss_state s = EV_SESSION_OWNED \<and> l = ss_owner_link s \<and> n = ss_client_nonce s
        then let s' = s\<lparr>ss_last_activity_ms := now\<rparr>
             in (EV_SESSION_RESULT_OK, Some (ev_session_snapshot_locked s' now),
                 w\<lparr>w_session := s'\<rparr>)
        else (EV_SESSION_RESULT_BUSY, Some (ev_session_snapshot_locked s now), w))"
  using assms
  by (auto simp: ev_session_acquire_def hex_nonce_valid_iff acquire_locked_def Let_def
      ev_session_apply_route_def apply_route_check_def)

text \<open>
  Property C2: acquisition is exclusive. With a current link and a valid nonce it succeeds
  exactly when the device is free or the same link repeats its own nonce; any other caller
  gets BUSY and changes nothing; on success the caller is the owner, and only a repeated hello
  keeps the session identifier and the handshake.
\<close>

theorem acquire_is_exclusive:
  assumes "ev_transport_link_is_current (w_transport w) (Some l)" and "nonce_ok n"
    and "ss_initialized (w_session w)"
    and "ev_session_acquire b rnd tm id w (Some l) (Some n) now (Some x) = (r, sn, w')"
  shows "if ss_state (w_session w) = EV_SESSION_FREE \<or>
            (ss_state (w_session w) = EV_SESSION_OWNED \<and> l = ss_owner_link (w_session w) \<and>
             n = ss_client_nonce (w_session w))
         then r = EV_SESSION_RESULT_OK \<and> ss_state (w_session w') = EV_SESSION_OWNED \<and>
              ss_owner_link (w_session w') = l \<and> ss_client_nonce (w_session w') = n \<and>
              ss_last_activity_ms (w_session w') = now \<and>
              (if ss_state (w_session w) = EV_SESSION_FREE
               then ss_session_id (w_session w') = ev_session_make_id rnd \<and>
                    \<not> ss_handshake_complete (w_session w')
               else ss_session_id (w_session w') = ss_session_id (w_session w) \<and>
                    ss_handshake_complete (w_session w') = ss_handshake_complete (w_session w))
         else r = EV_SESSION_RESULT_BUSY \<and> w' = w"
  using assms(4) unfolding acquire_call [OF assms(1-3)]
  by (auto simp: Let_def acquire_locked_def assms(3) split: if_splits)

section \<open>Authorisation\<close>

text \<open>
  Property C3: a request is authorised exactly when its link is current and is the owner's,
  its session identifier is the owner's, the handshake is complete and, for a VM request, it
  carries the current VM epoch while the VM is ready; a refused request does not renew the
  lease or change the session in any way.
\<close>

theorem authorize_exact:
  "(fst (ev_session_authorize t s link sid vr has_epoch e now (Some x)) = EV_SESSION_RESULT_OK \<longleftrightarrow>
     ev_transport_link_is_current t link \<and> ss_state s = EV_SESSION_OWNED \<and>
     link = Some (ss_owner_link s) \<and> sid = Some (ss_session_id s) \<and> ss_handshake_complete s \<and>
     (vr \<longrightarrow> has_epoch \<and> e = ss_vm_epoch s \<and> ss_vm_ready s)) \<and>
   snd (snd (ev_session_authorize t s link sid vr has_epoch e now (Some x))) =
     (if fst (ev_session_authorize t s link sid vr has_epoch e now (Some x)) = EV_SESSION_RESULT_OK
      then s\<lparr>ss_last_activity_ms := now\<rparr> else s)"
proof
  show "fst (ev_session_authorize t s link sid vr has_epoch e now (Some x)) = EV_SESSION_RESULT_OK \<longleftrightarrow>
     ev_transport_link_is_current t link \<and> ss_state s = EV_SESSION_OWNED \<and>
     link = Some (ss_owner_link s) \<and> sid = Some (ss_session_id s) \<and> ss_handshake_complete s \<and>
     (vr \<longrightarrow> has_epoch \<and> e = ss_vm_epoch s \<and> ss_vm_ready s)"
    by (cases "ss_state s"; cases link)
      (auto simp: ev_session_authorize_def ev_session_check_owner_locked_def Let_def)
qed (simp add: ev_session_authorize_def split_beta Let_def)

section \<open>The lease\<close>

lemma tick_fires_iff:
  "fst (ev_session_tick b w now) \<longleftrightarrow>
     ss_state (w_session w) = EV_SESSION_OWNED \<and>
     EV_SESSION_LEASE_MS \<le> now - ss_last_activity_ms (w_session w)"
  by (auto simp: ev_session_tick_def tick_locked_def Let_def)

lemma tick_quiet: "\<not> fst (ev_session_tick b w now) \<Longrightarrow> snd (ev_session_tick b w now) = w"
  by (auto simp: ev_session_tick_def tick_locked_def Let_def split: if_splits)

lemma tick_frees:
  "fst (ev_session_tick b w now) \<Longrightarrow>
   ss_state (w_session (snd (ev_session_tick b w now))) = EV_SESSION_FREE"
  by (auto simp: ev_session_tick_def tick_locked_def Let_def split: if_splits)

lemma lease_elapsed:
  "d < 2 ^ 32 \<Longrightarrow> EV_SESSION_LEASE_MS \<le> (t0 + of_nat d) - t0 \<longleftrightarrow> 15000 \<le> d"
  using elapsed_ge_iff [of d EV_SESSION_LEASE_MS t0] by simp

lemma tick_within_lease:
  assumes "ss_last_activity_ms (w_session w) = t0" and "d < 15000"
  shows "ev_session_tick b w (t0 + of_nat d) = (False, w)"
proof -
  have "\<not> fst (ev_session_tick b w (t0 + of_nat d))"
    using lease_elapsed [of d t0] assms by (simp add: tick_fires_iff)
  then show ?thesis using tick_quiet by (metis prod.collapse)
qed

text \<open>
  Property C5: the lease is exact. An owner whose last activity was \<open>d\<close> milliseconds ago
  (the 32-bit clock may have wrapped since) is expired by the tick if and only if \<open>d\<close> is at
  least 15000; an earlier tick changes nothing, an expiring one frees the device.
\<close>

theorem lease_is_exact:
  assumes "ss_state (w_session w) = EV_SESSION_OWNED"
    and "ss_last_activity_ms (w_session w) = t0" and "d < 2 ^ 32"
  shows "if d < 15000 then ev_session_tick b w (t0 + of_nat d) = (False, w)
         else fst (ev_session_tick b w (t0 + of_nat d)) \<and>
              ss_state (w_session (snd (ev_session_tick b w (t0 + of_nat d)))) = EV_SESSION_FREE"
proof (cases "d < 15000")
  case True
  then show ?thesis using tick_within_lease assms by simp
next
  case False
  then have "fst (ev_session_tick b w (t0 + of_nat d))"
    using lease_elapsed [OF assms(3), of t0] assms by (simp add: tick_fires_iff)
  with False show ?thesis by (simp add: tick_frees)
qed

text \<open>One period of a live client: the tick runs, then its keepalive arrives.\<close>

definition keepalive_period :: "board \<Rightarrow> ev_link_ref \<Rightarrow> cstring \<Rightarrow> world \<times> u32 \<Rightarrow> nat \<Rightarrow> world \<times> u32" where
  "keepalive_period b l sid st d =
     (let (w, clock) = st; now = clock + of_nat d; w1 = snd (ev_session_tick b w now)
      in (w1\<lparr>w_session := snd (snd (ev_session_keepalive (w_transport w1) (w_session w1)
             (Some l) (Some sid) now (Some zero_snapshot)))\<rparr>, now))"

lemma keepalive_owner:
  assumes "ev_transport_link_is_current t (Some l)" and "ss_state s = EV_SESSION_OWNED"
    and "ss_owner_link s = l" and "ss_session_id s = sid" and "ss_handshake_complete s"
  shows "ev_session_keepalive t s (Some l) (Some sid) now (Some x) =
    (EV_SESSION_RESULT_OK, Some (ev_session_snapshot_locked (s\<lparr>ss_last_activity_ms := now\<rparr>) now),
     s\<lparr>ss_last_activity_ms := now\<rparr>)"
  using assms by (simp add: ev_session_keepalive_def ev_session_check_owner_locked_def Let_def)

lemma keepalive_period_step:
  assumes "ev_transport_link_is_current (w_transport w) (Some l)"
    and "ss_state (w_session w) = EV_SESSION_OWNED" and "ss_owner_link (w_session w) = l"
    and "ss_session_id (w_session w) = sid" and "ss_handshake_complete (w_session w)"
    and "ss_last_activity_ms (w_session w) = clock" and "d < 15000"
  shows "keepalive_period b l sid (w, clock) d =
    (w\<lparr>w_session := (w_session w)\<lparr>ss_last_activity_ms := clock + of_nat d\<rparr>\<rparr>, clock + of_nat d)"
proof -
  have "ev_session_tick b w (clock + of_nat d) = (False, w)"
    using tick_within_lease assms by simp
  then show ?thesis using assms
    by (simp add: keepalive_period_def Let_def keepalive_owner)
qed

text \<open>
  A client that sends a keepalive at least every 15 seconds (each gap below
  15000 ms, any number of periods, across clock wraps) keeps its session: the same owner, the
  same session identifier, still owned, after every period.
\<close>

theorem regular_keepalives_hold_the_session:
  assumes "ev_transport_link_is_current (w_transport w) (Some l)"
    and "ss_state (w_session w) = EV_SESSION_OWNED" and "ss_owner_link (w_session w) = l"
    and "ss_session_id (w_session w) = sid" and "ss_handshake_complete (w_session w)"
    and "ss_last_activity_ms (w_session w) = clock" and "list_all (\<lambda>d. d < 15000) ds"
  shows "let (w', clock') = foldl (keepalive_period b l sid) (w, clock) ds
    in ss_state (w_session w') = EV_SESSION_OWNED \<and> ss_owner_link (w_session w') = l \<and>
       ss_session_id (w_session w') = sid \<and> ss_last_activity_ms (w_session w') = clock'"
  using assms
proof (induction ds arbitrary: w clock)
  case Nil
  then show ?case by simp
next
  case (Cons d ds)
  let ?w = "w\<lparr>w_session := (w_session w)\<lparr>ss_last_activity_ms := clock + of_nat d\<rparr>\<rparr>"
  have "keepalive_period b l sid (w, clock) d = (?w, clock + of_nat d)"
    using Cons.prems by (intro keepalive_period_step) simp_all
  moreover have "let (w', clock') = foldl (keepalive_period b l sid) (?w, clock + of_nat d) ds
    in ss_state (w_session w') = EV_SESSION_OWNED \<and> ss_owner_link (w_session w') = l \<and>
       ss_session_id (w_session w') = sid \<and> ss_last_activity_ms (w_session w') = clock'"
    using Cons.prems by (intro Cons.IH) simp_all
  ultimately show ?case by simp
qed

section \<open>Losing the owner\<close>

lemma clear_transport:
  "w_transport (drop_owner_locked b w l) =
     (if serial_rotates l then retire (w_transport w) l else w_transport w)"
  by (simp add: drop_owner_locked_def retire_def Let_def)

lemma set_owner_current [simp]:
  "ev_transport_link_is_current (ev_transport_set_owner t o1) l = ev_transport_link_is_current t l"
  by (cases l) (simp_all add: current_live)

lemma commit_current [simp]:
  "ev_transport_link_is_current (w_transport (apply_route_commit b w sn)) l =
     ev_transport_link_is_current (w_transport w) l"
  by (simp add: apply_route_commit_def Let_def split_beta)

lemma finish_current [simp]:
  "ev_transport_link_is_current (w_transport (finish_route_job b w j)) l =
     ev_transport_link_is_current (w_transport w) l"
  by (simp add: finish_route_job_def ev_session_apply_route_def ev_session_notify_change_def)

text \<open>
  When the owner of a USB-serial or UART link is lost for any reason (released,
  link lost, failed transmission), the old link reference is stale at once: a hello that still
  carries it is refused as stale and changes nothing, so it cannot claim the byte stream of
  the next session.
\<close>

theorem lost_serial_owner_cannot_reclaim:
  assumes "serial_locks_ready (w_transport w)" and "serial_rotates l"
    and "ev_transport_link_is_current (w_transport w) (Some l)" and "nonce_ok n"
    and "ev_session_clear_owner b tm w (Some l) reason rr sid = (True, w')"
  shows "ev_session_acquire b rnd tm2 mid w' (Some l) (Some n) now (Some x) =
    (EV_SESSION_RESULT_STALE_LINK, Some x, w')"
proof -
  have "\<not> ev_transport_link_is_current (retire (w_transport w) l) (Some l)"
    using assms(1,3) by (rule reg.retire_stale)
  then have "\<not> ev_transport_link_is_current (w_transport w') (Some l)"
    using assms(2,5)
    by (auto simp: ev_session_clear_owner_def clear_owner_locked_cases Let_def clear_transport
        split: if_splits)
  then show ?thesis by (simp add: ev_session_acquire_def hex_nonce_valid_iff assms(4))
qed

lemma input_generation_changes:
  assumes "world_inv w" and "ss_initialized (w_session w)"
    and "w' = run_call b w call"
    and "ss_owner_link (w_session w') \<noteq> ss_owner_link (w_session w) \<or>
         ss_session_id (w_session w') \<noteq> ss_session_id (w_session w) \<or>
         ss_vm_epoch (w_session w') \<noteq> ss_vm_epoch (w_session w)"
  shows "ev_session_input_generation (w_session w') \<noteq> ev_session_input_generation (w_session w)"
proof -
  have atomic: "ss_input_generation_atomic (w_session w) = ss_input_generation (w_session w)"
    using assms(1) by (simp add: world_inv_def session_inv_def)
  note changes = counter.nxt_changes [of "ss_input_generation (w_session w)"]
  show ?thesis
  proof (cases call)
    case (Call_acquire rnd tm l n now)
    then show ?thesis using assms(2-4) atomic changes
      by (auto simp: ev_session_acquire_def ev_session_input_generation_def acquire_locked_def
          Let_def ev_session_apply_route_def apply_route_check_def
          split: option.splits if_splits)
  next
    case (Call_hello tm l sid ok)
    then show ?thesis using assms(2-4) atomic changes
      by (auto simp: ev_session_hello_complete_def ev_session_input_generation_def
          ev_session_clear_owner_def clear_owner_locked_cases hello_complete_locked_def Let_def
          split: if_splits)
  next
    case (Call_authorize l sid vr he e now)
    then show ?thesis using assms(3,4)
      by (auto simp: ev_session_authorize_def Let_def split_beta split: option.splits if_splits)
  next
    case (Call_keepalive l sid now)
    then show ?thesis using assms(3,4)
      by (auto simp: ev_session_keepalive_def Let_def split_beta split: option.splits if_splits)
  qed (use assms(2-4) atomic changes in \<open>auto simp: ev_session_input_generation_def
      ev_session_init0_def ev_session_set_changed_cb_def ev_session_release_prepare_def
      ev_session_release_finish_def ev_session_link_lost_def ev_session_clear_owner_def
      clear_owner_locked_cases ev_session_tick_def tick_locked_def ev_session_vm_epoch_advance_def
      ev_session_set_vm_ready_def Let_def split: if_splits\<close>)
qed

text \<open>
  Property C6: the input generation is a faithful change token: a call that changes the owner
  (who it is, or its session identifier) or the VM epoch of an initialised session changes the
  input generation, so input queued for the earlier owner or epoch is recognised as stale.
\<close>

theorem owner_change_changes_input_generation:
  assumes "world_inv w" and "ss_initialized (w_session w)"
    and "w' = run_call b w call"
    and "ss_owner_link (w_session w') \<noteq> ss_owner_link (w_session w) \<or>
         ss_session_id (w_session w') \<noteq> ss_session_id (w_session w) \<or>
         ss_vm_epoch (w_session w') \<noteq> ss_vm_epoch (w_session w)"
  shows "ev_session_input_generation (w_session w') \<noteq> ev_session_input_generation (w_session w)"
  using input_generation_changes [OF assms] .

end
