(* ===== verification/VmOutput.thy ===== *)
theory VmOutput
  imports SessionProps
begin

text \<open>
  The origin of MicroPython output, \<open>platform/ev_vm_output.c\<close>: each command the VM executes
  runs in a scope that names the session input it came from, and a REPL line being edited
  binds to the origin of its first byte. The record \<open>vm_task\<close> is the thread-local state of
  the VM task. Tokens given to the caller are returned by value.
\<close>

section \<open>Data\<close>

definition EV_VM_OUTPUT_SCOPE_DEPTH_MAX :: nat where
  "EV_VM_OUTPUT_SCOPE_DEPTH_MAX = 4"

lemmas vm_output_consts [simp] = EV_VM_OUTPUT_SCOPE_DEPTH_MAX_def

record ev_vm_output_origin =
  or_link :: ev_link_ref
  or_session_id :: cstring
  or_vm_epoch :: u32
  or_input_generation :: u32
  or_transition_id :: u32

record ev_vm_output_scope =
  sc_cookie :: u32
  sc_reset_generation :: u32
  sc_depth :: nat
  sc_active :: bool

record ev_vm_output_scope_entry =
  en_cookie :: u32
  en_origin :: ev_vm_output_origin

record vm_task =
  vt_next_cookie :: u32
  vt_reset_generation :: u32
  vt_scope_depth :: nat
  vt_repl_editing :: bool
  vt_repl_has_origin :: bool
  vt_repl_origin :: ev_vm_output_origin
  vt_scopes :: "ev_vm_output_scope_entry list"

definition zero_origin :: ev_vm_output_origin where
  "zero_origin = \<lparr>or_link = zero_link, or_session_id = [], or_vm_epoch = 0,
     or_input_generation = 0, or_transition_id = 0\<rparr>"

definition zero_entry :: ev_vm_output_scope_entry where
  "zero_entry = \<lparr>en_cookie = 0, en_origin = zero_origin\<rparr>"

definition zero_scope :: ev_vm_output_scope where
  "zero_scope = \<lparr>sc_cookie = 0, sc_reset_generation = 0, sc_depth = 0, sc_active = False\<rparr>"

definition vm_task_zero :: vm_task where
  "vm_task_zero = \<lparr>vt_next_cookie = 0, vt_reset_generation = 0, vt_scope_depth = 0,
     vt_repl_editing = False, vt_repl_has_origin = False, vt_repl_origin = zero_origin,
     vt_scopes = replicate EV_VM_OUTPUT_SCOPE_DEPTH_MAX zero_entry\<rparr>"

section \<open>Origins\<close>

definition ev_vm_output_session_id_valid :: "cstring option \<Rightarrow> bool" where
  "ev_vm_output_session_id_valid sid =
     (case sid of None \<Rightarrow> False
      | Some s \<Rightarrow> list_all (\<lambda>i. lower_hex (c_at s i)) [0..<EV_SESSION_ID_HEX_LEN] \<and>
          c_at s EV_SESSION_ID_HEX_LEN = CHR 0x00)"

definition ev_vm_output_origin_valid :: "ev_vm_output_origin option \<Rightarrow> bool" where
  "ev_vm_output_origin_valid origin =
     (case origin of None \<Rightarrow> False
      | Some o1 \<Rightarrow> lr_transport_id (or_link o1) < EV_TRANSPORT_MAX \<and>
          lr_generation (or_link o1) \<noteq> 0 \<and> or_vm_epoch o1 \<noteq> 0 \<and> or_input_generation o1 \<noteq> 0 \<and>
          ev_vm_output_session_id_valid (Some (or_session_id o1)))"

definition ev_vm_output_origin_equal ::
  "ev_vm_output_origin option \<Rightarrow> ev_vm_output_origin option \<Rightarrow> bool" where
  "ev_vm_output_origin_equal left right =
     (case (left, right) of
        (Some l, Some r) \<Rightarrow>
          lr_transport_id (or_link l) = lr_transport_id (or_link r) \<and>
          lr_slot (or_link l) = lr_slot (or_link r) \<and>
          lr_generation (or_link l) = lr_generation (or_link r) \<and>
          or_session_id l = or_session_id r \<and> or_vm_epoch l = or_vm_epoch r \<and>
          or_input_generation l = or_input_generation r \<and>
          or_transition_id l = or_transition_id r
      | _ \<Rightarrow> False)"

definition ev_vm_output_origin_from_session ::
  "ev_session_snapshot_t option \<Rightarrow> ev_vm_output_origin option \<Rightarrow> bool \<times> ev_vm_output_origin option"
  where
  "ev_vm_output_origin_from_session snap out =
     (case (snap, out) of
        (Some s, Some _) \<Rightarrow>
          if \<not> sn_has_owner s \<or> sn_state s \<noteq> EV_SESSION_OWNED \<or> \<not> sn_handshake_complete s \<or>
             \<not> sn_vm_ready s
          then (False, out)
          else
            let origin = \<lparr>or_link = sn_owner_link s, or_session_id = sn_session_id s,
                  or_vm_epoch = sn_vm_epoch s, or_input_generation = sn_input_generation s,
                  or_transition_id = sn_transition_id s\<rparr>
            in if \<not> ev_vm_output_origin_valid (Some origin) then (False, out)
               else (True, Some origin)
      | _ \<Rightarrow> (False, out))"

section \<open>Scopes\<close>

definition ev_vm_output_reset :: "vm_task \<Rightarrow> vm_task" where
  "ev_vm_output_reset v =
     (let g = vt_reset_generation v + 1; g' = (if g = 0 then 1 else g)
      in vm_task_zero\<lparr>vt_reset_generation := g'\<rparr>)"

definition ev_vm_output_init0 :: "vm_task \<Rightarrow> vm_task" where
  "ev_vm_output_init0 v = ev_vm_output_reset v"

definition ev_vm_output_scope_push ::
  "vm_task \<Rightarrow> ev_vm_output_origin option \<Rightarrow> ev_vm_output_scope option
     \<Rightarrow> bool \<times> ev_vm_output_scope option \<times> vm_task" where
  "ev_vm_output_scope_push v origin scope =
     (if scope = None then (False, None, v)
      else if \<not> ev_vm_output_origin_valid origin \<or>
              vt_scope_depth v \<ge> EV_VM_OUTPUT_SCOPE_DEPTH_MAX
      then (False, Some zero_scope, v)
      else
        let depth = vt_scope_depth v;
            c = vt_next_cookie v + 1;
            cookie = (if c = 0 then 1 else c)
        in (True,
            Some \<lparr>sc_cookie = cookie, sc_reset_generation = vt_reset_generation v,
                  sc_depth = depth, sc_active = True\<rparr>,
            v\<lparr>vt_next_cookie := cookie,
              vt_scopes := (vt_scopes v)[depth := \<lparr>en_cookie = cookie, en_origin = the origin\<rparr>],
              vt_scope_depth := depth + 1\<rparr>))"

definition ev_vm_output_scope_can_capture_thread :: "vm_task \<Rightarrow> bool" where
  "ev_vm_output_scope_can_capture_thread v \<longleftrightarrow> vt_scope_depth v < EV_VM_OUTPUT_SCOPE_DEPTH_MAX"

definition ev_vm_output_scope_pop ::
  "vm_task \<Rightarrow> ev_vm_output_scope option \<Rightarrow> ev_vm_output_scope option \<times> vm_task" where
  "ev_vm_output_scope_pop v scope =
     (case scope of None \<Rightarrow> (None, v)
      | Some s \<Rightarrow>
        if \<not> sc_active s then (scope, v)
        else
          let s' = s\<lparr>sc_active := False\<rparr>
          in if sc_reset_generation s \<noteq> vt_reset_generation v then (Some s', v)
             else if sc_depth s \<ge> EV_VM_OUTPUT_SCOPE_DEPTH_MAX \<or>
                     vt_scope_depth v \<noteq> sc_depth s + 1 \<or>
                     en_cookie (vt_scopes v ! sc_depth s) \<noteq> sc_cookie s
             then (Some s', v)
             else (Some s', v\<lparr>vt_scopes := (vt_scopes v)[sc_depth s := zero_entry],
                              vt_scope_depth := sc_depth s\<rparr>))"

definition active_origin :: "vm_task \<Rightarrow> ev_vm_output_origin" where
  "active_origin v = en_origin (vt_scopes v ! (vt_scope_depth v - 1))"

definition ev_vm_output_scope_snapshot ::
  "vm_task \<Rightarrow> ev_vm_output_origin option \<Rightarrow> bool \<times> ev_vm_output_origin option" where
  "ev_vm_output_scope_snapshot v out =
     (if out = None then (False, None)
      else if vt_scope_depth v \<noteq> 0 then (True, Some (active_origin v))
      else if vt_repl_editing v \<and> vt_repl_has_origin v then (True, Some (vt_repl_origin v))
      else (False, out))"

section \<open>The REPL line\<close>

definition ev_vm_output_repl_read_begin :: "vm_task \<Rightarrow> vm_task" where
  "ev_vm_output_repl_read_begin v =
     (if vt_scope_depth v \<noteq> 0 then v
      else v\<lparr>vt_repl_origin := zero_origin, vt_repl_has_origin := False, vt_repl_editing := True\<rparr>)"

definition ev_vm_output_repl_input_accept ::
  "vm_task \<Rightarrow> ev_vm_output_origin option \<Rightarrow> bool \<times> vm_task" where
  "ev_vm_output_repl_input_accept v origin =
     (if vt_scope_depth v \<noteq> 0
      then (ev_vm_output_origin_valid origin \<and>
            ev_vm_output_origin_equal (Some (active_origin v)) origin, v)
      else if \<not> vt_repl_editing v then (True, v)
      else if \<not> ev_vm_output_origin_valid origin then (False, v)
      else if \<not> vt_repl_has_origin v
      then (True, v\<lparr>vt_repl_origin := the origin, vt_repl_has_origin := True\<rparr>)
      else (ev_vm_output_origin_equal (Some (vt_repl_origin v)) origin, v))"

definition repl_clear :: "vm_task \<Rightarrow> vm_task" where
  "repl_clear v = v\<lparr>vt_repl_editing := False, vt_repl_has_origin := False,
     vt_repl_origin := zero_origin\<rparr>"

definition ev_vm_output_repl_read_complete ::
  "vm_task \<Rightarrow> ev_vm_output_origin option \<Rightarrow> bool \<times> ev_vm_output_origin option \<times> vm_task" where
  "ev_vm_output_repl_read_complete v out =
     (let have_origin = (vt_repl_editing v \<and> vt_repl_has_origin v)
      in (have_origin \<and> out \<noteq> None,
          if have_origin \<and> out \<noteq> None then Some (vt_repl_origin v) else out,
          repl_clear v))"

definition ev_vm_output_repl_read_abort :: "vm_task \<Rightarrow> vm_task" where
  "ev_vm_output_repl_read_abort v = repl_clear v"

definition ev_vm_output_repl_edit_stale :: "session \<Rightarrow> vm_task \<Rightarrow> bool" where
  "ev_vm_output_repl_edit_stale s v \<longleftrightarrow>
     vt_repl_editing v \<and> vt_repl_has_origin v \<and>
     ev_session_input_generation s \<noteq> or_input_generation (vt_repl_origin v)"

definition ev_vm_output_input_origin_stale :: "session \<Rightarrow> vm_task \<Rightarrow> bool" where
  "ev_vm_output_input_origin_stale s v =
     (if vt_scope_depth v \<noteq> 0
      then ev_session_input_generation s \<noteq> or_input_generation (active_origin v)
      else ev_vm_output_repl_edit_stale s v)"

definition ev_vm_output_origin_is_current ::
  "session \<Rightarrow> u32 \<Rightarrow> ev_vm_output_origin option \<Rightarrow> bool" where
  "ev_vm_output_origin_is_current s timer origin =
     (if \<not> ev_vm_output_origin_valid origin then False
      else
        let (have_session, snap) = ev_session_snapshot s timer (Some zero_snapshot);
            (have_origin, current) = ev_vm_output_origin_from_session snap (Some zero_origin)
        in have_session \<and> have_origin \<and> ev_vm_output_origin_equal origin current)"

section \<open>Facts\<close>

lemma session_id_valid_iff:
  assumes "CHR 0x00 \<notin> set s"
  shows "ev_vm_output_session_id_valid (Some s) \<longleftrightarrow> length s = 32 \<and> list_all lower_hex s"
proof
  assume v: "ev_vm_output_session_id_valid (Some s)"
  then have hex: "\<forall>i < 32. lower_hex (c_at s i)" and last: "c_at s 32 = CHR 0x00"
    by (auto simp: ev_vm_output_session_id_valid_def list_all_iff)
  have "\<not> length s < 32"
  proof
    assume "length s < 32"
    then have "lower_hex (c_at s (length s))" using hex by blast
    then show False by simp
  qed
  moreover have "\<not> 32 < length s"
  proof
    assume "32 < length s"
    then have "s ! 32 = CHR 0x00" using last by simp
    then show False using assms \<open>32 < length s\<close> by (metis nth_mem)
  qed
  ultimately have len: "length s = 32" by simp
  with hex show "length s = 32 \<and> list_all lower_hex s" by (simp add: list_all_length)
next
  assume "length s = 32 \<and> list_all lower_hex s"
  then show "ev_vm_output_session_id_valid (Some s)"
    by (simp add: ev_vm_output_session_id_valid_def list_all_length)
qed

lemma nonce_ok_no_NUL: "nonce_ok s \<Longrightarrow> CHR 0x00 \<notin> set s"
  by (auto simp: nonce_ok_def list_all_iff)

lemma origin_equal_iff [simp]: "ev_vm_output_origin_equal (Some a) (Some b) \<longleftrightarrow> a = b"
proof -
  have "or_link a = or_link b \<longleftrightarrow> lr_transport_id (or_link a) = lr_transport_id (or_link b) \<and>
      lr_slot (or_link a) = lr_slot (or_link b) \<and> lr_generation (or_link a) = lr_generation (or_link b)"
    by (cases "or_link a"; cases "or_link b") auto
  then show ?thesis by (cases a; cases b) (auto simp: ev_vm_output_origin_equal_def)
qed

lemma origin_equal_None [simp]:
  "\<not> ev_vm_output_origin_equal None x" "\<not> ev_vm_output_origin_equal x None"
  by (auto simp: ev_vm_output_origin_equal_def split: option.splits)

lemma valid_None [simp]: "\<not> ev_vm_output_origin_valid None"
  by (simp add: ev_vm_output_origin_valid_def)

end
