(* ===== verification/MuxFrame.thy ===== *)
theory MuxFrame
  imports VmOutput
begin

text \<open>
  The frames of the EV-MUX transmitter, the first part of \<open>platform/ev_mux.c\<close>: the frame record,
  the CRC, the text header, the time a frame may take on the wire, and the tickets by which a
  producer waits for the end of a transmission. Sizes are \<open>nat\<close>: every length that is added is
  bounded by the queue size of 16 KiB before it is used.
\<close>

section \<open>Constants\<close>

definition EV_MUX_SERIAL_TARGETS :: nat where "EV_MUX_SERIAL_TARGETS = 3"
definition EV_MUX_TARGET_COUNT :: nat where
  "EV_MUX_TARGET_COUNT = EV_MUX_SERIAL_TARGETS + unat EV_TRANSPORT_TCP_LINKS"
definition EV_MUX_QUEUE_BYTES :: nat where "EV_MUX_QUEUE_BYTES = 16 * 1024"
definition EV_MUX_QUEUE_RESERVED_BYTES :: nat where "EV_MUX_QUEUE_RESERVED_BYTES = 4 * 1024"
definition EV_MUX_QUEUE_FRAMES :: nat where "EV_MUX_QUEUE_FRAMES = 8"
definition EV_MUX_QUEUE_RESERVED_FRAMES :: nat where "EV_MUX_QUEUE_RESERVED_FRAMES = 2"
definition EV_MUX_BLOCK_SIZE :: nat where "EV_MUX_BLOCK_SIZE = 256"
definition EV_MUX_BLOCK_COUNT :: nat where
  "EV_MUX_BLOCK_COUNT = EV_MUX_QUEUE_BYTES div EV_MUX_BLOCK_SIZE"
definition EV_MUX_METADATA_MAX :: nat where "EV_MUX_METADATA_MAX = 384"
definition EV_MUX_HEADER_MAX :: nat where "EV_MUX_HEADER_MAX = 56"
definition EV_MUX_QUEUE_TIMEOUT_MS :: u32 where "EV_MUX_QUEUE_TIMEOUT_MS = 2000"
definition EV_MUX_FRAME_TIMEOUT_MS :: u32 where "EV_MUX_FRAME_TIMEOUT_MS = 1500"
definition EV_MUX_UART_FRAME_TIMEOUT_MAX_MS :: u32 where "EV_MUX_UART_FRAME_TIMEOUT_MAX_MS = 10000"
definition EV_MUX_CRC_CHUNK_BYTES :: nat where "EV_MUX_CRC_CHUNK_BYTES = 512"
definition EV_MUX_TICKET_COUNT :: nat where "EV_MUX_TICKET_COUNT = 8"
definition EV_MUX_TX_CONTEXT_MAX :: nat where "EV_MUX_TX_CONTEXT_MAX = 40"
definition EV_MUX_ARENA_BYTES :: nat where
  "EV_MUX_ARENA_BYTES = (EV_MUX_SERIAL_TARGETS + 1) * EV_MUX_QUEUE_BYTES"

lemmas mux_consts =
  EV_MUX_SERIAL_TARGETS_def EV_MUX_TARGET_COUNT_def EV_MUX_QUEUE_BYTES_def
  EV_MUX_QUEUE_RESERVED_BYTES_def EV_MUX_QUEUE_FRAMES_def EV_MUX_QUEUE_RESERVED_FRAMES_def
  EV_MUX_BLOCK_SIZE_def EV_MUX_BLOCK_COUNT_def EV_MUX_METADATA_MAX_def EV_MUX_HEADER_MAX_def
  EV_MUX_QUEUE_TIMEOUT_MS_def EV_MUX_FRAME_TIMEOUT_MS_def EV_MUX_UART_FRAME_TIMEOUT_MAX_MS_def
  EV_MUX_CRC_CHUNK_BYTES_def EV_MUX_TICKET_COUNT_def EV_MUX_TX_CONTEXT_MAX_def
  EV_MUX_ARENA_BYTES_def

text \<open>The transmit classes, in the order of their values; a smaller value goes first.\<close>

definition EV_MUX_TX_SESSION :: nat where "EV_MUX_TX_SESSION = 0"
definition EV_MUX_TX_CONTROL :: nat where "EV_MUX_TX_CONTROL = 1"
definition EV_MUX_TX_REPL :: nat where "EV_MUX_TX_REPL = 2"
definition EV_MUX_TX_LOG :: nat where "EV_MUX_TX_LOG = 3"
definition EV_MUX_TX_PREVIEW :: nat where "EV_MUX_TX_PREVIEW = 4"

lemmas tx_classes =
  EV_MUX_TX_SESSION_def EV_MUX_TX_CONTROL_def EV_MUX_TX_REPL_def EV_MUX_TX_LOG_def
  EV_MUX_TX_PREVIEW_def

section \<open>Data\<close>

text \<open>
  A frame. The first \<open>block_count\<close> entries of the array \<open>blocks\<close> are the list \<open>fr_blocks\<close>; the
  metadata and the header are the first \<open>metadata_len\<close> and \<open>header_len\<close> characters of their
  arrays. A callback is named by a number.
\<close>

record ev_mux_frame =
  fr_used :: bool
  fr_uart_baud_control :: bool
  fr_tcp_quota_reserved :: bool
  fr_tcp_discovery_reservation :: bool
  fr_tcp_low_reservation :: bool
  fr_priority :: nat
  fr_blocks :: "nat list"
  fr_link :: ev_link_ref
  fr_session_id :: cstring
  fr_vm_epoch :: u32
  fr_output_input_generation :: u32
  fr_output_transition_id :: u32
  fr_preview_observer :: bool
  fr_enqueue_ms :: u32
  fr_start_ms :: u32
  fr_last_progress_ms :: u32
  fr_attempted :: bool
  fr_enqueue_order :: u32
  fr_frame_timeout_ms :: u32
  fr_metadata :: string
  fr_header :: string
  fr_payload_len :: nat
  fr_payload_crc_state :: u32
  fr_payload_crc_pos :: nat
  fr_total_len :: nat
  fr_tx_offset :: nat
  fr_header_ready :: bool
  fr_ticket :: u32
  fr_completion :: "nat option"
  fr_completion_context :: "u8 list"

definition zero_frame :: ev_mux_frame where
  "zero_frame =
     \<lparr>fr_used = False, fr_uart_baud_control = False, fr_tcp_quota_reserved = False,
      fr_tcp_discovery_reservation = False, fr_tcp_low_reservation = False, fr_priority = 0,
      fr_blocks = [], fr_link = zero_link, fr_session_id = [], fr_vm_epoch = 0,
      fr_output_input_generation = 0, fr_output_transition_id = 0, fr_preview_observer = False,
      fr_enqueue_ms = 0, fr_start_ms = 0, fr_last_progress_ms = 0, fr_attempted = False,
      fr_enqueue_order = 0, fr_frame_timeout_ms = 0, fr_metadata = [], fr_header = [],
      fr_payload_len = 0, fr_payload_crc_state = 0, fr_payload_crc_pos = 0, fr_total_len = 0,
      fr_tx_offset = 0, fr_header_ready = False, fr_ticket = 0, fr_completion = None,
      fr_completion_context = []\<rparr>"

record ev_mux_submit_options =
  op_link :: "ev_link_ref option"
  op_session_id :: "cstring option"
  op_vm_epoch :: u32
  op_tx_class :: nat
  op_uart_baud_control :: bool
  op_completion :: "nat option"
  op_completion_context :: "u8 list option"
  op_completion_context_len :: nat
  op_vm_output_origin :: "ev_vm_output_origin option"

record ev_mux_ticket_state =
  tk_allocated :: bool
  tk_done :: bool
  tk_forgotten :: bool
  tk_generation :: u32
  tk_result :: esp_err
  tk_semaphore :: bool

record ev_mux_completion =
  cm_pending :: bool
  cm_callback :: "nat option"
  cm_link :: ev_link_ref
  cm_result :: esp_err
  cm_ticket :: u32
  cm_context :: "u8 list"

text \<open>
  A frame of the special pools: two preview frames of the owner, four of the observers, and one
  large frame. The payload is in a buffer of the heap, named by its address.
\<close>

datatype ev_mux_special_kind =
    EV_MUX_SPECIAL_NONE
  | EV_MUX_SPECIAL_PREVIEW
  | EV_MUX_SPECIAL_LARGE
  | EV_MUX_SPECIAL_OBSERVER

record ev_mux_special_frame =
  sp_used :: bool
  sp_kind :: ev_mux_special_kind
  sp_pool_index :: nat
  sp_frame :: ev_mux_frame
  sp_payload :: "nat option"

definition zero_special :: ev_mux_special_frame where
  "zero_special =
     \<lparr>sp_used = False, sp_kind = EV_MUX_SPECIAL_NONE, sp_pool_index = 0, sp_frame = zero_frame,
      sp_payload = None\<rparr>"

datatype special_ref = Preview_frame nat | Large_frame

section \<open>The checksum\<close>

fun crc_bits :: "nat \<Rightarrow> u32 \<Rightarrow> u32" where
  "crc_bits 0 crc = crc"
| "crc_bits (Suc n) crc = crc_bits n (drop_bit 1 crc XOR (0xEDB88320 AND (0 - (crc AND 1))))"

definition ev_mux_crc32_update :: "u32 \<Rightarrow> u8 \<Rightarrow> u32" where
  "ev_mux_crc32_update crc v = crc_bits 8 (crc XOR ucast v)"

definition ev_mux_crc32 :: "u8 list \<Rightarrow> u32" where
  "ev_mux_crc32 bytes = NOT (foldl ev_mux_crc32_update 0xFFFFFFFF bytes)"

section \<open>Targets and deadlines\<close>

text \<open>The index -1 is \<open>None\<close>.\<close>

definition ev_mux_target_index :: "ev_link_ref option \<Rightarrow> nat option" where
  "ev_mux_target_index link =
     (case link of None \<Rightarrow> None
      | Some l \<Rightarrow>
          if EV_TRANSPORT_MAX \<le> lr_transport_id l then None
          else if lr_transport_id l < EV_TRANSPORT_TCP
          then if lr_slot l = EV_TRANSPORT_PHYSICAL_SLOT
               then Some (transport_value (lr_transport_id l)) else None
          else if EV_TRANSPORT_TCP_LINKS \<le> lr_slot l then None
          else Some (EV_MUX_SERIAL_TARGETS + unat (lr_slot l)))"

definition ev_mux_frame_timeout :: "u32 \<Rightarrow> ev_link_ref \<Rightarrow> nat \<Rightarrow> u32" where
  "ev_mux_frame_timeout baud link encoded_len =
     (if lr_transport_id link \<noteq> EV_TRANSPORT_UART then EV_MUX_FRAME_TIMEOUT_MS
      else if baud = 0 then 0
      else
        let wire_ms = (encoded_len * 10000 + unat baud - 1) div unat baud;
            timeout_ms = wire_ms * 2 + 250;
            timeout_ms = (if timeout_ms < unat EV_MUX_FRAME_TIMEOUT_MS
                          then unat EV_MUX_FRAME_TIMEOUT_MS else timeout_ms)
        in if unat EV_MUX_UART_FRAME_TIMEOUT_MAX_MS < timeout_ms then 0 else of_nat timeout_ms)"

section \<open>Tickets\<close>

definition ev_mux_ticket_encode :: "nat \<Rightarrow> u32 \<Rightarrow> u32" where
  "ev_mux_ticket_encode slot generation =
     push_bit 8 (generation AND 0x00FFFFFF) OR of_nat (slot + 1)"

definition ev_mux_ticket_decode :: "u32 \<Rightarrow> (nat \<times> u32) option" where
  "ev_mux_ticket_decode ticket =
     (let encoded_slot = unat (ticket AND 0xFF)
      in if ticket = 0 \<or> encoded_slot = 0 \<or> EV_MUX_TICKET_COUNT < encoded_slot then None
         else if drop_bit 8 ticket \<noteq> 0 then Some (encoded_slot - 1, drop_bit 8 ticket)
         else None)"

definition ticket_next_generation :: "u32 \<Rightarrow> u32" where
  "ticket_next_generation g =
     (let g1 = (g + 1) AND 0x00FFFFFF in if g1 = 0 then 1 else g1)"

fun ticket_allocate_from ::
  "nat list \<Rightarrow> ev_mux_ticket_state list \<Rightarrow> u32 \<times> ev_mux_ticket_state list" where
  "ticket_allocate_from [] ts = (0, ts)"
| "ticket_allocate_from (i # is) ts =
     (if \<not> tk_allocated (ts ! i)
      then
        let g = ticket_next_generation (tk_generation (ts ! i))
        in (ev_mux_ticket_encode i g,
            ts[i := \<lparr>tk_allocated = True, tk_done = False, tk_forgotten = False,
                     tk_generation = g, tk_result = ESP_ERR_INVALID_STATE,
                     tk_semaphore = False\<rparr>])
      else ticket_allocate_from is ts)"

definition ev_mux_ticket_allocate ::
  "ev_mux_ticket_state list \<Rightarrow> u32 \<times> ev_mux_ticket_state list" where
  "ev_mux_ticket_allocate ts = ticket_allocate_from [0..<EV_MUX_TICKET_COUNT] ts"

text \<open>The slot of a ticket that is live.\<close>

definition ev_mux_ticket_lookup_locked :: "ev_mux_ticket_state list \<Rightarrow> u32 \<Rightarrow> nat option" where
  "ev_mux_ticket_lookup_locked ts ticket =
     (case ev_mux_ticket_decode ticket of None \<Rightarrow> None
      | Some (slot, generation) \<Rightarrow>
          if \<not> tk_allocated (ts ! slot) \<or> tk_generation (ts ! slot) \<noteq> generation then None
          else Some slot)"

definition ev_mux_ticket_complete ::
  "ev_mux_ticket_state list \<Rightarrow> u32 \<Rightarrow> esp_err \<Rightarrow> ev_mux_ticket_state list" where
  "ev_mux_ticket_complete ts ticket result =
     (if ticket = 0 then ts
      else
        case ev_mux_ticket_lookup_locked ts ticket of None \<Rightarrow> ts
        | Some i \<Rightarrow>
            let t = (ts ! i)\<lparr>tk_done := True, tk_result := result\<rparr>
            in ts[i := (if tk_forgotten t then t\<lparr>tk_allocated := False\<rparr>
                        else t\<lparr>tk_semaphore := True\<rparr>)])"

text \<open>
  \<open>others\<close> is what the other tasks do to the tickets while the caller waits for the semaphore;
  \<open>signalled\<close> is whether the semaphore was given within the timeout.
\<close>

definition ev_mux_wait ::
  "ev_mux_ticket_state list \<Rightarrow> u32 \<Rightarrow>
     (ev_mux_ticket_state list \<Rightarrow> bool \<times> ev_mux_ticket_state list) \<Rightarrow> esp_err option \<Rightarrow>
     esp_err \<times> esp_err option \<times> ev_mux_ticket_state list" where
  "ev_mux_wait ts ticket others out =
     (if out = None \<or> ev_mux_ticket_decode ticket = None then (ESP_ERR_INVALID_ARG, out, ts)
      else
        case ev_mux_ticket_lookup_locked ts ticket of None \<Rightarrow> (ESP_ERR_INVALID_STATE, out, ts)
        | Some i \<Rightarrow>
            let (signalled, ts1) = (if tk_done (ts ! i) then (True, ts) else others ts)
            in if \<not> signalled then (ESP_ERR_TIMEOUT, out, ts1)
               else
                 case ev_mux_ticket_lookup_locked ts1 ticket of
                   None \<Rightarrow> (ESP_ERR_TIMEOUT, out, ts1)
                 | Some j \<Rightarrow>
                     if tk_done (ts1 ! j) then (ESP_OK, Some (tk_result (ts1 ! j)), ts1)
                     else (ESP_ERR_TIMEOUT, out, ts1))"

definition ev_mux_ticket_forget ::
  "ev_mux_ticket_state list \<Rightarrow> u32 \<Rightarrow> ev_mux_ticket_state list" where
  "ev_mux_ticket_forget ts ticket =
     (case ev_mux_ticket_lookup_locked ts ticket of None \<Rightarrow> ts
      | Some i \<Rightarrow>
          ts[i := (if tk_done (ts ! i) then (ts ! i)\<lparr>tk_allocated := False\<rparr>
                   else (ts ! i)\<lparr>tk_forgotten := True\<rparr>)])"

definition ev_mux_ticket_rollback ::
  "ev_mux_ticket_state list \<Rightarrow> u32 \<Rightarrow> ev_mux_ticket_state list" where
  "ev_mux_ticket_rollback ts ticket =
     (if ticket \<noteq> 0
      then ev_mux_ticket_complete (ev_mux_ticket_forget ts ticket) ticket ESP_ERR_INVALID_STATE
      else ts)"

definition zero_completion :: ev_mux_completion where
  "zero_completion =
     \<lparr>cm_pending = False, cm_callback = None, cm_link = zero_link, cm_result = ESP_OK,
      cm_ticket = 0, cm_context = []\<rparr>"

definition ev_mux_completion_prepare ::
  "ev_mux_ticket_state list \<Rightarrow> ev_mux_frame \<Rightarrow> esp_err \<Rightarrow>
     ev_mux_completion \<times> ev_mux_ticket_state list" where
  "ev_mux_completion_prepare ts f result =
     (\<lparr>cm_pending = (fr_completion f \<noteq> None), cm_callback = fr_completion f,
       cm_link = fr_link f, cm_result = result, cm_ticket = fr_ticket f,
       cm_context = fr_completion_context f\<rparr>,
      ev_mux_ticket_complete ts (fr_ticket f) result)"

text \<open>The callback that runs, with its result, link and context.\<close>

definition ev_mux_completion_run ::
  "ev_mux_completion option \<Rightarrow> (nat \<times> esp_err \<times> ev_link_ref \<times> u8 list) option" where
  "ev_mux_completion_run completion =
     (case completion of None \<Rightarrow> None
      | Some c \<Rightarrow>
          if cm_pending c
          then (case cm_callback c of None \<Rightarrow> None
                | Some cb \<Rightarrow> Some (cb, cm_result c, cm_link c, cm_context c))
          else None)"

section \<open>The header\<close>

text \<open>\<open>%u\<close> and \<open>%08X\<close>.\<close>

fun decimal :: "nat \<Rightarrow> string" where
  "decimal n = (if n < 10 then [''0123456789'' ! n] else decimal (n div 10) @ [''0123456789'' ! (n mod 10)])"

declare decimal.simps [simp del]

definition HEX8 :: "u32 \<Rightarrow> string" where
  "HEX8 w =
     map (\<lambda>i. ''0123456789ABCDEF'' ! unat (drop_bit (28 - 4 * i) w AND 15)) [0, 1, 2, 3, 4, 5, 6, 7]"

definition header_text :: "nat \<Rightarrow> nat \<Rightarrow> u32 \<Rightarrow> string" where
  "header_text metadata_len payload_len crc =
     [CHR 0x1E] @ ''EVMUX/1 h='' @ decimal metadata_len @ '' p='' @ decimal payload_len @ '' c='' @
     HEX8 crc @ [CHR 0x0D, CHR 0x0A]"

definition ev_mux_build_header :: "ev_mux_frame \<Rightarrow> u32 \<Rightarrow> bool \<times> ev_mux_frame" where
  "ev_mux_build_header f crc =
     (let h = header_text (length (fr_metadata f)) (fr_payload_len f) crc
      in if EV_MUX_HEADER_MAX \<le> length h
         then (False, f\<lparr>fr_header := take (EV_MUX_HEADER_MAX - 1) h\<rparr>)
         else (True, f\<lparr>fr_header := h\<rparr>))"

section \<open>Filling a frame\<close>

definition ev_mux_link_equal :: "ev_link_ref \<Rightarrow> ev_link_ref \<Rightarrow> bool" where
  "ev_mux_link_equal left right =
     (lr_transport_id left = lr_transport_id right \<and> lr_slot left = lr_slot right \<and>
      lr_generation left = lr_generation right)"

text \<open>The identifier of an origin is a C array of 33 characters, so its string is not longer.\<close>

definition origin_ok :: "ev_vm_output_origin \<Rightarrow> ev_mux_submit_options \<Rightarrow> bool" where
  "origin_ok og options \<longleftrightarrow>
     or_input_generation og \<noteq> 0 \<and> length (or_session_id og) = EV_SESSION_ID_HEX_LEN \<and>
     ev_mux_link_equal (or_link og) (the (op_link options)) \<and>
     or_vm_epoch og = op_vm_epoch options \<and>
     op_session_id options = Some (or_session_id og)"

definition ev_mux_copy_options ::
  "transport \<Rightarrow> ev_mux_frame \<Rightarrow> ev_mux_submit_options option \<Rightarrow> bool \<times> ev_mux_frame" where
  "ev_mux_copy_options t f options =
     (case options of None \<Rightarrow> (False, f)
      | Some o1 \<Rightarrow>
          if op_link o1 = None \<or> EV_MUX_TX_PREVIEW < op_tx_class o1 \<or>
             EV_MUX_TX_CONTEXT_MAX < op_completion_context_len o1 \<or>
             (op_completion_context_len o1 \<noteq> 0 \<and> op_completion_context o1 = None)
          then (False, f)
          else if \<not> ev_transport_link_is_current t (op_link o1) then (False, f)
          else
            let f1 = zero_frame\<lparr>fr_link := the (op_link o1), fr_priority := op_tx_class o1,
                       fr_uart_baud_control := op_uart_baud_control o1,
                       fr_vm_epoch := op_vm_epoch o1, fr_completion := op_completion o1\<rparr>;
                sid = (case op_session_id o1 of None \<Rightarrow> [] | Some s \<Rightarrow> s)
            in if EV_SESSION_ID_HEX_LEN < length sid then (False, f1)
               else
                 let f2 = f1\<lparr>fr_session_id := sid\<rparr>;
                     (ok, f3) =
                       (case op_vm_output_origin o1 of
                          None \<Rightarrow> (True, f2)
                        | Some og \<Rightarrow>
                            if \<not> origin_ok og o1 then (False, f2)
                            else (True, f2\<lparr>fr_output_input_generation := or_input_generation og,
                                          fr_output_transition_id := or_transition_id og\<rparr>))
                 in if \<not> ok then (False, f3)
                    else (True,
                          f3\<lparr>fr_completion_context :=
                            (if op_completion_context_len o1 = 0 then []
                             else take (op_completion_context_len o1)
                                    (the (op_completion_context o1)))\<rparr>))"

text \<open>\<open>order\<close> is the value of \<open>s_tx_enqueue_order\<close> before the call; the new value is returned.\<close>

definition ev_mux_prepare_frame ::
  "transport \<Rightarrow> u32 \<Rightarrow> u32 \<Rightarrow> u32 \<Rightarrow> ev_mux_frame \<Rightarrow> ev_mux_submit_options option \<Rightarrow> string \<Rightarrow> nat \<Rightarrow>
     nat \<Rightarrow> nat \<Rightarrow> u32 \<Rightarrow> bool \<times> ev_mux_frame \<times> u32" where
  "ev_mux_prepare_frame t baud now order f options metadata metadata_len payload_len encoded_len
     ticket =
     (let (ok, f1) = ev_mux_copy_options t f options
      in if \<not> ok then (False, f1, order)
         else if EV_MUX_METADATA_MAX < metadata_len \<or> 2 ^ 32 - 1 < payload_len
         then (False, f1, order)
         else
           let f2 = f1\<lparr>fr_metadata := take metadata_len metadata, fr_payload_len := payload_len,
                       fr_total_len := encoded_len, fr_ticket := ticket, fr_enqueue_ms := now,
                       fr_enqueue_order := order + 1,
                       fr_frame_timeout_ms := ev_mux_frame_timeout baud (fr_link f1) encoded_len\<rparr>
           in if fr_frame_timeout_ms f2 = 0 then (False, f2, order + 1)
              else
                let f3 = f2\<lparr>fr_payload_crc_state := 0xFFFFFFFF,
                            fr_header_ready := (payload_len = 0)\<rparr>;
                    (built, f4) = ev_mux_build_header f3 0
                in (built, f4, order + 1))"

end
