(* ===== verification/MuxQueue.thy ===== *)
theory MuxQueue
  imports MuxFrame
begin

text \<open>
  The transmit queues of EV-MUX, \<open>platform/ev_mux.c\<close>: one queue of eight frames per endpoint. The
  payloads lie in an arena that is divided into 64 blocks of 256 bytes; each serial endpoint has
  an arena of its own, the TCP links share one, together with a quota. The record \<open>mux\<close> holds the
  static variables. A mutex that could not be taken in time is the argument \<open>locked\<close>.
\<close>

section \<open>State\<close>

record ev_mux_target_queue =
  tq_arena :: "nat option"
  tq_free_blocks :: u64
  tq_bytes_used :: nat
  tq_frames_used :: nat
  tq_congested_at_ms :: u32
  tq_congested :: bool
  tq_frames :: "ev_mux_frame list"

record ev_mux_timeout_info =
  ti_transport :: ev_transport_id
  ti_slot :: u8
  ti_offset :: nat
  ti_bytes :: nat
  ti_elapsed_ms :: u32
  ti_idle_ms :: u32

text \<open>
  An arena is the offset of its first byte in the slab. The frames and buffers of the special
  pools are described in MuxSpecial; the indices \<open>s_preview_pending\<close> and \<open>s_preview_active\<close> are
  options, -1 is \<open>None\<close>.
\<close>

record mux =
  mx_slab :: "u8 list"
  mx_tcp_arena :: "nat option"
  mx_targets :: "ev_mux_target_queue list"
  mx_tickets :: "ev_mux_ticket_state list"
  mx_tcp_free_blocks :: u64
  mx_tcp_bytes_used :: nat
  mx_tcp_frames_used :: nat
  mx_tcp_discovery_bytes_used :: nat
  mx_tcp_discovery_frames_used :: nat
  mx_tcp_low_bytes_used :: nat
  mx_tcp_low_frames_used :: nat
  mx_special_partial :: "special_ref option list"
  mx_preview_frames :: "ev_mux_special_frame list"
  mx_large_frame :: ev_mux_special_frame
  mx_preview_pending :: "nat option"
  mx_preview_active :: "nat option"
  mx_heap :: "nat \<Rightarrow> u8 list option"
  mx_preview_buffers :: "nat option list"
  mx_preview_capacities :: "nat list"
  mx_observer_buffers :: "nat option list"
  mx_observer_capacities :: "nat list"
  mx_large_buffer :: "nat option"
  mx_large_capacity :: nat
  mx_observer_generations :: "u32 list"
  mx_uart_paused :: bool
  mx_last_timeout :: "ev_mux_timeout_info option"
  mx_tx_timeout_count :: u32
  mx_tx_drop_count :: u32
  mx_tx_queue_full_count :: u32
  mx_tx_stale_count :: u32
  mx_tx_enqueue_order :: u32

definition zero_queue :: ev_mux_target_queue where
  "zero_queue =
     \<lparr>tq_arena = None, tq_free_blocks = 0, tq_bytes_used = 0, tq_frames_used = 0,
      tq_congested_at_ms = 0, tq_congested = False,
      tq_frames = replicate EV_MUX_QUEUE_FRAMES zero_frame\<rparr>"

definition ev_mux_queue_is_tcp :: "mux \<Rightarrow> ev_mux_target_queue \<Rightarrow> bool" where
  "ev_mux_queue_is_tcp m q = (tq_arena q = mx_tcp_arena m)"

definition ev_mux_target_queues_reset :: "mux \<Rightarrow> mux" where
  "ev_mux_target_queues_reset m =
     m\<lparr>mx_tcp_arena := None, mx_targets := replicate EV_MUX_TARGET_COUNT zero_queue,
       mx_special_partial := replicate EV_MUX_TARGET_COUNT None\<rparr>"

definition bound_queue :: "nat \<Rightarrow> ev_mux_target_queue" where
  "bound_queue i =
     zero_queue\<lparr>tq_arena := Some ((if i < EV_MUX_SERIAL_TARGETS then i else EV_MUX_SERIAL_TARGETS) *
                                EV_MUX_QUEUE_BYTES),
                tq_free_blocks := (if i < EV_MUX_SERIAL_TARGETS then - 1 else 0)\<rparr>"

definition ev_mux_target_queues_bind :: "mux \<Rightarrow> mux" where
  "ev_mux_target_queues_bind m =
     m\<lparr>mx_tcp_arena := Some (EV_MUX_SERIAL_TARGETS * EV_MUX_QUEUE_BYTES),
       mx_targets := map bound_queue [0..<EV_MUX_TARGET_COUNT],
       mx_special_partial := replicate EV_MUX_TARGET_COUNT None,
       mx_tcp_free_blocks := - 1, mx_tcp_bytes_used := 0, mx_tcp_frames_used := 0,
       mx_tcp_discovery_bytes_used := 0, mx_tcp_discovery_frames_used := 0,
       mx_tcp_low_bytes_used := 0, mx_tcp_low_frames_used := 0\<rparr>"

section \<open>The shared quota of the TCP links\<close>

definition frame_discovery :: "ev_mux_frame \<Rightarrow> bool" where
  "frame_discovery f \<longleftrightarrow> fr_session_id f = []"

definition frame_low :: "ev_mux_frame \<Rightarrow> bool" where
  "frame_low f \<longleftrightarrow> EV_MUX_TX_REPL \<le> fr_priority f"

definition ev_mux_tcp_reserve :: "mux \<Rightarrow> ev_mux_frame \<Rightarrow> nat \<Rightarrow> bool \<times> ev_mux_frame \<times> mux" where
  "ev_mux_tcp_reserve m f encoded_len =
     (let discovery = frame_discovery f; low_priority = frame_low f
      in if mx_tcp_frames_used m < EV_MUX_QUEUE_FRAMES \<and>
            mx_tcp_bytes_used m + encoded_len \<le> EV_MUX_QUEUE_BYTES \<and>
            (\<not> discovery \<or>
              (mx_tcp_discovery_frames_used m < EV_MUX_QUEUE_FRAMES - EV_MUX_QUEUE_RESERVED_FRAMES \<and>
               mx_tcp_discovery_bytes_used m + encoded_len
                 \<le> EV_MUX_QUEUE_BYTES - EV_MUX_QUEUE_RESERVED_BYTES)) \<and>
            (\<not> low_priority \<or>
              (mx_tcp_low_frames_used m < EV_MUX_QUEUE_FRAMES - EV_MUX_QUEUE_RESERVED_FRAMES \<and>
               mx_tcp_low_bytes_used m + encoded_len
                 \<le> EV_MUX_QUEUE_BYTES - EV_MUX_QUEUE_RESERVED_BYTES))
         then
           (True,
            f\<lparr>fr_tcp_quota_reserved := True,
              fr_tcp_discovery_reservation := (discovery \<or> fr_tcp_discovery_reservation f),
              fr_tcp_low_reservation := (low_priority \<or> fr_tcp_low_reservation f)\<rparr>,
            m\<lparr>mx_tcp_frames_used := mx_tcp_frames_used m + 1,
              mx_tcp_bytes_used := mx_tcp_bytes_used m + encoded_len,
              mx_tcp_discovery_frames_used :=
                mx_tcp_discovery_frames_used m + (if discovery then 1 else 0),
              mx_tcp_discovery_bytes_used :=
                mx_tcp_discovery_bytes_used m + (if discovery then encoded_len else 0),
              mx_tcp_low_frames_used := mx_tcp_low_frames_used m + (if low_priority then 1 else 0),
              mx_tcp_low_bytes_used :=
                mx_tcp_low_bytes_used m + (if low_priority then encoded_len else 0)\<rparr>)
         else (False, f, m))"

text \<open>
  The counters are decremented only down to zero, which is subtraction on \<open>nat\<close>.
\<close>

definition ev_mux_tcp_release_reservation :: "mux \<Rightarrow> ev_mux_frame \<Rightarrow> ev_mux_frame \<times> mux" where
  "ev_mux_tcp_release_reservation m f =
     (if \<not> fr_tcp_quota_reserved f then (f, m)
      else
        let d = fr_tcp_discovery_reservation f; l = fr_tcp_low_reservation f; n = fr_total_len f
        in (f\<lparr>fr_tcp_quota_reserved := False, fr_tcp_discovery_reservation := False,
              fr_tcp_low_reservation := False\<rparr>,
            m\<lparr>mx_tcp_frames_used := mx_tcp_frames_used m - 1,
              mx_tcp_bytes_used := mx_tcp_bytes_used m - n,
              mx_tcp_discovery_frames_used := mx_tcp_discovery_frames_used m - (if d then 1 else 0),
              mx_tcp_discovery_bytes_used := mx_tcp_discovery_bytes_used m - (if d then n else 0),
              mx_tcp_low_frames_used := mx_tcp_low_frames_used m - (if l then 1 else 0),
              mx_tcp_low_bytes_used := mx_tcp_low_bytes_used m - (if l then n else 0)\<rparr>))"

section \<open>Blocks\<close>

definition blocks_needed :: "nat \<Rightarrow> nat" where
  "blocks_needed payload_len = (payload_len + EV_MUX_BLOCK_SIZE - 1) div EV_MUX_BLOCK_SIZE"

text \<open>The search loop; \<open>needed\<close> counts down, so that the result is the blocks found, in order.\<close>

fun take_blocks :: "nat list \<Rightarrow> nat \<Rightarrow> u64 \<Rightarrow> nat list \<times> u64" where
  "take_blocks [] needed bm = ([], bm)"
| "take_blocks (b # bs) needed bm =
     (if needed = 0 then ([], bm)
      else if bm AND push_bit b 1 \<noteq> 0
      then let (found, bm') = take_blocks bs (needed - 1) (bm AND NOT (push_bit b 1))
           in (b # found, bm')
      else take_blocks bs needed bm)"

definition give_blocks :: "nat list \<Rightarrow> u64 \<Rightarrow> u64" where
  "give_blocks bs bm = foldl (\<lambda>m b. m OR push_bit b 1) bm bs"

definition allocate_from :: "u64 \<Rightarrow> nat \<Rightarrow> (nat list \<times> u64) option \<times> u64" where
  "allocate_from bm needed =
     (let (found, bm') = take_blocks [0..<EV_MUX_BLOCK_COUNT] needed bm
      in if length found \<noteq> needed then (None, give_blocks found bm')
         else (Some (found, bm'), bm'))"

definition ev_mux_allocate_blocks ::
  "mux \<Rightarrow> ev_mux_target_queue \<Rightarrow> ev_mux_frame \<Rightarrow> nat \<Rightarrow>
     bool \<times> ev_mux_frame \<times> ev_mux_target_queue \<times> mux" where
  "ev_mux_allocate_blocks m q f payload_len =
     (let needed = blocks_needed payload_len
      in if EV_MUX_BLOCK_COUNT < needed then (False, f, q, m)
         else if ev_mux_queue_is_tcp m q
         then case allocate_from (mx_tcp_free_blocks m) needed of
                (None, bm) \<Rightarrow> (False, f\<lparr>fr_blocks := []\<rparr>, q, m\<lparr>mx_tcp_free_blocks := bm\<rparr>)
              | (Some (bs, _), bm) \<Rightarrow> (True, f\<lparr>fr_blocks := bs\<rparr>, q, m\<lparr>mx_tcp_free_blocks := bm\<rparr>)
         else case allocate_from (tq_free_blocks q) needed of
                (None, bm) \<Rightarrow> (False, f\<lparr>fr_blocks := []\<rparr>, q\<lparr>tq_free_blocks := bm\<rparr>, m)
              | (Some (bs, _), bm) \<Rightarrow> (True, f\<lparr>fr_blocks := bs\<rparr>, q\<lparr>tq_free_blocks := bm\<rparr>, m))"

definition ev_mux_release_blocks ::
  "mux \<Rightarrow> ev_mux_target_queue \<Rightarrow> ev_mux_frame \<Rightarrow> ev_mux_target_queue \<times> mux" where
  "ev_mux_release_blocks m q f =
     (if ev_mux_queue_is_tcp m q
      then (q, m\<lparr>mx_tcp_free_blocks := give_blocks (fr_blocks f) (mx_tcp_free_blocks m)\<rparr>)
      else (q\<lparr>tq_free_blocks := give_blocks (fr_blocks f) (tq_free_blocks q)\<rparr>, m))"

section \<open>The payload in the arena\<close>

definition memcpy_at :: "u8 list \<Rightarrow> nat \<Rightarrow> u8 list \<Rightarrow> u8 list" where
  "memcpy_at dst k src = take k dst @ src @ drop (k + length src) dst"

text \<open>
  The copy loop from the state \<open>done\<close>; a round copies up to the end of the block of \<open>done\<close>.
\<close>

function copy_in_loop :: "nat \<Rightarrow> nat list \<Rightarrow> u8 list \<Rightarrow> nat \<Rightarrow> u8 list \<Rightarrow> u8 list" where
  "copy_in_loop base blocks bytes pos slab =
     (if pos < length bytes
      then
        let block_number = pos div EV_MUX_BLOCK_SIZE; block_offset = pos mod EV_MUX_BLOCK_SIZE;
            chunk = min (EV_MUX_BLOCK_SIZE - block_offset) (length bytes - pos)
        in copy_in_loop base blocks bytes (pos + chunk)
             (memcpy_at slab (base + blocks ! block_number * EV_MUX_BLOCK_SIZE + block_offset)
                (take chunk (drop pos bytes)))
      else slab)"
  by pat_completeness auto
termination
  by (relation "measure (\<lambda>(base, blocks, bytes, pos, slab). length bytes - pos)")
    (auto simp: EV_MUX_BLOCK_SIZE_def)

declare copy_in_loop.simps [simp del]

definition ev_mux_arena_copy_in :: "ev_mux_target_queue \<Rightarrow> ev_mux_frame \<Rightarrow> u8 list \<Rightarrow> u8 list \<Rightarrow> u8 list" where
  "ev_mux_arena_copy_in q f source slab =
     copy_in_loop (the (tq_arena q)) (fr_blocks f) source 0 slab"

text \<open>
  Where the bytes of the payload from \<open>payload_offset\<close> are and how many of them are contiguous:
  a position in the buffer of a special frame, or in the slab. \<open>special\<close> is the contents of the
  buffer, for a frame of the special pools.
\<close>

definition ev_mux_payload_pointer ::
  "bool \<Rightarrow> ev_mux_target_queue \<Rightarrow> ev_mux_frame \<Rightarrow> nat \<Rightarrow> nat \<times> nat" where
  "ev_mux_payload_pointer is_special q f payload_offset =
     (if is_special then (payload_offset, fr_payload_len f - payload_offset)
      else
        let block_number = payload_offset div EV_MUX_BLOCK_SIZE;
            block_offset = payload_offset mod EV_MUX_BLOCK_SIZE;
            block = fr_blocks f ! block_number;
            available = EV_MUX_BLOCK_SIZE - block_offset;
            remaining = fr_payload_len f - payload_offset
        in (the (tq_arena q) + block * EV_MUX_BLOCK_SIZE + block_offset,
            if remaining < available then remaining else available))"

definition payload_segment ::
  "u8 list option \<Rightarrow> u8 list \<Rightarrow> ev_mux_target_queue \<Rightarrow> ev_mux_frame \<Rightarrow> nat \<Rightarrow> u8 list" where
  "payload_segment special slab q f payload_offset =
     (let (pos, available) = ev_mux_payload_pointer (special \<noteq> None) q f payload_offset
      in take available (drop pos (case special of Some buf \<Rightarrow> buf | None \<Rightarrow> slab)))"

section \<open>Enqueueing\<close>

fun free_slot_from :: "nat list \<Rightarrow> ev_mux_frame list \<Rightarrow> nat option" where
  "free_slot_from [] fs = None"
| "free_slot_from (i # is) fs = (if \<not> fr_used (fs ! i) then Some i else free_slot_from is fs)"

definition ev_mux_free_frame_slot :: "ev_mux_target_queue \<Rightarrow> nat option" where
  "ev_mux_free_frame_slot q = free_slot_from [0..<EV_MUX_QUEUE_FRAMES] (tq_frames q)"

definition ev_mux_record_queue_rejection :: "mux \<Rightarrow> ev_mux_submit_options option \<Rightarrow> mux" where
  "ev_mux_record_queue_rejection m options =
     (let m1 = m\<lparr>mx_tx_queue_full_count := mx_tx_queue_full_count m + 1\<rparr>
      in case options of None \<Rightarrow> m1
         | Some o1 \<Rightarrow>
             if EV_MUX_TX_REPL \<le> op_tx_class o1
             then m1\<lparr>mx_tx_drop_count := mx_tx_drop_count m1 + 1\<rparr> else m1)"

definition rejected :: "bool \<Rightarrow> mux \<Rightarrow> ev_mux_submit_options \<Rightarrow> mux" where
  "rejected record_rejection m options =
     (if record_rejection then ev_mux_record_queue_rejection m (Some options) else m)"

definition set_target :: "nat \<Rightarrow> ev_mux_target_queue \<Rightarrow> mux \<Rightarrow> mux" where
  "set_target i q m = m\<lparr>mx_targets := (mx_targets m)[i := q]\<rparr>"

text \<open>The admission tests under the mutex of the queue, and the frame slot.\<close>

definition queue_admits :: "ev_mux_target_queue \<Rightarrow> nat \<Rightarrow> nat \<Rightarrow> bool" where
  "queue_admits q tx_class encoded_len =
     (if EV_MUX_QUEUE_FRAMES \<le> tq_frames_used q then False
      else if EV_MUX_TX_REPL \<le> tx_class \<and>
              (EV_MUX_QUEUE_FRAMES - EV_MUX_QUEUE_RESERVED_FRAMES \<le> tq_frames_used q \<or>
               EV_MUX_QUEUE_BYTES - EV_MUX_QUEUE_RESERVED_BYTES < tq_bytes_used q + encoded_len)
      then False
      else \<not> EV_MUX_QUEUE_BYTES < tq_bytes_used q + encoded_len)"

definition header_len :: "nat \<Rightarrow> nat \<Rightarrow> nat" where
  "header_len metadata_len payload_len = length (header_text metadata_len payload_len 0)"

definition encoded_length :: "nat \<Rightarrow> nat \<Rightarrow> nat" where
  "encoded_length metadata_len payload_len =
     header_len metadata_len payload_len + metadata_len + payload_len + 1"

text \<open>
  \<open>t\<close> is the transport registry and \<open>baud\<close> the speed of the UART at the time of the call,
  \<open>locked\<close> whether the mutex of the queue was taken in time. First the part from
  \<open>ev_mux_prepare_frame\<close> to the end, which fills slot \<open>i\<close> of the queue \<open>ti\<close>.
\<close>

definition enqueue_frame ::
  "transport \<Rightarrow> u32 \<Rightarrow> u32 \<Rightarrow> mux \<Rightarrow> ev_mux_submit_options \<Rightarrow> string \<Rightarrow> nat \<Rightarrow> u8 list \<Rightarrow> u32 \<Rightarrow> bool \<Rightarrow>
     nat \<Rightarrow> nat \<Rightarrow> nat \<Rightarrow> u32 \<Rightarrow> esp_err \<times> mux" where
  "enqueue_frame t baud now m options metadata metadata_len payload ticket record_rejection ti i
     encoded_len frame_timeout =
     (let payload_len = length payload; q = mx_targets m ! ti;
          (prepared, f, order) =
            ev_mux_prepare_frame t baud now (mx_tx_enqueue_order m) (tq_frames q ! i)
              (Some options) metadata metadata_len payload_len encoded_len ticket;
          m1 = m\<lparr>mx_tx_enqueue_order := order\<rparr>;
          cleared = q\<lparr>tq_frames := (tq_frames q)[i := zero_frame]\<rparr>
      in if \<not> prepared then (ESP_ERR_INVALID_ARG, set_target ti cleared m1)
         else
           let (reserved, f1, m2) =
                 (if ev_mux_queue_is_tcp m1 q then ev_mux_tcp_reserve m1 f encoded_len
                  else (True, f, m1))
           in if \<not> reserved
              then (ESP_ERR_TIMEOUT,
                    set_target ti cleared (rejected record_rejection m2 options))
              else
                let (allocated, f2, q2, m3) = ev_mux_allocate_blocks m2 q f1 payload_len
                in if \<not> allocated
                   then
                     let m4 = snd (ev_mux_tcp_release_reservation m3 f2)
                     in (ESP_ERR_NO_MEM,
                         set_target ti (q2\<lparr>tq_frames := (tq_frames q2)[i := zero_frame]\<rparr>) m4)
                   else
                     let f3 = f2\<lparr>fr_frame_timeout_ms := frame_timeout, fr_used := True\<rparr>;
                         slab = (if payload_len = 0 then mx_slab m3
                                 else ev_mux_arena_copy_in q2 f3 payload (mx_slab m3));
                         q3 = q2\<lparr>tq_frames := (tq_frames q2)[i := f3],
                                 tq_bytes_used := tq_bytes_used q2 + encoded_len,
                                 tq_frames_used := tq_frames_used q2 + 1\<rparr>
                     in (ESP_OK, set_target ti q3 (m3\<lparr>mx_slab := slab\<rparr>)))"

definition ev_mux_enqueue_normal ::
  "transport \<Rightarrow> u32 \<Rightarrow> u32 \<Rightarrow> bool \<Rightarrow> mux \<Rightarrow> ev_mux_submit_options \<Rightarrow> string \<Rightarrow> nat \<Rightarrow> u8 list \<Rightarrow> u32 \<Rightarrow> bool \<Rightarrow>
     esp_err \<times> mux" where
  "ev_mux_enqueue_normal t baud now locked m options metadata metadata_len payload ticket
     record_rejection =
     (case ev_mux_target_index (op_link options) of None \<Rightarrow> (ESP_ERR_INVALID_ARG, m)
      | Some ti \<Rightarrow>
          let payload_len = length payload; hl = header_len metadata_len payload_len;
              encoded_len = encoded_length metadata_len payload_len;
              frame_timeout = ev_mux_frame_timeout baud (the (op_link options)) encoded_len;
              q = mx_targets m ! ti
          in if EV_MUX_QUEUE_BYTES < payload_len then (ESP_ERR_INVALID_SIZE, m)
             else if EV_MUX_HEADER_MAX \<le> hl then (ESP_ERR_INVALID_SIZE, m)
             else if EV_MUX_QUEUE_BYTES < encoded_len then (ESP_ERR_INVALID_SIZE, m)
             else if frame_timeout = 0 then (ESP_ERR_TIMEOUT, m)
             else if \<not> locked then (ESP_ERR_TIMEOUT, rejected record_rejection m options)
             else if \<not> queue_admits q (op_tx_class options) encoded_len
             then (ESP_ERR_TIMEOUT, rejected record_rejection m options)
             else
               case ev_mux_free_frame_slot q of
                 None \<Rightarrow> (ESP_ERR_TIMEOUT, rejected record_rejection m options)
               | Some i \<Rightarrow>
                   enqueue_frame t baud now m options metadata metadata_len payload ticket
                     record_rejection ti i encoded_len frame_timeout)"

section \<open>Leaving the queue\<close>

definition ev_mux_frame_finish_normal_locked ::
  "mux \<Rightarrow> nat \<Rightarrow> nat \<Rightarrow> esp_err \<Rightarrow> ev_mux_completion \<times> mux" where
  "ev_mux_frame_finish_normal_locked m ti i result =
     (let q = mx_targets m ! ti; f = tq_frames q ! i;
          (completion, tickets) = ev_mux_completion_prepare (mx_tickets m) f result;
          m1 = m\<lparr>mx_tickets := tickets,
                 mx_tx_drop_count := mx_tx_drop_count m +
                   (if fr_priority f = EV_MUX_TX_PREVIEW then 1 else 0)\<rparr>;
          (q1, m2) = ev_mux_release_blocks m1 q f;
          (f1, m3) = ev_mux_tcp_release_reservation m2 f;
          q2 = q1\<lparr>tq_bytes_used := tq_bytes_used q1 - fr_total_len f1,
                  tq_frames_used := tq_frames_used q1 - 1,
                  tq_frames := (tq_frames q1)[i := zero_frame]\<rparr>
      in (completion, set_target ti q2 m3))"

definition ev_mux_frame_same_session :: "ev_mux_frame \<Rightarrow> ev_link_ref \<Rightarrow> cstring \<Rightarrow> bool" where
  "ev_mux_frame_same_session f link sid =
     (lr_transport_id (fr_link f) = lr_transport_id link \<and> lr_slot (fr_link f) = lr_slot link \<and>
      lr_generation (fr_link f) = lr_generation link \<and> fr_session_id f = sid)"

definition ev_mux_frame_matches_epoch :: "ev_mux_frame \<Rightarrow> u32 \<Rightarrow> bool" where
  "ev_mux_frame_matches_epoch f vm_epoch = (vm_epoch \<noteq> 0 \<and> fr_vm_epoch f = vm_epoch)"

text \<open>
  One frame of a cancelled session or epoch. The subtractions are on \<open>size_t\<close>; they do not
  wrap because a used frame is counted (\<open>queue_inv\<close> in MuxQueueProps).
\<close>

definition cancel_frame :: "mux \<Rightarrow> nat \<Rightarrow> nat \<Rightarrow> ev_mux_completion \<times> mux" where
  "cancel_frame m ti i =
     (let q = mx_targets m ! ti; f = tq_frames q ! i;
          (completion, tickets) = ev_mux_completion_prepare (mx_tickets m) f ESP_ERR_INVALID_STATE;
          (q1, m1) = ev_mux_release_blocks (m\<lparr>mx_tickets := tickets\<rparr>) q f;
          (f1, m2) = ev_mux_tcp_release_reservation m1 f;
          q2 = q1\<lparr>tq_bytes_used := tq_bytes_used q1 - fr_total_len f1,
                  tq_frames_used := tq_frames_used q1 - 1,
                  tq_frames := (tq_frames q1)[i := zero_frame]\<rparr>
      in (completion, set_target ti q2 m2))"

fun cancel_frames ::
  "(ev_mux_frame \<Rightarrow> bool) \<Rightarrow> nat \<Rightarrow> nat list \<Rightarrow> mux \<Rightarrow> ev_mux_completion list \<times> mux" where
  "cancel_frames matches ti [] m = ([], m)"
| "cancel_frames matches ti (i # is) m =
     (let f = tq_frames (mx_targets m ! ti) ! i
      in if fr_used f \<and> matches f \<and> fr_tx_offset f = 0
         then
           let (c, m1) = cancel_frame m ti i; (cs, m2) = cancel_frames matches ti is m1
           in (c # cs, m2)
         else cancel_frames matches ti is m)"

definition frame_matches ::
  "bool \<Rightarrow> u32 \<Rightarrow> ev_link_ref option \<Rightarrow> cstring option \<Rightarrow> ev_mux_frame \<Rightarrow> bool" where
  "frame_matches by_epoch vm_epoch link sid f =
     (if by_epoch then ev_mux_frame_matches_epoch f vm_epoch
      else case (link, sid) of (Some l, Some s) \<Rightarrow> ev_mux_frame_same_session f l s | _ \<Rightarrow> False)"

definition ev_mux_cancel_target_frames ::
  "mux \<Rightarrow> nat \<Rightarrow> bool \<Rightarrow> u32 \<Rightarrow> ev_link_ref option \<Rightarrow> cstring option \<Rightarrow> ev_mux_completion list \<times> mux" where
  "ev_mux_cancel_target_frames m ti by_epoch vm_epoch link sid =
     cancel_frames (frame_matches by_epoch vm_epoch link sid) ti [0..<EV_MUX_QUEUE_FRAMES] m"

section \<open>Submitting\<close>

text \<open>
  \<open>ticket_out\<close> is the storage for the ticket, if the caller wants one. The start of the
  transmitter is \<open>ready\<close>.
\<close>

definition ev_mux_submit_link ::
  "bool \<Rightarrow> transport \<Rightarrow> u32 \<Rightarrow> u32 \<Rightarrow> bool \<Rightarrow> mux \<Rightarrow> ev_mux_submit_options option \<Rightarrow> cstring option \<Rightarrow>
     u8 list option \<Rightarrow> nat \<Rightarrow> u32 option \<Rightarrow> esp_err \<times> u32 option \<times> mux" where
  "ev_mux_submit_link ready t baud now locked m options metadata payload payload_len ticket_out =
     (case (options, metadata) of
        (Some o1, Some md) \<Rightarrow>
          if payload = None \<and> payload_len \<noteq> 0 then (ESP_ERR_INVALID_ARG, ticket_out, m)
          else if \<not> ready then (ESP_ERR_NO_MEM, ticket_out, m)
          else if EV_MUX_METADATA_MAX < length md then (ESP_ERR_INVALID_SIZE, ticket_out, m)
          else
            let (ticket, ts) =
                  (if ticket_out = None then (0, mx_tickets m)
                   else ev_mux_ticket_allocate (mx_tickets m))
            in if ticket_out \<noteq> None \<and> ticket = 0 then (ESP_ERR_TIMEOUT, ticket_out, m)
               else
                 let (result, m1) =
                       ev_mux_enqueue_normal t baud now locked (m\<lparr>mx_tickets := ts\<rparr>) o1 md
                         (length md)
                         (case payload of None \<Rightarrow> [] | Some p \<Rightarrow> take payload_len p) ticket True
                 in if result \<noteq> ESP_OK
                    then (result, map_option (\<lambda>_. 0) ticket_out,
                          m1\<lparr>mx_tickets := ev_mux_ticket_rollback (mx_tickets m1) ticket\<rparr>)
                    else (result, map_option (\<lambda>_. ticket) ticket_out, m1)
      | _ \<Rightarrow> (ESP_ERR_INVALID_ARG, ticket_out, m))"

section \<open>The bytes of a frame\<close>

text \<open>
  One step of the checksum covers at most 512 bytes, block by block; after the last step the
  header is written with the checksum. A chunk is never empty, because \<open>stop\<close> is at most the
  length of the payload; the test for it lets the definition stand for every frame.
\<close>

function crc_chunks ::
  "u8 list option \<Rightarrow> u8 list \<Rightarrow> ev_mux_target_queue \<Rightarrow> nat \<Rightarrow> ev_mux_frame \<Rightarrow> ev_mux_frame" where
  "crc_chunks special slab q stop f =
     (if fr_payload_crc_pos f < stop
      then
        let data = payload_segment special slab q f (fr_payload_crc_pos f);
            chunk = min (stop - fr_payload_crc_pos f)
                      (snd (ev_mux_payload_pointer (special \<noteq> None) q f (fr_payload_crc_pos f)))
        in if chunk = 0 then f
           else crc_chunks special slab q stop
                  (f\<lparr>fr_payload_crc_state :=
                       foldl ev_mux_crc32_update (fr_payload_crc_state f) (take chunk data),
                     fr_payload_crc_pos := fr_payload_crc_pos f + chunk\<rparr>)
      else f)"
  by pat_completeness auto
termination
  by (relation "measure (\<lambda>(special, slab, q, stop, f). stop - fr_payload_crc_pos f)") auto

declare crc_chunks.simps [simp del]

definition ev_mux_frame_crc_step ::
  "u8 list option \<Rightarrow> u8 list \<Rightarrow> ev_mux_target_queue \<Rightarrow> ev_mux_frame \<Rightarrow> bool \<times> ev_mux_frame" where
  "ev_mux_frame_crc_step special slab q f =
     (if fr_header_ready f then (True, f)
      else
        let stop = min (fr_payload_crc_pos f + EV_MUX_CRC_CHUNK_BYTES) (fr_payload_len f);
            f1 = crc_chunks special slab q stop f;
            f2 = (if fr_payload_crc_pos f1 = fr_payload_len f1
                  then let (built, g) = ev_mux_build_header f1 (NOT (fr_payload_crc_state f1))
                       in g\<lparr>fr_header_ready := built\<rparr>
                  else f1)
        in (fr_header_ready f2, f2))"

definition bytes_of :: "string \<Rightarrow> u8 list" where
  "bytes_of s = map of_char s"

definition ev_mux_frame_segment ::
  "u8 list option \<Rightarrow> u8 list \<Rightarrow> ev_mux_target_queue \<Rightarrow> ev_mux_frame \<Rightarrow> nat \<Rightarrow> u8 list" where
  "ev_mux_frame_segment special slab q f offset =
     (if offset < length (fr_header f) then bytes_of (drop offset (fr_header f))
      else
        let o1 = offset - length (fr_header f)
        in if o1 < length (fr_metadata f) then bytes_of (drop o1 (fr_metadata f))
           else
             let o2 = o1 - length (fr_metadata f)
             in if o2 < fr_payload_len f then payload_segment special slab q f o2
                else [0x1F])"

end
