(* ===== verification/MuxSpecial.thy ===== *)
theory MuxSpecial
  imports MuxQueue
begin

text \<open>
  The frames outside the queues, \<open>platform/ev_mux.c\<close>: previews of the owner, previews of the
  observers, and one large reply. Their payloads are in buffers of the heap that grow on demand;
  a preview that has not started is replaced by the next one. The heap is a map from addresses to
  the contents of live blocks, so that a buffer that is used after it was freed is an error of
  the model (\<open>the None\<close>) which the properties exclude.
\<close>

section \<open>Constants and buffers\<close>

definition EV_MUX_OWNER_PREVIEW_FRAMES :: nat where "EV_MUX_OWNER_PREVIEW_FRAMES = 2"
definition EV_TRANSPORT_PREVIEW_OBSERVERS :: nat where "EV_TRANSPORT_PREVIEW_OBSERVERS = 2"
definition EV_MUX_PREVIEW_FRAMES :: nat where
  "EV_MUX_PREVIEW_FRAMES = EV_MUX_OWNER_PREVIEW_FRAMES + 2 * EV_TRANSPORT_PREVIEW_OBSERVERS"
definition EV_MUX_OBSERVER_BUFFERS :: nat where
  "EV_MUX_OBSERVER_BUFFERS = EV_TRANSPORT_PREVIEW_OBSERVERS + 1"
definition EV_MUX_SPECIAL_BUFFER_MIN :: nat where "EV_MUX_SPECIAL_BUFFER_MIN = 1024"
definition EV_MUX_LARGE_PAYLOAD_MAX :: nat where "EV_MUX_LARGE_PAYLOAD_MAX = 256 * 1024"
definition EV_MUX_OBSERVER_FRAME_TIMEOUT_MS :: u32 where "EV_MUX_OBSERVER_FRAME_TIMEOUT_MS = 8000"

lemmas special_consts =
  EV_MUX_OWNER_PREVIEW_FRAMES_def EV_TRANSPORT_PREVIEW_OBSERVERS_def EV_MUX_PREVIEW_FRAMES_def
  EV_MUX_OBSERVER_BUFFERS_def EV_MUX_SPECIAL_BUFFER_MIN_def EV_MUX_LARGE_PAYLOAD_MAX_def

type_synonym heap = "nat \<Rightarrow> u8 list option"

text \<open>
  The allocator: for a size, the address of a new block and its contents, or NULL.
\<close>

type_synonym malloc = "nat \<Rightarrow> (nat \<times> u8 list) option"

definition heap_free :: "nat option \<Rightarrow> heap \<Rightarrow> heap" where
  "heap_free p h = (case p of None \<Rightarrow> h | Some a \<Rightarrow> h(a := None))"

text \<open>
  Doubling up to the limit. The loop is entered with a positive size and with a payload within
  the limit; without the two tests it would not end.
\<close>

function special_grow :: "nat \<Rightarrow> nat \<Rightarrow> nat" where
  "special_grow needed payload_len =
     (if needed < payload_len \<and> 0 < needed \<and> payload_len \<le> EV_MUX_LARGE_PAYLOAD_MAX
      then special_grow (if EV_MUX_LARGE_PAYLOAD_MAX div 2 < needed then EV_MUX_LARGE_PAYLOAD_MAX
                         else needed * 2) payload_len
      else needed)"
  by pat_completeness auto
termination
  by (relation "measure (\<lambda>(needed, payload_len). payload_len - needed)") auto

declare special_grow.simps [simp del]

definition ev_mux_special_buffer_prepare ::
  "malloc \<Rightarrow> heap \<Rightarrow> nat option \<Rightarrow> nat \<Rightarrow> nat \<Rightarrow> (nat \<times> nat) option \<times> heap" where
  "ev_mux_special_buffer_prepare malloc h buffer capacity payload_len =
     (if EV_MUX_LARGE_PAYLOAD_MAX < payload_len then (None, h)
      else if buffer \<noteq> None \<and> payload_len \<le> capacity then (Some (the buffer, capacity), h)
      else
        let needed = special_grow EV_MUX_SPECIAL_BUFFER_MIN payload_len
        in case malloc needed of None \<Rightarrow> (None, h)
           | Some (a, bytes) \<Rightarrow> (Some (a, needed), h(a := Some bytes)))"

text \<open>The buffer and its capacity after the commit, and the heap.\<close>

definition ev_mux_special_buffer_commit ::
  "heap \<Rightarrow> nat option \<Rightarrow> nat \<Rightarrow> nat \<Rightarrow> nat option \<times> nat \<times> heap" where
  "ev_mux_special_buffer_commit h buffer prepared prepared_capacity =
     (Some prepared, prepared_capacity, (if buffer \<noteq> Some prepared then heap_free buffer h else h))"

section \<open>Frames\<close>

definition get_special :: "mux \<Rightarrow> special_ref \<Rightarrow> ev_mux_special_frame" where
  "get_special m r = (case r of Preview_frame i \<Rightarrow> mx_preview_frames m ! i | Large_frame \<Rightarrow> mx_large_frame m)"

definition set_special :: "special_ref \<Rightarrow> ev_mux_special_frame \<Rightarrow> mux \<Rightarrow> mux" where
  "set_special r s m =
     (case r of Preview_frame i \<Rightarrow> m\<lparr>mx_preview_frames := (mx_preview_frames m)[i := s]\<rparr>
      | Large_frame \<Rightarrow> m\<lparr>mx_large_frame := s\<rparr>)"

definition ev_mux_preview_slot_available_locked :: "mux \<Rightarrow> bool" where
  "ev_mux_preview_slot_available_locked m =
     (mx_preview_pending m \<noteq> None \<or>
      list_ex (\<lambda>i. Some i \<noteq> mx_preview_active m \<and> \<not> sp_used (mx_preview_frames m ! i))
        [0..<EV_MUX_OWNER_PREVIEW_FRAMES])"

text \<open>As for \<open>ev_mux_prepare_frame\<close>, the enqueue order is passed and returned.\<close>

definition ev_mux_special_prepare ::
  "transport \<Rightarrow> u32 \<Rightarrow> u32 \<Rightarrow> u32 \<Rightarrow> ev_mux_frame \<Rightarrow> ev_mux_submit_options \<Rightarrow> string \<Rightarrow> nat \<Rightarrow> nat \<Rightarrow> u32
     \<Rightarrow> bool \<times> ev_mux_frame \<times> u32" where
  "ev_mux_special_prepare t baud now order f options metadata metadata_len payload_len ticket =
     (if EV_MUX_HEADER_MAX \<le> header_len metadata_len payload_len then (False, f, order)
      else
        let (prepared, f1, order1) =
              ev_mux_prepare_frame t baud now order f (Some options) metadata metadata_len
                payload_len (encoded_length metadata_len payload_len) ticket
        in if \<not> prepared then (False, f1, order1)
           else (True, f1\<lparr>fr_used := True\<rparr>, order1))"

text \<open>The completion is \<open>None\<close> if the frame is not in use, when it is left as it was.\<close>

definition ev_mux_special_release_locked ::
  "mux \<Rightarrow> special_ref \<Rightarrow> esp_err \<Rightarrow> ev_mux_completion option \<times> mux" where
  "ev_mux_special_release_locked m r result =
     (let s = get_special m r
      in if \<not> sp_used s then (None, m)
         else
           let m1 = (if fr_tx_offset (sp_frame s) \<noteq> 0
                     then case ev_mux_target_index (Some (fr_link (sp_frame s))) of
                            None \<Rightarrow> m
                          | Some ti \<Rightarrow>
                              if mx_special_partial m ! ti = Some r
                              then m\<lparr>mx_special_partial := (mx_special_partial m)[ti := None]\<rparr> else m
                     else m);
               (completion, tickets) = ev_mux_completion_prepare (mx_tickets m1) (sp_frame s) result;
               m2 = m1\<lparr>mx_tickets := tickets\<rparr>;
               m3 = (if sp_kind s = EV_MUX_SPECIAL_PREVIEW
                     then m2\<lparr>mx_preview_pending :=
                               (if mx_preview_pending m2 = Some (sp_pool_index s) then None
                                else mx_preview_pending m2),
                             mx_preview_active :=
                               (if mx_preview_active m2 = Some (sp_pool_index s) then None
                                else mx_preview_active m2)\<rparr>
                     else if sp_kind s = EV_MUX_SPECIAL_LARGE
                     then m2\<lparr>mx_large_frame := (mx_large_frame m2)\<lparr>sp_used := False\<rparr>\<rparr>
                     else m2)
           in (Some completion,
               set_special r ((get_special m3 r)\<lparr>sp_frame := zero_frame, sp_used := False\<rparr>) m3))"

section \<open>Submitting\<close>

text \<open>
  The large frame: busy, out of memory, or its buffer ready. \<open>None\<close> stands for success.
\<close>

definition special_claim_large :: "malloc \<Rightarrow> mux \<Rightarrow> nat \<Rightarrow> esp_err option \<times> mux" where
  "special_claim_large malloc m payload_len =
     (if sp_used (mx_large_frame m) then (Some ESP_ERR_TIMEOUT, m)
      else
        case ev_mux_special_buffer_prepare malloc (mx_heap m) (mx_large_buffer m)
               (mx_large_capacity m) payload_len of
          (None, _) \<Rightarrow> (Some ESP_ERR_NO_MEM, m)
        | (Some (prepared, capacity), h) \<Rightarrow>
            let (buffer, cap, h1) =
                  ev_mux_special_buffer_commit h (mx_large_buffer m) prepared capacity
            in (None,
                m\<lparr>mx_heap := h1, mx_large_buffer := buffer, mx_large_capacity := cap,
                  mx_large_frame := (mx_large_frame m)\<lparr>sp_payload := buffer\<rparr>\<rparr>))"

definition preview_pool :: "mux \<Rightarrow> nat option" where
  "preview_pool m =
     (case mx_preview_pending m of Some p \<Rightarrow> Some p
      | None \<Rightarrow>
          case find (\<lambda>i. Some i \<noteq> mx_preview_active m \<and> \<not> sp_used (mx_preview_frames m ! i)) [0, 1] of
            Some i \<Rightarrow> Some i
          | None \<Rightarrow> if mx_preview_active m = None then Some 0 else None)"

text \<open>The pending preview makes way for the new one, and is counted as dropped.\<close>

definition replace_pending :: "special_ref \<Rightarrow> mux \<Rightarrow> mux" where
  "replace_pending r m =
     (if sp_used (get_special m r)
      then
        let m' = snd (ev_mux_special_release_locked m r ESP_ERR_INVALID_STATE)
        in m'\<lparr>mx_tx_drop_count := mx_tx_drop_count m' + 1\<rparr>
      else m)"

definition special_claim_preview ::
  "malloc \<Rightarrow> mux \<Rightarrow> nat \<Rightarrow> nat \<Rightarrow> esp_err option \<times> mux" where
  "special_claim_preview malloc m payload_len pool =
     (let special = mx_preview_frames m ! pool
      in if sp_used special \<and> fr_tx_offset (sp_frame special) \<noteq> 0 then (Some ESP_ERR_TIMEOUT, m)
         else
           case ev_mux_special_buffer_prepare malloc (mx_heap m) (mx_preview_buffers m ! pool)
                  (mx_preview_capacities m ! pool) payload_len of
             (None, _) \<Rightarrow> (Some ESP_ERR_NO_MEM, m)
           | (Some (prepared, capacity), h) \<Rightarrow>
               let m2 = replace_pending (Preview_frame pool) (m\<lparr>mx_heap := h\<rparr>);
                   (buffer, cap, h1) =
                     ev_mux_special_buffer_commit (mx_heap m2) (mx_preview_buffers m2 ! pool)
                       prepared capacity
               in (None,
                   m2\<lparr>mx_heap := h1, mx_preview_buffers := (mx_preview_buffers m2)[pool := buffer],
                      mx_preview_capacities := (mx_preview_capacities m2)[pool := cap],
                      mx_preview_frames := (mx_preview_frames m2)[pool :=
                        (mx_preview_frames m2 ! pool)\<lparr>sp_payload := buffer,
                          sp_kind := EV_MUX_SPECIAL_PREVIEW, sp_pool_index := pool\<rparr>]\<rparr>))"

definition heap_write :: "nat option \<Rightarrow> u8 list \<Rightarrow> heap \<Rightarrow> heap" where
  "heap_write p bytes h =
     (if bytes = [] then h else h(the p := Some (memcpy_at (the (h (the p))) 0 bytes)))"

text \<open>The claimed frame is filled and put into use.\<close>

definition special_fill :: "mux \<Rightarrow> special_ref \<Rightarrow> ev_mux_frame \<Rightarrow> u8 list \<Rightarrow> mux" where
  "special_fill m r fresh payload =
     (let s = (get_special m r)\<lparr>sp_frame := fresh, sp_used := True\<rparr>;
          m1 = m\<lparr>mx_heap := heap_write (sp_payload s) payload (mx_heap m)\<rparr>
      in case r of
           Preview_frame i \<Rightarrow> set_special r s (m1\<lparr>mx_preview_pending := Some (sp_pool_index s)\<rparr>)
         | Large_frame \<Rightarrow> set_special r (s\<lparr>sp_kind := EV_MUX_SPECIAL_LARGE\<rparr>) m1)"

text \<open>
  \<open>locked\<close>: the mutex of the special frames was taken in time. \<open>large\<close>: the kind is
  \<open>EV_MUX_SPECIAL_LARGE\<close>, otherwise \<open>EV_MUX_SPECIAL_PREVIEW\<close>. First the part from the mutex on.
\<close>

definition special_enter ::
  "malloc \<Rightarrow> bool \<Rightarrow> mux \<Rightarrow> nat \<Rightarrow> bool \<Rightarrow> ev_mux_frame \<Rightarrow> u8 list \<Rightarrow> esp_err \<times> mux" where
  "special_enter malloc locked m payload_len large fresh bytes =
     (if \<not> locked then (ESP_ERR_TIMEOUT, m)
      else if large
      then case special_claim_large malloc m payload_len of
             (Some e, m1) \<Rightarrow> (e, m1)
           | (None, m1) \<Rightarrow> (ESP_OK, special_fill m1 Large_frame fresh bytes)
      else case preview_pool m of
             None \<Rightarrow> (ESP_ERR_TIMEOUT, m)
           | Some pool \<Rightarrow>
               case special_claim_preview malloc m payload_len pool of
                 (Some e, m1) \<Rightarrow> (e, m1)
               | (None, m1) \<Rightarrow> (ESP_OK, special_fill m1 (Preview_frame pool) fresh bytes))"

definition ev_mux_submit_special ::
  "malloc \<Rightarrow> transport \<Rightarrow> u32 \<Rightarrow> u32 \<Rightarrow> bool \<Rightarrow> mux \<Rightarrow> ev_mux_submit_options \<Rightarrow> string \<Rightarrow> u8 list option \<Rightarrow>
     nat \<Rightarrow> bool \<Rightarrow> u32 \<Rightarrow> esp_err \<times> mux" where
  "ev_mux_submit_special malloc t baud now locked m options metadata payload payload_len large ticket =
     (if EV_MUX_LARGE_PAYLOAD_MAX < payload_len \<or> (payload = None \<and> payload_len \<noteq> 0)
      then (ESP_ERR_INVALID_SIZE, m)
      else if ev_mux_target_index (op_link options) = None then (ESP_ERR_INVALID_ARG, m)
      else if EV_MUX_METADATA_MAX < length metadata then (ESP_ERR_INVALID_SIZE, m)
      else if EV_MUX_HEADER_MAX \<le> header_len (length metadata) payload_len
      then (ESP_ERR_INVALID_SIZE, m)
      else
        let frame_timeout = ev_mux_frame_timeout baud (the (op_link options))
                              (encoded_length (length metadata) payload_len)
        in if frame_timeout = 0 then (ESP_ERR_TIMEOUT, m)
           else
             let (prepared, f, order) =
                   ev_mux_special_prepare t baud now (mx_tx_enqueue_order m) zero_frame options
                     metadata (length metadata) payload_len ticket;
                 m1 = m\<lparr>mx_tx_enqueue_order := order\<rparr>;
                 fresh = f\<lparr>fr_frame_timeout_ms := frame_timeout,
                          fr_priority := (if large then EV_MUX_TX_CONTROL else EV_MUX_TX_PREVIEW)\<rparr>;
                 bytes = (case payload of None \<Rightarrow> [] | Some p \<Rightarrow> take payload_len p)
             in if \<not> prepared then (ESP_ERR_INVALID_ARG, m1)
                else special_enter malloc locked m1 payload_len large fresh bytes)"

text \<open>
  The entry points. \<open>sess\<close> is the session, \<open>ready\<close> whether the transmitter could be started.
\<close>

definition ev_mux_submit_large_link ::
  "bool \<Rightarrow> malloc \<Rightarrow> transport \<Rightarrow> session \<Rightarrow> u32 \<Rightarrow> u32 \<Rightarrow> bool \<Rightarrow> mux \<Rightarrow> ev_mux_submit_options option \<Rightarrow>
     cstring option \<Rightarrow> u8 list option \<Rightarrow> nat \<Rightarrow> u32 option \<Rightarrow> esp_err \<times> u32 option \<times> mux" where
  "ev_mux_submit_large_link ready malloc t sess baud now locked m options metadata payload
     payload_len ticket_out =
     (case (options, metadata) of
        (Some o1, Some md) \<Rightarrow>
          if payload = None \<and> payload_len \<noteq> 0 then (ESP_ERR_INVALID_ARG, ticket_out, m)
          else if op_session_id o1 = None \<or> op_session_id o1 = Some [] \<or>
                  \<not> ev_session_output_ready t sess (op_link o1) (op_session_id o1)
          then (ESP_ERR_INVALID_STATE, ticket_out, m)
          else if EV_MUX_LARGE_PAYLOAD_MAX < payload_len then (ESP_ERR_INVALID_SIZE, ticket_out, m)
          else if \<not> ready then (ESP_ERR_NO_MEM, ticket_out, m)
          else
            let (ticket, ts) =
                  (if ticket_out = None then (0, mx_tickets m)
                   else ev_mux_ticket_allocate (mx_tickets m))
            in if ticket_out \<noteq> None \<and> ticket = 0 then (ESP_ERR_TIMEOUT, ticket_out, m)
               else
                 let (result, m1) =
                       ev_mux_submit_special malloc t baud now locked (m\<lparr>mx_tickets := ts\<rparr>) o1 md
                         payload payload_len True ticket
                 in if result \<noteq> ESP_OK
                    then (result, map_option (\<lambda>_. 0) ticket_out,
                          m1\<lparr>mx_tickets := ev_mux_ticket_rollback (mx_tickets m1) ticket\<rparr>)
                    else (result, map_option (\<lambda>_. ticket) ticket_out, m1)
      | _ \<Rightarrow> (ESP_ERR_INVALID_ARG, ticket_out, m))"

definition ev_mux_record_tx_drop :: "mux \<Rightarrow> mux" where
  "ev_mux_record_tx_drop m = m\<lparr>mx_tx_drop_count := mx_tx_drop_count m + 1\<rparr>"

definition ev_mux_submit_preview_link ::
  "bool \<Rightarrow> malloc \<Rightarrow> transport \<Rightarrow> session \<Rightarrow> u32 \<Rightarrow> u32 \<Rightarrow> bool \<Rightarrow> mux \<Rightarrow> ev_mux_submit_options option \<Rightarrow>
     cstring option \<Rightarrow> u8 list option \<Rightarrow> nat \<Rightarrow> esp_err \<times> mux" where
  "ev_mux_submit_preview_link ready malloc t sess baud now locked m options metadata payload
     payload_len =
     (case (options, metadata) of
        (Some o1, Some md) \<Rightarrow>
          if op_tx_class o1 \<noteq> EV_MUX_TX_PREVIEW then (ESP_ERR_INVALID_ARG, m)
          else if op_session_id o1 = None \<or> op_session_id o1 = Some [] \<or>
                  \<not> ev_session_output_ready t sess (op_link o1) (op_session_id o1)
          then (ESP_ERR_INVALID_STATE, m)
          else if \<not> ready then (ESP_ERR_NO_MEM, m)
          else
            let (result, m1) =
                  ev_mux_submit_special malloc t baud now locked m o1 md payload payload_len False 0
            in (result, if result \<noteq> ESP_OK then ev_mux_record_tx_drop m1 else m1)
      | _ \<Rightarrow> (ESP_ERR_INVALID_ARG, m))"

text \<open>Whether the owner is ready for output, and then whether there is room for a frame.\<close>

definition owner_ready :: "transport \<Rightarrow> session \<Rightarrow> bool" where
  "owner_ready t sess \<longleftrightarrow>
     (case ev_session_snapshot sess 0 (Some (ev_session_snapshot_locked sess 0)) of
        (True, Some sn) \<Rightarrow>
          sn_has_owner sn \<and>
          ev_session_output_ready t sess (Some (sn_owner_link sn)) (Some (sn_session_id sn))
      | _ \<Rightarrow> False)"

definition ev_mux_large_payload_available ::
  "bool \<Rightarrow> transport \<Rightarrow> session \<Rightarrow> bool \<Rightarrow> mux \<Rightarrow> bool" where
  "ev_mux_large_payload_available ready t sess locked m =
     (if \<not> owner_ready t sess then False
      else if \<not> ready \<or> \<not> locked then False else \<not> sp_used (mx_large_frame m))"

definition ev_mux_preview_slot_available ::
  "bool \<Rightarrow> transport \<Rightarrow> session \<Rightarrow> bool \<Rightarrow> mux \<Rightarrow> bool" where
  "ev_mux_preview_slot_available ready t sess locked m =
     (if \<not> owner_ready t sess then False
      else if \<not> ready \<or> \<not> locked then False else ev_mux_preview_slot_available_locked m)"

section \<open>Observers\<close>

definition ev_mux_preview_subscribed :: "transport \<Rightarrow> mux \<Rightarrow> ev_link_ref option \<Rightarrow> bool" where
  "ev_mux_preview_subscribed t m link =
     (case link of None \<Rightarrow> False
      | Some l \<Rightarrow>
          lr_transport_id l = EV_TRANSPORT_TCP \<and> lr_slot l < EV_TRANSPORT_TCP_LINKS \<and>
          lr_generation l \<noteq> 0 \<and>
          mx_observer_generations m ! unat (lr_slot l) = lr_generation l \<and>
          ev_transport_link_is_current t link)"

text \<open>The reference of a TCP slot, if the slot has a subscribed observer.\<close>

definition slot_observer :: "transport \<Rightarrow> mux \<Rightarrow> u8 \<Rightarrow> ev_link_ref option" where
  "slot_observer t m slot =
     (case ev_transport_link_ref t EV_TRANSPORT_TCP slot (Some zero_link) of
        (True, Some l) \<Rightarrow> if ev_mux_preview_subscribed t m (Some l) then Some l else None
      | _ \<Rightarrow> None)"

definition tcp_slots :: "u8 list" where
  "tcp_slots = map of_nat [0..<unat EV_TRANSPORT_TCP_LINKS]"

definition ev_mux_preview_subscribe ::
  "bool \<Rightarrow> transport \<Rightarrow> session \<Rightarrow> bool \<Rightarrow> mux \<Rightarrow> ev_link_ref option \<Rightarrow> bool \<Rightarrow> esp_err \<times> mux" where
  "ev_mux_preview_subscribe ready t sess locked m link enable =
     (case link of None \<Rightarrow> (ESP_ERR_INVALID_ARG, m)
      | Some l \<Rightarrow>
          if lr_transport_id l \<noteq> EV_TRANSPORT_TCP \<or> EV_TRANSPORT_TCP_LINKS \<le> lr_slot l \<or>
             \<not> ev_transport_link_is_current t link
          then (ESP_ERR_INVALID_ARG, m)
          else if (case ev_session_snapshot sess 0 (Some (ev_session_snapshot_locked sess 0)) of
                     (True, Some sn) \<Rightarrow> sn_has_owner sn \<and> ev_mux_link_equal l (sn_owner_link sn)
                   | _ \<Rightarrow> False)
          then (ESP_ERR_INVALID_STATE, m)
          else if \<not> ready \<or> \<not> locked then (ESP_ERR_TIMEOUT, m)
          else
            let count = length (filter (\<lambda>slot. slot_observer t m slot \<noteq> None) tcp_slots)
            in if enable \<and> \<not> ev_mux_preview_subscribed t m link \<and>
                  EV_TRANSPORT_PREVIEW_OBSERVERS \<le> count
               then (ESP_ERR_NO_MEM, m)
               else (ESP_OK,
                     m\<lparr>mx_observer_generations := (mx_observer_generations m)[unat (lr_slot l) :=
                         (if enable then lr_generation l else 0)]\<rparr>))"

definition ev_mux_preview_observers_ready :: "transport \<Rightarrow> mux \<Rightarrow> bool" where
  "ev_mux_preview_observers_ready t m = list_ex (\<lambda>slot. slot_observer t m slot \<noteq> None) tcp_slots"

definition observer_indices :: "nat list" where
  "observer_indices = [EV_MUX_OWNER_PREVIEW_FRAMES..<EV_MUX_PREVIEW_FRAMES]"

text \<open>
  The deadlines of the observers that wait with an attempted frame: generation, start and last
  progress per slot, zero where nothing waits. A later frame overwrites an earlier one.
\<close>

fun observer_waits ::
  "ev_mux_special_frame list \<Rightarrow> (u32 \<times> u32 \<times> u32) list \<Rightarrow> (u32 \<times> u32 \<times> u32) list" where
  "observer_waits [] w = w"
| "observer_waits (s # ss) w =
     observer_waits ss
       (if sp_used s \<and> fr_tx_offset (sp_frame s) = 0 \<and> fr_attempted (sp_frame s)
        then w[unat (lr_slot (fr_link (sp_frame s))) :=
                 (lr_generation (fr_link (sp_frame s)), fr_start_ms (sp_frame s),
                  fr_last_progress_ms (sp_frame s))]
        else w)"

definition observer_frames :: "mux \<Rightarrow> ev_mux_special_frame list" where
  "observer_frames m = map (\<lambda>i. mx_preview_frames m ! i) observer_indices"

text \<open>The first buffer that no started frame uses.\<close>

definition observer_pool :: "mux \<Rightarrow> nat option" where
  "observer_pool m =
     find (\<lambda>b. \<not> list_ex (\<lambda>s. sp_used s \<and> fr_tx_offset (sp_frame s) \<noteq> 0 \<and>
                               sp_payload s = mx_observer_buffers m ! b) (observer_frames m))
       [0..<EV_MUX_OBSERVER_BUFFERS]"

text \<open>Unstarted frames of the observers make way.\<close>

fun observer_replace :: "nat list \<Rightarrow> mux \<Rightarrow> mux" where
  "observer_replace [] m = m"
| "observer_replace (i # is) m =
     observer_replace is
       (if sp_used (mx_preview_frames m ! i) \<and> fr_tx_offset (sp_frame (mx_preview_frames m ! i)) = 0
        then ev_mux_record_tx_drop
               (snd (ev_mux_special_release_locked m (Preview_frame i) ESP_ERR_INVALID_STATE))
        else m)"

text \<open>The frame of one observer, in the first free slot: its contents, and then its place.\<close>

definition observer_special ::
  "transport \<Rightarrow> u32 \<Rightarrow> u32 \<Rightarrow> u32 \<times> u32 \<times> u32 \<Rightarrow> string \<Rightarrow> nat \<Rightarrow> u32 \<Rightarrow> nat option \<Rightarrow> ev_link_ref \<Rightarrow>
     ev_mux_special_frame \<Rightarrow> u32 \<Rightarrow> ev_mux_special_frame \<times> u32" where
  "observer_special t baud now wait metadata payload_len crc buffer l special order =
     (let options = \<lparr>op_link = Some l, op_session_id = None, op_vm_epoch = 0,
                     op_tx_class = EV_MUX_TX_PREVIEW, op_uart_baud_control = False,
                     op_completion = None, op_completion_context = None,
                     op_completion_context_len = 0, op_vm_output_origin = None\<rparr>;
          (prepared, f, order1) =
            ev_mux_special_prepare t baud now order (sp_frame special) options metadata
              (length metadata) payload_len 0
      in if \<not> prepared then (special\<lparr>sp_frame := f\<rparr>, order1)
         else
           let f1 = f\<lparr>fr_preview_observer := True\<rparr>;
               (generation, since, progress) = wait;
               f2 = (if generation = lr_generation l
                     then f1\<lparr>fr_attempted := True, fr_start_ms := since,
                             fr_last_progress_ms := progress\<rparr>
                     else f1);
               f3 = f2\<lparr>fr_frame_timeout_ms := EV_MUX_OBSERVER_FRAME_TIMEOUT_MS\<rparr>;
               (built, f4) = ev_mux_build_header f3 crc
           in (special\<lparr>sp_kind := EV_MUX_SPECIAL_OBSERVER, sp_payload := buffer,
                       sp_frame := f4\<lparr>fr_header_ready := built\<rparr>, sp_used := True\<rparr>, order1))"

definition observer_frame ::
  "transport \<Rightarrow> u32 \<Rightarrow> u32 \<Rightarrow> (u32 \<times> u32 \<times> u32) list \<Rightarrow> string \<Rightarrow> nat \<Rightarrow> u32 \<Rightarrow> nat option \<Rightarrow> u8 \<Rightarrow> mux \<Rightarrow> mux" where
  "observer_frame t baud now waits metadata payload_len crc buffer slot m =
     (case slot_observer t m slot of None \<Rightarrow> m
      | Some l \<Rightarrow>
          case find (\<lambda>i. \<not> sp_used (mx_preview_frames m ! i)) observer_indices of None \<Rightarrow> m
          | Some i \<Rightarrow>
              let (special, order) =
                    observer_special t baud now (waits ! unat slot) metadata payload_len crc buffer l
                      (mx_preview_frames m ! i) (mx_tx_enqueue_order m)
              in set_special (Preview_frame i) special (m\<lparr>mx_tx_enqueue_order := order\<rparr>))"

definition ev_mux_preview_publish_observers ::
  "bool \<Rightarrow> malloc \<Rightarrow> transport \<Rightarrow> u32 \<Rightarrow> u32 \<Rightarrow> bool \<Rightarrow> mux \<Rightarrow> cstring option \<Rightarrow> u8 list option \<Rightarrow> nat \<Rightarrow>
     esp_err \<times> mux" where
  "ev_mux_preview_publish_observers ready malloc t baud now locked m metadata payload payload_len =
     (case (metadata, payload) of
        (Some md, Some p) \<Rightarrow>
          if EV_MUX_LARGE_PAYLOAD_MAX < payload_len \<or> EV_MUX_METADATA_MAX < length md
          then (ESP_ERR_INVALID_SIZE, m)
          else if \<not> ready \<or> \<not> locked then (ESP_ERR_TIMEOUT, m)
          else
            let waits = observer_waits (observer_frames m)
                          (replicate (unat EV_TRANSPORT_TCP_LINKS) (0, 0, 0))
            in case observer_pool m of None \<Rightarrow> (ESP_ERR_NO_MEM, m)
               | Some pool \<Rightarrow>
                   case ev_mux_special_buffer_prepare malloc (mx_heap m)
                          (mx_observer_buffers m ! pool) (mx_observer_capacities m ! pool)
                          payload_len of
                     (None, _) \<Rightarrow> (ESP_ERR_NO_MEM, m)
                   | (Some (prepared, capacity), h) \<Rightarrow>
                       let m1 = observer_replace observer_indices (m\<lparr>mx_heap := h\<rparr>);
                           (buffer, cap, h1) =
                             ev_mux_special_buffer_commit (mx_heap m1)
                               (mx_observer_buffers m1 ! pool) prepared capacity;
                           bytes = take payload_len p;
                           m2 = m1\<lparr>mx_heap := heap_write buffer bytes h1,
                                   mx_observer_buffers := (mx_observer_buffers m1)[pool := buffer],
                                   mx_observer_capacities :=
                                     (mx_observer_capacities m1)[pool := cap]\<rparr>
                       in (ESP_OK,
                           fold (observer_frame t baud now waits md payload_len
                                   (ev_mux_crc32 bytes) buffer) tcp_slots m2)
      | _ \<Rightarrow> (ESP_ERR_INVALID_SIZE, m))"

section \<open>Cancelling\<close>

fun cancel_specials ::
  "(ev_mux_frame \<Rightarrow> bool) \<Rightarrow> special_ref list \<Rightarrow> mux \<Rightarrow> ev_mux_completion list \<times> mux" where
  "cancel_specials matches [] m = ([], m)"
| "cancel_specials matches (r # rs) m =
     (let s = get_special m r
      in if sp_used s \<and> matches (sp_frame s) \<and> fr_tx_offset (sp_frame s) = 0
         then
           let (c, m1) = ev_mux_special_release_locked m r ESP_ERR_INVALID_STATE;
               (cs, m2) = cancel_specials matches rs m1
           in (the c # cs, m2)
         else cancel_specials matches rs m)"

definition ev_mux_cancel_special_frames ::
  "mux \<Rightarrow> bool \<Rightarrow> u32 \<Rightarrow> ev_link_ref option \<Rightarrow> cstring option \<Rightarrow> ev_mux_completion list \<times> mux" where
  "ev_mux_cancel_special_frames m by_epoch vm_epoch link sid =
     cancel_specials (frame_matches by_epoch vm_epoch link sid)
       (map Preview_frame [0..<EV_MUX_PREVIEW_FRAMES] @ [Large_frame]) m"

end
