(* ===== verification/MuxTx.thy ===== *)
theory MuxTx
  imports MuxSpecial
begin

text \<open>
  The transmit worker, \<open>platform/ev_mux.c\<close>: choosing the next frame of an endpoint, asking the
  session whether it may go out, writing the next piece of it, and what happens when it ends,
  expires, becomes stale or fails. \<open>ev_mux_process_target\<close> is one turn of the worker for one
  endpoint.
\<close>

definition EV_MUX_WRITE_CHUNK_BYTES :: nat where "EV_MUX_WRITE_CHUNK_BYTES = 4096"
definition EV_MUX_OBSERVER_IDLE_TIMEOUT_MS :: u32 where "EV_MUX_OBSERVER_IDLE_TIMEOUT_MS = 4000"

section \<open>Authorisation\<close>

datatype ev_mux_frame_auth =
    EV_MUX_FRAME_ALLOWED
  | EV_MUX_FRAME_WAIT
  | EV_MUX_FRAME_STALE

definition ev_mux_session_matches_output_origin ::
  "ev_session_snapshot_t option \<Rightarrow> ev_link_ref option \<Rightarrow> cstring option \<Rightarrow> u32 \<Rightarrow> u32 \<Rightarrow> u32 \<Rightarrow> bool" where
  "ev_mux_session_matches_output_origin snapshot link sid vm_epoch input_generation transition_id =
     (case (snapshot, link, sid) of
        (Some sn, Some l, Some s) \<Rightarrow>
          input_generation \<noteq> 0 \<and> sn_has_owner sn \<and> sn_state sn = EV_SESSION_OWNED \<and>
          sn_handshake_complete sn \<and> sn_vm_ready sn \<and>
          ev_mux_link_equal (sn_owner_link sn) l \<and> sn_session_id sn = s \<and>
          sn_vm_epoch sn = vm_epoch \<and> sn_input_generation sn = input_generation \<and>
          sn_transition_id sn = transition_id
      | _ \<Rightarrow> False)"

text \<open>The snapshot, \<open>None\<close> before the session is initialised; \<open>now\<close> is the time it is taken.\<close>

definition session_view :: "session \<Rightarrow> u32 \<Rightarrow> ev_session_snapshot_t option" where
  "session_view sess now =
     (if ss_initialized sess then Some (ev_session_snapshot_locked sess now) else None)"

definition ev_mux_output_origin_is_current ::
  "session \<Rightarrow> u32 \<Rightarrow> ev_vm_output_origin option \<Rightarrow> bool" where
  "ev_mux_output_origin_is_current sess now origin =
     (case origin of None \<Rightarrow> False
      | Some og \<Rightarrow>
          if or_input_generation og = 0 \<or> length (or_session_id og) \<noteq> EV_SESSION_ID_HEX_LEN then False
          else session_view sess now \<noteq> None \<and>
               ev_mux_session_matches_output_origin (session_view sess now) (Some (or_link og))
                 (Some (or_session_id og)) (or_vm_epoch og) (or_input_generation og)
                 (or_transition_id og))"

definition ev_mux_frame_authorized ::
  "transport \<Rightarrow> session \<Rightarrow> u32 \<Rightarrow> mux \<Rightarrow> ev_mux_frame \<Rightarrow> ev_mux_frame_auth" where
  "ev_mux_frame_authorized t sess now m f =
     (if fr_preview_observer f \<and> fr_tx_offset f = 0 \<and>
         \<not> ev_mux_preview_subscribed t m (Some (fr_link f))
      then EV_MUX_FRAME_STALE
      else if lr_transport_id (fr_link f) = EV_TRANSPORT_UART \<and> \<not> fr_uart_baud_control f \<and>
              fr_tx_offset f = 0 \<and> mx_uart_paused m
      then EV_MUX_FRAME_WAIT
      else if fr_session_id f = [] \<and> fr_vm_epoch f = 0 then EV_MUX_FRAME_ALLOWED
      else
        case session_view sess now of None \<Rightarrow> EV_MUX_FRAME_STALE
        | Some sn \<Rightarrow>
            if fr_tx_offset f = 0 \<and> fr_vm_epoch f \<noteq> 0 \<and> fr_vm_epoch f \<noteq> sn_vm_epoch sn
            then EV_MUX_FRAME_STALE
            else if fr_tx_offset f = 0 \<and> fr_output_input_generation f \<noteq> 0 \<and>
                    \<not> ev_mux_session_matches_output_origin (Some sn) (Some (fr_link f))
                        (Some (fr_session_id f)) (fr_vm_epoch f) (fr_output_input_generation f)
                        (fr_output_transition_id f)
            then EV_MUX_FRAME_STALE
            else if fr_session_id f = [] then EV_MUX_FRAME_ALLOWED
            else
              let same_owner = (sn_has_owner sn \<and> ev_mux_link_equal (sn_owner_link sn) (fr_link f) \<and>
                                sn_session_id sn = fr_session_id f);
                  releasing = (sn_state sn = EV_SESSION_RELEASING \<and> same_owner)
              in if \<not> same_owner \<and> \<not> releasing then EV_MUX_FRAME_STALE
                 else if fr_priority f = EV_MUX_TX_SESSION then EV_MUX_FRAME_ALLOWED
                 else if fr_tx_offset f \<noteq> 0 then EV_MUX_FRAME_ALLOWED
                 else if ev_session_output_ready t sess (Some (fr_link f)) (Some (fr_session_id f))
                 then EV_MUX_FRAME_ALLOWED else EV_MUX_FRAME_WAIT)"

section \<open>Choosing a frame\<close>

datatype frame_ref = In_queue nat | In_special special_ref

definition get_frame :: "mux \<Rightarrow> nat \<Rightarrow> frame_ref \<Rightarrow> ev_mux_frame" where
  "get_frame m ti r =
     (case r of In_queue i \<Rightarrow> tq_frames (mx_targets m ! ti) ! i
      | In_special s \<Rightarrow> sp_frame (get_special m s))"

definition set_frame :: "nat \<Rightarrow> frame_ref \<Rightarrow> ev_mux_frame \<Rightarrow> mux \<Rightarrow> mux" where
  "set_frame ti r f m =
     (case r of
        In_queue i \<Rightarrow>
          set_target ti ((mx_targets m ! ti)\<lparr>tq_frames := (tq_frames (mx_targets m ! ti))[i := f]\<rparr>) m
      | In_special s \<Rightarrow> set_special s ((get_special m s)\<lparr>sp_frame := f\<rparr>) m)"

definition queue_refs :: "frame_ref list" where
  "queue_refs = map In_queue [0..<EV_MUX_QUEUE_FRAMES]"

definition special_refs :: "frame_ref list" where
  "special_refs = map (\<lambda>i. In_special (Preview_frame i)) [0..<EV_MUX_PREVIEW_FRAMES] @
                  [In_special Large_frame]"

text \<open>In use, and of this endpoint.\<close>

definition frame_present :: "mux \<Rightarrow> nat \<Rightarrow> frame_ref \<Rightarrow> bool" where
  "frame_present m ti r =
     (case r of In_queue i \<Rightarrow> fr_used (get_frame m ti r)
      | In_special s \<Rightarrow> sp_used (get_special m s) \<and>
          ev_mux_target_index (Some (fr_link (get_frame m ti r))) = Some ti)"

definition frame_started :: "mux \<Rightarrow> nat \<Rightarrow> frame_ref \<Rightarrow> bool" where
  "frame_started m ti r \<longleftrightarrow> frame_present m ti r \<and> fr_tx_offset (get_frame m ti r) \<noteq> 0"

definition ev_mux_candidate_priority :: "ev_mux_frame \<Rightarrow> nat" where
  "ev_mux_candidate_priority f = (if fr_used f then fr_priority f else 100)"

definition ev_mux_uart_frame_paused :: "mux \<Rightarrow> ev_mux_frame \<Rightarrow> bool" where
  "ev_mux_uart_frame_paused m f =
     (lr_transport_id (fr_link f) = EV_TRANSPORT_UART \<and> \<not> fr_uart_baud_control f \<and> mx_uart_paused m)"

definition queue_expired :: "u32 \<Rightarrow> ev_mux_frame \<Rightarrow> bool" where
  "queue_expired now f \<longleftrightarrow> EV_MUX_QUEUE_TIMEOUT_MS \<le> now - fr_enqueue_ms f"

definition frame_candidate :: "u32 \<Rightarrow> mux \<Rightarrow> nat \<Rightarrow> frame_ref \<Rightarrow> bool" where
  "frame_candidate now m ti r \<longleftrightarrow>
     frame_present m ti r \<and> \<not> ev_mux_uart_frame_paused m (get_frame m ti r) \<and>
     \<not> queue_expired now (get_frame m ti r)"

text \<open>The best candidate so far, with its priority and order.\<close>

definition better ::
  "u32 \<Rightarrow> mux \<Rightarrow> nat \<Rightarrow> frame_ref \<Rightarrow> nat \<times> u32 \<times> frame_ref option \<Rightarrow> nat \<times> u32 \<times> frame_ref option" where
  "better now m ti r best =
     (let (best_priority, oldest_order, _) = best; f = get_frame m ti r;
          priority = ev_mux_candidate_priority f
      in if \<not> frame_candidate now m ti r then best
         else if priority < best_priority \<or>
                 (priority = best_priority \<and> fr_enqueue_order f < oldest_order)
         then (priority, fr_enqueue_order f, Some r)
         else best)"

definition ev_mux_choose_frame_locked ::
  "u32 \<Rightarrow> mux \<Rightarrow> nat \<Rightarrow> bool \<Rightarrow> frame_ref option" where
  "ev_mux_choose_frame_locked now m ti special_locked =
     (if \<not> special_locked \<and> mx_special_partial m ! ti \<noteq> None then None
      else
        let refs = queue_refs @ (if special_locked then special_refs else [])
        in case find (frame_started m ti) refs of
             Some r \<Rightarrow> Some r
           | None \<Rightarrow> snd (snd (fold (better now m ti) refs (100, 0, None))))"

section \<open>Ending a frame\<close>

definition ev_mux_drop_frame_locked ::
  "mux \<Rightarrow> nat \<Rightarrow> frame_ref \<Rightarrow> esp_err \<Rightarrow> ev_mux_completion option \<times> mux" where
  "ev_mux_drop_frame_locked m ti r result =
     (case r of
        In_special s \<Rightarrow> ev_mux_special_release_locked m s result
      | In_queue i \<Rightarrow>
          if i < EV_MUX_QUEUE_FRAMES
          then let (c, m1) = ev_mux_frame_finish_normal_locked m ti i result in (Some c, m1)
          else (None, m))"

text \<open>
  A call of a completion: the callback, its result, link and context. \<open>locks\<close> says whose mutex
  is taken within 20 ms: the one of the special frames, and those of the queues.
\<close>

type_synonym callback = "nat \<times> esp_err \<times> ev_link_ref \<times> u8 list"

definition run_completions :: "ev_mux_completion list \<Rightarrow> callback list" where
  "run_completions cs = List.map_filter (\<lambda>c. ev_mux_completion_run (Some c)) cs"

fun cancel_targets ::
  "(nat \<Rightarrow> bool) \<Rightarrow> bool \<Rightarrow> u32 \<Rightarrow> ev_link_ref option \<Rightarrow> cstring option \<Rightarrow> nat list \<Rightarrow> mux \<Rightarrow>
     callback list \<times> mux" where
  "cancel_targets locks by_epoch vm_epoch link sid [] m = ([], m)"
| "cancel_targets locks by_epoch vm_epoch link sid (ti # ts) m =
     (let (cs, m1) = (if locks ti then ev_mux_cancel_target_frames m ti by_epoch vm_epoch link sid
                      else ([], m));
          (calls, m2) = cancel_targets locks by_epoch vm_epoch link sid ts m1
      in (run_completions cs @ calls, m2))"

text \<open>The common part of the two cancel functions, once the transmitter is ready.\<close>

definition cancel_frames_everywhere ::
  "bool \<Rightarrow> (nat \<Rightarrow> bool) \<Rightarrow> mux \<Rightarrow> bool \<Rightarrow> u32 \<Rightarrow> ev_link_ref option \<Rightarrow> cstring option \<Rightarrow>
     callback list \<times> mux" where
  "cancel_frames_everywhere special_lock locks m by_epoch vm_epoch link sid =
     (if \<not> special_lock then ([], m)
      else
        let (cs, m1) = ev_mux_cancel_special_frames m by_epoch vm_epoch link sid;
            (calls, m2) = cancel_targets locks by_epoch vm_epoch link sid
                            [0..<EV_MUX_TARGET_COUNT] m1
        in (run_completions cs @ calls, m2))"

definition ev_mux_cancel_session ::
  "bool \<Rightarrow> bool \<Rightarrow> (nat \<Rightarrow> bool) \<Rightarrow> mux \<Rightarrow> ev_link_ref option \<Rightarrow> cstring option \<Rightarrow> callback list \<times> mux" where
  "ev_mux_cancel_session ready special_lock locks m link sid =
     (if link = None \<or> sid = None \<or> \<not> ready then ([], m)
      else cancel_frames_everywhere special_lock locks m False 0 link sid)"

text \<open>
  The environment of a turn: the readings of the clock (when the frame is chosen, when nothing
  was chosen, after the choice, after the write), the mutexes, the drivers.
\<close>

record 'd tx_env =
  te_board :: board
  te_choose_ms :: u32
  te_expire_ms :: u32
  te_now_ms :: u32
  te_progress_ms :: u32
  te_session_ms :: u32
  te_baud :: u32
  te_special_free :: bool
  te_queue_free :: bool
  te_cancel_special :: bool
  te_cancel_locks :: "nat \<Rightarrow> bool"
  te_tx_some :: "ev_transport_id \<Rightarrow> u8 list \<Rightarrow> 'd \<Rightarrow> int \<times> 'd"
  te_tcp_write :: "ev_link_ref \<Rightarrow> u8 list \<Rightarrow> 'd \<Rightarrow> ev_io_result \<times> 'd"
  te_tcp_writev :: "ev_link_ref \<Rightarrow> u8 list list \<Rightarrow> 'd \<Rightarrow> ev_io_result \<times> 'd"

definition ev_mux_fail_session ::
  "'d tx_env \<Rightarrow> mux \<Rightarrow> world \<Rightarrow> ev_link_ref \<Rightarrow> cstring \<Rightarrow> bool \<Rightarrow> callback list \<times> mux \<times> world" where
  "ev_mux_fail_session env m w link sid close_tcp =
     (let (calls, m1, w1) =
            (if sid \<noteq> []
             then
               let w' = snd (ev_session_link_lost (te_board env) (te_session_ms env) w (Some link)
                               EV_SESSION_CHANGE_TX_FAILED);
                   (cs, m') = ev_mux_cancel_session True (te_cancel_special env)
                                (te_cancel_locks env) m (Some link) (Some sid)
               in (cs, m', w')
             else ([], m, w));
          w2 = (if close_tcp \<and> lr_transport_id link = EV_TRANSPORT_TCP
                then w1\<lparr>w_transport := fst (ev_transport_link_close (te_board env) (w_transport w1)
                                             (Some link))\<rparr>
                else w1)
      in (calls, m1, w2))"

section \<open>Writing\<close>

text \<open>The buffer of a special frame.\<close>

definition special_payload :: "mux \<Rightarrow> frame_ref \<Rightarrow> u8 list option" where
  "special_payload m r =
     (case r of In_queue i \<Rightarrow> None
      | In_special s \<Rightarrow>
          Some (case sp_payload (get_special m s) of None \<Rightarrow> []
                | Some a \<Rightarrow> (case mx_heap m a of None \<Rightarrow> [] | Some bytes \<Rightarrow> bytes)))"

definition segment_of :: "mux \<Rightarrow> nat \<Rightarrow> frame_ref \<Rightarrow> nat \<Rightarrow> u8 list" where
  "segment_of m ti r offset =
     ev_mux_frame_segment (special_payload m r) (mx_slab m) (mx_targets m ! ti) (get_frame m ti r) offset"

text \<open>The vectors of a TCP write; the first argument is how many entries are left.\<close>

fun tx_vectors :: "mux \<Rightarrow> nat \<Rightarrow> frame_ref \<Rightarrow> nat \<Rightarrow> nat \<Rightarrow> nat \<Rightarrow> u8 list list" where
  "tx_vectors m ti r 0 offset segment_len = []"
| "tx_vectors m ti r (Suc n) offset segment_len =
     (if offset < fr_total_len (get_frame m ti r) \<and> segment_len < EV_MUX_WRITE_CHUNK_BYTES
      then
        let data = take (EV_MUX_WRITE_CHUNK_BYTES - segment_len) (segment_of m ti r offset)
        in data # tx_vectors m ti r n (offset + length data) (segment_len + length data)
      else [])"

text \<open>The result of the write, how many bytes were offered, and the drivers after it.\<close>

definition tx_write ::
  "'d tx_env \<Rightarrow> mux \<Rightarrow> transport \<Rightarrow> nat \<Rightarrow> frame_ref \<Rightarrow> 'd \<Rightarrow> ev_io_result \<times> nat \<times> 'd" where
  "tx_write env m t ti r d =
     (let f = get_frame m ti r
      in if lr_transport_id (fr_link f) = EV_TRANSPORT_TCP
         then
           let vs = tx_vectors m ti r EV_IO_VECTORS_MAX (fr_tx_offset f) 0;
               (io, d') = ev_transport_writev (te_board env) (te_tx_some env) (te_tcp_write env)
                            (te_tcp_writev env) t (Some (fr_link f)) (Some (map Some vs)) d
           in (io, length (concat vs), d')
         else
           let segment = take EV_MUX_WRITE_CHUNK_BYTES (segment_of m ti r (fr_tx_offset f));
               (io, d') = ev_transport_write (te_board env) (te_tx_some env) (te_tcp_write env)
                            t (Some (fr_link f)) (Some segment) d
           in (io, length segment, d'))"

section \<open>One turn\<close>

text \<open>
  What became of the chosen frame: the result if it ended, and whether it had started, the TCP
  link must be closed, or it was dropped as stale.
\<close>

record outcome =
  oc_result :: "esp_err option"
  oc_partial :: bool
  oc_close :: bool
  oc_stale :: bool

definition unfinished :: outcome where
  "unfinished = \<lparr>oc_result = None, oc_partial = False, oc_close = False, oc_stale = False\<rparr>"

definition stale :: "ev_mux_frame \<Rightarrow> outcome" where
  "stale f = \<lparr>oc_result = Some ESP_ERR_INVALID_STATE, oc_partial = (fr_tx_offset f \<noteq> 0),
              oc_close = False, oc_stale = True\<rparr>"

text \<open>After a write that made progress.\<close>

definition tx_progress :: "'d tx_env \<Rightarrow> mux \<Rightarrow> nat \<Rightarrow> frame_ref \<Rightarrow> nat \<Rightarrow> outcome \<times> mux" where
  "tx_progress env m ti r transferred =
     (let f = get_frame m ti r;
          m1 = (case r of
                  In_special s \<Rightarrow>
                    let sp = get_special m s
                    in if sp_kind sp = EV_MUX_SPECIAL_PREVIEW \<and> fr_tx_offset f = 0
                       then m\<lparr>mx_preview_pending := (if mx_preview_pending m = Some (sp_pool_index sp)
                                                    then None else mx_preview_pending m),
                              mx_preview_active := Some (sp_pool_index sp)\<rparr>
                       else m
                | In_queue i \<Rightarrow> m);
          f1 = f\<lparr>fr_last_progress_ms := te_progress_ms env,
                 fr_tx_offset := fr_tx_offset f + transferred\<rparr>;
          m2 = set_frame ti r f1 m1;
          m3 = (case r of
                  In_special s \<Rightarrow>
                    if fr_tx_offset f1 < fr_total_len f1
                    then case ev_mux_target_index (Some (fr_link f1)) of None \<Rightarrow> m2
                         | Some k \<Rightarrow> m2\<lparr>mx_special_partial := (mx_special_partial m2)[k := Some s]\<rparr>
                    else m2
                | In_queue i \<Rightarrow> m2);
          m4 = set_target ti ((mx_targets m3 ! ti)\<lparr>tq_congested := False\<rparr>) m3
      in (unfinished\<lparr>oc_result := (if fr_total_len f1 \<le> fr_tx_offset f1 then Some ESP_OK else None)\<rparr>,
          m4))"

definition tx_attempt ::
  "'d tx_env \<Rightarrow> mux \<Rightarrow> transport \<Rightarrow> nat \<Rightarrow> frame_ref \<Rightarrow> 'd \<Rightarrow> outcome \<times> mux \<times> 'd" where
  "tx_attempt env m t ti r d =
     (let f = get_frame m ti r;
          m1 = (if fr_attempted f then m
                else set_frame ti r (f\<lparr>fr_attempted := True, fr_start_ms := te_now_ms env,
                                       fr_last_progress_ms := te_now_ms env\<rparr>) m);
          (io, offered, d') = tx_write env m1 t ti r d
      in if io_status io = EV_IO_PROGRESS \<and> 0 < io_transferred io \<and> io_transferred io \<le> offered
         then let (o1, m2) = tx_progress env m1 ti r (io_transferred io) in (o1, m2, d')
         else if io_status io = EV_IO_WOULD_BLOCK then (unfinished, m1, d')
         else
           (\<lparr>oc_result = Some (if io_error io \<noteq> ESP_OK then io_error io else ESP_FAIL),
             oc_partial = (fr_tx_offset f \<noteq> 0),
             oc_close = (lr_transport_id (fr_link f) = EV_TRANSPORT_TCP), oc_stale = False\<rparr>,
            set_target ti ((mx_targets m1 ! ti)\<lparr>tq_congested := True,
              tq_congested_at_ms := te_now_ms env\<rparr>) m1, d'))"

definition deadline_passed :: "u32 \<Rightarrow> ev_mux_frame \<Rightarrow> bool" where
  "deadline_passed now f \<longleftrightarrow>
     fr_attempted f \<and>
     (fr_frame_timeout_ms f \<le> now - fr_start_ms f \<or>
      (fr_preview_observer f \<and> EV_MUX_OBSERVER_IDLE_TIMEOUT_MS \<le> now - fr_last_progress_ms f))"

text \<open>
  The chosen frame up to its write: expired in the queue, stale, waiting, its checksum not yet
  complete, too slow for the speed of the UART, over its deadline, or written.
\<close>

definition tx_chosen ::
  "'d tx_env \<Rightarrow> mux \<Rightarrow> transport \<Rightarrow> session \<Rightarrow> nat \<Rightarrow> frame_ref \<Rightarrow> 'd \<Rightarrow> outcome \<times> mux \<times> 'd" where
  "tx_chosen env m t sess ti r d =
     (let f = get_frame m ti r; now = te_now_ms env;
          bump = m\<lparr>mx_tx_stale_count := mx_tx_stale_count m + 1\<rparr>
      in if queue_expired now f \<and> fr_tx_offset f = 0
         then (unfinished\<lparr>oc_result := Some ESP_ERR_TIMEOUT\<rparr>, m, d)
         else if \<not> ev_transport_link_is_current t (Some (fr_link f)) then (stale f, bump, d)
         else
           case ev_mux_frame_authorized t sess (te_session_ms env) m f of
             EV_MUX_FRAME_STALE \<Rightarrow> (stale f, bump, d)
           | EV_MUX_FRAME_WAIT \<Rightarrow> (unfinished, m, d)
           | EV_MUX_FRAME_ALLOWED \<Rightarrow>
               let (ready, g) = ev_mux_frame_crc_step (special_payload m r) (mx_slab m)
                                  (mx_targets m ! ti) f;
                   m1 = set_frame ti r g m;
                   uart = (\<not> fr_attempted g \<and> lr_transport_id (fr_link g) = EV_TRANSPORT_UART);
                   g1 = (if uart
                         then g\<lparr>fr_frame_timeout_ms :=
                                 ev_mux_frame_timeout (te_baud env) (fr_link g) (fr_total_len g)\<rparr>
                         else g);
                   m2 = set_frame ti r g1 m1
               in if \<not> ready then (unfinished, m1, d)
                  else if uart \<and> fr_frame_timeout_ms g1 = 0
                  then (unfinished\<lparr>oc_result := Some ESP_ERR_INVALID_SIZE\<rparr>, m2, d)
                  else if deadline_passed now g1
                  then
                    (\<lparr>oc_result = Some ESP_ERR_TIMEOUT, oc_partial = (fr_tx_offset g1 \<noteq> 0),
                      oc_close = (lr_transport_id (fr_link g1) = EV_TRANSPORT_TCP), oc_stale = False\<rparr>,
                     m2\<lparr>mx_tx_timeout_count := mx_tx_timeout_count m2 + 1,
                        mx_last_timeout := Some
                          \<lparr>ti_transport = lr_transport_id (fr_link g1), ti_slot = lr_slot (fr_link g1),
                           ti_offset = fr_tx_offset g1, ti_bytes = fr_total_len g1,
                           ti_elapsed_ms = now - fr_start_ms g1,
                           ti_idle_ms = now - fr_last_progress_ms g1\<rparr>\<rparr>, d)
                  else tx_attempt env m2 t ti r d)"

text \<open>What follows the end of the chosen frame.\<close>

definition tx_finish ::
  "'d tx_env \<Rightarrow> mux \<Rightarrow> world \<Rightarrow> nat \<Rightarrow> frame_ref \<Rightarrow> outcome \<Rightarrow> ev_link_ref \<Rightarrow> cstring \<Rightarrow>
     callback list \<times> mux \<times> world" where
  "tx_finish env m w ti r oc link sid =
     (case oc_result oc of None \<Rightarrow> ([], m, w)
      | Some result \<Rightarrow>
          let (completion, m1) = ev_mux_drop_frame_locked m ti r result;
              c = (case completion of None \<Rightarrow> zero_completion | Some c \<Rightarrow> c);
              m2 = (if cm_result c \<noteq> ESP_OK then ev_mux_record_tx_drop m1 else m1);
              calls = run_completions [c]
          in if cm_result c \<noteq> ESP_OK \<and> \<not> oc_stale oc
             then
               let (more, m3, w1) = ev_mux_fail_session env m2 w link sid (oc_close oc \<or> oc_partial oc)
               in (calls @ more, m3, w1)
             else if oc_stale oc \<and> oc_partial oc \<and> lr_transport_id link = EV_TRANSPORT_TCP
             then (calls, m2,
                   w\<lparr>w_transport := fst (ev_transport_link_close (te_board env) (w_transport w)
                                           (Some link))\<rparr>)
             else (calls, m2, w))"

text \<open>The first frame of the endpoint whose time in the queue is over, when none was chosen.\<close>

definition expired_frame :: "u32 \<Rightarrow> mux \<Rightarrow> nat \<Rightarrow> bool \<Rightarrow> frame_ref option" where
  "expired_frame now m ti special_locked =
     find (\<lambda>r. frame_present m ti r \<and> fr_tx_offset (get_frame m ti r) = 0 \<and>
               queue_expired now (get_frame m ti r))
       (queue_refs @ (if special_locked then special_refs else []))"

definition ev_mux_process_target ::
  "'d tx_env \<Rightarrow> nat \<Rightarrow> mux \<times> world \<times> 'd \<Rightarrow> callback list \<times> mux \<times> world \<times> 'd" where
  "ev_mux_process_target env ti mwd =
     (let (m, w, d) = mwd
      in if \<not> te_queue_free env then ([], m, w, d)
         else
           case ev_mux_choose_frame_locked (te_choose_ms env) m ti (te_special_free env) of
             None \<Rightarrow>
               (case expired_frame (te_expire_ms env) m ti (te_special_free env) of
                  None \<Rightarrow> ([], m, w, d)
                | Some r \<Rightarrow>
                    let (completion, m1) = ev_mux_drop_frame_locked m ti r ESP_ERR_TIMEOUT
                    in (case completion of None \<Rightarrow> [] | Some c \<Rightarrow> run_completions [c], m1, w, d))
           | Some r \<Rightarrow>
               let f = get_frame m ti r;
                   (oc, m1, d1) = tx_chosen env m (w_transport w) (w_session w) ti r d;
                   (calls, m2, w1) = tx_finish env m1 w ti r oc (fr_link f) (fr_session_id f)
               in (calls, m2, w1, d1))"

end
