(* ===== verification/Checked.thy ===== *)
theory Checked
  imports EvPrelude
begin

text \<open>
  Computations of C code that reads and writes buffers by index. A computation either stops, with
  the verdict that \<open>return\<close> gives, with an access outside a buffer, or with its fuel used up, or it
  yields a value. A computation is safe when it yields a value or returns \<open>false\<close>: it makes no
  access outside a buffer and its loops end.
\<close>

section \<open>Checked computations\<close>

datatype stop = Out_of_bounds | Out_of_fuel | Verdict bool

type_synonym 'a checked = "stop + 'a"

definition sbind :: "'a checked \<Rightarrow> ('a \<Rightarrow> 'b checked) \<Rightarrow> 'b checked" where
  "sbind m f = (case m of Inl e \<Rightarrow> Inl e | Inr a \<Rightarrow> f a)"

definition rd :: "'a list \<Rightarrow> nat \<Rightarrow> 'a checked" where
  "rd xs i = (if i < length xs then Inr (xs ! i) else Inl Out_of_bounds)"

definition wr :: "'a list \<Rightarrow> nat \<Rightarrow> 'a \<Rightarrow> 'a list checked" where
  "wr xs i v = (if i < length xs then Inr (xs[i := v]) else Inl Out_of_bounds)"

abbreviation reject :: "'a checked" where
  "reject \<equiv> Inl (Verdict False)"

lemma sbind_simps [simp]: "sbind (Inr a) f = f a" "sbind (Inl e) f = Inl e"
  by (simp_all add: sbind_def)

lemma sbind_cong [fundef_cong]:
  "m = m' \<Longrightarrow> (\<And>a. m' = Inr a \<Longrightarrow> f a = g a) \<Longrightarrow> sbind m f = sbind m' g"
  by (cases m') auto

lemma sbind_Inr_iff: "sbind m f = Inr b \<longleftrightarrow> (\<exists>a. m = Inr a \<and> f a = Inr b)"
  by (cases m) auto

lemma sbind_assoc: "sbind (sbind m f) g = sbind m (\<lambda>a. sbind (f a) g)"
  by (cases m) auto

lemma rd_inside [simp]: "i < length xs \<Longrightarrow> rd xs i = Inr (xs ! i)"
  by (simp add: rd_def)

lemma wr_inside [simp]: "i < length xs \<Longrightarrow> wr xs i v = Inr (xs[i := v])"
  by (simp add: wr_def)

section \<open>Safe computations\<close>

definition safe :: "'a checked \<Rightarrow> ('a \<Rightarrow> bool) \<Rightarrow> bool" where
  "safe m P = (case m of Inl e \<Rightarrow> e = Verdict False | Inr a \<Rightarrow> P a)"

lemma safe_return: "P a \<Longrightarrow> safe (Inr a) P"
  by (simp add: safe_def)

lemma safe_reject [simp]: "safe reject P"
  by (simp add: safe_def)

lemma safe_bind: "safe m P \<Longrightarrow> (\<And>a. P a \<Longrightarrow> safe (f a) Q) \<Longrightarrow> safe (sbind m f) Q"
  by (cases m) (auto simp: safe_def)

lemma safe_weaken: "safe m P \<Longrightarrow> (\<And>a. P a \<Longrightarrow> Q a) \<Longrightarrow> safe m Q"
  by (auto simp: safe_def split: sum.splits)

lemma safe_rd: "i < length xs \<Longrightarrow> P (xs ! i) \<Longrightarrow> safe (rd xs i) P"
  by (simp add: safe_def)

lemma safe_rd_bind:
  "i < length xs \<Longrightarrow> safe (f (xs ! i)) Q \<Longrightarrow> safe (sbind (rd xs i) f) Q"
  by simp

lemma safe_if: "(c \<Longrightarrow> safe m P) \<Longrightarrow> (\<not> c \<Longrightarrow> safe n P) \<Longrightarrow> safe (if c then m else n) P"
  by simp

lemma safe_Inr [simp]: "safe (Inr a) P = P a"
  by (simp add: safe_def)

lemma safe_conj: "safe m P \<Longrightarrow> safe m Q \<Longrightarrow> safe m (\<lambda>a. P a \<and> Q a)"
  by (auto simp: safe_def split: sum.splits)

lemma safe_value: "safe m P \<Longrightarrow> m = Inr a \<Longrightarrow> P a"
  by (simp add: safe_def)

lemma safe_and_value: "safe m (\<lambda>_. True) \<Longrightarrow> (\<And>a. m = Inr a \<Longrightarrow> P a) \<Longrightarrow> safe m P"
  by (auto simp: safe_def split: sum.splits)

end
