(* ===== verification/ControlJson.thy ===== *)
theory ControlJson
  imports Checked
begin

text \<open>
  The JSON decoder of the control protocol, \<open>platform/ev_control_json.h\<close>. The text is the list of
  its \<open>length\<close> characters and a parser its position in the text; a parse that returns \<open>false\<close> is
  \<open>reject\<close>. What a rejected parse leaves in its outputs is not modelled: no caller looks at it. A
  buffer is the list of its \<open>capacity\<close> characters. All accesses are checked; the loops over the
  members of objects and arrays that are skipped carry fuel, the length of the text.
\<close>

section \<open>Limits and types\<close>

definition EV_CONTROL_JSON_METHOD_MAX :: nat where "EV_CONTROL_JSON_METHOD_MAX = 31"
definition EV_CONTROL_JSON_CHANNEL_CAPACITY :: nat where "EV_CONTROL_JSON_CHANNEL_CAPACITY = 24"
definition EV_CONTROL_JSON_TYPE_CAPACITY :: nat where "EV_CONTROL_JSON_TYPE_CAPACITY = 8"
definition EV_CONTROL_JSON_SESSION_ID_LENGTH :: nat where "EV_CONTROL_JSON_SESSION_ID_LENGTH = 32"

lemmas json_consts [simp] = EV_CONTROL_JSON_METHOD_MAX_def EV_CONTROL_JSON_CHANNEL_CAPACITY_def
  EV_CONTROL_JSON_TYPE_CAPACITY_def EV_CONTROL_JSON_SESSION_ID_LENGTH_def

text \<open>
  The value of a field: the tag \<open>type\<close> is the constructor, a string has its buffer (if any) and
  the length of the decoded text.
\<close>

datatype json_value =
    EV_CONTROL_JSON_STRING "string option" nat
  | EV_CONTROL_JSON_UINT32 u32
  | EV_CONTROL_JSON_BOOLEAN bool

record ev_control_json_field =
  fl_name :: cstring
  fl_required :: bool
  fl_present :: bool
  fl_value :: json_value

text \<open>The decoded text: \<open>output\<close>, \<open>*length\<close>, \<open>*overflow\<close> and \<open>*has_nul\<close>.\<close>

record decoded =
  de_output :: "string option"
  de_length :: nat
  de_overflow :: bool
  de_nul :: bool

definition decode_into :: "string option \<Rightarrow> decoded" where
  "decode_into output = \<lparr>de_output = output, de_length = 0, de_overflow = False, de_nul = False\<rparr>"

definition code :: "char \<Rightarrow> u32" where "code c = of_nat (of_char c)"
definition byte :: "u32 \<Rightarrow> char" where "byte w = char_of (unat w)"

section \<open>Reading characters\<close>

text \<open>\<open>position < length && P (text[position])\<close>.\<close>

definition peek :: "string \<Rightarrow> nat \<Rightarrow> (char \<Rightarrow> bool) \<Rightarrow> bool checked" where
  "peek text p P = (if p < length text then sbind (rd text p) (\<lambda>c. Inr (P c)) else Inr False)"

text \<open>\<open>(position >= length) || (text[position++] != c)\<close> is rejected.\<close>

definition expect :: "char \<Rightarrow> string \<Rightarrow> nat \<Rightarrow> nat checked" where
  "expect c text p =
     (if length text \<le> p then reject
      else sbind (rd text p) (\<lambda>x. if x \<noteq> c then reject else Inr (p + 1)))"

definition digit :: "char \<Rightarrow> bool" where
  "digit c \<longleftrightarrow> CHR ''0'' \<le> c \<and> c \<le> CHR ''9''"

definition blank :: "char \<Rightarrow> bool" where
  "blank c \<longleftrightarrow> c = CHR '' '' \<or> c = CHR 0x09 \<or> c = CHR 0x0D \<or> c = CHR 0x0A"

function skip_while :: "(char \<Rightarrow> bool) \<Rightarrow> string \<Rightarrow> nat \<Rightarrow> nat checked" where
  "skip_while P text p =
     (if p < length text
      then sbind (rd text p) (\<lambda>c. if P c then skip_while P text (p + 1) else Inr p)
      else Inr p)"
  by pat_completeness auto
termination by (relation "measure (\<lambda>(P, text, p). length text - p)") auto

declare skip_while.simps [simp del]

definition ev_control_json_whitespace :: "string \<Rightarrow> nat \<Rightarrow> nat checked" where
  "ev_control_json_whitespace text p = skip_while blank text p"

section \<open>Strings\<close>

definition ev_control_json_append :: "char \<Rightarrow> decoded \<Rightarrow> decoded checked" where
  "ev_control_json_append c d =
     sbind
       (case de_output d of
          None \<Rightarrow> Inr d
        | Some out \<Rightarrow>
            if de_length d + 1 < length out
            then sbind (wr out (de_length d) c) (\<lambda>out'. Inr (d\<lparr>de_output := Some out'\<rparr>))
            else Inr (d\<lparr>de_overflow := True\<rparr>))
       (\<lambda>d'. Inr (d'\<lparr>de_length := de_length d' + 1\<rparr>))"

fun append_all :: "string \<Rightarrow> decoded \<Rightarrow> decoded checked" where
  "append_all [] d = Inr d"
| "append_all (c # cs) d = sbind (ev_control_json_append c d) (append_all cs)"

definition ev_control_json_append_codepoint :: "u32 \<Rightarrow> decoded \<Rightarrow> decoded checked" where
  "ev_control_json_append_codepoint w d =
     (if w = 0 \<or> 0x10ffff < w \<or> (0xd800 \<le> w \<and> w \<le> 0xdfff)
      then if w = 0 then Inr (d\<lparr>de_nul := True\<rparr>) else reject
      else if w < 0x80 then append_all [byte w] d
      else if w < 0x800
      then append_all [byte (0xc0 OR drop_bit 6 w), byte (0x80 OR (w AND 0x3f))] d
      else if w < 0x10000
      then append_all [byte (0xe0 OR drop_bit 12 w), byte (0x80 OR (drop_bit 6 w AND 0x3f)),
                       byte (0x80 OR (w AND 0x3f))] d
      else append_all [byte (0xf0 OR drop_bit 18 w), byte (0x80 OR (drop_bit 12 w AND 0x3f)),
                       byte (0x80 OR (drop_bit 6 w AND 0x3f)), byte (0x80 OR (w AND 0x3f))] d)"

definition hex_value :: "char \<Rightarrow> u16 option" where
  "hex_value c =
     (if CHR ''0'' \<le> c \<and> c \<le> CHR ''9'' then Some (of_nat (of_char c - 48))
      else if CHR ''a'' \<le> c \<and> c \<le> CHR ''f'' then Some (of_nat (of_char c - 97 + 10))
      else if CHR ''A'' \<le> c \<and> c \<le> CHR ''F'' then Some (of_nat (of_char c - 65 + 10))
      else None)"

fun hex_digits :: "nat \<Rightarrow> string \<Rightarrow> nat \<Rightarrow> u16 \<Rightarrow> (u16 \<times> nat) checked" where
  "hex_digits 0 text p v = Inr (v, p)"
| "hex_digits (Suc n) text p v =
     sbind (rd text p) (\<lambda>c.
       case hex_value c of None \<Rightarrow> reject
       | Some d \<Rightarrow> hex_digits n text (p + 1) (push_bit 4 v OR d))"

definition ev_control_json_hex4 :: "string \<Rightarrow> nat \<Rightarrow> (u16 \<times> nat) checked" where
  "ev_control_json_hex4 text p =
     (if length text - p < 4 then reject else hex_digits 4 text p 0)"

text \<open>The bytes after the lead byte, with the code point.\<close>

fun trailing_bytes :: "nat \<Rightarrow> string \<Rightarrow> nat \<Rightarrow> string \<Rightarrow> u32 \<Rightarrow> (string \<times> u32 \<times> nat) checked" where
  "trailing_bytes 0 text p encoded w = Inr (encoded, w, p)"
| "trailing_bytes (Suc n) text p encoded w =
     sbind (rd text p) (\<lambda>c.
       if code c AND 0xc0 \<noteq> 0x80 then reject
       else trailing_bytes n text (p + 1) (encoded @ [c]) (push_bit 6 w OR (code c AND 0x3f)))"

definition lead_byte :: "u32 \<Rightarrow> (u32 \<times> nat) option" where
  "lead_byte lead =
     (if 0xc2 \<le> lead \<and> lead \<le> 0xdf then Some (lead AND 0x1f, 1)
      else if 0xe0 \<le> lead \<and> lead \<le> 0xef then Some (lead AND 0x0f, 2)
      else if 0xf0 \<le> lead \<and> lead \<le> 0xf4 then Some (lead AND 0x07, 3)
      else None)"

definition ev_control_json_append_raw_utf8 :: "string \<Rightarrow> nat \<Rightarrow> decoded \<Rightarrow> (decoded \<times> nat) checked" where
  "ev_control_json_append_raw_utf8 text p d =
     sbind (rd text p) (\<lambda>lead.
       case lead_byte (code lead) of None \<Rightarrow> reject
       | Some (w, trailing) \<Rightarrow>
           if length text - (p + 1) < trailing then reject
           else
             sbind (trailing_bytes trailing text (p + 1) [lead] w) (\<lambda>(encoded, w, q).
               if (trailing = 1 \<and> w < 0x80) \<or> (trailing = 2 \<and> w < 0x800) \<or>
                  (trailing = 3 \<and> w < 0x10000) \<or> 0x10ffff < w \<or> (0xd800 \<le> w \<and> w \<le> 0xdfff)
               then reject
               else sbind (append_all encoded d) (\<lambda>d'. Inr (d', q))))"

text \<open>The character of a one-letter escape.\<close>

definition simple_escape :: "char \<Rightarrow> char option" where
  "simple_escape c =
     (if c = CHR 0x22 then Some (CHR 0x22) else if c = CHR 0x5C then Some (CHR 0x5C)
      else if c = CHR ''/'' then Some (CHR ''/'') else if c = CHR ''b'' then Some (CHR 0x08)
      else if c = CHR ''f'' then Some (CHR 0x0C) else if c = CHR ''n'' then Some (CHR 0x0A)
      else if c = CHR ''r'' then Some (CHR 0x0D) else if c = CHR ''t'' then Some (CHR 0x09)
      else None)"

text \<open>The escape \<open>\u\<close>, after its letter: one unit, or a pair of surrogates.\<close>

definition unicode_escape :: "string \<Rightarrow> nat \<Rightarrow> (u32 \<times> nat) checked" where
  "unicode_escape text p =
     sbind (ev_control_json_hex4 text p) (\<lambda>(first_unit, q).
       if 0xd800 \<le> first_unit \<and> first_unit \<le> 0xdbff
       then
         if length text - q < 6 then reject
         else
           sbind (rd text q) (\<lambda>a. sbind (rd text (q + 1)) (\<lambda>b.
             if a \<noteq> CHR 0x5C \<or> b \<noteq> CHR ''u'' then reject
             else
               sbind (ev_control_json_hex4 text (q + 2)) (\<lambda>(second_unit, r).
                 if second_unit < 0xdc00 \<or> 0xdfff < second_unit then reject
                 else Inr (0x10000 + push_bit 10 (ucast first_unit - 0xd800) +
                             (ucast second_unit - 0xdc00), r))))
       else if 0xdc00 \<le> first_unit \<and> first_unit \<le> 0xdfff then reject
       else Inr (ucast first_unit, q))"

text \<open>One escape, from the character after the backslash on.\<close>

definition string_escape :: "string \<Rightarrow> nat \<Rightarrow> decoded \<Rightarrow> (decoded \<times> nat) checked" where
  "string_escape text p d =
     (if length text \<le> p then reject
      else
        sbind (rd text p) (\<lambda>c.
          if c = CHR ''u''
          then sbind (unicode_escape text (p + 1)) (\<lambda>(w, q).
                 sbind (ev_control_json_append_codepoint w d) (\<lambda>d'. Inr (d', q)))
          else
            case simple_escape c of None \<Rightarrow> reject
            | Some x \<Rightarrow> sbind (ev_control_json_append x d) (\<lambda>d'. Inr (d', p + 1))))"

text \<open>One character of a string that is not its closing quote.\<close>

definition string_char :: "string \<Rightarrow> nat \<Rightarrow> char \<Rightarrow> decoded \<Rightarrow> (decoded \<times> nat) checked" where
  "string_char text p c d =
     (if code c < 0x20 then reject
      else if c \<noteq> CHR 0x5C
      then if code c < 0x80
           then sbind (ev_control_json_append c d) (\<lambda>d'. Inr (d', p + 1))
           else ev_control_json_append_raw_utf8 text p d
      else string_escape text (p + 1) d)"

definition string_end :: "decoded \<Rightarrow> decoded checked" where
  "string_end d =
     (case de_output d of
        None \<Rightarrow> Inr d
      | Some out \<Rightarrow>
          if de_length d < length out
          then sbind (wr out (de_length d) (CHR 0x00)) (\<lambda>out'. Inr (d\<lparr>de_output := Some out'\<rparr>))
          else Inr d)"


lemma hex_digits_position: "hex_digits n text p v = Inr (w, q) \<Longrightarrow> q = p + n"
  by (induction n arbitrary: p v) (fastforce simp: sbind_Inr_iff split: option.split_asm)+

lemma trailing_position: "trailing_bytes n text p e w = Inr (e', w', q) \<Longrightarrow> q = p + n"
  by (induction n arbitrary: p e w) (fastforce simp: sbind_Inr_iff split: if_split_asm)+

lemma unicode_escape_position: "unicode_escape text p = Inr (w, q) \<Longrightarrow> p < q"
  by (auto simp: unicode_escape_def ev_control_json_hex4_def sbind_Inr_iff split: if_split_asm
      dest!: hex_digits_position)

lemma raw_utf8_position:
  assumes "ev_control_json_append_raw_utf8 text p d = Inr (d', q)"
  shows "p < q"
proof -
  obtain c where c: "rd text p = Inr c"
    using assms by (cases "rd text p") (auto simp: ev_control_json_append_raw_utf8_def)
  obtain w n where "lead_byte (code c) = Some (w, n)"
    using assms c by (cases "lead_byte (code c)") (auto simp: ev_control_json_append_raw_utf8_def)
  with assms c show ?thesis
    by (auto simp: ev_control_json_append_raw_utf8_def sbind_Inr_iff split: if_split_asm dest!: trailing_position)
qed

lemma string_char_position: "string_char text p c d = Inr (d', q) \<Longrightarrow> p < q"
  by (auto simp: string_char_def string_escape_def sbind_Inr_iff split: if_split_asm option.split_asm
      dest!: unicode_escape_position raw_utf8_position)

function string_loop :: "string \<Rightarrow> nat \<Rightarrow> decoded \<Rightarrow> (decoded \<times> nat) checked" where
  "string_loop text p d =
     (if p < length text
      then
        sbind (rd text p) (\<lambda>c.
          if c = CHR 0x22 then sbind (string_end d) (\<lambda>d'. Inr (d', p + 1))
          else sbind (string_char text p c d) (\<lambda>(d', q). string_loop text q d'))
      else reject)"
  by pat_completeness auto
termination
  by (relation "measure (\<lambda>(text, p, d). length text - p)") (auto dest: string_char_position)

declare string_loop.simps [simp del]

definition ev_control_json_string :: "string \<Rightarrow> nat \<Rightarrow> string option \<Rightarrow> (decoded \<times> nat) checked" where
  "ev_control_json_string text p output =
     sbind (expect (CHR 0x22) text p) (\<lambda>q. string_loop text q (decode_into output))"

section \<open>Numbers and literals\<close>

function number_loop :: "string \<Rightarrow> nat \<Rightarrow> u32 \<Rightarrow> (u32 \<times> nat) checked" where
  "number_loop text p value =
     (if p < length text
      then
        sbind (rd text p) (\<lambda>c.
          if \<not> digit c then Inr (value, p)
          else
            let d = of_nat (of_char c - 48)
            in if (- 1 - d) div 10 < value then reject else number_loop text (p + 1) (value * 10 + d))
      else Inr (value, p))"
  by pat_completeness auto
termination by (relation "measure (\<lambda>(text, p, value). length text - p)") auto

declare number_loop.simps [simp del]

definition ev_control_json_number :: "string \<Rightarrow> nat \<Rightarrow> (u32 \<times> nat) checked" where
  "ev_control_json_number text p =
     sbind (peek text p digit) (\<lambda>d.
       if \<not> d then reject
       else
         sbind (rd text p) (\<lambda>c.
           if c = CHR ''0''
           then sbind (peek text (p + 1) digit) (\<lambda>d. if d then reject else Inr (0, p + 1))
           else number_loop text p 0))"

definition ev_control_json_literal :: "string \<Rightarrow> string \<Rightarrow> nat \<Rightarrow> nat checked" where
  "ev_control_json_literal literal text p =
     (if length text - p < length literal \<or> take (length literal) (drop p text) \<noteq> literal then reject
      else Inr (p + length literal))"

section \<open>Skipping a value\<close>

text \<open>After a member or an element: whether there is another one, and where.\<close>

definition next_item :: "char \<Rightarrow> string \<Rightarrow> nat \<Rightarrow> (bool \<times> nat) checked" where
  "next_item closing text p =
     sbind (ev_control_json_whitespace text p) (\<lambda>q.
       if length text \<le> q then reject
       else
         sbind (rd text q) (\<lambda>separator.
           if separator = closing then Inr (False, q + 1)
           else if separator \<noteq> CHR '','' then reject
           else sbind (ev_control_json_whitespace text (q + 1)) (\<lambda>r. Inr (True, r))))"

text \<open>The colon between the name and the value of a member, with the blanks around it.\<close>

definition colon :: "string \<Rightarrow> nat \<Rightarrow> nat checked" where
  "colon text p =
     sbind (ev_control_json_whitespace text p) (\<lambda>q.
       sbind (expect (CHR '':'') text q) (ev_control_json_whitespace text))"

text \<open>\<open>skip\<close> skips one value.\<close>

fun skip_members :: "(nat \<Rightarrow> nat checked) \<Rightarrow> string \<Rightarrow> nat \<Rightarrow> nat \<Rightarrow> nat checked" where
  "skip_members skip text 0 p = Inl Out_of_fuel"
| "skip_members skip text (Suc fuel) p =
     sbind (ev_control_json_string text p None) (\<lambda>(_, q).
     sbind (colon text q) (\<lambda>q.
     sbind (skip q) (\<lambda>q.
     sbind (next_item (CHR ''}'') text q) (\<lambda>(more, r).
       if more then skip_members skip text fuel r else Inr r))))"

fun skip_elements :: "(nat \<Rightarrow> nat checked) \<Rightarrow> string \<Rightarrow> nat \<Rightarrow> nat \<Rightarrow> nat checked" where
  "skip_elements skip text 0 p = Inl Out_of_fuel"
| "skip_elements skip text (Suc fuel) p =
     sbind (skip p) (\<lambda>q.
     sbind (next_item (CHR '']'') text q) (\<lambda>(more, r).
       if more then skip_elements skip text fuel r else Inr r))"

definition ev_control_json_skip_object :: "(nat \<Rightarrow> nat checked) \<Rightarrow> string \<Rightarrow> nat \<Rightarrow> nat checked" where
  "ev_control_json_skip_object skip text p =
     sbind (ev_control_json_whitespace text (p + 1)) (\<lambda>q.
     sbind (peek text q (\<lambda>c. c = CHR ''}'')) (\<lambda>closed.
       if closed then Inr (q + 1) else skip_members skip text (length text) q))"

definition ev_control_json_skip_array :: "(nat \<Rightarrow> nat checked) \<Rightarrow> string \<Rightarrow> nat \<Rightarrow> nat checked" where
  "ev_control_json_skip_array skip text p =
     sbind (ev_control_json_whitespace text (p + 1)) (\<lambda>q.
     sbind (peek text q (\<lambda>c. c = CHR '']'')) (\<lambda>closed.
       if closed then Inr (q + 1) else skip_elements skip text (length text) q))"

definition skip_integer :: "string \<Rightarrow> nat \<Rightarrow> nat checked" where
  "skip_integer text p =
     (if length text \<le> p then reject
      else
        sbind (rd text p) (\<lambda>c.
          if c = CHR ''0''
          then sbind (peek text (p + 1) digit) (\<lambda>d. if d then reject else Inr (p + 1))
          else if CHR ''1'' \<le> c \<and> c \<le> CHR ''9'' then skip_while digit text (p + 1)
          else reject))"

definition skip_digits :: "string \<Rightarrow> nat \<Rightarrow> nat checked" where
  "skip_digits text p = sbind (skip_while digit text p) (\<lambda>q. if q = p then reject else Inr q)"

definition skip_fraction :: "string \<Rightarrow> nat \<Rightarrow> nat checked" where
  "skip_fraction text p =
     sbind (peek text p (\<lambda>c. c = CHR ''.'')) (\<lambda>dot. if dot then skip_digits text (p + 1) else Inr p)"

definition skip_exponent :: "string \<Rightarrow> nat \<Rightarrow> nat checked" where
  "skip_exponent text p =
     sbind (peek text p (\<lambda>c. c = CHR ''e'' \<or> c = CHR ''E'')) (\<lambda>e.
       if \<not> e then Inr p
       else
         sbind (peek text (p + 1) (\<lambda>c. c = CHR ''+'' \<or> c = CHR ''-'')) (\<lambda>sign.
           skip_digits text (if sign then p + 2 else p + 1)))"

definition skip_number :: "string \<Rightarrow> nat \<Rightarrow> nat checked" where
  "skip_number text p =
     sbind (peek text p (\<lambda>c. c = CHR ''-'')) (\<lambda>minus.
     sbind (skip_integer text (if minus then p + 1 else p)) (\<lambda>q.
     sbind (skip_fraction text q) (\<lambda>q.
     sbind (skip_exponent text q) (\<lambda>q.
       if p < q then Inr q else reject))))"

function ev_control_json_skip_value :: "string \<Rightarrow> nat \<Rightarrow> nat \<Rightarrow> nat checked" where
  "ev_control_json_skip_value text depth p =
     (if 12 < depth \<or> length text \<le> p then reject
      else
        sbind (rd text p) (\<lambda>c.
          if c = CHR 0x22 then sbind (ev_control_json_string text p None) (\<lambda>(_, q). Inr q)
          else if c = CHR ''{''
          then ev_control_json_skip_object (\<lambda>q. ev_control_json_skip_value text (depth + 1) q) text p
          else if c = CHR ''[''
          then ev_control_json_skip_array (\<lambda>q. ev_control_json_skip_value text (depth + 1) q) text p
          else if c = CHR ''t'' then ev_control_json_literal ''true'' text p
          else if c = CHR ''f'' then ev_control_json_literal ''false'' text p
          else if c = CHR ''n'' then ev_control_json_literal ''null'' text p
          else skip_number text p))"
  by pat_completeness auto
termination by (relation "measure (\<lambda>(text, depth, p). 13 - depth)") auto

declare ev_control_json_skip_value.simps [simp del]


section \<open>Parsing an object into fields\<close>

definition ev_control_json_string_field :: "cstring \<Rightarrow> bool \<Rightarrow> string option \<Rightarrow> ev_control_json_field" where
  "ev_control_json_string_field nm required buffer =
     \<lparr>fl_name = nm, fl_required = required, fl_present = False,
      fl_value = EV_CONTROL_JSON_STRING buffer 0\<rparr>"

definition ev_control_json_uint32_field :: "cstring \<Rightarrow> bool \<Rightarrow> ev_control_json_field" where
  "ev_control_json_uint32_field nm required =
     \<lparr>fl_name = nm, fl_required = required, fl_present = False, fl_value = EV_CONTROL_JSON_UINT32 0\<rparr>"

definition ev_control_json_bool_field :: "cstring \<Rightarrow> bool \<Rightarrow> ev_control_json_field" where
  "ev_control_json_bool_field nm required =
     \<lparr>fl_name = nm, fl_required = required, fl_present = False, fl_value = EV_CONTROL_JSON_BOOLEAN False\<rparr>"

definition clear_value :: "json_value \<Rightarrow> json_value" where
  "clear_value v =
     (case v of
        EV_CONTROL_JSON_STRING buffer n \<Rightarrow>
          EV_CONTROL_JSON_STRING
            (case buffer of None \<Rightarrow> None | Some b \<Rightarrow> Some (if b \<noteq> [] then b[0 := CHR 0x00] else b)) 0
      | EV_CONTROL_JSON_UINT32 w \<Rightarrow> EV_CONTROL_JSON_UINT32 0
      | EV_CONTROL_JSON_BOOLEAN b \<Rightarrow> EV_CONTROL_JSON_BOOLEAN False)"

definition clear_field :: "ev_control_json_field \<Rightarrow> ev_control_json_field" where
  "clear_field f = f\<lparr>fl_present := False, fl_value := clear_value (fl_value f)\<rparr>"

text \<open>The field of a name, which is in a buffer of 32 characters.\<close>

definition find_field :: "decoded \<Rightarrow> ev_control_json_field list \<Rightarrow> nat option" where
  "find_field key fls =
     (if de_overflow key \<or> de_nul key then None
      else
        find (\<lambda>i. de_length key = length (fl_name (fls ! i)) \<and>
                  (case de_output key of None \<Rightarrow> False | Some b \<Rightarrow> c_string b = fl_name (fls ! i)))
          [0..<length fls])"

definition parse_value :: "json_value \<Rightarrow> string \<Rightarrow> nat \<Rightarrow> (json_value \<times> nat) checked" where
  "parse_value v text p =
     (case v of
        EV_CONTROL_JSON_STRING buffer n \<Rightarrow>
          sbind (ev_control_json_string text p buffer) (\<lambda>(d, q).
            if de_overflow d \<or> de_nul d then reject
            else Inr (EV_CONTROL_JSON_STRING (de_output d) (de_length d), q))
      | EV_CONTROL_JSON_UINT32 w \<Rightarrow>
          sbind (ev_control_json_number text p) (\<lambda>(w', q). Inr (EV_CONTROL_JSON_UINT32 w', q))
      | EV_CONTROL_JSON_BOOLEAN b \<Rightarrow>
          sbind (peek text p (\<lambda>c. c = CHR ''t'')) (\<lambda>t.
            if t
            then sbind (ev_control_json_literal ''true'' text p) (\<lambda>q. Inr (EV_CONTROL_JSON_BOOLEAN True, q))
            else
              sbind (peek text p (\<lambda>c. c = CHR ''f'')) (\<lambda>f.
                if f
                then sbind (ev_control_json_literal ''false'' text p) (\<lambda>q. Inr (EV_CONTROL_JSON_BOOLEAN b, q))
                else reject)))"

text \<open>One member: its value goes to the field of its name, or is skipped.\<close>

definition parse_member ::
  "ev_control_json_field list \<Rightarrow> string \<Rightarrow> nat \<Rightarrow> (ev_control_json_field list \<times> nat) checked" where
  "parse_member fls text p =
     sbind (ev_control_json_string text p (Some (replicate 32 (CHR 0x00)))) (\<lambda>(key, q).
     sbind (colon text q) (\<lambda>q.
       case find_field key fls of
         None \<Rightarrow> sbind (ev_control_json_skip_value text 0 q) (\<lambda>r. Inr (fls, r))
       | Some i \<Rightarrow>
           if fl_present (fls ! i) then reject
           else
             sbind (parse_value (fl_value (fls ! i)) text q) (\<lambda>(v, r).
               Inr (fls[i := (fls ! i)\<lparr>fl_value := v, fl_present := True\<rparr>], r))))"

fun parse_members ::
  "nat \<Rightarrow> ev_control_json_field list \<Rightarrow> string \<Rightarrow> nat \<Rightarrow> (ev_control_json_field list \<times> nat) checked" where
  "parse_members 0 fls text p = Inl Out_of_fuel"
| "parse_members (Suc fuel) fls text p =
     sbind (parse_member fls text p) (\<lambda>(fls1, q).
     sbind (next_item (CHR ''}'') text q) (\<lambda>(more, r).
       if more then parse_members fuel fls1 text r else Inr (fls1, r)))"

definition ev_control_json_parse_object ::
  "string option \<Rightarrow> ev_control_json_field list \<Rightarrow> ev_control_json_field list checked" where
  "ev_control_json_parse_object source fls0 =
     (case source of None \<Rightarrow> reject
      | Some text \<Rightarrow>
          if length text = 0 then reject
          else
            let fls = map clear_field fls0
            in sbind (ev_control_json_whitespace text 0) (\<lambda>p.
               sbind (expect (CHR ''{'') text p) (\<lambda>p.
               sbind (ev_control_json_whitespace text p) (\<lambda>p.
               sbind (peek text p (\<lambda>c. c = CHR ''}'')) (\<lambda>closed.
               sbind (if closed then Inr (fls, p + 1) else parse_members (length text) fls text p)
                 (\<lambda>(fls1, q).
               sbind (ev_control_json_whitespace text q) (\<lambda>q.
                 if q \<noteq> length text then reject
                 else if \<exists>f \<in> set fls1. fl_required f \<and> \<not> fl_present f then reject
                 else Inr fls1)))))))"

section \<open>The metadata of a frame and the payload of a hello\<close>

definition ev_control_json_rpc_payload_valid :: "u8 list option \<Rightarrow> nat \<Rightarrow> bool" where
  "ev_control_json_rpc_payload_valid payload len =
     (case payload of None \<Rightarrow> False | Some bytes \<Rightarrow> 0 \<notin> set (take len bytes))"

record ev_control_json_metadata =
  md_channel :: cstring
  md_type :: cstring
  md_method :: cstring
  md_session_id :: cstring
  md_seq :: u32
  md_vm_epoch :: u32
  md_has_method :: bool
  md_has_sid :: bool
  md_has_encoding :: bool
  md_encoding :: cstring
  md_has_session_id :: bool
  md_has_vm_epoch :: bool

record ev_control_json_hello =
  he_acquire :: bool
  he_has_acquire :: bool
  he_ev_mux_version :: u32
  he_has_ev_mux_version :: bool
  he_client_nonce :: cstring
  he_has_client_nonce :: bool

text \<open>The members of the value of a field, and an array cleared by \<open>memset\<close>.\<close>

definition string_of :: "ev_control_json_field \<Rightarrow> cstring" where
  "string_of f =
     (case fl_value f of EV_CONTROL_JSON_STRING (Some b) n \<Rightarrow> c_string b | _ \<Rightarrow> [])"

definition length_of :: "ev_control_json_field \<Rightarrow> nat" where
  "length_of f = (case fl_value f of EV_CONTROL_JSON_STRING b n \<Rightarrow> n | _ \<Rightarrow> 0)"

definition uint32_of :: "ev_control_json_field \<Rightarrow> u32" where
  "uint32_of f = (case fl_value f of EV_CONTROL_JSON_UINT32 w \<Rightarrow> w | _ \<Rightarrow> 0)"

definition boolean_of :: "ev_control_json_field \<Rightarrow> bool" where
  "boolean_of f = (case fl_value f of EV_CONTROL_JSON_BOOLEAN b \<Rightarrow> b | _ \<Rightarrow> False)"

definition zeros :: "nat \<Rightarrow> string" where
  "zeros n = replicate n (CHR 0x00)"

definition metadata_fields :: "ev_control_json_field list" where
  "metadata_fields =
     [ev_control_json_string_field ''channel'' True (Some (zeros EV_CONTROL_JSON_CHANNEL_CAPACITY)),
      ev_control_json_string_field ''type'' True (Some (zeros EV_CONTROL_JSON_TYPE_CAPACITY)),
      ev_control_json_uint32_field ''seq'' True,
      ev_control_json_string_field ''method'' False (Some (zeros (EV_CONTROL_JSON_METHOD_MAX + 1))),
      ev_control_json_string_field ''sid'' False None,
      ev_control_json_string_field ''encoding'' False (Some (zeros 8)),
      ev_control_json_string_field ''sessionId'' False (Some (zeros (EV_CONTROL_JSON_SESSION_ID_LENGTH + 1))),
      ev_control_json_uint32_field ''vmEpoch'' False]"

text \<open>\<open>out\<close> is not NULL.\<close>

definition ev_control_json_parse_metadata :: "string option \<Rightarrow> ev_control_json_metadata checked" where
  "ev_control_json_parse_metadata text =
     sbind (ev_control_json_parse_object text metadata_fields) (\<lambda>fls.
       let channel = string_of (fls ! 0); is_rpc = (channel = ''user.rpc'' \<or> channel = ''debug.rpc'')
       in if is_rpc \<and> (\<not> fl_present (fls ! 3) \<or> length_of (fls ! 3) = 0) then reject
          else
            Inr \<lparr>md_channel = channel, md_type = string_of (fls ! 1), md_method = string_of (fls ! 3),
                 md_session_id = string_of (fls ! 6), md_seq = uint32_of (fls ! 2),
                 md_vm_epoch = uint32_of (fls ! 7), md_has_method = fl_present (fls ! 3),
                 md_has_sid = fl_present (fls ! 4), md_has_encoding = fl_present (fls ! 5),
                 md_encoding = string_of (fls ! 5), md_has_session_id = fl_present (fls ! 6),
                 md_has_vm_epoch = fl_present (fls ! 7)\<rparr>)"

definition hello_fields :: "ev_control_json_field list" where
  "hello_fields =
     [ev_control_json_bool_field ''acquire'' False, ev_control_json_uint32_field ''evMuxVersion'' False,
      ev_control_json_string_field ''clientNonce'' False (Some (zeros (EV_CONTROL_JSON_SESSION_ID_LENGTH + 1)))]"

definition ev_control_json_parse_hello :: "string option \<Rightarrow> ev_control_json_hello checked" where
  "ev_control_json_parse_hello text =
     sbind (ev_control_json_parse_object text hello_fields) (\<lambda>fls.
       Inr \<lparr>he_acquire = boolean_of (fls ! 0), he_has_acquire = fl_present (fls ! 0),
            he_ev_mux_version = uint32_of (fls ! 1), he_has_ev_mux_version = fl_present (fls ! 1),
            he_client_nonce = string_of (fls ! 2), he_has_client_nonce = fl_present (fls ! 2)\<rparr>)"

end
