(* ===== verification/MuxStream.thy ===== *)
theory MuxStream
  imports MuxTx ControlJson
begin

text \<open>
  The stream interface of the transmitter, \<open>platform/ev_mux.c\<close>: where the output of a stream goes, the
  session and epoch that are written into its metadata, the stage that collects the output of the
  REPL into lines, and previews that may be lost. The record \<open>stream\<close> joins the transmitter, the world
  of the session and the drivers with the static variables of the stage and a clock.

  The stage is changed only by a task that holds \<open>s_repl_producer_mutex\<close>. Where a task waits or
  holds no other mutex, the other tasks act (\<open>sv_others\<close>, \<open>sv_delay\<close>).
\<close>

section \<open>State\<close>

definition EV_MUX_REPL_STAGE_BYTES :: nat where "EV_MUX_REPL_STAGE_BYTES = 512"
definition EV_MUX_REPL_COALESCE_MS :: u32 where "EV_MUX_REPL_COALESCE_MS = 5"
definition EV_MUX_CONGESTION_COOLDOWN_MS :: u32 where "EV_MUX_CONGESTION_COOLDOWN_MS = 500"

text \<open>The first \<open>metadata_len\<close> characters and \<open>payload_len\<close> bytes of the arrays are the two lists.\<close>

record ev_mux_repl_stage =
  rs_used :: bool
  rs_retrying :: bool
  rs_link :: ev_link_ref
  rs_session_id :: cstring
  rs_vm_epoch :: u32
  rs_output_input_generation :: u32
  rs_output_transition_id :: u32
  rs_last_append_ms :: u32
  rs_retry_started_ms :: u32
  rs_metadata :: string
  rs_payload :: "u8 list"

definition zero_stage :: ev_mux_repl_stage where
  "zero_stage =
     \<lparr>rs_used = False, rs_retrying = False, rs_link = zero_link, rs_session_id = [], rs_vm_epoch = 0,
      rs_output_input_generation = 0, rs_output_transition_id = 0, rs_last_append_ms = 0,
      rs_retry_started_ms = 0, rs_metadata = [], rs_payload = []\<rparr>"

record 'd stream =
  sm_mux :: mux
  sm_world :: world
  sm_drivers :: 'd
  sm_stage :: ev_mux_repl_stage
  sm_cancelled_epoch :: u32
  sm_now :: u32

record ev_mux_stream_target =
  tg_options :: ev_mux_submit_options
  tg_link :: ev_link_ref
  tg_session_id :: cstring
  tg_origin :: ev_vm_output_origin

text \<open>
  The environment: whether the transmitter is started, the board and the speed of the UART, whether
  each mutex is taken in time, the allocator, and the other tasks. \<open>sv_tx\<close> is the environment of a
  turn of the worker.
\<close>

record 'd stream_env =
  sv_ready :: "'d stream \<Rightarrow> bool"
  sv_board :: board
  sv_baud :: "'d stream \<Rightarrow> u32"
  sv_malloc :: "'d stream \<Rightarrow> malloc"
  sv_queue_lock :: "'d stream \<Rightarrow> bool"
  sv_special_lock :: "'d stream \<Rightarrow> bool"
  sv_stage_lock :: "'d stream \<Rightarrow> bool"
  sv_producer_lock :: "'d stream \<Rightarrow> bool"
  sv_tx :: "'d stream \<Rightarrow> 'd tx_env"
  sv_others :: "'d stream \<Rightarrow> 'd stream"
  sv_delay :: "'d stream \<Rightarrow> 'd stream"

definition on_mux :: "(mux \<Rightarrow> mux) \<Rightarrow> 'd stream \<Rightarrow> 'd stream" where
  "on_mux g r = r\<lparr>sm_mux := g (sm_mux r)\<rparr>"

definition on_stage :: "(ev_mux_repl_stage \<Rightarrow> ev_mux_repl_stage) \<Rightarrow> 'd stream \<Rightarrow> 'd stream" where
  "on_stage g r = r\<lparr>sm_stage := g (sm_stage r)\<rparr>"

text \<open>A section under \<open>s_repl_stage_mutex\<close>, which is left out when the mutex is not free.\<close>

definition with_stage :: "'d stream_env \<Rightarrow> ('d stream \<Rightarrow> 'd stream) \<Rightarrow> 'd stream \<Rightarrow> 'd stream" where
  "with_stage env g r = (if sv_stage_lock env r then g r else r)"

definition count_stale :: "mux \<Rightarrow> mux" where
  "count_stale m = m\<lparr>mx_tx_stale_count := mx_tx_stale_count m + 1\<rparr>"

section \<open>Metadata\<close>

text \<open>\<open>out\<close> is the pair of output pointers, of which the code passes both or none.\<close>

definition metadata_additions :: "cstring \<Rightarrow> u32 \<Rightarrow> bool \<Rightarrow> bool \<Rightarrow> string" where
  "metadata_additions sid vm_epoch add_session add_epoch =
     (if add_session then '','' @ [CHR 0x22] @ ''sessionId'' @ [CHR 0x22] @ '':'' @ [CHR 0x22] @ sid @ [CHR 0x22] else []) @
     (if add_epoch then '','' @ [CHR 0x22] @ ''vmEpoch'' @ [CHR 0x22] @ '':'' @ decimal (unat vm_epoch) else [])"

definition metadata_blank :: "char \<Rightarrow> bool" where
  "metadata_blank c \<longleftrightarrow> c = CHR '' '' \<or> c = CHR 0x09 \<or> c = CHR 0x0D \<or> c = CHR 0x0A"

text \<open>Before the closing brace, and from it on; \<open>None\<close> if there is none.\<close>

definition split_close :: "string \<Rightarrow> (string \<times> string) option" where
  "split_close metadata =
     (let blanks = length (takeWhile metadata_blank (rev metadata)); close_end = length metadata - blanks
      in if close_end = 0 \<or> metadata ! (close_end - 1) \<noteq> CHR ''}'' then None
         else Some (take (close_end - 1) metadata, drop (close_end - 1) metadata))"

definition session_hex :: "cstring \<Rightarrow> bool" where
  "session_hex sid \<longleftrightarrow> length sid = EV_SESSION_ID_HEX_LEN \<and>
     list_all (\<lambda>c. CHR ''0'' \<le> c \<and> c \<le> CHR ''9'' \<or> CHR ''a'' \<le> c \<and> c \<le> CHR ''f'') sid"

definition ev_mux_stream_metadata_bind ::
  "cstring option \<Rightarrow> ev_mux_submit_options option \<Rightarrow> string option \<Rightarrow> esp_err \<times> string option" where
  "ev_mux_stream_metadata_bind metadata options out =
     (case (metadata, options) of
        (Some md, Some o1) \<Rightarrow>
          if EV_MUX_METADATA_MAX < length md then (ESP_ERR_INVALID_SIZE, out)
          else
            (case ev_control_json_parse_metadata (Some md) of
               Inl _ \<Rightarrow> (ESP_ERR_INVALID_ARG, out)
             | Inr parsed \<Rightarrow>
                 let sid = (case op_session_id o1 of None \<Rightarrow> [] | Some s \<Rightarrow> s);
                     same = (ESP_OK, map_option (\<lambda>_. md) out);
                     add_session = (\<not> md_has_session_id parsed); add_epoch = (\<not> md_has_vm_epoch parsed)
                 in if sid = []
                    then if md_has_session_id parsed \<or> md_has_vm_epoch parsed then (ESP_ERR_INVALID_STATE, out) else same
                    else if \<not> session_hex sid then (ESP_ERR_INVALID_STATE, out)
                    else if (md_has_session_id parsed \<and> md_session_id parsed \<noteq> sid) \<or>
                            (md_has_vm_epoch parsed \<and> md_vm_epoch parsed \<noteq> op_vm_epoch o1)
                    then (ESP_ERR_INVALID_STATE, out)
                    else if \<not> add_session \<and> \<not> add_epoch then same
                    else
                      case split_close md of None \<Rightarrow> (ESP_ERR_INVALID_ARG, out)
                      | Some (before, close) \<Rightarrow>
                          let additions = metadata_additions sid (op_vm_epoch o1) add_session add_epoch
                          in if 96 \<le> length additions then (ESP_ERR_INVALID_SIZE, out)
                             else if EV_MUX_METADATA_MAX < length md + length additions then (ESP_ERR_INVALID_SIZE, out)
                             else (ESP_OK, map_option (\<lambda>_. before @ additions @ close) out))
      | _ \<Rightarrow> (ESP_ERR_INVALID_ARG, out))"

record ev_mux_repl_metadata_semantics =
  se_channel :: cstring
  se_type :: cstring
  se_method :: cstring
  se_sid :: cstring
  se_encoding :: cstring
  se_has_method :: bool
  se_has_sid :: bool
  se_has_encoding :: bool

definition semantics_fields :: "ev_control_json_field list" where
  "semantics_fields =
     [ev_control_json_string_field ''channel'' True (Some (zeros EV_CONTROL_JSON_CHANNEL_CAPACITY)),
      ev_control_json_string_field ''type'' True (Some (zeros EV_CONTROL_JSON_TYPE_CAPACITY)),
      ev_control_json_string_field ''method'' False (Some (zeros (EV_CONTROL_JSON_METHOD_MAX + 1))),
      ev_control_json_string_field ''sid'' False (Some (zeros 16)),
      ev_control_json_string_field ''encoding'' False (Some (zeros 16))]"

definition ev_mux_repl_metadata_semantics :: "cstring \<Rightarrow> ev_mux_repl_metadata_semantics option" where
  "ev_mux_repl_metadata_semantics text =
     (case ev_control_json_parse_object (Some text) semantics_fields of
        Inl _ \<Rightarrow> None
      | Inr fls \<Rightarrow>
          Some \<lparr>se_channel = string_of (fls ! 0), se_type = string_of (fls ! 1), se_method = string_of (fls ! 2),
                se_sid = string_of (fls ! 3), se_encoding = string_of (fls ! 4), se_has_method = fl_present (fls ! 2),
                se_has_sid = fl_present (fls ! 3), se_has_encoding = fl_present (fls ! 4)\<rparr>)"

definition ev_mux_repl_metadata_compatible :: "cstring \<Rightarrow> cstring \<Rightarrow> bool" where
  "ev_mux_repl_metadata_compatible left right =
     (case (ev_mux_repl_metadata_semantics left, ev_mux_repl_metadata_semantics right) of
        (Some a, Some b) \<Rightarrow>
          se_channel a = se_channel b \<and> se_type a = se_type b \<and> se_has_method a = se_has_method b \<and>
          (\<not> se_has_method a \<or> se_method a = se_method b) \<and> se_has_sid a = se_has_sid b \<and>
          (\<not> se_has_sid a \<or> se_sid a = se_sid b) \<and> se_has_encoding a = se_has_encoding b \<and>
          (\<not> se_has_encoding a \<or> se_encoding a = se_encoding b)
      | _ \<Rightarrow> False)"

section \<open>The stage\<close>

definition target_session :: "ev_mux_stream_target \<Rightarrow> cstring" where
  "target_session target = (case op_session_id (tg_options target) of None \<Rightarrow> [] | Some s \<Rightarrow> s)"

definition ev_mux_repl_target_matches :: "ev_mux_repl_stage \<Rightarrow> ev_mux_stream_target \<Rightarrow> cstring \<Rightarrow> bool" where
  "ev_mux_repl_target_matches st target metadata \<longleftrightarrow>
     ev_mux_link_equal (rs_link st) (tg_link target) \<and> rs_vm_epoch st = op_vm_epoch (tg_options target) \<and>
     rs_output_input_generation st = or_input_generation (tg_origin target) \<and>
     rs_output_transition_id st = or_transition_id (tg_origin target) \<and>
     rs_session_id st = target_session target \<and> ev_mux_repl_metadata_compatible (rs_metadata st) metadata"

definition ev_mux_repl_stage_is_current :: "'d stream \<Rightarrow> bool" where
  "ev_mux_repl_stage_is_current r =
     (let st = sm_stage r; sess = w_session (sm_world r)
      in if \<not> ev_transport_link_is_current (w_transport (sm_world r)) (Some (rs_link st)) then False
         else if rs_session_id st = [] then rs_vm_epoch st = 0
         else if rs_vm_epoch st \<noteq> 0 \<and> sm_cancelled_epoch r = rs_vm_epoch st then False
         else
           case session_view sess (sm_now r) of None \<Rightarrow> False
           | Some sn \<Rightarrow>
               if rs_output_input_generation st \<noteq> 0
               then ev_mux_session_matches_output_origin (Some sn) (Some (rs_link st)) (Some (rs_session_id st))
                      (rs_vm_epoch st) (rs_output_input_generation st) (rs_output_transition_id st)
               else sn_has_owner sn \<and> sn_state sn = EV_SESSION_OWNED \<and>
                    ev_mux_link_equal (sn_owner_link sn) (rs_link st) \<and> sn_session_id sn = rs_session_id st \<and>
                    (rs_vm_epoch st = 0 \<or> sn_vm_epoch sn = rs_vm_epoch st))"

definition ev_mux_repl_stage_reset_locked :: "'d stream \<Rightarrow> 'd stream" where
  "ev_mux_repl_stage_reset_locked r = r\<lparr>sm_stage := zero_stage\<rparr>"

definition ev_mux_repl_stage_begin_locked ::
  "ev_mux_stream_target \<Rightarrow> cstring option \<Rightarrow> 'd stream \<Rightarrow> esp_err \<times> 'd stream" where
  "ev_mux_repl_stage_begin_locked target metadata r =
     (case ev_mux_stream_metadata_bind metadata (Some (tg_options target)) (Some []) of
        (ESP_OK, Some md) \<Rightarrow>
          (ESP_OK,
           r\<lparr>sm_stage := zero_stage\<lparr>rs_used := True, rs_link := tg_link target,
               rs_vm_epoch := op_vm_epoch (tg_options target),
               rs_output_input_generation := or_input_generation (tg_origin target),
               rs_output_transition_id := or_transition_id (tg_origin target),
               rs_session_id := target_session target, rs_metadata := md, rs_last_append_ms := sm_now r\<rparr>\<rparr>)
      | (result, _) \<Rightarrow> (result, ev_mux_repl_stage_reset_locked r))"

definition ev_mux_repl_mark_stale_locked :: "'d stream \<Rightarrow> 'd stream" where
  "ev_mux_repl_mark_stale_locked r =
     on_mux (\<lambda>m. ev_mux_record_tx_drop (count_stale m)) (ev_mux_repl_stage_reset_locked r)"

section \<open>Flushing the stage\<close>

definition stage_origin :: "ev_mux_repl_stage \<Rightarrow> ev_vm_output_origin option" where
  "stage_origin st =
     (if rs_output_input_generation st \<noteq> 0
      then Some \<lparr>or_link = rs_link st, or_session_id = rs_session_id st, or_vm_epoch = rs_vm_epoch st,
                 or_input_generation = rs_output_input_generation st, or_transition_id = rs_output_transition_id st\<rparr>
      else None)"

definition stage_options :: "ev_mux_repl_stage \<Rightarrow> ev_mux_submit_options" where
  "stage_options st =
     \<lparr>op_link = Some (rs_link st), op_session_id = (if rs_session_id st \<noteq> [] then Some (rs_session_id st) else None),
      op_vm_epoch = rs_vm_epoch st, op_tx_class = EV_MUX_TX_REPL, op_uart_baud_control = False, op_completion = None,
      op_completion_context = None, op_completion_context_len = 0, op_vm_output_origin = stage_origin st\<rparr>"

text \<open>The session that is to fail: its link and identifier.\<close>

type_synonym failure = "(ev_link_ref \<times> cstring) option"

definition stage_failure :: "ev_mux_repl_stage \<Rightarrow> failure" where
  "stage_failure st = (if rs_session_id st \<noteq> [] then Some (rs_link st, rs_session_id st) else None)"

definition stage_enqueue :: "'d stream_env \<Rightarrow> ev_mux_repl_stage \<Rightarrow> 'd stream \<Rightarrow> esp_err \<times> 'd stream" where
  "stage_enqueue env st r =
     (let (result, m) = ev_mux_enqueue_normal (w_transport (sm_world r)) (sv_baud env r) (sm_now r) (sv_queue_lock env r)
                          (sm_mux r) (stage_options st) (rs_metadata st) (length (rs_metadata st)) (rs_payload st) 0 False
      in (result, r\<lparr>sm_mux := m\<rparr>))"

definition stage_rejected :: "ev_mux_repl_stage \<Rightarrow> 'd stream \<Rightarrow> 'd stream" where
  "stage_rejected st = on_mux (\<lambda>m. ev_mux_record_queue_rejection m (Some (stage_options st)))"

text \<open>
  What a flush returns: the result, the session that is to fail, the stages whose contents the queue
  accepted, and the state. \<open>None\<close> if it does not return.
\<close>

type_synonym 'd flushed = "esp_err \<times> failure \<times> ev_mux_repl_stage list \<times> 'd stream"

text \<open>Without waiting: the first full queue starts the clock of the retries, which end after two seconds.\<close>

definition flush_retry :: "'d stream_env \<Rightarrow> ev_mux_repl_stage \<Rightarrow> 'd stream \<Rightarrow> 'd flushed" where
  "flush_retry env st r =
     (if \<not> sv_stage_lock env r then (ESP_ERR_TIMEOUT, None, [], r)
      else if \<not> rs_retrying (sm_stage r)
      then (ESP_ERR_TIMEOUT, None, [], on_stage (\<lambda>t. t\<lparr>rs_retrying := True, rs_retry_started_ms := sm_now r\<rparr>) r)
      else if EV_MUX_QUEUE_TIMEOUT_MS \<le> sm_now r - rs_retry_started_ms (sm_stage r)
      then (ESP_ERR_TIMEOUT, stage_failure st, [], ev_mux_repl_stage_reset_locked (stage_rejected st r))
      else (ESP_ERR_TIMEOUT, None, [], r))"

definition flush_expired :: "'d stream_env \<Rightarrow> ev_mux_repl_stage \<Rightarrow> 'd stream \<Rightarrow> 'd flushed" where
  "flush_expired env st r =
     (ESP_ERR_TIMEOUT, stage_failure st, [], with_stage env ev_mux_repl_stage_reset_locked (stage_rejected st r))"

text \<open>The loop; \<open>st\<close> is the stage, which stays as it is while the producer mutex is held.\<close>

partial_function (option) flush_loop ::
  "'d stream_env \<Rightarrow> bool \<Rightarrow> u32 \<Rightarrow> ev_mux_repl_stage \<Rightarrow> 'd stream \<Rightarrow> 'd flushed option" where
  "flush_loop env wait_for_space started st r =
     (if \<not> ev_mux_repl_stage_is_current r
      then Some (ESP_ERR_INVALID_STATE, None, [],
             with_stage env (\<lambda>r. if rs_used (sm_stage r) then ev_mux_repl_mark_stale_locked r else r) r)
      else
        let r1 = sv_others env r
        in if wait_for_space \<and> EV_MUX_QUEUE_TIMEOUT_MS \<le> sm_now r1 - started then Some (flush_expired env st r1)
           else
             let (result, r2) = stage_enqueue env st r1; r3 = sv_others env r2
             in if result = ESP_OK then Some (ESP_OK, None, [st], with_stage env ev_mux_repl_stage_reset_locked r2)
                else if result \<noteq> ESP_ERR_TIMEOUT
                then Some (result, stage_failure st, [],
                       with_stage env ev_mux_repl_stage_reset_locked (on_mux ev_mux_record_tx_drop r2))
                else if \<not> wait_for_space then Some (flush_retry env st r3)
                else if EV_MUX_QUEUE_TIMEOUT_MS \<le> sm_now r3 - started then Some (flush_expired env st r3)
                else flush_loop env wait_for_space started st (sv_delay env r3))"

definition ev_mux_repl_flush_locked ::
  "'d stream_env \<Rightarrow> u32 \<Rightarrow> bool \<Rightarrow> 'd stream \<Rightarrow> 'd flushed option" where
  "ev_mux_repl_flush_locked env producer_started_ms wait_for_space r =
     (if \<not> sv_stage_lock env r then Some (ESP_ERR_TIMEOUT, None, [], on_mux ev_mux_record_tx_drop r)
      else if \<not> rs_used (sm_stage r) then Some (ESP_OK, None, [], r)
      else
        let st = sm_stage r;
            admission_started_ms = (if rs_retrying st then rs_retry_started_ms st else producer_started_ms);
            r1 = sv_others env r
        in if \<not> ev_mux_repl_stage_is_current r1
           then Some (ESP_ERR_INVALID_STATE, None, [], with_stage env ev_mux_repl_mark_stale_locked r1)
           else flush_loop env wait_for_space admission_started_ms st r1)"

definition ev_mux_repl_run_failure :: "'d stream_env \<Rightarrow> failure \<Rightarrow> 'd stream \<Rightarrow> callback list \<times> 'd stream" where
  "ev_mux_repl_run_failure env failed r =
     (case failed of None \<Rightarrow> ([], r)
      | Some (link, sid) \<Rightarrow>
          let (calls, m, w) = ev_mux_fail_session (sv_tx env r) (sm_mux r) (sm_world r) link sid False
          in (calls, r\<lparr>sm_mux := m, sm_world := w\<rparr>))"

section \<open>Writing to the stage\<close>

text \<open>How many bytes go to the stage: as many as fit, up to the end of the line.\<close>

definition stage_copy_len :: "ev_mux_repl_stage \<Rightarrow> u8 list \<Rightarrow> nat" where
  "stage_copy_len st bytes =
     (let available = EV_MUX_REPL_STAGE_BYTES - length (rs_payload st); n = min (length bytes) available;
          line = takeWhile (\<lambda>b. b \<noteq> 0x0A) (take n bytes)
      in if length line < n then length line + 1 else n)"

definition stage_append :: "nat \<Rightarrow> u8 list \<Rightarrow> 'd stream \<Rightarrow> 'd stream" where
  "stage_append n bytes r =
     on_stage (\<lambda>t. t\<lparr>rs_payload := rs_payload t @ take n bytes, rs_last_append_ms := sm_now r\<rparr>) r"

definition stage_should_flush :: "ev_mux_repl_stage \<Rightarrow> bool" where
  "stage_should_flush st \<longleftrightarrow> length (rs_payload st) = EV_MUX_REPL_STAGE_BYTES \<or> last (rs_payload st) = 0x0A"

partial_function (option) write_rounds ::
  "'d stream_env \<Rightarrow> ev_mux_stream_target \<Rightarrow> cstring \<Rightarrow> u32 \<Rightarrow> u8 list \<Rightarrow> 'd stream \<Rightarrow> 'd flushed option" where
  "write_rounds env target metadata started bytes r =
     (if bytes = [] then Some (ESP_OK, None, [], r)
      else if \<not> sv_stage_lock env r then Some (ESP_ERR_TIMEOUT, None, [], on_mux ev_mux_record_tx_drop r)
      else
        let (begun, r1) = (if rs_used (sm_stage r) then (ESP_OK, r)
                           else ev_mux_repl_stage_begin_locked target (Some metadata) r)
        in if begun \<noteq> ESP_OK then Some (begun, None, [], on_mux ev_mux_record_tx_drop r1)
           else if \<not> ev_mux_repl_target_matches (sm_stage r1) target metadata
           then Some (ESP_ERR_INVALID_STATE, None, [], r1)
           else
             let n = stage_copy_len (sm_stage r1) bytes; r2 = stage_append n bytes r1
             in if \<not> stage_should_flush (sm_stage r2)
                then write_rounds env target metadata started (drop n bytes) (sv_others env r2)
                else
                  Option.bind (ev_mux_repl_flush_locked env started True (sv_others env r2))
                    (\<lambda>(result, failed, sent, r3).
                      if result \<noteq> ESP_OK then Some (result, failed, sent, r3)
                      else
                        Option.bind (write_rounds env target metadata started (drop n bytes) (sv_others env r3))
                          (\<lambda>(result, failed, sent1, r4). Some (result, failed, sent @ sent1, r4))))"

text \<open>From the producer mutex on: a stage of another target is flushed first, a stale one is dropped.\<close>

definition write_locked ::
  "'d stream_env \<Rightarrow> ev_mux_stream_target \<Rightarrow> cstring \<Rightarrow> u32 \<Rightarrow> u8 list \<Rightarrow> 'd stream \<Rightarrow> 'd flushed option" where
  "write_locked env target metadata started bytes r =
     (if \<not> sv_stage_lock env r then Some (ESP_ERR_TIMEOUT, None, [], on_mux ev_mux_record_tx_drop r)
      else
        let st = sm_stage r; r1 = sv_others env r
        in if rs_used st \<and> \<not> ev_mux_repl_stage_is_current r1
           then write_rounds env target metadata started bytes (with_stage env ev_mux_repl_mark_stale_locked r1)
           else if rs_used st \<and> \<not> ev_mux_repl_target_matches st target metadata
           then
             Option.bind (ev_mux_repl_flush_locked env started True r1) (\<lambda>(result, failed, sent, r2).
               if result \<noteq> ESP_OK then Some (result, failed, sent, r2)
               else
                 Option.bind (write_rounds env target metadata started bytes r2)
                   (\<lambda>(result, failed, sent1, r3). Some (result, failed, sent @ sent1, r3)))
           else write_rounds env target metadata started bytes r1)"

text \<open>
  The result, the calls of completions, the stages that the queue accepted, and the state.
\<close>

definition ev_mux_write_repl_target ::
  "'d stream_env \<Rightarrow> ev_mux_stream_target option \<Rightarrow> cstring option \<Rightarrow> u8 list option \<Rightarrow> nat \<Rightarrow> 'd stream
     \<Rightarrow> (esp_err \<times> callback list \<times> ev_mux_repl_stage list \<times> 'd stream) option" where
  "ev_mux_write_repl_target env target metadata payload payload_len r =
     (case (target, metadata) of
        (Some tg, Some md) \<Rightarrow>
          if payload = None \<and> payload_len \<noteq> 0 then Some (ESP_ERR_INVALID_ARG, [], [], r)
          else if payload_len = 0 then Some (ESP_OK, [], [], r)
          else if EV_MUX_METADATA_MAX < length md then Some (ESP_ERR_INVALID_SIZE, [], [], r)
          else
            let status = fst (ev_mux_stream_metadata_bind (Some md) (Some (tg_options tg)) None)
            in if status \<noteq> ESP_OK then Some (status, [], [], on_mux ev_mux_record_tx_drop r)
               else if or_input_generation (tg_origin tg) \<noteq> 0 \<and>
                       \<not> ev_mux_output_origin_is_current (w_session (sm_world r)) (sm_now r) (Some (tg_origin tg))
               then Some (ESP_ERR_INVALID_STATE, [], [], on_mux (\<lambda>m. ev_mux_record_tx_drop (count_stale m)) r)
               else if \<not> sv_ready env r then Some (ESP_ERR_NO_MEM, [], [], r)
               else
                 let started = sm_now r; r1 = sv_others env r
                 in if \<not> sv_producer_lock env r1
                    then Some (ESP_ERR_TIMEOUT, [], [],
                           on_mux (\<lambda>m. ev_mux_record_queue_rejection m (Some (tg_options tg))) r1)
                    else
                      Option.bind (write_locked env tg md started (take payload_len (the payload)) r1)
                        (\<lambda>(result, failed, sent, r2).
                          let (calls, r3) = ev_mux_repl_run_failure env failed r2 in Some (result, calls, sent, r3))
      | _ \<Rightarrow> Some (ESP_ERR_INVALID_ARG, [], [], r))"

section \<open>The worker\<close>

definition ev_mux_repl_worker_flush ::
  "'d stream_env \<Rightarrow> 'd stream \<Rightarrow> (callback list \<times> ev_mux_repl_stage list \<times> 'd stream) option" where
  "ev_mux_repl_worker_flush env r =
     (if \<not> sv_producer_lock env r \<or> \<not> sv_stage_lock env r then Some ([], [], r)
      else
        let st = sm_stage r;
            due = (rs_used st \<and> (EV_MUX_REPL_COALESCE_MS \<le> sm_now r - rs_last_append_ms st \<or> rs_retrying st))
        in if \<not> due then Some ([], [], r)
           else
             Option.bind (ev_mux_repl_flush_locked env (sm_now r) False (sv_others env r))
               (\<lambda>(result, failed, sent, r1).
                 let (calls, r2) = ev_mux_repl_run_failure env failed r1 in Some (calls, sent, r2)))"

definition stream_turn :: "'d stream_env \<Rightarrow> nat \<Rightarrow> callback list \<times> 'd stream \<Rightarrow> callback list \<times> 'd stream" where
  "stream_turn env ti cr =
     (let (calls, r) = cr;
          (more, m, w, d) = ev_mux_process_target (sv_tx env r) ti (sm_mux r, sm_world r, sm_drivers r)
      in (calls @ more, sv_others env (r\<lparr>sm_mux := m, sm_world := w, sm_drivers := d\<rparr>)))"

definition ev_mux_tx_worker_step ::
  "'d stream_env \<Rightarrow> 'd stream \<Rightarrow> (callback list \<times> ev_mux_repl_stage list \<times> 'd stream) option" where
  "ev_mux_tx_worker_step env r =
     Option.bind (ev_mux_repl_worker_flush env r) (\<lambda>(calls, sent, r1).
       let (calls1, r2) = fold (stream_turn env) [0..<EV_MUX_TARGET_COUNT] (calls, sv_others env r1)
       in Some (calls1, sent, r2))"

definition ev_mux_cancel_vm_epoch ::
  "'d stream_env \<Rightarrow> (nat \<Rightarrow> bool) \<Rightarrow> u32 \<Rightarrow> 'd stream \<Rightarrow> callback list \<times> 'd stream" where
  "ev_mux_cancel_vm_epoch env locks vm_epoch r =
     (if vm_epoch = 0 \<or> \<not> sv_ready env r then ([], r)
      else
        let r1 = r\<lparr>sm_cancelled_epoch := vm_epoch\<rparr>;
            r2 = (if sv_producer_lock env r1
                  then with_stage env (\<lambda>r. if rs_used (sm_stage r) \<and> rs_vm_epoch (sm_stage r) = vm_epoch
                                           then ev_mux_repl_mark_stale_locked r else r) r1
                  else r1);
            r3 = sv_others env r2;
            (calls, m) = cancel_frames_everywhere (sv_special_lock env r3) locks (sm_mux r3) True vm_epoch None None
        in (calls, r3\<lparr>sm_mux := m\<rparr>))"

section \<open>Where a stream goes\<close>

definition class_options :: "nat \<Rightarrow> ev_mux_submit_options" where
  "class_options tx_class =
     \<lparr>op_link = None, op_session_id = None, op_vm_epoch = 0, op_tx_class = tx_class, op_uart_baud_control = False,
      op_completion = None, op_completion_context = None, op_completion_context_len = 0, op_vm_output_origin = None\<rparr>"

definition class_target :: "nat \<Rightarrow> ev_mux_stream_target" where
  "class_target tx_class =
     \<lparr>tg_options = class_options tx_class, tg_link = zero_link, tg_session_id = [], tg_origin = zero_origin\<rparr>"

text \<open>The sink of a stream, if it is an open serial endpoint.\<close>

definition sink_link :: "transport \<Rightarrow> cstring option \<Rightarrow> ev_link_ref option" where
  "sink_link t sink =
     (case ev_transport_id_from_name sink of None \<Rightarrow> None
      | Some i \<Rightarrow> (case ev_transport_link_ref t i EV_TRANSPORT_PHYSICAL_SLOT (Some zero_link) of
                   (True, Some l) \<Rightarrow> Some l | _ \<Rightarrow> None))"

text \<open>\<open>v\<close> is the state of the task that calls. The target, \<open>None\<close> if there is none.\<close>

definition ev_mux_stream_target ::
  "board \<Rightarrow> vm_task \<Rightarrow> u32 \<Rightarrow> world \<Rightarrow> ev_stream \<Rightarrow> nat \<Rightarrow> ev_mux_stream_target option \<times> world" where
  "ev_mux_stream_target b v now w stream tx_class =
     (if stream = EV_STREAM_MAX then (None, w)
      else
        let tg = class_target tx_class
        in case (if tx_class = EV_MUX_TX_REPL \<or> tx_class = EV_MUX_TX_PREVIEW
                 then ev_vm_output_scope_snapshot v (Some zero_origin) else (False, None)) of
             (True, Some og) \<Rightarrow>
               if or_input_generation og = 0 \<or> length (or_session_id og) \<noteq> EV_SESSION_ID_HEX_LEN \<or>
                  ev_mux_target_index (Some (or_link og)) = None
               then (None, w)
               else (Some (tg\<lparr>tg_origin := og, tg_link := or_link og, tg_session_id := or_session_id og,
                       tg_options := (tg_options tg)\<lparr>op_link := Some (or_link og),
                         op_session_id := Some (or_session_id og), op_vm_epoch := or_vm_epoch og,
                         op_vm_output_origin := Some og\<rparr>\<rparr>), w)
           | _ \<Rightarrow>
               case session_view (w_session w) now of
                 Some sn \<Rightarrow>
                   if sn_has_owner sn
                   then (Some (tg\<lparr>tg_link := sn_owner_link sn, tg_session_id := sn_session_id sn,
                           tg_options := (tg_options tg)\<lparr>op_link := Some (sn_owner_link sn),
                             op_session_id := Some (sn_session_id sn),
                             op_vm_epoch := (if tx_class = EV_MUX_TX_LOG then 0 else sn_vm_epoch sn)\<rparr>\<rparr>), w)
                   else
                     let (sink, c) = ev_channel_get b (w_channel w) stream
                     in (map_option (\<lambda>l. tg\<lparr>tg_link := l, tg_options := (tg_options tg)\<lparr>op_link := Some l\<rparr>\<rparr>)
                           (sink_link (w_transport w) (Some sink)), w\<lparr>w_channel := c\<rparr>)
               | None \<Rightarrow>
                   let (sink, c) = ev_channel_get b (w_channel w) stream
                   in (map_option (\<lambda>l. tg\<lparr>tg_link := l, tg_options := (tg_options tg)\<lparr>op_link := Some l\<rparr>\<rparr>)
                         (sink_link (w_transport w) (Some sink)), w\<lparr>w_channel := c\<rparr>))"

definition stream_target ::
  "'d stream_env \<Rightarrow> vm_task \<Rightarrow> ev_stream \<Rightarrow> nat \<Rightarrow> 'd stream \<Rightarrow> ev_mux_stream_target option \<times> 'd stream" where
  "stream_target env v stream tx_class r =
     (let (tg, w) = ev_mux_stream_target (sv_board env) v (sm_now r) (sm_world r) stream tx_class
      in (tg, r\<lparr>sm_world := w\<rparr>))"

definition stream_submit ::
  "'d stream_env \<Rightarrow> ev_mux_submit_options \<Rightarrow> cstring option \<Rightarrow> u8 list option \<Rightarrow> nat \<Rightarrow> 'd stream \<Rightarrow> esp_err \<times> 'd stream" where
  "stream_submit env options metadata payload payload_len r =
     (let (result, ticket, m) = ev_mux_submit_link (sv_ready env r) (w_transport (sm_world r)) (sv_baud env r) (sm_now r)
                                  (sv_queue_lock env r) (sm_mux r) (Some options) metadata payload payload_len None
      in (result, r\<lparr>sm_mux := m\<rparr>))"

definition ev_mux_write_class ::
  "'d stream_env \<Rightarrow> vm_task \<Rightarrow> ev_stream \<Rightarrow> nat \<Rightarrow> cstring option \<Rightarrow> u8 list option \<Rightarrow> nat \<Rightarrow> 'd stream
     \<Rightarrow> (esp_err \<times> callback list \<times> ev_mux_repl_stage list \<times> 'd stream) option" where
  "ev_mux_write_class env v stream tx_class metadata payload payload_len r =
     (case stream_target env v stream tx_class r of
        (None, r1) \<Rightarrow> Some (ESP_ERR_INVALID_STATE, [], [], r1)
      | (Some tg, r1) \<Rightarrow>
          if tx_class = EV_MUX_TX_REPL
          then ev_mux_write_repl_target env (Some tg) metadata payload payload_len r1
          else let (result, r2) = stream_submit env (tg_options tg) metadata payload payload_len r1
               in Some (result, [], [], r2))"

definition ev_mux_write ::
  "'d stream_env \<Rightarrow> vm_task \<Rightarrow> ev_stream \<Rightarrow> cstring option \<Rightarrow> u8 list option \<Rightarrow> nat \<Rightarrow> 'd stream
     \<Rightarrow> (esp_err \<times> callback list \<times> ev_mux_repl_stage list \<times> 'd stream) option" where
  "ev_mux_write env v stream metadata payload payload_len r =
     ev_mux_write_class env v stream EV_MUX_TX_CONTROL metadata payload payload_len r"

definition ev_mux_write_sink_if_present ::
  "'d stream_env \<Rightarrow> cstring option \<Rightarrow> cstring option \<Rightarrow> u8 list option \<Rightarrow> nat \<Rightarrow> 'd stream \<Rightarrow> esp_err \<times> 'd stream" where
  "ev_mux_write_sink_if_present env sink metadata payload payload_len r =
     (case sink_link (w_transport (sm_world r)) sink of
        None \<Rightarrow> (ESP_ERR_INVALID_STATE, r)
      | Some l \<Rightarrow>
          stream_submit env ((class_options EV_MUX_TX_CONTROL)\<lparr>op_link := Some l\<rparr>) metadata payload payload_len r)"

section \<open>Previews that may be lost\<close>

definition ev_mux_stream_target_congested ::
  "'d stream_env \<Rightarrow> ev_mux_stream_target option \<Rightarrow> 'd stream \<Rightarrow> bool \<times> 'd stream" where
  "ev_mux_stream_target_congested env target r =
     (case target of None \<Rightarrow> (True, r)
      | Some tg \<Rightarrow>
          case ev_mux_target_index (op_link (tg_options tg)) of None \<Rightarrow> (True, r)
          | Some ti \<Rightarrow>
              if \<not> sv_queue_lock env r then (True, r)
              else
                let q = mx_targets (sm_mux r) ! ti;
                    congested = (tq_congested q \<and> sm_now r - tq_congested_at_ms q \<le> EV_MUX_CONGESTION_COOLDOWN_MS)
                in (congested,
                    if congested then r else on_mux (set_target ti (q\<lparr>tq_congested := False\<rparr>)) r))"

definition origin_stale :: "ev_mux_stream_target \<Rightarrow> 'd stream \<Rightarrow> bool" where
  "origin_stale tg r \<longleftrightarrow>
     or_input_generation (tg_origin tg) \<noteq> 0 \<and>
     \<not> ev_mux_output_origin_is_current (w_session (sm_world r)) (sm_now r) (Some (tg_origin tg))"

text \<open>The mutex of the special frames exists when the transmitter is started.\<close>

definition ev_mux_preview_target_available ::
  "'d stream_env \<Rightarrow> ev_mux_stream_target option \<Rightarrow> 'd stream \<Rightarrow> bool \<times> 'd stream" where
  "ev_mux_preview_target_available env target r =
     (case target of None \<Rightarrow> (False, r)
      | Some tg \<Rightarrow>
          if op_session_id (tg_options tg) = None \<or> \<not> sv_ready env r \<or> origin_stale tg r \<or>
             \<not> ev_session_output_ready (w_transport (sm_world r)) (w_session (sm_world r))
                 (op_link (tg_options tg)) (op_session_id (tg_options tg))
          then (False, r)
          else
            let (congested, r1) = ev_mux_stream_target_congested env target r
            in if congested then (False, r1)
               else let r2 = sv_others env r1
                    in (sv_special_lock env r2 \<and> ev_mux_preview_slot_available_locked (sm_mux r2), r2))"

definition ev_mux_write_lossy ::
  "'d stream_env \<Rightarrow> vm_task \<Rightarrow> ev_stream \<Rightarrow> cstring option \<Rightarrow> u8 list option \<Rightarrow> nat \<Rightarrow> 'd stream \<Rightarrow> esp_err \<times> 'd stream" where
  "ev_mux_write_lossy env v stream metadata payload payload_len r =
     (case stream_target env v stream EV_MUX_TX_PREVIEW r of
        (None, r1) \<Rightarrow> (ESP_ERR_INVALID_STATE, on_mux ev_mux_record_tx_drop r1)
      | (Some tg, r1) \<Rightarrow>
          (case ev_mux_stream_metadata_bind metadata (Some (tg_options tg)) (Some []) of
             (bound, md) \<Rightarrow>
               if bound \<noteq> ESP_OK then (bound, on_mux ev_mux_record_tx_drop r1)
               else if origin_stale tg r1
               then (ESP_ERR_INVALID_STATE, on_mux (\<lambda>m. ev_mux_record_tx_drop (count_stale m)) r1)
               else
                 let (available, r2) = ev_mux_preview_target_available env (Some tg) r1
                 in if \<not> available then (ESP_ERR_TIMEOUT, on_mux ev_mux_record_tx_drop r2)
                    else
                      let r3 = sv_others env r2;
                          (result, m) = ev_mux_submit_preview_link (sv_ready env r3) (sv_malloc env r3)
                            (w_transport (sm_world r3)) (w_session (sm_world r3)) (sv_baud env r3) (sm_now r3)
                            (sv_special_lock env r3) (sm_mux r3) (Some (tg_options tg)) md payload payload_len
                      in (result, r3\<lparr>sm_mux := m\<rparr>)))"

definition ev_mux_stream_congested :: "'d stream_env \<Rightarrow> vm_task \<Rightarrow> ev_stream \<Rightarrow> 'd stream \<Rightarrow> bool \<times> 'd stream" where
  "ev_mux_stream_congested env v stream r =
     (case stream_target env v stream EV_MUX_TX_PREVIEW r of
        (None, r1) \<Rightarrow> (False, r1)
      | (Some tg, r1) \<Rightarrow>
          if origin_stale tg r1 then (True, r1) else ev_mux_stream_target_congested env (Some tg) r1)"

definition ev_mux_preview_available :: "'d stream_env \<Rightarrow> vm_task \<Rightarrow> ev_stream \<Rightarrow> 'd stream \<Rightarrow> bool \<times> 'd stream" where
  "ev_mux_preview_available env v stream r =
     (case stream_target env v stream EV_MUX_TX_PREVIEW r of
        (None, r1) \<Rightarrow> (False, r1)
      | (Some tg, r1) \<Rightarrow> ev_mux_preview_target_available env (Some tg) r1)"

section \<open>Counters\<close>

definition ev_mux_tx_timeout_count :: "mux \<Rightarrow> u32" where "ev_mux_tx_timeout_count m = mx_tx_timeout_count m"
definition ev_mux_tx_drop_count :: "mux \<Rightarrow> u32" where "ev_mux_tx_drop_count m = mx_tx_drop_count m"
definition ev_mux_tx_queue_full_count :: "mux \<Rightarrow> u32" where "ev_mux_tx_queue_full_count m = mx_tx_queue_full_count m"
definition ev_mux_tx_stale_count :: "mux \<Rightarrow> u32" where "ev_mux_tx_stale_count m = mx_tx_stale_count m"

definition ev_mux_tx_timeout_snapshot ::
  "mux \<Rightarrow> ev_mux_timeout_info option option \<Rightarrow> ev_mux_timeout_info option option" where
  "ev_mux_tx_timeout_snapshot m out = map_option (\<lambda>_. mx_last_timeout m) out"

end
