(* ===== verification/MuxBlocks.thy ===== *)
theory MuxBlocks
  imports MuxQueue "HOL-Library.Multiset"
begin

text \<open>
  The block allocator of the transmit arenas. \<open>block_pool\<close> is what the queues rely on: a pool
  hands out distinct free blocks, takes blocks back, and fails only when too few are free; inside
  the locale it is shown that the blocks in use and the free ones always partition the arena.
  The interpretation is on the 64-bit bitmap of \<open>ev_mux_allocate_blocks\<close>.
\<close>

section \<open>The interface\<close>

locale block_pool =
  fixes free :: "'p \<Rightarrow> nat set"
    and alloc :: "'p \<Rightarrow> nat \<Rightarrow> (nat list \<times> 'p) option \<times> 'p"
    and give :: "nat list \<Rightarrow> 'p \<Rightarrow> 'p"
    and universe :: "nat set"
  assumes free_universe: "free p \<subseteq> universe"
    and universe_finite: "finite universe"
    and alloc_some: "alloc p n = (Some (bs, p1), p') \<Longrightarrow>
          distinct bs \<and> length bs = n \<and> set bs \<subseteq> free p \<and> free p' = free p - set bs"
    and alloc_none: "alloc p n = (None, p') \<Longrightarrow> p' = p \<and> card (free p) < n"
    and give_free: "set bs \<subseteq> universe \<Longrightarrow> free (give bs p) = free p \<union> set bs"
begin

text \<open>\<open>owned p F\<close>: the multiset \<open>F\<close> of the blocks in use and the free blocks are a partition.\<close>

definition owned :: "'p \<Rightarrow> nat multiset \<Rightarrow> bool" where
  "owned p F \<longleftrightarrow> F = mset_set (universe - free p)"

lemma owned_universe: "owned p F \<Longrightarrow> b \<in># F \<Longrightarrow> b \<in> universe \<and> b \<notin> free p"
  using universe_finite by (simp add: owned_def)

lemma owned_size: "owned p F \<Longrightarrow> size F + card (free p) = card universe"
  using free_universe [of p] universe_finite
  by (simp add: owned_def card_Diff_subset finite_subset card_mono)

lemma owned_alloc:
  assumes "owned p F" and "alloc p n = (Some (bs, p1), p')"
  shows "owned p' (F + mset bs)"
proof -
  from alloc_some [OF assms(2)] have bs: "distinct bs" "set bs \<subseteq> free p" "free p' = free p - set bs"
    by auto
  have "universe - free p' = (universe - free p) \<union> set bs" using bs free_universe [of p] by auto
  moreover have "(universe - free p) \<inter> set bs = {}" using bs by auto
  ultimately show ?thesis using assms(1) bs(1) universe_finite
    by (simp add: owned_def mset_set_Union mset_set_set)
qed

lemma owned_part:
  assumes "owned p (F + mset bs)"
  shows "distinct bs" and "set bs \<subseteq> universe - free p"
proof -
  have fin: "finite (universe - free p)" using universe_finite by simp
  have eq: "F + mset bs = mset_set (universe - free p)" using assms by (simp add: owned_def)
  show "set bs \<subseteq> universe - free p"
  proof
    fix b assume "b \<in> set bs"
    then have "b \<in># mset_set (universe - free p)" unfolding eq [symmetric] by simp
    then show "b \<in> universe - free p" using fin by simp
  qed
  have "count (mset bs) b \<le> 1" for b
  proof -
    have "count (mset bs) b \<le> count (F + mset bs) b" by simp
    also have "\<dots> \<le> 1" unfolding eq using fin by (simp add: count_mset_set')
    finally show ?thesis .
  qed
  then have "count (mset bs) b = (if b \<in> set bs then 1 else 0)" for b
    by (metis count_greater_zero_iff count_mset_0_iff le_antisym less_one not_less set_mset_mset)
  then show "distinct bs" by (simp add: distinct_count_atmost_1)
qed

lemma owned_give:
  assumes "owned p (F + mset bs)"
  shows "owned (give bs p) F"
proof -
  have fin: "finite (universe - free p)" using universe_finite by simp
  have eq: "F + mset bs = mset_set (universe - free p)" using assms by (simp add: owned_def)
  note part = owned_part [OF assms]
  have "free (give bs p) = free p \<union> set bs" using part(2) by (intro give_free) auto
  then have "universe - free (give bs p) = (universe - free p) - set bs" by auto
  then have "mset_set (universe - free (give bs p)) = mset_set (universe - free p) - mset bs"
    using mset_set_Diff [OF fin part(2)] part(1) by (simp add: mset_set_set)
  then show ?thesis by (simp add: owned_def eq [symmetric])
qed

lemma alloc_enough: "owned p F \<Longrightarrow> size F + n \<le> card universe \<Longrightarrow> alloc p n \<noteq> (None, p')"
  using alloc_none [of p n p'] owned_size [of p F] by fastforce

end

section \<open>The bitmap\<close>

definition free_blocks :: "u64 \<Rightarrow> nat set" where
  "free_blocks bm = {b. b < EV_MUX_BLOCK_COUNT \<and> bit bm b}"

lemma block_count_64 [simp]: "EV_MUX_BLOCK_COUNT = 64"
  by (simp add: mux_consts)

lemma bit_shifted: "bit (2 ^ b :: u64) i \<longleftrightarrow> i = b \<and> b < 64"
  by (auto simp: bit_exp_iff)

lemma u64_eqI: "(\<And>i. bit (a :: u64) i = bit b i) \<Longrightarrow> a = b"
  by (simp add: bit_eq_iff)

lemma mask_test: "b < 64 \<Longrightarrow> (bm :: u64) AND push_bit b 1 \<noteq> 0 \<longleftrightarrow> bit bm b"
proof -
  assume b: "b < 64"
  have sel: "bit (bm AND push_bit b 1) i \<longleftrightarrow> bit bm i \<and> i = b" for i
    using b by (auto simp: bit_and_iff bit_shifted)
  show ?thesis
  proof
    assume ne: "bm AND push_bit b 1 \<noteq> 0"
    show "bit bm b"
    proof (rule ccontr)
      assume "\<not> bit bm b"
      then have "bm AND push_bit b 1 = 0" by (intro u64_eqI) (simp only: sel bit_0_eq bot_apply, auto)
      with ne show False ..
    qed
  next
    assume "bit bm b"
    then have "bit (bm AND push_bit b 1) b" by (simp only: sel simp_thms)
    then have "bm AND push_bit b 1 = 0 \<Longrightarrow> bit (0 :: u64) b" by (simp only: simp_thms)
    then show "bm AND push_bit b 1 \<noteq> 0" by auto
  qed
qed

lemma take_blocks_spec:
  assumes "take_blocks bs n bm = (found, bm')" and "distinct bs" and "set bs \<subseteq> {..<64}"
  shows "distinct found \<and> length found \<le> n \<and> set found \<subseteq> {b \<in> set bs. bit bm b} \<and>
    (\<forall>b. bit bm' b \<longleftrightarrow> bit bm b \<and> b \<notin> set found) \<and>
    (length found < n \<longrightarrow> set found = {b \<in> set bs. bit bm b})"
  using assms
proof (induction bs n bm arbitrary: found bm' rule: take_blocks.induct)
  case (1 n bm)
  then show ?case by auto
next
  case (2 b bs n bm)
  have b: "b < 64" using "2.prems"(3) by simp
  show ?case
  proof (cases "n = 0")
    case True
    with "2.prems"(1) show ?thesis by auto
  next
    case n: False
    show ?thesis
    proof (cases "bit bm b")
      case False
      then have test: "\<not> bm AND push_bit b 1 \<noteq> 0" using mask_test [OF b] by blast
      with "2.prems"(1) n have "take_blocks bs n bm = (found, bm')" by simp
      from "2.IH"(2) [OF n test this] "2.prems"(2,3) have IH: "distinct found \<and> length found \<le> n \<and>
          set found \<subseteq> {i \<in> set bs. bit bm i} \<and> (\<forall>i. bit bm' i \<longleftrightarrow> bit bm i \<and> i \<notin> set found) \<and>
          (length found < n \<longrightarrow> set found = {i \<in> set bs. bit bm i})" by simp
      have "{i \<in> set (b # bs). bit bm i} = {i \<in> set bs. bit bm i}" using False by auto
      with IH show ?thesis by simp
    next
      case True
      then have test: "bm AND push_bit b 1 \<noteq> 0" using mask_test [OF b] by blast
      obtain f1 m1 where rec: "take_blocks bs (n - 1) (bm AND NOT (push_bit b 1)) = (f1, m1)" by fastforce
      from "2.prems"(1) n test rec have res: "found = b # f1" "bm' = m1" by auto
      have cleared: "bit (bm AND NOT (push_bit b 1)) i \<longleftrightarrow> bit bm i \<and> i \<noteq> b" for i
        using b bit_imp_le_length [of bm i] by (auto simp: bit_and_iff bit_not_iff bit_shifted)
      have bs: "distinct bs" "set bs \<subseteq> {..<64}" "b \<notin> set bs" using "2.prems"(2,3) by auto
      have IH: "distinct f1 \<and> length f1 \<le> n - 1 \<and>
          set f1 \<subseteq> {i \<in> set bs. bit bm i \<and> i \<noteq> b} \<and>
          (\<forall>i. bit m1 i \<longleftrightarrow> (bit bm i \<and> i \<noteq> b) \<and> i \<notin> set f1) \<and>
          (length f1 < n - 1 \<longrightarrow> set f1 = {i \<in> set bs. bit bm i \<and> i \<noteq> b})"
        using "2.IH"(1) [OF n test rec bs(1,2)] unfolding cleared .
      then show ?thesis using True n bs(3) by (auto simp: res)
    qed
  qed
qed

lemma give_blocks_bit: "set bs \<subseteq> {..<64} \<Longrightarrow> bit (give_blocks bs bm) i \<longleftrightarrow> bit bm i \<or> i \<in> set bs"
  unfolding give_blocks_def
  by (induction bs arbitrary: bm) (auto simp: bit_or_iff bit_shifted)

lemma give_blocks_free:
  "set bs \<subseteq> {..<64} \<Longrightarrow> free_blocks (give_blocks bs bm) = free_blocks bm \<union> set bs"
  by (auto simp: free_blocks_def give_blocks_bit)

lemma allocate_from_some:
  assumes "allocate_from bm n = (Some (bs, m1), bm')"
  shows "distinct bs \<and> length bs = n \<and> set bs \<subseteq> free_blocks bm \<and>
    free_blocks bm' = free_blocks bm - set bs"
proof -
  obtain found m where t: "take_blocks [0..<64] n bm = (found, m)" by fastforce
  have up: "set [0..<64] \<subseteq> {..<64 :: nat}" by auto
  from take_blocks_spec [OF t distinct_upt up] have s: "distinct found" "set found \<subseteq> {b \<in> set [0..<64]. bit bm b}"
    "\<And>b. bit m b \<longleftrightarrow> bit bm b \<and> b \<notin> set found" by auto
  from assms t have "found = bs \<and> m = bm' \<and> length found = n"
    by (auto simp: allocate_from_def split: if_splits)
  with s show ?thesis by (auto simp: free_blocks_def)
qed

lemma allocate_from_none:
  assumes "allocate_from bm n = (None, bm')"
  shows "bm' = bm \<and> card (free_blocks bm) < n"
proof -
  obtain found m where t: "take_blocks [0..<64] n bm = (found, m)" by fastforce
  have up: "set [0..<64] \<subseteq> {..<64 :: nat}" by auto
  from take_blocks_spec [OF t distinct_upt up] have s: "distinct found" "length found \<le> n"
    "set found \<subseteq> {b \<in> set [0..<64]. bit bm b}" "\<And>b. bit m b \<longleftrightarrow> bit bm b \<and> b \<notin> set found"
    "length found < n \<Longrightarrow> set found = {b \<in> set [0..<64]. bit bm b}" by auto
  from assms t have r: "length found \<noteq> n" "bm' = give_blocks found m"
    by (auto simp: allocate_from_def split: if_splits)
  have sub: "set found \<subseteq> {..<64}" using s(3) by auto
  have "bm' = bm" unfolding r(2)
    by (rule u64_eqI) (use s(3,4) in \<open>auto simp: give_blocks_bit [OF sub]\<close>)
  moreover have "free_blocks bm = set found" using s(5) r(1) s(2) by (auto simp: free_blocks_def)
  then have "card (free_blocks bm) < n" using distinct_card [OF s(1)] r(1) s(2) by simp
  ultimately show ?thesis by simp
qed

interpretation bp: block_pool free_blocks allocate_from give_blocks "{..<64}"
proof
  fix bm :: u64
  show "free_blocks bm \<subseteq> {..<64}" by (auto simp: free_blocks_def)
next
  show "finite {..<64 :: nat}" by simp
next
  fix bm n bs m1 bm'
  assume "allocate_from bm n = (Some (bs, m1), bm')"
  then show "distinct bs \<and> length bs = n \<and> set bs \<subseteq> free_blocks bm \<and>
      free_blocks bm' = free_blocks bm - set bs" by (rule allocate_from_some)
next
  fix bm n bm'
  assume "allocate_from bm n = (None, bm')"
  then show "bm' = bm \<and> card (free_blocks bm) < n" by (rule allocate_from_none)
next
  fix bs :: "nat list" and bm
  assume "set bs \<subseteq> {..<64}"
  then show "free_blocks (give_blocks bs bm) = free_blocks bm \<union> set bs" by (rule give_blocks_free)
qed

end
