(* ===== verification/MuxPayload.thy ===== *)
theory MuxPayload
  imports MuxQueue
begin

text \<open>
  The payload of a frame in the blocks of its arena: what the copy loop writes and leaves alone,
  what the transmitter reads back, and the bytes that a frame has on the wire.
\<close>

section \<open>Addresses\<close>

definition payload_address :: "nat \<Rightarrow> nat list \<Rightarrow> nat \<Rightarrow> nat" where
  "payload_address base blocks k =
     base + blocks ! (k div EV_MUX_BLOCK_SIZE) * EV_MUX_BLOCK_SIZE + k mod EV_MUX_BLOCK_SIZE"

text \<open>The blocks are different and suffice for \<open>n\<close> bytes, and the arena is in the slab.\<close>

definition blocks_cover :: "nat \<Rightarrow> nat list \<Rightarrow> nat \<Rightarrow> nat \<Rightarrow> bool" where
  "blocks_cover base blocks n slab_len \<longleftrightarrow>
     distinct blocks \<and> set blocks \<subseteq> {..<64} \<and> n \<le> length blocks * 256 \<and> base + 16384 \<le> slab_len"

lemma address_bound:
  assumes "blocks_cover base blocks n len" and "k < n"
  shows "payload_address base blocks k < base + 16384" and "payload_address base blocks k < len"
    and "blocks ! (k div 256) \<in> set blocks"
proof -
  have "k div 256 < length blocks" using assms by (simp add: blocks_cover_def less_mult_imp_div_less)
  then show m: "blocks ! (k div 256) \<in> set blocks" by simp
  then have "blocks ! (k div 256) < 64" using assms(1) by (auto simp: blocks_cover_def)
  moreover have "k mod 256 < 256" by simp
  ultimately show "payload_address base blocks k < base + 16384"
    by (simp add: payload_address_def EV_MUX_BLOCK_SIZE_def)
  then show "payload_address base blocks k < len" using assms(1) by (simp add: blocks_cover_def)
qed

lemma address_block:
  "(payload_address base blocks k - base) div 256 = blocks ! (k div 256)"
  by (simp add: payload_address_def EV_MUX_BLOCK_SIZE_def)

lemma address_inj:
  assumes "blocks_cover base blocks n len" and "j < n" and "k < n"
    and eq: "payload_address base blocks j = payload_address base blocks k"
  shows "j = k"
proof -
  have jk: "j div 256 < length blocks" "k div 256 < length blocks"
    using assms(1-3) by (simp_all add: blocks_cover_def less_mult_imp_div_less)
  have "blocks ! (j div 256) = blocks ! (k div 256)"
    using address_block [of base blocks j] address_block [of base blocks k] eq by simp
  then have "j div 256 = k div 256"
    using assms(1) jk by (simp add: blocks_cover_def nth_eq_iff_index_eq)
  moreover from this have "j mod 256 = k mod 256"
    using eq by (simp add: payload_address_def EV_MUX_BLOCK_SIZE_def)
  ultimately show ?thesis by (metis div_mult_mod_eq)
qed

lemma address_run:
  assumes "i < 256 - pos mod 256"
  shows "payload_address base blocks (pos + i) = payload_address base blocks pos + i"
proof -
  have "pos mod 256 + i < 256" using assms by simp
  moreover have "pos + i = pos div 256 * 256 + (pos mod 256 + i)" by simp
  ultimately have "(pos + i) div 256 = pos div 256" "(pos + i) mod 256 = pos mod 256 + i"
    by (metis div_mult_self3 div_less add.right_neutral zero_neq_numeral,
        metis mod_mult_self3 mod_less)
  then show ?thesis by (simp add: payload_address_def EV_MUX_BLOCK_SIZE_def)
qed

section \<open>Copying in\<close>

lemma memcpy_at_nth:
  assumes "k + length src \<le> length dst"
  shows "length (memcpy_at dst k src) = length dst"
    and "a < length dst \<Longrightarrow> memcpy_at dst k src ! a =
      (if k \<le> a \<and> a < k + length src then src ! (a - k) else dst ! a)"
  using assms by (auto simp: memcpy_at_def nth_append)

text \<open>What the copy of the bytes from \<open>pos\<close> on does to the slab.\<close>

definition copied ::
  "nat \<Rightarrow> nat list \<Rightarrow> u8 list \<Rightarrow> nat \<Rightarrow> u8 list \<Rightarrow> u8 list \<Rightarrow> bool" where
  "copied base blocks bytes pos slab slab' \<longleftrightarrow>
     length slab' = length slab \<and>
     (\<forall>k. pos \<le> k \<and> k < length bytes \<longrightarrow> slab' ! payload_address base blocks k = bytes ! k) \<and>
     (\<forall>a < length slab. (\<forall>k. pos \<le> k \<and> k < length bytes \<longrightarrow> a \<noteq> payload_address base blocks k) \<longrightarrow>
       slab' ! a = slab ! a)"

lemma copy_in_loop_spec:
  "blocks_cover base blocks (length bytes) (length slab) \<Longrightarrow>
   copied base blocks bytes pos slab (copy_in_loop base blocks bytes pos slab)"
proof (induction base blocks bytes pos slab rule: copy_in_loop.induct)
  case (1 base blocks bytes pos slab)
  let ?A = "payload_address base blocks" and ?n = "length bytes"
  show ?case
  proof (cases "pos < ?n")
    case False
    then show ?thesis by (auto simp: copy_in_loop.simps [of _ _ _ pos] copied_def)
  next
    case True
    define chunk where "chunk = min (256 - pos mod 256) (?n - pos)"
    define src where "src = take chunk (drop pos bytes)"
    define mid where "mid = memcpy_at slab (?A pos) src"
    have c: "0 < chunk" "chunk \<le> 256 - pos mod 256" "pos + chunk \<le> ?n"
      using True by (auto simp: chunk_def)
    have src: "length src = chunk" "\<And>i. i < chunk \<Longrightarrow> src ! i = bytes ! (pos + i)"
      using c by (auto simp: src_def)
    have run: "i < chunk \<Longrightarrow> ?A (pos + i) = ?A pos + i" for i
      using c(2) by (intro address_run) simp
    have "?A (pos + (chunk - 1)) < length slab"
      using address_bound(2) [OF "1.prems", of "pos + (chunk - 1)"] c by simp
    then have fits: "?A pos + length src \<le> length slab" using run [of "chunk - 1"] c src(1) by simp
    have mid_len: "length mid = length slab" using memcpy_at_nth(1) [OF fits] by (simp add: mid_def)
    have mid_nth: "a < length slab \<Longrightarrow> mid ! a =
        (if ?A pos \<le> a \<and> a < ?A pos + chunk then bytes ! (pos + (a - ?A pos)) else slab ! a)" for a
    proof -
      assume a: "a < length slab"
      have "?A pos \<le> a \<and> a < ?A pos + chunk \<Longrightarrow> a - ?A pos < chunk" by linarith
      with src(2) [of "a - ?A pos"]
      have "?A pos \<le> a \<and> a < ?A pos + chunk \<Longrightarrow> src ! (a - ?A pos) = bytes ! (pos + (a - ?A pos))"
        by blast
      then show ?thesis using memcpy_at_nth(2) [OF fits a] src(1) unfolding mid_def by presburger
    qed
    have step: "copy_in_loop base blocks bytes pos slab = copy_in_loop base blocks bytes (pos + chunk) mid"
      by (subst copy_in_loop.simps)
        (simp add: True Let_def chunk_def mid_def src_def payload_address_def EV_MUX_BLOCK_SIZE_def)
    have IH: "copied base blocks bytes (pos + chunk) mid (copy_in_loop base blocks bytes (pos + chunk) mid)"
      using "1.IH" [OF True refl refl refl] "1.prems" mid_len
      by (simp add: mid_def src_def payload_address_def EV_MUX_BLOCK_SIZE_def chunk_def)
    note IH = IH [unfolded copied_def]
    show ?thesis unfolding step copied_def
    proof (intro conjI allI impI)
      show "length (copy_in_loop base blocks bytes (pos + chunk) mid) = length slab"
        using IH mid_len by simp
    next
      fix k assume k: "pos \<le> k \<and> k < ?n"
      show "copy_in_loop base blocks bytes (pos + chunk) mid ! ?A k = bytes ! k"
      proof (cases "pos + chunk \<le> k")
        case True
        with IH k show ?thesis by blast
      next
        case False
        define i where "i = k - pos"
        have i: "i < chunk" "k = pos + i" using False k by (auto simp: i_def)
        have ak: "?A k < length slab" using address_bound(2) [OF "1.prems"] k by simp
        have "\<forall>j. pos + chunk \<le> j \<and> j < ?n \<longrightarrow> ?A k \<noteq> ?A j"
          using address_inj [OF "1.prems"] k False by (metis leD le_less_linear)
        then have "copy_in_loop base blocks bytes (pos + chunk) mid ! ?A k = mid ! ?A k"
          using IH ak mid_len by simp
        also have "\<dots> = bytes ! k" using mid_nth [OF ak] run [OF i(1)] i by simp
        finally show ?thesis .
      qed
    next
      fix a assume a: "a < length slab" "\<forall>k. pos \<le> k \<and> k < ?n \<longrightarrow> a \<noteq> ?A k"
      have "\<not> (?A pos \<le> a \<and> a < ?A pos + chunk)"
      proof
        assume r: "?A pos \<le> a \<and> a < ?A pos + chunk"
        define i where "i = a - ?A pos"
        have i: "i < chunk" "a = ?A pos + i" using r by (auto simp: i_def)
        then have "a = ?A (pos + i)" using run [OF i(1)] by simp
        moreover have "pos \<le> pos + i \<and> pos + i < ?n" using i c by simp
        ultimately show False using a(2) by blast
      qed
      then have "mid ! a = slab ! a" using mid_nth [OF a(1)] by presburger
      then show "copy_in_loop base blocks bytes (pos + chunk) mid ! a = slab ! a"
        using IH a mid_len by simp
    qed
  qed
qed

section \<open>Reading back\<close>

text \<open>The payload of a frame, for a frame of the special pools from its buffer.\<close>

definition payload_of ::
  "u8 list option \<Rightarrow> u8 list \<Rightarrow> ev_mux_target_queue \<Rightarrow> ev_mux_frame \<Rightarrow> u8 list" where
  "payload_of special slab q f =
     (case special of Some buf \<Rightarrow> take (fr_payload_len f) buf
      | None \<Rightarrow> map (\<lambda>k. slab ! payload_address (the (tq_arena q)) (fr_blocks f) k)
                  [0..<fr_payload_len f])"

definition payload_ok ::
  "u8 list option \<Rightarrow> u8 list \<Rightarrow> ev_mux_target_queue \<Rightarrow> ev_mux_frame \<Rightarrow> bool" where
  "payload_ok special slab q f \<longleftrightarrow>
     (case special of Some buf \<Rightarrow> fr_payload_len f \<le> length buf
      | None \<Rightarrow> blocks_cover (the (tq_arena q)) (fr_blocks f) (fr_payload_len f) (length slab))"

lemma length_payload_of [simp]:
  "payload_ok special slab q f \<Longrightarrow> length (payload_of special slab q f) = fr_payload_len f"
  by (auto simp: payload_of_def payload_ok_def split: option.splits)

lemma payload_segment_spec:
  assumes ok: "payload_ok special slab q f" and k: "k < fr_payload_len f"
  shows "let n = snd (ev_mux_payload_pointer (special \<noteq> None) q f k)
    in 0 < n \<and> k + n \<le> fr_payload_len f \<and>
       payload_segment special slab q f k = take n (drop k (payload_of special slab q f))"
proof (cases special)
  case (Some buf)
  then show ?thesis using ok k
    by (simp add: ev_mux_payload_pointer_def payload_segment_def payload_of_def payload_ok_def Let_def
        drop_take)
next
  case None
  let ?A = "payload_address (the (tq_arena q)) (fr_blocks f)" and ?P = "payload_of None slab q f"
  define n where "n = min (fr_payload_len f - k) (256 - k mod 256)"
  have cover: "blocks_cover (the (tq_arena q)) (fr_blocks f) (fr_payload_len f) (length slab)"
    using ok None by (simp add: payload_ok_def)
  have ptr: "ev_mux_payload_pointer False q f k = (?A k, n)"
    by (simp add: ev_mux_payload_pointer_def payload_address_def EV_MUX_BLOCK_SIZE_def n_def Let_def)
  have n: "0 < n" "k + n \<le> fr_payload_len f" "n \<le> 256 - k mod 256" using k by (auto simp: n_def)
  have run: "i < n \<Longrightarrow> ?A (k + i) = ?A k + i" for i using n(3) by (intro address_run) simp
  have "?A (k + (n - 1)) < length slab" using address_bound(2) [OF cover] n by simp
  then have fits: "?A k + n \<le> length slab" using run [of "n - 1"] n(1) by simp
  have "take n (drop (?A k) slab) = take n (drop k ?P)"
  proof (rule nth_equalityI)
    show "length (take n (drop (?A k) slab)) = length (take n (drop k ?P))"
      using fits n(2) by (simp add: payload_of_def)
  next
    fix i assume "i < length (take n (drop (?A k) slab))"
    then have i: "i < n" by simp
    show "take n (drop (?A k) slab) ! i = take n (drop k ?P) ! i"
      using i n(2) fits run [OF i] by (simp add: payload_of_def)
  qed
  then show ?thesis using None n by (simp add: payload_segment_def ptr)
qed

section \<open>The checksum in steps\<close>

lemma crc_chunks_spec:
  assumes "payload_ok special slab q f" and "stop \<le> fr_payload_len f"
    and "fr_payload_crc_pos f \<le> stop"
  shows "crc_chunks special slab q stop f =
    f\<lparr>fr_payload_crc_state := foldl ev_mux_crc32_update (fr_payload_crc_state f)
        (take (stop - fr_payload_crc_pos f) (drop (fr_payload_crc_pos f) (payload_of special slab q f))),
      fr_payload_crc_pos := stop\<rparr>"
  using assms
proof (induction special slab q stop f rule: crc_chunks.induct)
  case (1 special slab q stop f)
  let ?p = "fr_payload_crc_pos f" and ?P = "payload_of special slab q f"
  show ?case
  proof (cases "?p < stop")
    case False
    then have "?p = stop" using "1.prems" by simp
    then show ?thesis by (simp add: crc_chunks.simps)
  next
    case True
    define n where "n = snd (ev_mux_payload_pointer (special \<noteq> None) q f ?p)"
    define c where "c = min (stop - ?p) n"
    have k: "?p < fr_payload_len f" using True "1.prems" by simp
    from payload_segment_spec [OF "1.prems"(1) k] have n: "0 < n" "?p + n \<le> fr_payload_len f"
      "payload_segment special slab q f ?p = take n (drop ?p ?P)" by (auto simp: n_def Let_def)
    let ?g = "f\<lparr>fr_payload_crc_state := foldl ev_mux_crc32_update (fr_payload_crc_state f)
        (take c (drop ?p ?P)), fr_payload_crc_pos := ?p + c\<rparr>"
    have c: "0 < c" "?p + c \<le> stop" "c \<le> n" using n(1) True by (auto simp: c_def)
    have data: "take c (payload_segment special slab q f ?p) = take c (drop ?p ?P)"
      using c(3) by (simp add: n(3) min_def)
    have g: "payload_ok special slab q ?g" "payload_of special slab q ?g = ?P"
      using "1.prems"(1) by (simp_all add: payload_ok_def payload_of_def split: option.splits)
    have step: "crc_chunks special slab q stop f = crc_chunks special slab q stop ?g"
      by (subst crc_chunks.simps) (use True c(1) data in \<open>simp add: Let_def c_def n_def\<close>)
    have "crc_chunks special slab q stop ?g =
      ?g\<lparr>fr_payload_crc_state := foldl ev_mux_crc32_update (fr_payload_crc_state ?g)
          (take (stop - (?p + c)) (drop (?p + c) ?P)), fr_payload_crc_pos := stop\<rparr>"
      using "1.IH" [OF True refl refl, folded n_def, folded c_def, unfolded data] c g "1.prems"
      by simp
    moreover have "take c (drop ?p ?P) @ take (stop - (?p + c)) (drop (?p + c) ?P) =
        take (stop - ?p) (drop ?p ?P)"
      using c(2) take_add [of c "stop - (?p + c)" "drop ?p ?P"] by (simp add: add.commute)
    ultimately show ?thesis unfolding step by (simp add: foldl_append [symmetric])
  qed
qed

text \<open>
  A frame on its way through the checksum. While it is not ready, its header is the one with
  checksum 0, which has the same length.
\<close>

definition crc_inv ::
  "u8 list option \<Rightarrow> u8 list \<Rightarrow> ev_mux_target_queue \<Rightarrow> ev_mux_frame \<Rightarrow> bool" where
  "crc_inv special slab q f \<longleftrightarrow>
     (let P = payload_of special slab q f; h = header_text (length (fr_metadata f)) (fr_payload_len f)
      in payload_ok special slab q f \<and> fr_payload_crc_pos f \<le> fr_payload_len f \<and>
         header_len (length (fr_metadata f)) (fr_payload_len f) < EV_MUX_HEADER_MAX \<and>
         (if fr_header_ready f then fr_header f = h (ev_mux_crc32 P)
          else fr_payload_crc_pos f < fr_payload_len f \<and> fr_header f = h 0 \<and>
               fr_payload_crc_state f =
                 foldl ev_mux_crc32_update 0xFFFFFFFF (take (fr_payload_crc_pos f) P)))"

definition same_content :: "ev_mux_frame \<Rightarrow> ev_mux_frame \<Rightarrow> bool" where
  "same_content f g \<longleftrightarrow> fr_metadata g = fr_metadata f \<and> fr_payload_len g = fr_payload_len f \<and>
     fr_blocks g = fr_blocks f \<and> fr_total_len g = fr_total_len f"

lemma same_content_payload:
  "same_content f g \<Longrightarrow> payload_of special slab q g = payload_of special slab q f \<and>
     payload_ok special slab q g = payload_ok special slab q f"
  by (simp add: same_content_def payload_of_def payload_ok_def split: option.splits)

lemma length_header_text: "length (header_text ml pl crc) = header_len ml pl"
  by (simp add: header_len_def header_text_def HEX8_def)

lemma crc_step_spec:
  assumes inv: "crc_inv special slab q f" and nr: "\<not> fr_header_ready f"
  defines "g \<equiv> snd (ev_mux_frame_crc_step special slab q f)"
  shows "crc_inv special slab q g" and "same_content f g"
    and "fr_payload_crc_pos g = min (fr_payload_crc_pos f + 512) (fr_payload_len f)"
    and "fr_header_ready g \<longleftrightarrow> fr_payload_len f \<le> fr_payload_crc_pos f + 512"
    and "fst (ev_mux_frame_crc_step special slab q f) = fr_header_ready g"
proof -
  let ?P = "payload_of special slab q f" and ?p = "fr_payload_crc_pos f"
  define stop where "stop = min (?p + 512) (fr_payload_len f)"
  have stop: "stop \<le> fr_payload_len f" "stop = fr_payload_len f \<longleftrightarrow> fr_payload_len f \<le> ?p + 512"
    "\<not> fr_payload_len f \<le> ?p + 512 \<Longrightarrow> stop < fr_payload_len f"
    by (auto simp: stop_def)
  from inv nr have f: "payload_ok special slab q f" "?p < fr_payload_len f"
      "fr_header f = header_text (length (fr_metadata f)) (fr_payload_len f) 0"
      "fr_payload_crc_state f = foldl ev_mux_crc32_update 0xFFFFFFFF (take ?p ?P)"
      "header_len (length (fr_metadata f)) (fr_payload_len f) < EV_MUX_HEADER_MAX"
    by (simp_all add: crc_inv_def Let_def)
  define f1 where "f1 = crc_chunks special slab q stop f"
  have "f1 = f\<lparr>fr_payload_crc_state := foldl ev_mux_crc32_update (fr_payload_crc_state f)
        (take (stop - ?p) (drop ?p ?P)), fr_payload_crc_pos := stop\<rparr>"
    unfolding f1_def by (rule crc_chunks_spec) (use f in \<open>auto simp: stop_def\<close>)
  moreover have "take ?p ?P @ take (stop - ?p) (drop ?p ?P) = take stop ?P"
    using f(2) take_add [of ?p "stop - ?p" ?P] by (simp add: stop_def)
  ultimately have f1: "f1 = f\<lparr>fr_payload_crc_state :=
        foldl ev_mux_crc32_update 0xFFFFFFFF (take stop ?P), fr_payload_crc_pos := stop\<rparr>"
    by (simp add: f(4) foldl_append [symmetric])
  have whole: "stop = fr_payload_len f \<Longrightarrow> NOT (fr_payload_crc_state f1) = ev_mux_crc32 ?P"
    using f(1) by (simp add: f1 ev_mux_crc32_def)
  have step: "ev_mux_frame_crc_step special slab q f =
      (let g = (if stop = fr_payload_len f
                then f1\<lparr>fr_header := header_text (length (fr_metadata f)) (fr_payload_len f)
                          (ev_mux_crc32 ?P), fr_header_ready := True\<rparr>
                else f1) in (fr_header_ready g, g))"
  proof -
    have sel: "fr_payload_crc_pos f1 = stop" "fr_payload_len f1 = fr_payload_len f"
      "fr_metadata f1 = fr_metadata f" by (simp_all add: f1)
    have "ev_mux_build_header f1 (NOT (fr_payload_crc_state f1)) =
        (True, f1\<lparr>fr_header := header_text (length (fr_metadata f)) (fr_payload_len f)
          (NOT (fr_payload_crc_state f1))\<rparr>)"
      using f(5) by (simp add: ev_mux_build_header_def length_header_text sel)
    moreover have "ev_mux_frame_crc_step special slab q f =
       (let f2 = (if fr_payload_crc_pos f1 = fr_payload_len f1
                  then let (built, g) = ev_mux_build_header f1 (NOT (fr_payload_crc_state f1))
                       in g\<lparr>fr_header_ready := built\<rparr>
                  else f1)
        in (fr_header_ready f2, f2))"
      unfolding f1_def stop_def Let_def ev_mux_frame_crc_step_def EV_MUX_CRC_CHUNK_BYTES_def
      by (simp only: nr if_False)
    ultimately show ?thesis using whole
      by (cases "stop = fr_payload_len f") (simp_all add: sel Let_def)
  qed
  have g: "g = (if stop = fr_payload_len f
                then f1\<lparr>fr_header := header_text (length (fr_metadata f)) (fr_payload_len f)
                          (ev_mux_crc32 ?P), fr_header_ready := True\<rparr>
                else f1)"
    by (simp add: g_def step Let_def)
  show sc: "same_content f g" by (simp add: g f1 same_content_def)
  show "fr_payload_crc_pos g = min (?p + 512) (fr_payload_len f)" by (simp add: g f1 stop_def)
  show "fr_header_ready g \<longleftrightarrow> fr_payload_len f \<le> ?p + 512" using nr by (simp add: g f1 stop(2) [symmetric])
  show "fst (ev_mux_frame_crc_step special slab q f) = fr_header_ready g"
    by (simp add: g step Let_def)
  show "crc_inv special slab q g"
    using f nr same_content_payload [OF sc, of special slab q] stop by (simp add: crc_inv_def Let_def g f1)
qed

definition crc_steps ::
  "u8 list option \<Rightarrow> u8 list \<Rightarrow> ev_mux_target_queue \<Rightarrow> nat \<Rightarrow> ev_mux_frame \<Rightarrow> ev_mux_frame" where
  "crc_steps special slab q n = ((\<lambda>f. snd (ev_mux_frame_crc_step special slab q f)) ^^ n)"

lemma crc_steps_spec:
  assumes "crc_inv special slab q f" and "\<not> fr_header_ready f"
  shows "let g = crc_steps special slab q n f
    in crc_inv special slab q g \<and> same_content f g \<and>
       (fr_header_ready g \<longleftrightarrow> fr_payload_len f \<le> fr_payload_crc_pos f + n * 512) \<and>
       (\<not> fr_header_ready g \<longrightarrow> fr_payload_crc_pos g = fr_payload_crc_pos f + n * 512)"
proof (induction n)
  case 0
  then show ?case using assms by (simp add: crc_steps_def same_content_def crc_inv_def Let_def)
next
  case (Suc n)
  let ?g = "crc_steps special slab q n f"
  have s: "crc_steps special slab q (Suc n) f = snd (ev_mux_frame_crc_step special slab q ?g)"
    by (simp add: crc_steps_def)
  show ?case
  proof (cases "fr_header_ready ?g")
    case True
    then show ?thesis using Suc by (auto simp: s ev_mux_frame_crc_step_def Let_def)
  next
    case False
    from crc_step_spec [OF _ this, of special slab q] Suc show ?thesis
      by (auto simp: s Let_def same_content_def False)
  qed
qed

section \<open>The bytes on the wire\<close>

definition wire_bytes ::
  "u8 list option \<Rightarrow> u8 list \<Rightarrow> ev_mux_target_queue \<Rightarrow> ev_mux_frame \<Rightarrow> u8 list" where
  "wire_bytes special slab q f =
     bytes_of (header_text (length (fr_metadata f)) (fr_payload_len f)
       (ev_mux_crc32 (payload_of special slab q f))) @
     bytes_of (fr_metadata f) @ payload_of special slab q f @ [0x1F]"

text \<open>Wherever a write ends, the next segment continues the bytes of the frame.\<close>

lemma segment_spec:
  assumes ok: "payload_ok special slab q f"
    and h: "fr_header f = header_text (length (fr_metadata f)) (fr_payload_len f)
      (ev_mux_crc32 (payload_of special slab q f))"
    and k: "k < length (wire_bytes special slab q f)"
  shows "\<exists>n>0. k + n \<le> length (wire_bytes special slab q f) \<and>
    ev_mux_frame_segment special slab q f k = take n (drop k (wire_bytes special slab q f))"
proof -
  let ?h = "fr_header f" and ?m = "fr_metadata f" and ?P = "payload_of special slab q f"
  have w: "wire_bytes special slab q f = bytes_of ?h @ bytes_of ?m @ ?P @ [0x1F]"
    by (simp add: wire_bytes_def h)
  have l: "length (bytes_of s) = length s" for s by (simp add: bytes_of_def)
  have d: "bytes_of (drop j s) = drop j (bytes_of s)" for j s by (simp add: bytes_of_def drop_map)
  have p: "length ?P = fr_payload_len f" using ok by simp
  let ?k1 = "k - length ?h" and ?k2 = "k - length ?h - length ?m"
  consider "k < length ?h" | "length ?h \<le> k" "?k1 < length ?m"
    | "length ?h \<le> k" "length ?m \<le> ?k1" "?k2 < fr_payload_len f"
    | "length ?h \<le> k" "length ?m \<le> ?k1" "?k2 = fr_payload_len f"
    using k by (fastforce simp: w l p)
  then show ?thesis
  proof cases
    case 1
    then show ?thesis
      by (intro exI [of _ "length ?h - k"]) (simp add: ev_mux_frame_segment_def w l d p)
  next
    case 2
    then show ?thesis
      by (intro exI [of _ "length ?m - ?k1"]) (simp add: ev_mux_frame_segment_def w l d p)
  next
    case 3
    from payload_segment_spec [OF ok 3(3)] 3 show ?thesis
      by (intro exI [of _ "snd (ev_mux_payload_pointer (special \<noteq> None) q f ?k2)"])
        (auto simp: ev_mux_frame_segment_def w l p Let_def)
  next
    case 4
    then show ?thesis
      by (intro exI [of _ 1]) (simp add: ev_mux_frame_segment_def w l p)
  qed
qed

end
