(* ===== verification/MuxQueueProps.thy ===== *)
theory MuxQueueProps
  imports MuxBlocks MuxPayload
begin

text \<open>
  The accounting of the transmit queues: the counters of a queue are those of its used frames,
  the blocks of the used frames and the free blocks partition the arena, and the quota of the
  TCP links counts the frames of all TCP queues. Enqueueing, finishing and cancelling preserve it.
\<close>

section \<open>Frames of a queue\<close>

definition frames_of :: "ev_mux_target_queue \<Rightarrow> ev_mux_frame multiset" where
  "frames_of q = mset (filter fr_used (tq_frames q))"

definition blocks_of :: "ev_mux_frame multiset \<Rightarrow> nat multiset" where
  "blocks_of F = (\<Sum>f\<in>#F. mset (fr_blocks f))"

definition bytes_of_frames :: "ev_mux_frame multiset \<Rightarrow> nat" where
  "bytes_of_frames F = (\<Sum>f\<in>#F. fr_total_len f)"

definition tcp_frames :: "mux \<Rightarrow> ev_mux_frame multiset" where
  "tcp_frames m = (\<Sum>i\<leftarrow>[3, 4, 5]. frames_of (mx_targets m ! i))"

definition frame_ok :: "bool \<Rightarrow> ev_mux_frame \<Rightarrow> bool" where
  "frame_ok tcp f \<longleftrightarrow>
     length (fr_blocks f) = blocks_needed (fr_payload_len f) \<and>
     fr_total_len f = encoded_length (length (fr_metadata f)) (fr_payload_len f) \<and>
     fr_tcp_quota_reserved f = tcp \<and>
     fr_tcp_discovery_reservation f = (tcp \<and> frame_discovery f) \<and>
     fr_tcp_low_reservation f = (tcp \<and> frame_low f)"

definition queue_inv :: "nat \<Rightarrow> ev_mux_target_queue \<Rightarrow> bool" where
  "queue_inv i q \<longleftrightarrow>
     length (tq_frames q) = 8 \<and>
     tq_bytes_used q = bytes_of_frames (frames_of q) \<and>
     tq_frames_used q = size (frames_of q) \<and>
     tq_bytes_used q \<le> 16384 \<and>
     tq_arena q = Some ((if i < 3 then i else 3) * 16384) \<and>
     (\<forall>f. f \<in># frames_of q \<longrightarrow> frame_ok (3 \<le> i) f) \<and>
     (i < 3 \<longrightarrow> bp.owned (tq_free_blocks q) (blocks_of (frames_of q)))"

definition tcp_inv :: "mux \<Rightarrow> bool" where
  "tcp_inv m \<longleftrightarrow>
     (let F = tcp_frames m; D = filter_mset frame_discovery F; L = filter_mset frame_low F
      in bp.owned (mx_tcp_free_blocks m) (blocks_of F) \<and>
         mx_tcp_frames_used m = size F \<and> mx_tcp_bytes_used m = bytes_of_frames F \<and>
         mx_tcp_discovery_frames_used m = size D \<and>
         mx_tcp_discovery_bytes_used m = bytes_of_frames D \<and>
         mx_tcp_low_frames_used m = size L \<and> mx_tcp_low_bytes_used m = bytes_of_frames L \<and>
         size F \<le> 8 \<and> bytes_of_frames F \<le> 16384 \<and>
         size D \<le> 6 \<and> bytes_of_frames D \<le> 12288 \<and> size L \<le> 6 \<and> bytes_of_frames L \<le> 12288)"

definition mux_inv :: "mux \<Rightarrow> bool" where
  "mux_inv m \<longleftrightarrow>
     length (mx_slab m) = 65536 \<and> mx_tcp_arena m = Some (3 * 16384) \<and>
     length (mx_targets m) = 6 \<and> (\<forall>i<6. queue_inv i (mx_targets m ! i)) \<and> tcp_inv m"

section \<open>Updating one slot\<close>

lemma frames_of_upd:
  assumes "i < length (tq_frames q)"
  shows "frames_of (q\<lparr>tq_frames := (tq_frames q)[i := f]\<rparr>) +
      (if fr_used (tq_frames q ! i) then {#tq_frames q ! i#} else {#}) =
    frames_of q + (if fr_used f then {#f#} else {#})"
proof -
  let ?fs = "tq_frames q"
  have "mset (?fs[i := f]) + {#?fs ! i#} = mset ?fs + {#f#}"
    using assms by (simp add: mset_update)
  then have "filter_mset fr_used (mset (?fs[i := f]) + {#?fs ! i#}) = filter_mset fr_used (mset ?fs + {#f#})"
    by simp
  then show ?thesis by (auto simp: frames_of_def split: if_splits)
qed

lemma frames_of_cong: "tq_frames p = tq_frames q \<Longrightarrow> frames_of p = frames_of q"
  by (simp add: frames_of_def)

lemma zero_frame_unused [simp]: "\<not> fr_used zero_frame"
  by (simp add: zero_frame_def)

lemma frames_of_fill:
  "i < length (tq_frames q) \<Longrightarrow> \<not> fr_used (tq_frames q ! i) \<Longrightarrow> fr_used f \<Longrightarrow>
   frames_of (q\<lparr>tq_frames := (tq_frames q)[i := f]\<rparr>) = frames_of q + {#f#}"
  using frames_of_upd [of i q f] by simp

lemma frames_of_clear:
  "i < length (tq_frames q) \<Longrightarrow> fr_used (tq_frames q ! i) \<Longrightarrow>
   frames_of (q\<lparr>tq_frames := (tq_frames q)[i := zero_frame]\<rparr>) + {#tq_frames q ! i#} = frames_of q"
  using frames_of_upd [of i q zero_frame] by simp

lemma frames_of_clear_unused:
  "i < length (tq_frames q) \<Longrightarrow> \<not> fr_used (tq_frames q ! i) \<Longrightarrow>
   frames_of (q\<lparr>tq_frames := (tq_frames q)[i := zero_frame]\<rparr>) = frames_of q"
  using frames_of_upd [of i q zero_frame] by simp

lemma frames_of_member: "i < length (tq_frames q) \<Longrightarrow> fr_used (tq_frames q ! i) \<Longrightarrow> tq_frames q ! i \<in># frames_of q"
  by (simp add: frames_of_def)

lemma set_target_sel [simp]:
  "mx_slab (set_target i q m) = mx_slab m" "mx_tcp_arena (set_target i q m) = mx_tcp_arena m"
  "length (mx_targets (set_target i q m)) = length (mx_targets m)"
  "mx_tickets (set_target i q m) = mx_tickets m"
  by (simp_all add: set_target_def)

lemma tcp_frames_set:
  assumes "length (mx_targets m) = 6" and "ti < 6"
  shows "tcp_frames (set_target ti q m) + (if 3 \<le> ti then frames_of (mx_targets m ! ti) else {#}) =
    tcp_frames m + (if 3 \<le> ti then frames_of q else {#})"
proof -
  from assms(2) consider "ti < 3" | "ti = 3" | "ti = 4" | "ti = 5" by linarith
  then show ?thesis using assms(1)
    by cases (auto simp: tcp_frames_def set_target_def)
qed

section \<open>A change that keeps the accounts\<close>

text \<open>Two states that agree on all that the invariant looks at.\<close>

definition same_accounts :: "mux \<Rightarrow> mux \<Rightarrow> bool" where
  "same_accounts m m' \<longleftrightarrow>
     length (mx_slab m') = length (mx_slab m) \<and> mx_tcp_arena m' = mx_tcp_arena m \<and>
     length (mx_targets m') = length (mx_targets m) \<and>
     (\<forall>i < length (mx_targets m).
        (let q = mx_targets m ! i; q' = mx_targets m' ! i
         in length (tq_frames q') = length (tq_frames q) \<and> frames_of q' = frames_of q \<and>
            tq_arena q' = tq_arena q \<and> tq_free_blocks q' = tq_free_blocks q \<and>
            tq_bytes_used q' = tq_bytes_used q \<and> tq_frames_used q' = tq_frames_used q)) \<and>
     mx_tcp_free_blocks m' = mx_tcp_free_blocks m \<and>
     mx_tcp_frames_used m' = mx_tcp_frames_used m \<and> mx_tcp_bytes_used m' = mx_tcp_bytes_used m \<and>
     mx_tcp_discovery_frames_used m' = mx_tcp_discovery_frames_used m \<and>
     mx_tcp_discovery_bytes_used m' = mx_tcp_discovery_bytes_used m \<and>
     mx_tcp_low_frames_used m' = mx_tcp_low_frames_used m \<and>
     mx_tcp_low_bytes_used m' = mx_tcp_low_bytes_used m"

lemma same_accounts_refl [simp]: "same_accounts m m"
  by (simp add: same_accounts_def)

lemma same_accounts_trans: "same_accounts a b \<Longrightarrow> same_accounts b c \<Longrightarrow> same_accounts a c"
  by (auto simp: same_accounts_def Let_def)

lemma same_accounts_inv:
  assumes "same_accounts m m'" and "mux_inv m"
  shows "mux_inv m'"
proof -
  have "tcp_frames m' = tcp_frames m"
    using assms by (simp add: same_accounts_def mux_inv_def tcp_frames_def Let_def)
  then show ?thesis
    using assms by (auto simp: same_accounts_def mux_inv_def queue_inv_def tcp_inv_def Let_def)
qed

section \<open>The steps of an enqueue\<close>

lemma length_HEX8 [simp]: "length (HEX8 w) = 8"
  by (simp add: HEX8_def)

lemma header_len_crc: "length (header_text a b crc) = header_len a b"
  by (simp add: header_len_def header_text_def)

lemma copy_options_ok:
  assumes "ev_mux_copy_options t f0 (Some options) = (True, f)"
  shows "\<not> fr_used f \<and> fr_blocks f = [] \<and> \<not> fr_tcp_quota_reserved f \<and>
    \<not> fr_tcp_discovery_reservation f \<and> \<not> fr_tcp_low_reservation f \<and>
    fr_priority f = op_tx_class options \<and> fr_link f = the (op_link options) \<and>
    op_link options \<noteq> None \<and> ev_transport_link_is_current t (op_link options) \<and>
    op_tx_class options \<le> EV_MUX_TX_PREVIEW \<and> fr_tx_offset f = 0 \<and>
    fr_session_id f = (case op_session_id options of None \<Rightarrow> [] | Some s \<Rightarrow> s) \<and>
    fr_vm_epoch f = op_vm_epoch options \<and> fr_payload_crc_pos f = 0"
  using assms
  by (auto simp: ev_mux_copy_options_def Let_def zero_frame_def
      split: if_splits option.splits prod.splits)

lemma build_header_keeps:
  "snd (ev_mux_build_header f crc) = f\<lparr>fr_header := fr_header (snd (ev_mux_build_header f crc))\<rparr>"
  by (simp add: ev_mux_build_header_def Let_def)

lemma prepare_ok:
  assumes "ev_mux_prepare_frame t baud now order f0 (Some options) metadata ml pl el ticket = (True, f, order')"
    and "ml \<le> length metadata"
  shows "\<not> fr_used f \<and> fr_blocks f = [] \<and> \<not> fr_tcp_quota_reserved f \<and>
    \<not> fr_tcp_discovery_reservation f \<and> \<not> fr_tcp_low_reservation f \<and>
    fr_priority f = op_tx_class options \<and> fr_link f = the (op_link options) \<and>
    op_link options \<noteq> None \<and> ev_transport_link_is_current t (op_link options) \<and>
    op_tx_class options \<le> EV_MUX_TX_PREVIEW \<and> fr_tx_offset f = 0 \<and>
    fr_session_id f = (case op_session_id options of None \<Rightarrow> [] | Some s \<Rightarrow> s) \<and>
    fr_vm_epoch f = op_vm_epoch options \<and> fr_payload_crc_pos f = 0 \<and>
    fr_metadata f = take ml metadata \<and> length (fr_metadata f) = ml \<and> fr_payload_len f = pl \<and>
    fr_total_len f = el \<and> ml \<le> EV_MUX_METADATA_MAX \<and> fr_payload_crc_state f = 0xFFFFFFFF \<and>
    fr_header_ready f = (pl = 0) \<and> fr_header f = header_text ml pl 0 \<and> fr_ticket f = ticket \<and>
    fr_enqueue_ms f = now \<and> \<not> fr_attempted f"
proof -
  obtain ok f1 where c: "ev_mux_copy_options t f0 (Some options) = (ok, f1)" by fastforce
  have ok: "ok = True" using assms(1) by (simp add: ev_mux_prepare_frame_def c split: if_splits)
  note c = c [unfolded ok]
  note f1 = copy_options_ok [OF c]
  have un: "fr_attempted f1 = False"
    using c by (auto simp: ev_mux_copy_options_def Let_def zero_frame_def
        split: if_splits option.splits prod.splits)
  show ?thesis using assms f1 un
    by (auto simp: ev_mux_prepare_frame_def c ev_mux_build_header_def Let_def split: if_splits)
qed

lemma allocate_fails:
  assumes "ev_mux_allocate_blocks m q f n = (False, f', q', m')"
  shows "q' = q \<and> m' = m \<and> (\<exists>bs. f' = f\<lparr>fr_blocks := bs\<rparr>)"
proof (cases "EV_MUX_BLOCK_COUNT < blocks_needed n")
  case True
  then show ?thesis using assms by (auto simp: ev_mux_allocate_blocks_def intro: exI [of _ "fr_blocks f'"])
next
  case False
  show ?thesis
  proof (cases "ev_mux_queue_is_tcp m q")
    case True
    obtain r bm where a: "allocate_from (mx_tcp_free_blocks m) (blocks_needed n) = (r, bm)" by fastforce
    then have "r = None" using assms False True
      by (auto simp: ev_mux_allocate_blocks_def Let_def split: option.splits prod.splits)
    with allocate_from_none a have "bm = mx_tcp_free_blocks m" by blast
    then show ?thesis using assms False True a \<open>r = None\<close>
      by (auto simp: ev_mux_allocate_blocks_def Let_def)
  next
    case serial: False
    obtain r bm where a: "allocate_from (tq_free_blocks q) (blocks_needed n) = (r, bm)" by fastforce
    then have "r = None" using assms False serial
      by (auto simp: ev_mux_allocate_blocks_def Let_def split: option.splits prod.splits)
    with allocate_from_none a have "bm = tq_free_blocks q" by blast
    then show ?thesis using assms False serial a \<open>r = None\<close>
      by (auto simp: ev_mux_allocate_blocks_def Let_def)
  qed
qed

lemma allocate_succeeds:
  assumes "ev_mux_allocate_blocks m q f n = (True, f', q', m')"
  shows "\<exists>bs bm x. f' = f\<lparr>fr_blocks := bs\<rparr> \<and> length bs = blocks_needed n \<and> blocks_needed n \<le> 64 \<and>
    set bs \<subseteq> {..<64} \<and> distinct bs \<and>
    (if ev_mux_queue_is_tcp m q
     then allocate_from (mx_tcp_free_blocks m) (blocks_needed n) = (Some (bs, x), bm) \<and>
          q' = q \<and> m' = m\<lparr>mx_tcp_free_blocks := bm\<rparr>
     else allocate_from (tq_free_blocks q) (blocks_needed n) = (Some (bs, x), bm) \<and>
          q' = q\<lparr>tq_free_blocks := bm\<rparr> \<and> m' = m)"
proof -
  define src where "src = (if ev_mux_queue_is_tcp m q then mx_tcp_free_blocks m else tq_free_blocks q)"
  obtain r bm where a: "allocate_from src (blocks_needed n) = (r, bm)" by fastforce
  then obtain bs x where r: "r = Some (bs, x)" and n: "blocks_needed n \<le> 64"
    using assms by (auto simp: ev_mux_allocate_blocks_def Let_def src_def
        split: option.splits prod.splits if_splits)
  have bs: "length bs = blocks_needed n" "distinct bs" "set bs \<subseteq> free_blocks src"
    using bp.alloc_some [OF a [unfolded r]] by blast+
  have le: "set bs \<subseteq> {..<64}" by (rule order_trans [OF bs(3) bp.free_universe])
  have res: "(True, f', q', m') =
      (if ev_mux_queue_is_tcp m q
       then (True, f\<lparr>fr_blocks := bs\<rparr>, q, m\<lparr>mx_tcp_free_blocks := bm\<rparr>)
       else (True, f\<lparr>fr_blocks := bs\<rparr>, q\<lparr>tq_free_blocks := bm\<rparr>, m))"
    using assms n a r by (simp add: ev_mux_allocate_blocks_def Let_def src_def split: if_splits)
  show ?thesis
  proof (cases "ev_mux_queue_is_tcp m q")
    case True
    then have eqs: "f' = f\<lparr>fr_blocks := bs\<rparr>" "q' = q" "m' = m\<lparr>mx_tcp_free_blocks := bm\<rparr>"
      using res by simp_all
    have "allocate_from (mx_tcp_free_blocks m) (blocks_needed n) = (Some (bs, x), bm)"
      using a r True by (simp add: src_def)
    then show ?thesis using True bs(1,2) le n
      by (intro exI [of _ bs] exI [of _ bm] exI [of _ x]) (simp add: eqs)
  next
    case False
    then have eqs: "f' = f\<lparr>fr_blocks := bs\<rparr>" "q' = q\<lparr>tq_free_blocks := bm\<rparr>" "m' = m"
      using res by simp_all
    have "allocate_from (tq_free_blocks q) (blocks_needed n) = (Some (bs, x), bm)"
      using a r False by (simp add: src_def)
    then show ?thesis using False bs(1,2) le n
      by (intro exI [of _ bs] exI [of _ bm] exI [of _ x]) (simp add: eqs)
  qed
qed

lemma reserve_true:
  assumes "ev_mux_tcp_reserve m f n = (True, f1, m2)"
    and "\<not> fr_tcp_discovery_reservation f" and "\<not> fr_tcp_low_reservation f"
  defines "d \<equiv> frame_discovery f" and "l \<equiv> frame_low f"
  shows "f1 = f\<lparr>fr_tcp_quota_reserved := True, fr_tcp_discovery_reservation := d,
      fr_tcp_low_reservation := l\<rparr>"
    and "m2 = m\<lparr>mx_tcp_frames_used := mx_tcp_frames_used m + 1,
        mx_tcp_bytes_used := mx_tcp_bytes_used m + n,
        mx_tcp_discovery_frames_used := mx_tcp_discovery_frames_used m + (if d then 1 else 0),
        mx_tcp_discovery_bytes_used := mx_tcp_discovery_bytes_used m + (if d then n else 0),
        mx_tcp_low_frames_used := mx_tcp_low_frames_used m + (if l then 1 else 0),
        mx_tcp_low_bytes_used := mx_tcp_low_bytes_used m + (if l then n else 0)\<rparr>"
    and "mx_tcp_frames_used m < 8" and "mx_tcp_bytes_used m + n \<le> 16384"
    and "d \<Longrightarrow> mx_tcp_discovery_frames_used m < 6 \<and> mx_tcp_discovery_bytes_used m + n \<le> 12288"
    and "l \<Longrightarrow> mx_tcp_low_frames_used m < 6 \<and> mx_tcp_low_bytes_used m + n \<le> 12288"
  using assms(1-3) unfolding d_def l_def ev_mux_tcp_reserve_def Let_def
  by (simp_all add: mux_consts split: if_split_asm)

lemma reserve_release:
  assumes r: "ev_mux_tcp_reserve m f n = (True, f1, m2)" and "fr_total_len f = n"
    and u: "\<not> fr_tcp_discovery_reservation f" "\<not> fr_tcp_low_reservation f"
  shows "snd (ev_mux_tcp_release_reservation m2 (f1\<lparr>fr_blocks := bs\<rparr>)) = m"
  unfolding reserve_true(1,2) [OF r u] ev_mux_tcp_release_reservation_def Let_def
  using assms(2) by simp

lemma reserve_fails: "ev_mux_tcp_reserve m f n = (False, f1, m2) \<Longrightarrow> f1 = f \<and> m2 = m"
  unfolding ev_mux_tcp_reserve_def Let_def by (simp split: if_split_asm)

lemma rejected_accounts: "same_accounts m (rejected r m options)"
  by (auto simp: rejected_def ev_mux_record_queue_rejection_def same_accounts_def Let_def
      split: option.split)

lemma rejected_sel [simp]:
  "mx_targets (rejected r m options) = mx_targets m" "mx_slab (rejected r m options) = mx_slab m"
  by (auto simp: rejected_def ev_mux_record_queue_rejection_def Let_def split: option.split)

lemma free_slot_spec: "free_slot_from is fs = Some i \<Longrightarrow> i \<in> set is \<and> \<not> fr_used (fs ! i)"
  by (induction "is" fs rule: free_slot_from.induct) (auto split: if_splits)

lemma free_slot_none: "free_slot_from is fs = None \<Longrightarrow> \<forall>i \<in> set is. fr_used (fs ! i)"
  by (induction "is" fs rule: free_slot_from.induct) (auto split: if_splits)

lemma frame_slot: "ev_mux_free_frame_slot q = Some i \<Longrightarrow> i < 8 \<and> \<not> fr_used (tq_frames q ! i)"
  unfolding ev_mux_free_frame_slot_def by (drule free_slot_spec) (simp add: EV_MUX_QUEUE_FRAMES_def)

lemma cleared_accounts:
  assumes "ti < length (mx_targets m)" and "i < length (tq_frames (mx_targets m ! ti))"
    and "\<not> fr_used (tq_frames (mx_targets m ! ti) ! i)"
  shows "same_accounts m (set_target ti
    ((mx_targets m ! ti)\<lparr>tq_frames := (tq_frames (mx_targets m ! ti))[i := zero_frame]\<rparr>) m)"
  using assms frames_of_clear_unused [OF assms(2,3)]
  by (auto simp: same_accounts_def set_target_def Let_def nth_list_update)

lemma target_index_bound: "ev_mux_target_index l = Some ti \<Longrightarrow> ti < 6"
proof -
  assume a: "ev_mux_target_index l = Some ti"
  have "unat s < 3" if "\<not> (3 :: u8) \<le> s" for s
    using that by (simp add: word_le_nat_alt)
  then show ?thesis using a
    by (auto simp: ev_mux_target_index_def EV_MUX_SERIAL_TARGETS_def split: option.splits if_splits)
qed

text \<open>The rest of an enqueue, after the frame is prepared.\<close>

definition accepted_state ::
  "nat \<Rightarrow> nat \<Rightarrow> ev_mux_target_queue \<Rightarrow> ev_mux_frame \<Rightarrow> u8 list \<Rightarrow> nat \<Rightarrow> mux \<Rightarrow> mux" where
  "accepted_state ti i q f payload encoded_len m =
     set_target ti
       (q\<lparr>tq_frames := (tq_frames q)[i := f], tq_bytes_used := tq_bytes_used q + encoded_len,
          tq_frames_used := tq_frames_used q + 1\<rparr>)
       (m\<lparr>mx_slab := (if payload = [] then mx_slab m
                     else ev_mux_arena_copy_in q f payload (mx_slab m))\<rparr>)"

lemma enqueue_cases:
  assumes run: "ev_mux_enqueue_normal t baud now locked m options metadata ml payload ticket rr = (res, m')"
    and inv: "mux_inv m" and ml: "ml \<le> length metadata"
  obtains (failed) "res \<noteq> ESP_OK" "same_accounts m m'" "mx_slab m' = mx_slab m"
      "mx_tickets m' = mx_tickets m"
  | (accepted) ti i f0 order f1 m2 f2 q2 m3 where
      "res = ESP_OK" "ev_mux_target_index (op_link options) = Some ti"
      "encoded_length ml (length payload) \<le> 16384"
      "queue_admits (mx_targets m ! ti) (op_tx_class options)
         (encoded_length ml (length payload))"
      "ev_mux_free_frame_slot (mx_targets m ! ti) = Some i"
      "ev_mux_prepare_frame t baud now (mx_tx_enqueue_order m) (tq_frames (mx_targets m ! ti) ! i)
         (Some options) metadata ml (length payload)
         (encoded_length ml (length payload)) ticket = (True, f0, order)"
      "(if ev_mux_queue_is_tcp m (mx_targets m ! ti)
        then ev_mux_tcp_reserve (m\<lparr>mx_tx_enqueue_order := order\<rparr>) f0
               (encoded_length ml (length payload))
        else (True, f0, m\<lparr>mx_tx_enqueue_order := order\<rparr>)) = (True, f1, m2)"
      "ev_mux_allocate_blocks m2 (mx_targets m ! ti) f1 (length payload) = (True, f2, q2, m3)"
      "m' = accepted_state ti i q2
         (f2\<lparr>fr_frame_timeout_ms := ev_mux_frame_timeout baud (the (op_link options))
            (encoded_length ml (length payload)), fr_used := True\<rparr>)
         payload (encoded_length ml (length payload)) m3"
proof -
  let ?el = "encoded_length ml (length payload)"
  let ?to = "ev_mux_frame_timeout baud (the (op_link options)) ?el"
  consider (refused) "res \<noteq> ESP_OK" "m' = m \<or> m' = rejected rr m options"
    | (slot) ti i where "ev_mux_target_index (op_link options) = Some ti" "?el \<le> 16384"
        "queue_admits (mx_targets m ! ti) (op_tx_class options) ?el"
        "ev_mux_free_frame_slot (mx_targets m ! ti) = Some i"
        "(res, m') = enqueue_frame t baud now m options metadata ml payload ticket rr ti i ?el ?to"
    using run
    by (auto simp: ev_mux_enqueue_normal_def Let_def EV_MUX_QUEUE_BYTES_def
        split: option.splits if_split_asm)
  then show ?thesis
  proof cases
    case refused
    then show ?thesis using failed rejected_accounts [of m rr options]
      by (auto simp: rejected_def ev_mux_record_queue_rejection_def Let_def split: if_splits)
  next
    case slot
    let ?q = "mx_targets m ! ti"
    have ti: "ti < 6" by (rule target_index_bound [OF slot(1)])
    have i: "i < 8" "\<not> fr_used (tq_frames ?q ! i)" using frame_slot [OF slot(4)] by auto
    have q: "queue_inv ti ?q" "ti < length (mx_targets m)" using inv ti by (simp_all add: mux_inv_def)
    have iq: "i < length (tq_frames ?q)" using q(1) i(1) by (simp add: queue_inv_def)
    obtain prepared f0 order where p: "ev_mux_prepare_frame t baud now (mx_tx_enqueue_order m)
        (tq_frames ?q ! i) (Some options) metadata ml (length payload) ?el ticket = (prepared, f0, order)"
      using prod_cases3 by blast
    let ?m1 = "m\<lparr>mx_tx_enqueue_order := order\<rparr>"
    let ?c = "?q\<lparr>tq_frames := (tq_frames ?q)[i := zero_frame]\<rparr>"
    have clr: "same_accounts m (set_target ti ?c m'')"
      if "same_accounts m m''" "mx_targets m'' = mx_targets m" for m''
    proof -
      have "same_accounts m'' (set_target ti ?c m'')"
        using cleared_accounts [of ti m'' i] q(2) iq i(2) that(2) by simp
      with that(1) show ?thesis by (rule same_accounts_trans)
    qed
    have m1: "same_accounts m ?m1" by (simp add: same_accounts_def Let_def)
    have tcp: "ev_mux_queue_is_tcp ?m1 ?q = ev_mux_queue_is_tcp m ?q"
      by (simp add: ev_mux_queue_is_tcp_def)
    obtain reserved f1 m2 where r: "(if ev_mux_queue_is_tcp m ?q then ev_mux_tcp_reserve ?m1 f0 ?el
        else (True, f0, ?m1)) = (reserved, f1, m2)" using prod_cases3 by blast
    obtain allocated f2 q2 m3 where a: "ev_mux_allocate_blocks m2 ?q f1 (length payload) =
        (allocated, f2, q2, m3)" using prod_cases4 by blast
    have run': "(res, m') =
        (if \<not> prepared then (ESP_ERR_INVALID_ARG, set_target ti ?c ?m1)
         else if \<not> reserved then (ESP_ERR_TIMEOUT, set_target ti ?c (rejected rr m2 options))
         else if \<not> allocated
         then (ESP_ERR_NO_MEM, set_target ti (q2\<lparr>tq_frames := (tq_frames q2)[i := zero_frame]\<rparr>)
                 (snd (ev_mux_tcp_release_reservation m3 f2)))
         else (ESP_OK, accepted_state ti i q2 (f2\<lparr>fr_frame_timeout_ms := ?to, fr_used := True\<rparr>)
                 payload ?el m3))"
      using slot(5) by (simp add: enqueue_frame_def p tcp r a accepted_state_def Let_def)
    show ?thesis
    proof (cases "prepared \<and> reserved \<and> allocated")
      case True
      then have "prepared = True" "reserved = True" "allocated = True" by auto
      note eqs = this
      have "res = ESP_OK" "m' = accepted_state ti i q2 (f2\<lparr>fr_frame_timeout_ms := ?to, fr_used := True\<rparr>)
          payload ?el m3" using run' eqs by simp_all
      then show ?thesis using accepted slot(1-4) p r a unfolding eqs by blast
    next
      case False
      have "res \<noteq> ESP_OK \<and> same_accounts m m' \<and> mx_slab m' = mx_slab m \<and> mx_tickets m' = mx_tickets m"
      proof (cases "prepared \<and> reserved")
        case False
        show ?thesis
        proof (cases prepared)
          case True
          with False have nr: "reserved = False" by simp
          have "m2 = ?m1" using r reserve_fails [of ?m1 f0 ?el f1 m2] unfolding nr by (auto split: if_splits)
          moreover have "same_accounts m (set_target ti ?c (rejected rr ?m1 options))"
            by (rule clr) (auto intro: same_accounts_trans [OF m1] rejected_accounts)
          ultimately show ?thesis using run' True nr
            by (auto simp: rejected_def ev_mux_record_queue_rejection_def Let_def split: option.split)
        next
          case False
          then show ?thesis using run' clr [OF m1] by simp
        qed
      next
        case True
        then have ok: "prepared = True" "reserved = True" "allocated = False" using False by auto
        note p = p [unfolded ok] and r = r [unfolded ok] and a = a [unfolded ok]
        note f0 = prepare_ok [OF p ml]
        obtain bs where m3: "q2 = ?q" "m3 = m2" "f2 = f1\<lparr>fr_blocks := bs\<rparr>"
          using allocate_fails [OF a] by blast
        have "snd (ev_mux_tcp_release_reservation m3 f2) = ?m1"
        proof (cases "ev_mux_queue_is_tcp m ?q")
          case True
          with r have "ev_mux_tcp_reserve ?m1 f0 ?el = (True, f1, m2)" by simp
          from reserve_release [OF this, of bs] show ?thesis using f0 m3 by simp
        next
          case False
          with r have "f1 = f0" "m2 = ?m1" by auto
          then show ?thesis using f0 m3 by (simp add: ev_mux_tcp_release_reservation_def)
        qed
        then show ?thesis using run' ok clr [OF m1] m3 by simp
      qed
      then show ?thesis using failed by blast
    qed
  qed
qed

section \<open>An accepted frame\<close>

lemma frame_sums [simp]:
  "blocks_of (F + G) = blocks_of F + blocks_of G" "blocks_of {#f#} = mset (fr_blocks f)"
  "blocks_of {#} = {#}" "blocks_of (add_mset f F) = mset (fr_blocks f) + blocks_of F"
  "bytes_of_frames (F + G) = bytes_of_frames F + bytes_of_frames G"
  "bytes_of_frames {#f#} = fr_total_len f" "bytes_of_frames {#} = 0"
  "bytes_of_frames (add_mset f F) = fr_total_len f + bytes_of_frames F"
  by (simp_all add: blocks_of_def bytes_of_frames_def)

lemma queue_tcp_iff:
  "mux_inv m \<Longrightarrow> ti < 6 \<Longrightarrow> ev_mux_queue_is_tcp m (mx_targets m ! ti) \<longleftrightarrow> 3 \<le> ti"
  by (auto simp: mux_inv_def queue_inv_def ev_mux_queue_is_tcp_def)

lemma reserved_frame:
  assumes "(if tcp then ev_mux_tcp_reserve m f n else (True, f, m)) = (True, f1, m2)"
    and "\<not> fr_tcp_quota_reserved f" "\<not> fr_tcp_discovery_reservation f" "\<not> fr_tcp_low_reservation f"
  shows "f1 = f\<lparr>fr_tcp_quota_reserved := tcp, fr_tcp_discovery_reservation := tcp \<and> frame_discovery f,
      fr_tcp_low_reservation := tcp \<and> frame_low f\<rparr>"
proof (cases tcp)
  case True
  with assms(1) have "ev_mux_tcp_reserve m f n = (True, f1, m2)" by simp
  from reserve_true(1) [OF this assms(3,4)] show ?thesis using True by simp
next
  case False
  then show ?thesis using assms by (intro ev_mux_frame.equality) auto
qed

text \<open>What the accepted frame is.\<close>

lemma accepted_frame:
  assumes p: "ev_mux_prepare_frame t baud now order0 old (Some options) metadata ml pl el ticket = (True, f0, order)"
    and ml: "ml \<le> length metadata"
    and r: "(if tcp then ev_mux_tcp_reserve m1 f0 el else (True, f0, m1)) = (True, f1, m2)"
    and a: "f2 = f1\<lparr>fr_blocks := bs\<rparr>" "length bs = blocks_needed pl" and el: "el = encoded_length ml pl"
    and F_def: "F = f2\<lparr>fr_frame_timeout_ms := timeout, fr_used := True\<rparr>"
  shows "fr_used F \<and> frame_ok tcp F \<and> fr_blocks F = bs \<and> fr_payload_len F = pl \<and>
    fr_metadata F = take ml metadata \<and> fr_total_len F = el \<and> fr_tx_offset F = 0 \<and>
    frame_discovery F = frame_discovery f0 \<and> frame_low F = frame_low f0 \<and>
    fr_link F = the (op_link options) \<and> fr_priority F = op_tx_class options \<and>
    fr_payload_crc_pos F = 0 \<and> fr_payload_crc_state F = 0xFFFFFFFF \<and> fr_ticket F = ticket \<and>
    fr_header_ready F = (pl = 0) \<and> fr_header F = header_text ml pl 0 \<and> \<not> fr_attempted F"
proof -
  note f0 = prepare_ok [OF p ml]
  have f1: "f1 = f0\<lparr>fr_tcp_quota_reserved := tcp, fr_tcp_discovery_reservation := tcp \<and> frame_discovery f0,
      fr_tcp_low_reservation := tcp \<and> frame_low f0\<rparr>"
    by (rule reserved_frame [OF r]) (use f0 in auto)
  show ?thesis using f0 a(2) ml
    by (simp add: F_def a(1) f1 frame_ok_def frame_discovery_def frame_low_def el)
qed

lemma accepted_slab_length:
  assumes "blocks_cover (the (tq_arena q)) (fr_blocks F) (length payload) (length (mx_slab m))"
  shows "length (mx_slab (accepted_state ti i q F payload el m)) = length (mx_slab m)"
  using copy_in_loop_spec [OF assms, of 0]
  by (simp add: accepted_state_def ev_mux_arena_copy_in_def copied_def)

lemma blocks_suffice: "pl \<le> blocks_needed pl * 256"
  unfolding blocks_needed_def EV_MUX_BLOCK_SIZE_def by simp

lemma admits_bytes: "queue_admits q c n \<Longrightarrow> tq_bytes_used q + n \<le> 16384"
  by (auto simp: queue_admits_def mux_consts split: if_splits)

lemma accepted_inv:
  assumes inv: "mux_inv m" and ti: "ti < 6" and i: "i < 8" "\<not> fr_used (tq_frames (mx_targets m ! ti) ! i)"
    and adm: "queue_admits (mx_targets m ! ti) c el"
    and r: "(if ev_mux_queue_is_tcp m (mx_targets m ! ti)
             then ev_mux_tcp_reserve (m\<lparr>mx_tx_enqueue_order := order\<rparr>) f0 el
             else (True, f0, m\<lparr>mx_tx_enqueue_order := order\<rparr>)) = (True, f1, m2)"
    and f0: "\<not> fr_tcp_discovery_reservation f0" "\<not> fr_tcp_low_reservation f0"
    and a: "ev_mux_allocate_blocks m2 (mx_targets m ! ti) f1 (length payload) = (True, f2, q2, m3)"
    and F: "fr_used F" "frame_ok (3 \<le> ti) F" "fr_blocks F = fr_blocks f2" "fr_total_len F = el"
      "frame_discovery F = frame_discovery f0" "frame_low F = frame_low f0"
      "fr_payload_len F = length payload"
  shows "mux_inv (accepted_state ti i q2 F payload el m3)"
proof -
  let ?q = "mx_targets m ! ti" and ?m' = "accepted_state ti i q2 F payload el m3"
  have q: "queue_inv ti ?q" and len: "length (mx_targets m) = 6" using inv ti by (auto simp: mux_inv_def)
  have tcp: "ev_mux_queue_is_tcp m ?q \<longleftrightarrow> 3 \<le> ti" by (rule queue_tcp_iff [OF inv ti])
  have i': "i < length (tq_frames ?q)" using q i(1) by (simp add: queue_inv_def)
  have m2: "mx_targets m2 = mx_targets m" "mx_slab m2 = mx_slab m" "mx_tcp_arena m2 = mx_tcp_arena m"
    "mx_tcp_free_blocks m2 = mx_tcp_free_blocks m"
    using r reserve_true(2) [of "m\<lparr>mx_tx_enqueue_order := order\<rparr>" f0 el f1 m2] f0 by (auto split: if_splits)
  have tcp2: "ev_mux_queue_is_tcp m2 ?q \<longleftrightarrow> 3 \<le> ti" using tcp m2(3) by (simp add: ev_mux_queue_is_tcp_def)
  obtain bs bm x where bs: "f2 = f1\<lparr>fr_blocks := bs\<rparr>" "length bs = blocks_needed (length payload)"
      "set bs \<subseteq> {..<64}" "distinct bs"
    and al: "if 3 \<le> ti
       then allocate_from (mx_tcp_free_blocks m) (blocks_needed (length payload)) = (Some (bs, x), bm) \<and>
            q2 = ?q \<and> m3 = m2\<lparr>mx_tcp_free_blocks := bm\<rparr>
       else allocate_from (tq_free_blocks ?q) (blocks_needed (length payload)) = (Some (bs, x), bm) \<and>
            q2 = ?q\<lparr>tq_free_blocks := bm\<rparr> \<and> m3 = m2"
    using allocate_succeeds [OF a] unfolding tcp2 m2(4) by blast
  have fb: "fr_blocks F = bs" using F(3) bs(1) by simp
  have q2: "tq_frames q2 = tq_frames ?q" "tq_bytes_used q2 = tq_bytes_used ?q"
    "tq_frames_used q2 = tq_frames_used ?q" "tq_arena q2 = tq_arena ?q"
    using al by (auto split: if_splits)
  have m3: "mx_targets m3 = mx_targets m" "mx_slab m3 = mx_slab m" "mx_tcp_arena m3 = mx_tcp_arena m"
    using al m2 by (auto split: if_splits)
  have cover: "blocks_cover (the (tq_arena q2)) (fr_blocks F) (length payload) (length (mx_slab m3))"
    using bs(2-4) blocks_suffice [of "length payload"] q inv
    by (auto simp: blocks_cover_def fb q2 m3 queue_inv_def mux_inv_def)
  define Q where "Q = q2\<lparr>tq_frames := (tq_frames q2)[i := F], tq_bytes_used := tq_bytes_used q2 + el,
      tq_frames_used := tq_frames_used q2 + 1\<rparr>"
  have fQ: "frames_of Q = frames_of ?q + {#F#}"
    using frames_of_fill [OF i' i(2) F(1)] frames_of_cong [of Q "?q\<lparr>tq_frames := (tq_frames ?q)[i := F]\<rparr>"]
    by (simp add: Q_def q2)
  have tg: "mx_targets ?m' = (mx_targets m)[ti := Q]" by (simp add: accepted_state_def set_target_def Q_def m3)
  have qQ: "queue_inv ti Q"
  proof -
    have "bp.owned (tq_free_blocks Q) (blocks_of (frames_of Q))" if "ti < 3"
    proof -
      have "bp.owned (tq_free_blocks ?q) (blocks_of (frames_of ?q))" using q that by (simp add: queue_inv_def)
      moreover have "allocate_from (tq_free_blocks ?q) (blocks_needed (length payload)) = (Some (bs, x), bm)"
        "tq_free_blocks Q = bm" using al that by (simp_all add: Q_def)
      ultimately show ?thesis
        using bp.owned_alloc [of "tq_free_blocks ?q" "blocks_of (frames_of ?q)"
            "blocks_needed (length payload)" bs x bm]
        by (simp add: fQ fb add.commute)
    qed
    then show ?thesis using q F(2,4) admits_bytes [OF adm]
      by (auto simp: queue_inv_def fQ) (auto simp: Q_def q2)
  qed
  have tf: "tcp_frames ?m' = tcp_frames m + (if 3 \<le> ti then {#F#} else {#})"
  proof -
    have "tcp_frames ?m' = tcp_frames (set_target ti Q m)"
      by (simp add: tcp_frames_def tg) (simp add: set_target_def)
    then show ?thesis using tcp_frames_set [OF len ti, of Q] by (auto simp: fQ split: if_splits)
  qed
  have "tcp_inv ?m'"
  proof (cases "3 \<le> ti")
    case False
    then have "m3 = m\<lparr>mx_tx_enqueue_order := order\<rparr>" using al r tcp by auto
    then show ?thesis using inv tf False
      by (simp add: mux_inv_def tcp_inv_def accepted_state_def set_target_def)
  next
    case True
    with r tcp have r1: "ev_mux_tcp_reserve (m\<lparr>mx_tx_enqueue_order := order\<rparr>) f0 el = (True, f1, m2)"
      by simp
    note R = reserve_true [OF r1 f0]
    have own: "bp.owned bm (blocks_of (tcp_frames m) + mset bs)"
      using bp.owned_alloc [of "mx_tcp_free_blocks m" "blocks_of (tcp_frames m)"] al True inv
      by (auto simp: mux_inv_def tcp_inv_def Let_def)
    have m3: "m3 = m2\<lparr>mx_tcp_free_blocks := bm\<rparr>" using al True by simp
    have sel: "mx_tcp_free_blocks ?m' = bm" "mx_tcp_frames_used ?m' = mx_tcp_frames_used m + 1"
      "mx_tcp_bytes_used ?m' = mx_tcp_bytes_used m + el"
      "mx_tcp_discovery_frames_used ?m' =
         mx_tcp_discovery_frames_used m + (if frame_discovery f0 then 1 else 0)"
      "mx_tcp_discovery_bytes_used ?m' =
         mx_tcp_discovery_bytes_used m + (if frame_discovery f0 then el else 0)"
      "mx_tcp_low_frames_used ?m' = mx_tcp_low_frames_used m + (if frame_low f0 then 1 else 0)"
      "mx_tcp_low_bytes_used ?m' = mx_tcp_low_bytes_used m + (if frame_low f0 then el else 0)"
      by (simp_all add: accepted_state_def set_target_def m3 R(2))
    have old: "tcp_inv m" using inv by (simp add: mux_inv_def)
    have tf: "tcp_frames ?m' = add_mset F (tcp_frames m)" using tf True by simp
    have Fd: "filter_mset p (tcp_frames ?m') = (if p F then add_mset F (filter_mset p (tcp_frames m))
        else filter_mset p (tcp_frames m))" for p by (simp add: tf)
    have own': "bp.owned bm (blocks_of (tcp_frames ?m'))" using own by (simp add: tf fb add.commute)
    show ?thesis unfolding tcp_inv_def Let_def sel Fd
      using old own' R(3-6) F(4-6) by (auto simp: tcp_inv_def Let_def tf)
  qed
  moreover have "length (mx_slab ?m') = 65536" "mx_tcp_arena ?m' = Some (3 * 16384)"
    using accepted_slab_length [OF cover] inv m3 by (simp_all add: mux_inv_def accepted_state_def)
  moreover have "\<forall>j<6. queue_inv j (mx_targets ?m' ! j)"
    using inv qQ ti by (auto simp: tg mux_inv_def nth_list_update)
  ultimately show ?thesis using len by (simp add: mux_inv_def tg)
qed

section \<open>The blocks of the used frames\<close>

lemma owned_frame:
  assumes "bp.owned p (blocks_of F)" and "f \<in># F"
  shows "distinct (fr_blocks f)" and "set (fr_blocks f) \<subseteq> {..<64}" and "set (fr_blocks f) \<inter> free_blocks p = {}"
proof -
  obtain G where "F = add_mset f G" using assms(2) by (metis mset_add)
  then have "bp.owned p (blocks_of G + mset (fr_blocks f))" using assms(1) by (simp add: add.commute)
  from bp.owned_part [OF this] show "distinct (fr_blocks f)" "set (fr_blocks f) \<subseteq> {..<64}"
    "set (fr_blocks f) \<inter> free_blocks p = {}" by auto
qed

text \<open>The bitmap of the arena of queue \<open>j\<close>.\<close>

definition bitmap_of :: "mux \<Rightarrow> nat \<Rightarrow> u64" where
  "bitmap_of m j = (if j < 3 then tq_free_blocks (mx_targets m ! j) else mx_tcp_free_blocks m)"

definition arena_of :: "nat \<Rightarrow> nat" where
  "arena_of j = (if j < 3 then j else 3) * 16384"

lemma tcp_member: "3 \<le> j \<Longrightarrow> j < 6 \<Longrightarrow> f \<in># frames_of (mx_targets m ! j) \<Longrightarrow> f \<in># tcp_frames m"
proof -
  assume a: "3 \<le> j" "j < 6" "f \<in># frames_of (mx_targets m ! j)"
  from a(1,2) consider "j = 3" | "j = 4" | "j = 5" by linarith
  then show ?thesis using a(3) by cases (auto simp: tcp_frames_def)
qed

lemma used_frame_blocks:
  assumes inv: "mux_inv m" and j: "j < 6" and f: "f \<in># frames_of (mx_targets m ! j)"
  shows "blocks_cover (arena_of j) (fr_blocks f) (fr_payload_len f) (length (mx_slab m))"
    and "set (fr_blocks f) \<inter> free_blocks (bitmap_of m j) = {}"
    and "the (tq_arena (mx_targets m ! j)) = arena_of j"
    and "payload_ok None (mx_slab m) (mx_targets m ! j) f"
proof -
  have q: "queue_inv j (mx_targets m ! j)" using inv j by (simp add: mux_inv_def)
  obtain G where G: "bp.owned (bitmap_of m j) (blocks_of G)" "f \<in># G"
  proof (cases "j < 3")
    case True
    then show thesis using that [of "frames_of (mx_targets m ! j)"] q f
      by (simp add: queue_inv_def bitmap_of_def)
  next
    case False
    then show thesis using that [of "tcp_frames m"] tcp_member [of j f m] j f inv
      by (simp add: mux_inv_def tcp_inv_def bitmap_of_def Let_def)
  qed
  note o = owned_frame [OF G]
  show "set (fr_blocks f) \<inter> free_blocks (bitmap_of m j) = {}" by (rule o(3))
  show ar: "the (tq_arena (mx_targets m ! j)) = arena_of j" using q by (simp add: queue_inv_def arena_of_def)
  show "blocks_cover (arena_of j) (fr_blocks f) (fr_payload_len f) (length (mx_slab m))"
    using o(1,2) q f inv blocks_suffice [of "fr_payload_len f"]
    by (auto simp: blocks_cover_def queue_inv_def frame_ok_def mux_inv_def arena_of_def)
  then show "payload_ok None (mx_slab m) (mx_targets m ! j) f" by (simp add: payload_ok_def ar)
qed

section \<open>A frame that leaves\<close>

lemma removed_inv:
  assumes inv: "mux_inv m" and ti: "ti < 6" and i: "i < 8" "fr_used (tq_frames (mx_targets m ! ti) ! i)"
    and q1: "ev_mux_release_blocks m (mx_targets m ! ti) (tq_frames (mx_targets m ! ti) ! i) = (q1, m1)"
    and f1: "ev_mux_tcp_release_reservation m1 (tq_frames (mx_targets m ! ti) ! i) = (f1, m2)"
  shows "mux_inv (set_target ti (q1\<lparr>tq_bytes_used := tq_bytes_used q1 - fr_total_len f1,
      tq_frames_used := tq_frames_used q1 - 1, tq_frames := (tq_frames q1)[i := zero_frame]\<rparr>) m2)"
proof -
  let ?q = "mx_targets m ! ti" let ?f = "tq_frames ?q ! i" 
  define Q where "Q = q1\<lparr>tq_bytes_used := tq_bytes_used q1 - fr_total_len f1,
      tq_frames_used := tq_frames_used q1 - 1, tq_frames := (tq_frames q1)[i := zero_frame]\<rparr>"
  let ?m' = "set_target ti Q m2"
  have q: "queue_inv ti ?q" and len: "length (mx_targets m) = 6" using inv ti by (auto simp: mux_inv_def)
  have i': "i < length (tq_frames ?q)" using q i(1) by (simp add: queue_inv_def)
  have mem: "?f \<in># frames_of ?q" by (rule frames_of_member [OF i' i(2)])
  have ok: "frame_ok (3 \<le> ti) ?f" using q mem by (simp add: queue_inv_def)
  note tcp = queue_tcp_iff [OF inv ti]
  have q1': "q1 = (if 3 \<le> ti then ?q else ?q\<lparr>tq_free_blocks := give_blocks (fr_blocks ?f) (tq_free_blocks ?q)\<rparr>)"
    and m1: "m1 = (if 3 \<le> ti then m\<lparr>mx_tcp_free_blocks := give_blocks (fr_blocks ?f) (mx_tcp_free_blocks m)\<rparr> else m)"
    using q1 tcp by (auto simp: ev_mux_release_blocks_def)
  have f1': "fr_total_len f1 = fr_total_len ?f"
    using f1 by (auto simp: ev_mux_tcp_release_reservation_def Let_def split: if_splits)
  have sel: "tq_frames q1 = tq_frames ?q" "tq_bytes_used q1 = tq_bytes_used ?q"
    "tq_frames_used q1 = tq_frames_used ?q" "tq_arena q1 = tq_arena ?q"
    by (simp_all add: q1')
  have fQ: "frames_of Q + {#?f#} = frames_of ?q"
    using frames_of_clear [OF i' i(2)] frames_of_cong [of Q "?q\<lparr>tq_frames := (tq_frames ?q)[i := zero_frame]\<rparr>"]
    by (simp add: sel Q_def)
  have sQ: "tq_bytes_used Q = tq_bytes_used ?q - fr_total_len ?f"
    "tq_frames_used Q = tq_frames_used ?q - 1" "tq_arena Q = tq_arena ?q"
    "length (tq_frames Q) = length (tq_frames ?q)"
    "ti < 3 \<Longrightarrow> tq_free_blocks Q = give_blocks (fr_blocks ?f) (tq_free_blocks ?q)"
    by (simp_all add: Q_def sel f1') (simp add: q1')
  have fq: "frames_of ?q = add_mset ?f (frames_of Q)" using fQ by simp
  have m2: "mx_slab m2 = mx_slab m" "mx_targets m2 = mx_targets m" "mx_tcp_arena m2 = mx_tcp_arena m"
    using f1 m1 by (auto simp: ev_mux_tcp_release_reservation_def Let_def split: if_splits)
  have tg: "mx_targets ?m' = (mx_targets m)[ti := Q]" by (simp add: set_target_def m2)
  have "bp.owned (tq_free_blocks Q) (blocks_of (frames_of Q))" if "ti < 3"
  proof -
    have "bp.owned (tq_free_blocks ?q) (blocks_of (frames_of Q) + mset (fr_blocks ?f))"
      using q that unfolding queue_inv_def fq by (simp add: add.commute)
    from bp.owned_give [OF this] show ?thesis using that by (simp add: sQ)
  qed
  then have qQ: "queue_inv ti Q" using q unfolding queue_inv_def sQ(1-4) fq by auto
  have tf: "tcp_frames m = (if 3 \<le> ti then add_mset ?f (tcp_frames ?m') else tcp_frames ?m')"
  proof -
    have "tcp_frames ?m' = tcp_frames (set_target ti Q m)"
      by (simp add: tcp_frames_def tg) (simp add: set_target_def)
    then show ?thesis using tcp_frames_set [OF len ti, of Q] by (auto simp: fq split: if_splits)
  qed
  have "tcp_inv ?m'"
  proof (cases "3 \<le> ti")
    case False
    then have "m2 = m" using f1 m1 ok by (auto simp: frame_ok_def ev_mux_tcp_release_reservation_def)
    then show ?thesis using inv tf False by (simp add: mux_inv_def tcp_inv_def set_target_def)
  next
    case True
    then have tf: "tcp_frames m = add_mset ?f (tcp_frames ?m')" using tf by simp
    have old: "tcp_inv m" using inv by (simp add: mux_inv_def)
    have own: "bp.owned (mx_tcp_free_blocks ?m') (blocks_of (tcp_frames ?m'))"
    proof -
      have "bp.owned (mx_tcp_free_blocks m) (blocks_of (tcp_frames ?m') + mset (fr_blocks ?f))"
        using old by (simp add: tcp_inv_def tf Let_def add.commute)
      from bp.owned_give [OF this] show ?thesis
        using f1 m1 True
        by (auto simp: set_target_def ev_mux_tcp_release_reservation_def Let_def split: if_splits)
    qed
    have cnt: "mx_tcp_frames_used ?m' = mx_tcp_frames_used m - 1"
      "mx_tcp_bytes_used ?m' = mx_tcp_bytes_used m - fr_total_len ?f"
      "mx_tcp_discovery_frames_used ?m' =
         mx_tcp_discovery_frames_used m - (if frame_discovery ?f then 1 else 0)"
      "mx_tcp_discovery_bytes_used ?m' =
         mx_tcp_discovery_bytes_used m - (if frame_discovery ?f then fr_total_len ?f else 0)"
      "mx_tcp_low_frames_used ?m' = mx_tcp_low_frames_used m - (if frame_low ?f then 1 else 0)"
      "mx_tcp_low_bytes_used ?m' =
         mx_tcp_low_bytes_used m - (if frame_low ?f then fr_total_len ?f else 0)"
      using f1 m1 True ok
      by (auto simp: set_target_def ev_mux_tcp_release_reservation_def Let_def frame_ok_def)
    have Fd: "filter_mset p (tcp_frames m) = (if p ?f then add_mset ?f (filter_mset p (tcp_frames ?m'))
        else filter_mset p (tcp_frames ?m'))" for p by (simp add: tf)
    show ?thesis unfolding tcp_inv_def Let_def cnt
      using old own unfolding tcp_inv_def Let_def Fd
      by (cases "frame_discovery ?f"; cases "frame_low ?f") (simp_all add: tf)
  qed
  moreover have "\<forall>j<6. queue_inv j (mx_targets ?m' ! j)"
    using inv qQ ti by (auto simp: tg mux_inv_def nth_list_update)
  moreover have "length (mx_slab ?m') = 65536" "mx_tcp_arena ?m' = Some (3 * 16384)"
    using inv m2 by (simp_all add: mux_inv_def)
  ultimately show ?thesis using len unfolding Q_def [symmetric] by (simp add: mux_inv_def tg)
qed

lemma same_accounts_tickets [simp]: "same_accounts m (m\<lparr>mx_tickets := ts\<rparr>)"
  "same_accounts m (m\<lparr>mx_tickets := ts, mx_tx_drop_count := c\<rparr>)"
  by (simp_all add: same_accounts_def Let_def)

lemma finish_inv:
  assumes "mux_inv m" and "ti < 6" and "i < 8" and "fr_used (tq_frames (mx_targets m ! ti) ! i)"
  shows "mux_inv (snd (ev_mux_frame_finish_normal_locked m ti i result))"
proof -
  let ?f = "tq_frames (mx_targets m ! ti) ! i"
  obtain c ts where c: "ev_mux_completion_prepare (mx_tickets m) ?f result = (c, ts)" by fastforce
  define m1 where "m1 = m\<lparr>mx_tickets := ts, mx_tx_drop_count := mx_tx_drop_count m +
      (if fr_priority ?f = EV_MUX_TX_PREVIEW then 1 else 0)\<rparr>"
  have m1: "mx_targets m1 = mx_targets m" "mux_inv m1"
    using same_accounts_inv [OF _ assms(1), of m1] by (simp_all add: m1_def)
  obtain q1 m2 where q1: "ev_mux_release_blocks m1 (mx_targets m1 ! ti) ?f = (q1, m2)" by fastforce
  obtain f1 m3 where f1: "ev_mux_tcp_release_reservation m2 ?f = (f1, m3)" by fastforce
  have "snd (ev_mux_frame_finish_normal_locked m ti i result) =
      set_target ti (q1\<lparr>tq_bytes_used := tq_bytes_used q1 - fr_total_len f1,
        tq_frames_used := tq_frames_used q1 - 1, tq_frames := (tq_frames q1)[i := zero_frame]\<rparr>) m3"
    using q1 f1 by (simp add: ev_mux_frame_finish_normal_locked_def Let_def c m1_def)
  then show ?thesis
    using removed_inv [OF m1(2) assms(2,3), of q1 m2 f1 m3] assms(4) q1 f1 m1(1) by simp
qed

lemma cancel_frame_inv:
  assumes "mux_inv m" and "ti < 6" and "i < 8" and "fr_used (tq_frames (mx_targets m ! ti) ! i)"
  shows "mux_inv (snd (cancel_frame m ti i))"
proof -
  let ?f = "tq_frames (mx_targets m ! ti) ! i"
  obtain c ts where c: "ev_mux_completion_prepare (mx_tickets m) ?f ESP_ERR_INVALID_STATE = (c, ts)"
    by fastforce
  define m1 where "m1 = m\<lparr>mx_tickets := ts\<rparr>"
  have m1: "mx_targets m1 = mx_targets m" "mux_inv m1"
    using same_accounts_inv [OF _ assms(1), of m1] by (simp_all add: m1_def)
  obtain q1 m2 where q1: "ev_mux_release_blocks m1 (mx_targets m1 ! ti) ?f = (q1, m2)" by fastforce
  obtain f1 m3 where f1: "ev_mux_tcp_release_reservation m2 ?f = (f1, m3)" by fastforce
  have "snd (cancel_frame m ti i) =
      set_target ti (q1\<lparr>tq_bytes_used := tq_bytes_used q1 - fr_total_len f1,
        tq_frames_used := tq_frames_used q1 - 1, tq_frames := (tq_frames q1)[i := zero_frame]\<rparr>) m3"
    using q1 f1 by (simp add: cancel_frame_def Let_def c m1_def)
  then show ?thesis
    using removed_inv [OF m1(2) assms(2,3), of q1 m2 f1 m3] assms(4) q1 f1 m1(1) by simp
qed

lemma cancel_frames_inv:
  "mux_inv m \<Longrightarrow> ti < 6 \<Longrightarrow> set is \<subseteq> {..<8} \<Longrightarrow> mux_inv (snd (cancel_frames matches ti is m))"
proof (induction "is" arbitrary: m)
  case Nil
  then show ?case by simp
next
  case (Cons i "is")
  then show ?case using cancel_frame_inv [of m ti i]
    by (auto simp: Let_def split: prod.split) (metis snd_conv)
qed

lemma cancel_target_inv:
  "mux_inv m \<Longrightarrow> ti < 6 \<Longrightarrow> mux_inv (snd (ev_mux_cancel_target_frames m ti e v l s))"
  unfolding ev_mux_cancel_target_frames_def
  by (rule cancel_frames_inv) (auto simp: EV_MUX_QUEUE_FRAMES_def)

section \<open>A frame that is changed in place\<close>

text \<open>What the accounts know of a frame.\<close>

definition same_account :: "ev_mux_frame \<Rightarrow> ev_mux_frame \<Rightarrow> bool" where
  "same_account f g \<longleftrightarrow>
     fr_used g = fr_used f \<and> fr_blocks g = fr_blocks f \<and> fr_total_len g = fr_total_len f \<and>
     fr_payload_len g = fr_payload_len f \<and> fr_metadata g = fr_metadata f \<and>
     fr_tcp_quota_reserved g = fr_tcp_quota_reserved f \<and>
     fr_tcp_discovery_reservation g = fr_tcp_discovery_reservation f \<and>
     fr_tcp_low_reservation g = fr_tcp_low_reservation f \<and>
     fr_session_id g = fr_session_id f \<and> fr_priority g = fr_priority f"

lemma replaced_inv:
  assumes inv: "mux_inv m" and ti: "ti < 6" and i: "i < 8" "fr_used (tq_frames (mx_targets m ! ti) ! i)"
    and acc: "same_account (tq_frames (mx_targets m ! ti) ! i) g"
  shows "mux_inv (set_target ti
    ((mx_targets m ! ti)\<lparr>tq_frames := (tq_frames (mx_targets m ! ti))[i := g]\<rparr>) m)"
proof -
  let ?q = "mx_targets m ! ti" let ?f = "tq_frames ?q ! i"
  define Q where "Q = ?q\<lparr>tq_frames := (tq_frames ?q)[i := g]\<rparr>"
  let ?m' = "set_target ti Q m"
  have q: "queue_inv ti ?q" and len: "length (mx_targets m) = 6" using inv ti by (auto simp: mux_inv_def)
  have i': "i < length (tq_frames ?q)" using q i(1) by (simp add: queue_inv_def)
  have g: "fr_used g" "fr_blocks g = fr_blocks ?f" "fr_total_len g = fr_total_len ?f"
    "frame_discovery g = frame_discovery ?f" "frame_low g = frame_low ?f"
    "\<And>tcp. frame_ok tcp g = frame_ok tcp ?f"
    using acc i(2) by (simp_all add: same_account_def frame_discovery_def frame_low_def frame_ok_def)
  have fQ: "frames_of Q + {#?f#} = frames_of ?q + {#g#}"
    using frames_of_upd [OF i', of g] i(2) g(1) by (simp add: Q_def)
  have swap: "size A = size B \<and> blocks_of A = blocks_of B \<and> bytes_of_frames A = bytes_of_frames B \<and>
      size (filter_mset p A) = size (filter_mset p B) \<and>
      bytes_of_frames (filter_mset p A) = bytes_of_frames (filter_mset p B)"
    if "A + {#?f#} = B + {#g#}" "p g = p ?f" for A B p
  proof -
    have e: "h (A + {#?f#}) = h (B + {#g#})" for h :: "ev_mux_frame multiset \<Rightarrow> 'x" using that(1) by simp
    show ?thesis using e [of size] e [of blocks_of] e [of bytes_of_frames]
        e [of "\<lambda>F. size (filter_mset p F)"] e [of "\<lambda>F. bytes_of_frames (filter_mset p F)"] g(2,3) that(2)
      by (simp split: if_splits)
  qed
  have "f \<in># frames_of Q \<Longrightarrow> frame_ok (3 \<le> ti) f" for f
  proof -
    assume "f \<in># frames_of Q"
    then have "f \<in># frames_of ?q + {#g#}" unfolding fQ [symmetric] by simp
    moreover have "frame_ok (3 \<le> ti) ?f"
      using q frames_of_member [OF i' i(2)] by (simp add: queue_inv_def)
    ultimately show ?thesis using q g(6) by (auto simp: queue_inv_def)
  qed
  then have qQ: "queue_inv ti Q"
    using q swap [OF fQ, of "\<lambda>f. True"] by (simp add: queue_inv_def) (simp add: Q_def)
  have tf: "tcp_frames ?m' + (if 3 \<le> ti then {#?f#} else {#}) = tcp_frames m + (if 3 \<le> ti then {#g#} else {#})"
  proof (cases "3 \<le> ti")
    case True
    have "tcp_frames ?m' + frames_of ?q = tcp_frames m + frames_of Q"
      using tcp_frames_set [OF len ti, of Q] True by simp
    then have "(tcp_frames ?m' + {#?f#}) + frames_of ?q = tcp_frames m + (frames_of Q + {#?f#})"
      by (simp add: ac_simps)
    also have "\<dots> = (tcp_frames m + {#g#}) + frames_of ?q" unfolding fQ by (simp add: ac_simps)
    finally have "tcp_frames ?m' + {#?f#} = tcp_frames m + {#g#}" by (rule add_right_imp_eq)
    then show ?thesis using True by simp
  qed (use tcp_frames_set [OF len ti, of Q] in simp)
  have "tcp_inv ?m'"
  proof (cases "3 \<le> ti")
    case True
    then have tf: "tcp_frames ?m' + {#?f#} = tcp_frames m + {#g#}" using tf by simp
    show ?thesis using inv swap [OF tf g(4)] swap [OF tf g(5)]
      by (simp add: mux_inv_def tcp_inv_def Let_def) (simp add: set_target_def)
  next
    case False
    then show ?thesis using inv tf by (simp add: mux_inv_def tcp_inv_def Let_def) (simp add: set_target_def)
  qed
  moreover have "\<forall>j<6. queue_inv j (mx_targets ?m' ! j)"
    using inv qQ ti by (auto simp: set_target_def mux_inv_def nth_list_update)
  ultimately show ?thesis using inv unfolding Q_def [symmetric] by (simp add: mux_inv_def)
qed

end
