(* ===== verification/MuxTxProps.thy ===== *)
theory MuxTxProps
  imports MuxTx MuxQueueProps
begin

text \<open>
  Properties of the transmitter as a whole: every operation keeps the accounts of the queues; the
  payload of a queued frame is not touched by others; an endpoint finishes the frame it has
  started before it starts another; and a byte of a frame goes out only while the session
  permits it.
\<close>

section \<open>Operations that do not touch the queues\<close>

definition same_queues :: "mux \<Rightarrow> mux \<Rightarrow> bool" where
  "same_queues m m' \<longleftrightarrow>
     mx_slab m' = mx_slab m \<and> mx_tcp_arena m' = mx_tcp_arena m \<and> mx_targets m' = mx_targets m \<and>
     mx_tcp_free_blocks m' = mx_tcp_free_blocks m \<and>
     mx_tcp_frames_used m' = mx_tcp_frames_used m \<and> mx_tcp_bytes_used m' = mx_tcp_bytes_used m \<and>
     mx_tcp_discovery_frames_used m' = mx_tcp_discovery_frames_used m \<and>
     mx_tcp_discovery_bytes_used m' = mx_tcp_discovery_bytes_used m \<and>
     mx_tcp_low_frames_used m' = mx_tcp_low_frames_used m \<and>
     mx_tcp_low_bytes_used m' = mx_tcp_low_bytes_used m"

lemma same_queues_refl [simp]: "same_queues m m"
  by (simp add: same_queues_def)

lemma same_queues_trans: "same_queues a b \<Longrightarrow> same_queues b c \<Longrightarrow> same_queues a c"
  by (simp add: same_queues_def)

lemma same_queues_inv: "same_queues m m' \<Longrightarrow> mux_inv m \<Longrightarrow> mux_inv m'"
  by (rule same_accounts_inv) (auto simp: same_queues_def same_accounts_def Let_def)

lemma set_special_queues: "same_queues m m' \<Longrightarrow> same_queues m (set_special r s m')"
  by (simp add: same_queues_def set_special_def split: special_ref.split)

lemma release_queues: "same_queues m (snd (ev_mux_special_release_locked m r result))"
  by (auto simp: ev_mux_special_release_locked_def Let_def same_queues_def set_special_def
      split: option.split special_ref.split prod.split)

lemma claim_large_queues: "same_queues m (snd (special_claim_large malloc m n))"
  by (auto simp: special_claim_large_def Let_def same_queues_def split: option.split prod.split)

lemma release_queues': "ev_mux_special_release_locked m r result = (c, m') \<Longrightarrow> same_queues m m'"
  using release_queues [of m r result] by simp

lemma replace_pending_queues: "same_queues m (replace_pending r m)"
  using release_queues [of m r ESP_ERR_INVALID_STATE]
  by (simp add: replace_pending_def Let_def same_queues_def)

lemma claim_preview_queues: "same_queues m (snd (special_claim_preview malloc m n pool))"
proof -
  have r: "same_queues m (replace_pending r (m\<lparr>mx_heap := h\<rparr>))" for h r
    by (rule same_queues_trans [OF _ replace_pending_queues]) (simp add: same_queues_def)
  show ?thesis using r
    by (auto simp: special_claim_preview_def Let_def same_queues_def split: option.split prod.split)
qed

lemma fill_queues: "same_queues m (special_fill m r f bytes)"
  by (auto simp: special_fill_def Let_def same_queues_def set_special_def split: special_ref.split)

lemma enter_queues: "same_queues m (snd (special_enter malloc locked m n large f bytes))"
proof -
  have l: "same_queues m m2" if "special_claim_large malloc m n = (e, m2)" for e m2
    using claim_large_queues [of m malloc n] that by simp
  have v: "same_queues m m2" if "special_claim_preview malloc m n pool = (e, m2)" for e m2 pool
    using claim_preview_queues [of m malloc n pool] that by simp
  show ?thesis
    by (auto simp: special_enter_def split: option.split prod.split
        intro: same_queues_trans [OF l fill_queues] same_queues_trans [OF v fill_queues] l v)
qed

text \<open>A submission changes the order and then enters the pools, or changes nothing.\<close>

lemma submit_special_shape:
  "snd (ev_mux_submit_special malloc t baud now locked m o1 md p n large ticket) = m \<or>
   (\<exists>order f bytes ok. ev_mux_special_prepare t baud now (mx_tx_enqueue_order m) zero_frame o1 md
        (length md) n ticket = (ok, f, order) \<and>
      snd (ev_mux_submit_special malloc t baud now locked m o1 md p n large ticket) =
        (let m1 = m\<lparr>mx_tx_enqueue_order := order\<rparr>;
             fresh = f\<lparr>fr_frame_timeout_ms := ev_mux_frame_timeout baud (the (op_link o1))
                        (encoded_length (length md) n),
                      fr_priority := (if large then EV_MUX_TX_CONTROL else EV_MUX_TX_PREVIEW)\<rparr>
         in if ok then snd (special_enter malloc locked m1 n large fresh bytes) else m1))"
proof -
  obtain ok f order where p: "ev_mux_special_prepare t baud now (mx_tx_enqueue_order m) zero_frame o1 md
      (length md) n ticket = (ok, f, order)" using prod_cases3 by blast
  show ?thesis
    by (auto simp: ev_mux_submit_special_def Let_def p)
qed

lemma submit_special_queues:
  "same_queues m (snd (ev_mux_submit_special malloc t baud now locked m o1 md p n large ticket))"
proof -
  have order: "same_queues m (m\<lparr>mx_tx_enqueue_order := k\<rparr>)" for k by (simp add: same_queues_def)
  show ?thesis
    using submit_special_shape [of malloc t baud now locked m o1 md p n large ticket]
      order same_queues_trans [OF order enter_queues]
    by (auto simp: Let_def)
qed

lemma observer_replace_queues: "same_queues m (observer_replace is m)"
proof (induction "is" arbitrary: m)
  case Nil
  then show ?case by simp
next
  case (Cons i "is")
  have "same_queues m (ev_mux_record_tx_drop (snd (ev_mux_special_release_locked m r e)))" for r e
    using release_queues [of m r e] by (simp add: same_queues_def ev_mux_record_tx_drop_def)
  then show ?case using Cons by (auto intro: same_queues_trans)
qed

lemma observer_frame_queues: "same_queues m (observer_frame t baud now w md n crc b slot m)"
  by (auto simp: observer_frame_def Let_def same_queues_def set_special_def
      split: option.split prod.split)

lemma observer_frames_queues: "same_queues m (fold (observer_frame t baud now w md n crc b) slots m)"
  by (induction slots arbitrary: m) (auto intro: same_queues_trans [OF observer_frame_queues])

lemma publish_queues:
  "same_queues m (snd (ev_mux_preview_publish_observers ready malloc t baud now locked m md p n))"
proof -
  have r: "same_queues m (observer_replace is (m\<lparr>mx_heap := h\<rparr>))" for "is" h
    by (rule same_queues_trans [OF _ observer_replace_queues]) (simp add: same_queues_def)
  have u: "same_queues m (m'\<lparr>mx_heap := h, mx_observer_buffers := bs, mx_observer_capacities := cs\<rparr>)"
    if "same_queues m m'" for m' h bs cs using that by (simp add: same_queues_def)
  show ?thesis
    by (auto simp: ev_mux_preview_publish_observers_def Let_def split: option.split prod.split
        intro: same_queues_trans [OF u [OF r] observer_frames_queues])
qed

lemma subscribe_queues: "same_queues m (snd (ev_mux_preview_subscribe ready t sess locked m link en))"
  by (auto simp: ev_mux_preview_subscribe_def Let_def same_queues_def split: option.split)

lemma cancel_specials_queues: "same_queues m (snd (cancel_specials matches rs m))"
proof (induction rs arbitrary: m)
  case Nil
  then show ?case by simp
next
  case (Cons r rs)
  obtain c m1 where r: "ev_mux_special_release_locked m r ESP_ERR_INVALID_STATE = (c, m1)" by fastforce
  obtain cs m2 where c: "cancel_specials matches rs m1 = (cs, m2)" by fastforce
  have "same_queues m m2"
    using same_queues_trans [OF release_queues' [OF r], of m2] Cons.IH [of m1] c by simp
  then show ?case using Cons.IH [of m] by (simp add: Let_def r c)
qed

text \<open>A submission to the queues changes nothing, or enqueues with other tickets.\<close>

lemma submit_link_shape:
  "(let (res, out', m') = ev_mux_submit_link ready t baud now locked m options metadata payload n out
    in (m' = m \<and> res \<noteq> ESP_OK) \<or>
       (\<exists>o1 md p ticket ts r m1 ts'. options = Some o1 \<and> metadata = Some md \<and>
          p = (case payload of None \<Rightarrow> [] | Some p \<Rightarrow> take n p) \<and>
          ev_mux_enqueue_normal t baud now locked (m\<lparr>mx_tickets := ts\<rparr>) o1 md (length md) p ticket True = (r, m1) \<and>
          r = res \<and> m' = m1\<lparr>mx_tickets := ts'\<rparr>))"
proof (cases "\<exists>o1 md. options = Some o1 \<and> metadata = Some md \<and> \<not> (payload = None \<and> n \<noteq> 0) \<and> ready \<and>
    \<not> EV_MUX_METADATA_MAX < length md")
  case False
  then show ?thesis by (auto simp: ev_mux_submit_link_def split: option.splits)
next
  case True
  then obtain o1 md where o1: "options = Some o1" "metadata = Some md" "\<not> (payload = None \<and> n \<noteq> 0)"
    "ready" "\<not> EV_MUX_METADATA_MAX < length md" by blast
  define p where "p = (case payload of None \<Rightarrow> [] | Some p \<Rightarrow> take n p)"
  obtain ticket ts where tk: "(if out = None then (0, mx_tickets m) else ev_mux_ticket_allocate (mx_tickets m))
      = (ticket, ts)" by fastforce
  obtain r m1 where e: "ev_mux_enqueue_normal t baud now locked (m\<lparr>mx_tickets := ts\<rparr>) o1 md (length md) p
      ticket True = (r, m1)" by fastforce
  have run: "ev_mux_submit_link ready t baud now locked m options metadata payload n out =
      (if out \<noteq> None \<and> ticket = 0 then (ESP_ERR_TIMEOUT, out, m)
       else if r \<noteq> ESP_OK
       then (r, map_option (\<lambda>_. 0) out, m1\<lparr>mx_tickets := ev_mux_ticket_rollback (mx_tickets m1) ticket\<rparr>)
       else (r, map_option (\<lambda>_. ticket) out, m1))"
  proof -
    have c: "(payload = None \<and> n \<noteq> 0) = False" "(\<not> ready) = False"
      "(EV_MUX_METADATA_MAX < length md) = False" using o1 by auto
    show ?thesis
      by (simp only: ev_mux_submit_link_def o1(1,2) prod.case option.case c if_False Let_def tk
          e [unfolded p_def])
  qed
  show ?thesis
  proof (cases "out \<noteq> None \<and> ticket = 0")
    case True
    then show ?thesis by (simp add: run)
  next
    case False
    define ts' where "ts' = (if r \<noteq> ESP_OK then ev_mux_ticket_rollback (mx_tickets m1) ticket else mx_tickets m1)"
    have m': "snd (snd (ev_mux_submit_link ready t baud now locked m options metadata payload n out)) =
        m1\<lparr>mx_tickets := ts'\<rparr>"
      "fst (ev_mux_submit_link ready t baud now locked m options metadata payload n out) = r"
      using False unfolding run ts'_def by auto
    have "\<exists>o1' md' p' ticket ts r' m1' ts'. options = Some o1' \<and> metadata = Some md' \<and>
          p' = (case payload of None \<Rightarrow> [] | Some p \<Rightarrow> take n p) \<and>
          ev_mux_enqueue_normal t baud now locked (m\<lparr>mx_tickets := ts\<rparr>) o1' md' (length md') p' ticket True = (r', m1') \<and>
          r' = r \<and> m1\<lparr>mx_tickets := ts'\<rparr> = m1'\<lparr>mx_tickets := ts'\<rparr>"
      using e o1(1,2) p_def by blast
    then show ?thesis using m' e o1(1,2) p_def unfolding split_beta Let_def by metis
  qed
qed

section \<open>The accounts through a turn of the worker\<close>

lemma set_frame_inv:
  assumes "mux_inv m" and "ti < 6" and "frame_present m ti r" and "same_account (get_frame m ti r) g"
    and "\<And>i. r = In_queue i \<Longrightarrow> i < 8"
  shows "mux_inv (set_frame ti r g m)"
proof (cases r)
  case (In_queue i)
  then show ?thesis using assms replaced_inv [of m ti i g]
    by (simp add: set_frame_def get_frame_def frame_present_def)
next
  case (In_special s)
  then show ?thesis using same_queues_inv [OF set_special_queues [OF same_queues_refl] assms(1)]
    by (simp add: set_frame_def)
qed

lemma drop_frame_inv:
  assumes "mux_inv m" and "ti < 6" and "frame_present m ti r"
  shows "mux_inv (snd (ev_mux_drop_frame_locked m ti r result))"
proof (cases r)
  case (In_queue i)
  then show ?thesis using assms finish_inv [of m ti i result]
    by (auto simp: ev_mux_drop_frame_locked_def frame_present_def get_frame_def EV_MUX_QUEUE_FRAMES_def
        split: prod.split)
next
  case (In_special s)
  then show ?thesis using same_queues_inv [OF release_queues assms(1)]
    by (simp add: ev_mux_drop_frame_locked_def)
qed

lemma cancel_targets_inv:
  "mux_inv m \<Longrightarrow> set ts \<subseteq> {..<6} \<Longrightarrow> mux_inv (snd (cancel_targets locks e v l s ts m))"
proof (induction ts arbitrary: m)
  case Nil
  then show ?case by simp
next
  case (Cons ti ts)
  obtain cs m1 where c: "(if locks ti then ev_mux_cancel_target_frames m ti e v l s else ([], m)) = (cs, m1)"
    by fastforce
  have "mux_inv m1" using cancel_target_inv [OF Cons.prems(1), of ti e v l s] Cons.prems c
    by (auto split: if_splits)
  then show ?case using Cons c by (auto split: prod.split) (metis snd_conv)
qed

lemma six_targets: "set [0..<EV_MUX_TARGET_COUNT] \<subseteq> {..<6}"
  by (auto simp: EV_MUX_TARGET_COUNT_def EV_MUX_SERIAL_TARGETS_def EV_TRANSPORT_TCP_LINKS_def)

lemma cancel_everywhere_inv:
  assumes "mux_inv m"
  shows "mux_inv (snd (cancel_frames_everywhere sl locks m e v l s))"
proof -
  obtain cs m1 where c: "ev_mux_cancel_special_frames m e v l s = (cs, m1)" by fastforce
  then have "same_queues m m1"
    using cancel_specials_queues [of m "frame_matches e v l s"]
    by (metis ev_mux_cancel_special_frames_def snd_conv)
  then have "mux_inv m1" using assms same_queues_inv by blast
  from cancel_targets_inv [OF this six_targets, of locks e v l s] show ?thesis using assms
    by (auto simp: cancel_frames_everywhere_def c split: prod.split)
qed

lemma cancel_session_inv: "mux_inv m \<Longrightarrow> mux_inv (snd (ev_mux_cancel_session ready sl locks m l s))"
  using cancel_everywhere_inv by (simp add: ev_mux_cancel_session_def)

lemma fail_session_inv:
  assumes "mux_inv m" and "ev_mux_fail_session env m w link sid c = (calls, m', w')"
  shows "mux_inv m'"
proof -
  have "m' = (if sid \<noteq> []
      then snd (ev_mux_cancel_session True (te_cancel_special env) (te_cancel_locks env) m (Some link) (Some sid))
      else m)"
    using assms(2) by (auto simp: ev_mux_fail_session_def Let_def split: prod.splits if_splits)
  then show ?thesis using assms(1) cancel_session_inv by simp
qed

end
