(* ===== verification/MuxLive.thy ===== *)
theory MuxLive
  imports MuxTxProps
begin

text \<open>
  The frames of the transmitter as a map from places to frames. Everything but a turn of the
  worker is \<open>gentle\<close>: it leaves the frames that have started exactly as they are.
\<close>

section \<open>The map\<close>

datatype place = Queue_place nat nat | Special_place special_ref

definition frame_at :: "mux \<Rightarrow> place \<Rightarrow> ev_mux_frame option" where
  "frame_at m p =
     (case p of
        Queue_place ti i \<Rightarrow>
          if ti < 6 \<and> i < 8 \<and> fr_used (tq_frames (mx_targets m ! ti) ! i)
          then Some (tq_frames (mx_targets m ! ti) ! i) else None
      | Special_place (Preview_frame i) \<Rightarrow>
          if i < 6 \<and> sp_used (mx_preview_frames m ! i) then Some (sp_frame (mx_preview_frames m ! i))
          else None
      | Special_place Large_frame \<Rightarrow>
          if sp_used (mx_large_frame m) then Some (sp_frame (mx_large_frame m)) else None)"

definition endpoint_of :: "place \<Rightarrow> ev_mux_frame \<Rightarrow> nat option" where
  "endpoint_of p f =
     (case p of Queue_place ti i \<Rightarrow> Some ti
      | Special_place s \<Rightarrow> ev_mux_target_index (Some (fr_link f)))"

definition mux_wf :: "mux \<Rightarrow> bool" where
  "mux_wf m \<longleftrightarrow>
     length (mx_targets m) = 6 \<and> (\<forall>ti<6. length (tq_frames (mx_targets m ! ti)) = 8) \<and>
     length (mx_preview_frames m) = 6 \<and> length (mx_special_partial m) = 6 \<and>
     (\<forall>i<6. sp_kind (mx_preview_frames m ! i) \<noteq> EV_MUX_SPECIAL_LARGE) \<and>
     (\<forall>p. mx_preview_pending m = Some p \<longrightarrow> p < 2)"

definition gentle :: "mux \<Rightarrow> mux \<Rightarrow> bool" where
  "gentle m m' \<longleftrightarrow>
     (mux_wf m \<longrightarrow> mux_wf m' \<and> mx_special_partial m' = mx_special_partial m \<and>
        (\<forall>p f. fr_tx_offset f \<noteq> 0 \<longrightarrow> (frame_at m' p = Some f \<longleftrightarrow> frame_at m p = Some f)))"

lemma gentle_refl [simp]: "gentle m m"
  by (simp add: gentle_def)

lemma gentle_trans: "gentle a b \<Longrightarrow> gentle b c \<Longrightarrow> gentle a c"
  by (simp add: gentle_def)

text \<open>Agreement on the frames.\<close>

definition same_frames :: "mux \<Rightarrow> mux \<Rightarrow> bool" where
  "same_frames m m' \<longleftrightarrow>
     mx_targets m' = mx_targets m \<and> mx_preview_frames m' = mx_preview_frames m \<and>
     mx_large_frame m' = mx_large_frame m \<and> mx_special_partial m' = mx_special_partial m \<and>
     (mx_preview_pending m' = mx_preview_pending m \<or> mx_preview_pending m' = None)"

lemma same_frames_live: "same_frames m m' \<Longrightarrow> frame_at m' = frame_at m"
  by (rule ext) (auto simp: same_frames_def frame_at_def split: place.split special_ref.split)

lemma same_frames_gentle: "same_frames m m' \<Longrightarrow> gentle m m'"
  using same_frames_live [of m m'] by (auto simp: gentle_def same_frames_def mux_wf_def)

section \<open>One place\<close>

definition put_place :: "place \<Rightarrow> ev_mux_frame option \<Rightarrow> mux \<Rightarrow> mux \<Rightarrow> bool" where
  "put_place p x m m' \<longleftrightarrow> (mux_wf m \<longrightarrow> mux_wf m' \<and> frame_at m' = (frame_at m)(p := x))"

lemma set_target_live:
  assumes "ti < 6" and "i < 8" and "mux_wf m" and "tq_frames q = (tq_frames (mx_targets m ! ti))[i := f]"
  shows "mux_wf (set_target ti q m)"
    and "frame_at (set_target ti q m) = (frame_at m)(Queue_place ti i := (if fr_used f then Some f else None))"
proof -
  show "mux_wf (set_target ti q m)" using assms
    by (auto simp: mux_wf_def set_target_def nth_list_update)
  have l: "length (mx_targets m) = 6" "\<And>k. k < 6 \<Longrightarrow> length (tq_frames (mx_targets m ! k)) = 8"
    using assms(3) by (auto simp: mux_wf_def)
  show "frame_at (set_target ti q m) = (frame_at m)(Queue_place ti i := (if fr_used f then Some f else None))"
  proof (rule ext)
    fix p
    show "frame_at (set_target ti q m) p = ((frame_at m)(Queue_place ti i := (if fr_used f then Some f else None))) p"
    proof (cases p)
      case (Queue_place tj j)
      then show ?thesis using assms l by (auto simp: frame_at_def set_target_def nth_list_update)
    next
      case (Special_place s)
      then show ?thesis by (auto simp: frame_at_def set_target_def split: special_ref.split)
    qed
  qed
qed

lemma set_special_live:
  assumes "mux_wf m" and "case r of Preview_frame i \<Rightarrow> i < 6 \<and> sp_kind s \<noteq> EV_MUX_SPECIAL_LARGE | Large_frame \<Rightarrow> True"
  shows "mux_wf (set_special r s m)"
    and "frame_at (set_special r s m) = (frame_at m)(Special_place r := (if sp_used s then Some (sp_frame s) else None))"
proof -
  show "mux_wf (set_special r s m)" using assms
    by (auto simp: mux_wf_def set_special_def nth_list_update split: special_ref.split if_splits)
  show "frame_at (set_special r s m) = (frame_at m)(Special_place r := (if sp_used s then Some (sp_frame s) else None))"
    using assms
    by (auto simp: fun_eq_iff frame_at_def set_special_def nth_list_update mux_wf_def
        split: special_ref.splits place.splits)
qed

text \<open>A place whose frame has not started, before and after.\<close>

definition unstarted :: "ev_mux_frame option \<Rightarrow> bool" where
  "unstarted x \<longleftrightarrow> (case x of None \<Rightarrow> True | Some f \<Rightarrow> fr_tx_offset f = 0)"

lemma put_gentle:
  assumes "mux_wf m \<Longrightarrow> mux_wf m' \<and> mx_special_partial m' = mx_special_partial m \<and>
      frame_at m' = (frame_at m)(p := x) \<and> unstarted (frame_at m p) \<and> unstarted x"
  shows "gentle m m'"
  unfolding gentle_def
proof (intro impI)
  assume "mux_wf m"
  from assms [OF this] show "mux_wf m' \<and> mx_special_partial m' = mx_special_partial m \<and>
      (\<forall>p f. fr_tx_offset f \<noteq> 0 \<longrightarrow> (frame_at m' p = Some f \<longleftrightarrow> frame_at m p = Some f))"
    by (auto simp: unstarted_def)
qed

section \<open>Leaving the queue\<close>

lemma release_blocks_sel:
  assumes "ev_mux_release_blocks m q f = (q1, m1)"
  shows "tq_frames q1 = tq_frames q \<and> tq_arena q1 = tq_arena q \<and> same_frames m m1 \<and> mx_slab m1 = mx_slab m"
  using assms by (simp add: ev_mux_release_blocks_def same_frames_def split: if_split_asm) auto

lemma release_reservation_sel:
  assumes "ev_mux_tcp_release_reservation m f = (f1, m1)"
  shows "same_frames m m1 \<and> mx_slab m1 = mx_slab m"
  using assms by (auto simp: ev_mux_tcp_release_reservation_def Let_def same_frames_def split: if_split_asm)

lemma same_frames_trans: "same_frames a b \<Longrightarrow> same_frames b c \<Longrightarrow> same_frames a c"
  by (auto simp: same_frames_def)

text \<open>A frame that leaves its slot, by \<open>ev_mux_frame_finish_normal_locked\<close> or \<open>cancel_frame\<close>.\<close>

definition left_slot :: "nat \<Rightarrow> nat \<Rightarrow> mux \<Rightarrow> mux \<Rightarrow> bool" where
  "left_slot ti i m m' \<longleftrightarrow>
     (\<exists>q m2. m' = set_target ti q m2 \<and> tq_frames q = (tq_frames (mx_targets m ! ti))[i := zero_frame] \<and>
        same_frames m m2 \<and> tq_arena q = tq_arena (mx_targets m ! ti) \<and> mx_slab m2 = mx_slab m)"

lemma finish_left: "left_slot ti i m (snd (ev_mux_frame_finish_normal_locked m ti i result))"
proof -
  let ?f = "tq_frames (mx_targets m ! ti) ! i"
  obtain c ts where c: "ev_mux_completion_prepare (mx_tickets m) ?f result = (c, ts)" by fastforce
  define m1 where "m1 = m\<lparr>mx_tickets := ts, mx_tx_drop_count := mx_tx_drop_count m +
      (if fr_priority ?f = EV_MUX_TX_PREVIEW then 1 else 0)\<rparr>"
  obtain q1 m2 where q1: "ev_mux_release_blocks m1 (mx_targets m ! ti) ?f = (q1, m2)" by fastforce
  obtain f1 m3 where f1: "ev_mux_tcp_release_reservation m2 ?f = (f1, m3)" by fastforce
  have eq: "snd (ev_mux_frame_finish_normal_locked m ti i result) =
      set_target ti (q1\<lparr>tq_bytes_used := tq_bytes_used q1 - fr_total_len f1,
        tq_frames_used := tq_frames_used q1 - 1, tq_frames := (tq_frames q1)[i := zero_frame]\<rparr>) m3"
    using q1 f1 by (simp add: ev_mux_frame_finish_normal_locked_def Let_def c m1_def)
  have "same_frames m m1" "mx_slab m1 = mx_slab m" by (simp_all add: m1_def same_frames_def)
  then show ?thesis unfolding left_slot_def
    using eq release_blocks_sel [OF q1] release_reservation_sel [OF f1] same_frames_trans
    by (intro exI [of _ "q1\<lparr>tq_bytes_used := tq_bytes_used q1 - fr_total_len f1,
        tq_frames_used := tq_frames_used q1 - 1, tq_frames := (tq_frames q1)[i := zero_frame]\<rparr>"]
        exI [of _ m3]) (auto intro: same_frames_trans)
qed

lemma cancel_left: "left_slot ti i m (snd (cancel_frame m ti i))"
proof -
  let ?f = "tq_frames (mx_targets m ! ti) ! i"
  obtain c ts where c: "ev_mux_completion_prepare (mx_tickets m) ?f ESP_ERR_INVALID_STATE = (c, ts)" by fastforce
  define m1 where "m1 = m\<lparr>mx_tickets := ts\<rparr>"
  obtain q1 m2 where q1: "ev_mux_release_blocks m1 (mx_targets m ! ti) ?f = (q1, m2)" by fastforce
  obtain f1 m3 where f1: "ev_mux_tcp_release_reservation m2 ?f = (f1, m3)" by fastforce
  have eq: "snd (cancel_frame m ti i) =
      set_target ti (q1\<lparr>tq_bytes_used := tq_bytes_used q1 - fr_total_len f1,
        tq_frames_used := tq_frames_used q1 - 1, tq_frames := (tq_frames q1)[i := zero_frame]\<rparr>) m3"
    using q1 f1 by (simp add: cancel_frame_def Let_def c m1_def)
  have "same_frames m m1" "mx_slab m1 = mx_slab m" by (simp_all add: m1_def same_frames_def)
  then show ?thesis unfolding left_slot_def
    using eq release_blocks_sel [OF q1] release_reservation_sel [OF f1]
    by (intro exI [of _ "q1\<lparr>tq_bytes_used := tq_bytes_used q1 - fr_total_len f1,
        tq_frames_used := tq_frames_used q1 - 1, tq_frames := (tq_frames q1)[i := zero_frame]\<rparr>"]
        exI [of _ m3]) (auto intro: same_frames_trans)
qed

lemma leaves_queue:
  assumes "mux_wf m" and "ti < 6" and "i < 8" and "left_slot ti i m m'"
  shows "mux_wf m' \<and> frame_at m' = (frame_at m)(Queue_place ti i := None) \<and>
    mx_special_partial m' = mx_special_partial m"
proof -
  from assms(4) obtain q m2 where q: "m' = set_target ti q m2"
    "tq_frames q = (tq_frames (mx_targets m ! ti))[i := zero_frame]" "same_frames m m2"
    unfolding left_slot_def by blast
  have m2: "mux_wf m2" "frame_at m2 = frame_at m" "mx_targets m2 = mx_targets m"
    "mx_special_partial m2 = mx_special_partial m"
    using same_frames_gentle [OF q(3)] same_frames_live [OF q(3)] assms(1) q(3)
    by (auto simp: gentle_def same_frames_def)
  have "mx_special_partial (set_target ti q m2) = mx_special_partial m2" by (simp add: set_target_def)
  then show ?thesis
    using set_target_live [OF assms(2,3) m2(1), of q zero_frame] q m2 by simp
qed

lemma cancel_frame_gentle:
  assumes "ti < 6" and "i < 8" and "fr_tx_offset (tq_frames (mx_targets m ! ti) ! i) = 0"
  shows "gentle m (snd (cancel_frame m ti i))"
proof (rule put_gentle)
  assume wf: "mux_wf m"
  have "unstarted (frame_at m (Queue_place ti i))" using assms(3) by (simp add: unstarted_def frame_at_def)
  then show "mux_wf (snd (cancel_frame m ti i)) \<and>
      mx_special_partial (snd (cancel_frame m ti i)) = mx_special_partial m \<and>
      frame_at (snd (cancel_frame m ti i)) = (frame_at m)(Queue_place ti i := None) \<and>
      unstarted (frame_at m (Queue_place ti i)) \<and> unstarted None"
    using leaves_queue [OF wf assms(1,2) cancel_left] by (simp add: unstarted_def)
qed

lemma cancel_frames_gentle:
  "ti < 6 \<Longrightarrow> set is \<subseteq> {..<8} \<Longrightarrow> gentle m (snd (cancel_frames matches ti is m))"
proof (induction "is" arbitrary: m)
  case Nil
  then show ?case by simp
next
  case (Cons i "is")
  show ?case
  proof (cases "fr_used (tq_frames (mx_targets m ! ti) ! i) \<and> matches (tq_frames (mx_targets m ! ti) ! i) \<and>
      fr_tx_offset (tq_frames (mx_targets m ! ti) ! i) = 0")
    case True
    then have "gentle m (snd (cancel_frame m ti i))" using Cons.prems by (intro cancel_frame_gentle) auto
    moreover have "gentle (snd (cancel_frame m ti i))
        (snd (cancel_frames matches ti is (snd (cancel_frame m ti i))))"
      using Cons by auto
    ultimately show ?thesis using True gentle_trans by (auto simp: Let_def split: prod.split)
  next
    case False
    then show ?thesis using Cons by (auto simp: Let_def)
  qed
qed

lemma cancel_targets_gentle:
  "set ts \<subseteq> {..<6} \<Longrightarrow> gentle m (snd (cancel_targets locks e v l s ts m))"
proof (induction ts arbitrary: m)
  case Nil
  then show ?case by simp
next
  case (Cons ti ts)
  obtain cs m1 where c: "(if locks ti then ev_mux_cancel_target_frames m ti e v l s else ([], m)) = (cs, m1)"
    by fastforce
  have "gentle m (snd (ev_mux_cancel_target_frames m ti e v l s))"
    unfolding ev_mux_cancel_target_frames_def
    using Cons.prems by (intro cancel_frames_gentle) (auto simp: EV_MUX_QUEUE_FRAMES_def)
  then have "gentle m m1" using c by (auto split: if_splits)
  moreover have "gentle m1 (snd (cancel_targets locks e v l s ts m1))" using Cons by simp
  ultimately show ?case using c gentle_trans by (auto split: prod.split)
qed

section \<open>Special frames\<close>

lemma release_shape:
  assumes "sp_used (get_special m r)"
  shows "\<exists>m3. snd (ev_mux_special_release_locked m r result) =
      set_special r ((get_special m3 r)\<lparr>sp_frame := zero_frame, sp_used := False\<rparr>) m3 \<and>
    mx_targets m3 = mx_targets m \<and> mx_preview_frames m3 = mx_preview_frames m \<and>
    (mx_large_frame m3 = mx_large_frame m \<or>
      sp_kind (get_special m r) = EV_MUX_SPECIAL_LARGE \<and>
      mx_large_frame m3 = (mx_large_frame m)\<lparr>sp_used := False\<rparr>) \<and>
    mx_special_partial m3 =
      (if fr_tx_offset (sp_frame (get_special m r)) \<noteq> 0
       then case ev_mux_target_index (Some (fr_link (sp_frame (get_special m r)))) of
              None \<Rightarrow> mx_special_partial m
            | Some ti \<Rightarrow> if mx_special_partial m ! ti = Some r then (mx_special_partial m)[ti := None]
                        else mx_special_partial m
       else mx_special_partial m) \<and>
    (mx_preview_pending m3 = mx_preview_pending m \<or> mx_preview_pending m3 = None)"
  using assms
  by (auto simp: ev_mux_special_release_locked_def Let_def intro!: exI split: prod.split option.split)

definition valid_special :: "special_ref \<Rightarrow> bool" where
  "valid_special r \<longleftrightarrow> (case r of Preview_frame i \<Rightarrow> i < 6 | Large_frame \<Rightarrow> True)"

lemma live_special:
  "valid_special r \<Longrightarrow> frame_at m (Special_place r) =
     (if sp_used (get_special m r) then Some (sp_frame (get_special m r)) else None)"
  by (auto simp: frame_at_def get_special_def valid_special_def split: special_ref.splits)

lemma release_live:
  assumes wf: "mux_wf m" and r: "valid_special r" and m': "m' = snd (ev_mux_special_release_locked m r result)"
  shows "mux_wf m' \<and> frame_at m' = (frame_at m)(Special_place r := None)"
proof (cases "sp_used (get_special m r)")
  case False
  then have "m' = m" by (simp add: m' ev_mux_special_release_locked_def)
  moreover have "frame_at m (Special_place r) = None" using r False by (simp add: live_special)
  ultimately show ?thesis using wf by (simp add: fun_upd_idem)
next
  case True
  from release_shape [OF this, of result] obtain m3 where m3:
      "m' = set_special r ((get_special m3 r)\<lparr>sp_frame := zero_frame, sp_used := False\<rparr>) m3"
      "mx_targets m3 = mx_targets m" "mx_preview_frames m3 = mx_preview_frames m"
      "mx_large_frame m3 = mx_large_frame m \<or> sp_kind (get_special m r) = EV_MUX_SPECIAL_LARGE \<and>
        mx_large_frame m3 = (mx_large_frame m)\<lparr>sp_used := False\<rparr>"
      "length (mx_special_partial m3) = length (mx_special_partial m)"
      "mx_preview_pending m3 = mx_preview_pending m \<or> mx_preview_pending m3 = None"
    unfolding m' by (auto split: if_splits option.splits)
  have large: "r = Large_frame \<or> mx_large_frame m3 = mx_large_frame m"
    using m3(4) wf r by (auto simp: get_special_def valid_special_def mux_wf_def split: special_ref.splits)
  have wf3: "mux_wf m3" using wf m3 by (auto simp: mux_wf_def)
  have ok: "case r of Preview_frame i \<Rightarrow> i < 6 \<and>
      sp_kind ((get_special m3 r)\<lparr>sp_frame := zero_frame, sp_used := False\<rparr>) \<noteq> EV_MUX_SPECIAL_LARGE
      | Large_frame \<Rightarrow> True"
    using r wf3 by (auto simp: valid_special_def get_special_def mux_wf_def split: special_ref.splits)
  have "frame_at m3 p = frame_at m p" if "p \<noteq> Special_place r" for p
    using that large m3(2,3) by (auto simp: frame_at_def split: place.split special_ref.split)
  then have "(frame_at m3)(Special_place r := None) = (frame_at m)(Special_place r := None)" by auto
  then show ?thesis using set_special_live [OF wf3 ok] by (simp add: m3(1))
qed

lemma release_partial:
  assumes "fr_tx_offset (sp_frame (get_special m r)) = 0"
  shows "mx_special_partial (snd (ev_mux_special_release_locked m r result)) = mx_special_partial m"
  using assms
  by (auto simp: ev_mux_special_release_locked_def Let_def set_special_def
      split: prod.split special_ref.split)

lemma release_gentle:
  assumes "valid_special r" and "fr_tx_offset (sp_frame (get_special m r)) = 0"
  shows "gentle m (snd (ev_mux_special_release_locked m r result))"
proof (rule put_gentle)
  assume "mux_wf m"
  from release_live [OF this assms(1) refl, of result]
  show "mux_wf (snd (ev_mux_special_release_locked m r result)) \<and>
      mx_special_partial (snd (ev_mux_special_release_locked m r result)) = mx_special_partial m \<and>
      frame_at (snd (ev_mux_special_release_locked m r result)) = (frame_at m)(Special_place r := None) \<and>
      unstarted (frame_at m (Special_place r)) \<and> unstarted None"
    using assms release_partial [OF assms(2), of result] by (simp add: unstarted_def live_special)
qed

lemma set_special_gentle:
  assumes "case r of Preview_frame i \<Rightarrow> i < 6 \<and> sp_kind s \<noteq> EV_MUX_SPECIAL_LARGE | Large_frame \<Rightarrow> True"
    and "unstarted (frame_at m (Special_place r))" and "sp_used s \<Longrightarrow> fr_tx_offset (sp_frame s) = 0"
  shows "gentle m (set_special r s m)"
proof (rule put_gentle)
  assume wf: "mux_wf m"
  have "mx_special_partial (set_special r s m) = mx_special_partial m"
    by (simp add: set_special_def split: special_ref.split)
  then show "mux_wf (set_special r s m) \<and> mx_special_partial (set_special r s m) = mx_special_partial m \<and>
      frame_at (set_special r s m) = (frame_at m)(Special_place r := (if sp_used s then Some (sp_frame s) else None)) \<and>
      unstarted (frame_at m (Special_place r)) \<and> unstarted (if sp_used s then Some (sp_frame s) else None)"
    using set_special_live [OF wf assms(1)] assms(2,3) by (simp add: unstarted_def)
qed

lemma cancel_specials_gentle:
  "list_all valid_special rs \<Longrightarrow> gentle m (snd (cancel_specials matches rs m))"
proof (induction rs arbitrary: m)
  case Nil
  then show ?case by simp
next
  case (Cons r rs)
  obtain c m1 where r: "ev_mux_special_release_locked m r ESP_ERR_INVALID_STATE = (c, m1)" by fastforce
  obtain cs m2 where c: "cancel_specials matches rs m1 = (cs, m2)" by fastforce
  have "gentle m1 m2" using Cons.IH [of m1] Cons.prems c by simp
  moreover have "gentle m m1" if "fr_tx_offset (sp_frame (get_special m r)) = 0"
    using release_gentle [of r m ESP_ERR_INVALID_STATE] that Cons.prems r by simp
  ultimately show ?case using Cons.IH [of m] Cons.prems gentle_trans by (simp add: Let_def r c) blast
qed

lemma cancel_everywhere_gentle: "gentle m (snd (cancel_frames_everywhere sl locks m e v l s))"
proof -
  obtain cs m1 where c: "ev_mux_cancel_special_frames m e v l s = (cs, m1)" by fastforce
  have "list_all valid_special (map Preview_frame [0..<EV_MUX_PREVIEW_FRAMES] @ [Large_frame])"
    by (auto simp: list_all_iff valid_special_def special_consts)
  from cancel_specials_gentle [OF this, of m "frame_matches e v l s"] have "gentle m m1"
    using c by (simp add: ev_mux_cancel_special_frames_def)
  then show ?thesis
    using gentle_trans [OF _ cancel_targets_gentle [OF six_targets, of m1 locks e v l s], of m]
    by (auto simp: cancel_frames_everywhere_def c split: prod.split)
qed

section \<open>Submitting\<close>

lemma copy_options_start:
  "ev_mux_copy_options t f0 (Some options) = (True, f) \<Longrightarrow> fr_tx_offset f = 0 \<and> \<not> fr_used f"
  by (drule copy_options_ok) simp

lemma prepare_start:
  assumes "ev_mux_prepare_frame t baud now order f0 (Some options) md ml pl el ticket = (True, f, order')"
  shows "fr_tx_offset f = 0"
proof -
  obtain ok f1 where c: "ev_mux_copy_options t f0 (Some options) = (ok, f1)" by fastforce
  have ok: "ok = True" using assms by (simp add: ev_mux_prepare_frame_def c split: if_splits)
  from copy_options_start [OF c [unfolded ok]] show ?thesis using assms
    by (auto simp: ev_mux_prepare_frame_def c ev_mux_build_header_def Let_def split: if_splits)
qed

lemma special_prepare_start:
  assumes "ev_mux_special_prepare t baud now order f0 options md ml pl ticket = (True, f, order')"
  shows "fr_tx_offset f = 0"
proof -
  obtain ok f1 o1 where p: "ev_mux_prepare_frame t baud now order f0 (Some options) md ml pl
      (encoded_length ml pl) ticket = (ok, f1, o1)" using prod_cases3 by blast
  have ok: "ok = True" and f: "f = f1\<lparr>fr_used := True\<rparr>"
    using assms by (auto simp: ev_mux_special_prepare_def p split: if_splits)
  from prepare_start [OF p [unfolded ok]] show ?thesis by (simp add: f)
qed

lemma claim_large_gentle:
  assumes "special_claim_large malloc m n = (e, m')"
  shows "gentle m m' \<and> (e = None \<longrightarrow> \<not> sp_used (mx_large_frame m'))"
proof (cases "m' = m")
  case True
  then show ?thesis using assms
    by (auto simp: special_claim_large_def Let_def split: if_splits option.splits prod.splits)
next
  case False
  then have used: "\<not> sp_used (mx_large_frame m)"
    using assms by (auto simp: special_claim_large_def split: if_splits)
  obtain h b c s where m': "m' = set_special Large_frame s (m\<lparr>mx_heap := h, mx_large_buffer := b, mx_large_capacity := c\<rparr>)"
      "s = (mx_large_frame m)\<lparr>sp_payload := b\<rparr>"
    using assms False by (auto simp: special_claim_large_def Let_def set_special_def split: if_splits option.splits prod.splits)
  have "gentle m (m\<lparr>mx_heap := h, mx_large_buffer := b, mx_large_capacity := c\<rparr>)"
    by (rule same_frames_gentle) (simp add: same_frames_def)
  moreover have "gentle (m\<lparr>mx_heap := h, mx_large_buffer := b, mx_large_capacity := c\<rparr>) m'"
    unfolding m'(1) using used m'(2)
    by (intro set_special_gentle) (auto simp: unstarted_def frame_at_def)
  ultimately show ?thesis using gentle_trans used m' by (auto simp: set_special_def)
qed

lemma claim_preview_gentle:
  assumes "special_claim_preview malloc m n pool = (e, m')" and pool: "pool < 6"
  shows "gentle m m' \<and> (mux_wf m \<and> e = None \<longrightarrow> unstarted (frame_at m' (Special_place (Preview_frame pool))) \<and>
    sp_kind (mx_preview_frames m' ! pool) = EV_MUX_SPECIAL_PREVIEW \<and>
    sp_pool_index (mx_preview_frames m' ! pool) = pool)"
proof (cases "e = None")
  case False
  then show ?thesis using assms
    by (auto simp: special_claim_preview_def Let_def split: if_splits option.splits prod.splits)
next
  case True
  let ?r = "Preview_frame pool" let ?s = "mx_preview_frames m ! pool"
  have ns: "\<not> (sp_used ?s \<and> fr_tx_offset (sp_frame ?s) \<noteq> 0)"
    using assms(1) True by (auto simp: special_claim_preview_def Let_def split: if_splits)
  then have ns': "(sp_used ?s \<and> 0 < fr_tx_offset (sp_frame ?s)) = False" by simp
  obtain prepared capacity h where b: "ev_mux_special_buffer_prepare malloc (mx_heap m)
      (mx_preview_buffers m ! pool) (mx_preview_capacities m ! pool) n = (Some (prepared, capacity), h)"
    using assms(1) True ns
    by (auto simp: special_claim_preview_def Let_def split: if_splits option.splits prod.splits)
  define m1 where "m1 = m\<lparr>mx_heap := h\<rparr>"
  define m2 where "m2 = replace_pending ?r m1"
  have m1: "gentle m m1" by (rule same_frames_gentle) (simp add: same_frames_def m1_def)
  have g1: "get_special m1 ?r = ?s" by (simp add: get_special_def m1_def)
  have m2: "gentle m1 m2"
  proof (cases "sp_used ?s")
    case True
    let ?mr = "snd (ev_mux_special_release_locked m1 ?r ESP_ERR_INVALID_STATE)"
    have "gentle m1 ?mr" using ns True g1 pool
      by (intro release_gentle) (auto simp: valid_special_def)
    moreover have "gentle ?mr (?mr\<lparr>mx_tx_drop_count := mx_tx_drop_count ?mr + 1\<rparr>)"
      by (rule same_frames_gentle) (simp add: same_frames_def)
    ultimately show ?thesis using True gentle_trans g1 by (simp add: m2_def replace_pending_def Let_def)
  next
    case False
    then show ?thesis using g1 by (simp add: m2_def replace_pending_def)
  qed
  have none: "frame_at m2 (Special_place ?r) = None" if wf: "mux_wf m"
  proof (cases "sp_used ?s")
    case True
    have wf1: "mux_wf m1" using m1 wf by (simp add: gentle_def)
    let ?mr = "snd (ev_mux_special_release_locked m1 ?r ESP_ERR_INVALID_STATE)"
    have "frame_at m2 = frame_at ?mr" unfolding m2_def replace_pending_def Let_def using True g1
      by (simp add: same_frames_live same_frames_def)
    then show ?thesis using release_live [OF wf1, of ?r ?mr] pool by (simp add: valid_special_def)
  next
    case False
    then show ?thesis using g1 by (simp add: m2_def replace_pending_def) (simp add: m1_def frame_at_def)
  qed
  obtain h' bs cs b' where m': "m' = set_special ?r ((mx_preview_frames m2 ! pool)\<lparr>sp_payload := b',
      sp_kind := EV_MUX_SPECIAL_PREVIEW, sp_pool_index := pool\<rparr>)
      (m2\<lparr>mx_heap := h', mx_preview_buffers := bs, mx_preview_capacities := cs\<rparr>)"
  proof -
    have "(case ev_mux_special_buffer_commit (mx_heap m2) (mx_preview_buffers m2 ! pool)
        prepared capacity of (buffer, cap, h1) \<Rightarrow> (None,
           m2\<lparr>mx_heap := h1, mx_preview_buffers := (mx_preview_buffers m2)[pool := buffer],
             mx_preview_capacities := (mx_preview_capacities m2)[pool := cap],
             mx_preview_frames := (mx_preview_frames m2)[pool :=
               (mx_preview_frames m2 ! pool)\<lparr>sp_payload := buffer,
                 sp_kind := EV_MUX_SPECIAL_PREVIEW, sp_pool_index := pool\<rparr>]\<rparr>)) = (e, m')"
      using assms(1) ns' by (simp add: special_claim_preview_def b Let_def m1_def m2_def)
    then show thesis using that by (auto simp: set_special_def split: prod.splits)
  qed
  let ?m3 = "m2\<lparr>mx_heap := h', mx_preview_buffers := bs, mx_preview_capacities := cs\<rparr>"
  have m3: "gentle m2 ?m3" by (rule same_frames_gentle) (simp add: same_frames_def)
  have g: "gentle m m'" unfolding gentle_def
  proof (intro impI)
    assume wf: "mux_wf m"
    have "frame_at ?m3 = frame_at m2" by (rule same_frames_live) (simp add: same_frames_def)
    then have nu: "\<not> sp_used (mx_preview_frames m2 ! pool)"
      using none [OF wf] pool by (simp add: frame_at_def split: if_splits)
    have m4: "gentle ?m3 m'" unfolding m' using nu pool
      by (intro set_special_gentle) (auto simp: unstarted_def frame_at_def)
    have "gentle m m'" by (rule gentle_trans [OF m1 gentle_trans [OF m2 gentle_trans [OF m3 m4]]])
    then show "mux_wf m' \<and> mx_special_partial m' = mx_special_partial m \<and>
        (\<forall>p f. fr_tx_offset f \<noteq> 0 \<longrightarrow> (frame_at m' p = Some f \<longleftrightarrow> frame_at m p = Some f))"
      using wf unfolding gentle_def by blast
  qed
  have "unstarted (frame_at m' (Special_place ?r)) \<and> sp_kind (mx_preview_frames m' ! pool) = EV_MUX_SPECIAL_PREVIEW \<and>
      sp_pool_index (mx_preview_frames m' ! pool) = pool" if wf: "mux_wf m"
  proof -
    have "mux_wf m2" using gentle_trans [OF m1 m2] wf by (simp add: gentle_def)
    then have "length (mx_preview_frames m2) = 6" by (simp add: mux_wf_def)
    moreover have "\<not> sp_used (mx_preview_frames m2 ! pool)"
      using none [OF wf] pool by (simp add: frame_at_def split: if_splits)
    ultimately show ?thesis using pool by (simp add: m' set_special_def unstarted_def frame_at_def)
  qed
  then show ?thesis using g by blast
qed

lemma preview_pool_bound: "preview_pool m = Some p \<Longrightarrow> mux_wf m \<Longrightarrow> p < 2"
  by (auto simp: preview_pool_def mux_wf_def find_Some_iff split: option.splits if_splits)

lemma fill_gentle:
  assumes r: "valid_special r" and f: "fr_tx_offset f = 0"
    and un: "mux_wf m \<Longrightarrow> unstarted (frame_at m (Special_place r))"
    and kind: "\<And>i. r = Preview_frame i \<Longrightarrow> mux_wf m \<Longrightarrow>
      i < 2 \<and> sp_kind (mx_preview_frames m ! i) = EV_MUX_SPECIAL_PREVIEW \<and> sp_pool_index (mx_preview_frames m ! i) = i"
  shows "gentle m (special_fill m r f bytes)"
proof -
  have "gentle m (special_fill m r f bytes)" if wf: "mux_wf m"
  proof (cases r)
    case (Preview_frame i)
    let ?m1 = "m\<lparr>mx_heap := heap_write (sp_payload (mx_preview_frames m ! i)) bytes (mx_heap m),
        mx_preview_pending := Some i\<rparr>"
    have eq: "special_fill m r f bytes =
        set_special r ((mx_preview_frames m ! i)\<lparr>sp_frame := f, sp_used := True\<rparr>) ?m1"
      using kind [OF Preview_frame wf] by (simp add: special_fill_def Preview_frame get_special_def Let_def)
    have l: "frame_at ?m1 = frame_at m" by (rule ext) (auto simp: frame_at_def split: place.split special_ref.split)
    then have "gentle m ?m1" using kind [OF Preview_frame wf] by (auto simp: gentle_def mux_wf_def)
    moreover have "gentle ?m1 (special_fill m r f bytes)" unfolding eq
      using kind [OF Preview_frame wf] un [OF wf] f l
      by (intro set_special_gentle) (auto simp: Preview_frame)
    ultimately show ?thesis by (rule gentle_trans)
  next
    case Large_frame
    let ?m1 = "m\<lparr>mx_heap := heap_write (sp_payload (mx_large_frame m)) bytes (mx_heap m)\<rparr>"
    have eq: "special_fill m r f bytes = set_special r ((mx_large_frame m)\<lparr>sp_frame := f,
        sp_used := True, sp_kind := EV_MUX_SPECIAL_LARGE\<rparr>) ?m1"
      by (simp add: special_fill_def Large_frame get_special_def Let_def)
    have l: "frame_at ?m1 = frame_at m" by (rule same_frames_live) (simp add: same_frames_def)
    have "gentle m ?m1" by (rule same_frames_gentle) (simp add: same_frames_def)
    moreover have "gentle ?m1 (special_fill m r f bytes)" unfolding eq
      using un [OF wf] f l by (intro set_special_gentle) (auto simp: Large_frame)
    ultimately show ?thesis by (rule gentle_trans)
  qed
  then show ?thesis by (auto simp: gentle_def)
qed

lemma enter_gentle:
  assumes fresh: "fr_tx_offset f = 0"
  shows "gentle m (snd (special_enter malloc locked m n large f bytes))"
proof (cases locked)
  case False
  then show ?thesis by (simp add: special_enter_def)
next
  case locked: True
  show ?thesis
  proof (cases large)
    case l: True
    obtain e m2 where c: "special_claim_large malloc m n = (e, m2)" by fastforce
    note g = claim_large_gentle [OF c]
    show ?thesis
    proof (cases e)
      case None
      have "gentle m2 (special_fill m2 Large_frame f bytes)" using g None fresh
        by (intro fill_gentle) (auto simp: valid_special_def unstarted_def frame_at_def)
      then show ?thesis using locked l c None g gentle_trans by (simp add: special_enter_def) blast
    next
      case (Some x)
      then show ?thesis using locked l c g by (simp add: special_enter_def)
    qed
  next
    case l: False
    show ?thesis
    proof (cases "preview_pool m")
      case None
      then show ?thesis using locked l by (simp add: special_enter_def)
    next
      case (Some pool)
      obtain e m2 where c: "special_claim_preview malloc m n pool = (e, m2)" by fastforce
      have r: "snd (special_enter malloc locked m n large f bytes) =
          (case e of None \<Rightarrow> special_fill m2 (Preview_frame pool) f bytes | Some x \<Rightarrow> m2)"
        using locked l Some c by (simp add: special_enter_def split: option.split)
      have "gentle m (snd (special_enter malloc locked m n large f bytes))" if wf: "mux_wf m"
      proof -
        have pool: "pool < 2" by (rule preview_pool_bound [OF Some wf])
        then have "pool < 6" by simp
        note g = claim_preview_gentle [OF c this]
        have "gentle m2 (special_fill m2 (Preview_frame pool) f bytes)" if "e = None"
          using g that pool fresh wf by (intro fill_gentle) (auto simp: valid_special_def)
        then show ?thesis using g gentle_trans r by (cases e) auto
      qed
      then show ?thesis by (auto simp: gentle_def)
    qed
  qed
qed

lemma submit_special_gentle:
  "gentle m (snd (ev_mux_submit_special malloc t baud now locked m o1 md p n large ticket))"
proof -
  have order: "gentle m (m\<lparr>mx_tx_enqueue_order := k\<rparr>)" for k
    by (rule same_frames_gentle) (simp add: same_frames_def)
  consider (same) "snd (ev_mux_submit_special malloc t baud now locked m o1 md p n large ticket) = m"
    | (prep) order f bytes ok where "ev_mux_special_prepare t baud now (mx_tx_enqueue_order m)
        zero_frame o1 md (length md) n ticket = (ok, f, order)"
      "snd (ev_mux_submit_special malloc t baud now locked m o1 md p n large ticket) =
        (if ok then snd (special_enter malloc locked (m\<lparr>mx_tx_enqueue_order := order\<rparr>) n large
              (f\<lparr>fr_frame_timeout_ms := ev_mux_frame_timeout baud (the (op_link o1))
                   (encoded_length (length md) n),
                 fr_priority := (if large then EV_MUX_TX_CONTROL else EV_MUX_TX_PREVIEW)\<rparr>) bytes)
         else m\<lparr>mx_tx_enqueue_order := order\<rparr>)"
    using submit_special_shape [of malloc t baud now locked m o1 md p n large ticket]
    unfolding Let_def by blast
  then show ?thesis
  proof cases
    case same
    then show ?thesis by simp
  next
    case prep
    show ?thesis
    proof (cases "ok = True")
      case True
      have "fr_tx_offset f = 0" by (rule special_prepare_start [OF prep(1) [unfolded True]])
      then show ?thesis unfolding prep(2) if_P [OF True, unfolded True]
        using True by (simp add: gentle_trans [OF order enter_gentle])
    next
      case False
      then show ?thesis using order by (simp add: prep(2))
    qed
  qed
qed

lemma allocate_frames:
  "ev_mux_allocate_blocks m q f n = (ok, f', q', m') \<Longrightarrow>
   tq_frames q' = tq_frames q \<and> same_frames m m' \<and> fr_tx_offset f' = fr_tx_offset f"
  by (auto simp: ev_mux_allocate_blocks_def Let_def same_frames_def split: if_splits option.splits prod.splits)

lemma reserve_frames:
  "ev_mux_tcp_reserve m f n = (ok, f', m') \<Longrightarrow> same_frames m m' \<and> fr_tx_offset f' = fr_tx_offset f"
  by (auto simp: ev_mux_tcp_reserve_def Let_def same_frames_def split: if_split_asm)

lemma rejected_frames: "same_frames m (rejected r m options)"
  by (auto simp: rejected_def ev_mux_record_queue_rejection_def same_frames_def Let_def split: option.split)

lemma release_reservation_frames: "same_frames m (snd (ev_mux_tcp_release_reservation m f))"
  by (simp add: ev_mux_tcp_release_reservation_def Let_def same_frames_def)

lemma enqueue_frame_shape:
  assumes "enqueue_frame t baud now m options md ml payload ticket rr ti i el timeout = (res, m')"
  shows "\<exists>q m2 f. m' = set_target ti q m2 \<and> tq_frames q = (tq_frames (mx_targets m ! ti))[i := f] \<and>
    same_frames m m2 \<and> (fr_used f \<longrightarrow> fr_tx_offset f = 0)"
proof -
  let ?q = "mx_targets m ! ti"
  obtain prepared f0 order where p: "ev_mux_prepare_frame t baud now (mx_tx_enqueue_order m)
      (tq_frames ?q ! i) (Some options) md ml (length payload) el ticket = (prepared, f0, order)"
    using prod_cases3 by blast
  let ?m1 = "m\<lparr>mx_tx_enqueue_order := order\<rparr>"
  have m1: "same_frames m ?m1" by (simp add: same_frames_def)
  obtain reserved f1 m2 where r: "(if ev_mux_queue_is_tcp ?m1 ?q then ev_mux_tcp_reserve ?m1 f0 el
      else (True, f0, ?m1)) = (reserved, f1, m2)" using prod_cases3 by blast
  obtain allocated f2 q2 m3 where a: "ev_mux_allocate_blocks m2 ?q f1 (length payload) =
      (allocated, f2, q2, m3)" using prod_cases4 by blast
  have m2: "same_frames ?m1 m2" "fr_tx_offset f1 = fr_tx_offset f0"
    using r reserve_frames [of ?m1 f0 el reserved f1 m2] by (auto simp: same_frames_def split: if_splits)
  note m3 = allocate_frames [OF a]
  have all: "same_frames m m2" "same_frames m m3"
    using m1 m2(1) m3 same_frames_trans by blast+
  show ?thesis
  proof (cases "prepared \<and> reserved \<and> allocated")
    case True
    then have "prepared = True" "reserved" "allocated" by simp_all
    have "fr_tx_offset f0 = 0" by (rule prepare_start [OF p [unfolded \<open>prepared = True\<close>]])
    then have off: "fr_tx_offset f2 = 0" using m2(2) m3 by simp
    let ?F = "f2\<lparr>fr_frame_timeout_ms := timeout, fr_used := True\<rparr>"
    let ?m3 = "m3\<lparr>mx_slab := (if length payload = 0 then mx_slab m3
        else ev_mux_arena_copy_in q2 ?F payload (mx_slab m3))\<rparr>"
    have "m' = set_target ti (q2\<lparr>tq_frames := (tq_frames q2)[i := ?F], tq_bytes_used := tq_bytes_used q2 + el,
        tq_frames_used := tq_frames_used q2 + 1\<rparr>) ?m3"
      using assms True by (simp add: enqueue_frame_def p r a Let_def)
    moreover have "same_frames m ?m3" using all(2) by (simp add: same_frames_def)
    ultimately show ?thesis using m3 off
      by (intro exI [of _ "q2\<lparr>tq_frames := (tq_frames q2)[i := ?F], tq_bytes_used := tq_bytes_used q2 + el,
        tq_frames_used := tq_frames_used q2 + 1\<rparr>"] exI [of _ ?m3] exI [of _ ?F]) simp
  next
    case False
    let ?c = "\<lambda>q. q\<lparr>tq_frames := (tq_frames q)[i := zero_frame]\<rparr>"
    have "m' = set_target ti (?c ?q) ?m1 \<or> m' = set_target ti (?c ?q) (rejected rr m2 options) \<or>
        m' = set_target ti (?c q2) (snd (ev_mux_tcp_release_reservation m3 f2))"
      using assms False by (auto simp: enqueue_frame_def p r a Let_def split: if_split_asm)
    moreover have "same_frames m (rejected rr m2 options)"
      using all(1) rejected_frames same_frames_trans by blast
    moreover have "same_frames m (snd (ev_mux_tcp_release_reservation m3 f2))"
      using all(2) release_reservation_frames same_frames_trans by blast
    moreover have "tq_frames (?c q2) = (tq_frames ?q)[i := zero_frame]" using m3 by simp
    moreover have "tq_frames (?c ?q) = (tq_frames ?q)[i := zero_frame]" by simp
    moreover note m1 zero_frame_unused
    ultimately show ?thesis by blast
  qed
qed

lemma enqueue_gentle:
  assumes run: "ev_mux_enqueue_normal t baud now locked m options md ml payload ticket rr = (res, m')"
  shows "gentle m m'"
proof (cases "m' = m \<or> m' = rejected rr m options")
  case True
  then show ?thesis using same_frames_gentle [OF rejected_frames] by auto
next
  case False
  let ?el = "encoded_length ml (length payload)"
  obtain ti i where ti: "ev_mux_target_index (op_link options) = Some ti"
      "ev_mux_free_frame_slot (mx_targets m ! ti) = Some i"
      "enqueue_frame t baud now m options md ml payload ticket rr ti i ?el
         (ev_mux_frame_timeout baud (the (op_link options)) ?el) = (res, m')"
    using run False
    by (auto simp: ev_mux_enqueue_normal_def Let_def split: option.splits if_split_asm)
  have b: "ti < 6" "i < 8" "\<not> fr_used (tq_frames (mx_targets m ! ti) ! i)"
    using target_index_bound [OF ti(1)] frame_slot [OF ti(2)] by auto
  from enqueue_frame_shape [OF ti(3)] obtain q m2 f where s: "m' = set_target ti q m2"
    "tq_frames q = (tq_frames (mx_targets m ! ti))[i := f]" "same_frames m m2"
    "fr_used f \<longrightarrow> fr_tx_offset f = 0" by blast
  show ?thesis
  proof (rule put_gentle)
    assume wf: "mux_wf m"
    have m2: "mux_wf m2" "frame_at m2 = frame_at m" "mx_targets m2 = mx_targets m" "mx_special_partial m2 = mx_special_partial m"
      using same_frames_gentle [OF s(3)] same_frames_live [OF s(3)] wf s(3)
      by (auto simp: gentle_def same_frames_def)
    have p: "mx_special_partial (set_target ti q m2) = mx_special_partial m2" by (simp add: set_target_def)
    show "mux_wf m' \<and> mx_special_partial m' = mx_special_partial m \<and>
        frame_at m' = (frame_at m)(Queue_place ti i := (if fr_used f then Some f else None)) \<and>
        unstarted (frame_at m (Queue_place ti i)) \<and> unstarted (if fr_used f then Some f else None)"
      using set_target_live [OF b(1,2) m2(1), of q f] s m2 b p by (auto simp: unstarted_def frame_at_def)
  qed
qed

lemma submit_link_gentle:
  "gentle m (snd (snd (ev_mux_submit_link ready t baud now locked m options md payload n out)))"
proof -
  have tk: "gentle a (a\<lparr>mx_tickets := ts\<rparr>)" for a ts
    by (rule same_frames_gentle) (simp add: same_frames_def)
  have "gentle m (m1\<lparr>mx_tickets := ts'\<rparr>)"
    if "ev_mux_enqueue_normal t baud now locked (m\<lparr>mx_tickets := ts\<rparr>) o1 d k p tkt rr = (res, m1)"
    for ts o1 d k p tkt rr res m1 ts'
    by (rule gentle_trans [OF gentle_trans [OF tk enqueue_gentle [OF that]] tk])
  then show ?thesis
    using submit_link_shape [of ready t baud now locked m options md payload n out]
    unfolding split_beta Let_def by (metis gentle_refl)
qed

section \<open>Observers\<close>

lemma observer_indices_bound: "i \<in> set observer_indices \<Longrightarrow> i < 6"
  by (auto simp: observer_indices_def special_consts)

lemma observer_replace_gentle: "set is \<subseteq> {..<6} \<Longrightarrow> gentle m (observer_replace is m)"
proof (induction "is" arbitrary: m)
  case Nil
  then show ?case by simp
next
  case (Cons i "is")
  let ?m1 = "snd (ev_mux_special_release_locked m (Preview_frame i) ESP_ERR_INVALID_STATE)"
  have "gentle m (ev_mux_record_tx_drop ?m1)"
    if "sp_used (mx_preview_frames m ! i)" "fr_tx_offset (sp_frame (mx_preview_frames m ! i)) = 0"
  proof -
    have "gentle m ?m1" using that Cons.prems
      by (intro release_gentle) (auto simp: valid_special_def get_special_def)
    moreover have "gentle ?m1 (ev_mux_record_tx_drop ?m1)"
      by (rule same_frames_gentle) (simp add: same_frames_def ev_mux_record_tx_drop_def)
    ultimately show ?thesis by (rule gentle_trans)
  qed
  then show ?case using Cons gentle_trans by auto
qed

lemma observer_special_start:
  assumes "observer_special t baud now w md n crc b l s order = (s', order')" and "\<not> sp_used s"
    and "sp_kind s \<noteq> EV_MUX_SPECIAL_LARGE"
  shows "(sp_used s' \<longrightarrow> fr_tx_offset (sp_frame s') = 0) \<and> sp_kind s' \<noteq> EV_MUX_SPECIAL_LARGE"
proof -
  define opts where "opts = \<lparr>op_link = Some l, op_session_id = None, op_vm_epoch = 0,
    op_tx_class = EV_MUX_TX_PREVIEW, op_uart_baud_control = False, op_completion = None,
    op_completion_context = None, op_completion_context_len = 0, op_vm_output_origin = None\<rparr>"
  obtain ok f o1 where p: "ev_mux_special_prepare t baud now order (sp_frame s) opts md (length md) n 0 = (ok, f, o1)"
    using prod_cases3 by blast
  show ?thesis
  proof (cases "ok = True")
    case True
    note f = special_prepare_start [OF p [unfolded True]]
    show ?thesis using assms(1) f
      by (auto simp: observer_special_def opts_def [symmetric] p True Let_def ev_mux_build_header_def
          split: prod.splits if_splits)
  next
    case False
    then show ?thesis using assms
      by (auto simp: observer_special_def opts_def [symmetric] p Let_def)
  qed
qed

lemma observer_frame_gentle: "gentle m (observer_frame t baud now w md n crc b slot m)"
proof (cases "slot_observer t m slot = None \<or>
    find (\<lambda>i. \<not> sp_used (mx_preview_frames m ! i)) observer_indices = None")
  case True
  then show ?thesis by (auto simp: observer_frame_def split: option.splits)
next
  case False
  then obtain l i where l: "slot_observer t m slot = Some l"
    "find (\<lambda>i. \<not> sp_used (mx_preview_frames m ! i)) observer_indices = Some i" by auto
  have i: "i < 6" "\<not> sp_used (mx_preview_frames m ! i)"
    using l(2) observer_indices_bound nth_mem by (fastforce simp: find_Some_iff)+
  obtain s order where s: "observer_special t baud now (w ! unat slot) md n crc b l
      (mx_preview_frames m ! i) (mx_tx_enqueue_order m) = (s, order)" by fastforce
  have eq: "observer_frame t baud now w md n crc b slot m =
      set_special (Preview_frame i) s (m\<lparr>mx_tx_enqueue_order := order\<rparr>)"
    by (simp add: observer_frame_def l s)
  have "gentle m (observer_frame t baud now w md n crc b slot m)" if wf: "mux_wf m"
  proof -
    have k: "sp_kind (mx_preview_frames m ! i) \<noteq> EV_MUX_SPECIAL_LARGE" using wf i(1) by (simp add: mux_wf_def)
    have "gentle m (m\<lparr>mx_tx_enqueue_order := order\<rparr>)"
      by (rule same_frames_gentle) (simp add: same_frames_def)
    moreover have "gentle (m\<lparr>mx_tx_enqueue_order := order\<rparr>) (observer_frame t baud now w md n crc b slot m)"
      unfolding eq using i observer_special_start [OF s i(2) k]
      by (intro set_special_gentle) (auto simp: unstarted_def frame_at_def)
    ultimately show ?thesis by (rule gentle_trans)
  qed
  then show ?thesis by (auto simp: gentle_def)
qed

lemma observer_frames_gentle: "gentle m (fold (observer_frame t baud now w md n crc b) slots m)"
  by (induction slots arbitrary: m) (auto intro: gentle_trans [OF observer_frame_gentle])

lemma publish_gentle:
  "gentle m (snd (ev_mux_preview_publish_observers ready malloc t baud now locked m md p n))"
proof -
  have set: "set observer_indices \<subseteq> {..<6}" using observer_indices_bound by auto
  have r: "gentle m (observer_replace observer_indices (m\<lparr>mx_heap := h\<rparr>))" for h
    by (rule gentle_trans [OF same_frames_gentle observer_replace_gentle [OF set]]) (simp add: same_frames_def)
  have u: "gentle m (m'\<lparr>mx_heap := h, mx_observer_buffers := bs, mx_observer_capacities := cs\<rparr>)"
    if "gentle m m'" for m' h bs cs
    by (rule gentle_trans [OF that same_frames_gentle]) (simp add: same_frames_def)
  show ?thesis
    by (auto simp: ev_mux_preview_publish_observers_def Let_def split: option.split prod.split
        intro: gentle_trans [OF u [OF r] observer_frames_gentle])
qed

lemma subscribe_gentle: "gentle m (snd (ev_mux_preview_subscribe ready t sess locked m link en))"
  by (rule same_frames_gentle) (auto simp: ev_mux_preview_subscribe_def Let_def same_frames_def split: option.split)

end
