(* ===== verification/MuxContent.thy ===== *)
theory MuxContent
  imports MuxLive
begin

text \<open>
  The contents of the queued frames: an accepted frame holds the bytes that were submitted, and
  no later operation changes the bytes of a frame that is still queued.
\<close>

section \<open>Different frames have different addresses\<close>

lemma addresses_apart:
  assumes "blocks_cover a1 b1 n1 len" and "blocks_cover a2 b2 n2 len" and "j < n1" and "k < n2"
    and "a1 = a2 \<Longrightarrow> set b1 \<inter> set b2 = {}" and "a1 \<noteq> a2 \<Longrightarrow> a1 + 16384 \<le> a2 \<or> a2 + 16384 \<le> a1"
  shows "payload_address a1 b1 j \<noteq> payload_address a2 b2 k"
proof
  assume eq: "payload_address a1 b1 j = payload_address a2 b2 k"
  have bounds: "a1 \<le> payload_address a1 b1 j" "a2 \<le> payload_address a2 b2 k"
    by (simp_all add: payload_address_def)
  note b1 = address_bound [OF assms(1,3)] and b2 = address_bound [OF assms(2,4)]
  show False
  proof (cases "a1 = a2")
    case True
    then have "b1 ! (j div 256) = b2 ! (k div 256)"
      using eq address_block [of a1 b1 j] address_block [of a2 b2 k] by simp
    then show False using assms(5) [OF True] b1(3) b2(3) by auto
  next
    case False
    then show False using assms(6) eq bounds b1(1) b2(1) by force
  qed
qed

lemma arenas_apart: "arena_of i \<noteq> arena_of j \<Longrightarrow> arena_of i + 16384 \<le> arena_of j \<or> arena_of j + 16384 \<le> arena_of i"
  by (auto simp: arena_of_def split: if_splits)

lemma arena_eq: "arena_of i = arena_of j \<Longrightarrow> bitmap_of m i = bitmap_of m j"
  by (auto simp: arena_of_def bitmap_of_def split: if_splits)

lemma copy_keeps_payload:
  assumes inv: "mux_inv m" and j: "j < 6" and g: "g \<in># frames_of (mx_targets m ! j)"
    and new: "blocks_cover (arena_of ti) bs (length bytes) (length (mx_slab m))"
    and free: "set bs \<subseteq> free_blocks (bitmap_of m ti)"
    and slab': "copied (arena_of ti) bs bytes 0 (mx_slab m) slab'"
    and q': "tq_arena q' = tq_arena (mx_targets m ! j)"
  shows "payload_of None slab' q' g = payload_of None (mx_slab m) (mx_targets m ! j) g"
proof -
  note u = used_frame_blocks [OF inv j g]
  have "slab' ! payload_address (arena_of j) (fr_blocks g) k =
      mx_slab m ! payload_address (arena_of j) (fr_blocks g) k" if k: "k < fr_payload_len g" for k
  proof -
    have "payload_address (arena_of j) (fr_blocks g) k \<noteq> payload_address (arena_of ti) bs l"
      if "l < length bytes" for l
      using u(2) free arena_eq [of j ti m] arenas_apart [of j ti]
      by (intro addresses_apart [OF u(1) new k that]) auto
    moreover have "payload_address (arena_of j) (fr_blocks g) k < length (mx_slab m)"
      by (rule address_bound(2) [OF u(1) k])
    ultimately show ?thesis using slab' by (simp add: copied_def)
  qed
  then show ?thesis by (simp add: payload_of_def q' u(3))
qed

lemma copied_payload:
  assumes "copied (the (tq_arena q)) (fr_blocks f) bytes 0 slab slab'" and "fr_payload_len f = length bytes"
  shows "payload_of None slab' q f = bytes"
proof (rule nth_equalityI)
  show "length (payload_of None slab' q f) = length bytes" using assms(2) by (simp add: payload_of_def)
next
  fix k assume "k < length (payload_of None slab' q f)"
  then have k: "k < length bytes" using assms(2) by (simp add: payload_of_def)
  then have "slab' ! payload_address (the (tq_arena q)) (fr_blocks f) k = bytes ! k"
    using assms(1) unfolding copied_def by blast
  then show "payload_of None slab' q f ! k = bytes ! k" using k assms(2) by (simp add: payload_of_def)
qed

section \<open>The contents\<close>

definition content_inv :: "mux \<Rightarrow> bool" where
  "content_inv m \<longleftrightarrow>
     (\<forall>ti i f. frame_at m (Queue_place ti i) = Some f \<longrightarrow>
        crc_inv None (mx_slab m) (mx_targets m ! ti) f \<and> fr_tx_offset f < fr_total_len f \<and>
        (fr_tx_offset f \<noteq> 0 \<longrightarrow> fr_header_ready f))"

lemma live_queue:
  "frame_at m (Queue_place ti i) = Some f \<longleftrightarrow>
     ti < 6 \<and> i < 8 \<and> fr_used f \<and> f = tq_frames (mx_targets m ! ti) ! i"
  by (auto simp: frame_at_def)

lemma live_member:
  "mux_inv m \<Longrightarrow> frame_at m (Queue_place ti i) = Some f \<Longrightarrow> f \<in># frames_of (mx_targets m ! ti)"
  by (auto simp: live_queue mux_inv_def queue_inv_def intro!: frames_of_member)

text \<open>A frame that stays as it is.\<close>

lemma crc_inv_cong:
  "payload_of None slab' q' f = payload_of None slab q f \<Longrightarrow>
   payload_ok None slab' q' f = payload_ok None slab q f \<Longrightarrow>
   crc_inv None slab' q' f = crc_inv None slab q f"
  by (simp add: crc_inv_def Let_def)

text \<open>
  The frames of the queues of \<open>m'\<close> are among those of \<open>m\<close>, in the same slots of the same arenas.
\<close>

definition fewer :: "mux \<Rightarrow> mux \<Rightarrow> bool" where
  "fewer m m' \<longleftrightarrow>
     mx_slab m' = mx_slab m \<and> (\<forall>ti<6. tq_arena (mx_targets m' ! ti) = tq_arena (mx_targets m ! ti)) \<and>
     (\<forall>ti i. frame_at m' (Queue_place ti i) = None \<or> frame_at m' (Queue_place ti i) = frame_at m (Queue_place ti i))"

lemma fewer_refl [simp]: "fewer m m"
  by (simp add: fewer_def)

lemma fewer_trans: "fewer a b \<Longrightarrow> fewer b c \<Longrightarrow> fewer a c"
  unfolding fewer_def by metis

lemma same_queues_fewer: "same_queues m m' \<Longrightarrow> fewer m m'"
  by (auto simp: same_queues_def fewer_def frame_at_def)

lemma arena_cong:
  assumes "tq_arena q' = tq_arena q"
  shows "payload_of s slab q' f = payload_of s slab q f" "payload_ok s slab q' f = payload_ok s slab q f"
    "crc_inv s slab q' f = crc_inv s slab q f"
  using assms by (simp_all add: payload_of_def payload_ok_def crc_inv_def Let_def split: option.split)

lemma fewer_content: "fewer m m' \<Longrightarrow> content_inv m \<Longrightarrow> content_inv m'"
  unfolding content_inv_def fewer_def
  by (metis arena_cong(3) live_queue option.distinct(1))

lemma leaves_fewer:
  assumes "mux_wf m" and "ti < 6" and "i < 8" and "left_slot ti i m m'"
  shows "fewer m m'"
proof -
  from assms(4) obtain q m2 where q: "m' = set_target ti q m2" "same_frames m m2"
    "tq_arena q = tq_arena (mx_targets m ! ti)" "mx_slab m2 = mx_slab m"
    unfolding left_slot_def by blast
  have "frame_at m' = (frame_at m)(Queue_place ti i := None)" using leaves_queue [OF assms] by simp
  moreover have "mx_slab m' = mx_slab m" using q by simp
  moreover have "tq_arena (mx_targets m' ! tj) = tq_arena (mx_targets m ! tj)" if "tj < 6" for tj
    using q assms(1,2) that by (cases "tj = ti") (simp_all add: set_target_def same_frames_def mux_wf_def)
  ultimately show ?thesis by (simp add: fewer_def)
qed

lemma finish_fewer:
  "mux_wf m \<Longrightarrow> ti < 6 \<Longrightarrow> i < 8 \<Longrightarrow> fewer m (snd (ev_mux_frame_finish_normal_locked m ti i result))"
  using leaves_fewer finish_left by blast

lemma cancel_frame_fewer: "mux_wf m \<Longrightarrow> ti < 6 \<Longrightarrow> i < 8 \<Longrightarrow> fewer m (snd (cancel_frame m ti i))"
  using leaves_fewer cancel_left by blast

lemma cancel_frames_fewer:
  "mux_wf m \<Longrightarrow> ti < 6 \<Longrightarrow> set is \<subseteq> {..<8} \<Longrightarrow> fewer m (snd (cancel_frames matches ti is m))"
proof (induction "is" arbitrary: m)
  case Nil
  then show ?case by simp
next
  case (Cons i "is")
  obtain c m1 where c: "cancel_frame m ti i = (c, m1)" by fastforce
  have "mux_wf m1" "fewer m m1"
    using leaves_queue [OF Cons.prems(1,2) _ cancel_left, of i] cancel_frame_fewer [OF Cons.prems(1,2), of i] Cons.prems(3)
    by (auto simp: c)
  then have "fewer m (snd (cancel_frames matches ti is m1))"
    using Cons by (auto intro: fewer_trans)
  then show ?case using Cons by (auto simp: Let_def c split: prod.split)
qed

lemma cancel_targets_fewer:
  "mux_wf m \<Longrightarrow> set ts \<subseteq> {..<6} \<Longrightarrow> fewer m (snd (cancel_targets locks e v l s ts m))"
proof (induction ts arbitrary: m)
  case Nil
  then show ?case by simp
next
  case (Cons ti ts)
  obtain cs m1 where c: "(if locks ti then ev_mux_cancel_target_frames m ti e v l s else ([], m)) = (cs, m1)"
    by fastforce
  have all: "set [0..<EV_MUX_QUEUE_FRAMES] \<subseteq> {..<8}" by (auto simp: EV_MUX_QUEUE_FRAMES_def)
  have "ti < 6" using Cons.prems by simp
  then have "fewer m (snd (ev_mux_cancel_target_frames m ti e v l s))"
      "gentle m (snd (ev_mux_cancel_target_frames m ti e v l s))"
    using cancel_frames_fewer [OF Cons.prems(1) _ all] cancel_frames_gentle [OF _ all]
    by (simp_all add: ev_mux_cancel_target_frames_def)
  then have "fewer m m1 \<and> mux_wf m1"
    using Cons.prems(1) c by (cases "locks ti") (auto simp: gentle_def)
  then show ?case using Cons c by (auto split: prod.split intro: fewer_trans) (metis fewer_trans snd_conv)
qed

lemma cancel_everywhere_fewer:
  assumes "mux_wf m"
  shows "fewer m (snd (cancel_frames_everywhere sl locks m e v l s))"
proof -
  let ?rs = "map Preview_frame [0..<EV_MUX_PREVIEW_FRAMES] @ [Large_frame]"
  obtain cs m1 where c: "ev_mux_cancel_special_frames m e v l s = (cs, m1)" by fastforce
  have "list_all valid_special ?rs" by (auto simp: list_all_iff valid_special_def special_consts)
  from cancel_specials_gentle [OF this, of m "frame_matches e v l s"] assms have "mux_wf m1"
    using c by (simp add: ev_mux_cancel_special_frames_def gentle_def)
  moreover have "fewer m m1"
    using same_queues_fewer [OF cancel_specials_queues [of m "frame_matches e v l s" ?rs]] c
    by (simp add: ev_mux_cancel_special_frames_def)
  ultimately show ?thesis using cancel_targets_fewer [OF _ six_targets, of m1 locks e v l s]
    by (auto simp: cancel_frames_everywhere_def c intro: fewer_trans split: prod.split)
qed

section \<open>An accepted frame\<close>

text \<open>The frame \<open>f\<close> with these contents has entered the free slot \<open>i\<close>, and all else is unchanged.\<close>

definition entered ::
  "mux \<Rightarrow> mux \<Rightarrow> nat \<Rightarrow> nat \<Rightarrow> ev_mux_frame \<Rightarrow> string \<Rightarrow> u8 list \<Rightarrow> bool" where
  "entered m m' ti i f metadata payload \<longleftrightarrow>
     ti < 6 \<and> i < 8 \<and> frame_at m (Queue_place ti i) = None \<and>
     frame_at m' = (frame_at m)(Queue_place ti i := Some f) \<and>
     fr_metadata f = metadata \<and> fr_payload_len f = length payload \<and> fr_tx_offset f = 0 \<and>
     fr_total_len f = encoded_length (length metadata) (length payload) \<and>
     crc_inv None (mx_slab m') (mx_targets m' ! ti) f \<and>
     payload_of None (mx_slab m') (mx_targets m' ! ti) f = payload \<and>
     (\<forall>tj j g. frame_at m (Queue_place tj j) = Some g \<longrightarrow>
        payload_of None (mx_slab m') (mx_targets m' ! tj) g = payload_of None (mx_slab m) (mx_targets m ! tj) g \<and>
        payload_ok None (mx_slab m') (mx_targets m' ! tj) g)"

lemma crc32_empty: "ev_mux_crc32 [] = 0"
  by code_simp

lemma crc_inv_fresh:
  assumes "payload_ok None slab q f" and "payload_of None slab q f = payload"
    and "fr_payload_len f = length payload" and "fr_payload_crc_pos f = 0"
    and "fr_payload_crc_state f = 0xFFFFFFFF" and "fr_header_ready f = (length payload = 0)"
    and "fr_header f = header_text (length (fr_metadata f)) (length payload) 0"
    and "header_len (length (fr_metadata f)) (length payload) < EV_MUX_HEADER_MAX"
  shows "crc_inv None slab q f"
  using assms by (simp add: crc_inv_def Let_def crc32_empty)

lemma header_bound: "header_len ml pl < EV_MUX_HEADER_MAX" if "ml \<le> 384" "pl \<le> 262144"
proof -
  have d: "length (decimal n) \<le> k" if "n < 10 ^ k" "0 < k" for n k
    using that
  proof (induction k arbitrary: n)
    case (Suc k)
    show ?case
    proof (cases "n < 10")
      case True
      then show ?thesis by (subst decimal.simps) simp
    next
      case False
      then have "0 < k" using Suc.prems by (cases k) auto
      moreover have "n div 10 < 10 ^ k" using Suc.prems by (simp add: less_mult_imp_div_less mult.commute)
      ultimately have "length (decimal (n div 10)) \<le> k" using Suc.IH by blast
      then show ?thesis using False by (subst decimal.simps) simp
    qed
  qed simp
  have "length (decimal ml) \<le> 3" using that(1) by (intro d) auto
  moreover have "length (decimal pl) \<le> 6" using that(2) by (intro d) auto
  ultimately show ?thesis by (simp add: header_len_def header_text_def EV_MUX_HEADER_MAX_def)
qed

lemma accepted_entered:
  assumes inv: "mux_inv m" and wf: "mux_wf m"
    and run: "ev_mux_enqueue_normal t baud now locked m options md (length md) payload ticket rr = (ESP_OK, m')"
  shows "\<exists>ti i f. ev_mux_target_index (op_link options) = Some ti \<and> entered m m' ti i f md payload \<and>
    fr_link f = the (op_link options) \<and> fr_priority f = op_tx_class options \<and> mux_inv m'"
  using run inv order_refl
proof (cases rule: enqueue_cases)
  case failed
  then show ?thesis by simp
next
  case (accepted ti i f0 order f1 m2 f2 q2 m3)
  let ?q = "mx_targets m ! ti" and ?el = "encoded_length (length md) (length payload)"
  let ?to = "ev_mux_frame_timeout baud (the (op_link options)) ?el"
  define F where "F = f2\<lparr>fr_frame_timeout_ms := ?to, fr_used := True\<rparr>"
  have m': "m' = accepted_state ti i q2 F payload ?el m3" using accepted(9) by (simp add: F_def)
  have ti: "ti < 6" by (rule target_index_bound [OF accepted(2)])
  have i: "i < 8" "\<not> fr_used (tq_frames ?q ! i)" using frame_slot [OF accepted(5)] by auto
  have q: "queue_inv ti ?q" using inv ti by (simp add: mux_inv_def)
  note f0 = prepare_ok [OF accepted(6) order_refl]
  note tcp = queue_tcp_iff [OF inv ti]
  have m2: "mx_targets m2 = mx_targets m" "mx_slab m2 = mx_slab m" "mx_tcp_arena m2 = mx_tcp_arena m"
    "mx_tcp_free_blocks m2 = mx_tcp_free_blocks m" "same_frames m m2"
    using accepted(7) reserve_true(2) [of "m\<lparr>mx_tx_enqueue_order := order\<rparr>" f0 ?el f1 m2] f0
    by (auto simp: same_frames_def split: if_splits)
  have tcp2: "ev_mux_queue_is_tcp m2 ?q \<longleftrightarrow> 3 \<le> ti" using tcp m2(3) by (simp add: ev_mux_queue_is_tcp_def)
  obtain bs bm x where bs: "f2 = f1\<lparr>fr_blocks := bs\<rparr>" "length bs = blocks_needed (length payload)"
      "set bs \<subseteq> {..<64}" "distinct bs"
    and al: "if 3 \<le> ti
       then allocate_from (mx_tcp_free_blocks m) (blocks_needed (length payload)) = (Some (bs, x), bm) \<and>
            q2 = ?q \<and> m3 = m2\<lparr>mx_tcp_free_blocks := bm\<rparr>
       else allocate_from (tq_free_blocks ?q) (blocks_needed (length payload)) = (Some (bs, x), bm) \<and>
            q2 = ?q\<lparr>tq_free_blocks := bm\<rparr> \<and> m3 = m2"
    using allocate_succeeds [OF accepted(8)] unfolding tcp2 m2(4) by blast
  have F: "fr_used F \<and> frame_ok (ev_mux_queue_is_tcp m ?q) F \<and> fr_blocks F = bs \<and>
      fr_payload_len F = length payload \<and> fr_metadata F = md \<and> fr_total_len F = ?el \<and> fr_tx_offset F = 0 \<and>
      frame_discovery F = frame_discovery f0 \<and> frame_low F = frame_low f0 \<and>
      fr_link F = the (op_link options) \<and> fr_priority F = op_tx_class options \<and>
      fr_payload_crc_pos F = 0 \<and> fr_payload_crc_state F = 0xFFFFFFFF \<and> fr_ticket F = ticket \<and>
      fr_header_ready F = (length payload = 0) \<and> fr_header F = header_text (length md) (length payload) 0 \<and>
      \<not> fr_attempted F"
    using accepted_frame [OF accepted(6) order_refl accepted(7) bs(1,2) refl F_def] by simp
  have inv': "mux_inv m'" unfolding m'
    by (rule accepted_inv [OF inv ti i accepted(4,7) _ _ accepted(8)]) (use F f0 tcp bs in auto)
  have q2: "tq_frames q2 = tq_frames ?q" "tq_arena q2 = tq_arena ?q" using al by (auto split: if_splits)
  have m3: "mx_targets m3 = mx_targets m" "mx_slab m3 = mx_slab m" "same_frames m m3"
    using al m2 by (auto simp: same_frames_def split: if_splits)
  have free: "set bs \<subseteq> free_blocks (bitmap_of m ti)"
    using al bp.alloc_some [of _ "blocks_needed (length payload)" bs x bm]
    by (auto simp: bitmap_of_def split: if_splits)
  have arena: "the (tq_arena ?q) = arena_of ti" using q by (simp add: queue_inv_def arena_of_def)
  have cover: "blocks_cover (arena_of ti) bs (length payload) (length (mx_slab m))"
    using bs(2-4) blocks_suffice [of "length payload"] inv
    by (auto simp: blocks_cover_def mux_inv_def arena_of_def)
  have slab: "mx_slab m' = (if payload = [] then mx_slab m
      else copy_in_loop (arena_of ti) bs payload 0 (mx_slab m))"
    using F by (simp add: m' accepted_state_def ev_mux_arena_copy_in_def q2 arena m3)
  have copied: "copied (arena_of ti) bs payload 0 (mx_slab m) (mx_slab m')"
    using copy_in_loop_spec [OF cover, of 0] by (auto simp: slab copied_def)
  have wf3: "mux_wf m3" "frame_at m3 = frame_at m"
    using same_frames_gentle [OF m3(3)] same_frames_live [OF m3(3)] wf by (auto simp: gentle_def)
  have len: "length (mx_targets m) = 6" using wf by (simp add: mux_wf_def)
  have arenas: "tq_arena (mx_targets m' ! tj) = tq_arena (mx_targets m ! tj)" if "tj < 6" for tj
    using len ti that by (cases "tj = ti") (simp_all add: m' accepted_state_def set_target_def m3 q2)
  let ?m4 = "m3\<lparr>mx_slab := mx_slab m'\<rparr>"
  have m4: "same_frames m3 ?m4" by (simp add: same_frames_def)
  have wf4: "mux_wf ?m4" "frame_at ?m4 = frame_at m"
    using same_frames_gentle [OF m4] same_frames_live [OF m4] wf3 by (auto simp: gentle_def)
  have "m' = set_target ti (q2\<lparr>tq_frames := (tq_frames q2)[i := F], tq_bytes_used := tq_bytes_used q2 + ?el,
       tq_frames_used := tq_frames_used q2 + 1\<rparr>) ?m4"
    by (simp add: m' accepted_state_def)
  then have frame_at': "frame_at m' = (frame_at m)(Queue_place ti i := Some F)"
    using set_target_live(2) [OF ti i(1) wf4(1), of "q2\<lparr>tq_frames := (tq_frames q2)[i := F],
        tq_bytes_used := tq_bytes_used q2 + ?el, tq_frames_used := tq_frames_used q2 + 1\<rparr>" F] F wf4(2) m3(1)
    by (simp add: q2)
  have pl: "payload_of None (mx_slab m') (mx_targets m' ! ti) F = payload"
    by (rule copied_payload [where slab = "mx_slab m"]) (use copied F arenas [OF ti] arena in auto)
  have len_slab: "length (mx_slab m') = length (mx_slab m)" using copied by (simp add: copied_def)
  have ok: "payload_ok None (mx_slab m') (mx_targets m' ! ti) F"
    using cover F arenas [OF ti] arena by (simp add: payload_ok_def len_slab)
  have crc: "crc_inv None (mx_slab m') (mx_targets m' ! ti) F"
  proof (rule crc_inv_fresh [OF ok pl])
    have "length md \<le> 384" "length payload \<le> 262144"
      using f0 accepted(3) by (auto simp: EV_MUX_METADATA_MAX_def encoded_length_def)
    then show "header_len (length (fr_metadata F)) (length payload) < EV_MUX_HEADER_MAX"
      using F header_bound by simp
  qed (use F in auto)
  have others: "payload_of None (mx_slab m') (mx_targets m' ! tj) g = payload_of None (mx_slab m) (mx_targets m ! tj) g \<and>
      payload_ok None (mx_slab m') (mx_targets m' ! tj) g"
    if g: "frame_at m (Queue_place tj j) = Some g" for tj j g
  proof -
    have tj: "tj < 6" using g by (simp add: live_queue)
    note mem = live_member [OF inv g]
    show ?thesis
      using copy_keeps_payload [OF inv tj mem cover free copied arenas [OF tj]]
        used_frame_blocks(4) [OF inv tj mem] arenas [OF tj]
      by (simp add: payload_ok_def len_slab)
  qed
  have none: "frame_at m (Queue_place ti i) = None" using i by (simp add: frame_at_def)
  show ?thesis using accepted(2) ti i none frame_at' F crc pl others inv'
    by (intro exI [of _ ti] exI [of _ i] exI [of _ F]) (simp add: entered_def)
qed

end
