(* ===== verification/MuxTurn.thy ===== *)
theory MuxTurn
  imports MuxContent
begin

text \<open>
  One turn of the worker. \<open>tx_inv\<close>: at most one frame of an endpoint has started, and the marker
  of the endpoint names it if it is a special frame. A turn works on the started frame if there is
  one, gives the drivers the next bytes of the frame and nothing else, and only if the session
  permits it.
\<close>

section \<open>Started frames\<close>

definition started_at :: "mux \<Rightarrow> nat \<Rightarrow> place \<Rightarrow> bool" where
  "started_at m ti p \<longleftrightarrow> (\<exists>f. frame_at m p = Some f \<and> fr_tx_offset f \<noteq> 0 \<and> endpoint_of p f = Some ti)"

definition tx_inv :: "mux \<Rightarrow> bool" where
  "tx_inv m \<longleftrightarrow> mux_wf m \<and>
     (\<forall>ti<6. (\<forall>p q. started_at m ti p \<and> started_at m ti q \<longrightarrow> p = q) \<and>
             (\<forall>s. mx_special_partial m ! ti = Some s \<longleftrightarrow> started_at m ti (Special_place s)))"

lemma gentle_started: "gentle m m' \<Longrightarrow> mux_wf m \<Longrightarrow> started_at m' ti p = started_at m ti p"
  unfolding gentle_def started_at_def by blast

lemma gentle_tx_inv: "gentle m m' \<Longrightarrow> tx_inv m \<Longrightarrow> tx_inv m'"
  using gentle_started [of m m'] by (auto simp: tx_inv_def gentle_def)

section \<open>References and places\<close>

definition place_of :: "nat \<Rightarrow> frame_ref \<Rightarrow> place" where
  "place_of ti r = (case r of In_queue i \<Rightarrow> Queue_place ti i | In_special s \<Rightarrow> Special_place s)"

definition valid_ref :: "frame_ref \<Rightarrow> bool" where
  "valid_ref r \<longleftrightarrow> (case r of In_queue i \<Rightarrow> i < 8 | In_special s \<Rightarrow> valid_special s)"

lemma refs_valid:
  "r \<in> set queue_refs \<Longrightarrow> valid_ref r" "r \<in> set special_refs \<Longrightarrow> valid_ref r"
  "valid_ref r \<Longrightarrow> r \<in> set (queue_refs @ special_refs)"
  by (auto simp: queue_refs_def special_refs_def valid_ref_def valid_special_def special_consts
      EV_MUX_QUEUE_FRAMES_def split: frame_ref.splits special_ref.splits)

lemma present_live:
  assumes "ti < 6" and "valid_ref r"
  shows "frame_present m ti r \<longleftrightarrow> (\<exists>f. frame_at m (place_of ti r) = Some f \<and> endpoint_of (place_of ti r) f = Some ti)"
    and "frame_present m ti r \<Longrightarrow> frame_at m (place_of ti r) = Some (get_frame m ti r)"
proof -
  have "(frame_present m ti r \<longleftrightarrow> (\<exists>f. frame_at m (place_of ti r) = Some f \<and> endpoint_of (place_of ti r) f = Some ti))
    \<and> (frame_present m ti r \<longrightarrow> frame_at m (place_of ti r) = Some (get_frame m ti r))"
  proof (cases r)
    case (In_queue i)
    then show ?thesis using assms
      by (auto simp: frame_present_def place_of_def valid_ref_def endpoint_of_def get_frame_def frame_at_def)
  next
    case (In_special s)
    then show ?thesis using assms
      by (simp add: frame_present_def place_of_def valid_ref_def endpoint_of_def get_frame_def live_special)
  qed
  then show "frame_present m ti r \<longleftrightarrow> (\<exists>f. frame_at m (place_of ti r) = Some f \<and> endpoint_of (place_of ti r) f = Some ti)"
    "frame_present m ti r \<Longrightarrow> frame_at m (place_of ti r) = Some (get_frame m ti r)" by auto
qed

lemma started_iff:
  "ti < 6 \<Longrightarrow> valid_ref r \<Longrightarrow> frame_started m ti r \<longleftrightarrow> started_at m ti (place_of ti r)"
  using present_live [of ti r m]
  by (auto simp: frame_started_def started_at_def)

lemma place_inj: "place_of ti r = place_of ti r' \<Longrightarrow> r = r'"
  by (auto simp: place_of_def split: frame_ref.splits)

section \<open>The choice\<close>

lemma better_fold:
  "fold (better now m ti) refs best = (a, b, Some r) \<Longrightarrow>
   r \<in> set refs \<and> frame_candidate now m ti r \<or> snd (snd best) = Some r"
proof (induction refs arbitrary: best)
  case Nil
  then show ?case by simp
next
  case (Cons x xs)
  from Cons.prems have "fold (better now m ti) xs (better now m ti x best) = (a, b, Some r)" by simp
  from Cons.IH [OF this] show ?case
    by (auto simp: better_def Let_def split: prod.splits if_splits)
qed

lemma find_member: "find P xs = Some x \<Longrightarrow> x \<in> set xs \<and> P x"
  by (induction xs) (auto split: if_splits)

lemma choose_present:
  assumes "ev_mux_choose_frame_locked now m ti sl = Some r" and "ti < 6"
  shows "frame_present m ti r \<and> valid_ref r \<and> (frame_started m ti r \<or> \<not> queue_expired now (get_frame m ti r))"
proof -
  let ?refs = "queue_refs @ (if sl then special_refs else [])"
  have valid: "x \<in> set ?refs \<Longrightarrow> valid_ref x" for x using refs_valid(1,2) by (auto split: if_splits)
  show ?thesis
  proof (cases "find (frame_started m ti) ?refs")
    case (Some x)
    then have "r = x" using assms(1) by (auto simp: ev_mux_choose_frame_locked_def Let_def split: if_splits)
    moreover have "x \<in> set ?refs" "frame_started m ti x" using find_member [OF Some] by auto
    ultimately show ?thesis using valid by (auto simp: frame_started_def)
  next
    case None
    then have f: "snd (snd (fold (better now m ti) ?refs (100, 0, None))) = Some r"
      using assms(1) by (auto simp: ev_mux_choose_frame_locked_def Let_def split: if_splits)
    obtain a b c where abc: "fold (better now m ti) ?refs (100, 0, None) = (a, b, c)" using prod_cases3 by blast
    then have "c = Some r" using f by simp
    from better_fold [OF abc [unfolded this]] show ?thesis using valid by (auto simp: frame_candidate_def)
  qed
qed

lemma choose_started:
  assumes inv: "tx_inv m" and ti: "ti < 6" and s: "started_at m ti p"
    and c: "ev_mux_choose_frame_locked now m ti sl = Some r"
  shows "place_of ti r = p"
proof -
  let ?refs = "queue_refs @ (if sl then special_refs else [])"
  obtain r0 where r0: "valid_ref r0" "place_of ti r0 = p" "r0 \<in> set ?refs"
  proof (cases p)
    case (Queue_place tj j)
    have "tj = ti \<and> j < 8" using s by (auto simp: Queue_place started_at_def endpoint_of_def frame_at_def split: if_splits)
    then show thesis using that [of "In_queue j"] refs_valid(1)
      by (auto simp: Queue_place place_of_def valid_ref_def queue_refs_def EV_MUX_QUEUE_FRAMES_def)
  next
    case (Special_place k)
    have v: "valid_special k" using s
      by (auto simp: Special_place started_at_def frame_at_def valid_special_def split: special_ref.splits if_splits)
    have "mx_special_partial m ! ti = Some k" using inv ti s by (simp add: tx_inv_def Special_place)
    then have sl: "sl" using c by (auto simp: ev_mux_choose_frame_locked_def split: if_splits)
    have "In_special k \<in> set special_refs"
      using refs_valid(3) [of "In_special k"] v by (auto simp: valid_ref_def queue_refs_def)
    then show thesis using that [of "In_special k"] v sl by (simp add: Special_place place_of_def valid_ref_def)
  qed
  have st: "frame_started m ti r0" using started_iff [OF ti r0(1)] r0(2) s by simp
  then obtain x where x: "find (frame_started m ti) ?refs = Some x"
    using r0(3) by (cases "find (frame_started m ti) ?refs") (auto simp: find_None_iff)
  then have "r = x" using c by (auto simp: ev_mux_choose_frame_locked_def Let_def split: if_splits)
  moreover have "x \<in> set ?refs" "frame_started m ti x" using find_member [OF x] by auto
  moreover from this(1) have "valid_ref x" using refs_valid(1,2) by (auto split: if_splits)
  ultimately have "started_at m ti (place_of ti r)" using started_iff [OF ti] by blast
  then show ?thesis using inv ti s unfolding tx_inv_def by blast
qed

section \<open>Changing the chosen frame\<close>

text \<open>Nothing but counters and the like.\<close>

definition kept :: "mux \<Rightarrow> mux \<Rightarrow> bool" where
  "kept m m' \<longleftrightarrow>
     (mux_inv m \<longrightarrow> mux_inv m') \<and> (mux_wf m \<longrightarrow> mux_wf m') \<and> frame_at m' = frame_at m \<and> mx_slab m' = mx_slab m \<and>
     (\<forall>ti<6. tq_arena (mx_targets m' ! ti) = tq_arena (mx_targets m ! ti)) \<and>
     (mux_wf m \<longrightarrow> length (mx_special_partial m') = length (mx_special_partial m))"

text \<open>The frame of place \<open>p\<close> is now \<open>g\<close>.\<close>

definition changed :: "place \<Rightarrow> ev_mux_frame \<Rightarrow> mux \<Rightarrow> mux \<Rightarrow> bool" where
  "changed p g m m' \<longleftrightarrow>
     (mux_inv m \<longrightarrow> mux_inv m') \<and> mux_wf m' \<and> frame_at m' = (frame_at m)(p := Some g) \<and> mx_slab m' = mx_slab m \<and>
     (\<forall>ti<6. tq_arena (mx_targets m' ! ti) = tq_arena (mx_targets m ! ti))"

lemma changed_trans: "changed p g m m' \<Longrightarrow> changed p h m' m'' \<Longrightarrow> changed p h m m''"
  by (simp add: changed_def)

lemma changed_kept: "changed p g m m' \<Longrightarrow> kept m' m'' \<Longrightarrow> changed p g m m''"
  by (simp add: changed_def kept_def)

lemma kept_changed: "kept m m' \<Longrightarrow> changed p g m' m'' \<Longrightarrow> changed p g m m''"
  by (simp add: changed_def kept_def)

lemma changed_refl: "mux_wf m \<Longrightarrow> frame_at m p = Some g \<Longrightarrow> changed p g m m"
  by (simp add: changed_def fun_upd_idem)

lemma counters_kept:
  "same_queues m m' \<Longrightarrow> same_frames m m' \<Longrightarrow> kept m m'"
  using same_queues_inv [of m m'] same_frames_live [of m m'] same_frames_gentle [of m m']
  by (auto simp: kept_def same_queues_def gentle_def)

lemma congested_kept:
  assumes "ti < 6" and "mux_wf m" and "q = (mx_targets m ! ti)\<lparr>tq_congested := c, tq_congested_at_ms := a\<rparr>"
  shows "kept m (set_target ti q m)"
proof -
  let ?m' = "set_target ti q m"
  have l: "length (mx_targets m) = 6" using assms(2) by (simp add: mux_wf_def)
  have t: "mx_targets ?m' ! tj = (if tj = ti then q else mx_targets m ! tj)" if "tj < 6" for tj
    using l that by (simp add: set_target_def nth_list_update)
  have fr: "tq_frames (mx_targets ?m' ! tj) = tq_frames (mx_targets m ! tj)" if "tj < 6" for tj
    using t [OF that] assms(3) by simp
  have "same_accounts m ?m'"
    using t l assms(3) frames_of_cong [of q "mx_targets m ! ti"]
    by (simp add: same_accounts_def Let_def) (simp add: set_target_def)
  moreover have "mux_wf m \<longrightarrow> mux_wf ?m'"
    using fr l by (simp add: mux_wf_def) (simp add: set_target_def)
  moreover have "frame_at ?m' = frame_at m"
  proof (rule ext)
    fix p
    show "frame_at ?m' p = frame_at m p"
      using fr by (cases p) (auto simp: frame_at_def set_target_def split: special_ref.split)
  qed
  ultimately show ?thesis using same_accounts_inv t assms(3)
    by (auto simp: kept_def) (simp add: set_target_def)+
qed

lemma set_frame_changed:
  assumes wf: "mux_wf m" and ti: "ti < 6" and r: "valid_ref r" "frame_present m ti r"
    and g: "same_account (get_frame m ti r) g"
  shows "changed (place_of ti r) g m (set_frame ti r g m)"
    and "mx_special_partial (set_frame ti r g m) = mx_special_partial m"
    and "get_frame (set_frame ti r g m) ti r = g"
proof -
  have inv: "mux_inv m \<longrightarrow> mux_inv (set_frame ti r g m)"
  proof
    assume "mux_inv m"
    then show "mux_inv (set_frame ti r g m)"
      by (rule set_frame_inv [OF _ ti r(2) g]) (use r(1) in \<open>simp add: valid_ref_def\<close>)
  qed
  show "mx_special_partial (set_frame ti r g m) = mx_special_partial m"
    by (auto simp: set_frame_def set_target_def set_special_def split: frame_ref.split special_ref.split)
  have "changed (place_of ti r) g m (set_frame ti r g m) \<and> get_frame (set_frame ti r g m) ti r = g"
  proof (cases r)
    case (In_queue i)
    let ?q = "(mx_targets m ! ti)\<lparr>tq_frames := (tq_frames (mx_targets m ! ti))[i := g]\<rparr>"
    have i: "i < 8" using r(1) In_queue by (simp add: valid_ref_def)
    have used: "fr_used g" using r(2) g In_queue
      by (simp add: same_account_def frame_present_def get_frame_def)
    have l: "length (mx_targets m) = 6" "length (tq_frames (mx_targets m ! ti)) = 8"
      using wf ti by (simp_all add: mux_wf_def)
    have s: "set_frame ti (In_queue i) g m = set_target ti ?q m" by (simp add: set_frame_def)
    have "tq_arena (mx_targets (set_target ti ?q m) ! tj) = tq_arena (mx_targets m ! tj)" if "tj < 6" for tj
      using l that ti by (cases "tj = ti") (simp_all add: set_target_def)
    then show ?thesis
      using set_target_live [OF ti i wf, of ?q g] inv used l ti i
      by (simp add: changed_def s place_of_def In_queue get_frame_def) (simp add: set_target_def)
  next
    case (In_special k)
    let ?s = "(get_special m k)\<lparr>sp_frame := g\<rparr>"
    have s: "set_frame ti (In_special k) g m = set_special k ?s m" by (simp add: set_frame_def)
    have used: "sp_used ?s" using r(2) by (simp add: frame_present_def In_special)
    have v: "valid_special k" using r(1) by (simp add: valid_ref_def In_special)
    have ok: "case k of Preview_frame i \<Rightarrow> i < 6 \<and> sp_kind ?s \<noteq> EV_MUX_SPECIAL_LARGE | Large_frame \<Rightarrow> True"
      using v wf by (auto simp: valid_special_def get_special_def mux_wf_def split: special_ref.splits)
    have "mx_slab (set_special k ?s m) = mx_slab m" "mx_targets (set_special k ?s m) = mx_targets m"
      by (simp_all add: set_special_def split: special_ref.split)
    moreover have "get_special (set_special k ?s m) k = ?s"
      using v wf by (auto simp: get_special_def set_special_def valid_special_def mux_wf_def split: special_ref.splits)
    ultimately show ?thesis using set_special_live [OF wf ok] inv used
      by (simp add: changed_def s place_of_def In_special get_frame_def)
  qed
  then show "changed (place_of ti r) g m (set_frame ti r g m)" "get_frame (set_frame ti r g m) ti r = g" by auto
qed

lemma changed_get:
  assumes "changed (place_of ti r) g m m'" and "ti < 6" and "valid_ref r" and "endpoint_of (place_of ti r) g = Some ti"
  shows "frame_present m' ti r" and "get_frame m' ti r = g"
  using assms present_live [OF assms(2,3), of m'] by (simp_all add: changed_def)

section \<open>Progress\<close>

lemma partial_kept:
  "kept m (m\<lparr>mx_special_partial := (mx_special_partial m)[k := x]\<rparr>)"
proof -
  have "same_queues m (m\<lparr>mx_special_partial := (mx_special_partial m)[k := x]\<rparr>)" by (simp add: same_queues_def)
  moreover have "frame_at (m\<lparr>mx_special_partial := (mx_special_partial m)[k := x]\<rparr>) = frame_at m"
    by (rule ext) (simp add: frame_at_def split: place.split special_ref.split)
  ultimately show ?thesis using same_queues_inv by (auto simp: kept_def mux_wf_def)
qed

lemma present_target:
  "frame_present m ti (In_special s) \<Longrightarrow> ev_mux_target_index (Some (fr_link (get_frame m ti (In_special s)))) = Some ti"
  by (simp add: frame_present_def)

lemma tx_progress_spec:
  assumes wf: "mux_wf m" and ti: "ti < 6" and r: "valid_ref r" "frame_present m ti r"
    and run: "tx_progress env m ti r k = (oc, m')"
  defines "f \<equiv> get_frame m ti r"
  defines "g \<equiv> f\<lparr>fr_last_progress_ms := te_progress_ms env, fr_tx_offset := fr_tx_offset f + k\<rparr>"
  shows "changed (place_of ti r) g m m'"
    and "oc_result oc = (if fr_total_len f \<le> fr_tx_offset g then Some ESP_OK else None)"
    and "mx_special_partial m' = (case r of
          In_special s \<Rightarrow> if fr_tx_offset g < fr_total_len f then (mx_special_partial m)[ti := Some s]
                          else mx_special_partial m
        | In_queue i \<Rightarrow> mx_special_partial m)"
proof -
  define m1 where "m1 = (case r of
      In_special s \<Rightarrow>
        if sp_kind (get_special m s) = EV_MUX_SPECIAL_PREVIEW \<and> fr_tx_offset f = 0
        then m\<lparr>mx_preview_pending := (if mx_preview_pending m = Some (sp_pool_index (get_special m s))
                                     then None else mx_preview_pending m),
               mx_preview_active := Some (sp_pool_index (get_special m s))\<rparr>
        else m
    | In_queue i \<Rightarrow> m)"
  have m1: "same_queues m m1" "same_frames m m1"
    by (auto simp: m1_def same_queues_def same_frames_def split: frame_ref.split)
  have k1: "kept m m1" by (rule counters_kept [OF m1])
  have wf1: "mux_wf m1" using k1 wf by (simp add: kept_def)
  have f1: "get_frame m1 ti r = f" "frame_present m1 ti r"
    using m1(2) r(2) by (auto simp: f_def get_frame_def frame_present_def get_special_def same_frames_def
        split: frame_ref.splits special_ref.splits)
  have acc: "same_account (get_frame m1 ti r) g" by (simp add: f1 g_def same_account_def)
  define m2 where "m2 = set_frame ti r g m1"
  note m2 = set_frame_changed [OF wf1 ti r(1) f1(2) acc, folded m2_def]
  define m3 where "m3 = (case r of
      In_special s \<Rightarrow>
        if fr_tx_offset g < fr_total_len g
        then case ev_mux_target_index (Some (fr_link g)) of None \<Rightarrow> m2
             | Some k \<Rightarrow> m2\<lparr>mx_special_partial := (mx_special_partial m2)[k := Some s]\<rparr>
        else m2
    | In_queue i \<Rightarrow> m2)"
  have tgt: "ev_mux_target_index (Some (fr_link g)) = Some ti" if "r = In_special s" for s
    using present_target [of m ti s] r(2) that by (simp add: g_def f_def)
  have m3: "m3 = (case r of
      In_special s \<Rightarrow> if fr_tx_offset g < fr_total_len f
        then m2\<lparr>mx_special_partial := (mx_special_partial m2)[ti := Some s]\<rparr> else m2
    | In_queue i \<Rightarrow> m2)"
    using tgt by (auto simp: m3_def g_def split: frame_ref.split)
  have k3: "kept m2 m3" using partial_kept [of m2] counters_kept [of m2 m2]
    by (auto simp: m3 same_frames_def split: frame_ref.split)
  have run': "oc = unfinished\<lparr>oc_result := (if fr_total_len g \<le> fr_tx_offset g then Some ESP_OK else None)\<rparr>"
    "m' = set_target ti ((mx_targets m3 ! ti)\<lparr>tq_congested := False\<rparr>) m3"
    using run unfolding tx_progress_def Let_def m3_def m2_def m1_def g_def f_def by (auto cong: frame_ref.case_cong)
  show "oc_result oc = (if fr_total_len f \<le> fr_tx_offset g then Some ESP_OK else None)"
    by (simp add: run'(1) g_def)
  have c3: "changed (place_of ti r) g m m3"
    by (rule changed_kept [OF kept_changed [OF k1 m2(1)] k3])
  then have wf3: "mux_wf m3" by (simp add: changed_def)
  have "kept m3 m'" unfolding run'(2)
    by (rule congested_kept [OF ti wf3, where c = False and a = "tq_congested_at_ms (mx_targets m3 ! ti)"]) simp
  then show "changed (place_of ti r) g m m'" by (rule changed_kept [OF c3])
  have "mx_special_partial m' = mx_special_partial m3" by (simp add: run'(2) set_target_def)
  also have "mx_special_partial m2 = mx_special_partial m" using m2(2) m1(2) by (simp add: same_frames_def)
  then have "mx_special_partial m3 = (case r of
          In_special s \<Rightarrow> if fr_tx_offset g < fr_total_len f then (mx_special_partial m)[ti := Some s]
                          else mx_special_partial m
        | In_queue i \<Rightarrow> mx_special_partial m)"
    by (simp add: m3 split: frame_ref.split)
  finally show "mx_special_partial m' = (case r of
          In_special s \<Rightarrow> if fr_tx_offset g < fr_total_len f then (mx_special_partial m)[ti := Some s]
                          else mx_special_partial m
        | In_queue i \<Rightarrow> mx_special_partial m)" .
qed

section \<open>An attempt\<close>

text \<open>
  What a turn does to the chosen frame \<open>f\<close>, which becomes \<open>g\<close>: the cursor moves only by a write,
  and then the frame is at its end or its endpoint is marked.
\<close>

definition advanced ::
  "nat \<Rightarrow> frame_ref \<Rightarrow> mux \<Rightarrow> mux \<Rightarrow> ev_mux_frame \<Rightarrow> ev_mux_frame \<Rightarrow> esp_err option \<Rightarrow> bool" where
  "advanced ti r m m' f g result \<longleftrightarrow>
     changed (place_of ti r) g m m' \<and> same_account f g \<and> same_content f g \<and> fr_link g = fr_link f \<and>
     (fr_tx_offset g = fr_tx_offset f \<and> mx_special_partial m' = mx_special_partial m \<or>
      fr_tx_offset f < fr_tx_offset g \<and> fr_header_ready g \<and>
      (if fr_total_len f \<le> fr_tx_offset g
       then result = Some ESP_OK \<and> mx_special_partial m' = mx_special_partial m
       else result = None \<and>
            mx_special_partial m' = (case r of In_special s \<Rightarrow> (mx_special_partial m)[ti := Some s]
                                     | In_queue i \<Rightarrow> mx_special_partial m)))"

lemma crc_inv_progress:
  "crc_inv s slab q (f\<lparr>fr_last_progress_ms := a, fr_tx_offset := b\<rparr>) = crc_inv s slab q f"
  "crc_inv s slab q (f\<lparr>fr_attempted := c, fr_start_ms := a, fr_last_progress_ms := d\<rparr>) = crc_inv s slab q f"
  "crc_inv s slab q (f\<lparr>fr_frame_timeout_ms := a\<rparr>) = crc_inv s slab q f"
  by (cases s; simp add: crc_inv_def payload_of_def payload_ok_def)+

lemma kept_special_partial: "kept m m' \<Longrightarrow> mux_wf m \<Longrightarrow> length (mx_special_partial m') = length (mx_special_partial m)"
  by (simp add: kept_def)

text \<open>What a write offers depends on the bytes of the frame only.\<close>

definition same_bytes :: "ev_mux_frame \<Rightarrow> ev_mux_frame \<Rightarrow> bool" where
  "same_bytes f g \<longleftrightarrow> same_content f g \<and> fr_header g = fr_header f \<and> fr_link g = fr_link f \<and>
     fr_tx_offset g = fr_tx_offset f"

lemma segment_cong:
  "same_bytes f g \<Longrightarrow> tq_arena q' = tq_arena q \<Longrightarrow>
   ev_mux_frame_segment s slab q' g = ev_mux_frame_segment s slab q f"
  by (rule ext) (simp add: same_bytes_def same_content_def ev_mux_frame_segment_def Let_def payload_segment_def
      ev_mux_payload_pointer_def split: option.split)

lemma vectors_cong:
  "segment_of m' ti r = segment_of m ti r \<Longrightarrow> fr_total_len (get_frame m' ti r) = fr_total_len (get_frame m ti r) \<Longrightarrow>
   tx_vectors m' ti r n k l = tx_vectors m ti r n k l"
  by (induction m ti r n k l rule: tx_vectors.induct) (simp_all add: Let_def)

lemma set_special_heap [simp]: "mx_heap (set_special s x m) = mx_heap m"
  by (simp add: set_special_def split: special_ref.split)

lemma set_frame_special_payload: "special_payload (set_frame ti r g m) r = special_payload m r"
  if "valid_ref r" "mux_wf m"
  using that by (auto simp: special_payload_def set_frame_def set_special_def get_special_def valid_ref_def
      valid_special_def mux_wf_def split: frame_ref.split special_ref.splits option.split)

lemma write_cong:
  assumes wf: "mux_wf m" and ti: "ti < 6" and r: "valid_ref r" "frame_present m ti r"
    and g: "same_bytes (get_frame m ti r) g" "same_account (get_frame m ti r) g"
  shows "tx_write env (set_frame ti r g m) t ti r d = tx_write env m t ti r d"
proof -
  let ?m = "set_frame ti r g m"
  note c = set_frame_changed [OF wf ti r g(2)]
  have "segment_of ?m ti r = segment_of m ti r"
    using c(1,3) g(1) ti set_frame_special_payload [OF r(1) wf]
    by (auto simp: segment_of_def changed_def intro!: ext fun_cong [OF segment_cong])
  moreover have "fr_link g = fr_link (get_frame m ti r)" "fr_tx_offset g = fr_tx_offset (get_frame m ti r)"
    "fr_total_len g = fr_total_len (get_frame m ti r)"
    using g by (simp_all add: same_bytes_def same_account_def)
  ultimately show ?thesis using c(3) vectors_cong [of ?m ti r m]
    unfolding tx_write_def Let_def by simp
qed

definition moved :: "ev_io_result \<Rightarrow> nat \<Rightarrow> nat" where
  "moved io offered = (if io_status io = EV_IO_PROGRESS \<and> io_transferred io \<le> offered then io_transferred io else 0)"

lemma tx_attempt_spec:
  assumes wf: "mux_wf m" and ti: "ti < 6" and r: "valid_ref r" "frame_present m ti r"
    and run: "tx_attempt env m t ti r d = (oc, m', d')" and ready: "fr_header_ready (get_frame m ti r)"
  shows "\<exists>g io offered. advanced ti r m m' (get_frame m ti r) g (oc_result oc) \<and>
    (\<forall>s slab q. crc_inv s slab q (get_frame m ti r) \<longrightarrow> crc_inv s slab q g) \<and>
    fr_header_ready g \<and> tx_write env m t ti r d = (io, offered, d') \<and>
    fr_tx_offset g = fr_tx_offset (get_frame m ti r) + moved io offered"
proof -
  define f where "f = get_frame m ti r"
  define h where "h = (if fr_attempted f then f
      else f\<lparr>fr_attempted := True, fr_start_ms := te_now_ms env, fr_last_progress_ms := te_now_ms env\<rparr>)"
  define m1 where "m1 = (if fr_attempted f then m else set_frame ti r h m)"
  have h: "same_account f h" "same_content f h" "fr_link h = fr_link f" "fr_tx_offset h = fr_tx_offset f"
    "fr_header h = fr_header f" "fr_header_ready h = fr_header_ready f" "fr_total_len h = fr_total_len f"
    "crc_inv s slab q h = crc_inv s slab q f" for s slab q
    by (simp_all add: h_def same_account_def same_content_def crc_inv_progress)
  have c1: "changed (place_of ti r) h m m1" "mx_special_partial m1 = mx_special_partial m" "get_frame m1 ti r = h"
  proof -
    have "frame_at m (place_of ti r) = Some f" using present_live(2) [OF ti r(1) r(2)] by (simp add: f_def)
    then show "changed (place_of ti r) h m m1" "mx_special_partial m1 = mx_special_partial m" "get_frame m1 ti r = h"
      using set_frame_changed [OF wf ti r, of h] h(1) changed_refl [OF wf]
      by (auto simp: m1_def f_def h_def)
  qed
  have wf1: "mux_wf m1" using c1(1) by (simp add: changed_def)
  have ep: "endpoint_of (place_of ti r) h = Some ti"
    using present_live [OF ti r(1), of m] r(2) h(3) by (auto simp: endpoint_of_def f_def split: place.splits)
  note p1 = changed_get [OF c1(1) ti r(1) ep]
  obtain io offered d1 where w: "tx_write env m1 t ti r d = (io, offered, d1)" using prod_cases3 by blast
  have m1': "m1 = (if fr_attempted f then m
      else set_frame ti r (f\<lparr>fr_attempted := True, fr_start_ms := te_now_ms env,
                            fr_last_progress_ms := te_now_ms env\<rparr>) m)" by (simp add: m1_def h_def)
  have run': "(oc, m', d') =
      (if io_status io = EV_IO_PROGRESS \<and> 0 < io_transferred io \<and> io_transferred io \<le> offered
       then let (o1, m2) = tx_progress env m1 ti r (io_transferred io) in (o1, m2, d1)
       else if io_status io = EV_IO_WOULD_BLOCK then (unfinished, m1, d1)
       else
         (\<lparr>oc_result = Some (if io_error io \<noteq> ESP_OK then io_error io else ESP_FAIL),
           oc_partial = (fr_tx_offset f \<noteq> 0),
           oc_close = (lr_transport_id (fr_link f) = EV_TRANSPORT_TCP), oc_stale = False\<rparr>,
          set_target ti ((mx_targets m1 ! ti)\<lparr>tq_congested := True,
            tq_congested_at_ms := te_now_ms env\<rparr>) m1, d1))"
    using run w unfolding tx_attempt_def Let_def m1' f_def by simp
  have d: "d' = d1" using run' by (auto split: if_split_asm prod.splits)
  have "same_bytes f h" using h(2-5) by (simp add: same_bytes_def)
  then have w': "tx_write env m t ti r d = (io, offered, d1)"
    using w write_cong [OF wf ti r, of h env t d] h(1)
    by (cases "fr_attempted f") (simp_all only: m1_def f_def if_True if_False)
  have "\<exists>g. advanced ti r m m' f g (oc_result oc) \<and>
      (\<forall>s slab q. crc_inv s slab q f \<longrightarrow> crc_inv s slab q g) \<and> fr_header_ready g \<and>
      fr_tx_offset g = fr_tx_offset f + moved io offered"
  proof (cases "io_status io = EV_IO_PROGRESS \<and> 0 < io_transferred io \<and> io_transferred io \<le> offered")
    case True
    define k where "k = io_transferred io"
    define g where "g = h\<lparr>fr_last_progress_ms := te_progress_ms env, fr_tx_offset := fr_tx_offset h + k\<rparr>"
    have pr: "tx_progress env m1 ti r k = (oc, m')" using run' True by (auto simp: k_def split: prod.splits)
    note P = tx_progress_spec [OF wf1 ti r(1) p1(1) pr, unfolded p1(2), folded g_def]
    have acc: "same_account f g" "same_content f g" "fr_link g = fr_link f"
      using h(1-3) by (simp_all add: g_def same_account_def same_content_def)
    have crc: "crc_inv s slab q g = crc_inv s slab q f" for s slab q
      unfolding g_def crc_inv_progress by (rule h(8))
    have adv: "fr_header_ready g" "fr_tx_offset f < fr_tx_offset g"
      using h(4,6) ready True by (simp_all add: g_def k_def f_def)
    note g = acc adv(1) crc adv(2)
    have "advanced ti r m m' f g (oc_result oc)"
      using changed_trans [OF c1(1) P(1)] P(2,3) g h(7) c1(2)
      by (auto simp: advanced_def not_le split: frame_ref.split)
    moreover have "fr_tx_offset g = fr_tx_offset f + moved io offered"
      using True h(4) by (simp add: g_def k_def moved_def)
    ultimately show ?thesis using g(4,5) by blast
  next
    case False
    have "kept m1 m'" "mx_special_partial m' = mx_special_partial m1"
    proof -
      have "kept m1 m1" by (rule counters_kept) (simp_all add: same_frames_def)
      then show "kept m1 m'"
        using run' False congested_kept [OF ti wf1, where c = True and a = "te_now_ms env"] by (auto split: if_split_asm)
      show "mx_special_partial m' = mx_special_partial m1"
        using run' False by (auto simp: set_target_def split: if_split_asm)
    qed
    then have "advanced ti r m m' f h (oc_result oc)"
      using changed_kept [OF c1(1)] h c1(2) by (simp add: advanced_def)
    moreover have "fr_tx_offset h = fr_tx_offset f + moved io offered"
      using False h(4) by (auto simp: moved_def)
    moreover have "fr_header_ready h" using ready h(6) by (simp add: f_def)
    ultimately show ?thesis using h(8) by blast
  qed
  then show ?thesis using w' unfolding d f_def [symmetric] by blast
qed

section \<open>The checksum step\<close>

lemma crc_chunks_keeps:
  "\<exists>a b. crc_chunks special slab q stop f = f\<lparr>fr_payload_crc_state := a, fr_payload_crc_pos := b\<rparr>"
proof (induction special slab q stop f rule: crc_chunks.induct)
  case (1 special slab q stop f)
  show ?case
  proof (cases "fr_payload_crc_pos f < stop \<and> min (stop - fr_payload_crc_pos f)
                      (snd (ev_mux_payload_pointer (special \<noteq> None) q f (fr_payload_crc_pos f))) \<noteq> 0")
    case False
    then have "crc_chunks special slab q stop f = f" by (subst crc_chunks.simps) (auto simp: Let_def)
    then show ?thesis by (intro exI [of _ "fr_payload_crc_state f"] exI [of _ "fr_payload_crc_pos f"]) simp
  next
    case True
    then show ?thesis using "1.IH" [OF _ refl refl]
      by (subst crc_chunks.simps) (auto simp: Let_def min_def)
  qed
qed

lemma crc_step_keeps:
  assumes "ev_mux_frame_crc_step special slab q f = (ready, g)"
  shows "same_account f g" and "same_content f g" and "fr_link g = fr_link f" and "fr_tx_offset g = fr_tx_offset f"
    and "ready = fr_header_ready g" and "fr_attempted g = fr_attempted f" and "fr_header_ready f \<Longrightarrow> fr_header_ready g"
    and "crc_inv special slab q f \<Longrightarrow> crc_inv special slab q g"
proof -
  have "same_account f g \<and> same_content f g \<and> fr_link g = fr_link f \<and> fr_tx_offset g = fr_tx_offset f \<and>
      ready = fr_header_ready g \<and> fr_attempted g = fr_attempted f"
  proof (cases "fr_header_ready f")
    case True
    then show ?thesis using assms by (auto simp: ev_mux_frame_crc_step_def same_account_def same_content_def)
  next
    case False
    define stop where "stop = min (fr_payload_crc_pos f + EV_MUX_CRC_CHUNK_BYTES) (fr_payload_len f)"
    obtain a b where c: "crc_chunks special slab q stop f = f\<lparr>fr_payload_crc_state := a, fr_payload_crc_pos := b\<rparr>"
      using crc_chunks_keeps by blast
    obtain built h where b: "ev_mux_build_header (f\<lparr>fr_payload_crc_state := a, fr_payload_crc_pos := b\<rparr>) (NOT a) = (built, h)"
      by fastforce
    from build_header_keeps [of "f\<lparr>fr_payload_crc_state := a, fr_payload_crc_pos := b\<rparr>" "NOT a"]
    obtain x where h: "h = f\<lparr>fr_payload_crc_state := a, fr_payload_crc_pos := b, fr_header := x\<rparr>" using b by auto
    have "g = (if b = fr_payload_len f then h\<lparr>fr_header_ready := built\<rparr>
               else f\<lparr>fr_payload_crc_state := a, fr_payload_crc_pos := b\<rparr>) \<and> ready = fr_header_ready g"
      using assms False b
      by (cases "b = fr_payload_len f") (auto simp: ev_mux_frame_crc_step_def Let_def stop_def [symmetric] c)
    then show ?thesis by (simp add: h same_account_def same_content_def)
  qed
  then show "same_account f g" "same_content f g" "fr_link g = fr_link f" "fr_tx_offset g = fr_tx_offset f"
    "ready = fr_header_ready g" "fr_attempted g = fr_attempted f" by auto
  show "crc_inv special slab q f \<Longrightarrow> crc_inv special slab q g"
    using crc_step_spec(1) [of special slab q f] assms
    by (cases "fr_header_ready f") (auto simp: ev_mux_frame_crc_step_def)
  show "fr_header_ready f \<Longrightarrow> fr_header_ready g" using assms by (auto simp: ev_mux_frame_crc_step_def)
qed

section \<open>The bytes of a write\<close>

lemma wire_length:
  "crc_inv special slab q f \<Longrightarrow> length (wire_bytes special slab q f) = encoded_length (length (fr_metadata f)) (fr_payload_len f)"
  by (simp add: crc_inv_def Let_def wire_bytes_def encoded_length_def bytes_of_def length_header_text)

lemma segment_ready:
  assumes inv: "crc_inv special slab q f" and ready: "fr_header_ready f"
    and k: "k < length (wire_bytes special slab q f)"
  shows "\<exists>n>0. k + n \<le> length (wire_bytes special slab q f) \<and>
    ev_mux_frame_segment special slab q f k = take n (drop k (wire_bytes special slab q f))"
  by (rule segment_spec [OF _ _ k]) (use inv ready in \<open>auto simp: crc_inv_def Let_def\<close>)

lemma tx_vectors_spec:
  assumes inv: "crc_inv (special_payload m r) (mx_slab m) (mx_targets m ! ti) (get_frame m ti r)"
    and ready: "fr_header_ready (get_frame m ti r)"
    and W: "W = wire_bytes (special_payload m r) (mx_slab m) (mx_targets m ! ti) (get_frame m ti r)"
    and len: "fr_total_len (get_frame m ti r) = length W"
    and "k \<le> length W" and "l \<le> 4096"
  shows "let vs = tx_vectors m ti r n k l; N = length (concat vs)
    in concat vs = take N (drop k W) \<and> l + N \<le> 4096 \<and> k + N \<le> length W \<and> length vs \<le> n \<and> [] \<notin> set vs"
  using assms(5,6)
proof (induction n arbitrary: k l)
  case 0
  then show ?case by simp
next
  case (Suc n)
  show ?case
  proof (cases "k < length W \<and> l < 4096")
    case False
    then show ?thesis using Suc.prems len by (auto simp: EV_MUX_WRITE_CHUNK_BYTES_def)
  next
    case True
    define x where "x = take (4096 - l) (segment_of m ti r k)"
    obtain c where c: "0 < c" "k + c \<le> length W" "segment_of m ti r k = take c (drop k W)"
      using segment_ready [OF inv ready, of k] True unfolding W segment_of_def by blast
    have x: "x = take (length x) (drop k W)" "0 < length x" "length x \<le> 4096 - l" "k + length x \<le> length W"
      using c True by (auto simp: x_def min_def)
    have v: "tx_vectors m ti r (Suc n) k l = x # tx_vectors m ti r n (k + length x) (l + length x)"
      using True by (simp add: len x_def EV_MUX_WRITE_CHUNK_BYTES_def Let_def)
    let ?vs = "tx_vectors m ti r n (k + length x) (l + length x)"
    have "l + length x \<le> 4096" using x(3) True by linarith
    from Suc.IH [OF x(4) this] have IH: "concat ?vs = take (length (concat ?vs)) (drop (k + length x) W)"
        "l + length x + length (concat ?vs) \<le> 4096" "k + length x + length (concat ?vs) \<le> length W"
        "length ?vs \<le> n" "[] \<notin> set ?vs" by (auto simp: Let_def)
    have "x @ concat ?vs = take (length x + length (concat ?vs)) (drop k W)"
      using x(1) IH(1) by (simp add: take_add add.commute)
    then show ?thesis unfolding v using IH x(2) by (auto simp: Let_def)
  qed
qed

text \<open>The write of the vectors \<open>vs\<close>: one \<open>writev\<close> to TCP, one \<open>write\<close> to a serial endpoint.\<close>

definition write_of ::
  "'d tx_env \<Rightarrow> transport \<Rightarrow> ev_link_ref \<Rightarrow> u8 list list \<Rightarrow> 'd \<Rightarrow> ev_io_result \<times> 'd" where
  "write_of env t l vs d =
     (if lr_transport_id l = EV_TRANSPORT_TCP
      then ev_transport_writev (te_board env) (te_tx_some env) (te_tcp_write env) (te_tcp_writev env) t
             (Some l) (Some (map Some vs)) d
      else ev_transport_write (te_board env) (te_tx_some env) (te_tcp_write env) t (Some l) (Some (concat vs)) d)"

text \<open>\<open>vs\<close> are the bytes of the frame from its cursor on, at most 4096 of them.\<close>

definition next_bytes :: "u8 list \<Rightarrow> nat \<Rightarrow> u8 list list \<Rightarrow> bool" where
  "next_bytes W k vs \<longleftrightarrow>
     (let N = length (concat vs)
      in vs \<noteq> [] \<and> [] \<notin> set vs \<and> length vs \<le> EV_IO_VECTORS_MAX \<and> 0 < N \<and> N \<le> 4096 \<and> k + N \<le> length W \<and>
         concat vs = take N (drop k W))"

lemma write_data:
  assumes inv: "crc_inv (special_payload m r) (mx_slab m) (mx_targets m ! ti) (get_frame m ti r)"
    and ready: "fr_header_ready (get_frame m ti r)"
    and W: "W = wire_bytes (special_payload m r) (mx_slab m) (mx_targets m ! ti) (get_frame m ti r)"
    and len: "fr_total_len (get_frame m ti r) = length W"
    and off: "fr_tx_offset (get_frame m ti r) < length W"
    and run: "tx_write env m t ti r d = (io, offered, d')"
  shows "\<exists>vs. next_bytes W (fr_tx_offset (get_frame m ti r)) vs \<and> offered = length (concat vs) \<and>
    write_of env t (fr_link (get_frame m ti r)) vs d = (io, d')"
proof -
  let ?f = "get_frame m ti r" and ?k = "fr_tx_offset (get_frame m ti r)"
  obtain c where c: "0 < c" "?k + c \<le> length W" "segment_of m ti r ?k = take c (drop ?k W)"
    using segment_ready [OF inv ready, of ?k] off unfolding W segment_of_def by blast
  show ?thesis
  proof (cases "lr_transport_id (fr_link ?f) = EV_TRANSPORT_TCP")
    case True
    let ?vs = "tx_vectors m ti r EV_IO_VECTORS_MAX ?k 0"
    obtain j where n: "EV_IO_VECTORS_MAX = Suc j" by (simp add: EV_IO_VECTORS_MAX_def numeral_eq_Suc)
    have "tx_vectors m ti r (Suc j) ?k 0 \<noteq> []" using off len by (simp add: EV_MUX_WRITE_CHUNK_BYTES_def Let_def)
    then have "?vs \<noteq> []" by (simp only: n not_False_eq_True)
    moreover from tx_vectors_spec [OF inv ready W len, of ?k 0 EV_IO_VECTORS_MAX] off
    have "concat ?vs = take (length (concat ?vs)) (drop ?k W)" "length (concat ?vs) \<le> 4096"
      "?k + length (concat ?vs) \<le> length W" "length ?vs \<le> EV_IO_VECTORS_MAX" "[] \<notin> set ?vs"
      by (simp_all add: Let_def)
    moreover have "0 < length (concat ?vs)" using calculation(1,6) by (cases ?vs) auto
    ultimately show ?thesis using run True
      by (intro exI [of _ ?vs]) (auto simp: tx_write_def write_of_def next_bytes_def Let_def split: prod.splits)
  next
    case False
    define x where "x = take 4096 (segment_of m ti r ?k)"
    have x: "take (length x) (drop ?k W) = x" "0 < length x" "length x \<le> 4096" "?k + length x \<le> length W"
      using c off by (auto simp: x_def min_def)
    have "ev_transport_write (te_board env) (te_tx_some env) (te_tcp_write env) t (Some (fr_link ?f)) (Some x) d = (io, d')"
      "offered = length x"
      using run False by (auto simp: tx_write_def x_def EV_MUX_WRITE_CHUNK_BYTES_def Let_def split: prod.splits)
    then show ?thesis using x False
      by (intro exI [of _ "[x]"]) (auto simp: write_of_def next_bytes_def EV_IO_VECTORS_MAX_def)
  qed
qed

section \<open>The chosen frame\<close>

lemma changed_present:
  assumes c: "changed (place_of ti r) g m m'" and ti: "ti < 6" and r: "valid_ref r" "frame_present m ti r"
    and link: "fr_link g = fr_link (get_frame m ti r)"
  shows "frame_present m' ti r" and "get_frame m' ti r = g"
proof -
  have "endpoint_of (place_of ti r) g = Some ti"
    using present_live [OF ti r(1), of m] r(2) link by (auto simp: endpoint_of_def split: place.splits)
  from changed_get [OF c ti r(1) this] show "frame_present m' ti r" "get_frame m' ti r = g" by auto
qed

lemma advanced_still:
  "changed (place_of ti r) g m m' \<Longrightarrow> same_account f g \<Longrightarrow> same_content f g \<Longrightarrow> fr_link g = fr_link f \<Longrightarrow>
   fr_tx_offset g = fr_tx_offset f \<Longrightarrow> mx_special_partial m' = mx_special_partial m \<Longrightarrow>
   advanced ti r m m' f g result"
  by (simp add: advanced_def)

lemma advanced_from:
  assumes "changed (place_of ti r) h m m1" and "advanced ti r m1 m' h g result"
    and "same_account f h" "same_content f h" "fr_link h = fr_link f" "fr_tx_offset h = fr_tx_offset f"
    and "mx_special_partial m1 = mx_special_partial m"
  shows "advanced ti r m m' f g result"
proof -
  have "same_account f g" "same_content f g" "fr_total_len h = fr_total_len f"
    using assms(2-4) by (auto simp: advanced_def same_account_def same_content_def)
  then show ?thesis using assms changed_trans [OF assms(1), of g m'] by (cases r) (auto simp: advanced_def)
qed

lemma same_account_trans: "same_account f g \<Longrightarrow> same_account g h \<Longrightarrow> same_account f h"
  by (simp add: same_account_def)

lemma same_content_trans: "same_content f g \<Longrightarrow> same_content g h \<Longrightarrow> same_content f h"
  by (simp add: same_content_def)

text \<open>The frame stays where it is, and the drivers are as they were.\<close>

definition stays :: "nat \<Rightarrow> frame_ref \<Rightarrow> mux \<Rightarrow> mux \<Rightarrow> ev_mux_frame \<Rightarrow> bool" where
  "stays ti r m m' g \<longleftrightarrow>
     (let f = get_frame m ti r
      in changed (place_of ti r) g m m' \<and> same_account f g \<and> same_content f g \<and> fr_link g = fr_link f \<and>
         fr_tx_offset g = fr_tx_offset f \<and> mx_special_partial m' = mx_special_partial m \<and>
         special_payload m' r = special_payload m r \<and> (fr_header_ready f \<longrightarrow> fr_header_ready g) \<and>
         (crc_inv (special_payload m r) (mx_slab m) (mx_targets m ! ti) f \<longrightarrow>
          crc_inv (special_payload m r) (mx_slab m) (mx_targets m ! ti) g))"

lemma stays_refl:
  assumes "mux_wf m" and "ti < 6" and "valid_ref r" "frame_present m ti r"
  shows "stays ti r m m (get_frame m ti r)"
  using changed_refl [OF assms(1) present_live(2) [OF assms(2-4)]]
  by (simp add: stays_def same_account_def same_content_def)

lemma stays_set:
  assumes wf: "mux_wf m" and ti: "ti < 6" and r: "valid_ref r" "frame_present m ti r"
    and g: "same_account (get_frame m ti r) g" "same_content (get_frame m ti r) g"
      "fr_link g = fr_link (get_frame m ti r)" "fr_tx_offset g = fr_tx_offset (get_frame m ti r)"
      "fr_header_ready (get_frame m ti r) \<Longrightarrow> fr_header_ready g"
      "crc_inv (special_payload m r) (mx_slab m) (mx_targets m ! ti) (get_frame m ti r) \<Longrightarrow>
       crc_inv (special_payload m r) (mx_slab m) (mx_targets m ! ti) g"
  shows "stays ti r m (set_frame ti r g m) g"
  using set_frame_changed [OF wf ti r g(1)] set_frame_special_payload [OF r(1) wf] g by (simp add: stays_def)

lemma stays_present:
  assumes "stays ti r m m' g" and "ti < 6" and "valid_ref r" "frame_present m ti r"
  shows "mux_wf m'" and "frame_present m' ti r" and "get_frame m' ti r = g"
  using assms changed_present [of ti r g m m'] by (auto simp: stays_def Let_def changed_def)

lemma stays_trans:
  assumes s: "stays ti r m m1 h" "stays ti r m1 m2 g" and p: "ti < 6" "valid_ref r" "frame_present m ti r"
  shows "stays ti r m m2 g"
proof -
  have h: "get_frame m1 ti r = h" by (rule stays_present [OF s(1) p])
  have "tq_arena (mx_targets m1 ! ti) = tq_arena (mx_targets m ! ti)" "mx_slab m1 = mx_slab m"
    using s(1) p(1) by (simp_all add: stays_def Let_def changed_def)
  then have "crc_inv x (mx_slab m1) (mx_targets m1 ! ti) y = crc_inv x (mx_slab m) (mx_targets m ! ti) y" for x y
    using arena_cong(3) [of "mx_targets m1 ! ti" "mx_targets m ! ti"] by simp
  note crc = this
  define f where "f = get_frame m ti r"
  have a: "changed (place_of ti r) h m m1" "same_account f h" "same_content f h" "fr_link h = fr_link f"
    "fr_tx_offset h = fr_tx_offset f" "mx_special_partial m1 = mx_special_partial m" "special_payload m1 r = special_payload m r"
    "fr_header_ready f \<Longrightarrow> fr_header_ready h"
    "crc_inv (special_payload m r) (mx_slab m) (mx_targets m ! ti) f \<Longrightarrow> crc_inv (special_payload m r) (mx_slab m) (mx_targets m ! ti) h"
    using s(1) by (simp_all add: stays_def Let_def f_def)
  have b: "changed (place_of ti r) g m1 m2" "same_account h g" "same_content h g" "fr_link g = fr_link h"
    "fr_tx_offset g = fr_tx_offset h" "mx_special_partial m2 = mx_special_partial m1" "special_payload m2 r = special_payload m1 r"
    "fr_header_ready h \<Longrightarrow> fr_header_ready g"
    "crc_inv (special_payload m r) (mx_slab m) (mx_targets m ! ti) h \<Longrightarrow> crc_inv (special_payload m r) (mx_slab m) (mx_targets m ! ti) g"
    using s(2) by (simp_all add: stays_def Let_def h crc a(7))
  show ?thesis unfolding stays_def Let_def f_def [symmetric]
    using changed_trans [OF a(1) b(1)] same_account_trans [OF a(2) b(2)] same_content_trans [OF a(3) b(3)]
      a(4-9) b(4-9) by simp
qed

lemma stays_kept:
  assumes "stays ti r m m1 g" and "kept m1 m2" and "mx_special_partial m2 = mx_special_partial m1"
    and "special_payload m2 r = special_payload m1 r"
  shows "stays ti r m m2 g"
  using assms changed_kept [of "place_of ti r" g m m1 m2] by (simp add: stays_def Let_def)

lemma special_payload_cong:
  "mx_heap m' = mx_heap m \<Longrightarrow> mx_preview_frames m' = mx_preview_frames m \<Longrightarrow> mx_large_frame m' = mx_large_frame m \<Longrightarrow>
   special_payload m' r = special_payload m r"
  by (simp add: special_payload_def get_special_def split: frame_ref.split special_ref.split option.split)

lemma stays_advanced: "stays ti r m m' g \<Longrightarrow> advanced ti r m m' (get_frame m ti r) g result"
  by (simp add: stays_def advanced_def Let_def)

lemma tx_chosen_spec:
  assumes wf: "mux_wf m" and ti: "ti < 6" and r: "valid_ref r" "frame_present m ti r"
    and run: "tx_chosen env m t sess ti r d = (oc, m', d')"
  obtains
    (still) g where "stays ti r m m' g" and "d' = d"
  | (written) m2 h g io offered where "stays ti r m m2 h" and "fr_header_ready h"
      and "advanced ti r m2 m' h g (oc_result oc)" and "tx_write env m2 t ti r d = (io, offered, d')"
      and "fr_tx_offset g = fr_tx_offset h + moved io offered" and "fr_header_ready g"
      and "\<And>s slab q. crc_inv s slab q h \<Longrightarrow> crc_inv s slab q g"
      and "ev_transport_link_is_current t (Some (fr_link (get_frame m ti r)))"
      and "ev_mux_frame_authorized t sess (te_session_ms env) m (get_frame m ti r) = EV_MUX_FRAME_ALLOWED"
proof -
  define f where "f = get_frame m ti r"
  define bump where "bump = m\<lparr>mx_tx_stale_count := mx_tx_stale_count m + 1\<rparr>"
  note s0 = stays_refl [OF wf ti r, folded f_def]
  have sb: "stays ti r m bump f"
    by (rule stays_kept [OF s0 counters_kept _ special_payload_cong])
      (simp_all add: bump_def same_queues_def same_frames_def)
  show thesis
  proof (cases "queue_expired (te_now_ms env) f \<and> fr_tx_offset f = 0 \<or>
      \<not> ev_transport_link_is_current t (Some (fr_link f)) \<or>
      ev_mux_frame_authorized t sess (te_session_ms env) m f \<noteq> EV_MUX_FRAME_ALLOWED")
    case True
    have "(m' = m \<or> m' = bump) \<and> d' = d"
    proof (cases "queue_expired (te_now_ms env) f \<and> fr_tx_offset f = 0")
      case True
      then show ?thesis using run by (simp add: tx_chosen_def f_def Let_def)
    next
      case fresh: False
      show ?thesis
      proof (cases "ev_transport_link_is_current t (Some (fr_link f))")
        case False
        show ?thesis using run unfolding tx_chosen_def Let_def f_def [symmetric] bump_def [symmetric]
          by (simp only: fresh False if_False if_True not_False_eq_True prod.inject simp_thms)
      next
        case True
        then have "ev_mux_frame_authorized t sess (te_session_ms env) m f = EV_MUX_FRAME_STALE \<or>
            ev_mux_frame_authorized t sess (te_session_ms env) m f = EV_MUX_FRAME_WAIT"
          using \<open>_ \<or> _\<close> fresh by (cases "ev_mux_frame_authorized t sess (te_session_ms env) m f") simp_all
        then show ?thesis using run unfolding tx_chosen_def Let_def f_def [symmetric] bump_def [symmetric]
          by (elim disjE) (simp_all only: fresh True if_False if_True not_True_eq_False prod.inject simp_thms
            ev_mux_frame_auth.case)
      qed
    qed
    then show thesis using s0 sb by (auto intro: still)
  next
    case False
    obtain ready g0 where c: "ev_mux_frame_crc_step (special_payload m r) (mx_slab m) (mx_targets m ! ti) f = (ready, g0)"
      by fastforce
    note k = crc_step_keeps [OF c]
    define m1 where "m1 = set_frame ti r g0 m"
    define uart where "uart = (\<not> fr_attempted g0 \<and> lr_transport_id (fr_link g0) = EV_TRANSPORT_UART)"
    define g1 where "g1 = (if uart then g0\<lparr>fr_frame_timeout_ms :=
        ev_mux_frame_timeout (te_baud env) (fr_link g0) (fr_total_len g0)\<rparr> else g0)"
    define m2 where "m2 = set_frame ti r g1 m1"
    define m3 where "m3 = m2\<lparr>mx_tx_timeout_count := mx_tx_timeout_count m2 + 1,
        mx_last_timeout := Some
          \<lparr>ti_transport = lr_transport_id (fr_link g1), ti_slot = lr_slot (fr_link g1),
           ti_offset = fr_tx_offset g1, ti_bytes = fr_total_len g1,
           ti_elapsed_ms = te_now_ms env - fr_start_ms g1,
           ti_idle_ms = te_now_ms env - fr_last_progress_ms g1\<rparr>\<rparr>"
    have s1: "stays ti r m m1 g0" unfolding m1_def
      by (rule stays_set [OF wf ti r]) (use k in \<open>simp_all add: f_def\<close>)
    note p1 = stays_present [OF s1 ti r]
    have "stays ti r m1 m2 g1" unfolding m2_def
      by (rule stays_set [OF p1(1) ti r(1) p1(2)])
        (simp_all add: p1(3) g1_def same_account_def same_content_def crc_inv_progress)
    then have s2: "stays ti r m m2 g1" by (rule stays_trans [OF s1 _ ti r])
    note p2 = stays_present [OF s2 ti r]
    have s3: "stays ti r m m3 g1"
      by (rule stays_kept [OF s2 counters_kept _ special_payload_cong])
        (simp_all add: m3_def same_queues_def same_frames_def)
    have run': "tx_chosen env m t sess ti r d =
        (if \<not> ready then (unfinished, m1, d)
         else if uart \<and> fr_frame_timeout_ms g1 = 0
         then (unfinished\<lparr>oc_result := Some ESP_ERR_INVALID_SIZE\<rparr>, m2, d)
         else if deadline_passed (te_now_ms env) g1
         then (\<lparr>oc_result = Some ESP_ERR_TIMEOUT, oc_partial = (fr_tx_offset g1 \<noteq> 0),
                oc_close = (lr_transport_id (fr_link g1) = EV_TRANSPORT_TCP), oc_stale = False\<rparr>, m3, d)
         else tx_attempt env m2 t ti r d)"
    proof -
      have "\<not> (queue_expired (te_now_ms env) f \<and> fr_tx_offset f = 0)" "ev_transport_link_is_current t (Some (fr_link f))"
        "ev_mux_frame_authorized t sess (te_session_ms env) m f = EV_MUX_FRAME_ALLOWED" using False by blast+
      note no = this
      show ?thesis
        unfolding tx_chosen_def Let_def f_def [symmetric] c prod.case uart_def [symmetric] g1_def [symmetric]
          m1_def [symmetric] m2_def [symmetric] m3_def [symmetric]
        by (simp only: no if_False if_True not_True_eq_False ev_mux_frame_auth.case c prod.case uart_def [symmetric]
          g1_def [symmetric] m1_def [symmetric] m2_def [symmetric] m3_def [symmetric])
    qed
    show thesis
    proof (cases "\<not> ready \<or> uart \<and> fr_frame_timeout_ms g1 = 0 \<or> deadline_passed (te_now_ms env) g1")
      case True
      then have "(m' = m1 \<or> m' = m2 \<or> m' = m3) \<and> d' = d" using run run' by (auto split: if_splits)
      then show thesis using s1 s2 s3 by (auto intro: still)
    next
      case go: False
      then have a: "tx_attempt env m2 t ti r d = (oc, m', d')" using run run' by (auto split: if_splits)
      have "fr_header_ready (get_frame m2 ti r)" using go k(5) by (simp add: p2(3) g1_def)
      from tx_attempt_spec [OF p2(1) ti r(1) p2(2) a this] obtain g io offered where
        "advanced ti r m2 m' g1 g (oc_result oc)" "\<And>s slab q. crc_inv s slab q g1 \<Longrightarrow> crc_inv s slab q g"
        "fr_header_ready g" "tx_write env m2 t ti r d = (io, offered, d')"
        "fr_tx_offset g = fr_tx_offset g1 + moved io offered" unfolding p2(3) by blast
      then show thesis using s2 False \<open>fr_header_ready (get_frame m2 ti r)\<close>
        by (intro written [of m2 g1 g io offered]) (simp_all add: p2(3) f_def)
    qed
  qed
qed

end
