(* ===== verification/MuxWorker.thy ===== *)
theory MuxWorker
  imports MuxTurn
begin

text \<open>
  Turns of the worker keep the invariants of the transmitter, and what a turn gives to the
  drivers.
\<close>

section \<open>The frame stays\<close>

lemma stays_started:
  assumes s: "stays ti r m m' g" and p: "ti < 6" "valid_ref r" "frame_present m ti r"
  shows "started_at m' tj q = started_at m tj q"
proof -
  note f = present_live(2) [OF p]
  have "frame_at m' = (frame_at m)(place_of ti r := Some g)" "fr_tx_offset g = fr_tx_offset (get_frame m ti r)"
    "fr_link g = fr_link (get_frame m ti r)"
    using s by (simp_all add: stays_def changed_def Let_def)
  then show ?thesis using f
    by (cases "q = place_of ti r") (auto simp: started_at_def endpoint_of_def split: place.splits)
qed

lemma stays_tx_inv:
  assumes "stays ti r m m' g" and "ti < 6" "valid_ref r" "frame_present m ti r" and "tx_inv m"
  shows "tx_inv m'"
  using assms(1,5) stays_started [OF assms(1-4)]
  by (simp add: tx_inv_def stays_def changed_def Let_def)

lemma place_queue: "place_of ti r = Queue_place tj i \<longleftrightarrow> tj = ti \<and> r = In_queue i"
  by (auto simp: place_of_def split: frame_ref.split)

lemma special_payload_queue [simp]: "special_payload m (In_queue i) = None"
  by (simp add: special_payload_def)

text \<open>The contents of all places but one.\<close>

definition content_but :: "place option \<Rightarrow> mux \<Rightarrow> bool" where
  "content_but p m \<longleftrightarrow>
     (\<forall>ti i f. Some (Queue_place ti i) \<noteq> p \<and> frame_at m (Queue_place ti i) = Some f \<longrightarrow>
        crc_inv None (mx_slab m) (mx_targets m ! ti) f \<and> fr_tx_offset f < fr_total_len f \<and>
        (fr_tx_offset f \<noteq> 0 \<longrightarrow> fr_header_ready f))"

lemma content_but_none: "content_but None m \<longleftrightarrow> content_inv m"
  by (simp add: content_but_def content_inv_def)

lemma content_but_weaken: "content_inv m \<Longrightarrow> content_but p m"
  by (auto simp: content_but_def content_inv_def)

lemma changed_content_but:
  assumes c: "changed p g m m'" and m: "content_but (Some p) m"
  shows "content_but (Some p) m'"
  unfolding content_but_def
proof (intro allI impI)
  fix ti i f
  assume a: "Some (Queue_place ti i) \<noteq> Some p \<and> frame_at m' (Queue_place ti i) = Some f"
  then have f: "frame_at m (Queue_place ti i) = Some f" using c by (auto simp: changed_def)
  then have "ti < 6" by (simp add: live_queue)
  then have "tq_arena (mx_targets m' ! ti) = tq_arena (mx_targets m ! ti)" "mx_slab m' = mx_slab m"
    using c by (simp_all add: changed_def)
  then show "crc_inv None (mx_slab m') (mx_targets m' ! ti) f \<and> fr_tx_offset f < fr_total_len f \<and>
      (fr_tx_offset f \<noteq> 0 \<longrightarrow> fr_header_ready f)"
    using m a f arena_cong(3) [of "mx_targets m' ! ti" "mx_targets m ! ti"]
    unfolding content_but_def by (metis option.inject)
qed

lemma content_add:
  assumes "content_but (Some (place_of ti r)) m" and "frame_at m (place_of ti r) = Some g"
    and "\<And>i. r = In_queue i \<Longrightarrow> crc_inv None (mx_slab m) (mx_targets m ! ti) g \<and> fr_tx_offset g < fr_total_len g \<and>
      (fr_tx_offset g \<noteq> 0 \<longrightarrow> fr_header_ready g)"
  shows "content_inv m"
  unfolding content_inv_def
proof (intro allI impI)
  fix tj i f
  assume f: "frame_at m (Queue_place tj i) = Some f"
  show "crc_inv None (mx_slab m) (mx_targets m ! tj) f \<and> fr_tx_offset f < fr_total_len f \<and>
      (fr_tx_offset f \<noteq> 0 \<longrightarrow> fr_header_ready f)"
  proof (cases "Queue_place tj i = place_of ti r")
    case True
    then have r: "tj = ti" "r = In_queue i" using place_queue [of ti r tj i] by auto
    have "f = g" using f assms(2) True by simp
    then show ?thesis using assms(3) [OF r(2)] r(1) by simp
  next
    case False
    then show ?thesis using assms(1) f by (simp add: content_but_def)
  qed
qed

lemma queue_content:
  "content_inv m \<Longrightarrow> ti < 6 \<Longrightarrow> valid_ref (In_queue i) \<Longrightarrow> frame_present m ti (In_queue i) \<Longrightarrow>
   crc_inv None (mx_slab m) (mx_targets m ! ti) (get_frame m ti (In_queue i)) \<and>
   fr_tx_offset (get_frame m ti (In_queue i)) < fr_total_len (get_frame m ti (In_queue i)) \<and>
   (fr_tx_offset (get_frame m ti (In_queue i)) \<noteq> 0 \<longrightarrow> fr_header_ready (get_frame m ti (In_queue i)))"
  using present_live(2) [of ti "In_queue i" m] by (simp add: content_inv_def place_of_def)

lemma stays_content:
  assumes s: "stays ti r m m' g" and p: "ti < 6" "valid_ref r" "frame_present m ti r" and c: "content_inv m"
  shows "content_inv m'"
proof (rule content_add)
  have ch: "changed (place_of ti r) g m m'" using s by (simp add: stays_def Let_def)
  show "content_but (Some (place_of ti r)) m'" by (rule changed_content_but [OF ch content_but_weaken [OF c]])
  show "frame_at m' (place_of ti r) = Some g" using ch by (simp add: changed_def)
  fix i assume r: "r = In_queue i"
  have "tq_arena (mx_targets m' ! ti) = tq_arena (mx_targets m ! ti)" "mx_slab m' = mx_slab m"
    using ch p(1) by (simp_all add: changed_def)
  then show "crc_inv None (mx_slab m') (mx_targets m' ! ti) g \<and> fr_tx_offset g < fr_total_len g \<and>
      (fr_tx_offset g \<noteq> 0 \<longrightarrow> fr_header_ready g)"
    using queue_content [OF c p(1) p(2,3) [unfolded r]] s
      arena_cong(3) [of "mx_targets m' ! ti" "mx_targets m ! ti"]
    by (simp add: stays_def Let_def r same_content_def)
qed

section \<open>The frame advances\<close>

text \<open>All of \<open>tx_inv\<close>, but the frame at \<open>p\<close>, the only one of its endpoint that may have started, is not marked.\<close>

definition almost :: "nat \<Rightarrow> place \<Rightarrow> mux \<Rightarrow> bool" where
  "almost ti p m \<longleftrightarrow> mux_wf m \<and>
     (\<forall>tj<6. tj \<noteq> ti \<longrightarrow> (\<forall>q q'. started_at m tj q \<and> started_at m tj q' \<longrightarrow> q = q') \<and>
             (\<forall>s. mx_special_partial m ! tj = Some s \<longleftrightarrow> started_at m tj (Special_place s))) \<and>
     (\<forall>q. started_at m ti q \<longrightarrow> q = p) \<and>
     (\<forall>s. mx_special_partial m ! ti = Some s \<longrightarrow> started_at m ti (Special_place s))"

lemma almost_inv: "tx_inv m \<Longrightarrow> ti < 6 \<Longrightarrow> (\<And>q. started_at m ti q \<Longrightarrow> q = p) \<Longrightarrow> almost ti p m"
  by (auto simp: almost_def tx_inv_def)

lemma advanced_started:
  assumes a: "advanced ti r m m' f g result" and p: "ti < 6" "valid_ref r" "frame_present m ti r"
    and f: "f = get_frame m ti r"
  shows "started_at m' tj q = (if q = place_of ti r then tj = ti \<and> fr_tx_offset g \<noteq> 0 else started_at m tj q)"
proof -
  have "frame_at m' = (frame_at m)(place_of ti r := Some g)" "fr_link g = fr_link (get_frame m ti r)"
    using a by (simp_all add: advanced_def changed_def f)
  moreover have "endpoint_of (place_of ti r) (get_frame m ti r) = Some ti"
    using present_live [OF p(1,2), of m] p(3) by auto
  ultimately show ?thesis by (auto simp: started_at_def endpoint_of_def split: place.splits)
qed

lemma advanced_almost:
  assumes a: "advanced ti r m m' f g result" and p: "ti < 6" "valid_ref r" "frame_present m ti r"
    and f: "f = get_frame m ti r" and inv: "tx_inv m" and only: "\<And>q. started_at m ti q \<Longrightarrow> q = place_of ti r"
  shows "almost ti (place_of ti r) m'" and "result = None \<Longrightarrow> tx_inv m'"
proof -
  let ?p = "place_of ti r"
  note st = advanced_started [OF a p f]
  have wf: "mux_wf m'" "length (mx_special_partial m) = 6"
    using a inv by (simp_all add: advanced_def changed_def tx_inv_def mux_wf_def)
  have fp: "started_at m ti ?p \<longleftrightarrow> fr_tx_offset f \<noteq> 0"
    using started_iff [OF p(1,2), of m] p(3) by (simp add: frame_started_def f)
  have other: "\<not> started_at m tj ?p" if "tj \<noteq> ti" for tj
    using present_live [OF p(1,2), of m] p(3) that by (auto simp: started_at_def)
  have partial: "mx_special_partial m' ! tj = mx_special_partial m ! tj" if "tj \<noteq> ti" for tj
    using a that by (auto simp: advanced_def split: if_splits frame_ref.splits)
  have mine: "mx_special_partial m' ! ti = mx_special_partial m ! ti \<or>
      (\<exists>s. r = In_special s \<and> mx_special_partial m' ! ti = Some s \<and> fr_tx_offset g \<noteq> 0)"
    using a wf(2) p(1) by (auto simp: advanced_def split: if_splits frame_ref.splits)
  have grow: "fr_tx_offset f \<noteq> 0 \<Longrightarrow> fr_tx_offset g \<noteq> 0" using a by (auto simp: advanced_def)
  have marked: "started_at m' ti (Special_place s)" if "mx_special_partial m' ! ti = Some s" for s
    using mine
  proof
    assume "mx_special_partial m' ! ti = mx_special_partial m ! ti"
    then have "mx_special_partial m ! ti = Some s" using that by simp
    then have "started_at m ti (Special_place s)" using inv p(1) by (simp add: tx_inv_def)
    moreover from only [OF this] have "Special_place s = ?p" .
    ultimately show ?thesis using fp grow by (simp add: st)
  next
    assume "\<exists>s. r = In_special s \<and> mx_special_partial m' ! ti = Some s \<and> fr_tx_offset g \<noteq> 0"
    then show ?thesis using that by (auto simp: st place_of_def)
  qed
  have away: "(\<forall>q q'. started_at m' tj q \<and> started_at m' tj q' \<longrightarrow> q = q') \<and>
      (\<forall>s. mx_special_partial m' ! tj = Some s \<longleftrightarrow> started_at m' tj (Special_place s))" if "tj < 6" "tj \<noteq> ti" for tj
  proof -
    have "started_at m' tj q = started_at m tj q" for q using other [OF that(2)] that(2) by (simp add: st)
    then show ?thesis using inv that partial [OF that(2)] by (simp add: tx_inv_def)
  qed
  have one: "\<forall>q. started_at m' ti q \<longrightarrow> q = ?p" using only st by auto
  show "almost ti ?p m'" using wf away one marked by (simp add: almost_def)
  assume none: "result = None"
  have "mx_special_partial m' ! ti = Some s" if s: "started_at m' ti (Special_place s)" for s
  proof -
    have r: "r = In_special s" using one s by (auto simp: place_of_def split: frame_ref.splits)
    show ?thesis
    proof (cases "fr_tx_offset f \<noteq> 0")
      case True
      then have "mx_special_partial m ! ti = Some s" using inv p(1) fp r by (simp add: tx_inv_def place_of_def)
      then show ?thesis using mine r by auto
    next
      case False
      then have "fr_tx_offset f < fr_tx_offset g" using s st r by (simp add: place_of_def)
      then show ?thesis using a none r wf(2) p(1) by (auto simp: advanced_def split: if_splits)
    qed
  qed
  then show "tx_inv m'" unfolding tx_inv_def using wf away one marked by metis
qed

section \<open>The frame ends\<close>

lemma drop_spec:
  assumes wf: "mux_wf m" and p: "ti < 6" "valid_ref r" "frame_present m ti r"
    and m': "m' = snd (ev_mux_drop_frame_locked m ti r result)"
  shows "mux_wf m'" and "frame_at m' = (frame_at m)(place_of ti r := None)" and "fewer m m'"
    and "mx_special_partial m' =
      (if mx_special_partial m ! ti \<noteq> None \<and> fr_tx_offset (get_frame m ti r) \<noteq> 0 \<and>
          r = In_special (the (mx_special_partial m ! ti))
       then (mx_special_partial m)[ti := None] else mx_special_partial m)"
proof -
  have "mux_wf m' \<and> frame_at m' = (frame_at m)(place_of ti r := None) \<and> fewer m m' \<and>
    mx_special_partial m' =
      (if mx_special_partial m ! ti \<noteq> None \<and> fr_tx_offset (get_frame m ti r) \<noteq> 0 \<and>
          r = In_special (the (mx_special_partial m ! ti))
       then (mx_special_partial m)[ti := None] else mx_special_partial m)"
  proof (cases r)
    case (In_queue i)
    have i: "i < 8" using p(2) In_queue by (simp add: valid_ref_def)
    have "m' = snd (ev_mux_frame_finish_normal_locked m ti i result)"
      using i by (simp add: m' In_queue ev_mux_drop_frame_locked_def EV_MUX_QUEUE_FRAMES_def split: prod.split)
    then show ?thesis
      using leaves_queue [OF wf p(1) i finish_left] finish_fewer [OF wf p(1) i] by (simp add: In_queue place_of_def)
  next
    case (In_special s)
    have s: "valid_special s" using p(2) In_special by (simp add: valid_ref_def)
    have eq: "m' = snd (ev_mux_special_release_locked m s result)"
      by (simp add: m' In_special ev_mux_drop_frame_locked_def)
    have used: "sp_used (get_special m s)" and tgt: "ev_mux_target_index (Some (fr_link (sp_frame (get_special m s)))) = Some ti"
      using p(3) by (auto simp: In_special frame_present_def get_frame_def)
    from release_shape [OF used, of result] obtain m3 where
      "m' = set_special s ((get_special m3 s)\<lparr>sp_frame := zero_frame, sp_used := False\<rparr>) m3"
      "mx_special_partial m3 = (if fr_tx_offset (sp_frame (get_special m s)) \<noteq> 0
         then if mx_special_partial m ! ti = Some s then (mx_special_partial m)[ti := None] else mx_special_partial m
         else mx_special_partial m)"
      unfolding eq tgt by auto
    then have "mx_special_partial m' = (if fr_tx_offset (sp_frame (get_special m s)) \<noteq> 0
         then if mx_special_partial m ! ti = Some s then (mx_special_partial m)[ti := None] else mx_special_partial m
         else mx_special_partial m)" by (simp add: set_special_def split: special_ref.split)
    then show ?thesis
      using release_live [OF wf s eq] same_queues_fewer [OF release_queues [of m s result]]
      by (auto simp: In_special place_of_def eq get_frame_def)
  qed
  then show "mux_wf m'" and "frame_at m' = (frame_at m)(place_of ti r := None)" and "fewer m m'"
    and "mx_special_partial m' =
      (if mx_special_partial m ! ti \<noteq> None \<and> fr_tx_offset (get_frame m ti r) \<noteq> 0 \<and>
          r = In_special (the (mx_special_partial m ! ti))
       then (mx_special_partial m)[ti := None] else mx_special_partial m)" by auto
qed

lemma drop_tx_inv:
  assumes a: "almost ti (place_of ti r) m" and p: "ti < 6" "valid_ref r" "frame_present m ti r"
    and m': "m' = snd (ev_mux_drop_frame_locked m ti r result)"
  shows "tx_inv m'"
proof -
  let ?p = "place_of ti r"
  have wf: "mux_wf m" "length (mx_special_partial m) = 6" using a by (simp_all add: almost_def mux_wf_def)
  note d = drop_spec [OF wf(1) p m']
  have st: "started_at m' tj q \<longleftrightarrow> q \<noteq> ?p \<and> started_at m tj q" for tj q
    using d(2) by (auto simp: started_at_def)
  have "endpoint_of ?p (get_frame m ti r) = Some ti" "frame_at m ?p = Some (get_frame m ti r)"
    using present_live [OF p(1,2), of m] p(3) by auto
  then have here: "started_at m tj ?p \<longleftrightarrow> tj = ti \<and> fr_tx_offset (get_frame m ti r) \<noteq> 0" for tj
    by (auto simp: started_at_def)
  have mark: "mx_special_partial m ! ti = Some s \<Longrightarrow>
      r = In_special s \<and> fr_tx_offset (get_frame m ti r) \<noteq> 0" for s
    using a here by (auto simp: almost_def place_of_def split: frame_ref.splits)
  have "mx_special_partial m' ! ti = None"
    using d(4) mark wf(2) p(1) by (cases "mx_special_partial m ! ti") auto
  moreover have "mx_special_partial m' ! tj = mx_special_partial m ! tj" if "tj \<noteq> ti" for tj
    using d(4) that by simp
  moreover have "\<not> started_at m' ti q" for q using a st by (auto simp: almost_def)
  moreover have "started_at m' tj q = started_at m tj q" if "tj \<noteq> ti" for tj q using st here that by auto
  note away = calculation this
  have "(\<forall>q q'. started_at m' tj q \<and> started_at m' tj q' \<longrightarrow> q = q') \<and>
      (\<forall>s. mx_special_partial m' ! tj = Some s \<longleftrightarrow> started_at m' tj (Special_place s))" if "tj < 6" for tj
  proof (cases "tj = ti")
    case True
    then show ?thesis using away(1,3) by simp
  next
    case False
    then show ?thesis using a that by (simp add: away(2,4) almost_def)
  qed
  then show ?thesis using d(1) by (simp add: tx_inv_def)
qed

lemma drop_content:
  assumes c: "content_but (Some (place_of ti r)) m" and wf: "mux_wf m"
    and p: "ti < 6" "valid_ref r" "frame_present m ti r"
    and m': "m' = snd (ev_mux_drop_frame_locked m ti r result)"
  shows "content_inv m'"
  unfolding content_inv_def
proof (intro allI impI)
  fix tj i f
  assume f: "frame_at m' (Queue_place tj i) = Some f"
  note d = drop_spec [OF wf p m']
  have f': "Queue_place tj i \<noteq> place_of ti r" "frame_at m (Queue_place tj i) = Some f"
    using f d(2) by (auto split: if_splits)
  then have "tj < 6" by (simp add: live_queue)
  then have "tq_arena (mx_targets m' ! tj) = tq_arena (mx_targets m ! tj)" "mx_slab m' = mx_slab m"
    using d(3) by (simp_all add: fewer_def)
  then show "crc_inv None (mx_slab m') (mx_targets m' ! tj) f \<and> fr_tx_offset f < fr_total_len f \<and>
      (fr_tx_offset f \<noteq> 0 \<longrightarrow> fr_header_ready f)"
    using c f' arena_cong(3) [of "mx_targets m' ! tj" "mx_targets m ! tj"] by (simp add: content_but_def)
qed

section \<open>The invariant of the worker\<close>

definition worker_inv :: "mux \<Rightarrow> bool" where
  "worker_inv m \<longleftrightarrow> mux_inv m \<and> tx_inv m \<and> content_inv m"

lemma fail_session_worker:
  assumes "worker_inv m" and "ev_mux_fail_session env m w link sid c = (calls, m', w')"
  shows "worker_inv m'"
proof -
  have m': "m' = m \<or> (\<exists>sl locks s. m' = snd (cancel_frames_everywhere sl locks m False 0 (Some link) s))"
    using assms(2) by (auto simp: ev_mux_fail_session_def ev_mux_cancel_session_def Let_def split: prod.splits if_splits)
      (metis snd_conv)+
  have wf: "mux_wf m" using assms(1) by (simp add: worker_inv_def tx_inv_def)
  from m' show ?thesis
    using assms(1) cancel_everywhere_inv gentle_tx_inv [OF cancel_everywhere_gentle]
      fewer_content [OF cancel_everywhere_fewer [OF wf]]
    unfolding worker_inv_def by blast
qed

lemma record_drop_worker: "worker_inv m \<Longrightarrow> worker_inv (ev_mux_record_tx_drop m)"
proof -
  assume inv: "worker_inv m"
  have q: "same_queues m (ev_mux_record_tx_drop m)" "same_frames m (ev_mux_record_tx_drop m)"
    by (simp_all add: ev_mux_record_tx_drop_def same_queues_def same_frames_def)
  show ?thesis
    using inv same_queues_inv [OF q(1)] gentle_tx_inv [OF same_frames_gentle [OF q(2)]]
      fewer_content [OF same_queues_fewer [OF q(1)]] by (simp add: worker_inv_def)
qed

lemma finish_worker:
  assumes inv: "worker_inv m1" and run: "tx_finish env m w ti r oc link sid = (calls, m', w')"
    and some: "oc_result oc = Some result" and m1: "m1 = snd (ev_mux_drop_frame_locked m ti r result)"
  shows "worker_inv m'"
proof -
  obtain completion where d: "ev_mux_drop_frame_locked m ti r result = (completion, m1)"
    using m1 by (cases "ev_mux_drop_frame_locked m ti r result") auto
  define c where "c = (case completion of None \<Rightarrow> zero_completion | Some c \<Rightarrow> c)"
  define m2 where "m2 = (if cm_result c \<noteq> ESP_OK then ev_mux_record_tx_drop m1 else m1)"
  have m2: "worker_inv m2" using inv record_drop_worker by (simp add: m2_def)
  obtain more m3 w1 where f: "ev_mux_fail_session env m2 w link sid (oc_close oc \<or> oc_partial oc) = (more, m3, w1)"
    using prod_cases3 by blast
  have "worker_inv m3" by (rule fail_session_worker [OF m2 f])
  moreover have "m' = m2 \<or> m' = m3"
    using run unfolding tx_finish_def some option.case d Let_def prod.case c_def [symmetric] m2_def [symmetric] f
    by (auto split: if_splits)
  ultimately show ?thesis using m2 by blast
qed

lemma drop_unstarted_worker:
  assumes inv: "worker_inv m" and p: "ti < 6" "valid_ref r" "frame_present m ti r"
    and zero: "fr_tx_offset (get_frame m ti r) = 0" and m': "m' = snd (ev_mux_drop_frame_locked m ti r result)"
  shows "worker_inv m'"
proof -
  have wf: "mux_wf m" using inv by (simp add: worker_inv_def tx_inv_def)
  note d = drop_spec [OF wf p m']
  have "gentle m m'"
    by (rule put_gentle [where p = "place_of ti r" and x = None])
      (use d zero present_live(2) [OF p] in \<open>simp add: unstarted_def\<close>)
  then show ?thesis
    using inv gentle_tx_inv fewer_content [OF d(3)] drop_frame_inv [OF _ p(1,3), of result]
    by (simp add: worker_inv_def m')
qed

lemma drop_worker:
  assumes "mux_inv m" and "almost ti (place_of ti r) m" and "content_but (Some (place_of ti r)) m"
    and p: "ti < 6" "valid_ref r" "frame_present m ti r"
  shows "worker_inv (snd (ev_mux_drop_frame_locked m ti r result))"
  using drop_frame_inv [OF assms(1) p(1,3)] drop_tx_inv [OF assms(2) p refl]
    drop_content [OF assms(3) _ p refl] assms(2) by (simp add: worker_inv_def almost_def)

lemma chosen_worker:
  assumes inv: "worker_inv m" and p: "ti < 6" "valid_ref r" "frame_present m ti r"
    and only: "\<And>q. started_at m ti q \<Longrightarrow> q = place_of ti r"
    and run: "tx_chosen env m t sess ti r d = (oc, m', d')"
  shows "if oc_result oc = None then worker_inv m'
    else worker_inv (snd (ev_mux_drop_frame_locked m' ti r (the (oc_result oc))))"
proof -
  have wf: "mux_wf m" and parts: "mux_inv m" "tx_inv m" "content_inv m"
    using inv by (simp_all add: worker_inv_def tx_inv_def)
  from wf p run show ?thesis
  proof (cases rule: tx_chosen_spec)
    case (still g)
    note st = stays_started [OF still(1) p] and pr = stays_present [OF still(1) p]
    have w: "worker_inv m'"
      using stays_tx_inv [OF still(1) p parts(2)] stays_content [OF still(1) p parts(3)] parts(1) still(1)
      by (simp add: worker_inv_def stays_def changed_def Let_def)
    then have "almost ti (place_of ti r) m'" "content_but (Some (place_of ti r)) m'" "mux_inv m'"
      using almost_inv [of m' ti "place_of ti r"] p(1) only content_but_weaken by (simp_all add: worker_inv_def st)
    then show ?thesis using w drop_worker p(1,2) pr(2) by simp
  next
    case (written m2 h g io offered)
    note st = stays_started [OF written(1) p] and pr = stays_present [OF written(1) p]
    have w: "mux_inv m2" "tx_inv m2" "content_inv m2"
      using stays_tx_inv [OF written(1) p parts(2)] stays_content [OF written(1) p parts(3)] parts(1) written(1)
      by (simp_all add: stays_def changed_def Let_def)
    have ch: "changed (place_of ti r) g m2 m'" "fr_link g = fr_link (get_frame m2 ti r)"
      using written(3) pr(3) by (simp_all add: advanced_def)
    note pr' = changed_present [OF ch(1) p(1,2) pr(2) ch(2)]
    note al = advanced_almost [OF written(3) p(1,2) pr(2) pr(3) [symmetric] w(2), unfolded st, OF only]
    have c: "content_but (Some (place_of ti r)) m'"
      by (rule changed_content_but [OF ch(1) content_but_weaken [OF w(3)]])
    have mi: "mux_inv m'" using ch(1) w(1) by (simp add: changed_def)
    show ?thesis
    proof (cases "oc_result oc = None")
      case False
      then show ?thesis using drop_worker [OF mi al(1) c p(1,2) pr'(1)] by auto
    next
      case True
      have "content_inv m'"
      proof (rule content_add [OF c])
        show "frame_at m' (place_of ti r) = Some g" using ch(1) by (simp add: changed_def)
        fix i assume r: "r = In_queue i"
        have "tq_arena (mx_targets m' ! ti) = tq_arena (mx_targets m2 ! ti)" "mx_slab m' = mx_slab m2"
          using ch(1) p(1) by (simp_all add: changed_def)
        moreover have h: "crc_inv None (mx_slab m2) (mx_targets m2 ! ti) h \<and> fr_tx_offset h < fr_total_len h"
          using queue_content [OF w(3) p(1) p(2) [unfolded r] pr(2) [unfolded r]] pr(3) by (simp add: r)
        moreover have "fr_total_len g = fr_total_len h" "fr_tx_offset g = fr_tx_offset h \<or> fr_tx_offset g < fr_total_len h"
          using written(3) True by (auto simp: advanced_def same_content_def split: if_splits)
        ultimately show "crc_inv None (mx_slab m') (mx_targets m' ! ti) g \<and> fr_tx_offset g < fr_total_len g \<and>
            (fr_tx_offset g \<noteq> 0 \<longrightarrow> fr_header_ready g)"
          using written(6,7) arena_cong(3) [of "mx_targets m' ! ti" "mx_targets m2 ! ti"] by auto
      qed
      then show ?thesis using True mi al(2) by (simp add: worker_inv_def)
    qed
  qed
qed

lemma expired_valid:
  assumes "expired_frame now m ti sl = Some r"
  shows "valid_ref r" and "frame_present m ti r" and "fr_tx_offset (get_frame m ti r) = 0"
  using find_member [OF assms [unfolded expired_frame_def]] refs_valid(1,2) [of r] by (auto split: if_splits)

lemma process_worker:
  assumes inv: "worker_inv m" and ti: "ti < 6"
    and run: "ev_mux_process_target env ti (m, w, d) = (calls, m', w', d')"
  shows "worker_inv m'"
proof (cases "te_queue_free env")
  case False
  then show ?thesis using run inv by (simp add: ev_mux_process_target_def)
next
  case free: True
  show ?thesis
  proof (cases "ev_mux_choose_frame_locked (te_choose_ms env) m ti (te_special_free env)")
    case None
    show ?thesis
    proof (cases "expired_frame (te_expire_ms env) m ti (te_special_free env)")
      case none: None
      then show ?thesis using run free None inv by (simp add: ev_mux_process_target_def)
    next
      case (Some r)
      have "m' = snd (ev_mux_drop_frame_locked m ti r ESP_ERR_TIMEOUT)"
        using run free None Some by (auto simp: ev_mux_process_target_def split: prod.splits)
      then show ?thesis using drop_unstarted_worker [OF inv ti] expired_valid [OF Some] by blast
    qed
  next
    case (Some r)
    obtain oc m1 d1 where c: "tx_chosen env m (w_transport w) (w_session w) ti r d = (oc, m1, d1)"
      using prod_cases3 by blast
    obtain cs m2 w1 where f: "tx_finish env m1 w ti r oc (fr_link (get_frame m ti r)) (fr_session_id (get_frame m ti r)) = (cs, m2, w1)"
      using prod_cases3 by blast
    have m': "m' = m2" using run free Some c f by (simp add: ev_mux_process_target_def Let_def)
    have p: "frame_present m ti r" "valid_ref r" using choose_present [OF Some ti] by auto
    have only: "q = place_of ti r" if "started_at m ti q" for q
      using choose_started [OF _ ti that Some] inv by (simp add: worker_inv_def)
    note cw = chosen_worker [OF inv ti p(2,1) only c]
    show ?thesis
    proof (cases "oc_result oc")
      case None
      then show ?thesis using cw f by (simp add: tx_finish_def m')
    next
      case (Some result)
      then show ?thesis using finish_worker [OF _ f Some refl] cw by (simp add: m')
    qed
  qed
qed

end
