(* ===== verification/MuxSystem.thy ===== *)
theory MuxSystem
  imports MuxWorker
begin

text \<open>
  The transmitter with the world around it, \<open>platform/ev_mux.c\<close>: its start by \<open>ev_mux_init0\<close>, and
  the steps of the system as a relation. A step is a call of one of its entry points, a turn of
  the worker, or anything that the rest of the program does to the session, the endpoints and the
  drivers. The invariant of the worker holds in every state that can be reached.
\<close>

section \<open>Starting\<close>

text \<open>The static variables before the start.\<close>

definition mux_zero :: mux where
  "mux_zero =
     \<lparr>mx_slab = [], mx_tcp_arena = None, mx_targets = replicate EV_MUX_TARGET_COUNT zero_queue,
      mx_tickets = replicate EV_MUX_TICKET_COUNT
        \<lparr>tk_allocated = False, tk_done = False, tk_forgotten = False, tk_generation = 0,
         tk_result = ESP_OK, tk_semaphore = False\<rparr>,
      mx_tcp_free_blocks = - 1, mx_tcp_bytes_used = 0, mx_tcp_frames_used = 0,
      mx_tcp_discovery_bytes_used = 0, mx_tcp_discovery_frames_used = 0,
      mx_tcp_low_bytes_used = 0, mx_tcp_low_frames_used = 0,
      mx_special_partial = replicate EV_MUX_TARGET_COUNT None,
      mx_preview_frames = replicate EV_MUX_PREVIEW_FRAMES zero_special,
      mx_large_frame = zero_special, mx_preview_pending = None, mx_preview_active = None,
      mx_heap = (\<lambda>_. None), mx_preview_buffers = replicate 2 None, mx_preview_capacities = replicate 2 0,
      mx_observer_buffers = replicate EV_MUX_OBSERVER_BUFFERS None,
      mx_observer_capacities = replicate EV_MUX_OBSERVER_BUFFERS 0,
      mx_large_buffer = None, mx_large_capacity = 0,
      mx_observer_generations = replicate (unat EV_TRANSPORT_TCP_LINKS) 0,
      mx_uart_paused = False, mx_last_timeout = None, mx_tx_timeout_count = 0, mx_tx_drop_count = 0,
      mx_tx_queue_full_count = 0, mx_tx_stale_count = 0, mx_tx_enqueue_order = 0\<rparr>"

text \<open>
  \<open>created\<close> says whether the mutex of the start exists and \<open>taken\<close> whether it was taken, \<open>arena\<close>
  is the allocated slab, \<open>locks\<close> and \<open>task\<close> whether the locks and the task could be created. The
  flag is \<open>s_initialized\<close>.
\<close>

definition ev_mux_init0 ::
  "bool \<Rightarrow> bool \<Rightarrow> u8 list option \<Rightarrow> bool \<Rightarrow> bool \<Rightarrow> bool \<times> mux \<Rightarrow> esp_err \<times> bool \<times> mux" where
  "ev_mux_init0 created taken arena locks task st =
     (let (initialized, m) = st
      in if \<not> created then (ESP_ERR_NO_MEM, initialized, m)
         else if \<not> taken then (ESP_ERR_TIMEOUT, initialized, m)
         else if initialized then (ESP_OK, initialized, m)
         else
           let bound = (if arena \<noteq> None \<and> locks then ev_mux_target_queues_bind (m\<lparr>mx_slab := the arena\<rparr>) else m)
           in if arena \<noteq> None \<and> locks \<and> task then (ESP_OK, True, bound)
              else (ESP_ERR_NO_MEM, False, ev_mux_target_queues_reset (bound\<lparr>mx_slab := []\<rparr>)))"

definition ev_mux_uart_pause :: "bool \<Rightarrow> mux \<Rightarrow> mux" where
  "ev_mux_uart_pause paused m = m\<lparr>mx_uart_paused := paused\<rparr>"

definition cancel_vm_epoch_frames ::
  "bool \<Rightarrow> bool \<Rightarrow> (nat \<Rightarrow> bool) \<Rightarrow> mux \<Rightarrow> u32 \<Rightarrow> callback list \<times> mux" where
  "cancel_vm_epoch_frames ready special_lock locks m vm_epoch =
     (if vm_epoch = 0 \<or> \<not> ready then ([], m)
      else cancel_frames_everywhere special_lock locks m True vm_epoch None None)"

section \<open>Operations that leave the queues alone\<close>

definition unaffected :: "mux \<Rightarrow> mux \<Rightarrow> bool" where
  "unaffected m m' \<longleftrightarrow> same_queues m m' \<and> gentle m m'"

lemma unaffected_worker: "unaffected m m' \<Longrightarrow> worker_inv m \<Longrightarrow> worker_inv m'"
  unfolding unaffected_def worker_inv_def
  using same_queues_inv [of m m'] fewer_content [OF same_queues_fewer, of m m'] gentle_tx_inv [of m m'] by blast

lemma unaffected_trans: "unaffected a b \<Longrightarrow> unaffected b c \<Longrightarrow> unaffected a c"
  using same_queues_trans gentle_trans by (auto simp: unaffected_def)

lemma unaffected_refl [simp]: "unaffected m m"
  by (simp add: unaffected_def)

lemma unaffected_fields [simp]:
  "unaffected m (m\<lparr>mx_tickets := ts\<rparr>)" "unaffected m (m\<lparr>mx_uart_paused := b\<rparr>)"
  "unaffected m (ev_mux_record_tx_drop m)"
  by (auto simp: unaffected_def same_queues_def same_frames_def ev_mux_record_tx_drop_def intro!: same_frames_gentle)

lemma special_unaffected:
  "unaffected m (snd (ev_mux_submit_special malloc t baud now locked m o1 md p n large ticket))"
  using submit_special_queues submit_special_gentle by (simp add: unaffected_def)

lemma tickets_special_unaffected:
  "unaffected m (snd (ev_mux_submit_special malloc t baud now locked (m\<lparr>mx_tickets := ts\<rparr>) o1 d p n large tk))"
  by (rule unaffected_trans [OF _ special_unaffected]) simp

lemma large_unaffected:
  "unaffected m (snd (snd (ev_mux_submit_large_link ready malloc t sess baud now locked m options md p n out)))"
proof -
  have "unaffected m ((snd (ev_mux_submit_special malloc t baud now locked (m\<lparr>mx_tickets := ts\<rparr>) o1 d p n True tk))\<lparr>mx_tickets := ts'\<rparr>)"
    for o1 d tk ts ts' p n
    by (rule unaffected_trans [OF tickets_special_unaffected unaffected_fields(1)])
  moreover have "unaffected m ((snd (ev_mux_submit_special malloc t baud now locked m o1 d p n True tk))\<lparr>mx_tickets := ts'\<rparr>)"
    for o1 d tk ts' p n
    by (rule unaffected_trans [OF special_unaffected unaffected_fields(1)])
  ultimately show ?thesis using tickets_special_unaffected special_unaffected
    by (simp add: ev_mux_submit_large_link_def Let_def split_beta split: option.split)
qed

lemma preview_unaffected:
  "unaffected m (snd (ev_mux_submit_preview_link ready malloc t sess baud now locked m options md p n))"
proof -
  have "unaffected m (ev_mux_record_tx_drop (snd (ev_mux_submit_special malloc t baud now locked m o1 d p n large tk)))"
    for o1 d tk large p n
    by (rule unaffected_trans [OF special_unaffected unaffected_fields(3)])
  then show ?thesis using special_unaffected
    by (simp add: ev_mux_submit_preview_link_def Let_def split_beta split: option.split)
qed

lemma publish_unaffected:
  "unaffected m (snd (ev_mux_preview_publish_observers ready malloc t baud now locked m md p n))"
  using publish_queues publish_gentle by (simp add: unaffected_def)

lemma subscribe_unaffected: "unaffected m (snd (ev_mux_preview_subscribe ready t sess locked m link en))"
  using subscribe_queues subscribe_gentle by (simp add: unaffected_def)

section \<open>Submitting and cancelling\<close>

lemma enqueue_failed_fewer:
  assumes inv: "mux_inv m" and wf: "mux_wf m" and ml: "ml \<le> length md"
    and run: "ev_mux_enqueue_normal t baud now locked m options md ml payload ticket rr = (res, m')"
    and failed: "res \<noteq> ESP_OK"
  shows "fewer m m'"
proof -
  have acc: "same_accounts m m'" "mx_slab m' = mx_slab m"
    using run inv ml failed by (cases rule: enqueue_cases, auto)+
  have arena: "tq_arena (mx_targets m' ! tj) = tq_arena (mx_targets m ! tj)" if "tj < 6" for tj
    using acc(1) that wf by (simp add: same_accounts_def mux_wf_def Let_def)
  show ?thesis
  proof (cases "m' = m \<or> m' = rejected rr m options")
    case True
    then show ?thesis using same_frames_live [OF rejected_frames] acc(2) arena
      by (auto simp: fewer_def)
  next
    case False
    let ?el = "encoded_length ml (length payload)"
    obtain ti i where ti: "ev_mux_target_index (op_link options) = Some ti"
        "ev_mux_free_frame_slot (mx_targets m ! ti) = Some i"
        "enqueue_frame t baud now m options md ml payload ticket rr ti i ?el
           (ev_mux_frame_timeout baud (the (op_link options)) ?el) = (res, m')"
      using run False by (auto simp: ev_mux_enqueue_normal_def Let_def split: option.splits if_split_asm)
    have b: "ti < 6" "i < 8" "\<not> fr_used (tq_frames (mx_targets m ! ti) ! i)"
      using target_index_bound [OF ti(1)] frame_slot [OF ti(2)] by auto
    from enqueue_frame_shape [OF ti(3)] obtain q m2 f where s: "m' = set_target ti q m2"
      "tq_frames q = (tq_frames (mx_targets m ! ti))[i := f]" "same_frames m m2" by blast
    have m2: "mux_wf m2" "frame_at m2 = frame_at m" "mx_targets m2 = mx_targets m"
      using same_frames_gentle [OF s(3)] same_frames_live [OF s(3)] wf s(3)
      by (auto simp: gentle_def same_frames_def)
    have l: "i < length (tq_frames (mx_targets m ! ti))" "ti < length (mx_targets m)"
      using wf b by (simp_all add: mux_wf_def)
    have "mx_targets m' ! ti = q" using l(2) by (simp add: s(1) set_target_def m2(3))
    moreover have "frames_of (mx_targets m' ! ti) = frames_of (mx_targets m ! ti)"
      using acc(1) l(2) by (simp add: same_accounts_def Let_def)
    ultimately have "frames_of q = frames_of (mx_targets m ! ti)" by simp
    then have "\<not> fr_used f"
      using frames_of_fill [OF l(1) b(3), of f]
        frames_of_cong [of q "(mx_targets m ! ti)\<lparr>tq_frames := (tq_frames (mx_targets m ! ti))[i := f]\<rparr>"] s(2)
      by auto
    moreover have "frame_at m (Queue_place ti i) = None" using b by (simp add: frame_at_def)
    ultimately have "frame_at m' = frame_at m"
      using set_target_live(2) [OF b(1,2) m2(1), of q f] s m2 by (simp add: fun_upd_idem)
    then show ?thesis using acc(2) arena by (simp add: fewer_def)
  qed
qed

lemma entered_content:
  assumes e: "entered m m' ti i f md payload" and c: "content_inv m"
    and total: "0 < fr_total_len f"
  shows "content_inv m'"
  unfolding content_inv_def
proof (intro allI impI)
  fix tj j g
  assume g: "frame_at m' (Queue_place tj j) = Some g"
  have frames: "frame_at m' = (frame_at m)(Queue_place ti i := Some f)" using e by (simp add: entered_def)
  show "crc_inv None (mx_slab m') (mx_targets m' ! tj) g \<and> fr_tx_offset g < fr_total_len g \<and>
      (fr_tx_offset g \<noteq> 0 \<longrightarrow> fr_header_ready g)"
  proof (cases "tj = ti \<and> j = i")
    case True
    then have "g = f" using g frames by simp
    then show ?thesis using True e total by (simp add: entered_def)
  next
    case False
    then have old: "frame_at m (Queue_place tj j) = Some g" using g frames by auto
    have "crc_inv None (mx_slab m) (mx_targets m ! tj) g \<and> fr_tx_offset g < fr_total_len g \<and>
        (fr_tx_offset g \<noteq> 0 \<longrightarrow> fr_header_ready g)" using c old unfolding content_inv_def by blast
    moreover have "payload_of None (mx_slab m') (mx_targets m' ! tj) g = payload_of None (mx_slab m) (mx_targets m ! tj) g"
      "payload_ok None (mx_slab m') (mx_targets m' ! tj) g" using e old by (auto simp: entered_def)
    moreover have "payload_ok None (mx_slab m) (mx_targets m ! tj) g"
      using calculation(1) by (simp add: crc_inv_def Let_def)
    ultimately show ?thesis using crc_inv_cong by metis
  qed
qed

lemma enqueue_worker:
  assumes inv: "worker_inv m"
    and run: "ev_mux_enqueue_normal t baud now locked m options md (length md) payload ticket rr = (res, m')"
  shows "worker_inv m'"
proof -
  have p: "mux_inv m" "mux_wf m" "tx_inv m" "content_inv m" using inv by (simp_all add: worker_inv_def tx_inv_def)
  have tx: "tx_inv m'" by (rule gentle_tx_inv [OF enqueue_gentle [OF run] p(3)])
  show ?thesis
  proof (cases "res = ESP_OK")
    case False
    have "same_accounts m m'" using run p(1) order_refl [of "length md"] False by (cases rule: enqueue_cases) auto
    then have "mux_inv m'" using p(1) same_accounts_inv by blast
    then show ?thesis
      using tx fewer_content [OF enqueue_failed_fewer [OF p(1,2) order_refl run False] p(4)]
      by (simp add: worker_inv_def)
  next
    case True
    obtain ti i f where "entered m m' ti i f md payload" "mux_inv m'"
      using accepted_entered [OF p(1,2) run [unfolded True]] by blast
    moreover have "0 < fr_total_len f" using calculation(1) by (simp add: entered_def encoded_length_def)
    ultimately show ?thesis using tx entered_content p(4) by (simp add: worker_inv_def)
  qed
qed

lemma submit_worker:
  assumes inv: "worker_inv m"
  shows "worker_inv (snd (snd (ev_mux_submit_link ready t baud now locked m options md payload n out)))"
proof -
  obtain res out' m' where run: "ev_mux_submit_link ready t baud now locked m options md payload n out = (res, out', m')"
    using prod_cases3 by blast
  note s = submit_link_shape [of ready t baud now locked m options md payload n out, unfolded run Let_def prod.case]
  show ?thesis
  proof (cases "m' = m")
    case True
    then show ?thesis using inv run by simp
  next
    case False
    with s obtain o1 d p ticket ts r m1 ts' where e:
      "ev_mux_enqueue_normal t baud now locked (m\<lparr>mx_tickets := ts\<rparr>) o1 d (length d) p ticket True = (r, m1)"
      "m' = m1\<lparr>mx_tickets := ts'\<rparr>" by blast
    have "worker_inv (m\<lparr>mx_tickets := ts\<rparr>)" by (rule unaffected_worker [OF _ inv]) simp
    from enqueue_worker [OF this e(1)] have "worker_inv m1" .
    then have "worker_inv m'" unfolding e(2) by (rule unaffected_worker [rotated]) simp
    then show ?thesis by (simp add: run)
  qed
qed

lemma cancel_worker:
  assumes inv: "worker_inv m"
  shows "worker_inv (snd (cancel_frames_everywhere sl locks m e v l s))"
proof -
  have p: "mux_inv m" "mux_wf m" "tx_inv m" "content_inv m" using inv by (simp_all add: worker_inv_def tx_inv_def)
  show ?thesis unfolding worker_inv_def
    using cancel_everywhere_inv [OF p(1)] gentle_tx_inv [OF cancel_everywhere_gentle p(3)]
      fewer_content [OF cancel_everywhere_fewer [OF p(2)] p(4)] by blast
qed

section \<open>Steps\<close>

type_synonym 'd mux_system = "mux \<times> world \<times> 'd"

inductive mux_step :: "'d mux_system \<Rightarrow> 'd mux_system \<Rightarrow> bool" where
  submit: "ev_mux_submit_link ready (w_transport w) baud now locked m options md payload n out = (e, out', m') \<Longrightarrow>
    mux_step (m, w, d) (m', w, d)"
| submit_large: "ev_mux_submit_large_link ready malloc (w_transport w) (w_session w) baud now locked m options md
      payload n out = (e, out', m') \<Longrightarrow> mux_step (m, w, d) (m', w, d)"
| submit_preview: "ev_mux_submit_preview_link ready malloc (w_transport w) (w_session w) baud now locked m options md
      payload n = (e, m') \<Longrightarrow> mux_step (m, w, d) (m', w, d)"
| publish: "ev_mux_preview_publish_observers ready malloc (w_transport w) baud now locked m md payload n = (e, m') \<Longrightarrow>
    mux_step (m, w, d) (m', w, d)"
| subscribe: "ev_mux_preview_subscribe ready (w_transport w) (w_session w) locked m link enable = (e, m') \<Longrightarrow>
    mux_step (m, w, d) (m', w, d)"
| cancel_session: "ev_mux_cancel_session ready special_lock locks m link sid = (calls, m') \<Longrightarrow>
    mux_step (m, w, d) (m', w, d)"
| cancel_epoch: "cancel_vm_epoch_frames ready special_lock locks m vm_epoch = (calls, m') \<Longrightarrow>
    mux_step (m, w, d) (m', w, d)"
| pause: "mux_step (m, w, d) (ev_mux_uart_pause paused m, w, d)"
| forget: "mux_step (m, w, d) (m\<lparr>mx_tickets := ev_mux_ticket_forget (mx_tickets m) ticket\<rparr>, w, d)"
| wait: "ev_mux_wait (mx_tickets m) ticket (\<lambda>ts. (signalled, ts)) out = (e, out', ts) \<Longrightarrow>
    mux_step (m, w, d) (m\<lparr>mx_tickets := ts\<rparr>, w, d)"
| record_drop: "mux_step (m, w, d) (ev_mux_record_tx_drop m, w, d)"
| turn: "ti < 6 \<Longrightarrow> ev_mux_process_target env ti (m, w, d) = (calls, m', w', d') \<Longrightarrow>
    mux_step (m, w, d) (m', w', d')"
| others: "mux_step (m, w, d) (m, w', d')"

inductive_cases mux_stepE: "mux_step (m, w, d) (m', w', d')"

lemma step_worker:
  assumes "mux_step s s'" and "worker_inv (fst s)"
  shows "worker_inv (fst s')"
  using assms
proof (induction rule: mux_step.induct)
  case (submit ready w baud now locked m options md payload n out e out' m' d)
  then show ?case using submit_worker [of m ready "w_transport w" baud now locked options md payload n out] by simp
next
  case (submit_large ready malloc w baud now locked m options md payload n out e out' m' d)
  then show ?case
    using unaffected_worker [OF large_unaffected, of m ready malloc "w_transport w" "w_session w" baud now locked
        options md payload n out] by simp
next
  case (submit_preview ready malloc w baud now locked m options md payload n e m' d)
  then show ?case
    using unaffected_worker [OF preview_unaffected, of m ready malloc "w_transport w" "w_session w" baud now locked
        options md payload n] by simp
next
  case (publish ready malloc w baud now locked m md payload n e m' d)
  then show ?case
    using unaffected_worker [OF publish_unaffected, of m ready malloc "w_transport w" baud now locked md payload n] by simp
next
  case (subscribe ready w locked m link enable e m' d)
  then show ?case
    using unaffected_worker [OF subscribe_unaffected, of m ready "w_transport w" "w_session w" locked link enable] by simp
next
  case (cancel_session ready special_lock locks m link sid calls m' w d)
  then show ?case using cancel_worker [of m special_lock locks False 0 link sid]
    by (auto simp: ev_mux_cancel_session_def split: if_splits)
next
  case (cancel_epoch ready special_lock locks m vm_epoch calls m' w d)
  then show ?case using cancel_worker [of m special_lock locks True vm_epoch None None]
    by (auto simp: cancel_vm_epoch_frames_def split: if_splits)
next
  case (turn ti env m w d calls m' w' d')
  then show ?case using process_worker by auto
qed (auto simp: ev_mux_uart_pause_def intro: unaffected_worker [OF unaffected_fields(1)]
    unaffected_worker [OF unaffected_fields(2)] unaffected_worker [OF unaffected_fields(3)])

section \<open>The start\<close>

lemma bound_unused: "i < 8 \<Longrightarrow> \<not> fr_used (tq_frames (bound_queue k) ! i)"
  by (simp add: bound_queue_def zero_queue_def EV_MUX_QUEUE_FRAMES_def)

lemma bound_queues:
  "mx_targets (ev_mux_target_queues_bind m) = map bound_queue [0..<6]"
  "mx_special_partial (ev_mux_target_queues_bind m) = replicate 6 None"
  by (simp_all add: ev_mux_target_queues_bind_def EV_MUX_TARGET_COUNT_def EV_MUX_SERIAL_TARGETS_def
      EV_TRANSPORT_TCP_LINKS_def)

lemma zero_specials:
  "mx_preview_frames mux_zero = replicate 6 zero_special" "mx_large_frame mux_zero = zero_special"
  "mx_preview_pending mux_zero = None"
  by (simp_all add: mux_zero_def special_consts)

lemma zero_special_sel [simp]: "\<not> sp_used zero_special" "sp_kind zero_special = EV_MUX_SPECIAL_NONE"
  by (simp_all add: zero_special_def)

definition mux_start :: "u8 list \<Rightarrow> mux" where
  "mux_start arena = ev_mux_target_queues_bind (mux_zero\<lparr>mx_slab := arena\<rparr>)"

lemma start_sel:
  "mx_slab (mux_start arena) = arena" "mx_targets (mux_start arena) = map bound_queue [0..<6]"
  "mx_special_partial (mux_start arena) = replicate 6 None"
  "mx_preview_frames (mux_start arena) = replicate 6 zero_special" "mx_large_frame (mux_start arena) = zero_special"
  "mx_preview_pending (mux_start arena) = None"
  by (simp_all add: mux_start_def bound_queues) (simp_all add: ev_mux_target_queues_bind_def zero_specials)

lemma start_frames: "frame_at (mux_start arena) p = None"
proof (cases p)
  case (Queue_place ti i)
  then show ?thesis using bound_unused by (simp add: frame_at_def start_sel)
next
  case (Special_place s)
  then show ?thesis by (cases s) (simp_all add: frame_at_def start_sel)
qed

lemma start_wf: "mux_wf (mux_start arena)"
  by (simp add: mux_wf_def start_sel)
    (simp add: bound_queue_def zero_queue_def EV_MUX_QUEUE_FRAMES_def)

lemma bound_empty: "frames_of (bound_queue k) = {#}"
  by (simp add: frames_of_def bound_queue_def zero_queue_def EV_MUX_QUEUE_FRAMES_def filter_mset_eq_conv)

lemma all_free_owned: "bp.owned (- 1) {#}"
proof -
  have "free_blocks (- 1) = {..<64}" by (auto simp: free_blocks_def)
  then show ?thesis by (simp add: bp.owned_def)
qed

lemma start_accounts:
  assumes "length arena = 65536"
  shows "mux_inv (mux_start arena)"
proof -
  have sel: "mx_tcp_arena (mux_start arena) = Some 49152" "mx_tcp_free_blocks (mux_start arena) = - 1"
    "mx_tcp_frames_used (mux_start arena) = 0" "mx_tcp_bytes_used (mux_start arena) = 0"
    "mx_tcp_discovery_frames_used (mux_start arena) = 0" "mx_tcp_discovery_bytes_used (mux_start arena) = 0"
    "mx_tcp_low_frames_used (mux_start arena) = 0" "mx_tcp_low_bytes_used (mux_start arena) = 0"
    by (simp_all add: mux_start_def ev_mux_target_queues_bind_def EV_MUX_SERIAL_TARGETS_def EV_MUX_QUEUE_BYTES_def)
  have "tcp_frames (mux_start arena) = {#}" by (simp add: tcp_frames_def start_sel bound_empty)
  then have tcp: "tcp_inv (mux_start arena)"
    using all_free_owned by (simp add: tcp_inv_def Let_def sel blocks_of_def bytes_of_frames_def)
  have "queue_inv i (bound_queue i)" if "i < 6" for i
    using all_free_owned bound_empty [of i] that
    by (simp add: queue_inv_def blocks_of_def bytes_of_frames_def)
      (simp add: bound_queue_def zero_queue_def EV_MUX_QUEUE_FRAMES_def EV_MUX_SERIAL_TARGETS_def EV_MUX_QUEUE_BYTES_def)
  then show ?thesis using assms tcp by (simp add: mux_inv_def start_sel sel)
qed

lemma start_worker:
  assumes "length arena = 65536"
  shows "worker_inv (mux_start arena)"
  using start_accounts [OF assms] start_wf [of arena]
  by (simp add: worker_inv_def tx_inv_def content_inv_def started_at_def start_frames start_sel)

section \<open>Properties\<close>

text \<open>
  Property C16: in every state that can be reached from a successful start, by any sequence of
  submissions, cancellations, subscriptions, turns of the worker and changes of the session, the
  endpoints and the drivers, the invariant of the transmitter holds: the accounts of frames, bytes
  and blocks match the queues, an endpoint has started at most one frame, and every queued frame
  still holds the bytes that were submitted with the checksum built over them.
\<close>
theorem reachable_states_keep_the_invariant:
  assumes "ev_mux_init0 True True (Some arena) True True (False, mux_zero) = (e, ready, m)"
    and "length arena = 65536" and "mux_step\<^sup>*\<^sup>* (m, w, d) (m', w', d')"
  shows "worker_inv m'"
proof -
  have m: "m = mux_start arena" using assms(1) by (simp add: ev_mux_init0_def mux_start_def)
  have "worker_inv (fst s)" if "mux_step\<^sup>*\<^sup>* (m, w, d) s" for s
    using that by (induction rule: rtranclp_induct) (auto simp: m start_worker [OF assms(2)] intro: step_worker)
  from this [OF assms(3)] show ?thesis by simp
qed

lemma reachable_states_keep_the_invariant_witness:
  "worker_inv (ev_mux_uart_pause True (snd (snd
     (ev_mux_init0 True True (Some (replicate 65536 0)) True True (False, mux_zero)))))"
proof -
  let ?r = "ev_mux_init0 True True (Some (replicate 65536 (0::u8))) True True (False, mux_zero)"
  have "mux_step\<^sup>*\<^sup>* (snd (snd ?r), undefined, ()) (ev_mux_uart_pause True (snd (snd ?r)), undefined, ())"
    by (rule r_into_rtranclp) (rule pause)
  then show ?thesis
    by (rule reachable_states_keep_the_invariant [where e = "fst ?r" and ready = "fst (snd ?r)" and arena = "replicate 65536 0", rotated 2])
      simp_all
qed

text \<open>
  Property C17: a submission that is accepted puts exactly one frame into a free slot of the queue
  of its endpoint, with the submitted metadata and payload, its length and link, not yet started;
  all other frames stay where they are with their bytes unchanged.
\<close>
theorem accepted_submission_is_stored:
  assumes inv: "worker_inv m"
    and run: "ev_mux_submit_link ready t baud now locked m (Some o1) (Some md) (Some payload) n out = (ESP_OK, out', m')"
  shows "\<exists>ti i f. ev_mux_target_index (op_link o1) = Some ti \<and> entered m m' ti i f md (take n payload) \<and>
    fr_link f = the (op_link o1) \<and> fr_priority f = op_tx_class o1"
proof -
  note s = submit_link_shape [of ready t baud now locked m "Some o1" "Some md" "Some payload" n out,
      unfolded run Let_def prod.case]
  then obtain ticket ts m1 ts' where e:
    "ev_mux_enqueue_normal t baud now locked (m\<lparr>mx_tickets := ts\<rparr>) o1 md (length md) (take n payload) ticket True = (ESP_OK, m1)"
    "m' = m1\<lparr>mx_tickets := ts'\<rparr>" by auto
  have "worker_inv (m\<lparr>mx_tickets := ts\<rparr>)" by (rule unaffected_worker [OF _ inv]) simp
  then have w: "mux_inv (m\<lparr>mx_tickets := ts\<rparr>)" "mux_wf (m\<lparr>mx_tickets := ts\<rparr>)" by (simp_all add: worker_inv_def tx_inv_def)
  have f: "frame_at (x\<lparr>mx_tickets := ts\<rparr>) = frame_at x" for x ts
    by (rule same_frames_live) (simp add: same_frames_def)
  from accepted_entered [OF w e(1)] show ?thesis by (simp add: entered_def f e(2)) blast
qed

section \<open>What a turn gives to the drivers\<close>

lemma frame_total:
  assumes inv: "worker_inv m" and p: "ti < 6" "valid_ref (In_queue i)" "frame_present m ti (In_queue i)"
  shows "fr_total_len (get_frame m ti (In_queue i)) =
    length (wire_bytes None (mx_slab m) (mx_targets m ! ti) (get_frame m ti (In_queue i)))"
proof -
  have c: "crc_inv None (mx_slab m) (mx_targets m ! ti) (get_frame m ti (In_queue i))"
    using queue_content [OF _ p] inv by (simp add: worker_inv_def)
  have q: "queue_inv ti (mx_targets m ! ti)" using inv p(1) by (simp add: worker_inv_def mux_inv_def)
  have "get_frame m ti (In_queue i) \<in># frames_of (mx_targets m ! ti)"
    using p(2,3) q by (auto simp: get_frame_def frame_present_def valid_ref_def queue_inv_def intro!: frames_of_member)
  then have "frame_ok (3 \<le> ti) (get_frame m ti (In_queue i))" using q by (simp add: queue_inv_def)
  then show ?thesis using wire_length [OF c] by (simp add: frame_ok_def)
qed

lemma fail_session_fewer:
  assumes "mux_wf m" and "ev_mux_fail_session env m w link sid c = (calls, m', w')"
  shows "fewer m m'"
proof -
  have "m' = m \<or> (\<exists>sl locks s. m' = snd (cancel_frames_everywhere sl locks m False 0 (Some link) s))"
    using assms(2) by (auto simp: ev_mux_fail_session_def ev_mux_cancel_session_def Let_def split: prod.splits if_splits)
      (metis snd_conv)+
  then show ?thesis using cancel_everywhere_fewer [OF assms(1)] by auto
qed

lemma finish_leaves:
  assumes wf: "mux_wf m" and p: "ti < 6" "valid_ref (In_queue i)" "frame_present m ti (In_queue i)"
    and run: "tx_finish env m w ti (In_queue i) oc link sid = (calls, m', w')" and some: "oc_result oc = Some result"
  shows "frame_at m' (Queue_place ti i) = None"
proof -
  obtain completion m1 where d: "ev_mux_drop_frame_locked m ti (In_queue i) result = (completion, m1)" by fastforce
  then have m1: "m1 = snd (ev_mux_drop_frame_locked m ti (In_queue i) result)" by simp
  note dr = drop_spec [OF wf p m1]
  define c where "c = (case completion of None \<Rightarrow> zero_completion | Some c \<Rightarrow> c)"
  define m2 where "m2 = (if cm_result c \<noteq> ESP_OK then ev_mux_record_tx_drop m1 else m1)"
  have sf: "same_queues m1 m2" "same_frames m1 m2"
    by (simp_all add: m2_def ev_mux_record_tx_drop_def same_queues_def same_frames_def)
  have wf2: "mux_wf m2" using same_frames_gentle [OF sf(2)] dr(1) by (simp add: gentle_def)
  obtain more m3 w1 where f: "ev_mux_fail_session env m2 w link sid (oc_close oc \<or> oc_partial oc) = (more, m3, w1)"
    using prod_cases3 by blast
  have "m' = m2 \<or> m' = m3"
    using run unfolding tx_finish_def some option.case d Let_def prod.case c_def [symmetric] m2_def [symmetric] f
    by (auto split: if_splits)
  then have "fewer m2 m'" using fail_session_fewer [OF wf2 f] by auto
  then have "fewer m1 m'" using same_queues_fewer [OF sf(1)] fewer_trans by blast
  moreover have "frame_at m1 (Queue_place ti i) = None" using dr(2) by (simp add: place_of_def)
  ultimately show ?thesis unfolding fewer_def by metis
qed

lemma chosen_write:
  assumes inv: "worker_inv m" and p: "ti < 6" "valid_ref (In_queue i)" "frame_present m ti (In_queue i)"
    and run: "tx_chosen env m t sess ti (In_queue i) d = (oc, m', d')" and d: "d' \<noteq> d"
    and f: "f = get_frame m ti (In_queue i)" and W: "W = wire_bytes None (mx_slab m) (mx_targets m ! ti) f"
  shows "\<exists>vs io. next_bytes W (fr_tx_offset f) vs \<and> write_of env t (fr_link f) vs d = (io, d') \<and>
    fr_tx_offset (get_frame m' ti (In_queue i)) = fr_tx_offset f + moved io (length (concat vs)) \<and>
    ev_transport_link_is_current t (Some (fr_link f)) \<and>
    ev_mux_frame_authorized t sess (te_session_ms env) m f = EV_MUX_FRAME_ALLOWED"
proof -
  let ?r = "In_queue i"
  have wf: "mux_wf m" and c: "content_inv m" using inv by (simp_all add: worker_inv_def tx_inv_def)
  have fc: "crc_inv None (mx_slab m) (mx_targets m ! ti) f" "fr_tx_offset f < fr_total_len f"
    using queue_content [OF c p] by (simp_all add: f)
  have len: "fr_total_len f = length W" using frame_total [OF inv p] by (simp add: f W)
  from wf p run show ?thesis
  proof (cases rule: tx_chosen_spec)
    case still
    then show ?thesis using d by simp
  next
    case (written m2 h g io offered)
    note pr = stays_present [OF written(1) p]
    have h: "same_content f h" "fr_link h = fr_link f" "fr_tx_offset h = fr_tx_offset f"
      "crc_inv None (mx_slab m) (mx_targets m ! ti) h" "mx_slab m2 = mx_slab m"
      "tq_arena (mx_targets m2 ! ti) = tq_arena (mx_targets m ! ti)"
      using written(1) fc(1) p(1) by (simp_all add: stays_def Let_def f changed_def)
    have h2: "crc_inv None (mx_slab m2) (mx_targets m2 ! ti) h"
      using h(4) arena_cong(3) [OF h(6)] by (simp add: h(5))
    have W2: "W = wire_bytes None (mx_slab m2) (mx_targets m2 ! ti) h"
      using same_content_payload [OF h(1)] h(1) arena_cong(1) [OF h(6)]
      by (simp add: W wire_bytes_def h(5) same_content_def)
    have "\<exists>vs. next_bytes W (fr_tx_offset (get_frame m2 ti ?r)) vs \<and> offered = length (concat vs) \<and>
        write_of env t (fr_link (get_frame m2 ti ?r)) vs d = (io, d')"
      by (rule write_data [OF _ _ _ _ _ written(4)])
        (use h2 W2 written(2) h(1,3) len fc(2) in \<open>simp_all add: pr(3) same_content_def\<close>)
    then obtain vs where vs: "next_bytes W (fr_tx_offset f) vs" "offered = length (concat vs)"
        "write_of env t (fr_link f) vs d = (io, d')" by (auto simp: pr(3) h(2,3))
    have "changed (place_of ti ?r) g m2 m'" "fr_link g = fr_link (get_frame m2 ti ?r)"
      using written(3) pr(3) by (simp_all add: advanced_def)
    from changed_present(2) [OF this(1) p(1,2) pr(2) this(2)] have "get_frame m' ti ?r = g" .
    then show ?thesis using vs written(5,8,9) h(3) by (auto simp: f)
  qed
qed

text \<open>
  Property C18: a turn of the worker for an endpoint that touches the drivers has chosen one frame,
  the only one of this endpoint that may have started. The link of the frame is current and the
  session allows the frame. If the frame is one of the queue, the drivers get exactly its next
  bytes: at least one and at most 4096 bytes of header, metadata, payload and terminator from the
  cursor on; and if the frame is still queued afterwards, its cursor has moved by what the driver
  accepted.
\<close>
theorem turn_sends_the_next_bytes:
  assumes inv: "worker_inv m" and ti: "ti < 6"
    and run: "ev_mux_process_target env ti (m, w, d) = (calls, m', w', d')" and d: "d' \<noteq> d"
  shows "\<exists>r. let f = get_frame m ti r; W = wire_bytes None (mx_slab m) (mx_targets m ! ti) f
    in frame_present m ti r \<and> (\<forall>p. started_at m ti p \<longrightarrow> p = place_of ti r) \<and>
       ev_transport_link_is_current (w_transport w) (Some (fr_link f)) \<and>
       ev_mux_frame_authorized (w_transport w) (w_session w) (te_session_ms env) m f = EV_MUX_FRAME_ALLOWED \<and>
       (\<forall>i. r = In_queue i \<longrightarrow>
          (\<exists>vs io. next_bytes W (fr_tx_offset f) vs \<and>
             write_of env (w_transport w) (fr_link f) vs d = (io, d') \<and>
             (\<forall>g. frame_at m' (Queue_place ti i) = Some g \<longrightarrow>
                fr_tx_offset g = fr_tx_offset f + moved io (length (concat vs)))))"
proof -
  have wf: "mux_wf m" using inv by (simp add: worker_inv_def tx_inv_def)
  have free: "te_queue_free env" using run d by (auto simp: ev_mux_process_target_def split: if_splits)
  obtain r where r: "ev_mux_choose_frame_locked (te_choose_ms env) m ti (te_special_free env) = Some r"
    using run d free
    by (auto simp: ev_mux_process_target_def split: option.splits prod.splits)
  obtain oc m1 d1 where c: "tx_chosen env m (w_transport w) (w_session w) ti r d = (oc, m1, d1)"
    using prod_cases3 by blast
  obtain cs m2 w1 where f: "tx_finish env m1 w ti r oc (fr_link (get_frame m ti r)) (fr_session_id (get_frame m ti r)) = (cs, m2, w1)"
    using prod_cases3 by blast
  have eq: "m' = m2" "d' = d1" using run free r c f by (simp_all add: ev_mux_process_target_def Let_def)
  have p: "frame_present m ti r" "valid_ref r" using choose_present [OF r ti] by auto
  have only: "\<forall>q. started_at m ti q \<longrightarrow> q = place_of ti r"
    using choose_started [OF _ ti _ r] inv by (auto simp: worker_inv_def)
  have allowed: "ev_transport_link_is_current (w_transport w) (Some (fr_link (get_frame m ti r)))"
    "ev_mux_frame_authorized (w_transport w) (w_session w) (te_session_ms env) m (get_frame m ti r) = EV_MUX_FRAME_ALLOWED"
    using wf ti p(2,1) c d eq(2) by (cases rule: tx_chosen_spec; simp)+
  have "\<exists>vs io. next_bytes (wire_bytes None (mx_slab m) (mx_targets m ! ti) (get_frame m ti r)) (fr_tx_offset (get_frame m ti r)) vs \<and>
       write_of env (w_transport w) (fr_link (get_frame m ti r)) vs d = (io, d') \<and>
       (\<forall>g. frame_at m' (Queue_place ti i) = Some g \<longrightarrow>
          fr_tx_offset g = fr_tx_offset (get_frame m ti r) + moved io (length (concat vs)))" if ri: "r = In_queue i" for i
  proof -
    obtain vs io where w: "next_bytes (wire_bytes None (mx_slab m) (mx_targets m ! ti) (get_frame m ti r)) (fr_tx_offset (get_frame m ti r)) vs"
      "write_of env (w_transport w) (fr_link (get_frame m ti r)) vs d = (io, d1)"
      "fr_tx_offset (get_frame m1 ti r) = fr_tx_offset (get_frame m ti r) + moved io (length (concat vs))"
      using chosen_write [OF inv ti p(2,1) [unfolded ri] c [unfolded ri] _ refl refl] d eq(2) ri by blast
    have present: "mux_wf m1 \<and> frame_present m1 ti r"
      using wf ti p(2,1) c
    proof (cases rule: tx_chosen_spec)
      case (still g)
      then show ?thesis using stays_present(1,2) [OF still(1) ti p(2,1)] by simp
    next
      case (written m2 h g io offered)
      note pr = stays_present [OF written(1) ti p(2,1)]
      have ch: "changed (place_of ti r) g m2 m1" "fr_link g = fr_link (get_frame m2 ti r)"
        using written(3) pr(3) by (simp_all add: advanced_def)
      then show ?thesis using changed_present(1) [OF ch(1) ti p(2) pr(2) ch(2)] by (simp add: changed_def)
    qed
    have "fr_tx_offset g = fr_tx_offset (get_frame m1 ti r)" if g: "frame_at m' (Queue_place ti i) = Some g" for g
    proof (cases "oc_result oc")
      case None
      then have "m' = m1" using f eq(1) by (simp add: tx_finish_def)
      then show ?thesis using g present_live(2) [OF ti p(2)] present by (simp add: ri place_of_def)
    next
      case (Some result)
      show ?thesis
        using finish_leaves [OF _ ti p(2) [unfolded ri] _ f [unfolded ri] Some] present g eq(1) by (simp add: ri)
    qed
    then show ?thesis using w eq(2) by auto
  qed
  then show ?thesis using p(1) only allowed unfolding Let_def by blast
qed

end
