(* ===== verification/MuxStreamProps.thy ===== *)
theory MuxStreamProps
  imports MuxStream MuxSystem
begin

text \<open>
  What becomes of REPL output. The stage holds at most one unfinished line, a write returns, and what
  it passes to the queue is what was written, in order, each frame for the session that it was written
  for. The laws of the environment are \<open>stream_laws\<close>.
\<close>

section \<open>The laws of the environment\<close>

text \<open>
  The task holds the producer mutex, so that the others leave the stage alone and its mutex is
  free. They keep the invariant of the transmitter. Time passes while the task sleeps, and at no
  point more than 17 minutes.
\<close>

definition passes :: "'d stream \<Rightarrow> 'd stream \<Rightarrow> bool" where
  "passes r r' \<longleftrightarrow> sm_stage r' = sm_stage r \<and> (worker_inv (sm_mux r) \<longrightarrow> worker_inv (sm_mux r')) \<and>
     unat (sm_now r' - sm_now r) < 2 ^ 20"

definition stream_laws :: "'d stream_env \<Rightarrow> bool" where
  "stream_laws env \<longleftrightarrow>
     (\<forall>r. sv_stage_lock env r) \<and> (\<forall>r. passes r (sv_others env r)) \<and>
     (\<forall>r. passes r (sv_delay env r) \<and> sm_now (sv_delay env r) \<noteq> sm_now r)"

lemma stream_lawsD:
  assumes "stream_laws env"
  shows "sv_stage_lock env r" "sm_stage (sv_others env r) = sm_stage r" "sm_stage (sv_delay env r) = sm_stage r"
    "worker_inv (sm_mux r) \<Longrightarrow> worker_inv (sm_mux (sv_others env r))"
    "worker_inv (sm_mux r) \<Longrightarrow> worker_inv (sm_mux (sv_delay env r))"
    "unat (sm_now (sv_others env r) - sm_now r) < 2 ^ 20" "unat (sm_now (sv_delay env r) - sm_now r) < 2 ^ 20"
    "sm_now (sv_delay env r) \<noteq> sm_now r"
  using assms unfolding stream_laws_def passes_def by blast+

lemma stream_parts [simp]:
  "sm_stage (on_mux g r) = sm_stage r" "sm_mux (on_mux g r) = g (sm_mux r)" "sm_now (on_mux g r) = sm_now r"
  "sm_mux (ev_mux_repl_stage_reset_locked r) = sm_mux r" "sm_stage (ev_mux_repl_stage_reset_locked r) = zero_stage"
  "sm_mux (on_stage k r) = sm_mux r" "sm_stage (on_stage k r) = k (sm_stage r)"
  "sm_stage (stage_rejected st r) = sm_stage r"
  "sm_stage (ev_mux_repl_mark_stale_locked r) = zero_stage"
  by (simp_all add: on_mux_def on_stage_def ev_mux_repl_stage_reset_locked_def stage_rejected_def
      ev_mux_repl_mark_stale_locked_def)

lemma zero_stage_unused [simp]: "\<not> rs_used zero_stage" "rs_payload zero_stage = []"
  by (simp_all add: zero_stage_def)

lemma stage_enqueue_parts:
  assumes "stage_enqueue env st r = (e, r')"
  shows "sm_stage r' = sm_stage r" "sm_now r' = sm_now r"
  using assms by (auto simp: stage_enqueue_def split: prod.splits)

lemma counters_worker [simp]:
  "worker_inv (ev_mux_record_tx_drop m) = worker_inv m" if "worker_inv m"
  using that unaffected_worker [OF unaffected_fields(3)] by blast

lemma count_stale_unaffected: "unaffected m (count_stale m)"
  by (auto simp: count_stale_def unaffected_def same_queues_def same_frames_def intro!: same_frames_gentle)

lemma rejection_unaffected: "unaffected m (ev_mux_record_queue_rejection m options)"
  by (auto simp: ev_mux_record_queue_rejection_def unaffected_def same_queues_def same_frames_def Let_def
      intro!: same_frames_gentle split: option.split)

lemma stage_enqueue_worker:
  "stage_enqueue env st r = (e, r') \<Longrightarrow> worker_inv (sm_mux r) \<Longrightarrow> worker_inv (sm_mux r')"
  by (auto simp: stage_enqueue_def split: prod.splits intro: enqueue_worker)

lemma kept_worker:
  "worker_inv (sm_mux r) \<Longrightarrow> worker_inv (sm_mux (on_mux ev_mux_record_tx_drop r))"
  "worker_inv (sm_mux r) \<Longrightarrow> worker_inv (sm_mux (stage_rejected st r))"
  "worker_inv (sm_mux r) \<Longrightarrow> worker_inv (sm_mux (ev_mux_repl_mark_stale_locked r))"
  using unaffected_worker [OF unaffected_fields(3)] unaffected_worker [OF rejection_unaffected]
    unaffected_worker [OF count_stale_unaffected]
  by (simp_all add: stage_rejected_def ev_mux_repl_mark_stale_locked_def)

section \<open>A flush\<close>

text \<open>What a flush of the stage \<open>st\<close> has done.\<close>

definition flush_outcome :: "bool \<Rightarrow> ev_mux_repl_stage \<Rightarrow> 'd flushed \<Rightarrow> bool" where
  "flush_outcome waits st out \<longleftrightarrow>
     (case out of (e, failed, sent, r) \<Rightarrow>
        (if e = ESP_OK then sent = [st] \<and> failed = None \<and> sm_stage r = zero_stage
         else sent = [] \<and> (failed = None \<or> failed = Some (rs_link st, rs_session_id st)) \<and>
           (sm_stage r = zero_stage \<or>
            \<not> waits \<and> (\<exists>b t. sm_stage r = st\<lparr>rs_retrying := b, rs_retry_started_ms := t\<rparr>))))"

definition out_worker :: "'d flushed \<Rightarrow> bool" where
  "out_worker out \<longleftrightarrow> worker_inv (sm_mux (snd (snd (snd out))))"

lemma flush_ends:
  assumes laws: "stream_laws env" and st: "sm_stage r = st"
  shows "rs_used st \<Longrightarrow> flush_outcome waits st (ESP_ERR_INVALID_STATE, None, [],
       with_stage env (\<lambda>r. if rs_used (sm_stage r) then ev_mux_repl_mark_stale_locked r else r) r)"
    and "flush_outcome waits st (flush_expired env st r)"
    and "flush_outcome False st (flush_retry env st r)"
    and "flush_outcome waits st (ESP_OK, None, [st], with_stage env ev_mux_repl_stage_reset_locked r)"
    and "e \<noteq> ESP_OK \<Longrightarrow> flush_outcome waits st (e, stage_failure st, [],
       with_stage env ev_mux_repl_stage_reset_locked (on_mux ev_mux_record_tx_drop r))"
proof -
  note lock = stream_lawsD(1) [OF laws]
  have "st = st\<lparr>rs_retrying := rs_retrying st, rs_retry_started_ms := rs_retry_started_ms st\<rparr>" by simp
  then have same: "\<exists>b t. st = st\<lparr>rs_retrying := b, rs_retry_started_ms := t\<rparr>" by blast
  show "flush_outcome waits st (ESP_ERR_INVALID_STATE, None, [],
       with_stage env (\<lambda>r. if rs_used (sm_stage r) then ev_mux_repl_mark_stale_locked r else r) r)" if "rs_used st"
    using that st lock by (simp add: flush_outcome_def with_stage_def)
  show "flush_outcome waits st (flush_expired env st r)"
    using lock by (simp add: flush_outcome_def flush_expired_def stage_failure_def with_stage_def)
  show "flush_outcome False st (flush_retry env st r)"
    using lock st same by (auto simp: flush_outcome_def flush_retry_def stage_failure_def)
  show "flush_outcome waits st (ESP_OK, None, [st], with_stage env ev_mux_repl_stage_reset_locked r)"
    using lock by (simp add: flush_outcome_def with_stage_def)
  show "flush_outcome waits st (e, stage_failure st, [],
       with_stage env ev_mux_repl_stage_reset_locked (on_mux ev_mux_record_tx_drop r))" if "e \<noteq> ESP_OK"
    using that lock by (simp add: flush_outcome_def stage_failure_def with_stage_def)
qed

lemma flush_ends_worker:
  assumes laws: "stream_laws env" and w: "worker_inv (sm_mux r)"
  shows "worker_inv (sm_mux (with_stage env (\<lambda>r. if rs_used (sm_stage r) then ev_mux_repl_mark_stale_locked r else r) r))"
    and "out_worker (flush_expired env st r)" and "out_worker (flush_retry env st r)"
    and "worker_inv (sm_mux (with_stage env ev_mux_repl_stage_reset_locked r))"
    and "worker_inv (sm_mux (with_stage env ev_mux_repl_stage_reset_locked (on_mux ev_mux_record_tx_drop r)))"
  using kept_worker [OF w] w stream_lawsD(1) [OF laws]
  by (auto simp: with_stage_def flush_expired_def flush_retry_def out_worker_def)

lemma flush_loop_done:
  assumes "flush_loop env waits started st r = Some out" and "stream_laws env" and "sm_stage r = st" and "rs_used st"
    and "worker_inv (sm_mux r)"
  shows "flush_outcome waits st out \<and> out_worker out"
  using assms
proof (induction env waits started st r out rule: flush_loop.raw_induct [rotated, consumes 1, case_names step])
  case (step rec env waits started st r out)
  note laws = step(3)
  define r1 where "r1 = sv_others env r"
  obtain e r2 where e: "stage_enqueue env st r1 = (e, r2)" by fastforce
  define r3 where "r3 = sv_others env r2"
  have stage: "sm_stage r1 = st" "sm_stage r2 = st" "sm_stage r3 = st" "sm_stage (sv_delay env r3) = st"
    using stream_lawsD(2,3) [OF laws] stage_enqueue_parts(1) [OF e] step(4) by (simp_all add: r1_def r3_def)
  have w: "worker_inv (sm_mux r1)" "worker_inv (sm_mux r2)" "worker_inv (sm_mux r3)" "worker_inv (sm_mux (sv_delay env r3))"
    using stream_lawsD(4,5) [OF laws] stage_enqueue_worker [OF e] step(6) by (simp_all add: r1_def r3_def)
  note unfolded = step(2) [folded r1_def, unfolded Let_def, folded r1_def, unfolded e prod.case, folded r3_def]
  show ?case
  proof (cases "ev_mux_repl_stage_is_current r")
    case False
    then have "out = (ESP_ERR_INVALID_STATE, None, [],
        with_stage env (\<lambda>r. if rs_used (sm_stage r) then ev_mux_repl_mark_stale_locked r else r) r)"
      using unfolded by simp
    then show ?thesis using flush_ends(1) [OF laws step(4,5)] flush_ends_worker(1) [OF laws step(6)]
      by (simp add: out_worker_def)
  next
    case current: True
    consider (late) "waits" "EV_MUX_QUEUE_TIMEOUT_MS \<le> sm_now r1 - started"
      | (accepted) "\<not> (waits \<and> EV_MUX_QUEUE_TIMEOUT_MS \<le> sm_now r1 - started)" "e = ESP_OK"
      | (failed) "\<not> (waits \<and> EV_MUX_QUEUE_TIMEOUT_MS \<le> sm_now r1 - started)" "e \<noteq> ESP_OK" "e \<noteq> ESP_ERR_TIMEOUT"
      | (full) "\<not> (waits \<and> EV_MUX_QUEUE_TIMEOUT_MS \<le> sm_now r1 - started)" "e = ESP_ERR_TIMEOUT" by blast
    then show ?thesis
    proof cases
      case late
      then have "out = flush_expired env st r1" using unfolded current by simp
      then show ?thesis using flush_ends(2) [OF laws stage(1)] flush_ends_worker(2) [OF laws w(1)] by simp
    next
      case accepted
      then have "out = (ESP_OK, None, [st], with_stage env ev_mux_repl_stage_reset_locked r2)"
        using unfolded current by (auto split: if_split_asm)
      then show ?thesis using flush_ends(4) [OF laws stage(2)] flush_ends_worker(4) [OF laws w(2)] by (simp add: out_worker_def)
    next
      case failed
      then have "out = (e, stage_failure st, [], with_stage env ev_mux_repl_stage_reset_locked (on_mux ev_mux_record_tx_drop r2))"
        using unfolded current by (auto split: if_split_asm)
      then show ?thesis using flush_ends(5) [OF laws stage(2) failed(2)] flush_ends_worker(5) [OF laws w(2)]
        by (simp add: out_worker_def)
    next
      case full
      have go: "(if \<not> waits then Some (flush_retry env st r3)
          else if EV_MUX_QUEUE_TIMEOUT_MS \<le> sm_now r3 - started then Some (flush_expired env st r3)
          else rec env waits started st (sv_delay env r3)) = Some out"
        using unfolded current full by (auto split: if_split_asm)
      consider (retry) "\<not> waits" | (expired) "waits" "EV_MUX_QUEUE_TIMEOUT_MS \<le> sm_now r3 - started"
        | (again) "waits" "\<not> EV_MUX_QUEUE_TIMEOUT_MS \<le> sm_now r3 - started" by blast
      then show ?thesis
      proof cases
        case retry
        then have "out = flush_retry env st r3" using go by simp
        then show ?thesis using retry flush_ends(3) [OF laws stage(3)] flush_ends_worker(3) [OF laws w(3)] by simp
      next
        case expired
        then have "out = flush_expired env st r3" using go by simp
        then show ?thesis using flush_ends(2) [OF laws stage(3)] flush_ends_worker(2) [OF laws w(3)] by simp
      next
        case again
        then have "rec env waits started st (sv_delay env r3) = Some out" using go by simp
        from step(1) [OF this laws stage(4) step(5) w(4)] show ?thesis .
      qed
    qed
  qed
qed

lemma flush_locked_done:
  assumes "ev_mux_repl_flush_locked env started waits r = Some out" and laws: "stream_laws env"
    and w: "worker_inv (sm_mux r)"
  shows "out_worker out \<and>
    (if rs_used (sm_stage r) then flush_outcome waits (sm_stage r) out else out = (ESP_OK, None, [], r))"
proof (cases "rs_used (sm_stage r)")
  case False
  then have "out = (ESP_OK, None, [], r)" using assms(1) stream_lawsD(1) [OF laws] by (simp add: ev_mux_repl_flush_locked_def)
  then show ?thesis using w False by (simp add: out_worker_def)
next
  case used: True
  define r1 where "r1 = sv_others env r"
  have r1: "sm_stage r1 = sm_stage r" "worker_inv (sm_mux r1)" using stream_lawsD(2,4) [OF laws] w by (simp_all add: r1_def)
  obtain started' where out: "(if \<not> ev_mux_repl_stage_is_current r1
      then Some (ESP_ERR_INVALID_STATE, None, [], with_stage env ev_mux_repl_mark_stale_locked r1)
      else flush_loop env waits started' (sm_stage r) r1) = Some out"
    using assms(1) used stream_lawsD(1) [OF laws]
    unfolding ev_mux_repl_flush_locked_def Let_def r1_def by simp
  show ?thesis
  proof (cases "ev_mux_repl_stage_is_current r1")
    case False
    then have "out = (ESP_ERR_INVALID_STATE, None, [], ev_mux_repl_mark_stale_locked r1)"
      using out stream_lawsD(1) [OF laws] by (simp add: with_stage_def)
    then show ?thesis using used kept_worker(3) [OF r1(2)] by (simp add: flush_outcome_def out_worker_def)
  next
    case True
    then have "flush_loop env waits started' (sm_stage r) r1 = Some out" using out by simp
    from flush_loop_done [OF this laws r1(1) used r1(2)] show ?thesis using used by simp
  qed
qed

section \<open>Lines\<close>

definition line_frame :: "u8 list \<Rightarrow> bool" where
  "line_frame p \<longleftrightarrow> p \<noteq> [] \<and> length p \<le> 512 \<and> 0x0A \<notin> set (butlast p)"

text \<open>The stage holds the beginning of one line.\<close>

definition stage_ok :: "ev_mux_repl_stage \<Rightarrow> bool" where
  "stage_ok st \<longleftrightarrow> length (rs_payload st) < 512 \<and> 0x0A \<notin> set (rs_payload st) \<and> (rs_used st \<or> rs_payload st = [])"

lemma stage_ok_zero [simp]: "stage_ok zero_stage"
  by (simp add: stage_ok_def)

lemma line_take:
  assumes "length (takeWhile P xs) < length xs"
  shows "take (length (takeWhile P xs) + 1) xs = takeWhile P xs @ [xs ! length (takeWhile P xs)]"
    and "\<not> P (xs ! length (takeWhile P xs))"
  using assms nth_length_takeWhile by (auto simp: take_Suc_conv_app_nth takeWhile_eq_take [symmetric])

lemma stage_copy:
  assumes "length p < 512" "0x0A \<notin> set p" "bytes \<noteq> []" "rs_payload st = p"
  defines "n \<equiv> stage_copy_len st bytes"
  shows "0 < n" "n \<le> length bytes" "line_frame (p @ take n bytes)"
    "length (p @ take n bytes) \<noteq> 512 \<Longrightarrow> last (p @ take n bytes) \<noteq> 0x0A \<Longrightarrow>
       length (p @ take n bytes) < 512 \<and> 0x0A \<notin> set (p @ take n bytes)"
proof -
  define m where "m = min (length bytes) (512 - length p)"
  define line where "line = takeWhile (\<lambda>b. b \<noteq> (0x0A :: u8)) (take m bytes)"
  have m: "0 < m" "m \<le> length bytes" "length p + m \<le> 512" "length (take m bytes) = m" using assms(1,3) by (auto simp: m_def)
  have n: "n = (if length line < m then length line + 1 else m)"
    by (simp add: n_def stage_copy_len_def EV_MUX_REPL_STAGE_BYTES_def assms(4) m_def line_def Let_def)
  have clean: "0x0A \<notin> set line" by (auto simp: line_def dest: set_takeWhileD)
  have le: "n \<le> m" using n by auto
  show "0 < n" using n m(1) by auto
  show "n \<le> length bytes" using le m(2) by linarith
  have len: "length (p @ take n bytes) \<le> 512" using le m by simp
  have cases: "take n bytes = line @ [0x0A] \<or> take n bytes = line"
  proof (cases "length line < m")
    case True
    then have "take (length line + 1) (take m bytes) = line @ [0x0A]"
      using line_take [of "\<lambda>b. b \<noteq> 0x0A" "take m bytes"] m(4) by (simp add: line_def)
    then show ?thesis using n True by (simp add: min_def)
  next
    case False
    have "length line \<le> m" using length_takeWhile_le [of "\<lambda>b. b \<noteq> 0x0A" "take m bytes"] m(4) by (simp add: line_def)
    then have "length line = m" using False by simp
    moreover have "line = take (length line) (take m bytes)" unfolding line_def by (rule takeWhile_eq_take)
    ultimately have "take m bytes = line" by simp
    then show ?thesis using n False by simp
  qed
  have ne: "take n bytes \<noteq> []" using \<open>0 < n\<close> assms(3) by simp
  show "line_frame (p @ take n bytes)"
    unfolding line_frame_def
  proof (intro conjI len)
    show "p @ take n bytes \<noteq> []" using ne by simp
    show "0x0A \<notin> set (butlast (p @ take n bytes))"
      using cases clean assms(2) ne by (auto simp: butlast_append dest: in_set_butlastD split: if_splits)
  qed
  show "length (p @ take n bytes) < 512 \<and> 0x0A \<notin> set (p @ take n bytes)"
    if "length (p @ take n bytes) \<noteq> 512" "last (p @ take n bytes) \<noteq> 0x0A"
  proof -
    have "take n bytes = line" using cases that(2) by auto
    then show ?thesis using that(1) len clean assms(2) by auto
  qed
qed

section \<open>Writing\<close>

definition for_target :: "ev_mux_stream_target \<Rightarrow> ev_mux_repl_stage \<Rightarrow> bool" where
  "for_target tg st \<longleftrightarrow> rs_link st = tg_link tg \<and> rs_session_id st = target_session tg \<and>
     rs_vm_epoch st = op_vm_epoch (tg_options tg) \<and>
     rs_output_input_generation st = or_input_generation (tg_origin tg) \<and>
     rs_output_transition_id st = or_transition_id (tg_origin tg)"

lemma target_matches: "ev_mux_repl_target_matches st tg md \<Longrightarrow> for_target tg st"
  by (auto simp: ev_mux_repl_target_matches_def for_target_def ev_mux_link_equal_def)

text \<open>What a write of \<open>bytes\<close> to a stage with the contents \<open>old\<close> has done.\<close>

definition write_outcome :: "ev_mux_stream_target \<Rightarrow> u8 list \<Rightarrow> u8 list \<Rightarrow> 'd flushed \<Rightarrow> bool" where
  "write_outcome tg old bytes out \<longleftrightarrow>
     (case out of (e, failed, sent, r) \<Rightarrow>
        stage_ok (sm_stage r) \<and> (\<forall>st \<in> set sent. for_target tg st \<and> line_frame (rs_payload st)) \<and>
        (failed = None \<or> failed = Some (tg_link tg, target_session tg)) \<and>
        (if e = ESP_OK
         then failed = None \<and> concat (map rs_payload sent) @ rs_payload (sm_stage r) = old @ bytes \<and>
           (rs_payload (sm_stage r) = [] \<or> for_target tg (sm_stage r))
         else \<exists>rest. concat (map rs_payload sent) @ rest = old @ bytes))"

lemma bind_some: "ev_mux_stream_metadata_bind md o1 (Some x) = (e, out) \<Longrightarrow> out \<noteq> None"
  by (auto simp: ev_mux_stream_metadata_bind_def Let_def split: option.splits sum.splits if_splits)

lemma begin_stage:
  assumes "ev_mux_repl_stage_begin_locked tg md r = (e, r')"
  shows "sm_mux r' = sm_mux r \<and> stage_ok (sm_stage r') \<and> rs_payload (sm_stage r') = [] \<and> (e = ESP_OK \<longrightarrow> rs_used (sm_stage r'))"
  using assms bind_some [of md "Some (tg_options tg)" "[]"]
  by (auto simp: ev_mux_repl_stage_begin_locked_def stage_ok_def zero_stage_def ev_mux_repl_stage_reset_locked_def
      split: prod.splits esp_err.splits option.splits)

lemma write_stops:
  "stage_ok (sm_stage r) \<Longrightarrow> e \<noteq> ESP_OK \<Longrightarrow> write_outcome tg old bytes (e, None, [], r)"
  "stage_ok (sm_stage r) \<Longrightarrow> rs_payload (sm_stage r) = [] \<or> for_target tg (sm_stage r) \<Longrightarrow>
     rs_payload (sm_stage r) = old \<Longrightarrow> write_outcome tg old [] (ESP_OK, None, [], r)"
  by (simp_all add: write_outcome_def)

text \<open>A flush that follows an append, and the rest of the write.\<close>

lemma write_flush_stops:
  assumes "flush_outcome True st (e, failed, sent, r)" "e \<noteq> ESP_OK" "for_target tg st"
  shows "write_outcome tg old bytes (e, failed, sent, r)"
  using assms by (auto simp: flush_outcome_def write_outcome_def for_target_def)

lemma write_flush_continues:
  assumes f: "flush_outcome True st (ESP_OK, failed, sent, r)" and st: "for_target tg st" "line_frame (rs_payload st)"
    and payload: "rs_payload st = old @ take n bytes" and rest: "write_outcome tg [] (drop n bytes) (e, failed1, sent1, r1)"
  shows "write_outcome tg old bytes (e, failed1, sent @ sent1, r1)"
proof -
  have sent: "sent = [st]" using f by (simp add: flush_outcome_def)
  have "concat (map rs_payload sent) = old @ take n bytes" using sent payload by simp
  moreover have "old @ bytes = (old @ take n bytes) @ drop n bytes" by simp
  ultimately show ?thesis using rest st unfolding sent write_outcome_def by (auto, (metis append_take_drop_id)+)
qed

lemma write_continues:
  assumes "rs_payload st = old @ take n bytes" and "write_outcome tg (rs_payload st) (drop n bytes) out"
  shows "write_outcome tg old bytes out"
proof -
  obtain e f s r where out: "out = (e, f, s, r)" by (cases out)
  have all: "rs_payload st @ drop n bytes = old @ bytes" using assms(1) by simp
  show ?thesis using assms(2) unfolding write_outcome_def out prod.case all .
qed

lemma write_rounds_done:
  assumes "write_rounds env tg md started bytes r = Some out" and "stream_laws env" and "stage_ok (sm_stage r)"
    and "rs_payload (sm_stage r) = [] \<or> for_target tg (sm_stage r)" and "worker_inv (sm_mux r)"
  shows "write_outcome tg (rs_payload (sm_stage r)) bytes out \<and> out_worker out"
  using assms
proof (induction env tg md started bytes r out rule: write_rounds.raw_induct [rotated, consumes 1, case_names step])
  case (step rec env tg md started bytes r out)
  note laws = step(3) and lock = stream_lawsD(1) [OF step(3)]
  show ?case
  proof (cases "bytes = []")
    case True
    then have "out = (ESP_OK, None, [], r)" using step(2) by simp
    then show ?thesis using write_stops(2) [OF step(4,5) refl] True step(6) by (simp add: out_worker_def)
  next
    case bytes: False
    obtain e r1 where b: "(if rs_used (sm_stage r) then (ESP_OK, r) else ev_mux_repl_stage_begin_locked tg (Some md) r) = (e, r1)"
      by fastforce
    have r1: "sm_mux r1 = sm_mux r" "stage_ok (sm_stage r1)" "rs_payload (sm_stage r1) = rs_payload (sm_stage r)"
      "e = ESP_OK \<Longrightarrow> rs_used (sm_stage r1)"
      using b step(4) begin_stage [of tg "Some md" r e r1] by (auto simp: stage_ok_def split: if_splits)
    define n where "n = stage_copy_len (sm_stage r1) bytes"
    define r2 where "r2 = stage_append n bytes r1"
    note out = step(2) [unfolded Let_def b prod.case, folded n_def, folded r2_def]
    have w1: "worker_inv (sm_mux r1)" using r1(1) step(6) by simp
    consider (refused) "e \<noteq> ESP_OK" | (other) "e = ESP_OK" "\<not> ev_mux_repl_target_matches (sm_stage r1) tg md"
      | (go) "e = ESP_OK" "ev_mux_repl_target_matches (sm_stage r1) tg md" by blast
    then show ?thesis
    proof cases
      case refused
      then have "out = (e, None, [], on_mux ev_mux_record_tx_drop r1)" using out bytes lock by simp
      then show ?thesis using write_stops(1) [of "on_mux ev_mux_record_tx_drop r1" e] refused r1(2) kept_worker(1) [OF w1]
        by (simp add: out_worker_def)
    next
      case other
      then have "out = (ESP_ERR_INVALID_STATE, None, [], r1)" using out bytes lock by simp
      then show ?thesis using write_stops(1) [OF r1(2)] w1 by (simp add: out_worker_def)
    next
      case go
      define st where "st = sm_stage r2"
      have old: "length (rs_payload (sm_stage r1)) < 512" "0x0A \<notin> set (rs_payload (sm_stage r1))"
        using r1(2) by (simp_all add: stage_ok_def)
      note copy = stage_copy [OF old bytes refl, folded n_def]
      have st: "rs_payload st = rs_payload (sm_stage r) @ take n bytes" "rs_used st" "for_target tg st"
        using r1(3) r1(4) [OF go(1)] target_matches [OF go(2)]
        by (simp_all add: st_def r2_def stage_append_def for_target_def)
      have line: "line_frame (rs_payload st)" using copy(3) st(1) r1(3) by simp
      have w2: "worker_inv (sm_mux r2)" using w1 by (simp add: r2_def stage_append_def)
      define r3 where "r3 = sv_others env r2"
      have r3: "sm_stage r3 = st" "worker_inv (sm_mux r3)" using stream_lawsD(2,4) [OF laws] w2 by (simp_all add: r3_def st_def)
      show ?thesis
      proof (cases "stage_should_flush st")
        case False
        have ok: "stage_ok (sm_stage r3)"
          using copy(4) False st r1(3) r3(1) by (simp add: stage_should_flush_def EV_MUX_REPL_STAGE_BYTES_def stage_ok_def)
        have "rec env tg md started (drop n bytes) r3 = Some out"
          using out bytes lock go False by (simp add: r3_def st_def)
        from step(1) [OF this laws ok _ r3(2)] st(3) show ?thesis using write_continues [OF st(1)] unfolding r3(1) by blast
      next
        case True
        then have "Option.bind (ev_mux_repl_flush_locked env started True r3)
            (\<lambda>(result, failed, sent, r3). if result \<noteq> ESP_OK then Some (result, failed, sent, r3)
              else Option.bind (rec env tg md started (drop n bytes) (sv_others env r3))
                (\<lambda>(result, failed, sent1, r4). Some (result, failed, sent @ sent1, r4))) = Some out"
          using out bytes lock go by (simp add: r3_def st_def)
        then obtain f failed sent r4 where flush: "ev_mux_repl_flush_locked env started True r3 = Some (f, failed, sent, r4)"
          and more: "(if f \<noteq> ESP_OK then Some (f, failed, sent, r4)
              else Option.bind (rec env tg md started (drop n bytes) (sv_others env r4))
                (\<lambda>(result, failed, sent1, r5). Some (result, failed, sent @ sent1, r5))) = Some out"
          by (auto simp: Option.bind_eq_Some_conv)
        have fl: "flush_outcome True st (f, failed, sent, r4)" "worker_inv (sm_mux r4)"
          using flush_locked_done [OF flush laws r3(2)] st(2) by (simp_all add: r3(1) out_worker_def)
        show ?thesis
        proof (cases "f = ESP_OK")
          case False
          then show ?thesis using more write_flush_stops [OF fl(1) False st(3)] fl(2) by (auto simp: out_worker_def)
        next
          case ok: True
          define r5 where "r5 = sv_others env r4"
          have r5: "sm_stage r5 = zero_stage" "worker_inv (sm_mux r5)"
            using fl ok stream_lawsD(2,4) [OF laws] by (simp_all add: r5_def flush_outcome_def)
          obtain e1 failed1 sent1 r6 where rest: "rec env tg md started (drop n bytes) r5 = Some (e1, failed1, sent1, r6)"
            and out1: "out = (e1, failed1, sent @ sent1, r6)"
            using more ok by (auto simp: Option.bind_eq_Some_conv r5_def)
          have "stage_ok (sm_stage r5)" "rs_payload (sm_stage r5) = []" using r5(1) by simp_all
          from step(1) [OF rest laws this(1) disjI1 [OF this(2)] r5(2)] r5(1)
          have "write_outcome tg [] (drop n bytes) (e1, failed1, sent1, r6)" "worker_inv (sm_mux r6)"
            by (simp_all add: out_worker_def)
          then show ?thesis
            using write_flush_continues [OF fl(1) [unfolded ok] st(3) line st(1)] out1 by (simp add: out_worker_def)
        qed
      qed
    qed
  qed
qed

section \<open>The whole write\<close>

text \<open>The stage \<open>st\<close> was found to be stale by the end of its time.\<close>

definition stage_lost :: "ev_mux_repl_stage \<Rightarrow> 'd itself \<Rightarrow> bool" where
  "stage_lost st d \<longleftrightarrow> rs_used st \<and> (\<exists>r :: 'd stream. sm_stage r = st \<and> \<not> ev_mux_repl_stage_is_current r)"

text \<open>
  What a write of \<open>bytes\<close> has done that found the stage \<open>st\<close>: a stage of another target goes first, as
  it is; what was staged and the bytes follow in order, in lines; only a stale stage is lost.
\<close>

definition conserved :: "ev_mux_stream_target \<Rightarrow> ev_mux_repl_stage \<Rightarrow> u8 list \<Rightarrow> 'd flushed \<Rightarrow> bool" where
  "conserved tg st bytes out \<longleftrightarrow>
     (case out of (e, failed, sent, r) \<Rightarrow>
        stage_ok (sm_stage r) \<and>
        (\<exists>earlier own. sent = earlier @ own \<and> (earlier = [] \<or> earlier = [st] \<and> rs_used st) \<and>
           (\<forall>s \<in> set own. for_target tg s \<and> line_frame (rs_payload s))) \<and>
        (\<exists>kept. (kept = rs_payload st \<or> kept = [] \<and> stage_lost st TYPE('d)) \<and>
           (if e = ESP_OK
            then concat (map rs_payload sent) @ rs_payload (sm_stage r) = kept @ bytes \<and>
              (rs_payload (sm_stage r) = [] \<or> for_target tg (sm_stage r))
            else \<exists>rest. concat (map rs_payload sent) @ rest = kept @ bytes)))"

lemma conserved_stage:
  fixes r r' :: "'d stream"
  assumes "conserved tg st bytes (e, failed, sent, r)" "sm_stage r' = sm_stage r"
  shows "conserved tg st bytes (e, failed', sent, r')"
  using assms(1) unfolding conserved_def prod.case assms(2) .

lemma conserved_stops:
  "stage_ok (sm_stage r) \<Longrightarrow> e \<noteq> ESP_OK \<Longrightarrow> conserved tg st bytes (e, failed, [], r)"
  by (auto simp: conserved_def)

lemma conserved_rounds:
  assumes "write_outcome tg old bytes out" and "old = rs_payload st \<or> old = [] \<and> stage_lost st TYPE('d)"
  shows "conserved tg st bytes (out :: 'd flushed)"
proof -
  obtain e failed sent r where out: "out = (e, failed, sent, r)" by (cases out)
  show ?thesis
    unfolding conserved_def out prod.case
  proof (intro conjI)
    show "stage_ok (sm_stage r)" using assms(1) by (simp add: write_outcome_def out)
    show "\<exists>earlier own. sent = earlier @ own \<and> (earlier = [] \<or> earlier = [st] \<and> rs_used st) \<and>
        (\<forall>s \<in> set own. for_target tg s \<and> line_frame (rs_payload s))"
      using assms(1) by (intro exI [of _ "[]"] exI [of _ sent]) (simp add: write_outcome_def out)
    show "\<exists>kept. (kept = rs_payload st \<or> kept = [] \<and> stage_lost st TYPE('d)) \<and>
        (if e = ESP_OK then concat (map rs_payload sent) @ rs_payload (sm_stage r) = kept @ bytes \<and>
             (rs_payload (sm_stage r) = [] \<or> for_target tg (sm_stage r))
         else \<exists>rest. concat (map rs_payload sent) @ rest = kept @ bytes)"
      using assms by (intro exI [of _ old]) (auto simp: write_outcome_def out)
  qed
qed

lemma conserved_flushed:
  assumes "write_outcome tg [] bytes (e, failed, sent, r)" and used: "rs_used st"
  shows "conserved tg st bytes (e, failed, st # sent, r)"
  unfolding conserved_def prod.case
proof (intro conjI)
  show "stage_ok (sm_stage r)" using assms(1) by (simp add: write_outcome_def)
  show "\<exists>earlier own. st # sent = earlier @ own \<and> (earlier = [] \<or> earlier = [st] \<and> rs_used st) \<and>
      (\<forall>s \<in> set own. for_target tg s \<and> line_frame (rs_payload s))"
    using assms by (intro exI [of _ "[st]"] exI [of _ sent]) (simp add: write_outcome_def)
  show "\<exists>kept. (kept = rs_payload st \<or> kept = [] \<and> stage_lost st TYPE('a)) \<and>
      (if e = ESP_OK then concat (map rs_payload (st # sent)) @ rs_payload (sm_stage r) = kept @ bytes \<and>
           (rs_payload (sm_stage r) = [] \<or> for_target tg (sm_stage r))
       else \<exists>rest. concat (map rs_payload (st # sent)) @ rest = kept @ bytes)"
    using assms(1) by (intro exI [of _ "rs_payload st"]) (auto simp: write_outcome_def)
qed

lemma write_locked_done:
  fixes r :: "'d stream"
  assumes run: "write_locked env tg md started bytes r = Some out" and laws: "stream_laws env"
    and ok: "stage_ok (sm_stage r)" and w: "worker_inv (sm_mux r)"
  shows "conserved tg (sm_stage r) bytes out \<and> out_worker out"
proof -
  define st where "st = sm_stage r"
  define r1 where "r1 = sv_others env r"
  have r1: "sm_stage r1 = st" "worker_inv (sm_mux r1)" using stream_lawsD(2,4) [OF laws] w by (simp_all add: r1_def st_def)
  note lock = stream_lawsD(1) [OF laws]
  note out = run [unfolded write_locked_def Let_def, folded st_def r1_def]
  consider (lost) "rs_used st" "\<not> ev_mux_repl_stage_is_current r1"
    | (other) "rs_used st" "ev_mux_repl_stage_is_current r1" "\<not> ev_mux_repl_target_matches st tg md"
    | (same) "\<not> rs_used st \<or> ev_mux_repl_stage_is_current r1 \<and> ev_mux_repl_target_matches st tg md" by blast
  then show ?thesis
  proof cases
    case lost
    then have go: "write_rounds env tg md started bytes (ev_mux_repl_mark_stale_locked r1) = Some out"
      using out lock by (simp add: with_stage_def)
    have "stage_lost st TYPE('d)" using lost r1(1) by (auto simp: stage_lost_def)
    then show ?thesis
      using write_rounds_done [OF go laws _ _ kept_worker(3) [OF r1(2)]] conserved_rounds [of tg "[]" bytes out st]
      by (simp add: st_def)
  next
    case other
    then have "Option.bind (ev_mux_repl_flush_locked env started True r1) (\<lambda>(result, failed, sent, r2).
         if result \<noteq> ESP_OK then Some (result, failed, sent, r2)
         else Option.bind (write_rounds env tg md started bytes r2)
            (\<lambda>(result, failed, sent1, r3). Some (result, failed, sent @ sent1, r3))) = Some out"
      using out lock by simp
    then obtain f failed sent r2 where flush: "ev_mux_repl_flush_locked env started True r1 = Some (f, failed, sent, r2)"
      and more: "(if f \<noteq> ESP_OK then Some (f, failed, sent, r2)
         else Option.bind (write_rounds env tg md started bytes r2)
            (\<lambda>(result, failed, sent1, r3). Some (result, failed, sent @ sent1, r3))) = Some out"
      by (auto simp: Option.bind_eq_Some_conv)
    have fl: "flush_outcome True st (f, failed, sent, r2)" "worker_inv (sm_mux r2)"
      using flush_locked_done [OF flush laws r1(2)] other by (simp_all add: r1(1) out_worker_def)
    show ?thesis
    proof (cases "f = ESP_OK")
      case False
      then have "out = (f, failed, [], r2)" "stage_ok (sm_stage r2)" using more fl(1) by (auto simp: flush_outcome_def)
      then show ?thesis using conserved_stops False fl(2) by (simp add: out_worker_def)
    next
      case True
      then have r2: "sent = [st]" "sm_stage r2 = zero_stage" using fl(1) by (simp_all add: flush_outcome_def)
      obtain e1 failed1 sent1 r3 where rest: "write_rounds env tg md started bytes r2 = Some (e1, failed1, sent1, r3)"
        and out1: "out = (e1, failed1, st # sent1, r3)"
        using more True r2(1) by (auto simp: Option.bind_eq_Some_conv)
      have "write_outcome tg [] bytes (e1, failed1, sent1, r3)" "worker_inv (sm_mux r3)"
        using write_rounds_done [OF rest laws _ _ fl(2)] r2(2) by (simp_all add: out_worker_def)
      then show ?thesis using conserved_flushed [OF _ other(1)] out1 by (simp add: st_def out_worker_def)
    qed
  next
    case same
    then have go: "write_rounds env tg md started bytes r1 = Some out" using out lock by auto
    have ready: "rs_payload st = [] \<or> for_target tg st"
      using same ok target_matches by (auto simp: stage_ok_def st_def)
    have "stage_ok (sm_stage r1)" "rs_payload (sm_stage r1) = [] \<or> for_target tg (sm_stage r1)"
      using ready r1(1) ok by (simp_all add: st_def)
    from write_rounds_done [OF go laws this r1(2)] show ?thesis
      using conserved_rounds [of tg "rs_payload st" bytes out st] r1(1) by (simp add: st_def)
  qed
qed

lemma run_failure_stage: "sm_stage (snd (ev_mux_repl_run_failure env failed r)) = sm_stage r"
  by (auto simp: ev_mux_repl_run_failure_def split: option.split prod.split)

lemma write_repl_conserved:
  fixes r :: "'d stream"
  assumes "stream_laws env" and "stage_ok (sm_stage r)" and "worker_inv (sm_mux r)" and "bytes \<noteq> []"
    and "ev_mux_write_repl_target env (Some tg) (Some md) (Some bytes) (length bytes) r = Some (e, calls, sent, r')"
  shows "stage_ok (sm_stage r') \<and>
    (\<exists>earlier own. sent = earlier @ own \<and> (earlier = [] \<or> earlier = [sm_stage r] \<and> rs_used (sm_stage r)) \<and>
       (\<forall>s \<in> set own. for_target tg s \<and> line_frame (rs_payload s))) \<and>
    (\<exists>kept. (kept = rs_payload (sm_stage r) \<or>
         kept = [] \<and> rs_used (sm_stage r) \<and> (\<exists>r1 :: 'd stream. sm_stage r1 = sm_stage r \<and> \<not> ev_mux_repl_stage_is_current r1)) \<and>
       (if e = ESP_OK
        then concat (map rs_payload sent) @ rs_payload (sm_stage r') = kept @ bytes \<and>
          (rs_payload (sm_stage r') = [] \<or> for_target tg (sm_stage r'))
        else \<exists>rest. concat (map rs_payload sent) @ rest = kept @ bytes))"
proof -
  let ?goal = "\<lambda>(out :: 'd flushed). conserved tg (sm_stage r) bytes out"
  define r1 where "r1 = sv_others env r"
  have r1: "sm_stage r1 = sm_stage r" "worker_inv (sm_mux r1)" using stream_lawsD(2,4) [OF assms(1)] assms(3) by (simp_all add: r1_def)
  have run: "(e \<noteq> ESP_OK \<and> sent = [] \<and> sm_stage r' = sm_stage r) \<or>
      Option.bind (write_locked env tg md (sm_now r) bytes r1)
        (\<lambda>(result, failed, sent, r2). let (calls, r3) = ev_mux_repl_run_failure env failed r2 in Some (result, calls, sent, r3))
      = Some (e, calls, sent, r')"
    using assms(4,5) r1(1) by (auto simp: ev_mux_write_repl_target_def Let_def r1_def split: if_split_asm)
  have "\<exists>failed. ?goal (e, failed, sent, r')"
  proof (cases "e \<noteq> ESP_OK \<and> sent = [] \<and> sm_stage r' = sm_stage r")
    case True
    then show ?thesis using conserved_stops [of r' e tg "sm_stage r" bytes] assms(2) by auto
  next
    case False
    with run obtain failed r2 where w: "write_locked env tg md (sm_now r) bytes r1 = Some (e, failed, sent, r2)"
      and r': "ev_mux_repl_run_failure env failed r2 = (calls, r')"
      by (auto simp: Option.bind_eq_Some_conv split_beta Let_def prod_eq_iff)
    have "stage_ok (sm_stage r1)" using r1(1) assms(2) by simp
    from write_locked_done [OF w assms(1) this r1(2)] have "conserved tg (sm_stage r1) bytes (e, failed, sent, r2)" ..
    moreover have "sm_stage r' = sm_stage r2" using run_failure_stage [of env failed r2] r' by simp
    ultimately show ?thesis using conserved_stage r1(1) by metis
  qed
  then obtain failed where "conserved tg (sm_stage r) bytes (e, failed, sent, r')" ..
  then show ?thesis unfolding conserved_def prod.case stage_lost_def .
qed

section \<open>A write returns\<close>

lemma elapsed_adds:
  fixes x y s :: u32
  assumes "unat (x - s) + unat (y - x) < 2 ^ 32"
  shows "unat (y - s) = unat (x - s) + unat (y - x)"
proof -
  have "y - s = (x - s) + (y - x)" by simp
  then have "unat (y - s) = (unat (x - s) + unat (y - x)) mod 2 ^ 32"
    using unat_word_ariths(1) [of "x - s" "y - x"] by simp
  then show ?thesis using assms by simp
qed

lemma flush_loop_returns:
  assumes laws: "stream_laws env"
  shows "\<exists>out. flush_loop env waits started st r = Some out"
proof (induction r rule: measure_induct_rule [where f = "\<lambda>r. 2000 - unat (sm_now (sv_others env r) - started)"])
  case (less r)
  define r1 where "r1 = sv_others env r"
  obtain e r2 where e: "stage_enqueue env st r1 = (e, r2)" by fastforce
  define r3 where "r3 = sv_others env r2"
  define r4 where "r4 = sv_delay env r3"
  have go: "flush_loop env waits started st r =
      (if \<not> ev_mux_repl_stage_is_current r
       then Some (ESP_ERR_INVALID_STATE, None, [],
              with_stage env (\<lambda>r. if rs_used (sm_stage r) then ev_mux_repl_mark_stale_locked r else r) r)
       else if waits \<and> EV_MUX_QUEUE_TIMEOUT_MS \<le> sm_now r1 - started then Some (flush_expired env st r1)
       else if e = ESP_OK then Some (ESP_OK, None, [st], with_stage env ev_mux_repl_stage_reset_locked r2)
       else if e \<noteq> ESP_ERR_TIMEOUT
       then Some (e, stage_failure st, [], with_stage env ev_mux_repl_stage_reset_locked (on_mux ev_mux_record_tx_drop r2))
       else if \<not> waits then Some (flush_retry env st r3)
       else if EV_MUX_QUEUE_TIMEOUT_MS \<le> sm_now r3 - started then Some (flush_expired env st r3)
       else flush_loop env waits started st r4)"
    by (subst flush_loop.simps) (simp only: Let_def r1_def [symmetric] e prod.case r3_def [symmetric] r4_def [symmetric])
  show ?case
  proof (cases "waits \<and> \<not> EV_MUX_QUEUE_TIMEOUT_MS \<le> sm_now r1 - started \<and> \<not> EV_MUX_QUEUE_TIMEOUT_MS \<le> sm_now r3 - started")
    case False
    then show ?thesis unfolding go by (auto simp del: split_paired_Ex split: if_split)
  next
    case True
    have small: "unat (sm_now r1 - started) < 2000"
      using True by (simp add: word_less_nat_alt not_le EV_MUX_QUEUE_TIMEOUT_MS_def)
    have now2: "sm_now r2 = sm_now r1" using stage_enqueue_parts(2) [OF e] .
    note t = stream_lawsD(6) [OF laws, of r2, folded r3_def] stream_lawsD(7) [OF laws, of r3, folded r4_def]
      stream_lawsD(6) [OF laws, of r4] stream_lawsD(8) [OF laws, of r3, folded r4_def]
    have "unat (sm_now r3 - started) = unat (sm_now r1 - started) + unat (sm_now r3 - sm_now r2)"
      using elapsed_adds [of "sm_now r1" started "sm_now r3"] small t(1) now2 by simp
    moreover have "unat (sm_now r4 - started) = unat (sm_now r3 - started) + unat (sm_now r4 - sm_now r3)"
      using elapsed_adds [of "sm_now r3" started "sm_now r4"] small t(1,2) calculation by simp
    moreover have "unat (sm_now (sv_others env r4) - started) =
        unat (sm_now r4 - started) + unat (sm_now (sv_others env r4) - sm_now r4)"
      using elapsed_adds [of "sm_now r4" started "sm_now (sv_others env r4)"] small t(1,2,3) calculation by simp
    moreover have "0 < unat (sm_now r4 - sm_now r3)" using t(4) by (simp add: unat_gt_0)
    ultimately have "unat (sm_now r1 - started) < unat (sm_now (sv_others env r4) - started)" by linarith
    then have "2000 - unat (sm_now (sv_others env r4) - started) < 2000 - unat (sm_now (sv_others env r) - started)"
      using small by (simp add: r1_def)
    from less [OF this] show ?thesis unfolding go by (auto simp del: split_paired_Ex split: if_split)
  qed
qed

lemma flush_locked_returns:
  "stream_laws env \<Longrightarrow> \<exists>out. ev_mux_repl_flush_locked env started waits r = Some out"
  using flush_loop_returns by (auto simp: ev_mux_repl_flush_locked_def Let_def)

lemma write_rounds_returns:
  assumes laws: "stream_laws env"
  shows "stage_ok (sm_stage r) \<Longrightarrow> worker_inv (sm_mux r) \<Longrightarrow> \<exists>out. write_rounds env tg md started bytes r = Some out"
proof (induction "length bytes" arbitrary: bytes r rule: less_induct)
  case less
  note lock = stream_lawsD(1) [OF laws]
  obtain e r1 where b: "(if rs_used (sm_stage r) then (ESP_OK, r) else ev_mux_repl_stage_begin_locked tg (Some md) r) = (e, r1)"
    by fastforce
  have r1: "stage_ok (sm_stage r1)" "worker_inv (sm_mux r1)" "e = ESP_OK \<Longrightarrow> rs_used (sm_stage r1)"
    using b less.prems begin_stage [of tg "Some md" r e r1] by (auto split: if_splits)
  define n where "n = stage_copy_len (sm_stage r1) bytes"
  define r2 where "r2 = stage_append n bytes r1"
  have go: "write_rounds env tg md started bytes r =
      (if bytes = [] then Some (ESP_OK, None, [], r)
       else if e \<noteq> ESP_OK then Some (e, None, [], on_mux ev_mux_record_tx_drop r1)
       else if \<not> ev_mux_repl_target_matches (sm_stage r1) tg md then Some (ESP_ERR_INVALID_STATE, None, [], r1)
       else if \<not> stage_should_flush (sm_stage r2) then write_rounds env tg md started (drop n bytes) (sv_others env r2)
       else Option.bind (ev_mux_repl_flush_locked env started True (sv_others env r2))
              (\<lambda>(result, failed, sent, r3). if result \<noteq> ESP_OK then Some (result, failed, sent, r3)
                else Option.bind (write_rounds env tg md started (drop n bytes) (sv_others env r3))
                  (\<lambda>(result, failed, sent1, r4). Some (result, failed, sent @ sent1, r4))))"
    by (subst write_rounds.simps) (simp add: lock Let_def b n_def [symmetric] r2_def [symmetric])
  show ?case
  proof (cases "bytes = [] \<or> e \<noteq> ESP_OK \<or> \<not> ev_mux_repl_target_matches (sm_stage r1) tg md")
    case True
    then show ?thesis unfolding go by auto
  next
    case False
    have old: "length (rs_payload (sm_stage r1)) < 512" "0x0A \<notin> set (rs_payload (sm_stage r1))" "bytes \<noteq> []"
      using r1(1) False by (simp_all add: stage_ok_def)
    note copy = stage_copy [OF old refl, folded n_def]
    have shorter: "length (drop n bytes) < length bytes" using copy(1,2) by simp
    have w2: "worker_inv (sm_mux (sv_others env r2))" "sm_stage (sv_others env r2) = sm_stage r2"
      using r1(2) stream_lawsD(2,4) [OF laws] by (simp_all add: r2_def stage_append_def)
    show ?thesis
    proof (cases "stage_should_flush (sm_stage r2)")
      case no: False
      have "stage_ok (sm_stage (sv_others env r2))"
        using copy(4) no r1(3) False w2(2)
        by (simp add: r2_def stage_append_def stage_should_flush_def EV_MUX_REPL_STAGE_BYTES_def stage_ok_def)
      from less.hyps [OF shorter this w2(1)] show ?thesis unfolding go using False no by auto
    next
      case yes: True
      obtain f failed sent r3 where flush: "ev_mux_repl_flush_locked env started True (sv_others env r2) = Some (f, failed, sent, r3)"
        using flush_locked_returns [OF laws, of started True "sv_others env r2"] by auto
      have used: "rs_used (sm_stage (sv_others env r2))" using r1(3) False w2(2) by (simp add: r2_def stage_append_def)
      have fl: "flush_outcome True (sm_stage (sv_others env r2)) (f, failed, sent, r3)" "worker_inv (sm_mux r3)"
        using flush_locked_done [OF flush laws w2(1)] used by (simp_all add: out_worker_def)
      show ?thesis
      proof (cases "f = ESP_OK")
        case True
        then have z: "sm_stage (sv_others env r3) = zero_stage" "worker_inv (sm_mux (sv_others env r3))"
          using fl stream_lawsD(2,4) [OF laws] by (simp_all add: flush_outcome_def)
        then have "stage_ok (sm_stage (sv_others env r3))" by simp
        from less.hyps [OF shorter this z(2)] show ?thesis unfolding go using False yes flush True by auto
      next
        case err: False
        then show ?thesis unfolding go using False yes flush by auto
      qed
    qed
  qed
qed

text \<open>
  Property C33: a write to the REPL returns, whatever its arguments, provided time passes while it sleeps: a
  full queue holds it up for at most two seconds per frame.
\<close>
theorem repl_write_returns:
  assumes laws: "stream_laws env" and ok: "stage_ok (sm_stage r)" and w: "worker_inv (sm_mux r)"
  shows "\<exists>out. ev_mux_write_repl_target env target md payload n r = Some out"
proof -
  have rounds: "\<exists>out. write_rounds env tg m started bytes r1 = Some out"
    if "sm_stage r1 = sm_stage r \<or> sm_stage r1 = zero_stage" "worker_inv (sm_mux r1)" for tg m started bytes r1
    using write_rounds_returns [OF laws _ that(2)] that(1) ok by auto
  have locked: "\<exists>out. write_locked env tg m started bytes r1 = Some out"
    if r1: "sm_stage r1 = sm_stage r" "worker_inv (sm_mux r1)" for tg m started bytes r1
  proof -
    define r2 where "r2 = sv_others env r1"
    have r2: "sm_stage r2 = sm_stage r" "worker_inv (sm_mux r2)"
      using stream_lawsD(2,4) [OF laws] r1 by (simp_all add: r2_def)
    obtain f failed sent r3 where flush: "ev_mux_repl_flush_locked env started True r2 = Some (f, failed, sent, r3)"
      using flush_locked_returns [OF laws, of started True r2] by auto
    have after: "\<exists>out. write_rounds env tg m started bytes r3 = Some out" if "f = ESP_OK"
      using flush_locked_done [OF flush laws r2(2)] that r2 rounds [of r3]
      by (auto simp: flush_outcome_def out_worker_def split: if_splits)
    show ?thesis
      unfolding write_locked_def Let_def r2_def [symmetric]
      using rounds [of r2 tg m started bytes] rounds [of "ev_mux_repl_mark_stale_locked r2" tg m started bytes]
        r2 kept_worker(3) [OF r2(2)] flush after stream_lawsD(1) [OF laws]
      by (auto simp: with_stage_def)
  qed
  define r1 where "r1 = sv_others env r"
  have r1: "sm_stage r1 = sm_stage r" "worker_inv (sm_mux r1)" using stream_lawsD(2,4) [OF laws] w by (simp_all add: r1_def)
  show ?thesis
  proof (cases target; cases md)
    fix tg m assume tm: "target = Some tg" "md = Some m"
    obtain e failed sent r2 where "write_locked env tg m (sm_now r) (take n (the payload)) r1 = Some (e, failed, sent, r2)"
      using locked [OF r1, of tg m "sm_now r" "take n (the payload)"] by auto
    then show ?thesis
      unfolding tm ev_mux_write_repl_target_def Let_def r1_def [symmetric] by (auto simp: split_beta)
  qed (simp_all add: ev_mux_write_repl_target_def)
qed

section \<open>Properties\<close>



end
