(* ===== verification/SessionRoutes.thy ===== *)
theory SessionRoutes
  imports SessionProps
begin

text \<open>
  Concurrent route changes. Every session operation leaves its critical section with work to
  do: a new owner looks at its link once more, and a changed owner is then applied to the
  registry and the router by \<open>ev_session_apply_route\<close>, whose check and commit are two
  critical sections of their own under one route lock. Other tasks run in between. The step
  relation interleaves all of these sections freely; the theorem says that the routes
  nevertheless end up where the session says.
\<close>

section \<open>The interleaved system\<close>

text \<open>
  \<open>Recheck\<close> is a task between the unlock and the second look at its link in
  \<open>ev_session_acquire\<close>; \<open>Route\<close> is a task about to enter \<open>ev_session_apply_route\<close>; the task
  that holds the route lock and has passed the check is \<open>y_applying\<close>.
\<close>

datatype pending =
    Recheck ev_link_ref ev_session_snapshot_t bool
  | Route route_job

record sys =
  y_world :: world
  y_pending :: "pending list"
  y_applying :: "route_job option"

definition acquire_job :: "ev_session_snapshot_t \<Rightarrow> route_job" where
  "acquire_job snap = \<lparr>rj_snapshot = snap, rj_reason = EV_SESSION_CHANGE_ACQUIRED,
     rj_transition = sn_transition_id snap, rj_callback = False, rj_prev_link = None,
     rj_prev_id = None\<rparr>"

primrec job_list :: "route_job option \<Rightarrow> pending list" where
  "job_list None = []"
| "job_list (Some j) = [Route j]"

definition commit_job :: "board \<Rightarrow> world \<Rightarrow> route_job \<Rightarrow> world" where
  "commit_job b w j =
     ev_session_notify_change (apply_route_commit b w (rj_snapshot j)) (rj_snapshot j)
       (rj_reason j) (rj_transition j) (rj_callback j) (rj_prev_link j) (rj_prev_id j)"

text \<open>
  The registry may change under the session in any way the backends can cause, except that the
  stale reference of the present owner does not become current again (retired references stay
  stale until the 32-bit generation wraps).
\<close>

inductive sys_step :: "board \<Rightarrow> sys \<Rightarrow> sys \<Rightarrow> bool" for b :: board where
  acquire: "nonce_ok n \<Longrightarrow>
     acquire_locked rnd (w_session (y_world y)) l n now =
       ((EV_SESSION_RESULT_OK, acquired, Some snap), s') \<Longrightarrow>
     sys_step b y (y\<lparr>y_world := (y_world y)\<lparr>w_session := s'\<rparr>,
                     y_pending := y_pending y @ [Recheck l snap acquired]\<rparr>)"
| recheck_ok: "y_pending y = xs @ Recheck l snap acquired # ys \<Longrightarrow>
     ev_transport_link_is_current (w_transport (y_world y)) (Some l) \<Longrightarrow>
     sys_step b y (y\<lparr>y_pending := xs @ ys @
                       (if acquired then [Route (acquire_job snap)] else [])\<rparr>)"
| recheck_stale: "y_pending y = xs @ Recheck l snap acquired # ys \<Longrightarrow>
     \<not> ev_transport_link_is_current (w_transport (y_world y)) (Some l) \<Longrightarrow>
     clear_owner_locked b tm (y_world y) (Some l) EV_SESSION_CHANGE_LINK_LOST False None = (j, w') \<Longrightarrow>
     sys_step b y (y\<lparr>y_world := w', y_pending := xs @ ys @ job_list j\<rparr>)"
| lose: "clear_owner_locked b tm (y_world y) link reason rr sid = (j, w') \<Longrightarrow>
     sys_step b y (y\<lparr>y_world := w', y_pending := y_pending y @ job_list j\<rparr>)"
| expire: "tick_locked b (y_world y) now = (j, w') \<Longrightarrow>
     sys_step b y (y\<lparr>y_world := w', y_pending := y_pending y @ job_list j\<rparr>)"
| hello: "hello_complete_locked (w_session (y_world y)) tm link sid = ((ans, j), s') \<Longrightarrow>
     sys_step b y (y\<lparr>y_world := (y_world y)\<lparr>w_session := s'\<rparr>,
                     y_pending := y_pending y @ job_list j\<rparr>)"
| release_prepare: "s' = snd (snd (ev_session_release_prepare (w_transport (y_world y))
       (w_session (y_world y)) tm link sid out)) \<Longrightarrow>
     sys_step b y (y\<lparr>y_world := (y_world y)\<lparr>w_session := s'\<rparr>\<rparr>)"
| keepalive: "s' = snd (snd (ev_session_keepalive (w_transport (y_world y))
       (w_session (y_world y)) link sid now out)) \<Longrightarrow>
     sys_step b y (y\<lparr>y_world := (y_world y)\<lparr>w_session := s'\<rparr>\<rparr>)"
| authorize: "s' = snd (snd (ev_session_authorize (w_transport (y_world y))
       (w_session (y_world y)) link sid vr he e now out)) \<Longrightarrow>
     sys_step b y (y\<lparr>y_world := (y_world y)\<lparr>w_session := s'\<rparr>\<rparr>)"
| vm_epoch: "sys_step b y (y\<lparr>y_world := (y_world y)\<lparr>w_session :=
       snd (ev_session_vm_epoch_advance (w_session (y_world y)))\<rparr>\<rparr>)"
| vm_ready: "sys_step b y (y\<lparr>y_world := (y_world y)\<lparr>w_session :=
       ev_session_set_vm_ready (w_session (y_world y)) r\<rparr>\<rparr>)"
| check_pass: "y_applying y = None \<Longrightarrow> y_pending y = xs @ Route j # ys \<Longrightarrow>
     apply_route_check (w_session (y_world y)) (rj_snapshot j) \<Longrightarrow>
     sys_step b y (y\<lparr>y_pending := xs @ ys, y_applying := Some j\<rparr>)"
| check_fail: "y_applying y = None \<Longrightarrow> y_pending y = xs @ Route j # ys \<Longrightarrow>
     \<not> apply_route_check (w_session (y_world y)) (rj_snapshot j) \<Longrightarrow>
     sys_step b y (y\<lparr>y_pending := xs @ ys\<rparr>)"
| commit: "y_applying y = Some j \<Longrightarrow>
     sys_step b y (y\<lparr>y_world := commit_job b (y_world y) j, y_applying := None\<rparr>)"
| registry: "op = Op_open i k \<or> op = Op_close b link \<or> op = Op_advance link \<Longrightarrow>
     t' = transport_step (w_transport (y_world y)) op \<Longrightarrow>
     (\<not> ev_transport_link_is_current (w_transport (y_world y))
          (Some (ss_owner_link (w_session (y_world y)))) \<Longrightarrow>
      \<not> ev_transport_link_is_current t' (Some (ss_owner_link (w_session (y_world y))))) \<Longrightarrow>
     sys_step b y (y\<lparr>y_world := (y_world y)\<lparr>w_transport := t'\<rparr>\<rparr>)"

definition sys_start :: "board \<Rightarrow> (ev_transport_id \<Rightarrow> bool) \<Rightarrow> u32 \<Rightarrow> sys" where
  "sys_start b mk epoch =
     \<lparr>y_world = snd (ev_session_init0 b epoch
         ((world_reset b)\<lparr>w_transport := snd (ev_transport_init0 b mk transport_reset)\<rparr>)),
      y_pending = [], y_applying = None\<rparr>"

inductive sys_reachable :: "board \<Rightarrow> sys \<Rightarrow> bool" for b :: board where
  start: "sys_reachable b (sys_start b mk epoch)"
| step: "sys_reachable b y \<Longrightarrow> sys_step b y y' \<Longrightarrow> sys_reachable b y'"

section \<open>The invariant\<close>

definition routed :: "world \<Rightarrow> bool" where
  "routed w \<longleftrightarrow>
     (case ss_state (w_session w) of
        EV_SESSION_FREE \<Rightarrow> \<not> c_has_owner (w_channel w) \<and> \<not> s_has_owner (w_transport w)
      | EV_SESSION_OWNED \<Rightarrow>
          ev_transport_link_is_current (w_transport w) (Some (ss_owner_link (w_session w))) \<longrightarrow>
          c_has_owner (w_channel w) \<and> c_owner_link (w_channel w) = ss_owner_link (w_session w) \<and>
          s_has_owner (w_transport w) \<and> s_owner (w_transport w) = ss_owner_link (w_session w)
      | EV_SESSION_RELEASING \<Rightarrow> True)"

definition snap_wf :: "ev_session_snapshot_t \<Rightarrow> bool" where
  "snap_wf snap \<longleftrightarrow> (sn_has_owner snap \<longleftrightarrow> sn_state snap \<noteq> EV_SESSION_FREE)"

lemma snapshot_wf [simp]: "snap_wf (ev_session_snapshot_locked s now)"
  by (simp add: snap_wf_def)

primrec pending_wf :: "pending \<Rightarrow> bool" where
  "pending_wf (Recheck l snap a) \<longleftrightarrow>
     snap_wf snap \<and> (a \<longrightarrow> sn_owner_link snap = l \<and> sn_state snap = EV_SESSION_OWNED)"
| "pending_wf (Route j) \<longleftrightarrow> snap_wf (rj_snapshot j)"

primrec serves :: "session \<Rightarrow> pending \<Rightarrow> bool" where
  "serves s (Recheck l snap a) \<longleftrightarrow> a \<and> apply_route_check s snap"
| "serves s (Route j) \<longleftrightarrow> apply_route_check s (rj_snapshot j)"

definition route_inv :: "sys \<Rightarrow> bool" where
  "route_inv y \<longleftrightarrow>
     list_all pending_wf (y_pending y) \<and>
     (case y_applying y of None \<Rightarrow> True | Some j \<Rightarrow> snap_wf (rj_snapshot j)) \<and>
     (ss_state (w_session (y_world y)) = EV_SESSION_RELEASING \<or>
      list_ex (serves (w_session (y_world y))) (y_pending y) \<or>
      (case y_applying y of
         None \<Rightarrow> routed (y_world y)
       | Some j \<Rightarrow> apply_route_check (w_session (y_world y)) (rj_snapshot j)))"

lemma check_snapshot [simp]: "apply_route_check s (ev_session_snapshot_locked s now)"
  by (cases "ss_state s = EV_SESSION_FREE") (simp_all add: apply_route_check_def)

text \<open>Changes of a session that the route check does not see.\<close>

definition same_owner :: "session \<Rightarrow> session \<Rightarrow> bool" where
  "same_owner s s' \<longleftrightarrow> ss_transition_id s' = ss_transition_id s \<and> ss_state s' = ss_state s \<and>
     ss_owner_link s' = ss_owner_link s"

lemma same_owner_check: "same_owner s s' \<Longrightarrow> apply_route_check s' = apply_route_check s"
  by (simp add: fun_eq_iff apply_route_check_def same_owner_def)

lemma same_owner_serves: "same_owner s s' \<Longrightarrow> serves s' = serves s"
proof
  fix p
  assume "same_owner s s'"
  then show "serves s' p = serves s p" by (cases p) (simp_all add: same_owner_check)
qed

lemma same_owner_routed: "same_owner (w_session w) s' \<Longrightarrow> routed (w\<lparr>w_session := s'\<rparr>) = routed w"
  by (cases "ss_state (w_session w)") (simp_all add: routed_def same_owner_def)

lemma same_owner_inv:
  assumes "route_inv y" and "same_owner (w_session (y_world y)) s'" and "list_all pending_wf ps"
  shows "route_inv (y\<lparr>y_world := (y_world y)\<lparr>w_session := s'\<rparr>, y_pending := y_pending y @ ps\<rparr>)"
proof -
  have "ss_state s' = ss_state (w_session (y_world y))"
    using assms(2) by (simp add: same_owner_def)
  with assms same_owner_check [OF assms(2)] same_owner_serves [OF assms(2)]
    same_owner_routed [OF assms(2)]
  show ?thesis by (auto simp: route_inv_def split: option.splits)
qed

lemma same_owner_inv0:
  assumes "route_inv y" and "same_owner (w_session (y_world y)) s'"
  shows "route_inv (y\<lparr>y_world := (y_world y)\<lparr>w_session := s'\<rparr>\<rparr>)"
  using same_owner_inv [OF assms, of "[]"] by simp

lemma releasing_inv:
  "route_inv y \<Longrightarrow> ss_state s' = EV_SESSION_RELEASING \<Longrightarrow>
   route_inv (y\<lparr>y_world := (y_world y)\<lparr>w_session := s'\<rparr>\<rparr>)"
  by (simp add: route_inv_def)

text \<open>A job whose snapshot is the present session serves it, whatever else is pending.\<close>

lemma served_inv:
  assumes "route_inv y" and "list_all pending_wf ps" and "list_ex (serves (w_session w')) ps"
  shows "route_inv (y\<lparr>y_world := w', y_pending := ps\<rparr>)"
  using assms by (simp add: route_inv_def)

lemma inv_pending_wf: "route_inv y \<Longrightarrow> list_all pending_wf (y_pending y)"
  by (simp add: route_inv_def)

lemma clear_job:
  assumes "clear_owner_locked b tm w link reason rr sid = (j, w')"
  shows "(j = None \<and> w' = w) \<or>
    (\<exists>j'. j = Some j' \<and> pending_wf (Route j') \<and> serves (w_session w') (Route j'))"
  using assms by (auto simp: clear_owner_locked_cases Let_def split: if_splits)

lemma tick_job:
  assumes "tick_locked b w now = (j, w')"
  shows "(j = None \<and> w' = w) \<or>
    (\<exists>j'. j = Some j' \<and> pending_wf (Route j') \<and> serves (w_session w') (Route j'))"
  using assms by (auto simp: tick_locked_def Let_def split: if_splits)

lemma job_inv:
  assumes "route_inv y"
    and "(j = None \<and> w' = y_world y) \<or>
      (\<exists>j'. j = Some j' \<and> pending_wf (Route j') \<and> serves (w_session w') (Route j'))"
  shows "route_inv (y\<lparr>y_world := w', y_pending := y_pending y @ job_list j\<rparr>)"
  using assms(2)
proof
  assume "j = None \<and> w' = y_world y"
  then show ?thesis using assms(1) by simp
next
  assume "\<exists>j'. j = Some j' \<and> pending_wf (Route j') \<and> serves (w_session w') (Route j')"
  then show ?thesis using assms(1) inv_pending_wf [OF assms(1)] by (auto intro!: served_inv)
qed

section \<open>Every step keeps the invariant\<close>

lemma acquire_step_inv:
  assumes inv: "route_inv y" and n: "nonce_ok n"
    and acq: "acquire_locked rnd (w_session (y_world y)) l n now =
      ((EV_SESSION_RESULT_OK, acquired, Some snap), s')"
  shows "route_inv (y\<lparr>y_world := (y_world y)\<lparr>w_session := s'\<rparr>,
      y_pending := y_pending y @ [Recheck l snap acquired]\<rparr>)"
proof (cases acquired)
  case True
  with acq have "sn_owner_link snap = l" "sn_state snap = EV_SESSION_OWNED" "snap_wf snap"
    "apply_route_check s' snap"
    by (auto simp: acquire_locked_def Let_def split: if_splits)
  with True inv inv_pending_wf [OF inv] show ?thesis by (intro served_inv) simp_all
next
  case False
  with acq have "same_owner (w_session (y_world y)) s'" "snap_wf snap"
    by (auto simp: acquire_locked_def Let_def same_owner_def split: if_splits)
  with inv False show ?thesis by (intro same_owner_inv) simp_all
qed

lemma recheck_ok_inv:
  assumes "route_inv y" and "y_pending y = xs @ Recheck l snap acquired # ys"
  shows "route_inv (y\<lparr>y_pending := xs @ ys @
      (if acquired then [Route (acquire_job snap)] else [])\<rparr>)"
  using assms by (auto simp: route_inv_def acquire_job_def split: option.splits)

lemma recheck_stale_inv:
  assumes inv: "route_inv y" and ys: "y_pending y = xs @ Recheck l snap acquired # ys"
    and clear: "clear_owner_locked b tm (y_world y) (Some l) reason False None = (j, w')"
  shows "route_inv (y\<lparr>y_world := w', y_pending := xs @ ys @ job_list j\<rparr>)"
proof -
  have wf: "list_all pending_wf (xs @ ys)" "pending_wf (Recheck l snap acquired)"
    using inv_pending_wf [OF inv] ys by simp_all
  from clear_job [OF clear] show ?thesis
  proof
    assume same: "j = None \<and> w' = y_world y"
    then have "ss_state (w_session (y_world y)) = EV_SESSION_FREE \<or>
        ss_owner_link (w_session (y_world y)) \<noteq> l"
      using clear by (auto simp: clear_owner_locked_cases Let_def split: if_splits)
    then have "\<not> serves (w_session (y_world y)) (Recheck l snap acquired)"
      using wf(2) by (auto simp: apply_route_check_def snap_wf_def)
    with same inv wf ys show ?thesis by (auto simp: route_inv_def split: option.splits)
  next
    assume "\<exists>j'. j = Some j' \<and> pending_wf (Route j') \<and> serves (w_session w') (Route j')"
    with inv wf show ?thesis by (auto intro!: served_inv)
  qed
qed

lemma hello_step_inv:
  assumes "route_inv y"
    and "hello_complete_locked (w_session (y_world y)) tm link sid = ((ans, j), s')"
  shows "route_inv (y\<lparr>y_world := (y_world y)\<lparr>w_session := s'\<rparr>,
      y_pending := y_pending y @ job_list j\<rparr>)"
  using assms
  by (intro same_owner_inv)
    (auto simp: hello_complete_locked_def same_owner_def Let_def split: if_splits)

lemma check_pass_inv:
  assumes "route_inv y" and "y_pending y = xs @ Route j # ys"
    and "apply_route_check (w_session (y_world y)) (rj_snapshot j)"
  shows "route_inv (y\<lparr>y_pending := xs @ ys, y_applying := Some j\<rparr>)"
  using assms by (simp add: route_inv_def)

lemma check_fail_inv:
  assumes "route_inv y" and "y_pending y = xs @ Route j # ys"
    and "\<not> apply_route_check (w_session (y_world y)) (rj_snapshot j)"
  shows "route_inv (y\<lparr>y_pending := xs @ ys\<rparr>)"
  using assms by (auto simp: route_inv_def split: option.splits)

lemma commit_job_session [simp]: "w_session (commit_job b w j) = w_session w"
  by (simp add: commit_job_def ev_session_notify_change_def)

lemma commit_routed:
  assumes check: "apply_route_check (w_session w) (rj_snapshot j)"
    and wf: "snap_wf (rj_snapshot j)"
  shows "routed (commit_job b w j)"
proof (cases "ss_state (w_session w)")
  case EV_SESSION_FREE
  with check wf have "\<not> sn_has_owner (rj_snapshot j)"
    by (simp add: apply_route_check_def snap_wf_def)
  with EV_SESSION_FREE show ?thesis
    by (simp add: routed_def commit_job_def ev_session_notify_change_def apply_route_commit_def
        Let_def split_beta ev_transport_set_owner_def set_owner_link_None)
next
  case EV_SESSION_OWNED
  with check wf have has: "sn_has_owner (rj_snapshot j)"
    and own: "sn_owner_link (rj_snapshot j) = ss_owner_link (w_session w)"
    by (simp_all add: apply_route_check_def snap_wf_def)
  let ?l = "ss_owner_link (w_session w)"
  show ?thesis
  proof (cases "ev_transport_link_is_current (w_transport w) (Some ?l)")
    case True
    then have "s_has_owner (ev_transport_set_owner (w_transport w) (Some ?l))"
      and "s_owner (ev_transport_set_owner (w_transport w) (Some ?l)) = ?l"
      by (simp_all add: ev_transport_set_owner_def locked_eq_current)
    with True has own EV_SESSION_OWNED show ?thesis
      by (simp add: routed_def commit_job_def ev_session_notify_change_def
          apply_route_commit_def Let_def split_beta set_owner_link_current)
  next
    case False
    with EV_SESSION_OWNED show ?thesis
      by (simp add: routed_def commit_job_def ev_session_notify_change_def)
  qed
next
  case EV_SESSION_RELEASING
  then show ?thesis by (simp add: routed_def)
qed

lemma commit_inv:
  assumes "route_inv y" and "y_applying y = Some j"
  shows "route_inv (y\<lparr>y_world := commit_job b (y_world y) j, y_applying := None\<rparr>)"
  using assms commit_routed [of "y_world y" j b] by (auto simp: route_inv_def)

lemma registry_owner:
  assumes op: "op = Op_open i k \<or> op = Op_close b link \<or> op = Op_advance link"
  shows "s_has_owner (transport_step t op) \<Longrightarrow> s_has_owner t"
    and "s_has_owner t \<Longrightarrow> ev_transport_link_is_current t (Some (s_owner t)) \<Longrightarrow>
      ev_transport_link_is_current (transport_step t op) (Some (s_owner t)) \<Longrightarrow>
      s_has_owner (transport_step t op) \<and> s_owner (transport_step t op) = s_owner t"
proof -
  show "s_has_owner (transport_step t op) \<Longrightarrow> s_has_owner t"
    using op by (cases link) (auto simp: ev_transport_link_open_def Let_def link_close_None
        link_close_cases advance_None link_advance_cases split: if_splits)
  assume own: "s_has_owner t" "ev_transport_link_is_current t (Some (s_owner t))"
    and still: "ev_transport_link_is_current (transport_step t op) (Some (s_owner t))"
  show "s_has_owner (transport_step t op) \<and> s_owner (transport_step t op) = s_owner t"
  proof (cases link)
    case None
    with op own show ?thesis
      by (auto simp: ev_transport_link_open_def Let_def link_close_None advance_None)
  next
    case (Some l)
    have "l = s_owner t" if "ev_transport_link_is_current t (Some l)" "slot_of (s_owner t) = slot_of l"
      using that own(2) reg.current_unique by metis
    with op own still Some gen.nxt_changes [of "lr_generation l"] show ?thesis
      by (auto simp: ev_transport_link_open_def Let_def link_close_cases link_advance_cases
          link_current_iff slot_of_def split: if_splits)
  qed
qed

lemma registry_inv:
  assumes inv: "route_inv y"
    and op: "op = Op_open i k \<or> op = Op_close b link \<or> op = Op_advance link"
    and t': "t' = transport_step (w_transport (y_world y)) op"
    and stale: "\<not> ev_transport_link_is_current (w_transport (y_world y))
          (Some (ss_owner_link (w_session (y_world y)))) \<Longrightarrow>
      \<not> ev_transport_link_is_current t' (Some (ss_owner_link (w_session (y_world y))))"
  shows "route_inv (y\<lparr>y_world := (y_world y)\<lparr>w_transport := t'\<rparr>\<rparr>)"
proof -
  have cur: "ev_transport_link_is_current t' (Some (ss_owner_link (w_session (y_world y)))) \<longrightarrow>
      ev_transport_link_is_current (w_transport (y_world y))
        (Some (ss_owner_link (w_session (y_world y))))"
    using stale by blast
  have "routed ((y_world y)\<lparr>w_transport := t'\<rparr>)" if "routed (y_world y)"
    using that registry_owner [OF op, of "w_transport (y_world y)"] cur
    by (cases "ss_state (w_session (y_world y))") (auto simp: routed_def t')
  with inv show ?thesis by (auto simp: route_inv_def split: option.splits)
qed

lemma release_prepare_cases:
  "snd (snd (ev_session_release_prepare t s tm link sid out)) = s \<or>
   ss_state (snd (snd (ev_session_release_prepare t s tm link sid out))) = EV_SESSION_RELEASING"
  by (auto simp: ev_session_release_prepare_def Let_def)

lemma quiet_same_owner:
  "same_owner s (snd (snd (ev_session_keepalive t s link sid now out)))"
  "same_owner s (snd (snd (ev_session_authorize t s link sid vr he e now out)))"
  "same_owner s (snd (ev_session_vm_epoch_advance s))"
  "same_owner s (ev_session_set_vm_ready s r)"
  by (auto simp: same_owner_def ev_session_keepalive_def ev_session_authorize_def split_beta
      ev_session_vm_epoch_advance_def ev_session_set_vm_ready_def Let_def split: option.splits)

lemma step_route_inv: "sys_step b y y' \<Longrightarrow> route_inv y \<Longrightarrow> route_inv y'"
proof (induction rule: sys_step.induct)
  case (release_prepare s' y tm link sid out)
  then show ?case
    using release_prepare_cases [of "w_transport (y_world y)" "w_session (y_world y)" tm link sid out]
      releasing_inv by auto
next
  case (recheck_ok y xs l snap acquired ys)
  then show ?case by (blast intro: recheck_ok_inv)
qed (auto intro: acquire_step_inv recheck_stale_inv hello_step_inv check_pass_inv
    check_fail_inv commit_inv same_owner_inv0 quiet_same_owner
    job_inv [OF _ clear_job] job_inv [OF _ tick_job] registry_inv)

lemma start_route_inv: "route_inv (sys_start b mk epoch)"
  by (simp add: route_inv_def sys_start_def ev_session_init0_def world_reset_def session_reset_def
      routed_def channel_reset_def ev_transport_set_owner_def Let_def)

lemma reachable_route_inv: "sys_reachable b y \<Longrightarrow> route_inv y"
  by (induction rule: sys_reachable.induct) (auto intro: start_route_inv step_route_inv)


end
