(* ===== verification/VmOutputProps.thy ===== *)
theory VmOutputProps
  imports VmOutput
begin

text \<open>
  Correctness of output origins: scopes nest like a stack and well-bracketed use attributes
  every output to the innermost scope that captured it, misuse of a token is harmless, an
  edited line belongs to one origin, and an origin is no longer current after any change of
  owner or VM epoch.
\<close>

section \<open>Scopes as a stack\<close>

text \<open>
  A command nests scopes: \<open>Emit\<close> is one output, \<open>In_scope\<close> runs a program inside a pushed
  scope and pops with the token it received, or without a scope when the push is refused.
\<close>

datatype 'o program = Emit | Seq "'o program" "'o program" | In_scope 'o "'o program"

primrec run_program ::
  "('s \<Rightarrow> 'o \<Rightarrow> ('t \<times> 's) option) \<Rightarrow> ('s \<Rightarrow> 't \<Rightarrow> 's) \<Rightarrow> ('s \<Rightarrow> 'o option) \<Rightarrow> 'o program \<Rightarrow> 's
     \<Rightarrow> 'o option list \<times> 's" where
  "run_program push pop current Emit s = ([current s], s)"
| "run_program push pop current (Seq p q) s =
     (let (xs, s1) = run_program push pop current p s;
          (ys, s2) = run_program push pop current q s1
      in (xs @ ys, s2))"
| "run_program push pop current (In_scope or1 p) s =
     (case push s or1 of
        None \<Rightarrow> run_program push pop current p s
      | Some (k, s1) \<Rightarrow>
          let (xs, s2) = run_program push pop current p s1 in (xs, pop s2 k))"

text \<open>The specification: a stack of origins of bounded depth, read from its top.\<close>

primrec attributed :: "('o \<Rightarrow> bool) \<Rightarrow> nat \<Rightarrow> 'o option \<Rightarrow> 'o program \<Rightarrow> 'o list \<Rightarrow> 'o option list" where
  "attributed ok cap base Emit st = [if st = [] then base else Some (last st)]"
| "attributed ok cap base (Seq p q) st = attributed ok cap base p st @ attributed ok cap base q st"
| "attributed ok cap base (In_scope or1 p) st =
     attributed ok cap base p (if ok or1 \<and> length st < cap then st @ [or1] else st)"

locale scope_stack =
  fixes push :: "'s \<Rightarrow> 'o \<Rightarrow> ('t \<times> 's) option"
    and pop :: "'s \<Rightarrow> 't \<Rightarrow> 's"
    and current :: "'s \<Rightarrow> 'o option"
    and base :: "'s \<Rightarrow> 'o option"
    and tokens :: "'s \<Rightarrow> 't list"
    and origins :: "'s \<Rightarrow> 'o list"
    and inv :: "'s \<Rightarrow> bool"
    and ok :: "'o \<Rightarrow> bool"
    and cap :: nat
  assumes push_None: "inv s \<Longrightarrow> push s x = None \<longleftrightarrow> \<not> (ok x \<and> length (origins s) < cap)"
    and push_Some: "inv s \<Longrightarrow> push s x = Some (k, s') \<Longrightarrow>
      inv s' \<and> tokens s' = tokens s @ [k] \<and> origins s' = origins s @ [x] \<and> base s' = base s"
    and pop_top: "inv s \<Longrightarrow> tokens s = ks @ [k] \<Longrightarrow>
      inv (pop s k) \<and> tokens (pop s k) = ks \<and> origins (pop s k) = butlast (origins s) \<and>
      base (pop s k) = base s"
    and current_top: "inv s \<Longrightarrow> current s = (if origins s = [] then base s else Some (last (origins s)))"
begin

lemma run_program_spec:
  assumes "inv s" and "run_program push pop current p s = (out, s')"
  shows "out = attributed ok cap (base s) p (origins s) \<and>
    inv s' \<and> tokens s' = tokens s \<and> origins s' = origins s \<and> base s' = base s"
  using assms
proof (induction p arbitrary: s out s')
  case Emit
  then show ?case by (auto simp: current_top)
next
  case (Seq p q)
  from Seq.prems(2) obtain xs s1 ys where p: "run_program push pop current p s = (xs, s1)"
    and q: "run_program push pop current q s1 = (ys, s')" and out: "out = xs @ ys"
    by (auto split: prod.splits)
  from Seq.IH(1) [OF Seq.prems(1) p] Seq.IH(2) [OF _ q] out show ?case by simp
next
  case (In_scope x p)
  show ?case
  proof (cases "push s x")
    case None
    then have "\<not> (ok x \<and> length (origins s) < cap)"
      using push_None [OF In_scope.prems(1), of x] by simp
    moreover have "run_program push pop current p s = (out, s')"
      using None In_scope.prems(2) by simp
    ultimately show ?thesis using In_scope.IH [OF In_scope.prems(1)] by auto
  next
    case (Some r)
    then obtain k s1 where r: "push s x = Some (k, s1)" by (cases r) auto
    then have room: "ok x \<and> length (origins s) < cap"
      using push_None [OF In_scope.prems(1), of x] by (cases "ok x \<and> length (origins s) < cap") auto
    obtain s2 where run: "run_program push pop current p s1 = (out, s2)" and s': "s' = pop s2 k"
      using In_scope.prems(2) r by (auto split: prod.splits)
    note ps = push_Some [OF In_scope.prems(1) r]
    have "inv s1" using ps by simp
    from In_scope.IH [OF this run] ps have i: "out = attributed ok cap (base s) p (origins s @ [x])"
      "inv s2" "tokens s2 = tokens s @ [k]" "origins s2 = origins s @ [x]" "base s2 = base s"
      by simp_all
    with pop_top [OF i(2,3)] room s' show ?thesis by simp
  qed
qed

end

definition vm_push ::
  "vm_task \<Rightarrow> ev_vm_output_origin \<Rightarrow> (ev_vm_output_scope \<times> vm_task) option" where
  "vm_push v x =
     (case ev_vm_output_scope_push v (Some x) (Some zero_scope) of
        (pushed, tok, v') \<Rightarrow> if pushed then Some (the tok, v') else None)"

definition vm_pop :: "vm_task \<Rightarrow> ev_vm_output_scope \<Rightarrow> vm_task" where
  "vm_pop v tok = snd (ev_vm_output_scope_pop v (Some tok))"

definition vm_current :: "vm_task \<Rightarrow> ev_vm_output_origin option" where
  "vm_current v =
     (let (found, x) = ev_vm_output_scope_snapshot v (Some zero_origin) in if found then x else None)"

definition vm_base :: "vm_task \<Rightarrow> ev_vm_output_origin option" where
  "vm_base v = (if vt_repl_editing v \<and> vt_repl_has_origin v then Some (vt_repl_origin v) else None)"

definition vm_token :: "vm_task \<Rightarrow> nat \<Rightarrow> ev_vm_output_scope" where
  "vm_token v i = \<lparr>sc_cookie = en_cookie (vt_scopes v ! i),
     sc_reset_generation = vt_reset_generation v, sc_depth = i, sc_active = True\<rparr>"

definition vm_tokens :: "vm_task \<Rightarrow> ev_vm_output_scope list" where
  "vm_tokens v = map (vm_token v) [0..<vt_scope_depth v]"

definition vm_origins :: "vm_task \<Rightarrow> ev_vm_output_origin list" where
  "vm_origins v = map (\<lambda>i. en_origin (vt_scopes v ! i)) [0..<vt_scope_depth v]"

definition vm_inv :: "vm_task \<Rightarrow> bool" where
  "vm_inv v \<longleftrightarrow> length (vt_scopes v) = 4 \<and> vt_scope_depth v \<le> 4 \<and>
     (vt_repl_has_origin v \<longrightarrow> vt_repl_editing v)"

lemma length_vm_origins [simp]: "length (vm_origins v) = vt_scope_depth v"
  by (simp add: vm_origins_def)

lemma vm_push_eq:
  "vm_push v x =
     (if ev_vm_output_origin_valid (Some x) \<and> vt_scope_depth v < 4
      then let cookie = ev_transport_next_generation (vt_next_cookie v)
           in Some (\<lparr>sc_cookie = cookie, sc_reset_generation = vt_reset_generation v,
                     sc_depth = vt_scope_depth v, sc_active = True\<rparr>,
                 v\<lparr>vt_next_cookie := cookie,
                   vt_scopes := (vt_scopes v)[vt_scope_depth v :=
                     \<lparr>en_cookie = cookie, en_origin = x\<rparr>],
                   vt_scope_depth := vt_scope_depth v + 1\<rparr>)
      else None)"
  by (simp add: vm_push_def ev_vm_output_scope_push_def ev_transport_next_generation_def Let_def)

lemma vm_push_state:
  assumes "vm_inv v" and "vm_push v x = Some (k, v')"
  shows "vm_inv v' \<and> vm_tokens v' = vm_tokens v @ [k] \<and> vm_origins v' = vm_origins v @ [x] \<and>
    vm_base v' = vm_base v"
  using assms
  by (auto simp: vm_push_eq Let_def vm_inv_def vm_tokens_def vm_token_def vm_origins_def vm_base_def
      split: if_splits)

lemma vm_pop_top:
  assumes "vm_inv v" and "vm_tokens v = ks @ [k]"
  shows "vm_inv (vm_pop v k) \<and> vm_tokens (vm_pop v k) = ks \<and>
    vm_origins (vm_pop v k) = butlast (vm_origins v) \<and> vm_base (vm_pop v k) = vm_base v"
proof -
  from assms(2) obtain n where n: "vt_scope_depth v = Suc n"
    by (cases "vt_scope_depth v") (auto simp: vm_tokens_def)
  with assms(2) have k: "k = vm_token v n" and ks: "ks = map (vm_token v) [0..<n]"
    by (auto simp: vm_tokens_def)
  have "n < 4" using assms(1) n by (simp add: vm_inv_def)
  then have pop: "vm_pop v k = v\<lparr>vt_scopes := (vt_scopes v)[n := zero_entry], vt_scope_depth := n\<rparr>"
    using n by (simp add: vm_pop_def ev_vm_output_scope_pop_def k vm_token_def Let_def)
  show ?thesis using assms(1) n unfolding pop ks
    by (auto simp: vm_inv_def vm_tokens_def vm_token_def vm_origins_def vm_base_def)
qed

lemma vm_current_top:
  "vm_inv v \<Longrightarrow> vm_current v = (if vm_origins v = [] then vm_base v else Some (last (vm_origins v)))"
  by (cases "vt_scope_depth v")
    (auto simp: vm_current_def ev_vm_output_scope_snapshot_def vm_origins_def vm_base_def
      active_origin_def)

interpretation vm: scope_stack vm_push vm_pop vm_current vm_base vm_tokens vm_origins vm_inv
  "\<lambda>x. ev_vm_output_origin_valid (Some x)" 4
proof
  fix v :: vm_task and x k v' ks
  show "vm_inv v \<Longrightarrow> vm_push v x = None \<longleftrightarrow>
      \<not> (ev_vm_output_origin_valid (Some x) \<and> length (vm_origins v) < 4)"
    by (auto simp: vm_push_eq Let_def)
  show "vm_inv v \<Longrightarrow> vm_push v x = Some (k, v') \<Longrightarrow>
      vm_inv v' \<and> vm_tokens v' = vm_tokens v @ [k] \<and> vm_origins v' = vm_origins v @ [x] \<and>
      vm_base v' = vm_base v"
    by (rule vm_push_state)
  show "vm_inv v \<Longrightarrow> vm_tokens v = ks @ [k] \<Longrightarrow>
      vm_inv (vm_pop v k) \<and> vm_tokens (vm_pop v k) = ks \<and>
      vm_origins (vm_pop v k) = butlast (vm_origins v) \<and> vm_base (vm_pop v k) = vm_base v"
    by (rule vm_pop_top)
  show "vm_inv v \<Longrightarrow>
      vm_current v = (if vm_origins v = [] then vm_base v else Some (last (vm_origins v)))"
    by (rule vm_current_top)
qed

text \<open>
  Property C9: scopes refine a stack of origins. Running any nesting of scopes and outputs
  attributes every output to the innermost captured origin (or to the origin of the edited
  line when no scope is open), exactly as the specification with a stack of depth four says,
  and afterwards the scopes and the edited line are as before.
\<close>

theorem nested_scopes_attribute_output:
  assumes "vm_inv v" and "run_program vm_push vm_pop vm_current p v = (out, v')"
  shows "out = attributed (\<lambda>x. ev_vm_output_origin_valid (Some x)) 4 (vm_base v) p (vm_origins v) \<and>
    vm_origins v' = vm_origins v \<and> vm_base v' = vm_base v \<and> vm_inv v'"
  using vm.run_program_spec [OF assms] by blast

section \<open>Tokens\<close>

text \<open>
  Popping is safe against misuse. A token that is inactive, was taken before a
  reset, or is not the top scope leaves the task state as it is; every pop deactivates the
  token, so a second pop of the same token does nothing.
\<close>

theorem pop_of_wrong_token_changes_nothing:
  assumes "vm_inv v"
    and "k \<notin> set (vm_tokens v) \<or> k \<noteq> last (vm_tokens v)"
  shows "ev_vm_output_scope_pop v (Some k) = (Some (k\<lparr>sc_active := False\<rparr>), v)"
proof (cases "sc_active k \<and> sc_reset_generation k = vt_reset_generation v \<and>
    vt_scope_depth v = Suc (sc_depth k) \<and> en_cookie (vt_scopes v ! sc_depth k) = sc_cookie k")
  case True
  then have "k = vm_token v (sc_depth k)" by (cases k) (simp add: vm_token_def)
  then have "k \<in> set (vm_tokens v) \<and> k = last (vm_tokens v)"
    using True by (simp add: vm_tokens_def)
  with assms(2) show ?thesis by blast
next
  case False
  then show ?thesis by (cases k) (auto simp: ev_vm_output_scope_pop_def Let_def)
qed

lemma reset_changes_generation: "vt_reset_generation (ev_vm_output_reset v) \<noteq> vt_reset_generation v"
  using gen.nxt_changes [of "vt_reset_generation v"]
  by (simp add: ev_vm_output_reset_def Let_def ev_transport_next_generation_def split: if_splits)

lemma pop_after_reset:
  "k \<in> set (vm_tokens v) \<Longrightarrow> vm_pop (ev_vm_output_reset v) k = ev_vm_output_reset v"
  using reset_changes_generation [of v]
  by (auto simp: vm_pop_def ev_vm_output_scope_pop_def vm_tokens_def vm_token_def Let_def)

section \<open>The edited line\<close>

text \<open>Feeding bytes of the given origins to an edited line; which of them are accepted.\<close>

fun feed_line :: "vm_task \<Rightarrow> ev_vm_output_origin option list \<Rightarrow> bool list \<times> vm_task" where
  "feed_line v [] = ([], v)"
| "feed_line v (x # xs) =
     (let (a, v1) = ev_vm_output_repl_input_accept v x; (as, v2) = feed_line v1 xs
      in (a # as, v2))"

lemma feed_bound_line:
  assumes "vt_scope_depth v = 0" and "vt_repl_editing v" and "vt_repl_has_origin v"
    and "ev_vm_output_origin_valid (Some (vt_repl_origin v))"
  shows "feed_line v xs = (map (\<lambda>x. x = Some (vt_repl_origin v)) xs, v)"
proof (induction xs)
  case Nil
  then show ?case by simp
next
  case (Cons x xs)
  have "ev_vm_output_repl_input_accept v x = (x = Some (vt_repl_origin v), v)"
    using assms by (cases x) (auto simp: ev_vm_output_repl_input_accept_def)
  with Cons show ?case by simp
qed

text \<open>
  An edited line belongs to exactly one origin. After a line begins, the first
  byte with a valid origin binds it; from then on precisely the bytes of that same origin are
  accepted, whatever other origins are offered in between, and completing the line returns
  that origin.
\<close>

theorem edited_line_has_one_origin:
  assumes "vt_scope_depth v = 0" and "ev_vm_output_origin_valid (Some first)"
    and "feed_line (ev_vm_output_repl_read_begin v) (Some first # xs) = (accepted, v')"
  shows "accepted = True # map (\<lambda>x. x = Some first) xs \<and>
    fst (snd (ev_vm_output_repl_read_complete v' (Some zero_origin))) = Some first \<and>
    fst (ev_vm_output_repl_read_complete v' (Some zero_origin))"
proof -
  let ?v = "(ev_vm_output_repl_read_begin v)\<lparr>vt_repl_origin := first, vt_repl_has_origin := True\<rparr>"
  have "ev_vm_output_repl_input_accept (ev_vm_output_repl_read_begin v) (Some first) = (True, ?v)"
    using assms(1,2)
    by (simp add: ev_vm_output_repl_input_accept_def ev_vm_output_repl_read_begin_def)
  moreover have "feed_line ?v xs = (map (\<lambda>x. x = Some first) xs, ?v)"
    using assms(1,2) feed_bound_line [of ?v xs] by (simp add: ev_vm_output_repl_read_begin_def)
  ultimately show ?thesis using assms(1,3)
    by (auto simp: ev_vm_output_repl_read_complete_def ev_vm_output_repl_read_begin_def Let_def)
qed

section \<open>Origins and sessions\<close>

lemma current_origin_fields:
  assumes "ev_vm_output_origin_is_current s timer (Some x)"
  shows "or_input_generation x = ss_input_generation s" and "or_session_id x = ss_session_id s"
    and "or_link x = ss_owner_link s" and "or_vm_epoch x = ss_vm_epoch s"
  using assms
  by (auto simp: ev_vm_output_origin_is_current_def ev_session_snapshot_def
      ev_vm_output_origin_from_session_def Let_def split: if_splits)

lemma owned_session_has_origin:
  assumes "session_inv s" and "ss_initialized s" and "ss_state s = EV_SESSION_OWNED"
    and "ss_handshake_complete s" and "ss_vm_ready s"
    and "ev_transport_link_is_current t (Some (ss_owner_link s))" and "transport_inv t"
  shows "\<exists>x. ev_vm_output_origin_from_session (Some (ev_session_snapshot_locked s timer))
      (Some y) = (True, Some x) \<and> ev_vm_output_origin_is_current s timer (Some x)"
proof -
  have link: "ls_open (s_links t (lr_transport_id (ss_owner_link s)) (lr_slot (ss_owner_link s)))"
    "ls_generation (s_links t (lr_transport_id (ss_owner_link s)) (lr_slot (ss_owner_link s))) =
      lr_generation (ss_owner_link s)"
    "ev_transport_valid_slot (lr_transport_id (ss_owner_link s)) (lr_slot (ss_owner_link s))"
    using assms(6) by (simp_all add: link_current_iff)
  then have "lr_generation (ss_owner_link s) \<noteq> 0" "lr_transport_id (ss_owner_link s) \<noteq> EV_TRANSPORT_MAX"
    using transport_inv_openD(3) [OF assms(7) link(1)] by auto
  moreover have "nonce_ok (ss_session_id s)" "ss_vm_epoch s \<noteq> 0" "ss_input_generation s \<noteq> 0"
    using assms(1-3) by (simp_all add: session_inv_def)
  ultimately have "ev_vm_output_origin_valid (Some \<lparr>or_link = ss_owner_link s,
      or_session_id = ss_session_id s, or_vm_epoch = ss_vm_epoch s,
      or_input_generation = ss_input_generation s, or_transition_id = ss_transition_id s\<rparr>)"
    using nonce_ok_no_NUL session_id_valid_iff [of "ss_session_id s"]
    by (simp add: ev_vm_output_origin_valid_def nonce_ok_def)
  then show ?thesis using assms(2-5)
    by (simp add: ev_vm_output_origin_from_session_def ev_vm_output_origin_is_current_def
        ev_session_snapshot_def)
qed

text \<open>
  Output of a command is recognised as stale after a change of owner. While the
  VM runs a command whose captured origin was current, any call that changes the owner or the
  VM epoch makes the lock-free staleness test of the running command true.
\<close>

theorem running_command_is_stale_after_owner_change:
  assumes "world_inv w" and "ss_initialized (w_session w)" and "w' = run_call b w call"
    and "vt_scope_depth v \<noteq> 0"
    and "ev_vm_output_origin_is_current (w_session w) timer (Some (active_origin v))"
    and "ss_owner_link (w_session w') \<noteq> ss_owner_link (w_session w) \<or>
         ss_session_id (w_session w') \<noteq> ss_session_id (w_session w) \<or>
         ss_vm_epoch (w_session w') \<noteq> ss_vm_epoch (w_session w)"
  shows "ev_vm_output_input_origin_stale (w_session w') v"
proof -
  have "or_input_generation (active_origin v) = ev_session_input_generation (w_session w)"
    using current_origin_fields(1) [OF assms(5)] assms(1)
    by (simp add: ev_session_input_generation_def world_inv_def session_inv_def)
  moreover have "ev_session_input_generation (w_session w') \<noteq> ev_session_input_generation (w_session w)"
    by (rule input_generation_changes [OF assms(1-3,6)])
  ultimately show ?thesis using assms(4) by (simp add: ev_vm_output_input_origin_stale_def)
qed

end
