(* ===== verification/UartBaud.thy ===== *)
theory UartBaud
  imports SessionProps
begin

text \<open>
  Negotiating the speed of the UART link: the state machine of \<open>platform/ev_uart_baud.h\<close>, its
  driver in \<open>platform/ev_control_transport.c\<close> (the request handler, the two completions of
  acknowledgement frames, and the poll that switches the hardware) and the hardware switch of
  \<open>overlay/micropython/ports/esp32/uart.c\<close>. \<open>uart_baud\<close> joins the file's static variables
  with the present speed of the hardware and the pause flag of the multiplexer. The negotiation
  lives under a session: the poll reads the session and drops its link when it gives up.
\<close>

section \<open>The state machine\<close>

definition EV_UART_BAUD_BASELINE :: u32 where
  "EV_UART_BAUD_BASELINE = 115200"

definition EV_UART_BAUD_TIMEOUT_MS :: u32 where
  "EV_UART_BAUD_TIMEOUT_MS = 5000"

definition EV_UART_BAUD_SWITCH_DELAY_MS :: u32 where
  "EV_UART_BAUD_SWITCH_DELAY_MS = 100"

definition EV_UART_BAUD_PROBE_BYTES :: nat where
  "EV_UART_BAUD_PROBE_BYTES = 512"

definition EV_UART_BAUD_TOKEN_MAX :: nat where
  "EV_UART_BAUD_TOKEN_MAX = 32"

lemmas uart_consts [simp] = EV_UART_BAUD_BASELINE_def EV_UART_BAUD_TIMEOUT_MS_def
  EV_UART_BAUD_SWITCH_DELAY_MS_def EV_UART_BAUD_PROBE_BYTES_def EV_UART_BAUD_TOKEN_MAX_def

datatype ev_uart_baud_phase =
    EV_UART_BAUD_IDLE
  | EV_UART_BAUD_PREPARE_ACK
  | EV_UART_BAUD_WAIT_SWITCH
  | EV_UART_BAUD_PROBING
  | EV_UART_BAUD_COMMIT_ACK
  | EV_UART_BAUD_ACTIVE
  | EV_UART_BAUD_RESTORE

record ev_uart_baud =
  bd_phase :: ev_uart_baud_phase
  bd_requested :: u32
  bd_since_ms :: u32
  bd_probed :: bool
  bd_token :: cstring

definition zero_baud :: ev_uart_baud where
  "zero_baud = \<lparr>bd_phase = EV_UART_BAUD_IDLE, bd_requested = 0, bd_since_ms = 0,
     bd_probed = False, bd_token = []\<rparr>"

definition ev_uart_baud_candidate :: "u32 \<Rightarrow> bool" where
  "ev_uart_baud_candidate baud \<longleftrightarrow> baud = 2000000 \<or> baud = 1500000 \<or> baud = 921600 \<or>
     baud = 460800 \<or> baud = EV_UART_BAUD_BASELINE"

definition token_char :: "char \<Rightarrow> bool" where
  "token_char c \<longleftrightarrow> (CHR ''a'' \<le> c \<and> c \<le> CHR ''z'') \<or> (CHR ''A'' \<le> c \<and> c \<le> CHR ''Z'') \<or>
     (CHR ''0'' \<le> c \<and> c \<le> CHR ''9'') \<or> c = CHR ''_'' \<or> c = CHR ''-''"

fun token_scan :: "nat \<Rightarrow> cstring \<Rightarrow> bool" where
  "token_scan len [] = True"
| "token_scan len (c # cs) =
     (if len \<ge> EV_UART_BAUD_TOKEN_MAX \<or> \<not> token_char c then False else token_scan (len + 1) cs)"

definition ev_uart_baud_token_valid :: "cstring option \<Rightarrow> bool" where
  "ev_uart_baud_token_valid token =
     (case token of None \<Rightarrow> False
      | Some s \<Rightarrow> if c_at s 0 = CHR 0x00 then False else token_scan 0 s)"

definition ev_uart_baud_prepare ::
  "ev_uart_baud \<Rightarrow> u32 \<Rightarrow> cstring option \<Rightarrow> u32 \<Rightarrow> bool \<times> ev_uart_baud" where
  "ev_uart_baud_prepare s baud token now =
     (if (bd_phase s \<noteq> EV_UART_BAUD_IDLE \<and> bd_phase s \<noteq> EV_UART_BAUD_ACTIVE) \<or>
         \<not> ev_uart_baud_candidate baud \<or> \<not> ev_uart_baud_token_valid token
      then (False, s)
      else (True, \<lparr>bd_phase = EV_UART_BAUD_PREPARE_ACK, bd_requested = baud, bd_since_ms = now,
                   bd_probed = False, bd_token = the token\<rparr>))"

definition ev_uart_baud_prepare_complete ::
  "ev_uart_baud \<Rightarrow> cstring \<Rightarrow> bool \<Rightarrow> u32 \<Rightarrow> ev_uart_baud" where
  "ev_uart_baud_prepare_complete s token success now =
     (if bd_phase s = EV_UART_BAUD_PREPARE_ACK \<and> bd_token s = token
      then s\<lparr>bd_phase := (if success then EV_UART_BAUD_WAIT_SWITCH else EV_UART_BAUD_RESTORE),
             bd_since_ms := now\<rparr>
      else s)"

definition ev_uart_baud_switch_due :: "ev_uart_baud \<Rightarrow> u32 \<Rightarrow> bool" where
  "ev_uart_baud_switch_due s now \<longleftrightarrow> bd_phase s = EV_UART_BAUD_WAIT_SWITCH \<and>
     now - bd_since_ms s \<ge> EV_UART_BAUD_SWITCH_DELAY_MS"

definition ev_uart_baud_expired :: "ev_uart_baud \<Rightarrow> u32 \<Rightarrow> bool" where
  "ev_uart_baud_expired s now \<longleftrightarrow> bd_phase s \<noteq> EV_UART_BAUD_IDLE \<and>
     bd_phase s \<noteq> EV_UART_BAUD_ACTIVE \<and> bd_phase s \<noteq> EV_UART_BAUD_RESTORE \<and>
     now - bd_since_ms s \<ge> EV_UART_BAUD_TIMEOUT_MS"

definition ev_uart_baud_matches :: "ev_uart_baud \<Rightarrow> cstring \<Rightarrow> bool" where
  "ev_uart_baud_matches s token \<longleftrightarrow>
     (bd_phase s = EV_UART_BAUD_PROBING \<or> bd_phase s = EV_UART_BAUD_ACTIVE) \<and> bd_token s = token"

definition ev_uart_baud_commit :: "ev_uart_baud \<Rightarrow> cstring \<Rightarrow> bool \<times> ev_uart_baud" where
  "ev_uart_baud_commit s token =
     (if \<not> ev_uart_baud_matches s token \<or> \<not> bd_probed s then (False, s)
      else (True, if bd_phase s \<noteq> EV_UART_BAUD_ACTIVE
                  then s\<lparr>bd_phase := EV_UART_BAUD_COMMIT_ACK\<rparr> else s))"

definition ev_uart_baud_commit_complete :: "ev_uart_baud \<Rightarrow> cstring \<Rightarrow> bool \<Rightarrow> ev_uart_baud" where
  "ev_uart_baud_commit_complete s token success =
     (if bd_phase s = EV_UART_BAUD_COMMIT_ACK \<and> bd_token s = token
      then s\<lparr>bd_phase := (if success then EV_UART_BAUD_ACTIVE else EV_UART_BAUD_RESTORE)\<rparr>
      else s)"

section \<open>The hardware\<close>

text \<open>
  \<open>clock\<close> is the answer of \<open>uart_get_sclk_freq\<close>, \<open>idle\<close> whether the transmitter has shifted
  out its last bit. The second component is the speed of the hardware afterwards.
\<close>

definition uart_stdout_set_baudrate :: "esp_err \<Rightarrow> bool \<Rightarrow> u32 \<Rightarrow> u32 \<Rightarrow> esp_err \<times> u32" where
  "uart_stdout_set_baudrate clock idle hw baud =
     (if \<not> ev_uart_baud_candidate baud then (ESP_ERR_INVALID_ARG, hw)
      else if clock \<noteq> ESP_OK then (clock, hw)
      else if \<not> idle then (ESP_ERR_INVALID_STATE, hw)
      else (ESP_OK, baud))"

text \<open>Through \<open>ev_transport_uart_set_baudrate\<close>, which fails before the hardware is touched.\<close>

definition uart_switch ::
  "board \<Rightarrow> transport \<Rightarrow> esp_err \<Rightarrow> bool \<Rightarrow> u32 \<Rightarrow> u32 \<Rightarrow> esp_err \<times> u32" where
  "uart_switch b t clock idle hw baud =
     (let err = ev_transport_uart_set_baudrate b t
                  (\<lambda>x. fst (uart_stdout_set_baudrate clock idle hw x)) baud
      in (err, if err = ESP_OK then snd (uart_stdout_set_baudrate clock idle hw baud) else hw))"

section \<open>The driver\<close>

record uart_baud =
  ub_state :: ev_uart_baud
  ub_link :: ev_link_ref
  ub_session :: cstring
  ub_paused :: bool
  ub_hw :: u32

definition ev_control_link_equal :: "ev_link_ref option \<Rightarrow> ev_link_ref option \<Rightarrow> bool" where
  "ev_control_link_equal left right =
     (case (left, right) of
        (Some l, Some r) \<Rightarrow> lr_transport_id l = lr_transport_id r \<and> lr_slot l = lr_slot r \<and>
          lr_generation l = lr_generation r
      | _ \<Rightarrow> False)"

text \<open>
  A request of \<open>transport.uart.*\<close> after its parameters were parsed. \<open>sent\<close> is whether the
  response was queued.
\<close>

datatype uart_request =
    Uart_prepare cstring u32
  | Uart_probe cstring cstring
  | Uart_commit cstring

datatype uart_answer = Uart_ok u32 | Uart_unsupported | Uart_invalid_argument | Uart_invalid_state

primrec request_token :: "uart_request \<Rightarrow> cstring" where
  "request_token (Uart_prepare tok baud) = tok"
| "request_token (Uart_probe tok data) = tok"
| "request_token (Uart_commit tok) = tok"

primrec is_probe :: "uart_request \<Rightarrow> bool" where
  "is_probe (Uart_prepare tok baud) = False"
| "is_probe (Uart_probe tok data) = True"
| "is_probe (Uart_commit tok) = False"

definition probe_char :: "char \<Rightarrow> bool" where
  "probe_char c \<longleftrightarrow> CHR 0x20 \<le> c \<and> c \<le> CHR 0x7E"

definition request_valid :: "uart_request \<Rightarrow> bool" where
  "request_valid rq \<longleftrightarrow> ev_uart_baud_token_valid (Some (request_token rq)) \<and>
     (case rq of
        Uart_prepare tok baud \<Rightarrow> ev_uart_baud_candidate baud
      | Uart_probe tok data \<Rightarrow> length data \<noteq> 0 \<and> length data \<le> EV_UART_BAUD_PROBE_BYTES \<and>
          list_all probe_char data
      | Uart_commit tok \<Rightarrow> True)"

text \<open>The critical section of the handler.\<close>

definition uart_request_locked ::
  "uart_baud \<Rightarrow> ev_link_ref \<Rightarrow> cstring \<Rightarrow> uart_request \<Rightarrow> u32 \<Rightarrow> bool \<times> u32 \<times> uart_baud" where
  "uart_request_locked u link sid rq now =
     (let owner = (ev_control_link_equal (Some link) (Some (ub_link u)) \<and> sid = ub_session u)
      in case rq of
           Uart_prepare tok baud \<Rightarrow>
             let (accepted, s) = ev_uart_baud_prepare (ub_state u) baud (Some tok) now
             in (accepted, baud,
                 if accepted
                 then u\<lparr>ub_state := s, ub_link := link, ub_session := sid, ub_paused := True\<rparr>
                 else u\<lparr>ub_state := s\<rparr>)
         | Uart_probe tok data \<Rightarrow>
             if owner \<and> ev_uart_baud_matches (ub_state u) tok
             then (True, bd_requested (ub_state u), u\<lparr>ub_state := (ub_state u)\<lparr>bd_probed := True\<rparr>\<rparr>)
             else (False, bd_requested (ub_state u), u)
         | Uart_commit tok \<Rightarrow>
             if owner
             then let (accepted, s) = ev_uart_baud_commit (ub_state u) tok
                  in (accepted, bd_requested s, u\<lparr>ub_state := s\<rparr>)
             else (False, bd_requested (ub_state u), u))"

definition ev_control_send_uart_baud ::
  "u32 \<Rightarrow> uart_baud \<Rightarrow> ev_link_ref \<Rightarrow> cstring \<Rightarrow> uart_request \<Rightarrow> u32 \<Rightarrow> bool
     \<Rightarrow> uart_answer \<times> uart_baud" where
  "ev_control_send_uart_baud current u link sid rq now sent =
     (if lr_transport_id link \<noteq> EV_TRANSPORT_UART \<or> current = 0 then (Uart_unsupported, u)
      else if \<not> request_valid rq then (Uart_invalid_argument, u)
      else
        let (accepted, baud, u1) = uart_request_locked u link sid rq now
        in if \<not> accepted then (Uart_invalid_state, u1)
           else (Uart_ok baud,
                 if \<not> sent \<and> \<not> is_probe rq
                 then u1\<lparr>ub_state := (ub_state u1)\<lparr>bd_phase := EV_UART_BAUD_RESTORE\<rparr>\<rparr> else u1))"

text \<open>The completions of the acknowledgement frames.\<close>

definition uart_prepare_done :: "uart_baud \<Rightarrow> cstring \<Rightarrow> bool \<Rightarrow> u32 \<Rightarrow> uart_baud" where
  "uart_prepare_done u token success now =
     u\<lparr>ub_state := ev_uart_baud_prepare_complete (ub_state u) token success now\<rparr>"

definition uart_commit_done :: "uart_baud \<Rightarrow> cstring \<Rightarrow> bool \<Rightarrow> uart_baud" where
  "uart_commit_done u token success =
     (let s = ev_uart_baud_commit_complete (ub_state u) token success
      in u\<lparr>ub_state := s,
           ub_paused := (if bd_phase s = EV_UART_BAUD_ACTIVE then False else ub_paused u)\<rparr>)"

text \<open>
  The first critical section of the poll: give up on a lost owner or an expired negotiation,
  and tell whether to restore the baseline or to switch now.
\<close>

definition uart_poll_decide :: "uart_baud \<Rightarrow> bool \<Rightarrow> u32 \<Rightarrow> bool \<times> bool \<times> uart_baud" where
  "uart_poll_decide u same_owner now =
     (let s = (if \<not> same_owner \<or> ev_uart_baud_expired (ub_state u) now
               then (ub_state u)\<lparr>bd_phase := EV_UART_BAUD_RESTORE\<rparr> else ub_state u);
          restore = (bd_phase s = EV_UART_BAUD_RESTORE)
      in (restore, ev_uart_baud_switch_due s now,
          u\<lparr>ub_state := s, ub_paused := (restore \<or> ub_paused u)\<rparr>))"

text \<open>
  What follows the switch of the hardware: retry later, give up, or record the new phase in
  the second critical section. Between the two sections only the completions can run, and they
  change neither of the phases involved (\<open>completions_keep_switch_phases\<close> below).
\<close>

definition uart_poll_finish :: "uart_baud \<Rightarrow> bool \<Rightarrow> esp_err \<Rightarrow> u32 \<Rightarrow> uart_baud" where
  "uart_poll_finish u restore result hw =
     (if result = ESP_ERR_INVALID_STATE then u
      else if result \<noteq> ESP_OK
      then u\<lparr>ub_state := (ub_state u)\<lparr>bd_phase := EV_UART_BAUD_RESTORE\<rparr>\<rparr>
      else if restore
      then u\<lparr>ub_state := zero_baud, ub_session := [], ub_paused := False, ub_hw := hw\<rparr>
      else if bd_phase (ub_state u) = EV_UART_BAUD_WAIT_SWITCH
      then u\<lparr>ub_state := (ub_state u)\<lparr>bd_phase := EV_UART_BAUD_PROBING\<rparr>, ub_hw := hw\<rparr>
      else u\<lparr>ub_hw := hw\<rparr>)"

definition uart_same_owner :: "session \<Rightarrow> u32 \<Rightarrow> uart_baud \<Rightarrow> bool" where
  "uart_same_owner ss timer u =
     (let (has_session, session) = ev_session_snapshot ss timer (Some zero_snapshot)
      in has_session \<and> sn_has_owner (the session) \<and>
         ev_control_link_equal (Some (sn_owner_link (the session))) (Some (ub_link u)) \<and>
         sn_session_id (the session) = ub_session u)"

definition ev_control_transport_uart_baud_poll ::
  "board \<Rightarrow> u32 \<Rightarrow> u32 \<Rightarrow> esp_err \<Rightarrow> bool \<Rightarrow> world \<Rightarrow> uart_baud \<Rightarrow> world \<times> uart_baud" where
  "ev_control_transport_uart_baud_poll b timer now clock idle w u =
     (if bd_phase (ub_state u) = EV_UART_BAUD_IDLE then (w, u)
      else
        let same_owner = uart_same_owner (w_session w) timer u;
            (restore, switch_due, u1) = uart_poll_decide u same_owner now;
            requested = (if restore then EV_UART_BAUD_BASELINE else bd_requested (ub_state u1))
        in if \<not> restore \<and> \<not> switch_due then (w, u1)
           else
             let w1 = (if restore \<and> same_owner
                       then snd (ev_session_link_lost b timer w (Some (ub_link u))
                                   EV_SESSION_CHANGE_LINK_LOST)
                       else w);
                 (result, hw) = uart_switch b (w_transport w1) clock idle (ub_hw u1) requested
             in (w1, uart_poll_finish u1 restore result hw))"

section \<open>Runs\<close>

datatype uart_event =
    U_session session_call
  | U_request ev_link_ref cstring uart_request u32 bool
  | U_prepare_done cstring bool u32
  | U_commit_done cstring bool
  | U_poll u32 u32 esp_err bool

fun uart_step :: "board \<Rightarrow> world \<times> uart_baud \<Rightarrow> uart_event \<Rightarrow> world \<times> uart_baud" where
  "uart_step b (w, u) (U_session call) = (run_call b w call, u)"
| "uart_step b (w, u) (U_request link sid rq now sent) =
     (w, snd (ev_control_send_uart_baud (ev_transport_uart_baudrate b (ub_hw u)) u link sid rq now sent))"
| "uart_step b (w, u) (U_prepare_done tok ok now) = (w, uart_prepare_done u tok ok now)"
| "uart_step b (w, u) (U_commit_done tok ok) = (w, uart_commit_done u tok ok)"
| "uart_step b (w, u) (U_poll timer now clock idle) =
     ev_control_transport_uart_baud_poll b timer now clock idle w u"

definition uart_reset :: uart_baud where
  "uart_reset = \<lparr>ub_state = zero_baud, ub_link = zero_link, ub_session = [], ub_paused = False,
     ub_hw = EV_UART_BAUD_BASELINE\<rparr>"

definition uart_inv :: "uart_baud \<Rightarrow> bool" where
  "uart_inv u \<longleftrightarrow>
     (let s = ub_state u in
        (bd_phase s \<in> {EV_UART_BAUD_IDLE, EV_UART_BAUD_ACTIVE} \<longrightarrow> \<not> ub_paused u) \<and>
        (bd_phase s \<in> {EV_UART_BAUD_PREPARE_ACK, EV_UART_BAUD_WAIT_SWITCH, EV_UART_BAUD_PROBING,
           EV_UART_BAUD_COMMIT_ACK} \<longrightarrow> ub_paused u) \<and>
        (bd_phase s = EV_UART_BAUD_IDLE \<longrightarrow> ub_hw u = EV_UART_BAUD_BASELINE) \<and>
        (bd_phase s \<in> {EV_UART_BAUD_PROBING, EV_UART_BAUD_COMMIT_ACK, EV_UART_BAUD_ACTIVE} \<longrightarrow>
           ub_hw u = bd_requested s) \<and>
        (bd_phase s \<in> {EV_UART_BAUD_COMMIT_ACK, EV_UART_BAUD_ACTIVE} \<longrightarrow> bd_probed s) \<and>
        (bd_phase s \<noteq> EV_UART_BAUD_IDLE \<longrightarrow> ev_uart_baud_candidate (bd_requested s)) \<and>
        ev_uart_baud_candidate (ub_hw u))"

lemma uart_reset_inv: "uart_inv uart_reset"
  by (simp add: uart_inv_def uart_reset_def zero_baud_def ev_uart_baud_candidate_def)

lemma uart_switch_cases:
  "fst (uart_switch b t clock idle hw baud) = ESP_OK \<Longrightarrow>
     snd (uart_switch b t clock idle hw baud) = baud \<and> ev_uart_baud_candidate baud"
  "fst (uart_switch b t clock idle hw baud) \<noteq> ESP_OK \<Longrightarrow>
     snd (uart_switch b t clock idle hw baud) = hw"
  by (auto simp: uart_switch_def ev_transport_uart_set_baudrate_def uart_stdout_set_baudrate_def
      Let_def split: if_splits)

lemma request_inv: "uart_inv u \<Longrightarrow> uart_inv (snd (snd (uart_request_locked u link sid rq now)))"
  by (cases rq; cases "bd_phase (ub_state u)")
    (auto simp: uart_request_locked_def ev_uart_baud_prepare_def ev_uart_baud_commit_def
      ev_uart_baud_matches_def Let_def uart_inv_def)

lemma restore_inv: "uart_inv u \<Longrightarrow> bd_phase (ub_state u) \<noteq> EV_UART_BAUD_IDLE \<Longrightarrow>
    uart_inv (u\<lparr>ub_state := (ub_state u)\<lparr>bd_phase := EV_UART_BAUD_RESTORE\<rparr>\<rparr>)"
  by (simp add: uart_inv_def Let_def)

lemma accepted_not_idle:
  assumes "fst (uart_request_locked u link sid rq now)"
  shows "bd_phase (ub_state (snd (snd (uart_request_locked u link sid rq now)))) \<noteq> EV_UART_BAUD_IDLE"
  using assms
  by (cases rq) (auto simp: uart_request_locked_def ev_uart_baud_prepare_def
      ev_uart_baud_commit_def ev_uart_baud_matches_def Let_def split: if_splits)

lemma send_inv:
  assumes "uart_inv u"
  shows "uart_inv (snd (ev_control_send_uart_baud cur u link sid rq now sent))"
proof -
  obtain ok baud u1 where r: "uart_request_locked u link sid rq now = (ok, baud, u1)"
    by (metis surj_pair)
  with request_inv [OF assms, of link sid rq now] have u1: "uart_inv u1" by simp
  moreover have "ok \<Longrightarrow> bd_phase (ub_state u1) \<noteq> EV_UART_BAUD_IDLE"
    using accepted_not_idle [of u link sid rq now] r by simp
  ultimately show ?thesis using assms restore_inv [OF u1]
    by (simp add: ev_control_send_uart_baud_def r)
qed

lemma done_inv:
  "uart_inv u \<Longrightarrow> uart_inv (uart_prepare_done u tok ok now)"
  "uart_inv u \<Longrightarrow> uart_inv (uart_commit_done u tok ok)"
  by (auto simp: uart_inv_def uart_prepare_done_def ev_uart_baud_prepare_complete_def
      uart_commit_done_def ev_uart_baud_commit_complete_def Let_def)

text \<open>The completions leave the phases that the poll's second section examines.\<close>

lemma completions_keep_switch_phases:
  "bd_phase (ub_state u) \<in> {EV_UART_BAUD_RESTORE, EV_UART_BAUD_WAIT_SWITCH} \<Longrightarrow>
   uart_prepare_done u tok ok now = u \<and> uart_commit_done u tok ok = u"
  by (auto simp: uart_prepare_done_def ev_uart_baud_prepare_complete_def uart_commit_done_def
      ev_uart_baud_commit_complete_def Let_def)

lemma phase_upd_same: "bd_phase s = p \<Longrightarrow> s\<lparr>bd_phase := p\<rparr> = s"
  by (cases s) simp

lemma decide_eq:
  assumes "uart_poll_decide u same now = (restore, due, u1)"
  shows "restore \<longleftrightarrow> \<not> same \<or> ev_uart_baud_expired (ub_state u) now \<or>
      bd_phase (ub_state u) = EV_UART_BAUD_RESTORE"
    and "due \<longleftrightarrow> \<not> restore \<and> ev_uart_baud_switch_due (ub_state u) now"
    and "u1 = (if restore
      then u\<lparr>ub_state := (ub_state u)\<lparr>bd_phase := EV_UART_BAUD_RESTORE\<rparr>, ub_paused := True\<rparr> else u)"
  using assms
  by (cases "\<not> same \<or> ev_uart_baud_expired (ub_state u) now";
      cases "bd_phase (ub_state u) = EV_UART_BAUD_RESTORE";
      force simp: uart_poll_decide_def Let_def ev_uart_baud_switch_due_def phase_upd_same)+

lemma finish_restore_inv:
  "uart_inv u \<Longrightarrow> bd_phase (ub_state u) = EV_UART_BAUD_RESTORE \<Longrightarrow>
   (result = ESP_OK \<Longrightarrow> hw = EV_UART_BAUD_BASELINE) \<Longrightarrow>
   uart_inv (uart_poll_finish u True result hw)"
  by (auto simp: uart_poll_finish_def uart_inv_def Let_def zero_baud_def ev_uart_baud_candidate_def)

lemma finish_switch_inv:
  "uart_inv u \<Longrightarrow> bd_phase (ub_state u) = EV_UART_BAUD_WAIT_SWITCH \<Longrightarrow>
   (result = ESP_OK \<Longrightarrow> hw = bd_requested (ub_state u)) \<Longrightarrow>
   uart_inv (uart_poll_finish u False result hw)"
  by (auto simp: uart_poll_finish_def uart_inv_def Let_def)

lemma poll_eq:
  assumes "bd_phase (ub_state u) \<noteq> EV_UART_BAUD_IDLE"
    and "uart_poll_decide u (uart_same_owner (w_session w) timer u) now = (restore, due, u1)"
  shows "ev_control_transport_uart_baud_poll b timer now clock idle w u =
    (if \<not> restore \<and> \<not> due then (w, u1)
     else
       let w1 = (if restore \<and> uart_same_owner (w_session w) timer u
                 then snd (ev_session_link_lost b timer w (Some (ub_link u))
                             EV_SESSION_CHANGE_LINK_LOST)
                 else w);
           sw = uart_switch b (w_transport w1) clock idle (ub_hw u1)
                  (if restore then EV_UART_BAUD_BASELINE else bd_requested (ub_state u1))
       in (w1, uart_poll_finish u1 restore (fst sw) (snd sw)))"
  using assms(1) by (simp add: ev_control_transport_uart_baud_poll_def assms(2) Let_def split_beta)

lemma poll_inv:
  assumes "uart_inv u"
  shows "uart_inv (snd (ev_control_transport_uart_baud_poll b timer now clock idle w u))"
proof (cases "bd_phase (ub_state u) = EV_UART_BAUD_IDLE")
  case True
  with assms show ?thesis by (simp add: ev_control_transport_uart_baud_poll_def)
next
  case False
  obtain restore due u1
    where d: "uart_poll_decide u (uart_same_owner (w_session w) timer u) now = (restore, due, u1)"
    by (metis surj_pair)
  note dd = decide_eq [OF d]
  show ?thesis
  proof (cases restore)
    case True
    then have u1: "u1 = u\<lparr>ub_state := (ub_state u)\<lparr>bd_phase := EV_UART_BAUD_RESTORE\<rparr>, ub_paused := True\<rparr>"
      using dd(3) by simp
    have "uart_inv u1" unfolding u1 using assms False by (simp add: uart_inv_def Let_def)
    then show ?thesis unfolding poll_eq [OF False d] using True u1
      by (auto simp: Let_def uart_switch_cases intro!: finish_restore_inv)
  next
    case False
    with dd(3) have u1: "u1 = u" by simp
    show ?thesis
    proof (cases due)
      case True
      then have "bd_phase (ub_state u) = EV_UART_BAUD_WAIT_SWITCH"
        using dd(2) by (simp add: ev_uart_baud_switch_due_def)
      then show ?thesis
        unfolding poll_eq [OF \<open>bd_phase (ub_state u) \<noteq> EV_UART_BAUD_IDLE\<close> d]
        using assms False u1
        by (auto simp: Let_def uart_switch_cases intro!: finish_switch_inv)
    next
      case False
      with \<open>\<not> restore\<close> assms u1 show ?thesis
        unfolding poll_eq [OF \<open>bd_phase (ub_state u) \<noteq> EV_UART_BAUD_IDLE\<close> d] by simp
    qed
  qed
qed

interpretation um: event_machine "uart_step b" "\<lambda>(w, u). uart_inv u" for b
proof
  fix st :: "world \<times> uart_baud" and e
  assume "case st of (w, u) \<Rightarrow> uart_inv u"
  then show "case uart_step b st e of (w, u) \<Rightarrow> uart_inv u"
    using poll_inv by (cases st; cases e) (auto simp: send_inv done_inv split_beta)
qed

text \<open>
  Through every run of requests, completions, polls and session calls from
  power-on, the negotiation is consistent with the hardware: an idle UART runs at 115200 and is
  not paused; while probing, committing or active it runs at the requested speed; from the
  request to the end of the negotiation all other output on the UART is paused; it becomes active
  only after a probe arrived at the new speed; and the speed is always one of the five supported.
\<close>

theorem uart_runs_keep_invariant:
  "uart_inv (snd (foldl (uart_step b) (world_reset b, uart_reset) evs))"
  using um.run_inv [of "(world_reset b, uart_reset)" b evs] uart_reset_inv
  by (simp add: split_beta)

section \<open>Giving up\<close>

text \<open>A board with the UART, its write lock created and the transmitter idle.\<close>

definition uart_quiet :: "board \<Rightarrow> transport \<Rightarrow> bool" where
  "uart_quiet b t \<longleftrightarrow> hw_uart_repl b \<and> s_serial_io_lock t EV_TRANSPORT_UART"

lemma switch_quiet:
  "uart_quiet b t \<Longrightarrow> ev_uart_baud_candidate x \<Longrightarrow> uart_switch b t ESP_OK True hw x = (ESP_OK, x)"
  by (simp add: uart_switch_def uart_quiet_def ev_transport_uart_set_baudrate_def
      ev_transport_serial_io_take_def uart_stdout_set_baudrate_def)

lemma link_lost_locks [simp]:
  "s_serial_io_lock (w_transport (snd (ev_session_link_lost b timer w l r))) =
     s_serial_io_lock (w_transport w)"
proof -
  have fin: "s_serial_io_lock (w_transport (finish_route_job b w' j)) =
      s_serial_io_lock (w_transport w')" for w' j
    by (auto simp: finish_route_job_def ev_session_apply_route_def ev_session_notify_change_def
        apply_route_commit_def Let_def split_beta ev_transport_set_owner_def split: option.splits)
  show ?thesis
    by (simp add: ev_session_link_lost_def ev_session_clear_owner_def clear_owner_locked_cases
        Let_def fin clear_transport)
qed

lemma same_owner_iff:
  "uart_same_owner ss timer u \<longleftrightarrow> ss_initialized ss \<and> ss_state ss \<noteq> EV_SESSION_FREE \<and>
     ss_owner_link ss = ub_link u \<and> ss_session_id ss = ub_session u"
proof -
  have "ev_control_link_equal (Some x) (Some y) \<longleftrightarrow> x = y" for x y
    by (cases x; cases y) (auto simp: ev_control_link_equal_def)
  then show ?thesis by (auto simp: uart_same_owner_def ev_session_snapshot_def)
qed

lemma link_lost_frees:
  "ss_state (w_session w) \<noteq> EV_SESSION_FREE \<Longrightarrow> ss_owner_link (w_session w) = l \<Longrightarrow>
   ss_state (w_session (snd (ev_session_link_lost b timer w (Some l) r))) = EV_SESSION_FREE"
  by (simp add: ev_session_link_lost_def ev_session_clear_owner_def clear_owner_locked_cases Let_def)

text \<open>
  Property C10: a negotiation that lost its owner, expired or was refused ends at the baseline
  speed. One poll on an idle transmitter brings the UART back to 115200 with nothing paused,
  and the session that negotiated no longer owns the device, so no owner is left at a speed it
  does not know.
\<close>

theorem failed_negotiation_restores_baseline:
  assumes "uart_quiet b (w_transport w)" and "ss_initialized (w_session w)"
    and "bd_phase (ub_state u) \<noteq> EV_UART_BAUD_IDLE"
    and "\<not> uart_same_owner (w_session w) timer u \<or> ev_uart_baud_expired (ub_state u) now \<or>
         bd_phase (ub_state u) = EV_UART_BAUD_RESTORE"
    and "ev_control_transport_uart_baud_poll b timer now ESP_OK True w u = (w', u')"
  shows "bd_phase (ub_state u') = EV_UART_BAUD_IDLE \<and> ub_hw u' = EV_UART_BAUD_BASELINE \<and>
    \<not> ub_paused u' \<and> \<not> uart_same_owner (w_session w') timer u"
proof -
  obtain restore due u1
    where d: "uart_poll_decide u (uart_same_owner (w_session w) timer u) now = (restore, due, u1)"
    by (metis surj_pair)
  have restore using decide_eq(1) [OF d] assms(4) by blast
  moreover have "ev_uart_baud_candidate EV_UART_BAUD_BASELINE"
    by (simp add: ev_uart_baud_candidate_def)
  moreover have "uart_quiet b (w_transport (snd (ev_session_link_lost b timer w l r)))" for l r
    using assms(1) by (simp add: uart_quiet_def)
  ultimately show ?thesis
    using assms(1,2,5) link_lost_frees [of w "ub_link u" b timer] unfolding poll_eq [OF assms(3) d]
    by (auto simp: Let_def switch_quiet uart_poll_finish_def zero_baud_def same_owner_iff
        simp del: uart_consts split: if_splits)
qed

section \<open>Success\<close>

lemma request_prepare:
  assumes "lr_transport_id l = EV_TRANSPORT_UART" and "cur \<noteq> 0"
    and "ev_uart_baud_candidate baud" and "ev_uart_baud_token_valid (Some tok)"
    and "bd_phase (ub_state u) \<in> {EV_UART_BAUD_IDLE, EV_UART_BAUD_ACTIVE}"
  shows "ev_control_send_uart_baud cur u l sid (Uart_prepare tok baud) now True =
    (Uart_ok baud, u\<lparr>ub_state := \<lparr>bd_phase = EV_UART_BAUD_PREPARE_ACK, bd_requested = baud,
        bd_since_ms = now, bd_probed = False, bd_token = tok\<rparr>,
      ub_link := l, ub_session := sid, ub_paused := True\<rparr>)"
  using assms by (auto simp: ev_control_send_uart_baud_def request_valid_def uart_request_locked_def
      ev_uart_baud_prepare_def)

lemma poll_switch:
  assumes "bd_phase (ub_state u) = EV_UART_BAUD_WAIT_SWITCH" and "uart_same_owner (w_session w) tm u"
    and "100 \<le> d" and "d < 5000" and "uart_quiet b (w_transport w)"
    and "ev_uart_baud_candidate (bd_requested (ub_state u))"
  shows "ev_control_transport_uart_baud_poll b tm (bd_since_ms (ub_state u) + of_nat d) ESP_OK True w u =
    (w, u\<lparr>ub_state := (ub_state u)\<lparr>bd_phase := EV_UART_BAUD_PROBING\<rparr>,
          ub_hw := bd_requested (ub_state u)\<rparr>)"
proof -
  let ?now = "bd_since_ms (ub_state u) + of_nat d"
  have due: "ev_uart_baud_switch_due (ub_state u) ?now"
    using assms(1,3,4) elapsed_ge_iff [of d 100 "bd_since_ms (ub_state u)"]
    by (simp add: ev_uart_baud_switch_due_def)
  have live: "\<not> ev_uart_baud_expired (ub_state u) ?now"
    using assms(4) elapsed_ge_iff [of d 5000 "bd_since_ms (ub_state u)"]
    by (simp add: ev_uart_baud_expired_def)
  obtain restore due' u1
    where d: "uart_poll_decide u (uart_same_owner (w_session w) tm u) ?now = (restore, due', u1)"
    by (metis surj_pair)
  have "\<not> restore" "due'" "u1 = u"
    using decide_eq [OF d] assms(1,2) due live by auto
  moreover have "bd_phase (ub_state u) \<noteq> EV_UART_BAUD_IDLE" using assms(1) by simp
  ultimately show ?thesis using assms(1,5,6)
    by (simp add: poll_eq [OF _ d] Let_def switch_quiet uart_poll_finish_def)
qed

text \<open>The events of a client that negotiates and keeps its deadlines.\<close>

definition negotiation ::
  "ev_link_ref \<Rightarrow> cstring \<Rightarrow> cstring \<Rightarrow> u32 \<Rightarrow> cstring \<Rightarrow> u32 \<Rightarrow> nat \<Rightarrow> u32 \<Rightarrow> uart_event list" where
  "negotiation l sid tok baud data t d tm =
     [U_request l sid (Uart_prepare tok baud) t True, U_prepare_done tok True t,
      U_poll tm (t + of_nat d) ESP_OK True,
      U_request l sid (Uart_probe tok data) t True,
      U_request l sid (Uart_commit tok) t True, U_commit_done tok True]"

text \<open>
  A negotiation that keeps its deadlines succeeds: the owner of the UART link
  prepares a supported speed, its acknowledgement is sent, the poll comes between 100 and 5000
  milliseconds later, a probe arrives and the commit is acknowledged; then the UART is active
  at exactly the requested speed, output resumes and the session is untouched.
\<close>

theorem negotiation_succeeds:
  assumes "uart_inv u" and "bd_phase (ub_state u) \<in> {EV_UART_BAUD_IDLE, EV_UART_BAUD_ACTIVE}"
    and "lr_transport_id l = EV_TRANSPORT_UART" and "ss_initialized (w_session w)"
    and "ss_state (w_session w) \<noteq> EV_SESSION_FREE" and "ss_owner_link (w_session w) = l"
    and "ss_session_id (w_session w) = sid" and "uart_quiet b (w_transport w)"
    and "request_valid (Uart_prepare tok baud)" and "request_valid (Uart_probe tok data)"
    and "100 \<le> d" and "d < 5000"
    and "foldl (uart_step b) (w, u) (negotiation l sid tok baud data t d tm) = (w', u')"
  shows "w' = w \<and> bd_phase (ub_state u') = EV_UART_BAUD_ACTIVE \<and> ub_hw u' = baud \<and>
    \<not> ub_paused u' \<and> ub_link u' = l \<and> ub_session u' = sid"
proof -
  have tok: "ev_uart_baud_token_valid (Some tok)" and cand: "ev_uart_baud_candidate baud"
    using assms(9) by (simp_all add: request_valid_def)
  have cur: "ev_transport_uart_baudrate b x \<noteq> 0" if "ev_uart_baud_candidate x" for x
    using that assms(8) by (auto simp: ev_transport_uart_baudrate_def uart_quiet_def
        ev_uart_baud_candidate_def)
  have hw: "ev_uart_baud_candidate (ub_hw u)" using assms(1) by (simp add: uart_inv_def Let_def)
  define u1 where "u1 = u\<lparr>ub_state := \<lparr>bd_phase = EV_UART_BAUD_WAIT_SWITCH, bd_requested = baud,
      bd_since_ms = t, bd_probed = False, bd_token = tok\<rparr>,
    ub_link := l, ub_session := sid, ub_paused := True\<rparr>"
  define u2 where "u2 = u1\<lparr>ub_state := (ub_state u1)\<lparr>bd_phase := EV_UART_BAUD_PROBING\<rparr>, ub_hw := baud\<rparr>"
  have 1: "foldl (uart_step b) (w, u) (take 2 (negotiation l sid tok baud data t d tm)) = (w, u1)"
    using request_prepare [OF assms(3) cur [OF hw] cand tok assms(2), of sid t]
    by (simp add: negotiation_def uart_prepare_done_def ev_uart_baud_prepare_complete_def u1_def)
  have 2: "uart_step b (w, u1) (U_poll tm (t + of_nat d) ESP_OK True) = (w, u2)"
    using poll_switch [of u1 w tm d b] assms(4-8,11,12) cand
    by (simp add: u1_def u2_def same_owner_iff)
  have eq: "ev_control_link_equal (Some l) (Some l)" by (simp add: ev_control_link_equal_def)
  have 3: "foldl (uart_step b) (w, u2) (drop 3 (negotiation l sid tok baud data t d tm)) =
      (w, u2\<lparr>ub_state := (ub_state u2)\<lparr>bd_probed := True, bd_phase := EV_UART_BAUD_ACTIVE\<rparr>,
        ub_paused := False\<rparr>)"
    using assms(3,10) cur [OF cand] eq tok
    by (simp add: negotiation_def u2_def u1_def ev_control_send_uart_baud_def request_valid_def
        uart_request_locked_def ev_uart_baud_matches_def ev_uart_baud_commit_def
        uart_commit_done_def ev_uart_baud_commit_complete_def Let_def)
  have "foldl (uart_step b) (w, u) (negotiation l sid tok baud data t d tm) =
      foldl (uart_step b) (uart_step b (foldl (uart_step b) (w, u)
        (take 2 (negotiation l sid tok baud data t d tm))) (U_poll tm (t + of_nat d) ESP_OK True))
        (drop 3 (negotiation l sid tok baud data t d tm))"
    by (simp add: negotiation_def)
  then show ?thesis using assms(13) unfolding 1 2 3 by (auto simp: u1_def u2_def)
qed

end
