(* ===== verification/Demo.thy ===== *)
theory Demo
  imports SessionRoutes VmOutputProps UartBaud
begin

text \<open>
  A concrete device, and the properties of the registry, router, session and output-scope
  components applied to it: a board with a USB-serial, a UART and a TCP endpoint whose output
  falls back to the USB-serial link.
\<close>

section \<open>The device\<close>

definition demo_board :: board where
  "demo_board = \<lparr>hw_usb_serial_jtag = True, hw_usb_cdc = False, hw_uart_repl = True,
     hw_tcp = True, default_sink = ''usj'', fallback_sink = ''usj''\<rparr>"

definition demo_transport :: transport where
  "demo_transport = snd (ev_transport_init0 demo_board (\<lambda>_. True) transport_reset)"

definition demo_link :: ev_link_ref where
  "demo_link = \<lparr>lr_transport_id = EV_TRANSPORT_UART, lr_slot = 0, lr_generation = 1\<rparr>"

definition demo_nonce :: cstring where
  "demo_nonce = ''0123456789abcdef0123456789abcdef''"

definition demo_free :: world where
  "demo_free = snd (ev_session_init0 demo_board 7
     ((world_reset demo_board)\<lparr>w_transport := demo_transport\<rparr>))"

definition demo_owned :: world where
  "demo_owned = demo_free\<lparr>w_session := (w_session demo_free)\<lparr>ss_state := EV_SESSION_OWNED,
     ss_owner_link := demo_link, ss_session_id := demo_nonce, ss_client_nonce := demo_nonce,
     ss_last_activity_ms := - 1, ss_handshake_complete := True, ss_vm_ready := True,
     ss_input_generation := 2, ss_input_generation_atomic := 2, ss_transition_id := 1\<rparr>\<rparr>"

lemma demo_transport_eq:
  "demo_transport = \<lparr>s_links = (\<lambda>i k. if k = 0 \<and> (i = EV_TRANSPORT_USJ \<or> i = EV_TRANSPORT_UART)
       then \<lparr>ls_generation = 1, ls_open = True\<rparr> else zero_link_state),
     s_supported = (\<lambda>i. i = EV_TRANSPORT_USJ \<or> i = EV_TRANSPORT_UART \<or> i = EV_TRANSPORT_TCP),
     s_transport_ready = True, s_has_owner = False, s_owner = zero_link,
     s_serial_io_lock = (\<lambda>i. i < EV_TRANSPORT_TCP)\<rparr>"
proof -
  have sup: "(if i = EV_TRANSPORT_TCP then True else ev_transport_serial_supported demo_board i) =
      (i = EV_TRANSPORT_USJ \<or> i = EV_TRANSPORT_UART \<or> i = EV_TRANSPORT_TCP)" for i
    by (cases i) (simp_all add: demo_board_def)
  show ?thesis
    by (simp add: demo_transport_def ev_transport_init0_def transport_reset_def Let_def sup
        set_link_def zero_link_state_def fun_eq_iff demo_board_def)
      (auto simp: ev_transport_serial_supported_def fun_eq_iff split: ev_transport_id.splits)
qed

lemma demo_ready: "s_transport_ready demo_transport" "serial_locks_ready demo_transport"
  by (simp_all add: demo_transport_eq serial_locks_ready_def)

lemma demo_link_current [simp]: "ev_transport_link_is_current demo_transport (Some demo_link)"
  by (simp add: link_current_iff demo_transport_eq demo_link_def ev_transport_valid_slot_def)

lemma demo_transport_id: "lr_transport_id demo_link = EV_TRANSPORT_UART"
  by (simp add: demo_link_def)

lemma demo_nonce_ok: "nonce_ok demo_nonce"
  by (simp add: nonce_ok_def demo_nonce_def lower_hex_def less_eq_char_def)

lemma demo_free_simps [simp]:
  "w_transport demo_free = demo_transport"
  "w_session demo_free = session_reset\<lparr>ss_vm_epoch := 7, ss_input_generation := 1,
     ss_input_generation_atomic := 1, ss_initialized := True\<rparr>"
  "w_channel demo_free = channel_reset demo_board"
  by (simp_all add: demo_free_def ev_session_init0_def world_reset_def session_reset_def Let_def
      ev_transport_id_from_name_def ev_transport_name_def demo_board_def
      ev_transport_set_owner_def demo_transport_eq)

lemma demo_owned_simps [simp]:
  "w_transport demo_owned = demo_transport"
  "ss_state (w_session demo_owned) = EV_SESSION_OWNED"
  "ss_owner_link (w_session demo_owned) = demo_link"
  "ss_session_id (w_session demo_owned) = demo_nonce"
  "ss_client_nonce (w_session demo_owned) = demo_nonce"
  "ss_last_activity_ms (w_session demo_owned) = - 1"
  "ss_handshake_complete (w_session demo_owned)"
  "ss_vm_ready (w_session demo_owned)"
  "ss_vm_epoch (w_session demo_owned) = 7"
  "ss_input_generation (w_session demo_owned) = 2"
  "ss_input_generation_atomic (w_session demo_owned) = 2"
  "ss_transition_id (w_session demo_owned) = 1"
  "ss_initialized (w_session demo_owned)"
  by (simp_all add: demo_owned_def session_reset_def)

lemma demo_transport_inv: "transport_inv demo_transport"
  unfolding demo_transport_def by (intro init0_inv inv_reset)

lemma demo_owned_inv: "world_inv demo_owned"
  by (simp add: world_inv_def demo_transport_inv session_inv_def demo_nonce_ok)

lemma demo_id_nonempty [simp]: "demo_nonce \<noteq> []" "[] \<noteq> demo_nonce"
  by (simp_all add: demo_nonce_def)

section \<open>The registry\<close>

theorem transport_refines_live_map_witness:
  "live (transport_step demo_transport (Op_advance (Some demo_link))) =
     live_step (slot_usable demo_transport) (slot_generation demo_transport)
       (live demo_transport) (Op_advance (Some demo_link)) \<and>
   live (transport_step demo_transport (Op_open EV_TRANSPORT_TCP 1)) (EV_TRANSPORT_TCP, 1) = Some 1"
  using transport_refines_live_map [OF demo_ready, of "Op_advance (Some demo_link)"]
    transport_refines_live_map [OF demo_ready, of "Op_open EV_TRANSPORT_TCP 1"]
  by (simp add: live_def slot_usable_def slot_generation_def demo_transport_eq zero_link_state_def
      ev_transport_valid_slot_def ev_transport_next_generation_def)

theorem retired_reference_stays_stale_witness:
  "\<not> ev_transport_link_is_current
      (foldl transport_step (transport_step demo_transport (Op_close demo_board (Some demo_link)))
        [Op_open EV_TRANSPORT_UART 0]) (Some demo_link)"
  by (rule retired_reference_stays_stale [OF demo_ready demo_link_current, where b = demo_board])
    (simp_all add: demo_link_def)

text \<open>Input rings as one list of bytes, and a socket backend that never has data.\<close>

definition demo_ring_get :: "ev_transport_id \<Rightarrow> u8 list \<Rightarrow> int \<times> u8 list" where
  "demo_ring_get i r = (case r of [] \<Rightarrow> (- 1, []) | x # xs \<Rightarrow> (uint x, xs))"

definition demo_tcp_read ::
  "ev_link_ref \<Rightarrow> u8 list \<Rightarrow> nat \<Rightarrow> u8 list \<Rightarrow> ev_io_result \<times> u8 list \<times> u8 list" where
  "demo_tcp_read l buf n r = (ev_transport_result EV_IO_WOULD_BLOCK 0 ESP_OK, buf, r)"

definition demo_tx :: "ev_transport_id \<Rightarrow> u8 list \<Rightarrow> u8 list \<Rightarrow> int \<times> u8 list" where
  "demo_tx i x d = (int (min 2 (length x)), d @ take 2 x)"

definition demo_tcp_write :: "ev_link_ref \<Rightarrow> u8 list \<Rightarrow> u8 list \<Rightarrow> ev_io_result \<times> u8 list" where
  "demo_tcp_write l x d = (ev_transport_result EV_IO_WOULD_BLOCK 0 ESP_OK, d)"

lemma demo_tcp_progress:
  "progress_within n (fst (demo_tcp_read l buf n r))"
  "progress_within n (fst (demo_tcp_write l x d))"
  by (simp_all add: demo_tcp_read_def demo_tcp_write_def progress_within_def)

definition demo_stale :: ev_link_ref where
  "demo_stale = demo_link\<lparr>lr_generation := 9\<rparr>"

lemma demo_stale_stale: "\<not> ev_transport_link_is_current demo_transport (Some demo_stale)"
  by (simp add: link_current_iff demo_transport_eq demo_stale_def demo_link_def)

lemma demo_read:
  "ev_transport_read demo_board demo_ring_get demo_tcp_read demo_transport
      (Some demo_link) (Some [0, 0]) 2 [5, 6, 7] =
     (ev_transport_result EV_IO_PROGRESS 2 ESP_OK, Some [5, 6], [7])"
proof -
  have ref: "ev_transport_ref_matches demo_transport (Some demo_link)"
    using demo_link_current by (simp add: ev_transport_link_is_current_def)
  have ring: "ev_transport_serial_ring_get demo_board demo_ring_get EV_TRANSPORT_UART =
      demo_ring_get EV_TRANSPORT_UART"
    by (simp add: ev_transport_serial_ring_get_def demo_board_def fun_eq_iff)
  have loop: "serial_read_loop (demo_ring_get EV_TRANSPORT_UART) 2 [5, 6, 7] = ([5, 6], [7])"
    unfolding numeral_2_eq_2 by (simp add: demo_ring_get_def)
  show ?thesis by (simp add: ev_transport_read_def ref demo_transport_id ring loop)
qed

theorem transport_read_contract_witness:
  "progress_within 2 (ev_transport_result EV_IO_PROGRESS 2 ESP_OK) \<and>
   ev_transport_read demo_board demo_ring_get demo_tcp_read demo_transport
      (Some demo_link) (Some [0, 0]) 2 [5, 6, 7] =
     (ev_transport_result EV_IO_PROGRESS 2 ESP_OK, Some [5, 6], [7]) \<and>
   ev_transport_read demo_board demo_ring_get demo_tcp_read demo_transport
      (Some demo_stale) (Some [0, 0]) 2 [5, 6, 7] =
     (ev_transport_result EV_IO_CLOSED 0 ESP_ERR_INVALID_STATE, Some [0, 0], [5, 6, 7])"
proof -
  note contract = transport_read_contract [where b = demo_board and tcp_read = demo_tcp_read and t = demo_transport
      and buf = "[0, 0]" and r = "[5, 6, 7]" and capacity = 2 and ring_get = demo_ring_get,
      OF demo_tcp_progress(1)]
  show ?thesis
    using contract [where link = "Some demo_link", THEN conjunct1]
      contract [where link = "Some demo_stale", THEN conjunct2] demo_stale_stale
    by (simp add: demo_read)
qed

lemma demo_write:
  "ev_transport_write demo_board demo_tx demo_tcp_write demo_transport
     (Some demo_link) (Some [1, 2, 3]) d = (ev_transport_result EV_IO_PROGRESS 2 ESP_OK, d @ [1, 2])"
  using demo_link_current
  by (simp add: demo_tx_def ev_transport_write_def demo_board_def ev_transport_link_is_current_def
      demo_link_def ev_transport_serial_io_take_def demo_transport_eq ev_transport_serial_write_def)

lemma demo_tx_bound: "fst (demo_tx i x d) \<le> int (length x)"
  by (simp add: demo_tx_def)

theorem transport_write_contract_witness:
  "progress_within 3 (ev_transport_result EV_IO_PROGRESS 2 ESP_OK) \<and>
   ev_transport_write demo_board demo_tx demo_tcp_write demo_transport
      (Some demo_link) (Some [1, 2, 3]) [] = (ev_transport_result EV_IO_PROGRESS 2 ESP_OK, [1, 2]) \<and>
   snd (ev_transport_write demo_board demo_tx demo_tcp_write demo_transport
      (Some demo_stale) (Some [1, 2, 3]) [8]) = [8]"
proof -
  note contract = transport_write_contract [where b = demo_board and tx_some = demo_tx
      and tcp_write = demo_tcp_write and t = demo_transport
      and x = "[1, 2, 3]", OF demo_tx_bound demo_tcp_progress(2)]
  show ?thesis
    using contract [where link = "Some demo_link" and d = "[]"]
      contract [where link = "Some demo_stale" and d = "[8]", THEN conjunct2]
      demo_stale_stale
    by (simp add: demo_write numeral_3_eq_3)
qed

section \<open>Routing and sessions\<close>

definition demo_channel :: channel where
  "demo_channel = fst (snd (ev_channel_set_owner_link demo_board demo_transport
     (channel_reset demo_board) (Some demo_link)))"

lemma demo_channel_simps [simp]:
  "c_initialized demo_channel" "c_has_owner demo_channel" "c_owner_link demo_channel = demo_link"
  by (simp_all add: demo_channel_def set_owner_link_current)


theorem acquire_is_exclusive_witness:
  "fst (ev_session_acquire demo_board (1, 2, 3, 4) 5 id demo_free (Some demo_link)
      (Some demo_nonce) 5 (Some zero_snapshot)) = EV_SESSION_RESULT_OK"
proof -
  obtain r sn w' where r: "ev_session_acquire demo_board (1, 2, 3, 4) 5 id demo_free
      (Some demo_link) (Some demo_nonce) 5 (Some zero_snapshot) = (r, sn, w')"
    by (metis surj_pair)
  then have "r = EV_SESSION_RESULT_OK"
    using acquire_is_exclusive [OF _ demo_nonce_ok _ r] by (simp add: session_reset_def)
  with r show ?thesis by simp
qed

theorem authorize_exact_witness:
  "fst (ev_session_authorize demo_transport (w_session demo_owned) (Some demo_link)
     (Some demo_nonce) True True 7 100 (Some zero_snapshot)) = EV_SESSION_RESULT_OK \<and>
   fst (ev_session_authorize demo_transport (w_session demo_owned) (Some demo_link)
     (Some demo_nonce) True True 6 100 (Some zero_snapshot)) \<noteq> EV_SESSION_RESULT_OK"
  using authorize_exact [of demo_transport "w_session demo_owned" "Some demo_link"
      "Some demo_nonce" True True 7 100 zero_snapshot]
    authorize_exact [of demo_transport "w_session demo_owned" "Some demo_link"
      "Some demo_nonce" True True 6 100 zero_snapshot]
  by simp

theorem lease_is_exact_witness:
  "ev_session_tick demo_board demo_owned 14998 = (False, demo_owned) \<and>
   fst (ev_session_tick demo_board demo_owned 14999)"
  using lease_is_exact [of demo_owned "- 1" 14999 demo_board]
    lease_is_exact [of demo_owned "- 1" 15000 demo_board]
  by simp

theorem regular_keepalives_hold_the_session_witness:
  "let (w', clock') = foldl (keepalive_period demo_board demo_link demo_nonce) (demo_owned, - 1)
      [14999, 3, 14999]
   in ss_state (w_session w') = EV_SESSION_OWNED \<and> ss_owner_link (w_session w') = demo_link \<and>
      ss_session_id (w_session w') = demo_nonce \<and> ss_last_activity_ms (w_session w') = clock'"
  by (rule regular_keepalives_hold_the_session) simp_all

theorem lost_serial_owner_cannot_reclaim_witness:
  "ev_session_acquire demo_board (1, 2, 3, 4) 5 id
     (snd (ev_session_clear_owner demo_board 5 demo_owned (Some demo_link)
       EV_SESSION_CHANGE_LINK_LOST False None))
     (Some demo_link) (Some demo_nonce) 5 (Some zero_snapshot) =
   (EV_SESSION_RESULT_STALE_LINK, Some zero_snapshot,
     snd (ev_session_clear_owner demo_board 5 demo_owned (Some demo_link)
       EV_SESSION_CHANGE_LINK_LOST False None))"
  by (rule lost_serial_owner_cannot_reclaim [where w = demo_owned and tm = 5 and rr = False
        and sid = None and reason = EV_SESSION_CHANGE_LINK_LOST])
    (simp_all add: demo_ready demo_nonce_ok serial_rotates_def demo_transport_id
      ev_session_clear_owner_def clear_owner_locked_cases Let_def prod_eq_iff)

theorem owner_change_changes_input_generation_witness:
  "ev_session_input_generation (w_session (run_call demo_board demo_owned Call_vm_epoch_advance))
     \<noteq> ev_session_input_generation (w_session demo_owned)"
  by (rule owner_change_changes_input_generation [OF demo_owned_inv _ refl])
    (simp_all add: ev_session_vm_epoch_advance_def Let_def ev_session_next_counter_def)

text \<open>
  An acquisition whose route is applied by another task later: the four critical sections.
\<close>

definition demo_rnd :: "u32 \<times> u32 \<times> u32 \<times> u32" where
  "demo_rnd = (1, 2, 3, 4)"

definition demo_taken :: session where
  "demo_taken = snd (acquire_locked demo_rnd (w_session demo_free) demo_link demo_nonce 5)"

definition demo_snap :: ev_session_snapshot_t where
  "demo_snap = ev_session_snapshot_locked demo_taken 5"

definition demo_settled :: sys where
  "demo_settled = \<lparr>y_world = commit_job demo_board (demo_free\<lparr>w_session := demo_taken\<rparr>)
     (acquire_job demo_snap), y_pending = [], y_applying = None\<rparr>"

lemma demo_acquire:
  "acquire_locked demo_rnd (w_session demo_free) demo_link demo_nonce 5 =
     ((EV_SESSION_RESULT_OK, True, Some demo_snap), demo_taken)"
  by (simp add: demo_snap_def demo_taken_def acquire_locked_def Let_def session_reset_def)

lemma demo_taken_simps [simp]:
  "ss_state demo_taken = EV_SESSION_OWNED" "ss_owner_link demo_taken = demo_link"
  by (simp_all add: demo_taken_def acquire_locked_def Let_def session_reset_def)

lemma demo_start: "sys_start demo_board (\<lambda>_. True) 7 =
    \<lparr>y_world = demo_free, y_pending = [], y_applying = None\<rparr>"
  by (simp add: sys_start_def demo_free_def demo_transport_def)

lemma demo_settled_reachable: "sys_reachable demo_board demo_settled"
proof -
  let ?w = "demo_free\<lparr>w_session := demo_taken\<rparr>"
  have start: "sys_reachable demo_board \<lparr>y_world = demo_free, y_pending = [], y_applying = None\<rparr>"
    using sys_reachable.start [of demo_board "\<lambda>_. True" 7] by (simp add: demo_start)
  have "sys_reachable demo_board
      \<lparr>y_world = ?w, y_pending = [Recheck demo_link demo_snap True], y_applying = None\<rparr>"
    using sys_reachable.step [OF start sys_step.acquire [OF demo_nonce_ok, of demo_rnd]]
      demo_acquire by simp
  from sys_reachable.step [OF this sys_step.recheck_ok [where xs = "[]" and ys = "[]"]]
  have "sys_reachable demo_board
      \<lparr>y_world = ?w, y_pending = [Route (acquire_job demo_snap)], y_applying = None\<rparr>"
    by simp
  from sys_reachable.step [OF this sys_step.check_pass [where xs = "[]" and ys = "[]"]]
  have "sys_reachable demo_board
      \<lparr>y_world = ?w, y_pending = [], y_applying = Some (acquire_job demo_snap)\<rparr>"
    by (simp add: acquire_job_def demo_snap_def)
  from sys_reachable.step [OF this sys_step.commit]
  show ?thesis by (simp add: demo_settled_def)
qed

lemma demo_settled_session [simp]: "w_session (y_world demo_settled) = demo_taken"
  "w_transport (y_world demo_settled) = ev_transport_set_owner demo_transport (Some demo_link)"
  by (simp_all add: demo_settled_def commit_job_def acquire_job_def ev_session_notify_change_def
      apply_route_commit_def Let_def split_beta demo_snap_def)


section \<open>Output origins\<close>

definition demo_origin :: ev_vm_output_origin where
  "demo_origin = \<lparr>or_link = demo_link, or_session_id = demo_nonce, or_vm_epoch = 7,
     or_input_generation = 2, or_transition_id = 1\<rparr>"

definition demo_other :: ev_vm_output_origin where
  "demo_other = demo_origin\<lparr>or_input_generation := 3\<rparr>"

lemma demo_session_id_valid: "ev_vm_output_session_id_valid (Some demo_nonce)"
  using demo_nonce_ok nonce_ok_no_NUL [OF demo_nonce_ok] session_id_valid_iff
  by (simp add: nonce_ok_def)

lemma demo_origin_valid [simp]:
  "ev_vm_output_origin_valid (Some demo_origin)" "ev_vm_output_origin_valid (Some demo_other)"
  by (simp_all add: ev_vm_output_origin_valid_def demo_origin_def demo_other_def demo_link_def
      demo_session_id_valid)

lemma demo_task_inv: "vm_inv vm_task_zero"
  by (simp add: vm_inv_def vm_task_zero_def)

theorem nested_scopes_attribute_output_witness:
  "fst (run_program vm_push vm_pop vm_current
     (Seq Emit (In_scope demo_origin (Seq (In_scope demo_other Emit) Emit))) vm_task_zero) =
   [None, Some demo_other, Some demo_origin]"
proof -
  obtain out v' where run: "run_program vm_push vm_pop vm_current
     (Seq Emit (In_scope demo_origin (Seq (In_scope demo_other Emit) Emit))) vm_task_zero = (out, v')"
    by fastforce
  have "vm_base vm_task_zero = None" "vm_origins vm_task_zero = []"
    by (simp_all add: vm_base_def vm_origins_def vm_task_zero_def)
  with nested_scopes_attribute_output [OF demo_task_inv run]
  have "out = [None, Some demo_other, Some demo_origin]" by simp
  with run show ?thesis by simp
qed

theorem pop_of_wrong_token_changes_nothing_witness:
  "ev_vm_output_scope_pop vm_task_zero (Some (zero_scope\<lparr>sc_active := True\<rparr>)) =
     (Some (zero_scope\<lparr>sc_active := False\<rparr>), vm_task_zero)"
  using pop_of_wrong_token_changes_nothing [OF demo_task_inv, of "zero_scope\<lparr>sc_active := True\<rparr>"]
  by (simp add: vm_tokens_def vm_task_zero_def zero_scope_def)

theorem edited_line_has_one_origin_witness:
  "fst (feed_line (ev_vm_output_repl_read_begin vm_task_zero)
     [Some demo_origin, Some demo_other, None, Some demo_origin]) = [True, False, False, True]"
proof -
  obtain accepted v' where f: "feed_line (ev_vm_output_repl_read_begin vm_task_zero)
     [Some demo_origin, Some demo_other, None, Some demo_origin] = (accepted, v')"
    by fastforce
  have "vt_scope_depth vm_task_zero = 0" by (simp add: vm_task_zero_def)
  moreover have "demo_other \<noteq> demo_origin" by (simp add: demo_other_def demo_origin_def)
  ultimately have "accepted = [True, False, False, True]"
    using edited_line_has_one_origin [OF _ demo_origin_valid(1) f] by simp
  with f show ?thesis by simp
qed

definition demo_running :: vm_task where
  "demo_running = snd (the (vm_push vm_task_zero demo_origin))"

lemma demo_running_scope:
  "vt_scope_depth demo_running \<noteq> 0" "active_origin demo_running = demo_origin"
  by (simp_all add: demo_running_def vm_push_eq Let_def active_origin_def vm_task_zero_def)

lemma demo_origin_current:
  "ev_vm_output_origin_is_current (w_session demo_owned) 3 (Some demo_origin)"
proof -
  have "ev_session_snapshot_locked (w_session demo_owned) 3 = x \<Longrightarrow>
      ev_vm_output_origin_from_session (Some x) (Some zero_origin) = (True, Some demo_origin)" for x
    using demo_origin_valid(1)
    by (auto simp: ev_vm_output_origin_from_session_def demo_origin_def Let_def)
  then show ?thesis
    by (simp add: ev_vm_output_origin_is_current_def ev_session_snapshot_def)
qed

theorem running_command_is_stale_after_owner_change_witness:
  "ev_vm_output_input_origin_stale
     (w_session (run_call demo_board demo_owned
       (Call_link_lost 3 (Some demo_link) EV_SESSION_CHANGE_LINK_LOST))) demo_running"
  by (rule running_command_is_stale_after_owner_change [OF demo_owned_inv _ refl
        demo_running_scope(1), where timer = 3])
    (simp_all add: demo_running_scope demo_origin_current ev_session_link_lost_def
      ev_session_clear_owner_def clear_owner_locked_cases Let_def)

section \<open>The UART negotiation\<close>

lemma demo_quiet: "uart_quiet demo_board demo_transport"
  by (simp add: uart_quiet_def demo_board_def demo_transport_eq)

definition demo_probing :: uart_baud where
  "demo_probing = uart_reset\<lparr>ub_state := \<lparr>bd_phase = EV_UART_BAUD_PROBING, bd_requested = 921600,
     bd_since_ms = 0, bd_probed = False, bd_token = ''t''\<rparr>, ub_link := demo_link,
     ub_session := demo_nonce, ub_paused := True, ub_hw := 921600\<rparr>"

theorem failed_negotiation_restores_baseline_witness:
  "case ev_control_transport_uart_baud_poll demo_board 6000 6000 ESP_OK True demo_owned demo_probing of
     (w', u') \<Rightarrow> bd_phase (ub_state u') = EV_UART_BAUD_IDLE \<and> ub_hw u' = 115200 \<and>
       \<not> ub_paused u' \<and> \<not> uart_same_owner (w_session w') 6000 demo_probing"
proof -
  obtain w' u' where r: "ev_control_transport_uart_baud_poll demo_board 6000 6000 ESP_OK True
      demo_owned demo_probing = (w', u')" by fastforce
  have "ev_uart_baud_expired (ub_state demo_probing) 6000"
    by (simp add: ev_uart_baud_expired_def demo_probing_def)
  with failed_negotiation_restores_baseline [OF _ _ _ _ r] demo_quiet
  show ?thesis by (simp add: r) (simp add: demo_probing_def)
qed

theorem negotiation_succeeds_witness:
  "ub_hw (snd (foldl (uart_step demo_board) (demo_owned, uart_reset)
     (negotiation demo_link demo_nonce ''t1'' 2000000 ''abc'' 7 100 9))) = 2000000"
proof -
  obtain w' u' where r: "foldl (uart_step demo_board) (demo_owned, uart_reset)
     (negotiation demo_link demo_nonce ''t1'' 2000000 ''abc'' 7 100 9) = (w', u')" by fastforce
  have "request_valid (Uart_prepare ''t1'' 2000000)" "request_valid (Uart_probe ''t1'' ''abc'')"
    by (simp_all add: request_valid_def ev_uart_baud_token_valid_def ev_uart_baud_candidate_def
        token_char_def probe_char_def less_eq_char_def c_at_def)
  with negotiation_succeeds [OF uart_reset_inv _ _ _ _ _ _ _ _ _ _ _ r] demo_quiet
  have "ub_hw u' = 2000000"
    by (simp add: demo_transport_id uart_reset_def zero_baud_def)
  with r show ?thesis by simp
qed

end
