(* ===== verification/MuxDemo.thy ===== *)
theory MuxDemo
  imports Demo MuxSystem
begin

text \<open>
  The transmitter on the concrete device: a frame without payload is submitted for the UART and
  sent by the worker.
\<close>

definition demo_arena :: "u8 list" where
  "demo_arena = replicate 65536 0"

definition demo_options :: ev_mux_submit_options where
  "demo_options =
     \<lparr>op_link = Some demo_link, op_session_id = None, op_vm_epoch = 0, op_tx_class = EV_MUX_TX_CONTROL,
      op_uart_baud_control = False, op_completion = None, op_completion_context = None,
      op_completion_context_len = 0, op_vm_output_origin = None\<rparr>"

definition demo_mux :: mux where
  "demo_mux = mux_start demo_arena"

lemma demo_mux_inv: "worker_inv demo_mux"
  unfolding demo_mux_def by (rule start_worker) (simp add: demo_arena_def)

definition demo_md :: string where
  "demo_md = ''{}''"

lemma demo_md_length [simp]: "length demo_md = 2"
  by (simp add: demo_md_def)

lemma demo_numbers:
  "header_len 2 0 = 29" "encoded_length 2 0 = 32" "ev_mux_frame_timeout 115200 demo_link 32 = 1500"
proof -
  show h: "header_len 2 0 = 29" by (simp add: header_len_def header_text_def decimal.simps HEX8_def)
  then show "encoded_length 2 0 = 32" by (simp add: encoded_length_def)
  show "ev_mux_frame_timeout 115200 demo_link 32 = 1500"
    by (simp add: ev_mux_frame_timeout_def demo_link_def mux_consts Let_def)
qed

definition demo_header :: string where
  "demo_header = header_text 2 0 0"

definition demo_frame :: ev_mux_frame where
  "demo_frame = zero_frame\<lparr>fr_used := True, fr_link := demo_link, fr_priority := EV_MUX_TX_CONTROL,
     fr_metadata := demo_md, fr_total_len := 32, fr_enqueue_ms := 1000, fr_enqueue_order := 1,
     fr_frame_timeout_ms := 1500, fr_payload_crc_state := 0xFFFFFFFF, fr_header_ready := True,
     fr_header := demo_header\<rparr>"

definition demo_queue :: ev_mux_target_queue where
  "demo_queue = (bound_queue 2)\<lparr>tq_frames := (tq_frames (bound_queue 2))[0 := demo_frame],
     tq_bytes_used := 32, tq_frames_used := 1\<rparr>"

definition demo_queued :: mux where
  "demo_queued = set_target 2 demo_queue (demo_mux\<lparr>mx_tx_enqueue_order := 1\<rparr>)"

lemma demo_header_length: "length demo_header = 29"
  using demo_numbers(1) by (simp add: demo_header_def header_len_def)

lemma demo_prepare:
  "ev_mux_prepare_frame demo_transport 115200 1000 0 f0 (Some demo_options) demo_md 2 0 32 0 =
     (True, demo_frame\<lparr>fr_used := False\<rparr>, 1)"
  using demo_header_length demo_numbers(3)
  by (simp add: ev_mux_prepare_frame_def ev_mux_copy_options_def demo_options_def mux_consts Let_def
      ev_mux_build_header_def demo_header_def [symmetric] demo_frame_def zero_frame_def
      EV_MUX_TX_CONTROL_def EV_MUX_TX_PREVIEW_def)

lemma demo_mux_start:
  "mx_targets demo_mux ! 2 = bound_queue 2" "length (mx_targets demo_mux) = 6" "mx_tcp_arena demo_mux = Some 49152" "mx_tx_enqueue_order demo_mux = 0"
  "mx_slab demo_mux = demo_arena"
  by (simp_all add: demo_mux_def start_sel numeral_2_eq_2)
    (simp_all add: mux_start_def ev_mux_target_queues_bind_def mux_zero_def EV_MUX_SERIAL_TARGETS_def EV_MUX_QUEUE_BYTES_def)

lemma demo_accepted:
  "ev_mux_submit_link True demo_transport 115200 1000 True demo_mux (Some demo_options) (Some demo_md)
     (Some []) 0 None = (ESP_OK, None, demo_queued)"
proof -
  have t: "ev_mux_target_index (Some demo_link) = Some 2"
    by (simp add: ev_mux_target_index_def demo_link_def)
  have a: "queue_admits (bound_queue 2) EV_MUX_TX_CONTROL 32"
    by (simp add: queue_admits_def bound_queue_def zero_queue_def mux_consts EV_MUX_TX_CONTROL_def EV_MUX_TX_REPL_def)
  have s: "ev_mux_free_frame_slot (bound_queue 2) = Some 0"
    by (simp add: ev_mux_free_frame_slot_def bound_queue_def zero_queue_def EV_MUX_QUEUE_FRAMES_def upt_rec)
  have "take_blocks xs 0 bm = ([], bm)" for xs bm by (cases xs) simp_all
  then have alloc: "allocate_from bm 0 = (Some ([], bm), bm)" for bm by (simp add: allocate_from_def)
  have tcp: "\<not> ev_mux_queue_is_tcp (demo_mux\<lparr>mx_tx_enqueue_order := k\<rparr>) (bound_queue 2)" for k
    by (simp add: ev_mux_queue_is_tcp_def demo_mux_start bound_queue_def EV_MUX_SERIAL_TARGETS_def EV_MUX_QUEUE_BYTES_def)
  let ?f = "demo_frame\<lparr>fr_used := False\<rparr>" and ?m = "demo_mux\<lparr>mx_tx_enqueue_order := 1\<rparr>"
  have bn: "blocks_needed 0 = 0" by (simp add: blocks_needed_def mux_consts)
  have "?f\<lparr>fr_blocks := []\<rparr> = ?f" by (simp add: demo_frame_def zero_frame_def)
  then have al: "ev_mux_allocate_blocks ?m (bound_queue 2) ?f 0 = (True, ?f, bound_queue 2, ?m)"
    using tcp [of 1] by (simp add: ev_mux_allocate_blocks_def bn alloc Let_def)
  have f: "?f\<lparr>fr_frame_timeout_ms := 1500, fr_used := True\<rparr> = demo_frame" by (simp add: demo_frame_def)
  have b: "tq_bytes_used (bound_queue 2) = 0" "tq_frames_used (bound_queue 2) = 0"
    by (simp_all add: bound_queue_def zero_queue_def)
  have "enqueue_frame demo_transport 115200 1000 demo_mux demo_options demo_md 2 [] 0 True 2 0 32 1500 = (ESP_OK, demo_queued)"
    using tcp [of 1] f
    by (simp add: enqueue_frame_def demo_mux_start demo_prepare Let_def al b demo_queued_def demo_queue_def)
  then have "ev_mux_enqueue_normal demo_transport 115200 1000 True demo_mux demo_options demo_md 2 [] 0 True = (ESP_OK, demo_queued)"
    using t a s demo_numbers
    by (simp add: ev_mux_enqueue_normal_def Let_def demo_mux_start(1) mux_consts demo_options_def)
  then show ?thesis by (simp add: ev_mux_submit_link_def mux_consts)
qed

section \<open>A turn\<close>

definition demo_env :: "u8 list tx_env" where
  "demo_env =
     \<lparr>te_board = demo_board, te_choose_ms = 1000, te_expire_ms = 1000, te_now_ms = 1000, te_progress_ms = 1000,
      te_session_ms = 1000, te_baud = 115200, te_special_free = False, te_queue_free = True,
      te_cancel_special = True, te_cancel_locks = (\<lambda>_. True), te_tx_some = demo_tx,
      te_tcp_write = demo_tcp_write, te_tcp_writev = (\<lambda>l vs. demo_tcp_write l (concat vs))\<rparr>"

lemma demo_queued_inv: "worker_inv demo_queued"
  using submit_worker [OF demo_mux_inv, of True demo_transport 115200 1000 True "Some demo_options" "Some demo_md"
      "Some []" 0 None] by (simp add: demo_accepted)

lemma demo_get:
  "i < 8 \<Longrightarrow> get_frame demo_queued 2 (In_queue i) = (if i = 0 then demo_frame else zero_frame)"
  by (simp add: get_frame_def demo_queued_def set_target_def demo_mux_start demo_queue_def bound_queue_def zero_queue_def
      EV_MUX_QUEUE_FRAMES_def nth_list_update)

lemma demo_partial: "mx_special_partial demo_queued ! 2 = None"
  by (simp add: demo_queued_def demo_mux_def start_sel set_target_def)

lemma demo_choice: "ev_mux_choose_frame_locked 1000 demo_queued 2 False = Some (In_queue 0)"
proof -
  have refs: "queue_refs = map In_queue [0, 1, 2, 3, 4, 5, 6, 7]"
    by (simp add: queue_refs_def EV_MUX_QUEUE_FRAMES_def upt_rec)
  have f: "fr_used demo_frame" "fr_tx_offset demo_frame = 0" "fr_enqueue_ms demo_frame = 1000"
    "fr_priority demo_frame = EV_MUX_TX_CONTROL"
    by (simp_all add: demo_frame_def zero_frame_def)
  have p: "frame_present demo_queued 2 (In_queue i) \<longleftrightarrow> i = 0" if "i < 8" for i
    using that f(1) by (simp add: frame_present_def demo_get zero_frame_def)
  have paused: "\<not> mx_uart_paused demo_queued"
    by (simp add: demo_queued_def demo_mux_def mux_start_def set_target_def ev_mux_target_queues_bind_def mux_zero_def)
  have c: "frame_candidate 1000 demo_queued 2 (In_queue i) \<longleftrightarrow> i = 0" if "i < 8" for i
    using that p [OF that] f paused
    by (auto simp: frame_candidate_def demo_get ev_mux_uart_frame_paused_def queue_expired_def mux_consts)
  have "fold (better 1000 demo_queued 2) queue_refs (100, 0, None) = (EV_MUX_TX_CONTROL, 1, Some (In_queue 0))"
  proof -
    have k: "better 1000 demo_queued 2 (In_queue i) best = best" if "0 < i" "i < 8" for i best
      using that c by (simp add: better_def Let_def split: prod.split)
    have "fr_used demo_frame" "fr_enqueue_order demo_frame = 1" by (simp_all add: demo_frame_def)
    then have "better 1000 demo_queued 2 (In_queue 0) (100, 0, None) = (EV_MUX_TX_CONTROL, 1, Some (In_queue 0))"
      using c [of 0] f by (simp add: better_def Let_def demo_get ev_mux_candidate_priority_def EV_MUX_TX_CONTROL_def)
    then show ?thesis using k by (simp add: refs)
  qed
  moreover have "find (frame_started demo_queued 2) queue_refs = None"
    by (simp add: refs frame_started_def p demo_get f zero_frame_def)
  ultimately show ?thesis using demo_partial by (simp add: ev_mux_choose_frame_locked_def Let_def)
qed

lemma demo_paused: "\<not> mx_uart_paused demo_queued"
  by (simp add: demo_queued_def demo_mux_def mux_start_def set_target_def ev_mux_target_queues_bind_def mux_zero_def)

lemma demo_sent: "snd (snd (tx_chosen demo_env demo_queued demo_transport (w_session demo_free) 2 (In_queue 0) [])) \<noteq> []"
proof -
  let ?r = "In_queue 0"
  have f: "fr_used demo_frame" "fr_tx_offset demo_frame = 0" "fr_enqueue_ms demo_frame = 1000"
    "fr_link demo_frame = demo_link" "fr_session_id demo_frame = []" "fr_vm_epoch demo_frame = 0"
    "\<not> fr_preview_observer demo_frame" "fr_header_ready demo_frame" "\<not> fr_attempted demo_frame"
    "fr_header demo_frame = demo_header" "fr_total_len demo_frame = 32"
    by (simp_all add: demo_frame_def zero_frame_def)
  have p: "valid_ref ?r" "frame_present demo_queued 2 ?r"
    using f(1) by (simp_all add: valid_ref_def frame_present_def demo_get)
  have wf: "mux_wf demo_queued" using demo_queued_inv by (simp add: worker_inv_def tx_inv_def)
  have g: "get_frame demo_queued 2 ?r = demo_frame" by (simp add: demo_get)
  note sf = set_frame_changed [OF wf _ p, of demo_frame, unfolded g]
  define m1 where "m1 = set_frame 2 ?r demo_frame demo_queued"
  have acc: "same_account demo_frame demo_frame" by (simp add: same_account_def)
  have m1: "mux_wf m1" "get_frame m1 2 ?r = demo_frame" "frame_present m1 2 ?r"
    using sf [OF _ acc] changed_present(1) [OF _ _ p, of demo_frame m1] by (simp_all add: m1_def changed_def g)
  define h where "h = demo_frame\<lparr>fr_frame_timeout_ms := 1500\<rparr>"
  define m2 where "m2 = set_frame 2 ?r h m1"
  have h: "same_account demo_frame h" "same_bytes demo_frame h" "fr_header_ready h" "\<not> fr_attempted h"
      "fr_frame_timeout_ms h = 1500" "fr_link h = demo_link"
    by (simp_all add: h_def same_account_def same_bytes_def same_content_def f)
  note s2 = set_frame_changed [OF m1(1) _ p(1) m1(3), of h, unfolded m1(2), OF _ h(1), folded m2_def]
  have m2: "mux_wf m2" "get_frame m2 2 ?r = h" "frame_present m2 2 ?r"
    using s2 changed_present(1) [OF s2(1) _ p(1) m1(3)] by (simp_all add: changed_def m1(2) h(6) f)
  have auth: "ev_mux_frame_authorized demo_transport (w_session demo_free) 1000 demo_queued demo_frame = EV_MUX_FRAME_ALLOWED"
    using demo_paused by (simp add: ev_mux_frame_authorized_def f)
  have "tx_chosen demo_env demo_queued demo_transport (w_session demo_free) 2 ?r [] =
      tx_attempt demo_env m2 demo_transport 2 ?r []"
    using auth h(4,5) demo_numbers(3)
    by (simp add: tx_chosen_def g f demo_env_def queue_expired_def mux_consts ev_mux_frame_crc_step_def
        m1_def m2_def h_def deadline_passed_def demo_transport_id Let_def)
  moreover obtain oc m' d' where a: "tx_attempt demo_env m2 demo_transport 2 ?r [] = (oc, m', d')" using prod_cases3 by blast
  ultimately have d: "snd (snd (tx_chosen demo_env demo_queued demo_transport (w_session demo_free) 2 ?r [])) = d'" by simp
  obtain io offered where w: "tx_write demo_env m2 demo_transport 2 ?r [] = (io, offered, d')"
    using tx_attempt_spec [OF m2(1) _ p(1) m2(3) a] h(3) m2(2) by auto
  have "tx_write demo_env m2 demo_transport 2 ?r [] = tx_write demo_env demo_queued demo_transport 2 ?r []"
    using write_cong [OF m1(1) _ p(1) m1(3), of h demo_env demo_transport "[]"]
      write_cong [OF wf _ p, of demo_frame demo_env demo_transport "[]"] h(1,2) acc
    by (simp add: m2_def m1_def [symmetric] m1(2) g) (simp add: m1_def same_bytes_def same_content_def)
  then have "tx_write demo_env demo_queued demo_transport 2 ?r [] = (io, offered, d')" using w by simp
  moreover have "segment_of demo_queued 2 ?r 0 = bytes_of demo_header"
    using demo_header_length by (simp add: segment_of_def ev_mux_frame_segment_def g f)
  moreover have driver: "snd (ev_transport_write demo_board demo_tx demo_tcp_write demo_transport (Some demo_link) (Some x) []) = take 2 x"
    if "x \<noteq> []" for x
    using that demo_link_current
    by (simp add: demo_tx_def ev_transport_write_def demo_board_def ev_transport_link_is_current_def
        demo_link_def ev_transport_serial_io_take_def demo_transport_eq ev_transport_serial_write_def)
  moreover have "bytes_of demo_header \<noteq> []" using demo_header_length by (auto simp: bytes_of_def)
  ultimately have "ev_transport_write demo_board demo_tx demo_tcp_write demo_transport (Some demo_link)
      (Some (take 4096 (bytes_of demo_header))) [] = (io, d')" "take 4096 (bytes_of demo_header) \<noteq> []"
    by (auto simp: tx_write_def g f demo_env_def demo_transport_id EV_MUX_WRITE_CHUNK_BYTES_def split: prod.splits)
  then have "d' = take 2 (take 4096 (bytes_of demo_header))" using driver by (metis snd_conv)
  then show ?thesis using \<open>bytes_of demo_header \<noteq> []\<close> unfolding d by simp
qed

section \<open>The properties\<close>

lemma accepted_submission_is_stored_witness:
  "\<exists>ti i f. entered demo_mux demo_queued ti i f demo_md [] \<and> fr_link f = demo_link"
  using accepted_submission_is_stored [OF demo_mux_inv demo_accepted] by (auto simp: demo_options_def)

lemma turn_sends_the_next_bytes_witness:
  "case ev_mux_process_target demo_env 2 (demo_queued, demo_free, []) of (calls, m', w', d') \<Rightarrow>
     \<exists>r. frame_present demo_queued 2 r \<and>
       ev_mux_frame_authorized demo_transport (w_session demo_free) 1000 demo_queued (get_frame demo_queued 2 r) =
         EV_MUX_FRAME_ALLOWED \<and> d' \<noteq> []"
proof -
  obtain calls m' w' d' where run: "ev_mux_process_target demo_env 2 (demo_queued, demo_free, []) = (calls, m', w', d')"
    using prod_cases4 by blast
  have e: "te_queue_free demo_env" "te_choose_ms demo_env = 1000" "\<not> te_special_free demo_env" "te_session_ms demo_env = 1000"
    by (simp_all add: demo_env_def)
  have "d' \<noteq> []" using run demo_sent
    by (auto simp: ev_mux_process_target_def e demo_choice Let_def split: prod.splits)
  from turn_sends_the_next_bytes [OF demo_queued_inv _ run this] this show ?thesis
    by (auto simp: run e Let_def)
qed

end
