(* ===== verification/MuxStreamDemo.thy ===== *)
theory MuxStreamDemo
  imports MuxStreamProps MuxDemo
begin

text \<open>
  The stream interface on the concrete device: a command that runs for the owner prints two
  characters, which are staged.
\<close>

definition demo_stream_env :: "u8 list stream_env" where
  "demo_stream_env =
     \<lparr>sv_ready = (\<lambda>_. True), sv_board = demo_board, sv_baud = (\<lambda>_. 115200), sv_malloc = (\<lambda>_ _. None),
      sv_queue_lock = (\<lambda>_. True), sv_special_lock = (\<lambda>_. True), sv_stage_lock = (\<lambda>_. True),
      sv_producer_lock = (\<lambda>_. True), sv_tx = (\<lambda>_. demo_env), sv_others = (\<lambda>r. r),
      sv_delay = (\<lambda>r. r\<lparr>sm_now := sm_now r + 1\<rparr>)\<rparr>"

definition demo_stream :: "u8 list stream" where
  "demo_stream = \<lparr>sm_mux = demo_mux, sm_world = demo_owned, sm_drivers = [], sm_stage = zero_stage,
     sm_cancelled_epoch = 0, sm_now = 3\<rparr>"

lemma demo_stream_laws: "stream_laws demo_stream_env"
  by (simp add: stream_laws_def passes_def demo_stream_env_def)

definition quote :: "string \<Rightarrow> string" where "quote s = [CHR 0x22] @ s @ [CHR 0x22]"

definition demo_repl_md :: string where
  "demo_repl_md = ''{'' @ quote ''channel'' @ '':'' @ quote ''repl.stdout'' @ '','' @ quote ''type'' @ '':'' @ quote ''evt'' @
     '','' @ quote ''seq'' @ '':1}''"

definition demo_bound_md :: string where
  "demo_bound_md = take (length demo_repl_md - 1) demo_repl_md @ metadata_additions demo_nonce 7 True True @ ''}''"

definition demo_target :: ev_mux_stream_target where
  "demo_target = (class_target EV_MUX_TX_REPL)\<lparr>tg_origin := demo_origin, tg_link := demo_link, tg_session_id := demo_nonce,
      tg_options := (tg_options (class_target EV_MUX_TX_REPL))\<lparr>op_link := Some demo_link,
        op_session_id := Some demo_nonce, op_vm_epoch := 7, op_vm_output_origin := Some demo_origin\<rparr>\<rparr>"

lemma demo_bind:
  "ev_mux_stream_metadata_bind (Some demo_repl_md) (Some (tg_options demo_target)) (Some []) = (ESP_OK, Some demo_bound_md)"
  by code_simp

lemma demo_bind_check:
  "fst (ev_mux_stream_metadata_bind (Some demo_repl_md) (Some (tg_options demo_target)) None) = ESP_OK"
  by code_simp

definition demo_semantics :: ev_mux_repl_metadata_semantics where
  "demo_semantics = \<lparr>se_channel = ''repl.stdout'', se_type = ''evt'', se_method = [], se_sid = [], se_encoding = [],
     se_has_method = False, se_has_sid = False, se_has_encoding = False\<rparr>"

lemma demo_semantics_repl: "ev_mux_repl_metadata_semantics demo_repl_md = Some demo_semantics"
  by code_simp

lemma demo_semantics_bound: "ev_mux_repl_metadata_semantics demo_bound_md = Some demo_semantics"
  by code_simp

lemma demo_compatible: "ev_mux_repl_metadata_compatible demo_bound_md demo_repl_md"
  by (simp add: ev_mux_repl_metadata_compatible_def demo_semantics_repl demo_semantics_bound)

lemma demo_repl_md_length: "length demo_repl_md \<le> EV_MUX_METADATA_MAX"
  by code_simp

lemma demo_target_parts:
  "tg_origin demo_target = demo_origin" "tg_link demo_target = demo_link" "target_session demo_target = demo_nonce"
  "op_vm_epoch (tg_options demo_target) = 7"
  by (simp_all add: demo_target_def target_session_def)

lemma demo_scope_current: "ev_mux_output_origin_is_current (w_session demo_owned) 3 (Some demo_origin)"
  by (simp add: ev_mux_output_origin_is_current_def demo_origin_def session_view_def demo_nonce_def
      ev_mux_session_matches_output_origin_def ev_session_snapshot_locked_def Let_def ev_mux_link_equal_def
      EV_SESSION_ID_HEX_LEN_def)

definition demo_staged :: ev_mux_repl_stage where
  "demo_staged = zero_stage\<lparr>rs_used := True, rs_link := demo_link, rs_vm_epoch := 7, rs_output_input_generation := 2,
     rs_output_transition_id := 1, rs_session_id := demo_nonce, rs_metadata := demo_bound_md, rs_last_append_ms := 3\<rparr>"

definition demo_printed :: "u8 list stream" where
  "demo_printed = demo_stream\<lparr>sm_stage := demo_staged\<lparr>rs_payload := [0x68, 0x69]\<rparr>\<rparr>"

lemma demo_stream_parts:
  "sm_stage demo_stream = zero_stage" "sm_mux demo_stream = demo_mux" "sm_now demo_stream = 3" "sm_world demo_stream = demo_owned"
  by (simp_all add: demo_stream_def)

lemma demo_stage_begin:
  "ev_mux_repl_stage_begin_locked demo_target (Some demo_repl_md) demo_stream =
     (ESP_OK, demo_stream\<lparr>sm_stage := demo_staged\<rparr>)"
  by (simp add: ev_mux_repl_stage_begin_locked_def demo_bind demo_target_parts demo_staged_def demo_origin_def demo_stream_parts)

lemma demo_matches: "ev_mux_repl_target_matches demo_staged demo_target demo_repl_md"
  using demo_compatible
  by (simp add: ev_mux_repl_target_matches_def demo_target_parts demo_staged_def demo_origin_def ev_mux_link_equal_def)

lemma demo_env_parts:
  "sv_stage_lock demo_stream_env r" "sv_producer_lock demo_stream_env r" "sv_ready demo_stream_env r"
  "sv_others demo_stream_env r = r"
  by (simp_all add: demo_stream_env_def)

lemma demo_staged_empty: "rs_payload demo_staged = []"
  by (simp add: demo_staged_def zero_stage_def)

lemma demo_append:
  "stage_append 2 [0x68, 0x69] (demo_stream\<lparr>sm_stage := demo_staged\<rparr>) = demo_printed"
  by (simp add: stage_append_def on_stage_def demo_printed_def demo_staged_def zero_stage_def demo_stream_parts)

lemma demo_copy: "stage_copy_len demo_staged [0x68, 0x69] = 2"
  by (simp add: stage_copy_len_def demo_staged_empty EV_MUX_REPL_STAGE_BYTES_def)

lemma demo_keeps: "\<not> stage_should_flush (sm_stage demo_printed)"
  by (simp add: stage_should_flush_def demo_printed_def EV_MUX_REPL_STAGE_BYTES_def)

lemma demo_rounds:
  "write_rounds demo_stream_env demo_target demo_repl_md 3 [0x68, 0x69] demo_stream = Some (ESP_OK, None, [], demo_printed)"
proof -
  have "write_rounds demo_stream_env demo_target demo_repl_md 3 [] demo_printed = Some (ESP_OK, None, [], demo_printed)"
    by (simp add: write_rounds.simps)
  then show ?thesis
    using demo_matches demo_keeps
    by (subst write_rounds.simps)
      (simp add: demo_env_parts demo_stream_parts demo_stage_begin demo_copy demo_append demo_staged_empty Let_def)
qed

lemma demo_repl_write:
  "ev_mux_write_repl_target demo_stream_env (Some demo_target) (Some demo_repl_md) (Some [0x68, 0x69]) 2 demo_stream =
     Some (ESP_OK, [], [], demo_printed)"
proof -
  have "write_locked demo_stream_env demo_target demo_repl_md 3 [0x68, 0x69] demo_stream = Some (ESP_OK, None, [], demo_printed)"
    by (simp add: write_locked_def demo_env_parts demo_stream_parts demo_rounds Let_def)
  then show ?thesis
    using demo_repl_md_length demo_bind_check demo_scope_current
    by (simp add: ev_mux_write_repl_target_def demo_env_parts demo_stream_parts demo_target_parts Let_def
        ev_mux_repl_run_failure_def)
qed

lemma demo_stream_start:
  "stage_ok (sm_stage demo_stream)" "worker_inv (sm_mux demo_stream)"
  using demo_mux_inv by (simp_all add: demo_stream_parts stage_ok_def)


theorem repl_write_returns_witness:
  "\<exists>out. ev_mux_write_repl_target demo_stream_env (Some demo_target) (Some demo_repl_md) (Some [0x68, 0x69]) 2
     demo_stream = Some out"
  using repl_write_returns [OF demo_stream_laws demo_stream_start] .

lemma demo_scope: "ev_vm_output_scope_snapshot demo_running (Some zero_origin) = (True, Some demo_origin)"
  using demo_running_scope by (simp add: ev_vm_output_scope_snapshot_def)

lemma demo_stream_target: "stream_target demo_stream_env demo_running EV_STREAM_USER EV_MUX_TX_REPL demo_stream =
    (Some demo_target, demo_stream)"
  by (simp add: stream_target_def ev_mux_stream_target_def demo_scope demo_origin_def demo_link_def demo_nonce_def
      EV_SESSION_ID_HEX_LEN_def ev_mux_target_index_def demo_target_def Let_def demo_stream_parts)

lemma demo_class_write:
  "ev_mux_write_class demo_stream_env demo_running EV_STREAM_USER EV_MUX_TX_REPL (Some demo_repl_md)
     (Some [0x68, 0x69]) 2 demo_stream = Some (ESP_OK, [], [], demo_printed)"
  using demo_repl_write by (simp add: ev_mux_write_class_def demo_stream_target)


end
