(* ===== verification/MuxTickets.thy ===== *)
theory MuxTickets
  imports MuxPayload
begin

text \<open>
  Tickets of the transmitter, \<open>platform/ev_mux.c\<close>: a ticket names a slot and the generation the
  slot had when it was allocated, so its owner gets the result of its own frame.
\<close>

lemma low_byte_free: "push_bit 8 x AND (0xFF :: u32) = 0" for x :: u32
proof (rule bit_eqI)
  fix n
  have "(0xFF :: u32) = mask 8" by (simp add: mask_eq_exp_minus_1)
  then show "bit (push_bit 8 x AND 0xFF) n = bit 0 n"
    unfolding \<open>(0xFF :: u32) = mask 8\<close> by (auto simp: bit_and_iff bit_push_bit_iff bit_mask_iff)
qed

lemma drop_push: "x AND 0x00FFFFFF = x \<Longrightarrow> drop_bit 8 (push_bit 8 x :: u32) = x" for x :: u32
proof -
  assume a: "x AND 0x00FFFFFF = x"
  have m: "(0x00FFFFFF :: u32) = mask 24" by (simp add: mask_eq_exp_minus_1)
  show ?thesis
  proof (rule bit_eqI)
    fix n
    have "bit x n \<Longrightarrow> n < 24" using a m by (metis bit_and_iff bit_mask_iff)
    then show "bit (drop_bit 8 (push_bit 8 x)) n = bit x n"
      by (auto simp: bit_drop_bit_eq bit_push_bit_iff)
  qed
qed

lemma encode_decode:
  assumes "i < EV_MUX_TICKET_COUNT" and "g \<noteq> 0" and "g AND 0x00FFFFFF = g"
  shows "ev_mux_ticket_decode (ev_mux_ticket_encode i g) = Some (i, g)"
proof -
  define s :: u32 where "s = of_nat (i + 1)"
  have "i \<in> {0, 1, 2, 3, 4, 5, 6, 7}" using assms(1) by (auto simp: EV_MUX_TICKET_COUNT_def)
  then have s: "s AND 0xFF = s" "drop_bit 8 s = 0" "unat s = i + 1" "s \<noteq> 0"
    by (auto simp: s_def)
  have e: "ev_mux_ticket_encode i g = push_bit 8 g OR s"
    by (simp add: ev_mux_ticket_encode_def assms(3) s_def)
  have low: "ev_mux_ticket_encode i g AND 0xFF = s"
    using low_byte_free [of g] s(1) by (simp add: e bit.conj_disj_distrib2)
  have high: "drop_bit 8 (ev_mux_ticket_encode i g) = g"
    using drop_push [OF assms(3)] s(2) by (simp add: e drop_bit_or)
  have "ev_mux_ticket_encode i g \<noteq> 0" using low s(4) by auto
  then show ?thesis using assms(1,2) by (simp add: ev_mux_ticket_decode_def low high s(3) Let_def)
qed

lemma next_generation:
  "ticket_next_generation g \<noteq> 0" "ticket_next_generation g AND 0x00FFFFFF = ticket_next_generation g"
  by (auto simp: ticket_next_generation_def Let_def and.assoc)

lemma allocate_from:
  assumes "ticket_allocate_from is ts = (tk, ts')" and "tk \<noteq> 0" and "set is \<subseteq> {..<8}"
  shows "\<exists>i g. i < 8 \<and> \<not> tk_allocated (ts ! i) \<and> g = ticket_next_generation (tk_generation (ts ! i)) \<and>
    tk = ev_mux_ticket_encode i g \<and>
    ts' = ts[i := \<lparr>tk_allocated = True, tk_done = False, tk_forgotten = False, tk_generation = g,
                  tk_result = ESP_ERR_INVALID_STATE, tk_semaphore = False\<rparr>]"
  using assms
proof (induction "is")
  case Nil
  then show ?case by simp
next
  case (Cons i "is")
  show ?case
  proof (cases "tk_allocated (ts ! i)")
    case True
    then show ?thesis using Cons by auto
  next
    case False
    then show ?thesis using Cons.prems
      by (intro exI [of _ i] exI [of _ "ticket_next_generation (tk_generation (ts ! i))"]) (simp add: Let_def)
  qed
qed

lemma ticket_result:
  assumes "ev_mux_ticket_allocate ts = (tk, ts')" and "tk \<noteq> 0" and "length ts = EV_MUX_TICKET_COUNT"
  shows "ev_mux_ticket_lookup_locked ts tk = None"
    and "ev_mux_ticket_lookup_locked ts other \<noteq> None \<Longrightarrow>
      ev_mux_ticket_lookup_locked ts' other = ev_mux_ticket_lookup_locked ts other"
    and "ev_mux_wait (ev_mux_ticket_complete ts' tk result) tk others (Some x) =
      (ESP_OK, Some result, ev_mux_ticket_complete ts' tk result)"
    and "ev_mux_wait ts' tk (\<lambda>ts. (True, ev_mux_ticket_complete ts tk result)) (Some x) =
      (ESP_OK, Some result, ev_mux_ticket_complete ts' tk result)"
proof -
  have slots: "set [0..<8] \<subseteq> {..<(8 :: nat)}" by auto
  obtain i g where a: "i < 8" "\<not> tk_allocated (ts ! i)" "g = ticket_next_generation (tk_generation (ts ! i))"
    "tk = ev_mux_ticket_encode i g"
    "ts' = ts[i := \<lparr>tk_allocated = True, tk_done = False, tk_forgotten = False, tk_generation = g,
                  tk_result = ESP_ERR_INVALID_STATE, tk_semaphore = False\<rparr>]"
    using allocate_from [OF assms(1) [unfolded ev_mux_ticket_allocate_def EV_MUX_TICKET_COUNT_def] assms(2) slots]
    by auto
  have dec: "ev_mux_ticket_decode tk = Some (i, g)"
    unfolding a(4) by (rule encode_decode) (use a(1,3) next_generation in \<open>auto simp: EV_MUX_TICKET_COUNT_def\<close>)
  have l: "length ts = 8" using assms(3) by (simp add: EV_MUX_TICKET_COUNT_def)
  show "ev_mux_ticket_lookup_locked ts tk = None" using a(2) by (simp add: ev_mux_ticket_lookup_locked_def dec)
  show "ev_mux_ticket_lookup_locked ts' other = ev_mux_ticket_lookup_locked ts other"
    if "ev_mux_ticket_lookup_locked ts other \<noteq> None"
  proof -
    from that obtain j h where d: "ev_mux_ticket_decode other = Some (j, h)" "tk_allocated (ts ! j)"
      by (auto simp: ev_mux_ticket_lookup_locked_def split: option.splits if_splits)
    then have "j \<noteq> i" using a(2) by auto
    then show ?thesis by (simp add: ev_mux_ticket_lookup_locked_def d a(5))
  qed
  have look: "ev_mux_ticket_lookup_locked ts' tk = Some i"
    using a(1) l by (simp add: ev_mux_ticket_lookup_locked_def dec a(5))
  have c: "ev_mux_ticket_complete ts' tk result = ts[i := \<lparr>tk_allocated = True, tk_done = True,
      tk_forgotten = False, tk_generation = g, tk_result = result, tk_semaphore = True\<rparr>]"
    using a(1) l assms(2) by (simp add: ev_mux_ticket_complete_def look) (simp add: a(5))
  have look': "ev_mux_ticket_lookup_locked (ev_mux_ticket_complete ts' tk result) tk = Some i"
    using a(1) l by (simp add: ev_mux_ticket_lookup_locked_def dec c)
  show "ev_mux_wait (ev_mux_ticket_complete ts' tk result) tk others (Some x) =
      (ESP_OK, Some result, ev_mux_ticket_complete ts' tk result)"
    using a(1) l by (simp add: ev_mux_wait_def dec look') (simp add: c)
  have "\<not> tk_done (ts' ! i)" using a(1) l by (simp add: a(5))
  then show "ev_mux_wait ts' tk (\<lambda>ts. (True, ev_mux_ticket_complete ts tk result)) (Some x) =
      (ESP_OK, Some result, ev_mux_ticket_complete ts' tk result)"
    using a(1) l by (simp add: ev_mux_wait_def dec look look') (simp add: c)
qed


definition free_tickets :: "ev_mux_ticket_state list" where
  "free_tickets = replicate 8
     \<lparr>tk_allocated = False, tk_done = False, tk_forgotten = False, tk_generation = 0,
      tk_result = ESP_OK, tk_semaphore = False\<rparr>"


end
