(* ===== verification/Ring.thy ===== *)
theory Ring
  imports EvPrelude
begin

text \<open>
  Circular buffers on arrays: the contents between a read and a write index, in reading order,
  and what putting, getting and overwriting an index do to them. Both the REPL input queue and
  the tagged receive ring of the USB endpoint are such buffers, and so are the request queues
  of the multiplexer. One slot stays free, so that equal indices mean empty.
\<close>

definition ring_count :: "nat \<Rightarrow> nat \<Rightarrow> nat \<Rightarrow> nat" where
  "ring_count n h t = (t + n - h) mod n"

definition ring_span :: "'a list \<Rightarrow> nat \<Rightarrow> nat \<Rightarrow> nat \<Rightarrow> 'a list" where
  "ring_span xs h a b = map (\<lambda>i. xs ! ((h + i) mod length xs)) [a..<b]"

definition ring_contents :: "'a list \<Rightarrow> nat \<Rightarrow> nat \<Rightarrow> 'a list" where
  "ring_contents xs h t = ring_span xs h 0 (ring_count (length xs) h t)"

lemma ring_count_eq:
  "h < n \<Longrightarrow> t < n \<Longrightarrow> ring_count n h t = (if h \<le> t then t - h else t + n - h)"
  by (auto simp: ring_count_def mod_if)

lemma ring_count_less: "0 < n \<Longrightarrow> ring_count n h t < n"
  by (simp add: ring_count_def)

lemma ring_count_zero: "h < n \<Longrightarrow> t < n \<Longrightarrow> ring_count n h t = 0 \<longleftrightarrow> h = t"
  by (auto simp: ring_count_eq)

lemma ring_index_end: "h < n \<Longrightarrow> t < n \<Longrightarrow> (h + ring_count n h t) mod n = t"
  by (auto simp: ring_count_eq mod_if)

lemma ring_count_offset: "h < n \<Longrightarrow> k < n \<Longrightarrow> ring_count n h ((h + k) mod n) = k"
  by (cases "h + k < n") (auto simp: ring_count_eq mod_if)

lemma ring_free_count:
  "h < n \<Longrightarrow> t < n \<Longrightarrow> (h + n - t - 1) mod n = n - 1 - ring_count n h t"
  by (auto simp: ring_count_eq mod_if)

lemma ring_count_put:
  "h < n \<Longrightarrow> t < n \<Longrightarrow> ring_count n h t < n - 1 \<Longrightarrow>
   ring_count n h (Suc t mod n) = Suc (ring_count n h t)"
  by (auto simp: ring_count_eq mod_Suc_wrap split: if_splits)

lemma ring_full_iff:
  "h < n \<Longrightarrow> t < n \<Longrightarrow> 1 < n \<Longrightarrow> Suc t mod n = h \<longleftrightarrow> ring_count n h t = n - 1"
  by (auto simp: ring_count_eq mod_Suc_wrap)

lemma ring_count_get:
  "h < n \<Longrightarrow> t < n \<Longrightarrow> h \<noteq> t \<Longrightarrow> Suc (ring_count n (Suc h mod n) t) = ring_count n h t"
  by (auto simp: ring_count_eq mod_Suc_wrap split: if_splits)

lemma length_ring_span [simp]: "length (ring_span xs h a b) = b - a"
  by (simp add: ring_span_def)

lemma length_ring_contents [simp]: "length (ring_contents xs h t) = ring_count (length xs) h t"
  by (simp add: ring_contents_def)

lemma ring_span_empty [simp]: "ring_span xs h a a = []"
  by (simp add: ring_span_def)

lemma ring_span_snoc:
  "a \<le> b \<Longrightarrow> ring_span xs h a (Suc b) = ring_span xs h a b @ [xs ! ((h + b) mod length xs)]"
  by (simp add: ring_span_def)

lemma ring_span_cons:
  "a < b \<Longrightarrow> ring_span xs h a b = xs ! ((h + a) mod length xs) # ring_span xs h (Suc a) b"
  by (simp add: ring_span_def upt_conv_Cons)

text \<open>Writing outside a span leaves it alone.\<close>

lemma ring_span_update:
  assumes "h < length xs" and "b \<le> length xs" and "j < length xs" and "j < a \<or> b \<le> j"
  shows "ring_span (xs[(h + j) mod length xs := v]) h a b = ring_span xs h a b"
proof -
  have "(h + j) mod length xs \<noteq> (h + i) mod length xs" if "a \<le> i" "i < b" for i
    using that assms ring_index_inj [of h "length xs" j i] by auto
  then show ?thesis by (simp add: ring_span_def)
qed

lemma ring_contents_same [simp]: "ring_contents xs h h = []"
  by (simp add: ring_contents_def ring_count_def)

lemma ring_contents_Nil: "h < length xs \<Longrightarrow> t < length xs \<Longrightarrow> ring_contents xs h t = [] \<longleftrightarrow> h = t"
  using ring_count_zero [of h "length xs" t]
  by (metis length_0_conv length_ring_contents)

lemma ring_contents_put:
  assumes "h < length xs" and "t < length xs" and "length (ring_contents xs h t) < length xs - 1"
  shows "ring_contents (xs[t := v]) h (Suc t mod length xs) = ring_contents xs h t @ [v]"
proof -
  let ?c = "ring_count (length xs) h t"
  have c: "?c < length xs - 1" using assms(3) by simp
  have t: "(h + ?c) mod length xs = t" using assms(1,2) by (rule ring_index_end)
  have "ring_span (xs[t := v]) h 0 ?c = ring_span xs h 0 ?c"
    using ring_span_update [of h xs ?c ?c 0 v] assms(1) c t by simp
  moreover have "ring_count (length xs) h (Suc t mod length xs) = Suc ?c"
    using assms(1,2) c by (intro ring_count_put)
  ultimately show ?thesis using t assms(2) by (simp add: ring_contents_def ring_span_snoc)
qed

lemma ring_contents_get:
  assumes "h < length xs" and "t < length xs" and "h \<noteq> t"
  shows "ring_contents xs h t = xs ! h # ring_contents xs (Suc h mod length xs) t"
proof -
  let ?n = "length xs" and ?c = "ring_count (length xs) (Suc h mod length xs) t"
  have c: "ring_count ?n h t = Suc ?c" using ring_count_get [OF assms] by simp
  have "ring_contents xs h t = xs ! h # map (\<lambda>i. xs ! ((h + Suc i) mod ?n)) [0..<?c]"
    using assms(1) unfolding ring_contents_def ring_span_def c
    by (simp add: upt_conv_Cons map_Suc_upt [symmetric] comp_def del: upt_Suc)
  moreover have "(Suc h mod ?n + i) mod ?n = (h + Suc i) mod ?n" for i
    by (metis add_Suc_shift mod_add_left_eq)
  ultimately show ?thesis by (simp add: ring_contents_def ring_span_def)
qed

section \<open>Bounded queues\<close>

text \<open>
  The interface of a bounded first-in-first-out queue: its contents, an operation that appends
  when there is room and one that takes the oldest element.
\<close>

datatype 'a queue_op = Put 'a | Get

locale bounded_fifo =
  fixes put :: "'s \<Rightarrow> 'a \<Rightarrow> bool \<times> 's"
    and get :: "'s \<Rightarrow> 'a option \<times> 's"
    and contents :: "'s \<Rightarrow> 'a list"
    and inv :: "'s \<Rightarrow> bool"
    and cap :: nat
  assumes put_room: "inv s \<Longrightarrow> length (contents s) < cap \<Longrightarrow>
      fst (put s a) \<and> inv (snd (put s a)) \<and> contents (snd (put s a)) = contents s @ [a]"
    and put_full: "inv s \<Longrightarrow> cap \<le> length (contents s) \<Longrightarrow>
      \<not> fst (put s a) \<and> inv (snd (put s a)) \<and> contents (snd (put s a)) = contents s"
    and get_empty: "inv s \<Longrightarrow> contents s = [] \<Longrightarrow>
      fst (get s) = None \<and> inv (snd (get s)) \<and> contents (snd (get s)) = []"
    and get_front: "inv s \<Longrightarrow> contents s = a # as \<Longrightarrow>
      fst (get s) = Some a \<and> inv (snd (get s)) \<and> contents (snd (get s)) = as"
begin

text \<open>What a run delivers and accepts.\<close>

fun run :: "'s \<Rightarrow> 'a queue_op list \<Rightarrow> 'a list \<times> 'a list \<times> 's" where
  "run s [] = ([], [], s)"
| "run s (Put a # ops) =
     (let (ok, s1) = put s a; (ins, outs, s2) = run s1 ops
      in (if ok then a # ins else ins, outs, s2))"
| "run s (Get # ops) =
     (let (x, s1) = get s; (ins, outs, s2) = run s1 ops
      in (ins, (case x of None \<Rightarrow> outs | Some a \<Rightarrow> a # outs), s2))"

lemma run_in_order:
  "inv s \<Longrightarrow> run s ops = (ins, outs, s') \<Longrightarrow> inv s' \<and> contents s @ ins = outs @ contents s'"
proof (induction s ops arbitrary: ins outs s' rule: run.induct)
  case (1 s)
  then show ?case by simp
next
  case (2 s a ops)
  obtain ok s1 where p: "put s a = (ok, s1)" by fastforce
  obtain i1 o1 s2 where r: "run s1 ops = (i1, o1, s2)" by (metis surj_pair)
  have res: "ins = (if ok then a # i1 else i1)" "outs = o1" "s' = s2"
    using "2.prems"(2) p r by auto
  show ?case
  proof (cases "length (contents s) < cap")
    case True
    then have "ok" "inv s1" "contents s1 = contents s @ [a]"
      using put_room [OF "2.prems"(1), of a] p by simp_all
    with "2.IH" [OF p [symmetric] refl _ r] res show ?thesis by simp
  next
    case False
    then have "\<not> ok" "inv s1" "contents s1 = contents s"
      using put_full [OF "2.prems"(1), of a] p by simp_all
    with "2.IH" [OF p [symmetric] refl _ r] res show ?thesis by simp
  qed
next
  case (3 s ops)
  obtain x s1 where g: "get s = (x, s1)" by fastforce
  obtain i1 o1 s2 where r: "run s1 ops = (i1, o1, s2)" by (metis surj_pair)
  have res: "ins = i1" "outs = (case x of None \<Rightarrow> o1 | Some a \<Rightarrow> a # o1)" "s' = s2"
    using "3.prems"(2) g r by auto
  show ?case
  proof (cases "contents s")
    case Nil
    then have "x = None" "inv s1" "contents s1 = []"
      using get_empty [OF "3.prems"(1)] g by simp_all
    with "3.IH" [OF g [symmetric] refl _ r] res Nil show ?thesis by simp
  next
    case (Cons a as)
    then have "x = Some a" "inv s1" "contents s1 = as"
      using get_front [OF "3.prems"(1) Cons] g by simp_all
    with "3.IH" [OF g [symmetric] refl _ r] res Cons show ?thesis by simp
  qed
qed

end

end
