(* ===== verification/ReplQueue.thy ===== *)
theory ReplQueue
  imports Ring
begin

text \<open>
  The REPL input queue of \<open>platform/ev_repl_queue.h\<close>: a ring of 512 bytes tagged with the input
  generation they were accepted under. Every operation first moves the queue to the generation
  of its caller, which throws away the input of an earlier owner; a caller whose generation is
  not the current one is refused. Pointer arguments that the code compares with NULL are
  options. The two scanning loops carry fuel and return \<open>None\<close> when it runs out; one more
  than the capacity is enough for a queue with a valid write index.
\<close>

section \<open>The code\<close>

definition EV_REPL_QUEUE_CAPACITY :: nat where
  "EV_REPL_QUEUE_CAPACITY = 512"

lemmas repl_consts [simp] = EV_REPL_QUEUE_CAPACITY_def

record ev_repl_queue_entry =
  qe_value :: u8
  qe_generation :: u32

record ev_repl_queue =
  rq_entries :: "ev_repl_queue_entry list"
  rq_head :: nat
  rq_tail :: nat
  rq_guard_generation :: u32
  rq_guard_valid :: bool

definition repl_force :: "ev_repl_queue \<Rightarrow> u32 \<Rightarrow> ev_repl_queue" where
  "repl_force q g = q\<lparr>rq_head := 0, rq_tail := 0, rq_guard_generation := g,
     rq_guard_valid := (g \<noteq> 0)\<rparr>"

definition ev_repl_queue_force_clear :: "ev_repl_queue option \<Rightarrow> u32 \<Rightarrow> ev_repl_queue option" where
  "ev_repl_queue_force_clear queue g = map_option (\<lambda>q. repl_force q g) queue"

text \<open>Moving the queue to a generation: the second half of \<open>ev_repl_queue_clear_generation\<close>.\<close>

definition repl_sync :: "ev_repl_queue \<Rightarrow> u32 \<Rightarrow> ev_repl_queue" where
  "repl_sync q g =
     (if \<not> rq_guard_valid q \<or> rq_guard_generation q \<noteq> g then repl_force q g else q)"

definition ev_repl_queue_clear_generation ::
  "ev_repl_queue option \<Rightarrow> u32 \<Rightarrow> u32 \<Rightarrow> bool \<times> ev_repl_queue option" where
  "ev_repl_queue_clear_generation queue g current =
     (case queue of None \<Rightarrow> (False, None)
      | Some q \<Rightarrow> if g = 0 \<or> g \<noteq> current then (False, queue) else (True, Some (repl_sync q g)))"

definition repl_put :: "u32 \<Rightarrow> ev_repl_queue \<Rightarrow> u8 \<Rightarrow> ev_repl_queue" where
  "repl_put g q v =
     q\<lparr>rq_entries := (rq_entries q)[rq_tail q := \<lparr>qe_value = v, qe_generation = g\<rparr>],
       rq_tail := (rq_tail q + 1) mod EV_REPL_QUEUE_CAPACITY\<rparr>"

text \<open>\<open>data\<close> with \<open>len\<close> bytes; a null pointer is legal when \<open>len\<close> is zero.\<close>

definition ev_repl_queue_push ::
  "ev_repl_queue option \<Rightarrow> u8 list option \<Rightarrow> nat \<Rightarrow> u32 \<Rightarrow> u32 \<Rightarrow> bool \<times> ev_repl_queue option"
  where
  "ev_repl_queue_push queue data len g current =
     (case queue of None \<Rightarrow> (False, None)
      | Some q \<Rightarrow>
        if (len \<noteq> 0 \<and> data = None) \<or> g = 0 \<or> g \<noteq> current then (False, queue)
        else
          let q1 = the (snd (ev_repl_queue_clear_generation queue g current));
              free_bytes = (rq_head q1 + EV_REPL_QUEUE_CAPACITY - rq_tail q1 - 1)
                             mod EV_REPL_QUEUE_CAPACITY
          in if len > free_bytes then (False, Some q1)
             else (True, Some (foldl (repl_put g) q1
                     (case data of None \<Rightarrow> [] | Some bytes \<Rightarrow> take len bytes))))"

fun repl_pop_loop :: "nat \<Rightarrow> ev_repl_queue \<Rightarrow> u32 \<Rightarrow> (u8 option \<times> ev_repl_queue) option" where
  "repl_pop_loop 0 q g = None"
| "repl_pop_loop (Suc fuel) q g =
     (if rq_head q \<noteq> rq_tail q
      then
        let e = rq_entries q ! rq_head q;
            q1 = q\<lparr>rq_head := (rq_head q + 1) mod EV_REPL_QUEUE_CAPACITY\<rparr>
        in if qe_generation e = g then Some (Some (qe_value e), q1) else repl_pop_loop fuel q1 g
      else Some (None, q))"

text \<open>The result: the answer, the output byte, the queue.\<close>

definition ev_repl_queue_pop ::
  "ev_repl_queue option \<Rightarrow> u32 \<Rightarrow> u32 \<Rightarrow> bool \<Rightarrow> u8 option
     \<Rightarrow> (bool \<times> u8 option \<times> ev_repl_queue option) option" where
  "ev_repl_queue_pop queue g current consumer_ready out =
     (case queue of None \<Rightarrow> Some (False, out, None)
      | Some q \<Rightarrow>
        if out = None \<or> g = 0 \<or> g \<noteq> current then Some (False, out, queue)
        else if \<not> consumer_ready
        then Some (False, out, ev_repl_queue_force_clear queue g)
        else
          let q1 = the (snd (ev_repl_queue_clear_generation queue g current))
          in case repl_pop_loop (EV_REPL_QUEUE_CAPACITY + 1) q1 g of
               None \<Rightarrow> None
             | Some (Some v, q2) \<Rightarrow> Some (True, Some v, Some q2)
             | Some (None, q2) \<Rightarrow> Some (False, out, Some q2))"

fun repl_pending_loop :: "nat \<Rightarrow> ev_repl_queue \<Rightarrow> u32 \<Rightarrow> (bool \<times> ev_repl_queue) option" where
  "repl_pending_loop 0 q g = None"
| "repl_pending_loop (Suc fuel) q g =
     (if rq_head q \<noteq> rq_tail q
      then
        let e = rq_entries q ! rq_head q
        in if qe_generation e = g then Some (True, q)
           else repl_pending_loop fuel
                  (q\<lparr>rq_head := (rq_head q + 1) mod EV_REPL_QUEUE_CAPACITY\<rparr>) g
      else Some (False, q))"

definition ev_repl_queue_pending ::
  "ev_repl_queue option \<Rightarrow> u32 \<Rightarrow> u32 \<Rightarrow> bool \<Rightarrow> (bool \<times> ev_repl_queue option) option" where
  "ev_repl_queue_pending queue g current consumer_ready =
     (case queue of None \<Rightarrow> Some (False, None)
      | Some q \<Rightarrow>
        if g = 0 \<or> g \<noteq> current then Some (False, queue)
        else if \<not> consumer_ready then Some (False, ev_repl_queue_force_clear queue g)
        else
          let q1 = the (snd (ev_repl_queue_clear_generation queue g current))
          in map_option (\<lambda>(r, q2). (r, Some q2))
               (repl_pending_loop (EV_REPL_QUEUE_CAPACITY + 1) q1 g))"

section \<open>Contents and invariant\<close>

definition repl_contents :: "ev_repl_queue \<Rightarrow> ev_repl_queue_entry list" where
  "repl_contents q = ring_contents (rq_entries q) (rq_head q) (rq_tail q)"

definition repl_inv :: "ev_repl_queue \<Rightarrow> bool" where
  "repl_inv q \<longleftrightarrow> length (rq_entries q) = 512 \<and> rq_head q < 512 \<and> rq_tail q < 512 \<and>
     (rq_guard_valid q \<longrightarrow> rq_guard_generation q \<noteq> 0) \<and>
     (\<forall>e \<in> set (repl_contents q). rq_guard_valid q \<and> qe_generation e = rq_guard_generation q)"

text \<open>The abstract queue: the generation it belongs to, and its bytes.\<close>

type_synonym repl_view = "u32 option \<times> u8 list"

definition repl_view :: "ev_repl_queue \<Rightarrow> repl_view" where
  "repl_view q = (if rq_guard_valid q then Some (rq_guard_generation q) else None,
     map qe_value (repl_contents q))"

lemma force_inv:
  "repl_inv q \<Longrightarrow> repl_inv (repl_force q g) \<and> repl_contents (repl_force q g) = []"
  by (simp add: repl_inv_def repl_contents_def repl_force_def ring_contents_Nil)

lemma sync_inv: "repl_inv q \<Longrightarrow> repl_inv (repl_sync q g)"
  by (simp add: repl_sync_def force_inv)

lemma sync_guard:
  "g \<noteq> 0 \<Longrightarrow> rq_guard_valid (repl_sync q g) \<and> rq_guard_generation (repl_sync q g) = g"
  by (simp add: repl_sync_def repl_force_def)

lemma sync_contents:
  "repl_inv q \<Longrightarrow> repl_contents (repl_sync q g) =
     (if rq_guard_valid q \<and> rq_guard_generation q = g then repl_contents q else [])"
  using force_inv by (auto simp: repl_sync_def)

lemma put_guard [simp]:
  "rq_guard_valid (repl_put g q v) = rq_guard_valid q"
  "rq_guard_generation (repl_put g q v) = rq_guard_generation q"
  by (simp_all add: repl_put_def)

lemma put_contents:
  assumes "repl_inv q" and "length (repl_contents q) < 511"
  shows "repl_contents (repl_put g q v) = repl_contents q @ [\<lparr>qe_value = v, qe_generation = g\<rparr>]"
  using assms ring_contents_put [of "rq_head q" "rq_entries q" "rq_tail q"]
  by (simp add: repl_contents_def repl_inv_def repl_put_def)

lemma put_inv:
  assumes "repl_inv q" and "length (repl_contents q) < 511"
    and "rq_guard_valid q" and "rq_guard_generation q = g"
  shows "repl_inv (repl_put g q v)"
proof -
  have "set (repl_contents (repl_put g q v)) =
      insert \<lparr>qe_value = v, qe_generation = g\<rparr> (set (repl_contents q))"
    by (simp add: put_contents assms(1,2))
  with assms show ?thesis by (simp add: repl_inv_def) (simp add: repl_put_def)
qed

lemma free_bytes:
  "repl_inv q \<Longrightarrow> (rq_head q + 512 - rq_tail q - 1) mod 512 = 511 - length (repl_contents q)"
  using ring_free_count [of "rq_head q" 512 "rq_tail q"] by (simp add: repl_inv_def repl_contents_def)

lemma put_all:
  assumes "repl_inv q" and "rq_guard_valid q" and "rq_guard_generation q = g"
    and "length (repl_contents q) + length bytes \<le> 511"
  shows "repl_inv (foldl (repl_put g) q bytes) \<and>
    rq_guard_valid (foldl (repl_put g) q bytes) \<and>
    rq_guard_generation (foldl (repl_put g) q bytes) = g \<and>
    repl_contents (foldl (repl_put g) q bytes) =
      repl_contents q @ map (\<lambda>v. \<lparr>qe_value = v, qe_generation = g\<rparr>) bytes"
  using assms
proof (induction bytes arbitrary: q)
  case Nil
  then show ?case by simp
next
  case (Cons v bytes)
  have "repl_inv (repl_put g q v)" using Cons.prems by (intro put_inv) simp_all
  from Cons.IH [OF this] Cons.prems show ?case by (simp add: put_contents)
qed

lemma contents_get:
  assumes "repl_inv q" and "repl_contents q = e # es"
  shows "rq_head q \<noteq> rq_tail q" and "rq_entries q ! rq_head q = e"
    and "repl_contents (q\<lparr>rq_head := (rq_head q + 1) mod 512\<rparr>) = es"
    and "repl_inv (q\<lparr>rq_head := (rq_head q + 1) mod 512\<rparr>)"
proof -
  let ?q = "q\<lparr>rq_head := (rq_head q + 1) mod 512\<rparr>"
  show ne: "rq_head q \<noteq> rq_tail q"
    using assms ring_contents_Nil [of "rq_head q" "rq_entries q" "rq_tail q"]
    by (auto simp: repl_contents_def repl_inv_def)
  have "repl_contents q = rq_entries q ! rq_head q # repl_contents ?q"
    using assms(1) ne ring_contents_get [of "rq_head q" "rq_entries q" "rq_tail q"]
    by (simp add: repl_contents_def repl_inv_def)
  with assms(2) show "rq_entries q ! rq_head q = e" and es: "repl_contents ?q = es" by simp_all
  show "repl_inv ?q"
    using assms(1) unfolding repl_inv_def es by (simp add: assms(2))
qed

lemma contents_Nil: "repl_inv q \<Longrightarrow> repl_contents q = [] \<longleftrightarrow> rq_head q = rq_tail q"
  by (simp add: repl_contents_def repl_inv_def ring_contents_Nil)

text \<open>
  Inside the invariant every queued byte has the generation of the guard, so the scanning loops
  stop at their first step.
\<close>

lemma pop_loop_eq:
  assumes "repl_inv q" and "rq_guard_valid q" and "rq_guard_generation q = g"
  shows "repl_pop_loop (Suc fuel) q g =
    (case repl_contents q of [] \<Rightarrow> Some (None, q)
     | e # es \<Rightarrow> Some (Some (qe_value e), q\<lparr>rq_head := (rq_head q + 1) mod 512\<rparr>))"
proof (cases "repl_contents q")
  case Nil
  with contents_Nil [OF assms(1)] show ?thesis by simp
next
  case (Cons e es)
  then have "qe_generation e = g" using assms by (simp add: repl_inv_def)
  with Cons contents_get [OF assms(1) Cons] show ?thesis by (simp add: Let_def)
qed

lemma pending_loop_eq:
  assumes "repl_inv q" and "rq_guard_valid q" and "rq_guard_generation q = g"
  shows "repl_pending_loop (Suc fuel) q g = Some (repl_contents q \<noteq> [], q)"
proof (cases "repl_contents q")
  case Nil
  with contents_Nil [OF assms(1)] show ?thesis by simp
next
  case (Cons e es)
  then have "qe_generation e = g" using assms by (simp add: repl_inv_def)
  with Cons contents_get [OF assms(1) Cons] show ?thesis by (simp add: Let_def)
qed

section \<open>Refinement to the abstract queue\<close>

datatype repl_op =
    Force u32
  | Clear u32 u32
  | Push "u8 list" u32 u32
  | Pop u32 u32 bool
  | Pending u32 u32 bool

datatype repl_answer = Done | Answer bool | Byte "u8 option"

text \<open>One operation of the code, with the answer of its caller; \<open>None\<close> is a loop that runs on.\<close>

fun repl_step :: "ev_repl_queue \<Rightarrow> repl_op \<Rightarrow> (repl_answer \<times> ev_repl_queue) option" where
  "repl_step q (Force g) = Some (Done, the (ev_repl_queue_force_clear (Some q) g))"
| "repl_step q (Clear g cur) =
     (let (r, q') = ev_repl_queue_clear_generation (Some q) g cur in Some (Answer r, the q'))"
| "repl_step q (Push bytes g cur) =
     (let (r, q') = ev_repl_queue_push (Some q) (Some bytes) (length bytes) g cur
      in Some (Answer r, the q'))"
| "repl_step q (Pop g cur ready) =
     (case ev_repl_queue_pop (Some q) g cur ready (Some 0) of None \<Rightarrow> None
      | Some (r, v, q') \<Rightarrow> Some (Byte (if r then v else None), the q'))"
| "repl_step q (Pending g cur ready) =
     (case ev_repl_queue_pending (Some q) g cur ready of None \<Rightarrow> None
      | Some (r, q') \<Rightarrow> Some (Answer r, the q'))"

text \<open>
  The specification: the queue belongs to at most one generation and holds at most 511 bytes of
  it; the first operation of another generation empties it; a caller that is not of the current
  generation changes nothing and gets nothing.
\<close>

definition view_at :: "repl_view \<Rightarrow> u32 \<Rightarrow> u8 list" where
  "view_at a g = (if fst a = Some g then snd a else [])"

fun view_step :: "repl_view \<Rightarrow> repl_op \<Rightarrow> repl_answer \<times> repl_view" where
  "view_step a (Force g) = (Done, (if g = 0 then None else Some g, []))"
| "view_step a (Clear g cur) =
     (if g = 0 \<or> g \<noteq> cur then (Answer False, a) else (Answer True, (Some g, view_at a g)))"
| "view_step a (Push bytes g cur) =
     (if g = 0 \<or> g \<noteq> cur then (Answer False, a)
      else if length (view_at a g) + length bytes \<le> 511
      then (Answer True, (Some g, view_at a g @ bytes))
      else (Answer False, (Some g, view_at a g)))"
| "view_step a (Pop g cur ready) =
     (if g = 0 \<or> g \<noteq> cur then (Byte None, a)
      else if \<not> ready then (Byte None, (Some g, []))
      else case view_at a g of
             [] \<Rightarrow> (Byte None, (Some g, []))
           | v # vs \<Rightarrow> (Byte (Some v), (Some g, vs)))"
| "view_step a (Pending g cur ready) =
     (if g = 0 \<or> g \<noteq> cur then (Answer False, a)
      else if \<not> ready then (Answer False, (Some g, []))
      else (Answer (view_at a g \<noteq> []), (Some g, view_at a g)))"

lemma view_force:
  "repl_inv q \<Longrightarrow> repl_view (repl_force q g) = (if g = 0 then None else Some g, [])"
  using force_inv [of q g] by (simp add: repl_view_def) (simp add: repl_force_def)

lemma view_sync:
  "repl_inv q \<Longrightarrow> g \<noteq> 0 \<Longrightarrow> repl_view (repl_sync q g) = (Some g, view_at (repl_view q) g)"
  using sync_guard [of g q] sync_contents [of q g] by (simp add: repl_view_def view_at_def)

lemma sync_bytes:
  "repl_inv q \<Longrightarrow> g \<noteq> 0 \<Longrightarrow>
   map qe_value (repl_contents (repl_sync q g)) = view_at (repl_view q) g"
  by (simp add: sync_contents repl_view_def view_at_def)

lemma clear_generation_eq:
  "g \<noteq> 0 \<Longrightarrow> ev_repl_queue_clear_generation (Some q) g g = (True, Some (repl_sync q g))"
  by (simp add: ev_repl_queue_clear_generation_def)

lemma view_length: "repl_inv q \<Longrightarrow> g \<noteq> 0 \<Longrightarrow>
    length (repl_contents (repl_sync q g)) = length (view_at (repl_view q) g)"
  using view_sync [of q g] by (simp add: repl_view_def) (metis length_map)

lemma push_step:
  assumes "repl_inv q"
  shows "\<exists>q'. repl_step q (Push bytes g cur) = Some (fst (view_step (repl_view q) (Push bytes g cur)), q') \<and>
    repl_inv q' \<and> repl_view q' = snd (view_step (repl_view q) (Push bytes g cur))"
proof (cases "g = 0 \<or> g \<noteq> cur")
  case True
  then show ?thesis using assms by (auto simp: ev_repl_queue_push_def)
next
  case False
  then have g: "g \<noteq> 0" "cur = g" by auto
  let ?s = "repl_sync q g"
  note inv = sync_inv [OF assms, of g]
  note guard = sync_guard [OF g(1), of q]
  note len = view_length [OF assms g(1)]
  have "length (repl_contents ?s) \<le> 511"
    using ring_count_less [of 512 "rq_head ?s" "rq_tail ?s"] inv
    by (simp add: repl_contents_def repl_inv_def)
  then have free: "(length bytes > (rq_head ?s + 512 - rq_tail ?s - 1) mod 512) =
      (length (view_at (repl_view q) g) + length bytes > 511)"
    using free_bytes [OF inv] len by auto
  show ?thesis
  proof (cases "length (view_at (repl_view q) g) + length bytes > 511")
    case True
    then show ?thesis using g free inv view_sync [OF assms g(1)]
      by (simp add: ev_repl_queue_push_def clear_generation_eq)
  next
    case room: False
    then have all: "length (repl_contents ?s) + length bytes \<le> 511" using len by simp
    note put = put_all [OF inv, of g bytes]
    have "repl_view (foldl (repl_put g) ?s bytes) = (Some g, view_at (repl_view q) g @ bytes)"
      using put guard all view_sync [OF assms g(1)] by (simp add: repl_view_def comp_def)
    with put guard all room free g show ?thesis
      by (simp add: ev_repl_queue_push_def clear_generation_eq)
  qed
qed

lemma pop_step:
  assumes "repl_inv q"
  shows "\<exists>q'. repl_step q (Pop g cur ready) = Some (fst (view_step (repl_view q) (Pop g cur ready)), q') \<and>
    repl_inv q' \<and> repl_view q' = snd (view_step (repl_view q) (Pop g cur ready))"
proof (cases "g = 0 \<or> g \<noteq> cur \<or> \<not> ready")
  case True
  then show ?thesis using assms force_inv [OF assms, of g] view_force [OF assms, of g]
    by (auto simp: ev_repl_queue_pop_def ev_repl_queue_force_clear_def)
next
  case False
  then have g: "g \<noteq> 0" "cur = g" "ready" by auto
  let ?s = "repl_sync q g"
  note inv = sync_inv [OF assms, of g]
  note guard = sync_guard [OF g(1), of q]
  note view = view_sync [OF assms g(1)]
  have loop: "repl_pop_loop 513 ?s g =
    (case repl_contents ?s of [] \<Rightarrow> Some (None, ?s)
     | e # es \<Rightarrow> Some (Some (qe_value e), ?s\<lparr>rq_head := (rq_head ?s + 1) mod 512\<rparr>))"
    using pop_loop_eq [OF inv, of g 512] guard by simp
  show ?thesis
  proof (cases "repl_contents ?s")
    case Nil
    then have "view_at (repl_view q) g = []" using view by (simp add: repl_view_def)
    with Nil g loop inv view show ?thesis
      by (simp add: ev_repl_queue_pop_def clear_generation_eq)
  next
    case (Cons e es)
    then have v: "view_at (repl_view q) g = qe_value e # map qe_value es"
      using view by (auto simp: repl_view_def)
    let ?q = "?s\<lparr>rq_head := (rq_head ?s + 1) mod 512\<rparr>"
    have "repl_view ?q = (Some g, map qe_value es)"
      using contents_get(3) [OF inv Cons] guard by (simp add: repl_view_def)
    with v g loop Cons contents_get(4) [OF inv Cons] show ?thesis
      by (simp add: ev_repl_queue_pop_def clear_generation_eq)
  qed
qed

lemma pending_step:
  assumes "repl_inv q"
  shows "\<exists>q'. repl_step q (Pending g cur ready) =
      Some (fst (view_step (repl_view q) (Pending g cur ready)), q') \<and>
    repl_inv q' \<and> repl_view q' = snd (view_step (repl_view q) (Pending g cur ready))"
proof (cases "g = 0 \<or> g \<noteq> cur \<or> \<not> ready")
  case True
  then show ?thesis using assms force_inv [OF assms, of g] view_force [OF assms, of g]
    by (auto simp: ev_repl_queue_pending_def ev_repl_queue_force_clear_def)
next
  case False
  then have g: "g \<noteq> 0" "cur = g" "ready" by auto
  note inv = sync_inv [OF assms, of g]
  note view = view_sync [OF assms g(1)]
  have "repl_pending_loop 513 (repl_sync q g) g =
      Some (repl_contents (repl_sync q g) \<noteq> [], repl_sync q g)"
    using pending_loop_eq [OF inv, of g 512] sync_guard [OF g(1), of q] by simp
  moreover have "(repl_contents (repl_sync q g) = []) = (view_at (repl_view q) g = [])"
    by (simp add: sync_bytes [OF assms g(1), symmetric])
  ultimately show ?thesis using g inv view
    by (simp add: ev_repl_queue_pending_def clear_generation_eq)
qed

lemma repl_step_refines:
  assumes "repl_inv q"
  shows "\<exists>q'. repl_step q op = Some (fst (view_step (repl_view q) op), q') \<and>
    repl_inv q' \<and> repl_view q' = snd (view_step (repl_view q) op)"
proof (cases op)
  case (Clear g cur)
  then show ?thesis using assms sync_inv [OF assms, of g] view_sync [OF assms, of g]
    by (auto simp: ev_repl_queue_clear_generation_def)
qed (use assms push_step pop_step pending_step force_inv view_force in
    \<open>auto simp: ev_repl_queue_force_clear_def\<close>)

section \<open>Runs\<close>

definition repl_zero :: ev_repl_queue where
  "repl_zero = \<lparr>rq_entries = replicate 512 \<lparr>qe_value = 0, qe_generation = 0\<rparr>, rq_head = 0,
     rq_tail = 0, rq_guard_generation = 0, rq_guard_valid = False\<rparr>"

fun repl_run :: "ev_repl_queue \<Rightarrow> repl_op list \<Rightarrow> (repl_answer list \<times> ev_repl_queue) option" where
  "repl_run q [] = Some ([], q)"
| "repl_run q (op # ops) =
     (case repl_step q op of None \<Rightarrow> None
      | Some (a, q1) \<Rightarrow> map_option (\<lambda>(as, q2). (a # as, q2)) (repl_run q1 ops))"

fun view_run :: "repl_view \<Rightarrow> repl_op list \<Rightarrow> repl_answer list" where
  "view_run a [] = []"
| "view_run a (op # ops) = (let (x, a') = view_step a op in x # view_run a' ops)"

lemma repl_zero_inv: "repl_inv repl_zero" "repl_view repl_zero = (None, [])"
  by (simp_all add: repl_inv_def repl_zero_def repl_contents_def repl_view_def)

lemma repl_run_refines:
  "repl_inv q \<Longrightarrow> \<exists>q'. repl_run q ops = Some (view_run (repl_view q) ops, q') \<and> repl_inv q'"
proof (induction ops arbitrary: q)
  case Nil
  then show ?case by simp
next
  case (Cons op ops)
  from repl_step_refines [OF Cons.prems, of op] obtain q1
    where s: "repl_step q op = Some (fst (view_step (repl_view q) op), q1)" "repl_inv q1"
      "repl_view q1 = snd (view_step (repl_view q) op)" by blast
  from Cons.IH [OF s(2)] obtain q2
    where "repl_run q1 ops = Some (view_run (repl_view q1) ops, q2)" "repl_inv q2" by blast
  with s show ?case by (simp add: split_beta)
qed

text \<open>
  Property C13: from power-on, any sequence of clears, pushes, pops and polls with any mix of
  generations returns (no scanning loop runs on) and answers exactly as the specification: the
  queue holds at most 511 bytes of one generation, and a reader of the current generation never
  receives a byte that was pushed under another one.
\<close>

theorem repl_queue_refines_view:
  "\<exists>q'. repl_run repl_zero ops = Some (view_run (None, []) ops, q') \<and> repl_inv q'"
  using repl_run_refines [OF repl_zero_inv(1), of ops] by (simp add: repl_zero_inv(2))

section \<open>One generation: a bounded queue\<close>

definition repl_put_byte :: "u32 \<Rightarrow> ev_repl_queue \<Rightarrow> u8 \<Rightarrow> bool \<times> ev_repl_queue" where
  "repl_put_byte g q v =
     (let (r, q') = ev_repl_queue_push (Some q) (Some [v]) 1 g g in (r, the q'))"

definition repl_get_byte :: "u32 \<Rightarrow> ev_repl_queue \<Rightarrow> u8 option \<times> ev_repl_queue" where
  "repl_get_byte g q =
     (case ev_repl_queue_pop (Some q) g g True (Some 0) of None \<Rightarrow> (None, q)
      | Some (r, v, q') \<Rightarrow> (if r then v else None, the q'))"

definition repl_bytes :: "ev_repl_queue \<Rightarrow> u8 list" where
  "repl_bytes q = map qe_value (repl_contents q)"

definition repl_of :: "u32 \<Rightarrow> ev_repl_queue \<Rightarrow> bool" where
  "repl_of g q \<longleftrightarrow> g \<noteq> 0 \<and> repl_inv q \<and> rq_guard_valid q \<and> rq_guard_generation q = g"

lemma repl_of_view: "repl_of g q \<longleftrightarrow> g \<noteq> 0 \<and> repl_inv q \<and> repl_view q = (Some g, repl_bytes q)"
  by (auto simp: repl_of_def repl_view_def repl_bytes_def)

lemma repl_view_bytes: "repl_view q = (Some g, vs) \<Longrightarrow> repl_bytes q = vs"
  by (simp add: repl_view_def repl_bytes_def)

lemma put_byte_step:
  assumes "repl_of g q"
  shows "repl_of g (snd (repl_put_byte g q v)) \<and>
    (if length (repl_bytes q) < 511
     then fst (repl_put_byte g q v) \<and>
          repl_bytes (snd (repl_put_byte g q v)) = repl_bytes q @ [v]
     else \<not> fst (repl_put_byte g q v) \<and>
          repl_bytes (snd (repl_put_byte g q v)) = repl_bytes q)"
proof -
  obtain r q' where p: "ev_repl_queue_push (Some q) (Some [v]) 1 g g = (r, q')" by fastforce
  have "repl_put_byte g q v = (r, the q')" using p by (simp add: repl_put_byte_def)
  moreover have "repl_step q (Push [v] g g) = Some (Answer r, the q')" using p by simp
  moreover note repl_step_refines [of q "Push [v] g g"]
  ultimately show ?thesis using assms unfolding repl_of_view
    by (auto simp: view_at_def Suc_le_eq dest: repl_view_bytes split: if_splits)
qed

lemma get_byte_step:
  assumes "repl_of g q"
  shows "repl_of g (snd (repl_get_byte g q)) \<and>
    fst (repl_get_byte g q) = (case repl_bytes q of [] \<Rightarrow> None | v # _ \<Rightarrow> Some v) \<and>
    repl_bytes (snd (repl_get_byte g q)) = tl (repl_bytes q)"
proof -
  have r: "repl_inv q" "repl_view q = (Some g, repl_bytes q)" "g \<noteq> 0"
    using assms unfolding repl_of_view by simp_all
  from repl_step_refines [OF r(1), of "Pop g g True"] obtain q'
    where q': "repl_step q (Pop g g True) = Some (fst (view_step (repl_view q) (Pop g g True)), q')"
      "repl_inv q'" "repl_view q' = snd (view_step (repl_view q) (Pop g g True))" by blast
  obtain res v q2 where pop: "ev_repl_queue_pop (Some q) g g True (Some 0) = Some (res, v, q2)"
    using q'(1) by (auto split: option.splits)
  have get: "repl_get_byte g q = (if res then v else None, the q2)"
    using pop by (simp add: repl_get_byte_def)
  have step: "Byte (if res then v else None) = fst (view_step (repl_view q) (Pop g g True))"
    "the q2 = q'"
    using q'(1) pop by auto
  show ?thesis
  proof (cases "repl_bytes q")
    case Nil
    with q'(2,3) r step show ?thesis unfolding repl_of_view get
      by (auto simp: view_at_def dest: repl_view_bytes)
  next
    case (Cons w ws)
    with q'(2,3) r step show ?thesis unfolding repl_of_view get
      by (auto simp: view_at_def dest: repl_view_bytes)
  qed
qed

interpretation rq: bounded_fifo "repl_put_byte g" "repl_get_byte g" repl_bytes "repl_of g" 511 for g
proof
  fix q v vs
  show "repl_of g q \<Longrightarrow> length (repl_bytes q) < 511 \<Longrightarrow>
      fst (repl_put_byte g q v) \<and> repl_of g (snd (repl_put_byte g q v)) \<and>
      repl_bytes (snd (repl_put_byte g q v)) = repl_bytes q @ [v]"
    using put_byte_step [of g q v] by simp
  show "repl_of g q \<Longrightarrow> 511 \<le> length (repl_bytes q) \<Longrightarrow>
      \<not> fst (repl_put_byte g q v) \<and> repl_of g (snd (repl_put_byte g q v)) \<and>
      repl_bytes (snd (repl_put_byte g q v)) = repl_bytes q"
    using put_byte_step [of g q v] by simp
  show "repl_of g q \<Longrightarrow> repl_bytes q = [] \<Longrightarrow>
      fst (repl_get_byte g q) = None \<and> repl_of g (snd (repl_get_byte g q)) \<and>
      repl_bytes (snd (repl_get_byte g q)) = []"
    using get_byte_step [of g q] by simp
  show "repl_of g q \<Longrightarrow> repl_bytes q = v # vs \<Longrightarrow>
      fst (repl_get_byte g q) = Some v \<and> repl_of g (snd (repl_get_byte g q)) \<and>
      repl_bytes (snd (repl_get_byte g q)) = vs"
    using get_byte_step [of g q] by simp
qed

text \<open>
  While the input generation does not change, input is delivered in the order it
  was accepted, without loss or duplication: the bytes queued before followed by those accepted
  in a run are the bytes delivered followed by those still queued.
\<close>

theorem repl_input_in_order:
  assumes "repl_of g q" and "rq.run g q ops = (accepted, delivered, q')"
  shows "repl_bytes q @ accepted = delivered @ repl_bytes q'"
  using rq.run_in_order [OF assms] by simp

lemma repl_force_of: "repl_of 7 (repl_force repl_zero 7)" "repl_bytes (repl_force repl_zero 7) = []"
  using force_inv [OF repl_zero_inv(1), of 7]
  by (simp_all add: repl_of_def repl_bytes_def) (simp_all add: repl_force_def)

theorem repl_input_in_order_witness:
  "case rq.run 7 (repl_force repl_zero 7) [Put 1, Put 2, Get] of (accepted, delivered, q') \<Rightarrow>
     repl_bytes (repl_force repl_zero 7) @ accepted = delivered @ repl_bytes q' \<and>
     accepted = [1, 2] \<and> delivered = [1]"
proof -
  let ?q0 = "repl_force repl_zero 7"
  obtain r1 q1 where p1: "repl_put_byte 7 ?q0 1 = (r1, q1)" by fastforce
  obtain r2 q2 where p2: "repl_put_byte 7 q1 2 = (r2, q2)" by fastforce
  obtain x q3 where p3: "repl_get_byte 7 q2 = (x, q3)" by fastforce
  have 1: "repl_of 7 q1" "r1" "repl_bytes q1 = [1]"
    using put_byte_step [OF repl_force_of(1), of 1] p1 by (simp_all add: repl_force_of(2))
  have 2: "repl_of 7 q2" "r2" "repl_bytes q2 = [1, 2]"
    using put_byte_step [OF 1(1), of 2] p2 1 by simp_all
  have "x = Some 1" using get_byte_step [OF 2(1)] p3 2 by simp
  then have "rq.run 7 ?q0 [Put 1, Put 2, Get] = ([1, 2], [1], q3)"
    by (simp add: p1 p2 p3 1 2)
  with repl_input_in_order [OF repl_force_of(1) this] show ?thesis by simp
qed

end
