(* ===== verification/CdcRx.thy ===== *)
theory CdcRx
  imports Ring
begin

text \<open>
  The receive side of the USB-CDC endpoint, \<open>platform/ev_cdc_rx.h\<close>: a connection generation
  that moves on at every bus boundary, and a ring of bytes tagged with the generation they
  arrived under. \<open>flush\<close> is the caller's callback with its context; a null pointer is
  \<open>None\<close>. The filtering loop carries as fuel the ring size, which bounds its iterations.
\<close>

section \<open>Connection state\<close>

record ev_cdc_rx_state =
  cs_generation :: u32
  cs_mounted :: bool
  cs_mount_seen :: bool
  cs_dtr :: bool
  cs_valid :: bool

record ev_cdc_rx_event =
  ce_changed :: bool
  ce_fell :: bool
  ce_rose :: bool
  ce_valid :: bool
  ce_generation :: u32

definition zero_event :: ev_cdc_rx_event where
  "zero_event = \<lparr>ce_changed = False, ce_fell = False, ce_rose = False, ce_valid = False,
     ce_generation = 0\<rparr>"

definition run_flush :: "('c \<Rightarrow> 'c) option \<Rightarrow> 'c \<Rightarrow> 'c" where
  "run_flush flush ctx = (case flush of None \<Rightarrow> ctx | Some f \<Rightarrow> f ctx)"

definition ev_cdc_rx_advance_generation :: "ev_cdc_rx_state \<Rightarrow> ev_cdc_rx_state" where
  "ev_cdc_rx_advance_generation s =
     (if cs_valid s
      then if cs_generation s = - 1 then s\<lparr>cs_valid := False\<rparr>
           else s\<lparr>cs_generation := cs_generation s + 1\<rparr>
      else s)"

definition ev_cdc_rx_bus_mount ::
  "ev_cdc_rx_state option \<Rightarrow> ('c \<Rightarrow> 'c) option \<Rightarrow> 'c
     \<Rightarrow> ev_cdc_rx_event \<times> ev_cdc_rx_state option \<times> 'c" where
  "ev_cdc_rx_bus_mount state flush ctx =
     (case state of None \<Rightarrow> (zero_event, None, ctx)
      | Some s \<Rightarrow>
        let s1 = (if cs_mount_seen s then ev_cdc_rx_advance_generation s else s);
            s2 = s1\<lparr>cs_mount_seen := True, cs_mounted := True\<rparr>
        in (zero_event\<lparr>ce_changed := True, ce_rose := True, ce_valid := cs_valid s2,
              ce_generation := cs_generation s2\<rparr>,
            Some s2, run_flush flush ctx))"

definition ev_cdc_rx_bus_unmount ::
  "ev_cdc_rx_state option \<Rightarrow> ('c \<Rightarrow> 'c) option \<Rightarrow> 'c
     \<Rightarrow> ev_cdc_rx_event \<times> ev_cdc_rx_state option \<times> 'c" where
  "ev_cdc_rx_bus_unmount state flush ctx =
     (case state of None \<Rightarrow> (zero_event, None, ctx)
      | Some s \<Rightarrow>
        let changed = cs_mounted s;
            s1 = (if changed then ev_cdc_rx_advance_generation s else s);
            s2 = s1\<lparr>cs_mounted := False\<rparr>
        in (zero_event\<lparr>ce_changed := changed, ce_fell := changed, ce_valid := cs_valid s2,
              ce_generation := cs_generation s2\<rparr>,
            Some s2, run_flush flush ctx))"

definition ev_cdc_rx_bus_state ::
  "ev_cdc_rx_state option \<Rightarrow> bool \<Rightarrow> ('c \<Rightarrow> 'c) option \<Rightarrow> 'c
     \<Rightarrow> ev_cdc_rx_event \<times> ev_cdc_rx_state option \<times> 'c" where
  "ev_cdc_rx_bus_state state mounted flush ctx =
     (case state of None \<Rightarrow> (zero_event, None, ctx)
      | Some s \<Rightarrow>
        if mounted = cs_mounted s
        then (zero_event\<lparr>ce_valid := cs_valid s, ce_generation := cs_generation s\<rparr>, state, ctx)
        else if mounted then ev_cdc_rx_bus_mount state flush ctx
        else ev_cdc_rx_bus_unmount state flush ctx)"

definition ev_cdc_rx_dtr_update ::
  "ev_cdc_rx_state option \<Rightarrow> bool \<Rightarrow> bool \<times> ev_cdc_rx_state option" where
  "ev_cdc_rx_dtr_update state dtr =
     (case state of None \<Rightarrow> (False, None)
      | Some s \<Rightarrow> (cs_dtr s \<and> \<not> dtr, Some (s\<lparr>cs_dtr := dtr\<rparr>)))"

definition ev_cdc_rx_restart ::
  "ev_cdc_rx_state option \<Rightarrow> ('c \<Rightarrow> 'c) option \<Rightarrow> 'c \<Rightarrow> bool \<times> ev_cdc_rx_state option \<times> 'c"
  where
  "ev_cdc_rx_restart state flush ctx =
     (case state of None \<Rightarrow> (False, None, ctx)
      | Some s \<Rightarrow>
        if \<not> cs_valid s \<or> cs_generation s = - 1
        then (False, Some (s\<lparr>cs_valid := False\<rparr>), ctx)
        else (True, Some (s\<lparr>cs_generation := cs_generation s + 1\<rparr>), run_flush flush ctx))"

section \<open>The tagged ring\<close>

definition ev_cdc_rx_ring_next :: "u16 \<Rightarrow> u32 \<Rightarrow> u16" where
  "ev_cdc_rx_ring_next index sz =
     (let nx = ucast index + 1 :: u32 in ucast (if nx = sz then 0 else nx))"

text \<open>The result: the answer, the two arrays and the write index.\<close>

definition ev_cdc_rx_ring_put ::
  "u8 list option \<Rightarrow> u32 list option \<Rightarrow> u32 \<Rightarrow> u16 option \<Rightarrow> u16 option \<Rightarrow> u8 \<Rightarrow> u32
     \<Rightarrow> bool \<times> u8 list option \<times> u32 list option \<times> u16 option" where
  "ev_cdc_rx_ring_put buffer tags sz iget iput value generation =
     (case (buffer, tags, iget, iput) of
        (Some buf, Some tg, Some get, Some put) \<Rightarrow>
          if sz < 2 \<or> generation = 0 \<or> ucast get \<ge> sz \<or> ucast put \<ge> sz
          then (False, buffer, tags, iput)
          else
            let nx = ev_cdc_rx_ring_next put sz
            in if nx = get then (False, buffer, tags, iput)
               else (True, Some (buf[unat put := value]), Some (tg[unat put := generation]), Some nx)
      | _ \<Rightarrow> (False, buffer, tags, iput))"

fun cdc_filter_loop ::
  "nat \<Rightarrow> u32 \<Rightarrow> bool \<Rightarrow> u32 \<Rightarrow> u16 \<Rightarrow> u8 list \<Rightarrow> u32 list \<Rightarrow> u16 \<Rightarrow> u16 \<Rightarrow> nat
     \<Rightarrow> (nat \<times> u8 list \<times> u32 list \<times> u16) option" where
  "cdc_filter_loop fuel sz keep gen stop buf tg rd wr kept =
     (if rd \<noteq> stop
      then
        case fuel of 0 \<Rightarrow> None
        | Suc fuel' \<Rightarrow>
            let nx = ev_cdc_rx_ring_next rd sz
            in if keep \<and> tg ! unat rd = gen
               then
                 let (buf1, tg1) =
                   (if wr \<noteq> rd
                    then (buf[unat wr := buf ! unat rd], tg[unat wr := tg ! unat rd])
                    else (buf, tg))
                 in cdc_filter_loop fuel' sz keep gen stop buf1 tg1 nx
                      (ev_cdc_rx_ring_next wr sz) (kept + 1)
               else cdc_filter_loop fuel' sz keep gen stop buf tg nx wr kept
      else Some (kept, buf, tg, wr))"

declare cdc_filter_loop.simps [simp del]

definition ev_cdc_rx_ring_filter ::
  "u8 list option \<Rightarrow> u32 list option \<Rightarrow> u32 \<Rightarrow> u16 option \<Rightarrow> u16 option \<Rightarrow> bool \<Rightarrow> u32
     \<Rightarrow> (nat \<times> u8 list option \<times> u32 list option \<times> u16 option) option" where
  "ev_cdc_rx_ring_filter buffer tags sz iget iput keep generation =
     (case (buffer, tags, iget, iput) of
        (Some buf, Some tg, Some get, Some put) \<Rightarrow>
          if sz < 2 \<or> ucast get \<ge> sz \<or> ucast put \<ge> sz \<or> (keep \<and> generation = 0)
          then Some (0, buffer, tags, iput)
          else map_option (\<lambda>(kept, b, t, wr). (kept, Some b, Some t, Some wr))
                 (cdc_filter_loop (unat sz) sz keep generation put buf tg get get 0)
      | _ \<Rightarrow> Some (0, buffer, tags, iput))"

section \<open>Ring arithmetic\<close>

definition ring_ok :: "u32 \<Rightarrow> u8 list \<Rightarrow> u32 list \<Rightarrow> bool" where
  "ring_ok sz buf tg \<longleftrightarrow> 2 \<le> sz \<and> sz \<le> 65536 \<and> length buf = unat sz \<and> length tg = unat sz"

definition cdc_contents :: "u8 list \<Rightarrow> u32 list \<Rightarrow> u16 \<Rightarrow> u16 \<Rightarrow> (u8 \<times> u32) list" where
  "cdc_contents buf tg get put = ring_contents (zip buf tg) (unat get) (unat put)"

lemma unat_ucast_16_32 [simp]: "unat (ucast (i :: u16) :: u32) = unat i"
  using unat_less_u16 [of i] by (simp add: unsigned_ucast_eq take_bit_nat_eq_self)

lemma index_in_ring: "(ucast (i :: u16) :: u32) < sz \<longleftrightarrow> unat i < unat sz"
  by (simp add: word_less_nat_alt)

lemma ring_ok_size: "ring_ok sz buf tg \<Longrightarrow> 2 \<le> unat sz \<and> unat sz \<le> 65536"
  by (simp add: ring_ok_def word_le_nat_alt)

lemma ring_next:
  assumes "2 \<le> unat sz" and "unat sz \<le> 65536" and "unat i < unat sz"
  shows "unat (ev_cdc_rx_ring_next i sz) = Suc (unat i) mod unat sz"
proof -
  have i: "unat (ucast i + 1 :: u32) = Suc (unat i)"
  proof -
    have "unat (ucast i :: u32) + unat (1 :: u32) < 2 ^ 32"
      using unat_less_u16 [of i] by simp
    then show ?thesis by (subst unat_add_lem [THEN iffD1]) simp_all
  qed
  show ?thesis
  proof (cases "ucast i + 1 = sz")
    case True
    then have "unat sz = Suc (unat i)" using i by simp
    with True show ?thesis by (simp add: ev_cdc_rx_ring_next_def)
  next
    case False
    then have ne: "Suc (unat i) \<noteq> unat sz" using i by (metis word_unat_eq_iff)
    then have less: "Suc (unat i) < unat sz" using assms(3) by simp
    then have "Suc (unat i) < 2 ^ 16" using assms(2) by simp
    then have "unat (ucast (ucast i + 1 :: u32) :: u16) = Suc (unat i)"
      by (simp add: unsigned_ucast_eq i take_bit_nat_eq_self)
    with False less show ?thesis by (simp add: ev_cdc_rx_ring_next_def Let_def)
  qed
qed

lemma ring_next_less:
  "2 \<le> unat sz \<Longrightarrow> unat sz \<le> 65536 \<Longrightarrow> unat i < unat sz \<Longrightarrow>
   unat (ev_cdc_rx_ring_next i sz) < unat sz"
  by (simp add: ring_next)

lemma ring_next_offset:
  assumes "2 \<le> unat sz" and "unat sz \<le> 65536" and "unat i = (h + a) mod unat sz"
  shows "unat (ev_cdc_rx_ring_next i sz) = (h + Suc a) mod unat sz"
  using assms ring_next [of sz i] by (simp add: mod_Suc_eq)

lemma same_write: "(if wr \<noteq> rd then (buf[unat wr := buf ! unat rd], tg[unat wr := tg ! unat rd])
    else (buf, tg)) = (buf[unat wr := buf ! unat rd], tg[unat wr := tg ! unat rd])"
  by simp

section \<open>Filtering\<close>

abbreviation kept_by :: "bool \<Rightarrow> u32 \<Rightarrow> u8 \<times> u32 \<Rightarrow> bool" where
  "kept_by keep gen \<equiv> (\<lambda>(v, t). keep \<and> t = gen)"

lemma filter_loop_spec:
  assumes n: "2 \<le> unat sz" "unat sz \<le> 65536"
    and len: "length buf = unat sz" "length tg = unat sz"
    and pos: "h < unat sz" "c < unat sz" "unat rd = (h + r) mod unat sz"
      "unat wr = (h + w) mod unat sz" "unat stop = (h + c) mod unat sz"
    and ord: "w \<le> r" "r \<le> c" "c - r \<le> fuel"
    and F: "F = filter (kept_by keep gen) (ring_span (zip buf tg) h r c)"
  shows "\<exists>buf' tg' wr'. cdc_filter_loop fuel sz keep gen stop buf tg rd wr kept =
      Some (kept + length F, buf', tg', wr') \<and>
    length buf' = unat sz \<and> length tg' = unat sz \<and>
    unat wr' = (h + (w + length F)) mod unat sz \<and>
    ring_span (zip buf' tg') h 0 (w + length F) = ring_span (zip buf tg) h 0 w @ F"
  using len pos ord F
proof (induction fuel arbitrary: buf tg rd wr r w kept F)
  case (0 buf tg rd wr r w kept F)
  then have "r = c" by simp
  with 0 have "rd = stop" by (simp add: word_unat_eq_iff)
  with 0 \<open>r = c\<close> show ?case by (simp add: cdc_filter_loop.simps)
next
  case (Suc fuel buf tg rd wr r w kept F)
  show ?case
  proof (cases "r = c")
    case True
    with Suc.prems have "rd = stop" by (simp add: word_unat_eq_iff)
    with Suc.prems True show ?thesis by (simp add: cdc_filter_loop.simps)
  next
    case False
    with Suc.prems have rc: "r < c" by simp
    have ne: "rd \<noteq> stop"
    proof
      assume "rd = stop"
      then have "(h + r) mod unat sz = (h + c) mod unat sz" using Suc.prems by simp
      with ring_index_inj [of h "unat sz" r c] rc Suc.prems show False by simp
    qed
    let ?arr = "zip buf tg" and ?e = "(buf ! unat rd, tg ! unat rd)"
    have rd: "unat rd < unat sz" using Suc.prems n by simp
    have wr: "unat wr < unat sz" using Suc.prems n by simp
    have nx: "unat (ev_cdc_rx_ring_next rd sz) = (h + Suc r) mod unat sz"
      using Suc.prems by (intro ring_next_offset [OF n])
    have cons: "ring_span ?arr h r c = ?e # ring_span ?arr h (Suc r) c"
      using ring_span_cons [OF rc, of ?arr h] Suc.prems rd by simp
    show ?thesis
    proof (cases "keep \<and> tg ! unat rd = gen")
      case True
      let ?b = "buf[unat wr := buf ! unat rd]" and ?t = "tg[unat wr := tg ! unat rd]"
      have arr1: "zip ?b ?t = ?arr[(h + w) mod unat sz := ?e]"
        using Suc.prems by (simp add: zip_update)
      have upd: "ring_span (zip ?b ?t) h (Suc r) c = ring_span ?arr h (Suc r) c"
        "ring_span (zip ?b ?t) h 0 w = ring_span ?arr h 0 w"
        using ring_span_update [of h ?arr c w "Suc r" ?e] ring_span_update [of h ?arr w w 0 ?e]
          Suc.prems rc unfolding arr1 by simp_all
      have last: "zip ?b ?t ! ((h + w) mod unat sz) = ?e"
        unfolding arr1 using Suc.prems n by simp
      have wnx: "unat (ev_cdc_rx_ring_next wr sz) = (h + Suc w) mod unat sz"
        using Suc.prems by (intro ring_next_offset [OF n])
      define G where "G = filter (kept_by keep gen) (ring_span (zip ?b ?t) h (Suc r) c)"
      have FG: "F = ?e # G" using Suc.prems(11) True unfolding G_def upd(1) cons by simp
      have sp: "ring_span (zip ?b ?t) h 0 (Suc w) = ring_span ?arr h 0 w @ [?e]"
        using ring_span_snoc [of 0 w "zip ?b ?t" h] last upd(2) Suc.prems by simp
      have "\<exists>buf' tg' wr'. cdc_filter_loop fuel sz keep gen stop ?b ?t
            (ev_cdc_rx_ring_next rd sz) (ev_cdc_rx_ring_next wr sz) (kept + 1) =
          Some (kept + 1 + length G, buf', tg', wr') \<and>
        length buf' = unat sz \<and> length tg' = unat sz \<and>
        unat wr' = (h + (Suc w + length G)) mod unat sz \<and>
        ring_span (zip buf' tg') h 0 (Suc w + length G) = ring_span (zip ?b ?t) h 0 (Suc w) @ G"
        using Suc.prems rc nx wnx G_def by (intro Suc.IH) simp_all
      then show ?thesis using ne True FG sp
        by (subst cdc_filter_loop.simps) (auto simp: Let_def same_write)
    next
      case False
      have FG: "F = filter (kept_by keep gen) (ring_span ?arr h (Suc r) c)"
        using Suc.prems(11) False by (simp add: cons)
      have "\<exists>buf' tg' wr'. cdc_filter_loop fuel sz keep gen stop buf tg
            (ev_cdc_rx_ring_next rd sz) wr kept = Some (kept + length F, buf', tg', wr') \<and>
        length buf' = unat sz \<and> length tg' = unat sz \<and>
        unat wr' = (h + (w + length F)) mod unat sz \<and>
        ring_span (zip buf' tg') h 0 (w + length F) = ring_span ?arr h 0 w @ F"
        by (rule Suc.IH [where r = "Suc r" and w = w]) (use Suc.prems rc nx FG in simp_all)
      then show ?thesis using ne False
        by (subst cdc_filter_loop.simps) (auto simp: Let_def)
    qed
  qed
qed

lemma zip_len: "ring_ok sz buf tg \<Longrightarrow> length (zip buf tg) = unat sz"
  by (simp add: ring_ok_def)

lemma filter_call:
  assumes ok: "ring_ok sz buf tg" and get: "ucast get < sz" and put: "ucast put < sz"
    and gen: "keep \<longrightarrow> gen \<noteq> 0"
  shows "\<exists>buf' tg' put'.
    ev_cdc_rx_ring_filter (Some buf) (Some tg) sz (Some get) (Some put) keep gen =
      Some (length (filter (kept_by keep gen) (cdc_contents buf tg get put)),
        Some buf', Some tg', Some put') \<and>
    ring_ok sz buf' tg' \<and> ucast put' < sz \<and>
    cdc_contents buf' tg' get put' = filter (kept_by keep gen) (cdc_contents buf tg get put)"
proof -
  let ?n = "unat sz" and ?h = "unat get" and ?c = "ring_count (unat sz) (unat get) (unat put)"
  let ?F = "filter (kept_by keep gen) (cdc_contents buf tg get put)"
  have n: "2 \<le> ?n" "?n \<le> 65536" using ring_ok_size [OF ok] by simp_all
  have len: "length buf = ?n" "length tg = ?n" using ok by (simp_all add: ring_ok_def)
  have h: "?h < ?n" "unat put < ?n" using get put by (simp_all add: index_in_ring)
  have c: "?c < ?n" using n by (intro ring_count_less) simp
  have F: "?F = filter (kept_by keep gen) (ring_span (zip buf tg) ?h 0 ?c)"
    using zip_len [OF ok] by (simp add: cdc_contents_def ring_contents_def)
  have Fc: "length ?F \<le> ?c"
    unfolding F by (rule order_trans [OF length_filter_le]) simp
  have "\<exists>buf' tg' wr'. cdc_filter_loop ?n sz keep gen put buf tg get get 0 =
      Some (0 + length ?F, buf', tg', wr') \<and> length buf' = ?n \<and> length tg' = ?n \<and>
      unat wr' = (?h + (0 + length ?F)) mod ?n \<and>
      ring_span (zip buf' tg') ?h 0 (0 + length ?F) = ring_span (zip buf tg) ?h 0 0 @ ?F"
    using n len h c F by (intro filter_loop_spec) (simp_all add: ring_index_end)
  then obtain buf' tg' wr' where r: "cdc_filter_loop ?n sz keep gen put buf tg get get 0 =
      Some (length ?F, buf', tg', wr')" "length buf' = ?n" "length tg' = ?n"
      "unat wr' = (?h + length ?F) mod ?n"
      "ring_span (zip buf' tg') ?h 0 (length ?F) = ?F" by auto
  have ok': "ring_ok sz buf' tg'" using ok r(2,3) by (simp add: ring_ok_def)
  have "ring_count ?n ?h (unat wr') = length ?F"
    unfolding r(4) using h(1) c Fc by (intro ring_count_offset) simp_all
  then have cont: "cdc_contents buf' tg' get wr' = ?F"
    using r(5) zip_len [OF ok'] by (simp add: cdc_contents_def ring_contents_def)
  have "ucast wr' < sz" using r(4) n by (simp add: index_in_ring)
  moreover have "ev_cdc_rx_ring_filter (Some buf) (Some tg) sz (Some get) (Some put) keep gen =
      Some (length ?F, Some buf', Some tg', Some wr')"
  proof -
    have "(sz < 2 \<or> ucast get \<ge> sz \<or> ucast put \<ge> sz \<or> (keep \<and> gen = 0)) = False"
      using ok get put gen by (auto simp: ring_ok_def)
    then show ?thesis
      by (simp only: ev_cdc_rx_ring_filter_def option.case prod.case if_False r(1)
          option.map)
  qed
  ultimately show ?thesis using ok' cont by blast
qed

text \<open>
  Filtering the receive ring ends, keeps in order exactly the bytes tagged with
  the given generation, reports their number, and leaves the read index alone, for every ring
  size from 2 to 65536, wherever the contents wrap around the end of the arrays.
\<close>

theorem cdc_filter_keeps_generation:
  assumes "ring_ok sz buf tg" and "ucast get < sz" and "ucast put < sz" and "keep \<longrightarrow> gen \<noteq> 0"
  shows "\<exists>buf' tg' put'.
    ev_cdc_rx_ring_filter (Some buf) (Some tg) sz (Some get) (Some put) keep gen =
      Some (length (filter (kept_by keep gen) (cdc_contents buf tg get put)),
        Some buf', Some tg', Some put') \<and>
    ring_ok sz buf' tg' \<and> ucast put' < sz \<and>
    cdc_contents buf' tg' get put' = filter (kept_by keep gen) (cdc_contents buf tg get put)"
  using filter_call [OF assms] .

lemma put_call:
  assumes ok: "ring_ok sz buf tg" and get: "ucast get < sz" and put: "ucast put < sz"
    and gen: "gen \<noteq> 0"
  shows "if length (cdc_contents buf tg get put) = unat sz - 1
    then ev_cdc_rx_ring_put (Some buf) (Some tg) sz (Some get) (Some put) v gen =
      (False, Some buf, Some tg, Some put)
    else \<exists>buf' tg' put'.
      ev_cdc_rx_ring_put (Some buf) (Some tg) sz (Some get) (Some put) v gen =
        (True, Some buf', Some tg', Some put') \<and>
      ring_ok sz buf' tg' \<and> ucast put' < sz \<and>
      cdc_contents buf' tg' get put' = cdc_contents buf tg get put @ [(v, gen)]"
proof -
  have n: "2 \<le> unat sz" "unat sz \<le> 65536" using ring_ok_size [OF ok] by simp_all
  have h: "unat get < unat sz" "unat put < unat sz" using get put by (simp_all add: index_in_ring)
  note nx = ring_next [OF n h(2)]
  have full: "ev_cdc_rx_ring_next put sz = get \<longleftrightarrow>
      length (cdc_contents buf tg get put) = unat sz - 1"
    using ring_full_iff [OF h] n nx zip_len [OF ok]
    by (simp add: cdc_contents_def word_unat_eq_iff)
  have less: "length (cdc_contents buf tg get put) < unat sz"
    using zip_len [OF ok] ring_count_less [of "unat sz"] n by (simp add: cdc_contents_def)
  have guard: "\<not> (sz < 2 \<or> gen = 0 \<or> ucast get \<ge> sz \<or> ucast put \<ge> sz)"
    using ok get put gen by (auto simp: ring_ok_def)
  show ?thesis
  proof (cases "length (cdc_contents buf tg get put) = unat sz - 1")
    case True
    with full guard show ?thesis by (simp add: ev_cdc_rx_ring_put_def)
  next
    case False
    have "cdc_contents (buf[unat put := v]) (tg[unat put := gen]) get (ev_cdc_rx_ring_next put sz) =
        cdc_contents buf tg get put @ [(v, gen)]"
      using ring_contents_put [of "unat get" "zip buf tg" "unat put" "(v, gen)"] h less False
        ok
      by (simp add: cdc_contents_def zip_update nx ring_ok_def)
    moreover have "ucast (ev_cdc_rx_ring_next put sz) < sz"
      using ring_next_less [OF n h(2)] by (simp add: index_in_ring)
    moreover have "ring_ok sz (buf[unat put := v]) (tg[unat put := gen])"
      using ok by (simp add: ring_ok_def)
    ultimately show ?thesis using False full guard
      by (simp add: ev_cdc_rx_ring_put_def)
  qed
qed

section \<open>Bus boundaries\<close>

datatype cdc_event = Mount | Unmount | Bus bool | Dtr bool | Restart

fun cdc_step :: "ev_cdc_rx_state \<Rightarrow> cdc_event \<Rightarrow> ev_cdc_rx_state" where
  "cdc_step s Mount = the (fst (snd (ev_cdc_rx_bus_mount (Some s) None ())))"
| "cdc_step s Unmount = the (fst (snd (ev_cdc_rx_bus_unmount (Some s) None ())))"
| "cdc_step s (Bus m) = the (fst (snd (ev_cdc_rx_bus_state (Some s) m None ())))"
| "cdc_step s (Dtr d) = the (snd (ev_cdc_rx_dtr_update (Some s) d))"
| "cdc_step s Restart = the (fst (snd (ev_cdc_rx_restart (Some s) None ())))"

text \<open>Which events end a physical connection: a mount after the first, a lost mount, a restart.\<close>

fun boundary :: "ev_cdc_rx_state \<Rightarrow> cdc_event \<Rightarrow> bool" where
  "boundary s Mount = cs_mount_seen s"
| "boundary s Unmount = cs_mounted s"
| "boundary s (Bus m) = (m \<noteq> cs_mounted s \<and> (m \<longrightarrow> cs_mount_seen s))"
| "boundary s (Dtr d) = False"
| "boundary s Restart = True"

definition later_than :: "u32 \<Rightarrow> ev_cdc_rx_state \<Rightarrow> bool" where
  "later_than g s \<longleftrightarrow> \<not> cs_valid s \<or> g < cs_generation s"

lemma advance_later: "later_than (cs_generation s) (ev_cdc_rx_advance_generation s)"
  by (simp add: later_than_def ev_cdc_rx_advance_generation_def increment_less_u32)

lemma advance_keeps_later: "later_than g s \<Longrightarrow> later_than g (ev_cdc_rx_advance_generation s)"
  using increment_less_u32 [of "cs_generation s"]
  by (auto simp: later_than_def ev_cdc_rx_advance_generation_def)

lemma later_than_upd [simp]:
  "later_than g (s\<lparr>cs_mounted := m\<rparr>) = later_than g s"
  "later_than g (s\<lparr>cs_mount_seen := n, cs_mounted := m\<rparr>) = later_than g s"
  "later_than g (s\<lparr>cs_dtr := d\<rparr>) = later_than g s"
  by (simp_all add: later_than_def)

lemmas cdc_step_defs = ev_cdc_rx_bus_mount_def ev_cdc_rx_bus_unmount_def ev_cdc_rx_bus_state_def
  ev_cdc_rx_dtr_update_def ev_cdc_rx_restart_def Let_def

lemma boundary_later: "boundary s e \<Longrightarrow> later_than (cs_generation s) (cdc_step s e)"
  using advance_later [of s] increment_less_u32 [of "cs_generation s"]
  by (cases e) (auto simp: cdc_step_defs later_than_def)

lemma step_keeps_later: "later_than g s \<Longrightarrow> later_than g (cdc_step s e)"
  using advance_keeps_later [of g s] increment_less_u32 [of "cs_generation s"]
  by (cases e) (auto simp: cdc_step_defs later_than_def)

interpretation cdc: event_machine cdc_step "later_than g" for g
  by unfold_locales (rule step_keeps_later)

text \<open>
  A bus boundary retires all input received before it. If the ring holds bytes
  tagged with generations up to the present one and a boundary event occurs, then whatever bus
  events follow, either the receive state is no longer valid or filtering the ring with its
  generation keeps none of these bytes.
\<close>

theorem boundary_retires_input:
  assumes "boundary s e" and "s' = foldl cdc_step (cdc_step s e) es" and "cs_valid s'"
    and "ring_ok sz buf tg" and "ucast get < sz" and "ucast put < sz"
    and "\<forall>(v, t) \<in> set (cdc_contents buf tg get put). t \<le> cs_generation s"
  shows "\<exists>buf' tg' put'.
    ev_cdc_rx_ring_filter (Some buf) (Some tg) sz (Some get) (Some put) True (cs_generation s') =
      Some (0, Some buf', Some tg', Some put') \<and> cdc_contents buf' tg' get put' = []"
proof -
  have "later_than (cs_generation s) s'"
    unfolding assms(2) by (rule cdc.run_inv) (rule boundary_later [OF assms(1)])
  then have g: "cs_generation s < cs_generation s'" using assms(3) by (simp add: later_than_def)
  then have "cs_generation s' \<noteq> 0" by auto
  moreover have "filter (kept_by True (cs_generation s')) (cdc_contents buf tg get put) = []"
    using assms(7) g by (auto simp: filter_empty_conv)
  ultimately show ?thesis using filter_call [OF assms(4-6), of True "cs_generation s'"] by auto
qed

section \<open>A ring that wraps\<close>

definition demo_buf :: "u8 list" where
  "demo_buf = [10, 11, 12, 13]"

definition demo_tags :: "u32 list" where
  "demo_tags = [2, 1, 2, 1]"

lemma demo_ring_ok: "ring_ok 4 demo_buf demo_tags"
  by (simp add: ring_ok_def demo_buf_def demo_tags_def)

lemma demo_ring_contents: "cdc_contents demo_buf demo_tags 3 2 = [(13, 1), (10, 2), (11, 1)]"
  by code_simp

theorem cdc_filter_keeps_generation_witness:
  "\<exists>buf' tg' put'.
    ev_cdc_rx_ring_filter (Some demo_buf) (Some demo_tags) 4 (Some 3) (Some 2) True 1 =
      Some (2, Some buf', Some tg', Some put') \<and>
    cdc_contents buf' tg' 3 put' = [(13, 1), (11, 1)]"
  using cdc_filter_keeps_generation [OF demo_ring_ok, of 3 2 True 1]
  by (auto simp: demo_ring_contents)

theorem boundary_retires_input_witness:
  "\<exists>buf' tg' put'.
    ev_cdc_rx_ring_filter (Some demo_buf) (Some demo_tags) 4 (Some 3) (Some 2) True 3 =
      Some (0, Some buf', Some tg', Some put') \<and> cdc_contents buf' tg' 3 put' = []"
  using boundary_retires_input [OF _ refl _ demo_ring_ok, where e = Unmount and es = "[Bus False, Dtr True]"
      and get = 3 and put = 2
      and s = "\<lparr>cs_generation = 2, cs_mounted = True, cs_mount_seen = True, cs_dtr = False,
        cs_valid = True\<rparr>"]
  by (simp add: cdc_step_defs ev_cdc_rx_advance_generation_def demo_ring_contents)

end
