(* ===== verification/WriterGate.thy ===== *)
theory WriterGate
  imports EvPrelude
begin

text \<open>
  The per-volume gate between the USB host, MicroPython and a storage lease,
  \<open>platform/storage_writer_gate.h\<close>. Both sides of the volume announce their transfers; a
  transition closes the gate, waits until the transfers have drained, and then hands the volume
  over. Every operation returns its answer and the gate. The counters are 32-bit words.
\<close>

section \<open>The code\<close>

record gate =
  wg_ejected :: bool
  wg_transition_pending :: bool
  wg_lease_held :: bool
  wg_handoff_ready :: bool
  wg_managed :: bool
  wg_quarantined :: bool
  wg_in_flight_io :: u32
  wg_pending_write_sync :: u32

definition writer_gate_init :: "bool \<Rightarrow> bool \<Rightarrow> gate" where
  "writer_gate_init recovered_quarantine recovered_handoff =
     \<lparr>wg_ejected = (recovered_quarantine \<or> recovered_handoff), wg_transition_pending = False,
      wg_lease_held = False, wg_handoff_ready = recovered_handoff,
      wg_managed = (recovered_quarantine \<or> recovered_handoff),
      wg_quarantined = recovered_quarantine, wg_in_flight_io = 0, wg_pending_write_sync = 0\<rparr>"

definition writer_host_writable :: "gate \<Rightarrow> bool" where
  "writer_host_writable g \<longleftrightarrow> \<not> wg_ejected g \<and> \<not> wg_transition_pending g \<and>
     \<not> wg_lease_held g \<and> \<not> wg_quarantined g"

definition writer_host_load_allowed :: "gate \<Rightarrow> bool" where
  "writer_host_load_allowed g \<longleftrightarrow> \<not> wg_transition_pending g \<and> \<not> wg_lease_held g \<and>
     \<not> wg_quarantined g"

definition writer_python_io_allowed :: "gate \<Rightarrow> bool" where
  "writer_python_io_allowed g \<longleftrightarrow> \<not> wg_transition_pending g \<and> \<not> wg_quarantined g \<and>
     (\<not> wg_managed g \<or> wg_handoff_ready g \<or> wg_lease_held g)"

definition gate_fault :: "gate \<Rightarrow> gate" where
  "gate_fault g = g\<lparr>wg_quarantined := True, wg_ejected := True\<rparr>"

definition writer_begin_host_io :: "gate \<Rightarrow> bool \<times> gate" where
  "writer_begin_host_io g =
     (if \<not> writer_host_writable g \<or> wg_in_flight_io g = - 1 then (False, g)
      else (True, g\<lparr>wg_in_flight_io := wg_in_flight_io g + 1\<rparr>))"

definition writer_begin_vfs_io :: "gate \<Rightarrow> bool \<times> gate" where
  "writer_begin_vfs_io g =
     (if \<not> writer_python_io_allowed g \<or> wg_in_flight_io g = - 1 then (False, g)
      else (True, g\<lparr>wg_in_flight_io := wg_in_flight_io g + 1\<rparr>))"

definition writer_finish_vfs_io :: "gate \<Rightarrow> bool \<times> gate" where
  "writer_finish_vfs_io g =
     (if wg_in_flight_io g = 0 then (False, gate_fault g)
      else (True, g\<lparr>wg_in_flight_io := wg_in_flight_io g - 1\<rparr>))"

definition writer_finish_host_io :: "gate \<Rightarrow> bool \<Rightarrow> bool \<times> gate" where
  "writer_finish_host_io g accepted_write =
     (if wg_in_flight_io g = 0 \<or> (accepted_write \<and> wg_pending_write_sync g = - 1)
      then (False, gate_fault g)
      else
        let g1 = g\<lparr>wg_in_flight_io := wg_in_flight_io g - 1\<rparr>
        in (True, if accepted_write
                  then g1\<lparr>wg_pending_write_sync := wg_pending_write_sync g1 + 1\<rparr> else g1))"

definition writer_complete_host_write :: "gate \<Rightarrow> u32 \<Rightarrow> bool \<Rightarrow> bool \<times> gate" where
  "writer_complete_host_write g sync_sequence sync_succeeded =
     (if sync_sequence = 0 then (True, g)
      else if \<not> sync_succeeded \<or> wg_pending_write_sync g < sync_sequence
      then (False, gate_fault g)
      else (True, if wg_pending_write_sync g = sync_sequence
                  then g\<lparr>wg_pending_write_sync := 0\<rparr> else g))"

definition writer_io_drained :: "gate \<Rightarrow> bool" where
  "writer_io_drained g \<longleftrightarrow> wg_in_flight_io g = 0 \<and> wg_pending_write_sync g = 0"

definition writer_quiescent :: "gate \<Rightarrow> u32 \<Rightarrow> bool" where
  "writer_quiescent g open_handles \<longleftrightarrow> writer_io_drained g \<and> open_handles = 0"

definition writer_begin_eject :: "gate \<Rightarrow> bool \<times> gate" where
  "writer_begin_eject g =
     (if wg_transition_pending g \<or> wg_lease_held g \<or> wg_quarantined g then (False, g)
      else (True, g\<lparr>wg_ejected := True, wg_transition_pending := True\<rparr>))"

definition writer_finish_eject :: "gate \<Rightarrow> bool \<times> gate" where
  "writer_finish_eject g =
     (if \<not> wg_transition_pending g \<or> wg_lease_held g \<or> wg_quarantined g \<or> \<not> writer_io_drained g
      then (False, g)
      else (True, g\<lparr>wg_transition_pending := False, wg_handoff_ready := True, wg_ejected := True\<rparr>))"

definition writer_begin_load :: "gate \<Rightarrow> bool \<times> gate" where
  "writer_begin_load g =
     (if \<not> wg_ejected g \<or> \<not> wg_handoff_ready g \<or> \<not> writer_host_load_allowed g \<or>
         \<not> writer_io_drained g
      then (False, g)
      else (True, g\<lparr>wg_transition_pending := True\<rparr>))"

definition writer_finish_load :: "gate \<Rightarrow> bool \<times> gate" where
  "writer_finish_load g =
     (if \<not> wg_transition_pending g \<or> \<not> wg_ejected g \<or> wg_lease_held g \<or> wg_quarantined g \<or>
         \<not> writer_io_drained g
      then (False, g)
      else (True, g\<lparr>wg_transition_pending := False, wg_ejected := False,
                    wg_handoff_ready := False\<rparr>))"

definition writer_begin_acquire :: "gate \<Rightarrow> bool \<times> gate" where
  "writer_begin_acquire g =
     (if \<not> wg_ejected g \<or> wg_transition_pending g \<or> wg_lease_held g \<or> wg_quarantined g
      then (False, g)
      else (True, g\<lparr>wg_transition_pending := True\<rparr>))"

definition writer_finish_acquire :: "gate \<Rightarrow> bool \<times> gate" where
  "writer_finish_acquire g =
     (if \<not> wg_transition_pending g \<or> \<not> writer_io_drained g then (False, g)
      else (True, g\<lparr>wg_transition_pending := False, wg_lease_held := True,
                    wg_handoff_ready := False, wg_managed := True, wg_ejected := True\<rparr>))"

definition writer_begin_release :: "gate \<Rightarrow> bool \<times> gate" where
  "writer_begin_release g =
     (if \<not> wg_lease_held g \<or> wg_transition_pending g \<or> wg_quarantined g then (False, g)
      else (True, g\<lparr>wg_transition_pending := True\<rparr>))"

definition writer_finish_release :: "gate \<Rightarrow> bool \<times> gate" where
  "writer_finish_release g =
     (if \<not> wg_lease_held g \<or> \<not> wg_transition_pending g \<or> \<not> writer_io_drained g then (False, g)
      else (True, g\<lparr>wg_lease_held := False, wg_transition_pending := False,
                    wg_handoff_ready := True, wg_managed := True, wg_ejected := True\<rparr>))"

definition writer_quarantine :: "gate \<Rightarrow> gate" where
  "writer_quarantine g = g\<lparr>wg_transition_pending := False, wg_lease_held := False,
     wg_managed := True, wg_quarantined := True, wg_ejected := True\<rparr>"

definition writer_session_invalidated :: "gate \<Rightarrow> gate" where
  "writer_session_invalidated g =
     (if wg_transition_pending g \<or> wg_lease_held g then writer_quarantine g else g)"

section \<open>Runs, with the transfers of each side counted\<close>

datatype gate_op =
    Host_begin
  | Host_finish bool
  | Host_complete u32 bool
  | Vfs_begin
  | Vfs_finish
  | Begin_eject | Finish_eject
  | Begin_load | Finish_load
  | Begin_acquire | Finish_acquire
  | Begin_release | Finish_release
  | Quarantine
  | Session_invalidated

fun gate_call :: "gate \<Rightarrow> gate_op \<Rightarrow> bool \<times> gate" where
  "gate_call g Host_begin = writer_begin_host_io g"
| "gate_call g (Host_finish w) = writer_finish_host_io g w"
| "gate_call g (Host_complete n ok) = writer_complete_host_write g n ok"
| "gate_call g Vfs_begin = writer_begin_vfs_io g"
| "gate_call g Vfs_finish = writer_finish_vfs_io g"
| "gate_call g Begin_eject = writer_begin_eject g"
| "gate_call g Finish_eject = writer_finish_eject g"
| "gate_call g Begin_load = writer_begin_load g"
| "gate_call g Finish_load = writer_finish_load g"
| "gate_call g Begin_acquire = writer_begin_acquire g"
| "gate_call g Finish_acquire = writer_finish_acquire g"
| "gate_call g Begin_release = writer_begin_release g"
| "gate_call g Finish_release = writer_finish_release g"
| "gate_call g Quarantine = (True, writer_quarantine g)"
| "gate_call g Session_invalidated = (True, writer_session_invalidated g)"

text \<open>
  \<open>ledger\<close> adds to the gate how many transfers of the host and of the VFS are under way. A
  side only finishes a transfer it began, as the MSC callbacks and the VFS wrappers do.
\<close>

record ledger =
  lg_gate :: gate
  lg_host :: nat
  lg_vfs :: nat

fun ledger_enabled :: "ledger \<Rightarrow> gate_op \<Rightarrow> bool" where
  "ledger_enabled l (Host_finish w) = (0 < lg_host l)"
| "ledger_enabled l Vfs_finish = (0 < lg_vfs l)"
| "ledger_enabled l op = True"

fun ledger_counts :: "gate_op \<Rightarrow> bool \<Rightarrow> nat \<times> nat \<Rightarrow> nat \<times> nat" where
  "ledger_counts Host_begin ok (h, v) = (if ok then (h + 1, v) else (h, v))"
| "ledger_counts (Host_finish w) ok (h, v) = (if ok then (h - 1, v) else (h, v))"
| "ledger_counts Vfs_begin ok (h, v) = (if ok then (h, v + 1) else (h, v))"
| "ledger_counts Vfs_finish ok (h, v) = (if ok then (h, v - 1) else (h, v))"
| "ledger_counts op ok hv = hv"

definition ledger_step :: "ledger \<Rightarrow> gate_op \<Rightarrow> ledger" where
  "ledger_step l op =
     (if ledger_enabled l op
      then
        let (ok, g) = gate_call (lg_gate l) op; (h, v) = ledger_counts op ok (lg_host l, lg_vfs l)
        in \<lparr>lg_gate = g, lg_host = h, lg_vfs = v\<rparr>
      else l)"

definition ledger_inv :: "ledger \<Rightarrow> bool" where
  "ledger_inv l \<longleftrightarrow>
     (let g = lg_gate l in
        unat (wg_in_flight_io g) = lg_host l + lg_vfs l \<and>
        (wg_lease_held g \<or> wg_handoff_ready g \<or> wg_quarantined g \<longrightarrow> wg_ejected g) \<and>
        (wg_lease_held g \<or> wg_handoff_ready g \<longrightarrow>
           lg_host l = 0 \<and> wg_pending_write_sync g = 0))"

section \<open>Correctness\<close>

lemmas gate_steps =
  writer_begin_host_io_def writer_begin_vfs_io_def writer_finish_vfs_io_def
  writer_finish_host_io_def writer_complete_host_write_def writer_begin_eject_def
  writer_finish_eject_def writer_begin_load_def writer_finish_load_def writer_begin_acquire_def
  writer_finish_acquire_def writer_begin_release_def writer_finish_release_def
  writer_quarantine_def writer_session_invalidated_def gate_fault_def

lemmas gate_tests =
  writer_host_writable_def writer_python_io_allowed_def writer_host_load_allowed_def
  writer_io_drained_def

lemma unat_minus_1_u32: "(n :: u32) \<noteq> 0 \<Longrightarrow> unat (n - 1) = unat n - 1"
  by (simp add: unat_minus_one)

lemma in_flight_nonzero: "ledger_inv l \<Longrightarrow> 0 < lg_host l + lg_vfs l \<Longrightarrow> wg_in_flight_io (lg_gate l) \<noteq> 0"
  by (auto simp: ledger_inv_def Let_def)

lemma ledger_step_inv:
  assumes inv: "ledger_inv l"
  shows "ledger_inv (ledger_step l op)"
proof (cases "ledger_enabled l op")
  case False
  then show ?thesis using inv by (simp add: ledger_step_def)
next
  case True
  have nz: "0 < lg_host l + lg_vfs l \<Longrightarrow> wg_in_flight_io (lg_gate l) \<noteq> 0"
    by (rule in_flight_nonzero [OF inv])
  note pos = unat_plus_1_u32 [of "wg_in_flight_io (lg_gate l)"]
    unat_minus_1_u32 [of "wg_in_flight_io (lg_gate l)"]
  show ?thesis using True inv nz pos
    by (cases op; simp add: ledger_step_def ledger_inv_def Let_def gate_steps gate_tests split: if_splits)
      (auto simp: gate_steps gate_tests)
qed

lemma ledger_init_inv: "ledger_inv \<lparr>lg_gate = writer_gate_init q h, lg_host = 0, lg_vfs = 0\<rparr>"
  by (simp add: ledger_inv_def Let_def writer_gate_init_def)

interpretation lm: event_machine ledger_step ledger_inv
  by unfold_locales (rule ledger_step_inv)

text \<open>
  Property C11: the host and the lease holder never share the volume. After any run from boot:
  while a lease is held or a handoff is ready, no transfer of the host is under way, no write
  of the host is unsynchronised and the host cannot begin a transfer; on a managed volume the
  host and MicroPython are never both admitted; and no handover finishes before every transfer
  of both sides has drained.
\<close>

theorem lease_excludes_host:
  assumes "l = foldl ledger_step \<lparr>lg_gate = writer_gate_init q h, lg_host = 0, lg_vfs = 0\<rparr> ops"
    and "g = lg_gate l"
  shows "(wg_lease_held g \<or> wg_handoff_ready g \<longrightarrow>
       lg_host l = 0 \<and> wg_pending_write_sync g = 0 \<and> \<not> fst (writer_begin_host_io g)) \<and>
    (wg_managed g \<longrightarrow> \<not> (writer_host_writable g \<and> writer_python_io_allowed g)) \<and>
    (\<forall>op \<in> {Finish_eject, Finish_load, Finish_acquire, Finish_release}.
       fst (gate_call g op) \<longrightarrow> lg_host l = 0 \<and> lg_vfs l = 0)"
proof -
  have "ledger_inv l" unfolding assms(1) by (rule lm.run_inv) (rule ledger_init_inv)
  then show ?thesis
    by (auto simp: assms(2) ledger_inv_def Let_def gate_steps gate_tests split: if_splits)
qed

lemma quarantine_step: "wg_quarantined g \<Longrightarrow> wg_quarantined (snd (gate_call g op))"
  by (cases op) (auto simp: gate_steps gate_tests Let_def)

interpretation qm: event_machine "\<lambda>g op. snd (gate_call g op)" wg_quarantined
  by unfold_locales (rule quarantine_step)

text \<open>
  Quarantine is final until the next boot: whatever operations follow, neither the
  host nor MicroPython is admitted and no eject, load, acquisition or release can begin.
\<close>

theorem quarantine_is_final:
  assumes "wg_quarantined g" and "g' = foldl (\<lambda>g op. snd (gate_call g op)) g ops"
  shows "wg_quarantined g' \<and> \<not> writer_host_writable g' \<and> \<not> writer_python_io_allowed g' \<and>
    \<not> fst (writer_begin_host_io g') \<and> \<not> fst (writer_begin_vfs_io g') \<and>
    \<not> fst (writer_begin_eject g') \<and> \<not> fst (writer_begin_load g') \<and>
    \<not> fst (writer_begin_acquire g') \<and> \<not> fst (writer_begin_release g')"
proof -
  have "wg_quarantined g'" unfolding assms(2) by (rule qm.run_inv) (rule assms(1))
  then show ?thesis by (simp add: gate_steps gate_tests)
qed

definition demo_lease_run :: "gate_op list" where
  "demo_lease_run = [Host_begin, Host_finish True, Begin_eject, Host_complete 1 True, Finish_eject,
     Begin_acquire, Finish_acquire, Vfs_begin]"

theorem lease_excludes_host_witness:
  "let l = foldl ledger_step \<lparr>lg_gate = writer_gate_init False False, lg_host = 0, lg_vfs = 0\<rparr>
       demo_lease_run
   in wg_lease_held (lg_gate l) \<and> lg_vfs l = 1 \<and> lg_host l = 0 \<and>
      \<not> fst (writer_begin_host_io (lg_gate l))"
proof -
  let ?l = "foldl ledger_step \<lparr>lg_gate = writer_gate_init False False, lg_host = 0, lg_vfs = 0\<rparr>
       demo_lease_run"
  have "wg_lease_held (lg_gate ?l) \<and> lg_vfs ?l = 1" by code_simp
  with lease_excludes_host [OF refl refl, of False False demo_lease_run] show ?thesis
    by (simp add: Let_def)
qed

theorem quarantine_is_final_witness:
  "\<not> fst (writer_begin_vfs_io (foldl (\<lambda>g op. snd (gate_call g op)) (writer_gate_init True False)
     [Finish_acquire, Begin_release, Finish_eject]))"
  using quarantine_is_final [OF _ refl, of "writer_gate_init True False"
      "[Finish_acquire, Begin_release, Finish_eject]"]
  by (simp add: writer_gate_init_def)

end
