(* ===== verification/StorageWriter.thy ===== *)
theory StorageWriter
  imports WriterGate
begin

text \<open>
  The storage writer of USB mass storage, \<open>platform/storage_writer_msc.c\<close>: per volume the gate of
  WriterGate and a record that is kept in flash (NVS), so that a lease survives neither a lost
  session nor a reboot. The static variables are the record \<open>msc\<close>, together with the stored
  blobs. Each definition of an operation runs its critical sections in the order of the code.

  Between two critical sections other tasks run: the transfers of the host and of MicroPython,
  and a change of the session. \<open>me_others\<close> of the environment says what they do at each of these
  points, so that a theorem about an operation covers every interleaving that its hypothesis on
  \<open>me_others\<close> admits. The other fields of the environment are the calls that leave this file: NVS,
  the sync and refresh of the volume (\<open>platform/storage.c\<close>), the count of open file handles
  (\<open>platform/storage_vfs.c\<close>), the random number generator and the tick rate.
\<close>

section \<open>State\<close>

datatype esp_vision_storage_volume =
    ESP_VISION_STORAGE_VOLUME_FLASH
  | ESP_VISION_STORAGE_VOLUME_SD

text \<open>The enum argument of an operation is any integer; \<open>ESP_VISION_STORAGE_VOLUME_COUNT\<close> is 2.\<close>

definition volume_of :: "nat \<Rightarrow> esp_vision_storage_volume option" where
  "volume_of n =
     (if n = 0 then Some ESP_VISION_STORAGE_VOLUME_FLASH
      else if n = 1 then Some ESP_VISION_STORAGE_VOLUME_SD else None)"

definition WRITER_RECORD_MAGIC :: u32 where
  "WRITER_RECORD_MAGIC = 0x45565747"

definition WRITER_RECORD_VERSION :: u8 where
  "WRITER_RECORD_VERSION = 1"

definition WRITER_DRAIN_TIMEOUT_MS :: nat where
  "WRITER_DRAIN_TIMEOUT_MS = 2000"

definition WRITER_DRAIN_POLL_MS :: nat where
  "WRITER_DRAIN_POLL_MS = 10"

datatype writer_persist_state =
    WRITER_PERSIST_HOST
  | WRITER_PERSIST_HANDOFF
  | WRITER_PERSIST_LEASED
  | WRITER_PERSIST_QUARANTINE
  | WRITER_PERSIST_MANAGED_HOST

primrec persist_code :: "writer_persist_state \<Rightarrow> u8" where
  "persist_code WRITER_PERSIST_HOST = 1"
| "persist_code WRITER_PERSIST_HANDOFF = 2"
| "persist_code WRITER_PERSIST_LEASED = 3"
| "persist_code WRITER_PERSIST_QUARANTINE = 4"
| "persist_code WRITER_PERSIST_MANAGED_HOST = 5"

text \<open>
  The record is stored as the bytes of the C structure, so after a load its state is any byte
  and its identifiers are arrays of 33 characters that need not contain a terminator.
\<close>

record writer_record =
  wr_magic :: u32
  wr_version :: u8
  wr_state :: u8
  wr_operation_id :: string
  wr_lease_id :: string
  wr_session_id :: string

definition ZERO_ID :: string where
  "ZERO_ID = replicate 33 (CHR 0x00)"

definition plain_record :: "writer_persist_state \<Rightarrow> writer_record" where
  "plain_record st =
     \<lparr>wr_magic = WRITER_RECORD_MAGIC, wr_version = WRITER_RECORD_VERSION,
      wr_state = persist_code st, wr_operation_id = ZERO_ID, wr_lease_id = ZERO_ID,
      wr_session_id = ZERO_ID\<rparr>"

text \<open>What NVS holds under a key: a blob of the size of the record, or of another size.\<close>

datatype blob = Record_blob writer_record | Foreign_blob

record msc =
  mw_initialized :: bool
  mw_store_ready :: bool
  mw_store_lock :: bool
  mw_gate :: "esp_vision_storage_volume \<Rightarrow> gate"
  mw_record :: "esp_vision_storage_volume \<Rightarrow> writer_record"
  mw_nvs :: "esp_vision_storage_volume \<Rightarrow> blob option"

datatype nvs_error = NVS_OK | NVS_NOT_FOUND | NVS_FAILED esp_err

text \<open>The points of an operation at which other tasks run.\<close>

datatype point = Poll nat | Refresh | Store writer_persist_state | Stored writer_persist_state | Finish

record msc_env =
  me_sdcard :: bool
  me_tick_hz :: nat
  me_others :: "point \<Rightarrow> msc \<Rightarrow> msc"
  me_handles :: "point \<Rightarrow> u32"
  me_sync :: "esp_vision_storage_volume \<Rightarrow> esp_err"
  me_refresh :: "esp_vision_storage_volume \<Rightarrow> esp_err"
  me_nvs_read :: nvs_error
  me_nvs_open :: "writer_persist_state \<Rightarrow> esp_err"
  me_nvs_set :: "writer_record \<Rightarrow> blob option \<Rightarrow> esp_err \<times> blob option"
  me_nvs_commit :: "writer_persist_state \<Rightarrow> esp_err"
  me_random :: "u8 list"
  me_lock_created :: bool

definition set_gate :: "esp_vision_storage_volume \<Rightarrow> gate \<Rightarrow> msc \<Rightarrow> msc" where
  "set_gate v g s = s\<lparr>mw_gate := (mw_gate s)(v := g)\<rparr>"

definition on_gate ::
  "(gate \<Rightarrow> bool \<times> gate) \<Rightarrow> esp_vision_storage_volume \<Rightarrow> msc \<Rightarrow> bool \<times> msc" where
  "on_gate f v s = (let (r, g) = f (mw_gate s v) in (r, set_gate v g s))"

section \<open>Records\<close>

definition writer_store_state_allowed ::
  "msc \<Rightarrow> esp_vision_storage_volume \<Rightarrow> writer_persist_state \<Rightarrow> bool" where
  "writer_store_state_allowed s v st =
     (let gate = mw_gate s v
      in if st = WRITER_PERSIST_QUARANTINE then wg_quarantined gate
         else if wg_quarantined gate then False
         else case st of
                WRITER_PERSIST_HOST \<Rightarrow>
                  \<not> wg_managed gate \<and> \<not> wg_transition_pending gate \<and> \<not> wg_lease_held gate
              | WRITER_PERSIST_HANDOFF \<Rightarrow> wg_managed gate \<and> wg_transition_pending gate
              | WRITER_PERSIST_MANAGED_HOST \<Rightarrow> wg_managed gate \<and> wg_transition_pending gate
              | WRITER_PERSIST_LEASED \<Rightarrow> wg_transition_pending gate \<and> \<not> wg_lease_held gate
              | WRITER_PERSIST_QUARANTINE \<Rightarrow> False)"

definition writer_volume_compiled :: "msc_env \<Rightarrow> esp_vision_storage_volume \<Rightarrow> bool" where
  "writer_volume_compiled env v =
     (if v = ESP_VISION_STORAGE_VOLUME_FLASH then True
      else if me_sdcard env then v = ESP_VISION_STORAGE_VOLUME_SD else False)"

definition writer_hex_id :: "cstring option \<Rightarrow> bool" where
  "writer_hex_id value =
     (case value of None \<Rightarrow> False | Some s \<Rightarrow> length s = 32 \<and> list_all lower_hex s)"

definition hex_char :: "nat \<Rightarrow> char" where
  "hex_char n = ''0123456789abcdef'' ! n"

fun writer_hex_encode :: "u8 list \<Rightarrow> cstring" where
  "writer_hex_encode [] = []"
| "writer_hex_encode (b # bs) =
     hex_char (unat (drop_bit 4 b)) # hex_char (unat (b AND 0x0F)) # writer_hex_encode bs"

definition writer_record_valid :: "writer_record \<Rightarrow> bool" where
  "writer_record_valid r =
     (if wr_magic r \<noteq> WRITER_RECORD_MAGIC \<or> wr_version r \<noteq> WRITER_RECORD_VERSION then False
      else if CHR 0x00 \<notin> set (wr_operation_id r) \<or> CHR 0x00 \<notin> set (wr_lease_id r) \<or>
              CHR 0x00 \<notin> set (wr_session_id r)
      then False
      else if wr_state r = persist_code WRITER_PERSIST_HOST \<or>
              wr_state r = persist_code WRITER_PERSIST_HANDOFF \<or>
              wr_state r = persist_code WRITER_PERSIST_QUARANTINE \<or>
              wr_state r = persist_code WRITER_PERSIST_MANAGED_HOST
      then c_string (wr_operation_id r) = [] \<and> c_string (wr_lease_id r) = [] \<and>
           c_string (wr_session_id r) = []
      else if wr_state r = persist_code WRITER_PERSIST_LEASED
      then writer_hex_id (Some (c_string (wr_operation_id r))) \<and>
           writer_hex_id (Some (c_string (wr_lease_id r))) \<and>
           writer_hex_id (Some (c_string (wr_session_id r)))
      else False)"

text \<open>\<open>memcpy\<close> of the 33 bytes of an identifier of length 32.\<close>

definition id_bytes :: "cstring \<Rightarrow> string" where
  "id_bytes s = s @ [CHR 0x00]"

definition leased_record :: "cstring \<Rightarrow> cstring \<Rightarrow> cstring \<Rightarrow> writer_record" where
  "leased_record operation lease sid =
     (plain_record WRITER_PERSIST_LEASED)
       \<lparr>wr_operation_id := id_bytes operation, wr_lease_id := id_bytes lease,
        wr_session_id := id_bytes sid\<rparr>"

text \<open>The record that \<open>writer_store\<close> builds, or \<open>ESP_ERR_INVALID_ARG\<close>.\<close>

definition writer_new_record ::
  "writer_persist_state \<Rightarrow> cstring option \<Rightarrow> cstring option \<Rightarrow> cstring option \<Rightarrow>
     esp_err + writer_record" where
  "writer_new_record st operation lease sid =
     (if st = WRITER_PERSIST_LEASED
      then
        if \<not> writer_hex_id operation \<or> \<not> writer_hex_id lease \<or> \<not> writer_hex_id sid
        then Inl ESP_ERR_INVALID_ARG
        else Inr (leased_record (the operation) (the lease) (the sid))
      else Inr (plain_record st))"

text \<open>The critical section after the commit: the record becomes current if still permitted.\<close>

definition writer_store_publish ::
  "msc \<Rightarrow> esp_vision_storage_volume \<Rightarrow> writer_persist_state \<Rightarrow> writer_record \<Rightarrow> esp_err \<times> msc" where
  "writer_store_publish s v st r =
     (let gate = mw_gate s v;
          still_allowed =
            (if st = WRITER_PERSIST_QUARANTINE then wg_quarantined gate
             else \<not> wg_quarantined gate \<and> wg_transition_pending gate \<and>
                  (st = WRITER_PERSIST_LEASED \<or> wg_managed gate))
      in if still_allowed then (ESP_OK, s\<lparr>mw_record := (mw_record s)(v := r)\<rparr>)
         else (ESP_ERR_INVALID_STATE, s))"

definition writer_store ::
  "msc_env \<Rightarrow> msc \<Rightarrow> esp_vision_storage_volume \<Rightarrow> writer_persist_state \<Rightarrow>
     cstring option \<Rightarrow> cstring option \<Rightarrow> cstring option \<Rightarrow> esp_err \<times> msc" where
  "writer_store env s0 v st operation lease sid =
     (if \<not> mw_store_ready s0 \<or> \<not> writer_volume_compiled env v \<or> \<not> mw_store_lock s0
      then (ESP_ERR_INVALID_STATE, s0)
      else
        let s = me_others env (Store st) s0
        in if \<not> writer_store_state_allowed s v st then (ESP_ERR_INVALID_STATE, s)
           else
             case writer_new_record st operation lease sid of
               Inl e \<Rightarrow> (e, s)
             | Inr r \<Rightarrow>
                 if me_nvs_open env st \<noteq> ESP_OK then (me_nvs_open env st, s)
                 else
                   let (err, b) = me_nvs_set env r (mw_nvs s v);
                       s1 = s\<lparr>mw_nvs := (mw_nvs s)(v := b)\<rparr>;
                       ret = (if err = ESP_OK then me_nvs_commit env st else err)
                   in if ret \<noteq> ESP_OK then (ret, s1)
                      else writer_store_publish (me_others env (Stored st) s1) v st r)"

definition host_record :: "msc \<Rightarrow> esp_vision_storage_volume \<Rightarrow> msc" where
  "host_record s v = s\<lparr>mw_record := (mw_record s)(v := plain_record WRITER_PERSIST_HOST)\<rparr>"

definition writer_load_record ::
  "msc_env \<Rightarrow> msc \<Rightarrow> esp_vision_storage_volume \<Rightarrow> esp_err \<times> msc" where
  "writer_load_record env s v =
     (case me_nvs_read env of
        NVS_NOT_FOUND \<Rightarrow> (ESP_OK, host_record s v)
      | NVS_FAILED err \<Rightarrow> (err, s)
      | NVS_OK \<Rightarrow>
          (case mw_nvs s v of
             None \<Rightarrow> (ESP_OK, host_record s v)
           | Some Foreign_blob \<Rightarrow> (ESP_ERR_INVALID_STATE, s)
           | Some (Record_blob r) \<Rightarrow>
               if \<not> writer_record_valid r then (ESP_ERR_INVALID_STATE, s)
               else (ESP_OK, s\<lparr>mw_record := (mw_record s)(v := r)\<rparr>)))"

section \<open>Draining a volume\<close>

definition writer_gate_quiescent ::
  "msc_env \<Rightarrow> point \<Rightarrow> msc \<Rightarrow> esp_vision_storage_volume \<Rightarrow> bool" where
  "writer_gate_quiescent env p s v = writer_quiescent (mw_gate s v) (me_handles env p)"

definition ms_to_ticks :: "msc_env \<Rightarrow> nat \<Rightarrow> nat" where
  "ms_to_ticks env ms = ms * me_tick_hz env div 1000"

text \<open>The loop of \<open>writer_wait_quiescent\<close>; \<open>i\<close> counts its rounds, \<open>step\<close> is the delay of a round.\<close>

function wait_quiescent_loop ::
  "msc_env \<Rightarrow> nat \<Rightarrow> nat \<Rightarrow> nat \<Rightarrow> nat \<Rightarrow> msc \<Rightarrow> esp_vision_storage_volume \<Rightarrow> bool \<times> msc" where
  "wait_quiescent_loop env deadline step waited i s0 v =
     (let s = me_others env (Poll i) s0
      in if writer_gate_quiescent env (Poll i) s v then (True, s)
         else if waited \<ge> deadline then (False, s)
         else wait_quiescent_loop env deadline step
                (waited + (if step = 0 then 1 else step)) (i + 1) s v)"
  by pat_completeness auto
termination
  by (relation "measure (\<lambda>(env, deadline, step, waited, i, s, v). deadline - waited)") auto

declare wait_quiescent_loop.simps [simp del]

definition writer_wait_quiescent ::
  "msc_env \<Rightarrow> msc \<Rightarrow> esp_vision_storage_volume \<Rightarrow> bool \<times> msc" where
  "writer_wait_quiescent env s v =
     wait_quiescent_loop env (ms_to_ticks env WRITER_DRAIN_TIMEOUT_MS)
       (ms_to_ticks env WRITER_DRAIN_POLL_MS) 0 0 s v"

definition msc_quarantine :: "msc_env \<Rightarrow> msc \<Rightarrow> esp_vision_storage_volume \<Rightarrow> msc" where
  "msc_quarantine env s v =
     snd (writer_store env (set_gate v (writer_quarantine (mw_gate s v)) s) v
            WRITER_PERSIST_QUARANTINE None None None)"

definition writer_refresh :: "msc_env \<Rightarrow> esp_vision_storage_volume \<Rightarrow> esp_err" where
  "writer_refresh env v =
     (if me_handles env Refresh \<noteq> 0 then ESP_ERR_INVALID_STATE
      else if me_sync env v \<noteq> ESP_OK then me_sync env v
      else me_refresh env v)"

definition writer_lun_volume :: "msc_env \<Rightarrow> u8 \<Rightarrow> esp_vision_storage_volume option" where
  "writer_lun_volume env lun =
     (if lun = 0 then Some ESP_VISION_STORAGE_VOLUME_FLASH
      else if me_sdcard env \<and> lun = 1 then Some ESP_VISION_STORAGE_VOLUME_SD
      else None)"

text \<open>
  The drain, refresh and store that every transition goes through; whatever fails, the caller
  quarantines the volume.
\<close>

definition msc_transition ::
  "msc_env \<Rightarrow> msc \<Rightarrow> esp_vision_storage_volume \<Rightarrow> (msc \<Rightarrow> esp_err \<times> msc) \<Rightarrow>
     (gate \<Rightarrow> bool \<times> gate) \<Rightarrow> bool \<times> msc" where
  "msc_transition env s v store finish =
     (let (drained, s1) = writer_wait_quiescent env s v
      in if \<not> drained then (False, msc_quarantine env s1 v)
         else if writer_refresh env v \<noteq> ESP_OK
         then (False, msc_quarantine env (me_others env Refresh s1) v)
         else
           let (err, s2) = store (me_others env Refresh s1)
           in if err \<noteq> ESP_OK then (False, msc_quarantine env s2 v)
              else
                let (finished, s3) = on_gate finish v (me_others env Finish s2)
                in if \<not> finished then (False, msc_quarantine env s3 v) else (True, s3))"

section \<open>Boot\<close>

definition init_volume :: "msc_env \<Rightarrow> msc \<Rightarrow> esp_vision_storage_volume \<Rightarrow> msc" where
  "init_volume env s v =
     (if \<not> writer_volume_compiled env v then set_gate v (writer_gate_init True False) s
      else
        let (err, s1) = writer_load_record env s v
        in if err \<noteq> ESP_OK
           then (set_gate v (writer_gate_init True False) s1)
                  \<lparr>mw_record := (mw_record s1)
                     (v := (mw_record s1 v)
                        \<lparr>wr_state := persist_code WRITER_PERSIST_QUARANTINE,
                         wr_magic := WRITER_RECORD_MAGIC, wr_version := WRITER_RECORD_VERSION\<rparr>)\<rparr>
           else
             let st = wr_state (mw_record s1 v)
             in if st = persist_code WRITER_PERSIST_HOST
                then set_gate v (writer_gate_init False False) s1
                else if st = persist_code WRITER_PERSIST_MANAGED_HOST
                then set_gate v ((writer_gate_init False False)\<lparr>wg_managed := True\<rparr>) s1
                else if st = persist_code WRITER_PERSIST_HANDOFF
                then set_gate v (writer_gate_init False True) s1
                else set_gate v (writer_gate_init True False) s1)"

definition esp_vision_msc_writer_init :: "msc_env \<Rightarrow> msc \<Rightarrow> esp_err \<times> msc" where
  "esp_vision_msc_writer_init env s =
     (if mw_initialized s
      then (if mw_store_ready s then ESP_OK else ESP_ERR_INVALID_STATE, s)
      else
        let s1 = (if mw_store_lock s then s else s\<lparr>mw_store_lock := me_lock_created env\<rparr>)
        in if \<not> mw_store_lock s1 then (ESP_ERR_NO_MEM, s1)
           else (ESP_OK,
                 foldl (init_volume env) (s1\<lparr>mw_initialized := True, mw_store_ready := True\<rparr>)
                   [ESP_VISION_STORAGE_VOLUME_FLASH, ESP_VISION_STORAGE_VOLUME_SD]))"

text \<open>The static initialisers: both volumes are quarantined until the stored state is read.\<close>

definition zero_gate :: gate where
  "zero_gate =
     \<lparr>wg_ejected = False, wg_transition_pending = False, wg_lease_held = False,
      wg_handoff_ready = False, wg_managed = False, wg_quarantined = False, wg_in_flight_io = 0,
      wg_pending_write_sync = 0\<rparr>"

definition zero_record :: writer_record where
  "zero_record =
     \<lparr>wr_magic = 0, wr_version = 0, wr_state = 0, wr_operation_id = ZERO_ID,
      wr_lease_id = ZERO_ID, wr_session_id = ZERO_ID\<rparr>"

definition msc_power_on :: "(esp_vision_storage_volume \<Rightarrow> blob option) \<Rightarrow> msc" where
  "msc_power_on nvs =
     \<lparr>mw_initialized = False, mw_store_ready = False, mw_store_lock = False,
      mw_gate = (\<lambda>v. zero_gate\<lparr>wg_ejected := True, wg_quarantined := True\<rparr>),
      mw_record = (\<lambda>v. zero_record), mw_nvs = nvs\<rparr>"

section \<open>Status\<close>

datatype esp_vision_storage_writer_mode =
    ESP_VISION_STORAGE_WRITER_UNKNOWN
  | ESP_VISION_STORAGE_WRITER_AVAILABLE
  | ESP_VISION_STORAGE_WRITER_HELD
  | ESP_VISION_STORAGE_WRITER_HANDOFF_READY
  | ESP_VISION_STORAGE_WRITER_QUARANTINED

record esp_vision_storage_writer_status =
  st_mode :: esp_vision_storage_writer_mode
  st_writable :: bool
  st_operation_id :: string
  st_lease_id :: string
  st_session_id :: string
  st_reason :: "cstring option"

definition unknown_status :: esp_vision_storage_writer_status where
  "unknown_status =
     \<lparr>st_mode = ESP_VISION_STORAGE_WRITER_UNKNOWN, st_writable = False,
      st_operation_id = ZERO_ID, st_lease_id = ZERO_ID, st_session_id = ZERO_ID,
      st_reason = Some ''WRITER_STATE_UNKNOWN''\<rparr>"

definition gate_status :: "gate \<Rightarrow> writer_record \<Rightarrow> esp_vision_storage_writer_status" where
  "gate_status gate r =
     (if wg_quarantined gate
      then unknown_status\<lparr>st_mode := ESP_VISION_STORAGE_WRITER_QUARANTINED,
             st_reason := Some ''WRITER_HANDOFF_UNCERTAIN''\<rparr>
      else if wg_lease_held gate
      then unknown_status\<lparr>st_mode := ESP_VISION_STORAGE_WRITER_HELD, st_writable := True,
             st_operation_id := wr_operation_id r, st_lease_id := wr_lease_id r,
             st_session_id := wr_session_id r, st_reason := None\<rparr>
      else if wg_handoff_ready gate
      then unknown_status\<lparr>st_mode := ESP_VISION_STORAGE_WRITER_HANDOFF_READY, st_reason := None\<rparr>
      else if wg_ejected gate
      then unknown_status\<lparr>st_mode := ESP_VISION_STORAGE_WRITER_AVAILABLE, st_reason := None\<rparr>
      else unknown_status\<lparr>st_mode := ESP_VISION_STORAGE_WRITER_AVAILABLE, st_writable := True,
             st_reason := Some ''HOST_WRITER_ACTIVE''\<rparr>)"

definition esp_vision_msc_writer_status ::
  "msc_env \<Rightarrow> msc \<Rightarrow> nat \<Rightarrow> esp_vision_storage_writer_status option \<Rightarrow>
     esp_err \<times> esp_vision_storage_writer_status option" where
  "esp_vision_msc_writer_status env s volume out =
     (case (out, volume_of volume) of
        (Some st, Some v) \<Rightarrow>
          if \<not> mw_initialized s \<or> \<not> mw_store_ready s \<or> \<not> writer_volume_compiled env v
          then (ESP_ERR_INVALID_STATE, Some unknown_status)
          else (ESP_OK, Some (gate_status (mw_gate s v) (mw_record s v)))
      | _ \<Rightarrow> (ESP_ERR_INVALID_ARG, out))"

section \<open>Leases\<close>

definition msc_ready :: "msc_env \<Rightarrow> msc \<Rightarrow> nat \<Rightarrow> esp_vision_storage_volume option" where
  "msc_ready env s volume =
     (case volume_of volume of
        Some v \<Rightarrow>
          if writer_volume_compiled env v \<and> mw_initialized s \<and> mw_store_ready s then Some v else None
      | None \<Rightarrow> None)"

definition esp_vision_msc_writer_acquire ::
  "msc_env \<Rightarrow> msc \<Rightarrow> nat \<Rightarrow> cstring option \<Rightarrow> cstring option \<Rightarrow> cstring option \<Rightarrow>
     esp_err \<times> cstring option \<times> msc" where
  "esp_vision_msc_writer_acquire env s volume operation sid out =
     (case msc_ready env s volume of
        None \<Rightarrow> (ESP_ERR_INVALID_ARG, out, s)
      | Some v \<Rightarrow>
          if \<not> writer_hex_id operation \<or> \<not> writer_hex_id sid \<or> out = None
          then (ESP_ERR_INVALID_ARG, out, s)
          else
            let (started, s1) = on_gate writer_begin_acquire v s
            in if \<not> started then (ESP_ERR_INVALID_STATE, out, s1)
               else
                 let lease = writer_hex_encode (me_random env);
                     (ok, s2) = msc_transition env s1 v
                       (\<lambda>t. writer_store env t v WRITER_PERSIST_LEASED operation (Some lease) sid)
                       writer_finish_acquire
                 in if \<not> ok then (ESP_ERR_INVALID_STATE, out, s2)
                    else (ESP_OK, Some lease, s2))"

definition lease_matches :: "gate \<Rightarrow> writer_record \<Rightarrow> cstring \<Rightarrow> cstring \<Rightarrow> cstring \<Rightarrow> bool" where
  "lease_matches g r operation lease sid \<longleftrightarrow>
     wg_lease_held g \<and> \<not> wg_quarantined g \<and> c_string (wr_operation_id r) = operation \<and>
     c_string (wr_lease_id r) = lease \<and> c_string (wr_session_id r) = sid"

definition esp_vision_msc_writer_release ::
  "msc_env \<Rightarrow> msc \<Rightarrow> nat \<Rightarrow> cstring option \<Rightarrow> cstring option \<Rightarrow> cstring option \<Rightarrow> bool \<Rightarrow>
     esp_err \<times> msc" where
  "esp_vision_msc_writer_release env s volume operation lease sid safe_handoff =
     (case msc_ready env s volume of
        None \<Rightarrow> (ESP_ERR_INVALID_ARG, s)
      | Some v \<Rightarrow>
          if \<not> safe_handoff \<or> \<not> writer_hex_id operation \<or> \<not> writer_hex_id lease \<or>
             \<not> writer_hex_id sid
          then (ESP_ERR_INVALID_ARG, s)
          else
            let matches = lease_matches (mw_gate s v) (mw_record s v) (the operation) (the lease)
                            (the sid);
                (started, s1) = (if matches then on_gate writer_begin_release v s else (False, s))
            in if \<not> started then (ESP_ERR_INVALID_STATE, msc_quarantine env s1 v)
               else
                 let (ok, s2) = msc_transition env s1 v
                       (\<lambda>t. writer_store env t v WRITER_PERSIST_HANDOFF None None None)
                       writer_finish_release
                 in (if ok then ESP_OK else ESP_ERR_INVALID_STATE, s2))"

definition session_changed_volume ::
  "msc_env \<Rightarrow> cstring option \<Rightarrow> msc \<Rightarrow> esp_vision_storage_volume \<Rightarrow> msc" where
  "session_changed_volume env current s v =
     (if \<not> writer_volume_compiled env v then s
      else
        let gate = mw_gate s v;
            invalidate = (wg_lease_held gate \<or> wg_transition_pending gate) \<and>
              (case current of None \<Rightarrow> True
               | Some c \<Rightarrow> c \<noteq> c_string (wr_session_id (mw_record s v)))
        in if invalidate
           then snd (writer_store env (set_gate v (writer_session_invalidated gate) s) v
                       WRITER_PERSIST_QUARANTINE None None None)
           else s)"

definition esp_vision_msc_writer_session_changed :: "msc_env \<Rightarrow> msc \<Rightarrow> cstring option \<Rightarrow> msc" where
  "esp_vision_msc_writer_session_changed env s current =
     (if \<not> mw_initialized s \<or> \<not> mw_store_ready s then s
      else foldl (session_changed_volume env current) s
             [ESP_VISION_STORAGE_VOLUME_FLASH, ESP_VISION_STORAGE_VOLUME_SD])"

section \<open>Transfers\<close>

definition msc_lun :: "msc_env \<Rightarrow> msc \<Rightarrow> u8 \<Rightarrow> esp_vision_storage_volume option" where
  "msc_lun env s lun =
     (if mw_initialized s \<and> mw_store_ready s then writer_lun_volume env lun else None)"

definition esp_vision_msc_writer_host_io_begin :: "msc_env \<Rightarrow> msc \<Rightarrow> u8 \<Rightarrow> bool \<times> msc" where
  "esp_vision_msc_writer_host_io_begin env s lun =
     (case msc_lun env s lun of None \<Rightarrow> (False, s) | Some v \<Rightarrow> on_gate writer_begin_host_io v s)"

definition esp_vision_msc_writer_host_io_finish ::
  "msc_env \<Rightarrow> msc \<Rightarrow> u8 \<Rightarrow> bool \<Rightarrow> bool \<times> msc" where
  "esp_vision_msc_writer_host_io_finish env s lun accepted_write =
     (case writer_lun_volume env lun of
        None \<Rightarrow> (False, s)
      | Some v \<Rightarrow>
          let (ok, s1) = on_gate (\<lambda>g. writer_finish_host_io g accepted_write) v s
          in (ok, if ok then s1 else msc_quarantine env s1 v))"

definition esp_vision_msc_writer_host_write_sync_begin ::
  "msc_env \<Rightarrow> msc \<Rightarrow> u8 \<Rightarrow> u32 option \<Rightarrow> bool \<times> u32 option" where
  "esp_vision_msc_writer_host_write_sync_begin env s lun out =
     (case msc_lun env s lun of
        None \<Rightarrow> (False, out)
      | Some v \<Rightarrow>
          if out = None then (False, out)
          else (\<not> wg_quarantined (mw_gate s v), Some (wg_pending_write_sync (mw_gate s v))))"

definition esp_vision_msc_writer_host_write_complete ::
  "msc_env \<Rightarrow> msc \<Rightarrow> u8 \<Rightarrow> u32 \<Rightarrow> bool \<Rightarrow> bool \<times> msc" where
  "esp_vision_msc_writer_host_write_complete env s lun sync_sequence sync_succeeded =
     (case writer_lun_volume env lun of
        None \<Rightarrow> (False, s)
      | Some v \<Rightarrow>
          let (ok, s1) = on_gate (\<lambda>g. writer_complete_host_write g sync_sequence sync_succeeded) v s
          in (ok, if \<not> ok \<and> sync_sequence \<noteq> 0 then msc_quarantine env s1 v else s1))"

definition esp_vision_msc_writer_host_io_failed :: "msc_env \<Rightarrow> msc \<Rightarrow> u8 \<Rightarrow> msc" where
  "esp_vision_msc_writer_host_io_failed env s lun =
     (case writer_lun_volume env lun of None \<Rightarrow> s | Some v \<Rightarrow> msc_quarantine env s v)"

definition esp_vision_msc_writer_host_ready :: "msc_env \<Rightarrow> msc \<Rightarrow> u8 \<Rightarrow> bool" where
  "esp_vision_msc_writer_host_ready env s lun =
     (case msc_lun env s lun of None \<Rightarrow> False | Some v \<Rightarrow> writer_host_writable (mw_gate s v))"

definition esp_vision_msc_writer_host_writable :: "msc_env \<Rightarrow> msc \<Rightarrow> u8 \<Rightarrow> bool" where
  "esp_vision_msc_writer_host_writable env s lun = esp_vision_msc_writer_host_ready env s lun"

definition esp_vision_msc_writer_python_io_allowed :: "msc_env \<Rightarrow> msc \<Rightarrow> nat \<Rightarrow> bool" where
  "esp_vision_msc_writer_python_io_allowed env s volume =
     (case msc_ready env s volume of
        None \<Rightarrow> False | Some v \<Rightarrow> writer_python_io_allowed (mw_gate s v))"

definition esp_vision_msc_writer_python_write_allowed :: "msc_env \<Rightarrow> msc \<Rightarrow> nat \<Rightarrow> bool" where
  "esp_vision_msc_writer_python_write_allowed env s volume =
     esp_vision_msc_writer_python_io_allowed env s volume"

definition esp_vision_msc_writer_vfs_begin :: "msc_env \<Rightarrow> msc \<Rightarrow> nat \<Rightarrow> bool \<Rightarrow> bool \<times> msc" where
  "esp_vision_msc_writer_vfs_begin env s volume writing =
     (case msc_ready env s volume of
        None \<Rightarrow> (False, s) | Some v \<Rightarrow> on_gate writer_begin_vfs_io v s)"

definition esp_vision_msc_writer_vfs_finish :: "msc_env \<Rightarrow> msc \<Rightarrow> nat \<Rightarrow> bool \<times> msc" where
  "esp_vision_msc_writer_vfs_finish env s volume =
     (case msc_ready env s volume of
        None \<Rightarrow> (False, s)
      | Some v \<Rightarrow>
          let (finished, s1) = on_gate writer_finish_vfs_io v s
          in (finished, if finished then s1 else msc_quarantine env s1 v))"

section \<open>Eject and load by the host\<close>

definition msc_eject :: "msc_env \<Rightarrow> msc \<Rightarrow> esp_vision_storage_volume \<Rightarrow> bool \<times> msc" where
  "msc_eject env s v =
     (let (started, s1) = on_gate writer_begin_eject v s;
          managed = wg_managed (mw_gate s1 v)
      in if \<not> started then (False, msc_quarantine env s1 v)
         else msc_transition env s1 v
                (\<lambda>t. if managed then writer_store env t v WRITER_PERSIST_HANDOFF None None None
                     else (ESP_OK, t))
                writer_finish_eject)"

definition msc_load :: "msc_env \<Rightarrow> msc \<Rightarrow> esp_vision_storage_volume \<Rightarrow> bool \<times> msc" where
  "msc_load env s v =
     (let already_host = writer_host_writable (mw_gate s v);
          managed = wg_managed (mw_gate s v);
          (allowed, s1) = on_gate writer_begin_load v s
      in if already_host then (True, s1)
         else if \<not> allowed then (False, msc_quarantine env s1 v)
         else msc_transition env s1 v
                (\<lambda>t. if managed
                     then writer_store env t v WRITER_PERSIST_MANAGED_HOST None None None
                     else (ESP_OK, t))
                writer_finish_load)"

definition esp_vision_msc_writer_host_start_stop ::
  "msc_env \<Rightarrow> msc \<Rightarrow> u8 \<Rightarrow> bool \<Rightarrow> bool \<Rightarrow> bool \<times> msc" where
  "esp_vision_msc_writer_host_start_stop env s lun start load_eject =
     (case msc_lun env s lun of
        None \<Rightarrow> (False, s)
      | Some v \<Rightarrow>
          if \<not> load_eject then (start \<or> me_sync env v = ESP_OK, s)
          else if \<not> start then msc_eject env s v
          else msc_load env s v)"

end
