(* ===== verification/StorageWriterProps.thy ===== *)
theory StorageWriterProps
  imports StorageWriter
begin

text \<open>
  Correctness of the storage writer (StorageWriter): a transition of a volume either completes
  or leaves it quarantined, a lease is on flash before it is granted, and neither a reboot nor a
  change of the session lets one be used again.
\<close>

section \<open>Interference\<close>

text \<open>
  What other tasks may do to a volume while an operation waits. \<open>shut\<close>: quarantined, with no
  transition and no lease. A volume in transition or leased is left so, with its record and its
  stored blob, or it is shut; a shut volume stays shut.
\<close>

definition shut :: "esp_vision_storage_volume \<Rightarrow> msc \<Rightarrow> bool" where
  "shut v s \<longleftrightarrow> wg_quarantined (mw_gate s v) \<and> \<not> wg_transition_pending (mw_gate s v) \<and>
     \<not> wg_lease_held (mw_gate s v)"

definition same_volume :: "esp_vision_storage_volume \<Rightarrow> msc \<Rightarrow> msc \<Rightarrow> bool" where
  "same_volume v s s' \<longleftrightarrow>
     wg_transition_pending (mw_gate s' v) = wg_transition_pending (mw_gate s v) \<and>
     wg_lease_held (mw_gate s' v) = wg_lease_held (mw_gate s v) \<and>
     mw_record s' v = mw_record s v \<and> mw_nvs s' v = mw_nvs s v"

definition interferes :: "esp_vision_storage_volume \<Rightarrow> msc \<Rightarrow> msc \<Rightarrow> bool" where
  "interferes v s s' \<longleftrightarrow>
     (wg_quarantined (mw_gate s v) \<longrightarrow> wg_quarantined (mw_gate s' v)) \<and>
     (wg_transition_pending (mw_gate s v) \<or> wg_lease_held (mw_gate s v) \<longrightarrow>
        same_volume v s s' \<or> shut v s') \<and>
     (shut v s \<longrightarrow> shut v s')"

definition others_ok :: "msc_env \<Rightarrow> esp_vision_storage_volume \<Rightarrow> bool" where
  "others_ok env v \<longleftrightarrow> (\<forall>p s. interferes v s (me_others env p s))"

lemma interferes_refl [simp]: "interferes v s s"
  by (simp add: interferes_def same_volume_def)

lemma interferes_trans: "interferes v s t \<Longrightarrow> interferes v t u \<Longrightarrow> interferes v s u"
  by (auto simp: interferes_def same_volume_def)

lemma others_step: "others_ok env v \<Longrightarrow> interferes v s (me_others env p s)"
  by (simp add: others_ok_def)

lemma shut_persists: "shut v s \<Longrightarrow> interferes v s t \<Longrightarrow> shut v t"
  by (simp add: interferes_def)

lemma set_gate_sel [simp]:
  "mw_gate (set_gate v g s) v = g" "w \<noteq> v \<Longrightarrow> mw_gate (set_gate v g s) w = mw_gate s w"
  "mw_record (set_gate v g s) = mw_record s" "mw_nvs (set_gate v g s) = mw_nvs s"
  "mw_initialized (set_gate v g s) = mw_initialized s"
  "mw_store_ready (set_gate v g s) = mw_store_ready s"
  "mw_store_lock (set_gate v g s) = mw_store_lock s"
  by (simp_all add: set_gate_def)

lemma set_gate_interferes: "w \<noteq> v \<Longrightarrow> interferes v s (set_gate w g s)"
  by (simp add: interferes_def same_volume_def shut_def)

section \<open>Storing a record\<close>

lemma publish_gate: "mw_gate (snd (writer_store_publish s v st r)) = mw_gate s"
  by (simp add: writer_store_publish_def Let_def)

lemma store_shut:
  assumes ok: "others_ok env v" and "shut v s"
  shows "shut v (snd (writer_store env s v st a b c))"
proof -
  have 1: "shut v (me_others env p t)" if "shut v t" for p t
    using that others_step [OF ok] by (rule shut_persists)
  have 2: "shut v (t\<lparr>mw_nvs := n\<rparr>) = shut v t" for t n by (simp add: shut_def)
  have 3: "shut v (snd (writer_store_publish t v st r)) = shut v t" for t r
    by (simp add: shut_def publish_gate)
  show ?thesis using assms(2)
    by (auto simp: writer_store_def Let_def 1 2 3 split: sum.split prod.split)
qed

lemma quarantine_shuts:
  assumes "others_ok env v" shows "shut v (msc_quarantine env s v)"
  unfolding msc_quarantine_def
  by (rule store_shut [OF assms]) (simp add: shut_def writer_quarantine_def)

text \<open>Other volumes are only touched by interference.\<close>

lemma store_other_volume:
  assumes ok: "others_ok env w" and "w \<noteq> v"
  shows "interferes w s (snd (writer_store env s v st a b c))"
proof -
  have 1: "interferes w t (me_others env p t)" for p t by (rule others_step [OF ok])
  have 2: "interferes w t (u\<lparr>mw_nvs := (mw_nvs u)(v := n)\<rparr>) = interferes w t u" for t u n
    using \<open>w \<noteq> v\<close> by (simp add: interferes_def same_volume_def shut_def)
  have 3: "interferes w t (snd (writer_store_publish u v st r)) = interferes w t u" for t u r
    using \<open>w \<noteq> v\<close> by (simp add: interferes_def same_volume_def shut_def writer_store_publish_def Let_def)
  have 4: "interferes w s (me_others env p ((me_others env q s)\<lparr>mw_nvs := (mw_nvs (me_others env q s))(v := n)\<rparr>))"
    for p q n
    by (rule interferes_trans [OF _ 1]) (simp add: 1 2)
  show ?thesis
    by (simp add: writer_store_def Let_def 1 2 3 4 split: sum.split prod.split)
qed

lemma new_record_error: "writer_new_record st a b c \<noteq> Inl ESP_OK"
  by (simp add: writer_new_record_def)

text \<open>A store that succeeds in a transition: the new record is current and on flash.\<close>

lemma store_ok:
  assumes store: "writer_store env s v st a b c = (ESP_OK, s')" and ok: "others_ok env v"
    and law: "\<And>r old. fst (me_nvs_set env r old) = ESP_OK \<Longrightarrow> snd (me_nvs_set env r old) = Some (Record_blob r)"
    and "st \<noteq> WRITER_PERSIST_QUARANTINE" and "st \<noteq> WRITER_PERSIST_HOST"
  shows "\<exists>r. writer_new_record st a b c = Inr r \<and> mw_record s' v = r \<and>
    mw_nvs s' v = Some (Record_blob r) \<and> \<not> wg_quarantined (mw_gate s' v) \<and>
    wg_transition_pending (mw_gate s' v)"
proof -
  define t where "t = me_others env (Store st) s"
  from store obtain r e n where r: "writer_new_record st a b c = Inr r"
    and allowed: "writer_store_state_allowed t v st"
    and set: "me_nvs_set env r (mw_nvs t v) = (e, n)" and e: "e = ESP_OK"
    and pub: "writer_store_publish (me_others env (Stored st) (t\<lparr>mw_nvs := (mw_nvs t)(v := n)\<rparr>)) v st r = (ESP_OK, s')"
    by (auto simp: writer_store_def Let_def t_def new_record_error split: if_splits sum.splits prod.splits)
  define u where "u = t\<lparr>mw_nvs := (mw_nvs t)(v := n)\<rparr>"
  have n: "n = Some (Record_blob r)" using law [of r "mw_nvs t v"] set e by simp
  from allowed assms(4,5) have "wg_transition_pending (mw_gate t v)"
    by (cases st) (simp_all add: writer_store_state_allowed_def Let_def split: if_splits)
  then have "wg_transition_pending (mw_gate u v)" by (simp add: u_def)
  with others_step [OF ok, of u "Stored st"]
  have step: "same_volume v u (me_others env (Stored st) u) \<or> shut v (me_others env (Stored st) u)"
    by (simp add: interferes_def)
  from pub assms(4) have s': "s' = (me_others env (Stored st) u)\<lparr>mw_record :=
      (mw_record (me_others env (Stored st) u))(v := r)\<rparr>"
    and nq: "\<not> wg_quarantined (mw_gate (me_others env (Stored st) u) v)"
    and tp: "wg_transition_pending (mw_gate (me_others env (Stored st) u) v)"
    unfolding u_def by (simp_all add: writer_store_publish_def Let_def split: if_splits)
  from step nq have "same_volume v u (me_others env (Stored st) u)" by (auto simp: shut_def)
  then have "mw_nvs (me_others env (Stored st) u) v = Some (Record_blob r)"
    by (simp add: same_volume_def u_def n)
  then show ?thesis using r s' nq tp by simp
qed

section \<open>Transitions\<close>

lemma wait_interferes:
  assumes "others_ok env v"
  shows "interferes v s (snd (wait_quiescent_loop env deadline step waited i s w))"
  using assms
proof (induction env deadline step waited i s w rule: wait_quiescent_loop.induct)
  case (1 env deadline step waited i s w)
  let ?t = "me_others env (Poll i) s"
  have t: "interferes v s ?t" by (rule others_step [OF "1.prems"])
  have eq: "wait_quiescent_loop env deadline step waited i s w =
      (if writer_gate_quiescent env (Poll i) ?t w then (True, ?t)
       else if waited \<ge> deadline then (False, ?t)
       else wait_quiescent_loop env deadline step
              (waited + (if step = 0 then 1 else step)) (i + 1) ?t w)"
    by (subst wait_quiescent_loop.simps) (simp add: Let_def)
  show ?case
  proof (cases "writer_gate_quiescent env (Poll i) ?t w \<or> deadline \<le> waited")
    case True
    then show ?thesis using t by (auto simp: eq)
  next
    case False
    then have "interferes v ?t (snd (wait_quiescent_loop env deadline step
        (waited + (if step = 0 then 1 else step)) (i + 1) ?t w))"
      using "1.IH" [OF refl _ _ "1.prems"] by simp
    with False t show ?thesis unfolding eq by (auto intro: interferes_trans)
  qed
qed

lemma transition_cases:
  assumes tr: "msc_transition env s v store finish = (ok, s')" and o: "others_ok env v"
  shows "(\<not> ok \<and> shut v s') \<or>
    (ok \<and> (\<exists>t u w. interferes v s t \<and> store t = (ESP_OK, u) \<and> interferes v u w \<and>
       on_gate finish v w = (True, s')))"
proof -
  define s1 where "s1 = snd (writer_wait_quiescent env s v)"
  have s1: "interferes v s s1"
    unfolding s1_def writer_wait_quiescent_def by (rule wait_interferes [OF o])
  have t: "interferes v s (me_others env Refresh s1)"
    by (rule interferes_trans [OF s1 others_step [OF o]])
  have q: "shut v (msc_quarantine env x v)" for x by (rule quarantine_shuts [OF o])
  have w: "interferes v u (me_others env Finish u)" for u by (rule others_step [OF o])
  obtain d where d: "writer_wait_quiescent env s v = (d, s1)" by (simp add: s1_def prod_eq_iff)
  obtain e u where u: "store (me_others env Refresh s1) = (e, u)" by (cases "store (me_others env Refresh s1)")
  obtain f z where z: "on_gate finish v (me_others env Finish u) = (f, z)"
    by (cases "on_gate finish v (me_others env Finish u)")
  have "(ok, s') =
      (if \<not> d then (False, msc_quarantine env s1 v)
       else if writer_refresh env v \<noteq> ESP_OK
       then (False, msc_quarantine env (me_others env Refresh s1) v)
       else if e \<noteq> ESP_OK then (False, msc_quarantine env u v)
       else if \<not> f then (False, msc_quarantine env z v) else (True, z))"
    using tr by (simp add: msc_transition_def d u z cong: if_cong)
  then show ?thesis using q t u w z by (auto split: if_splits) blast+
qed

section \<open>Leases\<close>

definition nvs_stores :: "msc_env \<Rightarrow> bool" where
  "nvs_stores env \<longleftrightarrow>
     (\<forall>r old. fst (me_nvs_set env r old) = ESP_OK \<longrightarrow>
        snd (me_nvs_set env r old) = Some (Record_blob r))"

lemma nvs_storesD:
  "nvs_stores env \<Longrightarrow> fst (me_nvs_set env r old) = ESP_OK \<Longrightarrow>
     snd (me_nvs_set env r old) = Some (Record_blob r)"
  by (simp add: nvs_stores_def)

lemma on_gate_eq: "on_gate f v s = (r, s') \<longleftrightarrow>
    f (mw_gate s v) = (r, mw_gate s' v) \<and> s' = set_gate v (mw_gate s' v) s"
  by (cases "f (mw_gate s v)") (auto simp: on_gate_def)

text \<open>The store and the finish of a transition, put together.\<close>

lemma stored_transition:
  assumes tr: "msc_transition env s v (\<lambda>t. writer_store env t v st a b c) finish = (True, s')"
    and o: "others_ok env v" and law: "nvs_stores env"
    and st: "st \<noteq> WRITER_PERSIST_QUARANTINE" "st \<noteq> WRITER_PERSIST_HOST"
    and fin: "\<And>g. \<not> wg_transition_pending g \<Longrightarrow> \<not> fst (finish g)"
  shows "\<exists>r g. writer_new_record st a b c = Inr r \<and> mw_record s' v = r \<and>
    mw_nvs s' v = Some (Record_blob r) \<and> finish g = (True, mw_gate s' v)"
proof -
  from transition_cases [OF tr o] obtain t u w where
    store: "writer_store env t v st a b c = (ESP_OK, u)" and uw: "interferes v u w"
    and fg: "on_gate finish v w = (True, s')" by auto
  from store_ok [OF store o nvs_storesD [OF law] st] obtain r where
    r: "writer_new_record st a b c = Inr r" "mw_record u v = r" "mw_nvs u v = Some (Record_blob r)"
    and tp: "wg_transition_pending (mw_gate u v)" by auto
  from fg have f: "finish (mw_gate w v) = (True, mw_gate s' v)"
    and set: "s' = set_gate v (mw_gate s' v) w"
    by (simp_all add: on_gate_eq)
  have s': "mw_record s' = mw_record w" "mw_nvs s' = mw_nvs w"
    by (subst set, simp)+
  have "wg_transition_pending (mw_gate w v)" using fin [of "mw_gate w v"] f by auto
  with uw tp have "same_volume v u w" by (auto simp: interferes_def shut_def)
  then show ?thesis using r s' f by (auto simp: same_volume_def)
qed

lemma hex_char_lower: "n < 16 \<Longrightarrow> lower_hex (hex_char n)"
proof -
  have "\<forall>n \<in> set [0..<16]. lower_hex (hex_char n)" by code_simp
  then show "n < 16 \<Longrightarrow> lower_hex (hex_char n)" by simp
qed

lemma hex_encode_id:
  assumes "length bs = 16" shows "writer_hex_id (Some (writer_hex_encode bs))"
proof -
  have "length (writer_hex_encode bs) = 2 * length bs \<and> list_all lower_hex (writer_hex_encode bs)"
    by (induction bs) (auto intro!: hex_char_lower unat_low_nibble unat_high_nibble)
  then show ?thesis using assms by (simp add: writer_hex_id_def)
qed

lemma finish_acquire_holds:
  "writer_finish_acquire g = (True, g') \<Longrightarrow> wg_lease_held g' \<and> \<not> wg_transition_pending g'"
  by (auto simp: writer_finish_acquire_def split: if_splits)

text \<open>
  Property C14: a lease is on flash before it is granted. When an acquisition returns success,
  whatever other tasks did meanwhile, the volume is held, the host cannot write, and both the
  record in memory and the blob in NVS carry exactly the operation, the new lease identifier
  and the session, so a reset at any later moment finds it.
\<close>

theorem granted_lease_is_persisted:
  assumes "esp_vision_msc_writer_acquire env s volume operation sid out = (ESP_OK, out', s')"
    and "volume_of volume = Some v" and "others_ok env v" and "nvs_stores env"
    and "length (me_random env) = 16"
  shows "\<exists>lease. out' = Some lease \<and> writer_hex_id (Some lease) \<and>
    wg_lease_held (mw_gate s' v) \<and> \<not> writer_host_writable (mw_gate s' v) \<and>
    \<not> wg_transition_pending (mw_gate s' v) \<and>
    mw_record s' v = leased_record (the operation) lease (the sid) \<and>
    mw_nvs s' v = Some (Record_blob (leased_record (the operation) lease (the sid)))"
proof -
  define lease where "lease = writer_hex_encode (me_random env)"
  obtain started s1 where b: "on_gate writer_begin_acquire v s = (started, s1)"
    by (cases "on_gate writer_begin_acquire v s")
  obtain ok s2 where t: "msc_transition env s1 v
      (\<lambda>t. writer_store env t v WRITER_PERSIST_LEASED operation (Some lease) sid)
      writer_finish_acquire = (ok, s2)" by fastforce
  have "ok \<and> out' = Some lease \<and> s' = s2"
    using assms(1) by (simp add: esp_vision_msc_writer_acquire_def msc_ready_def assms(2) b t
        lease_def [symmetric] split: if_splits)
  then have out: "out' = Some lease" and tr: "msc_transition env s1 v
      (\<lambda>t. writer_store env t v WRITER_PERSIST_LEASED operation (Some lease) sid)
      writer_finish_acquire = (True, s')" using t by simp_all
  have fin: "\<not> fst (writer_finish_acquire g)" if "\<not> wg_transition_pending g" for g
    using that by (simp add: writer_finish_acquire_def)
  from stored_transition [OF tr assms(3,4) _ _ fin] obtain r g where
    r: "writer_new_record WRITER_PERSIST_LEASED operation (Some lease) sid = Inr r"
      "mw_record s' v = r" "mw_nvs s' v = Some (Record_blob r)"
    and g: "writer_finish_acquire g = (True, mw_gate s' v)" by auto
  have "r = leased_record (the operation) lease (the sid)"
    using r(1) by (simp add: writer_new_record_def split: if_splits)
  moreover have "wg_lease_held (mw_gate s' v) \<and> \<not> wg_transition_pending (mw_gate s' v)"
    by (rule finish_acquire_holds [OF g])
  ultimately show ?thesis using r out hex_encode_id [OF assms(5)]
    by (simp add: lease_def writer_host_writable_def)
qed

section \<open>Every transition ends in one of two ways\<close>

lemma on_gate_self: "snd (on_gate f v s) = set_gate v (snd (f (mw_gate s v))) s"
  by (simp add: on_gate_def split: prod.split)

lemma on_gate_fst: "fst (on_gate f v s) = fst (f (mw_gate s v))"
  by (simp add: on_gate_def split: prod.split)

lemma transition_fails_shut:
  "msc_transition env s v store finish = (False, s') \<Longrightarrow> others_ok env v \<Longrightarrow> shut v s'"
  using transition_cases [of env s v store finish False s'] by simp

lemma eject_fails_shut:
  assumes "msc_eject env s v = (False, s')" and "others_ok env v"
  shows "shut v s'"
  using assms transition_fails_shut [of env _ v] quarantine_shuts [of env v]
  by (auto simp: msc_eject_def Let_def split: if_splits prod.splits)

lemma load_fails_shut:
  assumes "msc_load env s v = (False, s')" and "others_ok env v"
  shows "shut v s'"
  using assms transition_fails_shut [of env _ v] quarantine_shuts [of env v]
  by (auto simp: msc_load_def Let_def split: if_splits prod.splits)

lemma release_fails_shut:
  assumes "esp_vision_msc_writer_release env s volume operation lease sid safe = (err, s')"
    and "volume_of volume = Some v" and "others_ok env v" and "err \<noteq> ESP_OK"
  shows "err = ESP_ERR_INVALID_ARG \<and> s' = s \<or> err = ESP_ERR_INVALID_STATE \<and> shut v s'"
  using assms(1,2,4) transition_fails_shut [OF _ assms(3)] quarantine_shuts [OF assms(3)]
  by (auto simp: esp_vision_msc_writer_release_def msc_ready_def Let_def split: if_splits prod.splits)

lemma acquire_fails_shut:
  assumes "esp_vision_msc_writer_acquire env s volume operation sid out = (err, out', s')"
    and "volume_of volume = Some v" and "others_ok env v" and "err \<noteq> ESP_OK"
  shows "out' = out \<and> (err = ESP_ERR_INVALID_ARG \<and> s' = s \<or>
    err = ESP_ERR_INVALID_STATE \<and> (if fst (writer_begin_acquire (mw_gate s v)) then shut v s'
      else mw_gate s' v = mw_gate s v))"
proof -
  obtain started s1 where b: "on_gate writer_begin_acquire v s = (started, s1)"
    by (cases "on_gate writer_begin_acquire v s")
  have st: "started = fst (writer_begin_acquire (mw_gate s v))"
    using on_gate_fst [of writer_begin_acquire v s] b by simp
  have s1: "s1 = set_gate v (snd (writer_begin_acquire (mw_gate s v))) s"
    using on_gate_self [of writer_begin_acquire v s] b by simp
  have unchanged: "mw_gate s1 v = mw_gate s v" if "\<not> started"
    using that st by (auto simp: s1 writer_begin_acquire_def)
  obtain ok s2 where t: "msc_transition env s1 v
      (\<lambda>t. writer_store env t v WRITER_PERSIST_LEASED operation
         (Some (writer_hex_encode (me_random env))) sid)
      writer_finish_acquire = (ok, s2)" by fastforce
  have "(err, out', s') =
      (if \<not> (writer_volume_compiled env v \<and> mw_initialized s \<and> mw_store_ready s) \<or>
          \<not> writer_hex_id operation \<or> \<not> writer_hex_id sid \<or> out = None
       then (ESP_ERR_INVALID_ARG, out, s)
       else if \<not> started then (ESP_ERR_INVALID_STATE, out, s1)
       else if \<not> ok then (ESP_ERR_INVALID_STATE, out, s2)
       else (ESP_OK, Some (writer_hex_encode (me_random env)), s2))"
    using assms(1)
    by (cases "writer_volume_compiled env v \<and> mw_initialized s \<and> mw_store_ready s")
      (simp_all add: esp_vision_msc_writer_acquire_def msc_ready_def assms(2) b t cong: if_cong)
  moreover have "shut v s2" if "\<not> ok"
    using transition_fails_shut [OF _ assms(3)] t that by auto
  ultimately show ?thesis using assms(4) unchanged st by (auto split: if_splits)
qed

text \<open>
  Property C15: no handover of a volume is ever left half done. An eject or a load by the host,
  an acquisition that began and a release either succeed or leave the volume quarantined, with
  no lease and no transition, whatever step failed and whatever other tasks did; refused
  arguments change nothing.
\<close>

theorem handover_completes_or_quarantines:
  assumes "volume_of volume = Some v" and "others_ok env v"
  shows "(fst (msc_eject env s v) \<or> shut v (snd (msc_eject env s v))) \<and>
    (fst (msc_load env s v) \<or> shut v (snd (msc_load env s v))) \<and>
    (case esp_vision_msc_writer_release env s volume operation lease sid safe of (err, s') \<Rightarrow>
       err = ESP_OK \<or> err = ESP_ERR_INVALID_ARG \<and> s' = s \<or>
       err = ESP_ERR_INVALID_STATE \<and> shut v s') \<and>
    (case esp_vision_msc_writer_acquire env s volume operation sid out of (err, out', s') \<Rightarrow>
       err = ESP_OK \<or> out' = out \<and>
         (err = ESP_ERR_INVALID_ARG \<and> s' = s \<or>
          err = ESP_ERR_INVALID_STATE \<and> (if fst (writer_begin_acquire (mw_gate s v)) then shut v s'
            else mw_gate s' v = mw_gate s v)))"
proof (intro conjI)
  show "fst (msc_eject env s v) \<or> shut v (snd (msc_eject env s v))"
    using eject_fails_shut [OF _ assms(2), of s] by (cases "msc_eject env s v") auto
  show "fst (msc_load env s v) \<or> shut v (snd (msc_load env s v))"
    using load_fails_shut [OF _ assms(2), of s] by (cases "msc_load env s v") auto
  show "case esp_vision_msc_writer_release env s volume operation lease sid safe of (err, s') \<Rightarrow>
       err = ESP_OK \<or> err = ESP_ERR_INVALID_ARG \<and> s' = s \<or>
       err = ESP_ERR_INVALID_STATE \<and> shut v s'"
    using release_fails_shut [OF _ assms, of s operation lease sid safe]
    by (cases "esp_vision_msc_writer_release env s volume operation lease sid safe") auto
  show "case esp_vision_msc_writer_acquire env s volume operation sid out of (err, out', s') \<Rightarrow>
       err = ESP_OK \<or> out' = out \<and>
         (err = ESP_ERR_INVALID_ARG \<and> s' = s \<or>
          err = ESP_ERR_INVALID_STATE \<and> (if fst (writer_begin_acquire (mw_gate s v)) then shut v s'
            else mw_gate s' v = mw_gate s v))"
    using acquire_fails_shut [OF _ assms, of s operation sid out]
    by (cases "esp_vision_msc_writer_acquire env s volume operation sid out") auto
qed

section \<open>Release\<close>

lemma finish_release_hands_off:
  "writer_finish_release g = (True, g') \<Longrightarrow>
     \<not> wg_lease_held g' \<and> wg_handoff_ready g' \<and> wg_managed g' \<and> wg_ejected g'"
  by (auto simp: writer_finish_release_def split: if_splits)

text \<open>
  Only the holder of the lease gives it back. A release succeeds only if the volume
  is leased, not quarantined, and the operation, lease and session identifiers are those of the
  record; it then stores the handoff in NVS and leaves the volume ejected for the host. A
  release that names another lease does not succeed and shuts the volume.
\<close>

theorem release_needs_the_lease:
  assumes "esp_vision_msc_writer_release env s volume operation lease sid safe = (err, s')"
    and "volume_of volume = Some v" and "others_ok env v" and "nvs_stores env"
    and "err \<noteq> ESP_ERR_INVALID_ARG"
  shows "if err = ESP_OK
    then lease_matches (mw_gate s v) (mw_record s v) (the operation) (the lease) (the sid) \<and>
      \<not> wg_lease_held (mw_gate s' v) \<and> wg_handoff_ready (mw_gate s' v) \<and>
      \<not> writer_host_writable (mw_gate s' v) \<and>
      mw_nvs s' v = Some (Record_blob (plain_record WRITER_PERSIST_HANDOFF))
    else shut v s'"
proof (cases "err = ESP_OK")
  case False
  then show ?thesis using release_fails_shut [OF assms(1-3)] assms(5) by auto
next
  case True
  let ?m = "lease_matches (mw_gate s v) (mw_record s v) (the operation) (the lease) (the sid)"
  obtain started s1 where b: "(if ?m then on_gate writer_begin_release v s else (False, s)) = (started, s1)"
    by fastforce
  obtain ok s2 where t: "msc_transition env s1 v
      (\<lambda>t. writer_store env t v WRITER_PERSIST_HANDOFF None None None) writer_finish_release = (ok, s2)"
    by fastforce
  have res: "started \<and> ok \<and> s' = s2"
    using assms(1) True by (auto simp: esp_vision_msc_writer_release_def msc_ready_def assms(2) b t
        split: if_splits)
  then have m: ?m using b by (auto split: if_splits)
  have fin: "\<not> fst (writer_finish_release g)" if "\<not> wg_transition_pending g" for g
    using that by (simp add: writer_finish_release_def)
  from res t have "msc_transition env s1 v
      (\<lambda>t. writer_store env t v WRITER_PERSIST_HANDOFF None None None) writer_finish_release = (True, s')"
    by simp
  from stored_transition [OF this assms(3,4) _ _ fin] obtain r g where
    r: "writer_new_record WRITER_PERSIST_HANDOFF None None None = Inr r"
      "mw_nvs s' v = Some (Record_blob r)"
    and g: "writer_finish_release g = (True, mw_gate s' v)" by auto
  from r(1) have "r = plain_record WRITER_PERSIST_HANDOFF" by (simp add: writer_new_record_def)
  with r(2) m finish_release_hands_off [OF g] True show ?thesis
    by (simp add: writer_host_writable_def)
qed

section \<open>Change of the session\<close>

lemma session_changed_volume_shuts:
  assumes "others_ok env v" and "writer_volume_compiled env v"
    and "wg_lease_held (mw_gate s v) \<or> wg_transition_pending (mw_gate s v)"
    and "\<forall>c. current = Some c \<longrightarrow> c \<noteq> c_string (wr_session_id (mw_record s v))"
  shows "shut v (session_changed_volume env current s v)"
proof -
  have "shut v (set_gate v (writer_session_invalidated (mw_gate s v)) s)"
    using assms(3) by (auto simp: shut_def writer_session_invalidated_def writer_quarantine_def)
  from store_shut [OF assms(1) this] show ?thesis
    using assms(2-4) by (auto simp: session_changed_volume_def Let_def split: option.split)
qed

lemma session_changed_volume_interferes:
  assumes o: "others_ok env v"
  shows "interferes v s (session_changed_volume env current s w)"
proof (cases "w = v")
  case False
  then have "interferes v s (snd (writer_store env (set_gate w g s) w WRITER_PERSIST_QUARANTINE None None None))" for g
    by (intro interferes_trans [OF set_gate_interferes store_other_volume [OF o]]) simp_all
  then show ?thesis by (simp add: session_changed_volume_def Let_def)
next
  case True
  have "interferes v s t" if "shut v t" for t
    using that by (simp add: interferes_def) (simp add: shut_def)
  then show ?thesis using session_changed_volume_shuts [OF o, of s current] True
    by (auto simp: session_changed_volume_def Let_def split: option.splits)
qed

text \<open>
  A lease does not outlive its session. After the notification that another session
  (or none) is current, every volume that was leased to, or in transition for, the old one is
  shut, while a lease of the session that is still current is kept unless other tasks shut the
  volume.
\<close>

theorem session_change_revokes_leases:
  assumes "mw_initialized s" and "mw_store_ready s" and "writer_volume_compiled env v"
    and "\<And>w. others_ok env w" and "wg_lease_held (mw_gate s v) \<or> wg_transition_pending (mw_gate s v)"
  shows "let s' = esp_vision_msc_writer_session_changed env s current;
             same = (current = Some (c_string (wr_session_id (mw_record s v))))
         in (\<not> same \<longrightarrow> shut v s') \<and>
            (same \<longrightarrow> interferes v s s')"
proof -
  let ?f = "session_changed_volume env current"
  have step: "interferes v t (?f t w)" for t w
    by (rule session_changed_volume_interferes [OF assms(4)])
  have now: "shut v (?f t v)"
    if "current \<noteq> Some (c_string (wr_session_id (mw_record s v)))" and "t = s \<or> same_volume v s t" for t
    using that assms(3,5)
    by (intro session_changed_volume_shuts assms(4)) (auto simp: same_volume_def)
  have other: "s = s \<or> same_volume v s (?f s w)" "same_volume v s (?f s w) \<or> shut v (?f s w)" for w
    using step [of s w] assms(5) by (auto simp: interferes_def)
  have stays: "shut v (?f t w)" if "shut v t" for t w using that step by (rule shut_persists)
  have eq: "esp_vision_msc_writer_session_changed env s current =
      ?f (?f s ESP_VISION_STORAGE_VOLUME_FLASH) ESP_VISION_STORAGE_VOLUME_SD"
    using assms(1,2) by (simp add: esp_vision_msc_writer_session_changed_def)
  have "shut v (?f (?f s ESP_VISION_STORAGE_VOLUME_FLASH) ESP_VISION_STORAGE_VOLUME_SD)"
    if ne: "current \<noteq> Some (c_string (wr_session_id (mw_record s v)))"
  proof (cases v)
    case ESP_VISION_STORAGE_VOLUME_FLASH
    with now [OF ne, of s] stays show ?thesis by simp
  next
    case ESP_VISION_STORAGE_VOLUME_SD
    from other(2) [of ESP_VISION_STORAGE_VOLUME_FLASH] show ?thesis
      using now [OF ne] stays ESP_VISION_STORAGE_VOLUME_SD by auto
  qed
  moreover have "interferes v s (?f (?f s ESP_VISION_STORAGE_VOLUME_FLASH) ESP_VISION_STORAGE_VOLUME_SD)"
    by (rule interferes_trans [OF step step])
  ultimately show ?thesis unfolding Let_def eq by blast
qed

section \<open>Boot\<close>

lemma init_volume_other: "w \<noteq> v \<Longrightarrow> mw_gate (init_volume env s v) w = mw_gate s w \<and>
    mw_record (init_volume env s v) w = mw_record s w"
  by (auto simp: init_volume_def Let_def writer_load_record_def host_record_def
      split: nvs_error.split option.split blob.split prod.split)

lemma init_volume_nvs: "mw_nvs (init_volume env s v) = mw_nvs s"
  by (auto simp: init_volume_def Let_def writer_load_record_def host_record_def
      split: nvs_error.split option.split blob.split prod.split)

text \<open>What the flash of a volume permits at boot.\<close>

definition host_state :: "msc_env \<Rightarrow> blob option \<Rightarrow> bool" where
  "host_state env b =
     (case me_nvs_read env of
        NVS_NOT_FOUND \<Rightarrow> True
      | NVS_FAILED e \<Rightarrow> e = ESP_OK
      | NVS_OK \<Rightarrow>
          (case b of None \<Rightarrow> True
           | Some Foreign_blob \<Rightarrow> False
           | Some (Record_blob r) \<Rightarrow> writer_record_valid r \<and>
               wr_state r \<in> {persist_code WRITER_PERSIST_HOST, persist_code WRITER_PERSIST_MANAGED_HOST}))"

lemma plain_record_state [simp]: "wr_state (plain_record st) = persist_code st"
  by (simp add: plain_record_def)

lemma init_volume_gate:
  assumes "\<And>e. me_nvs_read env = NVS_FAILED e \<Longrightarrow> e \<noteq> ESP_OK"
  shows "\<not> wg_lease_held (mw_gate (init_volume env s v) v) \<and>
    (writer_host_writable (mw_gate (init_volume env s v) v) \<longleftrightarrow>
       writer_volume_compiled env v \<and> host_state env (mw_nvs s v)) \<and>
    (writer_volume_compiled env v \<and> me_nvs_read env = NVS_OK \<and>
       mw_nvs s v = Some (Record_blob r) \<and> wr_state r = persist_code WRITER_PERSIST_LEASED \<longrightarrow>
       shut v (init_volume env s v))"
  using assms
  by (auto simp: init_volume_def Let_def writer_load_record_def host_record_def host_state_def
      writer_gate_init_def writer_host_writable_def shut_def
      split: nvs_error.split option.split blob.split prod.split)

text \<open>
  A lease does not outlive a reboot. After initialisation no volume is leased; the
  host may write a volume exactly if the volume exists and NVS says that it belongs to the host
  or says nothing; an unreadable, malformed, handed-off or leased record keeps the host out, and
  a volume whose record is a lease is quarantined.
\<close>

theorem boot_never_replays_a_lease:
  assumes "esp_vision_msc_writer_init env (msc_power_on nvs) = (ESP_OK, s)"
    and "\<And>e. me_nvs_read env = NVS_FAILED e \<Longrightarrow> e \<noteq> ESP_OK"
  shows "\<not> wg_lease_held (mw_gate s v) \<and>
    (writer_host_writable (mw_gate s v) \<longleftrightarrow> writer_volume_compiled env v \<and> host_state env (nvs v)) \<and>
    (writer_volume_compiled env v \<and> me_nvs_read env = NVS_OK \<and> nvs v = Some (Record_blob r) \<and>
       wr_state r = persist_code WRITER_PERSIST_LEASED \<longrightarrow> shut v s)"
proof -
  define s0 where "s0 = (msc_power_on nvs)\<lparr>mw_store_lock := True, mw_initialized := True,
      mw_store_ready := True\<rparr>"
  have nvs: "mw_nvs s0 = nvs" by (simp add: s0_def msc_power_on_def)
  have s: "s = init_volume env (init_volume env s0 ESP_VISION_STORAGE_VOLUME_FLASH)
      ESP_VISION_STORAGE_VOLUME_SD"
    using assms(1) by (auto simp: esp_vision_msc_writer_init_def msc_power_on_def s0_def Let_def
        split: if_splits)
  show ?thesis
  proof (cases v)
    case ESP_VISION_STORAGE_VOLUME_FLASH
    then show ?thesis using init_volume_gate [of env s0 v r, OF assms(2)]
        init_volume_other [of v ESP_VISION_STORAGE_VOLUME_SD env]
      by (simp add: s nvs shut_def)
  next
    case ESP_VISION_STORAGE_VOLUME_SD
    then show ?thesis
      using init_volume_gate [of env "init_volume env s0 ESP_VISION_STORAGE_VOLUME_FLASH" v r, OF assms(2)]
      by (simp add: s nvs init_volume_nvs)
  qed
qed

section \<open>The operations of other tasks\<close>

text \<open>
  The hypothesis \<open>others_ok\<close> is what the operations of this file guarantee: the USB task, the
  MicroPython task and the session notification, in any order, interfere only as it permits.
\<close>

datatype msc_task =
    Host_io_begin u8
  | Host_io_finish u8 bool
  | Host_write_complete u8 u32 bool
  | Host_io_failed u8
  | Host_start_stop u8 bool bool
  | Vfs_io_begin nat bool
  | Vfs_io_finish nat
  | Session_changed "cstring option"

fun msc_task_step :: "msc_env \<Rightarrow> msc \<Rightarrow> msc_task \<Rightarrow> msc" where
  "msc_task_step env s (Host_io_begin lun) = snd (esp_vision_msc_writer_host_io_begin env s lun)"
| "msc_task_step env s (Host_io_finish lun w) =
     snd (esp_vision_msc_writer_host_io_finish env s lun w)"
| "msc_task_step env s (Host_write_complete lun n ok) =
     snd (esp_vision_msc_writer_host_write_complete env s lun n ok)"
| "msc_task_step env s (Host_io_failed lun) = esp_vision_msc_writer_host_io_failed env s lun"
| "msc_task_step env s (Host_start_stop lun start load_eject) =
     snd (esp_vision_msc_writer_host_start_stop env s lun start load_eject)"
| "msc_task_step env s (Vfs_io_begin volume w) = snd (esp_vision_msc_writer_vfs_begin env s volume w)"
| "msc_task_step env s (Vfs_io_finish volume) = snd (esp_vision_msc_writer_vfs_finish env s volume)"
| "msc_task_step env s (Session_changed sid) = esp_vision_msc_writer_session_changed env s sid"

definition transfer_op :: "(gate \<Rightarrow> bool \<times> gate) \<Rightarrow> bool" where
  "transfer_op f \<longleftrightarrow>
     (\<forall>g. (wg_quarantined g \<longrightarrow> wg_quarantined (snd (f g))) \<and>
        wg_transition_pending (snd (f g)) = wg_transition_pending g \<and>
        wg_lease_held (snd (f g)) = wg_lease_held g)"

lemma transfer_ops:
  "transfer_op writer_begin_host_io" "transfer_op (\<lambda>g. writer_finish_host_io g w)"
  "transfer_op (\<lambda>g. writer_complete_host_write g n ok)" "transfer_op writer_begin_vfs_io"
  "transfer_op writer_finish_vfs_io"
  by (simp_all add: transfer_op_def gate_steps Let_def)

lemma shut_interferes: "shut v t \<Longrightarrow> interferes v s t"
  by (simp add: interferes_def) (simp add: shut_def)

lemma transfer_interferes: "transfer_op f \<Longrightarrow> interferes v s (snd (on_gate f w s))"
  by (cases "w = v")
    (auto simp: on_gate_self transfer_op_def interferes_def same_volume_def shut_def)

lemma on_gate_other: "w \<noteq> v \<Longrightarrow> interferes v s (snd (on_gate f w s))"
  by (simp add: on_gate_self set_gate_interferes)

lemma quarantine_interferes:
  assumes o: "others_ok env v" shows "interferes v s (msc_quarantine env s w)"
proof (cases "w = v")
  case True
  then show ?thesis using quarantine_shuts [OF o] by (simp add: shut_interferes)
next
  case False
  show ?thesis unfolding msc_quarantine_def
    by (rule interferes_trans [OF set_gate_interferes [OF False] store_other_volume [OF o]])
      (use False in simp)
qed

lemma transition_other_volume:
  assumes o: "others_ok env v" "others_ok env w" and "w \<noteq> v"
    and store: "\<And>t. interferes v t (snd (store t))"
  shows "interferes v s (snd (msc_transition env s w store finish))"
proof -
  define s1 where "s1 = snd (writer_wait_quiescent env s w)"
  have s1: "interferes v s s1" unfolding s1_def writer_wait_quiescent_def by (rule wait_interferes [OF o(1)])
  define t where "t = me_others env Refresh s1"
  have t: "interferes v s t" unfolding t_def by (rule interferes_trans [OF s1 others_step [OF o(1)]])
  define u where "u = snd (store t)"
  have u: "interferes v s u" unfolding u_def by (rule interferes_trans [OF t store])
  define z where "z = snd (on_gate finish w (me_others env Finish u))"
  have z: "interferes v s z" unfolding z_def
    by (rule interferes_trans [OF u interferes_trans [OF others_step [OF o(1)] on_gate_other [OF \<open>w \<noteq> v\<close>]]])
  have q: "interferes v s (msc_quarantine env x w)" if "interferes v s x" for x
    by (rule interferes_trans [OF that quarantine_interferes [OF o(1)]])
  show ?thesis
    using q [OF s1] q [OF t] q [OF u] q [OF z] z
    by (simp add: msc_transition_def split_beta Let_def s1_def t_def u_def z_def)
qed

text \<open>The transition of the volume itself cannot begin while one is pending or a lease is held.\<close>

lemma eject_interferes:
  assumes o: "\<And>w. others_ok env w"
  shows "interferes v s (snd (msc_eject env s w))"
proof (cases "w = v")
  case True
  show ?thesis
  proof (cases "fst (msc_eject env s w)")
    case False
    then show ?thesis using eject_fails_shut [OF _ o, of s w] True
      by (cases "msc_eject env s w") (auto intro: shut_interferes)
  next
    case began: True
    then have "fst (writer_begin_eject (mw_gate s v))"
      using True on_gate_fst [of writer_begin_eject v s]
      by (auto simp: msc_eject_def Let_def split: prod.splits if_splits)
    then show ?thesis
      by (simp add: interferes_def shut_def writer_begin_eject_def split: if_splits)
  qed
next
  case False
  have st: "interferes v t (snd (if m then writer_store env t w x None None None else (ESP_OK, t)))" for t m x
    using store_other_volume [OF o] False by simp
  show ?thesis
    using interferes_trans [OF on_gate_other [OF False] transition_other_volume [OF o o False st]]
      interferes_trans [OF on_gate_other [OF False] quarantine_interferes [OF o]]
    by (simp add: msc_eject_def Let_def split_beta)
qed

lemma load_interferes:
  assumes o: "\<And>w. others_ok env w"
  shows "interferes v s (snd (msc_load env s w))"
proof (cases "w = v")
  case True
  show ?thesis
  proof (cases "fst (msc_load env s w)")
    case False
    then show ?thesis using load_fails_shut [OF _ o, of s w] True
      by (cases "msc_load env s w") (auto intro: shut_interferes)
  next
    case began: True
    then have "fst (writer_begin_load (mw_gate s v)) \<or> writer_host_writable (mw_gate s v)"
      using True on_gate_fst [of writer_begin_load v s]
      by (auto simp: msc_load_def Let_def split: prod.splits if_splits)
    then show ?thesis
      by (auto simp: interferes_def shut_def writer_begin_load_def gate_tests split: if_splits)
  qed
next
  case False
  have st: "interferes v t (snd (if m then writer_store env t w x None None None else (ESP_OK, t)))" for t m x
    using store_other_volume [OF o] False by simp
  show ?thesis
    using interferes_trans [OF on_gate_other [OF False] transition_other_volume [OF o o False st]]
      interferes_trans [OF on_gate_other [OF False] quarantine_interferes [OF o]]
      on_gate_other [OF False]
    by (simp add: msc_load_def Let_def split_beta)
qed

lemma task_interferes:
  assumes o: "\<And>w. others_ok env w"
  shows "interferes v s (msc_task_step env s task)"
proof -
  have q: "interferes v s (msc_quarantine env t w)" if "interferes v s t" for t w
    by (rule interferes_trans [OF that quarantine_interferes [OF o]])
  have f: "interferes v s (snd (on_gate f w s)) \<and>
      interferes v s (msc_quarantine env (snd (on_gate f w s)) w)" if "transfer_op f" for f w
    using transfer_interferes [OF that] q by blast
  note parts = f [OF transfer_ops(1)] f [OF transfer_ops(2)] f [OF transfer_ops(3)]
    f [OF transfer_ops(4)] f [OF transfer_ops(5)]
  show ?thesis
  proof (cases task)
    case (Session_changed sid)
    then show ?thesis
      using interferes_trans [OF session_changed_volume_interferes [OF o] session_changed_volume_interferes [OF o]]
      by (simp add: esp_vision_msc_writer_session_changed_def)
  next
    case (Host_start_stop lun start le)
    then show ?thesis
      by (simp add: esp_vision_msc_writer_host_start_stop_def eject_interferes [OF o]
          load_interferes [OF o] split: option.split)
  qed (simp_all add: parts q esp_vision_msc_writer_host_io_begin_def
      esp_vision_msc_writer_host_io_finish_def esp_vision_msc_writer_host_write_complete_def
      esp_vision_msc_writer_host_io_failed_def esp_vision_msc_writer_vfs_begin_def
      esp_vision_msc_writer_vfs_finish_def Let_def split_beta split: option.split)
qed

lemma tasks_interfere:
  assumes "\<And>w. others_ok env w" shows "interferes v s (foldl (msc_task_step env) s tasks)"
  by (induction tasks arbitrary: s)
    (auto intro: interferes_trans [OF task_interferes [OF assms]])

section \<open>Examples\<close>

text \<open>
  A board with an SD card. While the acquisition of the ejected flash volume drains, MicroPython
  finishes the transfer that was under way, and the host tries to begin one.
\<close>

definition quiet_env :: msc_env where
  "quiet_env =
     \<lparr>me_sdcard = True, me_tick_hz = 100, me_others = (\<lambda>p s. s), me_handles = (\<lambda>p. 0),
      me_sync = (\<lambda>v. ESP_OK), me_refresh = (\<lambda>v. ESP_OK), me_nvs_read = NVS_OK,
      me_nvs_open = (\<lambda>st. ESP_OK), me_nvs_set = (\<lambda>r old. (ESP_OK, Some (Record_blob r))),
      me_nvs_commit = (\<lambda>st. ESP_OK), me_random = replicate 16 0xA5, me_lock_created = True\<rparr>"

definition busy_env :: msc_env where
  "busy_env = quiet_env\<lparr>me_others := (\<lambda>p s.
     if p = Poll 1 then foldl (msc_task_step quiet_env) s [Vfs_io_finish 0, Host_io_begin 0] else s)\<rparr>"

lemma quiet_others: "others_ok quiet_env v"
  by (simp add: others_ok_def quiet_env_def)

lemma busy_others: "others_ok busy_env v"
  by (auto simp: others_ok_def busy_env_def
      intro: tasks_interfere [OF quiet_others, where tasks = "[Vfs_io_finish 0, Host_io_begin 0]", simplified])

lemma demo_nvs: "nvs_stores quiet_env" "nvs_stores busy_env"
  by (simp_all add: nvs_stores_def busy_env_def quiet_env_def)

definition demo_operation :: cstring where "demo_operation = replicate 32 (CHR ''1'')"
definition demo_session :: cstring where "demo_session = replicate 32 (CHR ''c'')"

lemma busy_env_sel:
  "me_sdcard busy_env" "me_tick_hz busy_env = 100" "me_handles busy_env p = 0"
  "me_sync busy_env v = ESP_OK" "me_refresh busy_env v = ESP_OK" "me_nvs_read busy_env = NVS_OK"
  "me_nvs_open busy_env st = ESP_OK" "me_nvs_set busy_env r old = (ESP_OK, Some (Record_blob r))"
  "me_nvs_commit busy_env st = ESP_OK" "me_random busy_env = replicate 16 0xA5"
  "p \<noteq> Poll 1 \<Longrightarrow> me_others busy_env p s = s"
  "me_others busy_env (Poll (Suc 0)) s = msc_task_step quiet_env (msc_task_step quiet_env s (Vfs_io_finish 0)) (Host_io_begin 0)"
  by (simp_all add: busy_env_def quiet_env_def)

lemma volume_of_sel: "volume_of 0 = Some ESP_VISION_STORAGE_VOLUME_FLASH"
  by (simp add: volume_of_def)

text \<open>A state with the flash volume as given and the SD volume with the host.\<close>

definition demo_state :: "gate \<Rightarrow> writer_record \<Rightarrow> msc" where
  "demo_state g r =
     \<lparr>mw_initialized = True, mw_store_ready = True, mw_store_lock = True,
      mw_gate = (\<lambda>v. writer_gate_init False False)(ESP_VISION_STORAGE_VOLUME_FLASH := g),
      mw_record = (\<lambda>v. plain_record WRITER_PERSIST_HOST)(ESP_VISION_STORAGE_VOLUME_FLASH := r),
      mw_nvs = (\<lambda>v. None)(ESP_VISION_STORAGE_VOLUME_FLASH := Some (Record_blob r))\<rparr>"

lemma demo_state_sel [simp]:
  "mw_initialized (demo_state g r)" "mw_store_ready (demo_state g r)" "mw_store_lock (demo_state g r)"
  "mw_gate (demo_state g r) ESP_VISION_STORAGE_VOLUME_FLASH = g"
  "mw_record (demo_state g r) ESP_VISION_STORAGE_VOLUME_FLASH = r"
  by (simp_all add: demo_state_def)

lemma demo_ids:
  "writer_hex_id (Some demo_operation)" "writer_hex_id (Some demo_session)"
  "writer_hex_id (Some (writer_hex_encode (replicate 16 0xA5)))"
  by code_simp+

text \<open>Handed off, with one transfer of MicroPython under way; and leased.\<close>

definition handed_gate :: gate where
  "handed_gate = (writer_gate_init False True)\<lparr>wg_in_flight_io := 1\<rparr>"

definition leased_gate :: gate where
  "leased_gate = (writer_gate_init False True)\<lparr>wg_lease_held := True, wg_handoff_ready := False\<rparr>"

lemma quiet_env_sel:
  "me_sdcard quiet_env" "me_tick_hz quiet_env = 100" "me_handles quiet_env p = 0"
  "me_sync quiet_env v = ESP_OK" "me_refresh quiet_env v = ESP_OK" "me_nvs_read quiet_env = NVS_OK"
  "me_nvs_open quiet_env st = ESP_OK" "me_nvs_set quiet_env r old = (ESP_OK, Some (Record_blob r))"
  "me_nvs_commit quiet_env st = ESP_OK" "me_others quiet_env p s = s"
  by (simp_all add: quiet_env_def)

lemma vfs_finishes:
  "wg_in_flight_io (mw_gate s ESP_VISION_STORAGE_VOLUME_FLASH) = 1 \<Longrightarrow> mw_initialized s \<Longrightarrow>
   mw_store_ready s \<Longrightarrow> wg_ejected (mw_gate s ESP_VISION_STORAGE_VOLUME_FLASH) \<Longrightarrow>
   me_others busy_env (Poll (Suc 0)) s = set_gate ESP_VISION_STORAGE_VOLUME_FLASH
     ((mw_gate s ESP_VISION_STORAGE_VOLUME_FLASH)\<lparr>wg_in_flight_io := 0\<rparr>) s"
  by (simp add: busy_env_sel esp_vision_msc_writer_vfs_finish_def msc_ready_def volume_of_sel
      writer_volume_compiled_def on_gate_def gate_steps gate_tests set_gate_def
      esp_vision_msc_writer_host_io_begin_def msc_lun_def writer_lun_volume_def quiet_env_sel Let_def)

definition ready_gate :: gate where
  "ready_gate = handed_gate\<lparr>wg_transition_pending := True\<rparr>"

lemma drained: "writer_wait_quiescent busy_env (set_gate ESP_VISION_STORAGE_VOLUME_FLASH ready_gate (demo_state handed_gate r))
    ESP_VISION_STORAGE_VOLUME_FLASH =
   (True, set_gate ESP_VISION_STORAGE_VOLUME_FLASH (ready_gate\<lparr>wg_in_flight_io := 0\<rparr>)
     (set_gate ESP_VISION_STORAGE_VOLUME_FLASH ready_gate (demo_state handed_gate r)))"
  by (simp add: writer_wait_quiescent_def wait_quiescent_loop.simps [of _ _ _ _ 0] wait_quiescent_loop.simps [of _ _ _ _ "Suc 0"]
    ms_to_ticks_def busy_env_sel(1-11) WRITER_DRAIN_TIMEOUT_MS_def WRITER_DRAIN_POLL_MS_def vfs_finishes
    writer_gate_quiescent_def writer_quiescent_def writer_io_drained_def ready_gate_def handed_gate_def writer_gate_init_def)

lemma ready_gate_sel:
  "\<not> wg_quarantined ready_gate" "wg_transition_pending ready_gate" "\<not> wg_lease_held ready_gate"
  "wg_pending_write_sync ready_gate = 0"
  by (simp_all add: ready_gate_def handed_gate_def writer_gate_init_def)

lemma demo_granted_ok: "fst (esp_vision_msc_writer_acquire busy_env (demo_state handed_gate r) 0
    (Some demo_operation) (Some demo_session) (Some [])) = ESP_OK"
proof -
  let ?F = ESP_VISION_STORAGE_VOLUME_FLASH
  have b: "on_gate writer_begin_acquire ?F (demo_state handed_gate r) =
      (True, set_gate ?F ready_gate (demo_state handed_gate r))"
    by (simp add: on_gate_def writer_begin_acquire_def ready_gate_def handed_gate_def writer_gate_init_def)
  have "fst (msc_transition busy_env (set_gate ?F ready_gate (demo_state handed_gate r)) ?F
      (\<lambda>t. writer_store busy_env t ?F WRITER_PERSIST_LEASED (Some demo_operation)
         (Some (writer_hex_encode (replicate 16 0xA5))) (Some demo_session)) writer_finish_acquire)"
    by (simp add: msc_transition_def drained writer_refresh_def busy_env_sel(1-11) writer_store_def
      writer_store_state_allowed_def writer_new_record_def writer_store_publish_def Let_def
      on_gate_fst writer_finish_acquire_def writer_io_drained_def ready_gate_sel demo_ids
      writer_volume_compiled_def split_beta)
  then show ?thesis
    by (simp add: esp_vision_msc_writer_acquire_def msc_ready_def volume_of_sel
      writer_volume_compiled_def demo_ids b Let_def split_beta busy_env_sel(10))
qed

definition demo_record :: writer_record where
  "demo_record = plain_record WRITER_PERSIST_HANDOFF"

theorem granted_lease_is_persisted_witness:
  "\<exists>lease s'. esp_vision_msc_writer_acquire busy_env (demo_state handed_gate demo_record) 0
      (Some demo_operation) (Some demo_session) (Some []) = (ESP_OK, Some lease, s') \<and>
    wg_lease_held (mw_gate s' ESP_VISION_STORAGE_VOLUME_FLASH) \<and>
    mw_nvs s' ESP_VISION_STORAGE_VOLUME_FLASH =
      Some (Record_blob (leased_record demo_operation lease demo_session))"
proof -
  obtain out' s' where acq: "esp_vision_msc_writer_acquire busy_env (demo_state handed_gate demo_record) 0
      (Some demo_operation) (Some demo_session) (Some []) = (ESP_OK, out', s')"
    using demo_granted_ok [of demo_record] by (cases "esp_vision_msc_writer_acquire busy_env
      (demo_state handed_gate demo_record) 0 (Some demo_operation) (Some demo_session) (Some [])") auto
  from granted_lease_is_persisted [OF acq volume_of_sel busy_others demo_nvs(2)]
  show ?thesis by (auto simp: acq busy_env_sel(10))
qed

theorem handover_completes_or_quarantines_witness:
  "fst (msc_eject busy_env (demo_state (writer_gate_init False False) demo_record) ESP_VISION_STORAGE_VOLUME_FLASH) \<or>
   shut ESP_VISION_STORAGE_VOLUME_FLASH
     (snd (msc_eject busy_env (demo_state (writer_gate_init False False) demo_record) ESP_VISION_STORAGE_VOLUME_FLASH))"
  using handover_completes_or_quarantines [OF volume_of_sel busy_others] by blast

lemma demo_ids_text:
  "c_string (id_bytes demo_operation) = demo_operation" "c_string (id_bytes demo_session) = demo_session"
  by code_simp+

definition demo_leased :: msc where
  "demo_leased = demo_state leased_gate (leased_record demo_operation demo_operation demo_session)"

lemma demo_leased_sel:
  "mw_initialized demo_leased" "mw_store_ready demo_leased" "mw_store_lock demo_leased"
  by (simp_all add: demo_leased_def)

lemma demo_released_ok: "fst (esp_vision_msc_writer_release quiet_env demo_leased 0
    (Some demo_operation) (Some demo_operation) (Some demo_session) True) = ESP_OK"
proof -
  let ?F = ESP_VISION_STORAGE_VOLUME_FLASH
  define g where "g = leased_gate\<lparr>wg_transition_pending := True\<rparr>"
  have g: "\<not> wg_quarantined g" "wg_transition_pending g" "wg_lease_held g" "wg_managed g"
    "wg_pending_write_sync g = 0" "wg_in_flight_io g = 0"
    by (simp_all add: g_def leased_gate_def writer_gate_init_def)
  have m: "lease_matches (mw_gate demo_leased ?F) (mw_record demo_leased ?F) demo_operation demo_operation demo_session"
    by (simp add: lease_matches_def demo_leased_def leased_record_def demo_ids_text leased_gate_def
        writer_gate_init_def)
  have b: "on_gate writer_begin_release ?F demo_leased = (True, set_gate ?F g demo_leased)"
    by (simp add: on_gate_def writer_begin_release_def g_def demo_leased_def leased_gate_def
        writer_gate_init_def)
  have w: "writer_wait_quiescent quiet_env (set_gate ?F g demo_leased) ?F = (True, set_gate ?F g demo_leased)"
    by (simp add: writer_wait_quiescent_def wait_quiescent_loop.simps [of _ _ _ _ 0] quiet_env_sel
        writer_gate_quiescent_def writer_quiescent_def writer_io_drained_def g)
  have "fst (msc_transition quiet_env (set_gate ?F g demo_leased) ?F
      (\<lambda>t. writer_store quiet_env t ?F WRITER_PERSIST_HANDOFF None None None) writer_finish_release)"
    by (simp add: msc_transition_def w writer_refresh_def quiet_env_sel writer_store_def
      writer_store_state_allowed_def writer_new_record_def writer_store_publish_def Let_def
      on_gate_fst writer_finish_release_def writer_io_drained_def g writer_volume_compiled_def
      split_beta demo_leased_sel)
  then show ?thesis
    by (simp add: esp_vision_msc_writer_release_def msc_ready_def volume_of_sel demo_leased_sel
      writer_volume_compiled_def demo_ids m b Let_def split_beta)
qed

theorem release_needs_the_lease_witness:
  "let s' = snd (esp_vision_msc_writer_release quiet_env demo_leased 0
      (Some demo_operation) (Some demo_operation) (Some demo_session) True)
   in wg_handoff_ready (mw_gate s' ESP_VISION_STORAGE_VOLUME_FLASH) \<and>
      mw_nvs s' ESP_VISION_STORAGE_VOLUME_FLASH =
        Some (Record_blob (plain_record WRITER_PERSIST_HANDOFF))"
proof -
  obtain s' where rel: "esp_vision_msc_writer_release quiet_env demo_leased 0
      (Some demo_operation) (Some demo_operation) (Some demo_session) True = (ESP_OK, s')"
    using demo_released_ok by (cases "esp_vision_msc_writer_release quiet_env demo_leased 0
      (Some demo_operation) (Some demo_operation) (Some demo_session) True") auto
  from release_needs_the_lease [OF rel volume_of_sel quiet_others demo_nvs(1)]
  show ?thesis by (simp add: rel)
qed

theorem session_change_revokes_leases_witness:
  "shut ESP_VISION_STORAGE_VOLUME_FLASH
     (esp_vision_msc_writer_session_changed quiet_env demo_leased None)"
  using session_change_revokes_leases [of demo_leased quiet_env ESP_VISION_STORAGE_VOLUME_FLASH None]
  by (simp add: demo_leased_def leased_gate_def writer_gate_init_def quiet_others
      writer_volume_compiled_def Let_def)

lemma demo_boot_ok: "fst (esp_vision_msc_writer_init quiet_env (msc_power_on nvs)) = ESP_OK"
  by (simp add: esp_vision_msc_writer_init_def msc_power_on_def quiet_env_def)

theorem boot_never_replays_a_lease_witness:
  "shut ESP_VISION_STORAGE_VOLUME_FLASH
     (snd (esp_vision_msc_writer_init quiet_env (msc_power_on (mw_nvs demo_leased))))"
proof -
  obtain s where init: "esp_vision_msc_writer_init quiet_env (msc_power_on (mw_nvs demo_leased)) = (ESP_OK, s)"
    using demo_boot_ok [of "mw_nvs demo_leased"]
    by (cases "esp_vision_msc_writer_init quiet_env (msc_power_on (mw_nvs demo_leased))") auto
  have nvs: "mw_nvs demo_leased ESP_VISION_STORAGE_VOLUME_FLASH =
      Some (Record_blob (leased_record demo_operation demo_operation demo_session))"
    by (simp add: demo_leased_def demo_state_def)
  from boot_never_replays_a_lease [OF init, of ESP_VISION_STORAGE_VOLUME_FLASH
      "leased_record demo_operation demo_operation demo_session"]
  show ?thesis
    by (simp add: init nvs quiet_env_sel writer_volume_compiled_def leased_record_def)
qed

end
