(* ===== verification/JpegValidate.thy ===== *)
theory JpegValidate
  imports Checked
begin

text \<open>
  The structural check of a JPEG file, \<open>platform/jpeg_validate.c\<close>. The computations are those of Checked:
  every read of the buffer, of a segment and of the arrays of the state is checked. A segment is the list of its bytes, so a read past its end counts as out of bounds
  even where the file goes on. The scanning loop carries fuel, the length of the file.
\<close>

section \<open>Data\<close>

definition JPEG_COMPONENT_MAX :: nat where
  "JPEG_COMPONENT_MAX = 4"

lemmas jpeg_consts [simp] = JPEG_COMPONENT_MAX_def

record jpeg_state =
  jp_frame_marker :: u8
  jp_component_count :: u8
  jp_component_ids :: "u8 list"
  jp_quantizer_ids :: "u8 list"
  jp_quantizer_precision :: "u8 list"
  jp_quantizers :: u8
  jp_dc_tables :: u8
  jp_ac_tables :: u8
  jp_initial_components :: u8
  jp_restart_interval :: u16
  jp_saw_scan :: bool

definition jpeg_zero :: jpeg_state where
  "jpeg_zero = \<lparr>jp_frame_marker = 0, jp_component_count = 0,
     jp_component_ids = replicate JPEG_COMPONENT_MAX 0,
     jp_quantizer_ids = replicate JPEG_COMPONENT_MAX 0,
     jp_quantizer_precision = replicate JPEG_COMPONENT_MAX 0, jp_quantizers = 0,
     jp_dc_tables = 0, jp_ac_tables = 0, jp_initial_components = 0, jp_restart_interval = 0,
     jp_saw_scan = False\<rparr>"

definition be16 :: "u8 list \<Rightarrow> nat \<Rightarrow> nat checked" where
  "be16 data i = sbind (rd data i) (\<lambda>a. sbind (rd data (i + 1)) (\<lambda>b. Inr (unat a * 256 + unat b)))"

definition high_nibble :: "u8 \<Rightarrow> nat" where
  "high_nibble x = unat (drop_bit 4 x)"

definition low_nibble :: "u8 \<Rightarrow> nat" where
  "low_nibble x = unat (x AND 15)"

definition set_flag :: "u8 \<Rightarrow> nat \<Rightarrow> u8" where
  "set_flag w i = w OR push_bit i 1"

definition has_flag :: "u8 \<Rightarrow> nat \<Rightarrow> bool" where
  "has_flag w i \<longleftrightarrow> w AND push_bit i 1 \<noteq> 0"

section \<open>Quantization tables\<close>

fun quantizer_values :: "u8 list \<Rightarrow> nat \<Rightarrow> nat list \<Rightarrow> unit checked" where
  "quantizer_values data precision [] = Inr ()"
| "quantizer_values data precision (i # is) =
     sbind (if precision = 0 then sbind (rd data i) (\<lambda>v. Inr (unat v)) else be16 data i)
       (\<lambda>v. if v = 0 then reject else quantizer_values data precision is)"

text \<open>
  One table per round, from the table byte on; the offsets of its 64 values are the steps of
  the inner loop. The result is the state and the position the outer loop ends at.
\<close>

function quantizer_tables ::
  "jpeg_state \<Rightarrow> u8 list \<Rightarrow> nat \<Rightarrow> (jpeg_state \<times> nat) checked" where
  "quantizer_tables st data position =
     (if position < length data
      then
        sbind (rd data position) (\<lambda>table.
          let precision = high_nibble table; ident = low_nibble table;
              bytes = (if precision = 0 then 64 else 128)
          in if precision > 1 \<or> ident \<ge> JPEG_COMPONENT_MAX then reject
             else if bytes > length data - (position + 1) then reject
             else
               sbind (quantizer_values data precision
                   (map (\<lambda>k. position + 1 + k * (precision + 1)) [0..<64]))
                 (\<lambda>_. quantizer_tables
                   (st\<lparr>jp_quantizers := set_flag (jp_quantizers st) ident,
                       jp_quantizer_precision :=
                         (jp_quantizer_precision st)[ident := of_nat precision]\<rparr>)
                   data (position + 1 + bytes)))
      else Inr (st, position))"
  by pat_completeness auto
termination by (relation "measure (\<lambda>(st, data, position). length data - position)") auto

declare quantizer_tables.simps [simp del]

definition jpeg_validation_quantizers :: "jpeg_state \<Rightarrow> u8 list \<Rightarrow> jpeg_state checked" where
  "jpeg_validation_quantizers st data =
     sbind (quantizer_tables st data 0)
       (\<lambda>(st', position). if position \<noteq> 0 then Inr st' else reject)"

section \<open>Huffman tables\<close>

text \<open>The sixteen code lengths: \<open>slots\<close> counts the free codes of the present length.\<close>

fun huffman_counts :: "u8 list \<Rightarrow> nat list \<Rightarrow> nat \<Rightarrow> int \<Rightarrow> (nat \<times> int) checked" where
  "huffman_counts data [] symbols slots = Inr (symbols, slots)"
| "huffman_counts data (i # is) symbols slots =
     sbind (rd data i) (\<lambda>c.
       let symbols' = symbols + unat c; slots' = slots * 2 - int (unat c)
       in if slots' < 0 \<or> symbols' > 256 then reject
          else huffman_counts data is symbols' slots')"

function huffman_tables ::
  "jpeg_state \<Rightarrow> u8 list \<Rightarrow> nat \<Rightarrow> (jpeg_state \<times> nat) checked" where
  "huffman_tables st data position =
     (if position < length data
      then
        sbind (rd data position) (\<lambda>table.
          let kind = high_nibble table; ident = low_nibble table
          in if kind > 1 \<or> ident \<ge> JPEG_COMPONENT_MAX \<or> length data - (position + 1) < 16
             then reject
             else
               sbind (huffman_counts data [position + 1..<position + 17] 0 1) (\<lambda>(symbols, slots).
                 if symbols = 0 \<or> slots = 0 \<or> symbols > length data - (position + 17) then reject
                 else huffman_tables
                        (if kind = 0
                         then st\<lparr>jp_dc_tables := set_flag (jp_dc_tables st) ident\<rparr>
                         else st\<lparr>jp_ac_tables := set_flag (jp_ac_tables st) ident\<rparr>)
                        data (position + 17 + symbols)))
      else Inr (st, position))"
  by pat_completeness auto
termination by (relation "measure (\<lambda>(st, data, position). length data - position)") auto

declare huffman_tables.simps [simp del]

definition jpeg_validation_huffman :: "jpeg_state \<Rightarrow> u8 list \<Rightarrow> jpeg_state checked" where
  "jpeg_validation_huffman st data =
     sbind (huffman_tables st data 0)
       (\<lambda>(st', position). if position \<noteq> 0 then Inr st' else reject)"

section \<open>The frame header\<close>

text \<open>Whether an identifier occurs among the first \<open>n\<close> components.\<close>

fun component_known :: "u8 list \<Rightarrow> u8 \<Rightarrow> nat list \<Rightarrow> bool checked" where
  "component_known ids ident [] = Inr False"
| "component_known ids ident (k # ks) =
     sbind (rd ids k) (\<lambda>x. if x = ident then Inr True else component_known ids ident ks)"

fun frame_components :: "jpeg_state \<Rightarrow> u8 list \<Rightarrow> nat list \<Rightarrow> jpeg_state checked" where
  "frame_components st data [] = Inr st"
| "frame_components st data (i # is) =
     sbind (rd data (6 + 3 * i)) (\<lambda>ident.
     sbind (rd data (7 + 3 * i)) (\<lambda>sampling.
     sbind (rd data (8 + 3 * i)) (\<lambda>quantizer.
       if high_nibble sampling = 0 \<or> high_nibble sampling > 4 \<or> low_nibble sampling = 0 \<or>
          low_nibble sampling > 4 \<or> unat quantizer \<ge> JPEG_COMPONENT_MAX
       then reject
       else
         sbind (component_known (jp_component_ids st) ident [0..<i]) (\<lambda>known.
           if known then reject
           else frame_components
                  (st\<lparr>jp_component_ids := (jp_component_ids st)[i := ident],
                      jp_quantizer_ids := (jp_quantizer_ids st)[i := quantizer]\<rparr>) data is))))"

definition jpeg_validation_frame ::
  "jpeg_state \<Rightarrow> u8 \<Rightarrow> u8 list \<Rightarrow> u32 \<Rightarrow> u32 \<Rightarrow> jpeg_state checked" where
  "jpeg_validation_frame st marker data width height =
     (if jp_frame_marker st \<noteq> 0 \<or> length data < 6 then reject
      else
        sbind (rd data 0) (\<lambda>precision. sbind (be16 data 1) (\<lambda>lines. sbind (be16 data 3) (\<lambda>samples.
          if precision \<noteq> 8 \<or> lines \<noteq> unat height \<or> samples \<noteq> unat width then reject
          else
            sbind (rd data 5) (\<lambda>count.
              if count = 0 \<or> unat count > JPEG_COMPONENT_MAX \<or> length data \<noteq> 6 + 3 * unat count
              then reject
              else sbind (frame_components st data [0..<unat count])
                     (\<lambda>st'. Inr (st'\<lparr>jp_component_count := count, jp_frame_marker := marker\<rparr>)))))))"

section \<open>The scan header\<close>

text \<open>\<open>while (component < count && ids[component] != id) ++component\<close>.\<close>

fun component_find :: "u8 list \<Rightarrow> u8 \<Rightarrow> nat \<Rightarrow> nat list \<Rightarrow> nat checked" where
  "component_find ids ident count [] = Inr count"
| "component_find ids ident count (k # ks) =
     sbind (rd ids k) (\<lambda>x. if x \<noteq> ident then component_find ids ident count ks else Inr k)"

fun scan_components ::
  "jpeg_state \<Rightarrow> u8 list \<Rightarrow> bool \<Rightarrow> u8 \<Rightarrow> nat \<Rightarrow> u8 \<Rightarrow> nat list \<Rightarrow> u8 checked" where
  "scan_components st data progressive start high selected [] = Inr selected"
| "scan_components st data progressive start high selected (i # is) =
     sbind (rd data (1 + 2 * i)) (\<lambda>ident.
     sbind (rd data (2 + 2 * i)) (\<lambda>tables.
     let dc = high_nibble tables; ac = low_nibble tables; count = unat (jp_component_count st)
     in
     sbind (component_find (jp_component_ids st) ident count [0..<count]) (\<lambda>component.
       if component = count \<or> has_flag selected component \<or> dc \<ge> JPEG_COMPONENT_MAX \<or>
          ac \<ge> JPEG_COMPONENT_MAX
       then reject
       else
         sbind (rd (jp_quantizer_ids st) component) (\<lambda>quantizer.
           if \<not> has_flag (jp_quantizers st) (unat quantizer) then reject
           else
             sbind (rd (jp_quantizer_precision st) (unat quantizer)) (\<lambda>precision.
               if precision \<noteq> 0 then reject
               else if (\<not> progressive \<or> (start = 0 \<and> high = 0)) \<and> \<not> has_flag (jp_dc_tables st) dc
               then reject
               else if (\<not> progressive \<or> start \<noteq> 0) \<and> \<not> has_flag (jp_ac_tables st) ac then reject
               else scan_components st data progressive start high
                      (set_flag selected component) is)))))"

definition jpeg_validation_scan :: "jpeg_state \<Rightarrow> u8 list \<Rightarrow> jpeg_state checked" where
  "jpeg_validation_scan st data =
     (if jp_frame_marker st = 0 \<or> length data < 4 then reject
      else
        sbind (rd data 0) (\<lambda>count.
          if count = 0 \<or> count > jp_component_count st \<or> length data \<noteq> 4 + 2 * unat count
          then reject
          else
            sbind (rd data (1 + 2 * unat count)) (\<lambda>start.
            sbind (rd data (2 + 2 * unat count)) (\<lambda>stop.
            sbind (rd data (3 + 2 * unat count)) (\<lambda>approximation.
              let high = high_nibble approximation; low = low_nibble approximation;
                  progressive = (jp_frame_marker st = 0xC2)
              in if (if \<not> progressive then start \<noteq> 0 \<or> stop \<noteq> 63 \<or> approximation \<noteq> 0
                     else start > stop \<or> stop > 63 \<or> (start = 0 \<and> stop \<noteq> 0) \<or>
                          (start \<noteq> 0 \<and> count \<noteq> 1) \<or> high > 13 \<or> low > 13 \<or>
                          (high \<noteq> 0 \<and> high \<noteq> low + 1))
                 then reject
                 else
                   sbind (scan_components st data progressive start high 0 [0..<unat count])
                     (\<lambda>selected.
                       let st1 = (if \<not> progressive \<or> (start = 0 \<and> high = 0)
                                  then st\<lparr>jp_initial_components :=
                                           jp_initial_components st OR selected\<rparr>
                                  else st)
                       in Inr (st1\<lparr>jp_saw_scan := True\<rparr>)))))))"

section \<open>The file\<close>

function skip_fill :: "u8 list \<Rightarrow> nat \<Rightarrow> nat checked" where
  "skip_fill data position =
     (if position < length data
      then sbind (rd data position)
             (\<lambda>b. if b = 0xFF then skip_fill data (position + 1) else Inr position)
      else Inr position)"
  by pat_completeness auto
termination by (relation "measure (\<lambda>(data, position). length data - position)") auto

declare skip_fill.simps [simp del]

record jpeg_loop =
  jl_state :: jpeg_state
  jl_position :: nat
  jl_in_scan :: bool
  jl_has_data :: bool
  jl_next_restart :: u8

text \<open>A marker segment: its length, its bytes, and what it does to the state.\<close>

definition jpeg_segment ::
  "u8 list \<Rightarrow> u32 \<Rightarrow> u32 \<Rightarrow> u8 \<Rightarrow> nat \<Rightarrow> jpeg_loop \<Rightarrow> jpeg_loop checked" where
  "jpeg_segment data width height marker position l =
     (if marker = 0 \<or> marker = 0xD8 \<or> length data - position < 2 then reject
      else
        sbind (be16 data position) (\<lambda>len.
          if len < 2 \<or> len > length data - position then reject
          else
            let segment = take (len - 2) (drop (position + 2) data); st = jl_state l;
                l1 = l\<lparr>jl_position := position + len, jl_in_scan := False\<rparr>
            in if marker = 0xC0 \<or> marker = 0xC1 \<or> marker = 0xC2
               then sbind (jpeg_validation_frame st marker segment width height)
                      (\<lambda>st'. Inr (l1\<lparr>jl_state := st'\<rparr>))
               else if marker = 0xDB
               then sbind (jpeg_validation_quantizers st segment) (\<lambda>st'. Inr (l1\<lparr>jl_state := st'\<rparr>))
               else if marker = 0xC4
               then sbind (jpeg_validation_huffman st segment) (\<lambda>st'. Inr (l1\<lparr>jl_state := st'\<rparr>))
               else if marker = 0xDD
               then if length segment \<noteq> 2 then reject
                    else sbind (be16 segment 0)
                           (\<lambda>n. Inr (l1\<lparr>jl_state := st\<lparr>jp_restart_interval := of_nat n\<rparr>\<rparr>))
               else if marker = 0xDA
               then sbind (jpeg_validation_scan st segment)
                      (\<lambda>st'. Inr (l1\<lparr>jl_state := st', jl_in_scan := True, jl_has_data := False,
                                   jl_next_restart := 0\<rparr>))
               else if \<not> (marker \<ge> 0xE0 \<and> marker \<le> 0xEF) \<and> marker \<noteq> 0xFE then reject
               else Inr l1))"

text \<open>One round of the main loop; \<open>Inr\<close> is the next round.\<close>

definition jpeg_round :: "u8 list \<Rightarrow> u32 \<Rightarrow> u32 \<Rightarrow> jpeg_loop \<Rightarrow> jpeg_loop checked" where
  "jpeg_round data width height l =
     sbind (rd data (jl_position l)) (\<lambda>byte.
       if jl_in_scan l \<and> byte \<noteq> 0xFF
       then Inr (l\<lparr>jl_has_data := True, jl_position := jl_position l + 1\<rparr>)
       else if byte \<noteq> 0xFF then reject
       else
         sbind (skip_fill data (jl_position l + 1)) (\<lambda>position.
           if position = length data then reject
           else
             sbind (rd data position) (\<lambda>marker.
               let position = position + 1 in
               if jl_in_scan l \<and> marker = 0
               then if position - jl_position l \<noteq> 2 then reject
                    else Inr (l\<lparr>jl_has_data := True, jl_position := position\<rparr>)
               else if jl_in_scan l \<and> marker \<ge> 0xD0 \<and> marker \<le> 0xD7
               then if jp_restart_interval (jl_state l) = 0 \<or> \<not> jl_has_data l \<or>
                       unat marker \<noteq> 0xD0 + unat (jl_next_restart l)
                    then reject
                    else Inr (l\<lparr>jl_next_restart := (jl_next_restart l + 1) AND 7,
                                jl_has_data := False, jl_position := position\<rparr>)
               else if jl_in_scan l \<and> \<not> jl_has_data l then reject
               else if marker = 0xD9
               then Inl (Verdict (jp_saw_scan (jl_state l) \<and>
                      jp_initial_components (jl_state l) =
                        push_bit (unat (jp_component_count (jl_state l))) 1 - 1 \<and>
                      position = length data))
               else jpeg_segment data width height marker position l)))"

fun jpeg_rounds :: "nat \<Rightarrow> u8 list \<Rightarrow> u32 \<Rightarrow> u32 \<Rightarrow> jpeg_loop \<Rightarrow> stop" where
  "jpeg_rounds fuel data width height l =
     (if jl_position l < length data
      then
        case fuel of 0 \<Rightarrow> Out_of_fuel
        | Suc fuel' \<Rightarrow>
            (case jpeg_round data width height l of
               Inl stop \<Rightarrow> stop
             | Inr l' \<Rightarrow> jpeg_rounds fuel' data width height l')
      else Verdict False)"

declare jpeg_rounds.simps [simp del]

definition esp_vision_jpeg_validate :: "u8 list option \<Rightarrow> u32 \<Rightarrow> u32 \<Rightarrow> stop" where
  "esp_vision_jpeg_validate buffer width height =
     (case buffer of None \<Rightarrow> Verdict False
      | Some data \<Rightarrow>
        if length data < 4 \<or> width = 0 \<or> height = 0 \<or> width > 0xFFFF \<or> height > 0xFFFF
        then Verdict False
        else
          case sbind (rd data 0) (\<lambda>a. sbind (rd data 1) (\<lambda>b. Inr (a \<noteq> 0xFF \<or> b \<noteq> 0xD8))) of
            Inl stop \<Rightarrow> stop
          | Inr bad \<Rightarrow>
              if bad then Verdict False
              else jpeg_rounds (length data) data width height
                     \<lparr>jl_state = jpeg_zero, jl_position = 2, jl_in_scan = False,
                      jl_has_data = False, jl_next_restart = 0\<rparr>)"

end
