(* ===== verification/JpegProps.thy ===== *)
theory JpegProps
  imports JpegValidate
begin

text \<open>
  Correctness of the JPEG check: it never reads outside its buffer and always returns, its
  code-length test is the strict Kraft inequality, and what it accepts has the documented outer
  structure. The proofs use the rules for safe computations of Checked.
\<close>

lemma safe_be16: "i + 1 < length data \<Longrightarrow> safe (be16 data i)
    (\<lambda>v. v = unat (data ! i) * 256 + unat (data ! (i + 1)))"
  by (simp add: be16_def safe_def)

lemma low_nibble_less: "low_nibble x < 16"
  unfolding low_nibble_def by (rule unat_low_nibble)

section \<open>The invariant of the state\<close>

text \<open>Segments other than a frame header leave the frame header alone.\<close>

definition same_frame :: "jpeg_state \<Rightarrow> jpeg_state \<Rightarrow> bool" where
  "same_frame st st' \<longleftrightarrow> jp_frame_marker st' = jp_frame_marker st \<and> jp_saw_scan st' = jp_saw_scan st"

lemma same_frame_refl [simp]: "same_frame st st"
  by (simp add: same_frame_def)

lemma same_frame_upd [simp]:
  "same_frame (st\<lparr>jp_dc_tables := x\<rparr>) st' = same_frame st st'"
  "same_frame (st\<lparr>jp_ac_tables := x\<rparr>) st' = same_frame st st'"
  "same_frame (st\<lparr>jp_quantizers := y, jp_quantizer_precision := z\<rparr>) st' = same_frame st st'"
  by (simp_all add: same_frame_def)

definition jp_wf :: "jpeg_state \<Rightarrow> bool" where
  "jp_wf st \<longleftrightarrow> length (jp_component_ids st) = 4 \<and> length (jp_quantizer_ids st) = 4 \<and>
     length (jp_quantizer_precision st) = 4 \<and> unat (jp_component_count st) \<le> 4 \<and>
     (\<forall>q \<in> set (jp_quantizer_ids st). unat q < 4)"

lemma jpeg_zero_wf: "jp_wf jpeg_zero"
  by (simp add: jp_wf_def jpeg_zero_def)

lemma jp_wf_upd [simp]:
  "jp_wf (st\<lparr>jp_dc_tables := x\<rparr>) = jp_wf st"
  "jp_wf (st\<lparr>jp_ac_tables := x\<rparr>) = jp_wf st"
  "jp_wf (st\<lparr>jp_restart_interval := r\<rparr>) = jp_wf st"
  "jp_wf (st\<lparr>jp_initial_components := x\<rparr>) = jp_wf st"
  "jp_wf (st\<lparr>jp_saw_scan := b\<rparr>) = jp_wf st"
  "jp_wf (st\<lparr>jp_quantizers := x, jp_quantizer_precision := (jp_quantizer_precision st)[i := v]\<rparr>) =
     jp_wf st"
  by (simp_all add: jp_wf_def)

lemma quantizer_values_safe:
  assumes "\<forall>i \<in> set is. i + precision < length data" and "precision \<le> 1"
  shows "safe (quantizer_values data precision is) (\<lambda>_. True)"
  using assms
proof (induction "is")
  case Nil
  then show ?case by (simp add: safe_def)
next
  case (Cons i "is")
  show ?case
  proof (cases "precision = 0")
    case True
    with Cons show ?thesis by simp
  next
    case False
    with Cons.prems have "precision = 1" "i + 1 < length data" by auto
    with Cons show ?thesis
      by (auto intro!: safe_bind [OF safe_be16] safe_if)
  qed
qed

lemma quantizer_offsets:
  assumes "p \<le> 1" and "(if p = 0 then 64 else 128) \<le> n - (position + 1)" and "position < n"
  shows "\<forall>i \<in> set (map (\<lambda>k. position + 1 + k * (p + 1)) [0..<64]). i + p < n"
proof -
  from assms(1) consider "p = 0" | "p = 1" by linarith
  then show ?thesis using assms(2,3) by cases auto
qed

lemma quantizer_tables_safe:
  "jp_wf st \<Longrightarrow> safe (quantizer_tables st data position) (\<lambda>(st', p). jp_wf st' \<and> same_frame st st')"
proof (induction "length data - position" arbitrary: st position rule: less_induct)
  case less
  show ?case
  proof (cases "position < length data")
    case False
    with less.prems show ?thesis by (subst quantizer_tables.simps) (simp add: safe_def)
  next
    case True
    let ?t = "data ! position"
    let ?bytes = "if high_nibble ?t = 0 then 64 else 128 :: nat"
    show ?thesis
    proof (cases "high_nibble ?t > 1 \<or> low_nibble ?t \<ge> 4 \<or> ?bytes > length data - (position + 1)")
      case bad: True
      with True show ?thesis by (subst quantizer_tables.simps) (auto simp: Let_def)
    next
      case ok: False
      then have vals: "safe (quantizer_values data (high_nibble ?t)
          (map (\<lambda>k. position + 1 + k * (high_nibble ?t + 1)) [0..<64])) (\<lambda>_. True)"
        using True by (intro quantizer_values_safe quantizer_offsets) auto
      have "safe (quantizer_tables st1 data (position + 1 + ?bytes))
          (\<lambda>(st', p). jp_wf st' \<and> same_frame st1 st')"
        if "jp_wf st1" for st1
        using that True by (intro less.hyps) auto
      note rec = this
      have eq: "quantizer_tables st data position =
          sbind (quantizer_values data (high_nibble ?t)
              (map (\<lambda>k. position + 1 + k * (high_nibble ?t + 1)) [0..<64]))
            (\<lambda>_. quantizer_tables
              (st\<lparr>jp_quantizers := set_flag (jp_quantizers st) (low_nibble ?t),
                  jp_quantizer_precision :=
                    (jp_quantizer_precision st)[low_nibble ?t := of_nat (high_nibble ?t)]\<rparr>)
              data (position + 1 + ?bytes))"
        using True ok by (subst quantizer_tables.simps) (simp add: Let_def)
      show ?thesis unfolding eq
        by (rule safe_bind [OF vals], rule safe_weaken, rule rec) (auto simp: less.prems)
    qed
  qed
qed

lemma huffman_counts_safe:
  "\<forall>i \<in> set is. i < length data \<Longrightarrow> safe (huffman_counts data is symbols slots) (\<lambda>_. True)"
  by (induction "is" arbitrary: symbols slots) (auto simp: Let_def safe_return)

lemma huffman_tables_safe:
  "jp_wf st \<Longrightarrow> safe (huffman_tables st data position) (\<lambda>(st', p). jp_wf st' \<and> same_frame st st')"
proof (induction "length data - position" arbitrary: st position rule: less_induct)
  case less
  show ?case
  proof (cases "position < length data")
    case False
    with less.prems show ?thesis by (subst huffman_tables.simps) (simp add: safe_def)
  next
    case True
    let ?t = "data ! position"
    show ?thesis
    proof (cases "high_nibble ?t > 1 \<or> low_nibble ?t \<ge> 4 \<or> length data - (position + 1) < 16")
      case bad: True
      with True show ?thesis by (subst huffman_tables.simps) (auto simp: Let_def)
    next
      case ok: False
      then have counts: "safe (huffman_counts data [position + 1..<position + 17] 0 1) (\<lambda>_. True)"
        by (intro huffman_counts_safe) auto
      have rec: "safe (huffman_tables st1 data (position + 17 + n))
          (\<lambda>(st', p). jp_wf st' \<and> same_frame st1 st')"
        if "jp_wf st1" for st1 n
        using that True by (intro less.hyps) auto
      have eq: "huffman_tables st data position =
          sbind (huffman_counts data [position + 1..<position + 17] 0 1) (\<lambda>(symbols, slots).
            if symbols = 0 \<or> slots = 0 \<or> symbols > length data - (position + 17) then reject
            else huffman_tables
                   (if high_nibble ?t = 0
                    then st\<lparr>jp_dc_tables := set_flag (jp_dc_tables st) (low_nibble ?t)\<rparr>
                    else st\<lparr>jp_ac_tables := set_flag (jp_ac_tables st) (low_nibble ?t)\<rparr>)
                   data (position + 17 + symbols))"
        using True ok by (subst huffman_tables.simps) (simp add: Let_def)
      show ?thesis unfolding eq
        by (rule safe_bind [OF counts])
          (auto simp: less.prems split: prod.splits intro!: rec [THEN safe_weaken])
    qed
  qed
qed

section \<open>Segments\<close>

lemma component_known_safe:
  "\<forall>k \<in> set ks. k < length ids \<Longrightarrow> safe (component_known ids x ks) (\<lambda>_. True)"
  by (induction ks) (auto simp: safe_return)

lemma component_find_safe:
  "\<forall>k \<in> set ks. k < length ids \<and> k < n \<Longrightarrow> safe (component_find ids x n ks) (\<lambda>c. c \<le> n)"
  by (induction ks) (auto simp: safe_return)

lemma wf_component_upd:
  "jp_wf st \<Longrightarrow> unat q < 4 \<Longrightarrow>
   jp_wf (st\<lparr>jp_component_ids := (jp_component_ids st)[i := x],
             jp_quantizer_ids := (jp_quantizer_ids st)[i := q]\<rparr>)"
  using set_update_subset_insert [of "jp_quantizer_ids st" i q] by (auto simp: jp_wf_def)

lemma frame_components_safe:
  assumes "jp_wf st" and "\<forall>i \<in> set is. i < 4 \<and> 8 + 3 * i < length data"
  shows "safe (frame_components st data is) (\<lambda>st'. jp_wf st' \<and> jp_saw_scan st' = jp_saw_scan st)"
  using assms
proof (induction "is" arbitrary: st)
  case Nil
  then show ?case by (simp add: safe_return)
next
  case (Cons i "is")
  have "safe (component_known (jp_component_ids st) (data ! (6 + 3 * i)) [0..<i]) (\<lambda>_. True)"
    using Cons.prems by (intro component_known_safe) (auto simp: jp_wf_def)
  with Cons.prems show ?case
    by (auto intro!: safe_bind [where P = "\<lambda>_. True"] safe_if wf_component_upd
        Cons.IH [THEN safe_weaken])
qed

text \<open>What a frame header says: eight bits per sample and the two dimensions.\<close>

definition frame_header :: "u8 list \<Rightarrow> u32 \<Rightarrow> u32 \<Rightarrow> bool" where
  "frame_header seg width height \<longleftrightarrow> 6 \<le> length seg \<and> seg ! 0 = 8 \<and>
     unat (seg ! 1) * 256 + unat (seg ! 2) = unat height \<and>
     unat (seg ! 3) * 256 + unat (seg ! 4) = unat width"

lemma frame_safe:
  "jp_wf st \<Longrightarrow> safe (jpeg_validation_frame st marker data width height)
     (\<lambda>st'. jp_wf st' \<and> jp_saw_scan st' = jp_saw_scan st \<and> frame_header data width height)"
proof (cases "jp_frame_marker st \<noteq> 0 \<or> length data < 6")
  case False
  assume wf: "jp_wf st"
  have comps: "safe (frame_components st data [0..<unat (data ! 5)])
      (\<lambda>st'. jp_wf st' \<and> jp_saw_scan st' = jp_saw_scan st)"
    if "unat (data ! 5) \<le> 4" "length data = 6 + 3 * unat (data ! 5)"
    using wf that by (intro frame_components_safe) auto
  have fin: "jp_wf (st'\<lparr>jp_component_count := count, jp_frame_marker := marker\<rparr>)"
    if "jp_wf st'" "unat count \<le> 4" for st' count
    using that by (simp add: jp_wf_def)
  have len: "6 \<le> length data" using False by simp
  then have header: "frame_header data width height"
    if "data ! 0 = 8" "unat height = unat (data ! 1) * 256 + unat (data ! (1 + 1))"
      "unat width = unat (data ! 3) * 256 + unat (data ! 4)"
    using that by (simp add: frame_header_def numeral_2_eq_2)
  from len show ?thesis using False
    unfolding jpeg_validation_frame_def
    by (auto intro!: safe_rd_bind safe_bind [OF safe_be16] safe_if safe_bind [OF comps]
        safe_return fin header)
qed (simp add: jpeg_validation_frame_def)

lemma scan_components_safe:
  assumes "jp_wf st" and "\<forall>i \<in> set is. 2 + 2 * i < length data"
  shows "safe (scan_components st data progressive start high selected is) (\<lambda>_. True)"
  using assms(2)
proof (induction "is" arbitrary: selected)
  case Nil
  then show ?case by (simp add: safe_return)
next
  case (Cons i "is")
  let ?n = "unat (jp_component_count st)"
  have find: "safe (component_find (jp_component_ids st) x ?n [0..<?n]) (\<lambda>c. c \<le> ?n)" for x
    using assms(1) by (intro component_find_safe) (auto simp: jp_wf_def)
  have q: "rd (jp_quantizer_ids st) c = Inr (jp_quantizer_ids st ! c)"
    "rd (jp_quantizer_precision st) (unat (jp_quantizer_ids st ! c)) =
       Inr (jp_quantizer_precision st ! unat (jp_quantizer_ids st ! c))"
    if "c \<le> ?n" "c \<noteq> ?n" for c
    using assms(1) that by (auto simp: jp_wf_def)
  show ?case using Cons
    by (auto simp: Let_def q intro!: safe_bind [OF find] safe_if)
qed

lemma scan_safe:
  "jp_wf st \<Longrightarrow> safe (jpeg_validation_scan st data)
     (\<lambda>st'. jp_wf st' \<and> jp_frame_marker st' = jp_frame_marker st \<and> jp_frame_marker st \<noteq> 0)"
proof (cases "jp_frame_marker st = 0 \<or> length data < 4")
  case False
  assume wf: "jp_wf st"
  have comps: "safe (scan_components st data pr start high 0 [0..<unat (data ! 0)]) (\<lambda>_. True)"
    if "length data = 4 + 2 * unat (data ! 0)" for pr start high
    using wf that by (intro scan_components_safe) auto
  have len: "4 \<le> length data" using False by simp
  then show ?thesis using False wf
    unfolding jpeg_validation_scan_def Let_def
    by (auto intro!: safe_rd_bind safe_if safe_bind [OF comps] safe_return)
qed (simp add: jpeg_validation_scan_def)

lemma quantizers_safe:
  "jp_wf st \<Longrightarrow> safe (jpeg_validation_quantizers st data) (\<lambda>st'. jp_wf st' \<and> same_frame st st')"
  unfolding jpeg_validation_quantizers_def
  by (rule safe_bind [OF quantizer_tables_safe]) (auto split: prod.splits intro: safe_return)

lemma huffman_safe:
  "jp_wf st \<Longrightarrow> safe (jpeg_validation_huffman st data) (\<lambda>st'. jp_wf st' \<and> same_frame st st')"
  unfolding jpeg_validation_huffman_def
  by (rule safe_bind [OF huffman_tables_safe]) (auto split: prod.splits intro: safe_return)

section \<open>The file\<close>

lemma skip_fill_spec:
  assumes "position \<le> length data"
  shows "\<exists>p. skip_fill data position = Inr p \<and> position \<le> p \<and> p \<le> length data \<and>
    (\<forall>k. position \<le> k \<and> k < p \<longrightarrow> data ! k = 0xFF)"
  using assms
proof (induction data position rule: skip_fill.induct)
  case (1 data position)
  show ?case
  proof (cases "position < length data \<and> data ! position = 0xFF")
    case False
    with 1 show ?thesis by (subst skip_fill.simps) auto
  next
    case True
    with 1 obtain p where "skip_fill data (position + 1) = Inr p" "position + 1 \<le> p"
      "p \<le> length data" "\<forall>k. position + 1 \<le> k \<and> k < p \<longrightarrow> data ! k = 0xFF"
      by auto
    moreover from this(4) True have "\<forall>k. position \<le> k \<and> k < p \<longrightarrow> data ! k = 0xFF"
      by (metis Suc_eq_plus1 Suc_leI le_neq_implies_less)
    ultimately show ?thesis using True
      by (intro exI [of _ p], subst skip_fill.simps) auto
  qed
qed

text \<open>
  Where the accepted frame header lies: a marker FF C0, FF C1 or FF C2 whose segment it is.
\<close>

definition frame_at :: "u8 list \<Rightarrow> u32 \<Rightarrow> u32 \<Rightarrow> nat \<Rightarrow> bool" where
  "frame_at data width height p \<longleftrightarrow> 2 < p \<and> p + 8 < length data \<and> data ! (p - 1) = 0xFF \<and>
     data ! p \<in> {0xC0, 0xC1, 0xC2} \<and> frame_header (drop (p + 3) data) width height"

definition loop_inv :: "u8 list \<Rightarrow> u32 \<Rightarrow> u32 \<Rightarrow> jpeg_loop \<Rightarrow> bool" where
  "loop_inv data width height l \<longleftrightarrow> jp_wf (jl_state l) \<and> 2 \<le> jl_position l \<and>
     jl_position l \<le> length data \<and>
     (jp_frame_marker (jl_state l) \<noteq> 0 \<longrightarrow> (\<exists>p. frame_at data width height p)) \<and>
     (jp_saw_scan (jl_state l) \<longrightarrow> (\<exists>p. frame_at data width height p))"

lemma frame_header_take:
  "frame_header (take n (drop k data)) width height \<Longrightarrow>
   frame_header (drop k data) width height \<and> k + 5 < length data"
  by (auto simp: frame_header_def)

lemma segment_safe:
  assumes inv: "loop_inv data width height l"
    and pos: "jl_position l < position" "3 < position" "position \<le> length data"
    and mark: "data ! (position - 1) = marker" "data ! (position - 2) = 0xFF"
  shows "safe (jpeg_segment data width height marker position l)
    (\<lambda>l'. loop_inv data width height l' \<and> jl_position l < jl_position l')"
proof (cases "marker = 0 \<or> marker = 0xD8 \<or> length data - position < 2")
  case True
  then show ?thesis by (simp add: jpeg_segment_def)
next
  case False
  have wf: "jp_wf (jl_state l)" using inv by (simp add: loop_inv_def)
  have fr: "\<exists>p. frame_at data width height p"
    if "frame_header (take n (drop (position + 2) data)) width height"
      "marker = 0xC0 \<or> marker = 0xC1 \<or> marker = 0xC2" for n
  proof
    show "frame_at data width height (position - 1)"
      using frame_header_take [OF that(1)] that(2) pos mark
      by (auto simp: frame_at_def numeral_2_eq_2 numeral_3_eq_3)
  qed
  have keep: "loop_inv data width height l'"
    if "jp_wf (jl_state l')" "position \<le> jl_position l'" "jl_position l' \<le> length data"
      "same_frame (jl_state l) (jl_state l') \<or> (\<exists>p. frame_at data width height p)" for l'
    using inv that pos by (auto simp: loop_inv_def same_frame_def)
  have len: "position + 1 < length data" using False by arith
  show ?thesis unfolding jpeg_segment_def Let_def if_not_P [OF False]
  proof (rule safe_bind [OF safe_be16 [OF len]])
    fix n
    let ?P = "\<lambda>l'. loop_inv data width height l' \<and> jl_position l < jl_position l'"
    show "safe (if n < 2 \<or> length data - position < n then reject else
        if marker = 0xC0 \<or> marker = 0xC1 \<or> marker = 0xC2
        then sbind (jpeg_validation_frame (jl_state l) marker
                      (take (n - 2) (drop (position + 2) data)) width height)
               (\<lambda>st'. Inr (l\<lparr>jl_position := position + n, jl_in_scan := False, jl_state := st'\<rparr>))
        else if marker = 0xDB
        then sbind (jpeg_validation_quantizers (jl_state l) (take (n - 2) (drop (position + 2) data)))
               (\<lambda>st'. Inr (l\<lparr>jl_position := position + n, jl_in_scan := False, jl_state := st'\<rparr>))
        else if marker = 0xC4
        then sbind (jpeg_validation_huffman (jl_state l) (take (n - 2) (drop (position + 2) data)))
               (\<lambda>st'. Inr (l\<lparr>jl_position := position + n, jl_in_scan := False, jl_state := st'\<rparr>))
        else if marker = 0xDD
        then if length (take (n - 2) (drop (position + 2) data)) \<noteq> 2 then reject
             else sbind (be16 (take (n - 2) (drop (position + 2) data)) 0)
                    (\<lambda>r. Inr (l\<lparr>jl_position := position + n, jl_in_scan := False,
                       jl_state := (jl_state l)\<lparr>jp_restart_interval := of_nat r\<rparr>\<rparr>))
        else if marker = 0xDA
        then sbind (jpeg_validation_scan (jl_state l) (take (n - 2) (drop (position + 2) data)))
               (\<lambda>st'. Inr (l\<lparr>jl_position := position + n, jl_in_scan := False, jl_state := st',
                  jl_in_scan := True, jl_has_data := False, jl_next_restart := 0\<rparr>))
        else if \<not> (marker \<ge> 0xE0 \<and> marker \<le> 0xEF) \<and> marker \<noteq> 0xFE then reject
        else Inr (l\<lparr>jl_position := position + n, jl_in_scan := False\<rparr>)) ?P"
    proof (cases "n < 2 \<or> length data - position < n")
      case False
      then have n: "position + n \<le> length data" using pos(3) by arith
      have n2: "jl_position l < position + n" using pos(1) by simp
      have scan: "\<exists>p. frame_at data width height p" if "jp_frame_marker (jl_state l) \<noteq> 0"
        using that inv by (simp add: loop_inv_def)
      show ?thesis unfolding if_not_P [OF False]
        by (intro safe_if safe_bind [OF frame_safe [OF wf]] safe_bind [OF quantizers_safe [OF wf]]
            safe_bind [OF huffman_safe [OF wf]] safe_bind [OF scan_safe [OF wf]] safe_return
            safe_bind [OF safe_be16] safe_reject conjI keep)
          (use n n2 wf scan fr in \<open>auto simp: same_frame_def\<close>)
    qed simp
  qed
qed

text \<open>What acceptance tells about the end of the file.\<close>

definition accepted_end :: "u8 list \<Rightarrow> u32 \<Rightarrow> u32 \<Rightarrow> bool" where
  "accepted_end data width height \<longleftrightarrow> 4 \<le> length data \<and>
     data ! (length data - 2) = 0xFF \<and> data ! (length data - 1) = 0xD9 \<and>
     (\<exists>p. frame_at data width height p)"

definition round_ok :: "u8 list \<Rightarrow> u32 \<Rightarrow> u32 \<Rightarrow> jpeg_loop \<Rightarrow> jpeg_loop checked \<Rightarrow> bool" where
  "round_ok data width height l m =
     (case m of
        Inl e \<Rightarrow> e = Verdict False \<or> (e = Verdict True \<and> accepted_end data width height)
      | Inr l' \<Rightarrow> loop_inv data width height l' \<and> jl_position l < jl_position l')"

lemma round_ok_safe:
  "safe m (\<lambda>l'. loop_inv data width height l' \<and> jl_position l < jl_position l') \<Longrightarrow>
   round_ok data width height l m"
  by (auto simp: safe_def round_ok_def split: sum.splits)

lemma round_ok_if:
  "(c \<Longrightarrow> round_ok data width height l m) \<Longrightarrow> (\<not> c \<Longrightarrow> round_ok data width height l n) \<Longrightarrow>
   round_ok data width height l (if c then m else n)"
  by simp

lemma round_ok_reject [simp]: "round_ok data width height l reject"
  by (simp add: round_ok_def)

lemma loop_inv_upd:
  assumes "loop_inv data width height l" and "2 \<le> q" and "q \<le> length data"
  shows "loop_inv data width height (l\<lparr>jl_has_data := c, jl_position := q\<rparr>)"
    and "loop_inv data width height (l\<lparr>jl_next_restart := r, jl_has_data := c, jl_position := q\<rparr>)"
  using assms by (simp_all add: loop_inv_def)

lemma jpeg_round_ok:
  assumes inv: "loop_inv data width height l" and pos: "jl_position l < length data"
  shows "round_ok data width height l (jpeg_round data width height l)"
proof -
  have ge: "2 \<le> jl_position l" using inv by (simp add: loop_inv_def)
  obtain p where p: "skip_fill data (jl_position l + 1) = Inr p" "jl_position l + 1 \<le> p"
    "p \<le> length data" "\<forall>k. jl_position l + 1 \<le> k \<and> k < p \<longrightarrow> data ! k = 0xFF"
    using skip_fill_spec [of "jl_position l + 1" data] pos by auto
  show ?thesis
  proof (cases "data ! jl_position l = 0xFF \<and> p < length data")
    case False
    with pos p ge inv show ?thesis
      by (auto simp: jpeg_round_def round_ok_def loop_inv_upd)
  next
    case True
    then have before: "data ! (p - 1) = 0xFF"
      using p(2,4) by (cases "p = jl_position l + 1") auto
    have seg: "safe (jpeg_segment data width height (data ! p) (p + 1) l)
        (\<lambda>l'. loop_inv data width height l' \<and> jl_position l < jl_position l')"
      using inv p True ge before by (intro segment_safe) auto
    have fin: "accepted_end data width height"
      if "data ! p = 0xD9" "jp_saw_scan (jl_state l)" "p + 1 = length data"
      using that before inv ge p(2) True
      by (auto simp: accepted_end_def loop_inv_def numeral_2_eq_2 simp flip: that(3))
    have le: "p + 1 \<le> length data" "2 \<le> p + 1" "jl_position l < p + 1" using p True by simp_all
    note upd = loop_inv_upd [OF inv le(2,1)]
    show ?thesis
      using True pos le upd fin
      unfolding jpeg_round_def
      by (simp add: p(1) [simplified] Let_def round_ok_safe [OF seg, simplified])
        (auto simp: round_ok_def)
  qed
qed

lemma jpeg_rounds_ok:
  assumes "loop_inv data width height l" and "length data - jl_position l \<le> fuel"
  shows "jpeg_rounds fuel data width height l = Verdict False \<or>
    (jpeg_rounds fuel data width height l = Verdict True \<and> accepted_end data width height)"
  using assms
proof (induction fuel arbitrary: l)
  case 0
  then show ?case by (subst jpeg_rounds.simps) simp
next
  case (Suc fuel)
  show ?case
  proof (cases "jl_position l < length data")
    case False
    then show ?thesis by (subst jpeg_rounds.simps) simp
  next
    case True
    note ok = jpeg_round_ok [OF Suc.prems(1) True]
    show ?thesis
    proof (cases "jpeg_round data width height l")
      case (Inl e)
      with ok True show ?thesis by (subst (1 2) jpeg_rounds.simps) (auto simp: round_ok_def)
    next
      case (Inr l')
      then have "loop_inv data width height l'" "length data - jl_position l' \<le> fuel"
        using ok Suc.prems(2) True by (auto simp: round_ok_def)
      from Suc.IH [OF this] Inr True show ?thesis
        by (subst (1 2) jpeg_rounds.simps) auto
    qed
  qed
qed

lemma validate_cases:
  "esp_vision_jpeg_validate (Some data) width height = Verdict False \<or>
   (esp_vision_jpeg_validate (Some data) width height = Verdict True \<and>
    accepted_end data width height \<and> data ! 0 = 0xFF \<and> data ! 1 = 0xD8 \<and>
    width \<le> 0xFFFF \<and> height \<le> 0xFFFF)"
proof (cases "length data < 4 \<or> width = 0 \<or> height = 0 \<or> width > 0xFFFF \<or> height > 0xFFFF \<or>
    data ! 0 \<noteq> 0xFF \<or> data ! 1 \<noteq> 0xD8")
  case True
  then show ?thesis
    by (cases "length data < 4") (auto simp: esp_vision_jpeg_validate_def rd_def)
next
  case False
  let ?l = "\<lparr>jl_state = jpeg_zero, jl_position = 2, jl_in_scan = False,
              jl_has_data = False, jl_next_restart = 0\<rparr>"
  have "loop_inv data width height ?l"
    using False by (simp add: loop_inv_def jpeg_zero_wf) (simp add: jpeg_zero_def)
  from jpeg_rounds_ok [OF this] have "jpeg_rounds (length data) data width height ?l = Verdict False \<or>
      (jpeg_rounds (length data) data width height ?l = Verdict True \<and>
       accepted_end data width height)" by simp
  moreover have "esp_vision_jpeg_validate (Some data) width height =
      jpeg_rounds (length data) data width height ?l"
  proof -
    have "0 < length data" "1 < length data" using False by linarith+
    then show ?thesis using False by (simp add: esp_vision_jpeg_validate_def)
  qed
  ultimately show ?thesis using False by auto
qed

text \<open>
  The JPEG check is safe on every input: for any buffer and dimensions it
  returns a verdict; it never reads outside the buffer, outside a segment or outside the
  arrays of its state, and its loop ends.
\<close>

theorem jpeg_validate_returns:
  "\<exists>b. esp_vision_jpeg_validate buffer width height = Verdict b"
proof (cases buffer)
  case None
  then show ?thesis by (intro exI [of _ False]) (simp add: esp_vision_jpeg_validate_def)
next
  case (Some data)
  with validate_cases [of data width height] show ?thesis by blast
qed

text \<open>
  Property C12: an accepted file has the documented outer structure: it starts with the start
  marker, ends with the end marker (no trailing bytes), and contains a baseline, extended or
  progressive frame header of eight-bit samples with exactly the expected dimensions.
\<close>

theorem accepted_jpeg_structure:
  assumes "esp_vision_jpeg_validate (Some data) width height = Verdict True"
  shows "data ! 0 = 0xFF \<and> data ! 1 = 0xD8 \<and> data ! (length data - 2) = 0xFF \<and>
    data ! (length data - 1) = 0xD9 \<and> (\<exists>p. frame_at data width height p)"
  using validate_cases [of data width height] assms by (auto simp: accepted_end_def)

section \<open>Code lengths\<close>

text \<open>
  The number of codes of length sixteen that the given counts of shorter and equal lengths
  use up; a prefix code needs at most \<open>2 ^ 16\<close>, and JPEG reserves the code of all ones.
\<close>

fun code_space :: "nat list \<Rightarrow> int" where
  "code_space [] = 0"
| "code_space (c # cs) = int c * 2 ^ length cs + code_space cs"

lemma code_space_nonneg: "0 \<le> code_space cs"
  by (induction cs) auto

lemma huffman_counts_spec:
  assumes "\<forall>i \<in> set is. i < length data" and "0 \<le> slots" and "symbols \<le> 256"
  shows "huffman_counts data is symbols slots =
    (let cs = map (\<lambda>i. unat (data ! i)) is;
         tot = symbols + sum_list cs; left = slots * 2 ^ length is - code_space cs
     in if left < 0 \<or> tot > 256 then reject else Inr (tot, left))"
  using assms
proof (induction "is" arbitrary: symbols slots)
  case Nil
  then show ?case by simp
next
  case (Cons i "is")
  let ?c = "unat (data ! i)" and ?cs = "map (\<lambda>i. unat (data ! i)) is"
  show ?case
  proof (cases "slots * 2 - int ?c < 0 \<or> symbols + ?c > 256")
    case True
    have "slots * 2 ^ length (i # is) - code_space (map (\<lambda>i. unat (data ! i)) (i # is)) < 0"
      if "slots * 2 - int ?c < 0"
    proof -
      have "slots * 2 ^ length (i # is) - code_space (map (\<lambda>i. unat (data ! i)) (i # is)) =
          (slots * 2 - int ?c) * 2 ^ length is - code_space ?cs"
        by (simp add: algebra_simps)
      moreover have "(slots * 2 - int ?c) * 2 ^ length is < 0"
        using that by (intro mult_neg_pos) simp_all
      ultimately show ?thesis using code_space_nonneg [of ?cs] by linarith
    qed
    with True Cons.prems show ?thesis by (auto simp: Let_def)
  next
    case False
    with Cons.prems have "huffman_counts data is (symbols + ?c) (slots * 2 - int ?c) =
      (let tot = symbols + ?c + sum_list ?cs;
           left = (slots * 2 - int ?c) * 2 ^ length is - code_space ?cs
       in if left < 0 \<or> tot > 256 then reject else Inr (tot, left))"
      using Cons.IH [of "slots * 2 - int ?c" "symbols + ?c"] by (simp add: Let_def)
    with False Cons.prems show ?thesis by (simp add: Let_def algebra_simps)
  qed
qed

lemma kraft_iff:
  "r = (if 2 ^ 16 - space < (0 :: int) \<or> tot > 256 then reject
        else Inr (tot, 2 ^ 16 - space)) \<Longrightarrow>
   (\<exists>s l. r = Inr (s, l) \<and> \<not> (s = 0 \<or> l = 0)) \<longleftrightarrow>
     space < 2 ^ 16 \<and> tot \<noteq> 0 \<and> tot \<le> (256 :: nat)"
  by (cases "2 ^ 16 - space < 0 \<or> tot > 256") auto

text \<open>
  The code-length test of a Huffman table is the strict Kraft inequality: the
  sixteen counts pass exactly when they describe between 1 and 256 symbols whose codes fit
  below the reserved all-ones code of length sixteen.
\<close>

theorem huffman_counts_strict_kraft:
  assumes "position + 16 \<le> length data"
  shows "(\<exists>symbols slots. huffman_counts data [position..<position + 16] 0 1 = Inr (symbols, slots) \<and>
      \<not> (symbols = 0 \<or> slots = 0)) \<longleftrightarrow>
    (let cs = map (\<lambda>i. unat (data ! i)) [position..<position + 16]
     in code_space cs < 2 ^ 16 \<and> sum_list cs \<noteq> 0 \<and> sum_list cs \<le> 256)"
proof -
  define cs where "cs = map (\<lambda>i. unat (data ! i)) [position..<position + 16]"
  have "huffman_counts data [position..<position + 16] 0 1 =
      (if 2 ^ 16 - code_space cs < 0 \<or> sum_list cs > 256 then reject
       else Inr (sum_list cs, 2 ^ 16 - code_space cs))"
    using huffman_counts_spec [of "[position..<position + 16]" data 1 0] assms
    by (simp add: Let_def cs_def del: upt_Suc)
  then show ?thesis unfolding cs_def [symmetric] Let_def by (rule kraft_iff)
qed

section \<open>A small file\<close>

text \<open>
  A baseline file of one component, 1 by 1: a quantization table, a frame header, one DC and
  one AC table with a single code, a scan of one byte.
\<close>

definition demo_jpeg :: "u8 list" where
  "demo_jpeg =
     [0xFF, 0xD8, 0xFF, 0xDB, 0, 67, 0] @ replicate 64 1 @
     [0xFF, 0xC0, 0, 11, 8, 0, 1, 0, 1, 1, 1, 0x11, 0,
      0xFF, 0xC4, 0, 20, 0x00] @ 1 # replicate 15 0 @ [0,
      0xFF, 0xC4, 0, 20, 0x10] @ 1 # replicate 15 0 @ [0,
      0xFF, 0xDA, 0, 8, 1, 1, 0, 0, 63, 0, 0x2A, 0xFF, 0xD9]"

lemma demo_jpeg_accepted: "esp_vision_jpeg_validate (Some demo_jpeg) 1 1 = Verdict True"
  by code_simp

theorem accepted_jpeg_structure_witness:
  "demo_jpeg ! 0 = 0xFF \<and> demo_jpeg ! 1 = 0xD8 \<and> (\<exists>p. frame_at demo_jpeg 1 1 p)"
  using accepted_jpeg_structure [OF demo_jpeg_accepted] by blast

theorem huffman_counts_strict_kraft_witness:
  "(\<exists>symbols slots. huffman_counts (1 # replicate 15 0) [0..<16] 0 1 = Inr (symbols, slots) \<and>
      \<not> (symbols = 0 \<or> slots = 0))"
proof -
  have "let cs = map (\<lambda>i. unat (((1 :: u8) # replicate 15 0) ! i)) [0..<0 + 16]
     in code_space cs < 2 ^ 16 \<and> sum_list cs \<noteq> 0 \<and> sum_list cs \<le> 256" by code_simp
  then show ?thesis using huffman_counts_strict_kraft [of 0 "(1 :: u8) # replicate 15 0"] by simp
qed

end
