(* ===== verification/ControlUtf8.thy ===== *)
theory ControlUtf8
  imports ControlJson
begin

text \<open>
  UTF-8 as a specification of the strings that the JSON decoder delivers: the encoding of a code
  point by division and remainder, well-formed texts, and that the bit operations of the decoder
  compute and check exactly this encoding.
\<close>

section \<open>Well-formed texts\<close>

definition scalar :: "nat \<Rightarrow> bool" where
  "scalar w \<longleftrightarrow> 0 < w \<and> w \<le> 0x10ffff \<and> \<not> (0xd800 \<le> w \<and> w \<le> 0xdfff)"

definition utf8_char :: "nat \<Rightarrow> string" where
  "utf8_char w =
     (if w < 0x80 then [char_of w]
      else if w < 0x800 then [char_of (0xc0 + w div 64), char_of (0x80 + w mod 64)]
      else if w < 0x10000
      then [char_of (0xe0 + w div 4096), char_of (0x80 + w div 64 mod 64), char_of (0x80 + w mod 64)]
      else [char_of (0xf0 + w div 262144), char_of (0x80 + w div 4096 mod 64),
            char_of (0x80 + w div 64 mod 64), char_of (0x80 + w mod 64)])"

definition utf8 :: "string \<Rightarrow> bool" where
  "utf8 s \<longleftrightarrow> (\<exists>ws. (\<forall>w \<in> set ws. scalar w) \<and> s = concat (map utf8_char ws))"

lemma utf8_Nil [simp, intro]: "utf8 []"
  by (auto simp: utf8_def intro!: exI [of _ "[]"])

lemma utf8_append:
  assumes "utf8 s" and "scalar w"
  shows "utf8 (s @ utf8_char w)"
proof -
  obtain ws where "\<forall>w \<in> set ws. scalar w" "s = concat (map utf8_char ws)"
    using assms(1) by (auto simp: utf8_def)
  then have "\<forall>w \<in> set (ws @ [w]). scalar w" "s @ utf8_char w = concat (map utf8_char (ws @ [w]))"
    using assms(2) by auto
  then show ?thesis unfolding utf8_def by blast
qed

lemma utf8_induct [consumes 1, case_names Nil char]:
  assumes "utf8 s" and "P []" and "\<And>w s. scalar w \<Longrightarrow> utf8 s \<Longrightarrow> P s \<Longrightarrow> P (utf8_char w @ s)"
  shows "P s"
proof -
  obtain ws where ws: "\<forall>w \<in> set ws. scalar w" "s = concat (map utf8_char ws)"
    using assms(1) by (auto simp: utf8_def)
  have "P (concat (map utf8_char ws))" using ws(1)
  proof (induction ws)
    case (Cons w ws)
    then have "utf8 (concat (map utf8_char ws))" by (auto simp: utf8_def)
    with Cons show ?case using assms(3) by simp
  qed (simp add: assms(2))
  then show ?thesis by (simp add: ws(2))
qed

section \<open>Bytes and bits\<close>

lemma nat_or_add: "x < 2 ^ k \<Longrightarrow> 2 ^ k dvd a \<Longrightarrow> a OR x = a + (x :: nat)"
proof -
  assume x: "x < 2 ^ k" and a: "2 ^ k dvd a"
  obtain b where b: "a = push_bit k b" using a by (auto simp: dvd_def push_bit_eq_mult ac_simps)
  have "take_bit k x = x" using x by (simp add: take_bit_nat_eq_self_iff)
  then have "\<not> bit x n" if "k \<le> n" for n using that by (metis bit_take_bit_iff not_less)
  then have "a AND x = 0" by (auto simp: bit_eq_iff bit_simps b)
  then show ?thesis by (simp add: disjunctive_add_eq_or)
qed

lemma unat_or_add: "unat x < 2 ^ k \<Longrightarrow> 2 ^ k dvd unat a \<Longrightarrow> unat (a OR x) = unat a + unat (x :: u32)"
  using nat_or_add [of "unat x" k "unat a"] by (simp add: unsigned_or_eq)

lemma unat_low_bits: "unat (w AND 0x3f :: u32) = unat w mod 64"
proof -
  have "(0x3f :: u32) = mask 6" by (simp add: mask_eq_exp_minus_1)
  then have "unat (w AND 0x3f) = unat (take_bit 6 w)" by (simp only: take_bit_eq_mask)
  also have "\<dots> = take_bit 6 (unat w)" by (rule unsigned_take_bit_eq)
  finally show ?thesis by (simp add: take_bit_eq_mod)
qed

lemma unat_drop: "unat (drop_bit k w :: u32) = unat w div 2 ^ k"
proof -
  have "unat (drop_bit k w) = drop_bit k (unat w)" by (rule unat_drop_bit_eq)
  then show ?thesis by (simp only: drop_bit_eq_div)
qed

lemma of_char_less [simp]: "of_char c < (256 :: nat)"
  by (metis of_char_mod_256 mod_less_divisor zero_less_numeral)

lemma unat_code [simp]: "unat (code c) = of_char c"
proof -
  have "of_char c < (256 :: nat)" by simp
  then have "of_char c < (2 :: nat) ^ 32" by (rule order_less_trans) simp
  then show ?thesis by (simp add: code_def unat_of_nat take_bit_nat_eq_self)
qed

lemma code_compare:
  "code c < numeral n \<longleftrightarrow> of_char c < unat (numeral n :: u32)"
  "numeral n \<le> code c \<longleftrightarrow> unat (numeral n :: u32) \<le> of_char c"
  "code c \<le> numeral n \<longleftrightarrow> of_char c \<le> unat (numeral n :: u32)"
  by (simp_all only: word_less_nat_alt word_le_nat_alt unat_code)

lemma and_push_bit: "n AND push_bit k m = push_bit k (drop_bit k n AND (m :: nat))"
  by (auto simp: bit_eq_iff bit_simps)

lemma and_high_bits: "(n :: nat) < 256 \<Longrightarrow> n AND 192 = n div 64 * 64"
proof -
  assume n: "n < 256"
  have "(192 :: nat) = push_bit 6 3" by simp
  then have "n AND 192 = n AND push_bit 6 3" by (rule arg_cong)
  also have "\<dots> = push_bit 6 (drop_bit 6 n AND 3)"
    by (rule and_push_bit)
  also have "(3 :: nat) = mask 2" by (simp add: mask_eq_exp_minus_1)
  also have "drop_bit 6 n AND mask 2 = n div 64"
    using n by (simp add: take_bit_eq_mask [symmetric] take_bit_eq_mod drop_bit_eq_div)
  finally show ?thesis by (simp add: push_bit_eq_mult)
qed

lemma trail_byte: "code c AND 0xc0 = 0x80 \<longleftrightarrow> of_char c div 64 = (2 :: nat)"
proof -
  have "unat (code c AND 0xc0) = of_char c div 64 * 64"
    by (simp add: unsigned_and_eq and_high_bits)
  moreover have "code c AND 0xc0 = 0x80 \<longleftrightarrow> unat (code c AND 0xc0) = unat (0x80 :: u32)"
    by (simp only: word_unat_eq_iff)
  ultimately show ?thesis by simp
qed

section \<open>The encoder and the decoder of code points\<close>

lemma byte_sum: "unat x < 2 ^ k \<Longrightarrow> 2 ^ k dvd unat a \<Longrightarrow> byte (a OR x) = char_of (unat a + unat x)"
  by (simp add: byte_def unat_or_add)

text \<open>What the decoder appends for a code point is its encoding.\<close>

lemma append_codepoint_eq:
  assumes "scalar (unat w)"
  shows "ev_control_json_append_codepoint w d = append_all (utf8_char (unat w)) d"
proof -
  have w: "\<not> (w = 0 \<or> 0x10ffff < w \<or> (0xd800 \<le> w \<and> w \<le> 0xdfff))"
    using assms by (auto simp: scalar_def word_less_nat_alt word_le_nat_alt)
  have range: "unat w < 0x110000" using assms by (simp add: scalar_def)
  have low: "byte (0x80 OR (x AND 0x3f)) = char_of (0x80 + unat x mod 64)" for x
    by (subst byte_sum [where k = 6]) (simp_all add: unat_low_bits)
  have high: "unat w < 0x800 \<Longrightarrow> byte (0xc0 OR drop_bit 6 w) = char_of (0xc0 + unat w div 64)"
    "unat w < 0x10000 \<Longrightarrow> byte (0xe0 OR drop_bit 12 w) = char_of (0xe0 + unat w div 4096)"
    "byte (0xf0 OR drop_bit 18 w) = char_of (0xf0 + unat w div 262144)"
    using range by (subst byte_sum [where k = 5], simp_all add: unat_drop)
      (subst byte_sum [where k = 4], simp_all add: unat_drop)+
  have one: "byte w = char_of (unat w)" by (simp add: byte_def)
  have less: "w < 0x80 \<longleftrightarrow> unat w < 0x80" "w < 0x800 \<longleftrightarrow> unat w < 0x800" "w < 0x10000 \<longleftrightarrow> unat w < 0x10000"
    by (simp_all add: word_less_nat_alt)
  have div: "unat (drop_bit 6 w) = unat w div 64" "unat (drop_bit 12 w) = unat w div 4096"
    by (simp_all add: unat_drop)
  show ?thesis
    unfolding ev_control_json_append_codepoint_def if_not_P [OF w] utf8_char_def less one low div
    using high by (simp del: append_all.simps)
qed

text \<open>The sequences of bytes that the decoder copies are encodings of code points.\<close>

definition continue_with :: "nat \<Rightarrow> string \<Rightarrow> nat" where
  "continue_with = foldl (\<lambda>v c. v * 64 + of_char c mod 64)"

lemma shift_in:
  assumes "(unat w + 1) * 64 \<le> 4294967296"
  shows "unat (push_bit 6 w OR (code c AND 0x3f)) = unat w * 64 + of_char c mod 64"
proof -
  have "unat (push_bit 6 w) = take_bit 32 (push_bit 6 (unat w))"
    by (simp add: unsigned_push_bit_eq)
  also have "\<dots> = unat w * 64" using assms by (simp add: push_bit_eq_mult take_bit_nat_eq_self)
  finally have "unat (push_bit 6 w) = unat w * 64" .
  then show ?thesis by (subst unat_or_add [where k = 6]) (simp_all add: unat_low_bits)
qed

lemma trailing_spec:
  assumes "p + n \<le> length text" and "(unat w + 1) * 64 ^ n \<le> 4294967296"
  shows "\<exists>cs. cs = take n (drop p text) \<and>
    trailing_bytes n text p e w =
      (if \<forall>c \<in> set cs. of_char c div 64 = (2 :: nat)
       then Inr (e @ cs, of_nat (continue_with (unat w) cs), p + n) else reject) \<and>
    continue_with (unat w) cs < 4294967296"
  using assms
proof (induction n arbitrary: p e w)
  case 0
  then show ?case by (simp add: continue_with_def unat_less_u32)
next
  case (Suc n)
  let ?w = "push_bit 6 w OR (code (text ! p) AND 0x3f)"
  have "(64 :: nat) * 1 \<le> 64 * 64 ^ n" by (intro mult_le_mono2) simp
  then have "(unat w + 1) * 64 \<le> (unat w + 1) * 64 ^ Suc n" by (intro mult_le_mono2) simp
  then have w: "unat ?w = unat w * 64 + of_char (text ! p) mod 64"
    using Suc.prems(2) by (intro shift_in) linarith
  have "(unat ?w + 1) * 64 ^ n \<le> (unat w * 64 + 64) * 64 ^ n"
    unfolding w by (intro mult_le_mono1) (simp add: Suc_le_eq)
  then have b: "(unat ?w + 1) * 64 ^ n \<le> 4294967296" using Suc.prems(2) by (simp add: algebra_simps)
  have t: "take (Suc n) (drop p text) = text ! p # take n (drop (Suc p) text)"
    using Suc.prems(1) by (simp add: Cons_nth_drop_Suc [symmetric])
  show ?case
    using Suc.IH [of "p + 1" ?w "e @ [text ! p]"] Suc.prems(1) b
    by (simp add: t trail_byte continue_with_def w)
qed

lemma unat_mask: "unat (code c AND mask k) = of_char c mod 2 ^ k"
proof -
  have "unat (code c AND mask k) = unat (take_bit k (code c))" by (simp only: take_bit_eq_mask)
  also have "\<dots> = take_bit k (unat (code c))" by (rule unsigned_take_bit_eq)
  finally show ?thesis by (simp add: take_bit_eq_mod)
qed

definition lead_bits :: "char \<Rightarrow> (nat \<times> nat) option" where
  "lead_bits c =
     (let x = of_char c :: nat
      in if 0xc2 \<le> x \<and> x \<le> 0xdf then Some (x mod 32, 1)
         else if 0xe0 \<le> x \<and> x \<le> 0xef then Some (x mod 16, 2)
         else if 0xf0 \<le> x \<and> x \<le> 0xf4 then Some (x mod 8, 3)
         else None)"

lemma lead_byte_eq: "lead_byte (code c) = map_option (\<lambda>(v, n). (of_nat v, n)) (lead_bits c)"
proof -
  have m: "(0x1f :: u32) = mask 5" "(0x0f :: u32) = mask 4" "(0x07 :: u32) = mask 3"
    by (simp_all add: mask_eq_exp_minus_1)
  have v: "code c AND mask k = of_nat (of_char c mod 2 ^ k)" for k
    by (simp only: unat_mask [symmetric] of_nat_unat ucast_id)
  show ?thesis
    by (simp add: lead_byte_def lead_bits_def code_compare m v Let_def del: mask_numeral)
qed

lemma continue_simps [simp]: "continue_with v [] = v" "continue_with v (c # cs) = continue_with (v * 64 + of_char c mod 64) cs"
  by (simp_all add: continue_with_def)

text \<open>A code point that needs another number of bytes, or none that is allowed.\<close>

definition misfit :: "nat \<Rightarrow> nat \<Rightarrow> bool" where
  "misfit n w \<longleftrightarrow> (n = 1 \<and> w < 0x80) \<or> (n = 2 \<and> w < 0x800) \<or> (n = 3 \<and> w < 0x10000) \<or>
     0x10ffff < w \<or> (0xd800 \<le> w \<and> w \<le> 0xdfff)"

lemma lead_bits_bound: "lead_bits c = Some (v, n) \<Longrightarrow> v < 32 \<and> n \<in> {1, 2, 3}"
  by (auto simp: lead_bits_def Let_def split: if_splits)

lemma raw_utf8_eq:
  assumes "p < length text"
  shows "ev_control_json_append_raw_utf8 text p d =
    (case lead_bits (text ! p) of None \<Rightarrow> reject
     | Some (v, n) \<Rightarrow>
         let cs = take n (drop (p + 1) text)
         in if length cs = n \<and> (\<forall>c \<in> set cs. of_char c div 64 = (2 :: nat)) \<and> \<not> misfit n (continue_with v cs)
            then sbind (append_all (text ! p # cs) d) (\<lambda>d'. Inr (d', p + 1 + n))
            else reject)"
proof (cases "lead_bits (text ! p)")
  case None
  then have "lead_byte (code (text ! p)) = None"
    by (simp add: lead_byte_eq)
  with None assms show ?thesis by (simp add: ev_control_json_append_raw_utf8_def)
next
  case (Some vn)
  obtain v n where vn: "vn = (v, n)" by (cases vn)
  note b = lead_bits_bound [OF Some [unfolded vn]]
  have l: "lead_byte (code (text ! p)) = Some (of_nat v, n)"
    using Some by (simp add: lead_byte_eq vn)
  have v: "unat (of_nat v :: u32) = v" using b by (simp add: unat_of_nat take_bit_nat_eq_self)
  have "(64 :: nat) ^ n \<le> 262144" using b by auto
  then have "(v + 1) * 64 ^ n \<le> 32 * 262144" using b by (intro mult_le_mono) auto
  then have bound: "(unat (of_nat v :: u32) + 1) * 64 ^ n \<le> 4294967296" by (simp add: v)
  show ?thesis
  proof (cases "length text - (p + 1) < n")
    case True
    then show ?thesis using assms
      by (simp add: ev_control_json_append_raw_utf8_def l Some vn)
  next
    case False
    define cs where "cs = take n (drop (p + 1) text)"
    have len: "length cs = n" using False by (simp add: cs_def)
    have t: "trailing_bytes n text (p + 1) [text ! p] (of_nat v) =
        (if \<forall>c \<in> set cs. of_char c div 64 = (2 :: nat)
         then Inr (text ! p # cs, of_nat (continue_with v cs), p + 1 + n) else reject)"
      "continue_with v cs < 4294967296"
      using trailing_spec [OF _ bound, of "p + 1" "text" "[text ! p]"] False assms by (simp_all add: v cs_def)
    have w: "unat (of_nat (continue_with v cs) :: u32) = continue_with v cs"
      using t(2) by (simp add: unat_of_nat take_bit_nat_eq_self)
    let ?w = "of_nat (continue_with v cs) :: u32"
    have m: "((n = 1 \<and> ?w < 0x80) \<or> (n = 2 \<and> ?w < 0x800) \<or> (n = 3 \<and> ?w < 0x10000) \<or> 0x10ffff < ?w \<or>
        (0xd800 \<le> ?w \<and> ?w \<le> 0xdfff)) = misfit n (continue_with v cs)"
      by (simp add: misfit_def w word_less_nat_alt word_le_nat_alt)
    have "ev_control_json_append_raw_utf8 text p d =
        (if \<forall>c \<in> set cs. of_char c div 64 = (2 :: nat)
         then if misfit n (continue_with v cs) then reject
              else sbind (append_all (text ! p # cs) d) (\<lambda>d'. Inr (d', p + 1 + n))
         else reject)"
      by (simp only: ev_control_json_append_raw_utf8_def rd_inside [OF assms] sbind_simps l option.case prod.case
          if_not_P [OF False] t(1) m split: if_split) blast
    then show ?thesis by (simp only: Some vn option.case prod.case Let_def cs_def [symmetric] len) simp
  qed
qed

lemma trail_char: "of_char c div 64 = (2 :: nat) \<Longrightarrow> char_of (0x80 + of_char c mod 64 :: nat) = c"
proof -
  have x: "0x80 + x mod 64 = x" if "x div 64 = 2" for x :: nat
  proof -
    have "x = x div 64 * 64 + x mod 64" by (simp only: div_mult_mod_eq)
    then show ?thesis unfolding that by simp
  qed
  assume "of_char c div 64 = (2 :: nat)"
  from x [OF this] have "char_of (0x80 + of_char c mod 64 :: nat) = (char_of (of_char c :: nat) :: char)" by (rule arg_cong)
  then show ?thesis by (simp only: char_of_char)
qed

lemma mod_in_block: "k * b \<le> x \<Longrightarrow> x < k * b + b \<Longrightarrow> k * b + x mod b = (x :: nat)"
proof -
  assume a: "k * b \<le> x" "x < k * b + b"
  then obtain y where y: "x = k * b + y" "y < b" by (metis add_less_cancel_left le_Suc_ex)
  then show ?thesis by simp
qed

lemma digits_of:
  "a < 64 \<Longrightarrow> (v * 64 + a) div 64 = (v :: nat)" "a < 64 \<Longrightarrow> (v * 64 + a) mod 64 = (a :: nat)"
  "w div 4096 = w div 64 div (64 :: nat)" "w div 262144 = w div 64 div 64 div (64 :: nat)"
  by (simp_all add: div_mult2_eq [symmetric])

lemma utf8_two: "b < 64 \<Longrightarrow> 2 \<le> v \<Longrightarrow> v < 32 \<Longrightarrow> utf8_char (v * 64 + b) = [char_of (0xc0 + v), char_of (0x80 + b)]"
  by (simp add: utf8_char_def digits_of)

lemma utf8_three:
  assumes "a < 64" "b < 64" "v < 16" "0x800 \<le> (v * 64 + a) * 64 + b"
  shows "utf8_char ((v * 64 + a) * 64 + b) = [char_of (0xe0 + v), char_of (0x80 + a), char_of (0x80 + b)]"
proof -
  have "v * 64 + a \<le> 1023" using assms(1,3) by linarith
  then have "(v * 64 + a) * 64 \<le> 1023 * 64" by (rule mult_le_mono1)
  then have "(v * 64 + a) * 64 + b < 0x10000" using assms(2) by linarith
  with assms show ?thesis by (simp only: utf8_char_def digits_of) simp
qed

lemma utf8_four:
  assumes "a < 64" "b < 64" "c < 64" "0x10000 \<le> ((v * 64 + a) * 64 + b) * 64 + c"
  shows "utf8_char (((v * 64 + a) * 64 + b) * 64 + c) =
    [char_of (0xf0 + v), char_of (0x80 + a), char_of (0x80 + b), char_of (0x80 + c)]"
  using assms by (simp only: utf8_char_def digits_of) simp

text \<open>An accepted sequence is the encoding of its code point.\<close>

lemma accepted_is_utf8:
  assumes "lead_bits c = Some (v, n)" and "length cs = n" and t: "\<forall>c \<in> set cs. of_char c div 64 = (2 :: nat)"
    and "\<not> misfit n (continue_with v cs)"
  shows "utf8_char (continue_with v cs) = c # cs \<and> scalar (continue_with v cs)"
proof -
  define x where "x = (of_char c :: nat)"
  have c: "char_of x = c" by (simp add: x_def)
  let ?w = "continue_with v cs"
  have sc: "scalar ?w" using assms(4) lead_bits_bound [OF assms(1)] by (auto simp: scalar_def misfit_def)
  have "utf8_char ?w = c # cs"
  proof -
    consider (one) "n = 1" "0xc2 \<le> x" "x \<le> 0xdf" "v = x mod 32"
      | (two) "n = 2" "0xe0 \<le> x" "x \<le> 0xef" "v = x mod 16"
      | (three) "n = 3" "0xf0 \<le> x" "x \<le> 0xf4" "v = x mod 8"
      using assms(1) by (auto simp: lead_bits_def x_def Let_def split: if_splits)
    then show ?thesis
    proof cases
      case one
      then obtain c1 where cs: "cs = [c1]" using assms(2) by (auto simp: length_Suc_conv)
      have v: "0xc0 + v = x" using one mod_in_block [of 6 32 x] by simp
      then have "2 \<le> v" "v < 32" using one(2,3) by linarith+
      then show ?thesis using t by (simp add: cs utf8_two v c trail_char)
    next
      case two
      with assms(2) have "length cs = 2" by simp
      then obtain c1 c2 where cs: "cs = [c1, c2]" by (auto simp: length_Suc_conv numeral_eq_Suc)
      have v: "0xe0 + v = x" using two mod_in_block [of 14 16 x] by simp
      then have "v < 16" using two(3) by linarith
      moreover have "0x800 \<le> ?w" using assms(4) two(1) by (simp add: misfit_def)
      ultimately show ?thesis
        using t utf8_three [of "of_char c1 mod 64" "of_char c2 mod 64" v] by (simp add: cs v c trail_char)
    next
      case three
      with assms(2) have "length cs = 3" by simp
      then obtain c1 c2 c3 where cs: "cs = [c1, c2, c3]" by (auto simp: length_Suc_conv numeral_eq_Suc)
      have v: "0xf0 + v = x" using three mod_in_block [of 30 8 x] by simp
      have "0x10000 \<le> ?w" using assms(4) three(1) by (simp add: misfit_def)
      then show ?thesis
        using t utf8_four [of "of_char c1 mod 64" "of_char c2 mod 64" "of_char c3 mod 64" v]
        by (simp add: cs v c trail_char)
    qed
  qed
  with sc show ?thesis by simp
qed

text \<open>Conversely, the encoding of a code point that needs more than one byte is accepted.\<close>

lemma utf8_is_accepted:
  assumes "scalar w" and "0x80 \<le> w"
  shows "\<exists>c v n cs. utf8_char w = c # cs \<and> lead_bits c = Some (v, n) \<and> length cs = n \<and>
    (\<forall>c \<in> set cs. of_char c div 64 = (2 :: nat)) \<and> continue_with v cs = w \<and> \<not> misfit n w"
proof -
  have w: "w < 0x110000" "\<not> (0xd800 \<le> w \<and> w \<le> 0xdfff)" using assms(1) by (simp_all add: scalar_def)
  have oc: "of_char (char_of x :: char) = x" if "x < 256" for x :: nat using that by simp
  have off: "(192 + y) mod 32 = y" if "y < 32" for y :: nat using that mod_mult_self4 [of 32 6 y] by simp
  have off2: "(224 + y) mod 16 = y" if "y < 16" for y :: nat using that mod_mult_self4 [of 16 14 y] by simp
  have off3: "(240 + y) mod 8 = y" if "y < 8" for y :: nat using that mod_mult_self4 [of 8 30 y] by simp
  define t where "t x = (char_of (0x80 + x mod 64 :: nat) :: char)" for x
  have low: "of_char (t x) = 0x80 + x mod 64" "of_char (t x) div 64 = (2 :: nat)" "of_char (t x) mod 64 = x mod 64" for x :: nat
  proof -
    have r: "x mod 64 < 64" by simp
    then show ob: "of_char (t x) = 0x80 + x mod 64" unfolding t_def by (intro oc) linarith
    show "of_char (t x) div 64 = (2 :: nat)" "of_char (t x) mod 64 = x mod 64"
      using digits_of(1,2) [OF r, of 2] by (simp_all add: ob)
  qed
  have whole: "x div 64 * 64 + x mod 64 = x" for x :: nat by (rule div_mult_mod_eq)
  have lead: "lead_bits (char_of x) =
      (if 0xc2 \<le> x \<and> x \<le> 0xdf then Some (x mod 32, 1) else if 0xe0 \<le> x \<and> x \<le> 0xef then Some (x mod 16, 2)
       else if 0xf0 \<le> x \<and> x \<le> 0xf4 then Some (x mod 8, 3) else None)" if "x < 256" for x
    unfolding lead_bits_def oc [OF that] Let_def ..
  consider (one) "w < 0x800" | (two) "0x800 \<le> w" "w < 0x10000" | (three) "0x10000 \<le> w" by linarith
  then show ?thesis
  proof cases
    case one
    then have b: "w div 64 < 32" "2 \<le> w div 64" using assms(2) by auto
    then have l: "lead_bits (char_of (0xc0 + w div 64)) = Some (w div 64, 1)" by (subst lead) (simp_all add: off)
    have u: "utf8_char w = char_of (0xc0 + w div 64) # [t w]" using one assms(2) by (simp add: utf8_char_def t_def)
    show ?thesis
      using l u low(2) whole [of w] one assms(2) w
      by (intro exI [of _ "char_of (0xc0 + w div 64)"] exI [of _ "w div 64"] exI [of _ 1] exI [of _ "[t w]"])
        (simp add: low(3) misfit_def)
  next
    case two
    then have b: "w div 4096 < 16" by auto
    then have l: "lead_bits (char_of (0xe0 + w div 4096)) = Some (w div 4096, 2)" by (subst lead) (simp_all add: off2)
    have u: "utf8_char w = char_of (0xe0 + w div 4096) # [t (w div 64), t w]"
      using two by (simp add: utf8_char_def t_def)
    have "continue_with (w div 4096) [t (w div 64), t w] = w"
      by (simp only: continue_simps low(3) digits_of(3) whole)
    then show ?thesis
      using l u low(2) two w
      by (intro exI [of _ "char_of (0xe0 + w div 4096)"] exI [of _ "w div 4096"] exI [of _ 2]
            exI [of _ "[t (w div 64), t w]"])
        (simp add: misfit_def del: continue_simps)
  next
    case three
    then have b: "w div 262144 < 5" using w by auto
    then have l: "lead_bits (char_of (0xf0 + w div 262144)) = Some (w div 262144, 3)" by (subst lead) (simp_all add: off3)
    have u: "utf8_char w = char_of (0xf0 + w div 262144) # [t (w div 4096), t (w div 64), t w]"
      using three by (simp add: utf8_char_def t_def)
    have "continue_with (w div 262144) [t (w div 4096), t (w div 64), t w] = w"
      by (simp only: continue_simps low(3) digits_of(3,4) whole)
    then show ?thesis
      using l u low(2) three w
      by (intro exI [of _ "char_of (0xf0 + w div 262144)"] exI [of _ "w div 262144"] exI [of _ 3]
            exI [of _ "[t (w div 4096), t (w div 64), t w]"])
        (simp add: misfit_def del: continue_simps)
  qed
qed

end
