(* ===== verification/ControlJsonProps.thy ===== *)
theory ControlJsonProps
  imports ControlUtf8
begin

text \<open>
  Correctness of the JSON decoder: it reads only its text, writes only its buffers and always
  returns; the strings that it delivers are well-formed, terminated and free of NUL; the fields
  keep their types.
\<close>

section \<open>Decoded text\<close>

text \<open>\<open>d\<close> holds the decoded text \<open>bs\<close>, of which the buffer keeps what fits.\<close>

definition holds_text :: "string option \<Rightarrow> decoded \<Rightarrow> string \<Rightarrow> bool" where
  "holds_text b d bs \<longleftrightarrow> de_length d = length bs \<and>
     (case b of None \<Rightarrow> de_output d = None \<and> \<not> de_overflow d
      | Some a \<Rightarrow> \<exists>out. de_output d = Some out \<and> length out = length a \<and>
          (de_overflow d \<longleftrightarrow> bs \<noteq> [] \<and> length a \<le> length bs) \<and>
          take (length bs) (take (length a - 1) out) = take (length a - 1) bs)"

lemma holds_start: "holds_text b (decode_into b) []"
  by (simp add: holds_text_def decode_into_def split: option.split)

lemma append_spec:
  assumes "holds_text b d bs"
  shows "\<exists>d'. ev_control_json_append c d = Inr d' \<and> holds_text b d' (bs @ [c]) \<and> de_nul d' = de_nul d"
proof (cases b)
  case None
  then show ?thesis using assms by (auto simp: holds_text_def ev_control_json_append_def)
next
  case (Some a)
  then obtain out where out: "de_output d = Some out" "length out = length a" "de_length d = length bs"
      "de_overflow d \<longleftrightarrow> bs \<noteq> [] \<and> length a \<le> length bs"
      "take (length bs) (take (length a - 1) out) = take (length a - 1) bs"
    using assms by (auto simp: holds_text_def)
  show ?thesis
  proof (cases "length bs + 1 < length a")
    case True
    have "take (length bs) out = bs" using out(2,5) True by (simp add: min_absorb1)
    then have "take (length (bs @ [c])) (out[length bs := c]) = bs @ [c]"
      using True out(2) by (simp add: take_Suc_conv_app_nth)
    with True out Some show ?thesis
      by (auto simp: holds_text_def ev_control_json_append_def min_def)
  next
    case False
    then have "take (Suc (length bs)) (take (length a - 1) out) = take (length bs) (take (length a - 1) out)"
      by (simp add: min_absorb2)
    with False out Some show ?thesis
      by (auto simp: holds_text_def ev_control_json_append_def)
  qed
qed

lemma append_all_spec:
  assumes "holds_text b d bs"
  shows "\<exists>d'. append_all cs d = Inr d' \<and> holds_text b d' (bs @ cs) \<and> de_nul d' = de_nul d"
  using assms
proof (induction cs arbitrary: d bs)
  case (Cons c cs)
  from append_spec [OF Cons.prems] obtain d1 where d1: "ev_control_json_append c d = Inr d1"
      "holds_text b d1 (bs @ [c])" "de_nul d1 = de_nul d" by blast
  from Cons.IH [OF d1(2)] d1 show ?case by auto
qed simp

text \<open>After the closing quote the buffer is terminated, if there is room.\<close>

definition holds_string :: "string option \<Rightarrow> decoded \<Rightarrow> string \<Rightarrow> bool" where
  "holds_string b d bs \<longleftrightarrow> holds_text b d bs \<and>
     (\<forall>out. de_output d = Some out \<longrightarrow> length bs < length out \<longrightarrow> out ! length bs = CHR 0x00)"

lemma string_end_spec:
  assumes "holds_text b d bs"
  shows "\<exists>d'. string_end d = Inr d' \<and> holds_string b d' bs \<and> de_nul d' = de_nul d"
proof (cases "de_output d")
  case None
  then show ?thesis using assms by (auto simp: string_end_def holds_string_def)
next
  case (Some out)
  then obtain a where a: "b = Some a" using assms by (cases b) (auto simp: holds_text_def)
  have len: "de_length d = length bs" using assms by (simp add: holds_text_def)
  show ?thesis
  proof (cases "length bs < length out")
    case True
    then have "string_end d = Inr (d\<lparr>de_output := Some (out[length bs := CHR 0x00])\<rparr>)"
      by (simp add: string_end_def Some len)
    moreover have "take (length bs) (take k (out[length bs := x])) = take (length bs) (take k out)" for k x
      by (simp add: take_update_swap [symmetric] min_def)
    then have "holds_string b (d\<lparr>de_output := Some (out[length bs := CHR 0x00])\<rparr>) bs"
      using assms True Some a by (auto simp: holds_string_def holds_text_def)
    ultimately show ?thesis by auto
  next
    case False
    then show ?thesis using assms by (auto simp: string_end_def Some len holds_string_def)
  qed
qed

lemma c_string_append: "CHR 0x00 \<notin> set bs \<Longrightarrow> c_string (bs @ CHR 0x00 # r) = bs"
  by (auto simp: c_string_def takeWhile_tail takeWhile_eq_all_conv)

lemma holds_string_c_string:
  assumes "holds_string (Some a) d bs" and "\<not> de_overflow d" and "CHR 0x00 \<notin> set bs"
  shows "\<exists>out. de_output d = Some out \<and> length out = length a \<and> c_string out = bs \<and> de_length d = length bs \<and>
    (a \<noteq> [] \<longrightarrow> length bs < length a)"
proof -
  obtain out where out: "de_output d = Some out" "length out = length a" "de_length d = length bs"
      "bs = [] \<or> length bs < length a" "take (length bs) (take (length a - 1) out) = take (length a - 1) bs"
      "length bs < length out \<Longrightarrow> out ! length bs = CHR 0x00"
    using assms(1,2) by (fastforce simp: holds_string_def holds_text_def)
  have "c_string out = bs"
  proof (cases "length bs < length a")
    case True
    then have t: "take (length bs) out = bs" using out(5) True by (simp add: min_absorb1)
    have out_eq: "out = bs @ CHR 0x00 # drop (Suc (length bs)) out"
      using id_take_nth_drop [of "length bs" out] True out(2,6) t by simp
    show ?thesis by (subst out_eq) (rule c_string_append [OF assms(3)])
  next
    case False
    with out show ?thesis by (cases a) (auto simp: c_string_def)
  qed
  with out show ?thesis by (cases a) auto
qed


section \<open>Strings\<close>

lemma utf8_char_ASCII: "of_char c < (0x80 :: nat) \<Longrightarrow> utf8_char (of_char c) = [c]"
  by (simp add: utf8_char_def)

lemma utf8_add_ASCII: "utf8 s \<Longrightarrow> 0 < (of_char c :: nat) \<Longrightarrow> of_char c < (0x80 :: nat) \<Longrightarrow> utf8 (s @ [c])"
  using utf8_append [of s "of_char c"] by (simp add: utf8_char_ASCII scalar_def)

lemma char_NUL: "x < (256 :: nat) \<Longrightarrow> CHR 0x00 = char_of x \<longleftrightarrow> x = 0"
proof
  assume x: "x < 256" and c: "CHR 0x00 = char_of x"
  from c have "(of_char (CHR 0x00) :: nat) = of_char (char_of x :: char)" by (rule arg_cong)
  then show "x = 0" using x by simp
qed (simp add: char_of_def)

lemma utf8_char_no_NUL:
  assumes "scalar w"
  shows "CHR 0x00 \<notin> set (utf8_char w)"
proof -
  have "w div 262144 \<le> 0x10ffff div 262144" using assms by (intro div_le_mono) (simp add: scalar_def)
  moreover have "128 + x mod 64 < 256" for x :: nat
    using mod_less_divisor [of 64 x] by linarith
  moreover have "w < 0x800 \<Longrightarrow> w div 64 < 32" "w < 0x10000 \<Longrightarrow> w div 4096 < 16" by auto
  ultimately show ?thesis using assms by (auto simp: utf8_char_def scalar_def char_NUL)
qed

lemma utf8_no_NUL: "utf8 s \<Longrightarrow> CHR 0x00 \<notin> set s"
  by (induction rule: utf8_induct) (auto simp: utf8_char_no_NUL)

lemma holds_text_nul [simp]: "holds_text b (d\<lparr>de_nul := x\<rparr>) bs = holds_text b d bs"
  by (simp add: holds_text_def split: option.split)

text \<open>A part of a string: it moves on, and appends well-formed text or marks a NUL.\<close>

definition decodes :: "string \<Rightarrow> nat \<Rightarrow> string option \<Rightarrow> decoded \<times> nat \<Rightarrow> bool" where
  "decodes text p b = (\<lambda>(d, q). p < q \<and> q \<le> length text \<and> (\<exists>bs. utf8 bs \<and> holds_text b d bs))"

lemma safe_hex_digits: "p + n \<le> length text \<Longrightarrow> safe (hex_digits n text p v) (\<lambda>(w, q). q = p + n)"
proof (induction n arbitrary: p v)
  case (Suc n)
  then show ?case using Suc.IH [of "Suc p"] by (auto split: option.split)
qed simp

lemma safe_hex4: "p \<le> length text \<Longrightarrow> safe (ev_control_json_hex4 text p) (\<lambda>(w, q). q = p + 4 \<and> q \<le> length text)"
  unfolding ev_control_json_hex4_def
  by (rule safe_if, simp, rule safe_weaken [OF safe_hex_digits]) auto

lemma safe_unicode_escape:
  assumes "p \<le> length text"
  shows "safe (unicode_escape text p) (\<lambda>(w, q). p < q \<and> q \<le> length text)"
  unfolding unicode_escape_def
proof (rule safe_bind [OF safe_hex4 [OF assms]], clarify)
  fix w
  assume p: "p + 4 \<le> length text"
  have pair: "safe (ev_control_json_hex4 text (6 + p)) (\<lambda>(w, q). q = 6 + p + 4 \<and> q \<le> length text)"
    if "\<not> length text - (p + 4) < 6" using that by (intro safe_hex4) simp
  show "safe (if 0xd800 \<le> w \<and> w \<le> 0xdbff
        then if length text - (p + 4) < 6 then reject
             else sbind (rd text (p + 4)) (\<lambda>a. sbind (rd text (p + 4 + 1)) (\<lambda>b.
               if a \<noteq> CHR 0x5C \<or> b \<noteq> CHR ''u'' then reject
               else sbind (ev_control_json_hex4 text (p + 4 + 2)) (\<lambda>(second_unit, r).
                 if second_unit < 0xdc00 \<or> 0xdfff < second_unit then reject
                 else Inr (0x10000 + push_bit 10 (ucast w - 0xd800) + (ucast second_unit - 0xdc00), r))))
        else if 0xdc00 \<le> w \<and> w \<le> 0xdfff then reject else Inr (ucast w, p + 4))
      (\<lambda>(w, q). p < q \<and> q \<le> length text)"
    using p by (auto intro!: safe_if safe_bind [OF pair])
qed

lemma safe_codepoint:
  assumes "holds_text b d bs" and "utf8 bs"
  shows "safe (ev_control_json_append_codepoint w d) (\<lambda>d'. \<exists>bs'. utf8 bs' \<and> holds_text b d' bs')"
proof (cases "scalar (unat w)")
  case True
  from append_all_spec [OF assms(1), of "utf8_char (unat w)"]
  obtain d' where "append_all (utf8_char (unat w)) d = Inr d'" "holds_text b d' (bs @ utf8_char (unat w))" by blast
  then show ?thesis using utf8_append [OF assms(2) True] by (auto simp: append_codepoint_eq [OF True])
next
  case False
  then have "w = 0 \<or> 0x10ffff < w \<or> (0xd800 \<le> w \<and> w \<le> 0xdfff)"
    by (auto simp: scalar_def word_less_nat_alt word_le_nat_alt unat_eq_0 [symmetric])
  then show ?thesis using assms by (auto simp: ev_control_json_append_codepoint_def)
qed

lemma simple_escape_ASCII: "simple_escape c = Some x \<Longrightarrow> 0 < (of_char x :: nat) \<and> of_char x < (0x80 :: nat)"
  by (auto simp: simple_escape_def split: if_splits)

lemma safe_append_ASCII:
  assumes "holds_text b d bs" and "utf8 bs" and "0 < (of_char c :: nat)" and "of_char c < (0x80 :: nat)"
  shows "safe (ev_control_json_append c d) (\<lambda>d'. \<exists>bs'. utf8 bs' \<and> holds_text b d' bs')"
proof -
  from append_spec [OF assms(1)] obtain d' where "ev_control_json_append c d = Inr d'" "holds_text b d' (bs @ [c])"
    by blast
  then show ?thesis using utf8_add_ASCII [OF assms(2-4)] by auto
qed

lemma safe_escape:
  assumes "holds_text b d bs" and "utf8 bs" and "p \<le> length text"
  shows "safe (string_escape text p d) (decodes text p b)"
proof (cases "p < length text")
  case True
  then show ?thesis
    using simple_escape_ASCII
    by (auto simp: string_escape_def decodes_def intro!: safe_bind [OF safe_unicode_escape]
        safe_bind [OF safe_codepoint [OF assms(1,2)]] safe_bind [OF safe_append_ASCII [OF assms(1,2)]]
        split: option.split)
qed (simp add: string_escape_def)

lemma safe_raw_utf8:
  assumes "holds_text b d bs" and "utf8 bs" and "p < length text"
  shows "safe (ev_control_json_append_raw_utf8 text p d) (decodes text p b)"
proof (cases "lead_bits (text ! p)")
  case None
  then show ?thesis by (simp add: raw_utf8_eq [OF assms(3)])
next
  case (Some vn)
  obtain v n where vn: "vn = (v, n)" by (cases vn)
  let ?cs = "take n (drop (p + 1) text)"
  show ?thesis
  proof (cases "length ?cs = n \<and> (\<forall>c \<in> set ?cs. of_char c div 64 = (2 :: nat)) \<and> \<not> misfit n (continue_with v ?cs)")
    case True
    from Some vn True have a: "utf8_char (continue_with v ?cs) = text ! p # ?cs" "scalar (continue_with v ?cs)"
      using accepted_is_utf8 [of "text ! p" v n ?cs] by auto
    from append_all_spec [OF assms(1), of "text ! p # ?cs"]
    obtain d' where d': "append_all (text ! p # ?cs) d = Inr d'" "holds_text b d' (bs @ text ! p # ?cs)" by blast
    have "utf8 (bs @ text ! p # ?cs)" using utf8_append [OF assms(2) a(2)] by (simp only: a(1))
    then show ?thesis using True d' assms(3) Some vn
      by (auto simp: raw_utf8_eq [OF assms(3)] decodes_def Let_def simp del: append_all.simps)
  next
    case False
    then show ?thesis by (auto simp: raw_utf8_eq [OF assms(3)] Some vn Let_def)
  qed
qed

lemma safe_string_char:
  assumes "holds_text b d bs" and "utf8 bs" and "p < length text"
  shows "safe (string_char text p (text ! p) d) (decodes text p b)"
proof -
  have ASCII: "safe (sbind (ev_control_json_append (text ! p) d) (\<lambda>d'. Inr (d', p + 1))) (decodes text p b)"
    if "\<not> code (text ! p) < 0x20" "code (text ! p) < 0x80"
    using that assms(3) by (intro safe_bind [OF safe_append_ASCII [OF assms(1,2)]]) (auto simp: code_compare decodes_def)
  have esc: "safe (string_escape text (p + 1) d) (decodes text p b)"
    using assms(3) by (intro safe_weaken [OF safe_escape [OF assms(1,2), of "p + 1" "text"]]) (auto simp: decodes_def)
  show ?thesis
    unfolding string_char_def
    by (intro safe_if safe_reject ASCII esc safe_raw_utf8 [OF assms])
qed

definition decoded_string :: "string \<Rightarrow> nat \<Rightarrow> string option \<Rightarrow> decoded \<times> nat \<Rightarrow> bool" where
  "decoded_string text p b = (\<lambda>(d, q). p < q \<and> q \<le> length text \<and> (\<exists>bs. utf8 bs \<and> holds_string b d bs))"

lemma safe_string_loop:
  "holds_text b d bs \<Longrightarrow> utf8 bs \<Longrightarrow> p \<le> length text \<Longrightarrow> safe (string_loop text p d) (decoded_string text p b)"
proof (induction "length text - p" arbitrary: p d bs rule: less_induct)
  case less
  show ?case
  proof (cases "p < length text")
    case True
    have quote: "safe (sbind (string_end d) (\<lambda>d'. Inr (d', p + 1))) (decoded_string text p b)"
      using string_end_spec [OF less.prems(1)] less.prems(2) True by (auto simp: decoded_string_def)
    have "safe (sbind (string_char text p (text ! p) d) (\<lambda>(d', q). string_loop text q d')) (decoded_string text p b)"
    proof (rule safe_bind [OF safe_string_char [OF less.prems(1,2) True]])
      fix r assume "decodes text p b r"
      then obtain d' q bs' where r: "r = (d', q)" "p < q" "q \<le> length text" "utf8 bs'" "holds_text b d' bs'"
        by (auto simp: decodes_def)
      from less.hyps [of q d' bs'] r True
      have "safe (string_loop text q d') (decoded_string text q b)" by simp
      then have "safe (string_loop text q d') (decoded_string text p b)"
        by (rule safe_weaken) (use r(2) in \<open>auto simp: decoded_string_def\<close>)
      then show "safe (case r of (d', q) \<Rightarrow> string_loop text q d') (decoded_string text p b)" by (simp add: r(1))
    qed
    with quote True show ?thesis by (subst string_loop.simps) simp
  qed (simp add: string_loop.simps)
qed

lemma safe_expect: "safe (expect c text p) (\<lambda>q. q = p + 1 \<and> p < length text \<and> text ! p = c)"
  by (simp add: expect_def)

lemma safe_string: "safe (ev_control_json_string text p b) (decoded_string text p b)"
  unfolding ev_control_json_string_def
proof (rule safe_bind [OF safe_expect], clarify)
  assume "p < length text"
  then show "safe (string_loop text (p + 1) (decode_into b)) (decoded_string text p b)"
    using safe_string_loop [OF holds_start utf8_Nil, of "p + 1" "text" b]
    by (auto simp: decoded_string_def elim!: safe_weaken)
qed

section \<open>The other parts of the grammar\<close>

lemma safe_skip_while: "p \<le> length text \<Longrightarrow> safe (skip_while P text p) (\<lambda>q. p \<le> q \<and> q \<le> length text)"
proof (induction P "text" p rule: skip_while.induct)
  case (1 P "text" p)
  show ?case
  proof (cases "p < length text \<and> P (text ! p)")
    case True
    then have "safe (skip_while P text (p + 1)) (\<lambda>q. p + 1 \<le> q \<and> q \<le> length text)" using 1 by simp
    then show ?thesis by (subst skip_while.simps) (use True in \<open>auto elim!: safe_weaken\<close>)
  next
    case False
    with 1 show ?thesis by (subst skip_while.simps) auto
  qed
qed

lemma safe_whitespace:
  "p \<le> length text \<Longrightarrow> safe (ev_control_json_whitespace text p) (\<lambda>q. p \<le> q \<and> q \<le> length text)"
  unfolding ev_control_json_whitespace_def by (rule safe_skip_while)

lemma safe_peek: "safe (peek text p P) (\<lambda>r. r = (p < length text \<and> P (text ! p)))"
  by (simp add: peek_def)

lemma safe_number_loop:
  "p \<le> length text \<Longrightarrow> safe (number_loop text p v) (\<lambda>(w, q). p \<le> q \<and> q \<le> length text)"
proof (induction "text" p v rule: number_loop.induct)
  case (1 "text" p v)
  let ?d = "of_nat (of_char (text ! p) - 48) :: u32"
  show ?case
  proof (cases "p < length text \<and> digit (text ! p) \<and> \<not> (- 1 - ?d) div 10 < v")
    case True
    then have "safe (number_loop text (p + 1) (v * 10 + ?d)) (\<lambda>(w, q). p + 1 \<le> q \<and> q \<le> length text)"
      using 1 by simp
    then show ?thesis by (subst number_loop.simps) (use True in \<open>auto simp: Let_def elim!: safe_weaken\<close>)
  next
    case False
    with 1 show ?thesis by (subst number_loop.simps) (auto simp: Let_def)
  qed
qed

lemma safe_number: "safe (ev_control_json_number text p) (\<lambda>(w, q). p \<le> q \<and> q \<le> length text)"
  unfolding ev_control_json_number_def
  by (rule safe_bind [OF safe_peek])
    (auto simp: peek_def intro: safe_weaken [OF safe_number_loop [of p "text"]])

lemma safe_literal:
  "p \<le> length text \<Longrightarrow> safe (ev_control_json_literal lit text p) (\<lambda>q. p \<le> q \<and> q \<le> length text)"
  by (auto simp: ev_control_json_literal_def)

lemma safe_next_item:
  "p \<le> length text \<Longrightarrow> safe (next_item c text p) (\<lambda>(more, q). p < q \<and> q \<le> length text)"
  unfolding next_item_def
  by (rule safe_bind [OF safe_whitespace], simp)
    (auto intro!: safe_if safe_bind [OF safe_whitespace])

lemma safe_colon:
  "p \<le> length text \<Longrightarrow> safe (colon text p) (\<lambda>q. p < q \<and> q \<le> length text)"
  unfolding colon_def
  by (rule safe_bind [OF safe_whitespace], simp)
    (auto intro!: safe_bind [OF safe_expect] intro: safe_weaken [OF safe_whitespace])

section \<open>Skipping a value\<close>

definition moves :: "string \<Rightarrow> nat \<Rightarrow> nat \<Rightarrow> bool" where
  "moves text p q \<longleftrightarrow> p \<le> q \<and> q \<le> length text"

lemma movesD: "moves text p q \<Longrightarrow> p \<le> q \<and> q \<le> length text"
  by (simp add: moves_def)

lemma moves_back: "safe m (moves text q) \<Longrightarrow> p \<le> q \<Longrightarrow> safe m (moves text p)"
  by (erule safe_weaken) (simp add: moves_def)

lemma safe_skip_members:
  assumes skip: "\<And>q. q \<le> length text \<Longrightarrow> safe (skip q) (moves text q)"
  shows "p \<le> length text \<Longrightarrow> length text - p < fuel \<Longrightarrow> safe (skip_members skip text fuel p) (moves text p)"
proof (induction fuel arbitrary: p)
  case (Suc fuel)
  have rest: "safe (if more then skip_members skip text fuel r else Inr r) (moves text p)"
    if "p < r" "r \<le> length text" for more r
    using that Suc.prems moves_back [OF Suc.IH [of r], of p] by (simp add: moves_def)
  have "safe (sbind (next_item (CHR ''}'') text q) (\<lambda>(more, r). if more then skip_members skip text fuel r else Inr r))
      (moves text p)" if "p < q" "q \<le> length text" for q
    by (rule safe_bind [OF safe_next_item [OF that(2)]]) (use rest that in auto)
  then have "safe (sbind (skip q) (\<lambda>q. sbind (next_item (CHR ''}'') text q)
      (\<lambda>(more, r). if more then skip_members skip text fuel r else Inr r))) (moves text p)"
    if "p < q" "q \<le> length text" for q
    by (rule safe_bind [OF skip [OF that(2)]]) (use that in \<open>auto simp: moves_def\<close>)
  then have "safe (sbind (colon text q) (\<lambda>q. sbind (skip q) (\<lambda>q. sbind (next_item (CHR ''}'') text q)
      (\<lambda>(more, r). if more then skip_members skip text fuel r else Inr r)))) (moves text p)"
    if "p < q" "q \<le> length text" for q
    by (rule safe_bind [OF safe_colon [OF that(2)]]) (use that in auto)
  then show ?case
    by (simp, intro safe_bind [OF safe_string]) (auto simp: decoded_string_def)
qed simp

lemma safe_skip_elements:
  assumes skip: "\<And>q. q \<le> length text \<Longrightarrow> safe (skip q) (moves text q)"
  shows "p \<le> length text \<Longrightarrow> length text - p < fuel \<Longrightarrow> safe (skip_elements skip text fuel p) (moves text p)"
proof (induction fuel arbitrary: p)
  case (Suc fuel)
  have rest: "safe (if more then skip_elements skip text fuel r else Inr r) (moves text p)"
    if "p < r" "r \<le> length text" for more r
    using that Suc.prems moves_back [OF Suc.IH [of r], of p] by (simp add: moves_def)
  have "safe (sbind (next_item (CHR '']'') text q) (\<lambda>(more, r). if more then skip_elements skip text fuel r else Inr r))
      (moves text p)" if "p \<le> q" "q \<le> length text" for q
    by (rule safe_bind [OF safe_next_item [OF that(2)]]) (use rest that in auto)
  then show ?case
    by (simp, intro safe_bind [OF skip [OF Suc.prems(1)]]) (auto dest!: movesD)
qed simp

lemma safe_skip_container:
  assumes "\<And>q. q \<le> length text \<Longrightarrow> safe (skip q) (moves text q)" and "p < length text"
  shows "safe (ev_control_json_skip_object skip text p) (moves text p)"
    "safe (ev_control_json_skip_array skip text p) (moves text p)"
proof -
  have m: "safe (skip_members skip text (length text) q) (moves text p)"
    "safe (skip_elements skip text (length text) q) (moves text p)" if "p < q" "q \<le> length text" for q
    using that by (auto intro!: moves_back [of _ _ q p] safe_skip_members safe_skip_elements assms(1))
  show "safe (ev_control_json_skip_object skip text p) (moves text p)"
    "safe (ev_control_json_skip_array skip text p) (moves text p)"
    unfolding ev_control_json_skip_object_def ev_control_json_skip_array_def
    using assms(2) by (auto intro!: safe_bind [OF safe_whitespace] safe_bind [OF safe_peek] m simp: moves_def)
qed

lemma safe_skip_number: "p \<le> length text \<Longrightarrow> safe (skip_number text p) (moves text p)"
proof -
  have digits: "safe (skip_digits text q) (moves text q)" if "q \<le> length text" for q
    unfolding skip_digits_def
    by (rule safe_bind [OF safe_skip_while [OF that]]) (auto simp: moves_def)
  have int: "safe (skip_integer text q) (moves text q)" for q
    unfolding skip_integer_def
    by (auto intro!: safe_if safe_bind [OF safe_peek] intro: safe_weaken [OF safe_skip_while] simp: moves_def)
  have frac: "safe (skip_fraction text q) (moves text q)" if "q \<le> length text" for q
    unfolding skip_fraction_def
    by (rule safe_bind [OF safe_peek]) (use that in \<open>auto intro!: safe_weaken [OF digits] simp: moves_def\<close>)
  have ex: "safe (skip_exponent text q) (moves text q)" if "q \<le> length text" for q
    unfolding skip_exponent_def
    by (rule safe_bind [OF safe_peek])
      (use that in \<open>auto intro!: safe_bind [OF safe_peek] moves_back [OF digits] simp: moves_def split: if_split\<close>)
  assume "p \<le> length text"
  then show ?thesis unfolding skip_number_def
    by (auto intro!: safe_bind [OF safe_peek] safe_bind [OF int] safe_bind [OF frac] safe_bind [OF ex]
        simp: moves_def)
qed

lemma safe_skip_value: "p \<le> length text \<Longrightarrow> safe (ev_control_json_skip_value text depth p) (moves text p)"
proof (induction "13 - depth" arbitrary: depth p rule: less_induct)
  case less
  show ?case
  proof (cases "12 < depth \<or> length text \<le> p")
    case False
    then have d: "13 - (depth + 1) < 13 - depth" by linarith
    have "safe (ev_control_json_skip_value text (depth + 1) q) (moves text q)" if "q \<le> length text" for q
      by (rule less.hyps [OF d that])
    note container = safe_skip_container [OF this, of p]
    have lit: "safe (ev_control_json_literal l text p) (moves text p)" for l
      by (rule safe_weaken [OF safe_literal [OF less.prems]]) (simp add: moves_def)
    have str: "safe (sbind (ev_control_json_string text p None) (\<lambda>(_, q). Inr q)) (moves text p)"
      by (rule safe_bind [OF safe_string]) (auto simp: decoded_string_def moves_def)
    show ?thesis
      using False container lit str safe_skip_number [OF less.prems]
      by (subst ev_control_json_skip_value.simps) simp
  qed (simp add: ev_control_json_skip_value.simps)
qed

section \<open>Fields\<close>

text \<open>A value of the same type, with a buffer of the same size.\<close>

definition same_type :: "json_value \<Rightarrow> json_value \<Rightarrow> bool" where
  "same_type v v' \<longleftrightarrow>
     (case v of
        EV_CONTROL_JSON_STRING b n \<Rightarrow>
          (\<exists>b' n'. v' = EV_CONTROL_JSON_STRING b' n' \<and> map_option length b' = map_option length b)
      | EV_CONTROL_JSON_UINT32 w \<Rightarrow> (\<exists>w'. v' = EV_CONTROL_JSON_UINT32 w')
      | EV_CONTROL_JSON_BOOLEAN x \<Rightarrow> (\<exists>x'. v' = EV_CONTROL_JSON_BOOLEAN x'))"

text \<open>A decoded string is well formed, complete and terminated inside its buffer.\<close>

definition good_value :: "json_value \<Rightarrow> bool" where
  "good_value v \<longleftrightarrow>
     (\<forall>b n. v = EV_CONTROL_JSON_STRING b n \<longrightarrow>
       (\<exists>bs. utf8 bs \<and> n = length bs \<and> (\<forall>a. b = Some a \<longrightarrow> c_string a = bs \<and> (a \<noteq> [] \<longrightarrow> n < length a))))"

definition field_ok :: "ev_control_json_field \<Rightarrow> ev_control_json_field \<Rightarrow> bool" where
  "field_ok f f' \<longleftrightarrow> fl_name f' = fl_name f \<and> fl_required f' = fl_required f \<and>
     same_type (fl_value f) (fl_value f') \<and>
     (if fl_present f' then good_value (fl_value f') else fl_value f' = clear_value (fl_value f))"

lemma clear_same_type: "same_type v (clear_value v)"
  by (auto simp: same_type_def clear_value_def split: json_value.split option.split)

lemma clear_field_ok: "field_ok f (clear_field f)"
  by (simp add: field_ok_def clear_field_def clear_same_type)

lemma same_type_trans: "same_type a b \<Longrightarrow> same_type b c \<Longrightarrow> same_type a c"
  by (auto simp: same_type_def split: json_value.splits)

lemma safe_parse_value:
  assumes "p \<le> length text"
  shows "safe (parse_value v text p) (\<lambda>(v', q). moves text p q \<and> same_type v v' \<and> good_value v')"
proof (cases v)
  case (EV_CONTROL_JSON_STRING b n)
  have "safe (sbind (ev_control_json_string text p b) (\<lambda>(d, q).
      if de_overflow d \<or> de_nul d then reject else Inr (EV_CONTROL_JSON_STRING (de_output d) (de_length d), q)))
      (\<lambda>(v', q). moves text p q \<and> same_type v v' \<and> good_value v')"
  proof (rule safe_bind [OF safe_string])
    fix r assume "decoded_string text p b r"
    then obtain d q bs where r: "r = (d, q)" "p < q" "q \<le> length text" "utf8 bs" "holds_string b d bs"
      by (auto simp: decoded_string_def)
    have "good_value (EV_CONTROL_JSON_STRING (de_output d) (de_length d)) \<and>
        map_option length (de_output d) = map_option length b" if "\<not> de_overflow d"
    proof (cases b)
      case None
      with r(4,5) show ?thesis by (auto simp: holds_string_def holds_text_def good_value_def)
    next
      case (Some a)
      with holds_string_c_string [OF r(5) [unfolded Some] that utf8_no_NUL [OF r(4)]] r(4) show ?thesis
        by (auto simp: good_value_def)
    qed
    then show "safe (case r of (d, q) \<Rightarrow> if de_overflow d \<or> de_nul d then reject
          else Inr (EV_CONTROL_JSON_STRING (de_output d) (de_length d), q))
        (\<lambda>(v', q). moves text p q \<and> same_type v v' \<and> good_value v')"
      using r by (auto simp: EV_CONTROL_JSON_STRING moves_def same_type_def)
  qed
  then show ?thesis by (simp add: parse_value_def EV_CONTROL_JSON_STRING)
next
  case (EV_CONTROL_JSON_UINT32 w)
  then show ?thesis
    by (auto simp: parse_value_def moves_def same_type_def good_value_def intro!: safe_bind [OF safe_number])
next
  case (EV_CONTROL_JSON_BOOLEAN x)
  then show ?thesis using assms
    by (auto simp: parse_value_def moves_def same_type_def good_value_def
        intro!: safe_bind [OF safe_peek] safe_if safe_bind [OF safe_literal])
qed

lemma find_field_bound: "find_field key fls = Some i \<Longrightarrow> i < length fls"
  by (auto simp: find_field_def find_Some_iff split: if_splits)

lemma safe_parse_member:
  assumes "list_all2 field_ok fls0 fls"
  shows "safe (parse_member fls text p) (\<lambda>(fls', q). p < q \<and> q \<le> length text \<and> list_all2 field_ok fls0 fls')"
  unfolding parse_member_def
proof (rule safe_bind [OF safe_string], clarify)
  fix key q assume "decoded_string text p (Some (replicate 32 CHR 0x00)) (key, q)"
  then have q: "p < q" "q \<le> length text" by (auto simp: decoded_string_def)
  show "safe (sbind (colon text q) (\<lambda>q. case find_field key fls of
          None \<Rightarrow> sbind (ev_control_json_skip_value text 0 q) (\<lambda>r. Inr (fls, r))
        | Some i \<Rightarrow> if fl_present (fls ! i) then reject
            else sbind (parse_value (fl_value (fls ! i)) text q)
              (\<lambda>(v, r). Inr (fls[i := (fls ! i)\<lparr>fl_value := v, fl_present := True\<rparr>], r))))
      (\<lambda>(fls', q). p < q \<and> q \<le> length text \<and> list_all2 field_ok fls0 fls')"
  proof (rule safe_bind [OF safe_colon [OF q(2)]], elim conjE)
    fix r assume r: "q < r" "r \<le> length text"
    have upd: "list_all2 field_ok fls0 (fls[i := (fls ! i)\<lparr>fl_value := v, fl_present := True\<rparr>])"
      if "i < length fls" "same_type (fl_value (fls ! i)) v" "good_value v" for i v
    proof -
      have len: "length fls0 = length fls" using assms by (rule list_all2_lengthD)
      have "field_ok (fls0 ! i) (fls ! i)" using assms that(1) by (simp add: list_all2_nthD2)
      then have "field_ok (fls0 ! i) ((fls ! i)\<lparr>fl_value := v, fl_present := True\<rparr>)"
        using that(2,3) by (auto simp: field_ok_def intro: same_type_trans)
      then have "list_all2 field_ok (fls0[i := fls0 ! i]) (fls[i := (fls ! i)\<lparr>fl_value := v, fl_present := True\<rparr>])"
        by (rule list_all2_update_cong [OF assms])
      then show ?thesis by simp
    qed
    show "safe (case find_field key fls of
          None \<Rightarrow> sbind (ev_control_json_skip_value text 0 r) (\<lambda>r. Inr (fls, r))
        | Some i \<Rightarrow> if fl_present (fls ! i) then reject
            else sbind (parse_value (fl_value (fls ! i)) text r)
              (\<lambda>(v, r). Inr (fls[i := (fls ! i)\<lparr>fl_value := v, fl_present := True\<rparr>], r)))
      (\<lambda>(fls', q). p < q \<and> q \<le> length text \<and> list_all2 field_ok fls0 fls')"
      using q r assms
      by (auto intro!: safe_bind [OF safe_skip_value] safe_if safe_bind [OF safe_parse_value] upd
          dest!: movesD dest: find_field_bound split: option.split)
  qed
qed

lemma safe_parse_members:
  "list_all2 field_ok fls0 fls \<Longrightarrow> length text - p < fuel \<Longrightarrow> p \<le> length text \<Longrightarrow>
   safe (parse_members fuel fls text p) (\<lambda>(fls', q). q \<le> length text \<and> list_all2 field_ok fls0 fls')"
proof (induction fuel arbitrary: fls p)
  case (Suc fuel)
  show ?case
  proof (simp, rule safe_bind [OF safe_parse_member [OF Suc.prems(1)]], clarify)
    fix fls1 q assume q: "p < q" "q \<le> length text" "list_all2 field_ok fls0 fls1"
    show "safe (sbind (next_item CHR ''}'' text q) (\<lambda>(more, r). if more then parse_members fuel fls1 text r
          else Inr (fls1, r))) (\<lambda>(fls', q). q \<le> length text \<and> list_all2 field_ok fls0 fls')"
      by (rule safe_bind [OF safe_next_item [OF q(2)]]) (use q Suc in auto)
  qed
qed simp

lemma safe_parse_object:
  "safe (ev_control_json_parse_object source fls)
     (\<lambda>fls'. list_all2 field_ok fls fls' \<and> (\<forall>f \<in> set fls'. fl_required f \<longrightarrow> fl_present f))"
proof (cases source)
  case (Some "text")
  have start: "list_all2 field_ok fls (map clear_field fls)"
    by (simp add: list_all2_conv_all_nth clear_field_ok)
  have m: "safe (if closed then Inr (map clear_field fls, p + 1) else parse_members (length text) (map clear_field fls) text p)
      (\<lambda>(fls', q). q \<le> length text \<and> list_all2 field_ok fls fls')"
    if "0 < p" "p \<le> length text" "closed \<longrightarrow> p < length text" for closed p
    using that start by (auto intro!: safe_parse_members)
  show ?thesis
    unfolding ev_control_json_parse_object_def Some option.case Let_def
    by (intro safe_if safe_reject safe_bind [OF safe_whitespace] safe_bind [OF safe_expect] safe_bind [OF safe_peek]
        safe_bind [OF m]) (auto intro!: safe_bind [OF safe_whitespace])
qed (simp add: ev_control_json_parse_object_def)

text \<open>Property C20: the decoder of a request keeps the types of its fields: when it accepts a text, every field
  has its name, its required flag and the type it was declared with, a present string is well-formed
  UTF-8 that is complete and terminated inside its buffer, an absent field is cleared, and every required
  field is present.\<close>

lemma accepted_fields_are_well_typed:
  assumes "ev_control_json_parse_object source fls = Inr fls'"
  shows "list_all2 field_ok fls fls' \<and> (\<forall>f \<in> set fls'. fl_required f \<longrightarrow> fl_present f)"
  using safe_value [OF safe_parse_object assms] .

lemma accepted_fields_are_well_typed_witness:
  "ev_control_json_parse_object (Some (''{'' @ [CHR 0x22] @ ''a'' @ [CHR 0x22] @ '':7}'')) [ev_control_json_uint32_field ''a'' True] =
     Inr [(ev_control_json_uint32_field ''a'' True)\<lparr>fl_present := True, fl_value := EV_CONTROL_JSON_UINT32 7\<rparr>] \<and>
   list_all2 field_ok [ev_control_json_uint32_field ''a'' True]
     [(ev_control_json_uint32_field ''a'' True)\<lparr>fl_present := True, fl_value := EV_CONTROL_JSON_UINT32 7\<rparr>]"
proof -
  have e: "ev_control_json_parse_object (Some (''{'' @ [CHR 0x22] @ ''a'' @ [CHR 0x22] @ '':7}'')) [ev_control_json_uint32_field ''a'' True] =
     Inr [(ev_control_json_uint32_field ''a'' True)\<lparr>fl_present := True, fl_value := EV_CONTROL_JSON_UINT32 7\<rparr>]"
    by code_simp
  from accepted_fields_are_well_typed [OF e] e show ?thesis by simp
qed

text \<open>The decoder always returns, with a verdict or with the fields: its loops end, however
  the text is nested or cut short, and it reads no character outside the text and writes none
  outside the buffers.\<close>

lemma json_parse_returns: "safe (ev_control_json_parse_object source fls) (\<lambda>_. True)"
  by (rule safe_weaken [OF safe_parse_object]) simp

end
