(* ===== verification/ControlText.thy ===== *)
theory ControlText
  imports ControlJsonProps
begin

text \<open>
  The text helpers of the control protocol in \<open>platform/ev_control_transport.c\<close>: looking up a
  member of a request by its name, escaping a string for a response, the paths that a request may
  name, and Base64. A pointer into a string is the rest of the string.
\<close>

section \<open>Looking up a member\<close>

definition isspace :: "char \<Rightarrow> bool" where
  "isspace c \<longleftrightarrow> c = CHR '' '' \<or> (CHR 0x09 \<le> c \<and> c \<le> CHR 0x0D)"

fun strstr :: "cstring \<Rightarrow> cstring \<Rightarrow> cstring option" where
  "strstr [] pattern = (if pattern = [] then Some [] else None)"
| "strstr (c # cs) pattern =
     (if take (length pattern) (c # cs) = pattern then Some (c # cs) else strstr cs pattern)"

definition ev_control_json_find_value :: "cstring \<Rightarrow> cstring \<Rightarrow> cstring option" where
  "ev_control_json_find_value json key =
     (let pattern = CHR 0x22 # key @ [CHR 0x22]
      in if 40 \<le> length pattern then None
         else
           case strstr json pattern of None \<Rightarrow> None
           | Some pos \<Rightarrow>
               let pos = dropWhile isspace (drop (length pattern) pos)
               in if c_at pos 0 \<noteq> CHR '':'' then None
                  else Some (dropWhile isspace (drop 1 pos)))"

text \<open>The loop of \<open>ev_control_json_get_string\<close>: \<open>room\<close> characters still fit.\<close>

fun copy_string :: "nat \<Rightarrow> cstring \<Rightarrow> cstring \<times> cstring" where
  "copy_string room [] = ([], [])"
| "copy_string 0 (c # cs) = ([], c # cs)"
| "copy_string (Suc room) (c # cs) =
     (if c = CHR 0x22 then ([], c # cs)
      else let (out, rest) = copy_string room cs in (c # out, rest))"

text \<open>The result, and what \<open>out\<close> holds when it was written; \<open>out_len = 0\<close> stands for NULL as well.\<close>

definition ev_control_json_get_string :: "cstring \<Rightarrow> cstring \<Rightarrow> nat \<Rightarrow> bool \<times> cstring option" where
  "ev_control_json_get_string json key out_len =
     (if out_len = 0 then (False, None)
      else
        case ev_control_json_find_value json key of None \<Rightarrow> (False, None)
        | Some pos \<Rightarrow>
            if c_at pos 0 \<noteq> CHR 0x22 then (False, None)
            else
              let (out, rest) = copy_string (out_len - 1) (drop 1 pos)
              in (c_at rest 0 = CHR 0x22, Some out))"

definition ends_literal :: "char \<Rightarrow> bool" where
  "ends_literal c \<longleftrightarrow> c = CHR 0x00 \<or> c = CHR '','' \<or> c = CHR ''}'' \<or> isspace c"

definition ev_control_json_get_bool :: "cstring \<Rightarrow> cstring \<Rightarrow> bool \<Rightarrow> bool" where
  "ev_control_json_get_bool json key fallback =
     (case ev_control_json_find_value json key of None \<Rightarrow> fallback
      | Some pos \<Rightarrow>
          if take 4 pos = ''true'' \<and> ends_literal (c_at pos 4) then True
          else if take 5 pos = ''false'' \<and> ends_literal (c_at pos 5) then False
          else fallback)"

text \<open>\<open>strtoul\<close> to base ten, where \<open>unsigned long\<close> has 32 bits: it saturates, and a sign negates.\<close>

fun decimal_digits :: "cstring \<Rightarrow> nat \<Rightarrow> nat" where
  "decimal_digits [] v = v"
| "decimal_digits (c # cs) v = (if digit c then decimal_digits cs (v * 10 + (of_char c - 48)) else v)"

definition strtoul :: "cstring \<Rightarrow> u32" where
  "strtoul s =
     (let s = dropWhile isspace s;
          (negative, s) = (case s of [] \<Rightarrow> (False, [])
            | c # cs \<Rightarrow> if c = CHR ''-'' then (True, cs) else if c = CHR ''+'' then (False, cs) else (False, s));
          v = decimal_digits s 0
      in if 4294967295 < v then - 1 else if negative then - of_nat v else of_nat v)"

definition ev_control_json_get_u32 :: "cstring \<Rightarrow> cstring \<Rightarrow> u32 \<Rightarrow> u32" where
  "ev_control_json_get_u32 json key fallback =
     (case ev_control_json_find_value json key of None \<Rightarrow> fallback | Some pos \<Rightarrow> strtoul pos)"

text \<open>
  The lookup takes the first occurrence of the quoted name, also where it is a value. A request
  whose method has a string value equal to the name of a later member loses that member.
\<close>

lemma value_hides_member:
  "ev_control_json_get_string
     (''{'' @ [CHR 0x22] @ ''mode'' @ [CHR 0x22] @ '':'' @ [CHR 0x22] @ ''path'' @ [CHR 0x22] @ '','' @
      [CHR 0x22] @ ''path'' @ [CHR 0x22] @ '':'' @ [CHR 0x22] @ ''a'' @ [CHR 0x22] @ ''}'') ''path'' 64 =
   (False, None)"
  by (simp add: ev_control_json_get_string_def ev_control_json_find_value_def isspace_def less_eq_char_def)

section \<open>Escaping\<close>

definition lower_hex_digit :: "nat \<Rightarrow> char" where
  "lower_hex_digit n = ''0123456789abcdef'' ! n"

definition u_escape :: "char \<Rightarrow> string" where
  "u_escape c =
     [CHR 0x5C, CHR ''u'', CHR ''0'', CHR ''0'', lower_hex_digit (of_char c div 16), lower_hex_digit (of_char c mod 16)]"

text \<open>\<open>out\<close> is what has been written so far.\<close>

fun escape_loop :: "nat \<Rightarrow> cstring \<Rightarrow> string \<Rightarrow> string" where
  "escape_loop out_len [] out = out"
| "escape_loop out_len (c # cs) out =
     (if \<not> length out + 1 < out_len then out
      else if c = CHR 0x5C \<or> c = CHR 0x22
      then if out_len \<le> length out + 2 then out else escape_loop out_len cs (out @ [CHR 0x5C, c])
      else if of_char c < (0x20 :: nat)
      then if out_len \<le> length out + 6 then out else escape_loop out_len cs (out @ u_escape c)
      else escape_loop out_len cs (out @ [c]))"

text \<open>The string in \<open>out\<close>, or \<open>None\<close> where nothing is written.\<close>

definition ev_control_json_escape :: "nat \<Rightarrow> cstring \<Rightarrow> cstring option" where
  "ev_control_json_escape out_len source = (if out_len = 0 then None else Some (escape_loop out_len source []))"

section \<open>Paths\<close>

text \<open>\<open>path_max\<close> is \<open>EV_CONTROL_PATH_MAX\<close>, from the configuration of MicroPython.\<close>

definition ev_control_path_allowed :: "nat \<Rightarrow> cstring option \<Rightarrow> bool" where
  "ev_control_path_allowed path_max path =
     (case path of None \<Rightarrow> False
      | Some s \<Rightarrow> s \<noteq> [] \<and> length s \<le> path_max \<and> strstr s ''..'' = None \<and> strstr s ''//'' = None \<and>
          (\<forall>c \<in> set s. \<not> (of_char c < (0x20 :: nat) \<or> c = CHR 0x7F \<or> c = CHR 0x5C \<or> c = CHR 0x22)))"

definition ev_control_path_too_long :: "nat \<Rightarrow> cstring option \<Rightarrow> bool" where
  "ev_control_path_too_long path_max path = (case path of None \<Rightarrow> False | Some s \<Rightarrow> path_max < length s)"

section \<open>Base64\<close>

definition ev_control_base64_value :: "char \<Rightarrow> nat option" where
  "ev_control_base64_value c =
     (if CHR ''A'' \<le> c \<and> c \<le> CHR ''Z'' then Some (of_char c - 65)
      else if CHR ''a'' \<le> c \<and> c \<le> CHR ''z'' then Some (of_char c - 97 + 26)
      else if CHR ''0'' \<le> c \<and> c \<le> CHR ''9'' then Some (of_char c - 48 + 52)
      else if c = CHR ''+'' then Some 62 else if c = CHR ''/'' then Some 63 else None)"

text \<open>\<open>acc\<close> and \<open>bits\<close> as in the code; \<open>dst\<close> is what has been decoded.\<close>

fun base64_decode_loop :: "nat \<Rightarrow> cstring \<Rightarrow> u8 list \<Rightarrow> u32 \<Rightarrow> nat \<Rightarrow> esp_err + u8 list" where
  "base64_decode_loop dst_len [] dst acc bits = Inr dst"
| "base64_decode_loop dst_len (c # cs) dst acc bits =
     (if c = CHR ''='' then Inr dst
      else if isspace c then base64_decode_loop dst_len cs dst acc bits
      else
        case ev_control_base64_value c of None \<Rightarrow> Inl ESP_ERR_INVALID_ARG
        | Some v \<Rightarrow>
            let acc = push_bit 6 acc OR of_nat v; bits = bits + 6
            in if 8 \<le> bits
               then
                 let bits = bits - 8
                 in if dst_len \<le> length dst then Inl ESP_ERR_INVALID_SIZE
                    else base64_decode_loop dst_len cs (dst @ [ucast (drop_bit bits acc AND 0xff)]) acc bits
               else base64_decode_loop dst_len cs dst acc bits)"

definition ev_control_base64_decode :: "cstring \<Rightarrow> nat \<Rightarrow> esp_err + u8 list" where
  "ev_control_base64_decode src dst_len = base64_decode_loop dst_len src [] 0 0"

definition s_base64_table :: string where
  "s_base64_table = ''ABCDEFGHIJKLMNOPQRSTUVWXYZabcdefghijklmnopqrstuvwxyz0123456789+/''"

text \<open>Four characters for up to three bytes.\<close>

definition base64_group :: "u8 \<Rightarrow> u8 option \<Rightarrow> u8 option \<Rightarrow> string" where
  "base64_group a b c =
     (let v0 = push_bit 16 (ucast a :: u32);
          v1 = (case b of None \<Rightarrow> v0 | Some x \<Rightarrow> v0 OR push_bit 8 (ucast x));
          v = (case c of None \<Rightarrow> v1 | Some x \<Rightarrow> v1 OR ucast x);
          table = (\<lambda>k. s_base64_table ! unat (drop_bit k v AND 0x3f))
      in [table 18, table 12, if b \<noteq> None then table 6 else CHR ''='', if c \<noteq> None then table 0 else CHR ''=''])"

fun base64_encode_loop :: "u8 list \<Rightarrow> string" where
  "base64_encode_loop [] = []"
| "base64_encode_loop [a] = base64_group a None None"
| "base64_encode_loop [a, b] = base64_group a (Some b) None"
| "base64_encode_loop (a # b # c # rest) = base64_group a (Some b) (Some c) @ base64_encode_loop rest"

definition ev_control_base64_encode :: "u8 list \<Rightarrow> nat \<Rightarrow> esp_err + cstring" where
  "ev_control_base64_encode src dst_len =
     (if dst_len \<le> (length src + 2) div 3 * 4 then Inl ESP_ERR_INVALID_SIZE
      else Inr (base64_encode_loop src))"

section \<open>Names\<close>

definition ev_control_bool_str :: "bool \<Rightarrow> cstring" where
  "ev_control_bool_str v = (if v then ''true'' else ''false'')"

end
