(* ===== verification/ControlTextProps.thy ===== *)
theory ControlTextProps
  imports ControlText
begin

text \<open>
  The decoder gives back what was escaped or encoded: an escaped string is decoded to itself, and
  so is a Base64 text.
\<close>

section \<open>Escaped strings\<close>

definition escaped :: "char \<Rightarrow> string" where
  "escaped c =
     (if c = CHR 0x5C \<or> c = CHR 0x22 then [CHR 0x5C, c]
      else if of_char c < (0x20 :: nat) then u_escape c else [c])"

lemma length_u_escape [simp]: "length (u_escape c) = 6"
  by (simp add: u_escape_def)

lemma escaped_nonempty: "escaped c \<noteq> []"
  by (simp add: escaped_def u_escape_def)

lemma escape_step:
  "length out + length (escaped c) < n \<Longrightarrow> escape_loop n (c # cs) out = escape_loop n cs (out @ escaped c)"
  by (auto simp: escaped_def u_escape_def)

lemma escape_loop_fits:
  "length out + length (concat (map escaped cs)) < n \<Longrightarrow> escape_loop n cs out = out @ concat (map escaped cs)"
proof (induction cs arbitrary: out)
  case (Cons c cs)
  then show ?case by (simp add: escape_step del: escape_loop.simps)
qed simp

lemma escape_loop_bound: "length out < n \<Longrightarrow> length (escape_loop n cs out) < n"
  by (induction n cs out rule: escape_loop.induct) (auto simp: u_escape_def)

lemma offset_bound: "drop p text = xs @ rest \<Longrightarrow> xs \<noteq> [] \<Longrightarrow> p + length xs + length rest = length text"
proof -
  assume a: "drop p text = xs @ rest" "xs \<noteq> []"
  have "length text - p = length xs + length rest" using arg_cong [OF a(1), of length] by simp
  with a(2) show ?thesis by (cases xs) auto
qed

lemma at_offset: "drop p text = xs @ rest \<Longrightarrow> i < length xs \<Longrightarrow> text ! (p + i) = xs ! i"
proof -
  assume a: "drop p text = xs @ rest" "i < length xs"
  then have "p + length xs + length rest = length text" by (intro offset_bound) auto
  then have "text ! (p + i) = drop p text ! i" by simp
  then show ?thesis using a by (simp add: nth_append)
qed

lemma drop_part: "drop p text = xs @ rest \<Longrightarrow> drop (p + length xs) text = rest"
  by (metis add.commute append_eq_conv_conj drop_drop)

lemma hex_value_digit: "n < 16 \<Longrightarrow> hex_value (lower_hex_digit n) = Some (of_nat n)"
proof -
  assume "n < 16"
  then have "n \<in> set [0..<16]" by simp
  moreover have "\<forall>n \<in> set [0..<16]. hex_value (lower_hex_digit n) = Some (of_nat n)"
    by (simp add: hex_value_def lower_hex_digit_def upt_rec less_eq_char_def)
  ultimately show ?thesis by blast
qed

lemma two_hex_digits: "n < 32 \<Longrightarrow> push_bit 4 (of_nat (n div 16)) OR of_nat (n mod 16) = (of_nat n :: u16)"
proof -
  assume "n < 32"
  then have "n \<in> set [0..<32]" by simp
  moreover have "\<forall>n \<in> set [0..<32]. push_bit 4 (of_nat (n div 16)) OR of_nat (n mod 16) = (of_nat n :: u16)"
    by (simp add: upt_rec)
  ultimately show ?thesis by blast
qed

lemma hex_digits_step:
  "p < length text \<Longrightarrow> hex_value (text ! p) = Some d \<Longrightarrow>
   hex_digits (Suc n) text p v = hex_digits n text (p + 1) (push_bit 4 v OR d)"
  by simp

lemma hex4_text:
  assumes "p + 4 \<le> length text"
    and "hex_value (text ! p) = Some a" "hex_value (text ! (p + 1)) = Some b"
    and "hex_value (text ! (p + 2)) = Some c" "hex_value (text ! (p + 3)) = Some d"
  shows "ev_control_json_hex4 text p =
    Inr (push_bit 4 (push_bit 4 (push_bit 4 a OR b) OR c) OR d, p + 4)"
proof -
  have i: "p + 1 + 1 = p + 2" "p + 2 + 1 = p + 3" "p + 3 + 1 = p + 4" by simp_all
  have e: "hex_digits 0 text (p + 4) v = Inr (v, p + 4)" for v by simp
  have "hex_digits (Suc (Suc (Suc (Suc 0)))) text p 0 =
      Inr (push_bit 4 (push_bit 4 (push_bit 4 a OR b) OR c) OR d, p + 4)"
    using assms by (simp only: hex_digits_step i e assms(2-5)) (simp add: hex_digits_step [where p = p] assms(2))
  moreover have "Suc (Suc (Suc (Suc 0))) = 4" by simp
  ultimately show ?thesis using assms(1) by (simp only: ev_control_json_hex4_def) simp
qed

lemma append_all_append: "append_all (a @ b) d = sbind (append_all a d) (append_all b)"
proof (induction a arbitrary: d)
  case (Cons c a)
  then show ?case by (cases "ev_control_json_append c d") simp_all
qed simp

lemma append_one [simp]: "append_all [c] d = ev_control_json_append c d"
  by (cases "ev_control_json_append c d") simp_all

lemma u_escape_step:
  assumes t: "drop p text = u_escape c @ rest" and c: "0 < (of_char c :: nat)" "of_char c < (0x20 :: nat)"
  shows "string_escape text (p + 1) d = sbind (ev_control_json_append c d) (\<lambda>d'. Inr (d', p + 6))"
proof -
  define n where "n = (of_char c :: nat)"
  have n: "0 < n" "n < 32" using c by (simp_all add: n_def)
  have at: "text ! (p + i) = u_escape c ! i" if "i < 6" for i
    using at_offset [OF t, of i] that by (simp add: u_escape_def)
  have at2: "text ! (p + 2 + j) = u_escape c ! (2 + j)" if "j < 4" for j
    using at [of "2 + j"] that by (simp only: add.assoc)
  have len: "p + 6 \<le> length text" using offset_bound [OF t] by (simp add: u_escape_def)
  have h0: "hex_value (CHR ''0'') = Some 0" by (simp add: hex_value_def)
  have d2: "text ! (p + 2) = CHR ''0''" "text ! (p + 2 + 1) = CHR ''0''"
    "text ! (p + 2 + 2) = lower_hex_digit (n div 16)" "text ! (p + 2 + 3) = lower_hex_digit (n mod 16)"
    using at2 [of 0] at2 [of 1] at2 [of 2] at2 [of 3] by (simp_all add: u_escape_def n_def)
  have hex: "ev_control_json_hex4 text (p + 2) = Inr (of_nat n, p + 6)"
    using hex4_text [of "p + 2" "text" 0 0 "of_nat (n div 16)" "of_nat (n mod 16)"] len n two_hex_digits [of n] d2
    by (simp add: h0 hex_value_digit add.commute [of 6])
  have w: "unat (of_nat n :: u16) = n" "unat (of_nat n :: u32) = n"
    using n by (simp_all add: unat_of_nat take_bit_nat_eq_self)
  have u: "(ucast (of_nat n :: u16) :: u32) = of_nat n" by (metis w(1) of_nat_unat)
  have "scalar (unat (of_nat n :: u32))" using n by (simp add: scalar_def w)
  from append_codepoint_eq [OF this] have cp: "ev_control_json_append_codepoint (of_nat n) d = ev_control_json_append c d"
    using n by (simp add: w) (simp add: n_def utf8_char_ASCII del: append_all.simps)
  have unit: "\<not> (0xd800 \<le> (of_nat n :: u16))" "\<not> (0xdc00 \<le> (of_nat n :: u16))"
    using n by (simp_all add: word_le_nat_alt w)
  have "unicode_escape text (p + 2) = Inr (of_nat n, p + 6)"
    by (simp only: unicode_escape_def hex sbind_simps prod.case) (simp add: unit u)
  then show ?thesis
    using at [of 1] len by (simp add: string_escape_def u_escape_def cp)
qed


lemma string_loop_at:
  "p < length text \<Longrightarrow> text ! p \<noteq> CHR 0x22 \<Longrightarrow>
   string_loop text p d = sbind (string_char text p (text ! p) d) (\<lambda>(d', q). string_loop text q d')"
  by (subst string_loop.simps) simp

lemma escaped_high: "0x80 \<le> (of_char c :: nat) \<Longrightarrow> escaped c = [c]"
  by (auto simp: escaped_def)

lemma utf8_char_high:
  assumes "scalar w" and "0x80 \<le> w" and "c \<in> set (utf8_char w)"
  shows "0x80 \<le> (of_char c :: nat)"
proof -
  from utf8_is_accepted [OF assms(1,2)] obtain h v n cs where w: "utf8_char w = h # cs" "lead_bits h = Some (v, n)"
    "\<forall>c \<in> set cs. of_char c div 64 = (2 :: nat)" by blast
  have h: "0x80 \<le> (of_char h :: nat)" using w(2) by (auto simp: lead_bits_def Let_def split: if_splits)
  have "0x80 \<le> (of_char c :: nat)" if "of_char c div 64 = (2 :: nat)"
  proof -
    have "of_char c div 64 * 64 \<le> (of_char c :: nat)" by (rule div_times_less_eq_dividend)
    then show ?thesis unfolding that by simp
  qed
  then show ?thesis using h w(1,3) assms(3) by auto
qed

lemma escaped_utf8_high:
  assumes "scalar w" and "0x80 \<le> w"
  shows "concat (map escaped (utf8_char w)) = utf8_char w"
proof -
  have "map escaped (utf8_char w) = map (\<lambda>c. [c]) (utf8_char w)"
    using utf8_char_high [OF assms] escaped_high by (intro map_cong refl) blast
  then show ?thesis by (simp only: concat_map_singleton map_ident)
qed

lemma plain_step:
  assumes "drop p text = c # rest" and "\<not> of_char c < (0x20 :: nat)" and "of_char c < (0x80 :: nat)"
    and "c \<noteq> CHR 0x22" and "c \<noteq> CHR 0x5C"
  shows "string_loop text p d = sbind (ev_control_json_append c d) (string_loop text (p + 1))"
proof -
  have p: "p < length text" "text ! p = c"
    using assms(1) at_offset [of p "text" "[c]" rest 0] offset_bound [of p "text" "[c]" rest] by auto
  then show ?thesis using assms
    by (simp add: string_loop_at string_char_def code_compare sbind_assoc)
qed

lemma quoted_step:
  assumes "drop p text = CHR 0x5C # c # rest" and "c = CHR 0x22 \<or> c = CHR 0x5C"
  shows "string_loop text p d = sbind (ev_control_json_append c d) (string_loop text (p + 2))"
proof -
  have p: "p + 1 < length text" "text ! p = CHR 0x5C" "text ! (p + 1) = c"
    using assms(1) at_offset [of p "text" "[CHR 0x5C, c]" rest 0] at_offset [of p "text" "[CHR 0x5C, c]" rest 1]
      offset_bound [of p "text" "[CHR 0x5C, c]" rest] by auto
  have e: "string_escape text (p + 1) d = sbind (ev_control_json_append c d) (\<lambda>d'. Inr (d', p + 2))"
    using p assms(2) by (auto simp: string_escape_def simple_escape_def)
  then show ?thesis using p
    by (simp add: string_loop_at string_char_def code_compare sbind_assoc)
qed

lemma control_step:
  assumes "drop p text = u_escape c @ rest" and "0 < (of_char c :: nat)" and "of_char c < (0x20 :: nat)"
  shows "string_loop text p d = sbind (ev_control_json_append c d) (string_loop text (p + 6))"
proof -
  have p: "p < length text" "text ! p = CHR 0x5C"
    using at_offset [OF assms(1), of 0] offset_bound [OF assms(1)] by (auto simp: u_escape_def)
  then show ?thesis using u_escape_step [OF assms, of d]
    by (simp add: string_loop_at string_char_def code_compare sbind_assoc)
qed

lemma raw_step:
  assumes t: "drop p text = utf8_char w @ rest" and w: "scalar w" "0x80 \<le> w"
  shows "string_loop text p d = sbind (append_all (utf8_char w) d) (string_loop text (p + length (utf8_char w)))"
proof -
  from utf8_is_accepted [OF w] obtain h v n cs where u: "utf8_char w = h # cs" "lead_bits h = Some (v, n)"
    "length cs = n" "\<forall>c \<in> set cs. of_char c div 64 = (2 :: nat)" "continue_with v cs = w" "\<not> misfit n w" by blast
  have p: "p < length text" "text ! p = h"
    using at_offset [OF t, of 0] offset_bound [OF t] u(1) by auto
  have "drop (p + 1) text = cs @ rest" using t p by (simp add: u(1) Cons_nth_drop_Suc [symmetric])
  then have "ev_control_json_append_raw_utf8 text p d = sbind (append_all (utf8_char w) d) (\<lambda>d'. Inr (d', p + 1 + n))"
    using u by (simp add: raw_utf8_eq [OF p(1)] p(2) del: append_all.simps)
  moreover have "\<not> of_char h < (0x80 :: nat)" using utf8_char_high [OF w, of h] u(1) by simp
  moreover from this have "h \<noteq> CHR 0x22" "h \<noteq> CHR 0x5C" "\<not> of_char h < (0x20 :: nat)" by auto
  ultimately show ?thesis using p u(1,3)
    by (auto simp: string_loop_at string_char_def code_compare sbind_assoc simp del: append_all.simps)
qed

lemma character_step:
  assumes t: "drop p text = concat (map escaped (utf8_char w)) @ rest" and w: "scalar w"
  shows "string_loop text p d =
    sbind (append_all (utf8_char w) d) (string_loop text (p + length (concat (map escaped (utf8_char w)))))"
proof (cases "w < 0x80")
  case True
  define c where "c = (char_of w :: char)"
  have c: "of_char c = w" "utf8_char w = [c]" using True by (simp_all add: c_def utf8_char_def)
  then have w0: "0 < (of_char c :: nat)" using w by (simp add: scalar_def)
  consider "c = CHR 0x5C \<or> c = CHR 0x22" | "\<not> (c = CHR 0x5C \<or> c = CHR 0x22)" "of_char c < (0x20 :: nat)"
    | "\<not> (c = CHR 0x5C \<or> c = CHR 0x22)" "\<not> of_char c < (0x20 :: nat)" by blast
  then show ?thesis
  proof cases
    case 1
    then have e: "escaped c = [CHR 0x5C, c]" by (auto simp: escaped_def)
    have q: "c = CHR 0x22 \<or> c = CHR 0x5C" using 1 by blast
    with t c(2) e have "drop p text = CHR 0x5C # c # rest" by simp
    from quoted_step [OF this q] show ?thesis by (simp add: e c(2) del: append_all.simps)
  next
    case 2
    then have e: "escaped c = u_escape c" by (simp add: escaped_def)
    with t c(2) have "drop p text = u_escape c @ rest" by simp
    from control_step [OF this w0 2(2)] show ?thesis by (simp add: e c(2) del: append_all.simps)
  next
    case 3
    then have e: "escaped c = [c]" by (simp add: escaped_def)
    with t c(2) have "drop p text = c # rest" by simp
    from plain_step [OF this 3(2)] 3(1) True show ?thesis by (simp add: e c(2) append_one del: append_all.simps) (simp add: c(1))
  qed
next
  case False
  then have e: "concat (map escaped (utf8_char w)) = utf8_char w" using escaped_utf8_high [OF w] by simp
  show ?thesis using raw_step [OF t [unfolded e] w] False by (simp add: e)
qed

lemma string_loop_escaped:
  assumes "utf8 s"
  shows "drop p text = concat (map escaped s) @ CHR 0x22 # rest \<Longrightarrow>
    string_loop text p d =
      sbind (append_all s d) (\<lambda>d'. sbind (string_end d') (\<lambda>d''. Inr (d'', p + length (concat (map escaped s)) + 1)))"
  using assms
proof (induction arbitrary: p d rule: utf8_induct)
  case Nil
  then have p: "p < length text" "text ! p = CHR 0x22"
    using at_offset [of p "text" "[CHR 0x22]" rest 0] offset_bound [of p "text" "[CHR 0x22]" rest] by auto
  then show ?case by (subst string_loop.simps) simp
next
  case (char w s)
  let ?e = "concat (map escaped (utf8_char w))"
  have t: "drop p text = ?e @ concat (map escaped s) @ CHR 0x22 # rest" using char.prems by simp
  have "drop (p + length ?e) text = concat (map escaped s) @ CHR 0x22 # rest" by (rule drop_part [OF t])
  from char.IH [OF this] have step: "string_loop text (p + length ?e) d' =
      sbind (append_all s d') (\<lambda>d'. sbind (string_end d') (\<lambda>d''. Inr (d'', p + length ?e + length (concat (map escaped s)) + 1)))"
    for d' by simp
  show ?case
    by (cases "append_all (utf8_char w) d") (simp_all add: character_step [OF t char.hyps(1)] append_all_append step add.assoc)
qed


lemma length_escaped: "length (concat (map escaped s)) \<le> 6 * length s"
  by (induction s) (auto simp: escaped_def u_escape_def)

text \<open>Escaping a well-formed string for a response and decoding the literal gives the
  string back, whenever both buffers are large enough; the decoder stops after the closing quote.\<close>

lemma json_string_roundtrip:
  assumes "utf8 s" and "6 * length s < n" and "ev_control_json_escape n s = Some e" and "length s < length buffer"
  shows "\<exists>d out. ev_control_json_string (CHR 0x22 # e @ CHR 0x22 # rest) 0 (Some buffer) = Inr (d, length e + 2) \<and>
    de_output d = Some out \<and> c_string out = s \<and> de_length d = length s \<and> \<not> de_overflow d \<and> \<not> de_nul d"
proof -
  have e: "e = concat (map escaped s)"
    using assms(2,3) escape_loop_fits [of "[]" s n] length_escaped [of s]
    by (simp add: ev_control_json_escape_def split: if_split_asm)
  let ?t = "CHR 0x22 # e @ CHR 0x22 # rest"
  let ?d = "decode_into (Some buffer)"
  obtain d1 where d1: "append_all s ?d = Inr d1" "holds_text (Some buffer) d1 ([] @ s)" "de_nul d1 = de_nul ?d"
    using append_all_spec [OF holds_start] by blast
  obtain d2 where d2: "string_end d1 = Inr d2" "holds_string (Some buffer) d2 s" "de_nul d2 = de_nul d1"
    using string_end_spec d1(2) by fastforce
  have "drop 1 ?t = concat (map escaped s) @ CHR 0x22 # rest" by (simp add: e)
  from string_loop_escaped [OF assms(1) this]
  have "ev_control_json_string ?t 0 (Some buffer) = Inr (d2, length e + 2)"
    by (simp add: ev_control_json_string_def expect_def d1(1) d2(1) e)
  moreover have "\<not> de_overflow d2" using d2(2) assms(4) by (auto simp: holds_string_def holds_text_def)
  moreover have "\<not> de_nul d2" by (simp add: d2(3) d1(3) decode_into_def)
  ultimately show ?thesis
    using holds_string_c_string [OF d2(2)] utf8_no_NUL [OF assms(1)] by auto
qed

lemma json_string_roundtrip_witness:
  "\<exists>d out. ev_control_json_string (CHR 0x22 # ([CHR 0x5C, CHR 0x22] @ u_escape (CHR 0x0A) @ ''a'') @ CHR 0x22 # '',1'') 0
      (Some (replicate 8 CHR 0x00)) = Inr (d, 11) \<and>
    de_output d = Some out \<and> c_string out = [CHR 0x22, CHR 0x0A, CHR ''a''] \<and> de_length d = 3 \<and>
    \<not> de_overflow d \<and> \<not> de_nul d"
proof -
  have u: "utf8 [CHR 0x22, CHR 0x0A, CHR ''a'']"
    using utf8_add_ASCII [OF utf8_add_ASCII [OF utf8_add_ASCII [OF utf8_Nil, of "CHR 0x22"], of "CHR 0x0A"], of "CHR ''a''"]
    by simp
  have e: "ev_control_json_escape 64 [CHR 0x22, CHR 0x0A, CHR ''a''] =
      Some ([CHR 0x5C, CHR 0x22] @ u_escape (CHR 0x0A) @ ''a'')"
    by (simp add: ev_control_json_escape_def)
  show ?thesis
    using json_string_roundtrip [OF u _ e, of "replicate 8 CHR 0x00" "'',1''"]
    by (simp add: numeral_3_eq_3)
qed

section \<open>Base64\<close>

lemma back_two: "2 \<le> n \<Longrightarrow> Suc (Suc (n - 2)) = n" "4 \<le> n \<Longrightarrow> 4 + (n - 4) = n" "6 \<le> n \<Longrightarrow> 6 + (n - 6) = n"
  by simp_all

lemma base64_bits:
  fixes acc :: u32 and a b c :: u8
  defines "v \<equiv> push_bit 16 (ucast a) OR push_bit 8 (ucast b) OR (ucast c :: u32)"
  defines "acc2 \<equiv> push_bit 6 (push_bit 6 acc OR (drop_bit 18 v AND mask 6)) OR (drop_bit 12 v AND mask 6)"
  shows "ucast (drop_bit 4 acc2 AND mask 8) = a"
    "ucast (drop_bit 2 (push_bit 6 acc2 OR (drop_bit 6 v AND mask 6)) AND mask 8) = b"
    "ucast (drop_bit 0 (push_bit 6 (push_bit 6 acc2 OR (drop_bit 6 v AND mask 6)) OR (drop_bit 0 v AND mask 6)) AND mask 8) = c"
  unfolding v_def acc2_def
    apply (rule bit_word_eqI; auto simp: bit_simps back_two not_less dest: bit_imp_le_length)
   apply (rule bit_word_eqI; auto simp: bit_simps back_two not_less dest: bit_imp_le_length)
  apply (rule bit_word_eqI; auto simp: bit_simps back_two not_less dest: bit_imp_le_length)
  done

lemma table_ok:
  "i < 64 \<Longrightarrow> ev_control_base64_value (s_base64_table ! i) = Some i \<and> s_base64_table ! i \<noteq> CHR ''='' \<and> \<not> isspace (s_base64_table ! i)"
proof -
  assume "i < 64"
  then have "i \<in> set [0..<64]" by simp
  moreover have "\<forall>i \<in> set [0..<64]. ev_control_base64_value (s_base64_table ! i) = Some i \<and> s_base64_table ! i \<noteq> CHR ''='' \<and> \<not> isspace (s_base64_table ! i)"
    by (simp add: ev_control_base64_value_def isspace_def s_base64_table_def upt_rec less_eq_char_def)
  ultimately show ?thesis by blast
qed

lemma six_bits: "unat (w AND mask 6 :: u32) < 64"
proof -
  have "w AND mask 6 < 2 ^ 6" by (rule and_mask_less_size) (simp add: word_size)
  then show ?thesis by (simp add: word_less_nat_alt)
qed

definition table_char :: "u32 \<Rightarrow> nat \<Rightarrow> char" where
  "table_char v k = s_base64_table ! unat (drop_bit k v AND mask 6)"

text \<open>The accumulator after the six bits of \<open>v\<close> from \<open>k\<close> on, and its byte from \<open>k\<close> on.\<close>

definition six_more :: "u32 \<Rightarrow> nat \<Rightarrow> u32 \<Rightarrow> u32" where
  "six_more v k acc = push_bit 6 acc OR (drop_bit k v AND mask 6)"

definition byte_at :: "nat \<Rightarrow> u32 \<Rightarrow> u8" where
  "byte_at k acc = ucast (drop_bit k acc AND mask 8)"

lemma decode_char:
  "base64_decode_loop m (table_char v k # cs) dst acc bits =
     (let acc = six_more v k acc; bits = bits + 6
      in if 8 \<le> bits
         then let bits = bits - 8
              in if m \<le> length dst then Inl ESP_ERR_INVALID_SIZE
                 else base64_decode_loop m cs (dst @ [byte_at bits acc]) acc bits
         else base64_decode_loop m cs dst acc bits)"
proof -
  have "(0xff :: u32) = mask 8" by (simp add: mask_eq_exp_minus_1)
  then show ?thesis
    using table_ok [OF six_bits [of "drop_bit k v"]] by (simp add: table_char_def six_more_def byte_at_def Let_def del: mask_numeral)
qed

definition packed :: "u8 \<Rightarrow> u8 \<Rightarrow> u8 \<Rightarrow> u32" where
  "packed a b c = push_bit 16 (ucast a) OR push_bit 8 (ucast b) OR ucast c"

lemma group_eq:
  "base64_group a None None = [table_char (packed a 0 0) 18, table_char (packed a 0 0) 12, CHR ''='', CHR ''='']"
  "base64_group a (Some b) None =
     [table_char (packed a b 0) 18, table_char (packed a b 0) 12, table_char (packed a b 0) 6, CHR ''='']"
  "base64_group a (Some b) (Some c) =
     [table_char (packed a b c) 18, table_char (packed a b c) 12, table_char (packed a b c) 6, table_char (packed a b c) 0]"
proof -
  have m: "(0x3f :: u32) = mask 6" by (simp add: mask_eq_exp_minus_1)
  show "base64_group a None None = [table_char (packed a 0 0) 18, table_char (packed a 0 0) 12, CHR ''='', CHR ''='']"
  "base64_group a (Some b) None =
     [table_char (packed a b 0) 18, table_char (packed a b 0) 12, table_char (packed a b 0) 6, CHR ''='']"
  "base64_group a (Some b) (Some c) =
     [table_char (packed a b c) 18, table_char (packed a b c) 12, table_char (packed a b c) 6, table_char (packed a b c) 0]"
    by (simp_all add: base64_group_def packed_def table_char_def m Let_def or.assoc del: mask_numeral)
qed

lemmas group_bytes = base64_bits [folded packed_def, folded six_more_def, folded byte_at_def]

lemma decode_pad: "base64_decode_loop m (CHR ''='' # cs) dst acc bits = Inr dst"
  by simp

lemma decode_group:
  assumes "length dst + 3 \<le> m"
  shows "\<exists>acc'. base64_decode_loop m (base64_group a (Some b) (Some c) @ cs) dst acc 0 =
    base64_decode_loop m cs (dst @ [a, b, c]) acc' 0"
  using assms by (simp add: group_eq decode_char Let_def group_bytes del: base64_decode_loop.simps) blast

lemma decode_ends:
  "length dst + 1 \<le> m \<Longrightarrow> base64_decode_loop m (base64_group a None None) dst acc 0 = Inr (dst @ [a])"
  "length dst + 2 \<le> m \<Longrightarrow> base64_decode_loop m (base64_group a (Some b) None) dst acc 0 = Inr (dst @ [a, b])"
  by (simp_all add: group_eq decode_char decode_pad Let_def group_bytes del: base64_decode_loop.simps)

lemma decode_encoded:
  "length dst + length src \<le> m \<Longrightarrow> base64_decode_loop m (base64_encode_loop src) dst acc 0 = Inr (dst @ src)"
proof (induction src arbitrary: dst acc rule: base64_encode_loop.induct)
  case (4 a b c rest)
  then show ?case using decode_group [of dst m a b c "base64_encode_loop rest" acc] by auto
qed (simp_all add: decode_ends)

lemma length_encoded: "length (base64_encode_loop src) = (length src + 2) div 3 * 4"
proof (induction src rule: base64_encode_loop.induct)
  case (4 a b c rest)
  have l: "length (a # b # c # rest) + 2 = length rest + 2 + 3" by simp
  have d: "(length rest + 2 + 3) div 3 = (length rest + 2) div 3 + 1" by (rule div_add_self2) simp
  have "length (base64_encode_loop (a # b # c # rest)) = 4 + length (base64_encode_loop rest)"
    by (simp add: base64_group_def Let_def)
  then show ?case unfolding l d 4 by simp
qed (simp_all add: base64_group_def Let_def)

text \<open>Whatever bytes are encoded, decoding the Base64 text gives them back when there is
  room for them, and the text with its terminator fits the buffer it was encoded into.\<close>

lemma base64_roundtrip:
  assumes "ev_control_base64_encode src n = Inr e" and "length src \<le> m"
  shows "ev_control_base64_decode e m = Inr src \<and> length e < n"
  using assms decode_encoded [of "[]" src m 0] length_encoded [of src]
  by (auto simp: ev_control_base64_encode_def ev_control_base64_decode_def split: if_split_asm)

lemma base64_roundtrip_witness:
  "ev_control_base64_encode [0x4d, 0x61] 5 = Inr ''TWE='' \<and> ev_control_base64_decode ''TWE='' 2 = Inr [0x4d, 0x61]"
proof -
  have e: "ev_control_base64_encode [0x4d, 0x61] 5 = Inr ''TWE=''"
    by (simp add: ev_control_base64_encode_def base64_group_def s_base64_table_def)
  from base64_roundtrip [OF this, of 2] e show ?thesis by simp
qed

end
