(* ===== verification/ControlQueue.thy ===== *)
theory ControlQueue
  imports ControlText ReplQueue VmOutput
begin

text \<open>
  What the transport task and the task of the virtual machine share in
  \<open>platform/ev_control_transport.c\<close>: the REPL input, and the queue of the requests that must run on
  the virtual machine. The record \<open>control\<close> holds the static variables; its last field stands for
  the state of the parts of the firmware that are not modelled. The handlers of the single methods
  and the calls of MicroPython are the parameter \<open>ce_run\<close>, which is told which one is called and with
  which response context, and may change everything. Between a check of the session and the
  critical section that relies on it any other task may run: \<open>ce_others\<close>. The clock, the heap and
  the queries of other parts are parameters as well.
\<close>

section \<open>Limits and types\<close>

definition EV_CONTROL_METADATA_MAX :: nat where "EV_CONTROL_METADATA_MAX = 384"
definition EV_CONTROL_PAYLOAD_MAX :: nat where "EV_CONTROL_PAYLOAD_MAX = 2048"
definition EV_CONTROL_HEADER_MAX :: nat where "EV_CONTROL_HEADER_MAX = 72"
definition EV_CONTROL_VM_QUEUE_LEN :: u8 where "EV_CONTROL_VM_QUEUE_LEN = 2"
definition EV_CONTROL_REPL_INPUT_MAX :: nat where "EV_CONTROL_REPL_INPUT_MAX = EV_REPL_QUEUE_CAPACITY - 1"
definition EV_CONTROL_VM_EXPIRE_MS :: u32 where "EV_CONTROL_VM_EXPIRE_MS = 5000"

lemmas control_consts = EV_CONTROL_METADATA_MAX_def EV_CONTROL_PAYLOAD_MAX_def EV_CONTROL_HEADER_MAX_def
  EV_CONTROL_VM_QUEUE_LEN_def EV_CONTROL_REPL_INPUT_MAX_def EV_CONTROL_VM_EXPIRE_MS_def

datatype ev_control_rpc_domain = EV_RPC_USER | EV_RPC_DEBUG

record ev_control_vm_frame =
  vf_payload_len :: u16
  vf_domain :: ev_control_rpc_domain
  vf_link :: ev_link_ref
  vf_session_id :: cstring
  vf_vm_epoch :: u32
  vf_input_generation :: u32
  vf_transition_id :: u32
  vf_queued_ms :: u32
  vf_seq :: u32
  vf_method :: cstring
  vf_payload :: "u8 list"

definition zero_vm_frame :: ev_control_vm_frame where
  "zero_vm_frame =
     \<lparr>vf_payload_len = 0, vf_domain = EV_RPC_USER, vf_link = zero_link, vf_session_id = [],
      vf_vm_epoch = 0, vf_input_generation = 0, vf_transition_id = 0, vf_queued_ms = 0, vf_seq = 0,
      vf_method = [], vf_payload = replicate (EV_CONTROL_PAYLOAD_MAX + 1) 0\<rparr>"

text \<open>The response context of a task; of the completion only whether there is one.\<close>

record ev_control_response_context =
  rc_rpc_domain :: ev_control_rpc_domain
  rc_link :: ev_link_ref
  rc_has_link :: bool
  rc_session_id :: cstring
  rc_vm_epoch :: u32
  rc_tx_vm_epoch :: u32
  rc_input_generation :: u32
  rc_transition_id :: u32
  rc_completion :: bool
  rc_completion_context_len :: nat
  rc_ticket_out :: bool

record ev_transport_stats =
  st_rx_bytes :: "u32 list"
  st_frames_ok :: u32
  st_frames_bad :: u32
  st_frames_rejected :: u32
  st_repl_rx_dropped :: u32
  st_vm_busy :: u32
  st_parser_timeouts :: u32
  st_stale_generation_drops :: u32

record 'r control =
  co_world :: world
  co_repl_rx :: ev_repl_queue
  co_vm_queue :: "ev_control_vm_frame list"
  co_head :: u8
  co_tail :: u8
  co_pending :: bool
  co_vm_poll_active :: bool
  co_response :: ev_control_response_context
  co_vm_response :: ev_control_response_context
  co_vm_task :: vm_task
  co_stats :: ev_transport_stats
  co_rest :: 'r

text \<open>The calls of code that is not modelled.\<close>

datatype control_call =
    Send_error cstring u32 cstring cstring
  | Send_response cstring u32 cstring
  | Handle_user_rpc u32 cstring string
  | Handle_debug_rpc u32 cstring string
  | Hello_acquire u32 string
  | Send_capabilities u32
  | File_write u32 ev_control_json_metadata ev_session_snapshot_t "u8 list"
  | Keyboard_interrupt
  | Wake_main_task
  | Writer_session_changed "cstring option"
  | Launcher_reset_begin
  | Mux_cancel_vm_epoch u32

text \<open>\<open>ce_run\<close> also says whether the call left through a MicroPython exception.\<close>

record 'r control_env =
  ce_now :: "'r control \<Rightarrow> u32"
  ce_run :: "ev_control_response_context \<Rightarrow> control_call \<Rightarrow> 'r control \<Rightarrow> bool \<times> 'r control"
  ce_others :: "'r control \<Rightarrow> 'r control"
  ce_interrupt_armed :: "'r control \<Rightarrow> bool"
  ce_main_thread :: "'r control \<Rightarrow> bool"
  ce_preview_subscribe :: "ev_link_ref \<Rightarrow> bool \<Rightarrow> 'r control \<Rightarrow> esp_err \<times> 'r control"
  ce_preview_subscribed :: "ev_link_ref \<Rightarrow> 'r control \<Rightarrow> bool"
  ce_malloc :: "nat \<Rightarrow> 'r control \<Rightarrow> (nat \<Rightarrow> u8) option"
  ce_stack :: ev_session_snapshot_t

text \<open>\<open>ce_stack\<close> is what an uninitialised snapshot holds; \<open>ce_malloc\<close> gives the contents of a block.\<close>

definition control_call :: "'r control_env \<Rightarrow> control_call \<Rightarrow> 'r control \<Rightarrow> 'r control" where
  "control_call env k c = snd (ce_run env (co_response c) k c)"

definition count_stat :: "(ev_transport_stats \<Rightarrow> ev_transport_stats) \<Rightarrow> 'r control \<Rightarrow> 'r control" where
  "count_stat f c = c\<lparr>co_stats := f (co_stats c)\<rparr>"

definition current_generation :: "'r control \<Rightarrow> u32" where
  "current_generation c = ev_session_input_generation (w_session (co_world c))"

text \<open>\<open>ev_session_authorize\<close> on the state of the session inside the world.\<close>

definition authorize ::
  "'r control_env \<Rightarrow> ev_link_ref option \<Rightarrow> cstring option \<Rightarrow> bool \<Rightarrow> bool \<Rightarrow> u32 \<Rightarrow> 'r control
     \<Rightarrow> ev_session_result \<times> ev_session_snapshot_t \<times> 'r control" where
  "authorize env link session_id vm_related has_vm_epoch vm_epoch c =
     (let (result, out, s) = ev_session_authorize (w_transport (co_world c)) (w_session (co_world c))
            link session_id vm_related has_vm_epoch vm_epoch (ce_now env c) (Some (ce_stack env))
      in (result, the out, c\<lparr>co_world := (co_world c)\<lparr>w_session := s\<rparr>\<rparr>))"

text \<open>The same with the two comparisons that follow it wherever a queued item is checked.\<close>

definition still_authorized ::
  "'r control_env \<Rightarrow> ev_link_ref option \<Rightarrow> cstring option \<Rightarrow> u32 \<Rightarrow> u32 \<Rightarrow> u32 \<Rightarrow> 'r control \<Rightarrow> bool \<times> 'r control" where
  "still_authorized env link session_id vm_epoch input_generation transition_id c =
     (let (result, snap, c1) = authorize env link session_id True True vm_epoch c
      in (result = EV_SESSION_RESULT_OK \<and> sn_input_generation snap = input_generation \<and>
          sn_transition_id snap = transition_id, c1))"

text \<open>The bytes of a buffer as characters.\<close>

definition chars :: "u8 list \<Rightarrow> string" where
  "chars bytes = map (\<lambda>b. char_of (unat b)) bytes"

definition memcpy_front :: "'a list \<Rightarrow> 'a list \<Rightarrow> nat \<Rightarrow> 'a list checked" where
  "memcpy_front dst src n =
     (if n \<le> length dst \<and> n \<le> length src then Inr (take n src @ drop n dst) else Inl Out_of_bounds)"

section \<open>REPL input\<close>

definition ev_control_repl_rx_push ::
  "'r control_env \<Rightarrow> u8 list \<Rightarrow> nat \<Rightarrow> ev_link_ref option \<Rightarrow> cstring option \<Rightarrow> u32 \<Rightarrow> u32 \<Rightarrow> u32
     \<Rightarrow> 'r control \<Rightarrow> bool \<times> 'r control" where
  "ev_control_repl_rx_push env data len link session_id vm_epoch input_generation transition_id c =
     (if link = None \<or> session_id = None \<or> input_generation = 0 then (False, c)
      else
        let (ok, c1) = still_authorized env link session_id vm_epoch input_generation transition_id c
        in if \<not> ok then (False, c1)
           else
             let c2 = ce_others env c1;
                 (pushed, q) = ev_repl_queue_push (Some (co_repl_rx c2)) (Some data) len input_generation
                   (current_generation c2)
             in (pushed, c2\<lparr>co_repl_rx := the q\<rparr>))"

definition ev_control_repl_rx_clear :: "'r control \<Rightarrow> 'r control" where
  "ev_control_repl_rx_clear c =
     c\<lparr>co_repl_rx := the (ev_repl_queue_force_clear (Some (co_repl_rx c)) (current_generation c))\<rparr>"

definition ev_control_repl_rx_clear_generation :: "u32 \<Rightarrow> 'r control \<Rightarrow> bool \<times> 'r control" where
  "ev_control_repl_rx_clear_generation generation c =
     (let (cleared, q) = ev_repl_queue_clear_generation (Some (co_repl_rx c)) generation (current_generation c)
      in (cleared, c\<lparr>co_repl_rx := the q\<rparr>))"

text \<open>\<open>session.state == EV_SESSION_OWNED && session.handshake_complete && session.vm_ready\<close>.\<close>

definition repl_ready :: "ev_session_snapshot_t \<Rightarrow> bool" where
  "repl_ready snap \<longleftrightarrow> sn_state snap = EV_SESSION_OWNED \<and> sn_handshake_complete snap \<and> sn_vm_ready snap"

definition repl_accepts :: "ev_session_snapshot_t \<Rightarrow> 'r control \<Rightarrow> bool \<times> 'r control" where
  "repl_accepts snap c =
     (let (ok, origin) = ev_vm_output_origin_from_session (Some snap) (Some zero_origin)
      in if \<not> ok then (False, c)
         else let (accepted, v) = ev_vm_output_repl_input_accept (co_vm_task c) origin
              in (accepted, c\<lparr>co_vm_task := v\<rparr>))"

text \<open>The result, the character, and the state; 3 is the Ctrl-C that ends an edit of an old owner.\<close>

definition ev_control_repl_rx_pop ::
  "'r control_env \<Rightarrow> int option \<Rightarrow> 'r control \<Rightarrow> (bool \<times> int option \<times> 'r control) checked" where
  "ev_control_repl_rx_pop env out_chr c =
     (if out_chr = None then Inr (False, out_chr, c)
      else if ev_vm_output_input_origin_stale (w_session (co_world c)) (co_vm_task c) then Inr (True, Some 3, c)
      else
        let (found, snap) = ev_session_snapshot (w_session (co_world c)) (ce_now env c) (Some (ce_stack env))
        in if \<not> found then Inr (False, out_chr, c)
           else
             let ready = repl_ready (the snap);
                 (accepted, c1) = (if ready then repl_accepts (the snap) c else (True, c))
             in if \<not> accepted then Inr (True, Some 3, c1)
                else
                  let c2 = ce_others env c1
                  in case ev_repl_queue_pop (Some (co_repl_rx c2)) (sn_input_generation (the snap))
                            (current_generation c2) ready (Some 0) of
                       None \<Rightarrow> Inl Out_of_fuel
                     | Some (available, v, q) \<Rightarrow>
                         Inr (available, if available then Some (uint (the v)) else out_chr,
                              c2\<lparr>co_repl_rx := the q\<rparr>))"

definition ev_control_transport_repl_pending :: "'r control_env \<Rightarrow> 'r control \<Rightarrow> (bool \<times> 'r control) checked" where
  "ev_control_transport_repl_pending env c =
     (let (found, snap) = ev_session_snapshot (w_session (co_world c)) (ce_now env c) (Some (ce_stack env))
      in if \<not> found then Inr (False, c)
         else
           let c1 = ce_others env c
           in case ev_repl_queue_pending (Some (co_repl_rx c1)) (sn_input_generation (the snap))
                     (current_generation c1) (repl_ready (the snap)) of
                None \<Rightarrow> Inl Out_of_fuel
              | Some (pending, q) \<Rightarrow> Inr (pending, c1\<lparr>co_repl_rx := the q\<rparr>))"

section \<open>The response context\<close>

definition cleared_context :: "ev_control_response_context \<Rightarrow> ev_control_response_context" where
  "cleared_context r =
     r\<lparr>rc_rpc_domain := EV_RPC_USER, rc_link := zero_link, rc_has_link := False, rc_session_id := [],
       rc_vm_epoch := 0, rc_tx_vm_epoch := 0, rc_input_generation := 0, rc_transition_id := 0,
       rc_completion := False, rc_completion_context_len := 0, rc_ticket_out := False\<rparr>"

definition ev_control_response_context_clear :: "'r control \<Rightarrow> 'r control" where
  "ev_control_response_context_clear c = c\<lparr>co_response := cleared_context (co_response c)\<rparr>"

definition frame_context :: "ev_control_vm_frame \<Rightarrow> ev_control_response_context \<Rightarrow> ev_control_response_context" where
  "frame_context f r =
     r\<lparr>rc_rpc_domain := vf_domain f, rc_link := vf_link f, rc_has_link := True,
       rc_session_id := vf_session_id f, rc_vm_epoch := vf_vm_epoch f, rc_tx_vm_epoch := vf_vm_epoch f,
       rc_input_generation := vf_input_generation f, rc_transition_id := vf_transition_id f\<rparr>"

definition restore_context ::
  "ev_control_response_context \<Rightarrow> ev_control_response_context \<Rightarrow> ev_control_response_context" where
  "restore_context prev r =
     r\<lparr>rc_rpc_domain := rc_rpc_domain prev, rc_link := rc_link prev, rc_has_link := rc_has_link prev,
       rc_session_id := rc_session_id prev, rc_vm_epoch := rc_vm_epoch prev, rc_tx_vm_epoch := rc_tx_vm_epoch prev,
       rc_input_generation := rc_input_generation prev, rc_transition_id := rc_transition_id prev\<rparr>"

section \<open>The queue of the virtual machine\<close>

definition ev_control_vm_queue_clear :: "'r control \<Rightarrow> 'r control" where
  "ev_control_vm_queue_clear c =
     c\<lparr>co_vm_queue := replicate (unat EV_CONTROL_VM_QUEUE_LEN) zero_vm_frame, co_head := 0, co_tail := 0,
       co_pending := False\<rparr>"

definition ev_control_vm_queue_clear_stale :: "u32 \<Rightarrow> 'r control \<Rightarrow> 'r control checked" where
  "ev_control_vm_queue_clear_stale input_generation c =
     (if input_generation = 0 \<or> current_generation c \<noteq> input_generation \<or> co_head c = co_tail c then Inr c
      else
        sbind (rd (co_vm_queue c) (unat (co_head c))) (\<lambda>frame.
          if vf_input_generation frame = input_generation then Inr c
          else
            sbind (wr (co_vm_queue c) (unat (co_head c)) zero_vm_frame) (\<lambda>queue.
              Inr (c\<lparr>co_vm_queue := queue, co_head := co_tail c, co_pending := False\<rparr>))))"

text \<open>One frame leaves the queue.\<close>

definition vm_queue_next :: "u8 \<Rightarrow> u8" where
  "vm_queue_next i = (i + 1) mod EV_CONTROL_VM_QUEUE_LEN"

definition vm_queue_take :: "'r control \<Rightarrow> 'r control" where
  "vm_queue_take c =
     (let head = vm_queue_next (co_head c) in c\<lparr>co_head := head, co_pending := (head \<noteq> co_tail c)\<rparr>)"

definition vm_timeout :: "'r control_env \<Rightarrow> ev_control_vm_frame \<Rightarrow> 'r control \<Rightarrow> 'r control" where
  "vm_timeout env f c =
     (let prev = co_response c;
          c1 = control_call env (Send_error (vf_method f) (vf_seq f) ''VM_TIMEOUT'' ''interpreter busy'')
                 (c\<lparr>co_response := frame_context f prev\<rparr>)
      in c1\<lparr>co_response := restore_context prev (co_response c1)\<rparr>)"

fun vm_expire_rounds :: "nat \<Rightarrow> 'r control_env \<Rightarrow> 'r control \<Rightarrow> 'r control checked" where
  "vm_expire_rounds 0 env c = Inl Out_of_fuel"
| "vm_expire_rounds (Suc fuel) env c =
     (if co_head c = co_tail c then Inr c
      else
        sbind (rd (co_vm_queue c) (unat (co_head c))) (\<lambda>f.
          if ce_now env c - vf_queued_ms f \<le> EV_CONTROL_VM_EXPIRE_MS then Inr c
          else
            let (ok, c1) = still_authorized env (Some (vf_link f)) (Some (vf_session_id f)) (vf_vm_epoch f)
                  (vf_input_generation f) (vf_transition_id f) (ce_others env (vm_queue_take c))
            in vm_expire_rounds fuel env (if ok then vm_timeout env f c1 else c1)))"

definition ev_control_vm_queue_expire :: "'r control_env \<Rightarrow> 'r control \<Rightarrow> 'r control checked" where
  "ev_control_vm_queue_expire env c = vm_expire_rounds (unat EV_CONTROL_VM_QUEUE_LEN + 1) env c"

text \<open>\<open>payload\<close> is the buffer that holds the payload.\<close>

definition ev_control_vm_queue_push ::
  "'r control_env \<Rightarrow> ev_control_rpc_domain \<Rightarrow> ev_link_ref \<Rightarrow> cstring \<Rightarrow> cstring option \<Rightarrow> u32 \<Rightarrow> u32 \<Rightarrow> u32
     \<Rightarrow> u32 \<Rightarrow> u8 list \<Rightarrow> nat \<Rightarrow> 'r control \<Rightarrow> (bool \<times> 'r control) checked" where
  "ev_control_vm_queue_push env domain link session_id method_opt seq vm_epoch input_generation transition_id
     payload payload_len c =
     (case method_opt of None \<Rightarrow> Inr (False, c)
      | Some method \<Rightarrow>
        if EV_CONTROL_JSON_METHOD_MAX < length method then Inr (False, c)
        else
          let (ok, c1) = still_authorized env (Some link) (Some session_id) vm_epoch input_generation transition_id c
          in if \<not> ok then Inr (False, c1)
             else
               sbind (ev_control_vm_queue_expire env (ce_others env c1)) (\<lambda>c2.
                 if current_generation c2 \<noteq> input_generation then Inr (False, c2)
                 else
                   let next_tail = vm_queue_next (co_tail c2)
                   in if next_tail = co_head c2 then Inr (False, c2)
                      else
                        sbind (rd (co_vm_queue c2) (unat (co_tail c2))) (\<lambda>slot.
                        sbind (memcpy_front (vf_payload slot) payload payload_len) (\<lambda>copied.
                        sbind (wr copied payload_len 0) (\<lambda>buffer.
                        sbind (wr (co_vm_queue c2) (unat (co_tail c2))
                            \<lparr>vf_payload_len = of_nat payload_len, vf_domain = domain, vf_link = link,
                             vf_session_id = session_id, vf_vm_epoch = vm_epoch,
                             vf_input_generation = input_generation, vf_transition_id = transition_id,
                             vf_queued_ms = ce_now env c2, vf_seq = seq, vf_method = method,
                             vf_payload = buffer\<rparr>) (\<lambda>queue.
                          Inr (True, c2\<lparr>co_vm_queue := queue, co_tail := next_tail, co_pending := True\<rparr>)))))))"

section \<open>Running a queued request\<close>

definition vm_call :: "'r control_env \<Rightarrow> control_call \<Rightarrow> 'r control \<Rightarrow> bool \<times> 'r control" where
  "vm_call env k c = ce_run env (co_vm_response c) k c"

text \<open>The end of every path: the context is cleared and the poll may be entered again.\<close>

definition vm_poll_leave :: "'r control \<Rightarrow> 'r control" where
  "vm_poll_leave c = c\<lparr>co_vm_response := cleared_context (co_vm_response c), co_vm_poll_active := False\<rparr>"

definition vm_request :: "ev_control_vm_frame \<Rightarrow> control_call" where
  "vm_request f =
     (if vf_domain f = EV_RPC_DEBUG then Handle_debug_rpc (vf_seq f) (vf_method f) (c_string (chars (vf_payload f)))
      else Handle_user_rpc (vf_seq f) (vf_method f) (c_string (chars (vf_payload f))))"

definition vm_run :: "'r control_env \<Rightarrow> ev_control_vm_frame \<Rightarrow> ev_vm_output_scope option \<Rightarrow> 'r control \<Rightarrow> 'r control" where
  "vm_run env f scope c =
     (let (raised, c1) = vm_call env (vm_request f) c;
          c2 = (if raised
                then snd (vm_call env (Send_error (vf_method f) (vf_seq f) ''INTERNAL_ERROR'' ''VM RPC handler raised'') c1)
                else c1)
      in vm_poll_leave (c2\<lparr>co_vm_task := snd (ev_vm_output_scope_pop (co_vm_task c2) scope)\<rparr>))"

definition vm_dispatch :: "'r control_env \<Rightarrow> ev_control_vm_frame \<Rightarrow> 'r control \<Rightarrow> 'r control" where
  "vm_dispatch env f c =
     (if current_generation c \<noteq> vf_input_generation f
      then (count_stat (\<lambda>s. s\<lparr>st_stale_generation_drops := st_stale_generation_drops s + 1\<rparr>) c)\<lparr>co_vm_poll_active := False\<rparr>
      else
        let (result, snap, c1) = authorize env (Some (vf_link f)) (Some (vf_session_id f)) True True (vf_vm_epoch f) c
        in if result \<noteq> EV_SESSION_RESULT_OK \<or> sn_input_generation snap \<noteq> vf_input_generation f \<or>
              sn_transition_id snap \<noteq> vf_transition_id f
           then (count_stat (\<lambda>s. s\<lparr>st_stale_generation_drops := st_stale_generation_drops s + 1\<rparr>) c1)\<lparr>co_vm_poll_active := False\<rparr>
           else
             let c2 = c1\<lparr>co_vm_response := frame_context f (cleared_context (co_vm_response c1))\<rparr>;
                 (valid, origin) = ev_vm_output_origin_from_session (Some snap) (Some zero_origin);
                 (pushed, scope, v) = (if valid then ev_vm_output_scope_push (co_vm_task c2) origin (Some zero_scope)
                                       else (False, Some zero_scope, co_vm_task c2));
                 c3 = c2\<lparr>co_vm_task := v\<rparr>
             in if \<not> pushed
                then vm_poll_leave (snd (vm_call env (Send_error (vf_method f) (vf_seq f) ''INTERNAL_ERROR''
                       ''VM output context unavailable'') c3))
                else vm_run env f scope c3)"

definition ev_control_transport_vm_poll :: "'r control_env \<Rightarrow> 'r control \<Rightarrow> 'r control checked" where
  "ev_control_transport_vm_poll env c =
     (if \<not> co_pending c \<or> \<not> ce_main_thread env c \<or> co_vm_poll_active c then Inr c
      else if co_head c = co_tail c then Inr (c\<lparr>co_pending := False, co_vm_poll_active := False\<rparr>)
      else
        sbind (rd (co_vm_queue c) (unat (co_head c))) (\<lambda>f.
          Inr (vm_dispatch env f (ce_others env (vm_queue_take (c\<lparr>co_vm_poll_active := True\<rparr>))))))"

section \<open>A reset of the virtual machine\<close>

definition on_session :: "(session \<Rightarrow> session) \<Rightarrow> 'r control \<Rightarrow> 'r control" where
  "on_session f c = c\<lparr>co_world := (co_world c)\<lparr>w_session := f (w_session (co_world c))\<rparr>\<rparr>"

definition ev_control_transport_vm_reset_begin :: "'r control_env \<Rightarrow> 'r control \<Rightarrow> 'r control" where
  "ev_control_transport_vm_reset_begin env c =
     (let old_epoch = ev_session_vm_epoch (w_session (co_world c));
          c1 = snd (vm_call env Launcher_reset_begin (snd (vm_call env (Writer_session_changed None) c)));
          c2 = on_session (\<lambda>s. ev_session_set_vm_ready s False) c1;
          c3 = on_session (\<lambda>s. snd (ev_session_vm_epoch_advance s)) c2;
          c4 = (if old_epoch \<noteq> 0 then snd (vm_call env (Mux_cancel_vm_epoch old_epoch) c3) else c3)
      in ev_control_repl_rx_clear (ev_control_vm_queue_clear c4))"

section \<open>Ctrl-C\<close>

definition ev_control_deliver_ctrl_c ::
  "'r control_env \<Rightarrow> ev_link_ref option \<Rightarrow> cstring option \<Rightarrow> u32 \<Rightarrow> u32 \<Rightarrow> u32 \<Rightarrow> 'r control \<Rightarrow> 'r control" where
  "ev_control_deliver_ctrl_c env link session_id vm_epoch input_generation transition_id c =
     (let (ok, c1) = still_authorized env link session_id vm_epoch input_generation transition_id c;
          c2 = ce_others env c1
      in if \<not> ok then c1
         else if current_generation c2 \<noteq> input_generation then c2
         else
           control_call env Wake_main_task
             (if ce_interrupt_armed env c2 then control_call env Keyboard_interrupt c2
              else snd (ev_control_repl_rx_push env [3] 1 link session_id vm_epoch input_generation transition_id c2)))"

end
