(* ===== verification/ControlFrame.thy ===== *)
theory ControlFrame
  imports ControlQueue MuxFrame
begin

text \<open>
  The receiver of EV-MUX frames in \<open>platform/ev_control_transport.c\<close>: the state machine that
  takes the bytes of a link apart, the authorisation of a frame, and what a complete frame leads to.
  A parser is a record of its buffers and positions; all accesses to the buffers are checked. The
  block for the payload of a large upload is in the parser that owns it.
\<close>

section \<open>The parser\<close>

definition EV_FILE_CHUNK_BYTES :: nat where "EV_FILE_CHUNK_BYTES = 16384"
definition EV_FILE_PREFIX_BYTES :: nat where "EV_FILE_PREFIX_BYTES = 20"
definition EV_FILE_PAYLOAD_MAX :: nat where "EV_FILE_PAYLOAD_MAX = EV_FILE_CHUNK_BYTES + EV_FILE_PREFIX_BYTES"
definition EV_CONTROL_FRAME_IDLE_TIMEOUT_MS :: u32 where "EV_CONTROL_FRAME_IDLE_TIMEOUT_MS = 3000"
definition EV_CONTROL_FRAME_TOTAL_TIMEOUT_MS :: u32 where "EV_CONTROL_FRAME_TOTAL_TIMEOUT_MS = 10000"
definition EV_CONTROL_PARSER_COUNT :: nat where
  "EV_CONTROL_PARSER_COUNT = transport_value EV_TRANSPORT_TCP + unat EV_TRANSPORT_TCP_LINKS"

lemmas frame_consts = EV_FILE_CHUNK_BYTES_def EV_FILE_PREFIX_BYTES_def EV_FILE_PAYLOAD_MAX_def
  EV_CONTROL_FRAME_IDLE_TIMEOUT_MS_def EV_CONTROL_FRAME_TOTAL_TIMEOUT_MS_def EV_CONTROL_PARSER_COUNT_def

datatype ev_control_parse_state =
    EV_CONTROL_PARSE_SOF | EV_CONTROL_PARSE_HEADER | EV_CONTROL_PARSE_METADATA
  | EV_CONTROL_PARSE_PAYLOAD | EV_CONTROL_PARSE_EOF

record ev_control_parser =
  pa_state :: ev_control_parse_state
  pa_link_bound :: bool
  pa_link :: ev_link_ref
  pa_frame_start_ms :: u32
  pa_last_progress_ms :: u32
  pa_header :: string
  pa_header_len :: nat
  pa_metadata :: string
  pa_metadata_len :: nat
  pa_metadata_pos :: nat
  pa_payload :: "u8 list"
  pa_file_payload :: "u8 list option"
  pa_payload_len :: nat
  pa_payload_pos :: nat
  pa_expected_crc :: u32

definition ev_control_parser_reset :: "ev_control_parser \<Rightarrow> ev_control_parser" where
  "ev_control_parser_reset p =
     \<lparr>pa_state = EV_CONTROL_PARSE_SOF, pa_link_bound = False, pa_link = zero_link, pa_frame_start_ms = 0,
      pa_last_progress_ms = 0, pa_header = replicate EV_CONTROL_HEADER_MAX (CHR 0x00), pa_header_len = 0,
      pa_metadata = replicate (EV_CONTROL_METADATA_MAX + 1) (CHR 0x00), pa_metadata_len = 0, pa_metadata_pos = 0,
      pa_payload = replicate (EV_CONTROL_PAYLOAD_MAX + 1) 0, pa_file_payload = None, pa_payload_len = 0,
      pa_payload_pos = 0, pa_expected_crc = 0\<rparr>"

definition ev_control_parser_reset_keep_link :: "ev_control_parser \<Rightarrow> ev_control_parser" where
  "ev_control_parser_reset_keep_link p =
     (ev_control_parser_reset p)\<lparr>pa_link_bound := pa_link_bound p, pa_link := pa_link p\<rparr>"

definition ev_control_parser_begin :: "ev_link_ref \<Rightarrow> u32 \<Rightarrow> ev_control_parser \<Rightarrow> ev_control_parser" where
  "ev_control_parser_begin link now p =
     (ev_control_parser_reset p)\<lparr>pa_link_bound := True, pa_link := link, pa_state := EV_CONTROL_PARSE_HEADER,
       pa_frame_start_ms := now, pa_last_progress_ms := now\<rparr>"

text \<open>A frame has expired when it made no progress for 3 seconds or has lasted 10.\<close>

definition frame_timed_out :: "u32 \<Rightarrow> ev_control_parser \<Rightarrow> bool" where
  "frame_timed_out now p \<longleftrightarrow>
     pa_state p \<noteq> EV_CONTROL_PARSE_SOF \<and>
     \<not> (now - pa_last_progress_ms p < EV_CONTROL_FRAME_IDLE_TIMEOUT_MS \<and>
        now - pa_frame_start_ms p < EV_CONTROL_FRAME_TOTAL_TIMEOUT_MS)"

definition ev_control_parser_expire ::
  "u32 \<Rightarrow> ev_control_parser \<Rightarrow> 'r control \<Rightarrow> bool \<times> ev_control_parser \<times> 'r control" where
  "ev_control_parser_expire now p c =
     (if \<not> frame_timed_out now p then (False, p, c)
      else (True, ev_control_parser_reset_keep_link p,
            count_stat (\<lambda>s. s\<lparr>st_parser_timeouts := st_parser_timeouts s + 1\<rparr>) c))"

definition ev_control_frame_payload :: "ev_control_parser \<Rightarrow> u8 list" where
  "ev_control_frame_payload p = (case pa_file_payload p of None \<Rightarrow> pa_payload p | Some b \<Rightarrow> b)"

definition set_frame_payload :: "u8 list \<Rightarrow> ev_control_parser \<Rightarrow> ev_control_parser" where
  "set_frame_payload b p =
     (case pa_file_payload p of None \<Rightarrow> p\<lparr>pa_payload := b\<rparr> | Some _ \<Rightarrow> p\<lparr>pa_file_payload := Some b\<rparr>)"

section \<open>The header\<close>

text \<open>
  The conversions of \<open>sscanf\<close> that the format of the header uses: white space in the format skips
  any white space, other characters must match, and \<open>%u\<close> and \<open>%8x\<close> skip white space, take a sign,
  and read digits as \<open>strtoul\<close> does, which saturates. The remaining characters are returned.
\<close>

definition scan_space :: "cstring \<Rightarrow> cstring" where
  "scan_space s = dropWhile isspace s"

definition scan_literal :: "cstring \<Rightarrow> cstring \<Rightarrow> cstring option" where
  "scan_literal lit s = (if take (length lit) s = lit then Some (drop (length lit) s) else None)"

definition saturate :: "nat \<Rightarrow> u32" where
  "saturate v = (if 4294967295 < v then - 1 else of_nat v)"

definition scan_sign :: "cstring \<Rightarrow> bool \<times> cstring" where
  "scan_sign s =
     (case s of [] \<Rightarrow> (False, [])
      | c # cs \<Rightarrow> if c = CHR ''-'' then (True, cs) else if c = CHR ''+'' then (False, cs) else (False, s))"

definition scan_u :: "cstring \<Rightarrow> (u32 \<times> cstring) option" where
  "scan_u s =
     (let (negative, s1) = scan_sign (scan_space s);
          digits = takeWhile digit s1;
          v = saturate (decimal_digits digits 0)
      in if digits = [] then None
         else Some (if negative \<and> \<not> 4294967295 < decimal_digits digits 0 then - v else v, drop (length digits) s1))"

fun hex_number :: "cstring \<Rightarrow> nat \<Rightarrow> nat" where
  "hex_number [] v = v"
| "hex_number (c # cs) v =
     (case hex_value c of None \<Rightarrow> v | Some d \<Rightarrow> hex_number cs (v * 16 + unat d))"

text \<open>At most \<open>width\<close> characters, of which a sign and a prefix \<open>0x\<close> are some.\<close>

definition scan_x :: "nat \<Rightarrow> cstring \<Rightarrow> (u32 \<times> cstring) option" where
  "scan_x width s =
     (let s0 = scan_space s;
          (negative, s1) = scan_sign (take width s0);
          s2 = (if take 2 s1 = ''0x'' \<or> take 2 s1 = ''0X'' then drop 2 s1 else s1);
          digits = takeWhile (\<lambda>c. hex_value c \<noteq> None) s2;
          used = length (take width s0) - length s2 + length digits;
          v = of_nat (hex_number digits 0)
      in if digits = [] then None else Some (if negative then - v else v, drop used s0))"

text \<open>\<open>sscanf(header, "EVMUX/1 h=%u p=%u c=%8x\r\n%n", ...)\<close>; the last component is \<open>consumed\<close>.\<close>

definition scan_header :: "cstring \<Rightarrow> (u32 \<times> u32 \<times> u32 \<times> nat) option" where
  "scan_header s =
     (case scan_literal ''EVMUX/1'' s of None \<Rightarrow> None
      | Some s1 \<Rightarrow>
          case scan_literal ''h='' (scan_space s1) of None \<Rightarrow> None
          | Some s2 \<Rightarrow>
              case scan_u s2 of None \<Rightarrow> None
              | Some (metadata_len, s3) \<Rightarrow>
                  case scan_literal ''p='' (scan_space s3) of None \<Rightarrow> None
                  | Some s4 \<Rightarrow>
                      case scan_u s4 of None \<Rightarrow> None
                      | Some (payload_len, s5) \<Rightarrow>
                          case scan_literal ''c='' (scan_space s5) of None \<Rightarrow> None
                          | Some s6 \<Rightarrow>
                              case scan_x 8 s6 of None \<Rightarrow> None
                              | Some (crc, s7) \<Rightarrow>
                                  Some (metadata_len, payload_len, crc, length s - length (scan_space s7)))"

definition ev_control_parse_header :: "ev_control_parser \<Rightarrow> bool \<times> ev_control_parser" where
  "ev_control_parse_header p =
     (case scan_header (c_string (pa_header p)) of None \<Rightarrow> (False, p)
      | Some (metadata_len, payload_len, crc, consumed) \<Rightarrow>
          if consumed \<noteq> pa_header_len p \<or> metadata_len = 0 \<or> EV_CONTROL_METADATA_MAX < unat metadata_len \<or>
             EV_FILE_PAYLOAD_MAX < unat payload_len
          then (False, p)
          else (True, p\<lparr>pa_metadata_len := unat metadata_len, pa_payload_len := unat payload_len,
                        pa_expected_crc := crc, pa_state := EV_CONTROL_PARSE_METADATA\<rparr>))"

section \<open>Authorisation\<close>

definition ev_control_link_equal :: "ev_link_ref option \<Rightarrow> ev_link_ref option \<Rightarrow> bool" where
  "ev_control_link_equal a b =
     (case (a, b) of
        (Some x, Some y) \<Rightarrow> lr_transport_id x = lr_transport_id y \<and> lr_slot x = lr_slot y \<and>
          lr_generation x = lr_generation y
      | _ \<Rightarrow> False)"

definition ev_control_is_bootstrap_method :: "cstring \<Rightarrow> cstring \<Rightarrow> bool" where
  "ev_control_is_bootstrap_method channel method1 \<longleftrightarrow>
     channel = ''user.rpc'' \<and> (method1 = ''hello'' \<or> method1 = ''capabilities'')"

definition ev_control_rpc_needs_vm :: "ev_control_rpc_domain \<Rightarrow> cstring \<Rightarrow> cstring \<Rightarrow> bool" where
  "ev_control_rpc_needs_vm domain method1 payload =
     (if domain = EV_RPC_USER then method1 = ''script.write'' \<or> method1 = ''script.run''
      else if method1 = ''debug.capture_frame'' \<or> method1 = ''debug.capture_screen'' then True
      else if method1 = ''debug.info''
      then (case snd (ev_control_json_get_string payload ''scope'' 24) of
              None \<Rightarrow> True | Some scope \<Rightarrow> scope \<noteq> ''transport.stats'')
      else False)"

definition is_rpc :: "cstring \<Rightarrow> bool" where
  "is_rpc channel \<longleftrightarrow> channel = ''user.rpc'' \<or> channel = ''debug.rpc''"

definition rpc_domain :: "cstring \<Rightarrow> ev_control_rpc_domain" where
  "rpc_domain channel = (if channel = ''debug.rpc'' then EV_RPC_DEBUG else EV_RPC_USER)"

text \<open>
  \<open>payload\<close> is NUL-terminated. \<open>None\<close> is the result \<open>false\<close>; otherwise the authorisation, the snapshot
  and the state.
\<close>

definition ev_control_frame_authorized ::
  "'r control_env \<Rightarrow> ev_link_ref \<Rightarrow> cstring \<Rightarrow> cstring \<Rightarrow> ev_control_json_metadata \<Rightarrow> cstring \<Rightarrow> nat \<Rightarrow> 'r control
     \<Rightarrow> (ev_session_result \<times> ev_session_snapshot_t \<times> 'r control) option" where
  "ev_control_frame_authorized env link channel method1 md payload payload_len c =
     (if ev_control_is_bootstrap_method channel method1 then Some (EV_SESSION_RESULT_OK, ce_stack env, c)
      else if \<not> is_rpc channel \<and> channel \<noteq> ''repl.stdin'' \<and> channel \<noteq> ''repl.signal'' then None
      else if channel = ''repl.stdin'' \<and> EV_CONTROL_REPL_INPUT_MAX < payload_len
      then Some (EV_SESSION_RESULT_INVALID_ARGUMENT, ce_stack env, c)
      else if channel = ''repl.signal'' \<and> (payload_len \<noteq> 1 \<or> c_at payload 0 \<noteq> CHR 0x03)
      then Some (EV_SESSION_RESULT_INVALID_ARGUMENT, ce_stack env, c)
      else
        let vm_related = (channel = ''repl.stdin'' \<or> channel = ''repl.signal'' \<or>
              is_rpc channel \<and> method1 = ''file.write'' \<or>
              is_rpc channel \<and> ev_control_rpc_needs_vm (rpc_domain channel) method1 payload)
        in Some (authorize env (Some link) (if md_has_session_id md then Some (md_session_id md) else None)
             vm_related (md_has_vm_epoch md) (md_vm_epoch md) c))"

definition ev_control_log_rejected_frame :: "'r control \<Rightarrow> 'r control" where
  "ev_control_log_rejected_frame c =
     count_stat (\<lambda>s. s\<lparr>st_frames_rejected := st_frames_rejected s + 1\<rparr>) c"

section \<open>A complete frame\<close>

text \<open>The metadata of a frame, \<open>None\<close> when they are rejected.\<close>

definition frame_metadata :: "ev_control_parser \<Rightarrow> ev_control_json_metadata option checked" where
  "frame_metadata p =
     (if length (pa_metadata p) < pa_metadata_len p then Inl Out_of_bounds
      else
        case ev_control_json_parse_metadata (Some (take (pa_metadata_len p) (pa_metadata p))) of
          Inr md \<Rightarrow> Inr (Some md)
        | Inl (Verdict v) \<Rightarrow> Inr None
        | Inl e \<Rightarrow> Inl e)"

definition on_response :: "(ev_control_response_context \<Rightarrow> ev_control_response_context) \<Rightarrow> 'r control \<Rightarrow> 'r control" where
  "on_response f c = c\<lparr>co_response := f (co_response c)\<rparr>"

text \<open>An authorised request: the snapshot \<open>snap\<close>, and the payload in its buffer.\<close>

definition dispatch_rpc ::
  "'r control_env \<Rightarrow> ev_link_ref \<Rightarrow> ev_control_json_metadata \<Rightarrow> ev_session_snapshot_t \<Rightarrow> u8 list \<Rightarrow> nat
     \<Rightarrow> 'r control \<Rightarrow> 'r control checked" where
  "dispatch_rpc env link md snap buffer payload_len c =
     (let domain = rpc_domain (md_channel md); method1 = md_method md; seq = md_seq md;
          payload = c_string (chars buffer)
      in if ev_control_rpc_needs_vm domain method1 payload
         then
           sbind (ev_control_vm_queue_push env domain link (sn_session_id snap) (Some method1) seq (sn_vm_epoch snap)
               (sn_input_generation snap) (sn_transition_id snap) buffer payload_len c) (\<lambda>(pushed, c1).
             Inr (if pushed then control_call env Wake_main_task c1
                  else control_call env (Send_error method1 seq ''VM_BUSY'' ''interpreter busy'')
                         (count_stat (\<lambda>s. s\<lparr>st_vm_busy := st_vm_busy s + 1\<rparr>) c1)))
         else if domain = EV_RPC_DEBUG then Inr (control_call env (Handle_debug_rpc seq method1 payload) c)
         else Inr (control_call env (Handle_user_rpc seq method1 payload) c))"

definition dispatch_authorized ::
  "'r control_env \<Rightarrow> ev_link_ref \<Rightarrow> ev_control_json_metadata \<Rightarrow> ev_session_snapshot_t \<Rightarrow> u8 list \<Rightarrow> nat
     \<Rightarrow> 'r control \<Rightarrow> 'r control checked" where
  "dispatch_authorized env link md snap buffer payload_len c =
     (let channel = md_channel md; method1 = md_method md;
          file_write = (channel = ''user.rpc'' \<and> method1 = ''file.write'');
          needs_vm = (is_rpc channel \<and>
            ev_control_rpc_needs_vm (rpc_domain channel) method1 (c_string (chars buffer)));
          c1 = on_response (\<lambda>r. r\<lparr>rc_session_id := sn_session_id snap, rc_vm_epoch := sn_vm_epoch snap,
                 rc_input_generation := sn_input_generation snap, rc_transition_id := sn_transition_id snap,
                 rc_tx_vm_epoch := (if file_write \<or> needs_vm then sn_vm_epoch snap else rc_tx_vm_epoch r)\<rparr>) c
      in if file_write
         then Inr (ev_control_response_context_clear
                (control_call env (File_write (md_seq md) md snap (take payload_len buffer)) c1))
         else if channel = ''repl.stdin''
         then
           let (pushed, c2) = ev_control_repl_rx_push env buffer payload_len (Some link) (Some (sn_session_id snap))
                 (sn_vm_epoch snap) (sn_input_generation snap) (sn_transition_id snap) c1;
               c3 = (if pushed then c2
                     else count_stat (\<lambda>s. s\<lparr>st_repl_rx_dropped := st_repl_rx_dropped s + 1\<rparr>) c2)
           in Inr (ev_control_response_context_clear (control_call env Wake_main_task c3))
         else if channel = ''repl.signal''
         then Inr (ev_control_response_context_clear
                (ev_control_deliver_ctrl_c env (Some link) (Some (sn_session_id snap)) (sn_vm_epoch snap)
                   (sn_input_generation snap) (sn_transition_id snap) c1))
         else
           sbind (if is_rpc channel then dispatch_rpc env link md snap buffer payload_len c1 else Inr c1)
             (\<lambda>c2. Inr (ev_control_response_context_clear c2)))"

text \<open>A request that is not authorised: the owner is told why with its own session.\<close>

definition answer_unauthorized ::
  "'r control_env \<Rightarrow> ev_link_ref \<Rightarrow> ev_control_json_metadata \<Rightarrow> ev_session_result \<Rightarrow> ev_session_snapshot_t
     \<Rightarrow> 'r control \<Rightarrow> 'r control" where
  "answer_unauthorized env link md result snap c =
     (let c1 =
        (if (result = EV_SESSION_RESULT_VM_EPOCH_MISMATCH \<or> result = EV_SESSION_RESULT_VM_BUSY) \<and>
            sn_has_owner snap \<and> ev_control_link_equal (Some link) (Some (sn_owner_link snap)) \<and>
            md_has_session_id md \<and> md_session_id md = sn_session_id snap
         then on_response (\<lambda>r. r\<lparr>rc_session_id := sn_session_id snap, rc_vm_epoch := sn_vm_epoch snap\<rparr>) c
         else c)
      in ev_control_response_context_clear
          (if is_rpc (md_channel md)
           then control_call env (Send_error (md_method md) (md_seq md) (ev_session_result_code result)
                  (if result = EV_SESSION_RESULT_VM_BUSY then ''interpreter is restarting''
                   else ''request is not authorized'')) c1
           else ev_control_log_rejected_frame c1))"

definition no_session :: "'r control \<Rightarrow> 'r control" where
  "no_session c = on_response (\<lambda>r. r\<lparr>rc_session_id := [], rc_vm_epoch := 0\<rparr>) c"

definition answer_subscription ::
  "'r control_env \<Rightarrow> ev_link_ref \<Rightarrow> ev_control_json_metadata \<Rightarrow> 'r control \<Rightarrow> 'r control" where
  "answer_subscription env link md c =
     (let enable = (md_method md = ''preview.subscribe'');
          (result, c1) = ce_preview_subscribe env link enable (no_session c)
      in ev_control_response_context_clear
          (if result = ESP_OK
           then control_call env (Send_response (md_method md) (md_seq md)
                  (if enable
                     then ''{\"ok\":true,\"subscribed\":true,\"channel\":\"preview.frame\",\"maxObservers\":2}''
                     else ''{\"ok\":true,\"subscribed\":false}'')) c1
           else control_call env (Send_error (md_method md) (md_seq md)
                  (if result = ESP_ERR_NO_MEM then ''OBSERVER_LIMIT'' else ''INVALID_STATE'')
                  ''preview subscription requires a non-owner TCP link and a free observer slot'') c1))"

definition request_context :: "ev_link_ref \<Rightarrow> ev_control_json_metadata \<Rightarrow> 'r control \<Rightarrow> 'r control" where
  "request_context link md c =
     on_response (\<lambda>r. r\<lparr>rc_link := link, rc_has_link := True, rc_rpc_domain := rpc_domain (md_channel md),
       rc_tx_vm_epoch := 0, rc_input_generation := 0, rc_transition_id := 0\<rparr>) c"

text \<open>What \<open>ev_control_handle_frame\<close> refuses before it looks at the session.\<close>

definition malformed :: "ev_control_json_metadata \<Rightarrow> u8 list \<Rightarrow> nat \<Rightarrow> bool" where
  "malformed md buffer payload_len \<longleftrightarrow>
     (let file_write = (md_channel md = ''user.rpc'' \<and> md_method md = ''file.write'');
          binary_file = (file_write \<and> md_encoding md = ''binary'')
      in md_type md \<noteq> ''req'' \<or> md_encoding md = ''binary'' \<and> \<not> binary_file \<or>
         is_rpc (md_channel md) \<and> \<not> binary_file \<and>
           \<not> ev_control_json_rpc_payload_valid (Some buffer) payload_len)"

definition handle_request ::
  "'r control_env \<Rightarrow> ev_link_ref \<Rightarrow> ev_control_json_metadata \<Rightarrow> u8 list \<Rightarrow> nat \<Rightarrow> 'r control \<Rightarrow> 'r control checked" where
  "handle_request env link md buffer payload_len c0 =
     (let channel = md_channel md; method1 = md_method md; seq = md_seq md; c = request_context link md c0
      in if channel = ''user.rpc'' \<and> (method1 = ''preview.subscribe'' \<or> method1 = ''preview.unsubscribe'')
         then Inr (answer_subscription env link md c)
         else if ce_preview_subscribed env link c \<and> method1 = ''hello''
         then Inr (ev_control_response_context_clear
                (control_call env (Send_error method1 seq ''READ_ONLY'' ''reconnect to acquire a control session'') c))
         else if ev_control_is_bootstrap_method channel method1
         then Inr (ev_control_response_context_clear
                (control_call env (if method1 = ''hello'' then Hello_acquire seq (chars (take payload_len buffer))
                                   else Send_capabilities seq) (no_session c)))
         else
           case ev_control_frame_authorized env link channel method1 md (c_string (chars buffer)) payload_len c of
             None \<Rightarrow> Inr (ev_control_response_context_clear (ev_control_log_rejected_frame c))
           | Some (result, snap, c1) \<Rightarrow>
               if result \<noteq> EV_SESSION_RESULT_OK then Inr (answer_unauthorized env link md result snap c1)
               else dispatch_authorized env link md snap buffer payload_len c1)"

definition ev_control_handle_frame ::
  "'r control_env \<Rightarrow> ev_link_ref \<Rightarrow> ev_control_parser \<Rightarrow> 'r control \<Rightarrow> (ev_control_parser \<times> 'r control) checked" where
  "ev_control_handle_frame env link p c =
     sbind (wr (ev_control_frame_payload p) (pa_payload_len p) 0) (\<lambda>buffer.
     sbind (frame_metadata p) (\<lambda>metadata.
     sbind
       (case metadata of None \<Rightarrow> Inr (ev_control_log_rejected_frame c)
        | Some md \<Rightarrow>
            if malformed md buffer (pa_payload_len p) then Inr (ev_control_log_rejected_frame c)
            else handle_request env link md buffer (pa_payload_len p) c)
       (\<lambda>c1. Inr (set_frame_payload buffer p, c1))))"

section \<open>Feeding a byte\<close>

definition count_bad :: "'r control \<Rightarrow> 'r control" where
  "count_bad c = count_stat (\<lambda>s. s\<lparr>st_frames_bad := st_frames_bad s + 1\<rparr>) c"

definition bad_frame :: "ev_control_parser \<Rightarrow> 'r control \<Rightarrow> ev_control_parser \<times> 'r control" where
  "bad_frame p c = (ev_control_parser_reset_keep_link p, count_bad c)"

definition reject_frame :: "ev_control_parser \<Rightarrow> 'r control \<Rightarrow> ev_control_parser \<times> 'r control" where
  "reject_frame p c = (ev_control_parser_reset_keep_link p, ev_control_log_rejected_frame c)"

definition feed_header ::
  "u8 \<Rightarrow> ev_link_ref \<Rightarrow> u32 \<Rightarrow> ev_control_parser \<Rightarrow> 'r control \<Rightarrow> (ev_control_parser \<times> 'r control) checked" where
  "feed_header byte1 link now p c =
     (if byte1 = 0x1e \<and> pa_header_len p = 0 then Inr (ev_control_parser_begin link now p, c)
      else if length (pa_header p) \<le> pa_header_len p + 1 then Inr (bad_frame p c)
      else
        sbind (wr (pa_header p) (pa_header_len p) (char_of (unat byte1))) (\<lambda>h.
        sbind (wr h (pa_header_len p + 1) (CHR 0x00)) (\<lambda>h.
          let p1 = p\<lparr>pa_header := h, pa_header_len := pa_header_len p + 1, pa_last_progress_ms := now\<rparr>;
              (ok, p2) = (if byte1 = 0x0a then ev_control_parse_header p1 else (True, p1))
          in Inr (if ok then (p2, c) else bad_frame p2 c))))"

definition metadata_done :: "ev_control_parser \<Rightarrow> ev_control_parser" where
  "metadata_done p =
     p\<lparr>pa_state := (if pa_payload_len p = 0 then EV_CONTROL_PARSE_EOF else EV_CONTROL_PARSE_PAYLOAD)\<rparr>"

text \<open>A payload beyond the buffer of the parser is only taken for an upload that is authorised.\<close>

definition large_payload ::
  "'r control_env \<Rightarrow> ev_link_ref \<Rightarrow> ev_control_parser \<Rightarrow> 'r control \<Rightarrow> (ev_control_parser \<times> 'r control) checked" where
  "large_payload env link p c =
     sbind (frame_metadata p) (\<lambda>metadata.
       case metadata of None \<Rightarrow> Inr (reject_frame p c)
       | Some md \<Rightarrow>
           if md_channel md \<noteq> ''user.rpc'' \<or> md_method md \<noteq> ''file.write'' \<or> md_type md \<noteq> ''req'' \<or>
              md_encoding md \<noteq> ''binary''
           then Inr (reject_frame p c)
           else
             case ev_control_frame_authorized env link (md_channel md) (md_method md) md [] (pa_payload_len p) c of
               None \<Rightarrow> Inr (reject_frame p c)
             | Some (result, snap, c1) \<Rightarrow>
                 if result \<noteq> EV_SESSION_RESULT_OK then Inr (reject_frame p c1)
                 else
                   case ce_malloc env (pa_payload_len p + 1) c1 of
                     None \<Rightarrow> Inr (reject_frame p c1)
                   | Some contents \<Rightarrow>
                       Inr (metadata_done (p\<lparr>pa_file_payload := Some (map contents [0..<pa_payload_len p + 1])\<rparr>), c1))"

definition feed_metadata ::
  "'r control_env \<Rightarrow> u8 \<Rightarrow> ev_link_ref \<Rightarrow> u32 \<Rightarrow> ev_control_parser \<Rightarrow> 'r control
     \<Rightarrow> (ev_control_parser \<times> 'r control) checked" where
  "feed_metadata env byte1 link now p c =
     (if byte1 = 0 then Inr (bad_frame p c)
      else
        sbind (wr (pa_metadata p) (pa_metadata_pos p) (char_of (unat byte1))) (\<lambda>m.
          let p1 = p\<lparr>pa_metadata := m, pa_metadata_pos := pa_metadata_pos p + 1, pa_last_progress_ms := now\<rparr>
          in if pa_metadata_pos p1 < pa_metadata_len p1 then Inr (p1, c)
             else
               sbind (wr m (pa_metadata_len p1) (CHR 0x00)) (\<lambda>m1.
                 let p2 = p1\<lparr>pa_metadata := m1\<rparr>
                 in if EV_CONTROL_PAYLOAD_MAX < pa_payload_len p2 then large_payload env link p2 c
                    else Inr (metadata_done p2, c))))"

definition feed_payload :: "u8 \<Rightarrow> u32 \<Rightarrow> ev_control_parser \<Rightarrow> ev_control_parser checked" where
  "feed_payload byte1 now p =
     sbind (wr (ev_control_frame_payload p) (pa_payload_pos p) byte1) (\<lambda>b.
       let p1 = (set_frame_payload b p)\<lparr>pa_payload_pos := pa_payload_pos p + 1, pa_last_progress_ms := now\<rparr>
       in Inr (if pa_payload_len p1 \<le> pa_payload_pos p1 then p1\<lparr>pa_state := EV_CONTROL_PARSE_EOF\<rparr> else p1))"

text \<open>The checksum is compared unless the header gave zero.\<close>

definition frame_intact :: "ev_control_parser \<Rightarrow> bool checked" where
  "frame_intact p =
     (if pa_expected_crc p = 0 then Inr True
      else if length (ev_control_frame_payload p) < pa_payload_len p then Inl Out_of_bounds
      else Inr (ev_mux_crc32 (take (pa_payload_len p) (ev_control_frame_payload p)) = pa_expected_crc p))"

definition feed_eof ::
  "'r control_env \<Rightarrow> u8 \<Rightarrow> ev_link_ref \<Rightarrow> u32 \<Rightarrow> ev_control_parser \<Rightarrow> 'r control
     \<Rightarrow> (ev_control_parser \<times> 'r control) checked" where
  "feed_eof env byte1 link now p c =
     sbind (if byte1 = 0x1f then frame_intact p else Inr False) (\<lambda>intact.
       if intact
       then
         let c1 = count_stat (\<lambda>s. s\<lparr>st_frames_ok := st_frames_ok s + 1\<rparr>) c
         in sbind
              (if ev_transport_link_is_current (w_transport (co_world c1)) (Some link)
               then ev_control_handle_frame env link p c1
               else Inr (p, count_stat (\<lambda>s. s\<lparr>st_stale_generation_drops := st_stale_generation_drops s + 1\<rparr>) c1))
              (\<lambda>(p1, c2). Inr (ev_control_parser_reset_keep_link p1, c2))
       else if byte1 = 0x1e then Inr (ev_control_parser_begin link now p, count_bad c)
       else Inr (bad_frame p c))"

definition ev_control_parser_feed_byte ::
  "'r control_env \<Rightarrow> ev_link_ref \<Rightarrow> u32 \<Rightarrow> u8 \<Rightarrow> ev_control_parser \<times> 'r control
     \<Rightarrow> (ev_control_parser \<times> 'r control) checked" where
  "ev_control_parser_feed_byte env link now byte1 pc =
     (case pc of (p0, c0) \<Rightarrow>
       case ev_control_parser_expire now p0 c0 of (expired, p, c) \<Rightarrow>
         if expired then Inr (if byte1 = 0x1e then ev_control_parser_begin link now p else p, c)
         else
           case pa_state p of
             EV_CONTROL_PARSE_SOF \<Rightarrow> Inr (if byte1 = 0x1e then ev_control_parser_begin link now p else p, c)
           | EV_CONTROL_PARSE_HEADER \<Rightarrow> feed_header byte1 link now p c
           | EV_CONTROL_PARSE_METADATA \<Rightarrow> feed_metadata env byte1 link now p c
           | EV_CONTROL_PARSE_PAYLOAD \<Rightarrow> sbind (feed_payload byte1 now p) (\<lambda>p1. Inr (p1, c))
           | EV_CONTROL_PARSE_EOF \<Rightarrow> feed_eof env byte1 link now p c)"

fun feed_bytes ::
  "'r control_env \<Rightarrow> ev_link_ref \<Rightarrow> u32 \<Rightarrow> u8 list \<Rightarrow> ev_control_parser \<times> 'r control
     \<Rightarrow> (ev_control_parser \<times> 'r control) checked" where
  "feed_bytes env link now [] pc = Inr pc"
| "feed_bytes env link now (b # bs) pc =
     sbind (ev_control_parser_feed_byte env link now b pc) (feed_bytes env link now bs)"

section \<open>Received bytes\<close>

definition parser_index :: "ev_link_ref \<Rightarrow> nat" where
  "parser_index link =
     (if lr_transport_id link = EV_TRANSPORT_TCP then transport_value EV_TRANSPORT_TCP + unat (lr_slot link)
      else transport_value (lr_transport_id link))"

definition bind_parser :: "ev_link_ref \<Rightarrow> ev_control_parser \<Rightarrow> ev_control_parser" where
  "bind_parser link p =
     (if \<not> pa_link_bound p \<or> \<not> ev_control_link_equal (Some (pa_link p)) (Some link)
      then (ev_control_parser_reset p)\<lparr>pa_link_bound := True, pa_link := link\<rparr>
      else p)"

definition count_received :: "ev_link_ref \<Rightarrow> nat \<Rightarrow> 'r control \<Rightarrow> 'r control" where
  "count_received link n c =
     count_stat (\<lambda>s. let i = transport_value (lr_transport_id link)
       in s\<lparr>st_rx_bytes := (st_rx_bytes s)[i := st_rx_bytes s ! i + of_nat n]\<rparr>) c"

definition ev_control_transport_rx ::
  "'r control_env \<Rightarrow> ev_link_ref option \<Rightarrow> u8 list option \<Rightarrow> nat \<Rightarrow> ev_control_parser list \<Rightarrow> 'r control
     \<Rightarrow> (esp_err \<times> ev_control_parser list \<times> 'r control) checked" where
  "ev_control_transport_rx env link_opt bytes n parsers c =
     (case link_opt of None \<Rightarrow> Inr (ESP_ERR_INVALID_ARG, parsers, c)
      | Some link \<Rightarrow>
        if EV_TRANSPORT_MAX \<le> lr_transport_id link \<or> EV_TRANSPORT_TCP_LINKS \<le> lr_slot link \<or>
           (n \<noteq> 0 \<and> bytes = None) \<or> 1024 < n
        then Inr (ESP_ERR_INVALID_ARG, parsers, c)
        else if \<not> ev_transport_link_is_current (w_transport (co_world c)) (Some link)
        then Inr (ESP_ERR_INVALID_STATE, parsers,
               count_stat (\<lambda>s. s\<lparr>st_stale_generation_drops := st_stale_generation_drops s + 1\<rparr>) c)
        else
          sbind (rd parsers (parser_index link)) (\<lambda>p0.
            let now = ce_now env c;
                (_, p, c1) = ev_control_parser_expire now (bind_parser link p0) c
            in if n = 0 then Inr (ESP_OK, parsers[parser_index link := p], c1)
               else
                 sbind (feed_bytes env link now (take n (the bytes)) (p, count_received link n c1)) (\<lambda>(p1, c2).
                   Inr (ESP_OK, parsers[parser_index link := p1], c2))))"

end
