(* ===== verification/FileTransfer.thy ===== *)
theory FileTransfer
  imports ControlFrame StorageWriter
begin

text \<open>
  The upload of a file in chunks, \<open>platform/ev_file_transfer.c\<close>. The record \<open>file_transfer\<close> is the
  static variable \<open>s_file\<close>; \<open>file_world\<close> adds the session, the storage writer, whose gate an upload
  holds from its beginning to its end, and the state of the file system. The calls of the file
  system and of the hash functions are parameters. Every operation runs under \<open>s_lock\<close>; the
  session may change at any time, and does so where the code looks at it again (\<open>fe_others\<close>).
\<close>

section \<open>The calls of other code\<close>

datatype errno = ENOENT | EEXIST | EINTR | Other_errno

text \<open>
  The file system on a state \<open>'f\<close> and the hash on an operation \<open>'h\<close>. A count or status below zero is a
  failure; \<open>fo_stat\<close> also says whether the file is regular.
\<close>

record ('f, 'h) file_ops =
  fo_stat :: "cstring \<Rightarrow> 'f \<Rightarrow> int \<times> bool \<times> errno \<times> 'f"
  fo_open :: "cstring \<Rightarrow> 'f \<Rightarrow> int \<times> 'f"
  fo_write :: "int \<Rightarrow> u8 list \<Rightarrow> 'f \<Rightarrow> int \<times> errno \<times> 'f"
  fo_fsync :: "int \<Rightarrow> 'f \<Rightarrow> int \<times> 'f"
  fo_close :: "int \<Rightarrow> 'f \<Rightarrow> int \<times> 'f"
  fo_rename :: "cstring \<Rightarrow> cstring \<Rightarrow> 'f \<Rightarrow> int \<times> errno \<times> 'f"
  fo_unlink :: "cstring \<Rightarrow> 'f \<Rightarrow> 'f"
  ho_init :: "'h"
  ho_setup :: "'h \<Rightarrow> bool \<times> 'h"
  ho_update :: "u8 list \<Rightarrow> 'h \<Rightarrow> bool \<times> 'h"
  ho_finish :: "'h \<Rightarrow> bool \<times> u8 list"

section \<open>State\<close>

definition FILE_PATH_CAP :: nat where "FILE_PATH_CAP = 256"
definition FILE_IDLE_MS :: u32 where "FILE_IDLE_MS = 30000"

record 'h file_transfer =
  tr_active :: bool
  tr_poisoned :: bool
  tr_overwrite :: bool
  tr_fd :: int
  tr_volume :: esp_vision_storage_volume
  tr_owner :: ev_session_snapshot_t
  tr_id :: "u8 list"
  tr_expected_hash :: "u8 list"
  tr_total :: u32
  tr_received :: u32
  tr_last_ms :: u32
  tr_target :: cstring
  tr_temporary :: cstring
  tr_hash :: 'h

record ('f, 'h) file_world =
  fw_lock :: bool
  fw_file :: "'h file_transfer"
  fw_session :: session
  fw_msc :: msc
  fw_files :: 'f

record ('f, 'h) file_env = "('f, 'h) file_ops" +
  fe_now :: "('f, 'h) file_world \<Rightarrow> u32"
  fe_msc :: msc_env
  fe_flash_mounted :: "('f, 'h) file_world \<Rightarrow> bool"
  fe_sdcard_mounted :: "('f, 'h) file_world \<Rightarrow> bool"
  fe_sdcard_path :: cstring
  fe_others :: "('f, 'h) file_world \<Rightarrow> ('f, 'h) file_world"

definition ESP_VISION_STORAGE_FLASH_PATH :: cstring where "ESP_VISION_STORAGE_FLASH_PATH = ''/flash''"
definition ESP_VISION_STORAGE_FLASH_ALIAS :: cstring where "ESP_VISION_STORAGE_FLASH_ALIAS = ''/flash''"

text \<open>\<open>memset\<close> with zeros, and no descriptor.\<close>

definition zero_file :: "('f, 'h, 'x) file_ops_scheme \<Rightarrow> 'h file_transfer" where
  "zero_file ops =
     \<lparr>tr_active = False, tr_poisoned = False, tr_overwrite = False, tr_fd = - 1,
      tr_volume = ESP_VISION_STORAGE_VOLUME_FLASH, tr_owner = zero_snapshot, tr_id = replicate 16 0,
      tr_expected_hash = replicate 32 0, tr_total = 0, tr_received = 0, tr_last_ms = 0, tr_target = [],
      tr_temporary = [], tr_hash = ho_init ops\<rparr>"

definition volume_number :: "esp_vision_storage_volume \<Rightarrow> nat" where
  "volume_number v = (case v of ESP_VISION_STORAGE_VOLUME_FLASH \<Rightarrow> 0 | ESP_VISION_STORAGE_VOLUME_SD \<Rightarrow> 1)"

definition on_file :: "('h file_transfer \<Rightarrow> 'h file_transfer) \<Rightarrow> ('f, 'h) file_world \<Rightarrow> ('f, 'h) file_world" where
  "on_file g w = w\<lparr>fw_file := g (fw_file w)\<rparr>"

section \<open>The owner of an upload\<close>

definition same_owner :: "ev_session_snapshot_t \<Rightarrow> ev_session_snapshot_t \<Rightarrow> bool" where
  "same_owner a b \<longleftrightarrow>
     sn_has_owner a \<and> sn_has_owner b \<and> sn_vm_ready b \<and> sn_handshake_complete b \<and>
     lr_transport_id (sn_owner_link a) = lr_transport_id (sn_owner_link b) \<and>
     lr_slot (sn_owner_link a) = lr_slot (sn_owner_link b) \<and>
     lr_generation (sn_owner_link a) = lr_generation (sn_owner_link b) \<and>
     sn_vm_epoch a = sn_vm_epoch b \<and> sn_input_generation a = sn_input_generation b \<and>
     sn_transition_id a = sn_transition_id b \<and> sn_session_id a = sn_session_id b"

definition current_owner :: "('f, 'h) file_env \<Rightarrow> ev_session_snapshot_t \<Rightarrow> ('f, 'h) file_world \<Rightarrow> bool" where
  "current_owner env owner w =
     (case ev_session_snapshot (fw_session w) (fe_now env w) (Some zero_snapshot) of
        (True, Some current) \<Rightarrow> same_owner owner current
      | _ \<Rightarrow> False)"

section \<open>Hexadecimal digits\<close>

definition unhex_digit :: "char \<Rightarrow> u8 option" where
  "unhex_digit c =
     (if CHR ''0'' \<le> c \<and> c \<le> CHR ''9'' then Some (of_char c - 48)
      else if CHR ''a'' \<le> c \<and> c \<le> CHR ''f'' then Some (of_char c - 97 + 10) else None)"

fun unhex_loop :: "cstring \<Rightarrow> u8 list option" where
  "unhex_loop (a # b # s) =
     (case (unhex_digit a, unhex_digit b) of
        (Some x, Some y) \<Rightarrow> map_option (\<lambda>bs. (x * 16 + y) # bs) (unhex_loop s)
      | _ \<Rightarrow> None)"
| "unhex_loop _ = Some []"

text \<open>\<open>None\<close> is the result \<open>false\<close>.\<close>

definition unhex :: "cstring option \<Rightarrow> nat \<Rightarrow> u8 list option" where
  "unhex s n = (case s of None \<Rightarrow> None | Some t \<Rightarrow> if length t \<noteq> n * 2 then None else unhex_loop t)"

section \<open>Giving up\<close>

definition close_file :: "('f, 'h) file_env \<Rightarrow> ('f, 'h) file_world \<Rightarrow> bool \<times> ('f, 'h) file_world" where
  "close_file env w =
     (let (result, f) = fo_close env (tr_fd (fw_file w)) (fw_files w)
      in (result = 0, (on_file (\<lambda>t. t\<lparr>tr_fd := - 1\<rparr>) w)\<lparr>fw_files := f\<rparr>))"

definition poison :: "('f, 'h) file_world \<Rightarrow> ('f, 'h) file_world" where
  "poison w = on_file (\<lambda>t. t\<lparr>tr_poisoned := True\<rparr>) w"

definition discard :: "('f, 'h) file_env \<Rightarrow> ('f, 'h) file_world \<Rightarrow> cstring option \<times> ('f, 'h) file_world" where
  "discard env w =
     (if tr_poisoned (fw_file w) then (Some ''FILE_CLOSE_FAILED'', w)
      else
        let (closed, w1) = (if 0 \<le> tr_fd (fw_file w) then close_file env w else (True, w))
        in if \<not> closed then (Some ''FILE_CLOSE_FAILED'', poison w1)
           else
             let t = fw_file w1;
                 f = (if tr_temporary t \<noteq> [] then fo_unlink env (tr_temporary t) (fw_files w1) else fw_files w1);
                 (finished, m) = (if \<not> tr_active t then (True, fw_msc w1)
                                  else esp_vision_msc_writer_vfs_finish (fe_msc env) (fw_msc w1) (volume_number (tr_volume t)))
             in (if finished then None else Some ''STORAGE_QUARANTINED'',
                 w1\<lparr>fw_files := f, fw_msc := m, fw_file := zero_file env\<rparr>))"

definition ev_file_transfer_init :: "bool \<Rightarrow> bool \<Rightarrow> ('f, 'h) file_world \<Rightarrow> bool \<times> ('f, 'h) file_world" where
  "ev_file_transfer_init created psa_ok w =
     (let lock = (fw_lock w \<or> created) in (lock \<and> psa_ok, w\<lparr>fw_lock := lock\<rparr>))"

section \<open>Beginning an upload\<close>

definition path_safe :: "cstring option \<Rightarrow> bool" where
  "path_safe path =
     (case path of None \<Rightarrow> False
      | Some s \<Rightarrow> \<forall>c \<in> set s. \<not> (of_char c < (0x20 :: nat) \<or> c = CHR 0x7F \<or> c = CHR 0x5C \<or> c = CHR 0x22))"

definition has_prefix :: "cstring \<Rightarrow> cstring \<Rightarrow> bool" where
  "has_prefix prefix s \<longleftrightarrow> take (length prefix) s = prefix \<and> c_at s (length prefix) = CHR ''/''"

definition path_refused :: "cstring \<Rightarrow> cstring option \<Rightarrow> bool" where
  "path_refused sdcard path =
     (case path of None \<Rightarrow> True
      | Some s \<Rightarrow> \<not> path_safe path \<or> c_at s 0 \<noteq> CHR ''/'' \<or> 123 < length s \<or> c_at s 1 = CHR 0x00 \<or>
          c_at s (length s - 1) = CHR ''/'' \<or> strstr s ''..'' \<noteq> None \<or> strstr s ''//'' \<noteq> None \<or>
          s = sdcard \<or> s = ESP_VISION_STORAGE_FLASH_ALIAS)"

text \<open>The volume and the absolute path of the target.\<close>

definition target_of :: "cstring \<Rightarrow> cstring \<Rightarrow> esp_vision_storage_volume \<times> cstring" where
  "target_of sdcard path =
     (if has_prefix sdcard path then (ESP_VISION_STORAGE_VOLUME_SD, path)
      else
        (ESP_VISION_STORAGE_VOLUME_FLASH,
         ESP_VISION_STORAGE_FLASH_PATH @
           (if has_prefix ESP_VISION_STORAGE_FLASH_ALIAS path
            then drop (length ESP_VISION_STORAGE_FLASH_ALIAS) path else path)))"

text \<open>The staging file is created; it must not exist.\<close>

definition open_staging ::
  "('f, 'h) file_env \<Rightarrow> cstring \<Rightarrow> u8 list \<Rightarrow> ('f, 'h) file_world \<Rightarrow> cstring option \<times> ('f, 'h) file_world" where
  "open_staging env upload_id token w =
     (let temporary = tr_target (fw_file w) @ ''.evupload-'' @ upload_id @ ''.tmp'';
          w1 = on_file (\<lambda>t. t\<lparr>tr_id := token, tr_temporary := take (FILE_PATH_CAP - 1) temporary\<rparr>) w
      in if FILE_PATH_CAP \<le> length temporary then (Some ''INVALID_PATH'', w1)
         else
           let (fd, f) = fo_open env temporary (fw_files w1);
               w2 = (on_file (\<lambda>t. t\<lparr>tr_fd := fd\<rparr>) w1)\<lparr>fw_files := f\<rparr>
           in if fd < 0 then (Some ''FILE_OPEN_FAILED'', on_file (\<lambda>t. t\<lparr>tr_temporary := []\<rparr>) w2)
              else
                let (ok, h) = ho_setup env (tr_hash (fw_file w2))
                in (if ok then None else Some ''HASH_FAILED'', on_file (\<lambda>t. t\<lparr>tr_hash := h\<rparr>) w2))"

definition begin_admitted ::
  "('f, 'h) file_env \<Rightarrow> ev_session_snapshot_t \<Rightarrow> bool \<Rightarrow> u32 \<Rightarrow> u8 list \<Rightarrow> cstring \<Rightarrow> u8 list
     \<Rightarrow> ('f, 'h) file_world \<Rightarrow> cstring option \<times> ('f, 'h) file_world" where
  "begin_admitted env owner overwrite total1 digest upload_id token w =
     (let w1 = on_file (\<lambda>t. t\<lparr>tr_active := True, tr_owner := owner, tr_overwrite := overwrite, tr_total := total1,
                 tr_last_ms := fe_now env w, tr_expected_hash := digest\<rparr>) w;
          (status, regular, e, f) = fo_stat env (tr_target (fw_file w1)) (fw_files w1);
          w2 = w1\<lparr>fw_files := f\<rparr>;
          (err, w3) = (if status = 0 \<and> (\<not> overwrite \<or> \<not> regular) then (Some ''FILE_EXISTS'', w2)
                       else if status \<noteq> 0 \<and> e \<noteq> ENOENT then (Some ''FILE_STAT_FAILED'', w2)
                       else open_staging env upload_id token w2)
      in (err, if err \<noteq> None then snd (discard env w3) else w3))"

definition ev_file_transfer_begin ::
  "('f, 'h) file_env \<Rightarrow> ev_session_snapshot_t \<Rightarrow> cstring option \<Rightarrow> bool \<Rightarrow> u32 \<Rightarrow> cstring option \<Rightarrow> cstring option
     \<Rightarrow> ('f, 'h) file_world \<Rightarrow> cstring option \<times> ('f, 'h) file_world" where
  "ev_file_transfer_begin env owner path overwrite total1 sha256 upload_id w =
     (if \<not> fw_lock w then (Some ''TRANSFER_UNAVAILABLE'', w)
      else if \<not> current_owner env owner w then (Some ''SESSION_LOST'', w)
      else if tr_active (fw_file w) then (Some ''TRANSFER_BUSY'', w)
      else
        case (path_refused (fe_sdcard_path env) path, unhex sha256 32, unhex upload_id 16) of
          (False, Some digest, Some token) \<Rightarrow>
            let (volume, target) = target_of (fe_sdcard_path env) (the path);
                w1 = w\<lparr>fw_file := (zero_file env)\<lparr>tr_volume := volume, tr_target := take (FILE_PATH_CAP - 1) target\<rparr>\<rparr>
            in if FILE_PATH_CAP \<le> length target then (Some ''INVALID_PATH'', w1)
               else if \<not> (if volume = ESP_VISION_STORAGE_VOLUME_FLASH then fe_flash_mounted env w1 else fe_sdcard_mounted env w1)
               then (Some ''STORAGE_UNAVAILABLE'', w1)
               else
                 let (admitted, m) = esp_vision_msc_writer_vfs_begin (fe_msc env) (fw_msc w1) (volume_number volume) True;
                     w2 = w1\<lparr>fw_msc := m\<rparr>
                 in if \<not> admitted then (Some ''STORAGE_READ_ONLY'', w2)
                    else begin_admitted env owner overwrite total1 digest (the upload_id) token w2
        | _ \<Rightarrow> (Some ''INVALID_ARGUMENT'', w))"

section \<open>A chunk\<close>

text \<open>The loop over \<open>write\<close>; it does not end while every call is interrupted.\<close>

partial_function (option) write_all ::
  "('f, 'h) file_env \<Rightarrow> int \<Rightarrow> u8 list \<Rightarrow> 'f \<Rightarrow> (bool \<times> 'f) option" where
  "write_all env fd bytes f =
     (if bytes = [] then Some (True, f)
      else
        let (count, e, f1) = fo_write env fd bytes f
        in if count < 0 \<and> e = EINTR then write_all env fd bytes f1
           else if count \<le> 0 then Some (False, f1)
           else write_all env fd (drop (nat count) bytes) f1)"

definition little_endian :: "u8 list \<Rightarrow> u32" where
  "little_endian bytes =
     foldl (\<lambda>v i. v OR push_bit (8 * i) (ucast (bytes ! i))) 0 [0..<4]"

definition chunk_offset :: "u8 list \<Rightarrow> u32" where
  "chunk_offset payload =
     (if EV_FILE_PREFIX_BYTES \<le> length payload then little_endian (drop 16 payload) else 0)"

definition chunk_fits :: "'h file_transfer \<Rightarrow> u32 \<Rightarrow> nat \<Rightarrow> bool" where
  "chunk_fits t offset n \<longleftrightarrow>
     offset = tr_received t \<and> n \<le> unat (tr_total t - tr_received t) \<and>
     (n mod 4096 = 0 \<or> n = unat (tr_total t - tr_received t))"

definition store_chunk ::
  "('f, 'h) file_env \<Rightarrow> ev_session_snapshot_t \<Rightarrow> u8 list \<Rightarrow> ('f, 'h) file_world
     \<Rightarrow> (cstring option \<times> ('f, 'h) file_world) option" where
  "store_chunk env owner bytes w =
     (case write_all env (tr_fd (fw_file w)) bytes (fw_files w) of None \<Rightarrow> None
      | Some (written, f) \<Rightarrow>
          let w1 = w\<lparr>fw_files := f\<rparr>;
              (err1, w2) = (if \<not> written then (Some ''FILE_WRITE_FAILED'', w1)
                else let (ok, h) = ho_update env bytes (tr_hash (fw_file w1))
                     in (if ok then None else Some ''HASH_FAILED'', on_file (\<lambda>t. t\<lparr>tr_hash := h\<rparr>) w1));
              w3 = fe_others env w2;
              err = (if err1 = None \<and> \<not> current_owner env owner w3 then Some ''SESSION_LOST'' else err1)
          in Some (err,
               if err = None
               then on_file (\<lambda>t. t\<lparr>tr_received := tr_received t + of_nat (length bytes), tr_last_ms := fe_now env w3\<rparr>) w3
               else snd (discard env w3)))"

text \<open>The error, \<open>*received\<close> if it is written, and the state; \<open>None\<close> if the operation does not return.\<close>

definition ev_file_transfer_write ::
  "('f, 'h) file_env \<Rightarrow> ev_session_snapshot_t \<Rightarrow> u8 list \<Rightarrow> ('f, 'h) file_world
     \<Rightarrow> (cstring option \<times> u32 option \<times> ('f, 'h) file_world) option" where
  "ev_file_transfer_write env owner payload w =
     (let t = fw_file w; n = length payload
      in if \<not> fw_lock w then Some (Some ''TRANSFER_UNAVAILABLE'', None, w)
         else if \<not> tr_active t \<or> \<not> same_owner (tr_owner t) owner \<or> \<not> current_owner env owner w \<or>
                 n \<le> EV_FILE_PREFIX_BYTES \<or> EV_FILE_PAYLOAD_MAX < n \<or> take 16 payload \<noteq> tr_id t
         then Some (Some ''INVALID_TRANSFER'', None, w)
         else if tr_poisoned t then Some (Some ''FILE_CLOSE_FAILED'', None, w)
         else if \<not> chunk_fits t (chunk_offset payload) (n - EV_FILE_PREFIX_BYTES)
         then Some (Some ''INVALID_OFFSET_OR_SIZE'', None, w)
         else
           case store_chunk env owner (drop EV_FILE_PREFIX_BYTES payload) w of None \<Rightarrow> None
           | Some (err, w1) \<Rightarrow>
               Some (err, if err = None then Some (tr_received (fw_file w1)) else None, w1))"

section \<open>The end of an upload\<close>

definition no_staging :: "('f, 'h) file_world \<Rightarrow> ('f, 'h) file_world" where
  "no_staging w = on_file (\<lambda>t. t\<lparr>tr_temporary := []\<rparr>) w"

text \<open>The old file is moved out of the way and restored if the new one cannot take its place.\<close>

definition replace_target :: "('f, 'h) file_env \<Rightarrow> ('f, 'h) file_world \<Rightarrow> cstring option \<times> ('f, 'h) file_world" where
  "replace_target env w =
     (let t = fw_file w; backup = tr_temporary t @ ''.old''
      in if FILE_PATH_CAP \<le> length backup then (Some ''FILE_RENAME_FAILED'', w)
         else
           let (status, regular, e, f) = fo_stat env backup (fw_files w)
           in if status = 0 \<or> e \<noteq> ENOENT then (Some ''FILE_RENAME_FAILED'', w\<lparr>fw_files := f\<rparr>)
              else
                let (moved, e1, f1) = fo_rename env (tr_target t) backup f
                in if moved \<noteq> 0 then (Some ''FILE_RENAME_FAILED'', w\<lparr>fw_files := f1\<rparr>)
                   else
                     let (published, e2, f2) = fo_rename env (tr_temporary t) (tr_target t) f1
                     in if published \<noteq> 0
                        then let (restored, e3, f3) = fo_rename env backup (tr_target t) f2
                             in (Some (if restored = 0 then ''FILE_RENAME_FAILED'' else ''FILE_ROLLBACK_FAILED''),
                                 w\<lparr>fw_files := f3\<rparr>)
                        else (None, (no_staging w)\<lparr>fw_files := fo_unlink env backup f2\<rparr>))"

definition publish :: "('f, 'h) file_env \<Rightarrow> ('f, 'h) file_world \<Rightarrow> cstring option \<times> ('f, 'h) file_world" where
  "publish env w =
     (let t = fw_file w;
          (status, regular, e, f) = fo_stat env (tr_target t) (fw_files w);
          w1 = w\<lparr>fw_files := f\<rparr>
      in if status \<noteq> 0 \<and> e \<noteq> ENOENT then (Some ''FILE_STAT_FAILED'', w1)
         else if status = 0 \<and> (\<not> tr_overwrite t \<or> \<not> regular) then (Some ''FILE_EXISTS'', w1)
         else
           let (renamed, e1, f1) = fo_rename env (tr_temporary t) (tr_target t) f;
               w2 = w\<lparr>fw_files := f1\<rparr>
           in if renamed = 0 then (None, no_staging w2)
              else if status \<noteq> 0 \<or> e1 \<noteq> EEXIST then (Some ''FILE_RENAME_FAILED'', w2)
              else replace_target env w2)"

definition commit_file ::
  "('f, 'h) file_env \<Rightarrow> ev_session_snapshot_t \<Rightarrow> ('f, 'h) file_world \<Rightarrow> cstring option \<times> u32 option \<times> ('f, 'h) file_world" where
  "commit_file env owner w =
     (let t = fw_file w; (finished, hash) = ho_finish env (tr_hash t)
      in if \<not> finished \<or> length hash \<noteq> 32 \<or> hash \<noteq> tr_expected_hash t then (Some ''HASH_MISMATCH'', None, w)
         else
           let (synced, f) = fo_fsync env (tr_fd t) (fw_files w);
               w1 = fe_others env (w\<lparr>fw_files := f\<rparr>)
           in if synced \<noteq> 0 then (Some ''FILE_SYNC_FAILED'', None, w1)
              else if \<not> current_owner env owner w1 then (Some ''SESSION_LOST'', None, w1)
              else
                let (closed, w2) = close_file env w1
                in if \<not> closed then (Some ''FILE_CLOSE_FAILED'', None, poison w2)
                   else let (err, w3) = publish env w2 in (err, Some (tr_received (fw_file w3)), w3))"

definition ev_file_transfer_end ::
  "('f, 'h) file_env \<Rightarrow> ev_session_snapshot_t \<Rightarrow> cstring option \<Rightarrow> bool \<Rightarrow> ('f, 'h) file_world
     \<Rightarrow> cstring option \<times> u32 option \<times> ('f, 'h) file_world" where
  "ev_file_transfer_end env owner upload_id commit w =
     (let t = fw_file w
      in if \<not> fw_lock w then (Some ''TRANSFER_UNAVAILABLE'', None, w)
         else if \<not> tr_active t \<or> \<not> same_owner (tr_owner t) owner \<or> \<not> current_owner env owner w \<or>
                 unhex upload_id 16 \<noteq> Some (tr_id t)
         then (Some ''INVALID_TRANSFER'', None, w)
         else if tr_poisoned t then (Some ''FILE_CLOSE_FAILED'', None, w)
         else if \<not> commit then (let (err, w1) = discard env w in (err, Some 0, w1))
         else if tr_received t \<noteq> tr_total t then (Some ''FILE_INCOMPLETE'', None, w)
         else
           let (err, received1, w1) = commit_file env owner w;
               (cleanup, w2) = discard env w1
           in (if err = None then cleanup else err, received1, w2))"

text \<open>\<open>available\<close> says whether the lock is free.\<close>

definition ev_file_transfer_poll :: "('f, 'h) file_env \<Rightarrow> bool \<Rightarrow> ('f, 'h) file_world \<Rightarrow> ('f, 'h) file_world" where
  "ev_file_transfer_poll env available w =
     (if \<not> fw_lock w \<or> \<not> available then w
      else if tr_active (fw_file w) \<and>
              (\<not> current_owner env (tr_owner (fw_file w)) w \<or>
               FILE_IDLE_MS \<le> fe_now env w - tr_last_ms (fw_file w))
      then snd (discard env w) else w)"

end
