(* ===== verification/Launcher.thy ===== *)
theory Launcher
  imports ControlFrame
begin

text \<open>
  The launcher's record of what runs on the virtual machine, \<open>platform/ev_launcher_state.c\<close>: the
  program that is started at boot, which comes from a fixed place of the file system, and the trial
  of a candidate, which is armed, started, finished or cancelled under an operation identifier.
  Each operation is one critical section; the epoch of the virtual machine, which the code reads before it, is
  an argument.
\<close>

section \<open>State\<close>

datatype ev_launcher_outcome =
    EV_LAUNCHER_OUTCOME_UNKNOWN | EV_LAUNCHER_OUTCOME_RUNNING | EV_LAUNCHER_OUTCOME_NORMAL_RETURN
  | EV_LAUNCHER_OUTCOME_UNCAUGHT_EXCEPTION | EV_LAUNCHER_OUTCOME_USER_INTERRUPTION | EV_LAUNCHER_OUTCOME_RESET

datatype ev_launcher_trial_status =
    EV_LAUNCHER_TRIAL_NOT_STARTED | EV_LAUNCHER_TRIAL_ARMED | EV_LAUNCHER_TRIAL_RUNNING | EV_LAUNCHER_TRIAL_FINISHED

definition EV_LAUNCHER_BOOT_ID_HEX_LEN :: nat where "EV_LAUNCHER_BOOT_ID_HEX_LEN = 32"
definition EV_LAUNCHER_DEVICE_ID_HEX_LEN :: nat where "EV_LAUNCHER_DEVICE_ID_HEX_LEN = 12"
definition EV_LAUNCHER_OPERATION_ID_LEN :: nat where "EV_LAUNCHER_OPERATION_ID_LEN = 36"
definition EV_LAUNCHER_SOURCE_HASH_HEX_LEN :: nat where "EV_LAUNCHER_SOURCE_HASH_HEX_LEN = 64"
definition EV_LAUNCHER_SOURCE_PATH_MAX :: nat where "EV_LAUNCHER_SOURCE_PATH_MAX = 512"

lemmas launcher_consts = EV_LAUNCHER_BOOT_ID_HEX_LEN_def EV_LAUNCHER_DEVICE_ID_HEX_LEN_def EV_LAUNCHER_OPERATION_ID_LEN_def
  EV_LAUNCHER_SOURCE_HASH_HEX_LEN_def EV_LAUNCHER_SOURCE_PATH_MAX_def

record ev_launcher_state_snapshot =
  ln_boot_id :: cstring
  ln_device_id :: cstring
  ln_device_id_valid :: bool
  ln_vm_epoch :: u32
  ln_selection_valid :: bool
  ln_generation :: u64
  ln_source_hash :: cstring
  ln_source_path :: cstring
  ln_execution_outcome :: ev_launcher_outcome
  ln_trial_valid :: bool
  ln_operation_id :: cstring
  ln_last_trial_operation_id :: cstring
  ln_trial_source_hash :: cstring
  ln_trial_source_path :: cstring
  ln_trial_vm_epoch :: u32
  ln_trial_status :: ev_launcher_trial_status
  ln_trial_outcome :: ev_launcher_outcome

record launcher = ev_launcher_state_snapshot +
  ln_initialized :: bool
  ln_main_entry_window :: bool
  ln_main_entry_consumed :: bool

definition zero_launcher :: launcher where
  "zero_launcher =
     \<lparr>ln_boot_id = [], ln_device_id = [], ln_device_id_valid = False, ln_vm_epoch = 0, ln_selection_valid = False,
      ln_generation = 0, ln_source_hash = [], ln_source_path = [], ln_execution_outcome = EV_LAUNCHER_OUTCOME_UNKNOWN,
      ln_trial_valid = False, ln_operation_id = [], ln_last_trial_operation_id = [], ln_trial_source_hash = [],
      ln_trial_source_path = [], ln_trial_vm_epoch = 0, ln_trial_status = EV_LAUNCHER_TRIAL_NOT_STARTED,
      ln_trial_outcome = EV_LAUNCHER_OUTCOME_UNKNOWN, ln_initialized = False, ln_main_entry_window = False,
      ln_main_entry_consumed = False\<rparr>"

section \<open>Identifiers and paths\<close>

definition hex_char :: "char \<Rightarrow> bool" where
  "hex_char c \<longleftrightarrow> CHR ''0'' \<le> c \<and> c \<le> CHR ''9'' \<or> CHR ''a'' \<le> c \<and> c \<le> CHR ''f''"

definition ev_launcher_hex :: "cstring option \<Rightarrow> nat \<Rightarrow> bool" where
  "ev_launcher_hex value n = (case value of None \<Rightarrow> False | Some s \<Rightarrow> length s = n \<and> list_all hex_char s)"

definition slug_char :: "char \<Rightarrow> bool" where
  "slug_char c \<longleftrightarrow> CHR ''a'' \<le> c \<and> c \<le> CHR ''z'' \<or> CHR ''0'' \<le> c \<and> c \<le> CHR ''9'' \<or> c = CHR ''_''"

text \<open>The first \<open>n\<close> characters of \<open>start\<close>; the caller found a later character in it.\<close>

definition ev_launcher_slug :: "cstring \<Rightarrow> nat \<Rightarrow> bool" where
  "ev_launcher_slug start n \<longleftrightarrow>
     \<not> (n = 0 \<or> 48 < n \<or> c_at start 0 < CHR ''a'' \<or> CHR ''z'' < c_at start 0) \<and> list_all slug_char (take n start)"

definition ev_launcher_operation_id :: "cstring option \<Rightarrow> bool" where
  "ev_launcher_operation_id value =
     (case value of None \<Rightarrow> False
      | Some s \<Rightarrow> length s = EV_LAUNCHER_OPERATION_ID_LEN \<and>
          list_all (\<lambda>i. if i = 8 \<or> i = 13 \<or> i = 18 \<or> i = 23 then s ! i = CHR ''-'' else hex_char (s ! i))
            [0..<EV_LAUNCHER_OPERATION_ID_LEN] \<and>
          s ! 14 = CHR ''4'' \<and> (s ! 19 = CHR ''8'' \<or> s ! 19 = CHR ''9'' \<or> s ! 19 = CHR ''a'' \<or> s ! 19 = CHR ''b''))"

definition app_of :: "cstring \<Rightarrow> cstring option" where
  "app_of path =
     (if take 6 path = ''/apps/'' then Some (drop 6 path)
      else if take 13 path = ''/sdcard/apps/'' then Some (drop 13 path) else None)"

text \<open>\<open>app\<close> begins after the root; \<open>revisions\<close> is the rest from the first \<open>/revisions/\<close> on.\<close>

definition revision_path :: "cstring \<Rightarrow> cstring \<Rightarrow> bool" where
  "revision_path app hash =
     (case strstr app ''/revisions/'' of None \<Rightarrow> False
      | Some revisions \<Rightarrow>
          let n = length app - length revisions; digest = drop 11 revisions;
              filename = drop (EV_LAUNCHER_SOURCE_HASH_HEX_LEN + 1) digest
          in ev_launcher_slug app n \<and>
             length digest = EV_LAUNCHER_SOURCE_HASH_HEX_LEN + 1 + n + 3 \<and>
             take EV_LAUNCHER_SOURCE_HASH_HEX_LEN digest = hash \<and> digest ! EV_LAUNCHER_SOURCE_HASH_HEX_LEN = CHR ''/'' \<and>
             take n filename = take n app \<and> drop n filename = ''.py'')"

definition ev_launcher_active_path :: "cstring option \<Rightarrow> cstring option \<Rightarrow> bool" where
  "ev_launcher_active_path path hash =
     (case path of None \<Rightarrow> False
      | Some s \<Rightarrow>
          length s \<le> EV_LAUNCHER_SOURCE_PATH_MAX \<and> ev_launcher_hex hash EV_LAUNCHER_SOURCE_HASH_HEX_LEN \<and>
          strstr s ''..'' = None \<and> strstr s ''//'' = None \<and> CHR 0x5C \<notin> set s \<and>
          (case app_of s of None \<Rightarrow> False | Some app \<Rightarrow> revision_path app (the hash)))"

definition staging_root :: "cstring \<Rightarrow> cstring \<Rightarrow> cstring option" where
  "staging_root operation_id runner =
     (let flash = take 63 (''/.esp-vision/staging/'' @ operation_id @ ''/'');
          sd = take 71 (''/sdcard/.esp-vision/staging/'' @ operation_id @ ''/'')
      in if take (length flash) runner = flash then Some flash
         else if take (length sd) runner = sd then Some sd else None)"

definition ev_launcher_trial_paths ::
  "cstring option \<Rightarrow> cstring option \<Rightarrow> cstring option \<Rightarrow> cstring option \<Rightarrow> bool" where
  "ev_launcher_trial_paths operation_id runner_path source_path source_hash =
     (case (operation_id, runner_path, source_path) of
        (Some op, Some runner, Some source) \<Rightarrow>
          ev_launcher_operation_id operation_id \<and> length runner \<le> EV_LAUNCHER_SOURCE_PATH_MAX \<and>
          length source \<le> EV_LAUNCHER_SOURCE_PATH_MAX \<and> ev_launcher_hex source_hash EV_LAUNCHER_SOURCE_HASH_HEX_LEN \<and>
          (case staging_root op runner of None \<Rightarrow> False
           | Some root \<Rightarrow> drop (length root) runner = ''runner.py'' \<and> take (length root) source = root \<and>
               drop (length root) source = ''candidate.py'')
      | _ \<Rightarrow> False)"

section \<open>Power-on and reset\<close>

text \<open>Four random words; \<open>hex8\<close> prints a word. The MAC address, \<open>None\<close> if it cannot be read.\<close>

definition ev_launcher_new_boot_id :: "u32 \<times> u32 \<times> u32 \<times> u32 \<Rightarrow> cstring" where
  "ev_launcher_new_boot_id words =
     (let (a, b, c, d) = words; out = hex8 a @ hex8 b @ hex8 c @ hex8 d
      in if ev_launcher_hex (Some out) EV_LAUNCHER_BOOT_ID_HEX_LEN then out else replicate 31 (CHR ''0'') @ ''1'')"

definition hex2 :: "u8 \<Rightarrow> cstring" where
  "hex2 b = drop 6 (hex8 (ucast b))"

definition esp_vision_launcher_state_init0 :: "u32 \<times> u32 \<times> u32 \<times> u32 \<Rightarrow> u8 list option \<Rightarrow> launcher \<Rightarrow> launcher" where
  "esp_vision_launcher_state_init0 words mac l =
     (if ln_initialized l then l
      else
        let device_id = (case mac of None \<Rightarrow> [] | Some bytes \<Rightarrow> concat (map hex2 bytes))
        in zero_launcher\<lparr>ln_boot_id := ev_launcher_new_boot_id words, ln_device_id := device_id,
             ln_device_id_valid := (mac \<noteq> None \<and> ev_launcher_hex (Some device_id) EV_LAUNCHER_DEVICE_ID_HEX_LEN),
             ln_initialized := True, ln_main_entry_window := ln_main_entry_window l,
             ln_main_entry_consumed := ln_main_entry_consumed l\<rparr>)"

definition esp_vision_launcher_state_vm_reset_begin :: "launcher \<Rightarrow> launcher" where
  "esp_vision_launcher_state_vm_reset_begin l =
     (let l1 = l\<lparr>ln_execution_outcome := (if ln_execution_outcome l = EV_LAUNCHER_OUTCOME_RUNNING
                   then EV_LAUNCHER_OUTCOME_RESET else EV_LAUNCHER_OUTCOME_UNKNOWN),
                 ln_selection_valid := False, ln_main_entry_window := False, ln_main_entry_consumed := False\<rparr>
      in if ln_trial_valid l1 \<and> (ln_trial_status l1 = EV_LAUNCHER_TRIAL_ARMED \<or> ln_trial_status l1 = EV_LAUNCHER_TRIAL_RUNNING)
         then l1\<lparr>ln_trial_status := EV_LAUNCHER_TRIAL_FINISHED, ln_trial_outcome := EV_LAUNCHER_OUTCOME_RESET\<rparr>
         else l1)"

definition esp_vision_launcher_main_entry_begin :: "launcher \<Rightarrow> launcher" where
  "esp_vision_launcher_main_entry_begin l = l\<lparr>ln_main_entry_window := True, ln_main_entry_consumed := False\<rparr>"

definition esp_vision_launcher_main_entry_end :: "launcher \<Rightarrow> launcher" where
  "esp_vision_launcher_main_entry_end l = l\<lparr>ln_main_entry_window := False, ln_main_entry_consumed := False\<rparr>"

section \<open>The program of the boot\<close>

definition esp_vision_launcher_begin_active ::
  "u32 \<Rightarrow> u64 \<Rightarrow> cstring option \<Rightarrow> cstring option \<Rightarrow> launcher \<Rightarrow> bool \<times> launcher" where
  "esp_vision_launcher_begin_active vm_epoch generation source_hash source_path l =
     (if generation = 0 \<or> 9007199254740991 < generation \<or> \<not> ev_launcher_active_path source_path source_hash
      then (False, l)
      else
        let allowed = (ln_main_entry_window l \<and> \<not> ln_main_entry_consumed l \<and> \<not> ln_selection_valid l \<and>
              (ln_execution_outcome l = EV_LAUNCHER_OUTCOME_UNKNOWN \<or> ln_execution_outcome l = EV_LAUNCHER_OUTCOME_RESET))
        in (allowed,
            if allowed
            then l\<lparr>ln_main_entry_consumed := True, ln_source_hash := the source_hash, ln_source_path := the source_path,
                   ln_generation := generation, ln_vm_epoch := vm_epoch, ln_selection_valid := True,
                   ln_execution_outcome := EV_LAUNCHER_OUTCOME_RUNNING\<rparr>
            else l))"

definition ended :: "ev_launcher_outcome \<Rightarrow> bool" where
  "ended outcome \<longleftrightarrow> outcome = EV_LAUNCHER_OUTCOME_NORMAL_RETURN \<or> outcome = EV_LAUNCHER_OUTCOME_UNCAUGHT_EXCEPTION \<or>
     outcome = EV_LAUNCHER_OUTCOME_USER_INTERRUPTION"

definition esp_vision_launcher_finish_active :: "ev_launcher_outcome \<Rightarrow> launcher \<Rightarrow> bool \<times> launcher" where
  "esp_vision_launcher_finish_active outcome l =
     (if \<not> ended outcome then (False, l)
      else
        let valid = (ln_selection_valid l \<and> ln_execution_outcome l = EV_LAUNCHER_OUTCOME_RUNNING)
        in (valid, if valid then l\<lparr>ln_execution_outcome := outcome\<rparr> else l))"

section \<open>Trials\<close>

definition esp_vision_launcher_arm_trial ::
  "u32 \<Rightarrow> cstring option \<Rightarrow> cstring option \<Rightarrow> cstring option \<Rightarrow> cstring option \<Rightarrow> launcher \<Rightarrow> bool \<times> launcher" where
  "esp_vision_launcher_arm_trial vm_epoch operation_id runner_path source_path source_hash l =
     (if \<not> ev_launcher_trial_paths operation_id runner_path source_path source_hash then (False, l)
      else
        let allowed = ((\<not> ln_trial_valid l \<or> ln_trial_status l = EV_LAUNCHER_TRIAL_FINISHED) \<and>
              ln_last_trial_operation_id l \<noteq> the operation_id)
        in (allowed,
            if allowed
            then l\<lparr>ln_operation_id := the operation_id, ln_last_trial_operation_id := the operation_id,
                   ln_trial_source_hash := the source_hash, ln_trial_source_path := the source_path,
                   ln_trial_vm_epoch := vm_epoch, ln_trial_valid := True, ln_trial_status := EV_LAUNCHER_TRIAL_ARMED,
                   ln_trial_outcome := EV_LAUNCHER_OUTCOME_UNKNOWN\<rparr>
            else l))"

definition esp_vision_launcher_begin_trial ::
  "u32 \<Rightarrow> cstring option \<Rightarrow> cstring option \<Rightarrow> cstring option \<Rightarrow> launcher \<Rightarrow> bool \<times> launcher" where
  "esp_vision_launcher_begin_trial vm_epoch operation_id source_path source_hash l =
     (if \<not> ev_launcher_operation_id operation_id \<or> \<not> ev_launcher_hex source_hash EV_LAUNCHER_SOURCE_HASH_HEX_LEN \<or>
         source_path = None \<or> EV_LAUNCHER_SOURCE_PATH_MAX < length (the source_path)
      then (False, l)
      else
        let matches = (ln_trial_valid l \<and> ln_trial_status l = EV_LAUNCHER_TRIAL_ARMED \<and> ln_trial_vm_epoch l = vm_epoch \<and>
              ln_operation_id l = the operation_id \<and> ln_trial_source_path l = the source_path \<and>
              ln_trial_source_hash l = the source_hash)
        in (matches,
            if matches
            then l\<lparr>ln_trial_status := EV_LAUNCHER_TRIAL_RUNNING, ln_trial_outcome := EV_LAUNCHER_OUTCOME_RUNNING\<rparr>
            else l))"

definition esp_vision_launcher_finish_trial :: "ev_launcher_outcome \<Rightarrow> launcher \<Rightarrow> bool \<times> launcher" where
  "esp_vision_launcher_finish_trial outcome l =
     (if \<not> ended outcome then (False, l)
      else
        let valid = (ln_trial_valid l \<and> ln_trial_status l = EV_LAUNCHER_TRIAL_RUNNING)
        in (valid, if valid
                   then l\<lparr>ln_trial_status := EV_LAUNCHER_TRIAL_FINISHED, ln_trial_outcome := outcome\<rparr> else l))"

definition esp_vision_launcher_cancel_trial_arm :: "cstring option \<Rightarrow> launcher \<Rightarrow> bool \<times> launcher" where
  "esp_vision_launcher_cancel_trial_arm operation_id l =
     (if \<not> ev_launcher_operation_id operation_id then (False, l)
      else
        let valid = (ln_trial_valid l \<and> ln_trial_status l = EV_LAUNCHER_TRIAL_ARMED \<and> ln_operation_id l = the operation_id)
        in (valid, if valid
                   then l\<lparr>ln_trial_valid := False, ln_trial_status := EV_LAUNCHER_TRIAL_NOT_STARTED,
                          ln_trial_outcome := EV_LAUNCHER_OUTCOME_UNKNOWN\<rparr> else l))"

section \<open>Queries\<close>

definition esp_vision_launcher_valid_operation_id :: "cstring option \<Rightarrow> bool" where
  "esp_vision_launcher_valid_operation_id operation_id = ev_launcher_operation_id operation_id"

definition esp_vision_launcher_state_snapshot ::
  "u32 \<Rightarrow> launcher \<Rightarrow> ev_launcher_state_snapshot option \<Rightarrow> bool \<times> ev_launcher_state_snapshot option" where
  "esp_vision_launcher_state_snapshot vm_epoch l out =
     (if out = None \<or> \<not> ln_initialized l then (False, out)
      else (True, Some ((ev_launcher_state_snapshot.truncate l)\<lparr>ln_vm_epoch := vm_epoch\<rparr>)))"

definition esp_vision_launcher_trial_snapshot ::
  "u32 \<Rightarrow> cstring option \<Rightarrow> launcher \<Rightarrow> ev_launcher_state_snapshot option
     \<Rightarrow> bool \<times> ev_launcher_state_snapshot option" where
  "esp_vision_launcher_trial_snapshot vm_epoch operation_id l out =
     (if out = None \<or> \<not> ev_launcher_operation_id operation_id then (False, out)
      else
        let (ok, snap) = esp_vision_launcher_state_snapshot vm_epoch l out
        in if \<not> ok then (False, snap)
           else (ln_trial_valid (the snap) \<and> ln_operation_id (the snap) = the operation_id, snap))"

definition esp_vision_launcher_outcome_name :: "ev_launcher_outcome \<Rightarrow> cstring" where
  "esp_vision_launcher_outcome_name outcome =
     (case outcome of EV_LAUNCHER_OUTCOME_RUNNING \<Rightarrow> ''running'' | EV_LAUNCHER_OUTCOME_NORMAL_RETURN \<Rightarrow> ''normal_return''
      | EV_LAUNCHER_OUTCOME_UNCAUGHT_EXCEPTION \<Rightarrow> ''uncaught_exception''
      | EV_LAUNCHER_OUTCOME_USER_INTERRUPTION \<Rightarrow> ''user_interruption''
      | EV_LAUNCHER_OUTCOME_RESET \<Rightarrow> ''reset'' | _ \<Rightarrow> ''unknown'')"

definition esp_vision_launcher_trial_status_name :: "ev_launcher_trial_status \<Rightarrow> cstring" where
  "esp_vision_launcher_trial_status_name status =
     (case status of EV_LAUNCHER_TRIAL_ARMED \<Rightarrow> ''armed'' | EV_LAUNCHER_TRIAL_RUNNING \<Rightarrow> ''running''
      | EV_LAUNCHER_TRIAL_FINISHED \<Rightarrow> ''finished'' | _ \<Rightarrow> ''not_started'')"

end
