(* ===== verification/ControlReply.thy ===== *)
theory ControlReply
  imports FileTransfer Launcher UartBaud MuxSystem
begin

text \<open>
  How the handlers of requests answer, \<open>platform/ev_control_transport.c\<close>: the response context with its
  completion, the metadata of a response or event, and what happens when a response has left. The
  handlers run on the state \<open>control\<close> of ControlQueue; \<open>platform\<close> holds the state of the parts they call, and
  \<open>co_response\<close> is the response context of the task that runs. \<open>handler_env\<close> has what the handlers call of
  code that is not modelled.
\<close>

section \<open>State\<close>

record ev_control_tx_context =
  tc_kind :: u8
  tc_value :: cstring

text \<open>
  \<open>pf_tx_context\<close> is the buffer \<open>completion_context\<close> of the response context, \<open>pf_ticket\<close> the variable that
  \<open>ticket_out\<close> points to.
\<close>

record ('f, 'h) platform =
  pf_mux :: mux
  pf_tx_context :: ev_control_tx_context
  pf_ticket :: u32
  pf_seq :: u32
  pf_uart :: uart_baud
  pf_file_lock :: bool
  pf_file :: "'h file_transfer"
  pf_msc :: msc
  pf_launcher :: launcher
  pf_files :: 'f

type_synonym ('f, 'h) serving = "('f, 'h) platform control"

text \<open>
  The virtual file system of MicroPython; a call that raises an exception gives \<open>None\<close> or \<open>False\<close>. The error
  code and the count of a transfer are what \<open>mp_stream_rw\<close> reports.
\<close>

record 'f vfs_ops =
  vo_stat :: "cstring \<Rightarrow> 'f \<Rightarrow> bool option \<times> 'f"
  vo_remove :: "cstring \<Rightarrow> 'f \<Rightarrow> bool \<times> 'f"
  vo_open :: "cstring \<Rightarrow> cstring \<Rightarrow> 'f \<Rightarrow> int option \<times> 'f"
  vo_write :: "int \<Rightarrow> u8 list \<Rightarrow> 'f \<Rightarrow> (int \<times> nat) option \<times> 'f"
  vo_read :: "int \<Rightarrow> nat \<Rightarrow> 'f \<Rightarrow> (int \<times> u8 list) option \<times> 'f"
  vo_close :: "int \<Rightarrow> 'f \<Rightarrow> bool \<times> 'f"
  vo_rename :: "cstring \<Rightarrow> cstring \<Rightarrow> 'f \<Rightarrow> bool \<times> 'f"

text \<open>A picture and its dimensions; the state of a volume; and who the device is.\<close>

record image =
  im_w :: int
  im_h :: int
  im_data :: "u8 list"

record camera_status =
  ca_ready :: bool
  ca_sensor_id :: u32
  ca_width :: u32
  ca_height :: u32
  ca_pixfmt :: u32
  ca_hmirror :: bool
  ca_vflip :: bool

record volume_state =
  vs_present :: bool
  vs_mounted :: bool
  vs_state :: cstring
  vs_error :: int
  vs_fatfs :: int
  vs_format :: bool

record identity =
  id_device :: cstring
  id_hostname :: cstring
  id_firmware :: cstring
  id_version :: cstring
  id_board :: cstring
  id_arch :: cstring
  id_idf :: cstring
  id_usb_product :: cstring
  id_tcp_port :: u32
  id_msc :: bool

record ('f, 'h) handler_env =
  he_control :: "('f, 'h) platform control_env"
  he_board :: board
  he_identity :: identity
  he_path_cap :: nat
  he_cdc :: "('f, 'h) serving \<Rightarrow> bool \<times> bool \<times> bool"
  he_mux_ready :: "('f, 'h) serving \<Rightarrow> bool"
  he_queue_lock :: "('f, 'h) serving \<Rightarrow> bool"
  he_special_lock :: "('f, 'h) serving \<Rightarrow> bool"
  he_cancel_locks :: "('f, 'h) serving \<Rightarrow> nat \<Rightarrow> bool"
  he_mux_malloc :: "('f, 'h) serving \<Rightarrow> malloc"
  he_random :: "('f, 'h) serving \<Rightarrow> u32 \<times> u32 \<times> u32 \<times> u32"
  he_acquire_others :: "world \<Rightarrow> world"
  he_file :: "('f, 'h) file_env"
  he_vfs :: "'f vfs_ops"
  he_tcp_close :: "ev_link_ref \<Rightarrow> ('f, 'h) serving \<Rightarrow> ('f, 'h) serving"
  he_network :: "cstring \<Rightarrow> ('f, 'h) serving \<Rightarrow> (cstring \<times> bool \<times> cstring) option \<times> ('f, 'h) serving"
  he_network_sent :: "cstring \<Rightarrow> ('f, 'h) serving \<Rightarrow> ('f, 'h) serving"
  he_err_name :: "esp_err \<Rightarrow> cstring"
  he_memory :: "nat \<Rightarrow> ('f, 'h) serving \<Rightarrow> bool"
  he_heap :: "nat \<Rightarrow> ('f, 'h) serving \<Rightarrow> u32"
  he_volume :: "nat \<Rightarrow> ('f, 'h) serving \<Rightarrow> volume_state"
  he_listdir :: "cstring \<Rightarrow> 'f \<Rightarrow> cstring list option \<times> 'f"
  he_camera :: "('f, 'h) serving \<Rightarrow> esp_err \<times> camera_status"
  he_observed_frame :: "('f, 'h) serving \<Rightarrow> esp_err \<times> image"
  he_display_frame :: "('f, 'h) serving \<Rightarrow> esp_err \<times> image"
  he_jpeg :: "image \<Rightarrow> int \<Rightarrow> esp_err \<times> u8 list"
  he_jpeg_low :: int
  he_ring_full :: "nat \<Rightarrow> ('f, 'h) serving \<Rightarrow> u32"
  he_tcp_stack_free :: "('f, 'h) serving \<Rightarrow> u32"
  he_ticket_others :: "ev_mux_ticket_state list \<Rightarrow> bool \<times> ev_mux_ticket_state list"
  he_reset_close :: "ev_link_ref \<Rightarrow> ('f, 'h) serving \<Rightarrow> esp_err \<times> ('f, 'h) serving"
  he_restart :: "('f, 'h) serving \<Rightarrow> ('f, 'h) serving"

text \<open>
  \<open>he_path_cap\<close> is \<open>MICROPY_ALLOC_PATH_MAX\<close>, \<open>he_network\<close> the answer of \<open>esp_vision_network_rpc_handle\<close> (the
  response, whether it is a barrier, the operation), \<open>he_err_name\<close> is
  \<open>esp_err_to_name\<close>, \<open>he_memory\<close> whether an allocation succeeds.
\<close>

definition now_ms :: "('f, 'h) handler_env \<Rightarrow> ('f, 'h) serving \<Rightarrow> u32" where
  "now_ms env c = ce_now (he_control env) c"

definition on_platform :: "(('f, 'h) platform \<Rightarrow> ('f, 'h) platform) \<Rightarrow> ('f, 'h) serving \<Rightarrow> ('f, 'h) serving" where
  "on_platform g c = c\<lparr>co_rest := g (co_rest c)\<rparr>"

definition with_world :: "world \<Rightarrow> ('f, 'h) serving \<Rightarrow> ('f, 'h) serving" where
  "with_world w c = c\<lparr>co_world := w\<rparr>"

definition ev_control_next_seq :: "('f, 'h) serving \<Rightarrow> u32 \<times> ('f, 'h) serving" where
  "ev_control_next_seq c = (pf_seq (co_rest c), on_platform (\<lambda>p. p\<lparr>pf_seq := pf_seq p + 1\<rparr>) c)"

section \<open>Completions\<close>

definition EV_CONTROL_TX_DONE_HELLO :: u8 where "EV_CONTROL_TX_DONE_HELLO = 1"
definition EV_CONTROL_TX_DONE_RELEASE :: u8 where "EV_CONTROL_TX_DONE_RELEASE = 2"
definition EV_CONTROL_TX_DONE_NETWORK :: u8 where "EV_CONTROL_TX_DONE_NETWORK = 3"
definition EV_CONTROL_TX_DONE_CLOSE_LINK :: u8 where "EV_CONTROL_TX_DONE_CLOSE_LINK = 4"
definition EV_CONTROL_TX_DONE_UART_PREPARE :: u8 where "EV_CONTROL_TX_DONE_UART_PREPARE = 5"
definition EV_CONTROL_TX_DONE_UART_COMMIT :: u8 where "EV_CONTROL_TX_DONE_UART_COMMIT = 6"

lemmas tx_done_consts = EV_CONTROL_TX_DONE_HELLO_def EV_CONTROL_TX_DONE_RELEASE_def EV_CONTROL_TX_DONE_NETWORK_def
  EV_CONTROL_TX_DONE_CLOSE_LINK_def EV_CONTROL_TX_DONE_UART_PREPARE_def EV_CONTROL_TX_DONE_UART_COMMIT_def

text \<open>
  The structure as bytes, \<open>sizeof(ev_control_tx_context_t)\<close> of them, and back. The transmitter names a
  callback by a number; \<open>ev_control_tx_complete\<close> is number \<open>EV_CONTROL_TX_COMPLETE\<close>.
\<close>

definition EV_CONTROL_TX_COMPLETE :: nat where "EV_CONTROL_TX_COMPLETE = 1"
definition TX_CONTEXT_SIZE :: nat where "TX_CONTEXT_SIZE = 34"

definition tx_context_bytes :: "ev_control_tx_context \<Rightarrow> u8 list" where
  "tx_context_bytes t =
     tc_kind t # map of_char (tc_value t) @ replicate (EV_SESSION_ID_HEX_LEN + 1 - length (tc_value t)) 0"

definition tx_context_of :: "u8 list \<Rightarrow> ev_control_tx_context" where
  "tx_context_of bytes = \<lparr>tc_kind = hd bytes, tc_value = c_string (chars (take 33 (tl bytes)))\<rparr>"

definition ev_control_set_completion ::
  "u8 \<Rightarrow> cstring option \<Rightarrow> ('f, 'h) serving \<Rightarrow> bool \<times> ('f, 'h) serving" where
  "ev_control_set_completion kind value1 c =
     (case value1 of None \<Rightarrow> (False, c)
      | Some v \<Rightarrow>
          if kind = 0 \<or> EV_SESSION_ID_HEX_LEN < length v then (False, c)
          else (True,
                on_response (\<lambda>r. r\<lparr>rc_completion := True, rc_completion_context_len := TX_CONTEXT_SIZE\<rparr>)
                  (on_platform (\<lambda>p. p\<lparr>pf_tx_context := \<lparr>tc_kind = kind, tc_value = v\<rparr>\<rparr>) c)))"

definition drop_completion :: "('f, 'h) serving \<Rightarrow> ('f, 'h) serving" where
  "drop_completion c = on_response (\<lambda>r. r\<lparr>rc_completion := False, rc_completion_context_len := 0\<rparr>) c"

section \<open>Sending\<close>

definition ev_control_rpc_channel :: "ev_control_rpc_domain \<Rightarrow> cstring" where
  "ev_control_rpc_channel domain = (if domain = EV_RPC_DEBUG then ''debug.rpc'' else ''user.rpc'')"

definition ev_control_rpc_stream :: "ev_control_rpc_domain \<Rightarrow> ev_stream" where
  "ev_control_rpc_stream domain = (if domain = EV_RPC_DEBUG then EV_STREAM_DEBUG else EV_STREAM_USER)"

definition ev_control_tx_class :: "cstring \<Rightarrow> cstring \<Rightarrow> nat" where
  "ev_control_tx_class type1 method1 =
     (if type1 = ''event'' then EV_MUX_TX_SESSION
      else if method1 = ''hello'' \<or> method1 = ''capabilities'' \<or> method1 = ''session.keepalive'' \<or>
              method1 = ''session.release''
      then EV_MUX_TX_SESSION else EV_MUX_TX_CONTROL)"

definition text_bytes :: "string \<Rightarrow> u8 list" where
  "text_bytes s = map of_char s"

definition quoted :: "string \<Rightarrow> string" where
  "quoted s = [CHR 0x22] @ s @ [CHR 0x22]"

definition rpc_metadata ::
  "ev_control_rpc_domain \<Rightarrow> cstring \<Rightarrow> cstring \<Rightarrow> u32 \<Rightarrow> (cstring \<times> u32) option \<Rightarrow> u32 \<Rightarrow> string" where
  "rpc_metadata domain type1 method1 seq session_id now =
     ''{\"sid\":'' @ quoted (if domain = EV_RPC_DEBUG then ''debug'' else ''user'') @ '',\"seq\":'' @ decimal (unat seq) @
     '',\"channel\":'' @ quoted (ev_control_rpc_channel domain) @ '',\"type\":'' @ quoted type1 @
     '',\"method\":'' @ quoted method1 @ '',\"encoding\":\"json\",'' @
     (case session_id of None \<Rightarrow> []
      | Some (sid, vm_epoch) \<Rightarrow> ''\"sessionId\":'' @ quoted sid @ '',\"vmEpoch\":'' @ decimal (unat vm_epoch) @ '','') @
     ''\"ts_ms\":'' @ decimal (unat now) @ ''}''"

definition submit_options ::
  "ev_link_ref \<Rightarrow> cstring \<Rightarrow> cstring \<Rightarrow> (cstring \<times> u32) option \<Rightarrow> u32 \<Rightarrow> ('f, 'h) serving \<Rightarrow> ev_mux_submit_options" where
  "submit_options link type1 method1 session_id tx_vm_epoch c =
     \<lparr>op_link = Some link, op_session_id = map_option fst session_id, op_vm_epoch = tx_vm_epoch,
      op_tx_class = ev_control_tx_class type1 method1,
      op_uart_baud_control = (take 15 method1 = ''transport.uart.'' \<or> method1 = ''session.release''),
      op_completion = (if rc_completion (co_response c) then Some EV_CONTROL_TX_COMPLETE else None),
      op_completion_context =
        (if rc_completion_context_len (co_response c) \<noteq> 0 then Some (tx_context_bytes (pf_tx_context (co_rest c))) else None),
      op_completion_context_len = rc_completion_context_len (co_response c), op_vm_output_origin = None\<rparr>"

definition mux_submit ::
  "('f, 'h) handler_env \<Rightarrow> ev_mux_submit_options \<Rightarrow> cstring \<Rightarrow> cstring \<Rightarrow> ('f, 'h) serving \<Rightarrow> esp_err \<times> ('f, 'h) serving" where
  "mux_submit env options metadata payload c =
     (let p = co_rest c;
          (result, ticket, m) = ev_mux_submit_link (he_mux_ready env c) (w_transport (co_world c))
            (ev_transport_uart_baudrate (he_board env) (ub_hw (pf_uart p))) (now_ms env c) (he_queue_lock env c) (pf_mux p)
            (Some options) (Some metadata) (Some (text_bytes payload)) (length payload)
            (if rc_ticket_out (co_response c) then Some (pf_ticket p) else None)
      in (result, on_platform (\<lambda>p. p\<lparr>pf_mux := m, pf_ticket := (case ticket of None \<Rightarrow> pf_ticket p | Some t \<Rightarrow> t)\<rparr>) c))"

text \<open>The strings other than the link are never NULL at the calls; \<open>session_id\<close> comes with its epoch.\<close>

definition ev_control_submit_rpc_link ::
  "('f, 'h) handler_env \<Rightarrow> ev_link_ref option \<Rightarrow> ev_control_rpc_domain \<Rightarrow> cstring \<Rightarrow> cstring \<Rightarrow> cstring \<Rightarrow> u32
     \<Rightarrow> (cstring \<times> u32) option \<Rightarrow> u32 \<Rightarrow> ('f, 'h) serving \<Rightarrow> esp_err \<times> ('f, 'h) serving" where
  "ev_control_submit_rpc_link env link domain type1 method1 payload seq session_id tx_vm_epoch c =
     (case link of None \<Rightarrow> (ESP_ERR_INVALID_ARG, c)
      | Some l \<Rightarrow>
          let metadata = rpc_metadata domain type1 method1 seq session_id (now_ms env c)
          in if session_id \<noteq> None \<and> EV_SESSION_ID_HEX_LEN + 3 \<le> length (quoted (fst (the session_id)))
             then (ESP_ERR_INVALID_SIZE, c)
             else if EV_CONTROL_METADATA_MAX \<le> length metadata then (ESP_ERR_INVALID_SIZE, c)
             else mux_submit env (submit_options l type1 method1 session_id tx_vm_epoch c) metadata payload
                    (drop_completion c))"

text \<open>The session that an event belongs to: that of the owner, if the event goes to it.\<close>

definition event_session :: "('f, 'h) handler_env \<Rightarrow> ev_link_ref \<Rightarrow> ('f, 'h) serving \<Rightarrow> (cstring \<times> u32) option" where
  "event_session env target c =
     (case ev_session_snapshot (w_session (co_world c)) (now_ms env c) (Some (ce_stack (he_control env))) of
        (True, Some snap) \<Rightarrow>
          if sn_has_owner snap \<and> ControlFrame.ev_control_link_equal (Some (sn_owner_link snap)) (Some target)
          then Some (sn_session_id snap, sn_vm_epoch snap) else None
      | _ \<Rightarrow> None)"

definition ev_control_send_rpc_with_domain ::
  "('f, 'h) handler_env \<Rightarrow> ev_control_rpc_domain \<Rightarrow> cstring \<Rightarrow> cstring \<Rightarrow> cstring \<Rightarrow> u32 \<Rightarrow> ('f, 'h) serving
     \<Rightarrow> esp_err \<times> ('f, 'h) serving" where
  "ev_control_send_rpc_with_domain env domain type1 method1 payload seq c =
     (let r = co_response c
      in if type1 = ''rsp''
         then
           if \<not> rc_has_link r then (ESP_ERR_INVALID_STATE, c)
           else
             let own = rc_session_id r \<noteq> []
             in ev_control_submit_rpc_link env (Some (rc_link r)) domain type1 method1 payload seq
                  (if own then Some (rc_session_id r, rc_vm_epoch r) else None) (if own then rc_tx_vm_epoch r else 0) c
         else
           let (found, target, ch) = ev_channel_target_link (he_board env) (w_transport (co_world c)) (w_channel (co_world c))
                 (ev_control_rpc_stream domain) (Some zero_link);
               c1 = with_world ((co_world c)\<lparr>w_channel := ch\<rparr>) c
           in if \<not> found then (ESP_ERR_NOT_FOUND, c1)
              else
                ev_control_submit_rpc_link env target domain type1 method1 payload seq (event_session env (the target) c1)
                  (if type1 = ''event'' \<and> method1 = ''hello'' then ev_session_vm_epoch (w_session (co_world c1)) else 0) c1)"

definition ev_control_send_rpc_with_seq ::
  "('f, 'h) handler_env \<Rightarrow> cstring \<Rightarrow> cstring \<Rightarrow> cstring \<Rightarrow> u32 \<Rightarrow> ('f, 'h) serving \<Rightarrow> esp_err \<times> ('f, 'h) serving" where
  "ev_control_send_rpc_with_seq env type1 method1 payload seq c =
     ev_control_send_rpc_with_domain env (rc_rpc_domain (co_response c)) type1 method1 payload seq c"

text \<open>A response of at most \<open>capacity - 1\<close> characters, as after \<open>snprintf\<close>.\<close>

definition send_text ::
  "('f, 'h) handler_env \<Rightarrow> nat \<Rightarrow> cstring \<Rightarrow> cstring \<Rightarrow> u32 \<Rightarrow> ('f, 'h) serving \<Rightarrow> esp_err \<times> ('f, 'h) serving" where
  "send_text env capacity method1 payload seq c =
     (if capacity \<le> length payload then (ESP_ERR_INVALID_SIZE, c)
      else ev_control_send_rpc_with_seq env ''rsp'' method1 payload seq c)"

definition error_text :: "cstring \<Rightarrow> cstring \<Rightarrow> cstring" where
  "error_text code1 message =
     ''{\"ok\":false,\"error\":{\"code\":'' @ quoted code1 @ '',\"message\":'' @ quoted message @ ''}}''"

definition ev_control_send_error ::
  "('f, 'h) handler_env \<Rightarrow> cstring \<Rightarrow> u32 \<Rightarrow> cstring \<Rightarrow> cstring \<Rightarrow> ('f, 'h) serving \<Rightarrow> esp_err \<times> ('f, 'h) serving" where
  "ev_control_send_error env method1 seq code1 message c = send_text env 256 method1 (error_text code1 message) seq c"

definition binary_metadata ::
  "cstring \<Rightarrow> cstring \<Rightarrow> u32 \<Rightarrow> int \<Rightarrow> int \<Rightarrow> cstring \<Rightarrow> u32 \<Rightarrow> u32 \<Rightarrow> string" where
  "binary_metadata method1 content_type seq width height session_id vm_epoch now =
     ''{\"sid\":\"debug\",\"seq\":'' @ decimal (unat seq) @ '',\"channel\":\"debug.rpc\",\"type\":\"rsp\",\"method\":'' @
     quoted method1 @ '',\"encoding\":\"binary\",\"contentType\":'' @ quoted content_type @
     '',\"width\":'' @ (if width < 0 then ''-'' else []) @ decimal (nat \<bar>width\<bar>) @
     '',\"height\":'' @ (if height < 0 then ''-'' else []) @ decimal (nat \<bar>height\<bar>) @
     '',\"sessionId\":'' @ quoted session_id @ '',\"vmEpoch\":'' @ decimal (unat vm_epoch) @
     '',\"ts_ms\":'' @ decimal (unat now) @ ''}''"

definition ev_control_send_binary_rsp ::
  "('f, 'h) handler_env \<Rightarrow> cstring \<Rightarrow> cstring \<Rightarrow> u8 list \<Rightarrow> u32 \<Rightarrow> int \<Rightarrow> int \<Rightarrow> ('f, 'h) serving
     \<Rightarrow> esp_err \<times> ('f, 'h) serving" where
  "ev_control_send_binary_rsp env method1 content_type payload seq width height c =
     (let r = co_response c; p = co_rest c;
          metadata = binary_metadata method1 content_type seq width height (rc_session_id r) (rc_vm_epoch r) (now_ms env c)
      in if \<not> rc_has_link r then (ESP_ERR_INVALID_STATE, c)
         else if EV_CONTROL_METADATA_MAX \<le> length metadata then (ESP_ERR_INVALID_SIZE, c)
         else
           let (result, ticket, m) = ev_mux_submit_large_link (he_mux_ready env c) (he_mux_malloc env c)
                 (w_transport (co_world c)) (w_session (co_world c))
                 (ev_transport_uart_baudrate (he_board env) (ub_hw (pf_uart p))) (now_ms env c) (he_special_lock env c) (pf_mux p)
                 (Some \<lparr>op_link = Some (rc_link r), op_session_id = Some (rc_session_id r), op_vm_epoch = rc_tx_vm_epoch r,
                        op_tx_class = EV_MUX_TX_CONTROL, op_uart_baud_control = False, op_completion = None,
                        op_completion_context = None, op_completion_context_len = 0, op_vm_output_origin = None\<rparr>)
                 (Some metadata) (Some payload) (length payload) None
           in (result, on_platform (\<lambda>p. p\<lparr>pf_mux := m\<rparr>) c))"

section \<open>When a response has left\<close>

definition hello_complete :: "('f, 'h) handler_env \<Rightarrow> ev_link_ref \<Rightarrow> cstring \<Rightarrow> bool \<Rightarrow> ('f, 'h) serving \<Rightarrow> ('f, 'h) serving" where
  "hello_complete env link session_id ok c =
     with_world (snd (ev_session_hello_complete (he_board env) (now_ms env c) (co_world c) (Some link) (Some session_id) ok)) c"

definition release_finish :: "('f, 'h) handler_env \<Rightarrow> ev_link_ref \<Rightarrow> cstring \<Rightarrow> ('f, 'h) serving \<Rightarrow> ('f, 'h) serving" where
  "release_finish env link session_id c =
     with_world (snd (ev_session_release_finish (he_board env) (now_ms env c) (co_world c) (Some link) (Some session_id)
       EV_SESSION_CHANGE_RELEASED)) c"

definition close_link :: "('f, 'h) handler_env \<Rightarrow> ev_link_ref \<Rightarrow> ('f, 'h) serving \<Rightarrow> ('f, 'h) serving" where
  "close_link env link c =
     (let (t, tcp) = ev_transport_link_close (he_board env) (w_transport (co_world c)) (Some link);
          c1 = with_world ((co_world c)\<lparr>w_transport := t\<rparr>) c
      in case tcp of None \<Rightarrow> c1 | Some l \<Rightarrow> he_tcp_close env l c1)"

definition on_uart :: "(uart_baud \<Rightarrow> uart_baud) \<Rightarrow> ('f, 'h) serving \<Rightarrow> ('f, 'h) serving" where
  "on_uart g c =
     on_platform (\<lambda>p. let u = g (pf_uart p) in p\<lparr>pf_uart := u, pf_mux := ev_mux_uart_pause (ub_paused u) (pf_mux p)\<rparr>) c"

text \<open>All kinds but a release, which calls completions itself.\<close>

definition tx_done :: "('f, 'h) handler_env \<Rightarrow> esp_err \<Rightarrow> ev_link_ref \<Rightarrow> ev_control_tx_context \<Rightarrow> ('f, 'h) serving \<Rightarrow> ('f, 'h) serving" where
  "tx_done env result link t c =
     (if tc_kind t = EV_CONTROL_TX_DONE_HELLO then hello_complete env link (tc_value t) (result = ESP_OK) c
      else if tc_kind t = EV_CONTROL_TX_DONE_NETWORK
      then if result = ESP_OK then he_network_sent env (tc_value t) c else c
      else if tc_kind t = EV_CONTROL_TX_DONE_CLOSE_LINK then close_link env link c
      else if tc_kind t = EV_CONTROL_TX_DONE_UART_PREPARE
      then on_uart (\<lambda>u. uart_prepare_done u (tc_value t) (result = ESP_OK) (now_ms env c)) c
      else if tc_kind t = EV_CONTROL_TX_DONE_UART_COMMIT
      then on_uart (\<lambda>u. uart_commit_done u (tc_value t) (result = ESP_OK)) c
      else c)"

definition cancel_session ::
  "('f, 'h) handler_env \<Rightarrow> ev_link_ref \<Rightarrow> cstring \<Rightarrow> ('f, 'h) serving \<Rightarrow> callback list \<times> ('f, 'h) serving" where
  "cancel_session env link session_id c =
     (let (calls, m) = ev_mux_cancel_session (he_mux_ready env c) (he_special_lock env c) (he_cancel_locks env c)
            (pf_mux (co_rest c)) (Some link) (Some session_id)
      in (calls, on_platform (\<lambda>p. p\<lparr>pf_mux := m\<rparr>) c))"

text \<open>
  The calls of completions in their order, each of which may cancel frames and so call more:
  \<open>ev_control_tx_complete\<close> for each. \<open>None\<close> would be a recursion without end.
\<close>

partial_function (option) run_completed ::
  "('f, 'h) handler_env \<Rightarrow> callback list \<Rightarrow> ('f, 'h) serving \<Rightarrow> ('f, 'h) serving option" where
  "run_completed env calls c =
     (case calls of [] \<Rightarrow> Some c
      | call # rest \<Rightarrow>
          (case call of (callback, result, link, context1) \<Rightarrow>
             let t = tx_context_of context1
             in if length context1 < TX_CONTEXT_SIZE then run_completed env rest c
                else if tc_kind t = EV_CONTROL_TX_DONE_RELEASE
                then
                  let (more, c1) = cancel_session env link (tc_value t) c
                  in Option.bind (run_completed env more c1) (\<lambda>c2.
                       run_completed env rest (release_finish env link (tc_value t) c2))
                else run_completed env rest (tx_done env result link t c)))"

definition ev_control_tx_complete ::
  "('f, 'h) handler_env \<Rightarrow> esp_err \<Rightarrow> ev_link_ref \<Rightarrow> u8 list \<Rightarrow> ('f, 'h) serving \<Rightarrow> ('f, 'h) serving option" where
  "ev_control_tx_complete env result link context1 c = run_completed env [(EV_CONTROL_TX_COMPLETE, result, link, context1)] c"

end
