(* ===== verification/ControlScript.thy ===== *)
theory ControlScript
  imports ControlReply
begin

text \<open>
  Scripts in \<open>platform/ev_control_transport.c\<close>: the calls of the virtual file system, \<open>script.write\<close>, which
  collects the chunks of a script in a file beside the target and renames it when it is complete, and
  \<open>script.run\<close>, which feeds a command to the REPL. An exception of MicroPython ends a call of the file system
  with \<open>ESP_FAIL\<close>.
\<close>

section \<open>The virtual file system\<close>

definition on_files :: "'f \<Rightarrow> ('f, 'h) serving \<Rightarrow> ('f, 'h) serving" where
  "on_files f c = on_platform (\<lambda>p. p\<lparr>pf_files := f\<rparr>) c"

definition ev_control_vfs_exists :: "('f, 'h) handler_env \<Rightarrow> cstring \<Rightarrow> ('f, 'h) serving \<Rightarrow> esp_err \<times> bool \<times> ('f, 'h) serving" where
  "ev_control_vfs_exists env path c =
     (case vo_stat (he_vfs env) path (pf_files (co_rest c)) of
        (None, f) \<Rightarrow> (ESP_FAIL, False, on_files f c)
      | (Some found, f) \<Rightarrow> (ESP_OK, found, on_files f c))"

definition ev_control_vfs_remove_if_exists :: "('f, 'h) handler_env \<Rightarrow> cstring \<Rightarrow> ('f, 'h) serving \<Rightarrow> esp_err \<times> ('f, 'h) serving" where
  "ev_control_vfs_remove_if_exists env path c =
     (let (result, found, c1) = ev_control_vfs_exists env path c
      in if result \<noteq> ESP_OK then (ESP_FAIL, c1)
         else if \<not> found then (ESP_OK, c1)
         else
           let (removed, f) = vo_remove (he_vfs env) path (pf_files (co_rest c1))
           in (if removed then ESP_OK else ESP_FAIL, on_files f c1))"

definition ev_control_vfs_close :: "('f, 'h) handler_env \<Rightarrow> int \<Rightarrow> ('f, 'h) serving \<Rightarrow> esp_err \<times> ('f, 'h) serving" where
  "ev_control_vfs_close env fd c =
     (let (closed, f) = vo_close (he_vfs env) fd (pf_files (co_rest c))
      in (if closed then ESP_OK else ESP_FAIL, on_files f c))"

definition ev_control_vfs_write_file_mode ::
  "('f, 'h) handler_env \<Rightarrow> cstring \<Rightarrow> u8 list \<Rightarrow> cstring \<Rightarrow> ('f, 'h) serving \<Rightarrow> esp_err \<times> ('f, 'h) serving" where
  "ev_control_vfs_write_file_mode env path data mode c =
     (case vo_open (he_vfs env) path mode (pf_files (co_rest c)) of
        (None, f) \<Rightarrow> (ESP_FAIL, on_files f c)
      | (Some fd, f) \<Rightarrow>
          (case vo_write (he_vfs env) fd data f of
             (None, f1) \<Rightarrow> (ESP_FAIL, snd (ev_control_vfs_close env fd (on_files f1 c)))
           | (Some (err, written), f1) \<Rightarrow>
               if err \<noteq> 0 \<or> written \<noteq> length data
               then (ESP_FAIL, snd (ev_control_vfs_close env fd (on_files f1 c)))
               else ev_control_vfs_close env fd (on_files f1 c)))"

definition ev_control_vfs_write_file ::
  "('f, 'h) handler_env \<Rightarrow> cstring \<Rightarrow> u8 list \<Rightarrow> ('f, 'h) serving \<Rightarrow> esp_err \<times> ('f, 'h) serving" where
  "ev_control_vfs_write_file env path data c = ev_control_vfs_write_file_mode env path data ''wb'' c"

definition ev_control_vfs_append_file ::
  "('f, 'h) handler_env \<Rightarrow> cstring \<Rightarrow> u8 list \<Rightarrow> ('f, 'h) serving \<Rightarrow> esp_err \<times> ('f, 'h) serving" where
  "ev_control_vfs_append_file env path data c = ev_control_vfs_write_file_mode env path data ''ab'' c"

text \<open>At most \<open>n\<close> bytes of the file.\<close>

definition ev_control_vfs_read_file ::
  "('f, 'h) handler_env \<Rightarrow> cstring \<Rightarrow> nat \<Rightarrow> ('f, 'h) serving \<Rightarrow> esp_err \<times> u8 list \<times> ('f, 'h) serving" where
  "ev_control_vfs_read_file env path n c =
     (case vo_open (he_vfs env) path ''rb'' (pf_files (co_rest c)) of
        (None, f) \<Rightarrow> (ESP_FAIL, [], on_files f c)
      | (Some fd, f) \<Rightarrow>
          (case vo_read (he_vfs env) fd n f of
             (None, f1) \<Rightarrow> (ESP_FAIL, [], snd (ev_control_vfs_close env fd (on_files f1 c)))
           | (Some (err, bytes), f1) \<Rightarrow>
               if err \<noteq> 0 then (ESP_FAIL, bytes, snd (ev_control_vfs_close env fd (on_files f1 c)))
               else let (result, c1) = ev_control_vfs_close env fd (on_files f1 c) in (result, bytes, c1)))"

definition ev_control_vfs_rename ::
  "('f, 'h) handler_env \<Rightarrow> cstring \<Rightarrow> cstring \<Rightarrow> ('f, 'h) serving \<Rightarrow> esp_err \<times> ('f, 'h) serving" where
  "ev_control_vfs_rename env old_path new_path c =
     (let (renamed, f) = vo_rename (he_vfs env) old_path new_path (pf_files (co_rest c))
      in (if renamed then ESP_OK else ESP_FAIL, on_files f c))"

section \<open>Paths and requests\<close>

text \<open>\<open>EV_CONTROL_PATH_MAX\<close> leaves room for the suffix and a NUL.\<close>

definition EV_CONTROL_PATH_TMP_SUFFIX :: cstring where "EV_CONTROL_PATH_TMP_SUFFIX = ''.tmp''"
definition EV_CONTROL_PATH_PARSE_CAP :: nat where "EV_CONTROL_PATH_PARSE_CAP = EV_CONTROL_METADATA_MAX + 1"

definition path_max :: "('f, 'h) handler_env \<Rightarrow> nat" where
  "path_max env = he_path_cap env - (length EV_CONTROL_PATH_TMP_SUFFIX + 1)"

text \<open>The member \<open>key\<close>, if it is there; and with a default, which a partial copy overwrites.\<close>

definition member_string :: "cstring \<Rightarrow> cstring \<Rightarrow> nat \<Rightarrow> cstring option" where
  "member_string request key capacity =
     (case ev_control_json_get_string request key capacity of (True, Some s) \<Rightarrow> Some s | _ \<Rightarrow> None)"

definition member_default :: "cstring \<Rightarrow> cstring \<Rightarrow> nat \<Rightarrow> cstring \<Rightarrow> cstring" where
  "member_default request key capacity fallback =
     (case snd (ev_control_json_get_string request key capacity) of Some s \<Rightarrow> s | None \<Rightarrow> fallback)"

definition script_error ::
  "('f, 'h) handler_env \<Rightarrow> u32 \<Rightarrow> cstring \<Rightarrow> cstring \<Rightarrow> ('f, 'h) serving \<Rightarrow> esp_err \<times> ('f, 'h) serving" where
  "script_error env seq code1 message c = ev_control_send_error env ''script.write'' seq code1 message c"

text \<open>\<open>execfile("path")\<close> and an end of line.\<close>

definition run_command :: "cstring \<Rightarrow> string" where
  "run_command path = ''execfile('' @ quoted path @ '')'' @ [CHR 0x0D, CHR 0x0A]"

definition push_command :: "('f, 'h) handler_env \<Rightarrow> cstring \<Rightarrow> ('f, 'h) serving \<Rightarrow> bool \<times> ('f, 'h) serving" where
  "push_command env path c =
     (let r = co_response c
      in ev_control_repl_rx_push (he_control env) (text_bytes (run_command path)) (length (run_command path))
           (Some (rc_link r)) (Some (rc_session_id r)) (rc_vm_epoch r) (rc_input_generation r) (rc_transition_id r) c)"

section \<open>\<open>script.write\<close>\<close>

text \<open>What a request asks for.\<close>

record script_chunk =
  sk_path :: cstring
  sk_content :: cstring
  sk_mode :: cstring
  sk_encoding :: cstring
  sk_has_offset :: bool
  sk_has_total :: bool
  sk_offset :: u32
  sk_total :: u32
  sk_run :: bool

definition script_chunk_of :: "cstring \<Rightarrow> script_chunk option" where
  "script_chunk_of request =
     (case (member_string request ''path'' EV_CONTROL_PATH_PARSE_CAP,
            member_string request ''contentBase64'' EV_CONTROL_PAYLOAD_MAX) of
        (Some path, Some content) \<Rightarrow>
          Some \<lparr>sk_path = path, sk_content = content, sk_mode = member_default request ''mode'' 16 ''overwrite'',
                sk_encoding = member_default request ''encoding'' 16 ''utf-8'',
                sk_has_offset = (ev_control_json_find_value request ''offset'' \<noteq> None),
                sk_has_total = (ev_control_json_find_value request ''totalBytes'' \<noteq> None),
                sk_offset = ev_control_json_get_u32 request ''offset'' 0,
                sk_total = ev_control_json_get_u32 request ''totalBytes'' 0,
                sk_run = ev_control_json_get_bool request ''runAfterWrite'' False\<rparr>
      | _ \<Rightarrow> None)"

text \<open>The error that the request is refused with before the file system is asked.\<close>

definition chunk_refused :: "('f, 'h) handler_env \<Rightarrow> script_chunk \<Rightarrow> (cstring \<times> cstring) option" where
  "chunk_refused env k =
     (if ev_control_path_too_long (path_max env) (Some (sk_path k)) then Some (''PATH_TOO_LONG'', ''script path too long'')
      else if \<not> ev_control_path_allowed (path_max env) (Some (sk_path k)) then Some (''INVALID_PATH'', ''path is not allowed'')
      else if sk_mode k \<noteq> ''overwrite'' \<and> sk_mode k \<noteq> ''create'' then Some (''INVALID_MODE'', ''unsupported mode'')
      else if sk_encoding k \<noteq> ''utf-8'' \<and> sk_encoding k \<noteq> ''binary'' then Some (''INVALID_ENCODING'', ''unsupported encoding'')
      else if sk_has_offset k \<noteq> sk_has_total k
      then Some (''INVALID_ARGUMENT'', ''offset and totalBytes must be provided together'')
      else if sk_has_total k \<and> sk_total k < sk_offset k then Some (''INVALID_ARGUMENT'', ''offset exceeds totalBytes'')
      else None)"

text \<open>The staging file is begun anew or appended to.\<close>

definition stage_chunk ::
  "('f, 'h) handler_env \<Rightarrow> script_chunk \<Rightarrow> cstring \<Rightarrow> u8 list \<Rightarrow> ('f, 'h) serving
     \<Rightarrow> (cstring \<times> cstring) option \<times> ('f, 'h) serving" where
  "stage_chunk env k tmp data c =
     (let (refused, ret, c1) =
        (if \<not> sk_has_total k \<or> sk_offset k = 0
         then
           let (removed, c1) = ev_control_vfs_remove_if_exists env tmp c
           in if removed \<noteq> ESP_OK then (Some (''VFS_FAILED'', ''failed to prepare temporary file''), ESP_FAIL, c1)
              else let (ret, c2) = ev_control_vfs_write_file env tmp data c1 in (None, ret, c2)
         else
           let (result, found, c1) = ev_control_vfs_exists env tmp c
           in if result \<noteq> ESP_OK \<or> \<not> found
              then (Some (''INVALID_STATE'', ''missing temporary file for chunk''), ESP_FAIL, c1)
              else let (ret, c2) = ev_control_vfs_append_file env tmp data c1 in (None, ret, c2))
      in case refused of Some e \<Rightarrow> (Some e, c1)
         | None \<Rightarrow>
             if ret \<noteq> ESP_OK
             then (Some (''WRITE_FAILED'', ''failed to write temporary file''), snd (ev_control_vfs_remove_if_exists env tmp c1))
             else (None, c1))"

definition script_payload :: "script_chunk \<Rightarrow> nat \<Rightarrow> bool \<Rightarrow> cstring" where
  "script_payload k n complete =
     ''{\"ok\":true,\"path\":'' @ quoted (sk_path k) @ '',\"bytes\":'' @ decimal n @
     '',\"offset\":'' @ decimal (if sk_has_total k then unat (sk_offset k) else 0) @
     '',\"totalBytes\":'' @ decimal (if sk_has_total k then unat (sk_total k) else n) @
     '',\"complete\":'' @ ev_control_bool_str complete @ '',\"runAfterWrite\":'' @ ev_control_bool_str (sk_run k) @ ''}''"

text \<open>The chunk in the staging file, which becomes the target when it is complete.\<close>

definition chunk_complete :: "script_chunk \<Rightarrow> u8 list \<Rightarrow> bool" where
  "chunk_complete k data = (\<not> sk_has_total k \<or> unat (sk_offset k) + length data = unat (sk_total k))"

definition publish_chunk ::
  "('f, 'h) handler_env \<Rightarrow> script_chunk \<Rightarrow> u8 list \<Rightarrow> ('f, 'h) serving \<Rightarrow> (cstring \<times> cstring) option \<times> ('f, 'h) serving" where
  "publish_chunk env k data c =
     (let tmp = sk_path k @ EV_CONTROL_PATH_TMP_SUFFIX
      in if he_path_cap env \<le> length tmp then (Some (''PATH_TOO_LONG'', ''temporary path too long''), c)
         else if sk_has_total k \<and> unat (sk_total k) < unat (sk_offset k) + length data
         then (Some (''INVALID_ARGUMENT'', ''chunk exceeds totalBytes''), c)
         else
           let (refused, c1) = stage_chunk env k tmp data c
           in if refused \<noteq> None \<or> \<not> chunk_complete k data then (refused, c1)
              else
                let (renamed, c2) = ev_control_vfs_rename env tmp (sk_path k) c1
                in if renamed = ESP_OK then (None, c2)
                   else (Some (''RENAME_FAILED'', ''failed to publish file''), snd (ev_control_vfs_remove_if_exists env tmp c2)))"

text \<open>From the decoded contents on.\<close>

definition write_chunk ::
  "('f, 'h) handler_env \<Rightarrow> u32 \<Rightarrow> script_chunk \<Rightarrow> u8 list \<Rightarrow> ('f, 'h) serving \<Rightarrow> esp_err \<times> ('f, 'h) serving" where
  "write_chunk env seq k data c =
     (let (refused, c1) = publish_chunk env k data c; complete = chunk_complete k data
      in case refused of Some (code1, message) \<Rightarrow> script_error env seq code1 message c1
         | None \<Rightarrow>
             let c2 = (if sk_run k \<and> complete \<and> length (run_command (sk_path k)) < 192
                       then snd (push_command env (sk_path k) c1) else c1)
             in send_text env 256 ''script.write'' (script_payload k (length data) complete) seq c2)"

definition ev_control_send_script_write ::
  "('f, 'h) handler_env \<Rightarrow> u32 \<Rightarrow> cstring \<Rightarrow> ('f, 'h) serving \<Rightarrow> esp_err \<times> ('f, 'h) serving" where
  "ev_control_send_script_write env seq request c =
     (case script_chunk_of request of
        None \<Rightarrow> script_error env seq ''INVALID_ARGUMENT'' ''missing path or contentBase64'' c
      | Some k \<Rightarrow>
          (case chunk_refused env k of Some (code1, message) \<Rightarrow> script_error env seq code1 message c
           | None \<Rightarrow>
               let (inspected, found, c1) =
                     (if sk_mode k = ''create'' then ev_control_vfs_exists env (sk_path k) c else (ESP_OK, False, c));
                   capacity = length (sk_content k) * 3 div 4 + 4
               in if inspected \<noteq> ESP_OK then script_error env seq ''VFS_FAILED'' ''failed to inspect target path'' c1
                  else if found then script_error env seq ''FILE_EXISTS'' ''target already exists'' c1
                  else if \<not> he_memory env capacity c1
                  then script_error env seq ''NO_MEM'' ''failed to allocate decode buffer'' c1
                  else
                    case ev_control_base64_decode (sk_content k) capacity of
                      Inl e \<Rightarrow> script_error env seq ''INVALID_BASE64'' (he_err_name env e) c1
                    | Inr data \<Rightarrow> write_chunk env seq k data c1))"

section \<open>\<open>script.run\<close>\<close>

definition run_error ::
  "('f, 'h) handler_env \<Rightarrow> u32 \<Rightarrow> cstring \<Rightarrow> cstring \<Rightarrow> ('f, 'h) serving \<Rightarrow> esp_err \<times> ('f, 'h) serving" where
  "run_error env seq code1 message c = ev_control_send_error env ''script.run'' seq code1 message c"

text \<open>The three members that identify a trial.\<close>

definition trial_identity :: "cstring \<Rightarrow> cstring option \<times> cstring option \<times> cstring option" where
  "trial_identity request =
     (member_string request ''trial_operation_id'' (EV_LAUNCHER_OPERATION_ID_LEN + 1),
      member_string request ''trial_source_path'' (EV_LAUNCHER_SOURCE_PATH_MAX + 1),
      member_string request ''trial_source_hash'' (EV_LAUNCHER_SOURCE_HASH_HEX_LEN + 1))"

definition cancel_arm :: "cstring option \<Rightarrow> ('f, 'h) serving \<Rightarrow> ('f, 'h) serving" where
  "cancel_arm operation c =
     (if operation = None then c
      else on_platform (\<lambda>p. p\<lparr>pf_launcher := snd (esp_vision_launcher_cancel_trial_arm operation (pf_launcher p))\<rparr>) c)"

text \<open>From the armed trial on; \<open>operation\<close> is that of the trial, if there is one.\<close>

definition run_script ::
  "('f, 'h) handler_env \<Rightarrow> u32 \<Rightarrow> cstring \<Rightarrow> cstring option \<Rightarrow> ('f, 'h) serving \<Rightarrow> esp_err \<times> ('f, 'h) serving" where
  "run_script env seq path operation c =
     (let (inspected, found, c1) = ev_control_vfs_exists env path c
      in if inspected \<noteq> ESP_OK
         then run_error env seq ''VFS_FAILED'' ''failed to inspect script path'' (cancel_arm operation c1)
         else if \<not> found then run_error env seq ''NOT_FOUND'' ''script not found'' (cancel_arm operation c1)
         else if 192 \<le> length (run_command path)
         then run_error env seq ''PATH_TOO_LONG'' ''script path too long'' (cancel_arm operation c1)
         else
           let (pushed, c2) = push_command env path c1
           in if \<not> pushed then run_error env seq ''REPL_BUSY'' ''failed to enqueue script'' (cancel_arm operation c2)
              else send_text env 256 ''script.run''
                     (''{\"ok\":true,\"path\":'' @ quoted path @ '',\"queued\":true}'') seq c2)"

definition ev_control_send_script_run ::
  "('f, 'h) handler_env \<Rightarrow> u32 \<Rightarrow> cstring \<Rightarrow> ('f, 'h) serving \<Rightarrow> esp_err \<times> ('f, 'h) serving" where
  "ev_control_send_script_run env seq request c =
     (case member_string request ''path'' EV_CONTROL_PATH_PARSE_CAP of
        None \<Rightarrow> run_error env seq ''INVALID_ARGUMENT'' ''missing path'' c
      | Some path \<Rightarrow>
          if ev_control_path_too_long (path_max env) (Some path)
          then run_error env seq ''PATH_TOO_LONG'' ''script path too long'' c
          else if \<not> ev_control_path_allowed (path_max env) (Some path)
          then run_error env seq ''INVALID_PATH'' ''path is not allowed'' c
          else
            (case trial_identity request of
               (None, None, None) \<Rightarrow> run_script env seq path None c
             | (Some operation, Some source_path, Some source_hash) \<Rightarrow>
                 let (armed, l) = esp_vision_launcher_arm_trial (ev_session_vm_epoch (w_session (co_world c)))
                       (Some operation) (Some path) (Some source_path) (Some source_hash) (pf_launcher (co_rest c));
                     c1 = on_platform (\<lambda>p. p\<lparr>pf_launcher := l\<rparr>) c
                 in if \<not> armed
                    then run_error env seq ''TRIAL_NOT_AUTHORIZED'' ''trial runner identity is invalid or already active'' c1
                    else run_script env seq path (Some operation) c1
             | _ \<Rightarrow> run_error env seq ''INVALID_ARGUMENT'' ''incomplete trial identity'' c))"

end
