(* ===== verification/ControlHello.thy ===== *)
theory ControlHello
  imports ControlScript
begin

text \<open>
  The methods of \<open>platform/ev_control_transport.c\<close> that begin and end a session, and the events that tell
  the host of a change: \<open>hello\<close>, \<open>session.keepalive\<close>, \<open>session.release\<close>, \<open>route.changed\<close> and the event \<open>hello\<close>.
\<close>

definition EV_SESSION_KEEPALIVE_MS :: u32 where "EV_SESSION_KEEPALIVE_MS = 5000"

section \<open>\<open>hello\<close>\<close>

text \<open>The members that every answer to \<open>hello\<close> begins with.\<close>

definition device_members :: "('f, 'h) handler_env \<Rightarrow> string" where
  "device_members env =
     (let i = he_identity env
      in ''{\"ok\":true,\"device\":\"esp-vision\",\"deviceId\":'' @ quoted (id_device i) @
         '',\"hostname\":'' @ quoted (id_hostname i) @ '',\"firmware\":{\"id\":'' @ quoted (id_firmware i) @
         '',\"version\":'' @ quoted (id_version i) @ ''},\"board\":'' @ quoted (id_board i) @
         '',\"arch\":'' @ quoted (id_arch i) @ '',\"idf\":'' @ quoted (id_idf i) @ '','')"

definition snapshot_of :: "('f, 'h) handler_env \<Rightarrow> ('f, 'h) serving \<Rightarrow> ev_session_snapshot_t option" where
  "snapshot_of env c =
     (case ev_session_snapshot (w_session (co_world c)) (now_ms env c) (Some (ce_stack (he_control env))) of
        (True, out) \<Rightarrow> out | _ \<Rightarrow> None)"

definition ev_control_build_hello_discovery_payload ::
  "('f, 'h) handler_env \<Rightarrow> nat \<Rightarrow> ('f, 'h) serving \<Rightarrow> esp_err \<times> cstring" where
  "ev_control_build_hello_discovery_payload env capacity c =
     (case snapshot_of env c of None \<Rightarrow> (ESP_ERR_INVALID_STATE, [])
      | Some snap \<Rightarrow>
          let payload = device_members env @ ''\"evMuxVersion\":4,\"vmReady\":'' @ ev_control_bool_str (sn_vm_ready snap) @
                (if sn_has_owner snap
                 then '',\"session\":{\"occupied\":true,\"owner\":'' @
                      quoted (ev_transport_name (lr_transport_id (sn_owner_link snap))) @ ''}}''
                 else '',\"session\":null}'')
          in if capacity \<le> length payload then (ESP_ERR_INVALID_SIZE, take (capacity - 1) payload) else (ESP_OK, payload))"

definition ev_control_send_hello_discovery :: "('f, 'h) handler_env \<Rightarrow> u32 \<Rightarrow> ('f, 'h) serving \<Rightarrow> esp_err \<times> ('f, 'h) serving" where
  "ev_control_send_hello_discovery env seq c =
     (let (ret, payload) = ev_control_build_hello_discovery_payload env 768 c
      in if ret = ESP_ERR_INVALID_STATE
         then ev_control_send_error env ''hello'' seq ''INTERNAL_ERROR'' ''session state unavailable'' c
         else if ret \<noteq> ESP_OK then (ret, c)
         else ev_control_send_rpc_with_seq env ''rsp'' ''hello'' payload seq c)"

text \<open>The answer to a client that finds the device occupied.\<close>

definition busy_payload :: "bool \<Rightarrow> ev_session_snapshot_t \<Rightarrow> cstring" where
  "busy_payload releasing snap =
     ''{\"ok\":false,\"error\":{\"code\":'' @ quoted (if releasing then ''SESSION_RELEASING'' else ''SESSION_BUSY'') @
     '',\"message\":'' @ quoted (if releasing then ''previous session release is completing'' else ''another link owns the device'') @
     ''},\"owner\":'' @ quoted (ev_transport_name (lr_transport_id (sn_owner_link snap))) @
     '',\"leaseRemainingMs\":'' @ decimal (unat (sn_lease_remaining_ms snap)) @ ''}''"

definition hello_busy ::
  "('f, 'h) handler_env \<Rightarrow> u32 \<Rightarrow> ev_session_snapshot_t \<Rightarrow> ('f, 'h) serving \<Rightarrow> esp_err \<times> ('f, 'h) serving" where
  "hello_busy env seq snap c =
     (let link = rc_link (co_response c);
          releasing = (sn_state snap = EV_SESSION_RELEASING \<and>
            ControlFrame.ev_control_link_equal (Some (sn_owner_link snap)) (Some link));
          payload = busy_payload releasing snap;
          close1 = (lr_transport_id link = EV_TRANSPORT_TCP \<and> \<not> releasing)
      in if 320 \<le> length payload then (ESP_ERR_INVALID_SIZE, c)
         else
           let c1 = (if close1 then snd (ev_control_set_completion EV_CONTROL_TX_DONE_CLOSE_LINK (Some []) c) else c);
               (ret, c2) = ev_control_send_rpc_with_seq env ''rsp'' ''hello'' payload seq c1
           in (ret, if ret \<noteq> ESP_OK \<and> close1 then close_link env link c2 else c2))"

definition session_payload :: "('f, 'h) handler_env \<Rightarrow> ev_session_snapshot_t \<Rightarrow> cstring" where
  "session_payload env snap =
     device_members env @ ''\"evMuxVersion\":4,\"vmReady\":'' @ ev_control_bool_str (sn_vm_ready snap) @
     '',\"session\":{\"id\":'' @ quoted (sn_session_id snap) @
     '',\"owner\":'' @ quoted (ev_transport_name (lr_transport_id (sn_owner_link snap))) @
     '',\"leaseMs\":'' @ decimal (unat EV_SESSION_LEASE_MS) @ '',\"keepaliveMs\":'' @ decimal (unat EV_SESSION_KEEPALIVE_MS) @
     '',\"vmEpoch\":'' @ decimal (unat (sn_vm_epoch snap)) @
     ''},\"routes\":{\"user\":'' @ quoted (ev_transport_name (sn_user_route snap)) @
     '',\"debug\":'' @ quoted (ev_transport_name (sn_debug_route snap)) @ ''}}''"

text \<open>The client has the session \<open>snap\<close>; it keeps it only if it is told so.\<close>

definition hello_granted ::
  "('f, 'h) handler_env \<Rightarrow> u32 \<Rightarrow> ev_session_snapshot_t \<Rightarrow> ('f, 'h) serving \<Rightarrow> esp_err \<times> ('f, 'h) serving" where
  "hello_granted env seq snap c =
     (let link = rc_link (co_response c); payload = session_payload env snap
      in if 768 \<le> length payload then (ESP_ERR_INVALID_SIZE, hello_complete env link (sn_session_id snap) False c)
         else
           let c1 = on_response (\<lambda>r. r\<lparr>rc_session_id := sn_session_id snap, rc_vm_epoch := sn_vm_epoch snap\<rparr>) c;
               c2 = snd (ev_control_set_completion EV_CONTROL_TX_DONE_HELLO (Some (sn_session_id snap)) c1);
               (ret, c3) = ev_control_send_rpc_with_seq env ''rsp'' ''hello'' payload seq c2
           in (ret, if ret \<noteq> ESP_OK then hello_complete env link (sn_session_id snap) False (drop_completion c3) else c3))"

definition ev_control_send_hello_acquire ::
  "('f, 'h) handler_env \<Rightarrow> u32 \<Rightarrow> string \<Rightarrow> ('f, 'h) serving \<Rightarrow> esp_err \<times> ('f, 'h) serving" where
  "ev_control_send_hello_acquire env seq request c =
     (case ev_control_json_parse_hello (Some request) of
        Inl _ \<Rightarrow> ev_control_send_error env ''hello'' seq ''INVALID_ARGUMENT'' ''invalid hello JSON'' c
      | Inr hello \<Rightarrow>
          if \<not> he_acquire hello then ev_control_send_hello_discovery env seq c
          else if \<not> he_has_ev_mux_version hello
          then ev_control_send_error env ''hello'' seq ''INVALID_ARGUMENT'' ''evMuxVersion must be an integer'' c
          else if he_ev_mux_version hello \<noteq> 4
          then ev_control_send_error env ''hello'' seq ''VERSION_MISMATCH'' ''acquire requires evMuxVersion 4'' c
          else if \<not> he_has_client_nonce hello
          then ev_control_send_error env ''hello'' seq ''INVALID_ARGUMENT'' ''invalid clientNonce'' c
          else
            let (result, snap, w) = ev_session_acquire (he_board env) (he_random env c) (now_ms env c) (he_acquire_others env)
                  (co_world c) (Some (rc_link (co_response c))) (Some (he_client_nonce hello)) (now_ms env c)
                  (Some (ce_stack (he_control env)));
                c1 = with_world w c
            in if result = EV_SESSION_RESULT_BUSY then hello_busy env seq (the snap) c1
               else if result \<noteq> EV_SESSION_RESULT_OK
               then ev_control_send_error env ''hello'' seq (ev_session_result_code result) ''could not acquire session'' c1
               else hello_granted env seq (the snap) c1)"

section \<open>\<open>session.keepalive\<close> and \<open>session.release\<close>\<close>

definition keepalive_payload :: "ev_session_snapshot_t \<Rightarrow> cstring" where
  "keepalive_payload snap =
     ''{\"ok\":true,\"action\":\"session.keepalive\",\"sessionId\":'' @ quoted (sn_session_id snap) @
     '',\"leaseMs\":'' @ decimal (unat EV_SESSION_LEASE_MS) @ '',\"vmEpoch\":'' @ decimal (unat (sn_vm_epoch snap)) @
     '',\"vmReady\":'' @ ev_control_bool_str (sn_vm_ready snap) @ ''}''"

definition handle_keepalive :: "('f, 'h) handler_env \<Rightarrow> u32 \<Rightarrow> ('f, 'h) serving \<Rightarrow> ('f, 'h) serving" where
  "handle_keepalive env seq c =
     (let r = co_response c;
          (result, snap, sess) = ev_session_keepalive (w_transport (co_world c)) (w_session (co_world c)) (Some (rc_link r))
            (Some (rc_session_id r)) (now_ms env c) (Some (ce_stack (he_control env)));
          c1 = with_world ((co_world c)\<lparr>w_session := sess\<rparr>) c
      in if result \<noteq> EV_SESSION_RESULT_OK
         then snd (ev_control_send_error env ''session.keepalive'' seq (ev_session_result_code result) ''session is not active'' c1)
         else
           snd (send_text env 192 ''session.keepalive'' (keepalive_payload (the snap)) seq
                  (on_response (\<lambda>r. r\<lparr>rc_vm_epoch := sn_vm_epoch (the snap)\<rparr>) c1)))"

definition handle_release :: "('f, 'h) handler_env \<Rightarrow> u32 \<Rightarrow> ('f, 'h) serving \<Rightarrow> ('f, 'h) serving" where
  "handle_release env seq c =
     (let r = co_response c;
          (result, snap, sess) = ev_session_release_prepare (w_transport (co_world c)) (w_session (co_world c)) (now_ms env c)
            (Some (rc_link r)) (Some (rc_session_id r)) (Some (ce_stack (he_control env)));
          c1 = with_world ((co_world c)\<lparr>w_session := sess\<rparr>) c; sid = sn_session_id (the snap)
      in if result \<noteq> EV_SESSION_RESULT_OK
         then snd (ev_control_send_error env ''session.release'' seq (ev_session_result_code result) ''session is not active'' c1)
         else
           let (set1, c2) = ev_control_set_completion EV_CONTROL_TX_DONE_RELEASE (Some sid) c1
           in if \<not> set1
              then snd (ev_control_send_error env ''session.release'' seq ''INTERNAL_ERROR'' ''could not queue release response''
                          (release_finish env (rc_link r) sid c2))
              else
                let (ret, c3) = ev_control_send_rpc_with_seq env ''rsp'' ''session.release'' ''{\"ok\":true,\"accepted\":true}'' seq c2
                in if ret \<noteq> ESP_OK then release_finish env (rc_link r) sid (drop_completion c3) else c3)"

section \<open>Events\<close>

definition hello_event_payload :: "('f, 'h) handler_env \<Rightarrow> ev_session_snapshot_t \<Rightarrow> cstring" where
  "hello_event_payload env snap =
     device_members env @ ''\"evMuxVersion\":4,'' @
     (if sn_has_owner snap
      then ''\"session\":{\"id\":'' @ quoted (sn_session_id snap) @
           '',\"owner\":'' @ quoted (ev_transport_name (lr_transport_id (sn_owner_link snap))) @
           '',\"leaseMs\":'' @ decimal (unat EV_SESSION_LEASE_MS) @ '',\"keepaliveMs\":'' @ decimal (unat EV_SESSION_KEEPALIVE_MS) @
           '',\"vmEpoch\":'' @ decimal (unat (sn_vm_epoch snap)) @ ''}''
      else ''\"session\":null'') @
     '',\"vmEpoch\":'' @ decimal (unat (sn_vm_epoch snap)) @ '',\"vmReady\":true}''"

definition ev_control_send_hello_event :: "('f, 'h) handler_env \<Rightarrow> u32 \<Rightarrow> ('f, 'h) serving \<Rightarrow> esp_err \<times> ('f, 'h) serving" where
  "ev_control_send_hello_event env seq c =
     (case snapshot_of env c of None \<Rightarrow> (ESP_ERR_INVALID_STATE, c)
      | Some snap \<Rightarrow>
          if sn_has_owner snap \<and> \<not> sn_handshake_complete snap then (ESP_ERR_INVALID_STATE, c)
          else if 768 \<le> length (hello_event_payload env snap) then (ESP_ERR_INVALID_SIZE, c)
          else ev_control_send_rpc_with_domain env EV_RPC_USER ''event'' ''hello'' (hello_event_payload env snap) seq c)"

definition ev_control_transport_send_hello :: "('f, 'h) handler_env \<Rightarrow> ('f, 'h) serving \<Rightarrow> esp_err \<times> ('f, 'h) serving" where
  "ev_control_transport_send_hello env c =
     (if \<not> ev_session_vm_ready (w_session (co_world c)) then (ESP_ERR_INVALID_STATE, c)
      else let (seq, c1) = ev_control_next_seq c in ev_control_send_hello_event env seq c1)"

definition ev_control_stream_name :: "ev_stream \<Rightarrow> cstring" where
  "ev_control_stream_name stream =
     (case stream of EV_STREAM_USER \<Rightarrow> ''user'' | EV_STREAM_DEBUG \<Rightarrow> ''debug'' | EV_STREAM_MAX \<Rightarrow> ''unknown'')"

definition ev_control_stream_from_name :: "cstring \<Rightarrow> ev_stream" where
  "ev_control_stream_from_name nm =
     (if nm = ''user'' then EV_STREAM_USER else if nm = ''debug'' then EV_STREAM_DEBUG else EV_STREAM_MAX)"

definition ev_control_session_change_reason :: "ev_session_change_reason \<Rightarrow> cstring" where
  "ev_control_session_change_reason reason =
     (case reason of EV_SESSION_CHANGE_ACQUIRED \<Rightarrow> ''session_acquired'' | EV_SESSION_CHANGE_RELEASED \<Rightarrow> ''session_released''
      | EV_SESSION_CHANGE_EXPIRED \<Rightarrow> ''session_expired'' | EV_SESSION_CHANGE_LINK_LOST \<Rightarrow> ''link_lost''
      | EV_SESSION_CHANGE_TX_FAILED \<Rightarrow> ''tx_failed'')"

text \<open>Whether the change is still the last one.\<close>

definition transition_current :: "('f, 'h) handler_env \<Rightarrow> ev_session_snapshot_t \<Rightarrow> u32 \<Rightarrow> ('f, 'h) serving \<Rightarrow> bool" where
  "transition_current env snap transition_id c =
     (case snapshot_of env c of None \<Rightarrow> False
      | Some current \<Rightarrow> sn_transition_id current = transition_id \<and> sn_input_generation current = sn_input_generation snap)"

text \<open>The upload on the state of the handlers: it shares the session, the storage writer and the files.\<close>

definition file_world_of :: "('f, 'h) serving \<Rightarrow> ('f, 'h) file_world" where
  "file_world_of c =
     (let p = co_rest c
      in \<lparr>fw_lock = pf_file_lock p, fw_file = pf_file p, fw_session = w_session (co_world c), fw_msc = pf_msc p,
          fw_files = pf_files p\<rparr>)"

definition with_file_world :: "('f, 'h) file_world \<Rightarrow> ('f, 'h) serving \<Rightarrow> ('f, 'h) serving" where
  "with_file_world w c =
     with_world ((co_world c)\<lparr>w_session := fw_session w\<rparr>)
       (on_platform (\<lambda>p. p\<lparr>pf_file_lock := fw_lock w, pf_file := fw_file w, pf_msc := fw_msc w, pf_files := fw_files w\<rparr>) c)"

text \<open>What belongs to the old owner is taken away: its upload, its leases, its frames and its input.\<close>

definition drop_old_owner ::
  "('f, 'h) handler_env \<Rightarrow> bool \<Rightarrow> ev_session_snapshot_t \<Rightarrow> ev_link_ref option \<Rightarrow> cstring option \<Rightarrow> ('f, 'h) serving
     \<Rightarrow> ('f, 'h) serving option" where
  "drop_old_owner env file_free snap previous_link previous_session_id c =
     (let c1 = with_file_world (ev_file_transfer_poll (he_file env) file_free (file_world_of c)) c;
          c2 = on_platform (\<lambda>p. p\<lparr>pf_msc := esp_vision_msc_writer_session_changed (fe_msc (he_file env)) (pf_msc p)
                 (if sn_has_owner snap then Some (sn_session_id snap) else None)\<rparr>) c1
      in Option.bind
           (case (previous_link, previous_session_id) of
              (Some l, Some s) \<Rightarrow>
                if s = [] then Some c2 else let (calls, c3) = cancel_session env l s c2 in run_completed env calls c3
            | _ \<Rightarrow> Some c2)
           (\<lambda>c3.
             case ev_control_vm_queue_clear_stale (sn_input_generation snap) c3 of Inl _ \<Rightarrow> None
             | Inr c4 \<Rightarrow> Some (snd (ev_control_repl_rx_clear_generation (sn_input_generation snap) c4))))"

definition route_changed_payload :: "ev_stream \<Rightarrow> cstring \<Rightarrow> ev_session_change_reason \<Rightarrow> ev_session_snapshot_t \<Rightarrow> u32 \<Rightarrow> cstring" where
  "route_changed_payload stream route reason snap transition_id =
     ''{\"ok\":true,\"stream\":'' @ quoted (ev_control_stream_name stream) @ '',\"route\":'' @ quoted route @
     '',\"reason\":'' @ quoted (ev_control_session_change_reason reason) @
     '',\"sessionId\":'' @ (if sn_has_owner snap then quoted (sn_session_id snap) else ''null'') @
     '',\"transitionId\":'' @ decimal (unat transition_id) @ ''}''"

definition send_route_changed ::
  "('f, 'h) handler_env \<Rightarrow> cstring \<Rightarrow> ev_session_change_reason \<Rightarrow> ev_session_snapshot_t \<Rightarrow> u32 \<Rightarrow> ev_stream
     \<Rightarrow> ('f, 'h) serving \<Rightarrow> ('f, 'h) serving" where
  "send_route_changed env route reason snap transition_id stream c =
     (let payload = route_changed_payload stream route reason snap transition_id
      in if 224 \<le> length payload then c
         else let (seq, c1) = ev_control_next_seq c
              in snd (ev_control_send_rpc_with_domain env EV_RPC_USER ''event'' ''route.changed'' payload seq c1))"

text \<open>\<open>file_free\<close> says whether the lock of the upload is free.\<close>

definition ev_control_session_changed ::
  "('f, 'h) handler_env \<Rightarrow> bool \<Rightarrow> ev_session_snapshot_t option \<Rightarrow> ev_session_change_reason \<Rightarrow> u32 \<Rightarrow> ev_link_ref option
     \<Rightarrow> cstring option \<Rightarrow> ('f, 'h) serving \<Rightarrow> ('f, 'h) serving option" where
  "ev_control_session_changed env file_free snapshot reason transition_id previous_link previous_session_id c =
     (case snapshot of None \<Rightarrow> Some c
      | Some snap \<Rightarrow>
          if \<not> transition_current env snap transition_id c then Some c
          else
            Option.bind (drop_old_owner env file_free snap previous_link previous_session_id c) (\<lambda>c1.
              if \<not> transition_current env snap transition_id c1 then Some c1
              else
                let (route, ch) = (if sn_has_owner snap
                       then (ev_transport_name (lr_transport_id (sn_owner_link snap)), w_channel (co_world c1))
                       else ev_channel_get (he_board env) (w_channel (co_world c1)) EV_STREAM_USER);
                    c2 = with_world ((co_world c1)\<lparr>w_channel := ch\<rparr>) c1
                in if sn_has_owner snap \<and> EV_SESSION_ID_HEX_LEN + 3 \<le> length (quoted (sn_session_id snap)) then Some c2
                   else Some (fold (send_route_changed env route reason snap transition_id) [EV_STREAM_USER, EV_STREAM_DEBUG] c2)))"

end
