(* ===== verification/ControlInfo.thy ===== *)
theory ControlInfo
  imports ControlHello MuxStream
begin

text \<open>
  The methods of \<open>platform/ev_control_transport.c\<close> that only report: the capabilities, the state of the
  transports and routes, and \<open>debug.info\<close>, \<open>debug.capture_frame\<close> and \<open>debug.capture_screen\<close>.
\<close>

section \<open>Capabilities\<close>

definition ev_control_json_nullable_bool :: "bool \<Rightarrow> bool \<Rightarrow> cstring" where
  "ev_control_json_nullable_bool known v = (if \<not> known then ''null'' else if v then ''true'' else ''false'')"

definition number :: "u32 \<Rightarrow> string" where
  "number w = decimal (unat w)"

definition endpoint_state :: "('f, 'h) handler_env \<Rightarrow> ev_transport_id \<Rightarrow> ('f, 'h) serving \<Rightarrow> ev_transport_endpoint_state_t" where
  "endpoint_state env i c =
     the (ev_transport_endpoint_state (he_board env) (he_cdc env c) (w_transport (co_world c)) i EV_TRANSPORT_PHYSICAL_SLOT
            (Some zero_endpoint))"

definition uart_speed :: "('f, 'h) handler_env \<Rightarrow> ('f, 'h) serving \<Rightarrow> u32" where
  "uart_speed env c = ev_transport_uart_baudrate (he_board env) (ub_hw (pf_uart (co_rest c)))"

definition sink_state :: "('f, 'h) handler_env \<Rightarrow> cstring \<Rightarrow> ('f, 'h) serving \<Rightarrow> cstring" where
  "sink_state env nm c = ev_channel_sink_state (he_board env) (he_cdc env c) (w_transport (co_world c)) (Some nm)"

definition sink_text :: "('f, 'h) handler_env \<Rightarrow> bool \<Rightarrow> ev_transport_id \<Rightarrow> cstring \<Rightarrow> ('f, 'h) serving \<Rightarrow> string" where
  "sink_text env first1 i kind c =
     (let st = endpoint_state env i c;
          tx_timeout = (if i = EV_TRANSPORT_UART
            then take 111 ('',\"txTimeout\":{\"baseMs\":1500,\"bitsPerByte\":10,\"factor\":2,\"marginMs\":250,\"maxMs\":10000,\"baud\":'' @
                           number (uart_speed env c) @ ''}'')
            else [])
      in (if first1 then [] else '','') @ ''{\"id\":'' @ quoted (ev_transport_name i) @ '',\"kind\":'' @ quoted kind @
         '',\"supported\":'' @ ev_control_bool_str (es_supported st) @
         '',\"state\":'' @ quoted (sink_state env (ev_transport_name i) c) @
         '',\"present\":'' @ ev_control_json_nullable_bool (es_present_known st) (es_present st) @
         '',\"connected\":'' @ ev_control_json_nullable_bool (es_connected_known st) (es_connected st) @
         '',\"ready\":'' @ ev_control_bool_str (es_ready st) @ '',\"owner\":'' @ ev_control_bool_str (es_owner st) @
         tx_timeout @ ''}'')"

text \<open>\<open>payload\<close> is what has been printed into a buffer of \<open>capacity\<close> characters.\<close>

definition ev_control_append_sink ::
  "('f, 'h) handler_env \<Rightarrow> nat \<Rightarrow> bool \<Rightarrow> ev_transport_id \<Rightarrow> cstring \<Rightarrow> ('f, 'h) serving \<Rightarrow> string \<Rightarrow> string option" where
  "ev_control_append_sink env capacity first1 i kind c payload =
     (let more = sink_text env first1 i kind c
      in if capacity - length payload \<le> length more then None else Some (payload @ more))"

fun append_sinks ::
  "('f, 'h) handler_env \<Rightarrow> nat \<Rightarrow> bool \<Rightarrow> (ev_transport_id \<times> cstring) list \<Rightarrow> ('f, 'h) serving \<Rightarrow> string \<Rightarrow> string option" where
  "append_sinks env capacity first1 [] c payload = Some payload"
| "append_sinks env capacity first1 ((i, kind) # rest) c payload =
     (case ev_control_append_sink env capacity first1 i kind c payload of None \<Rightarrow> None
      | Some p \<Rightarrow> append_sinks env capacity False rest c p)"

definition sink_kinds :: "(ev_transport_id \<times> cstring) list" where
  "sink_kinds = [(EV_TRANSPORT_USJ, ''usb_serial_jtag''), (EV_TRANSPORT_USB, ''usb_otg_cdc''), (EV_TRANSPORT_UART, ''uart''),
     (EV_TRANSPORT_TCP, ''tcp'')]"

definition capabilities_head :: "('f, 'h) handler_env \<Rightarrow> string" where
  "capabilities_head env =
     device_members env @ ''\"protocol\":{\"evMuxVersion\":4},\"usbProduct\":'' @ quoted (id_usb_product (he_identity env)) @
     '',\"defaultSink\":'' @ quoted (default_sink (he_board env)) @ '',\"fallbackSink\":'' @ quoted (fallback_sink (he_board env)) @
     '',\"sinks\":[''"

definition uart_members :: "('f, 'h) handler_env \<Rightarrow> ('f, 'h) serving \<Rightarrow> string" where
  "uart_members env c =
     (if uart_speed env c = 0 then ''null''
      else take 255 (''{\"baseline\":'' @ number EV_UART_BAUD_BASELINE @ '',\"current\":'' @ number (uart_speed env c) @
        '',\"candidates\":[2000000,1500000,921600,460800,115200],\"probeBytes\":'' @ decimal EV_UART_BAUD_PROBE_BYTES @
        '',\"timeoutMs\":'' @ number EV_UART_BAUD_TIMEOUT_MS @ '',\"switchDelayMs\":'' @ number EV_UART_BAUD_SWITCH_DELAY_MS @ ''}''))"

definition capabilities_tail :: "('f, 'h) handler_env \<Rightarrow> ('f, 'h) serving \<Rightarrow> string" where
  "capabilities_tail env c =
     ''],\"streams\":[\"user\",\"debug\"],\"channels\":[\"user.rpc\",\"debug.rpc\",\"repl.stdin\",\"repl.stdout\",'' @
     ''\"repl.stderr\",\"repl.signal\",\"log.idf\",\"preview.frame\"],\"features\":[\"hello\",\"capabilities\",'' @
     ''\"transport.state\",\"route.get\",\"route.changed\",\"session.firstCome\",\"session.keepalive\",'' @
     ''\"network.background\",\"network.configure\",\"framed.repl\",\"preview.subscribe\",\"preview.unsubscribe\",'' @
     ''\"preview.observers.v1\",\"file.write.binary\",\"script.write\",\"script.write.chunked\",\"script.run\",'' @
     ''\"launcher.boot.status.v1\",\"launcher.trial.status.v1\",\"launcher.typed-runner.v1\",\"debug.info\",'' @
     ''\"debug.capture_frame\",\"debug.capture_frame.observed.v1\",\"debug.capture_screen\",\"device.control\"'' @
     (if id_msc (he_identity env) then '',\"storage.writer.lease\"'' else []) @
     ''],\"limits\":{\"metadataMax\":384,\"rxPayloadMax\":2048,\"fileWriteChunkMax\":16384,\"replInputMax\":511,'' @
     ''\"vmPendingMax\":1,\"txLargePayloadMax\":'' @ decimal EV_MUX_LARGE_PAYLOAD_MAX @
     '',\"txFrameTimeoutMs\":1500,\"txQueueTimeoutMs\":2000},\"session\":{\"policy\":\"firstCome\",\"leaseMs\":'' @
     number EV_SESSION_LEASE_MS @ '',\"keepaliveMs\":'' @ number EV_SESSION_KEEPALIVE_MS @
     ''},\"tcp\":{\"supported\":'' @ ev_control_bool_str (hw_tcp (he_board env)) @
     '',\"port\":'' @ number (id_tcp_port (he_identity env)) @ '',\"maxLinks\":'' @ decimal (unat EV_TRANSPORT_TCP_LINKS) @
     '',\"maxObservers\":'' @ decimal EV_TRANSPORT_PREVIEW_OBSERVERS @
     '',\"observerFrameTimeoutMs\":'' @ number EV_MUX_OBSERVER_FRAME_TIMEOUT_MS @ '',\"observerIdleTimeoutMs\":4000,'' @
     ''\"handshakeTimeoutMs\":3000},\"uartBaud\":'' @ uart_members env c @ ''}''"

definition ev_control_send_capabilities :: "('f, 'h) handler_env \<Rightarrow> u32 \<Rightarrow> ('f, 'h) serving \<Rightarrow> esp_err \<times> ('f, 'h) serving" where
  "ev_control_send_capabilities env seq c =
     (if 3072 \<le> length (capabilities_head env) then (ESP_ERR_INVALID_SIZE, c)
      else
        case append_sinks env 3072 True sink_kinds c (capabilities_head env) of None \<Rightarrow> (ESP_ERR_INVALID_SIZE, c)
        | Some payload \<Rightarrow> send_text env 3072 ''capabilities'' (payload @ capabilities_tail env c) seq c)"

section \<open>Transports and routes\<close>

text \<open>The route of a stream and whether it is ready; both initialise the routes first.\<close>

definition route_of :: "('f, 'h) handler_env \<Rightarrow> ev_stream \<Rightarrow> ('f, 'h) serving \<Rightarrow> cstring \<times> bool \<times> ('f, 'h) serving" where
  "route_of env stream c =
     (let w = co_world c;
          (route, ch) = ev_channel_get (he_board env) (w_channel w) stream;
          (ready, ch1) = ev_channel_ready (he_board env) (he_cdc env c) (w_transport w) ch stream
      in (route, ready, with_world (w\<lparr>w_channel := ch1\<rparr>) c))"

definition sink_members :: "('f, 'h) handler_env \<Rightarrow> cstring \<Rightarrow> ('f, 'h) serving \<Rightarrow> string" where
  "sink_members env nm c =
     (let t = w_transport (co_world c)
      in quoted nm @ '':{\"state\":'' @ quoted (sink_state env nm c) @
         '',\"supported\":'' @ ev_control_bool_str (ev_channel_sink_supported (he_board env) (he_cdc env c) t (Some nm)) @
         '',\"ready\":'' @ ev_control_bool_str (ev_channel_sink_ready (he_board env) (he_cdc env c) t (Some nm)) @
         (if nm = ''usb''
          then '',\"present\":'' @ ev_control_json_nullable_bool True (ev_channel_sink_present (he_board env) (he_cdc env c) t (Some nm)) @
               '',\"connected\":'' @ ev_control_json_nullable_bool True (ev_channel_sink_ready (he_board env) (he_cdc env c) t (Some nm))
          else []) @ ''}'')"

definition stream_members :: "cstring \<Rightarrow> cstring \<Rightarrow> bool \<Rightarrow> string" where
  "stream_members nm route ready =
     quoted nm @ '':{\"route\":'' @ quoted route @ '',\"auto\":false,\"ready\":'' @ ev_control_bool_str ready @ ''}''"

text \<open>Without a session the snapshot on the stack is as it was.\<close>

definition ev_control_send_transport_state :: "('f, 'h) handler_env \<Rightarrow> u32 \<Rightarrow> ('f, 'h) serving \<Rightarrow> esp_err \<times> ('f, 'h) serving" where
  "ev_control_send_transport_state env seq c =
     (let snap = (case snapshot_of env c of Some s \<Rightarrow> s | None \<Rightarrow> ce_stack (he_control env));
          (user, user_ready, c1) = route_of env EV_STREAM_USER c;
          (debug, debug_ready, c2) = route_of env EV_STREAM_DEBUG c1
      in send_text env 1024 ''transport.state''
           (''{\"ok\":true,\"defaultSink\":'' @ quoted (default_sink (he_board env)) @
            '',\"fallbackSink\":'' @ quoted (fallback_sink (he_board env)) @
            '',\"owner\":'' @ ev_control_bool_str (sn_has_owner snap) @
            '',\"sessionId\":'' @ quoted (if sn_has_owner snap then sn_session_id snap else []) @
            '',\"vmEpoch\":'' @ number (sn_vm_epoch snap) @ '','' @ stream_members ''user'' user user_ready @ '','' @
            stream_members ''debug'' debug debug_ready @ '',\"sinks\":{'' @ sink_members env ''usj'' c2 @ '','' @
            sink_members env ''usb'' c2 @ '','' @ sink_members env ''uart'' c2 @ '','' @ sink_members env ''tcp'' c2 @ ''}}'')
           seq c2)"

definition ev_control_send_route_get :: "('f, 'h) handler_env \<Rightarrow> u32 \<Rightarrow> cstring \<Rightarrow> ('f, 'h) serving \<Rightarrow> esp_err \<times> ('f, 'h) serving" where
  "ev_control_send_route_get env seq request c =
     (case member_string request ''stream'' 16 of
        None \<Rightarrow> ev_control_send_error env ''route.get'' seq ''INVALID_ARGUMENT'' ''missing stream'' c
      | Some nm \<Rightarrow>
          let stream = ev_control_stream_from_name nm
          in if stream = EV_STREAM_MAX
             then ev_control_send_error env ''route.get'' seq ''INVALID_STREAM'' ''unknown stream'' c
             else
               let (route, ready, c1) = route_of env stream c
               in send_text env 192 ''route.get''
                    (''{\"ok\":true,\"stream\":'' @ quoted nm @ '',\"route\":'' @ quoted route @
                     '',\"auto\":false,\"ready\":'' @ ev_control_bool_str ready @ ''}'') seq c1)"

definition ev_control_send_route_bind :: "('f, 'h) handler_env \<Rightarrow> u32 \<Rightarrow> ('f, 'h) serving \<Rightarrow> esp_err \<times> ('f, 'h) serving" where
  "ev_control_send_route_bind env seq c =
     ev_control_send_error env ''route.bind'' seq ''UNSUPPORTED_OPERATION'' ''use session.release and hello'' c"

definition ev_control_send_route_auto :: "('f, 'h) handler_env \<Rightarrow> u32 \<Rightarrow> ('f, 'h) serving \<Rightarrow> esp_err \<times> ('f, 'h) serving" where
  "ev_control_send_route_auto env seq c =
     ev_control_send_error env ''route.auto'' seq ''UNSUPPORTED_OPERATION'' ''use session.release and hello'' c"

section \<open>\<open>debug.info\<close>\<close>

definition info_error :: "('f, 'h) handler_env \<Rightarrow> u32 \<Rightarrow> cstring \<Rightarrow> cstring \<Rightarrow> ('f, 'h) serving \<Rightarrow> esp_err \<times> ('f, 'h) serving" where
  "info_error env seq code1 message c = ev_control_send_error env ''debug.info'' seq code1 message c"

definition ev_control_send_debug_info_device :: "('f, 'h) handler_env \<Rightarrow> u32 \<Rightarrow> ('f, 'h) serving \<Rightarrow> esp_err \<times> ('f, 'h) serving" where
  "ev_control_send_debug_info_device env seq c =
     (let i = he_identity env
      in send_text env 512 ''debug.info''
           (''{\"ok\":true,\"scope\":\"device\",\"device\":\"esp-vision\",\"deviceId\":'' @ quoted (id_device i) @
            '',\"hostname\":'' @ quoted (id_hostname i) @ '',\"firmware\":{\"id\":'' @ quoted (id_firmware i) @
            '',\"version\":'' @ quoted (id_version i) @ ''},\"board\":'' @ quoted (id_board i) @ '',\"arch\":'' @ quoted (id_arch i) @
            '',\"idf\":'' @ quoted (id_idf i) @ '',\"protocol\":{\"evMuxVersion\":4}}'') seq c)"

definition ev_control_send_debug_info_memory :: "('f, 'h) handler_env \<Rightarrow> u32 \<Rightarrow> ('f, 'h) serving \<Rightarrow> esp_err \<times> ('f, 'h) serving" where
  "ev_control_send_debug_info_memory env seq c =
     send_text env 384 ''debug.info''
       (''{\"ok\":true,\"scope\":\"memory\",\"heapFree\":'' @ number (he_heap env 0 c) @ '',\"heapLargest\":'' @ number (he_heap env 1 c) @
        '',\"psramFree\":'' @ number (he_heap env 2 c) @ '',\"psramLargest\":'' @ number (he_heap env 3 c) @ ''}'') seq c"

definition ev_control_send_debug_info_sensor :: "('f, 'h) handler_env \<Rightarrow> u32 \<Rightarrow> ('f, 'h) serving \<Rightarrow> esp_err \<times> ('f, 'h) serving" where
  "ev_control_send_debug_info_sensor env seq c =
     (let (ret, st) = he_camera env c
      in if ret \<noteq> ESP_OK then info_error env seq ''SENSOR_FAILED'' (he_err_name env ret) c
         else
           send_text env 512 ''debug.info''
             (''{\"ok\":true,\"scope\":\"sensor\",\"ready\":'' @ ev_control_bool_str (ca_ready st) @ '',\"id\":'' @ number (ca_sensor_id st) @
              '',\"width\":'' @ number (ca_width st) @ '',\"height\":'' @ number (ca_height st) @
              '',\"pixformat\":'' @ number (ca_pixfmt st) @ '',\"hmirror\":'' @ ev_control_bool_str (ca_hmirror st) @
              '',\"vflip\":'' @ ev_control_bool_str (ca_vflip st) @ ''}'') seq c)"

text \<open>The error for a path that is too long or not allowed.\<close>

definition path_error :: "('f, 'h) handler_env \<Rightarrow> cstring \<Rightarrow> (cstring \<times> cstring) option" where
  "path_error env path =
     (if ev_control_path_too_long (path_max env) (Some path) then Some (''PATH_TOO_LONG'', ''filesystem path too long'')
      else if \<not> ev_control_path_allowed (path_max env) (Some path) then Some (''INVALID_PATH'', ''path is not allowed'')
      else None)"

text \<open>The names of a directory, as far as they fit into the buffer.\<close>

fun list_names :: "nat \<Rightarrow> bool \<Rightarrow> cstring list \<Rightarrow> string \<Rightarrow> string" where
  "list_names capacity first1 [] payload = payload"
| "list_names capacity first1 (nm # rest) payload =
     (let more = (if first1 then [] else '','') @ quoted (the (ev_control_json_escape 160 nm))
      in if capacity - length payload \<le> length more then payload
         else list_names capacity False rest (payload @ more))"

definition ev_control_send_debug_info_fs_list ::
  "('f, 'h) handler_env \<Rightarrow> u32 \<Rightarrow> cstring \<Rightarrow> ('f, 'h) serving \<Rightarrow> esp_err \<times> ('f, 'h) serving" where
  "ev_control_send_debug_info_fs_list env seq request c =
     (case (ev_control_json_find_value request ''path'', member_string request ''path'' EV_CONTROL_PATH_PARSE_CAP) of
        (Some _, None) \<Rightarrow> info_error env seq ''INVALID_ARGUMENT'' ''invalid filesystem path'' c
      | (_, given) \<Rightarrow>
          let path = (case given of None \<Rightarrow> ''/'' | Some p \<Rightarrow> p)
          in case path_error env path of Some (code1, message) \<Rightarrow> info_error env seq code1 message c
             | None \<Rightarrow>
                 let head1 = ''{\"ok\":true,\"scope\":\"fs.list\",\"path\":'' @ quoted path @ '',\"entries\":[''
                 in if 1024 \<le> length head1 then (ESP_ERR_INVALID_SIZE, c)
                    else
                      (case he_listdir env path (pf_files (co_rest c)) of
                         (None, f) \<Rightarrow> info_error env seq ''OPEN_DIR_FAILED'' ''failed to open directory'' (on_files f c)
                       | (Some names, f) \<Rightarrow>
                           let payload = list_names 1024 True names head1
                           in if 1024 \<le> length payload + 3 then (ESP_ERR_INVALID_SIZE, on_files f c)
                              else ev_control_send_rpc_with_seq env ''rsp'' ''debug.info'' (payload @ '']}'') seq (on_files f c)))"

definition EV_CONTROL_FILE_READ_MAX :: nat where "EV_CONTROL_FILE_READ_MAX = 384"

definition fs_read_payload :: "cstring \<Rightarrow> cstring \<Rightarrow> nat \<Rightarrow> cstring" where
  "fs_read_payload path encoded n =
     ''{\"ok\":true,\"scope\":\"fs.read\",\"path\":'' @ quoted path @ '',\"encoding\":\"base64\",\"contentBase64\":'' @
     quoted encoded @ '',\"bytes\":'' @ decimal n @ ''}''"

definition ev_control_send_debug_info_fs_read ::
  "('f, 'h) handler_env \<Rightarrow> u32 \<Rightarrow> cstring \<Rightarrow> ('f, 'h) serving \<Rightarrow> esp_err \<times> ('f, 'h) serving" where
  "ev_control_send_debug_info_fs_read env seq request c =
     (case member_string request ''path'' EV_CONTROL_PATH_PARSE_CAP of
        None \<Rightarrow> info_error env seq ''INVALID_ARGUMENT'' ''missing path'' c
      | Some path \<Rightarrow>
          case path_error env path of Some (code1, message) \<Rightarrow> info_error env seq code1 message c
          | None \<Rightarrow>
              let (ret, data, c1) = ev_control_vfs_read_file env path EV_CONTROL_FILE_READ_MAX c
              in if ret \<noteq> ESP_OK then info_error env seq ''OPEN_FAILED'' ''failed to open file'' c1
                 else
                   case ev_control_base64_encode data ((EV_CONTROL_FILE_READ_MAX + 2) div 3 * 4 + 1) of
                     Inl e \<Rightarrow> info_error env seq ''ENCODE_FAILED'' (he_err_name env e) c1
                   | Inr encoded \<Rightarrow> send_text env 768 ''debug.info'' (fs_read_payload path encoded (length data)) seq c1)"

text \<open>Before the first timeout the record is zero.\<close>

definition last_timeout :: "mux \<Rightarrow> ev_mux_timeout_info" where
  "last_timeout m =
     (case ev_mux_tx_timeout_snapshot m (Some None) of
        Some (Some t) \<Rightarrow> t
      | _ \<Rightarrow> \<lparr>ti_transport = EV_TRANSPORT_USJ, ti_slot = 0, ti_offset = 0, ti_bytes = 0, ti_elapsed_ms = 0, ti_idle_ms = 0\<rparr>)"

definition stats_payload :: "('f, 'h) handler_env \<Rightarrow> ('f, 'h) serving \<Rightarrow> cstring" where
  "stats_payload env c =
     (let s = co_stats c; m = pf_mux (co_rest c);
          t = last_timeout m;
          rx = (\<lambda>i. number (st_rx_bytes s ! transport_value i))
      in ''{\"ok\":true,\"scope\":\"transport.stats\",\"rx\":{\"usj\":'' @ rx EV_TRANSPORT_USJ @ '',\"usb\":'' @ rx EV_TRANSPORT_USB @
         '',\"uart\":'' @ rx EV_TRANSPORT_UART @ '',\"tcp\":'' @ rx EV_TRANSPORT_TCP @
         ''},\"ringFull\":{\"usj\":'' @ number (he_ring_full env 0 c) @ '',\"usb\":'' @ number (he_ring_full env 1 c) @
         '',\"uart\":'' @ number (he_ring_full env 2 c) @
         ''},\"frames\":{\"ok\":'' @ number (st_frames_ok s) @ '',\"bad\":'' @ number (st_frames_bad s) @
         '',\"rejected\":'' @ number (st_frames_rejected s) @
         ''},\"tcpTaskStackMinFreeBytes\":'' @ number (he_tcp_stack_free env c) @
         '',\"lastTxTimeout\":{\"transport\":'' @ decimal (transport_value (ti_transport t)) @ '',\"slot\":'' @ decimal (unat (ti_slot t)) @
         '',\"offset\":'' @ decimal (ti_offset t) @ '',\"bytes\":'' @ decimal (ti_bytes t) @
         '',\"elapsedMs\":'' @ number (ti_elapsed_ms t) @ '',\"idleMs\":'' @ number (ti_idle_ms t) @
         ''},\"parserTimeouts\":'' @ number (st_parser_timeouts s) @
         '',\"staleGenerationDrops\":'' @ number (st_stale_generation_drops s) @
         '',\"drops\":{\"replRx\":'' @ number (st_repl_rx_dropped s) @ '',\"vmBusy\":'' @ number (st_vm_busy s) @
         '',\"txTimeout\":'' @ number (ev_mux_tx_timeout_count m) @ '',\"txDrop\":'' @ number (ev_mux_tx_drop_count m) @
         '',\"txQueueFull\":'' @ number (ev_mux_tx_queue_full_count m) @ '',\"txStale\":'' @ number (ev_mux_tx_stale_count m) @ ''}}'')"

definition ev_control_send_debug_info_transport_stats ::
  "('f, 'h) handler_env \<Rightarrow> u32 \<Rightarrow> ('f, 'h) serving \<Rightarrow> esp_err \<times> ('f, 'h) serving" where
  "ev_control_send_debug_info_transport_stats env seq c = send_text env 768 ''debug.info'' (stats_payload env c) seq c"

definition ev_control_send_debug_info :: "('f, 'h) handler_env \<Rightarrow> u32 \<Rightarrow> cstring \<Rightarrow> ('f, 'h) serving \<Rightarrow> esp_err \<times> ('f, 'h) serving" where
  "ev_control_send_debug_info env seq request c =
     (let scope = member_default request ''scope'' 24 ''device''
      in if scope = ''device'' then ev_control_send_debug_info_device env seq c
         else if scope = ''memory'' then ev_control_send_debug_info_memory env seq c
         else if scope = ''sensor'' then ev_control_send_debug_info_sensor env seq c
         else if scope = ''fs.list'' then ev_control_send_debug_info_fs_list env seq request c
         else if scope = ''fs.read'' then ev_control_send_debug_info_fs_read env seq request c
         else if scope = ''transport.stats'' then ev_control_send_debug_info_transport_stats env seq c
         else info_error env seq ''INVALID_SCOPE'' ''unsupported debug.info scope'' c)"

section \<open>Pictures\<close>

text \<open>The quality a request asks for, as an \<open>int\<close>.\<close>

definition asked_quality :: "('f, 'h) handler_env \<Rightarrow> cstring \<Rightarrow> int" where
  "asked_quality env request = sint (ev_control_json_get_u32 request ''quality'' (word_of_int (he_jpeg_low env)))"

definition send_picture ::
  "('f, 'h) handler_env \<Rightarrow> cstring \<Rightarrow> u32 \<Rightarrow> image \<Rightarrow> int \<Rightarrow> ('f, 'h) serving \<Rightarrow> esp_err \<times> ('f, 'h) serving" where
  "send_picture env method1 seq img quality c =
     (let (ret, bytes) = he_jpeg env img quality
      in if ret \<noteq> ESP_OK then ev_control_send_error env method1 seq ''JPEG_FAILED'' (he_err_name env ret) c
         else
           let (sent, c1) = ev_control_send_binary_rsp env method1 ''image/jpeg'' bytes seq (im_w img) (im_h img) c
           in if sent \<noteq> ESP_OK then ev_control_send_error env method1 seq ''SEND_FAILED'' (he_err_name env sent) c1
              else (ESP_OK, c1))"

definition ev_control_send_debug_capture_frame ::
  "('f, 'h) handler_env \<Rightarrow> u32 \<Rightarrow> cstring \<Rightarrow> ('f, 'h) serving \<Rightarrow> esp_err \<times> ('f, 'h) serving" where
  "ev_control_send_debug_capture_frame env seq request c =
     (let asked = asked_quality env request; quality = (if asked \<le> 0 \<or> 100 < asked then he_jpeg_low env else asked);
          (ret, img) = he_observed_frame env c
      in if ret \<noteq> ESP_OK
         then ev_control_send_error env ''debug.capture_frame'' seq
                (if ret = ESP_ERR_NO_MEM then ''NO_MEM'' else ''CAMERA_FRAME_NOT_READY'') (he_err_name env ret) c
         else send_picture env ''debug.capture_frame'' seq img quality c)"

definition ev_control_send_debug_capture_screen ::
  "('f, 'h) handler_env \<Rightarrow> u32 \<Rightarrow> cstring \<Rightarrow> ('f, 'h) serving \<Rightarrow> esp_err \<times> ('f, 'h) serving" where
  "ev_control_send_debug_capture_screen env seq request c =
     (let quality = asked_quality env request
      in if quality \<le> 0 \<or> 100 < quality
         then ev_control_send_error env ''debug.capture_screen'' seq ''INVALID_ARGUMENT'' ''quality must be 1..100'' c
         else
           let (ret, img) = he_display_frame env c
           in if ret \<noteq> ESP_OK
              then ev_control_send_error env ''debug.capture_screen'' seq
                     (if ret = ESP_ERR_NOT_SUPPORTED then ''NOT_SUPPORTED'' else ''DISPLAY_NOT_READY'') (he_err_name env ret) c
              else send_picture env ''debug.capture_screen'' seq img quality c)"

end
