(* ===== verification/ControlDevice.thy ===== *)
theory ControlDevice
  imports ControlInfo
begin

text \<open>
  The methods of \<open>platform/ev_control_transport.c\<close> that act on the device: \<open>device.control\<close> with the storage
  writer, the launcher and the reset, \<open>transport.uart.*\<close> and \<open>file.write\<close>; and the choice of the handler for a
  request. \<open>serve\<close> gives the calls that ControlQueue and ControlFrame leave open their meaning.
\<close>

definition control_error :: "('f, 'h) handler_env \<Rightarrow> u32 \<Rightarrow> cstring \<Rightarrow> cstring \<Rightarrow> ('f, 'h) serving \<Rightarrow> esp_err \<times> ('f, 'h) serving" where
  "control_error env seq code1 message c = ev_control_send_error env ''device.control'' seq code1 message c"

definition control_text :: "('f, 'h) handler_env \<Rightarrow> u32 \<Rightarrow> cstring \<Rightarrow> ('f, 'h) serving \<Rightarrow> esp_err \<times> ('f, 'h) serving" where
  "control_text env seq payload c = ev_control_send_rpc_with_seq env ''rsp'' ''device.control'' payload seq c"

section \<open>The storage writer\<close>

definition storage_volume_of :: "cstring \<Rightarrow> nat option" where
  "storage_volume_of nm = (if nm = ''flash'' then Some 0 else if nm = ''sd'' then Some 1 else None)"

definition writer_mode_name :: "esp_vision_storage_writer_mode \<Rightarrow> cstring" where
  "writer_mode_name mode =
     (case mode of ESP_VISION_STORAGE_WRITER_AVAILABLE \<Rightarrow> ''available'' | ESP_VISION_STORAGE_WRITER_HELD \<Rightarrow> ''held''
      | ESP_VISION_STORAGE_WRITER_HANDOFF_READY \<Rightarrow> ''handoff_ready''
      | ESP_VISION_STORAGE_WRITER_QUARANTINED \<Rightarrow> ''quarantined'' | _ \<Rightarrow> ''unknown'')"

text \<open>A string or \<open>null\<close>, in a buffer of \<open>capacity\<close> characters.\<close>

definition string_or_null :: "nat \<Rightarrow> cstring \<Rightarrow> cstring" where
  "string_or_null capacity s = (if s = [] then ''null'' else take (capacity - 1) (quoted s))"

definition signed_text :: "int \<Rightarrow> string" where
  "signed_text i = (if i < 0 then ''-'' else []) @ decimal (nat \<bar>i\<bar>)"

definition writer_status_payload :: "cstring \<Rightarrow> esp_vision_storage_writer_status \<Rightarrow> volume_state \<Rightarrow> cstring" where
  "writer_status_payload volume_name st v =
     ''{\"ok\":true,\"action\":\"storage.writer.status\",\"volume\":'' @ quoted volume_name @
     '',\"status\":'' @ quoted (writer_mode_name (st_mode st)) @
     '',\"writable\":'' @ ev_control_bool_str (st_writable st \<and> vs_mounted v) @
     '',\"present\":'' @ ev_control_bool_str (vs_present v) @ '',\"mounted\":'' @ ev_control_bool_str (vs_mounted v) @
     '',\"operation_id\":'' @ string_or_null 35 (c_string (st_operation_id st)) @
     '',\"lease_id\":'' @ string_or_null 35 (c_string (st_lease_id st)) @
     '',\"session_id\":'' @ string_or_null 35 (c_string (StorageWriter.st_session_id st)) @
     '',\"reason\":'' @ string_or_null 64 (case st_reason st of None \<Rightarrow> [] | Some r \<Rightarrow> r) @
     '',\"fs_state\":'' @ quoted (vs_state v) @ '',\"fs_error\":'' @ signed_text (vs_error v) @
     '',\"fatfs_result\":'' @ signed_text (vs_fatfs v) @ '',\"format_supported\":'' @ ev_control_bool_str (vs_format v) @ ''}''"

definition writer_status ::
  "('f, 'h) handler_env \<Rightarrow> u32 \<Rightarrow> cstring \<Rightarrow> nat \<Rightarrow> ('f, 'h) serving \<Rightarrow> esp_err \<times> ('f, 'h) serving" where
  "writer_status env seq volume_name volume c =
     (let (result, out) = esp_vision_msc_writer_status (fe_msc (he_file env)) (pf_msc (co_rest c)) volume (Some unknown_status);
          st = (if result = ESP_ERR_NOT_SUPPORTED
                then \<lparr>st_mode = ESP_VISION_STORAGE_WRITER_UNKNOWN, st_writable = False, st_operation_id = [], st_lease_id = [],
                      st_session_id = [], st_reason = Some ''WRITER_API_UNSUPPORTED''\<rparr>
                else the out)
      in if result \<noteq> ESP_ERR_NOT_SUPPORTED \<and> result \<noteq> ESP_OK \<and> result \<noteq> ESP_ERR_INVALID_STATE
         then control_error env seq ''WRITER_STATUS_UNKNOWN'' ''could not read writer status'' c
         else
           let payload = writer_status_payload volume_name st (he_volume env volume c)
           in if 512 \<le> length payload then control_error env seq ''INTERNAL_ERROR'' ''could not encode writer status'' c
              else control_text env seq payload c)"

definition writer_lease_payload :: "cstring \<Rightarrow> cstring \<Rightarrow> cstring \<Rightarrow> cstring \<Rightarrow> cstring \<Rightarrow> cstring \<Rightarrow> cstring" where
  "writer_lease_payload action volume_name operation lease session_id rest =
     ''{\"ok\":true,\"action\":'' @ quoted action @ '',\"volume\":'' @ quoted volume_name @
     '',\"operation_id\":'' @ quoted operation @ '',\"lease_id\":'' @ quoted lease @ '',\"session_id\":'' @ quoted session_id @
     rest @ ''}''"

definition writer_acquire ::
  "('f, 'h) handler_env \<Rightarrow> u32 \<Rightarrow> cstring \<Rightarrow> nat \<Rightarrow> cstring \<Rightarrow> ('f, 'h) serving \<Rightarrow> esp_err \<times> ('f, 'h) serving" where
  "writer_acquire env seq volume_name volume operation c =
     (let sid = rc_session_id (co_response c);
          (result, lease, m) = esp_vision_msc_writer_acquire (fe_msc (he_file env)) (pf_msc (co_rest c)) volume (Some operation)
            (Some sid) (Some []);
          c1 = on_platform (\<lambda>p. p\<lparr>pf_msc := m\<rparr>) c;
          payload = writer_lease_payload ''storage.writer.acquire'' volume_name operation (the lease) sid '',\"writable\":true''
      in if result \<noteq> ESP_OK
         then control_error env seq (if result = ESP_ERR_INVALID_ARG then ''INVALID_ARGUMENT'' else ''WRITER_BUSY'')
                ''storage writer lease could not be acquired'' c1
         else if 512 \<le> length payload
         then control_error env seq ''WRITER_RESULT_UNKNOWN'' ''lease acquired but response encoding failed'' c1
         else control_text env seq payload c1)"

definition writer_release ::
  "('f, 'h) handler_env \<Rightarrow> u32 \<Rightarrow> cstring \<Rightarrow> nat \<Rightarrow> cstring \<Rightarrow> cstring \<Rightarrow> ('f, 'h) serving \<Rightarrow> esp_err \<times> ('f, 'h) serving" where
  "writer_release env seq volume_name volume operation lease c =
     (let sid = rc_session_id (co_response c);
          (result, m) = esp_vision_msc_writer_release (fe_msc (he_file env)) (pf_msc (co_rest c)) volume (Some operation)
            (Some lease) (Some sid) True;
          c1 = on_platform (\<lambda>p. p\<lparr>pf_msc := m\<rparr>) c;
          payload = writer_lease_payload ''storage.writer.release'' volume_name operation lease sid
            '',\"status\":\"handoff_ready\",\"writable\":false''
      in if result \<noteq> ESP_OK
         then control_error env seq (if result = ESP_ERR_INVALID_ARG then ''INVALID_ARGUMENT'' else ''WRITER_HANDOFF_UNKNOWN'')
                ''storage writer handoff could not be confirmed'' c1
         else if 512 \<le> length payload
         then control_error env seq ''WRITER_RESULT_UNKNOWN'' ''handoff completed but response encoding failed'' c1
         else control_text env seq payload c1)"

definition ev_control_send_storage_writer_control ::
  "('f, 'h) handler_env \<Rightarrow> u32 \<Rightarrow> cstring \<Rightarrow> cstring \<Rightarrow> ('f, 'h) serving \<Rightarrow> esp_err \<times> ('f, 'h) serving" where
  "ev_control_send_storage_writer_control env seq request action c =
     (case member_string request ''volume'' 8 of
        None \<Rightarrow> control_error env seq ''INVALID_ARGUMENT'' ''missing storage volume'' c
      | Some volume_name \<Rightarrow>
          (case storage_volume_of volume_name of
             None \<Rightarrow> control_error env seq ''INVALID_ARGUMENT'' ''unsupported storage volume'' c
           | Some volume \<Rightarrow>
               if action = ''storage.writer.status'' then writer_status env seq volume_name volume c
               else
                 (case member_string request ''operationId'' 33 of
                    None \<Rightarrow> control_error env seq ''INVALID_ARGUMENT'' ''missing operation identity'' c
                  | Some operation \<Rightarrow>
                      if rc_session_id (co_response c) = []
                      then control_error env seq ''SESSION_REQUIRED'' ''an active authenticated session is required'' c
                      else if action = ''storage.writer.acquire'' then writer_acquire env seq volume_name volume operation c
                      else
                        case member_string request ''leaseId'' 33 of
                          Some lease \<Rightarrow>
                            if ev_control_json_get_bool request ''safeHandoff'' False
                            then writer_release env seq volume_name volume operation lease c
                            else control_error env seq ''INVALID_ARGUMENT'' ''a lease identity and explicit safe handoff are required'' c
                        | None \<Rightarrow> control_error env seq ''INVALID_ARGUMENT'' ''a lease identity and explicit safe handoff are required'' c)))"

section \<open>The launcher\<close>

definition launcher_vm_epoch :: "('f, 'h) serving \<Rightarrow> u32" where
  "launcher_vm_epoch c = ev_session_vm_epoch (w_session (co_world c))"

definition boot_status :: "('f, 'h) handler_env \<Rightarrow> u32 \<Rightarrow> ('f, 'h) serving \<Rightarrow> esp_err \<times> ('f, 'h) serving" where
  "boot_status env seq c =
     (let l = pf_launcher (co_rest c);
          (found, out) = esp_vision_launcher_state_snapshot (launcher_vm_epoch c) l (Some (ev_launcher_state_snapshot.truncate l));
          st = the out;
          payload = ''{\"ok\":true,\"action\":\"launcher.boot.status\",\"device_id\":'' @ quoted (ln_device_id st) @
            '',\"boot_id\":'' @ quoted (ln_boot_id st) @ '',\"vm_epoch\":'' @ number (ln_vm_epoch st) @ '',\"selection\":'' @
            (if ln_selection_valid st
             then ''{\"generation\":'' @ decimal (unat (ln_generation st)) @ '',\"source_hash\":'' @ quoted (ln_source_hash st) @
                  '',\"source_path\":'' @ quoted (ln_source_path st) @ ''}''
             else ''null'') @
            '',\"execution_outcome\":'' @ quoted (esp_vision_launcher_outcome_name (ln_execution_outcome st)) @ ''}''
      in if \<not> found \<or> ln_boot_id st = [] \<or> \<not> ln_device_id_valid st
         then control_error env seq ''BOOT_STATUS_UNKNOWN'' ''launcher boot state is unavailable'' c
         else if 1024 \<le> length payload
         then control_error env seq ''BOOT_STATUS_UNKNOWN'' ''launcher boot state could not be encoded'' c
         else control_text env seq payload c)"

definition trial_status_payload :: "cstring \<Rightarrow> cstring \<Rightarrow> u32 \<Rightarrow> cstring \<Rightarrow> cstring \<Rightarrow> cstring \<Rightarrow> cstring" where
  "trial_status_payload operation status vm_epoch source_hash source_path outcome =
     ''{\"ok\":true,\"action\":\"launcher.trial.status\",\"operation_id\":'' @ quoted operation @ '',\"status\":'' @ quoted status @
     '',\"vm_epoch\":'' @ number vm_epoch @ '',\"source_hash\":'' @ source_hash @ '',\"source_path\":'' @ source_path @
     '',\"execution_outcome\":'' @ quoted outcome @ ''}''"

definition trial_status :: "('f, 'h) handler_env \<Rightarrow> u32 \<Rightarrow> cstring \<Rightarrow> ('f, 'h) serving \<Rightarrow> esp_err \<times> ('f, 'h) serving" where
  "trial_status env seq request c =
     (case member_string request ''operation_id'' (EV_LAUNCHER_OPERATION_ID_LEN + 1) of
        None \<Rightarrow> control_error env seq ''INVALID_ARGUMENT'' ''missing trial operation identity'' c
      | Some operation \<Rightarrow>
          if \<not> esp_vision_launcher_valid_operation_id (Some operation)
          then control_error env seq ''INVALID_ARGUMENT'' ''invalid trial operation identity'' c
          else
            let l = pf_launcher (co_rest c);
                (found, out) = esp_vision_launcher_trial_snapshot (launcher_vm_epoch c) (Some operation) l
                  (Some (ev_launcher_state_snapshot.truncate l));
                st = the out;
                payload = (if found
                  then trial_status_payload (ln_operation_id st) (esp_vision_launcher_trial_status_name (ln_trial_status st))
                         (ln_trial_vm_epoch st) (quoted (ln_trial_source_hash st)) (quoted (ln_trial_source_path st))
                         (esp_vision_launcher_outcome_name (ln_trial_outcome st))
                  else trial_status_payload operation ''not_started'' (launcher_vm_epoch c) ''null'' ''null'' ''unknown'')
            in if 1200 \<le> length payload
               then control_error env seq ''TRIAL_STATUS_UNKNOWN'' ''trial state could not be encoded'' c
               else control_text env seq payload c)"

definition trial_cancel :: "('f, 'h) handler_env \<Rightarrow> u32 \<Rightarrow> cstring \<Rightarrow> ('f, 'h) serving \<Rightarrow> esp_err \<times> ('f, 'h) serving" where
  "trial_cancel env seq request c =
     (case member_string request ''operation_id'' (EV_LAUNCHER_OPERATION_ID_LEN + 1) of
        None \<Rightarrow> control_error env seq ''INVALID_ARGUMENT'' ''invalid trial operation identity'' c
      | Some operation \<Rightarrow>
          if \<not> esp_vision_launcher_valid_operation_id (Some operation)
          then control_error env seq ''INVALID_ARGUMENT'' ''invalid trial operation identity'' c
          else
            let (cancelled, l) = esp_vision_launcher_cancel_trial_arm (Some operation) (pf_launcher (co_rest c));
                c1 = on_platform (\<lambda>p. p\<lparr>pf_launcher := l\<rparr>) c;
                payload = ''{\"ok\":true,\"action\":\"launcher.trial.cancel\",\"operation_id\":'' @ quoted operation @
                  '',\"cancelled\":true}''
            in if \<not> cancelled
               then control_error env seq ''TRIAL_NOT_ARMED'' ''the matching trial is no longer armed'' c1
               else if 192 \<le> length payload
               then control_error env seq ''TRIAL_CANCEL_UNKNOWN'' ''trial cancellation could not be encoded'' c1
               else control_text env seq payload c1)"

section \<open>Reset\<close>

definition set_ticket_out :: "bool \<Rightarrow> ('f, 'h) serving \<Rightarrow> ('f, 'h) serving" where
  "set_ticket_out wanted c = on_response (\<lambda>r. r\<lparr>rc_ticket_out := wanted\<rparr>) c"

text \<open>The response is given a second to leave; the device restarts whatever comes of it.\<close>

definition ev_control_send_reset :: "('f, 'h) handler_env \<Rightarrow> u32 \<Rightarrow> ('f, 'h) serving \<Rightarrow> esp_err \<times> ('f, 'h) serving" where
  "ev_control_send_reset env seq c =
     (let c0 = set_ticket_out True (on_platform (\<lambda>p. p\<lparr>pf_ticket := 0\<rparr>) c);
          (queued, c1) = control_text env seq ''{\"ok\":true,\"action\":\"reset\"}'' c0;
          c2 = set_ticket_out False c1;
          ticket = pf_ticket (co_rest c2);
          (waited, tx_result, c3) = (if queued = ESP_OK \<and> ticket \<noteq> 0
            then let (waited, out, ts) = ev_mux_wait (mx_tickets (pf_mux (co_rest c2))) ticket (he_ticket_others env) (Some ESP_FAIL)
                 in (waited, the out,
                     on_platform (\<lambda>p. p\<lparr>pf_mux := (pf_mux p)\<lparr>mx_tickets := ev_mux_ticket_forget ts ticket\<rparr>\<rparr>) c2)
            else (ESP_ERR_INVALID_STATE, ESP_FAIL, c2));
          result = (if queued \<noteq> ESP_OK then queued else if waited \<noteq> ESP_OK then waited else tx_result);
          (closed, c4) = (if result = ESP_OK \<and> lr_transport_id (rc_link (co_response c3)) = EV_TRANSPORT_TCP
            then he_reset_close env (rc_link (co_response c3)) c3 else (result, c3))
      in (closed, he_restart env c4))"

section \<open>\<open>device.control\<close>\<close>

definition network_answer ::
  "('f, 'h) handler_env \<Rightarrow> u32 \<Rightarrow> cstring \<Rightarrow> bool \<Rightarrow> cstring \<Rightarrow> ('f, 'h) serving \<Rightarrow> esp_err \<times> ('f, 'h) serving" where
  "network_answer env seq response barrier operation c =
     (let (set1, c1) = (if barrier then ev_control_set_completion EV_CONTROL_TX_DONE_NETWORK (Some operation) c else (True, c))
      in if \<not> set1 then control_error env seq ''INTERNAL_ERROR'' ''could not queue network response'' c1
         else
           let (ret, c2) = control_text env seq response c1
           in (ret, if ret \<noteq> ESP_OK \<and> barrier then drop_completion c2 else c2))"

definition status_answer :: "('f, 'h) handler_env \<Rightarrow> u32 \<Rightarrow> ('f, 'h) serving \<Rightarrow> esp_err \<times> ('f, 'h) serving" where
  "status_answer env seq c =
     (let (user, user_ready, c1) = route_of env EV_STREAM_USER c;
          (debug, debug_ready, c2) = route_of env EV_STREAM_DEBUG c1
      in send_text env 512 ''device.control''
           (''{\"ok\":true,\"action\":\"status\",\"uptimeMs\":'' @ number (now_ms env c) @ '','' @
            stream_members ''user'' user user_ready @ '','' @ stream_members ''debug'' debug debug_ready @
            '',\"heapFree\":'' @ number (he_heap env 0 c2) @ ''}'') seq c2)"

definition stop_answer :: "('f, 'h) handler_env \<Rightarrow> u32 \<Rightarrow> ('f, 'h) serving \<Rightarrow> esp_err \<times> ('f, 'h) serving" where
  "stop_answer env seq c =
     (let r = co_response c
      in control_text env seq ''{\"ok\":true,\"action\":\"stop\"}''
           (ev_control_deliver_ctrl_c (he_control env) (Some (rc_link r)) (Some (rc_session_id r)) (rc_vm_epoch r)
              (rc_input_generation r) (rc_transition_id r) c))"

definition ev_control_send_device_control ::
  "('f, 'h) handler_env \<Rightarrow> u32 \<Rightarrow> cstring \<Rightarrow> ('f, 'h) serving \<Rightarrow> esp_err \<times> ('f, 'h) serving" where
  "ev_control_send_device_control env seq request c =
     (case member_string request ''action'' 24 of
        None \<Rightarrow> control_error env seq ''INVALID_ARGUMENT'' ''missing action'' c
      | Some action \<Rightarrow>
          (case he_network env request c of
             (Some (response, barrier, operation), c1) \<Rightarrow> network_answer env seq response barrier operation c1
           | (None, c1) \<Rightarrow>
               if action = ''storage.writer.status'' \<or> action = ''storage.writer.acquire'' \<or> action = ''storage.writer.release''
               then ev_control_send_storage_writer_control env seq request action c1
               else if action = ''launcher.boot.status'' then boot_status env seq c1
               else if action = ''launcher.trial.status'' then trial_status env seq request c1
               else if action = ''launcher.trial.cancel'' then trial_cancel env seq request c1
               else if action = ''status'' then status_answer env seq c1
               else if action = ''stop'' then stop_answer env seq c1
               else if action = ''reset'' then ev_control_send_reset env seq c1
               else control_error env seq ''INVALID_ACTION'' ''unsupported action'' c1))"

end
