(* ===== verification/ControlMethods.thy ===== *)
theory ControlMethods
  imports ControlDevice
begin

text \<open>
  The remaining methods of \<open>platform/ev_control_transport.c\<close>, \<open>transport.uart.*\<close> and \<open>file.write\<close>, and the
  choice of the handler for a request. \<open>serve\<close> gives the calls that ControlQueue and ControlFrame leave
  open their meaning.
\<close>

section \<open>\<open>transport.uart.*\<close>\<close>

definition uart_fields :: "bool \<Rightarrow> bool \<Rightarrow> ev_control_json_field list" where
  "uart_fields prepare probe =
     [ev_control_json_string_field ''token'' True (Some (zeros (EV_UART_BAUD_TOKEN_MAX + 1))),
      ev_control_json_uint32_field ''baudRate'' prepare,
      ev_control_json_string_field ''data'' probe (Some (zeros (EV_UART_BAUD_PROBE_BYTES + 1)))]"

text \<open>The request, or the error it is refused with.\<close>

definition uart_request_of :: "cstring \<Rightarrow> cstring \<Rightarrow> (cstring \<times> cstring) + uart_request" where
  "uart_request_of method1 payload =
     (let prepare = (method1 = ''transport.uart.prepare''); probe = (method1 = ''transport.uart.probe'')
      in case ev_control_json_parse_object (Some payload) (uart_fields prepare probe) of
           Inl _ \<Rightarrow> Inl (''INVALID_ARGUMENT'', ''invalid UART negotiation parameters'')
         | Inr fls \<Rightarrow>
             let token = string_of (fls ! 0); baud = uint32_of (fls ! 1); data = string_of (fls ! 2); n = length_of (fls ! 2)
             in if \<not> ev_uart_baud_token_valid (Some token)
                then Inl (''INVALID_ARGUMENT'', ''invalid UART negotiation parameters'')
                else if prepare \<and> \<not> ev_uart_baud_candidate baud
                then Inl (''INVALID_ARGUMENT'', ''unsupported UART baud rate'')
                else if probe \<and> (n = 0 \<or> EV_UART_BAUD_PROBE_BYTES < n)
                then Inl (''INVALID_ARGUMENT'', ''probe must contain 1 to 512 ASCII bytes'')
                else if probe \<and> \<not> (length data = n \<and> list_all probe_char data)
                then Inl (''INVALID_ARGUMENT'', ''probe must contain printable ASCII'')
                else Inr (if prepare then Uart_prepare token baud else if probe then Uart_probe token data
                          else Uart_commit token))"

definition uart_payload :: "uart_request \<Rightarrow> u32 \<Rightarrow> cstring" where
  "uart_payload rq baud =
     ''{\"ok\":true,\"token\":'' @ quoted (request_token rq) @
     (case rq of
        Uart_probe token data \<Rightarrow>
          '',\"data\":'' @ quoted (the (ev_control_json_escape (EV_UART_BAUD_PROBE_BYTES * 2 + 1) data)) @
          '',\"baudRate\":'' @ number baud @ ''}''
      | _ \<Rightarrow>
          '',\"baudRate\":'' @ number baud @ '',\"timeoutMs\":'' @ number EV_UART_BAUD_TIMEOUT_MS @
          '',\"switchDelayMs\":'' @ number EV_UART_BAUD_SWITCH_DELAY_MS @ ''}'')"

text \<open>An accepted request; a negotiation whose response cannot be sent is given up.\<close>

definition uart_accepted ::
  "('f, 'h) handler_env \<Rightarrow> u32 \<Rightarrow> cstring \<Rightarrow> uart_request \<Rightarrow> u32 \<Rightarrow> ('f, 'h) serving \<Rightarrow> esp_err \<times> ('f, 'h) serving" where
  "uart_accepted env seq method1 rq baud c =
     (let c1 = (case rq of
            Uart_probe _ _ \<Rightarrow> c
          | Uart_prepare token _ \<Rightarrow> snd (ev_control_set_completion EV_CONTROL_TX_DONE_UART_PREPARE (Some token) c)
          | Uart_commit token \<Rightarrow> snd (ev_control_set_completion EV_CONTROL_TX_DONE_UART_COMMIT (Some token) c));
          (result, c2) = send_text env (EV_UART_BAUD_PROBE_BYTES * 2 + 192) method1 (uart_payload rq baud) seq c1
      in (result,
          if result \<noteq> ESP_OK \<and> \<not> is_probe rq
          then on_platform (\<lambda>p. p\<lparr>pf_uart := (pf_uart p)\<lparr>ub_state := (ub_state (pf_uart p))\<lparr>bd_phase := EV_UART_BAUD_RESTORE\<rparr>\<rparr>\<rparr>)
                 (drop_completion c2)
          else c2))"

definition ev_control_send_uart_baud ::
  "('f, 'h) handler_env \<Rightarrow> u32 \<Rightarrow> cstring \<Rightarrow> cstring \<Rightarrow> ('f, 'h) serving \<Rightarrow> esp_err \<times> ('f, 'h) serving" where
  "ev_control_send_uart_baud env seq method1 payload c =
     (let r = co_response c
      in if lr_transport_id (rc_link r) \<noteq> EV_TRANSPORT_UART \<or> uart_speed env c = 0
         then ev_control_send_error env method1 seq ''UNSUPPORTED_OPERATION'' ''UART owner required'' c
         else if method1 \<noteq> ''transport.uart.prepare'' \<and> method1 \<noteq> ''transport.uart.probe'' \<and> method1 \<noteq> ''transport.uart.commit''
         then ev_control_send_error env method1 seq ''UNKNOWN_METHOD'' ''unsupported UART method'' c
         else
           case uart_request_of method1 payload of
             Inl (code1, message) \<Rightarrow> ev_control_send_error env method1 seq code1 message c
           | Inr rq \<Rightarrow>
               let (accepted, baud, u) = uart_request_locked (pf_uart (co_rest c)) (rc_link r) (rc_session_id r) rq (now_ms env c);
                   c1 = on_uart (\<lambda>_. u) c
               in if \<not> accepted
                  then ev_control_send_error env method1 seq ''INVALID_STATE'' ''UART negotiation is busy or token is stale'' c1
                  else uart_accepted env seq method1 rq baud c1)"

section \<open>\<open>file.write\<close>\<close>

definition file_fields :: "ev_control_json_field list" where
  "file_fields =
     [ev_control_json_string_field ''action'' True (Some (zeros 12)),
      ev_control_json_string_field ''path'' False (Some (zeros EV_CONTROL_PATH_PARSE_CAP)),
      ev_control_json_string_field ''mode'' False (Some (''overwrite'' @ zeros 3)),
      ev_control_json_uint32_field ''totalBytes'' False,
      ev_control_json_string_field ''sha256'' False (Some (zeros 65)),
      ev_control_json_string_field ''uploadId'' False (Some (zeros 33))]"

text \<open>The error, the response, and the state.\<close>

definition file_begin ::
  "('f, 'h) handler_env \<Rightarrow> ev_session_snapshot_t \<Rightarrow> ev_control_json_field list \<Rightarrow> ('f, 'h) serving
     \<Rightarrow> cstring option \<times> cstring \<times> ('f, 'h) serving" where
  "file_begin env session fls c =
     (let path = string_of (fls ! 1); mode = string_of (fls ! 2); upload_id = string_of (fls ! 5)
      in if \<not> fl_present (fls ! 1) \<or> \<not> fl_present (fls ! 3) \<or> \<not> fl_present (fls ! 4) \<or> \<not> fl_present (fls ! 5) \<or>
            \<not> ev_control_path_allowed (path_max env) (Some path) \<or> mode \<noteq> ''create'' \<and> mode \<noteq> ''overwrite''
         then (Some ''INVALID_ARGUMENT'', [], c)
         else
           let (err, w) = ev_file_transfer_begin (he_file env) session (Some path) (mode = ''overwrite'') (uint32_of (fls ! 3))
                 (Some (string_of (fls ! 4))) (Some upload_id) (file_world_of c)
           in (err, ''{\"ok\":true,\"uploadId\":'' @ quoted upload_id @ '',\"chunkBytes\":'' @ decimal EV_FILE_CHUNK_BYTES @ ''}'',
               with_file_world w c))"

definition file_end ::
  "('f, 'h) handler_env \<Rightarrow> ev_session_snapshot_t \<Rightarrow> cstring \<Rightarrow> bool \<Rightarrow> ('f, 'h) serving
     \<Rightarrow> cstring option \<times> cstring \<times> ('f, 'h) serving" where
  "file_end env session upload_id commit c =
     (let (err, received1, w) = ev_file_transfer_end (he_file env) session (Some upload_id) commit (file_world_of c)
      in (err, ''{\"ok\":true,\"bytes\":'' @ number (case received1 of None \<Rightarrow> 0 | Some n \<Rightarrow> n) @
               '',\"complete\":'' @ ev_control_bool_str commit @ ''}'', with_file_world w c))"

text \<open>\<open>None\<close> if the write of a chunk does not return.\<close>

definition file_request ::
  "('f, 'h) handler_env \<Rightarrow> cstring \<Rightarrow> ev_session_snapshot_t \<Rightarrow> u8 list \<Rightarrow> ('f, 'h) serving
     \<Rightarrow> (cstring option \<times> cstring \<times> ('f, 'h) serving) option" where
  "file_request env encoding session data c =
     (if encoding = ''binary''
      then
        Option.bind (ev_file_transfer_write (he_file env) session data (file_world_of c)) (\<lambda>(err, received1, w).
          Some (err, ''{\"ok\":true,\"writtenBytes\":'' @ number (case received1 of None \<Rightarrow> 0 | Some n \<Rightarrow> n) @ ''}'',
                with_file_world w c))
      else
        case ev_control_json_parse_object (Some (chars data)) file_fields of
          Inl _ \<Rightarrow> Some (Some ''INVALID_ARGUMENT'', [], c)
        | Inr fls \<Rightarrow>
            let action = string_of (fls ! 0)
            in if action = ''begin'' then Some (file_begin env session fls c)
               else if (action = ''commit'' \<or> action = ''abort'') \<and> fl_present (fls ! 5)
               then Some (file_end env session (string_of (fls ! 5)) (action = ''commit'') c)
               else Some (Some ''INVALID_ARGUMENT'', [], c))"

definition file_message :: "cstring \<Rightarrow> cstring" where
  "file_message err =
     (if err = ''STORAGE_UNAVAILABLE''
      then ''Target filesystem is not mounted. Inspect storage.status(), preserve or back up data, then choose retry or explicit confirmed format.''
      else if err = ''STORAGE_READ_ONLY''
      then ''Storage writer is unavailable or quarantined; inspect storage status and ownership before retrying.''
      else if take 5 err = ''FILE_''
      then ''Storage operation failed. Stop writes, inspect free space and I/O errors, and preserve or back up data before recovery.''
      else ''binary file transfer failed'')"

definition ev_control_handle_file_write ::
  "('f, 'h) handler_env \<Rightarrow> u32 \<Rightarrow> cstring \<Rightarrow> ev_session_snapshot_t \<Rightarrow> u8 list \<Rightarrow> ('f, 'h) serving \<Rightarrow> ('f, 'h) serving option" where
  "ev_control_handle_file_write env seq encoding session data c =
     Option.bind (file_request env encoding session data c) (\<lambda>(err, response, c1).
       Some (case err of
          Some e \<Rightarrow> snd (ev_control_send_error env ''file.write'' seq e (file_message e) c1)
        | None \<Rightarrow> snd (ev_control_send_rpc_with_seq env ''rsp'' ''file.write'' (take 159 response) seq c1)))"

section \<open>The choice of the handler\<close>

definition ev_control_handle_user_rpc ::
  "('f, 'h) handler_env \<Rightarrow> u32 \<Rightarrow> cstring \<Rightarrow> cstring \<Rightarrow> ('f, 'h) serving \<Rightarrow> ('f, 'h) serving" where
  "ev_control_handle_user_rpc env seq method1 payload c =
     (if take 15 method1 = ''transport.uart.'' then snd (ControlMethods.ev_control_send_uart_baud env seq method1 payload c)
      else if method1 = ''session.keepalive'' then handle_keepalive env seq c
      else if method1 = ''session.release'' then handle_release env seq c
      else if method1 = ''script.write'' then snd (ev_control_send_script_write env seq payload c)
      else if method1 = ''script.run'' then snd (ev_control_send_script_run env seq payload c)
      else if method1 = ''device.control'' then snd (ev_control_send_device_control env seq payload c)
      else snd (ev_control_send_error env method1 seq ''UNKNOWN_METHOD'' ''unsupported user RPC method'' c))"

definition ev_control_handle_debug_rpc ::
  "('f, 'h) handler_env \<Rightarrow> u32 \<Rightarrow> cstring \<Rightarrow> cstring \<Rightarrow> ('f, 'h) serving \<Rightarrow> ('f, 'h) serving" where
  "ev_control_handle_debug_rpc env seq method1 payload c =
     snd (if method1 = ''transport.state'' then ev_control_send_transport_state env seq c
          else if method1 = ''route.get'' then ev_control_send_route_get env seq payload c
          else if method1 = ''route.bind'' then ev_control_send_route_bind env seq c
          else if method1 = ''route.auto'' then ev_control_send_route_auto env seq c
          else if method1 = ''debug.info'' then ev_control_send_debug_info env seq payload c
          else if method1 = ''debug.capture_frame'' then ev_control_send_debug_capture_frame env seq payload c
          else if method1 = ''debug.capture_screen'' then ev_control_send_debug_capture_screen env seq payload c
          else ev_control_send_error env method1 seq ''UNKNOWN_METHOD'' ''unsupported debug RPC method'' c)"

text \<open>
  The call \<open>k\<close> of a task with the response context \<open>ctx\<close>: whether it raised, and the state, in which the
  context of the other task is as before; the callers clear their own. \<open>None\<close> if the call does not return.
\<close>

definition serve_call :: "('f, 'h) handler_env \<Rightarrow> control_call \<Rightarrow> ('f, 'h) serving \<Rightarrow> ('f, 'h) serving option" where
  "serve_call env k c =
     (case k of
        Send_error method1 seq code1 message \<Rightarrow> Some (snd (ev_control_send_error env method1 seq code1 message c))
      | Send_response method1 seq payload \<Rightarrow> Some (snd (ev_control_send_rpc_with_seq env ''rsp'' method1 payload seq c))
      | Handle_user_rpc seq method1 payload \<Rightarrow> Some (ev_control_handle_user_rpc env seq method1 payload c)
      | Handle_debug_rpc seq method1 payload \<Rightarrow> Some (ev_control_handle_debug_rpc env seq method1 payload c)
      | Hello_acquire seq request \<Rightarrow> Some (snd (ev_control_send_hello_acquire env seq request c))
      | Send_capabilities seq \<Rightarrow> Some (snd (ev_control_send_capabilities env seq c))
      | File_write seq md snap data \<Rightarrow> ev_control_handle_file_write env seq (md_encoding md) snap data c
      | Writer_session_changed sid \<Rightarrow>
          Some (on_platform (\<lambda>p. p\<lparr>pf_msc := esp_vision_msc_writer_session_changed (fe_msc (he_file env)) (pf_msc p) sid\<rparr>) c)
      | Launcher_reset_begin \<Rightarrow>
          Some (on_platform (\<lambda>p. p\<lparr>pf_launcher := esp_vision_launcher_state_vm_reset_begin (pf_launcher p)\<rparr>) c)
      | _ \<Rightarrow> Some (snd (ce_run (he_control env) (co_response c) k c)))"

definition serve ::
  "('f, 'h) handler_env \<Rightarrow> ev_control_response_context \<Rightarrow> control_call \<Rightarrow> ('f, 'h) serving \<Rightarrow> (bool \<times> ('f, 'h) serving) option" where
  "serve env ctx k c =
     map_option (\<lambda>c1. (False, c1\<lparr>co_response := co_response c\<rparr>)) (serve_call env k (c\<lparr>co_response := ctx\<rparr>))"

end
