(* ===== verification/UsbCdc.thy ===== *)
theory UsbCdc
  imports CdcRx
begin

text \<open>
  The receiving side of \<open>overlay/micropython/shared/tinyusb/mp_usbd_cdc.c\<close>, on the connection state and the tagged
  ring of CdcRx. TinyUSB, the ring buffer of MicroPython and the keyboard interrupt are the record
  \<open>usb_env\<close>; every function runs under the lock of the USB task.
\<close>

section \<open>State\<close>

definition EV_CDC_RX_RING_CAPACITY :: u32 where "EV_CDC_RX_RING_CAPACITY = 2048"

record 'd usb_cdc =
  uc_rx :: ev_cdc_rx_state
  uc_buf :: "u8 list"
  uc_tags :: "u32 list"
  uc_size :: u32
  uc_get :: u16
  uc_put :: u16
  uc_pending :: u8
  uc_ring_full :: u32
  uc_dev :: 'd

record 'd usb_env =
  ue_inited :: "'d \<Rightarrow> bool"
  ue_connected :: "'d \<Rightarrow> bool"
  ue_mounted :: "'d \<Rightarrow> bool"
  ue_cdc_ready :: "'d \<Rightarrow> bool"
  ue_read_flush :: "nat \<Rightarrow> 'd \<Rightarrow> 'd"
  ue_available :: "nat \<Rightarrow> 'd \<Rightarrow> nat"
  ue_read_char :: "'d \<Rightarrow> int \<times> 'd"
  ue_interrupt_char :: "'d \<Rightarrow> int"
  ue_mux_enabled :: "'d \<Rightarrow> bool"
  ue_interrupt :: "'d \<Rightarrow> 'd"
  ue_ring_free :: "'d usb_cdc \<Rightarrow> nat"
  ue_ring_get :: "'d usb_cdc \<Rightarrow> int \<times> 'd usb_cdc"
  ue_task :: "'d usb_cdc \<Rightarrow> 'd usb_cdc"

text \<open>The variables before the first mount; the ring buffer is allocated elsewhere.\<close>

definition cdc_rx_state0 :: ev_cdc_rx_state where
  "cdc_rx_state0 = \<lparr>cs_generation = 1, cs_mounted = False, cs_mount_seen = False, cs_dtr = False, cs_valid = True\<rparr>"

section \<open>Flushing and following the bus\<close>

definition mp_usbd_cdc_transport_ring_clear :: "'d usb_cdc \<Rightarrow> 'd usb_cdc" where
  "mp_usbd_cdc_transport_ring_clear u = u\<lparr>uc_get := 0, uc_put := 0\<rparr>"

definition mp_usbd_cdc_transport_flush_fifo :: "'d usb_env \<Rightarrow> nat \<Rightarrow> 'd usb_cdc \<Rightarrow> 'd usb_cdc" where
  "mp_usbd_cdc_transport_flush_fifo env itf u =
     (if itf < 8
      then
        let u1 = u\<lparr>uc_pending := unset_bit itf (uc_pending u)\<rparr>
        in if ue_inited env (uc_dev u1) then u1\<lparr>uc_dev := ue_read_flush env itf (uc_dev u1)\<rparr> else u1
      else u)"

definition mp_usbd_cdc_transport_flush_rx :: "'d usb_env \<Rightarrow> nat \<Rightarrow> 'd usb_cdc \<Rightarrow> 'd usb_cdc" where
  "mp_usbd_cdc_transport_flush_rx env itf u =
     mp_usbd_cdc_transport_flush_fifo env itf (mp_usbd_cdc_transport_ring_clear u)"

text \<open>A call of \<open>ev_cdc_rx.h\<close> on \<open>cdc_rx_state\<close> that flushes when it has to.\<close>

definition on_bus :: "ev_cdc_rx_event \<times> ev_cdc_rx_state option \<times> 'd usb_cdc \<Rightarrow> 'd usb_cdc" where
  "on_bus r = (case r of (_, s, u) \<Rightarrow> u\<lparr>uc_rx := the s\<rparr>)"

definition mp_usbd_cdc_transport_sync_bus :: "'d usb_env \<Rightarrow> bool \<Rightarrow> 'd usb_cdc \<Rightarrow> 'd usb_cdc" where
  "mp_usbd_cdc_transport_sync_bus env mounted u =
     on_bus (ev_cdc_rx_bus_state (Some (uc_rx u)) mounted (Some (mp_usbd_cdc_transport_flush_rx env 0)) u)"

definition mp_usbd_cdc_transport_rx_storage_valid :: "'d usb_cdc \<Rightarrow> bool \<times> 'd usb_cdc" where
  "mp_usbd_cdc_transport_rx_storage_valid u =
     (if uc_size u \<noteq> EV_CDC_RX_RING_CAPACITY then (False, u\<lparr>uc_rx := (uc_rx u)\<lparr>cs_valid := False\<rparr>\<rparr>)
      else (cs_valid (uc_rx u), u))"

definition tud_mount_cb :: "'d usb_env \<Rightarrow> 'd usb_cdc \<Rightarrow> 'd usb_cdc" where
  "tud_mount_cb env u = on_bus (ev_cdc_rx_bus_mount (Some (uc_rx u)) (Some (mp_usbd_cdc_transport_flush_rx env 0)) u)"

definition tud_umount_cb :: "'d usb_env \<Rightarrow> 'd usb_cdc \<Rightarrow> 'd usb_cdc" where
  "tud_umount_cb env u = on_bus (ev_cdc_rx_bus_unmount (Some (uc_rx u)) (Some (mp_usbd_cdc_transport_flush_rx env 0)) u)"

definition usb_mounted :: "'d usb_env \<Rightarrow> 'd usb_cdc \<Rightarrow> bool" where
  "usb_mounted env u \<longleftrightarrow> ue_inited env (uc_dev u) \<and> ue_mounted env (uc_dev u)"

text \<open>What is stored: present, mounted, ready.\<close>

definition mp_usbd_cdc_transport_endpoint_state :: "'d usb_env \<Rightarrow> 'd usb_cdc \<Rightarrow> bool \<times> bool \<times> bool" where
  "mp_usbd_cdc_transport_endpoint_state env u =
     (let initialized = ue_inited env (uc_dev u)
      in (initialized \<and> ue_connected env (uc_dev u), initialized \<and> ue_mounted env (uc_dev u),
          initialized \<and> ue_cdc_ready env (uc_dev u)))"

section \<open>Receiving\<close>

definition cdc_ring_put :: "u8 \<Rightarrow> 'd usb_cdc \<Rightarrow> 'd usb_cdc" where
  "cdc_ring_put byte1 u =
     (case ev_cdc_rx_ring_put (Some (uc_buf u)) (Some (uc_tags u)) (uc_size u) (Some (uc_get u)) (Some (uc_put u)) byte1
             (cs_generation (uc_rx u)) of
        (_, buf, tags, put) \<Rightarrow> u\<lparr>uc_buf := the buf, uc_tags := the tags, uc_put := the put\<rparr>)"

text \<open>\<open>rx_bytes n\<close> is the loop of \<open>tud_cdc_rx_cb\<close> with \<open>n\<close> bytes to go.\<close>

fun rx_bytes :: "'d usb_env \<Rightarrow> bool \<Rightarrow> nat \<Rightarrow> nat \<Rightarrow> 'd usb_cdc \<Rightarrow> 'd usb_cdc" where
  "rx_bytes env usable itf 0 u = u"
| "rx_bytes env usable itf (Suc n) u =
     (if \<not> usable then rx_bytes env usable itf n (u\<lparr>uc_dev := snd (ue_read_char env (uc_dev u))\<rparr>)
      else if ue_ring_free env u \<noteq> 0
      then
        let (data, d) = ue_read_char env (uc_dev u); u1 = u\<lparr>uc_dev := d\<rparr>
        in rx_bytes env usable itf n
             (if data = ue_interrupt_char env d \<and> \<not> ue_mux_enabled env d
              then (mp_usbd_cdc_transport_ring_clear u1)\<lparr>uc_dev := ue_interrupt env d\<rparr>
              else cdc_ring_put (word_of_int data) u1)
      else u\<lparr>uc_ring_full := uc_ring_full u + 1, uc_pending := set_bit itf (uc_pending u)\<rparr>)"

definition tud_cdc_rx_cb :: "'d usb_env \<Rightarrow> nat \<Rightarrow> 'd usb_cdc \<Rightarrow> 'd usb_cdc" where
  "tud_cdc_rx_cb env itf u =
     (let mounted = ue_mounted env (uc_dev u); u1 = mp_usbd_cdc_transport_sync_bus env mounted u;
          (storage_valid, u2) = mp_usbd_cdc_transport_rx_storage_valid (u1\<lparr>uc_pending := unset_bit itf (uc_pending u1)\<rparr>)
      in rx_bytes env (mounted \<and> storage_valid) itf (ue_available env itf (uc_dev u2)) u2)"

fun poll_pending :: "'d usb_env \<Rightarrow> nat list \<Rightarrow> 'd usb_cdc \<Rightarrow> 'd usb_cdc" where
  "poll_pending env [] u = u"
| "poll_pending env (itf # itfs) u =
     (if bit (uc_pending u) itf
      then let u1 = tud_cdc_rx_cb env itf u in if uc_pending u1 = 0 then u1 else poll_pending env itfs u1
      else poll_pending env itfs u)"

definition mp_usbd_cdc_transport_pump :: "'d usb_env \<Rightarrow> 'd usb_cdc \<Rightarrow> 'd usb_cdc" where
  "mp_usbd_cdc_transport_pump env u =
     (if \<not> ue_inited env (uc_dev u) then u
      else
        let u1 = ue_task env u
        in if uc_pending u1 \<noteq> 0 \<and> ue_ring_free env u1 \<noteq> 0 then poll_pending env [0..<8] u1 else u1)"

section \<open>Reading\<close>

definition mp_usbd_cdc_transport_clear_rx :: "'d usb_env \<Rightarrow> 'd usb_cdc \<Rightarrow> 'd usb_cdc" where
  "mp_usbd_cdc_transport_clear_rx env u = mp_usbd_cdc_transport_flush_fifo env 0 (mp_usbd_cdc_transport_ring_clear u)"

text \<open>The bytes of the current generation stay. A ring whose indices are out of range is left alone.\<close>

definition keep_generation :: "'d usb_cdc \<Rightarrow> 'd usb_cdc" where
  "keep_generation u =
     (case ev_cdc_rx_ring_filter (Some (uc_buf u)) (Some (uc_tags u)) (uc_size u) (Some (uc_get u)) (Some (uc_put u)) True
             (cs_generation (uc_rx u)) of
        Some (_, buf, tags, put) \<Rightarrow> u\<lparr>uc_buf := the buf, uc_tags := the tags, uc_put := the put\<rparr>
      | None \<Rightarrow> u)"

text \<open>What is stored: mounted, the generation, whether it is valid.\<close>

definition mp_usbd_cdc_transport_rx_state :: "'d usb_env \<Rightarrow> bool \<Rightarrow> 'd usb_cdc \<Rightarrow> (bool \<times> u32 \<times> bool) \<times> 'd usb_cdc" where
  "mp_usbd_cdc_transport_rx_state env filter_generation u =
     (let mounted = usb_mounted env u;
          (valid, u1) = mp_usbd_cdc_transport_rx_storage_valid (mp_usbd_cdc_transport_sync_bus env mounted u);
          u2 = (if filter_generation \<and> mounted \<and> valid then keep_generation u1
                else if \<not> mounted \<or> \<not> valid then mp_usbd_cdc_transport_ring_clear u1 else u1)
      in ((mounted \<and> valid, cs_generation (uc_rx u2), valid), u2))"

fun ring_take :: "'d usb_env \<Rightarrow> nat \<Rightarrow> 'd usb_cdc \<Rightarrow> u8 list \<times> 'd usb_cdc" where
  "ring_take env 0 u = ([], u)"
| "ring_take env (Suc room) u =
     (if uc_get u = uc_put u then ([], u)
      else let (c, u1) = ue_ring_get env u; (bytes, u2) = ring_take env room u1 in (word_of_int c # bytes, u2))"

text \<open>\<open>given\<close> says whether the buffer is not NULL.\<close>

definition mp_usbd_cdc_transport_rx_read ::
  "'d usb_env \<Rightarrow> u32 \<Rightarrow> bool \<Rightarrow> nat \<Rightarrow> 'd usb_cdc \<Rightarrow> u8 list \<times> 'd usb_cdc" where
  "mp_usbd_cdc_transport_rx_read env expected_generation given capacity u =
     (if \<not> given \<or> capacity = 0 then ([], u)
      else
        let mounted = usb_mounted env u;
            (valid, u1) = mp_usbd_cdc_transport_rx_storage_valid (mp_usbd_cdc_transport_sync_bus env mounted u)
        in if \<not> valid \<or> \<not> mounted then ([], mp_usbd_cdc_transport_ring_clear u1)
           else
             let u2 = keep_generation u1
             in if cs_generation (uc_rx u2) \<noteq> expected_generation then ([], u2) else ring_take env capacity u2)"

text \<open>The new generation, if there is one.\<close>

definition mp_usbd_cdc_transport_rx_restart :: "'d usb_env \<Rightarrow> 'd usb_cdc \<Rightarrow> u32 option \<times> 'd usb_cdc" where
  "mp_usbd_cdc_transport_rx_restart env u =
     (let mounted = usb_mounted env u; u1 = mp_usbd_cdc_transport_sync_bus env mounted u
      in if \<not> mounted then (None, u1)
         else
           let (storage, u2) = mp_usbd_cdc_transport_rx_storage_valid u1
           in if \<not> storage then (None, u2)
              else
                let (restarted, s, u3) = ev_cdc_rx_restart (Some (uc_rx u2)) (Some (mp_usbd_cdc_transport_flush_rx env 0)) u2;
                    u4 = u3\<lparr>uc_rx := the s\<rparr>
                in (if restarted then Some (cs_generation (uc_rx u4)) else None, u4))"

definition mp_usbd_cdc_transport_clear_rx_if_unmounted :: "'d usb_env \<Rightarrow> 'd usb_cdc \<Rightarrow> 'd usb_cdc" where
  "mp_usbd_cdc_transport_clear_rx_if_unmounted env u =
     (let mounted = usb_mounted env u; u1 = mp_usbd_cdc_transport_sync_bus env mounted u
      in if \<not> mounted then mp_usbd_cdc_transport_flush_rx env 0 u1
         else
           let (valid, u2) = mp_usbd_cdc_transport_rx_storage_valid u1
           in if valid then u2 else mp_usbd_cdc_transport_flush_rx env 0 u2)"

end
