(* ===== verification/ControlTask.thy ===== *)
theory ControlTask
  imports ControlMethods UsbCdc
begin

text \<open>
  What is left of \<open>platform/ev_control_transport.c\<close>: the report of network changes, the start, and the task of the
  transport, which follows the USB connection (UsbCdc), pumps the bytes of the serial endpoints into the
  receivers of ControlFrame, and lets the lease, the negotiation of the UART speed and the uploads time out.
\<close>

section \<open>Network changes\<close>

datatype esp_vision_network_state =
    ESP_VISION_NETWORK_UNSUPPORTED
  | ESP_VISION_NETWORK_UNCONFIGURED
  | ESP_VISION_NETWORK_DISABLED
  | ESP_VISION_NETWORK_CONNECTING
  | ESP_VISION_NETWORK_ONLINE
  | ESP_VISION_NETWORK_RETRY_WAIT

datatype esp_vision_network_operation_state =
    ESP_VISION_NETWORK_OPERATION_NONE
  | ESP_VISION_NETWORK_OPERATION_QUEUED
  | ESP_VISION_NETWORK_OPERATION_RUNNING
  | ESP_VISION_NETWORK_OPERATION_SUCCEEDED
  | ESP_VISION_NETWORK_OPERATION_FAILED

datatype esp_vision_network_action =
    ESP_VISION_NETWORK_ACTION_NONE
  | ESP_VISION_NETWORK_ACTION_CONFIGURE
  | ESP_VISION_NETWORK_ACTION_ENABLE
  | ESP_VISION_NETWORK_ACTION_FORGET

text \<open>The fields that are reported.\<close>

record esp_vision_network_operation =
  no_id :: cstring
  no_action :: esp_vision_network_action
  no_state :: esp_vision_network_operation_state

record esp_vision_network_snapshot =
  nt_state :: esp_vision_network_state
  nt_config_revision :: u32
  nt_has_operation :: bool
  nt_has_last_operation :: bool
  nt_operation :: esp_vision_network_operation
  nt_last_operation :: esp_vision_network_operation

definition ev_control_network_state_name :: "esp_vision_network_state \<Rightarrow> cstring" where
  "ev_control_network_state_name state =
     (case state of ESP_VISION_NETWORK_UNSUPPORTED \<Rightarrow> ''unsupported'' | ESP_VISION_NETWORK_UNCONFIGURED \<Rightarrow> ''unconfigured''
      | ESP_VISION_NETWORK_DISABLED \<Rightarrow> ''disabled'' | ESP_VISION_NETWORK_CONNECTING \<Rightarrow> ''connecting''
      | ESP_VISION_NETWORK_ONLINE \<Rightarrow> ''online'' | ESP_VISION_NETWORK_RETRY_WAIT \<Rightarrow> ''retry_wait'')"

definition ev_control_network_operation_state_name :: "esp_vision_network_operation_state \<Rightarrow> cstring" where
  "ev_control_network_operation_state_name state =
     (case state of ESP_VISION_NETWORK_OPERATION_QUEUED \<Rightarrow> ''queued'' | ESP_VISION_NETWORK_OPERATION_RUNNING \<Rightarrow> ''running''
      | ESP_VISION_NETWORK_OPERATION_SUCCEEDED \<Rightarrow> ''succeeded'' | ESP_VISION_NETWORK_OPERATION_FAILED \<Rightarrow> ''failed''
      | ESP_VISION_NETWORK_OPERATION_NONE \<Rightarrow> ''unknown'')"

definition ev_control_network_action_name :: "esp_vision_network_action \<Rightarrow> cstring" where
  "ev_control_network_action_name action =
     (case action of ESP_VISION_NETWORK_ACTION_CONFIGURE \<Rightarrow> ''network.configure''
      | ESP_VISION_NETWORK_ACTION_ENABLE \<Rightarrow> ''network.enable'' | ESP_VISION_NETWORK_ACTION_FORGET \<Rightarrow> ''network.forget''
      | ESP_VISION_NETWORK_ACTION_NONE \<Rightarrow> ''unknown'')"

definition network_payload :: "cstring \<Rightarrow> cstring \<Rightarrow> cstring \<Rightarrow> esp_vision_network_snapshot \<Rightarrow> cstring" where
  "network_payload operation_id action operation_state snap =
     ''{\"ok\":true,\"operationId\":'' @ operation_id @ '',\"action\":\"'' @ action @ ''\",\"operationState\":\"'' @
     operation_state @ ''\",\"networkState\":\"'' @ ev_control_network_state_name (nt_state snap) @
     ''\",\"configRevision\":'' @ number (nt_config_revision snap) @ ''}''"

definition reported_operation :: "esp_vision_network_snapshot \<Rightarrow> esp_vision_network_operation option" where
  "reported_operation snap =
     (if nt_has_operation snap then Some (nt_operation snap)
      else if nt_has_last_operation snap then Some (nt_last_operation snap) else None)"

definition ev_control_network_changed ::
  "('f, 'h) handler_env \<Rightarrow> esp_vision_network_snapshot option \<Rightarrow> ('f, 'h) serving \<Rightarrow> ('f, 'h) serving" where
  "ev_control_network_changed env snapshot c =
     (case snapshot of None \<Rightarrow> c
      | Some snap \<Rightarrow>
          let operation = reported_operation snap;
              operation_id = (case operation of Some op \<Rightarrow> if no_id op = [] then ''null'' else quoted (no_id op)
                | None \<Rightarrow> ''null'');
              (action, operation_state) = (case operation of
                  Some op \<Rightarrow> (ev_control_network_action_name (no_action op), ev_control_network_operation_state_name (no_state op))
                | None \<Rightarrow> (''unknown'', ''unknown''));
              payload = network_payload operation_id action operation_state snap
          in if 35 \<le> length operation_id \<or> 256 \<le> length payload then c
             else let (seq, c1) = ev_control_next_seq c
                  in snd (ev_control_send_rpc_with_domain env EV_RPC_USER ''event'' ''network.changed'' payload seq c1))"

section \<open>The task\<close>

text \<open>\<open>cl_generation\<close> is the receive generation of the USB connection that the transport has seen last.\<close>

record cdc_link =
  cl_known :: bool
  cl_mounted :: bool
  cl_generation :: u32

record ('f, 'h, 'd) pump =
  pm_control :: "('f, 'h) serving"
  pm_parsers :: "ev_control_parser list"
  pm_cdc :: cdc_link
  pm_usb :: "'d usb_cdc"
  pm_queue_lock :: bool
  pm_state_lock :: bool
  pm_initialized :: bool
  pm_task :: bool
  pm_network_callback :: bool

text \<open>
  \<open>pe_control\<close> gives the calls of the receiver their meaning, \<open>pe_uart_clock\<close> and \<open>pe_uart_idle\<close> the state of the UART
  hardware, \<open>pe_ring_get\<close> and \<open>pe_tcp_read\<close> are the drivers of ev_transport_read, \<open>pe_jtag_poll\<close> is the poll of
  the USB-serial peripheral; \<open>pe_file_free\<close> whether the lock of the upload is free.
\<close>

record ('f, 'h, 'd) pump_env =
  pe_handlers :: "('f, 'h) handler_env"
  pe_control :: "('f, 'h) platform control_env"
  pe_usb :: "'d usb_env"
  pe_uart_clock :: "('f, 'h, 'd) pump \<Rightarrow> esp_err"
  pe_uart_idle :: "('f, 'h, 'd) pump \<Rightarrow> bool"
  pe_jtag_poll :: "'d \<Rightarrow> 'd"
  pe_ring_get :: "ev_transport_id \<Rightarrow> 'd \<Rightarrow> int \<times> 'd"
  pe_tcp_read :: "ev_link_ref \<Rightarrow> u8 list \<Rightarrow> nat \<Rightarrow> 'd \<Rightarrow> ev_io_result \<times> u8 list \<times> 'd"
  pe_file_free :: "('f, 'h, 'd) pump \<Rightarrow> bool"

definition pump_world :: "('f, 'h, 'd) pump \<Rightarrow> world" where
  "pump_world t = co_world (pm_control t)"

definition on_pump_world :: "(world \<Rightarrow> world) \<Rightarrow> ('f, 'h, 'd) pump \<Rightarrow> ('f, 'h, 'd) pump" where
  "on_pump_world g t = t\<lparr>pm_control := with_world (g (pump_world t)) (pm_control t)\<rparr>"

definition on_usb :: "('d usb_cdc \<Rightarrow> 'd usb_cdc) \<Rightarrow> ('f, 'h, 'd) pump \<Rightarrow> ('f, 'h, 'd) pump" where
  "on_usb g t = t\<lparr>pm_usb := g (pm_usb t)\<rparr>"

definition pump_now :: "('f, 'h, 'd) pump_env \<Rightarrow> ('f, 'h, 'd) pump \<Rightarrow> u32" where
  "pump_now env t = now_ms (pe_handlers env) (pm_control t)"

definition mux_enabled :: "('f, 'h, 'd) pump_env \<Rightarrow> ('f, 'h, 'd) pump \<Rightarrow> bool" where
  "mux_enabled env t = ue_mux_enabled (pe_usb env) (uc_dev (pm_usb t))"

definition reset_parser :: "ev_transport_id \<Rightarrow> ('f, 'h, 'd) pump \<Rightarrow> ('f, 'h, 'd) pump" where
  "reset_parser i t =
     (let n = transport_value i in t\<lparr>pm_parsers := (pm_parsers t)[n := ev_control_parser_reset (pm_parsers t ! n)]\<rparr>)"

definition lose_link :: "('f, 'h, 'd) pump_env \<Rightarrow> ev_link_ref \<Rightarrow> ('f, 'h, 'd) pump \<Rightarrow> ('f, 'h, 'd) pump" where
  "lose_link env link t =
     on_pump_world (\<lambda>w. snd (ev_session_link_lost (he_board (pe_handlers env)) (pump_now env t) w (Some link)
       EV_SESSION_CHANGE_LINK_LOST)) t"

section \<open>USB-CDC\<close>

definition ev_control_transport_cdc_reset_parser :: "('f, 'h, 'd) pump \<Rightarrow> ('f, 'h, 'd) pump" where
  "ev_control_transport_cdc_reset_parser t = reset_parser EV_TRANSPORT_USB t"

definition usb_link_ref :: "('f, 'h, 'd) pump \<Rightarrow> bool \<times> ev_link_ref" where
  "usb_link_ref t =
     (let (found, link) = ev_transport_link_ref (w_transport (pump_world t)) EV_TRANSPORT_USB EV_TRANSPORT_PHYSICAL_SLOT
            (Some zero_link)
      in (found, the link))"

definition ev_control_transport_cdc_close :: "('f, 'h, 'd) pump_env \<Rightarrow> ('f, 'h, 'd) pump \<Rightarrow> ('f, 'h, 'd) pump" where
  "ev_control_transport_cdc_close env t =
     (let (found, link) = usb_link_ref t
      in if found
         then
           let t1 = ev_control_transport_cdc_reset_parser (lose_link env link t)
           in on_pump_world (\<lambda>w. w\<lparr>w_transport := fst (ev_transport_link_close (he_board (pe_handlers env)) (w_transport w)
                (Some link))\<rparr>) t1
         else ev_control_transport_cdc_reset_parser t)"

definition ev_control_transport_cdc_open :: "('f, 'h, 'd) pump_env \<Rightarrow> ('f, 'h, 'd) pump \<Rightarrow> ('f, 'h, 'd) pump" where
  "ev_control_transport_cdc_open env t =
     (let (found, link) = usb_link_ref t
      in if found
         then
           let t1 = lose_link env link t;
               (advanced, _, tr) = ev_transport_link_advance_generation (w_transport (pump_world t1)) (Some link) (Some zero_link);
               t2 = on_pump_world (\<lambda>w. w\<lparr>w_transport := tr\<rparr>) t1
           in if \<not> advanced then t2 else ev_control_transport_cdc_reset_parser t2
         else
           let (err, _, tr) = ev_transport_link_open (w_transport (pump_world t)) EV_TRANSPORT_USB EV_TRANSPORT_PHYSICAL_SLOT
                 (Some link);
               t1 = on_pump_world (\<lambda>w. w\<lparr>w_transport := tr\<rparr>) t
           in if err \<noteq> ESP_OK then t1 else ev_control_transport_cdc_reset_parser t1)"

definition clear_if_unmounted :: "('f, 'h, 'd) pump_env \<Rightarrow> ('f, 'h, 'd) pump \<Rightarrow> ('f, 'h, 'd) pump" where
  "clear_if_unmounted env t = on_usb (mp_usbd_cdc_transport_clear_rx_if_unmounted (pe_usb env)) t"

text \<open>The three parts: the first look at the bus, a change, and the repair of what does not fit together.\<close>

definition cdc_first ::
  "('f, 'h, 'd) pump_env \<Rightarrow> bool \<Rightarrow> u32 \<Rightarrow> bool \<Rightarrow> ('f, 'h, 'd) pump \<Rightarrow> ('f, 'h, 'd) pump" where
  "cdc_first env mounted rx_generation link_open t =
     (let t1 = t\<lparr>pm_cdc := \<lparr>cl_known = True, cl_mounted = mounted, cl_generation = rx_generation\<rparr>\<rparr>;
          t2 = (if mounted then ev_control_transport_cdc_open env t1
                else if link_open then ev_control_transport_cdc_close env t1 else t1)
      in if \<not> mounted then clear_if_unmounted env t2 else t2)"

definition cdc_changed ::
  "('f, 'h, 'd) pump_env \<Rightarrow> bool \<Rightarrow> u32 \<Rightarrow> bool \<Rightarrow> ('f, 'h, 'd) pump \<Rightarrow> ('f, 'h, 'd) pump" where
  "cdc_changed env mounted rx_generation link_open t =
     (let t1 = t\<lparr>pm_cdc := (pm_cdc t)\<lparr>cl_mounted := mounted, cl_generation := rx_generation\<rparr>\<rparr>;
          t2 = (if link_open then ev_control_transport_cdc_close env t1 else t1)
      in if mounted then ev_control_transport_cdc_open env t2 else clear_if_unmounted env t2)"

definition cdc_repair ::
  "('f, 'h, 'd) pump_env \<Rightarrow> bool \<Rightarrow> bool \<Rightarrow> ('f, 'h, 'd) pump \<Rightarrow> ('f, 'h, 'd) pump" where
  "cdc_repair env mounted link_open t =
     (if mounted \<and> \<not> link_open
      then
        let (restarted, u) = mp_usbd_cdc_transport_rx_restart (pe_usb env) (pm_usb t); t1 = t\<lparr>pm_usb := u\<rparr>
        in case restarted of
             Some generation \<Rightarrow>
               ev_control_transport_cdc_open env (t1\<lparr>pm_cdc := (pm_cdc t1)\<lparr>cl_generation := generation\<rparr>\<rparr>)
           | None \<Rightarrow> clear_if_unmounted env (t1\<lparr>pm_cdc := (pm_cdc t1)\<lparr>cl_mounted := False\<rparr>\<rparr>)
      else if \<not> mounted \<and> link_open then clear_if_unmounted env (ev_control_transport_cdc_close env t)
      else t)"

definition ev_control_transport_cdc_update :: "('f, 'h, 'd) pump_env \<Rightarrow> ('f, 'h, 'd) pump \<Rightarrow> ('f, 'h, 'd) pump" where
  "ev_control_transport_cdc_update env t =
     (let ((bus_mounted, rx_generation, generation_valid), u) =
            mp_usbd_cdc_transport_rx_state (pe_usb env) (mux_enabled env t) (pm_usb t);
          t1 = t\<lparr>pm_usb := u\<rparr>; mounted = (bus_mounted \<and> generation_valid); link_open = fst (usb_link_ref t1)
      in if \<not> cl_known (pm_cdc t1) then cdc_first env mounted rx_generation link_open t1
         else if rx_generation \<noteq> cl_generation (pm_cdc t1) \<or> mounted \<noteq> cl_mounted (pm_cdc t1)
         then cdc_changed env mounted rx_generation link_open t1
         else cdc_repair env mounted link_open t1)"

section \<open>Pumping\<close>

text \<open>The buffer of the caller starts as zeros; what was read is its first part.\<close>

definition EV_CONTROL_RX_CHUNK_MAX :: nat where "EV_CONTROL_RX_CHUNK_MAX = 256"
definition EV_CONTROL_UART_RX_CHUNKS :: nat where "EV_CONTROL_UART_RX_CHUNKS = 4"

definition ev_control_transport_read_link ::
  "('f, 'h, 'd) pump_env \<Rightarrow> ev_link_ref \<Rightarrow> u8 list \<Rightarrow> ('f, 'h, 'd) pump \<Rightarrow> ev_io_result \<times> u8 list \<times> ('f, 'h, 'd) pump" where
  "ev_control_transport_read_link env link chunk t =
     (if hw_usb_cdc (he_board (pe_handlers env)) \<and> lr_transport_id link = EV_TRANSPORT_USB
      then
        let (bytes, u) = mp_usbd_cdc_transport_rx_read (pe_usb env) (cl_generation (pm_cdc t)) True (length chunk) (pm_usb t);
            n = length bytes
        in (ev_transport_result (if n \<noteq> 0 then EV_IO_PROGRESS else EV_IO_WOULD_BLOCK) n ESP_OK, bytes @ drop n chunk,
            t\<lparr>pm_usb := u\<rparr>)
      else
        let (result, buffer, d) = ev_transport_read (he_board (pe_handlers env)) (pe_ring_get env) (pe_tcp_read env)
              (w_transport (pump_world t)) (Some link) (Some chunk) (length chunk) (uc_dev (pm_usb t))
        in (result, the buffer, t\<lparr>pm_usb := (pm_usb t)\<lparr>uc_dev := d\<rparr>\<rparr>))"

definition pump_rx ::
  "('f, 'h, 'd) pump_env \<Rightarrow> ev_link_ref \<Rightarrow> u8 list option \<Rightarrow> nat \<Rightarrow> ('f, 'h, 'd) pump \<Rightarrow> ('f, 'h, 'd) pump checked" where
  "pump_rx env link bytes n t =
     sbind (ev_control_transport_rx (pe_control env) (Some link) bytes n (pm_parsers t) (pm_control t))
       (\<lambda>(_, parsers, c). Inr (t\<lparr>pm_parsers := parsers, pm_control := c\<rparr>))"

fun pump_chunks ::
  "('f, 'h, 'd) pump_env \<Rightarrow> ev_link_ref \<Rightarrow> nat \<Rightarrow> u8 list \<Rightarrow> ('f, 'h, 'd) pump \<Rightarrow> (u8 list \<times> ('f, 'h, 'd) pump) checked" where
  "pump_chunks env link 0 chunk t = Inr (chunk, t)"
| "pump_chunks env link (Suc n) chunk t =
     (let (result, chunk1, t1) = ev_control_transport_read_link env link chunk t
      in if io_status result = EV_IO_PROGRESS
         then sbind (pump_rx env link (Some chunk1) (io_transferred result) t1) (pump_chunks env link n chunk1)
         else if io_status result = EV_IO_WOULD_BLOCK
         then sbind (pump_rx env link None 0 t1) (\<lambda>t2. Inr (chunk1, t2))
         else Inr (chunk1, t1))"

fun pump_links ::
  "('f, 'h, 'd) pump_env \<Rightarrow> ev_transport_id list \<Rightarrow> u8 list \<Rightarrow> ('f, 'h, 'd) pump \<Rightarrow> ('f, 'h, 'd) pump checked" where
  "pump_links env [] chunk t = Inr t"
| "pump_links env (i # ids) chunk t =
     (case ev_transport_link_ref (w_transport (pump_world t)) i EV_TRANSPORT_PHYSICAL_SLOT (Some zero_link) of
        (True, Some link) \<Rightarrow>
          sbind (pump_chunks env link (if i = EV_TRANSPORT_UART then EV_CONTROL_UART_RX_CHUNKS else 1) chunk t)
            (\<lambda>(chunk1, t1). pump_links env ids chunk1 t1)
      | _ \<Rightarrow> pump_links env ids chunk t)"

definition ev_control_transport_poll_serial :: "('f, 'h, 'd) pump_env \<Rightarrow> ('f, 'h, 'd) pump \<Rightarrow> ('f, 'h, 'd) pump" where
  "ev_control_transport_poll_serial env t =
     (let b = he_board (pe_handlers env);
          t1 = (if hw_usb_serial_jtag b then on_usb (\<lambda>u. u\<lparr>uc_dev := pe_jtag_poll env (uc_dev u)\<rparr>) t else t)
      in if hw_usb_cdc b then on_usb (mp_usbd_cdc_transport_pump (pe_usb env)) t1 else t1)"

text \<open>Whether the poll of the negotiation switches the hardware, and then starts the receiver afresh.\<close>

definition uart_poll_switches :: "('f, 'h, 'd) pump_env \<Rightarrow> ('f, 'h, 'd) pump \<Rightarrow> bool" where
  "uart_poll_switches env t =
     (let w = pump_world t; u = pf_uart (co_rest (pm_control t)); now = pump_now env t; b = he_board (pe_handlers env);
          same_owner = uart_same_owner (w_session w) now u; (restore, switch_due, u1) = uart_poll_decide u same_owner now;
          requested = (if restore then EV_UART_BAUD_BASELINE else bd_requested (ub_state u1));
          w1 = (if restore \<and> same_owner
                then snd (ev_session_link_lost b now w (Some (ub_link u)) EV_SESSION_CHANGE_LINK_LOST) else w)
      in bd_phase (ub_state u) \<noteq> EV_UART_BAUD_IDLE \<and> (restore \<or> switch_due) \<and>
         fst (uart_switch b (w_transport w1) (pe_uart_clock env t) (pe_uart_idle env t) (ub_hw u1) requested) = ESP_OK)"

definition pump_uart_poll :: "('f, 'h, 'd) pump_env \<Rightarrow> ('f, 'h, 'd) pump \<Rightarrow> ('f, 'h, 'd) pump" where
  "pump_uart_poll env t =
     (let c = pm_control t; now = pump_now env t;
          (w, u) = ev_control_transport_uart_baud_poll (he_board (pe_handlers env)) now now (pe_uart_clock env t)
            (pe_uart_idle env t) (co_world c) (pf_uart (co_rest c));
          t1 = t\<lparr>pm_control := on_platform (\<lambda>p. p\<lparr>pf_uart := u\<rparr>) (with_world w c)\<rparr>
      in if uart_poll_switches env t then reset_parser EV_TRANSPORT_UART t1 else t1)"

definition ev_control_transport_pump :: "('f, 'h, 'd) pump_env \<Rightarrow> ('f, 'h, 'd) pump \<Rightarrow> ('f, 'h, 'd) pump checked" where
  "ev_control_transport_pump env t =
     (let t1 = ev_control_transport_poll_serial env (pump_uart_poll env t);
          t2 = (if hw_usb_cdc (he_board (pe_handlers env)) then ev_control_transport_cdc_update env t1 else t1)
      in pump_links env [EV_TRANSPORT_USJ, EV_TRANSPORT_USB, EV_TRANSPORT_UART] (replicate EV_CONTROL_RX_CHUNK_MAX 0) t2)"

text \<open>One round of the task.\<close>

definition ev_control_transport_task :: "('f, 'h, 'd) pump_env \<Rightarrow> ('f, 'h, 'd) pump \<Rightarrow> ('f, 'h, 'd) pump checked" where
  "ev_control_transport_task env t =
     sbind
       (if mux_enabled env t then ev_control_transport_pump env t
        else
          let t1 = ev_control_transport_poll_serial env t
          in Inr (if hw_usb_cdc (he_board (pe_handlers env)) then ev_control_transport_cdc_update env t1 else t1))
       (\<lambda>t1.
         let t2 = on_pump_world (\<lambda>w. snd (ev_session_tick (he_board (pe_handlers env)) w (pump_now env t1))) t1
         in Inr (t2\<lparr>pm_control := with_file_world (ev_file_transfer_poll (he_file (pe_handlers env)) (pe_file_free env t2)
              (file_world_of (pm_control t2))) (pm_control t2)\<rparr>))"

section \<open>Start\<close>

definition zero_stats :: ev_transport_stats where
  "zero_stats = \<lparr>st_rx_bytes = [0, 0, 0, 0], st_frames_ok = 0, st_frames_bad = 0, st_frames_rejected = 0, st_repl_rx_dropped = 0,
     st_vm_busy = 0, st_parser_timeouts = 0, st_stale_generation_drops = 0\<rparr>"

text \<open>
  \<open>created\<close> says whether the two locks can be created, \<open>file_created\<close> and \<open>psa_ok\<close> what the start of the uploads needs.
\<close>

definition ev_control_transport_init0 ::
  "bool \<times> bool \<Rightarrow> bool \<Rightarrow> bool \<Rightarrow> ('f, 'h, 'd) pump \<Rightarrow> ('f, 'h, 'd) pump" where
  "ev_control_transport_init0 created file_created psa_ok t =
     (let t1 = t\<lparr>pm_queue_lock := pm_queue_lock t \<or> fst created\<rparr>
      in if \<not> pm_queue_lock t1 then t1
         else
           let t2 = t1\<lparr>pm_state_lock := pm_state_lock t1 \<or> snd created\<rparr>
           in if \<not> pm_state_lock t2 \<or> pm_initialized t2 then t2
              else
                let c = pm_control t2;
                    c1 = with_file_world (snd (ev_file_transfer_init file_created psa_ok (file_world_of c))) c;
                    c2 = ev_control_vm_queue_clear (ev_control_repl_rx_clear c1);
                    c3 = on_session (\<lambda>s. ev_session_set_changed_cb s True) (c2\<lparr>co_stats := zero_stats\<rparr>)
                in t2\<lparr>pm_parsers := map ev_control_parser_reset (pm_parsers t2), pm_control := c3, pm_initialized := True,
                      pm_network_callback := True\<rparr>)"

text \<open>\<open>started\<close> says whether the task can be created.\<close>

definition ev_control_transport_start :: "bool \<Rightarrow> ('f, 'h, 'd) pump \<Rightarrow> ('f, 'h, 'd) pump" where
  "ev_control_transport_start started t =
     (if \<not> pm_initialized t \<or> \<not> pm_queue_lock t \<or> \<not> pm_state_lock t then t
      else t\<lparr>pm_task := pm_task t \<or> started\<rparr>)"

definition ev_control_transport_read_pending ::
  "'r control_env \<Rightarrow> int option \<Rightarrow> 'r control \<Rightarrow> (bool \<times> int option \<times> 'r control) checked" where
  "ev_control_transport_read_pending env out_chr c = ev_control_repl_rx_pop env out_chr c"

definition ev_control_transport_vm_ready :: "('f, 'h, 'd) pump_env \<Rightarrow> ('f, 'h, 'd) pump \<Rightarrow> ('f, 'h, 'd) pump" where
  "ev_control_transport_vm_ready env t =
     (let c = pm_control t; c1 = c\<lparr>co_vm_task := ev_vm_output_init0 (co_vm_task c)\<rparr>;
          c2 = (if ev_session_vm_epoch (w_session (co_world c1)) = 0
                then on_session (\<lambda>s. snd (ev_session_vm_epoch_advance s)) c1 else c1);
          c3 = on_session (\<lambda>s. ev_session_set_vm_ready s True) c2
      in t\<lparr>pm_control := if mux_enabled env t then snd (ev_control_transport_send_hello (pe_handlers env) c3) else c3\<rparr>)"

end
