(* ===== verification/ControlScriptProps.thy ===== *)
theory ControlScriptProps
  imports ControlMethods
begin

text \<open>
  What \<open>script.write\<close> and \<open>script.run\<close> do to the files and to the input of the REPL.
\<close>

section \<open>What is assumed of the file system\<close>

text \<open>
  \<open>look f path\<close> is the contents of a file, \<open>opened f fd\<close> the path of a descriptor. \<open>vfs_laws\<close> is what the
  virtual file system documents: a call touches only the files it names, and if it succeeds, it has done its
  work; it may fail at any time.
\<close>

type_synonym 'f content_view = "'f \<Rightarrow> cstring \<Rightarrow> u8 list option"

definition only_at :: "'f content_view \<Rightarrow> cstring set \<Rightarrow> 'f \<Rightarrow> 'f \<Rightarrow> bool" where
  "only_at look ps f f' \<longleftrightarrow> (\<forall>q. q \<notin> ps \<longrightarrow> look f' q = look f q)"

definition vfs_laws :: "'f vfs_ops \<Rightarrow> 'f content_view \<Rightarrow> ('f \<Rightarrow> int \<Rightarrow> cstring option) \<Rightarrow> bool" where
  "vfs_laws ops look opened \<longleftrightarrow>
     (\<forall>p f r f'. vo_stat ops p f = (r, f') \<longrightarrow> look f' = look f \<and> (\<forall>b. r = Some b \<longrightarrow> b = (look f p \<noteq> None))) \<and>
     (\<forall>p f r f'. vo_remove ops p f = (r, f') \<longrightarrow> only_at look {p} f f' \<and> (r \<longrightarrow> look f' p = None)) \<and>
     (\<forall>p m f r f'. vo_open ops p m f = (r, f') \<longrightarrow> only_at look {p} f f' \<and>
        (\<forall>fd. r = Some fd \<longrightarrow> opened f' fd = Some p \<and>
           (m = ''wb'' \<longrightarrow> look f' p = Some []) \<and>
           (m = ''ab'' \<longrightarrow> look f' p = Some (case look f p of None \<Rightarrow> [] | Some d \<Rightarrow> d)))) \<and>
     (\<forall>p fd data f r f'. opened f fd = Some p \<longrightarrow> vo_write ops fd data f = (r, f') \<longrightarrow>
        only_at look {p} f f' \<and> (\<forall>n. r = Some (0, n) \<longrightarrow> look f' p = Some (the (look f p) @ take n data))) \<and>
     (\<forall>fd f r f'. vo_close ops fd f = (r, f') \<longrightarrow> look f' = look f) \<and>
     (\<forall>old new f r f'. vo_rename ops old new f = (r, f') \<longrightarrow> only_at look {old, new} f f' \<and>
        (r \<longrightarrow> look f' = (look f)(new := look f old, old := None)))"

lemma vfs_stat: "vfs_laws ops look opened \<Longrightarrow> vo_stat ops p f = (r, f') \<Longrightarrow>
    look f' = look f \<and> (\<forall>b. r = Some b \<longrightarrow> b = (look f p \<noteq> None))"
  unfolding vfs_laws_def by (drule conjunct1) (elim allE impE, assumption, assumption)

lemma vfs_remove: "vfs_laws ops look opened \<Longrightarrow> vo_remove ops p f = (r, f') \<Longrightarrow>
    only_at look {p} f f' \<and> (r \<longrightarrow> look f' p = None)"
  unfolding vfs_laws_def by (drule conjunct2, drule conjunct1) (elim allE impE, assumption, assumption)

lemma vfs_open: "vfs_laws ops look opened \<Longrightarrow> vo_open ops p m f = (r, f') \<Longrightarrow>
    only_at look {p} f f' \<and> (\<forall>fd. r = Some fd \<longrightarrow> opened f' fd = Some p \<and>
      (m = ''wb'' \<longrightarrow> look f' p = Some []) \<and>
      (m = ''ab'' \<longrightarrow> look f' p = Some (case look f p of None \<Rightarrow> [] | Some d \<Rightarrow> d)))"
  unfolding vfs_laws_def by (drule conjunct2, drule conjunct2, drule conjunct1) (elim allE impE, assumption, assumption)

lemma vfs_write: "vfs_laws ops look opened \<Longrightarrow> opened f fd = Some p \<Longrightarrow> vo_write ops fd data f = (r, f') \<Longrightarrow>
    only_at look {p} f f' \<and> (\<forall>n. r = Some (0, n) \<longrightarrow> look f' p = Some (the (look f p) @ take n data))"
  unfolding vfs_laws_def
  by (drule conjunct2, drule conjunct2, drule conjunct2, drule conjunct1) (elim allE impE, assumption, assumption, assumption)

lemma vfs_close: "vfs_laws ops look opened \<Longrightarrow> vo_close ops fd f = (r, f') \<Longrightarrow> look f' = look f"
  unfolding vfs_laws_def
  by (drule conjunct2, drule conjunct2, drule conjunct2, drule conjunct2, drule conjunct1) (elim allE impE, assumption, assumption)

lemma vfs_rename: "vfs_laws ops look opened \<Longrightarrow> vo_rename ops old new f = (r, f') \<Longrightarrow>
    only_at look {old, new} f f' \<and> (r \<longrightarrow> look f' = (look f)(new := look f old, old := None))"
  unfolding vfs_laws_def
  by (drule conjunct2, drule conjunct2, drule conjunct2, drule conjunct2, drule conjunct2) (elim allE impE, assumption, assumption)

lemma only_at_trans: "only_at look ps f f1 \<Longrightarrow> only_at look ps f1 f2 \<Longrightarrow> only_at look ps f f2"
  by (simp add: only_at_def)

lemma only_at_same: "look f' = look f \<Longrightarrow> only_at look ps f f'"
  by (simp add: only_at_def)

lemma only_at_eq: "only_at look {p} f f' \<Longrightarrow> look f' p = x \<Longrightarrow> look f' = (look f)(p := x)"
  by (auto simp: only_at_def)

section \<open>The calls of the handlers\<close>

abbreviation files :: "('f, 'h) serving \<Rightarrow> 'f" where
  "files c \<equiv> pf_files (co_rest c)"

lemma files_on_files [simp]: "files (on_files f c) = f"
  by (simp add: on_files_def on_platform_def)

lemma exists_look:
  assumes "vfs_laws (he_vfs env) look opened" "ev_control_vfs_exists env p c = (r, found, c')"
  shows "look (files c') = look (files c)" "r = ESP_OK \<Longrightarrow> found = (look (files c) p \<noteq> None)"
  using assms(2) vfs_stat [OF assms(1)] unfolding ev_control_vfs_exists_def
  by (auto split: prod.splits option.splits)

lemma remove_look:
  assumes laws: "vfs_laws (he_vfs env) look opened" and go: "ev_control_vfs_remove_if_exists env p c = (r, c')"
  shows "only_at look {p} (files c) (files c')" "r = ESP_OK \<Longrightarrow> look (files c') p = None"
proof -
  obtain r1 found c1 where e: "ev_control_vfs_exists env p c = (r1, found, c1)"
    by (cases "ev_control_vfs_exists env p c")
  obtain b f where rm: "vo_remove (he_vfs env) p (files c1) = (b, f)"
    by (cases "vo_remove (he_vfs env) p (files c1)")
  note ex = exists_look [OF laws e] and del = vfs_remove [OF laws rm]
  have "only_at look {p} (files c) (files c') \<and> (r = ESP_OK \<longrightarrow> look (files c') p = None)"
    using go e rm ex del unfolding ev_control_vfs_remove_if_exists_def
    by (auto simp: only_at_def split: if_split_asm)
  then show "only_at look {p} (files c) (files c')" "r = ESP_OK \<Longrightarrow> look (files c') p = None"
    by auto
qed

lemma close_look:
  assumes "vfs_laws (he_vfs env) look opened"
  shows "look (files (snd (ev_control_vfs_close env fd c))) = look (files c)"
  using vfs_close [OF assms] unfolding ev_control_vfs_close_def by (auto split: prod.split)

lemma write_mode_look:
  assumes laws: "vfs_laws (he_vfs env) look opened" and mode: "mode = ''wb'' \<or> mode = ''ab''"
    and go: "ev_control_vfs_write_file_mode env p data mode c = (r, c')"
  shows "only_at look {p} (files c) (files c')"
    "r = ESP_OK \<Longrightarrow> look (files c') p =
       Some ((if mode = ''wb'' then [] else case look (files c) p of None \<Rightarrow> [] | Some d \<Rightarrow> d) @ data)"
proof -
  obtain fd f where op: "vo_open (he_vfs env) p mode (files c) = (fd, f)"
    by (cases "vo_open (he_vfs env) p mode (files c)")
  note opened = vfs_open [OF laws op]
  have "only_at look {p} (files c) (files c') \<and> (r = ESP_OK \<longrightarrow> look (files c') p =
       Some ((if mode = ''wb'' then [] else case look (files c) p of None \<Rightarrow> [] | Some d \<Rightarrow> d) @ data))"
  proof (cases fd)
    case None
    then show ?thesis
      using go op opened unfolding ev_control_vfs_write_file_mode_def by auto
  next
    case (Some d)
    obtain w f1 where wr: "vo_write (he_vfs env) d data f = (w, f1)"
      by (cases "vo_write (he_vfs env) d data f")
    have "opened f d = Some p"
      using opened Some by simp
    note written = vfs_write [OF laws this wr]
    have end1: "look (files c') = look f1"
      using go op Some wr close_look [OF laws, of d "on_files f1 c"] unfolding ev_control_vfs_write_file_mode_def
      by (auto split: option.splits prod.splits if_split_asm)
    have ok: "r = ESP_OK \<Longrightarrow> w = Some (0, length data)"
      using go op Some wr unfolding ev_control_vfs_write_file_mode_def
      by (auto split: option.splits prod.splits if_split_asm)
    show ?thesis
      using opened written Some end1 ok mode only_at_trans [of look "{p}" "files c" f f1]
      by (auto simp: only_at_def)
  qed
  then show "only_at look {p} (files c) (files c')"
    "r = ESP_OK \<Longrightarrow> look (files c') p =
       Some ((if mode = ''wb'' then [] else case look (files c) p of None \<Rightarrow> [] | Some d \<Rightarrow> d) @ data)"
    by auto
qed

section \<open>A chunk\<close>

abbreviation staging :: "cstring \<Rightarrow> cstring" where
  "staging path \<equiv> path @ EV_CONTROL_PATH_TMP_SUFFIX"

lemma suffix_nonempty [simp]: "EV_CONTROL_PATH_TMP_SUFFIX \<noteq> []"
  by (simp add: EV_CONTROL_PATH_TMP_SUFFIX_def)

text \<open>Staging touches the staging file only; if it succeeds, the file has the chunk at its end.\<close>

lemma stage_look:
  assumes laws: "vfs_laws (he_vfs env) look opened" and go: "stage_chunk env k tmp data c = (refused, c')"
  shows "only_at look {tmp} (files c) (files c')"
    "refused = None \<Longrightarrow> \<not> sk_has_total k \<or> sk_offset k = 0 \<Longrightarrow> look (files c') tmp = Some data"
    "refused = None \<Longrightarrow> sk_has_total k \<Longrightarrow> sk_offset k \<noteq> 0 \<Longrightarrow>
       \<exists>d. look (files c) tmp = Some d \<and> look (files c') tmp = Some (d @ data)"
proof -
  let ?anew = "\<not> sk_has_total k \<or> sk_offset k = 0"
  obtain r rm where rm: "ev_control_vfs_remove_if_exists env tmp c = (r, rm)"
    by (cases "ev_control_vfs_remove_if_exists env tmp c")
  obtain w wc where wr: "ev_control_vfs_write_file env tmp data rm = (w, wc)"
    by (cases "ev_control_vfs_write_file env tmp data rm")
  obtain x found xc where ex: "ev_control_vfs_exists env tmp c = (x, found, xc)"
    by (cases "ev_control_vfs_exists env tmp c")
  obtain a ac where ap: "ev_control_vfs_append_file env tmp data xc = (a, ac)"
    by (cases "ev_control_vfs_append_file env tmp data xc")
  note removed = remove_look [OF laws rm] and found = exists_look [OF laws ex]
  note written = write_mode_look [OF laws disjI1, OF refl wr [unfolded ev_control_vfs_write_file_def]]
  note appended = write_mode_look [OF laws disjI2, OF refl ap [unfolded ev_control_vfs_append_file_def]]
  have cleaned: "only_at look {tmp} (files c1) (files (snd (ev_control_vfs_remove_if_exists env tmp c1)))" for c1
    using remove_look(1) [OF laws] by (metis prod.collapse)
  have "only_at look {tmp} (files c) (files c') \<and>
    (refused = None \<longrightarrow> (if ?anew then look (files c') tmp = Some data
       else \<exists>d. look (files c) tmp = Some d \<and> look (files c') tmp = Some (d @ data)))"
  proof (cases ?anew)
    case True
    then have eq: "stage_chunk env k tmp data c =
        (if r \<noteq> ESP_OK then (Some (''VFS_FAILED'', ''failed to prepare temporary file''), rm)
         else if w \<noteq> ESP_OK
         then (Some (''WRITE_FAILED'', ''failed to write temporary file''), snd (ev_control_vfs_remove_if_exists env tmp wc))
         else (None, wc))"
      using rm wr by (auto simp: stage_chunk_def Let_def)
    show ?thesis
      using go eq True removed(1) written cleaned [of wc]
      by (auto simp: only_at_def split: if_split_asm)
  next
    case False
    then have eq: "stage_chunk env k tmp data c =
        (if x \<noteq> ESP_OK \<or> \<not> found then (Some (''INVALID_STATE'', ''missing temporary file for chunk''), xc)
         else if a \<noteq> ESP_OK
         then (Some (''WRITE_FAILED'', ''failed to write temporary file''), snd (ev_control_vfs_remove_if_exists env tmp ac))
         else (None, ac))"
      using ex ap by (auto simp: stage_chunk_def Let_def)
    show ?thesis
      using go eq False found appended cleaned [of ac]
      by (auto simp: only_at_def split: if_split_asm)
  qed
  then show "only_at look {tmp} (files c) (files c')"
    "refused = None \<Longrightarrow> ?anew \<Longrightarrow> look (files c') tmp = Some data"
    "refused = None \<Longrightarrow> sk_has_total k \<Longrightarrow> sk_offset k \<noteq> 0 \<Longrightarrow>
       \<exists>d. look (files c) tmp = Some d \<and> look (files c') tmp = Some (d @ data)"
    by auto
qed

lemma rename_look:
  assumes "vfs_laws (he_vfs env) look opened" "ev_control_vfs_rename env old new c = (r, c')"
  shows "r = ESP_OK \<Longrightarrow> look (files c') = (look (files c))(new := look (files c) old, old := None)"
  using assms(2) vfs_rename [OF assms(1)] unfolding ev_control_vfs_rename_def by (auto split: prod.splits if_split_asm)

text \<open>An accepted chunk.\<close>

lemma publish_look:
  assumes laws: "vfs_laws (he_vfs env) look opened" and go: "publish_chunk env k data c = (None, c')"
  shows "\<exists>c1. stage_chunk env k (staging (sk_path k)) data c = (None, c1) \<and>
    (sk_has_total k \<longrightarrow> unat (sk_offset k) + length data \<le> unat (sk_total k)) \<and>
    look (files c') = (if chunk_complete k data
      then (look (files c1))(sk_path k := look (files c1) (staging (sk_path k)), staging (sk_path k) := None)
      else look (files c1))"
proof -
  let ?tmp = "staging (sk_path k)"
  obtain refused c1 where st: "stage_chunk env k ?tmp data c = (refused, c1)"
    by (cases "stage_chunk env k ?tmp data c")
  obtain r c2 where rn: "ev_control_vfs_rename env ?tmp (sk_path k) c1 = (r, c2)"
    by (cases "ev_control_vfs_rename env ?tmp (sk_path k) c1")
  show ?thesis
    using go st rn rename_look [OF laws rn] unfolding publish_chunk_def
    by (cases refused) (auto simp: Let_def split: if_split_asm)
qed

text \<open>Whatever becomes of an unfinished chunk, only the staging file has changed.\<close>

lemma unfinished_look:
  assumes laws: "vfs_laws (he_vfs env) look opened" and go: "publish_chunk env k data c = (refused, c')"
    and un: "\<not> chunk_complete k data \<or> refused \<noteq> None \<and> refused \<noteq> Some (''RENAME_FAILED'', ''failed to publish file'')"
  shows "only_at look {staging (sk_path k)} (files c) (files c')"
proof -
  let ?tmp = "staging (sk_path k)"
  obtain r c1 where st: "stage_chunk env k ?tmp data c = (r, c1)"
    by (cases "stage_chunk env k ?tmp data c")
  show ?thesis
    using go st un stage_look(1) [OF laws st] unfolding publish_chunk_def
    by (auto simp: Let_def only_at_def split: if_split_asm prod.splits)
qed

section \<open>A script in chunks\<close>

text \<open>
  The requests for the pieces \<open>ds\<close> of a script, in their order; and their effect, if none is refused.
\<close>

definition chunks_of :: "cstring \<Rightarrow> u8 list list \<Rightarrow> script_chunk list \<Rightarrow> bool" where
  "chunks_of path ds ks \<longleftrightarrow> length ks = length ds \<and>
     (\<forall>i < length ds. sk_path (ks ! i) = path \<and> sk_has_total (ks ! i) \<and>
        unat (sk_offset (ks ! i)) = length (concat (take i ds)) \<and> unat (sk_total (ks ! i)) = length (concat ds))"

fun publish_chunks ::
  "('f, 'h) handler_env \<Rightarrow> (script_chunk \<times> u8 list) list \<Rightarrow> ('f, 'h) serving \<Rightarrow> ('f, 'h) serving option" where
  "publish_chunks env [] c = Some c"
| "publish_chunks env ((k, data) # rest) c =
     (case publish_chunk env k data c of (None, c1) \<Rightarrow> publish_chunks env rest c1 | _ \<Rightarrow> None)"

text \<open>How the files look when \<open>pre\<close> of a script of \<open>n\<close> bytes has been accepted.\<close>

definition progress :: "nat \<Rightarrow> cstring \<Rightarrow> (cstring \<Rightarrow> u8 list option) \<Rightarrow> u8 list \<Rightarrow> (cstring \<Rightarrow> u8 list option) \<Rightarrow> bool" where
  "progress n path before pre now \<longleftrightarrow>
     (if length pre < n then now = before(staging path := Some pre)
      else length pre = n \<and> now = before(path := Some pre, staging path := None))"

lemma publish_step:
  assumes laws: "vfs_laws (he_vfs env) look opened" and go: "publish_chunk env k data c = (None, c')"
    and k: "sk_path k = path" "sk_has_total k" "unat (sk_offset k) = length pre" "unat (sk_total k) = n"
    and start: "look (files c) = before \<and> pre = [] \<or> progress n path before pre (look (files c))"
  shows "progress n path before (pre @ data) (look (files c'))"
proof -
  obtain c1 where st: "stage_chunk env k (staging path) data c = (None, c1)"
    and n: "length pre + length data \<le> n"
    and look': "look (files c') = (if length pre + length data = n
      then (look (files c1))(path := look (files c1) (staging path), staging path := None) else look (files c1))"
    using publish_look [OF laws go] k by (auto simp: chunk_complete_def)
  note staged = stage_look [OF laws st]
  have staged1: "look (files c1) (staging path) = Some (pre @ data) \<and>
      (\<forall>q. q \<noteq> staging path \<longrightarrow> q \<noteq> path \<longrightarrow> look (files c1) q = before q) \<and>
      (length pre < n \<or> pre = [] \<and> n \<noteq> 0 \<longrightarrow> look (files c1) path = before path)"
  proof (cases "pre = []")
    case True
    then have "sk_offset k = 0"
      using k(3) by (simp add: unsigned_eq_0_iff)
    then have "look (files c1) (staging path) = Some (pre @ data)"
      using staged(2) True by simp
    then show ?thesis
      using staged(1) start True by (auto simp: only_at_def progress_def split: if_split_asm)
  next
    case False
    then have off: "sk_offset k \<noteq> 0" and now: "progress n path before pre (look (files c))"
      using k(3) start by (auto simp: unsigned_eq_0_iff)
    obtain d where d: "look (files c) (staging path) = Some d" "look (files c1) (staging path) = Some (d @ data)"
      using staged(3) k(2) off by blast
    then have "length pre < n" "look (files c) = before(staging path := Some pre)"
      using now by (auto simp: progress_def split: if_split_asm)
    then show ?thesis
      using d staged(1) by (auto simp: only_at_def)
  qed
  show ?thesis
  proof (cases "length pre + length data = n")
    case True
    then have "look (files c') = before(path := Some (pre @ data), staging path := None)"
      unfolding look' using True staged1 by (intro ext) (simp split: if_split)
    then show ?thesis
      using True by (simp add: progress_def)
  next
    case False
    then have "look (files c') = before(staging path := Some (pre @ data))"
      unfolding look' using False n staged1 by (intro ext) (auto split: if_split)
    then show ?thesis
      using False n by (simp add: progress_def)
  qed
qed

lemma publish_rest:
  assumes "vfs_laws (he_vfs env) look opened" "publish_chunks env (zip ks ds) c = Some c'" "length ks = length ds"
    and "\<And>i. i < length ds \<Longrightarrow> sk_path (ks ! i) = path \<and> sk_has_total (ks ! i) \<and>
          unat (sk_offset (ks ! i)) = length (pre @ concat (take i ds)) \<and> unat (sk_total (ks ! i)) = n"
    and "ds = [] \<Longrightarrow> progress n path before pre (look (files c))"
    and "look (files c) = before \<and> pre = [] \<or> progress n path before pre (look (files c))"
  shows "progress n path before (pre @ concat ds) (look (files c'))"
  using assms(2-)
proof (induction ds arbitrary: ks c pre)
  case (Cons d ds)
  obtain k ks' where ks: "ks = k # ks'" "length ks' = length ds"
    using Cons.prems(2) by (cases ks) auto
  obtain c1 where c1: "publish_chunk env k d c = (None, c1)" "publish_chunks env (zip ks' ds) c1 = Some c'"
    using Cons.prems(1) ks by (auto split: prod.splits option.splits)
  have k: "sk_path k = path" "sk_has_total k" "unat (sk_offset k) = length pre" "unat (sk_total k) = n"
    using Cons.prems(3) [of 0] ks by auto
  note step = publish_step [OF assms(1) c1(1) k Cons.prems(5)]
  have "progress n path before ((pre @ d) @ concat ds) (look (files c'))"
  proof (rule Cons.IH [OF c1(2) ks(2)])
    fix i
    assume "i < length ds"
    then show "sk_path (ks' ! i) = path \<and> sk_has_total (ks' ! i) \<and>
        unat (sk_offset (ks' ! i)) = length ((pre @ d) @ concat (take i ds)) \<and> unat (sk_total (ks' ! i)) = n"
      using Cons.prems(3) [of "Suc i"] ks by simp
  qed (use step in simp_all)
  then show ?case
    by simp
qed simp


text \<open>
  A chunk that does not complete the script, and one that is refused, except because the
  staging file could not be renamed, leaves the target and every file but the staging file as it was.
\<close>

lemma unfinished_script_keeps_the_target:
  assumes "vfs_laws (he_vfs env) look opened" "publish_chunk env k data c = (refused, c')"
    and "\<not> chunk_complete k data \<or> refused \<noteq> None \<and> refused \<noteq> Some (''RENAME_FAILED'', ''failed to publish file'')"
    and "q \<noteq> staging (sk_path k)"
  shows "look (files c') q = look (files c) q"
  using unfinished_look [OF assms(1-3)] assms(4) by (simp add: only_at_def)

section \<open>What an answer changes\<close>

text \<open>Sending a response changes the transmitter, the ticket and the completion of the response only.\<close>

definition answered :: "('f, 'h) serving \<Rightarrow> ('f, 'h) serving \<Rightarrow> bool" where
  "answered c c' \<longleftrightarrow> co_repl_rx c' = co_repl_rx c \<and> co_world c' = co_world c \<and>
     pf_launcher (co_rest c') = pf_launcher (co_rest c) \<and> pf_files (co_rest c') = pf_files (co_rest c) \<and>
     pf_msc (co_rest c') = pf_msc (co_rest c) \<and> pf_uart (co_rest c') = pf_uart (co_rest c)"

lemma answered_refl [simp]: "answered c c"
  by (simp add: answered_def)

lemma answered_trans: "answered c c1 \<Longrightarrow> answered c1 c2 \<Longrightarrow> answered c c2"
  by (simp add: answered_def)

lemma answered_drop [simp]: "answered c (drop_completion c)"
  by (simp add: answered_def drop_completion_def on_response_def)

lemma answered_submit: "answered c (snd (mux_submit env options metadata payload c))"
  by (simp add: answered_def mux_submit_def on_platform_def Let_def split_beta)

lemma answered_link: "answered c (snd (ev_control_submit_rpc_link env link domain type1 method1 payload seq who tx c))"
  by (cases link) (simp_all add: ev_control_submit_rpc_link_def Let_def answered_trans [OF answered_drop answered_submit])

lemma answered_rsp: "answered c (snd (ev_control_send_rpc_with_seq env ''rsp'' method1 payload seq c))"
  by (simp add: ev_control_send_rpc_with_seq_def ev_control_send_rpc_with_domain_def Let_def answered_link)

lemma answered_text: "answered c (snd (send_text env n method1 payload seq c))"
  by (simp add: send_text_def answered_rsp)

lemma answered_error: "answered c (snd (ev_control_send_error env method1 seq code1 message c))"
  by (simp add: ev_control_send_error_def answered_text)

section \<open>Running a script\<close>

text \<open>The input of the REPL that belongs to the generation of the request; and the trial that is armed.\<close>

definition repl_input :: "u32 \<Rightarrow> ('f, 'h) serving \<Rightarrow> u8 list" where
  "repl_input g c = view_at (repl_view (co_repl_rx c)) g"

definition armed_trial :: "('f, 'h) serving \<Rightarrow> cstring \<Rightarrow> bool" where
  "armed_trial c operation \<longleftrightarrow>
     (let l = pf_launcher (co_rest c)
      in ln_trial_valid l \<and> ln_trial_status l = EV_LAUNCHER_TRIAL_ARMED \<and> ln_operation_id l = operation)"

text \<open>\<open>quiet env\<close>: while the request is served, no other task types into the REPL or arms a trial.\<close>

definition quiet :: "('f, 'h) handler_env \<Rightarrow> bool" where
  "quiet env \<longleftrightarrow> (\<forall>c. co_repl_rx (ce_others (he_control env) c) = co_repl_rx c \<and> co_rest (ce_others (he_control env) c) = co_rest c)"

lemma push_command_input:
  assumes "quiet env" "repl_inv (co_repl_rx c)" "push_command env path c = (pushed, c')"
  shows "repl_input (rc_input_generation (co_response c)) c' = repl_input (rc_input_generation (co_response c)) c @
      (if pushed then text_bytes (run_command path) else []) \<and> co_rest c' = co_rest c"
proof -
  let ?r = "co_response c" let ?g = "rc_input_generation ?r" let ?bytes = "text_bytes (run_command path)"
  obtain ok c1 where a: "still_authorized (he_control env) (Some (rc_link ?r)) (Some (rc_session_id ?r)) (rc_vm_epoch ?r) ?g
      (rc_transition_id ?r) c = (ok, c1)"
    by (cases "still_authorized (he_control env) (Some (rc_link ?r)) (Some (rc_session_id ?r)) (rc_vm_epoch ?r) ?g (rc_transition_id ?r) c")
  have c1: "co_repl_rx c1 = co_repl_rx c" "co_rest c1 = co_rest c"
    using a by (auto simp: still_authorized_def authorize_def split: prod.splits)
  let ?c2 = "ce_others (he_control env) c1"
  have c2: "co_repl_rx ?c2 = co_repl_rx c" "co_rest ?c2 = co_rest c"
    using assms(1) c1 by (simp_all add: quiet_def)
  have len: "length ?bytes = length (run_command path)"
    by (simp add: text_bytes_def)
  obtain b q where q: "ev_repl_queue_push (Some (co_repl_rx c)) (Some ?bytes) (length (run_command path)) ?g (current_generation ?c2) = (b, q)"
    by (cases "ev_repl_queue_push (Some (co_repl_rx c)) (Some ?bytes) (length (run_command path)) ?g (current_generation ?c2)")
  from push_step [OF assms(2), of ?bytes ?g "current_generation ?c2"]
  have step: "view_at (repl_view (the q)) ?g = view_at (repl_view (co_repl_rx c)) ?g @ (if b then ?bytes else [])"
    using q len by (auto simp: view_at_def split: if_split_asm)
  show ?thesis
    using assms(3) a c1 c2 q step by (auto simp: push_command_def ev_control_repl_rx_push_def Let_def repl_input_def split: if_split_asm)
qed

lemma answered_input: "answered c c' \<Longrightarrow> repl_input g c' = repl_input g c"
  by (simp add: answered_def repl_input_def)

lemma answered_armed: "answered c c' \<Longrightarrow> armed_trial c' = armed_trial c"
  by (simp add: answered_def armed_trial_def fun_eq_iff)

lemma answered_simps [simp]:
  "repl_input g (snd (ev_control_send_error env method1 seq code1 message c)) = repl_input g c"
  "repl_input g (snd (send_text env n method1 payload seq c)) = repl_input g c"
  "armed_trial (snd (ev_control_send_error env method1 seq code1 message c)) = armed_trial c"
  "armed_trial (snd (send_text env n method1 payload seq c)) = armed_trial c"
  by (rule answered_input answered_armed, rule answered_error answered_text)+

lemma exists_input:
  "ev_control_vfs_exists env p c = (r, found, c') \<Longrightarrow>
     repl_input g c' = repl_input g c \<and> pf_launcher (co_rest c') = pf_launcher (co_rest c) \<and>
     co_response c' = co_response c \<and> co_repl_rx c' = co_repl_rx c"
  unfolding ev_control_vfs_exists_def by (auto simp: on_files_def on_platform_def repl_input_def split: prod.splits option.splits)

lemma cancelled_input [simp]: "repl_input g (cancel_arm operation c) = repl_input g c"
  by (simp add: cancel_arm_def repl_input_def on_platform_def)

lemma cancelled_armed:
  assumes "ev_launcher_operation_id operation"
  shows "armed_trial (cancel_arm operation c) op \<Longrightarrow> armed_trial c op \<and> operation \<noteq> Some op"
  using assms unfolding cancel_arm_def
  by (auto simp: armed_trial_def on_platform_def esp_vision_launcher_cancel_trial_arm_def Let_def ev_launcher_operation_id_def
      split: if_split_asm option.splits)

lemma refused_run:
  "repl_input g (snd (run_error env seq code1 message (cancel_arm operation c))) = repl_input g c"
  "armed_trial (snd (run_error env seq code1 message (cancel_arm operation c))) = armed_trial (cancel_arm operation c)"
  by (simp_all add: run_error_def)

text \<open>From the armed trial on: the command is queued, or the trial is disarmed.\<close>

lemma run_script_input:
  assumes laws: "vfs_laws (he_vfs env) look opened" and quiet: "quiet env" and inv: "repl_inv (co_repl_rx c)"
    and go: "run_script env seq path operation c = (ret, c')" and g: "g = rc_input_generation (co_response c)"
  shows "repl_input g c' = repl_input g c \<and> armed_trial c' = armed_trial (cancel_arm operation c) \<or>
    repl_input g c' = repl_input g c @ text_bytes (run_command path) \<and> armed_trial c' = armed_trial c \<and>
      look (files c) path \<noteq> None"
proof -
  obtain r found c1 where ex: "ev_control_vfs_exists env path c = (r, found, c1)"
    by (cases "ev_control_vfs_exists env path c")
  obtain pushed c2 where pu: "push_command env path c1 = (pushed, c2)"
    by (cases "push_command env path c1")
  note c1 = exists_input [OF ex] and seen = exists_look(2) [OF laws ex]
  have c2: "repl_input g c2 = repl_input g c1 @ (if pushed then text_bytes (run_command path) else [])"
      "co_rest c2 = co_rest c1"
    using push_command_input [OF quiet, of c1 path pushed c2] inv pu c1 g by auto
  have armed: "armed_trial c2 = armed_trial c1" "armed_trial (cancel_arm operation c2) = armed_trial (cancel_arm operation c1)"
      "armed_trial (cancel_arm operation c1) = armed_trial (cancel_arm operation c)"
    using c1 c2(2) by (simp_all add: armed_trial_def cancel_arm_def on_platform_def fun_eq_iff)
  have armed1: "armed_trial c1 = armed_trial c"
    using c1 by (simp add: armed_trial_def fun_eq_iff)
  have out: "c' = snd (run_script env seq path operation c)"
    using go by simp
  show ?thesis
    unfolding out run_script_def
    using ex pu c1 c2 armed armed1 seen by (simp add: Let_def refused_run split: if_split)
qed

lemma arm_trial_state:
  assumes "esp_vision_launcher_arm_trial vm_epoch (Some operation) runner source_path source_hash l = (armed, l')"
  shows "armed \<Longrightarrow> ev_launcher_operation_id (Some operation)"
    "armed \<Longrightarrow> ln_operation_id l' = operation" "\<not> armed \<Longrightarrow> l' = l"
  using assms unfolding esp_vision_launcher_arm_trial_def ev_launcher_trial_paths_def
  by (auto simp: Let_def split: if_split_asm option.splits)

lemma allowed_chars:
  "ev_control_path_allowed n (Some path) \<Longrightarrow> set path \<inter> {CHR 0x22, CHR 0x5C, CHR 0x0D, CHR 0x0A} = {}"
proof -
  assume "ev_control_path_allowed n (Some path)"
  then have ok: "\<forall>c \<in> set path. \<not> of_char c < (0x20 :: nat) \<and> c \<noteq> CHR 0x5C \<and> c \<noteq> CHR 0x22"
    by (simp add: ev_control_path_allowed_def)
  have "of_char (CHR 0x0D) < (0x20 :: nat)" "of_char (CHR 0x0A) < (0x20 :: nat)"
    by simp_all
  then show ?thesis
    using ok by blast
qed

text \<open>What is proved of \<open>script.run\<close>: nothing, or one command.\<close>

definition run_outcome :: "('f, 'h) handler_env \<Rightarrow> 'f content_view \<Rightarrow> cstring \<Rightarrow> ('f, 'h) serving \<Rightarrow> ('f, 'h) serving \<Rightarrow> bool" where
  "run_outcome env look request c c' \<longleftrightarrow>
     (let g = rc_input_generation (co_response c)
      in repl_input g c' = repl_input g c \<and> (\<forall>op. armed_trial c' op \<longrightarrow> armed_trial c op) \<or>
         (\<exists>path. member_string request ''path'' EV_CONTROL_PATH_PARSE_CAP = Some path \<and>
            ev_control_path_allowed (path_max env) (Some path) \<and> look (files c) path \<noteq> None \<and>
            set path \<inter> {CHR 0x22, CHR 0x5C, CHR 0x0D, CHR 0x0A} = {} \<and>
            repl_input g c' = repl_input g c @ text_bytes (''execfile('' @ quoted path @ '')'' @ [CHR 0x0D, CHR 0x0A]) \<and>
            (\<forall>op. armed_trial c' op \<longrightarrow> armed_trial c op \<or> fst (trial_identity request) = Some op)))"

lemma run_outcome_none:
  "repl_input (rc_input_generation (co_response c)) c' = repl_input (rc_input_generation (co_response c)) c \<Longrightarrow>
   armed_trial c' = armed_trial c \<Longrightarrow> run_outcome env look request c c'"
  by (simp add: run_outcome_def)

lemma run_error_outcome: "run_outcome env look request c (snd (run_error env seq code1 message c))"
  by (rule run_outcome_none) (simp_all add: run_error_def)

lemma script_run_outcome:
  assumes laws: "vfs_laws (he_vfs env) look opened" and quiet: "quiet env" and inv: "repl_inv (co_repl_rx c)"
    and path: "member_string request ''path'' EV_CONTROL_PATH_PARSE_CAP = Some path"
      "ev_control_path_allowed (path_max env) (Some path)"
    and c1: "c1 = on_platform (\<lambda>p. p\<lparr>pf_launcher := l\<rparr>) c"
    and trial: "operation = None \<and> l = pf_launcher (co_rest c) \<or>
      ev_launcher_operation_id operation \<and> operation = Some (ln_operation_id l) \<and> fst (trial_identity request) = operation"
    and go: "run_script env seq path operation c1 = (ret, c')"
  shows "run_outcome env look request c c'"
proof -
  let ?g = "rc_input_generation (co_response c)"
  have same: "repl_input ?g c1 = repl_input ?g c" "repl_inv (co_repl_rx c1)" "co_response c1 = co_response c"
      "files c1 = files c" "pf_launcher (co_rest c1) = l"
    using inv by (simp_all add: c1 repl_input_def on_platform_def)
  have arms: "armed_trial c1 op \<Longrightarrow> armed_trial c op \<or> fst (trial_identity request) = Some op" for op
    using trial same(5) by (auto simp: armed_trial_def Let_def)
  have disarms: "armed_trial (cancel_arm operation c1) op \<Longrightarrow> armed_trial c op" for op
    using trial same(5) cancelled_armed [of operation c1 op] by (auto simp: armed_trial_def cancel_arm_def Let_def)
  from run_script_input [OF laws quiet same(2) go, of ?g] same
  consider (none) "repl_input ?g c' = repl_input ?g c" "armed_trial c' = armed_trial (cancel_arm operation c1)"
    | (one) "repl_input ?g c' = repl_input ?g c @ text_bytes (run_command path)" "armed_trial c' = armed_trial c1"
        "look (files c) path \<noteq> None"
    by auto
  then show ?thesis
  proof cases
    case none
    then have "\<forall>op. armed_trial c' op \<longrightarrow> armed_trial c op"
      using disarms by metis
    then show ?thesis
      unfolding run_outcome_def Let_def using none(1) by blast
  next
    case one
    then have "\<forall>op. armed_trial c' op \<longrightarrow> armed_trial c op \<or> fst (trial_identity request) = Some op"
      using arms by metis
    then show ?thesis
      unfolding run_outcome_def Let_def
      using one(1,3) path allowed_chars [OF path(2)] by (simp only: run_command_def) blast
  qed
qed

text \<open>
  Property C36: \<open>script.run\<close> types at most one command into the REPL, the call of \<open>execfile\<close> with a path that the
  request names, that is allowed and exists, and that contains no quotation mark, backslash or end of line; and
  where it types nothing, no trial remains armed for it.
\<close>

theorem script_run_queues_one_command:
  assumes "vfs_laws (he_vfs env) look opened" "quiet env" "repl_inv (co_repl_rx c)"
    and "ev_control_send_script_run env seq request c = (ret, c')"
  shows "run_outcome env look request c c'"
proof (cases "member_string request ''path'' EV_CONTROL_PATH_PARSE_CAP")
  case None
  then have "c' = snd (run_error env seq ''INVALID_ARGUMENT'' ''missing path'' c)"
    using assms(4) by (simp add: ev_control_send_script_run_def)
  then show ?thesis
    using run_error_outcome by simp
next
  case (Some path)
  note go = assms(4) [unfolded ev_control_send_script_run_def Some option.case]
  show ?thesis
  proof (cases "ev_control_path_too_long (path_max env) (Some path) \<or> \<not> ev_control_path_allowed (path_max env) (Some path)")
    case True
    then have "c' = snd (run_error env seq ''PATH_TOO_LONG'' ''script path too long'' c) \<or>
        c' = snd (run_error env seq ''INVALID_PATH'' ''path is not allowed'' c)"
      using go by (cases "ev_control_path_too_long (path_max env) (Some path)") simp_all
    then show ?thesis
      using run_error_outcome [of env look request c seq] by metis
  next
    case False
    then have ok: "\<not> ev_control_path_too_long (path_max env) (Some path)" "ev_control_path_allowed (path_max env) (Some path)"
      by auto
    obtain a b d where id: "trial_identity request = (a, b, d)"
      by (cases "trial_identity request")
    note outcome = script_run_outcome [OF assms(1-3) Some ok(2)]
    consider "a = None" "b = None" "d = None" | op sp sh where "a = Some op" "b = Some sp" "d = Some sh" |
        "\<not> (a = None \<and> b = None \<and> d = None)" "a = None \<or> b = None \<or> d = None"
      by (cases a; cases b; cases d) auto
    then show ?thesis
    proof cases
      case 1
      have "run_script env seq path None c = (ret, c')"
        using go id 1 ok by simp
      then show ?thesis
        by (intro outcome [of c "pf_launcher (co_rest c)" None seq ret]) (simp_all add: on_platform_def)
    next
      case 2
      obtain armed l where arm: "esp_vision_launcher_arm_trial (ev_session_vm_epoch (w_session (co_world c))) (Some op)
          (Some path) (Some sp) (Some sh) (pf_launcher (co_rest c)) = (armed, l)"
        by (cases "esp_vision_launcher_arm_trial (ev_session_vm_epoch (w_session (co_world c))) (Some op)
          (Some path) (Some sp) (Some sh) (pf_launcher (co_rest c))")
      note state = arm_trial_state [OF arm]
      show ?thesis
      proof (cases armed)
        case True
        have "run_script env seq path (Some op) (on_platform (\<lambda>p. p\<lparr>pf_launcher := l\<rparr>) c) = (ret, c')"
          using go id 2 ok arm True by simp
        then show ?thesis
          using state(1,2) [OF True] id 2 by (intro outcome [OF refl, where l = l and operation = "Some op" and seq = seq and ret = ret]) simp_all
      next
        case False
        have "on_platform (\<lambda>p. p\<lparr>pf_launcher := l\<rparr>) c = c"
          using state(3) [OF False] by (simp add: on_platform_def)
        then have "c' = snd (run_error env seq ''TRIAL_NOT_AUTHORIZED'' ''trial runner identity is invalid or already active'' c)"
          using go id 2 ok arm False by simp
        then show ?thesis
          using run_error_outcome by simp
      qed
    next
      case 3
      then have "c' = snd (run_error env seq ''INVALID_ARGUMENT'' ''incomplete trial identity'' c)"
        using go id ok by (cases a; cases b; cases d) simp_all
      then show ?thesis
        using run_error_outcome by simp
    qed
  qed
qed

end
