(* ===== verification/ControlHeader.thy ===== *)
theory ControlHeader
  imports ControlFrame
begin

text \<open>
  The header that the transmitter prints is read back by the receiver: the decimal lengths and the
  hexadecimal checksum, for all values, and the number of characters that are consumed.
\<close>

section \<open>The header is read back\<close>

lemma decimal_char:
  assumes "n < 10"
  shows "digit (''0123456789'' ! n)" "of_char (''0123456789'' ! n) = 48 + n" "\<not> isspace (''0123456789'' ! n)"
    "''0123456789'' ! n \<noteq> CHR ''-''" "''0123456789'' ! n \<noteq> CHR ''+''"
proof -
  have "n \<in> set [0..<10]" using assms by simp
  moreover have "\<forall>n \<in> set [0..<10]. digit (''0123456789'' ! n) \<and> of_char (''0123456789'' ! n) = 48 + n \<and>
      \<not> isspace (''0123456789'' ! n) \<and> ''0123456789'' ! n \<noteq> CHR ''-'' \<and> ''0123456789'' ! n \<noteq> CHR ''+''"
    by (simp add: upt_rec digit_def isspace_def less_eq_char_def)
  ultimately show "digit (''0123456789'' ! n)" "of_char (''0123456789'' ! n) = 48 + n" "\<not> isspace (''0123456789'' ! n)"
    "''0123456789'' ! n \<noteq> CHR ''-''" "''0123456789'' ! n \<noteq> CHR ''+''" by blast+
qed

lemma decimal_digits_append: "\<forall>c \<in> set xs. digit c \<Longrightarrow> decimal_digits (xs @ ys) v = decimal_digits ys (decimal_digits xs v)"
  by (induction xs arbitrary: v) auto

lemma decimal_read: "(\<forall>c \<in> set (decimal n). digit c) \<and> decimal_digits (decimal n) 0 = n"
proof (induction n rule: decimal.induct)
  case (1 n)
  show ?case
  proof (cases "n < 10")
    case True
    then show ?thesis using decimal_char [OF True] by (simp add: decimal.simps [of n])
  next
    case False
    note d = decimal_char [of "n mod 10"]
    show ?thesis using 1 [OF False] d False
      by (subst (1 2) decimal.simps) (simp add: decimal_digits_append)
  qed
qed

lemma decimal_first: "\<exists>c cs. decimal n = c # cs \<and> digit c"
proof -
  have "decimal n \<noteq> []" by (subst decimal.simps) simp
  then show ?thesis using decimal_read [of n] by (cases "decimal n") auto
qed

lemma digit_plain: "digit c \<Longrightarrow> \<not> isspace c \<and> c \<noteq> CHR ''-'' \<and> c \<noteq> CHR ''+''"
  by (auto simp: digit_def isspace_def less_eq_char_def)

lemma scan_decimal:
  assumes "n < 4294967296" and "\<not> digit x"
  shows "scan_u (decimal n @ x # rest) = Some (of_nat n, x # rest)"
proof -
  obtain c cs where c: "decimal n = c # cs" "digit c" using decimal_first by blast
  have "scan_space (decimal n @ x # rest) = decimal n @ x # rest" "scan_sign (decimal n @ x # rest) = (False, decimal n @ x # rest)"
    using digit_plain [OF c(2)] by (simp_all add: scan_space_def scan_sign_def c(1))
  moreover have "takeWhile digit (decimal n @ x # rest) = decimal n"
    using decimal_read [of n] assms(2) by (simp add: takeWhile_tail)
  moreover have "decimal n \<noteq> []" by (simp add: c(1))
  moreover have "decimal_digits (decimal n) 0 = n" using decimal_read [of n] by blast
  ultimately show ?thesis using assms(1) by (simp add: scan_u_def saturate_def)
qed

lemma hex_char:
  assumes "n < 16"
  shows "hex_value (''0123456789ABCDEF'' ! n) = Some (of_nat n)" "\<not> isspace (''0123456789ABCDEF'' ! n)"
    "''0123456789ABCDEF'' ! n \<noteq> CHR ''-''" "''0123456789ABCDEF'' ! n \<noteq> CHR ''+''" "''0123456789ABCDEF'' ! n \<noteq> CHR ''x''"
    "''0123456789ABCDEF'' ! n \<noteq> CHR ''X''" "''0123456789ABCDEF'' ! n \<noteq> CHR 0x0A" "''0123456789ABCDEF'' ! n \<noteq> CHR 0x00"
proof -
  have "n \<in> set [0..<16]" using assms by simp
  moreover have "\<forall>n \<in> set [0..<16]. hex_value (''0123456789ABCDEF'' ! n) = Some (of_nat n) \<and> \<not> isspace (''0123456789ABCDEF'' ! n) \<and>
    ''0123456789ABCDEF'' ! n \<noteq> CHR ''-'' \<and> ''0123456789ABCDEF'' ! n \<noteq> CHR ''+'' \<and> ''0123456789ABCDEF'' ! n \<noteq> CHR ''x'' \<and>
    ''0123456789ABCDEF'' ! n \<noteq> CHR ''X'' \<and> ''0123456789ABCDEF'' ! n \<noteq> CHR 0x0A \<and> ''0123456789ABCDEF'' ! n \<noteq> CHR 0x00"
    by (simp add: upt_rec hex_value_def isspace_def less_eq_char_def)
  ultimately show "hex_value (''0123456789ABCDEF'' ! n) = Some (of_nat n)" "\<not> isspace (''0123456789ABCDEF'' ! n)"
    "''0123456789ABCDEF'' ! n \<noteq> CHR ''-''" "''0123456789ABCDEF'' ! n \<noteq> CHR ''+''" "''0123456789ABCDEF'' ! n \<noteq> CHR ''x''"
    "''0123456789ABCDEF'' ! n \<noteq> CHR ''X''" "''0123456789ABCDEF'' ! n \<noteq> CHR 0x0A" "''0123456789ABCDEF'' ! n \<noteq> CHR 0x00" by blast+
qed

definition hex_chars :: "nat list \<Rightarrow> string" where
  "hex_chars ds = map (\<lambda>d. ''0123456789ABCDEF'' ! d) ds"

definition digits8 :: "nat \<Rightarrow> nat list" where
  "digits8 n = map (\<lambda>i. n div 16 ^ (7 - i) mod 16) [0, 1, 2, 3, 4, 5, 6, 7]"

lemma low_nibble_nat: "unat (drop_bit k w AND 15 :: u32) = unat w div 2 ^ k mod 16"
proof -
  have "(15 :: u32) = mask 4" by (simp add: mask_eq_exp_minus_1)
  then have "unat (drop_bit k w AND 15) = unat (take_bit 4 (drop_bit k w))" by (simp only: take_bit_eq_mask)
  also have "\<dots> = take_bit 4 (unat (drop_bit k w))" by (rule unsigned_take_bit_eq)
  finally show ?thesis by (simp add: take_bit_eq_mod unat_drop)
qed

lemma HEX8_digits: "HEX8 w = hex_chars (digits8 (unat w))"
  by (simp add: HEX8_def hex_chars_def digits8_def low_nibble_nat)

lemma hex_number_chars: "\<forall>d \<in> set ds. d < 16 \<Longrightarrow> hex_number (hex_chars ds) v = foldl (\<lambda>v d. v * 16 + d) v ds"
  by (induction ds arbitrary: v) (auto simp: hex_chars_def hex_char unat_of_nat take_bit_nat_eq_self)

lemma digits8_value: "n < 4294967296 \<Longrightarrow> foldl (\<lambda>v d. v * 16 + d) 0 (digits8 n) = n"
proof -
  assume n: "n < 4294967296"
  have s: "n div 16 ^ Suc k * 16 + n div 16 ^ k mod 16 = n div 16 ^ k" for k
    by (metis div_mult2_eq div_mult_mod_eq power_Suc2)
  have top: "n div 16 ^ 7 mod 16 = n div 16 ^ 7"
  proof (rule mod_less)
    show "n div 16 ^ 7 < 16" using n by (intro less_mult_imp_div_less) simp
  qed
  show ?thesis
    using s [of 6] s [of 5] s [of 4] s [of 3] s [of 2] s [of 1] s [of 0] top by (simp add: digits8_def)
qed

lemma digits8_bound: "\<forall>d \<in> set (digits8 n). d < 16"
  by (simp add: digits8_def)

lemma scan_HEX8: "scan_x 8 (HEX8 w @ CHR 0x0D # rest) = Some (w, CHR 0x0D # rest)"
proof -
  obtain a b ds where d: "digits8 (unat w) = a # b # ds" "length ds = 6" by (simp add: digits8_def)
  let ?h = "HEX8 w"
  have h: "?h = ''0123456789ABCDEF'' ! a # ''0123456789ABCDEF'' ! b # hex_chars ds" by (simp add: HEX8_digits d hex_chars_def)
  have len: "length ?h = 8" by (simp add: h d hex_chars_def)
  have ab: "a < 16" "b < 16" using digits8_bound [of "unat w"] by (simp_all add: d)
  have sp: "scan_space (?h @ CHR 0x0D # rest) = ?h @ CHR 0x0D # rest" using hex_char(2) [OF ab(1)] by (simp add: scan_space_def h)
  have tk: "take 8 (?h @ CHR 0x0D # rest) = ?h" using len by simp
  have sg: "scan_sign ?h = (False, ?h)" using hex_char(3,4) [OF ab(1)] by (simp add: scan_sign_def h)
  have px: "take 2 ?h \<noteq> ''0x''" "take 2 ?h \<noteq> ''0X''" using hex_char(5,6) [OF ab(2)] by (simp_all add: h numeral_2_eq_2)
  have tw: "takeWhile (\<lambda>c. hex_value c \<noteq> None) ?h = ?h"
    using digits8_bound [of "unat w"] by (auto simp: takeWhile_eq_all_conv HEX8_digits hex_chars_def hex_char)
  have "hex_number ?h 0 = unat w"
    using hex_number_chars [OF digits8_bound] digits8_value [OF unat_less_u32] by (simp add: HEX8_digits)
  moreover have "?h \<noteq> []" by (simp add: h)
  ultimately show ?thesis using len
    by (simp only: scan_x_def Let_def sp tk sg prod.case px tw if_False simp_thms) simp
qed

lemma scan_header_text:
  assumes "m < 4294967296" and "n < 4294967296"
  shows "scan_header (drop 1 (header_text m n crc)) = Some (of_nat m, of_nat n, crc, length (drop 1 (header_text m n crc)))"
proof -
  let ?s = "drop 1 (header_text m n crc)"
  have "digit (CHR '' '') = False" by (simp add: digit_def less_eq_char_def)
  moreover have "hex_value (CHR 0x0D) = None" by (simp add: hex_value_def less_eq_char_def)
  ultimately show ?thesis
    using scan_decimal [OF assms(1), of "CHR '' ''"] scan_decimal [OF assms(2), of "CHR '' ''"] scan_HEX8 [of crc "[CHR 0x0A]"]
    by (simp add: header_text_def scan_header_def scan_literal_def scan_space_def isspace_def less_eq_char_def)
qed

end
