(* ===== verification/ControlQueueProps.thy ===== *)
theory ControlQueueProps
  imports ControlQueue VmOutputProps
begin

text \<open>
  The queue of the requests for the virtual machine and the REPL input: every operation keeps the
  rings well formed and makes no access outside a buffer, the queue holds at most one request, and a
  request or input of an older owner or epoch is not delivered.
\<close>

section \<open>Computations that return\<close>

definition returns :: "'a checked \<Rightarrow> ('a \<Rightarrow> bool) \<Rightarrow> bool" where
  "returns m P \<longleftrightarrow> (\<exists>a. m = Inr a \<and> P a)"

lemma returns_Inr [simp]: "returns (Inr a) P = P a"
  by (simp add: returns_def)

lemma returns_Inl [simp]: "\<not> returns (Inl e) P"
  by (simp add: returns_def)

lemma returns_bind: "returns m P \<Longrightarrow> (\<And>a. P a \<Longrightarrow> returns (f a) Q) \<Longrightarrow> returns (sbind m f) Q"
  by (auto simp: returns_def)

lemma returns_weaken: "returns m P \<Longrightarrow> (\<And>a. P a \<Longrightarrow> Q a) \<Longrightarrow> returns m Q"
  by (auto simp: returns_def)

lemma returns_if: "(b \<Longrightarrow> returns m P) \<Longrightarrow> (\<not> b \<Longrightarrow> returns n P) \<Longrightarrow> returns (if b then m else n) P"
  by simp

section \<open>The invariant of the rings\<close>

definition vm_frame_ok :: "ev_control_vm_frame \<Rightarrow> bool" where
  "vm_frame_ok f \<longleftrightarrow> length (vf_payload f) = EV_CONTROL_PAYLOAD_MAX + 1"

definition control_ok :: "'r control \<Rightarrow> bool" where
  "control_ok c \<longleftrightarrow> length (co_vm_queue c) = 2 \<and> unat (co_head c) < 2 \<and> unat (co_tail c) < 2 \<and>
     (\<forall>f \<in> set (co_vm_queue c). vm_frame_ok f) \<and> repl_inv (co_repl_rx c)"

definition queue_empty :: "'r control \<Rightarrow> bool" where
  "queue_empty c \<longleftrightarrow> co_head c = co_tail c"

text \<open>\<open>c'\<close> is as well formed as \<open>c\<close>, and empty if \<open>c\<close> is.\<close>

definition kept :: "'r control \<Rightarrow> 'r control \<Rightarrow> bool" where
  "kept c c' \<longleftrightarrow> (control_ok c \<longrightarrow> control_ok c' \<and> (queue_empty c \<longrightarrow> queue_empty c'))"

text \<open>
  What is assumed of the code that is not modelled: it leaves the rings well formed and puts no
  request into the queue; only the receiver of frames does.
\<close>

definition env_ok :: "'r control_env \<Rightarrow> bool" where
  "env_ok env \<longleftrightarrow> (\<forall>r k c. kept c (snd (ce_run env r k c))) \<and> (\<forall>c. kept c (ce_others env c)) \<and>
     (\<forall>l e c. kept c (snd (ce_preview_subscribe env l e c)))"

lemma kept_refl [simp]: "kept c c"
  by (simp add: kept_def)

lemma kept_trans: "kept c c1 \<Longrightarrow> kept c1 c2 \<Longrightarrow> kept c c2"
  by (auto simp: kept_def)

lemma kept_ok: "kept c c' \<Longrightarrow> control_ok c \<Longrightarrow> control_ok c'"
  by (simp add: kept_def)

lemma kept_same:
  "co_vm_queue c' = co_vm_queue c \<Longrightarrow> co_head c' = co_head c \<Longrightarrow> co_tail c' = co_tail c \<Longrightarrow>
   co_repl_rx c' = co_repl_rx c \<Longrightarrow> kept c c'"
  by (simp add: kept_def control_ok_def queue_empty_def)

lemma kept_repl: "(repl_inv (co_repl_rx c) \<Longrightarrow> repl_inv q) \<Longrightarrow> kept c (c\<lparr>co_repl_rx := q\<rparr>)"
  by (auto simp: kept_def control_ok_def queue_empty_def)

lemma kept_fields [simp]:
  "kept c (c\<lparr>co_response := r\<rparr>)" "kept c (c\<lparr>co_vm_response := r\<rparr>)" "kept c (c\<lparr>co_world := w\<rparr>)"
  "kept c (c\<lparr>co_vm_task := v\<rparr>)" "kept c (c\<lparr>co_vm_poll_active := b\<rparr>)" "kept c (count_stat f c)"
  "kept c (c\<lparr>co_pending := b\<rparr>)" "kept c (on_session h c)"
  by (auto intro!: kept_same simp: count_stat_def on_session_def)

lemma kept_run: "env_ok env \<Longrightarrow> kept c (snd (ce_run env r k c))"
  by (simp add: env_ok_def)

lemma kept_others: "env_ok env \<Longrightarrow> kept c (ce_others env c)"
  by (simp add: env_ok_def)

lemma kept_call: "env_ok env \<Longrightarrow> kept c (control_call env k c)"
  by (simp add: control_call_def kept_run)

lemma kept_vm_call: "env_ok env \<Longrightarrow> kept c (snd (vm_call env k c))"
  by (simp add: vm_call_def kept_run)

lemma kept_authorize: "authorize env link sid vr he ve c = (r, snap, c1) \<Longrightarrow> kept c c1"
  by (auto simp: authorize_def Let_def split: prod.split_asm)

lemma kept_still_authorized: "still_authorized env link sid ve ig tid c = (ok, c1) \<Longrightarrow> kept c c1"
  by (auto simp: still_authorized_def dest: kept_authorize split: prod.split_asm)

section \<open>REPL input\<close>

lemma push_keeps:
  assumes "repl_inv q"
  shows "\<exists>ok q'. ev_repl_queue_push (Some q) (Some bytes) n g cur = (ok, Some q') \<and> repl_inv q'"
proof (cases "g = 0 \<or> g \<noteq> cur")
  case False
  let ?s = "repl_sync q g"
  note inv = sync_inv [OF assms, of g]
  have guard: "rq_guard_valid ?s" "rq_guard_generation ?s = g" using sync_guard [of g q] False by auto
  have count: "length (repl_contents ?s) \<le> 511"
    using ring_count_less [of 512 "rq_head ?s" "rq_tail ?s"] inv by (simp add: repl_contents_def repl_inv_def)
  show ?thesis
  proof (cases "(rq_head ?s + 512 - rq_tail ?s - 1) mod 512 < n")
    case True
    then show ?thesis using False inv clear_generation_eq [of g q] by (auto simp: ev_repl_queue_push_def)
  next
    case room: False
    then have "length (repl_contents ?s) + length (take n bytes) \<le> 511"
      using free_bytes [OF inv] count by simp
    from put_all [OF inv guard this] room False clear_generation_eq [of g q] show ?thesis
      by (auto simp: ev_repl_queue_push_def)
  qed
qed (auto simp: ev_repl_queue_push_def assms)

lemma pop_keeps:
  assumes "repl_inv q"
  shows "\<exists>ok v q'. ev_repl_queue_pop (Some q) g cur ready (Some 0) = Some (ok, v, Some q') \<and> repl_inv q'"
proof -
  obtain q1 a where p: "repl_step q (Pop g cur ready) = Some (a, q1)" "repl_inv q1"
    using pop_step [OF assms, of g cur ready] by blast
  have some: "q' \<noteq> None" if "ev_repl_queue_pop (Some q) g cur ready (Some 0) = Some (ok, v, q')" for ok v q'
    using that by (auto simp: ev_repl_queue_pop_def ev_repl_queue_force_clear_def Let_def split: if_splits option.splits)
  show ?thesis using p some by (auto split: option.split_asm prod.split_asm)
qed

lemma pending_keeps:
  assumes "repl_inv q"
  shows "\<exists>ok q'. ev_repl_queue_pending (Some q) g cur ready = Some (ok, Some q') \<and> repl_inv q'"
proof -
  obtain q1 a where p: "repl_step q (Pending g cur ready) = Some (a, q1)" "repl_inv q1"
    using pending_step [OF assms, of g cur ready] by blast
  have some: "q' \<noteq> None" if "ev_repl_queue_pending (Some q) g cur ready = Some (ok, q')" for ok q'
    using that by (auto simp: ev_repl_queue_pending_def ev_repl_queue_force_clear_def Let_def split: if_splits)
  show ?thesis using p some by (auto split: option.split_asm prod.split_asm)
qed

lemma kept_repl_push:
  assumes "env_ok env"
  shows "kept c (snd (ev_control_repl_rx_push env bytes n link sid ve ig tid c))"
proof -
  obtain ok c1 where a: "still_authorized env link sid ve ig tid c = (ok, c1)" by (cases "still_authorized env link sid ve ig tid c")
  let ?c2 = "ce_others env c1"
  have k: "kept c c1" "kept c ?c2"
    using kept_still_authorized [OF a] kept_others [OF assms] kept_trans by blast+
  have "kept ?c2 (?c2\<lparr>co_repl_rx := the (snd (ev_repl_queue_push (Some (co_repl_rx ?c2)) (Some bytes) n ig (current_generation ?c2)))\<rparr>)"
    using push_keeps [of "co_repl_rx ?c2" bytes n ig "current_generation ?c2"] by (intro kept_repl) auto
  with k show ?thesis
    by (auto simp: ev_control_repl_rx_push_def a Let_def split: prod.split intro: kept_trans)
qed

lemma kept_repl_clear: "kept c (ev_control_repl_rx_clear c)"
  unfolding ev_control_repl_rx_clear_def
  by (rule kept_repl) (simp add: ev_repl_queue_force_clear_def force_inv)

lemma kept_repl_clear_generation: "kept c (snd (ev_control_repl_rx_clear_generation g c))"
  by (auto simp: ev_control_repl_rx_clear_generation_def ev_repl_queue_clear_generation_def sync_inv
      intro!: kept_repl split: prod.split)

lemma repl_pop_returns:
  assumes "env_ok env" and "control_ok c"
  shows "returns (ev_control_repl_rx_pop env out c) (\<lambda>(_, _, c'). control_ok c')"
proof -
  obtain found snap where s: "ev_session_snapshot (w_session (co_world c)) (ce_now env c) (Some (ce_stack env)) = (found, snap)"
    by (cases "ev_session_snapshot (w_session (co_world c)) (ce_now env c) (Some (ce_stack env))")
  obtain acc c1 where a: "(if repl_ready (the snap) then repl_accepts (the snap) c else (True, c)) = (acc, c1)"
    by (cases "if repl_ready (the snap) then repl_accepts (the snap) c else (True, c)")
  have k1: "kept c c1" using a by (auto simp: repl_accepts_def Let_def split: if_splits prod.split_asm)
  then have k2: "control_ok (ce_others env c1)" using kept_others [OF assms(1)] kept_ok assms(2) by blast
  then obtain ok v q' where p: "ev_repl_queue_pop (Some (co_repl_rx (ce_others env c1))) (sn_input_generation (the snap))
      (current_generation (ce_others env c1)) (repl_ready (the snap)) (Some 0) = Some (ok, v, Some q')" "repl_inv q'"
    using pop_keeps unfolding control_ok_def by blast
  have "control_ok ((ce_others env c1)\<lparr>co_repl_rx := q'\<rparr>)" using k2 p(2) by (simp add: control_ok_def)
  then show ?thesis
    using assms(2) kept_ok [OF k1] by (simp add: ev_control_repl_rx_pop_def s a p(1) Let_def)
qed

section \<open>The queue of the virtual machine\<close>

lemma next_index: "unat (vm_queue_next i) < 2"
proof -
  have "vm_queue_next i < 2" unfolding vm_queue_next_def EV_CONTROL_VM_QUEUE_LEN_def by (rule word_mod_less_divisor) simp
  then show ?thesis by (simp add: word_less_nat_alt)
qed

lemma two_slots: "unat (i :: u8) < 2 \<Longrightarrow> i = 0 \<or> i = 1"
  by (metis One_nat_def less_2_cases unat_0 unat_1 word_unat_eq_iff)

lemma next_other: "unat h < 2 \<Longrightarrow> unat t < 2 \<Longrightarrow> h \<noteq> t \<Longrightarrow> vm_queue_next h = t"
  using two_slots [of h] two_slots [of t] by (auto simp: vm_queue_next_def EV_CONTROL_VM_QUEUE_LEN_def)

lemma take_ok: "control_ok c \<Longrightarrow> control_ok (vm_queue_take c)"
  by (simp add: control_ok_def vm_queue_take_def Let_def next_index)

lemma take_empties: "control_ok c \<Longrightarrow> \<not> queue_empty c \<Longrightarrow> queue_empty (vm_queue_take c)"
  by (simp add: control_ok_def queue_empty_def vm_queue_take_def Let_def next_other)

lemma kept_timeout: "env_ok env \<Longrightarrow> kept c (vm_timeout env f c)"
  unfolding vm_timeout_def Let_def
  by (rule kept_trans [OF kept_trans [OF kept_fields(1) kept_call] kept_fields(1)])

lemma head_read: "control_ok c \<Longrightarrow> rd (co_vm_queue c) (unat (co_head c)) = Inr (co_vm_queue c ! unat (co_head c))"
  "control_ok c \<Longrightarrow> rd (co_vm_queue c) (unat (co_tail c)) = Inr (co_vm_queue c ! unat (co_tail c))"
  by (simp_all add: control_ok_def)

text \<open>Two rounds are enough: the queue has two slots, so it is empty after one request has left.\<close>

lemma expire_returns:
  assumes env: "env_ok env" and c: "control_ok c"
  shows "returns (ev_control_vm_queue_expire env c) control_ok"
proof -
  have empty: "vm_expire_rounds (Suc fuel) env c = Inr c" if "queue_empty c" for fuel c
    using that by (simp add: queue_empty_def)
  show ?thesis
  proof (cases "queue_empty c")
    case True
    then show ?thesis using c by (simp add: ev_control_vm_queue_expire_def empty del: vm_expire_rounds.simps)
  next
    case False
    let ?f = "co_vm_queue c ! unat (co_head c)"
    obtain ok c1 where a: "still_authorized env (Some (vf_link ?f)) (Some (vf_session_id ?f)) (vf_vm_epoch ?f)
        (vf_input_generation ?f) (vf_transition_id ?f) (ce_others env (vm_queue_take c)) = (ok, c1)"
      by (cases "still_authorized env (Some (vf_link ?f)) (Some (vf_session_id ?f)) (vf_vm_epoch ?f)
        (vf_input_generation ?f) (vf_transition_id ?f) (ce_others env (vm_queue_take c))")
    let ?c2 = "if ok then vm_timeout env ?f c1 else c1"
    have "kept (vm_queue_take c) ?c2"
      using kept_others [OF env] kept_still_authorized [OF a] kept_timeout [OF env] kept_trans by (metis (full_types))
    then have c2: "control_ok ?c2" "queue_empty ?c2"
      using take_ok [OF c] take_empties [OF c False] by (simp_all add: kept_def)
    have round: "vm_expire_rounds (Suc (Suc fuel)) env c =
        (if ce_now env c - vf_queued_ms ?f \<le> EV_CONTROL_VM_EXPIRE_MS then Inr c else Inr ?c2)" for fuel
      using False a
      by (subst vm_expire_rounds.simps)
        (simp only: head_read [OF c] sbind_simps Let_def prod.case empty [OF c2(2)] queue_empty_def if_False)
    have fuel: "unat EV_CONTROL_VM_QUEUE_LEN + 1 = Suc (Suc 1)" by (simp add: EV_CONTROL_VM_QUEUE_LEN_def)
    show ?thesis using c c2(1) unfolding ev_control_vm_queue_expire_def fuel round by simp
  qed
qed

lemma memcpy_returns:
  "n \<le> length dst \<Longrightarrow> n \<le> length src \<Longrightarrow> returns (memcpy_front dst src n) (\<lambda>b. length b = length dst)"
  by (simp add: memcpy_front_def)

lemma vm_push_returns:
  assumes env: "env_ok env" and c: "control_ok c" and n: "n \<le> EV_CONTROL_PAYLOAD_MAX" "n \<le> length payload"
  shows "returns (ev_control_vm_queue_push env domain link sid mo seq ve ig tid payload n c) (\<lambda>(_, c'). control_ok c')"
proof (cases mo)
  case None
  then show ?thesis using c by (simp add: ev_control_vm_queue_push_def)
next
  case (Some m)
  obtain ok c1 where a: "still_authorized env (Some link) (Some sid) ve ig tid c = (ok, c1)"
    by (cases "still_authorized env (Some link) (Some sid) ve ig tid c")
  have c1: "control_ok c1" "control_ok (ce_others env c1)"
    using kept_still_authorized [OF a] kept_others [OF env] kept_ok c by blast+
  obtain c2 where c2: "ev_control_vm_queue_expire env (ce_others env c1) = Inr c2" "control_ok c2"
    using expire_returns [OF env c1(2)] by (auto simp: returns_def)
  let ?t = "unat (co_tail c2)"
  have slot: "?t < length (co_vm_queue c2)" "length (vf_payload (co_vm_queue c2 ! ?t)) = EV_CONTROL_PAYLOAD_MAX + 1"
    using c2(2) nth_mem [of ?t "co_vm_queue c2"] by (auto simp: control_ok_def vm_frame_ok_def)
  have "control_ok (c2\<lparr>co_vm_queue := (co_vm_queue c2)[?t := f], co_tail := vm_queue_next (co_tail c2), co_pending := True\<rparr>)"
    if "vm_frame_ok f" for f
    using c2(2) that by (auto simp: control_ok_def next_index dest!: set_update_subset_insert [THEN subsetD])
  then show ?thesis
    using c c1(1) c2 slot n Some
    by (auto simp: ev_control_vm_queue_push_def a Let_def memcpy_front_def vm_frame_ok_def)
qed

lemma c_string_prefix: "c_string (xs @ CHR 0x00 # ys) = c_string xs"
  unfolding c_string_def by (induction xs) simp_all

lemma queued_text:
  assumes "n \<le> length src" and "n < length dst"
  shows "c_string (chars ((take n src @ drop n dst)[n := 0])) = c_string (chars (take n src))"
proof -
  have n: "length (take n src) = n" using assms(1) by simp
  have "(take n src @ drop n dst)[n := 0] = take n src @ (drop n dst)[0 := 0]"
    using list_update_append [of "take n src" "drop n dst" n 0] n by simp
  also have "(drop n dst)[0 := 0] = 0 # drop (Suc n) dst"
    using assms(2) by (simp add: Cons_nth_drop_Suc [symmetric])
  finally have "chars ((take n src @ drop n dst)[n := 0]) = chars (take n src) @ CHR 0x00 # chars (drop (Suc n) dst)"
    by (simp add: chars_def char_of_def)
  then show ?thesis by (simp only: c_string_prefix)
qed

section \<open>An accepted request\<close>

text \<open>
  Property C25: a request that is accepted for the virtual machine is the only one in the queue, tagged with
  the link, the session and the generation it was authorised for, and the handler will get its method
  and exactly the text of its payload.
\<close>

theorem accepted_request_is_queued:
  assumes "env_ok env" and "control_ok c" and "n \<le> EV_CONTROL_PAYLOAD_MAX" and "n \<le> length payload"
    and "ev_control_vm_queue_push env domain link sid (Some m) seq ve ig tid payload n c = Inr (True, c')"
  shows "control_ok c' \<and> co_pending c' \<and> vm_queue_next (co_head c') = co_tail c' \<and>
    (\<exists>f. rd (co_vm_queue c') (unat (co_head c')) = Inr f \<and> vf_link f = link \<and> vf_session_id f = sid \<and>
      vf_vm_epoch f = ve \<and> vf_input_generation f = ig \<and> vf_transition_id f = tid \<and>
      vm_request f = (if domain = EV_RPC_DEBUG then Handle_debug_rpc seq m (c_string (chars (take n payload)))
                      else Handle_user_rpc seq m (c_string (chars (take n payload)))))"
proof -
  have ok: "control_ok c'"
    using vm_push_returns [OF assms(1-4), of domain link sid "Some m" seq ve ig tid] assms(5) by (simp add: returns_def)
  obtain ok0 c1 where a: "still_authorized env (Some link) (Some sid) ve ig tid c = (ok0, c1)"
    by (cases "still_authorized env (Some link) (Some sid) ve ig tid c")
  have c1: "control_ok (ce_others env c1)"
    using kept_still_authorized [OF a] kept_others [OF assms(1)] kept_ok assms(2) by blast
  obtain c2 where c2: "ev_control_vm_queue_expire env (ce_others env c1) = Inr c2" "control_ok c2"
    using expire_returns [OF assms(1) c1] by (auto simp: returns_def)
  let ?t = "unat (co_tail c2)"
  let ?slot = "co_vm_queue c2 ! ?t"
  have slot: "?t < length (co_vm_queue c2)" "length (vf_payload ?slot) = EV_CONTROL_PAYLOAD_MAX + 1"
    using c2(2) nth_mem [of ?t "co_vm_queue c2"] by (auto simp: control_ok_def vm_frame_ok_def)
  define b where "b = (take n payload @ drop n (vf_payload ?slot))[n := 0]"
  define f where "f = \<lparr>vf_payload_len = of_nat n, vf_domain = domain, vf_link = link, vf_session_id = sid,
      vf_vm_epoch = ve, vf_input_generation = ig, vf_transition_id = tid, vf_queued_ms = ce_now env c2,
      vf_seq = seq, vf_method = m, vf_payload = b\<rparr>"
  have free: "vm_queue_next (co_tail c2) \<noteq> co_head c2"
    using assms(5) by (auto simp: ev_control_vm_queue_push_def a c2(1) Let_def split: if_split_asm)
  then have ht: "co_head c2 = co_tail c2"
    using next_other [of "co_tail c2" "co_head c2"] c2(2) by (cases "co_head c2 = co_tail c2") (auto simp: control_ok_def)
  have c': "c' = c2\<lparr>co_vm_queue := (co_vm_queue c2)[?t := f], co_tail := vm_queue_next (co_tail c2), co_pending := True\<rparr>"
    using assms(3-5) slot
    by (auto simp: ev_control_vm_queue_push_def a c2(1) Let_def memcpy_front_def f_def b_def split: if_split_asm)
  have body: "c_string (chars b) = c_string (chars (take n payload))"
    unfolding b_def by (rule queued_text) (use assms(3,4) slot(2) in simp_all)
  show ?thesis
    using ok slot(1) by (simp add: c' ht) (simp add: f_def vm_request_def body)
qed

section \<open>A poll of the virtual machine\<close>

lemma push_pop_depth:
  assumes "vm_inv v" and "ev_vm_output_scope_push v origin (Some zero_scope) = (True, scope, v')"
  shows "snd (ev_vm_output_scope_pop v' scope) = v'\<lparr>vt_scopes := (vt_scopes v')[vt_scope_depth v := zero_entry],
      vt_scope_depth := vt_scope_depth v\<rparr>"
  using assms
  by (auto simp: ev_vm_output_scope_push_def ev_vm_output_scope_pop_def vm_inv_def Let_def split: if_split_asm)

lemma depth_after_vm_run:
  assumes "\<And>r k c. co_vm_task (snd (ce_run env r k c)) = co_vm_task c"
    and "vm_inv v" and "ev_vm_output_scope_push v origin (Some zero_scope) = (True, scope, v')"
    and "co_vm_task c = v'"
  shows "vt_scope_depth (co_vm_task (vm_run env f scope c)) = vt_scope_depth v"
proof -
  have t: "co_vm_task (snd (vm_call env k c)) = co_vm_task c" for k c using assms(1) by (simp add: vm_call_def)
  obtain raised c1 where r: "vm_call env (vm_request f) c = (raised, c1)" by (cases "vm_call env (vm_request f) c")
  have "co_vm_task c1 = v'" using t [of "vm_request f" c] r assms(4) by simp
  then show ?thesis
    using push_pop_depth [OF assms(2,3)] t by (simp add: vm_run_def r Let_def vm_poll_leave_def)
qed

lemma vm_dispatch_leaves:
  assumes env: "env_ok env" and "\<And>r k c. co_vm_task (snd (ce_run env r k c)) = co_vm_task c" and "vm_inv (co_vm_task c)"
  shows "kept c (vm_dispatch env f c) \<and> \<not> co_vm_poll_active (vm_dispatch env f c) \<and>
    vt_scope_depth (co_vm_task (vm_dispatch env f c)) = vt_scope_depth (co_vm_task c)"
proof -
  have t: "co_vm_task (snd (vm_call env k c)) = co_vm_task c" for k c using assms(2) by (simp add: vm_call_def)
  have k: "kept a (vm_poll_leave b)" if "kept a b" for a b
    using that kept_fields(2,5) kept_trans unfolding vm_poll_leave_def by blast
  have run: "kept a (vm_run env f scope a)" for scope a
  proof -
    obtain raised c1 where r: "vm_call env (vm_request f) a = (raised, c1)" by (cases "vm_call env (vm_request f) a")
    have "kept a c1" using kept_vm_call [OF env, of a "vm_request f"] by (simp add: r)
    moreover have "kept c1 (snd (vm_call env (Send_error (vf_method f) (vf_seq f) ''INTERNAL_ERROR'' ''VM RPC handler raised'') c1))"
      by (rule kept_vm_call [OF env])
    ultimately show ?thesis
      by (auto simp: vm_run_def r Let_def intro!: k kept_trans [OF _ kept_fields(4)] intro: kept_trans)
  qed
  show ?thesis
  proof (cases "current_generation c = vf_input_generation f")
    case False
    then show ?thesis
      by (auto simp: vm_dispatch_def count_stat_def intro!: kept_same)
  next
    case True
    obtain result snap c1 where a: "authorize env (Some (vf_link f)) (Some (vf_session_id f)) True True (vf_vm_epoch f) c = (result, snap, c1)"
      by (cases "authorize env (Some (vf_link f)) (Some (vf_session_id f)) True True (vf_vm_epoch f) c")
    have c1: "kept c c1" "co_vm_task c1 = co_vm_task c"
      using kept_authorize [OF a] a by (auto simp: authorize_def Let_def split: prod.split_asm)
    show ?thesis
    proof (cases "result \<noteq> EV_SESSION_RESULT_OK \<or> sn_input_generation snap \<noteq> vf_input_generation f \<or> sn_transition_id snap \<noteq> vf_transition_id f")
      case bad: True
      then have d: "vm_dispatch env f c = (count_stat (\<lambda>s. s\<lparr>st_stale_generation_drops := st_stale_generation_drops s + 1\<rparr>) c1)\<lparr>co_vm_poll_active := False\<rparr>"
        using True by (simp add: vm_dispatch_def a)
      have "kept c1 (vm_dispatch env f c)" unfolding d by (auto intro!: kept_same simp: count_stat_def)
      then show ?thesis using kept_trans [OF c1(1)] c1(2) by (simp add: d count_stat_def)
    next
      case good: False
      define c2 where "c2 = c1\<lparr>co_vm_response := frame_context f (cleared_context (co_vm_response c1))\<rparr>"
      obtain valid origin where o: "ev_vm_output_origin_from_session (Some snap) (Some zero_origin) = (valid, origin)"
        by (cases "ev_vm_output_origin_from_session (Some snap) (Some zero_origin)")
      obtain pushed scope v where p: "(if valid then ev_vm_output_scope_push (co_vm_task c2) origin (Some zero_scope)
          else (False, Some zero_scope, co_vm_task c2)) = (pushed, scope, v)" by (metis prod_cases3)
      let ?c3 = "c2\<lparr>co_vm_task := v\<rparr>"
      have c3: "kept c ?c3"
        using c1(1) kept_trans kept_fields(2,4) unfolding c2_def by blast
      have d: "vm_dispatch env f c = (if \<not> pushed
          then vm_poll_leave (snd (vm_call env (Send_error (vf_method f) (vf_seq f) ''INTERNAL_ERROR''
                 ''VM output context unavailable'') ?c3))
          else vm_run env f scope ?c3)"
        using True good p by (simp only: vm_dispatch_def a prod.case Let_def o c2_def [symmetric] simp_thms if_False not_True_eq_False not_False_eq_True de_Morgan_disj not_not if_cancel)
      have v: "\<not> pushed \<Longrightarrow> v = co_vm_task c"
        using p by (auto simp: c2_def c1(2) ev_vm_output_scope_push_def Let_def split: if_split_asm)
      have depth: "pushed \<Longrightarrow> vt_scope_depth (co_vm_task (vm_run env f scope ?c3)) = vt_scope_depth (co_vm_task c)"
        using p assms(3) by (intro depth_after_vm_run [OF assms(2), of _ origin]) (auto simp: c2_def c1(2) split: if_split_asm)
      have "kept c (vm_dispatch env f c)"
        unfolding d using kept_trans [OF c3] run kept_vm_call [OF env] by (auto intro!: k)
      moreover have "\<not> co_vm_poll_active (vm_dispatch env f c)"
        by (simp add: d vm_poll_leave_def vm_run_def Let_def split: prod.split)
      moreover have "vt_scope_depth (co_vm_task (vm_dispatch env f c)) = vt_scope_depth (co_vm_task c)"
        using depth v t by (auto simp: d vm_poll_leave_def)
      ultimately show ?thesis by blast
    qed
  qed
qed

text \<open>
  A poll leaves the task of the virtual machine as it found it: whatever request it runs, and
  also when the handler leaves through an exception, it returns with the output scopes at the depth
  they had, the next poll can enter, and the queue is well formed.
\<close>

theorem vm_poll_leaves_the_task_balanced:
  assumes "env_ok env" and "control_ok c" and "\<not> co_vm_poll_active c" and "vm_inv (co_vm_task c)"
    and "\<And>r k c. co_vm_task (snd (ce_run env r k c)) = co_vm_task c"
    and "\<And>c. co_vm_task (ce_others env c) = co_vm_task c"
  shows "\<exists>c'. ev_control_transport_vm_poll env c = Inr c' \<and> control_ok c' \<and> \<not> co_vm_poll_active c' \<and>
    vt_scope_depth (co_vm_task c') = vt_scope_depth (co_vm_task c)"
proof -
  let ?f = "co_vm_queue c ! unat (co_head c)"
  let ?c1 = "ce_others env (vm_queue_take (c\<lparr>co_vm_poll_active := True\<rparr>))"
  have ok: "control_ok (vm_queue_take (c\<lparr>co_vm_poll_active := True\<rparr>))"
    using assms(2) kept_ok kept_fields(5) by (intro take_ok) blast
  have task: "co_vm_task ?c1 = co_vm_task c" using assms(6) by (simp add: vm_queue_take_def Let_def)
  have "control_ok ?c1" using kept_others [OF assms(1)] ok kept_ok by blast
  then have d: "control_ok (vm_dispatch env ?f ?c1)" "\<not> co_vm_poll_active (vm_dispatch env ?f ?c1)"
    "vt_scope_depth (co_vm_task (vm_dispatch env ?f ?c1)) = vt_scope_depth (co_vm_task c)"
    using vm_dispatch_leaves [OF assms(1,5), of ?c1 ?f] assms(4) kept_ok by (auto simp: task)
  have "control_ok (c\<lparr>co_pending := False, co_vm_poll_active := False\<rparr>)"
    using assms(2) by (simp add: control_ok_def)
  then show ?thesis
    using assms(2,3) d by (auto simp: ev_control_transport_vm_poll_def head_read)
qed

end
