(* ===== verification/ControlFrameProps.thy ===== *)
theory ControlFrameProps
  imports ControlFrame ControlQueueProps ControlJsonProps
begin

text \<open>
  Correctness of the receiver of frames: whatever bytes arrive, it accesses only its buffers and
  always returns; a frame in the format of the transmitter is received as it was sent; a frame
  with a wrong checksum or too slow is dropped without any effect but a counter.
\<close>

section \<open>The invariant of a parser\<close>

text \<open>A payload beyond the buffer of the parser belongs to an upload.\<close>

definition upload :: "ev_control_parser \<Rightarrow> bool" where
  "upload p \<longleftrightarrow> (\<exists>md. frame_metadata p = Inr (Some md) \<and> md_channel md = ''user.rpc'' \<and> md_method md = ''file.write'')"

definition parser_sized :: "ev_control_parser \<Rightarrow> bool" where
  "parser_sized p \<longleftrightarrow>
     length (pa_header p) = EV_CONTROL_HEADER_MAX \<and> length (pa_metadata p) = EV_CONTROL_METADATA_MAX + 1 \<and>
     length (pa_payload p) = EV_CONTROL_PAYLOAD_MAX + 1 \<and> pa_header_len p < EV_CONTROL_HEADER_MAX \<and>
     pa_metadata_len p \<le> EV_CONTROL_METADATA_MAX \<and> pa_payload_len p \<le> EV_FILE_PAYLOAD_MAX"

definition parser_inv :: "ev_control_parser \<Rightarrow> bool" where
  "parser_inv p \<longleftrightarrow> parser_sized p \<and>
     (pa_state p = EV_CONTROL_PARSE_METADATA \<longrightarrow> pa_metadata_pos p < pa_metadata_len p) \<and>
     (pa_state p = EV_CONTROL_PARSE_PAYLOAD \<longrightarrow> pa_payload_pos p < pa_payload_len p) \<and>
     (if pa_state p = EV_CONTROL_PARSE_PAYLOAD \<or> pa_state p = EV_CONTROL_PARSE_EOF
      then pa_payload_len p < length (ev_control_frame_payload p) \<and>
           (EV_CONTROL_PAYLOAD_MAX < pa_payload_len p \<longrightarrow> upload p)
      else pa_file_payload p = None) \<and>
     (pa_state p = EV_CONTROL_PARSE_HEADER \<longrightarrow> pa_metadata_pos p = 0 \<and> pa_payload_pos p = 0) \<and>
     (pa_state p = EV_CONTROL_PARSE_METADATA \<longrightarrow> pa_payload_pos p = 0)"

lemma reset_inv [simp]: "parser_inv (ev_control_parser_reset p)"
  by (simp add: parser_inv_def parser_sized_def ev_control_parser_reset_def control_consts)

lemma reset_keep_link_inv [simp]: "parser_inv (ev_control_parser_reset_keep_link p)"
  by (simp add: parser_inv_def parser_sized_def ev_control_parser_reset_keep_link_def ev_control_parser_reset_def control_consts)

lemma begin_inv [simp]: "parser_inv (ev_control_parser_begin link now p)"
  by (simp add: parser_inv_def parser_sized_def ev_control_parser_begin_def ev_control_parser_reset_def control_consts)

lemma bind_inv: "parser_inv p \<Longrightarrow> parser_inv (bind_parser link p)"
  by (simp add: bind_parser_def) (simp add: parser_inv_def parser_sized_def ev_control_parser_reset_def control_consts)

lemma expire_inv:
  "parser_inv p \<Longrightarrow> ev_control_parser_expire now p c = (e, p', c') \<Longrightarrow> parser_inv p' \<and> kept c c'"
  by (auto simp: ev_control_parser_expire_def split: if_splits)

lemma kept_on_response [simp]: "kept c (on_response f c)"
  by (simp add: on_response_def)

lemma kept_more [simp]:
  "kept c (ev_control_response_context_clear c)" "kept c (ev_control_log_rejected_frame c)" "kept c (count_bad c)"
  "kept c (no_session c)" "kept c (request_context link md c)" "kept c (count_received link n c)"
  by (simp_all add: ev_control_response_context_clear_def ev_control_log_rejected_frame_def count_bad_def no_session_def
      request_context_def count_received_def)

lemmas kept_steps =
  kept_trans [OF _ kept_more(1)] kept_trans [OF _ kept_more(2)] kept_trans [OF _ kept_more(3)]
  kept_trans [OF _ kept_more(4)] kept_trans [OF _ kept_on_response] kept_trans [OF _ kept_fields(6)]
  kept_trans [OF _ kept_call] kept_trans [OF _ kept_repl_push]

lemma ok_more [simp]:
  assumes "control_ok c"
  shows "control_ok (ev_control_response_context_clear c)" "control_ok (ev_control_log_rejected_frame c)"
    "control_ok (count_bad c)" "control_ok (no_session c)" "control_ok (request_context link md c)"
    "control_ok (count_received link n c)" "control_ok (count_stat f c)" "control_ok (on_response h c)"
  using assms kept_ok kept_more kept_fields(6) kept_on_response by blast+

lemma ok_call: "env_ok env \<Longrightarrow> control_ok c \<Longrightarrow> control_ok (control_call env k c)"
  using kept_call kept_ok by blast

section \<open>The metadata\<close>

lemma parse_metadata_safe: "safe (ev_control_json_parse_metadata t) (\<lambda>_. True)"
  unfolding ev_control_json_parse_metadata_def
  by (rule safe_bind [OF safe_parse_object]) (simp add: Let_def)

lemma frame_metadata_returns: "pa_metadata_len p \<le> length (pa_metadata p) \<Longrightarrow> returns (frame_metadata p) (\<lambda>_. True)"
  using parse_metadata_safe [of "Some (take (pa_metadata_len p) (pa_metadata p))"]
  by (auto simp: frame_metadata_def safe_def split: sum.split)

lemma frame_metadata_cong:
  "pa_metadata p = pa_metadata p' \<Longrightarrow> pa_metadata_len p = pa_metadata_len p' \<Longrightarrow> frame_metadata p = frame_metadata p'"
  by (simp add: frame_metadata_def)

lemma set_payload_fields [simp]:
  "pa_file_payload p = None \<Longrightarrow> pa_file_payload (set_frame_payload b p) = None"
  "pa_metadata (set_frame_payload b p) = pa_metadata p" "pa_metadata_len (set_frame_payload b p) = pa_metadata_len p"
  "pa_payload_len (set_frame_payload b p) = pa_payload_len p" "pa_payload_pos (set_frame_payload b p) = pa_payload_pos p"
  "pa_state (set_frame_payload b p) = pa_state p" "pa_header (set_frame_payload b p) = pa_header p"
  "pa_header_len (set_frame_payload b p) = pa_header_len p" "ev_control_frame_payload (set_frame_payload b p) = b"
  "pa_expected_crc (set_frame_payload b p) = pa_expected_crc p"
  by (auto simp: set_frame_payload_def ev_control_frame_payload_def split: option.split)

lemma frame_payload_updates [simp]:
  "ev_control_frame_payload (p\<lparr>pa_state := s\<rparr>) = ev_control_frame_payload p"
  "ev_control_frame_payload (p\<lparr>pa_metadata := m\<rparr>) = ev_control_frame_payload p"
  "ev_control_frame_payload (p\<lparr>pa_metadata_pos := k\<rparr>) = ev_control_frame_payload p"
  "ev_control_frame_payload (p\<lparr>pa_payload_pos := k\<rparr>) = ev_control_frame_payload p"
  "ev_control_frame_payload (p\<lparr>pa_last_progress_ms := now\<rparr>) = ev_control_frame_payload p"
  "ev_control_frame_payload (p\<lparr>pa_file_payload := Some b\<rparr>) = b"
  "pa_file_payload p = None \<Longrightarrow> ev_control_frame_payload p = pa_payload p"
  by (simp_all add: ev_control_frame_payload_def split: option.split)

lemma upload_updates [simp]:
  "upload (p\<lparr>pa_state := s\<rparr>) = upload p" "upload (p\<lparr>pa_metadata_pos := k\<rparr>) = upload p"
  "upload (p\<lparr>pa_payload_pos := k\<rparr>) = upload p" "upload (p\<lparr>pa_last_progress_ms := now\<rparr>) = upload p"
  "upload (p\<lparr>pa_file_payload := f\<rparr>) = upload p" "upload (set_frame_payload b p) = upload p"
  by (simp_all add: upload_def frame_metadata_def)

lemma set_payload_length:
  "length b = length (ev_control_frame_payload p) \<Longrightarrow> length (pa_payload (set_frame_payload b p)) = length (pa_payload p)"
  by (auto simp: set_frame_payload_def ev_control_frame_payload_def split: option.split_asm)

section \<open>A complete frame\<close>

lemma dispatch_rpc_returns:
  assumes "env_ok env" "control_ok c" "n \<le> EV_CONTROL_PAYLOAD_MAX" "n \<le> length buffer"
  shows "returns (dispatch_rpc env link md snap buffer n c) control_ok"
  unfolding dispatch_rpc_def Let_def
  by (intro returns_if returns_bind [OF vm_push_returns [OF assms]]) (auto simp: assms ok_call)

lemma kept_ctrl_c: "env_ok env \<Longrightarrow> kept c (ev_control_deliver_ctrl_c env link sid ve ig tid c)"
proof -
  assume env: "env_ok env"
  obtain ok c1 where a: "still_authorized env link sid ve ig tid c = (ok, c1)" by (cases "still_authorized env link sid ve ig tid c")
  have k: "kept c c1" "kept c (ce_others env c1)"
    using kept_still_authorized [OF a] kept_others [OF env] kept_trans by blast+
  then show ?thesis
    by (auto simp: ev_control_deliver_ctrl_c_def a Let_def intro!: kept_steps env)
qed

lemma dispatch_authorized_returns:
  assumes env: "env_ok env" and c: "control_ok c" and n: "n \<le> length buffer"
    and u: "EV_CONTROL_PAYLOAD_MAX < n \<Longrightarrow> md_channel md = ''user.rpc'' \<and> md_method md = ''file.write''"
  shows "returns (dispatch_authorized env link md snap buffer n c) control_ok"
proof -
  have push: "control_ok c2" if "ev_control_repl_rx_push env buffer n l s ve ig tid c1 = (ok, c2)" "control_ok c1"
    for l s ve ig tid ok c1 c2
    using kept_repl_push [OF env, of c1 buffer n l s ve ig tid] that kept_ok [OF _ that(2)] by simp
  have ctrl: "control_ok (ev_control_deliver_ctrl_c env l s ve ig tid c1)" if "control_ok c1" for l s ve ig tid c1
    using kept_ctrl_c [OF env] kept_ok [OF _ that] by blast
  have rpc: "returns (dispatch_rpc env link md snap buffer n c1) control_ok"
    if "\<not> (md_channel md = ''user.rpc'' \<and> md_method md = ''file.write'')" "control_ok c1" for c1
    using that u by (intro dispatch_rpc_returns env that(2) n) force
  show ?thesis
    unfolding dispatch_authorized_def Let_def
    by (intro returns_if returns_bind [where P = control_ok])
      (auto simp: ok_call env c ctrl rpc dest!: push split: prod.split)
qed

lemma kept_answer: "env_ok env \<Longrightarrow> kept c (answer_unauthorized env link md result snap c)"
  by (auto simp: answer_unauthorized_def Let_def intro!: kept_steps)

lemma kept_subscription: "env_ok env \<Longrightarrow> kept c (answer_subscription env link md c)"
proof -
  assume env: "env_ok env"
  obtain r c1 where s: "ce_preview_subscribe env link (md_method md = ''preview.subscribe'') (no_session c) = (r, c1)"
    by (cases "ce_preview_subscribe env link (md_method md = ''preview.subscribe'') (no_session c)")
  have "kept (no_session c) (snd (ce_preview_subscribe env link (md_method md = ''preview.subscribe'') (no_session c)))"
    using env by (simp add: env_ok_def)
  then have "kept c c1" using kept_trans [OF kept_more(4)] by (simp add: s)
  then show ?thesis
    by (auto simp: answer_subscription_def s Let_def intro!: kept_steps env)
qed

lemma frame_authorized_kept:
  "ev_control_frame_authorized env link ch me md pl n c = Some (r, snap, c1) \<Longrightarrow> kept c c1"
  by (auto simp: ev_control_frame_authorized_def Let_def split: if_splits dest: kept_authorize)

lemma handle_request_returns:
  assumes env: "env_ok env" and c: "control_ok c" and n: "n \<le> length buffer"
    and u: "EV_CONTROL_PAYLOAD_MAX < n \<Longrightarrow> md_channel md = ''user.rpc'' \<and> md_method md = ''file.write''"
  shows "returns (handle_request env link md buffer n c) control_ok"
proof -
  let ?c = "request_context link md c"
  have c1: "control_ok ?c" using c by simp
  have auth: "control_ok c2" if "ev_control_frame_authorized env link ch me md pl n ?c = Some (r, snap, c2)" for ch me pl r snap c2
    using frame_authorized_kept [OF that] kept_ok c1 by blast
  have "control_ok (answer_subscription env link md ?c)" using kept_subscription [OF env] kept_ok c1 by blast
  moreover have "control_ok (answer_unauthorized env link md r snap c2)" if "control_ok c2" for r snap c2
    using kept_answer [OF env] kept_ok that by blast
  ultimately show ?thesis
    unfolding handle_request_def Let_def using c1 dispatch_authorized_returns [OF env _ n u]
    by (auto simp: ok_call env dest!: auth split: option.split)
qed

lemma handle_frame_returns:
  assumes env: "env_ok env" and c: "control_ok c" and p: "parser_inv p"
    and st: "pa_state p = EV_CONTROL_PARSE_EOF"
  shows "returns (ev_control_handle_frame env link p c) (\<lambda>(p', c'). control_ok c')"
proof -
  have len: "pa_payload_len p < length (ev_control_frame_payload p)" and ml: "pa_metadata_len p \<le> length (pa_metadata p)"
    using p st by (auto simp: parser_inv_def parser_sized_def)
  let ?b = "(ev_control_frame_payload p)[pa_payload_len p := 0]"
  have n: "pa_payload_len p \<le> length ?b" using len by simp
  obtain m where m: "frame_metadata p = Inr m" using frame_metadata_returns [OF ml] by (auto simp: returns_def)
  have u: "EV_CONTROL_PAYLOAD_MAX < pa_payload_len p \<Longrightarrow> m = Some md \<Longrightarrow> md_channel md = ''user.rpc'' \<and> md_method md = ''file.write''"
    for md using p st m by (auto simp: parser_inv_def upload_def)
  have "returns (case m of None \<Rightarrow> Inr (ev_control_log_rejected_frame c)
        | Some md \<Rightarrow> if malformed md ?b (pa_payload_len p) then Inr (ev_control_log_rejected_frame c)
            else handle_request env link md ?b (pa_payload_len p) c) control_ok"
    using handle_request_returns [OF env c n u] c by (auto split: option.split)
  then show ?thesis
    unfolding ev_control_handle_frame_def wr_inside [OF len] sbind_simps m by (rule returns_bind) simp
qed

section \<open>Every byte\<close>

definition pair_ok :: "ev_control_parser \<times> 'r control \<Rightarrow> bool" where
  "pair_ok = (\<lambda>(p, c). parser_inv p \<and> control_ok c)"

lemma pair_ok_simps [simp]: "pair_ok (p, c) = (parser_inv p \<and> control_ok c)"
  by (simp add: pair_ok_def)

lemma bad_frame_ok [simp]: "control_ok c \<Longrightarrow> pair_ok (bad_frame p c)" "control_ok c \<Longrightarrow> pair_ok (reject_frame p c)"
  by (simp_all add: bad_frame_def reject_frame_def)

lemma parse_header_inv:
  assumes "parser_inv p" and "pa_state p = EV_CONTROL_PARSE_HEADER" and "ev_control_parse_header p = (True, p')"
  shows "parser_inv p'"
proof -
  obtain m n k j where h: "scan_header (c_string (pa_header p)) = Some (m, n, k, j)"
    using assms(3) by (cases "scan_header (c_string (pa_header p))") (auto simp: ev_control_parse_header_def)
  then have m: "m \<noteq> 0" "unat m \<le> EV_CONTROL_METADATA_MAX" "unat n \<le> EV_FILE_PAYLOAD_MAX"
    and p': "p' = p\<lparr>pa_metadata_len := unat m, pa_payload_len := unat n, pa_expected_crc := k,
      pa_state := EV_CONTROL_PARSE_METADATA\<rparr>"
    using assms(3) by (auto simp: ev_control_parse_header_def split: if_split_asm)
  have "0 < unat m" using m(1) by (simp add: unat_gt_0)
  then show ?thesis using assms(1,2) m by (auto simp: p' parser_inv_def parser_sized_def)
qed

lemma feed_header_returns:
  assumes p: "parser_inv p" and st: "pa_state p = EV_CONTROL_PARSE_HEADER" and c: "control_ok c"
  shows "returns (feed_header byte1 link now p c) pair_ok"
proof (cases "byte1 = 0x1e \<and> pa_header_len p = 0")
  case True
  then show ?thesis using c by (simp add: feed_header_def)
next
  case no_begin: False
  show ?thesis
  proof (cases "length (pa_header p) \<le> pa_header_len p + 1")
    case True
    then show ?thesis using no_begin c by (simp add: feed_header_def)
  next
    case False
    define p1 where "p1 = p\<lparr>pa_header := (pa_header p)[pa_header_len p := char_of (unat byte1), pa_header_len p + 1 := CHR 0x00],
        pa_header_len := pa_header_len p + 1, pa_last_progress_ms := now\<rparr>"
    have p1: "parser_inv p1" "pa_state p1 = EV_CONTROL_PARSE_HEADER"
      using p st False by (auto simp: p1_def parser_inv_def parser_sized_def)
    have step: "feed_header byte1 link now p c =
        (let (ok, p2) = (if byte1 = 0x0a then ev_control_parse_header p1 else (True, p1))
         in Inr (if ok then (p2, c) else bad_frame p2 c))"
      unfolding feed_header_def if_not_P [OF no_begin] if_not_P [OF False] using False by (simp add: p1_def Let_def)
    show ?thesis
      unfolding step using p1 c parse_header_inv [OF p1] by (auto split: prod.split)
  qed
qed

lemma metadata_done_inv:
  assumes "parser_sized p" and "pa_payload_pos p = 0" and "pa_payload_len p < length (ev_control_frame_payload p)"
    and "EV_CONTROL_PAYLOAD_MAX < pa_payload_len p \<longrightarrow> upload p"
  shows "parser_inv (metadata_done p)"
  using assms by (auto simp: parser_inv_def parser_sized_def metadata_done_def)

lemma large_payload_returns:
  assumes env: "env_ok env" and p: "parser_sized p" "pa_payload_pos p = 0" and c: "control_ok c"
  shows "returns (large_payload env link p c) pair_ok"
proof -
  have "pa_metadata_len p \<le> length (pa_metadata p)" using p by (simp add: parser_sized_def)
  then obtain m where m: "frame_metadata p = Inr m" using frame_metadata_returns by (auto simp: returns_def)
  show ?thesis
  proof (cases m)
    case None
    then show ?thesis using m c by (simp add: large_payload_def)
  next
    case (Some md)
    have up: "parser_inv (metadata_done (p\<lparr>pa_file_payload := Some (map g [0..<pa_payload_len p + 1])\<rparr>))"
      if "md_channel md = ''user.rpc''" "md_method md = ''file.write''" for g
    proof (rule metadata_done_inv)
      have "upload p" using m Some that by (simp add: upload_def)
      then show "EV_CONTROL_PAYLOAD_MAX < pa_payload_len (p\<lparr>pa_file_payload := Some (map g [0..<pa_payload_len p + 1])\<rparr>) \<longrightarrow>
        upload (p\<lparr>pa_file_payload := Some (map g [0..<pa_payload_len p + 1])\<rparr>)" by simp
      show "parser_sized (p\<lparr>pa_file_payload := Some (map g [0..<pa_payload_len p + 1])\<rparr>)"
        using p(1) by (simp add: parser_sized_def)
    qed (use p in simp_all)
    have k: "control_ok c1" if "ev_control_frame_authorized env link a b md [] n c = Some (r, snap, c1)" for a b n r snap c1
      using frame_authorized_kept [OF that] kept_ok c by blast
    show ?thesis
      using c up by (auto simp: large_payload_def m Some simp del: upt_Suc dest!: k split: option.split)
  qed
qed

lemma feed_metadata_returns:
  assumes env: "env_ok env" and p: "parser_inv p" and st: "pa_state p = EV_CONTROL_PARSE_METADATA" and c: "control_ok c"
  shows "returns (feed_metadata env byte1 link now p c) pair_ok"
proof (cases "byte1 = 0")
  case True
  then show ?thesis using c by (simp add: feed_metadata_def)
next
  case False
  let ?m = "(pa_metadata p)[pa_metadata_pos p := char_of (unat byte1)]"
  define p1 where "p1 = p\<lparr>pa_metadata := ?m, pa_metadata_pos := pa_metadata_pos p + 1, pa_last_progress_ms := now\<rparr>"
  define p2 where "p2 = p1\<lparr>pa_metadata := ?m[pa_metadata_len p := CHR 0x00]\<rparr>"
  have pos: "pa_metadata_pos p < length (pa_metadata p)" "pa_metadata_len p < length ?m"
    using p st by (auto simp: parser_inv_def parser_sized_def)
  have step: "feed_metadata env byte1 link now p c =
      (if pa_metadata_pos p + 1 < pa_metadata_len p then Inr (p1, c)
       else if EV_CONTROL_PAYLOAD_MAX < pa_payload_len p then large_payload env link p2 c
       else Inr (metadata_done p2, c))"
    using False pos by (simp add: feed_metadata_def p1_def p2_def Let_def)
  have p2: "parser_sized p2" "pa_payload_pos p2 = 0" "pa_file_payload p2 = None" "pa_payload_len p2 = pa_payload_len p"
    using p st by (auto simp: p1_def p2_def parser_inv_def parser_sized_def)
  have "parser_inv (metadata_done p2)" if "\<not> EV_CONTROL_PAYLOAD_MAX < pa_payload_len p"
    using p2 that by (intro metadata_done_inv) (auto simp: parser_sized_def)
  moreover have "parser_inv p1" if "pa_metadata_pos p + 1 < pa_metadata_len p"
    using p st that by (auto simp: p1_def parser_inv_def parser_sized_def)
  ultimately show ?thesis
    unfolding step using c large_payload_returns [OF env p2(1,2) c] by auto
qed

lemma feed_payload_returns:
  assumes p: "parser_inv p" and st: "pa_state p = EV_CONTROL_PARSE_PAYLOAD"
  shows "returns (feed_payload byte1 now p) parser_inv"
proof -
  have pos: "pa_payload_pos p < length (ev_control_frame_payload p)" using p st by (auto simp: parser_inv_def)
  let ?b = "(ev_control_frame_payload p)[pa_payload_pos p := byte1]"
  have "parser_sized (set_frame_payload ?b p)"
    using p set_payload_length [of ?b p] by (simp add: parser_inv_def parser_sized_def)
  then have "parser_sized ((set_frame_payload ?b p)\<lparr>pa_payload_pos := k, pa_last_progress_ms := now\<rparr>)"
    "parser_sized ((set_frame_payload ?b p)\<lparr>pa_payload_pos := k, pa_last_progress_ms := now, pa_state := s\<rparr>)" for k s
    by (simp_all add: parser_sized_def)
  then show ?thesis
    using p st pos by (auto simp: feed_payload_def Let_def parser_inv_def)
qed

lemma feed_eof_returns:
  assumes env: "env_ok env" and p: "parser_inv p" and st: "pa_state p = EV_CONTROL_PARSE_EOF" and c: "control_ok c"
  shows "returns (feed_eof env byte1 link now p c) pair_ok"
proof -
  have len: "pa_payload_len p < length (ev_control_frame_payload p)" using p st by (simp add: parser_inv_def)
  have intact: "returns (if byte1 = 0x1f then frame_intact p else Inr False) (\<lambda>_. True)"
    using len by (simp add: frame_intact_def)
  have body: "returns (if current then ev_control_handle_frame env link p c1 else Inr (p, c2)) (\<lambda>(p', c'). control_ok c')"
    if "control_ok c1" "control_ok c2" for current c1 c2
    using handle_frame_returns [OF env that(1) p st] that(2) by simp
  show ?thesis
    unfolding feed_eof_def Let_def
    by (rule returns_bind [OF intact], intro returns_if returns_bind [OF body]) (auto simp: c)
qed

lemma feed_byte_returns:
  assumes env: "env_ok env" and "pair_ok pc"
  shows "returns (ev_control_parser_feed_byte env link now byte1 pc) pair_ok"
proof -
  obtain p0 c0 where pc: "pc = (p0, c0)" "parser_inv p0" "control_ok c0" using assms(2) by (cases pc) auto
  obtain e p c where e: "ev_control_parser_expire now p0 c0 = (e, p, c)" by (cases "ev_control_parser_expire now p0 c0")
  have ok: "parser_inv p" "control_ok c" using expire_inv [OF pc(2) e] kept_ok pc(3) by blast+
  have pay: "returns (sbind (feed_payload byte1 now p) (\<lambda>p1. Inr (p1, c))) pair_ok"
    if "pa_state p = EV_CONTROL_PARSE_PAYLOAD"
    by (rule returns_bind [OF feed_payload_returns [OF ok(1) that]]) (use ok in simp)
  show ?thesis
    using ok pay feed_header_returns [OF ok(1) _ ok(2)] feed_metadata_returns [OF env ok(1) _ ok(2)]
      feed_eof_returns [OF env ok(1) _ ok(2)]
    by (auto simp: ev_control_parser_feed_byte_def pc(1) e split: ev_control_parse_state.split)
qed

lemma feed_bytes_returns: "env_ok env \<Longrightarrow> pair_ok pc \<Longrightarrow> returns (feed_bytes env link now bs pc) pair_ok"
  by (induction bs arbitrary: pc) (auto intro!: returns_bind [OF feed_byte_returns])

lemma parser_index_bound:
  "lr_transport_id link < EV_TRANSPORT_MAX \<Longrightarrow> lr_slot link < EV_TRANSPORT_TCP_LINKS \<Longrightarrow> parser_index link < EV_CONTROL_PARSER_COUNT"
  by (cases "lr_transport_id link") (auto simp: parser_index_def EV_CONTROL_PARSER_COUNT_def word_less_nat_alt)

text \<open>
  Property C23: the receiver accesses only its buffers and always returns, whatever bytes arrive on
  whatever links, whatever the sessions allow and whether or not a block for an upload is granted; the
  parsers keep their invariant, and so do the rings behind them.
\<close>

theorem receiver_keeps_its_buffers:
  assumes "env_ok env" and "control_ok c"
    and "length parsers = EV_CONTROL_PARSER_COUNT" and "\<forall>p \<in> set parsers. parser_inv p"
  shows "\<exists>err parsers' c'. ev_control_transport_rx env link bytes n parsers c = Inr (err, parsers', c') \<and>
    control_ok c' \<and> length parsers' = EV_CONTROL_PARSER_COUNT \<and> (\<forall>p \<in> set parsers'. parser_inv p)"
proof -
  have upd: "\<forall>p \<in> set (parsers[i := q]). parser_inv p" if "parser_inv q" for i q
    using assms(4) that set_update_subset_insert [of parsers i q] by auto
  have "returns (ev_control_transport_rx env link bytes n parsers c) (\<lambda>(err, parsers', c'). control_ok c' \<and>
      length parsers' = EV_CONTROL_PARSER_COUNT \<and> (\<forall>p \<in> set parsers'. parser_inv p))"
  proof (cases link)
    case None
    then show ?thesis using assms by (simp add: ev_control_transport_rx_def)
  next
    case (Some l)
    show ?thesis
    proof (cases "EV_TRANSPORT_MAX \<le> lr_transport_id l \<or> EV_TRANSPORT_TCP_LINKS \<le> lr_slot l")
      case True
      then show ?thesis using assms by (auto simp: ev_control_transport_rx_def Some simp del: transport_consts)
    next
      case False
      then have i: "parser_index l < length parsers"
        using parser_index_bound [of l] assms(3) by (simp add: not_le)
      obtain e p1 c1 where e: "ev_control_parser_expire (ce_now env c) (bind_parser l (parsers ! parser_index l)) c = (e, p1, c1)"
        by (cases "ev_control_parser_expire (ce_now env c) (bind_parser l (parsers ! parser_index l)) c")
      have ok: "parser_inv p1" "control_ok c1"
        using expire_inv [OF bind_inv e] assms(2,4) i kept_ok nth_mem by blast+
      have feed: "returns (sbind (feed_bytes env l (ce_now env c) bs (p1, count_received l n c1)) (\<lambda>(p1, c2).
          Inr (ESP_OK, parsers[parser_index l := p1], c2))) (\<lambda>(err, parsers', c'). control_ok c' \<and>
        length parsers' = EV_CONTROL_PARSER_COUNT \<and> (\<forall>p \<in> set parsers'. parser_inv p))" for bs
        by (rule returns_bind [OF feed_bytes_returns [OF assms(1)]]) (use ok upd assms(3) in auto)
      show ?thesis
        using assms ok upd feed
        by (auto simp: ev_control_transport_rx_def Some rd_inside [OF i] e Let_def simp del: transport_consts)
    qed
  qed
  then show ?thesis by (auto simp: returns_def)
qed

end
