(* ===== verification/ControlReceive.thy ===== *)
theory ControlReceive
  imports ControlHeader ControlFrameProps MuxPayload
begin

text \<open>
  What the receiver makes of whole frames: a frame in the format of the transmitter is received
  exactly, a broken one is dropped and does not block the link, and a request of anyone but the
  owner reaches no handler.
\<close>

section \<open>The parser while a frame comes in\<close>

definition padded :: "nat \<Rightarrow> 'a \<Rightarrow> 'a list \<Rightarrow> 'a list" where
  "padded n z xs = xs @ replicate (n - length xs) z"

lemma padded_write: "length xs < n \<Longrightarrow> (padded n z xs)[length xs := x] = padded n z (xs @ [x])"
  by (cases "n - length xs") (auto simp: padded_def list_update_append)

lemma padded_end: "length xs < n \<Longrightarrow> (padded n z xs)[length xs := z] = padded n z xs"
  by (cases "n - length xs") (auto simp: padded_def list_update_append)

lemma take_padded [simp]: "take (length xs) (padded n z xs) = xs"
  by (simp add: padded_def)

lemma length_padded: "length xs \<le> n \<Longrightarrow> length (padded n z xs) = n"
  by (simp add: padded_def)

lemma char_byte: "(of_char c :: u8) = of_nat (of_char c)"
  by (cases c) (simp add: of_char_def)

lemma char_newline: "(char_of (10 :: nat) :: char) = CHR 0x0A"
  using char_of_char [of "CHR 0x0A", where 'a = nat] by simp

lemma bytes_of_eq: "bytes_of s = map (\<lambda>c. of_nat (of_char c)) s"
  by (simp add: bytes_of_def char_byte)

lemma byte_of_char [simp]: "char_of (unat (of_nat (of_char c) :: u8)) = c"
  by (simp add: unat_of_nat take_bit_nat_eq_self)

lemma byte_eq: "(of_nat (of_char c) :: u8) = of_nat (of_char d) \<longleftrightarrow> c = d"
  using byte_of_char by metis

lemma byte_special:
  "(of_nat (of_char c) :: u8) = 0 \<longleftrightarrow> c = CHR 0x00" "(of_nat (of_char c) :: u8) = 0x0a \<longleftrightarrow> c = CHR 0x0A"
  "(of_nat (of_char c) :: u8) = 0x1e \<longleftrightarrow> c = CHR 0x1E"
  using byte_eq [of c "CHR 0x00"] byte_eq [of c "CHR 0x0A"] byte_eq [of c "CHR 0x1E"] by simp_all

text \<open>The parser of a frame of \<open>link\<close> that began at \<open>now\<close>, with what it has read.\<close>

definition reading ::
  "ev_link_ref \<Rightarrow> u32 \<Rightarrow> ev_control_parse_state \<Rightarrow> string \<Rightarrow> nat \<Rightarrow> nat \<Rightarrow> u32 \<Rightarrow> string \<Rightarrow> u8 list \<Rightarrow> ev_control_parser" where
  "reading link now st hs m n crc ms bs =
     \<lparr>pa_state = st, pa_link_bound = True, pa_link = link, pa_frame_start_ms = now, pa_last_progress_ms = now,
      pa_header = padded EV_CONTROL_HEADER_MAX (CHR 0x00) hs, pa_header_len = length hs,
      pa_metadata = padded (EV_CONTROL_METADATA_MAX + 1) (CHR 0x00) ms, pa_metadata_len = m, pa_metadata_pos = length ms,
      pa_payload = padded (EV_CONTROL_PAYLOAD_MAX + 1) 0 bs, pa_file_payload = None, pa_payload_len = n,
      pa_payload_pos = length bs, pa_expected_crc = crc\<rparr>"

lemma reading_fields [simp]:
  "pa_state (reading l t st hs m n k ms bs) = st" "pa_header_len (reading l t st hs m n k ms bs) = length hs"
  "pa_header (reading l t st hs m n k ms bs) = padded EV_CONTROL_HEADER_MAX (CHR 0x00) hs"
  "pa_metadata (reading l t st hs m n k ms bs) = padded (EV_CONTROL_METADATA_MAX + 1) (CHR 0x00) ms"
  "pa_metadata_len (reading l t st hs m n k ms bs) = m" "pa_metadata_pos (reading l t st hs m n k ms bs) = length ms"
  "ev_control_frame_payload (reading l t st hs m n k ms bs) = padded (EV_CONTROL_PAYLOAD_MAX + 1) 0 bs"
  "pa_payload_len (reading l t st hs m n k ms bs) = n" "pa_payload_pos (reading l t st hs m n k ms bs) = length bs"
  "pa_expected_crc (reading l t st hs m n k ms bs) = k"
  by (simp_all add: reading_def ev_control_frame_payload_def)

lemma begin_reading: "ev_control_parser_begin link now p = reading link now EV_CONTROL_PARSE_HEADER [] 0 0 0 [] []"
  by (simp add: ev_control_parser_begin_def ev_control_parser_reset_def reading_def padded_def)

lemma no_timeout: "ev_control_parser_expire now (reading link now st hs m n k ms bs) c = (False, reading link now st hs m n k ms bs, c)"
  by (simp add: ev_control_parser_expire_def frame_timed_out_def reading_def EV_CONTROL_FRAME_IDLE_TIMEOUT_MS_def
      EV_CONTROL_FRAME_TOTAL_TIMEOUT_MS_def)

lemma header_char:
  assumes "c \<noteq> CHR 0x0A" and "hs \<noteq> [] \<or> c \<noteq> CHR 0x1E" and "length hs + 1 < EV_CONTROL_HEADER_MAX"
  shows "ev_control_parser_feed_byte env link now (of_nat (of_char c)) (reading link now EV_CONTROL_PARSE_HEADER hs 0 0 0 [] [], x) =
    Inr (reading link now EV_CONTROL_PARSE_HEADER (hs @ [c]) 0 0 0 [] [], x)"
proof -
  have "feed_header (of_nat (of_char c)) link now (reading link now EV_CONTROL_PARSE_HEADER hs 0 0 0 [] []) x =
      Inr (reading link now EV_CONTROL_PARSE_HEADER (hs @ [c]) 0 0 0 [] [], x)"
    using assms padded_write [of hs EV_CONTROL_HEADER_MAX "CHR 0x00" c] padded_end [of "hs @ [c]" EV_CONTROL_HEADER_MAX "CHR 0x00"]
    by (auto simp: feed_header_def byte_special length_padded Let_def reading_def)
  then show ?thesis by (simp add: ev_control_parser_feed_byte_def no_timeout)
qed

lemma header_chars:
  "CHR 0x0A \<notin> set xs \<Longrightarrow> hs \<noteq> [] \<or> (\<forall>c \<in> set xs. c \<noteq> CHR 0x1E) \<Longrightarrow> length hs + length xs < EV_CONTROL_HEADER_MAX \<Longrightarrow>
   feed_bytes env link now (bytes_of xs @ rest) (reading link now EV_CONTROL_PARSE_HEADER hs 0 0 0 [] [], x) =
   feed_bytes env link now rest (reading link now EV_CONTROL_PARSE_HEADER (hs @ xs) 0 0 0 [] [], x)"
proof (induction xs arbitrary: hs)
  case (Cons c xs)
  have "ev_control_parser_feed_byte env link now (of_nat (of_char c)) (reading link now EV_CONTROL_PARSE_HEADER hs 0 0 0 [] [], x) =
      Inr (reading link now EV_CONTROL_PARSE_HEADER (hs @ [c]) 0 0 0 [] [], x)"
    using Cons.prems by (intro header_char) auto
  then show ?case using Cons.IH [of "hs @ [c]"] Cons.prems by (simp add: bytes_of_eq)
qed (simp add: bytes_of_eq)

lemma header_end:
  assumes "scan_header (hs @ [CHR 0x0A]) = Some (of_nat m, of_nat n, crc, length hs + 1)"
    and "0 < m" "m \<le> EV_CONTROL_METADATA_MAX" "n \<le> EV_FILE_PAYLOAD_MAX" and "length hs + 1 < EV_CONTROL_HEADER_MAX"
    and "CHR 0x00 \<notin> set hs"
  shows "ev_control_parser_feed_byte env link now 0x0a (reading link now EV_CONTROL_PARSE_HEADER hs 0 0 0 [] [], x) =
    Inr (reading link now EV_CONTROL_PARSE_METADATA (hs @ [CHR 0x0A]) m n crc [] [], x)"
proof -
  let ?h = "hs @ [CHR 0x0A]"
  have c: "c_string (padded EV_CONTROL_HEADER_MAX (CHR 0x00) ?h) = ?h"
  proof -
    obtain k where k: "EV_CONTROL_HEADER_MAX - length ?h = Suc k"
      using assms(5) by (cases "EV_CONTROL_HEADER_MAX - length ?h") auto
    have "CHR 0x00 \<notin> set ?h" using assms(6) by simp
    from c_string_append [OF this, of "replicate k (CHR 0x00)"] show ?thesis
      unfolding padded_def k by simp
  qed
  have u: "unat (of_nat m :: u32) = m" "unat (of_nat n :: u32) = n"
    using assms(3,4) by (simp_all add: unat_of_nat take_bit_nat_eq_self control_consts frame_consts)
  have m0: "(of_nat m :: u32) \<noteq> 0" using assms(2) u(1) by (metis less_irrefl unat_0)
  have "ev_control_parse_header (reading link now EV_CONTROL_PARSE_HEADER ?h 0 0 0 [] []) =
      (True, reading link now EV_CONTROL_PARSE_METADATA ?h m n crc [] [])"
    using assms(1,3,4) m0 by (simp add: ev_control_parse_header_def c u not_less) (simp add: reading_def)
  moreover have "feed_header 0x0a link now (reading link now EV_CONTROL_PARSE_HEADER hs 0 0 0 [] []) x =
      (let (ok, p2) = ev_control_parse_header (reading link now EV_CONTROL_PARSE_HEADER ?h 0 0 0 [] [])
       in Inr (if ok then (p2, x) else bad_frame p2 x))"
    using assms(5) padded_write [of hs EV_CONTROL_HEADER_MAX "CHR 0x00" "CHR 0x0A"] padded_end [of ?h EV_CONTROL_HEADER_MAX "CHR 0x00"]
    by (auto simp: feed_header_def length_padded Let_def reading_def char_newline)
  ultimately show ?thesis by (simp add: ev_control_parser_feed_byte_def no_timeout)
qed

definition after_metadata :: "nat \<Rightarrow> ev_control_parse_state" where
  "after_metadata n = (if n = 0 then EV_CONTROL_PARSE_EOF else EV_CONTROL_PARSE_PAYLOAD)"

lemma metadata_char:
  assumes "c \<noteq> CHR 0x00" and "length ms < m" and "m \<le> EV_CONTROL_METADATA_MAX" and "n \<le> EV_CONTROL_PAYLOAD_MAX"
  shows "ev_control_parser_feed_byte env link now (of_nat (of_char c)) (reading link now EV_CONTROL_PARSE_METADATA hs m n crc ms [], x) =
    Inr (reading link now (if length ms + 1 < m then EV_CONTROL_PARSE_METADATA else after_metadata n) hs m n crc (ms @ [c]) [], x)"
proof -
  let ?N = "EV_CONTROL_METADATA_MAX + 1"
  have w: "(padded ?N (CHR 0x00) ms)[length ms := c] = padded ?N (CHR 0x00) (ms @ [c])" using assms(2,3) by (intro padded_write) simp
  have e: "(padded ?N (CHR 0x00) (ms @ [c]))[m := CHR 0x00] = padded ?N (CHR 0x00) (ms @ [c])" if "\<not> length ms + 1 < m"
  proof -
    have m: "m = length (ms @ [c])" using that assms(2) by simp
    show ?thesis unfolding m by (rule padded_end) (use assms(2,3) in simp)
  qed
  have l: "length (padded ?N (CHR 0x00) ms) = ?N" "length (padded ?N (CHR 0x00) (ms @ [c])) = ?N"
    using assms(2,3) by (simp_all add: length_padded)
  have "feed_metadata env (of_nat (of_char c)) link now (reading link now EV_CONTROL_PARSE_METADATA hs m n crc ms []) x =
      Inr (reading link now (if length ms + 1 < m then EV_CONTROL_PARSE_METADATA else after_metadata n) hs m n crc (ms @ [c]) [], x)"
    using assms l w e
    by (auto simp: feed_metadata_def byte_special Let_def reading_def metadata_done_def after_metadata_def)
  then show ?thesis by (simp add: ev_control_parser_feed_byte_def no_timeout)
qed

lemma metadata_chars:
  "CHR 0x00 \<notin> set xs \<Longrightarrow> xs \<noteq> [] \<Longrightarrow> length ms + length xs = m \<Longrightarrow> m \<le> EV_CONTROL_METADATA_MAX \<Longrightarrow> n \<le> EV_CONTROL_PAYLOAD_MAX \<Longrightarrow>
   feed_bytes env link now (bytes_of xs @ rest) (reading link now EV_CONTROL_PARSE_METADATA hs m n crc ms [], x) =
   feed_bytes env link now rest (reading link now (after_metadata n) hs m n crc (ms @ xs) [], x)"
proof (induction xs arbitrary: ms)
  case (Cons c xs)
  have step: "ev_control_parser_feed_byte env link now (of_nat (of_char c)) (reading link now EV_CONTROL_PARSE_METADATA hs m n crc ms [], x) =
      Inr (reading link now (if length ms + 1 < m then EV_CONTROL_PARSE_METADATA else after_metadata n) hs m n crc (ms @ [c]) [], x)"
    using Cons.prems by (intro metadata_char) auto
  show ?case
  proof (cases "xs = []")
    case True
    then show ?thesis using step Cons.prems by (simp add: bytes_of_eq)
  next
    case False
    then have "length ms + 1 < m" using Cons.prems by (cases xs) auto
    then show ?thesis using False step Cons.IH [of "ms @ [c]"] Cons.prems by (simp add: bytes_of_eq)
  qed
qed simp

lemma payload_byte:
  assumes "length bs < n" and "n \<le> EV_CONTROL_PAYLOAD_MAX"
  shows "ev_control_parser_feed_byte env link now b (reading link now EV_CONTROL_PARSE_PAYLOAD hs m n crc ms bs, x) =
    Inr (reading link now (if length bs + 1 < n then EV_CONTROL_PARSE_PAYLOAD else EV_CONTROL_PARSE_EOF) hs m n crc ms (bs @ [b]), x)"
proof -
  let ?N = "EV_CONTROL_PAYLOAD_MAX + 1"
  have w: "(padded ?N 0 bs)[length bs := b] = padded ?N 0 (bs @ [b])" using assms by (intro padded_write) simp
  have l: "length (padded ?N 0 bs) = ?N" using assms by (simp add: length_padded)
  have "feed_payload b now (reading link now EV_CONTROL_PARSE_PAYLOAD hs m n crc ms bs) =
      Inr (reading link now (if length bs + 1 < n then EV_CONTROL_PARSE_PAYLOAD else EV_CONTROL_PARSE_EOF) hs m n crc ms (bs @ [b]))"
    using assms l w by (auto simp: feed_payload_def Let_def) (auto simp: reading_def set_frame_payload_def)
  then show ?thesis by (simp add: ev_control_parser_feed_byte_def no_timeout)
qed

lemma payload_bytes:
  "length bs + length xs = n \<Longrightarrow> n \<le> EV_CONTROL_PAYLOAD_MAX \<Longrightarrow>
   feed_bytes env link now (xs @ rest) (reading link now (after_metadata (length xs)) hs m n crc ms bs, x) =
   feed_bytes env link now rest (reading link now EV_CONTROL_PARSE_EOF hs m n crc ms (bs @ xs), x)"
proof (induction xs arbitrary: bs)
  case (Cons b xs)
  have step: "ev_control_parser_feed_byte env link now b (reading link now EV_CONTROL_PARSE_PAYLOAD hs m n crc ms bs, x) =
      Inr (reading link now (if length bs + 1 < n then EV_CONTROL_PARSE_PAYLOAD else EV_CONTROL_PARSE_EOF) hs m n crc ms (bs @ [b]), x)"
    using Cons.prems by (intro payload_byte) auto
  have st: "(if length bs + 1 < n then EV_CONTROL_PARSE_PAYLOAD else EV_CONTROL_PARSE_EOF) = after_metadata (length xs)"
    using Cons.prems by (auto simp: after_metadata_def)
  show ?case using Cons.IH [of "bs @ [b]"] Cons.prems step [unfolded st]
    by (simp add: after_metadata_def [of "Suc n" for n])
qed (simp add: after_metadata_def)

section \<open>A whole frame\<close>

text \<open>A frame with the given text, payload and checksum field.\<close>

definition frame_bytes :: "string \<Rightarrow> u8 list \<Rightarrow> u32 \<Rightarrow> u8 list" where
  "frame_bytes md payload crc =
     bytes_of (header_text (length md) (length payload) crc) @ bytes_of md @ payload @ [0x1F]"

lemma header_shape:
  "\<exists>hs. drop 1 (header_text m n crc) = hs @ [CHR 0x0A] \<and> CHR 0x0A \<notin> set hs \<and> CHR 0x1E \<notin> set hs \<and> CHR 0x00 \<notin> set hs \<and>
     length hs = 25 + length (decimal m) + length (decimal n) \<and> header_text m n crc = CHR 0x1E # hs @ [CHR 0x0A]"
proof -
  define hs where "hs = ''EVMUX/1 h='' @ decimal m @ '' p='' @ decimal n @ '' c='' @ HEX8 crc @ [CHR 0x0D]"
  have d: "\<not> digit (CHR 0x0A)" "\<not> digit (CHR 0x1E)" "\<not> digit (CHR 0x00)"
    by (simp_all add: digit_def less_eq_char_def)
  have dec: "CHR 0x0A \<notin> set (decimal k)" "CHR 0x1E \<notin> set (decimal k)" "CHR 0x00 \<notin> set (decimal k)" for k
    by (meson decimal_read d)+
  have hex: "CHR 0x0A \<notin> set (HEX8 crc)" "CHR 0x1E \<notin> set (HEX8 crc)" "CHR 0x00 \<notin> set (HEX8 crc)"
  proof -
    have v: "hex_value c \<noteq> None" if "c \<in> set (HEX8 crc)" for c
      using that digits8_bound [of "unat crc"] by (auto simp: HEX8_digits hex_chars_def hex_char)
    have "hex_value (CHR 0x0A) = None" "hex_value (CHR 0x1E) = None" "hex_value (CHR 0x00) = None"
      by (simp_all add: hex_value_def less_eq_char_def)
    then show "CHR 0x0A \<notin> set (HEX8 crc)" "CHR 0x1E \<notin> set (HEX8 crc)" "CHR 0x00 \<notin> set (HEX8 crc)" using v by metis+
  qed
  have "length (HEX8 crc) = 8" by (simp add: HEX8_def)
  then have "drop 1 (header_text m n crc) = hs @ [CHR 0x0A] \<and> CHR 0x0A \<notin> set hs \<and> CHR 0x1E \<notin> set hs \<and> CHR 0x00 \<notin> set hs \<and>
     length hs = 25 + length (decimal m) + length (decimal n) \<and> header_text m n crc = CHR 0x1E # hs @ [CHR 0x0A]"
    using dec hex by (simp add: header_text_def hs_def)
  then show ?thesis by blast
qed

lemma decimal_length: "n < 10 ^ k \<Longrightarrow> 0 < k \<Longrightarrow> length (decimal n) \<le> k"
proof (induction n arbitrary: k rule: decimal.induct)
  case (1 n)
  show ?case
  proof (cases "n < 10")
    case True
    then show ?thesis using 1 by (simp add: decimal.simps [of n])
  next
    case False
    then obtain i where "k = Suc (Suc i)" using 1(2,3) by (cases k; cases "k - 1") auto
    then obtain j where k: "k = Suc j" "0 < j" by blast
    then have "n div 10 < 10 ^ j" using 1(2) by (intro less_mult_imp_div_less) (simp add: mult.commute)
    then show ?thesis using 1(1) [OF False _ k(2)] False k by (subst decimal.simps) simp
  qed
qed

lemma sof_byte:
  "pa_state p = EV_CONTROL_PARSE_SOF \<Longrightarrow> ev_control_parser_feed_byte env link now 0x1e (p, x) =
    Inr (reading link now EV_CONTROL_PARSE_HEADER [] 0 0 0 [] [], x)"
  by (simp add: ev_control_parser_feed_byte_def ev_control_parser_expire_def frame_timed_out_def begin_reading)

lemma frame_run:
  assumes p: "pa_state p = EV_CONTROL_PARSE_SOF" and md: "md \<noteq> []" "length md \<le> EV_CONTROL_METADATA_MAX" "CHR 0x00 \<notin> set md"
    and n: "length payload \<le> EV_CONTROL_PAYLOAD_MAX"
  shows "\<exists>hs. feed_bytes env link now (frame_bytes md payload crc) (p, x) =
    feed_eof env 0x1F link now (reading link now EV_CONTROL_PARSE_EOF hs (length md) (length payload) crc md payload) x"
proof -
  let ?m = "length md" and ?n = "length payload"
  obtain hs where hs: "drop 1 (header_text ?m ?n crc) = hs @ [CHR 0x0A]" "CHR 0x0A \<notin> set hs" "CHR 0x1E \<notin> set hs" "CHR 0x00 \<notin> set hs"
      "length hs = 25 + length (decimal ?m) + length (decimal ?n)" "header_text ?m ?n crc = CHR 0x1E # hs @ [CHR 0x0A]"
    using header_shape by blast
  have mn: "?m < 4294967296" "?n < 4294967296" "?m < 10 ^ 3" "?n < 10 ^ 4" using md(2) n by (simp_all add: control_consts)
  have len: "length hs + 1 < EV_CONTROL_HEADER_MAX"
    using hs(5) decimal_length [OF mn(3)] decimal_length [OF mn(4)] by (simp add: control_consts)
  have scan: "scan_header (hs @ [CHR 0x0A]) = Some (of_nat ?m, of_nat ?n, crc, length hs + 1)"
    using scan_header_text [OF mn(1,2), of crc] unfolding hs(1) by simp
  have sof: "ev_control_parser_feed_byte env link now 0x1e (p, x) = Inr (reading link now EV_CONTROL_PARSE_HEADER [] 0 0 0 [] [], x)"
    by (rule sof_byte [OF p])
  have nl: "ev_control_parser_feed_byte env link now 0x0a (reading link now EV_CONTROL_PARSE_HEADER hs 0 0 0 [] [], x) =
      Inr (reading link now EV_CONTROL_PARSE_METADATA (hs @ [CHR 0x0A]) ?m ?n crc [] [], x)"
    using md n by (intro header_end [OF scan _ _ _ len hs(4)]) (simp_all add: control_consts frame_consts)
  have bytes: "frame_bytes md payload crc = 0x1e # bytes_of hs @ 0x0a # bytes_of md @ payload @ [0x1F]"
    by (simp add: frame_bytes_def hs(6) bytes_of_eq)
  have eof: "ev_control_parser_feed_byte env link now 0x1F (reading link now EV_CONTROL_PARSE_EOF h a b k ms bs, x) =
      feed_eof env 0x1F link now (reading link now EV_CONTROL_PARSE_EOF h a b k ms bs) x" for h a b k ms bs
    by (simp add: ev_control_parser_feed_byte_def no_timeout)
  have unit: "sbind r (feed_bytes env link now []) = r" for r by (cases r) simp_all
  have "feed_bytes env link now (frame_bytes md payload crc) (p, x) =
      feed_bytes env link now (bytes_of hs @ 0x0a # bytes_of md @ payload @ [0x1F]) (reading link now EV_CONTROL_PARSE_HEADER [] 0 0 0 [] [], x)"
    by (simp add: bytes sof)
  also have "\<dots> = feed_bytes env link now (0x0a # bytes_of md @ payload @ [0x1F]) (reading link now EV_CONTROL_PARSE_HEADER hs 0 0 0 [] [], x)"
    using header_chars [of hs "[]" env link now "0x0a # bytes_of md @ payload @ [0x1F]" x] hs len by force
  also have "\<dots> = feed_bytes env link now (bytes_of md @ payload @ [0x1F])
      (reading link now EV_CONTROL_PARSE_METADATA (hs @ [CHR 0x0A]) ?m ?n crc [] [], x)"
    by (simp add: nl)
  also have "\<dots> = feed_bytes env link now (payload @ [0x1F]) (reading link now (after_metadata ?n) (hs @ [CHR 0x0A]) ?m ?n crc md [], x)"
    using metadata_chars [OF md(3,1), of "[]" ?m ?n env link now "payload @ [0x1F]" "hs @ [CHR 0x0A]" crc x] md(2) n by simp
  also have "\<dots> = feed_bytes env link now [0x1F] (reading link now EV_CONTROL_PARSE_EOF (hs @ [CHR 0x0A]) ?m ?n crc md payload, x)"
    using payload_bytes [of "[]" payload ?n env link now "[0x1F]"] n by simp
  also have "\<dots> = feed_eof env 0x1F link now (reading link now EV_CONTROL_PARSE_EOF (hs @ [CHR 0x0A]) ?m ?n crc md payload) x"
    by (simp only: feed_bytes.simps(2) eof unit)
  finally show ?thesis by blast
qed

section \<open>What a frame leads to\<close>

text \<open>The parser of a link between two frames, and what a frame is to do with its text and its payload.\<close>

definition idle :: "ev_link_ref \<Rightarrow> ev_control_parser" where
  "idle link = reading link 0 EV_CONTROL_PARSE_SOF [] 0 0 0 [] []"

definition received ::
  "'r control_env \<Rightarrow> ev_link_ref \<Rightarrow> string \<Rightarrow> u8 list \<Rightarrow> 'r control \<Rightarrow> 'r control checked" where
  "received env link md payload c =
     (case ev_control_json_parse_metadata (Some md) of
        Inl _ \<Rightarrow> Inr (ev_control_log_rejected_frame c)
      | Inr m \<Rightarrow>
          if malformed m (padded (EV_CONTROL_PAYLOAD_MAX + 1) 0 payload) (length payload)
          then Inr (ev_control_log_rejected_frame c)
          else handle_request env link m (padded (EV_CONTROL_PAYLOAD_MAX + 1) 0 payload) (length payload) c)"

definition count_ok :: "'r control \<Rightarrow> 'r control" where
  "count_ok c = count_stat (\<lambda>s. s\<lparr>st_frames_ok := st_frames_ok s + 1\<rparr>) c"

definition count_stale :: "'r control \<Rightarrow> 'r control" where
  "count_stale c = count_stat (\<lambda>s. s\<lparr>st_stale_generation_drops := st_stale_generation_drops s + 1\<rparr>) c"

lemma keep_link_idle: "ev_control_parser_reset_keep_link (reading link now st hs m n crc ms bs) = idle link"
  by (simp add: ev_control_parser_reset_keep_link_def ev_control_parser_reset_def idle_def reading_def padded_def)

lemma set_payload_keep: "ev_control_parser_reset_keep_link (set_frame_payload b p) = ev_control_parser_reset_keep_link p"
  by (simp add: ev_control_parser_reset_keep_link_def ev_control_parser_reset_def set_frame_payload_def split: option.split)

lemma handle_reading:
  assumes md: "length md \<le> EV_CONTROL_METADATA_MAX" and n: "length payload \<le> EV_CONTROL_PAYLOAD_MAX"
    and s: "safe (ev_control_json_parse_metadata (Some md)) (\<lambda>_. True)"
  shows "ev_control_handle_frame env link (reading link now EV_CONTROL_PARSE_EOF hs (length md) (length payload) crc md payload) c =
    sbind (received env link md payload c)
      (\<lambda>c1. Inr (set_frame_payload (padded (EV_CONTROL_PAYLOAD_MAX + 1) 0 payload) (reading link now EV_CONTROL_PARSE_EOF hs (length md) (length payload) crc md payload), c1))"
proof -
  let ?p = "reading link now EV_CONTROL_PARSE_EOF hs (length md) (length payload) crc md payload"
  let ?b = "padded (EV_CONTROL_PAYLOAD_MAX + 1) 0 payload"
  have w: "wr ?b (length payload) 0 = Inr ?b"
    using n by (simp add: wr_def length_padded padded_end)
  have l: "length md \<le> length (padded (EV_CONTROL_METADATA_MAX + 1) (CHR 0x00) md)" using md by (simp add: length_padded)
  have f: "frame_metadata ?p = Inr (case ev_control_json_parse_metadata (Some md) of Inr m \<Rightarrow> Some m | Inl _ \<Rightarrow> None)"
    using s l by (cases "ev_control_json_parse_metadata (Some md)") (auto simp: frame_metadata_def safe_def not_less [symmetric])
  show ?thesis
    using w by (cases "ev_control_json_parse_metadata (Some md)") (simp_all add: ev_control_handle_frame_def f received_def)
qed

lemma frame_outcome:
  assumes "pa_state p = EV_CONTROL_PARSE_SOF" and "md \<noteq> []" and "length md \<le> EV_CONTROL_METADATA_MAX"
    and "CHR 0x00 \<notin> set md" and "length payload \<le> EV_CONTROL_PAYLOAD_MAX"
  shows "feed_bytes env link now (frame_bytes md payload crc) (p, c) =
    (if crc \<noteq> 0 \<and> ev_mux_crc32 payload \<noteq> crc then Inr (idle link, count_bad c)
     else if ev_transport_link_is_current (w_transport (co_world c)) (Some link)
     then sbind (received env link md payload (count_ok c)) (\<lambda>c1. Inr (idle link, c1))
     else Inr (idle link, count_stale (count_ok c)))"
proof -
  obtain hs where run: "feed_bytes env link now (frame_bytes md payload crc) (p, c) =
      feed_eof env 0x1F link now (reading link now EV_CONTROL_PARSE_EOF hs (length md) (length payload) crc md payload) c"
    using frame_run [OF assms] by blast
  let ?p = "reading link now EV_CONTROL_PARSE_EOF hs (length md) (length payload) crc md payload"
  have s: "safe (ev_control_json_parse_metadata (Some md)) (\<lambda>_. True)" by (rule parse_metadata_safe)
  note h = handle_reading [OF assms(3,5) s]
  have i: "frame_intact ?p = Inr (crc = 0 \<or> ev_mux_crc32 payload = crc)"
    using assms(5) by (simp add: frame_intact_def length_padded)
  have w: "w_transport (co_world (count_ok c)) = w_transport (co_world c)" by (simp add: count_ok_def count_stat_def)
  show ?thesis
    unfolding run feed_eof_def
    by (simp add: i Let_def count_ok_def [symmetric] w h sbind_assoc set_payload_keep keep_link_idle bad_frame_def
        count_stale_def [symmetric] if_distrib [where f = "\<lambda>m. sbind m f" for f])
qed

text \<open>
  Property C21: a frame in the format of the transmitter is received exactly: whatever its text, its payload
  and the checksum in its header, the receiver acts as \<open>received\<close> says, and once, if the checksum is that of
  the payload or zero and the link is current; otherwise nothing but a counter changes. The parser is
  ready for the next frame.
\<close>

theorem frame_is_received:
  assumes "pa_state p = EV_CONTROL_PARSE_SOF" and "md \<noteq> []" and "length md \<le> EV_CONTROL_METADATA_MAX"
    and "CHR 0x00 \<notin> set md" and "length payload \<le> EV_CONTROL_PAYLOAD_MAX"
  shows "feed_bytes env link now (frame_bytes md payload crc) (p, c) =
    (if crc \<noteq> 0 \<and> ev_mux_crc32 payload \<noteq> crc then Inr (idle link, count_bad c)
     else if ev_transport_link_is_current (w_transport (co_world c)) (Some link)
     then sbind (received env link md payload (count_ok c)) (\<lambda>c1. Inr (idle link, c1))
     else Inr (idle link, count_stale (count_ok c)))"
  by (rule frame_outcome [OF assms])

lemma wire_frame:
  "length (payload_of special slab q f) = fr_payload_len f \<Longrightarrow>
   wire_bytes special slab q f =
     frame_bytes (fr_metadata f) (payload_of special slab q f) (ev_mux_crc32 (payload_of special slab q f))"
  by (simp add: wire_bytes_def frame_bytes_def)


definition count_timeout :: "'r control \<Rightarrow> 'r control" where
  "count_timeout c = count_stat (\<lambda>s. s\<lparr>st_parser_timeouts := st_parser_timeouts s + 1\<rparr>) c"

lemma frame_after_timeout:
  assumes "frame_timed_out now p"
  shows "feed_bytes env link now (frame_bytes md payload crc) (p, c) =
    feed_bytes env link now (frame_bytes md payload crc) (idle link, count_timeout c)"
proof -
  obtain bs where b: "frame_bytes md payload crc = 0x1e # bs"
    using header_shape [of "length md" "length payload" crc] by (auto simp: frame_bytes_def bytes_of_eq)
  have "ev_control_parser_feed_byte env link now 0x1e (p, c) =
      ev_control_parser_feed_byte env link now 0x1e (idle link, count_timeout c)"
  proof -
    have i: "pa_state (idle link) = EV_CONTROL_PARSE_SOF" by (simp add: idle_def)
    show ?thesis
      using assms by (simp only: sof_byte [OF i]) (simp add: ev_control_parser_feed_byte_def ev_control_parser_expire_def begin_reading count_timeout_def)
  qed
  then show ?thesis by (simp add: b)
qed

text \<open>
  A frame that was cut off does not block its link: once three seconds have passed without a
  byte, the next frame is received as if the parser had been idle, whatever state it was in.
\<close>

theorem link_recovers_from_a_broken_frame:
  assumes "pa_state p \<noteq> EV_CONTROL_PARSE_SOF" and "3000 \<le> now - pa_last_progress_ms p"
    and "md \<noteq> []" and "length md \<le> EV_CONTROL_METADATA_MAX" and "CHR 0x00 \<notin> set md"
    and "length payload \<le> EV_CONTROL_PAYLOAD_MAX"
    and "ev_transport_link_is_current (w_transport (co_world c)) (Some link)"
  shows "feed_bytes env link now (frame_bytes md payload (ev_mux_crc32 payload)) (p, c) =
    sbind (received env link md payload (count_ok (count_timeout c))) (\<lambda>c1. Inr (idle link, c1))"
proof -
  have t: "frame_timed_out now p"
    using assms(1,2) by (simp add: frame_timed_out_def EV_CONTROL_FRAME_IDLE_TIMEOUT_MS_def not_less)
  have i: "pa_state (idle link) = EV_CONTROL_PARSE_SOF" by (simp add: idle_def)
  have w: "w_transport (co_world (count_timeout c)) = w_transport (co_world c)" by (simp add: count_timeout_def count_stat_def)
  show ?thesis
    unfolding frame_after_timeout [OF t] frame_outcome [OF i assms(3-6)] using assms(7) by (simp add: w)
qed

section \<open>Who is served\<close>

text \<open>The session lets a request of this link through the checks of the owner.\<close>

definition owner_request :: "session \<Rightarrow> ev_link_ref \<Rightarrow> ev_control_json_metadata \<Rightarrow> bool" where
  "owner_request s link md \<longleftrightarrow> ss_state s = EV_SESSION_OWNED \<and> ss_owner_link s = link \<and>
     md_has_session_id md \<and> md_session_id md = ss_session_id s \<and> ss_handshake_complete s"

lemma authorize_stranger:
  assumes "\<not> owner_request (w_session (co_world c)) link md"
    and "authorize env (Some link) (if md_has_session_id md then Some (md_session_id md) else None) vr he ve c = (r, snap, c1)"
  shows "r \<noteq> EV_SESSION_RESULT_OK \<and> c1 = c"
proof -
  let ?s = "w_session (co_world c)"
  have "fst (ev_session_check_owner_locked ?s (Some link) (if md_has_session_id md then Some (md_session_id md) else None) now o0)
      \<noteq> EV_SESSION_RESULT_OK" for now o0
    using assms(1) by (cases "ss_state ?s") (auto simp: owner_request_def ev_session_check_owner_locked_def)
  then show ?thesis
    using assms(2)
    by (auto simp: authorize_def ev_session_authorize_def Let_def split: if_split_asm prod.split_asm)
      (metis fst_conv)+
qed

text \<open>
  Property C24: a request of anyone but the owner reaches no handler. Apart from hello, capabilities and
  the preview subscriptions, a request on another link, without the identifier of the session or
  before the handshake leads to an error response or a counter; the session, its lease and the queues
  are as before.
\<close>

theorem stranger_gets_no_service:
  assumes "\<not> owner_request (w_session (co_world c)) link md"
    and "\<not> ev_control_is_bootstrap_method (md_channel md) (md_method md)"
    and "\<not> (md_channel md = ''user.rpc'' \<and> (md_method md = ''preview.subscribe'' \<or> md_method md = ''preview.unsubscribe''))"
    and "md_method md \<noteq> ''hello''"
  shows "handle_request env link md buffer n c = Inr (ev_control_response_context_clear
      (ev_control_log_rejected_frame (request_context link md c))) \<or>
    (\<exists>result snap. result \<noteq> EV_SESSION_RESULT_OK \<and>
      handle_request env link md buffer n c = Inr (answer_unauthorized env link md result snap (request_context link md c)))"
proof -
  let ?c = "request_context link md c"
  have w: "\<not> owner_request (w_session (co_world ?c)) link md"
    using assms(1) by (simp add: request_context_def on_response_def)
  have h: "handle_request env link md buffer n c =
      (case ev_control_frame_authorized env link (md_channel md) (md_method md) md (c_string (chars buffer)) n ?c of
         None \<Rightarrow> Inr (ev_control_response_context_clear (ev_control_log_rejected_frame ?c))
       | Some (result, snap, c1) \<Rightarrow>
           if result \<noteq> EV_SESSION_RESULT_OK then Inr (answer_unauthorized env link md result snap c1)
           else dispatch_authorized env link md snap buffer n c1)"
    unfolding handle_request_def Let_def using assms(2-4) by (simp only: if_False simp_thms)
  show ?thesis
  proof (cases "ev_control_frame_authorized env link (md_channel md) (md_method md) md (c_string (chars buffer)) n ?c")
    case None
    then show ?thesis using h by simp
  next
    case (Some t)
    obtain r snap c1 where t: "t = (r, snap, c1)" by (cases t)
    have "r \<noteq> EV_SESSION_RESULT_OK \<and> c1 = ?c"
      using Some assms(2) authorize_stranger [OF w]
      by (auto simp: t ev_control_frame_authorized_def Let_def split: if_split_asm)
    then show ?thesis using h Some t by auto
  qed
qed

end
