(* ===== verification/ControlHelloProps.thy ===== *)
theory ControlHelloProps
  imports ControlScriptProps ControlReceive
begin

text \<open>
  The session follows its responses: the client that \<open>hello\<close> admits has the session only if the response is
  queued, and the completion of the response ends the handshake or the session.
\<close>

section \<open>The completion of a queued frame\<close>

lemma prepared_completion:
  assumes "ev_mux_prepare_frame t baud now order f (Some o1) md ml n el ticket = (True, f', order')"
  shows "fr_completion f' = op_completion o1 \<and>
    fr_completion_context f' = (if op_completion_context_len o1 = 0 then []
      else take (op_completion_context_len o1) (the (op_completion_context o1))) \<and>
    fr_link f' = the (op_link o1) \<and> fr_session_id f' = (case op_session_id o1 of None \<Rightarrow> [] | Some s \<Rightarrow> s)"
  using assms unfolding ev_mux_prepare_frame_def ev_mux_copy_options_def ev_mux_build_header_def
  by (auto simp: Let_def split: if_split_asm option.splits prod.splits)

lemma reserved_completion:
  "ev_mux_tcp_reserve m f n = (r, f', m') \<Longrightarrow> fr_completion f' = fr_completion f \<and>
     fr_completion_context f' = fr_completion_context f \<and> fr_link f' = fr_link f \<and> fr_session_id f' = fr_session_id f"
  unfolding ev_mux_tcp_reserve_def by (auto simp: Let_def split: if_split_asm)

lemma allocated_completion:
  "ev_mux_allocate_blocks m q f n = (r, f', q', m') \<Longrightarrow> fr_completion f' = fr_completion f \<and>
     fr_completion_context f' = fr_completion_context f \<and> fr_link f' = fr_link f \<and> fr_session_id f' = fr_session_id f"
  unfolding ev_mux_allocate_blocks_def by (auto simp: Let_def split: if_split_asm option.splits prod.splits)

text \<open>What a submission leaves in the queue.\<close>

definition queued_with :: "ev_mux_submit_options \<Rightarrow> ev_mux_frame \<Rightarrow> bool" where
  "queued_with o1 f \<longleftrightarrow> fr_completion f = op_completion o1 \<and>
    fr_completion_context f = (if op_completion_context_len o1 = 0 then []
      else take (op_completion_context_len o1) (the (op_completion_context o1))) \<and>
    fr_link f = the (op_link o1) \<and> fr_session_id f = (case op_session_id o1 of None \<Rightarrow> [] | Some s \<Rightarrow> s)"

lemma enqueued_completion:
  assumes inv: "mux_inv m" and wf: "mux_wf m"
    and run: "ev_mux_enqueue_normal t baud now locked m o1 md (length md) payload ticket rr = (ESP_OK, m')"
  shows "\<exists>p f. frame_at m p = None \<and> frame_at m' = (frame_at m)(p := Some f) \<and> queued_with o1 f"
  using run inv order_refl
proof (cases rule: enqueue_cases)
  case failed
  then show ?thesis by simp
next
  case (accepted ti i f0 order f1 m2 f2 q2 m3)
  let ?q = "mx_targets m ! ti" and ?el = "encoded_length (length md) (length payload)"
  let ?F = "f2\<lparr>fr_frame_timeout_ms := ev_mux_frame_timeout baud (the (op_link o1)) ?el, fr_used := True\<rparr>"
  have b: "ti < 6" "i < 8" "\<not> fr_used (tq_frames ?q ! i)"
    using target_index_bound [OF accepted(2)] frame_slot [OF accepted(5)] by auto
  have f1: "same_frames m m2" "queued_with o1 f1"
    using accepted(7) prepared_completion [OF accepted(6)] reserve_frames reserved_completion
    by (fastforce simp: queued_with_def same_frames_def split: if_splits)+
  note al = allocate_frames [OF accepted(8)] allocated_completion [OF accepted(8)]
  have q: "queued_with o1 ?F"
    using f1(2) al by (simp add: queued_with_def)
  have m3: "same_frames m m3"
    using same_frames_trans [OF f1(1)] al by blast
  let ?slab = "if length payload = 0 then mx_slab m3 else ev_mux_arena_copy_in q2 ?F payload (mx_slab m3)"
  have m3': "same_frames m (m3\<lparr>mx_slab := ?slab\<rparr>)"
    using m3 by (simp add: same_frames_def)
  have wf3: "mux_wf (m3\<lparr>mx_slab := ?slab\<rparr>)"
    using same_frames_gentle [OF m3'] wf by (simp add: gentle_def)
  have t3: "mx_targets (m3\<lparr>mx_slab := ?slab\<rparr>) = mx_targets m"
    using m3' by (simp add: same_frames_def)
  show ?thesis
  proof (intro exI conjI)
    show "frame_at m (Queue_place ti i) = None"
      using b by (simp add: frame_at_def)
    show "frame_at m' = (frame_at m)(Queue_place ti i := Some ?F)"
      unfolding accepted(9) accepted_state_def Let_def
      using set_target_live(2) [OF b(1,2) wf3, of _ ?F] t3 al same_frames_live [OF m3'] by auto
    show "queued_with o1 ?F" by (rule q)
  qed
qed

lemma submitted_completion:
  assumes inv: "mux_inv m" and wf: "mux_wf m"
    and run: "ev_mux_submit_link ready t baud now locked m (Some o1) (Some md) (Some payload) n out = (ESP_OK, out', m')"
  shows "\<exists>p f. frame_at m p = None \<and> frame_at m' = (frame_at m)(p := Some f) \<and> queued_with o1 f"
proof -
  obtain ts rr ticket where e: "ev_mux_enqueue_normal t baud now locked (m\<lparr>mx_tickets := ts\<rparr>) o1 md (length md) (take n payload)
      ticket rr = (ESP_OK, m')"
  proof (cases out)
    case None
    then show ?thesis
      using run that [of "mx_tickets m"] unfolding ev_mux_submit_link_def by (auto simp: Let_def split: if_split_asm prod.splits)
  next
    case (Some x)
    then show ?thesis
      using run that unfolding ev_mux_submit_link_def by (auto simp: Let_def split: if_split_asm prod.splits)
  qed
  have "same_frames m (m\<lparr>mx_tickets := ts\<rparr>)"
    by (simp add: same_frames_def)
  then have "frame_at (m\<lparr>mx_tickets := ts\<rparr>) = frame_at m" "mux_wf (m\<lparr>mx_tickets := ts\<rparr>)" "mux_inv (m\<lparr>mx_tickets := ts\<rparr>)"
    using wf inv same_frames_live same_accounts_inv [OF same_accounts_tickets(1)] by (auto simp: mux_wf_def)
  then show ?thesis
    using enqueued_completion [OF _ _ e] by simp
qed

text \<open>The state of the transmitter that the handlers find.\<close>

definition mux_ready_state :: "('f, 'h) serving \<Rightarrow> bool" where
  "mux_ready_state c \<longleftrightarrow> mux_inv (pf_mux (co_rest c)) \<and> mux_wf (pf_mux (co_rest c))"

text \<open>A response that is accepted is queued with the completion that was set for it.\<close>

lemma response_completion:
  assumes "mux_ready_state c" and "ev_control_send_rpc_with_seq env ''rsp'' method1 payload seq c = (ESP_OK, c')"
  shows "\<exists>p f. frame_at (pf_mux (co_rest c)) p = None \<and> frame_at (pf_mux (co_rest c')) = (frame_at (pf_mux (co_rest c)))(p := Some f) \<and>
    fr_completion f = (if rc_completion (co_response c) then Some EV_CONTROL_TX_COMPLETE else None) \<and>
    fr_completion_context f = take (rc_completion_context_len (co_response c)) (tx_context_bytes (pf_tx_context (co_rest c))) \<and>
    fr_link f = rc_link (co_response c) \<and> fr_session_id f = rc_session_id (co_response c)"
proof -
  let ?r = "co_response c"
  let ?who = "if rc_session_id ?r \<noteq> [] then Some (rc_session_id ?r, rc_vm_epoch ?r) else None"
  let ?tx = "if rc_session_id ?r \<noteq> [] then rc_tx_vm_epoch ?r else 0"
  let ?o1 = "submit_options (rc_link ?r) ''rsp'' method1 ?who ?tx c"
  have d: "pf_mux (co_rest (drop_completion c)) = pf_mux (co_rest c)"
    by (simp add: drop_completion_def on_response_def)
  obtain md where sub: "mux_submit env ?o1 md payload (drop_completion c) = (ESP_OK, c')"
    using assms(2) unfolding ev_control_send_rpc_with_seq_def ev_control_send_rpc_with_domain_def ev_control_submit_rpc_link_def
    by (auto simp: Let_def split: if_split_asm)
  obtain out out' m' where go: "ev_mux_submit_link (he_mux_ready env (drop_completion c)) (w_transport (co_world (drop_completion c)))
        (ev_transport_uart_baudrate (he_board env) (ub_hw (pf_uart (co_rest (drop_completion c)))))
        (now_ms env (drop_completion c)) (he_queue_lock env (drop_completion c)) (pf_mux (co_rest c)) (Some ?o1) (Some md)
        (Some (text_bytes payload)) (length payload) out = (ESP_OK, out', m')"
      and m': "pf_mux (co_rest c') = m'"
    using sub d unfolding mux_submit_def by (auto simp: Let_def on_platform_def split: prod.splits)
  from submitted_completion [OF _ _ go] assms(1)
  obtain p f where f: "frame_at (pf_mux (co_rest c)) p = None" "frame_at m' = (frame_at (pf_mux (co_rest c)))(p := Some f)"
      "queued_with ?o1 f"
    by (auto simp: mux_ready_state_def)
  have "fr_completion f = (if rc_completion ?r then Some EV_CONTROL_TX_COMPLETE else None) \<and>
    fr_completion_context f = take (rc_completion_context_len ?r) (tx_context_bytes (pf_tx_context (co_rest c))) \<and>
    fr_link f = rc_link ?r \<and> fr_session_id f = rc_session_id ?r"
    using f(3) by (simp add: queued_with_def submit_options_def)
  then show ?thesis
    using f(1,2) m' by blast
qed

section \<open>The context of a completion\<close>

lemma lower_hex_not_nul: "lower_hex c \<Longrightarrow> c \<noteq> CHR 0x00"
  by (auto simp: lower_hex_def)

lemma char_of_byte [simp]: "char_of (unat (of_char c :: u8)) = c"
  using byte_of_char [of c] by (simp add: of_nat_of_char)

lemma context_roundtrip:
  assumes "nonce_ok (tc_value t)"
  shows "tx_context_of (tx_context_bytes t) = t" "length (tx_context_bytes t) = TX_CONTEXT_SIZE"
proof -
  have len: "length (tc_value t) = 32" and nz: "CHR 0x00 \<notin> set (tc_value t)"
    using assms lower_hex_not_nul by (auto simp: nonce_ok_def list_all_iff)
  have z: "char_of (0 :: nat) = CHR 0x00"
    by (simp add: char_of_def)
  have c: "chars (map of_char (tc_value t) @ [0]) = tc_value t @ [CHR 0x00]"
    by (simp add: chars_def comp_def z)
  show "tx_context_of (tx_context_bytes t) = t"
    using len c_string_append [OF nz, of "[]"] c by (simp add: tx_context_of_def tx_context_bytes_def EV_SESSION_ID_HEX_LEN_def)
  show "length (tx_context_bytes t) = TX_CONTEXT_SIZE"
    using len by (simp add: tx_context_bytes_def TX_CONTEXT_SIZE_def EV_SESSION_ID_HEX_LEN_def)
qed

section \<open>The owner\<close>

abbreviation session_of :: "('f, 'h) serving \<Rightarrow> session" where
  "session_of c \<equiv> w_session (co_world c)"

definition owns :: "session \<Rightarrow> ev_link_ref \<Rightarrow> cstring \<Rightarrow> bool" where
  "owns s link sid \<longleftrightarrow> ss_state s = EV_SESSION_OWNED \<and> ss_owner_link s = link \<and> ss_session_id s = sid"

lemma answered_session: "answered c c' \<Longrightarrow> co_world c' = co_world c"
  by (simp add: answered_def)

text \<open>A handshake that fails ends the session; one that succeeds is complete.\<close>

lemma failed_hello:
  assumes "owns (session_of c) link sid"
  shows "ss_state (session_of (hello_complete env link sid False c)) = EV_SESSION_FREE"
  using assms by (simp add: hello_complete_def with_world_def ev_session_hello_complete_def ev_session_clear_owner_def
      clear_owner_locked_cases owns_def Let_def drop_owner_session)

lemma successful_hello:
  assumes "owns (session_of c) link sid"
  shows "owns (session_of (hello_complete env link sid True c)) link sid \<and>
    ss_handshake_complete (session_of (hello_complete env link sid True c))"
  using assms by (auto simp: hello_complete_def with_world_def ev_session_hello_complete_def hello_complete_locked_def
      owns_def Let_def split: prod.split option.split)

text \<open>The completion of the response of \<open>hello\<close>.\<close>

definition hello_context :: "cstring \<Rightarrow> u8 list" where
  "hello_context sid = tx_context_bytes \<lparr>tc_kind = EV_CONTROL_TX_DONE_HELLO, tc_value = sid\<rparr>"

lemma hello_done:
  assumes "nonce_ok sid"
  shows "ev_control_tx_complete env result link (hello_context sid) c = Some (hello_complete env link sid (result = ESP_OK) c)"
proof -
  let ?t = "\<lparr>tc_kind = EV_CONTROL_TX_DONE_HELLO, tc_value = sid\<rparr>"
  have rt: "tx_context_of (hello_context sid) = ?t" "length (hello_context sid) = TX_CONTEXT_SIZE"
    using context_roundtrip [of ?t] assms by (simp_all add: hello_context_def)
  show ?thesis
    unfolding ev_control_tx_complete_def
    by (subst run_completed.simps) (simp add: rt tx_done_def tx_done_consts run_completed.simps [of env "[]"])
qed

text \<open>
  The response is queued for the owner, and its completion, whenever it is called while the session lasts, ends
  the handshake or the session.
\<close>

definition hello_pending :: "('f, 'h) handler_env \<Rightarrow> ('f, 'h) serving \<Rightarrow> ev_link_ref \<Rightarrow> cstring \<Rightarrow> bool" where
  "hello_pending env c link sid \<longleftrightarrow> owns (session_of c) link sid \<and>
     (\<exists>p f. frame_at (pf_mux (co_rest c)) p = Some f \<and> fr_link f = link \<and> fr_session_id f = sid \<and>
        fr_completion f = Some EV_CONTROL_TX_COMPLETE \<and>
        (\<forall>result later. owns (session_of later) link sid \<longrightarrow>
           (\<exists>done1. ev_control_tx_complete env result link (fr_completion_context f) later = Some done1 \<and>
              (if result = ESP_OK then owns (session_of done1) link sid \<and> ss_handshake_complete (session_of done1)
               else ss_state (session_of done1) = EV_SESSION_FREE))))"

lemma completion_settles:
  assumes "nonce_ok sid" "owns (session_of later) link sid"
  shows "\<exists>done1. ev_control_tx_complete env result link (hello_context sid) later = Some done1 \<and>
    (if result = ESP_OK then owns (session_of done1) link sid \<and> ss_handshake_complete (session_of done1)
     else ss_state (session_of done1) = EV_SESSION_FREE)"
  by (cases "result = ESP_OK") (simp_all add: hello_done [OF assms(1)] successful_hello [OF assms(2)] failed_hello [OF assms(2)])

lemma granted_hello:
  assumes ready: "mux_ready_state c" and own: "owns (session_of c) (rc_link (co_response c)) (sn_session_id snap)"
    and sid: "nonce_ok (sn_session_id snap)" and go: "hello_granted env seq snap c = (ret, c')"
  shows "ret \<noteq> ESP_OK \<and> ss_state (session_of c') = EV_SESSION_FREE \<or>
    ret = ESP_OK \<and> hello_pending env c' (rc_link (co_response c)) (sn_session_id snap)"
proof (cases "768 \<le> length (session_payload env snap)")
  case True
  then show ?thesis
    using go failed_hello [OF own] by (auto simp: hello_granted_def Let_def)
next
  case False
  let ?sid = "sn_session_id snap" and ?link = "rc_link (co_response c)"
  define c1 where "c1 = on_response (\<lambda>r. r\<lparr>rc_session_id := ?sid, rc_vm_epoch := sn_vm_epoch snap\<rparr>) c"
  define c2 where "c2 = snd (ev_control_set_completion EV_CONTROL_TX_DONE_HELLO (Some ?sid) c1)"
  have len: "length ?sid = 32"
    using sid by (simp add: nonce_ok_def)
  have c2: "co_response c2 = (co_response c)\<lparr>rc_session_id := ?sid, rc_vm_epoch := sn_vm_epoch snap, rc_completion := True,
        rc_completion_context_len := TX_CONTEXT_SIZE\<rparr>" "co_world c2 = co_world c"
      "pf_mux (co_rest c2) = pf_mux (co_rest c)"
      "pf_tx_context (co_rest c2) = \<lparr>tc_kind = EV_CONTROL_TX_DONE_HELLO, tc_value = ?sid\<rparr>"
    using len by (simp_all add: c2_def c1_def ev_control_set_completion_def on_response_def on_platform_def
        EV_CONTROL_TX_DONE_HELLO_def EV_SESSION_ID_HEX_LEN_def)
  obtain r c3 where send: "ev_control_send_rpc_with_seq env ''rsp'' ''hello'' (session_payload env snap) seq c2 = (r, c3)"
    by (cases "ev_control_send_rpc_with_seq env ''rsp'' ''hello'' (session_payload env snap) seq c2")
  have out: "ret = r" "c' = (if r \<noteq> ESP_OK then hello_complete env ?link ?sid False (drop_completion c3) else c3)"
    using go False send unfolding hello_granted_def Let_def c2_def c1_def
    by (cases "r = ESP_OK"; simp split: prod.splits)+
  have w3: "co_world c3 = co_world c"
    using answered_rsp [of c2 env "''hello''" "session_payload env snap" seq] send c2(2) by (simp add: answered_def)
  show ?thesis
  proof (cases "r = ESP_OK")
    case True
    obtain p f where now3: "frame_at (pf_mux (co_rest c3)) = (frame_at (pf_mux (co_rest c)))(p := Some f)"
        and f: "fr_completion f = Some EV_CONTROL_TX_COMPLETE" "fr_completion_context f = hello_context ?sid"
          "fr_link f = ?link" "fr_session_id f = ?sid"
      using response_completion [of c2 env "''hello''" "session_payload env snap" seq c3] ready send True c2
        context_roundtrip(2) [of "\<lparr>tc_kind = EV_CONTROL_TX_DONE_HELLO, tc_value = ?sid\<rparr>"] sid
      by (auto simp: mux_ready_state_def hello_context_def)
    have at: "frame_at (pf_mux (co_rest c3)) p = Some f"
      using now3 by simp
    have settles: "\<forall>result later. owns (session_of later) ?link ?sid \<longrightarrow>
        (\<exists>done1. ev_control_tx_complete env result ?link (fr_completion_context f) later = Some done1 \<and>
           (if result = ESP_OK then owns (session_of done1) ?link ?sid \<and> ss_handshake_complete (session_of done1)
            else ss_state (session_of done1) = EV_SESSION_FREE))"
      unfolding f(2) by (intro allI impI completion_settles [OF sid])
    have "owns (session_of c3) ?link ?sid"
      using own w3 by simp
    then have "hello_pending env c3 ?link ?sid"
      unfolding hello_pending_def using at f(1,3,4) settles by blast
    then show ?thesis
      using out True by simp
  next
    case False
    have "owns (session_of (drop_completion c3)) ?link ?sid"
      using own w3 by (simp add: drop_completion_def on_response_def)
    then show ?thesis
      using out False failed_hello by simp
  qed
qed

section \<open>Acquiring the session\<close>

text \<open>
  \<open>calm env\<close>: while the request is served, no other task changes the session, and closing a socket does not.
\<close>

definition calm :: "('f, 'h) handler_env \<Rightarrow> bool" where
  "calm env \<longleftrightarrow> (\<forall>w. w_session (he_acquire_others env w) = w_session w) \<and>
     (\<forall>l c. session_of (he_tcp_close env l c) = session_of c)"

lemma applied_session [simp]: "w_session (snd (ev_session_apply_route b w snap)) = w_session w"
  by (simp add: ev_session_apply_route_def apply_route_commit_def Let_def split_beta)

lemma acquire_outcome:
  assumes inv: "session_inv (w_session w)" and calm: "\<And>v. w_session (mid v) = w_session v"
    and go: "ev_session_acquire b rnd timer mid w (Some l) (Some n) now (Some x) = (result, snap, w')"
  shows "result = EV_SESSION_RESULT_OK \<Longrightarrow>
      owns (w_session w') l (sn_session_id (the snap)) \<and> nonce_ok (sn_session_id (the snap))"
    "result \<noteq> EV_SESSION_RESULT_OK \<Longrightarrow> w_session w' = w_session w \<or> ss_state (w_session w') = EV_SESSION_FREE"
proof -
  have id32: "nonce_ok (ev_session_make_id rnd)"
    using make_id_valid [of rnd] by (simp add: nonce_ok_def)
  have owned: "ss_state (w_session w) \<noteq> EV_SESSION_FREE \<Longrightarrow> nonce_ok (ss_session_id (w_session w))"
    using inv by (simp add: session_inv_def)
  have lock: "ss_session_id s' = sn_session_id (the a) \<and> ss_state s' = EV_SESSION_OWNED \<and> ss_owner_link s' = l \<and>
      nonce_ok (ss_session_id s')"
    if "acquire_locked rnd (w_session w) l n now = ((EV_SESSION_RESULT_OK, acq, a), s')" for acq a s'
    using that id32 owned
    by (simp add: acquire_locked_def Let_def ev_session_snapshot_locked_def split: if_split_asm)
      (elim conjE; hypsubst; simp)+
  have no: "s' = w_session w" if "acquire_locked rnd (w_session w) l n now = ((r, acq, a), s')" "r \<noteq> EV_SESSION_RESULT_OK" for r acq a s'
    using that by (simp add: acquire_locked_def Let_def split: if_split_asm)
  have lost: "ss_state (w_session (snd (ev_session_link_lost b timer v (Some l) reason))) = EV_SESSION_FREE"
    if "ss_state (w_session v) = EV_SESSION_OWNED" "ss_owner_link (w_session v) = l" for v reason
    using that by (simp add: ev_session_link_lost_def ev_session_clear_owner_def clear_owner_locked_cases Let_def drop_owner_session)
  obtain r acq a s' where locked: "acquire_locked rnd (w_session w) l n now = ((r, acq, a), s')"
    by (metis prod.collapse)
  let ?w1 = "w\<lparr>w_session := s'\<rparr>"
  have eq: "(result, snap, w') =
      (if \<not> ev_session_hex_nonce_valid (Some n) then (EV_SESSION_RESULT_INVALID_ARGUMENT, Some x, w)
       else if \<not> ev_transport_link_is_current (w_transport w) (Some l) then (EV_SESSION_RESULT_STALE_LINK, Some x, w)
       else if r \<noteq> EV_SESSION_RESULT_OK then (r, if a = None then Some x else a, ?w1)
       else if \<not> ev_transport_link_is_current (w_transport (mid ?w1)) (Some l)
       then (EV_SESSION_RESULT_STALE_LINK, a, snd (ev_session_link_lost b timer (mid ?w1) (Some l) EV_SESSION_CHANGE_LINK_LOST))
       else if acq then (EV_SESSION_RESULT_OK, a, snd (ev_session_apply_route b (mid ?w1) (the a)))
       else (EV_SESSION_RESULT_OK, a, mid ?w1))"
    unfolding go [symmetric] by (simp add: ev_session_acquire_def locked Let_def)
  have mid1: "w_session (mid ?w1) = s'"
    by (simp add: calm)
  have out: "(result = EV_SESSION_RESULT_OK \<longrightarrow>
      owns (w_session w') l (sn_session_id (the snap)) \<and> nonce_ok (sn_session_id (the snap))) \<and>
    (result \<noteq> EV_SESSION_RESULT_OK \<longrightarrow> w_session w' = w_session w \<or> ss_state (w_session w') = EV_SESSION_FREE)"
  proof (cases "r = EV_SESSION_RESULT_OK")
    case True
    have own: "ss_session_id s' = sn_session_id (the a)" "ss_state s' = EV_SESSION_OWNED" "ss_owner_link s' = l"
        "nonce_ok (ss_session_id s')"
      using lock [OF locked [unfolded True]] by auto
    show ?thesis
      using eq True own mid1 lost [of "mid ?w1" EV_SESSION_CHANGE_LINK_LOST] by (simp add: owns_def split: if_split_asm)
  next
    case False
    show ?thesis
      using eq False no [OF locked False] by (simp split: if_split_asm)
  qed
  then show "result = EV_SESSION_RESULT_OK \<Longrightarrow>
      owns (w_session w') l (sn_session_id (the snap)) \<and> nonce_ok (sn_session_id (the snap))"
    "result \<noteq> EV_SESSION_RESULT_OK \<Longrightarrow> w_session w' = w_session w \<or> ss_state (w_session w') = EV_SESSION_FREE"
    by simp_all
qed

lemma busy_session:
  assumes "calm env"
  shows "session_of (snd (hello_busy env seq snap c)) = session_of c"
proof -
  have send: "co_world (snd (ev_control_send_rpc_with_seq env ''rsp'' m p seq d)) = co_world d" for m p d
    by (rule answered_session [OF answered_rsp])
  have close1: "session_of (close_link env l d) = session_of d" for l d
    using assms by (simp add: close_link_def with_world_def calm_def Let_def split: prod.split option.split)
  have set1: "co_world (snd (ev_control_set_completion k v d)) = co_world d" for k v d
    by (simp add: ev_control_set_completion_def on_response_def on_platform_def split: option.split)
  show ?thesis
    unfolding hello_busy_def Let_def
    by (simp add: split_beta send close1 set1)
qed

text \<open>
  Property C37: a request \<open>hello\<close> leaves the session as it was, or leaves the device free, or the client owns the
  device and its response is queued, and then the completion of that response ends the handshake if it was sent
  and the session otherwise. No client is left in possession of a device without having been told.
\<close>

theorem hello_settles_the_session:
  assumes "calm env" "mux_ready_state c" "session_inv (session_of c)"
    and "ev_control_send_hello_acquire env seq request c = (ret, c')"
  shows "session_of c' = session_of c \<or> ss_state (session_of c') = EV_SESSION_FREE \<or>
    (ret = ESP_OK \<and> (\<exists>sid. hello_pending env c' (rc_link (co_response c)) sid))"
proof -
  have err: "session_of (snd (ev_control_send_error env m seq k t d)) = session_of d" for m k t d
    using answered_session [OF answered_error] by metis
  have disc: "session_of (snd (ev_control_send_hello_discovery env seq c)) = session_of c"
    unfolding ev_control_send_hello_discovery_def
    by (simp add: Let_def split_beta err answered_session [OF answered_rsp])
  have c': "c' = snd (ev_control_send_hello_acquire env seq request c)" "ret = fst (ev_control_send_hello_acquire env seq request c)"
    using assms(4) by simp_all
  show ?thesis
  proof (cases "ev_control_json_parse_hello (Some request)")
    case (Inl e)
    then show ?thesis
      using c' err by (simp add: ev_control_send_hello_acquire_def)
  next
    case (Inr hello)
    show ?thesis
    proof (cases "he_acquire hello \<and> he_has_ev_mux_version hello \<and> he_ev_mux_version hello = 4 \<and> he_has_client_nonce hello")
      case False
      then show ?thesis
        using c' Inr err disc by (auto simp: ev_control_send_hello_acquire_def split: if_split)
    next
      case True
      obtain result snap w where acq: "ev_session_acquire (he_board env) (he_random env c) (now_ms env c) (he_acquire_others env)
            (co_world c) (Some (rc_link (co_response c))) (Some (he_client_nonce hello)) (now_ms env c)
            (Some (ce_stack (he_control env))) = (result, snap, w)"
        by (metis prod.collapse)
      let ?c1 = "with_world w c"
      have quiet: "\<And>v. w_session (he_acquire_others env v) = w_session v"
        using assms(1) by (simp add: calm_def)
      note out = acquire_outcome [OF assms(3) quiet acq]
      have eq: "ev_control_send_hello_acquire env seq request c =
          (if result = EV_SESSION_RESULT_BUSY then hello_busy env seq (the snap) ?c1
           else if result \<noteq> EV_SESSION_RESULT_OK
           then ev_control_send_error env ''hello'' seq (ev_session_result_code result) ''could not acquire session'' ?c1
           else hello_granted env seq (the snap) ?c1)"
        using Inr True acq by (simp add: ev_control_send_hello_acquire_def Let_def)
      have c1: "session_of ?c1 = w_session w" "co_response ?c1 = co_response c" "mux_ready_state ?c1"
        using assms(2) by (simp_all add: with_world_def mux_ready_state_def)
      show ?thesis
      proof (cases "result = EV_SESSION_RESULT_OK")
        case True
        obtain r d where g: "hello_granted env seq (the snap) ?c1 = (r, d)"
          by (cases "hello_granted env seq (the snap) ?c1")
        have "owns (session_of ?c1) (rc_link (co_response ?c1)) (sn_session_id (the snap))" "nonce_ok (sn_session_id (the snap))"
          using out(1) [OF True] c1 by simp_all
        from granted_hello [OF c1(3) this g] show ?thesis
          using c' eq True g c1(2) by auto
      next
        case False
        then have "session_of c' = w_session w"
          using c'(1) eq err busy_session [OF assms(1)] c1(1) by simp
        then show ?thesis
          using out(2) [OF False] by auto
      qed
    qed
  qed
qed

end
