(* ===== verification/ControlReleaseProps.thy ===== *)
theory ControlReleaseProps
  imports ControlHelloProps
begin

text \<open>
  The end of a session: a release takes the queued frames of the client away, whose completions may run in turn;
  this ends, and the device is free.
\<close>

section \<open>Frames that a cancellation takes away\<close>

definition live_places :: "mux \<Rightarrow> place set" where
  "live_places m = {p. frame_at m p \<noteq> None}"

text \<open>\<open>m'\<close> has fewer frames than \<open>m\<close>, and really fewer if completions are due.\<close>

definition drained :: "'a list \<Rightarrow> mux \<Rightarrow> mux \<Rightarrow> bool" where
  "drained calls m m' \<longleftrightarrow> (mux_wf m \<longrightarrow> mux_wf m' \<and> live_places m' \<subseteq> live_places m \<and> (calls \<noteq> [] \<longrightarrow> live_places m' \<noteq> live_places m))"

lemma drained_none [simp]: "drained [] m m"
  by (simp add: drained_def)

lemma drained_trans:
  assumes "drained cs m m1" "drained ds m1 m2" "es \<noteq> [] \<longrightarrow> cs \<noteq> [] \<or> ds \<noteq> []"
  shows "drained es m m2"
  using assms unfolding drained_def by blast

lemma drained_one:
  assumes "frame_at m p \<noteq> None" "mux_wf m \<Longrightarrow> mux_wf m1 \<and> frame_at m1 = (frame_at m)(p := None)"
  shows "drained [x] m m1"
  using assms by (auto simp: drained_def live_places_def)

lemma finite_live_places: "finite (live_places m)"
proof (rule finite_subset)
  show "live_places m \<subseteq> case_prod Queue_place ` ({..<6} \<times> {..<8}) \<union> (Special_place ` (Preview_frame ` {..<6} \<union> {Large_frame}))"
  proof
    fix p
    assume "p \<in> live_places m"
    then have "frame_at m p \<noteq> None"
      by (simp add: live_places_def)
    then show "p \<in> case_prod Queue_place ` ({..<6} \<times> {..<8}) \<union> (Special_place ` (Preview_frame ` {..<6} \<union> {Large_frame}))"
      by (cases p) (auto simp: frame_at_def image_iff split: special_ref.splits if_split_asm)
  qed
qed simp

lemma cancel_specials_drained:
  "list_all valid_special rs \<Longrightarrow> drained (fst (cancel_specials matches rs m)) m (snd (cancel_specials matches rs m))"
proof (induction rs arbitrary: m)
  case Nil
  then show ?case by simp
next
  case (Cons r rs)
  obtain c m1 where c: "ev_mux_special_release_locked m r ESP_ERR_INVALID_STATE = (c, m1)" by fastforce
  obtain cs m2 where cs: "cancel_specials matches rs m1 = (cs, m2)" by fastforce
  have ih: "drained cs m1 m2" "drained (fst (cancel_specials matches rs m)) m (snd (cancel_specials matches rs m))"
    using Cons.IH [of m1] Cons.IH [of m] Cons.prems cs by simp_all
  have one: "drained [the c] m m1" if "sp_used (get_special m r)"
    using that Cons.prems release_live [of m r m1 ESP_ERR_INVALID_STATE] c
    by (intro drained_one [where p = "Special_place r"]) (simp_all add: live_special)
  have "drained (the c # cs) m m2" if "sp_used (get_special m r)"
    by (rule drained_trans [OF one [OF that] ih(1)]) simp
  then show ?case
    using ih(2) c cs by (simp add: Let_def)
qed

lemma cancel_frames_drained:
  "ti < 6 \<Longrightarrow> set is \<subseteq> {..<8} \<Longrightarrow> drained (fst (cancel_frames matches ti is m)) m (snd (cancel_frames matches ti is m))"
proof (induction "is" arbitrary: m)
  case Nil
  then show ?case by simp
next
  case (Cons i "is")
  obtain c m1 where c: "cancel_frame m ti i = (c, m1)" by fastforce
  obtain cs m2 where cs: "cancel_frames matches ti is m1 = (cs, m2)" by fastforce
  have ih: "drained cs m1 m2" "drained (fst (cancel_frames matches ti is m)) m (snd (cancel_frames matches ti is m))"
    using Cons.IH [of m1] Cons.IH [of m] Cons.prems cs by simp_all
  have one: "drained [c] m m1" if "fr_used (tq_frames (mx_targets m ! ti) ! i)"
    using that Cons.prems leaves_queue [OF _ Cons.prems(1) _ cancel_left, of m i] c
    by (intro drained_one [where p = "Queue_place ti i"]) (simp_all add: frame_at_def)
  have "drained (c # cs) m m2" if "fr_used (tq_frames (mx_targets m ! ti) ! i)"
    by (rule drained_trans [OF one [OF that] ih(1)]) simp
  then show ?case
    using ih(2) c cs by (simp add: Let_def)
qed

lemma cancel_targets_drained:
  "set ts \<subseteq> {..<6} \<Longrightarrow> drained (fst (cancel_targets locks e v l s ts m)) m (snd (cancel_targets locks e v l s ts m))"
proof (induction ts arbitrary: m)
  case Nil
  then show ?case by simp
next
  case (Cons ti ts)
  obtain cs m1 where cs: "(if locks ti then ev_mux_cancel_target_frames m ti e v l s else ([], m)) = (cs, m1)" by fastforce
  obtain ds m2 where ds: "cancel_targets locks e v l s ts m1 = (ds, m2)" by fastforce
  have "drained cs m m1"
    using cs cancel_frames_drained [of ti "[0..<8]" "frame_matches e v l s" m] Cons.prems
    by (auto simp: ev_mux_cancel_target_frames_def EV_MUX_QUEUE_FRAMES_def lessThan_atLeast0 split: if_split_asm)
  moreover have "drained ds m1 m2"
    using Cons.IH [of m1] Cons.prems ds by simp
  ultimately show ?case
    using cs ds by (simp add: Let_def) (erule drained_trans, assumption, auto simp: run_completions_def)
qed

lemma cancel_session_drained:
  assumes "ev_mux_cancel_session ready sl locks m link sid = (calls, m')"
  shows "drained calls m m'"
proof -
  let ?rs = "map Preview_frame [0..<EV_MUX_PREVIEW_FRAMES] @ [Large_frame]"
  have rs: "list_all valid_special ?rs"
    by (auto simp: list_all_iff valid_special_def special_consts)
  obtain cs m1 where cs: "ev_mux_cancel_special_frames m False 0 link sid = (cs, m1)" by fastforce
  obtain ds m2 where ds: "cancel_targets locks False 0 link sid [0..<EV_MUX_TARGET_COUNT] m1 = (ds, m2)" by fastforce
  have "drained cs m m1"
    using cancel_specials_drained [OF rs, of "frame_matches False 0 link sid" m] cs
    by (simp add: ev_mux_cancel_special_frames_def)
  moreover have "drained ds m1 m2"
    using cancel_targets_drained [OF six_targets, of locks False 0 link sid m1] ds by simp
  ultimately have "drained (run_completions cs @ ds) m m2"
    by (rule drained_trans) (auto simp: run_completions_def)
  then show ?thesis
    using assms cs ds by (auto simp: ev_mux_cancel_session_def cancel_frames_everywhere_def split: if_split_asm)
qed

section \<open>What completions do\<close>

abbreviation mux_of :: "('f, 'h) serving \<Rightarrow> mux" where
  "mux_of c \<equiv> pf_mux (co_rest c)"

text \<open>
  \<open>stable env\<close>: closing a socket and starting a network operation neither queue frames nor touch the session.
\<close>

definition stable :: "('f, 'h) handler_env \<Rightarrow> bool" where
  "stable env \<longleftrightarrow>
     (\<forall>l c. session_of (he_tcp_close env l c) = session_of c \<and> mux_of (he_tcp_close env l c) = mux_of c) \<and>
     (\<forall>v c. session_of (he_network_sent env v c) = session_of c \<and> mux_of (he_network_sent env v c) = mux_of c)"

text \<open>The session is being released by this client, or is over.\<close>

definition leaving :: "ev_link_ref \<Rightarrow> cstring \<Rightarrow> ('f, 'h) serving \<Rightarrow> bool" where
  "leaving link sid c \<longleftrightarrow> ss_state (session_of c) = EV_SESSION_FREE \<or>
     ss_state (session_of c) = EV_SESSION_RELEASING \<and> ss_owner_link (session_of c) = link \<and> ss_session_id (session_of c) = sid"

text \<open>What a step of the completions keeps.\<close>

definition undisturbed :: "('f, 'h) serving \<Rightarrow> ('f, 'h) serving \<Rightarrow> bool" where
  "undisturbed c c' \<longleftrightarrow> (mux_wf (mux_of c) \<longrightarrow> mux_wf (mux_of c') \<and> live_places (mux_of c') \<subseteq> live_places (mux_of c)) \<and>
     (\<forall>link sid. leaving link sid c \<longrightarrow> leaving link sid c')"

lemma undisturbed_refl [simp]: "undisturbed c c"
  by (simp add: undisturbed_def)

lemma undisturbed_trans: "undisturbed c c1 \<Longrightarrow> undisturbed c1 c2 \<Longrightarrow> undisturbed c c2"
  unfolding undisturbed_def by blast

lemma undisturbed_same: "mux_of c' = mux_of c \<Longrightarrow> session_of c' = session_of c \<Longrightarrow> undisturbed c c'"
  by (simp add: undisturbed_def leaving_def)

lemma cleared_leaving:
  assumes "leaving link sid c"
  shows "leaving link sid (with_world (snd (ev_session_clear_owner b timer (co_world c) l reason r i)) c)"
  using assms by (auto simp: leaving_def with_world_def ev_session_clear_owner_def clear_owner_locked_cases Let_def drop_owner_session)

lemma release_finish_undisturbed: "undisturbed c (release_finish env link sid c)"
  using cleared_leaving
  by (auto simp: undisturbed_def release_finish_def ev_session_release_finish_def) (simp_all add: with_world_def)

lemma hello_complete_undisturbed: "undisturbed c (hello_complete env link sid ok c)"
proof (cases ok)
  case True
  then show ?thesis
    by (auto simp: undisturbed_def hello_complete_def with_world_def leaving_def ev_session_hello_complete_def
        hello_complete_locked_def Let_def split: prod.split option.split)
next
  case False
  then show ?thesis
    using cleared_leaving [of _ _ c] by (auto simp: undisturbed_def hello_complete_def ev_session_hello_complete_def)
      (simp_all add: with_world_def)
qed

lemma tx_done_undisturbed:
  assumes "stable env"
  shows "undisturbed c (tx_done env result link t c)"
proof -
  have close1: "undisturbed c (close_link env link c)"
    using assms by (intro undisturbed_same) (simp_all add: close_link_def with_world_def stable_def Let_def split: prod.split option.split)
  have net: "undisturbed c (he_network_sent env v c)" for v
    using assms by (intro undisturbed_same) (simp_all add: stable_def)
  have uart: "undisturbed c (on_uart g c)" for g
  proof -
    have m: "mux_of (on_uart g c) = (mux_of c)\<lparr>mx_uart_paused := ub_paused (g (pf_uart (co_rest c)))\<rparr>"
        "session_of (on_uart g c) = session_of c"
      by (simp_all add: on_uart_def on_platform_def ev_mux_uart_pause_def Let_def)
    have "same_frames (mux_of c) (mux_of (on_uart g c))"
      by (simp add: m same_frames_def)
    then have "live_places (mux_of (on_uart g c)) = live_places (mux_of c)" "mux_wf (mux_of c) \<longrightarrow> mux_wf (mux_of (on_uart g c))"
      using same_frames_live same_frames_gentle by (auto simp: live_places_def gentle_def)
    then show ?thesis
      using m(2) by (simp add: undisturbed_def leaving_def)
  qed
  show ?thesis
    by (simp add: tx_done_def hello_complete_undisturbed close1 net uart)
qed

lemma released_free:
  assumes "leaving link sid c"
  shows "ss_state (session_of (release_finish env link sid c)) = EV_SESSION_FREE"
  using assms by (auto simp: leaving_def release_finish_def with_world_def ev_session_release_finish_def ev_session_clear_owner_def
      clear_owner_locked_cases Let_def drop_owner_session)

section \<open>Completions end\<close>

lemma run_completed_step:
  "run_completed env ((callback, result, link, context1) # rest) c =
     (let t = tx_context_of context1
      in if length context1 < TX_CONTEXT_SIZE then run_completed env rest c
         else if tc_kind t = EV_CONTROL_TX_DONE_RELEASE
         then Option.bind (run_completed env (fst (cancel_session env link (tc_value t) c)) (snd (cancel_session env link (tc_value t) c)))
           (\<lambda>c2. run_completed env rest (release_finish env link (tc_value t) c2))
         else run_completed env rest (tx_done env result link t c))"
  by (subst run_completed.simps) (simp add: Let_def split_beta)

lemma run_completed_nil: "run_completed env [] c = Some c"
  by (subst run_completed.simps) simp

lemma cancel_session_undisturbed:
  assumes "cancel_session env link sid c = (calls, c1)"
  shows "undisturbed c c1" "mux_wf (mux_of c) \<Longrightarrow> calls \<noteq> [] \<Longrightarrow> card (live_places (mux_of c1)) < card (live_places (mux_of c))"
proof -
  obtain m where m: "ev_mux_cancel_session (he_mux_ready env c) (he_special_lock env c) (he_cancel_locks env c) (mux_of c)
      (Some link) (Some sid) = (calls, m)" and c1: "c1 = on_platform (\<lambda>p. p\<lparr>pf_mux := m\<rparr>) c"
    using assms by (auto simp: cancel_session_def split: prod.splits)
  have same: "mux_of c1 = m" "session_of c1 = session_of c"
    by (simp_all add: c1 on_platform_def)
  note d = cancel_session_drained [OF m]
  show "undisturbed c c1"
    using d same by (auto simp: undisturbed_def drained_def leaving_def)
  show "mux_wf (mux_of c) \<Longrightarrow> calls \<noteq> [] \<Longrightarrow> card (live_places (mux_of c1)) < card (live_places (mux_of c))"
    using d same finite_live_places psubset_card_mono [of "live_places (mux_of c)" "live_places m"] by (auto simp: drained_def)
qed

lemma run_completed_returns:
  assumes stable: "stable env"
  shows "mux_wf (mux_of c) \<Longrightarrow> \<exists>c'. run_completed env calls c = Some c' \<and> undisturbed c c'"
proof (induction "card (live_places (mux_of c))" arbitrary: calls c rule: less_induct)
  case less
  define n where "n = card (live_places (mux_of c))"
  have bound: "card (live_places (mux_of c)) \<le> n" and wf: "mux_wf (mux_of c)"
    using less.prems by (simp_all add: n_def)
  have outer: "mux_wf (mux_of d) \<Longrightarrow> card (live_places (mux_of d)) < n \<Longrightarrow> \<exists>d'. run_completed env ks d = Some d' \<and> undisturbed d d'" for ks d
    using less.hyps unfolding n_def by blast
  show ?case
    using bound wf
  proof (induction calls arbitrary: c)
    case Nil
    then show ?case
      by (simp add: run_completed_nil)
  next
    case (Cons call rest)
    obtain callback result link context1 where call: "call = (callback, result, link, context1)"
      by (cases call)
    let ?t = "tx_context_of context1"
    have inner: "\<exists>c'. run_completed env rest d = Some c' \<and> undisturbed c c'" if "undisturbed c d" for d
    proof -
      have "mux_wf (mux_of d)" "live_places (mux_of d) \<subseteq> live_places (mux_of c)"
        using that Cons.prems(2) by (simp_all add: undisturbed_def)
      then have "card (live_places (mux_of d)) \<le> n" "mux_wf (mux_of d)"
        using Cons.prems(1) card_mono [OF finite_live_places] by (blast intro: le_trans)+
      from Cons.IH [OF this] show ?thesis
        using that undisturbed_trans by blast
    qed
    show ?case
    proof (cases "\<not> length context1 < TX_CONTEXT_SIZE \<and> tc_kind ?t = EV_CONTROL_TX_DONE_RELEASE")
      case False
      then show ?thesis
        using inner [OF undisturbed_refl] inner [OF tx_done_undisturbed [OF stable]] unfolding call run_completed_step Let_def by auto
    next
      case True
      obtain more c1 where more: "cancel_session env link (tc_value ?t) c = (more, c1)"
        by (cases "cancel_session env link (tc_value ?t) c")
      note cs = cancel_session_undisturbed [OF more]
      have "\<exists>c2. run_completed env more c1 = Some c2 \<and> undisturbed c1 c2"
      proof (cases "more = []")
        case True
        then show ?thesis
          by (simp add: run_completed_nil)
      next
        case False
        have "mux_wf (mux_of c1)" "card (live_places (mux_of c1)) < n"
          using cs Cons.prems False by (auto simp: undisturbed_def)
        then show ?thesis
          by (rule outer)
      qed
      then obtain c2 where c2: "run_completed env more c1 = Some c2" "undisturbed c1 c2"
        by blast
      have "undisturbed c (release_finish env link (tc_value ?t) c2)"
        using cs(1) c2(2) release_finish_undisturbed undisturbed_trans by blast
      from inner [OF this] show ?thesis
        using True more c2(1) unfolding call run_completed_step Let_def by auto
    qed
  qed
qed

section \<open>The release\<close>

definition release_context :: "cstring \<Rightarrow> u8 list" where
  "release_context sid = tx_context_bytes \<lparr>tc_kind = EV_CONTROL_TX_DONE_RELEASE, tc_value = sid\<rparr>"

lemma release_done:
  assumes "stable env" "nonce_ok sid" "mux_wf (mux_of later)" "leaving link sid later"
  shows "\<exists>done1. ev_control_tx_complete env result link (release_context sid) later = Some done1 \<and>
    ss_state (session_of done1) = EV_SESSION_FREE"
proof -
  let ?t = "\<lparr>tc_kind = EV_CONTROL_TX_DONE_RELEASE, tc_value = sid\<rparr>"
  have rt: "tx_context_of (release_context sid) = ?t" "length (release_context sid) = TX_CONTEXT_SIZE"
    using context_roundtrip [of ?t] assms(2) by (simp_all add: release_context_def)
  obtain more c1 where more: "cancel_session env link sid later = (more, c1)"
    by (cases "cancel_session env link sid later")
  note cs = cancel_session_undisturbed(1) [OF more]
  have "mux_wf (mux_of c1)"
    using cs assms(3) by (simp add: undisturbed_def)
  from run_completed_returns [OF assms(1) this, of more]
  obtain c2 where c2: "run_completed env more c1 = Some c2" "undisturbed c1 c2"
    by blast
  have "leaving link sid c2"
    using cs c2(2) assms(4) by (simp add: undisturbed_def)
  then have "ss_state (session_of (release_finish env link sid c2)) = EV_SESSION_FREE"
    by (rule released_free)
  then show ?thesis
    unfolding ev_control_tx_complete_def run_completed_step using rt more c2(1) by (simp add: run_completed_nil Let_def)
qed

text \<open>
  The client releases the device, its response is queued, and the completion of the response, whenever it is called
  while the session is being released, ends it.
\<close>

definition release_pending :: "('f, 'h) handler_env \<Rightarrow> ('f, 'h) serving \<Rightarrow> ev_link_ref \<Rightarrow> cstring \<Rightarrow> bool" where
  "release_pending env c link sid \<longleftrightarrow> ss_state (session_of c) = EV_SESSION_RELEASING \<and> leaving link sid c \<and>
     (\<exists>p f. frame_at (mux_of c) p = Some f \<and> fr_link f = link \<and> fr_session_id f = sid \<and>
        fr_completion f = Some EV_CONTROL_TX_COMPLETE \<and>
        (\<forall>result later. mux_wf (mux_of later) \<longrightarrow> leaving link sid later \<longrightarrow>
           (\<exists>done1. ev_control_tx_complete env result link (fr_completion_context f) later = Some done1 \<and>
              ss_state (session_of done1) = EV_SESSION_FREE)))"

lemma release_prepared:
  assumes "session_inv s" "ev_session_release_prepare t s timer (Some link) (Some sid) (Some x) = (result, snap, s')"
  shows "result \<noteq> EV_SESSION_RESULT_OK \<Longrightarrow> s' = s"
    "result = EV_SESSION_RESULT_OK \<Longrightarrow> ss_state s' = EV_SESSION_RELEASING \<and> ss_owner_link s' = link \<and>
       ss_session_id s' = sid \<and> sn_session_id (the snap) = sid \<and> nonce_ok sid"
  using assms unfolding ev_session_release_prepare_def
  by (auto simp: Let_def ev_session_snapshot_locked_def session_inv_def split: if_split_asm)


end
