(* ===== verification/ControlTaskProps.thy ===== *)
theory ControlTaskProps
  imports ControlTask ControlReleaseProps
begin

text \<open>
  What the task of the transport makes of the USB connection: the bytes it reads belong to the present connection
  of the host, and a new connection retires the link, its owner and the frame that was being received.
\<close>

section \<open>The link of the USB connection\<close>

abbreviation transport_of :: "('f, 'h, 'd) pump \<Rightarrow> transport" where
  "transport_of t \<equiv> w_transport (pump_world t)"

abbreviation usb_slot :: "('f, 'h, 'd) pump \<Rightarrow> ev_transport_link_state" where
  "usb_slot t \<equiv> s_links (transport_of t) EV_TRANSPORT_USB 0"

definition usb_open :: "('f, 'h, 'd) pump \<Rightarrow> bool" where
  "usb_open t \<longleftrightarrow> s_supported (transport_of t) EV_TRANSPORT_USB \<and> ls_open (usb_slot t)"

definition owned_by :: "('f, 'h, 'd) pump \<Rightarrow> ev_link_ref \<Rightarrow> bool" where
  "owned_by t l \<longleftrightarrow> ss_state (session_of (pm_control t)) \<noteq> EV_SESSION_FREE \<and> ss_owner_link (session_of (pm_control t)) = l"

definition usb_link :: "u32 \<Rightarrow> ev_link_ref" where
  "usb_link g = \<lparr>lr_transport_id = EV_TRANSPORT_USB, lr_slot = 0, lr_generation = g\<rparr>"

lemma usb_link_sel [simp]:
  "lr_transport_id (usb_link g) = EV_TRANSPORT_USB" "lr_slot (usb_link g) = 0" "lr_generation (usb_link g) = g"
  "slot_of (usb_link g) = (EV_TRANSPORT_USB, 0)"
  by (simp_all add: usb_link_def slot_of_def)

lemma usb_valid [simp]: "ev_transport_valid_slot EV_TRANSPORT_USB k \<longleftrightarrow> k = 0"
  by (simp add: ev_transport_valid_slot_def EV_TRANSPORT_PHYSICAL_SLOT_def)

lemma usb_current:
  "lr_transport_id l = EV_TRANSPORT_USB \<Longrightarrow> ev_transport_link_is_current (transport_of t) (Some l) \<longleftrightarrow>
     usb_open t \<and> l = usb_link (ls_generation (usb_slot t))"
  by (cases l) (auto simp: link_current_iff usb_open_def usb_link_def)

lemma usb_link_ref_eq: "usb_link_ref t = (usb_open t, if usb_open t then usb_link (ls_generation (usb_slot t)) else zero_link)"
  by (simp add: usb_link_ref_def ev_transport_link_ref_def ev_transport_id_supported_def usb_open_def usb_link_def
      EV_TRANSPORT_PHYSICAL_SLOT_def)

lemma next_generation_ne:
  "ev_transport_next_generation g \<noteq> g" "ev_transport_next_generation (ev_transport_next_generation g) \<noteq> g"
proof -
  have two: "g + 1 + 1 = g + 2" by simp
  have "g = - 1" if "g + 1 = 0" using that by (simp add: eq_neg_iff_add_eq_0)
  moreover have "g = - 2" if "g + 2 = 0" using that by (simp add: eq_neg_iff_add_eq_0)
  ultimately show "ev_transport_next_generation g \<noteq> g" "ev_transport_next_generation (ev_transport_next_generation g) \<noteq> g"
    by (auto simp: ev_transport_next_generation_def Let_def two)
qed

text \<open>A USB owner that is lost leaves the registry of links alone.\<close>

lemma lost_usb_links:
  assumes "lr_transport_id l = EV_TRANSPORT_USB"
  shows "s_links (w_transport (snd (ev_session_link_lost b timer w (Some l) r))) = s_links (w_transport w)"
    and "s_supported (w_transport (snd (ev_session_link_lost b timer w (Some l) r))) = s_supported (w_transport w)"
    and "s_transport_ready (w_transport (snd (ev_session_link_lost b timer w (Some l) r))) = s_transport_ready (w_transport w)"
proof -
  have fin: "s_links (w_transport (finish_route_job b w' j)) = s_links (w_transport w')"
    "s_supported (w_transport (finish_route_job b w' j)) = s_supported (w_transport w')"
    "s_transport_ready (w_transport (finish_route_job b w' j)) = s_transport_ready (w_transport w')" for w' j
    by (auto simp: finish_route_job_def ev_session_apply_route_def ev_session_notify_change_def
        apply_route_commit_def Let_def split_beta ev_transport_set_owner_def split: option.splits)
  have "w_transport (drop_owner_locked b w l) = w_transport w"
    using assms by (simp add: drop_owner_locked_def serial_rotates_def Let_def)
  then show "s_links (w_transport (snd (ev_session_link_lost b timer w (Some l) r))) = s_links (w_transport w)"
    "s_supported (w_transport (snd (ev_session_link_lost b timer w (Some l) r))) = s_supported (w_transport w)"
    "s_transport_ready (w_transport (snd (ev_session_link_lost b timer w (Some l) r))) = s_transport_ready (w_transport w)"
    by (auto simp: ev_session_link_lost_def ev_session_clear_owner_def clear_owner_locked_cases Let_def fin)
qed

lemma lost_session:
  "ss_state (w_session (snd (ev_session_link_lost b timer w (Some l) r))) = EV_SESSION_FREE \<or>
   w_session (snd (ev_session_link_lost b timer w (Some l) r)) = w_session w \<and>
     (ss_state (w_session w) = EV_SESSION_FREE \<or> ss_owner_link (w_session w) \<noteq> l)"
  by (auto simp: ev_session_link_lost_def ev_session_clear_owner_def clear_owner_locked_cases Let_def)

text \<open>\<open>retired n t t'\<close>: the link of the USB connection went through \<open>n\<close> generations, and nobody owns the old one.\<close>

definition kept :: "('f, 'h, 'd) pump \<Rightarrow> ('f, 'h, 'd) pump \<Rightarrow> bool" where
  "kept t t' \<longleftrightarrow> s_supported (transport_of t') = s_supported (transport_of t) \<and>
     s_serial_io_lock (transport_of t') = s_serial_io_lock (transport_of t) \<and> pm_cdc t' = pm_cdc t \<and> pm_usb t' = pm_usb t"

definition unowned :: "('f, 'h, 'd) pump \<Rightarrow> ('f, 'h, 'd) pump \<Rightarrow> bool" where
  "unowned t t' \<longleftrightarrow> (\<forall>l. owned_by t' l \<longrightarrow> owned_by t l \<and> (usb_open t \<longrightarrow> l \<noteq> usb_link (ls_generation (usb_slot t))))"

abbreviation fresh_parser :: "('f, 'h, 'd) pump \<Rightarrow> ('f, 'h, 'd) pump \<Rightarrow> bool" where
  "fresh_parser t t' \<equiv> pm_parsers t' = (pm_parsers t)[1 := ev_control_parser_reset (pm_parsers t ! 1)]"

lemma usb_index [simp]: "transport_value EV_TRANSPORT_USB = 1"
  by simp

lemma lose_link_effect:
  fixes env :: "('f, 'h, 'd) pump_env"
  assumes "usb_open t"
  defines "t' \<equiv> lose_link env (usb_link (ls_generation (usb_slot t))) t"
  shows "kept t t'" "s_links (transport_of t') = s_links (transport_of t)" "usb_open t'"
    "s_transport_ready (transport_of t') = s_transport_ready (transport_of t)" "unowned t t'" "pm_parsers t' = pm_parsers t"
  using assms(1) lost_session [of "he_board (pe_handlers env)" "pump_now env t" "pump_world t" "usb_link (ls_generation (usb_slot t))"
      EV_SESSION_CHANGE_LINK_LOST]
  by (auto simp: t'_def kept_def lose_link_def on_pump_world_def pump_world_def with_world_def lost_usb_links usb_open_def
      unowned_def owned_by_def)

lemma close_effect:
  assumes "s_serial_io_lock (transport_of t) EV_TRANSPORT_USB"
  shows "kept t (ev_control_transport_cdc_close env t)" "unowned t (ev_control_transport_cdc_close env t)"
    "fresh_parser t (ev_control_transport_cdc_close env t)"
    "\<not> usb_open (ev_control_transport_cdc_close env t)"
    "usb_open t \<Longrightarrow> ls_generation (usb_slot (ev_control_transport_cdc_close env t)) = ev_transport_next_generation (ls_generation (usb_slot t))"
proof -
  let ?l = "usb_link (ls_generation (usb_slot t))" and ?b = "he_board (pe_handlers env)"
  let ?c = "ev_control_transport_cdc_close env t"
  have *: "kept t ?c \<and> unowned t ?c \<and> fresh_parser t ?c \<and> \<not> usb_open ?c \<and>
     ls_generation (usb_slot ?c) = ev_transport_next_generation (ls_generation (usb_slot t))" if o: "usb_open t"
  proof -
    let ?t1 = "lose_link env ?l t"
    note e = lose_link_effect [OF o, of env]
    have cur: "ev_transport_link_is_current (transport_of ?t1) (Some ?l)"
      using e(2,3) by (subst usb_current) simp_all
    have tr: "transport_of ?c = fst (ev_transport_link_close ?b (transport_of ?t1) (Some ?l))"
      using o by (simp add: ev_control_transport_cdc_close_def usb_link_ref_eq on_pump_world_def pump_world_def with_world_def
          ev_control_transport_cdc_reset_parser_def reset_parser_def Let_def)
    have rest: "pm_cdc ?c = pm_cdc ?t1" "pm_usb ?c = pm_usb ?t1" "session_of (pm_control ?c) = session_of (pm_control ?t1)"
      "pm_parsers ?c = (pm_parsers ?t1)[1 := ev_control_parser_reset (pm_parsers ?t1 ! 1)]"
      using o by (simp_all add: ev_control_transport_cdc_close_def usb_link_ref_eq on_pump_world_def pump_world_def with_world_def
          ev_control_transport_cdc_reset_parser_def reset_parser_def Let_def)
    have cl: "s_links (transport_of ?c) EV_TRANSPORT_USB 0 = \<lparr>ls_generation = ev_transport_next_generation (ls_generation (usb_slot t)),
        ls_open = False\<rparr>"
      "s_supported (transport_of ?c) = s_supported (transport_of ?t1)"
      "s_serial_io_lock (transport_of ?c) = s_serial_io_lock (transport_of ?t1)"
      using cur e(1) assms by (auto simp: tr link_close_cases kept_def set_link_def Let_def)
    show ?thesis
      using cl rest e by (auto simp: kept_def unowned_def owned_by_def usb_open_def)
  qed
  have n: "kept t ?c \<and> unowned t ?c \<and> fresh_parser t ?c \<and> \<not> usb_open ?c" if "\<not> usb_open t"
    using that by (auto simp: ev_control_transport_cdc_close_def usb_link_ref_eq kept_def unowned_def owned_by_def usb_open_def
        ev_control_transport_cdc_reset_parser_def reset_parser_def pump_world_def Let_def)
  show "kept t ?c" "unowned t ?c" "fresh_parser t ?c" "\<not> usb_open ?c"
    "usb_open t \<Longrightarrow> ls_generation (usb_slot ?c) = ev_transport_next_generation (ls_generation (usb_slot t))"
    using * n by blast+
qed

lemma open_effect:
  assumes "s_serial_io_lock (transport_of t) EV_TRANSPORT_USB"
  shows "kept t (ev_control_transport_cdc_open env t)" "unowned t (ev_control_transport_cdc_open env t)"
    "usb_open (ev_control_transport_cdc_open env t) \<Longrightarrow>
       fresh_parser t (ev_control_transport_cdc_open env t) \<and>
       ls_generation (usb_slot (ev_control_transport_cdc_open env t)) = ev_transport_next_generation (ls_generation (usb_slot t))"
proof -
  let ?l = "usb_link (ls_generation (usb_slot t))" and ?b = "he_board (pe_handlers env)"
  let ?c = "ev_control_transport_cdc_open env t"
  have *: "kept t ?c \<and> unowned t ?c \<and> fresh_parser t ?c \<and>
     ls_generation (usb_slot ?c) = ev_transport_next_generation (ls_generation (usb_slot t))" if o: "usb_open t"
  proof -
    let ?t1 = "lose_link env ?l t"
    note e = lose_link_effect [OF o, of env]
    have cur: "ev_transport_link_is_current (transport_of ?t1) (Some ?l)"
      using e(2,3) by (subst usb_current) simp_all
    obtain x tr where adv: "ev_transport_link_advance_generation (transport_of ?t1) (Some ?l) (Some zero_link) = (True, x, tr)"
      and tr: "s_links tr EV_TRANSPORT_USB 0 = \<lparr>ls_generation = ev_transport_next_generation (ls_generation (usb_slot t)),
        ls_open = True\<rparr>" "s_supported tr = s_supported (transport_of ?t1)"
        "s_serial_io_lock tr = s_serial_io_lock (transport_of ?t1)"
      using cur e(1) assms by (auto simp: link_advance_cases kept_def set_link_def Let_def)
    show ?thesis
      using o adv tr e by (auto simp: ev_control_transport_cdc_open_def usb_link_ref_eq on_pump_world_def pump_world_def
          with_world_def ev_control_transport_cdc_reset_parser_def reset_parser_def Let_def kept_def unowned_def owned_by_def)
  qed
  have n: "kept t ?c \<and> unowned t ?c \<and> (usb_open ?c \<longrightarrow> fresh_parser t ?c \<and>
     ls_generation (usb_slot ?c) = ev_transport_next_generation (ls_generation (usb_slot t)))" if "\<not> usb_open t"
    using that by (auto simp: ev_control_transport_cdc_open_def usb_link_ref_eq kept_def unowned_def owned_by_def usb_open_def
        ev_control_transport_cdc_reset_parser_def reset_parser_def pump_world_def on_pump_world_def with_world_def Let_def
        ev_transport_link_open_def ev_transport_id_supported_def EV_TRANSPORT_PHYSICAL_SLOT_def set_link_def)
  show "kept t ?c" "unowned t ?c" "usb_open ?c \<Longrightarrow> fresh_parser t ?c \<and>
       ls_generation (usb_slot ?c) = ev_transport_next_generation (ls_generation (usb_slot t))"
    using * n by blast+
qed

section \<open>Following the bus\<close>

text \<open>\<open>follows before t t'\<close>: the old link is retired, and a link that is open afterwards starts with a fresh receiver.\<close>

definition retires :: "('f, 'h, 'd) pump \<Rightarrow> ('f, 'h, 'd) pump \<Rightarrow> bool" where
  "retires t t' \<longleftrightarrow>
     (usb_open t \<longrightarrow> \<not> ev_transport_link_is_current (transport_of t') (Some (usb_link (ls_generation (usb_slot t)))) \<and>
        \<not> owned_by t' (usb_link (ls_generation (usb_slot t)))) \<and>
     (usb_open t' \<longrightarrow> pm_parsers t' ! 1 = ev_control_parser_reset (pm_parsers t ! 1))"

text \<open>The registry and the receivers are all that the notions above depend on.\<close>

lemma same_control:
  assumes "pm_control t = pm_control s" "pm_parsers t = pm_parsers s"
  shows "usb_open t = usb_open s" "usb_slot t = usb_slot s" "retires t x = retires s x" "retires x t = retires x s"
    "transport_of t = transport_of s"
  using assms by (simp_all add: usb_open_def pump_world_def retires_def owned_by_def)

lemma usb_fields [simp]:
  "pm_control (clear_if_unmounted env t) = pm_control t" "pm_parsers (clear_if_unmounted env t) = pm_parsers t"
  "pm_cdc (clear_if_unmounted env t) = pm_cdc t"
  by (simp_all add: clear_if_unmounted_def on_usb_def)

lemma reset_again [simp]: "ev_control_parser_reset (ev_control_parser_reset p) = ev_control_parser_reset p"
  by (simp add: ev_control_parser_reset_def)

lemma close_retires:
  assumes "s_serial_io_lock (transport_of t) EV_TRANSPORT_USB"
  shows "retires t (ev_control_transport_cdc_close env t)"
  using close_effect [OF assms, of env] by (auto simp: retires_def usb_current unowned_def)

lemma open_retires:
  assumes "s_serial_io_lock (transport_of t) EV_TRANSPORT_USB" "1 < length (pm_parsers t)"
  shows "retires t (ev_control_transport_cdc_open env t)"
  using open_effect [OF assms(1), of env] assms(2) next_generation_ne(1) [of "ls_generation (usb_slot t)"]
  by (auto simp: retires_def usb_current unowned_def usb_link_def)

lemma reopen_retires:
  assumes "s_serial_io_lock (transport_of t) EV_TRANSPORT_USB" "1 < length (pm_parsers t)"
  shows "retires t (ev_control_transport_cdc_open env (ev_control_transport_cdc_close env t))"
proof -
  let ?c = "ev_control_transport_cdc_close env t"
  note c = close_effect [OF assms(1), of env]
  have lock: "s_serial_io_lock (transport_of ?c) EV_TRANSPORT_USB" using c(1) assms(1) by (simp add: kept_def)
  have par: "pm_parsers ?c ! 1 = ev_control_parser_reset (pm_parsers t ! 1)" "1 < length (pm_parsers ?c)"
    using c(3) assms(2) by simp_all
  have gen: "usb_open (ev_control_transport_cdc_open env ?c) \<Longrightarrow> usb_open t \<Longrightarrow>
      ls_generation (usb_slot (ev_control_transport_cdc_open env ?c)) \<noteq> ls_generation (usb_slot t)"
    using open_effect(3) [OF lock, of env] c(5) next_generation_ne(2) [of "ls_generation (usb_slot t)"] by auto
  have "unowned t (ev_control_transport_cdc_open env ?c)"
    using c(2) open_effect(2) [OF lock, of env] unfolding unowned_def by blast
  then show ?thesis
    using gen open_effect(3) [OF lock, of env] par by (auto simp: retires_def usb_current unowned_def usb_link_def)
qed

lemma rx_state_generation:
  "mp_usbd_cdc_transport_rx_state env f u = ((m, g, v), u') \<Longrightarrow> g = cs_generation (uc_rx u')"
  by (auto simp: mp_usbd_cdc_transport_rx_state_def Let_def split: prod.splits)

lemma restart_generation:
  "mp_usbd_cdc_transport_rx_restart env u = (Some g, u') \<Longrightarrow> g = cs_generation (uc_rx u')"
  by (auto simp: mp_usbd_cdc_transport_rx_restart_def Let_def split: prod.splits if_split_asm)

definition in_step :: "('f, 'h, 'd) pump \<Rightarrow> bool" where
  "in_step t \<longleftrightarrow> (usb_open t \<longrightarrow> cl_generation (pm_cdc t) = cs_generation (uc_rx (pm_usb t)))"

lemma first_follows:
  assumes "s_serial_io_lock (transport_of t) EV_TRANSPORT_USB" "1 < length (pm_parsers t)" "g = cs_generation (uc_rx (pm_usb t))"
    "link_open = usb_open t"
  shows "in_step (cdc_first env mounted g link_open t) \<and> retires t (cdc_first env mounted g link_open t)"
proof -
  let ?t = "t\<lparr>pm_cdc := \<lparr>cl_known = True, cl_mounted = mounted, cl_generation = g\<rparr>\<rparr>"
  note s = same_control [of ?t t, simplified]
  have l: "s_serial_io_lock (transport_of ?t) EV_TRANSPORT_USB" "1 < length (pm_parsers ?t)" using assms s by simp_all
  consider "mounted" | "\<not> mounted" "usb_open t" | "\<not> mounted" "\<not> usb_open t" by blast
  then show ?thesis
  proof cases
    case 1
    then show ?thesis
      using open_effect(1) [OF l(1), of env] open_retires [OF l, of env] assms(3) s
      by (simp add: cdc_first_def in_step_def kept_def)
  next
    case 2
    then show ?thesis
      using close_effect(1,4) [OF l(1), of env] close_retires [OF l(1), of env] assms(4) s
      by (simp add: cdc_first_def in_step_def same_control [of "clear_if_unmounted env _"])
  next
    case 3
    then show ?thesis
      using assms(4) s by (simp add: cdc_first_def in_step_def same_control [of "clear_if_unmounted env _"])
        (simp add: retires_def same_control [of "clear_if_unmounted env _"] s)
  qed
qed

lemma changed_follows:
  assumes "s_serial_io_lock (transport_of t) EV_TRANSPORT_USB" "1 < length (pm_parsers t)" "g = cs_generation (uc_rx (pm_usb t))"
    "link_open = usb_open t"
  shows "in_step (cdc_changed env mounted g link_open t) \<and> retires t (cdc_changed env mounted g link_open t)"
proof -
  let ?t = "t\<lparr>pm_cdc := (pm_cdc t)\<lparr>cl_mounted := mounted, cl_generation := g\<rparr>\<rparr>"
  note s = same_control [of ?t t, simplified]
  have l: "s_serial_io_lock (transport_of ?t) EV_TRANSPORT_USB" "1 < length (pm_parsers ?t)" using assms s by simp_all
  have lc: "s_serial_io_lock (transport_of (ev_control_transport_cdc_close env ?t)) EV_TRANSPORT_USB"
    using close_effect(1) [OF l(1), of env] l(1) by (simp add: kept_def)
  consider "mounted" "usb_open t" | "mounted" "\<not> usb_open t" | "\<not> mounted" "usb_open t" | "\<not> mounted" "\<not> usb_open t" by blast
  then show ?thesis
  proof cases
    case 1
    then show ?thesis
      using close_effect(1) [OF l(1), of env] open_effect(1) [OF lc, of env] reopen_retires [OF l, of env] assms(3,4) s
      by (simp add: cdc_changed_def in_step_def kept_def)
  next
    case 2
    then show ?thesis
      using open_effect(1) [OF l(1), of env] open_retires [OF l, of env] assms(3,4) s
      by (simp add: cdc_changed_def in_step_def kept_def)
  next
    case 3
    then show ?thesis
      using close_effect(1,4) [OF l(1), of env] close_retires [OF l(1), of env] assms(4) s
      by (simp add: cdc_changed_def in_step_def same_control [of "clear_if_unmounted env _"])
  next
    case 4
    then show ?thesis
      using assms(4) s by (simp add: cdc_changed_def in_step_def same_control [of "clear_if_unmounted env _"])
        (simp add: retires_def same_control [of "clear_if_unmounted env _"] s)
  qed
qed

lemma repair_follows:
  assumes "s_serial_io_lock (transport_of t) EV_TRANSPORT_USB" "1 < length (pm_parsers t)" "in_step t" "link_open = usb_open t"
  shows "in_step (cdc_repair env mounted link_open t) \<and>
    (cl_generation (pm_cdc (cdc_repair env mounted link_open t)) \<noteq> cl_generation (pm_cdc t) \<longrightarrow>
       retires t (cdc_repair env mounted link_open t))"
proof (cases "mounted \<and> \<not> usb_open t")
  case True
  obtain r u where ru: "mp_usbd_cdc_transport_rx_restart (pe_usb env) (pm_usb t) = (r, u)" by fastforce
  show ?thesis
  proof (cases r)
    case None
    then show ?thesis using True ru assms(4)
      by (simp add: cdc_repair_def in_step_def same_control [of "clear_if_unmounted env _"])
  next
    case (Some g)
    let ?t = "t\<lparr>pm_usb := u, pm_cdc := (pm_cdc t)\<lparr>cl_generation := g\<rparr>\<rparr>"
    note s = same_control [of ?t t, simplified]
    have l: "s_serial_io_lock (transport_of ?t) EV_TRANSPORT_USB" "1 < length (pm_parsers ?t)" using assms s by simp_all
    show ?thesis
      using True ru Some assms(4) open_effect(1) [OF l(1), of env] open_retires [OF l, of env] s restart_generation [of _ _ g u]
      by (simp add: cdc_repair_def in_step_def kept_def)
  qed
next
  case False
  show ?thesis
  proof (cases "\<not> mounted \<and> usb_open t")
    case True
    then show ?thesis
      using close_effect(1,4) [OF assms(1), of env] close_retires [OF assms(1), of env] assms(4)
      by (simp add: cdc_repair_def in_step_def same_control [of "clear_if_unmounted env _"])
  next
    case False2: False
    then show ?thesis using False assms(3,4) by (auto simp: cdc_repair_def)
  qed
qed

text \<open>
  Property C40: when the host connects again, nothing of the old connection survives: the link that stood for it
  is no longer current, its client does not own the device, and the receiver is at the beginning of a frame. And after
  every look at the bus the bytes that an open link reads are those of the connection that the USB stack has now.
\<close>

theorem usb_reconnect_retires_the_link:
  assumes "s_serial_io_lock (transport_of t) EV_TRANSPORT_USB" "1 < length (pm_parsers t)"
    and "t' = ev_control_transport_cdc_update env t"
  shows "(usb_open t' \<longrightarrow> cl_generation (pm_cdc t') = cs_generation (uc_rx (pm_usb t'))) \<and>
    (\<not> cl_known (pm_cdc t) \<or> cl_generation (pm_cdc t') \<noteq> cl_generation (pm_cdc t) \<longrightarrow> retires t t')"
proof -
  obtain m g v u where st: "mp_usbd_cdc_transport_rx_state (pe_usb env) (mux_enabled env t) (pm_usb t) = ((m, g, v), u)"
    by (metis prod.collapse)
  let ?t = "t\<lparr>pm_usb := u\<rparr>"
  note s = same_control [of ?t t, simplified]
  have l: "s_serial_io_lock (transport_of ?t) EV_TRANSPORT_USB" "1 < length (pm_parsers ?t)"
    and g: "g = cs_generation (uc_rx (pm_usb ?t))" using assms s rx_state_generation [OF st] by simp_all
  have t': "t' = (if \<not> cl_known (pm_cdc t) then cdc_first env (m \<and> v) g (usb_open t) ?t
      else if g \<noteq> cl_generation (pm_cdc t) \<or> (m \<and> v) \<noteq> cl_mounted (pm_cdc t) then cdc_changed env (m \<and> v) g (usb_open t) ?t
      else cdc_repair env (m \<and> v) (usb_open t) ?t)"
    by (simp add: assms(3) ev_control_transport_cdc_update_def st usb_link_ref_eq s)
  consider (first1) "\<not> cl_known (pm_cdc t)"
    | (changed) "cl_known (pm_cdc t)" "g \<noteq> cl_generation (pm_cdc t) \<or> (m \<and> v) \<noteq> cl_mounted (pm_cdc t)"
    | (repair) "cl_known (pm_cdc t)" "g = cl_generation (pm_cdc t)" "(m \<and> v) = cl_mounted (pm_cdc t)" by blast
  then have "in_step t' \<and> (\<not> cl_known (pm_cdc t) \<or> cl_generation (pm_cdc t') \<noteq> cl_generation (pm_cdc t) \<longrightarrow> retires ?t t')"
  proof cases
    case first1
    then show ?thesis using first_follows [OF l g, of "usb_open t" env "m \<and> v"] s(1) by (simp only: t' if_True) simp
  next
    case changed
    then show ?thesis using changed_follows [OF l g, of "usb_open t" env "m \<and> v"] s(1) by (simp only: t' if_True if_False not_True_eq_False) simp
  next
    case repair
    then have "in_step ?t" using g by (simp add: in_step_def)
    then show ?thesis using repair repair_follows [OF l, of "usb_open t" env "m \<and> v"] s(1) unfolding t' by simp
  qed
  then show ?thesis unfolding in_step_def s(3) .
qed

end
