(* ===== verification/UsbCdcProps.thy ===== *)
theory UsbCdcProps
  imports UsbCdc
begin

text \<open>What the transport reads from the USB connection: the bytes of one connection only, in order.\<close>

definition usb_ok :: "'d usb_cdc \<Rightarrow> bool" where
  "usb_ok u \<longleftrightarrow> ring_ok (uc_size u) (uc_buf u) (uc_tags u) \<and> ucast (uc_get u) < uc_size u \<and> ucast (uc_put u) < uc_size u \<and>
     cs_generation (uc_rx u) \<noteq> 0"

definition usb_contents :: "'d usb_cdc \<Rightarrow> (u8 \<times> u32) list" where
  "usb_contents u = cdc_contents (uc_buf u) (uc_tags u) (uc_get u) (uc_put u)"

text \<open>\<open>ringbuf_get\<close> of MicroPython takes the byte at the read index of a ring that is not empty.\<close>

definition ringbuf_laws :: "'d usb_env \<Rightarrow> bool" where
  "ringbuf_laws env \<longleftrightarrow> (\<forall>u. usb_ok u \<and> uc_get u \<noteq> uc_put u \<longrightarrow>
     ue_ring_get env u = (int (unat (uc_buf u ! unat (uc_get u))), u\<lparr>uc_get := ev_cdc_rx_ring_next (uc_get u) (uc_size u)\<rparr>))"

lemma usb_contents_get:
  assumes "usb_ok u" "uc_get u \<noteq> uc_put u"
  shows "usb_contents u = (uc_buf u ! unat (uc_get u), uc_tags u ! unat (uc_get u)) #
      usb_contents (u\<lparr>uc_get := ev_cdc_rx_ring_next (uc_get u) (uc_size u)\<rparr>)"
    and "usb_ok (u\<lparr>uc_get := ev_cdc_rx_ring_next (uc_get u) (uc_size u)\<rparr>)"
proof -
  let ?n = "unat (uc_size u)" and ?h = "unat (uc_get u)" and ?p = "unat (uc_put u)" and ?xs = "zip (uc_buf u) (uc_tags u)"
  have ne: "?h \<noteq> ?p" using assms(2) by (simp add: word_unat_eq_iff)
  have r: "2 \<le> ?n" "?n \<le> 65536" "?h < ?n" "?p < ?n" "length ?xs = ?n"
    using assms ring_ok_size [of "uc_size u"] zip_len [of "uc_size u"] by (auto simp: usb_ok_def index_in_ring)
  have nx: "unat (ev_cdc_rx_ring_next (uc_get u) (uc_size u)) = Suc ?h mod ?n" by (rule ring_next) (use r in simp_all)
  have "ring_contents ?xs ?h ?p = ?xs ! ?h # ring_contents ?xs (Suc ?h mod ?n) ?p"
    by (rule ring_contents_get [of ?h ?xs ?p, unfolded r(5)]) (use r ne in simp_all)
  moreover have "?xs ! ?h = (uc_buf u ! ?h, uc_tags u ! ?h)" using r(3,5) by simp
  ultimately show "usb_contents u = (uc_buf u ! ?h, uc_tags u ! ?h) #
      usb_contents (u\<lparr>uc_get := ev_cdc_rx_ring_next (uc_get u) (uc_size u)\<rparr>)"
    by (simp add: usb_contents_def cdc_contents_def nx)
  show "usb_ok (u\<lparr>uc_get := ev_cdc_rx_ring_next (uc_get u) (uc_size u)\<rparr>)"
    using assms(1) r nx by (simp add: usb_ok_def index_in_ring)
qed

lemma ring_take_bytes:
  assumes "ringbuf_laws env" "usb_ok u"
  shows "fst (ring_take env n u) = take n (map fst (usb_contents u)) \<and> usb_ok (snd (ring_take env n u))"
  using assms(2)
proof (induction n arbitrary: u)
  case (Suc n)
  show ?case
  proof (cases "uc_get u = uc_put u")
    case True
    then show ?thesis using Suc.prems by (simp add: usb_contents_def cdc_contents_def)
  next
    case False
    note c = usb_contents_get [OF Suc.prems False]
    have "ue_ring_get env u = (int (unat (uc_buf u ! unat (uc_get u))), u\<lparr>uc_get := ev_cdc_rx_ring_next (uc_get u) (uc_size u)\<rparr>)"
      using assms(1) Suc.prems False by (simp add: ringbuf_laws_def)
    then show ?thesis using False Suc.IH [OF c(2)] c(1) by (simp add: split_beta)
  qed
qed simp

lemma keep_generation_contents:
  assumes "usb_ok u"
  shows "usb_contents (keep_generation u) = filter (\<lambda>(v, g). g = cs_generation (uc_rx u)) (usb_contents u)"
    "usb_ok (keep_generation u)" "uc_rx (keep_generation u) = uc_rx u"
  using assms filter_call [of "uc_size u" "uc_buf u" "uc_tags u" "uc_get u" "uc_put u" True "cs_generation (uc_rx u)"]
  by (auto simp: usb_ok_def usb_contents_def keep_generation_def)

lemma flush_rx_fields [simp]:
  "uc_rx (mp_usbd_cdc_transport_flush_rx env i u) = uc_rx u" "uc_size (mp_usbd_cdc_transport_flush_rx env i u) = uc_size u"
  "uc_buf (mp_usbd_cdc_transport_flush_rx env i u) = uc_buf u" "uc_tags (mp_usbd_cdc_transport_flush_rx env i u) = uc_tags u"
  "uc_get (mp_usbd_cdc_transport_flush_rx env i u) = 0" "uc_put (mp_usbd_cdc_transport_flush_rx env i u) = 0"
  by (simp_all add: mp_usbd_cdc_transport_flush_rx_def mp_usbd_cdc_transport_flush_fifo_def mp_usbd_cdc_transport_ring_clear_def
      Let_def)

lemma advance_nonzero: "cs_generation s \<noteq> 0 \<Longrightarrow> cs_generation (ev_cdc_rx_advance_generation s) \<noteq> 0"
  by (auto simp: ev_cdc_rx_advance_generation_def eq_neg_iff_add_eq_0)

text \<open>Following the bus either leaves everything alone, or empties the ring.\<close>

lemma sync_bus_cases:
  assumes "usb_ok u"
  shows "usb_ok (mp_usbd_cdc_transport_sync_bus env m u)" "cs_mounted (uc_rx (mp_usbd_cdc_transport_sync_bus env m u)) = m"
    "mp_usbd_cdc_transport_sync_bus env m u = u \<and> cs_mounted (uc_rx u) = m \<or> usb_contents (mp_usbd_cdc_transport_sync_bus env m u) = []"
  using assms advance_nonzero [of "uc_rx u"] ring_ok_size [of "uc_size u"]
  by (auto simp: mp_usbd_cdc_transport_sync_bus_def ev_cdc_rx_bus_state_def ev_cdc_rx_bus_mount_def ev_cdc_rx_bus_unmount_def
      on_bus_def usb_ok_def usb_contents_def cdc_contents_def Let_def run_flush_def index_in_ring)

lemma sync_bus_generation:
  "mp_usbd_cdc_transport_sync_bus env m u = u \<or> cs_mounted (uc_rx u) \<noteq> m"
  by (auto simp: mp_usbd_cdc_transport_sync_bus_def ev_cdc_rx_bus_state_def on_bus_def)

text \<open>
  What is read for a connection are exactly the bytes that were received on it, in order: nothing is
  read unless the host is connected, the ring is usable and the generation of the connection is the expected one, and
  bytes that carry an older generation are skipped.
\<close>

theorem usb_read_is_of_one_connection:
  assumes "ringbuf_laws env" "usb_ok u" and "mp_usbd_cdc_transport_rx_read env g given n u = (bytes, u')"
  shows "usb_ok u' \<and> bytes =
    (if given \<and> usb_mounted env u \<and> cs_mounted (uc_rx u) \<and> cs_valid (uc_rx u) \<and> uc_size u = EV_CDC_RX_RING_CAPACITY \<and>
        cs_generation (uc_rx u) = g
     then take n (map fst (filter (\<lambda>(v, tag). tag = g) (usb_contents u))) else [])"
proof (cases "given \<and> n \<noteq> 0")
  case True
  let ?s = "mp_usbd_cdc_transport_sync_bus env (usb_mounted env u) u"
  note s = sync_bus_cases [OF assms(2), of env "usb_mounted env u"]
  obtain valid u1 where v: "mp_usbd_cdc_transport_rx_storage_valid ?s = (valid, u1)" by fastforce
  have valid: "valid \<longleftrightarrow> uc_size ?s = EV_CDC_RX_RING_CAPACITY \<and> cs_valid (uc_rx ?s)"
    using v by (auto simp: mp_usbd_cdc_transport_rx_storage_valid_def split: if_split_asm)
  have u1: "usb_ok u1" "cs_generation (uc_rx u1) = cs_generation (uc_rx ?s)" "usb_contents u1 = usb_contents ?s"
    using v s(1) by (auto simp: mp_usbd_cdc_transport_rx_storage_valid_def usb_ok_def usb_contents_def split: if_split_asm)
  have clear: "usb_ok (mp_usbd_cdc_transport_ring_clear u1)"
    using u1(1) ring_ok_size [of "uc_size u1"] by (fastforce simp: usb_ok_def mp_usbd_cdc_transport_ring_clear_def word_less_nat_alt)
  note k = keep_generation_contents [OF u1(1)]
  let ?kept = "take n (map fst (filter (\<lambda>(v, tag). tag = cs_generation (uc_rx ?s)) (usb_contents ?s)))"
  have take1: "fst (ring_take env n (keep_generation u1)) = ?kept" "usb_ok (snd (ring_take env n (keep_generation u1)))"
    using ring_take_bytes [OF assms(1) k(2), of n] k(1) u1 by simp_all
  have out: "bytes = (if valid \<and> usb_mounted env u \<and> cs_generation (uc_rx ?s) = g then ?kept else [])" "usb_ok u'"
    using assms(3) True v k clear u1 take1 by (auto simp: mp_usbd_cdc_transport_rx_read_def Let_def split: if_split_asm)
  show ?thesis
  proof (cases "cs_mounted (uc_rx u) = usb_mounted env u")
    case same: True
    then have "?s = u" using sync_bus_generation by blast
    then show ?thesis using out True same valid by auto
  next
    case False
    then have "usb_contents ?s = []" using s(3) by blast
    then show ?thesis using out False by auto
  qed
next
  case False
  then show ?thesis using assms by (auto simp: mp_usbd_cdc_transport_rx_read_def)
qed

section \<open>A connected device\<close>

definition demo_ring_get :: "'d usb_cdc \<Rightarrow> int \<times> 'd usb_cdc" where
  "demo_ring_get u =
     (int (unat (uc_buf u ! unat (uc_get u))), u\<lparr>uc_get := ev_cdc_rx_ring_next (uc_get u) (uc_size u)\<rparr>)"

definition demo_usb_env :: "nat usb_env" where
  "demo_usb_env =
     \<lparr>ue_inited = (\<lambda>d. True), ue_connected = (\<lambda>d. True), ue_mounted = (\<lambda>d. True), ue_cdc_ready = (\<lambda>d. True),
      ue_read_flush = (\<lambda>i d. d), ue_available = (\<lambda>i d. 0), ue_read_char = (\<lambda>d. (-1, d)), ue_interrupt_char = (\<lambda>d. 3),
      ue_mux_enabled = (\<lambda>d. True), ue_interrupt = (\<lambda>d. d), ue_ring_free = (\<lambda>u. 1), ue_ring_get = demo_ring_get,
      ue_task = (\<lambda>u. u)\<rparr>"

text \<open>One byte of an older connection and one of the present one.\<close>

definition demo_usb :: "nat usb_cdc" where
  "demo_usb =
     \<lparr>uc_rx = \<lparr>cs_generation = 2, cs_mounted = True, cs_mount_seen = True, cs_dtr = True, cs_valid = True\<rparr>,
      uc_buf = 65 # 66 # replicate 2046 0, uc_tags = 1 # 2 # replicate 2046 0, uc_size = 2048, uc_get = 0, uc_put = 2,
      uc_pending = 0, uc_ring_full = 0, uc_dev = 0\<rparr>"

lemma demo_usb_ok: "usb_ok demo_usb" "ringbuf_laws demo_usb_env"
  by (simp_all add: usb_ok_def demo_usb_def ring_ok_def ringbuf_laws_def demo_usb_env_def demo_ring_get_def)

theorem usb_read_is_of_one_connection_witness:
  "fst (mp_usbd_cdc_transport_rx_read demo_usb_env 2 True 256 demo_usb) = [66]"
proof -
  obtain bytes u' where go: "mp_usbd_cdc_transport_rx_read demo_usb_env 2 True 256 demo_usb = (bytes, u')" by fastforce
  have "usb_contents demo_usb = [(65, 1), (66, 2)]"
    by (simp add: usb_contents_def cdc_contents_def demo_usb_def ring_contents_def ring_span_def ring_count_def upt_rec)
  then show ?thesis
    using usb_read_is_of_one_connection [OF demo_usb_ok(2,1) go] go
    by (simp add: usb_mounted_def demo_usb_env_def) (simp add: demo_usb_def EV_CDC_RX_RING_CAPACITY_def)
qed

end
