(* ===== verification/ControlBounds.thy ===== *)
theory ControlBounds
  imports ControlMethods ControlReceive ControlTextProps
begin

text \<open>
  The answers of the handlers fit the buffers they are printed into, so that \<open>ESP_ERR_INVALID_SIZE\<close>, which
  would leave a request without an answer, is not returned for them.
\<close>

lemma number_length: "length (number w) \<le> 10"
proof -
  have "unat w < 2 ^ 32"
    using unsigned_less [of w] by simp
  then show ?thesis
    unfolding number_def by (intro decimal_length) simp_all
qed

lemma u32_length: "length (decimal (unat (w :: u32))) \<le> 10"
  using number_length [of w] by (simp add: number_def)

lemma bool_length: "length (ev_control_bool_str b) \<le> 5"
  by (simp add: ev_control_bool_str_def)

lemma quoted_length [simp]: "length (quoted s) = length s + 2"
  by (simp add: quoted_def)

lemma allowed_length: "ev_control_path_allowed n (Some path) \<Longrightarrow> length path \<le> n"
  by (simp add: ev_control_path_allowed_def)

lemma path_max_128: "he_path_cap env = 128 \<Longrightarrow> path_max env = 123"
  by (simp add: path_max_def EV_CONTROL_PATH_TMP_SUFFIX_def)

lemma script_payload_fits:
  assumes "length (sk_path k) \<le> 123" "n < 4294967296"
  shows "length (script_payload k n complete) < 256"
proof -
  have n: "length (decimal n) \<le> 10"
    using assms(2) by (intro decimal_length) simp_all
  have o1: "length (decimal (if sk_has_total k then unat (sk_offset k) else 0)) \<le> 10"
    using u32_length [of 0] u32_length [of "sk_offset k"] by auto
  have t: "length (decimal (if sk_has_total k then unat (sk_total k) else n)) \<le> 10"
    using u32_length [of "sk_total k"] n by auto
  show ?thesis
    unfolding script_payload_def
    using assms(1) n o1 t bool_length [of complete] bool_length [of "sk_run k"] by (simp add: ac_simps)
qed

lemma run_command_fits: "length path \<le> 123 \<Longrightarrow> length (run_command path) < 192"
  by (simp add: run_command_def)


lemma fs_read_payload_fits:
  assumes "length path \<le> 123" "n \<le> EV_CONTROL_FILE_READ_MAX" "length encoded \<le> 512"
  shows "length (fs_read_payload path encoded n) < 768"
proof -
  have "length (decimal n) \<le> 3"
    using assms(2) by (intro decimal_length) (simp_all add: EV_CONTROL_FILE_READ_MAX_def)
  then show ?thesis
    using assms(1,3) by (simp add: fs_read_payload_def)
qed

lemma read_is_encoded:
  assumes "length data \<le> EV_CONTROL_FILE_READ_MAX"
  shows "\<exists>encoded. ev_control_base64_encode data ((EV_CONTROL_FILE_READ_MAX + 2) div 3 * 4 + 1) = Inr encoded \<and>
    length encoded \<le> 512"
proof -
  have "(length data + 2) div 3 * 4 \<le> (EV_CONTROL_FILE_READ_MAX + 2) div 3 * 4"
    using assms by (intro mult_right_mono div_le_mono) simp_all
  then show ?thesis
    by (simp add: ev_control_base64_encode_def length_encoded EV_CONTROL_FILE_READ_MAX_def)
qed

lemma session_length: "length sid \<le> EV_SESSION_ID_HEX_LEN \<Longrightarrow> length sid \<le> 32"
  by (simp add: EV_SESSION_ID_HEX_LEN_def)

lemma rpc_metadata_fits:
  assumes "length method1 \<le> 31" "length type1 \<le> 5" "\<And>sid ve. who = Some (sid, ve) \<Longrightarrow> length sid \<le> 32"
  shows "length (rpc_metadata domain type1 method1 seq who now) < EV_CONTROL_METADATA_MAX"
proof -
  have d: "length (ev_control_rpc_channel domain) \<le> 9"
    by (simp add: ev_control_rpc_channel_def)
  have w: "length (case who of None \<Rightarrow> []
      | Some (sid, vm_epoch) \<Rightarrow> ''\"sessionId\":'' @ quoted sid @ '',\"vmEpoch\":'' @ decimal (unat vm_epoch) @ '','') \<le> 70"
  proof (cases who)
    case (Some who1)
    obtain sid ve where "who1 = (sid, ve)" by (cases who1)
    then show ?thesis
      using Some assms(3) [of sid ve] u32_length [of ve] by simp
  qed simp
  show ?thesis
    unfolding rpc_metadata_def
    using assms(1,2) d w u32_length [of seq] u32_length [of now] by (cases domain) (simp_all add: EV_CONTROL_METADATA_MAX_def)
qed

lemma file_error_fits: "length e \<le> 32 \<Longrightarrow> length (error_text e (file_message e)) < 256"
  by (simp add: error_text_def file_message_def)

lemma string_or_null_length: "length (string_or_null n s) \<le> max 4 (n - 1)"
  unfolding string_or_null_def by (auto simp: le_max_iff_disj)

lemma signed_length:
  assumes "\<bar>i\<bar> < 10 ^ 10"
  shows "length (signed_text i) \<le> 11"
proof -
  have "nat \<bar>i\<bar> < 10 ^ 10"
    using assms by simp
  from decimal_length [OF this] have "length (decimal (nat \<bar>i\<bar>)) \<le> 10"
    by simp
  then show ?thesis
    unfolding signed_text_def by (cases "i < 0") (simp_all del: abs_of_neg abs_of_nonneg)
qed

lemma mode_length: "length (writer_mode_name m) \<le> 13"
  by (cases m) (simp_all add: writer_mode_name_def)

lemma writer_status_fits:
  assumes "length volume_name \<le> 5" "length (vs_state v) \<le> 24" "\<bar>vs_error v\<bar> < 10 ^ 10" "\<bar>vs_fatfs v\<bar> < 10 ^ 10"
  shows "length (writer_status_payload volume_name st v) < 512"
  unfolding writer_status_payload_def
  using assms(1,2) signed_length [OF assms(3)] signed_length [OF assms(4)] mode_length [of "st_mode st"]
    bool_length [of "st_writable st \<and> vs_mounted v"] bool_length [of "vs_present v"] bool_length [of "vs_mounted v"]
    bool_length [of "vs_format v"] string_or_null_length [of 35 "c_string (st_operation_id st)"]
    string_or_null_length [of 35 "c_string (st_lease_id st)"]
    string_or_null_length [of 35 "c_string (StorageWriter.st_session_id st)"]
    string_or_null_length [of 64 "case st_reason st of None \<Rightarrow> [] | Some r \<Rightarrow> r"]
  by simp

lemma uart_payload_fits:
  assumes "length (request_token rq) \<le> 32"
  shows "length (uart_payload rq baud) < EV_UART_BAUD_PROBE_BYTES * 2 + 192"
proof -
  have e: "length (the (ev_control_json_escape (EV_UART_BAUD_PROBE_BYTES * 2 + 1) data)) < 1025" for data
    using escape_loop_bound [of "[]" 1025 data] by (simp add: ev_control_json_escape_def EV_UART_BAUD_PROBE_BYTES_def)
  show ?thesis
  proof (cases rq)
    case (Uart_probe token data)
    then show ?thesis
      using assms e [of data] number_length [of baud] by (simp add: uart_payload_def EV_UART_BAUD_PROBE_BYTES_def)
  qed (use assms number_length [of baud] number_length [of EV_UART_BAUD_TIMEOUT_MS] number_length [of EV_UART_BAUD_SWITCH_DELAY_MS]
        in \<open>simp_all add: uart_payload_def EV_UART_BAUD_PROBE_BYTES_def\<close>)
qed

lemma keepalive_fits: "length (sn_session_id snap) \<le> 32 \<Longrightarrow> length (keepalive_payload snap) < 192"
  using u32_length [of "sn_vm_epoch snap"] u32_length [of EV_SESSION_LEASE_MS] bool_length [of "sn_vm_ready snap"]
  by (simp add: keepalive_payload_def)

section \<open>The bounds together\<close>


end
