(* ===== verification/ControlDemo.thy ===== *)
theory ControlDemo
  imports ControlReceive Demo
begin

text \<open>
  The properties of the receiver of requests and of the queue of the virtual machine applied to the
  board of \<open>Demo\<close>: handlers that do nothing, a single task, and a heap that is full.
\<close>

section \<open>The device\<close>

definition demo_control_env :: "unit control_env" where
  "demo_control_env =
     \<lparr>ce_now = (\<lambda>c. 1000), ce_run = (\<lambda>r k c. (False, c)), ce_others = (\<lambda>c. c),
      ce_interrupt_armed = (\<lambda>c. False), ce_main_thread = (\<lambda>c. True),
      ce_preview_subscribe = (\<lambda>l e c. (ESP_OK, c)), ce_preview_subscribed = (\<lambda>l c. False),
      ce_malloc = (\<lambda>n c. None), ce_stack = zero_snapshot\<rparr>"

definition zero_context :: ev_control_response_context where
  "zero_context =
     \<lparr>rc_rpc_domain = EV_RPC_USER, rc_link = zero_link, rc_has_link = False, rc_session_id = [],
      rc_vm_epoch = 0, rc_tx_vm_epoch = 0, rc_input_generation = 0, rc_transition_id = 0,
      rc_completion = False, rc_completion_context_len = 0, rc_ticket_out = False\<rparr>"

definition demo_control :: "unit control" where
  "demo_control =
     \<lparr>co_world = demo_owned,
      co_repl_rx = \<lparr>rq_entries = replicate 512 \<lparr>qe_value = 0, qe_generation = 0\<rparr>, rq_head = 0, rq_tail = 0,
        rq_guard_generation = 0, rq_guard_valid = False\<rparr>,
      co_vm_queue = replicate 2 zero_vm_frame, co_head = 0, co_tail = 0, co_pending = False,
      co_vm_poll_active = False, co_response = zero_context, co_vm_response = zero_context,
      co_vm_task = vm_task_zero,
      co_stats = \<lparr>st_rx_bytes = [0, 0, 0, 0], st_frames_ok = 0, st_frames_bad = 0, st_frames_rejected = 0,
        st_repl_rx_dropped = 0, st_vm_busy = 0, st_parser_timeouts = 0, st_stale_generation_drops = 0\<rparr>,
      co_rest = ()\<rparr>"

lemma demo_env_ok: "env_ok demo_control_env"
  by (simp add: env_ok_def demo_control_env_def)

lemma demo_control_ok: "control_ok demo_control"
  by (simp add: control_ok_def demo_control_def vm_frame_ok_def zero_vm_frame_def repl_inv_def repl_contents_def
      ring_contents_def ring_count_def)

lemma demo_control_link: "ev_transport_link_is_current (w_transport (co_world demo_control)) (Some demo_link)"
  by (simp add: demo_control_def)

section \<open>Frames\<close>

theorem receiver_keeps_its_buffers_witness:
  "\<exists>err parsers' c'. ev_control_transport_rx demo_control_env (Some demo_link) (Some [0x1e, 0x45]) 2
       (replicate EV_CONTROL_PARSER_COUNT (idle demo_link)) demo_control = Inr (err, parsers', c') \<and>
     control_ok c' \<and> length parsers' = EV_CONTROL_PARSER_COUNT \<and> (\<forall>p \<in> set parsers'. parser_inv p)"
proof (rule receiver_keeps_its_buffers [OF demo_env_ok demo_control_ok])
  have "parser_inv (idle demo_link)"
    using reset_keep_link_inv [of "idle demo_link"] keep_link_idle by (simp add: idle_def)
  then show "\<forall>p \<in> set (replicate EV_CONTROL_PARSER_COUNT (idle demo_link)). parser_inv p" by simp
qed simp

theorem frame_is_received_witness:
  "feed_bytes demo_control_env demo_link 1000 (frame_bytes ''{}'' [] 1) (idle demo_link, demo_control) =
     Inr (idle demo_link, count_bad demo_control) \<and>
   feed_bytes demo_control_env demo_stale 1000 (frame_bytes ''{}'' [] 0) (idle demo_stale, demo_control) =
     Inr (idle demo_stale, count_stale (count_ok demo_control))"
proof -
  have i: "pa_state (idle l) = EV_CONTROL_PARSE_SOF" for l by (simp add: idle_def reading_def)
  have crc: "ev_mux_crc32 [] \<noteq> 1" by (simp add: ev_mux_crc32_def)
  have s: "\<not> ev_transport_link_is_current (w_transport (co_world demo_control)) (Some demo_stale)"
    using demo_stale_stale by (simp add: demo_control_def)
  show ?thesis
    using frame_is_received [OF i, of "''{}''" "[]" demo_control_env demo_link 1000 1 demo_link demo_control]
      frame_is_received [OF i, of "''{}''" "[]" demo_control_env demo_stale 1000 0 demo_stale demo_control] crc s
    by (simp add: control_consts)
qed


theorem link_recovers_from_a_broken_frame_witness:
  "feed_bytes demo_control_env demo_link 4000 (frame_bytes ''{}'' [7] (ev_mux_crc32 [7]))
     (ev_control_parser_begin demo_link 500 (idle demo_link), demo_control) =
   sbind (received demo_control_env demo_link ''{}'' [7] (count_ok (count_timeout demo_control)))
     (\<lambda>c1. Inr (idle demo_link, c1))"
  by (rule link_recovers_from_a_broken_frame)
    (simp_all add: ev_control_parser_begin_def control_consts demo_control_link)

section \<open>Requests\<close>

text \<open>A request for the log of another session.\<close>

definition demo_request :: ev_control_json_metadata where
  "demo_request =
     \<lparr>md_channel = ''user.rpc'', md_type = ''req'', md_method = ''script.run'', md_session_id = ''1'', md_seq = 7,
      md_vm_epoch = 7, md_has_method = True, md_has_sid = False, md_has_encoding = False, md_encoding = [],
      md_has_session_id = True, md_has_vm_epoch = True\<rparr>"

theorem stranger_gets_no_service_witness:
  "handle_request demo_control_env demo_link demo_request [0] 0 demo_control =
     Inr (ev_control_response_context_clear
       (ev_control_log_rejected_frame (request_context demo_link demo_request demo_control))) \<or>
   (\<exists>result snap. result \<noteq> EV_SESSION_RESULT_OK \<and>
     handle_request demo_control_env demo_link demo_request [0] 0 demo_control =
       Inr (answer_unauthorized demo_control_env demo_link demo_request result snap
         (request_context demo_link demo_request demo_control)))"
  by (rule stranger_gets_no_service)
    (simp_all add: owner_request_def demo_request_def demo_control_def demo_nonce_def ev_control_is_bootstrap_method_def)

section \<open>The queue of the virtual machine\<close>

lemma demo_authorize:
  "\<exists>snap. authorize demo_control_env (Some demo_link) (Some demo_nonce) True True 7 demo_control =
     (EV_SESSION_RESULT_OK, snap, demo_control\<lparr>co_world := demo_owned\<lparr>w_session :=
        (w_session demo_owned)\<lparr>ss_last_activity_ms := 1000\<rparr>\<rparr>\<rparr>) \<and>
     sn_input_generation snap = 2 \<and> sn_transition_id snap = 1"
  by (simp add: authorize_def ev_session_authorize_def demo_control_def demo_control_env_def Let_def
      ev_session_check_owner_locked_def ev_session_snapshot_locked_def ev_session_link_equal_def)

lemma expire_empty: "co_head c = co_tail c \<Longrightarrow> ev_control_vm_queue_expire env c = Inr c"
  by (simp add: ev_control_vm_queue_expire_def control_consts eval_nat_numeral)

lemma demo_push:
  "\<exists>c'. ev_control_vm_queue_push demo_control_env EV_RPC_USER demo_link demo_nonce (Some ''script.run'') 7 7 2 1
     [123, 125] 2 demo_control = Inr (True, c')"
proof -
  obtain snap where a: "authorize demo_control_env (Some demo_link) (Some demo_nonce) True True 7 demo_control =
     (EV_SESSION_RESULT_OK, snap, demo_control\<lparr>co_world := demo_owned\<lparr>w_session :=
        (w_session demo_owned)\<lparr>ss_last_activity_ms := 1000\<rparr>\<rparr>\<rparr>)"
    "sn_input_generation snap = 2" "sn_transition_id snap = 1" using demo_authorize by blast
  show ?thesis
    by (simp add: ev_control_vm_queue_push_def still_authorized_def a EV_CONTROL_JSON_METHOD_MAX_def)
      (simp add: demo_control_env_def demo_control_def expire_empty current_generation_def
        ev_session_input_generation_def control_consts vm_queue_next_def rd_def wr_def memcpy_front_def zero_vm_frame_def Let_def)
qed

theorem accepted_request_is_queued_witness:
  "\<exists>c' f. ev_control_vm_queue_push demo_control_env EV_RPC_USER demo_link demo_nonce (Some ''script.run'') 7 7 2 1
       [123, 125] 2 demo_control = Inr (True, c') \<and> co_pending c' \<and>
     rd (co_vm_queue c') (unat (co_head c')) = Inr f \<and> vm_request f = Handle_user_rpc 7 ''script.run'' ''{}''"
proof -
  obtain c' where c': "ev_control_vm_queue_push demo_control_env EV_RPC_USER demo_link demo_nonce (Some ''script.run'') 7 7 2 1
     [123, 125] 2 demo_control = Inr (True, c')" using demo_push by blast
  have t: "c_string (chars (take 2 [123, 125])) = ''{}''" by (simp add: c_string_def chars_def char_of_def bit_0)
  show ?thesis
    using c' accepted_request_is_queued [OF demo_env_ok demo_control_ok _ _ c'] t
    by (force simp: control_consts)
qed

theorem vm_poll_leaves_the_task_balanced_witness:
  "\<exists>c'. ev_control_transport_vm_poll demo_control_env (demo_control\<lparr>co_tail := 1, co_pending := True\<rparr>) = Inr c' \<and>
     control_ok c' \<and> \<not> co_vm_poll_active c' \<and> vt_scope_depth (co_vm_task c') = 0"
proof -
  let ?c = "demo_control\<lparr>co_tail := 1, co_pending := True\<rparr>"
  have ok: "control_ok ?c" using demo_control_ok by (simp add: control_ok_def)
  have fields: "\<not> co_vm_poll_active ?c" "co_vm_task ?c = vm_task_zero" by (simp_all add: demo_control_def)
  have inv: "vm_inv (co_vm_task ?c)" unfolding fields(2) by (rule demo_task_inv)
  show ?thesis
    using vm_poll_leaves_the_task_balanced [OF demo_env_ok ok fields(1) inv]
    by (simp add: demo_control_env_def fields(2)) (simp add: vm_task_zero_def)
qed

end
