(* ===== verification/FileTransferProps.thy ===== *)
theory FileTransferProps
  imports FileTransfer
begin

text \<open>
  Correctness of the upload: while an upload is active its staging file holds exactly the chunks
  that were acknowledged, a commit that succeeds gives the target exactly these bytes, with the
  announced length and digest, and no commit leaves the target with anything but its old or its
  complete new contents.
\<close>

section \<open>What is assumed of the file system\<close>

text \<open>
  A view of the file system and of the hash: the contents of the regular files, the path behind a
  descriptor, what a hash operation has been given, and the hash function.
\<close>

record ('f, 'h) file_view =
  vw_contents :: "'f \<Rightarrow> cstring \<Rightarrow> u8 list option"
  vw_opened :: "'f \<Rightarrow> int \<Rightarrow> cstring option"
  vw_hashed :: "'h \<Rightarrow> u8 list option"
  vw_sha256 :: "u8 list \<Rightarrow> u8 list"

definition same_view :: "('f, 'h) file_view \<Rightarrow> 'f \<Rightarrow> 'f \<Rightarrow> bool" where
  "same_view v f f' \<longleftrightarrow> vw_contents v f' = vw_contents v f \<and> vw_opened v f' = vw_opened v f"

definition stat_law :: "('f, 'h, 'x) file_ops_scheme \<Rightarrow> ('f, 'h) file_view \<Rightarrow> bool" where
  "stat_law ops v \<longleftrightarrow> (\<forall>p f status regular e f'. fo_stat ops p f = (status, regular, e, f') \<longrightarrow> same_view v f f')"

definition open_law :: "('f, 'h, 'x) file_ops_scheme \<Rightarrow> ('f, 'h) file_view \<Rightarrow> bool" where
  "open_law ops v \<longleftrightarrow> (\<forall>p f fd f'. fo_open ops p f = (fd, f') \<longrightarrow>
     (if 0 \<le> fd
      then vw_contents v f p = None \<and> vw_contents v f' = (vw_contents v f)(p \<mapsto> []) \<and>
           vw_opened v f' = (vw_opened v f)(fd \<mapsto> p)
      else same_view v f f'))"

definition write_law :: "('f, 'h, 'x) file_ops_scheme \<Rightarrow> ('f, 'h) file_view \<Rightarrow> bool" where
  "write_law ops v \<longleftrightarrow> (\<forall>fd bytes f n e f' p old.
     fo_write ops fd bytes f = (n, e, f') \<and> vw_opened v f fd = Some p \<and> vw_contents v f p = Some old \<longrightarrow>
       vw_opened v f' = vw_opened v f \<and> (\<forall>q. q \<noteq> p \<longrightarrow> vw_contents v f' q = vw_contents v f q) \<and>
       (if 0 < n then nat n \<le> length bytes \<and> vw_contents v f' p = Some (old @ take (nat n) bytes)
        else n < 0 \<and> e = EINTR \<longrightarrow> vw_contents v f' p = Some old))"

definition sync_law :: "('f, 'h, 'x) file_ops_scheme \<Rightarrow> ('f, 'h) file_view \<Rightarrow> bool" where
  "sync_law ops v \<longleftrightarrow> (\<forall>fd f r f'. fo_fsync ops fd f = (r, f') \<longrightarrow> same_view v f f') \<and>
     (\<forall>fd f r f'. fo_close ops fd f = (r, f') \<longrightarrow> vw_contents v f' = vw_contents v f)"

definition rename_law :: "('f, 'h, 'x) file_ops_scheme \<Rightarrow> ('f, 'h) file_view \<Rightarrow> bool" where
  "rename_law ops v \<longleftrightarrow> (\<forall>a b f r e f'. fo_rename ops a b f = (r, e, f') \<and> a \<noteq> b \<longrightarrow>
       vw_contents v f' = (if r = 0 then (vw_contents v f)(b := vw_contents v f a, a := None) else vw_contents v f)) \<and>
     (\<forall>p f q. q \<noteq> p \<longrightarrow> vw_contents v (fo_unlink ops p f) q = vw_contents v f q)"

definition hash_law :: "('f, 'h, 'x) file_ops_scheme \<Rightarrow> ('f, 'h) file_view \<Rightarrow> bool" where
  "hash_law ops v \<longleftrightarrow>
     (\<forall>h'. ho_setup ops (ho_init ops) = (True, h') \<longrightarrow> vw_hashed v h' = Some []) \<and>
     (\<forall>h xs bytes h'. ho_update ops bytes h = (True, h') \<and> vw_hashed v h = Some xs \<longrightarrow> vw_hashed v h' = Some (xs @ bytes)) \<and>
     (\<forall>h xs d. ho_finish ops h = (True, d) \<and> vw_hashed v h = Some xs \<longrightarrow> d = vw_sha256 v xs)"

definition file_laws :: "('f, 'h, 'x) file_ops_scheme \<Rightarrow> ('f, 'h) file_view \<Rightarrow> bool" where
  "file_laws ops v \<longleftrightarrow> stat_law ops v \<and> open_law ops v \<and> write_law ops v \<and> sync_law ops v \<and> rename_law ops v \<and> hash_law ops v"

lemma hash_step:
  assumes "file_laws ops v" and "ho_update ops bytes h = (ok, h')" and "ok" and "vw_hashed v h = Some xs"
  shows "vw_hashed v h' = Some (xs @ bytes)"
  using assms by (auto simp: file_laws_def hash_law_def)

text \<open>The other tasks do not hold the lock and leave the staging file alone.\<close>

definition file_others_ok :: "('f, 'h) file_env \<Rightarrow> ('f, 'h) file_view \<Rightarrow> bool" where
  "file_others_ok env v \<longleftrightarrow> (\<forall>w.
     fw_file (fe_others env w) = fw_file w \<and> fw_lock (fe_others env w) = fw_lock w \<and>
     vw_opened v (fw_files (fe_others env w)) (tr_fd (fw_file w)) = vw_opened v (fw_files w) (tr_fd (fw_file w)) \<and>
     vw_contents v (fw_files (fe_others env w)) (tr_temporary (fw_file w)) = vw_contents v (fw_files w) (tr_temporary (fw_file w)))"

section \<open>The state of an upload\<close>

definition staged :: "('f, 'h) file_view \<Rightarrow> ('f, 'h) file_world \<Rightarrow> u8 list \<Rightarrow> bool" where
  "staged v w bytes \<longleftrightarrow>
     tr_active (fw_file w) \<and> \<not> tr_poisoned (fw_file w) \<and> 0 \<le> tr_fd (fw_file w) \<and>
     (\<exists>suffix. suffix \<noteq> [] \<and> tr_temporary (fw_file w) = tr_target (fw_file w) @ suffix) \<and>
     vw_opened v (fw_files w) (tr_fd (fw_file w)) = Some (tr_temporary (fw_file w)) \<and>
     vw_contents v (fw_files w) (tr_temporary (fw_file w)) = Some bytes \<and>
     vw_hashed v (tr_hash (fw_file w)) = Some bytes \<and>
     tr_received (fw_file w) = of_nat (length bytes) \<and> length bytes \<le> unat (tr_total (fw_file w))"

definition idle_file :: "('f, 'h) file_world \<Rightarrow> bool" where
  "idle_file w \<longleftrightarrow> \<not> tr_active (fw_file w) \<and> \<not> tr_poisoned (fw_file w) \<and> tr_fd (fw_file w) < 0 \<and> tr_temporary (fw_file w) = []"

definition barred :: "('f, 'h) file_world \<Rightarrow> bool" where
  "barred w \<longleftrightarrow> tr_active (fw_file w) \<and> tr_poisoned (fw_file w)"

definition upload_inv :: "('f, 'h) file_view \<Rightarrow> ('f, 'h) file_world \<Rightarrow> bool" where
  "upload_inv v w \<longleftrightarrow> idle_file w \<or> barred w \<or> (\<exists>bytes. staged v w bytes)"

section \<open>Giving up\<close>

lemma zero_file_idle [simp]:
  "\<not> tr_active (zero_file ops)" "\<not> tr_poisoned (zero_file ops)" "tr_fd (zero_file ops) = - 1" "tr_temporary (zero_file ops) = []"
  by (simp_all add: zero_file_def)

lemma close_file_fields:
  assumes "close_file env w = (closed, w1)"
  shows "fw_file w1 = (fw_file w)\<lparr>tr_fd := - 1\<rparr> \<and> fw_lock w1 = fw_lock w \<and> fw_session w1 = fw_session w \<and> fw_msc w1 = fw_msc w"
  using assms by (auto simp: close_file_def on_file_def split: prod.split_asm)

lemma close_file_contents:
  assumes "file_laws env v" and "close_file env w = (closed, w1)"
  shows "vw_contents v (fw_files w1) = vw_contents v (fw_files w)"
  using assms by (auto simp: close_file_def on_file_def file_laws_def sync_law_def split: prod.split_asm)

text \<open>Giving up ends the upload, unless the staging file cannot be closed.\<close>

lemma discard_file:
  assumes "discard env w = (err, w')" and "\<not> tr_poisoned (fw_file w)"
  shows "fw_file w' = zero_file env \<or>
    err = Some ''FILE_CLOSE_FAILED'' \<and> fw_file w' = (fw_file w)\<lparr>tr_fd := - 1, tr_poisoned := True\<rparr> \<and> 0 \<le> tr_fd (fw_file w)"
proof -
  obtain closed w1 where c: "(if 0 \<le> tr_fd (fw_file w) then close_file env w else (True, w)) = (closed, w1)"
    by (cases "if 0 \<le> tr_fd (fw_file w) then close_file env w else (True, w)")
  then have "\<not> closed \<Longrightarrow> 0 \<le> tr_fd (fw_file w) \<and> fw_file w1 = (fw_file w)\<lparr>tr_fd := - 1\<rparr>"
    using close_file_fields by (auto split: if_split_asm)
  then show ?thesis
    using assms c by (auto simp: discard_def Let_def poison_def on_file_def split: if_split_asm prod.split_asm)
qed

lemma discard_files:
  assumes "discard env w = (err, w')"
  shows "\<exists>f. (f = fw_files w \<or> f = fw_files (snd (close_file env w))) \<and>
    (fw_files w' = f \<or> fw_files w' = fo_unlink env (tr_temporary (fw_file w)) f)"
proof -
  obtain closed w1 where c: "(if 0 \<le> tr_fd (fw_file w) then close_file env w else (True, w)) = (closed, w1)"
    by (cases "if 0 \<le> tr_fd (fw_file w) then close_file env w else (True, w)")
  then have w1: "fw_files w1 = fw_files w \<or> fw_files w1 = fw_files (snd (close_file env w))"
    "tr_temporary (fw_file w1) = tr_temporary (fw_file w)"
    using close_file_fields [of env w closed w1] by (auto split: if_split_asm)
  have "fw_files w' = fw_files w \<or> fw_files w' = fw_files w1 \<or>
      fw_files w' = fo_unlink env (tr_temporary (fw_file w1)) (fw_files w1)"
    using assms by (auto simp: discard_def c Let_def poison_def on_file_def split: if_split_asm prod.split_asm)
  then show ?thesis using w1 by auto
qed

lemma discard_contents:
  assumes "file_laws env v" and "discard env w = (err, w')" and "q \<noteq> tr_temporary (fw_file w)"
  shows "vw_contents v (fw_files w') q = vw_contents v (fw_files w) q"
proof -
  have "vw_contents v (fo_unlink env (tr_temporary (fw_file w)) f) q = vw_contents v f q" for f
    using assms(1,3) by (simp add: file_laws_def rename_law_def)
  moreover have "vw_contents v (fw_files (snd (close_file env w))) = vw_contents v (fw_files w)"
    using close_file_contents [OF assms(1)] by (cases "close_file env w") simp
  ultimately show ?thesis using discard_files [OF assms(2)] by metis
qed

lemma discard_inv:
  assumes "upload_inv v w"
  shows "upload_inv v (snd (discard env w))"
proof -
  obtain err w' where d: "discard env w = (err, w')" by (cases "discard env w")
  show ?thesis
  proof (cases "tr_poisoned (fw_file w)")
    case True
    then show ?thesis using assms by (simp add: discard_def)
  next
    case False
    then have "fw_file w' = zero_file env \<or> tr_active (fw_file w) \<and> fw_file w' = (fw_file w)\<lparr>tr_fd := - 1, tr_poisoned := True\<rparr>"
      using discard_file [OF d] assms by (auto simp: upload_inv_def idle_file_def barred_def staged_def)
    then show ?thesis by (auto simp: d upload_inv_def idle_file_def barred_def)
  qed
qed

section \<open>A chunk\<close>

lemma write_step:
  assumes "write_law ops v" and "fo_write ops fd bytes f = (n, e, f')" and "vw_opened v f fd = Some p"
    and "vw_contents v f p = Some old"
  shows "vw_opened v f' = vw_opened v f \<and> (\<forall>q. q \<noteq> p \<longrightarrow> vw_contents v f' q = vw_contents v f q) \<and>
    (if 0 < n then nat n \<le> length bytes \<and> vw_contents v f' p = Some (old @ take (nat n) bytes)
     else n < 0 \<and> e = EINTR \<longrightarrow> vw_contents v f' p = Some old)"
  using assms unfolding write_law_def by blast

lemma write_all_appends:
  assumes "write_all env fd bytes f = Some r" and "write_law env v"
    and "vw_opened v f fd = Some p" and "vw_contents v f p = Some old"
  shows "vw_opened v (snd r) = vw_opened v f \<and> (\<forall>q. q \<noteq> p \<longrightarrow> vw_contents v (snd r) q = vw_contents v f q) \<and>
    (fst r \<longrightarrow> vw_contents v (snd r) p = Some (old @ bytes))"
  using assms
proof (induction env fd bytes f r arbitrary: old rule: write_all.raw_induct [rotated, consumes 1, case_names step])
  case (step rec env fd bytes f r)
  obtain n e f1 where c: "fo_write env fd bytes f = (n, e, f1)" by (cases "fo_write env fd bytes f")
  note w1 = write_step [OF step(3) c step(4,5)]
  show ?case
  proof (cases "bytes = []")
    case True
    then show ?thesis using step(2,5) by auto
  next
    case False
    consider (again) "n < 0" "e = EINTR" | (failed) "n \<le> 0" "\<not> (n < 0 \<and> e = EINTR)" | (some) "0 < n" by linarith
    then show ?thesis
    proof cases
      case again
      then have "rec env fd bytes f1 = Some r" using step(2) False c by simp
      from step(1) [OF this step(3)] show ?thesis using w1 step(4) again by auto
    next
      case failed
      then have "r = (False, f1)" using step(2) False c by (auto split: if_split_asm)
      then show ?thesis using w1 by simp
    next
      case some
      then have "rec env fd (drop (nat n) bytes) f1 = Some r" using step(2) False c by simp
      from step(1) [OF this step(3)] show ?thesis using w1 step(4) some by auto
    qed
  qed
qed

text \<open>The loop ends if the calls are not interrupted.\<close>

lemma write_all_returns:
  assumes "write_law env v" and "vw_opened v f fd = Some p" and "vw_contents v f p = Some old"
    and "\<And>bytes f n e f'. fo_write env fd bytes f = (n, e, f') \<Longrightarrow> \<not> (n < 0 \<and> e = EINTR)"
  shows "\<exists>r. write_all env fd bytes f = Some r"
  using assms(2,3)
proof (induction "length bytes" arbitrary: bytes f old rule: less_induct)
  case less
  obtain n e f1 where c: "fo_write env fd bytes f = (n, e, f1)" by (cases "fo_write env fd bytes f")
  note w1 = write_step [OF assms(1) c less(2,3)]
  show ?case
  proof (cases "bytes = [] \<or> n \<le> 0")
    case True
    then show ?thesis using assms(4) [OF c] by (subst write_all.simps) (auto simp: c)
  next
    case False
    then have "length (drop (nat n) bytes) < length bytes" by simp
    from less(1) [OF this, of f1 "old @ take (nat n) bytes"] w1 less(2) False
    show ?thesis by (subst write_all.simps) (auto simp: c)
  qed
qed

text \<open>What stays fixed from the beginning of an upload to its end.\<close>

definition same_upload :: "('f, 'h) file_world \<Rightarrow> ('f, 'h) file_world \<Rightarrow> bool" where
  "same_upload w w' \<longleftrightarrow>
     tr_total (fw_file w') = tr_total (fw_file w) \<and> tr_expected_hash (fw_file w') = tr_expected_hash (fw_file w) \<and>
     tr_target (fw_file w') = tr_target (fw_file w) \<and> tr_temporary (fw_file w') = tr_temporary (fw_file w) \<and>
     tr_id (fw_file w') = tr_id (fw_file w) \<and> tr_owner (fw_file w') = tr_owner (fw_file w) \<and>
     tr_overwrite (fw_file w') = tr_overwrite (fw_file w)"

lemma others_fields:
  assumes "file_others_ok env v"
  shows "fw_file (fe_others env w) = fw_file w" "fw_lock (fe_others env w) = fw_lock w"
    "vw_opened v (fw_files (fe_others env w)) (tr_fd (fw_file w)) = vw_opened v (fw_files w) (tr_fd (fw_file w))"
    "vw_contents v (fw_files (fe_others env w)) (tr_temporary (fw_file w)) = vw_contents v (fw_files w) (tr_temporary (fw_file w))"
  using assms by (simp_all add: file_others_ok_def)

text \<open>A chunk that is stored extends the staging file; one that is not ends the upload.\<close>

lemma store_chunk_result:
  assumes "file_laws env v" and "file_others_ok env v" and "staged v w bytes"
    and "length bytes + length chunk \<le> unat (tr_total (fw_file w))"
    and "store_chunk env owner chunk w = Some (err, w')"
  shows "if err = None then staged v w' (bytes @ chunk) \<and> same_upload w w'
    else fw_file w' = zero_file env \<or> barred w'"
proof -
  obtain ok f where wr: "write_all env (tr_fd (fw_file w)) chunk (fw_files w) = Some (ok, f)"
    using assms(5) by (auto simp: store_chunk_def split: option.split_asm)
  obtain h_ok h where h: "ho_update env chunk (tr_hash (fw_file w)) = (h_ok, h)" by (cases "ho_update env chunk (tr_hash (fw_file w))")
  define w2 where "w2 = (if ok then on_file (\<lambda>t. t\<lparr>tr_hash := h\<rparr>) (w\<lparr>fw_files := f\<rparr>) else w\<lparr>fw_files := f\<rparr>)"
  define w3 where "w3 = fe_others env w2"
  define fine where "fine \<longleftrightarrow> ok \<and> h_ok \<and> current_owner env owner w3"
  have file2: "fw_file w2 = (if ok then (fw_file w)\<lparr>tr_hash := h\<rparr> else fw_file w)" "fw_files w2 = f"
    by (simp_all add: w2_def on_file_def)
  have file3: "fw_file w3 = fw_file w2" unfolding w3_def by (rule others_fields(1) [OF assms(2)])
  have out: "(err = None) = fine"
    "w' = (if fine
           then on_file (\<lambda>t. t\<lparr>tr_received := tr_received t + of_nat (length chunk), tr_last_ms := fe_now env w3\<rparr>) w3
           else snd (discard env w3))"
    using assms(5) by (auto simp: store_chunk_def wr h fine_def w3_def w2_def Let_def on_file_def split: if_split_asm)
  show ?thesis
  proof (cases fine)
    case True
    have s: "tr_received (fw_file w) = of_nat (length bytes)" "vw_hashed v (tr_hash (fw_file w)) = Some bytes"
      "vw_opened v (fw_files w) (tr_fd (fw_file w)) = Some (tr_temporary (fw_file w))"
      "vw_contents v (fw_files w) (tr_temporary (fw_file w)) = Some bytes"
      using assms(3) by (simp_all add: staged_def)
    have f: "vw_opened v f (tr_fd (fw_file w)) = Some (tr_temporary (fw_file w))"
      "vw_contents v f (tr_temporary (fw_file w)) = Some (bytes @ chunk)"
      using write_all_appends [OF wr _ s(3,4)] assms(1) True s by (simp_all add: file_laws_def fine_def)
    have "vw_hashed v h = Some (bytes @ chunk)"
      using hash_step [OF assms(1) h _ s(2)] True by (simp add: fine_def)
    moreover have "vw_opened v (fw_files w3) (tr_fd (fw_file w)) = Some (tr_temporary (fw_file w))"
      "vw_contents v (fw_files w3) (tr_temporary (fw_file w)) = Some (bytes @ chunk)"
      using others_fields(3,4) [OF assms(2), of w2] f True by (simp_all add: w3_def file2 fine_def)
    ultimately have "staged v w' (bytes @ chunk) \<and> same_upload w w'"
      using assms(3,4) True by (simp add: out(2) on_file_def staged_def same_upload_def file3 file2 fine_def)
    then show ?thesis using out True by simp
  next
    case False
    obtain e w4 where d: "discard env w3 = (e, w4)" by (cases "discard env w3")
    have "tr_active (fw_file w3)" "\<not> tr_poisoned (fw_file w3)" using assms(3) by (simp_all add: file3 file2 staged_def)
    then have "fw_file w4 = zero_file env \<or> barred w4" using discard_file [OF d] by (auto simp: barred_def)
    then show ?thesis using out False d by (cases err) simp_all
  qed
qed

lemma chunk_fits_length:
  assumes "staged v w bytes" and "chunk_fits (fw_file w) offset n"
  shows "length bytes + n \<le> unat (tr_total (fw_file w))"
proof -
  have l: "length bytes \<le> unat (tr_total (fw_file w))" "tr_received (fw_file w) = of_nat (length bytes)"
    using assms(1) by (simp_all add: staged_def)
  have "length bytes < 2 ^ 32" by (rule order_le_less_trans [OF l(1)]) (rule order_less_le_trans [OF unsigned_less], simp)
  then have u: "unat (tr_received (fw_file w)) = length bytes" by (simp add: l(2) unat_of_nat)
  then have "tr_received (fw_file w) \<le> tr_total (fw_file w)" using l(1) by (simp add: word_le_nat_alt)
  then have "unat (tr_total (fw_file w) - tr_received (fw_file w)) = unat (tr_total (fw_file w)) - length bytes"
    using u by (simp add: unat_sub)
  then show ?thesis using assms(2) l(1) by (auto simp: chunk_fits_def)
qed

lemma write_result:
  assumes "file_laws env v" and "file_others_ok env v" and "staged v w bytes"
    and "ev_file_transfer_write env owner payload w = Some (err, received1, w')"
  shows "(err = None \<longrightarrow> staged v w' (bytes @ drop EV_FILE_PREFIX_BYTES payload) \<and> same_upload w w') \<and>
    (w' = w \<or> err = None \<or> fw_file w' = zero_file env \<or> barred w')"
proof (cases "fw_lock w \<and> same_owner (tr_owner (fw_file w)) owner \<and> current_owner env owner w \<and>
    EV_FILE_PREFIX_BYTES < length payload \<and> length payload \<le> EV_FILE_PAYLOAD_MAX \<and> take 16 payload = tr_id (fw_file w) \<and>
    chunk_fits (fw_file w) (chunk_offset payload) (length payload - EV_FILE_PREFIX_BYTES)")
  case False
  then have "err \<noteq> None \<and> w' = w"
    using assms(3,4) by (auto simp: ev_file_transfer_write_def Let_def staged_def split: if_split_asm)
  then show ?thesis by (cases err) simp_all
next
  case True
  then have "length bytes + length (drop EV_FILE_PREFIX_BYTES payload) \<le> unat (tr_total (fw_file w))"
    using chunk_fits_length [OF assms(3)] by (metis length_drop)
  moreover have "store_chunk env owner (drop EV_FILE_PREFIX_BYTES payload) w = Some (err, w')"
    using assms(3,4) True by (auto simp: ev_file_transfer_write_def Let_def staged_def split: option.split_asm)
  ultimately have "if err = None then staged v w' (bytes @ drop EV_FILE_PREFIX_BYTES payload) \<and> same_upload w w'
      else fw_file w' = zero_file env \<or> barred w'"
    by (rule store_chunk_result [OF assms(1-3)])
  then show ?thesis by (auto split: if_split_asm)
qed

section \<open>The beginning\<close>

text \<open>Either the upload has started, with an empty staging file, or nothing is left of it.\<close>

lemma open_staging_result:
  assumes "file_laws env v" and "tr_hash (fw_file w) = ho_init env" and "tr_received (fw_file w) = 0"
    and "tr_active (fw_file w)" and "\<not> tr_poisoned (fw_file w)"
    and "open_staging env upload_id token w = (err, w')"
  shows "tr_active (fw_file w') \<and> \<not> tr_poisoned (fw_file w') \<and>
    (err = None \<longrightarrow> staged v w' [] \<and> tr_id (fw_file w') = token \<and> tr_target (fw_file w') = tr_target (fw_file w) \<and>
       tr_total (fw_file w') = tr_total (fw_file w) \<and> tr_expected_hash (fw_file w') = tr_expected_hash (fw_file w) \<and>
       tr_owner (fw_file w') = tr_owner (fw_file w))"
proof -
  let ?temporary = "tr_target (fw_file w) @ ''.evupload-'' @ upload_id @ ''.tmp''"
  obtain fd f where o: "fo_open env ?temporary (fw_files w) = (fd, f)" by (cases "fo_open env ?temporary (fw_files w)")
  obtain ok h where h: "ho_setup env (ho_init env) = (ok, h)" by (cases "ho_setup env (ho_init env)")
  have opened: "0 \<le> fd \<Longrightarrow> vw_contents v f = (vw_contents v (fw_files w))(?temporary \<mapsto> []) \<and>
      vw_opened v f = (vw_opened v (fw_files w))(fd \<mapsto> ?temporary)"
    using assms(1) o by (auto simp: file_laws_def open_law_def)
  have hashed: "ok \<Longrightarrow> vw_hashed v h = Some []" using assms(1) h by (auto simp: file_laws_def hash_law_def)
  show ?thesis
    using assms(2-6) o h opened hashed
    by (auto simp: open_staging_def Let_def on_file_def staged_def split: if_split_asm)
qed

lemma discard_ends:
  assumes "tr_active (fw_file w)" and "\<not> tr_poisoned (fw_file w)"
  shows "upload_inv v (snd (discard env w))"
proof -
  obtain err w' where d: "discard env w = (err, w')" by (cases "discard env w")
  show ?thesis using discard_file [OF d assms(2)] assms(1) by (auto simp: d upload_inv_def idle_file_def barred_def)
qed

lemma begin_admitted_result:
  assumes "file_laws env v" and "tr_hash (fw_file w) = ho_init env" and "tr_received (fw_file w) = 0" and "\<not> tr_poisoned (fw_file w)"
    and "begin_admitted env owner overwrite total1 digest upload_id token w = (err, w')"
  shows "upload_inv v w' \<and>
    (err = None \<longrightarrow> staged v w' [] \<and> tr_id (fw_file w') = token \<and> tr_target (fw_file w') = tr_target (fw_file w) \<and>
       tr_total (fw_file w') = total1 \<and> tr_expected_hash (fw_file w') = digest \<and> tr_owner (fw_file w') = owner)"
proof -
  define w1 where "w1 = on_file (\<lambda>t. t\<lparr>tr_active := True, tr_owner := owner, tr_overwrite := overwrite, tr_total := total1,
      tr_last_ms := fe_now env w, tr_expected_hash := digest\<rparr>) w"
  obtain status regular e f where s: "fo_stat env (tr_target (fw_file w1)) (fw_files w1) = (status, regular, e, f)"
    by (cases "fo_stat env (tr_target (fw_file w1)) (fw_files w1)")
  let ?w2 = "w1\<lparr>fw_files := f\<rparr>"
  obtain err3 w3 where t: "(if status = 0 \<and> (\<not> overwrite \<or> \<not> regular) then (Some ''FILE_EXISTS'', ?w2)
      else if status \<noteq> 0 \<and> e \<noteq> ENOENT then (Some ''FILE_STAT_FAILED'', ?w2)
      else open_staging env upload_id token ?w2) = (err3, w3)" by (metis surj_pair)
  have file1: "fw_file w1 = (fw_file w)\<lparr>tr_active := True, tr_owner := owner, tr_overwrite := overwrite, tr_total := total1,
      tr_last_ms := fe_now env w, tr_expected_hash := digest\<rparr>" by (simp add: w1_def on_file_def)
  have w3: "tr_active (fw_file w3) \<and> \<not> tr_poisoned (fw_file w3) \<and>
    (err3 = None \<longrightarrow> staged v w3 [] \<and> tr_id (fw_file w3) = token \<and> tr_target (fw_file w3) = tr_target (fw_file w) \<and>
       tr_total (fw_file w3) = total1 \<and> tr_expected_hash (fw_file w3) = digest \<and> tr_owner (fw_file w3) = owner)"
    using t open_staging_result [OF assms(1), of ?w2 upload_id token err3 w3] assms(2-4)
    by (auto simp: file1 split: if_split_asm)
  have "(err3, if err3 \<noteq> None then snd (discard env w3) else w3) = (err, w')"
    using assms(5) by (simp only: begin_admitted_def Let_def w1_def [symmetric] s t prod.case)
  then have out: "err = err3" "w' = (if err3 \<noteq> None then snd (discard env w3) else w3)"
    by (cases err3; auto)+
  show ?thesis
  proof (cases err3)
    case None
    then show ?thesis using w3 out by (auto simp: upload_inv_def)
  next
    case (Some x)
    then show ?thesis using w3 out discard_ends by auto
  qed
qed

lemma begin_result:
  assumes "file_laws env v" and "upload_inv v w"
    and "ev_file_transfer_begin env owner path overwrite total1 sha upload_id w = (err, w')"
  shows "upload_inv v w' \<and>
    (err = None \<longrightarrow> staged v w' [] \<and> current_owner env owner w \<and> tr_owner (fw_file w') = owner \<and>
       tr_total (fw_file w') = total1 \<and> unhex sha 32 = Some (tr_expected_hash (fw_file w')) \<and>
       unhex upload_id 16 = Some (tr_id (fw_file w')) \<and>
       tr_target (fw_file w') = snd (target_of (fe_sdcard_path env) (the path)))"
proof (cases "fw_lock w \<and> current_owner env owner w \<and> \<not> tr_active (fw_file w) \<and> \<not> path_refused (fe_sdcard_path env) path \<and>
    unhex sha 32 \<noteq> None \<and> unhex upload_id 16 \<noteq> None")
  case False
  then have "(\<exists>x. err = Some x) \<and> w' = w"
    using assms(3) by (auto simp: ev_file_transfer_begin_def split: if_split_asm bool.split_asm option.split_asm)
  then show ?thesis using assms(2) by auto
next
  case True
  then obtain digest token where d: "unhex sha 32 = Some digest" "unhex upload_id 16 = Some token" by blast
  obtain volume target where t: "target_of (fe_sdcard_path env) (the path) = (volume, target)"
    by (cases "target_of (fe_sdcard_path env) (the path)")
  define w1 where "w1 = w\<lparr>fw_file := (zero_file env)\<lparr>tr_volume := volume, tr_target := take (FILE_PATH_CAP - 1) target\<rparr>\<rparr>"
  obtain admitted m where m: "esp_vision_msc_writer_vfs_begin (fe_msc env) (fw_msc w1) (volume_number volume) True = (admitted, m)"
    by (cases "esp_vision_msc_writer_vfs_begin (fe_msc env) (fw_msc w1) (volume_number volume) True")
  have idle: "upload_inv v w1" "upload_inv v (w1\<lparr>fw_msc := m\<rparr>)"
    by (simp_all add: w1_def upload_inv_def idle_file_def)
  consider (refused) x where "err = Some x" "w' = w1 \<or> w' = w1\<lparr>fw_msc := m\<rparr>"
    | (admitted) "length target < FILE_PATH_CAP"
        "begin_admitted env owner overwrite total1 digest (the upload_id) token (w1\<lparr>fw_msc := m\<rparr>) = (err, w')"
    using assms(3) True d t m
    by (auto simp: ev_file_transfer_begin_def w1_def Let_def split: if_split_asm)
  then show ?thesis
  proof cases
    case refused
    then show ?thesis using idle by auto
  next
    case admitted
    have "tr_target (fw_file w1) = target" using admitted(1) by (simp add: w1_def)
    moreover have "tr_hash (fw_file (w1\<lparr>fw_msc := m\<rparr>)) = ho_init env" "tr_received (fw_file (w1\<lparr>fw_msc := m\<rparr>)) = 0"
      "\<not> tr_poisoned (fw_file (w1\<lparr>fw_msc := m\<rparr>))"
      by (simp_all add: w1_def zero_file_def)
    ultimately show ?thesis
      using begin_admitted_result [OF assms(1) _ _ _ admitted(2)] True d t by auto
  qed
qed

section \<open>The end\<close>

lemma renames:
  assumes "file_laws ops v" and "fo_rename ops a b f = (r, e, f')" and "a \<noteq> b"
  shows "vw_contents v f' = (if r = 0 then (vw_contents v f)(b := vw_contents v f a, a := None) else vw_contents v f)"
  using assms unfolding file_laws_def rename_law_def by blast

lemma stats: "file_laws ops v \<Longrightarrow> fo_stat ops p f = (status, regular, e, f') \<Longrightarrow> vw_contents v f' = vw_contents v f"
  unfolding file_laws_def stat_law_def same_view_def by blast

lemma unlinks: "file_laws ops v \<Longrightarrow> q \<noteq> p \<Longrightarrow> vw_contents v (fo_unlink ops p f) q = vw_contents v f q"
  by (simp add: file_laws_def rename_law_def)

text \<open>
  The outcome of a commit for the target: the complete new contents, or the old ones; when the old
  file could not be put back, it is in the backup.
\<close>

definition settled ::
  "('f, 'h) file_view \<Rightarrow> cstring \<Rightarrow> cstring \<Rightarrow> u8 list option \<Rightarrow> u8 list option \<Rightarrow> cstring option \<Rightarrow> 'f \<Rightarrow> bool" where
  "settled v target temporary old new err f \<longleftrightarrow>
     (if err = None then vw_contents v f target = new
      else if err = Some ''FILE_ROLLBACK_FAILED'' then vw_contents v f (temporary @ ''.old'') = old
      else vw_contents v f target = old)"

lemma replace_target_result:
  assumes "file_laws env v" and "tr_temporary (fw_file w) = tr_target (fw_file w) @ suffix" and "suffix \<noteq> []"
    and "replace_target env w = (err, w')"
  shows "settled v (tr_target (fw_file w)) (tr_temporary (fw_file w)) (vw_contents v (fw_files w) (tr_target (fw_file w)))
      (vw_contents v (fw_files w) (tr_temporary (fw_file w))) err (fw_files w') \<and>
    fw_file w' = (if err = None then (fw_file w)\<lparr>tr_temporary := []\<rparr> else fw_file w) \<and>
    fw_lock w' = fw_lock w \<and> fw_msc w' = fw_msc w"
proof -
  let ?target = "tr_target (fw_file w)" and ?temporary = "tr_temporary (fw_file w)"
  let ?backup = "?temporary @ ''.old''"
  obtain status regular e f where s: "fo_stat env ?backup (fw_files w) = (status, regular, e, f)"
    by (cases "fo_stat env ?backup (fw_files w)")
  obtain r1 e1 f1 where r1: "fo_rename env ?target ?backup f = (r1, e1, f1)" by (cases "fo_rename env ?target ?backup f")
  obtain r2 e2 f2 where r2: "fo_rename env ?temporary ?target f1 = (r2, e2, f2)" by (cases "fo_rename env ?temporary ?target f1")
  obtain r3 e3 f3 where r3: "fo_rename env ?backup ?target f2 = (r3, e3, f3)" by (cases "fo_rename env ?backup ?target f2")
  have ne: "?target \<noteq> ?backup" "?temporary \<noteq> ?target" "?backup \<noteq> ?target" "?backup \<noteq> ?temporary"
    using assms(2,3) by auto
  note f = stats [OF assms(1) s]
  note f1 = renames [OF assms(1) r1 ne(1)]
  note f2 = renames [OF assms(1) r2 ne(2)]
  note f3 = renames [OF assms(1) r3 ne(3)]
  consider (refused) "FILE_PATH_CAP \<le> length ?backup" | (occupied) "length ?backup < FILE_PATH_CAP" "status = 0 \<or> e \<noteq> ENOENT"
    | (kept) "length ?backup < FILE_PATH_CAP" "\<not> (status = 0 \<or> e \<noteq> ENOENT)" "r1 \<noteq> 0"
    | (moved) "length ?backup < FILE_PATH_CAP" "\<not> (status = 0 \<or> e \<noteq> ENOENT)" "r1 = 0" by linarith
  then show ?thesis
  proof cases
    case refused
    then have "err = Some ''FILE_RENAME_FAILED'' \<and> w' = w" using assms(4) by (simp add: replace_target_def)
    then show ?thesis by (simp add: settled_def)
  next
    case occupied
    then have "err = Some ''FILE_RENAME_FAILED'' \<and> w' = w\<lparr>fw_files := f\<rparr>"
      using assms(4) s by (simp add: replace_target_def Let_def)
    then show ?thesis using f by (simp add: settled_def)
  next
    case kept
    then have "err = Some ''FILE_RENAME_FAILED'' \<and> w' = w\<lparr>fw_files := f1\<rparr>"
      using assms(4) s r1 by (simp add: replace_target_def Let_def)
    then show ?thesis using f f1 kept by (simp add: settled_def)
  next
    case moved
    show ?thesis
    proof (cases "r2 = 0")
      case True
      then have "err = None \<and> w' = (no_staging w)\<lparr>fw_files := fo_unlink env ?backup f2\<rparr>"
        using assms(4) s r1 r2 moved by (simp add: replace_target_def Let_def)
      then show ?thesis using f f1 f2 moved True ne unlinks [OF assms(1) ne(1)]
        by (simp add: settled_def no_staging_def on_file_def)
    next
      case False
      then have "err = Some (if r3 = 0 then ''FILE_RENAME_FAILED'' else ''FILE_ROLLBACK_FAILED'') \<and> w' = w\<lparr>fw_files := f3\<rparr>"
        using assms(4) s r1 r2 r3 moved by (simp add: replace_target_def Let_def)
      then show ?thesis using f f1 f2 f3 moved False ne by (simp add: settled_def)
    qed
  qed
qed

lemma publish_result:
  assumes "file_laws env v" and "tr_temporary (fw_file w) = tr_target (fw_file w) @ suffix" and "suffix \<noteq> []"
    and "publish env w = (err, w')"
  shows "settled v (tr_target (fw_file w)) (tr_temporary (fw_file w)) (vw_contents v (fw_files w) (tr_target (fw_file w)))
      (vw_contents v (fw_files w) (tr_temporary (fw_file w))) err (fw_files w') \<and>
    fw_file w' = (if err = None then (fw_file w)\<lparr>tr_temporary := []\<rparr> else fw_file w) \<and>
    fw_lock w' = fw_lock w \<and> fw_msc w' = fw_msc w"
proof -
  let ?target = "tr_target (fw_file w)" and ?temporary = "tr_temporary (fw_file w)"
  obtain status regular e f where s: "fo_stat env ?target (fw_files w) = (status, regular, e, f)"
    by (cases "fo_stat env ?target (fw_files w)")
  obtain r1 e1 f1 where r1: "fo_rename env ?temporary ?target f = (r1, e1, f1)" by (cases "fo_rename env ?temporary ?target f")
  have ne: "?temporary \<noteq> ?target" using assms(2,3) by auto
  note f = stats [OF assms(1) s]
  note f1 = renames [OF assms(1) r1 ne]
  let ?w2 = "w\<lparr>fw_files := f1\<rparr>"
  let ?stat = "status \<noteq> 0 \<and> e \<noteq> ENOENT" and ?exists = "status = 0 \<and> (\<not> tr_overwrite (fw_file w) \<or> \<not> regular)"
  let ?failed = "status \<noteq> 0 \<or> e1 \<noteq> EEXIST"
  have out: "publish env w =
      (if ?stat then (Some ''FILE_STAT_FAILED'', w\<lparr>fw_files := f\<rparr>)
       else if ?exists then (Some ''FILE_EXISTS'', w\<lparr>fw_files := f\<rparr>)
       else if r1 = 0 then (None, no_staging ?w2)
       else if ?failed then (Some ''FILE_RENAME_FAILED'', ?w2) else replace_target env ?w2)"
    by (simp only: publish_def Let_def s r1 prod.case)
  show ?thesis
  proof (cases "?stat \<or> ?exists")
    case True
    then have "(if ?stat then Some ''FILE_STAT_FAILED'' else Some ''FILE_EXISTS'', w\<lparr>fw_files := f\<rparr>) = (err, w')"
      using assms(4) unfolding out by (cases ?stat) (simp_all only: if_True if_False simp_thms)
    then have "err = (if ?stat then Some ''FILE_STAT_FAILED'' else Some ''FILE_EXISTS'')" and "w' = w\<lparr>fw_files := f\<rparr>"
      by (simp_all only: prod.inject)
    then show ?thesis using f by (simp add: settled_def)
  next
    case False
    then have out: "(if r1 = 0 then (None, no_staging ?w2)
       else if ?failed then (Some ''FILE_RENAME_FAILED'', ?w2) else replace_target env ?w2) = (err, w')"
      using assms(4) unfolding out by (simp only: de_Morgan_disj if_False)
    consider "r1 = 0" | "r1 \<noteq> 0" ?failed | "r1 \<noteq> 0" "\<not> ?failed" by blast
    then show ?thesis
    proof cases
      case 1
      then have "err = None \<and> w' = no_staging ?w2" using out by simp
      then show ?thesis using f f1 ne 1 by (simp add: settled_def no_staging_def on_file_def)
    next
      case 2
      then have "err = Some ''FILE_RENAME_FAILED'' \<and> w' = ?w2" using out by simp
      then show ?thesis using f f1 2 by (simp add: settled_def)
    next
      case 3
      then have "replace_target env ?w2 = (err, w')" using out by simp
      moreover have "vw_contents v (fw_files ?w2) = vw_contents v (fw_files w)" using f f1 3 by simp
      ultimately show ?thesis using replace_target_result [OF assms(1), of ?w2 suffix err w'] assms(2,3) by simp
    qed
  qed
qed

text \<open>The other tasks leave the target alone, too; only needed for what a failed commit leaves there.\<close>

definition others_keep_target :: "('f, 'h) file_env \<Rightarrow> ('f, 'h) file_view \<Rightarrow> bool" where
  "others_keep_target env v \<longleftrightarrow> (\<forall>w. vw_contents v (fw_files (fe_others env w)) (tr_target (fw_file w)) =
     vw_contents v (fw_files w) (tr_target (fw_file w)))"

lemma commit_result:
  assumes "file_laws env v" and "file_others_ok env v" and "staged v w bytes"
    and "commit_file env owner w = (err, received1, w')"
  shows "(err = None \<longrightarrow> vw_contents v (fw_files w') (tr_target (fw_file w)) = Some bytes \<and>
       vw_sha256 v bytes = tr_expected_hash (fw_file w) \<and> length (tr_expected_hash (fw_file w)) = 32 \<and>
       fw_file w' = (fw_file w)\<lparr>tr_fd := - 1, tr_temporary := []\<rparr>) \<and>
     (err \<noteq> None \<longrightarrow> tr_active (fw_file w') \<and> tr_temporary (fw_file w') = tr_temporary (fw_file w)) \<and>
     (others_keep_target env v \<longrightarrow> settled v (tr_target (fw_file w)) (tr_temporary (fw_file w))
       (vw_contents v (fw_files w) (tr_target (fw_file w))) (Some bytes) err (fw_files w'))"
proof -
  let ?t = "fw_file w"
  obtain finished hash where h: "ho_finish env (tr_hash ?t) = (finished, hash)" by (cases "ho_finish env (tr_hash ?t)")
  obtain synced f where y: "fo_fsync env (tr_fd ?t) (fw_files w) = (synced, f)" by (cases "fo_fsync env (tr_fd ?t) (fw_files w)")
  define w1 where "w1 = fe_others env (w\<lparr>fw_files := f\<rparr>)"
  obtain closed w2 where c: "close_file env w1 = (closed, w2)" by (cases "close_file env w1")
  obtain err3 w3 where p: "publish env w2 = (err3, w3)" by (cases "publish env w2")
  have fl: "fw_file w1 = ?t" "fw_file w2 = ?t\<lparr>tr_fd := - 1\<rparr>"
    using others_fields(1) [OF assms(2), of "w\<lparr>fw_files := f\<rparr>"] close_file_fields [OF c] by (simp_all add: w1_def)
  have same: "vw_contents v f = vw_contents v (fw_files w)" "vw_opened v f = vw_opened v (fw_files w)"
    using assms(1) y unfolding file_laws_def sync_law_def same_view_def by blast+
  have temp1: "vw_contents v (fw_files w1) (tr_temporary ?t) = Some bytes"
    using others_fields(4) [OF assms(2), of "w\<lparr>fw_files := f\<rparr>"] assms(3) same by (simp add: w1_def staged_def)
  have target1: "others_keep_target env v \<Longrightarrow> vw_contents v (fw_files w1) (tr_target ?t) = vw_contents v (fw_files w) (tr_target ?t)"
    using same unfolding others_keep_target_def w1_def by (drule_tac spec [of _ "w\<lparr>fw_files := f\<rparr>"]) simp
  note close = close_file_contents [OF assms(1) c]
  obtain suffix where suffix: "suffix \<noteq> []" "tr_temporary ?t = tr_target ?t @ suffix" using assms(3) by (auto simp: staged_def)
  have active: "tr_active ?t" using assms(3) by (simp add: staged_def)
  let ?mismatch = "\<not> finished \<or> length hash \<noteq> 32 \<or> hash \<noteq> tr_expected_hash ?t"
  let ?lost = "\<not> current_owner env owner w1"
  have out: "commit_file env owner w =
      (if ?mismatch then (Some ''HASH_MISMATCH'', None, w)
       else if synced \<noteq> 0 then (Some ''FILE_SYNC_FAILED'', None, w1)
       else if ?lost then (Some ''SESSION_LOST'', None, w1)
       else if \<not> closed then (Some ''FILE_CLOSE_FAILED'', None, poison w2)
       else (err3, Some (tr_received (fw_file w3)), w3))"
    by (simp only: commit_file_def Let_def h y w1_def [symmetric] c p prod.case)
  show ?thesis
  proof (cases "?mismatch \<or> synced \<noteq> 0 \<or> ?lost \<or> \<not> closed")
    case True
    let ?err = "if ?mismatch then ''HASH_MISMATCH'' else if synced \<noteq> 0 then ''FILE_SYNC_FAILED''
        else if ?lost then ''SESSION_LOST'' else ''FILE_CLOSE_FAILED''"
    let ?w = "if ?mismatch then w else if synced \<noteq> 0 \<or> ?lost then w1 else poison w2"
    have "commit_file env owner w = (Some ?err, None, ?w)"
      unfolding out using True by (cases ?mismatch; cases "synced \<noteq> 0"; cases ?lost; simp only: if_True if_False simp_thms)
    then have e: "err = Some ?err" "w' = ?w" using assms(4) by (simp_all only: prod.inject)
    have "fw_file w' = ?t \<or> fw_file w' = ?t\<lparr>tr_fd := - 1, tr_poisoned := True\<rparr>"
      unfolding e(2) using fl by (simp add: poison_def on_file_def)
    moreover have "fw_files w' = fw_files w \<or> fw_files w' = fw_files w1 \<or> fw_files w' = fw_files w2"
      unfolding e(2) by (simp add: poison_def on_file_def)
    ultimately have "tr_active (fw_file w') \<and> tr_temporary (fw_file w') = tr_temporary ?t \<and>
        (others_keep_target env v \<longrightarrow> vw_contents v (fw_files w') (tr_target ?t) = vw_contents v (fw_files w) (tr_target ?t))"
      using active target1 close by auto
    moreover have "err \<noteq> None \<and> err \<noteq> Some ''FILE_ROLLBACK_FAILED''" unfolding e(1) by simp
    ultimately show ?thesis by (cases err) (simp_all add: settled_def)
  next
    case False
    then have g: "finished" "length hash = 32" "hash = tr_expected_hash ?t" by blast+
    have n: "\<not> ?mismatch" "\<not> synced \<noteq> 0" "\<not> ?lost" "\<not> \<not> closed" using False by blast+
    have "commit_file env owner w = (err3, Some (tr_received (fw_file w3)), w3)"
      unfolding out using False by (simp only: if_not_P [OF n(1)] if_not_P [OF n(2)] if_not_P [OF n(3)] if_not_P [OF n(4)])
    then have e: "err = err3" "w' = w3" using assms(4) by (simp_all only: prod.inject)
    have "ho_finish env (tr_hash ?t) = (True, hash)" "vw_hashed v (tr_hash ?t) = Some bytes"
      using h g(1) assms(3) by (simp_all add: staged_def)
    then have "hash = vw_sha256 v bytes" using assms(1) unfolding file_laws_def hash_law_def by blast
    moreover have "settled v (tr_target ?t) (tr_temporary ?t) (vw_contents v (fw_files w2) (tr_target ?t))
        (vw_contents v (fw_files w2) (tr_temporary ?t)) err3 (fw_files w3) \<and>
      fw_file w3 = (if err3 = None then (fw_file w2)\<lparr>tr_temporary := []\<rparr> else fw_file w2)"
      using publish_result [OF assms(1) _ suffix(1) p] suffix(2) fl by simp
    ultimately show ?thesis
      using temp1 target1 close active g(2,3) by (auto simp: e fl settled_def)
  qed
qed

end
