(* ===== verification/FileUpload.thy ===== *)
theory FileUpload
  imports FileTransferProps
begin

text \<open>
  The properties of whole uploads: the invariant over any sequence of calls, what a sequence of
  chunks followed by a commit leaves at the target, what a commit that fails leaves there, who may
  write, that an upload that was abandoned is given up, and that it holds the volume against the USB
  host from its beginning to its end.
\<close>

section \<open>Runs\<close>

datatype file_op =
    Begin ev_session_snapshot_t "cstring option" bool u32 "cstring option" "cstring option"
  | Chunk ev_session_snapshot_t "u8 list"
  | End ev_session_snapshot_t "cstring option" bool
  | Poll bool
  | Others

text \<open>\<open>None\<close> means that the call does not return.\<close>

fun file_step :: "('f, 'h) file_env \<Rightarrow> ('f, 'h) file_world \<Rightarrow> file_op \<Rightarrow> ('f, 'h) file_world option" where
  "file_step env w (Begin owner path overwrite total1 sha upload_id) =
     Some (snd (ev_file_transfer_begin env owner path overwrite total1 sha upload_id w))"
| "file_step env w (Chunk owner payload) = map_option (\<lambda>(err, received1, w1). w1) (ev_file_transfer_write env owner payload w)"
| "file_step env w (End owner upload_id commit) =
     Some (snd (snd (ev_file_transfer_end env owner upload_id commit w)))"
| "file_step env w (Poll available) = Some (ev_file_transfer_poll env available w)"
| "file_step env w Others = Some (fe_others env w)"

fun file_run :: "('f, 'h) file_env \<Rightarrow> ('f, 'h) file_world \<Rightarrow> file_op list \<Rightarrow> ('f, 'h) file_world option" where
  "file_run env w [] = Some w"
| "file_run env w (op # ops) = (case file_step env w op of None \<Rightarrow> None | Some w1 \<Rightarrow> file_run env w1 ops)"

section \<open>The invariant\<close>

lemma others_inv: "file_others_ok env v \<Longrightarrow> upload_inv v w \<Longrightarrow> upload_inv v (fe_others env w)"
  by (auto simp: upload_inv_def idle_file_def barred_def staged_def others_fields)

lemma zero_inv: "fw_file w = zero_file ops \<Longrightarrow> upload_inv v w"
  by (simp add: upload_inv_def idle_file_def)

lemma write_inv:
  assumes "file_laws env v" and "file_others_ok env v" and "upload_inv v w"
    and "ev_file_transfer_write env owner payload w = Some (err, received1, w')"
  shows "upload_inv v w'"
proof (cases "\<exists>bytes. staged v w bytes")
  case True
  then obtain bytes where s: "staged v w bytes" by blast
  show ?thesis
    using write_result [OF assms(1,2) s assms(4)] assms(3) zero_inv [of w' env v] by (auto simp: upload_inv_def)
next
  case False
  then have "w' = w"
    using assms(3,4) by (auto simp: upload_inv_def idle_file_def barred_def ev_file_transfer_write_def Let_def split: if_split_asm)
  then show ?thesis using assms(3) by simp
qed

text \<open>The end of a commit is the commit followed by giving up what is left of the upload.\<close>

lemma end_commits:
  assumes "staged v w bytes" and "ev_file_transfer_end env owner upload_id True w = (err, received1, w')"
  shows "(\<exists>x. err = Some x \<and> x \<noteq> ''FILE_ROLLBACK_FAILED'' \<and> x \<noteq> ''STORAGE_QUARANTINED'' \<and> w' = w) \<or>
    tr_received (fw_file w) = tr_total (fw_file w) \<and>
    (\<exists>err1 w1 cleanup. commit_file env owner w = (err1, received1, w1) \<and> discard env w1 = (cleanup, w') \<and>
       err = (if err1 = None then cleanup else err1))"
proof -
  obtain err1 received2 w1 where c: "commit_file env owner w = (err1, received2, w1)" by (cases "commit_file env owner w")
  obtain cleanup w2 where d: "discard env w1 = (cleanup, w2)" by (cases "discard env w1")
  show ?thesis
    using assms by (auto simp: ev_file_transfer_end_def Let_def c d staged_def split: if_split_asm)
qed

lemma discard_active_inv: "tr_active (fw_file w) \<Longrightarrow> upload_inv v (snd (discard env w))"
  by (cases "tr_poisoned (fw_file w)") (simp_all add: discard_ends, simp add: discard_def upload_inv_def barred_def)

lemma end_inv:
  assumes "file_laws env v" and "file_others_ok env v" and "upload_inv v w"
    and "ev_file_transfer_end env owner upload_id commit w = (err, received1, w')"
  shows "upload_inv v w'"
proof (cases "commit \<and> (\<exists>bytes. staged v w bytes)")
  case True
  then obtain bytes where s: "staged v w bytes" by blast
  consider "w' = w" | err1 w1 where "commit_file env owner w = (err1, received1, w1)" "w' = snd (discard env w1)"
    using end_commits [OF s] assms(4) True by fastforce
  then show ?thesis
  proof cases
    case 1
    then show ?thesis using assms(3) by simp
  next
    case (2 err1 w1)
    have "tr_active (fw_file w1)"
      using commit_result [OF assms(1,2) s 2(1)] s by (cases err1) (auto simp: staged_def)
    then show ?thesis by (simp add: 2 discard_active_inv)
  qed
next
  case False
  then have "w' = w \<or> w' = snd (discard env w)"
    using assms(3,4)
    by (auto simp: upload_inv_def idle_file_def barred_def ev_file_transfer_end_def Let_def split: if_split_asm prod.split_asm)
  then show ?thesis using assms(3) discard_inv by auto
qed

lemma step_inv:
  assumes "file_laws env v" and "file_others_ok env v" and "upload_inv v w" and "file_step env w op = Some w'"
  shows "upload_inv v w'"
proof (cases op)
  case (Begin owner path overwrite total1 sha upload_id)
  then show ?thesis
    using assms begin_result [OF assms(1,3)] by (cases "ev_file_transfer_begin env owner path overwrite total1 sha upload_id w") auto
next
  case (Chunk owner payload)
  then show ?thesis using assms(4) write_inv [OF assms(1-3)] by auto
next
  case (End owner upload_id commit)
  then show ?thesis
    using assms end_inv [OF assms(1-3)] by (cases "ev_file_transfer_end env owner upload_id commit w") auto
next
  case (Poll available)
  then show ?thesis using assms(3,4) discard_inv [OF assms(3)] by (auto simp: ev_file_transfer_poll_def split: if_split_asm)
next
  case Others
  then show ?thesis using assms others_inv by auto
qed

lemma file_run_inv:
  "file_laws env v \<Longrightarrow> file_others_ok env v \<Longrightarrow> upload_inv v w \<Longrightarrow> file_run env w ops = Some w' \<Longrightarrow> upload_inv v w'"
  by (induction ops arbitrary: w) (auto split: option.split_asm dest: step_inv)

section \<open>An upload from its beginning to its end\<close>

text \<open>A client that sends chunks until one is refused; other tasks run between the calls.\<close>

fun upload_chunks ::
  "('f, 'h) file_env \<Rightarrow> ev_session_snapshot_t \<Rightarrow> u8 list list \<Rightarrow> ('f, 'h) file_world
     \<Rightarrow> (cstring option \<times> ('f, 'h) file_world) option" where
  "upload_chunks env owner [] w = Some (None, w)"
| "upload_chunks env owner (payload # payloads) w =
     (case ev_file_transfer_write env owner payload (fe_others env w) of None \<Rightarrow> None
      | Some (err, received1, w1) \<Rightarrow> if err = None then upload_chunks env owner payloads w1 else Some (err, w1))"

definition chunk_bytes :: "u8 list list \<Rightarrow> u8 list" where
  "chunk_bytes payloads = concat (map (drop EV_FILE_PREFIX_BYTES) payloads)"

lemma others_staged:
  "file_others_ok env v \<Longrightarrow> staged v w bytes \<Longrightarrow> staged v (fe_others env w) bytes \<and> same_upload w (fe_others env w)"
  by (simp add: staged_def same_upload_def others_fields)

lemma upload_chunks_result:
  assumes "file_laws env v" and "file_others_ok env v" and "staged v w bytes" and "upload_chunks env owner payloads w = Some (None, w')"
  shows "staged v w' (bytes @ chunk_bytes payloads) \<and> same_upload w w'"
  using assms(3,4)
proof (induction payloads arbitrary: w bytes)
  case Nil
  then show ?case by (simp add: chunk_bytes_def same_upload_def)
next
  case (Cons payload payloads)
  obtain received1 w1 where wr: "ev_file_transfer_write env owner payload (fe_others env w) = Some (None, received1, w1)"
    "upload_chunks env owner payloads w1 = Some (None, w')"
    using Cons(3) by (auto split: option.split_asm if_split_asm)
  have o: "staged v (fe_others env w) bytes" "same_upload w (fe_others env w)"
    using others_staged [OF assms(2) Cons(2)] by simp_all
  then have w1: "staged v w1 (bytes @ drop EV_FILE_PREFIX_BYTES payload)" "same_upload (fe_others env w) w1"
    using write_result [OF assms(1,2) o(1) wr(1)] by simp_all
  from Cons(1) [OF w1(1) wr(2)] show ?case
    using o(2) w1(2) by (simp add: chunk_bytes_def same_upload_def)
qed

lemma end_result:
  assumes "file_laws env v" and "file_others_ok env v" and "staged v w bytes"
    and "ev_file_transfer_end env owner upload_id True w = (None, received1, w')"
  shows "vw_contents v (fw_files w') (tr_target (fw_file w)) = Some bytes \<and>
    vw_sha256 v bytes = tr_expected_hash (fw_file w) \<and> length bytes = unat (tr_total (fw_file w)) \<and>
    fw_file w' = zero_file env"
proof -
  obtain w1 where c: "commit_file env owner w = (None, received1, w1)" "discard env w1 = (None, w')"
    "tr_received (fw_file w) = tr_total (fw_file w)"
    using end_commits [OF assms(3,4)] by (auto split: if_split_asm)
  have s: "length bytes \<le> unat (tr_total (fw_file w))" "tr_received (fw_file w) = of_nat (length bytes)" "\<not> tr_poisoned (fw_file w)"
    using assms(3) by (simp_all add: staged_def)
  have "length bytes < 2 ^ 32" by (rule order_le_less_trans [OF s(1)]) (rule order_less_le_trans [OF unsigned_less], simp)
  then have "unat (of_nat (length bytes) :: u32) = length bytes" by (simp add: unat_of_nat)
  then have "length bytes = unat (tr_total (fw_file w))" using s(2) c(3) by simp
  moreover have r: "vw_contents v (fw_files w1) (tr_target (fw_file w)) = Some bytes"
    "vw_sha256 v bytes = tr_expected_hash (fw_file w)" "fw_file w1 = (fw_file w)\<lparr>tr_fd := - 1, tr_temporary := []\<rparr>"
    using commit_result [OF assms(1-3) c(1)] by simp_all
  moreover have "fw_file w' = zero_file env"
    using discard_file [OF c(2)] s(3) by (auto simp: r(3))
  moreover have "fw_files w' = fw_files w1"
    using c(2) s(3) by (auto simp: discard_def Let_def r(3) split: prod.split_asm if_split_asm)
  ultimately show ?thesis by simp
qed

text \<open>
  Property C26: a file that was committed is the file that was sent. If an upload begins, a sequence of
  chunks is accepted and the commit succeeds, the target holds exactly the bytes of these
  chunks in their order, their number is the announced size, and their SHA-256 digest is the
  announced one; the device is ready for the next upload.
\<close>

theorem committed_file_is_the_upload:
  assumes "file_laws env v" and "file_others_ok env v" and "upload_inv v w"
    and "ev_file_transfer_begin env owner path overwrite total1 sha upload_id w = (None, w0)"
    and "upload_chunks env owner payloads w0 = Some (None, w1)"
    and "ev_file_transfer_end env owner upload_id True (fe_others env w1) = (None, received1, w2)"
  shows "vw_contents v (fw_files w2) (snd (target_of (fe_sdcard_path env) (the path))) = Some (chunk_bytes payloads) \<and>
    length (chunk_bytes payloads) = unat total1 \<and> unhex sha 32 = Some (vw_sha256 v (chunk_bytes payloads)) \<and>
    \<not> tr_active (fw_file w2)"
proof -
  have b: "staged v w0 []" "tr_total (fw_file w0) = total1" "unhex sha 32 = Some (tr_expected_hash (fw_file w0))"
    "tr_target (fw_file w0) = snd (target_of (fe_sdcard_path env) (the path))"
    using begin_result [OF assms(1,3,4)] by simp_all
  have c: "staged v w1 (chunk_bytes payloads)" "same_upload w0 w1"
    using upload_chunks_result [OF assms(1,2) b(1) assms(5)] by simp_all
  have o: "staged v (fe_others env w1) (chunk_bytes payloads)" "same_upload w1 (fe_others env w1)"
    using others_staged [OF assms(2) c(1)] by simp_all
  show ?thesis
    using end_result [OF assms(1,2) o(1) assms(6)] b c(2) o(2) by (simp add: same_upload_def)
qed

lemma replace_target_error: "fst (replace_target env w) \<noteq> Some ''STORAGE_QUARANTINED''"
  by (simp add: replace_target_def Let_def split: prod.split)

lemma publish_error: "fst (publish env w) \<noteq> Some ''STORAGE_QUARANTINED''"
  by (auto simp: publish_def Let_def replace_target_error split: prod.split)

lemma commit_error: "fst (commit_file env owner w) \<noteq> Some ''STORAGE_QUARANTINED''"
proof -
  have "fst (case publish env w2 of (err, w3) \<Rightarrow> (err, Some (tr_received (fw_file w3)), w3)) \<noteq> Some ''STORAGE_QUARANTINED''" for w2
    using publish_error [of env w2] by (cases "publish env w2") simp
  then show ?thesis by (simp add: commit_file_def Let_def split: prod.split)
qed

text \<open>
  Property C27: a commit never leaves half a file. If it succeeds the target has the complete new contents;
  if it fails the target has what it had before, except that a volume whose gate failed after the
  rename has the complete new contents, and that after a failed rollback the old contents are in
  the backup file.
\<close>

theorem commit_is_all_or_nothing:
  assumes "file_laws env v" and "file_others_ok env v" and "others_keep_target env v" and "staged v w bytes"
    and "ev_file_transfer_end env owner upload_id True w = (err, received1, w')"
  shows "if err = None \<or> err = Some ''STORAGE_QUARANTINED''
    then vw_contents v (fw_files w') (tr_target (fw_file w)) = Some bytes
    else if err = Some ''FILE_ROLLBACK_FAILED''
    then vw_contents v (fw_files w') (tr_temporary (fw_file w) @ ''.old'') = vw_contents v (fw_files w) (tr_target (fw_file w))
    else vw_contents v (fw_files w') (tr_target (fw_file w)) = vw_contents v (fw_files w) (tr_target (fw_file w))"
proof -
  let ?target = "tr_target (fw_file w)" and ?temporary = "tr_temporary (fw_file w)"
  obtain suffix where "suffix \<noteq> []" "?temporary = ?target @ suffix" using assms(4) by (auto simp: staged_def)
  then have ne: "?target \<noteq> ?temporary" "?temporary @ ''.old'' \<noteq> ?temporary" by auto
  consider (refused) x where "err = Some x" "x \<noteq> ''FILE_ROLLBACK_FAILED''" "x \<noteq> ''STORAGE_QUARANTINED''" "w' = w"
    | (tried) err1 w1 cleanup where "commit_file env owner w = (err1, received1, w1)" "discard env w1 = (cleanup, w')"
        "err = (if err1 = None then cleanup else err1)"
    using end_commits [OF assms(4,5)] by blast
  then show ?thesis
  proof cases
    case refused
    then show ?thesis by simp
  next
    case (tried err1 w1 cleanup)
    note r = commit_result [OF assms(1,2,4) tried(1)]
    show ?thesis
    proof (cases err1)
      case None
      then have f: "fw_file w1 = (fw_file w)\<lparr>tr_fd := - 1, tr_temporary := []\<rparr>" using r by simp
      have "\<not> tr_poisoned (fw_file w)" using assms(4) by (simp add: staged_def)
      then have "fw_files w' = fw_files w1 \<and> (cleanup = None \<or> cleanup = Some ''STORAGE_QUARANTINED'')"
        using tried(2) by (auto simp: discard_def Let_def f split: prod.split_asm if_split_asm)
      then show ?thesis using r tried(3) None by auto
    next
      case (Some x)
      then have e: "err = Some x" "x \<noteq> ''STORAGE_QUARANTINED''"
        using tried(3) commit_error [of env owner w] tried(1) by simp_all
      have t: "tr_temporary (fw_file w1) = ?temporary" using r Some by simp
      have "settled v ?target ?temporary (vw_contents v (fw_files w) ?target) (Some bytes) (Some x) (fw_files w')"
        using r assms(3) Some discard_contents [OF assms(1) tried(2)] ne by (simp add: settled_def t)
      then show ?thesis using e by (simp add: settled_def)
    qed
  qed
qed

section \<open>Strangers and abandoned uploads\<close>

text \<open>The calls that a client with the snapshot \<open>who\<close> can make.\<close>

fun caller :: "file_op \<Rightarrow> ev_session_snapshot_t option" where
  "caller (Begin who path overwrite total1 sha upload_id) = Some who"
| "caller (Chunk who payload) = Some who"
| "caller (End who upload_id commit) = Some who"
| "caller (Poll available) = None"
| "caller Others = None"

text \<open>
  An active upload belongs to the client that began it. A call in the name of another client,
  or of the same one in an older session, epoch or generation, changes nothing.
\<close>

theorem upload_belongs_to_its_owner:
  assumes "tr_active (fw_file w)" and "caller op = Some who"
    and "\<not> same_owner (tr_owner (fw_file w)) who \<or> \<not> current_owner env who w"
  shows "file_step env w op = Some w"
  using assms
  by (cases op) (auto simp: ev_file_transfer_begin_def ev_file_transfer_write_def ev_file_transfer_end_def Let_def)

text \<open>
  An upload that was abandoned is given up: a poll that finds its session gone, or 30 seconds
  after the last chunk, closes it, and the next client can begin, unless the file system refuses to close the
  staging file; then the upload stays and bars every other.
\<close>

theorem abandoned_upload_is_given_up:
  assumes "upload_inv v w" and "fw_lock w" and "tr_active (fw_file w)"
    and "\<not> current_owner env (tr_owner (fw_file w)) w \<or> FILE_IDLE_MS \<le> fe_now env w - tr_last_ms (fw_file w)"
  shows "fw_file (ev_file_transfer_poll env True w) = zero_file env \<or>
    barred (ev_file_transfer_poll env True w) \<and>
      (barred w \<or> fst (fo_close env (tr_fd (fw_file w)) (fw_files w)) \<noteq> 0)"
proof -
  obtain err w' where d: "discard env w = (err, w')" by (cases "discard env w")
  have p: "ev_file_transfer_poll env True w = w'" using assms(2-4) by (simp add: ev_file_transfer_poll_def d)
  show ?thesis
  proof (cases "tr_poisoned (fw_file w)")
    case True
    then have "w' = w" using d by (simp add: discard_def)
    then show ?thesis using True assms(3) by (simp add: p barred_def)
  next
    case False
    show ?thesis
    proof (cases "fw_file w' = zero_file env")
      case True
      then show ?thesis by (simp add: p)
    next
      case False
      then have f: "fw_file w' = (fw_file w)\<lparr>tr_fd := - 1, tr_poisoned := True\<rparr>" "0 \<le> tr_fd (fw_file w)"
        using discard_file [OF d] \<open>\<not> tr_poisoned (fw_file w)\<close> by blast+
      have "fst (fo_close env (tr_fd (fw_file w)) (fw_files w)) \<noteq> 0"
      proof
        assume "fst (fo_close env (tr_fd (fw_file w)) (fw_files w)) = 0"
        then have "fst (close_file env w)" by (simp add: close_file_def split_beta)
        then have "fw_file w' = zero_file env"
          using d f(2) \<open>\<not> tr_poisoned (fw_file w)\<close> by (auto simp: discard_def Let_def split: prod.split_asm if_split_asm)
        with False show False by simp
      qed
      then show ?thesis using f(1) assms(3) by (simp add: p barred_def)
    qed
  qed
qed

section \<open>The volume of an upload\<close>

definition held :: "('f, 'h) file_world \<Rightarrow> esp_vision_storage_volume \<Rightarrow> u32" where
  "held w vol = (if tr_active (fw_file w) \<and> tr_volume (fw_file w) = vol then 1 else 0)"

definition transfers :: "('f, 'h) file_world \<Rightarrow> esp_vision_storage_volume \<Rightarrow> u32" where
  "transfers w vol = wg_in_flight_io (mw_gate (fw_msc w) vol)"

text \<open>The writer is initialised, and the upload has added its transfer to the \<open>base\<close> of the others.\<close>

definition balanced :: "('f, 'h) file_env \<Rightarrow> (esp_vision_storage_volume \<Rightarrow> u32) \<Rightarrow> ('f, 'h) file_world \<Rightarrow> bool" where
  "balanced env base w \<longleftrightarrow> (\<forall>vol. msc_ready (fe_msc env) (fw_msc w) (volume_number vol) = Some vol) \<and>
     (\<forall>vol. transfers w vol = base vol + held w vol) \<and>
     (tr_active (fw_file w) \<longrightarrow> base (tr_volume (fw_file w)) \<noteq> - 1)"

definition same_hold :: "('f, 'h) file_world \<Rightarrow> ('f, 'h) file_world \<Rightarrow> bool" where
  "same_hold w w' \<longleftrightarrow> fw_msc w' = fw_msc w \<and> tr_active (fw_file w') = tr_active (fw_file w) \<and>
     tr_volume (fw_file w') = tr_volume (fw_file w)"

definition others_keep_gate :: "('f, 'h) file_env \<Rightarrow> bool" where
  "others_keep_gate env \<longleftrightarrow> (\<forall>w. fw_msc (fe_others env w) = fw_msc w)"

lemma balanced_same: "balanced env base w \<Longrightarrow> same_hold w w' \<Longrightarrow> balanced env base w'"
  by (simp add: balanced_def same_hold_def transfers_def held_def)

lemma ready_gate: "msc_ready env (set_gate vol g s) n = msc_ready env s n"
  by (simp add: msc_ready_def set_gate_def split: option.split)

lemma vfs_begin_gate:
  assumes "msc_ready env s (volume_number vol) = Some vol"
    and "esp_vision_msc_writer_vfs_begin env s (volume_number vol) b = (True, s')"
  shows "wg_in_flight_io (mw_gate s vol) \<noteq> - 1" "\<exists>g. s' = set_gate vol g s \<and> wg_in_flight_io g = wg_in_flight_io (mw_gate s vol) + 1"
  using assms by (auto simp: esp_vision_msc_writer_vfs_begin_def on_gate_def writer_begin_vfs_io_def Let_def split: if_split_asm)

lemma vfs_begin_refused:
  assumes "esp_vision_msc_writer_vfs_begin env s n b = (False, s')"
  shows "s' = s"
  using assms
  by (auto simp: esp_vision_msc_writer_vfs_begin_def on_gate_def writer_begin_vfs_io_def Let_def set_gate_def
      split: if_split_asm option.split_asm)

lemma vfs_finish_gate:
  assumes "msc_ready env s (volume_number vol) = Some vol" and "wg_in_flight_io (mw_gate s vol) \<noteq> 0"
  shows "\<exists>g. esp_vision_msc_writer_vfs_finish env s (volume_number vol) = (True, set_gate vol g s) \<and>
    wg_in_flight_io g = wg_in_flight_io (mw_gate s vol) - 1"
  using assms
  by (intro exI conjI) (simp add: esp_vision_msc_writer_vfs_finish_def on_gate_def writer_finish_vfs_io_def Let_def, simp)

lemma gate_after: "mw_gate (set_gate vol g s) = (mw_gate s)(vol := g)"
  by (simp add: set_gate_def)

text \<open>Giving up returns the transfer, once.\<close>

lemma discard_balanced:
  assumes "balanced env base w"
  shows "balanced env base (snd (discard env w))"
proof (cases "tr_poisoned (fw_file w)")
  case True
  then show ?thesis using assms by (simp add: discard_def)
next
  case False
  obtain closed w1 where c: "(if 0 \<le> tr_fd (fw_file w) then close_file env w else (True, w)) = (closed, w1)"
    by (cases "if 0 \<le> tr_fd (fw_file w) then close_file env w else (True, w)")
  have w1: "same_hold w w1"
    using c close_file_fields [of env w closed w1] by (auto simp: same_hold_def split: if_split_asm)
  then have b: "balanced env base w1" by (rule balanced_same [OF assms])
  show ?thesis
  proof (cases closed)
    case False
    then have "snd (discard env w) = poison w1" using \<open>\<not> tr_poisoned (fw_file w)\<close> by (simp add: discard_def c)
    then show ?thesis using balanced_same [OF b] by (simp add: same_hold_def poison_def on_file_def)
  next
    case True
    let ?vol = "tr_volume (fw_file w1)"
    show ?thesis
    proof (cases "tr_active (fw_file w1)")
      case False
      then have "fw_msc (snd (discard env w)) = fw_msc w1" "fw_file (snd (discard env w)) = zero_file env"
        using True \<open>\<not> tr_poisoned (fw_file w)\<close> by (simp_all add: discard_def c Let_def)
      then show ?thesis using b False by (simp add: balanced_def transfers_def held_def)
    next
      case active: True
      have "base ?vol \<noteq> - 1" "transfers w1 ?vol = base ?vol + 1" using b active by (simp_all add: balanced_def held_def)
      then have "wg_in_flight_io (mw_gate (fw_msc w1) ?vol) \<noteq> 0" by (simp add: transfers_def eq_neg_iff_add_eq_0)
      then obtain g where g: "esp_vision_msc_writer_vfs_finish (fe_msc env) (fw_msc w1) (volume_number ?vol) =
          (True, set_gate ?vol g (fw_msc w1))" "wg_in_flight_io g = wg_in_flight_io (mw_gate (fw_msc w1) ?vol) - 1"
        using vfs_finish_gate [of "fe_msc env" "fw_msc w1" ?vol] b by (auto simp: balanced_def)
      then have "fw_msc (snd (discard env w)) = set_gate ?vol g (fw_msc w1)" "fw_file (snd (discard env w)) = zero_file env"
        using True active \<open>\<not> tr_poisoned (fw_file w)\<close> by (simp_all add: discard_def c Let_def)
      then show ?thesis using b active g(2)
        by (auto simp: balanced_def transfers_def held_def ready_gate gate_after)
    qed
  qed
qed

lemma balanced_discard_same: "balanced env base w \<Longrightarrow> same_hold w w1 \<Longrightarrow> balanced env base (snd (discard env w1))"
  using balanced_same discard_balanced by blast

lemma same_hold_on_file [simp]:
  "same_hold w w" "same_hold w (w\<lparr>fw_files := f\<rparr>)" "same_hold w (poison w)" "same_hold w (no_staging w)"
  by (simp_all add: same_hold_def poison_def no_staging_def on_file_def)

lemma same_hold_trans: "same_hold a b \<Longrightarrow> same_hold b c \<Longrightarrow> same_hold a c"
  by (simp add: same_hold_def)

lemma others_hold: "file_others_ok env v \<Longrightarrow> others_keep_gate env \<Longrightarrow> same_hold w (fe_others env w)"
  by (simp add: same_hold_def others_fields others_keep_gate_def)

lemma store_chunk_hold:
  assumes "file_others_ok env v" and "others_keep_gate env" and "store_chunk env owner chunk w = Some (err, w')"
  shows "\<exists>w3. same_hold w w3 \<and> (same_hold w3 w' \<or> w' = snd (discard env w3))"
proof -
  obtain ok f where wr: "write_all env (tr_fd (fw_file w)) chunk (fw_files w) = Some (ok, f)"
    using assms(3) by (auto simp: store_chunk_def split: option.split_asm)
  obtain h_ok h where h: "ho_update env chunk (tr_hash (fw_file w)) = (h_ok, h)" by (cases "ho_update env chunk (tr_hash (fw_file w))")
  define w2 where "w2 = (if ok then on_file (\<lambda>t. t\<lparr>tr_hash := h\<rparr>) (w\<lparr>fw_files := f\<rparr>) else w\<lparr>fw_files := f\<rparr>)"
  have "same_hold w w2" by (simp add: w2_def same_hold_def on_file_def)
  then have "same_hold w (fe_others env w2)" using others_hold [OF assms(1,2)] same_hold_trans by blast
  moreover have "w' = snd (discard env (fe_others env w2)) \<or> same_hold (fe_others env w2) w'"
    using assms(3) by (auto simp: store_chunk_def wr h w2_def Let_def on_file_def same_hold_def split: if_split_asm)
  ultimately show ?thesis by blast
qed

lemma write_balanced:
  assumes "file_others_ok env v" and "others_keep_gate env" and "balanced env base w"
    and "ev_file_transfer_write env owner payload w = Some (err, received1, w')"
  shows "balanced env base w'"
proof -
  have "w' = w \<or> (\<exists>err1. store_chunk env owner (drop EV_FILE_PREFIX_BYTES payload) w = Some (err1, w'))"
    using assms(4) by (auto simp: ev_file_transfer_write_def Let_def split: if_split_asm option.split_asm)
  then show ?thesis
  proof (elim disjE exE)
    fix err1
    assume "store_chunk env owner (drop EV_FILE_PREFIX_BYTES payload) w = Some (err1, w')"
    then obtain w3 where "same_hold w w3" "same_hold w3 w' \<or> w' = snd (discard env w3)"
      using store_chunk_hold [OF assms(1,2)] by blast
    then show ?thesis using balanced_same [OF balanced_same [OF assms(3)]] balanced_discard_same [OF assms(3)] by auto
  qed (simp add: assms(3))
qed

lemma close_hold: "close_file env w = (closed, w1) \<Longrightarrow> same_hold w w1"
  using close_file_fields by (auto simp: same_hold_def)

lemma replace_hold: "replace_target env w = (err, w') \<Longrightarrow> same_hold w w'"
  by (auto simp: replace_target_def Let_def same_hold_def no_staging_def on_file_def split: if_split_asm prod.split_asm)

lemma publish_hold: "publish env w = (err, w') \<Longrightarrow> same_hold w w'"
  by (auto simp: publish_def Let_def same_hold_def no_staging_def on_file_def split: if_split_asm prod.split_asm
      dest!: replace_hold)

lemma commit_hold:
  assumes "file_others_ok env v" and "others_keep_gate env" and "commit_file env owner w = (err, received1, w')"
  shows "same_hold w w'"
proof -
  obtain synced f where y: "fo_fsync env (tr_fd (fw_file w)) (fw_files w) = (synced, f)"
    by (cases "fo_fsync env (tr_fd (fw_file w)) (fw_files w)")
  define w1 where "w1 = fe_others env (w\<lparr>fw_files := f\<rparr>)"
  obtain closed w2 where c: "close_file env w1 = (closed, w2)" by (cases "close_file env w1")
  obtain err3 w3 where p: "publish env w2 = (err3, w3)" by (cases "publish env w2")
  have "same_hold w w1" unfolding w1_def by (rule same_hold_trans [OF _ others_hold [OF assms(1,2)]]) simp
  moreover have "same_hold w1 w2" "same_hold w2 w3" by (rule close_hold [OF c], rule publish_hold [OF p])
  moreover have "w' = w \<or> w' = w1 \<or> w' = poison w2 \<or> w' = w3"
    using assms(3) by (auto simp: commit_file_def Let_def y w1_def [symmetric] c p split: if_split_asm prod.split_asm)
  ultimately show ?thesis using same_hold_on_file(1,3) same_hold_trans by metis
qed

lemma end_balanced:
  assumes "file_others_ok env v" and "others_keep_gate env" and "balanced env base w"
    and "ev_file_transfer_end env owner upload_id commit w = (err, received1, w')"
  shows "balanced env base w'"
proof -
  have "w' = w \<or> w' = snd (discard env w) \<or>
      (\<exists>err1 received2 w1. commit_file env owner w = (err1, received2, w1) \<and> w' = snd (discard env w1))"
    using assms(4) by (auto simp: ev_file_transfer_end_def Let_def split: if_split_asm prod.split_asm)
  then show ?thesis
  proof (elim disjE exE conjE)
    fix err1 received2 w1
    assume "commit_file env owner w = (err1, received2, w1)" and "w' = snd (discard env w1)"
    then show ?thesis using balanced_discard_same [OF assms(3)] commit_hold [OF assms(1,2)] by blast
  qed (simp_all add: assms(3) discard_balanced)
qed

lemma open_staging_hold: "open_staging env upload_id token w = (err, w') \<Longrightarrow> same_hold w w'"
  by (auto simp: open_staging_def Let_def same_hold_def on_file_def split: if_split_asm prod.split_asm)

lemma begin_admitted_balanced:
  assumes "balanced env base (on_file (\<lambda>t. t\<lparr>tr_active := True\<rparr>) w)"
    and "begin_admitted env owner overwrite total1 digest upload_id token w = (err, w')"
  shows "balanced env base w'"
proof -
  define w1 where "w1 = on_file (\<lambda>t. t\<lparr>tr_active := True, tr_owner := owner, tr_overwrite := overwrite, tr_total := total1,
      tr_last_ms := fe_now env w, tr_expected_hash := digest\<rparr>) w"
  obtain status regular e f where s: "fo_stat env (tr_target (fw_file w1)) (fw_files w1) = (status, regular, e, f)"
    by (cases "fo_stat env (tr_target (fw_file w1)) (fw_files w1)")
  let ?w2 = "w1\<lparr>fw_files := f\<rparr>"
  obtain err3 w3 where t: "(if status = 0 \<and> (\<not> overwrite \<or> \<not> regular) then (Some ''FILE_EXISTS'', ?w2)
      else if status \<noteq> 0 \<and> e \<noteq> ENOENT then (Some ''FILE_STAT_FAILED'', ?w2)
      else open_staging env upload_id token ?w2) = (err3, w3)" by (metis surj_pair)
  have "(err3, if err3 \<noteq> None then snd (discard env w3) else w3) = (err, w')"
    using assms(2) by (simp only: begin_admitted_def Let_def w1_def [symmetric] s t prod.case)
  then have out: "w' = w3 \<or> w' = snd (discard env w3)" by (cases err3; simp)
  have "same_hold ?w2 w3" using t open_staging_hold [of env upload_id token ?w2 err3 w3] by (auto split: if_split_asm)
  moreover have "same_hold (on_file (\<lambda>t. t\<lparr>tr_active := True\<rparr>) w) ?w2" by (simp add: w1_def same_hold_def on_file_def)
  ultimately have "balanced env base w3" using balanced_same [OF balanced_same [OF assms(1)]] by blast
  then show ?thesis using out discard_balanced by blast
qed

lemma begin_balanced:
  assumes "balanced env base w" and "ev_file_transfer_begin env owner path overwrite total1 sha upload_id w = (err, w')"
  shows "balanced env base w'"
proof (cases "fw_lock w \<and> current_owner env owner w \<and> \<not> tr_active (fw_file w) \<and> \<not> path_refused (fe_sdcard_path env) path \<and>
    unhex sha 32 \<noteq> None \<and> unhex upload_id 16 \<noteq> None")
  case False
  then have "w' = w"
    using assms(2) by (auto simp: ev_file_transfer_begin_def split: if_split_asm bool.split_asm option.split_asm)
  then show ?thesis using assms(1) by simp
next
  case True
  then obtain digest token where d: "unhex sha 32 = Some digest" "unhex upload_id 16 = Some token" by blast
  obtain vol target where t: "target_of (fe_sdcard_path env) (the path) = (vol, target)"
    by (cases "target_of (fe_sdcard_path env) (the path)")
  define w1 where "w1 = w\<lparr>fw_file := (zero_file env)\<lparr>tr_volume := vol, tr_target := take (FILE_PATH_CAP - 1) target\<rparr>\<rparr>"
  obtain admitted m where m: "esp_vision_msc_writer_vfs_begin (fe_msc env) (fw_msc w1) (volume_number vol) True = (admitted, m)"
    by (cases "esp_vision_msc_writer_vfs_begin (fe_msc env) (fw_msc w1) (volume_number vol) True")
  have b1: "balanced env base w1" using assms(1) True by (simp add: balanced_def w1_def transfers_def held_def)
  have "\<not> admitted \<Longrightarrow> w1\<lparr>fw_msc := m\<rparr> = w1" using vfs_begin_refused m by fastforce
  then consider (refused) "w' = w1"
    | (admitted) "admitted" "begin_admitted env owner overwrite total1 digest (the upload_id) token (w1\<lparr>fw_msc := m\<rparr>) = (err, w')"
    using assms(2) True d t m
    by (auto simp: ev_file_transfer_begin_def w1_def Let_def split: if_split_asm)
  then show ?thesis
  proof cases
    case refused
    then show ?thesis using b1 by simp
  next
    case admitted
    have idle: "\<not> tr_active (fw_file w1)" "tr_volume (fw_file w1) = vol" by (simp_all add: w1_def)
    have r: "msc_ready (fe_msc env) (fw_msc w1) (volume_number vol) = Some vol" using b1 by (simp add: balanced_def)
    have "wg_in_flight_io (mw_gate (fw_msc w1) vol) = base vol" using b1 idle by (simp add: balanced_def transfers_def held_def)
    then obtain g where g: "m = set_gate vol g (fw_msc w1)" "wg_in_flight_io g = base vol + 1" "base vol \<noteq> - 1"
      using vfs_begin_gate [OF r, of True m] m admitted(1) by auto
    have "balanced env base (on_file (\<lambda>t. t\<lparr>tr_active := True\<rparr>) (w1\<lparr>fw_msc := m\<rparr>))"
      using b1 idle g by (auto simp: balanced_def transfers_def held_def on_file_def ready_gate gate_after)
    then show ?thesis using begin_admitted_balanced admitted(2) by blast
  qed
qed

lemma step_balanced:
  assumes "file_others_ok env v" and "others_keep_gate env" and "balanced env base w" and "file_step env w op = Some w'"
  shows "balanced env base w'"
proof (cases op)
  case (Begin owner path overwrite total1 sha upload_id)
  then show ?thesis
    using assms(3,4) begin_balanced by (cases "ev_file_transfer_begin env owner path overwrite total1 sha upload_id w") auto
next
  case (Chunk owner payload)
  then show ?thesis using assms(4) write_balanced [OF assms(1-3)] by auto
next
  case (End owner upload_id commit)
  then show ?thesis
    using assms(4) end_balanced [OF assms(1-3)] by (cases "ev_file_transfer_end env owner upload_id commit w") auto
next
  case (Poll available)
  then show ?thesis using assms(3,4) discard_balanced by (auto simp: ev_file_transfer_poll_def split: if_split_asm)
next
  case Others
  then show ?thesis using assms(4) balanced_same [OF assms(3) others_hold [OF assms(1,2)]] by simp
qed

lemma run_balanced:
  "file_others_ok env v \<Longrightarrow> others_keep_gate env \<Longrightarrow> balanced env base w \<Longrightarrow> file_run env w ops = Some w' \<Longrightarrow> balanced env base w'"
  by (induction ops arbitrary: w) (auto split: option.split_asm dest: step_balanced)

text \<open>
  Property C28: an upload holds its volume. Over any sequence of calls that starts without an upload, the gate
  of the storage writer counts one transfer more for the volume of the active upload and none for any other, whatever
  calls failed: so the volume does not drain, and is not handed to the USB host, before the upload
  has ended, and no transfer is left over afterwards.
\<close>

theorem upload_holds_its_volume:
  assumes "file_others_ok env v" and "others_keep_gate env" and "\<not> tr_active (fw_file w)"
    and "\<And>vol. msc_ready (fe_msc env) (fw_msc w) (volume_number vol) = Some vol"
    and "file_run env w ops = Some w'"
  shows "transfers w' vol = transfers w vol + held w' vol \<and>
    (held w' vol = 1 \<longrightarrow> \<not> writer_io_drained (mw_gate (fw_msc w') vol))"
proof -
  have "balanced env (transfers w) w" using assms(3,4) by (simp add: balanced_def held_def)
  then have b: "balanced env (transfers w) w'" by (rule run_balanced [OF assms(1,2) _ assms(5)])
  moreover have "held w' vol = 1 \<Longrightarrow> transfers w vol \<noteq> - 1" using b by (auto simp: balanced_def held_def split: if_split_asm)
  ultimately show ?thesis by (auto simp: balanced_def transfers_def writer_io_drained_def eq_neg_iff_add_eq_0)
qed

end
