(* ===== verification/FileDemo.thy ===== *)
theory FileDemo
  imports FileUpload StorageWriterProps Demo
begin

text \<open>
  The properties of uploads applied to the board of \<open>Demo\<close>: a file system in memory, whose \<open>write\<close>
  takes at most two bytes at a time, and a hash that counts the bytes.
\<close>

section \<open>A file system in memory\<close>

record demo_files =
  df_nodes :: "cstring \<Rightarrow> u8 list option"
  df_fds :: "int \<Rightarrow> cstring option"

definition demo_open :: "cstring \<Rightarrow> demo_files \<Rightarrow> int \<times> demo_files" where
  "demo_open p f =
     (if df_nodes f p \<noteq> None then (- 1, f)
      else (3, f\<lparr>df_nodes := (df_nodes f)(p \<mapsto> []), df_fds := (df_fds f)(3 \<mapsto> p)\<rparr>))"

definition demo_write :: "int \<Rightarrow> u8 list \<Rightarrow> demo_files \<Rightarrow> int \<times> errno \<times> demo_files" where
  "demo_write fd bytes f =
     (case df_fds f fd of None \<Rightarrow> (- 1, Other_errno, f)
      | Some p \<Rightarrow>
        case df_nodes f p of None \<Rightarrow> (- 1, Other_errno, f)
        | Some old \<Rightarrow>
          (int (min 2 (length bytes)), Other_errno, f\<lparr>df_nodes := (df_nodes f)(p \<mapsto> old @ take 2 bytes)\<rparr>))"

definition demo_rename :: "cstring \<Rightarrow> cstring \<Rightarrow> demo_files \<Rightarrow> int \<times> errno \<times> demo_files" where
  "demo_rename a b f =
     (if df_nodes f b \<noteq> None then (- 1, EEXIST, f)
      else (0, ENOENT, f\<lparr>df_nodes := (df_nodes f)(b := df_nodes f a, a := None)\<rparr>))"

definition demo_sha256 :: "u8 list \<Rightarrow> u8 list" where
  "demo_sha256 bytes = replicate 32 (of_nat (length bytes))"

definition demo_file_env :: "(demo_files, u8 list) file_env" where
  "demo_file_env =
     \<lparr>fo_stat = (\<lambda>p f. if df_nodes f p = None then (- 1, False, ENOENT, f) else (0, True, ENOENT, f)),
      fo_open = demo_open, fo_write = demo_write, fo_fsync = (\<lambda>fd f. (0, f)),
      fo_close = (\<lambda>fd f. (0, f\<lparr>df_fds := (df_fds f)(fd := None)\<rparr>)),
      fo_rename = demo_rename, fo_unlink = (\<lambda>p f. f\<lparr>df_nodes := (df_nodes f)(p := None)\<rparr>),
      ho_init = [], ho_setup = (\<lambda>h. (True, [])), ho_update = (\<lambda>bytes h. (True, h @ bytes)),
      ho_finish = (\<lambda>h. (True, demo_sha256 h)),
      fe_now = (\<lambda>w. 1000), fe_msc = quiet_env, fe_flash_mounted = (\<lambda>w. True), fe_sdcard_mounted = (\<lambda>w. True),
      fe_sdcard_path = ''/sdcard'', fe_others = (\<lambda>w. w)\<rparr>"

definition demo_view :: "(demo_files, u8 list) file_view" where
  "demo_view =
     \<lparr>vw_contents = df_nodes, vw_opened = df_fds, vw_hashed = Some, vw_sha256 = demo_sha256\<rparr>"

lemma demo_file_sel [simp]:
  "fo_stat demo_file_env p f = (if df_nodes f p = None then (- 1, False, ENOENT, f) else (0, True, ENOENT, f))"
  "fo_open demo_file_env = demo_open" "fo_write demo_file_env = demo_write" "fo_fsync demo_file_env fd f = (0, f)"
  "fo_close demo_file_env fd f = (0, f\<lparr>df_fds := (df_fds f)(fd := None)\<rparr>)" "fo_rename demo_file_env = demo_rename"
  "fo_unlink demo_file_env p f = f\<lparr>df_nodes := (df_nodes f)(p := None)\<rparr>" "ho_init demo_file_env = []"
  "ho_setup demo_file_env h = (True, [])" "ho_update demo_file_env bytes h = (True, h @ bytes)"
  "ho_finish demo_file_env h = (True, demo_sha256 h)" "fe_now demo_file_env w = 1000" "fe_msc demo_file_env = quiet_env"
  "fe_flash_mounted demo_file_env w" "fe_sdcard_path demo_file_env = ''/sdcard''" "fe_others demo_file_env w = w"
  by (simp_all add: demo_file_env_def)

lemma demo_view_sel [simp]:
  "vw_contents demo_view = df_nodes" "vw_opened demo_view = df_fds" "vw_hashed demo_view = Some" "vw_sha256 demo_view = demo_sha256"
  by (simp_all add: demo_view_def)

lemma demo_laws: "file_laws demo_file_env demo_view"
proof -
  have "stat_law demo_file_env demo_view" by (simp add: stat_law_def same_view_def)
  moreover have "open_law demo_file_env demo_view" by (auto simp: open_law_def same_view_def demo_open_def)
  moreover have "write_law demo_file_env demo_view" by (auto simp: write_law_def demo_write_def min_def)
  moreover have "sync_law demo_file_env demo_view" by (auto simp: sync_law_def same_view_def)
  moreover have "rename_law demo_file_env demo_view" by (auto simp: rename_law_def demo_rename_def)
  moreover have "hash_law demo_file_env demo_view" by (simp add: hash_law_def)
  ultimately show ?thesis by (simp add: file_laws_def)
qed

lemma demo_file_others:
  "file_others_ok demo_file_env demo_view" "others_keep_target demo_file_env demo_view" "others_keep_gate demo_file_env"
  by (simp_all add: file_others_ok_def others_keep_target_def others_keep_gate_def)

section \<open>A device and its owner\<close>

definition demo_msc :: msc where
  "demo_msc =
     \<lparr>mw_initialized = True, mw_store_ready = True, mw_store_lock = True, mw_gate = (\<lambda>v. zero_gate),
      mw_record = (\<lambda>v. zero_record), mw_nvs = (\<lambda>v. None)\<rparr>"

definition demo_disk :: "(demo_files, u8 list) file_world" where
  "demo_disk =
     \<lparr>fw_lock = True, fw_file = zero_file demo_file_env, fw_session = w_session demo_owned, fw_msc = demo_msc,
      fw_files = \<lparr>df_nodes = (\<lambda>p. None), df_fds = (\<lambda>fd. None)\<rparr>\<rparr>"

definition demo_owner :: ev_session_snapshot_t where
  "demo_owner = ev_session_snapshot_locked (w_session demo_owned) 1000"

lemma demo_same_owner: "FileTransfer.same_owner demo_owner (ev_session_snapshot_locked (w_session demo_owned) t)"
  by (simp add: FileTransfer.same_owner_def demo_owner_def ev_session_snapshot_locked_def Let_def)

lemma demo_current [simp]:
  "fw_session w = w_session demo_owned \<Longrightarrow> current_owner demo_file_env demo_owner w"
  using demo_same_owner by (simp add: current_owner_def ev_session_snapshot_def)

definition demo_id :: cstring where "demo_id = concat (replicate 16 ''5a'')"
definition demo_sha :: cstring where "demo_sha = concat (replicate 32 ''03'')"

lemma unhex_repeat:
  assumes "unhex_digit a = Some x" and "unhex_digit b = Some y"
  shows "unhex_loop (concat (replicate n [a, b])) = Some (replicate n (x * 16 + y))"
  by (induction n) (simp_all add: assms)

lemma demo_hex:
  "unhex (Some demo_id) 16 = Some (replicate 16 0x5A)" "unhex (Some demo_sha) 32 = Some (replicate 32 3)"
proof -
  have d: "unhex_digit (CHR ''5'') = Some 5" "unhex_digit (CHR ''a'') = Some 10"
    "unhex_digit (CHR ''0'') = Some 0" "unhex_digit (CHR ''3'') = Some 3"
    by (simp_all add: unhex_digit_def less_eq_char_def)
  show "unhex (Some demo_id) 16 = Some (replicate 16 0x5A)" "unhex (Some demo_sha) 32 = Some (replicate 32 3)"
    using unhex_repeat [OF d(1,2), of 16] unhex_repeat [OF d(3,4), of 32]
    by (simp_all add: unhex_def demo_id_def demo_sha_def length_concat sum_list_replicate)
qed

section \<open>An upload\<close>

definition demo_temporary :: cstring where
  "demo_temporary = ''/flash/a.evupload-'' @ demo_id @ ''.tmp''"

lemma demo_id_length [simp]: "length demo_id = 32"
  by (simp add: demo_id_def length_concat sum_list_replicate)

lemma demo_path: "\<not> path_refused ''/sdcard'' (Some ''/a'')"
  "target_of ''/sdcard'' ''/a'' = (ESP_VISION_STORAGE_VOLUME_FLASH, ''/flash/a'')"
  by (simp_all add: path_refused_def path_safe_def c_at_def ESP_VISION_STORAGE_FLASH_ALIAS_def target_of_def has_prefix_def
      ESP_VISION_STORAGE_FLASH_PATH_def)

lemma demo_gate: "esp_vision_msc_writer_vfs_begin quiet_env demo_msc 0 True =
    (True, set_gate ESP_VISION_STORAGE_VOLUME_FLASH (zero_gate\<lparr>wg_in_flight_io := 1\<rparr>) demo_msc)"
  by (simp add: esp_vision_msc_writer_vfs_begin_def msc_ready_def volume_of_def writer_volume_compiled_def demo_msc_def
      on_gate_def writer_begin_vfs_io_def writer_python_io_allowed_def zero_gate_def)

definition demo_begun :: "(demo_files, u8 list) file_world" where
  "demo_begun = demo_disk\<lparr>
     fw_file := \<lparr>tr_active = True, tr_poisoned = False, tr_overwrite = True, tr_fd = 3,
       tr_volume = ESP_VISION_STORAGE_VOLUME_FLASH, tr_owner = demo_owner, tr_id = replicate 16 0x5A,
       tr_expected_hash = replicate 32 3, tr_total = 3, tr_received = 0, tr_last_ms = 1000, tr_target = ''/flash/a'',
       tr_temporary = demo_temporary, tr_hash = []\<rparr>,
     fw_msc := set_gate ESP_VISION_STORAGE_VOLUME_FLASH (zero_gate\<lparr>wg_in_flight_io := 1\<rparr>) demo_msc,
     fw_files := \<lparr>df_nodes = [demo_temporary \<mapsto> []], df_fds = [3 \<mapsto> demo_temporary]\<rparr>\<rparr>"

lemma demo_begin:
  "ev_file_transfer_begin demo_file_env demo_owner (Some ''/a'') True 3 (Some demo_sha) (Some demo_id) demo_disk = (None, demo_begun)"
proof -
  have l: "length (''/flash/a.evupload-'' @ demo_id @ ''.tmp'') < FILE_PATH_CAP" by (simp add: FILE_PATH_CAP_def)
  have i: "fw_lock demo_disk" "current_owner demo_file_env demo_owner demo_disk" "\<not> tr_active (fw_file demo_disk)"
    "fw_msc demo_disk = demo_msc"
    by (simp_all add: demo_disk_def)
  show ?thesis
    using l by (simp add: ev_file_transfer_begin_def i demo_path demo_hex demo_gate volume_number_def FILE_PATH_CAP_def
        begin_admitted_def open_staging_def on_file_def)
      (simp add: demo_begun_def demo_disk_def zero_file_def demo_open_def demo_temporary_def open_staging_def on_file_def
        FILE_PATH_CAP_def Let_def)
qed

definition demo_payload :: "u8 list" where
  "demo_payload = replicate 16 0x5A @ [0, 0, 0, 0, 1, 2, 3]"

lemma demo_begun_sel:
  "fw_lock demo_begun" "fw_session demo_begun = w_session demo_owned" "tr_active (fw_file demo_begun)"
  "\<not> tr_poisoned (fw_file demo_begun)" "tr_fd (fw_file demo_begun) = 3" "tr_owner (fw_file demo_begun) = demo_owner"
  "tr_id (fw_file demo_begun) = replicate 16 0x5A" "tr_total (fw_file demo_begun) = 3" "tr_received (fw_file demo_begun) = 0"
  "tr_hash (fw_file demo_begun) = []" "tr_temporary (fw_file demo_begun) = demo_temporary"
  "fw_files demo_begun = \<lparr>df_nodes = [demo_temporary \<mapsto> []], df_fds = [3 \<mapsto> demo_temporary]\<rparr>"
  by (simp_all add: demo_begun_def demo_disk_def)

lemma demo_same [simp]: "FileTransfer.same_owner demo_owner demo_owner"
  using demo_same_owner [of 1000] by (simp add: demo_owner_def)

lemma demo_writes:
  "write_all demo_file_env 3 [1, 2, 3] \<lparr>df_nodes = [demo_temporary \<mapsto> []], df_fds = [3 \<mapsto> demo_temporary]\<rparr> =
     Some (True, \<lparr>df_nodes = [demo_temporary \<mapsto> [1, 2, 3]], df_fds = [3 \<mapsto> demo_temporary]\<rparr>)"
  by (simp add: demo_begun_sel write_all.simps demo_write_def)

definition demo_written :: "(demo_files, u8 list) file_world" where
  "demo_written = demo_begun\<lparr>
     fw_file := (fw_file demo_begun)\<lparr>tr_received := 3, tr_hash := [1, 2, 3]\<rparr>,
     fw_files := \<lparr>df_nodes = [demo_temporary \<mapsto> [1, 2, 3]], df_fds = [3 \<mapsto> demo_temporary]\<rparr>\<rparr>"

lemma demo_chunk: "ev_file_transfer_write demo_file_env demo_owner demo_payload demo_begun = Some (None, Some 3, demo_written)"
proof -
  have p: "length demo_payload = 23" "take 16 demo_payload = replicate 16 0x5A" "drop EV_FILE_PREFIX_BYTES demo_payload = [1, 2, 3]"
    "chunk_offset demo_payload = 0"
    by (simp_all add: demo_payload_def frame_consts chunk_offset_def little_endian_def upt_rec)
  have f: "chunk_fits (fw_file demo_begun) 0 3" by (simp add: chunk_fits_def demo_begun_sel)
  have "store_chunk demo_file_env demo_owner [1, 2, 3] demo_begun = Some (None, demo_written)"
    by (simp add: store_chunk_def demo_writes on_file_def demo_begun_sel demo_written_def)
      (simp add: demo_begun_def demo_disk_def)
  then show ?thesis
    using p(3) [unfolded frame_consts]
    by (simp add: ev_file_transfer_write_def p f frame_consts demo_begun_sel) (simp add: demo_written_def)
qed

lemma demo_written_sel:
  "fw_lock demo_written" "tr_active (fw_file demo_written)" "\<not> tr_poisoned (fw_file demo_written)"
  "tr_owner (fw_file demo_written) = demo_owner" "tr_id (fw_file demo_written) = replicate 16 0x5A"
  "tr_received (fw_file demo_written) = tr_total (fw_file demo_written)"
  by (simp_all add: demo_written_def demo_begun_sel)

lemma demo_end:
  "\<exists>w2. ev_file_transfer_end demo_file_env demo_owner (Some demo_id) True demo_written = (None, Some 3, w2)"
proof -
  define w1 where "w1 = demo_written\<lparr>fw_file := (fw_file demo_written)\<lparr>tr_fd := - 1\<rparr>,
      fw_files := \<lparr>df_nodes = [demo_temporary \<mapsto> [1, 2, 3]], df_fds = Map.empty\<rparr>\<rparr>"
  have ne: "demo_temporary \<noteq> ''/flash/a''" by (simp add: demo_temporary_def)
  have owner: "current_owner demo_file_env demo_owner demo_written"
    "current_owner demo_file_env demo_owner (demo_written\<lparr>fw_files := f\<rparr>)" for f
    by (simp_all add: demo_written_def demo_begun_sel)
  have c: "close_file demo_file_env demo_written = (True, w1)"
    by (simp add: close_file_def on_file_def w1_def) (simp add: demo_written_def demo_begun_sel)
  have p: "fst (publish demo_file_env w1) = None"
    "tr_received (fw_file (snd (publish demo_file_env w1))) = 3" "fw_msc (snd (publish demo_file_env w1)) = fw_msc demo_begun"
    "tr_fd (fw_file (snd (publish demo_file_env w1))) = - 1" "tr_active (fw_file (snd (publish demo_file_env w1)))"
    "\<not> tr_poisoned (fw_file (snd (publish demo_file_env w1)))" "tr_temporary (fw_file (snd (publish demo_file_env w1))) = []"
    "tr_volume (fw_file (snd (publish demo_file_env w1))) = ESP_VISION_STORAGE_VOLUME_FLASH"
    using ne by (simp_all add: publish_def w1_def demo_written_def demo_begun_def demo_rename_def no_staging_def on_file_def)
  obtain w3 where w3: "publish demo_file_env w1 = (None, w3)" using p(1) by (cases "publish demo_file_env w1") simp
  have commit: "commit_file demo_file_env demo_owner demo_written = (None, Some 3, w3)"
    using owner c w3 p by (simp add: commit_file_def demo_sha256_def) (simp add: demo_written_def demo_begun_def demo_sha256_def)
  have "\<exists>s. esp_vision_msc_writer_vfs_finish quiet_env (fw_msc demo_begun) 0 = (True, s)"
    by (simp add: demo_begun_def esp_vision_msc_writer_vfs_finish_def msc_ready_def volume_of_def writer_volume_compiled_def
        demo_msc_def set_gate_def on_gate_def writer_finish_vfs_io_def)
  then have "\<exists>w2. discard demo_file_env w3 = (None, w2)"
    using p w3 by (auto simp: discard_def volume_number_def)
  then obtain w2 where "discard demo_file_env w3 = (None, w2)" by blast
  then show ?thesis
    using commit owner(1) by (simp add: ev_file_transfer_end_def demo_hex demo_written_sel Let_def)
qed

lemma demo_disk_inv: "upload_inv demo_view demo_disk"
  by (simp add: upload_inv_def idle_file_def demo_disk_def)

lemma demo_written_staged: "staged demo_view demo_written [1, 2, 3]"
  by (simp add: staged_def demo_written_def demo_begun_def demo_temporary_def)

theorem committed_file_is_the_upload_witness:
  "\<exists>w2. ev_file_transfer_end demo_file_env demo_owner (Some demo_id) True demo_written = (None, Some 3, w2) \<and>
     df_nodes (fw_files w2) ''/flash/a'' = Some [1, 2, 3] \<and> \<not> tr_active (fw_file w2)"
proof -
  obtain w2 where e: "ev_file_transfer_end demo_file_env demo_owner (Some demo_id) True (fe_others demo_file_env demo_written) =
      (None, Some 3, w2)" using demo_end by auto
  have "upload_chunks demo_file_env demo_owner [demo_payload] demo_begun = Some (None, demo_written)"
    by (simp add: demo_chunk)
  from committed_file_is_the_upload [OF demo_laws demo_file_others(1) demo_disk_inv demo_begin this e]
  show ?thesis using e by (simp add: demo_path chunk_bytes_def demo_payload_def frame_consts)
qed

theorem commit_is_all_or_nothing_witness:
  "\<exists>err w2. ev_file_transfer_end demo_file_env demo_owner (Some demo_id) True demo_written = (err, Some 3, w2) \<and>
     (err = None \<longrightarrow> df_nodes (fw_files w2) ''/flash/a'' = Some [1, 2, 3])"
proof -
  obtain w2 where e: "ev_file_transfer_end demo_file_env demo_owner (Some demo_id) True demo_written = (None, Some 3, w2)"
    using demo_end by blast
  show ?thesis
    using commit_is_all_or_nothing [OF demo_laws demo_file_others(1,2) demo_written_staged e] e
    by (simp add: demo_written_def demo_begun_def)
qed

theorem upload_belongs_to_its_owner_witness:
  "file_step demo_file_env demo_begun (Chunk (demo_owner\<lparr>sn_input_generation := 9\<rparr>) demo_payload) = Some demo_begun"
  by (rule upload_belongs_to_its_owner [where who = "demo_owner\<lparr>sn_input_generation := 9\<rparr>"])
    (simp_all add: demo_begun_sel, simp add: FileTransfer.same_owner_def demo_owner_def ev_session_snapshot_locked_def Let_def)

theorem abandoned_upload_is_given_up_witness:
  "let w = demo_begun\<lparr>fw_file := (fw_file demo_begun)\<lparr>tr_last_ms := - 29000\<rparr>\<rparr>
   in fw_file (ev_file_transfer_poll demo_file_env True w) = zero_file demo_file_env"
proof -
  let ?w = "demo_begun\<lparr>fw_file := (fw_file demo_begun)\<lparr>tr_last_ms := - 29000\<rparr>\<rparr>"
  have "staged demo_view demo_begun []" by (simp add: staged_def demo_begun_def demo_temporary_def)
  then have "upload_inv demo_view ?w" by (auto simp: upload_inv_def staged_def)
  from abandoned_upload_is_given_up [OF this, of demo_file_env]
  show ?thesis by (simp add: demo_begun_sel FILE_IDLE_MS_def barred_def)
qed

theorem upload_holds_its_volume_witness:
  "transfers demo_begun ESP_VISION_STORAGE_VOLUME_FLASH = 1 \<and>
   \<not> writer_io_drained (mw_gate (fw_msc demo_begun) ESP_VISION_STORAGE_VOLUME_FLASH)"
proof -
  have ready: "msc_ready (fe_msc demo_file_env) (fw_msc demo_disk) (volume_number vol) = Some vol" for vol
    by (cases vol) (simp_all add: msc_ready_def volume_number_def volume_of_def writer_volume_compiled_def demo_disk_def demo_msc_def
        quiet_env_def)
  have run: "file_run demo_file_env demo_disk [Begin demo_owner (Some ''/a'') True 3 (Some demo_sha) (Some demo_id)] = Some demo_begun"
    by (simp add: demo_begin)
  have "held demo_begun ESP_VISION_STORAGE_VOLUME_FLASH = 1" "transfers demo_disk ESP_VISION_STORAGE_VOLUME_FLASH = 0"
    "\<not> tr_active (fw_file demo_disk)"
    by (simp_all add: held_def demo_begun_def transfers_def demo_disk_def demo_msc_def zero_gate_def)
  then show ?thesis
    using upload_holds_its_volume [OF demo_file_others(1,3) _ ready run, of ESP_VISION_STORAGE_VOLUME_FLASH] by simp
qed

end
