(* ===== verification/ControlMethodsDemo.thy ===== *)
theory ControlMethodsDemo
  imports ControlReleaseProps ControlBounds ControlDemo FileDemo MuxDemo
begin

text \<open>
  The properties of the handlers applied to the device of \<open>Demo\<close>: files in a map, no other tasks, a network
  service that answers no request, and the empty transmitter of \<open>MuxDemo\<close>.
\<close>

section \<open>The device\<close>

definition demo_vfs :: "demo_files vfs_ops" where
  "demo_vfs =
     \<lparr>vo_stat = (\<lambda>p f. (Some (df_nodes f p \<noteq> None), f)),
      vo_remove = (\<lambda>p f. (True, f\<lparr>df_nodes := (df_nodes f)(p := None)\<rparr>)),
      vo_open = (\<lambda>p m f. (Some 3, f\<lparr>df_nodes := (df_nodes f)(p :=
        (if m = ''wb'' then Some [] else if m = ''ab'' then Some (case df_nodes f p of None \<Rightarrow> [] | Some d \<Rightarrow> d) else df_nodes f p)),
        df_fds := (df_fds f)(3 \<mapsto> p)\<rparr>)),
      vo_write = (\<lambda>fd data f. case df_fds f fd of None \<Rightarrow> (None, f)
        | Some p \<Rightarrow> (Some (0, length data), f\<lparr>df_nodes := (df_nodes f)(p := Some (the (df_nodes f p) @ data))\<rparr>)),
      vo_read = (\<lambda>fd n f. case df_fds f fd of None \<Rightarrow> (None, f) | Some p \<Rightarrow> (Some (0, take n (the (df_nodes f p))), f)),
      vo_close = (\<lambda>fd f. (True, f)),
      vo_rename = (\<lambda>a b f. (True, f\<lparr>df_nodes := (df_nodes f)(b := df_nodes f a, a := None)\<rparr>))\<rparr>"

lemma demo_vfs_laws: "vfs_laws demo_vfs df_nodes df_fds"
  unfolding vfs_laws_def demo_vfs_def by (auto simp: only_at_def split: option.splits)

type_synonym demo_state = "(demo_files, u8 list) serving"

definition demo_serving_env :: "(demo_files, u8 list) platform control_env" where
  "demo_serving_env =
     \<lparr>ce_now = (\<lambda>c. 1000), ce_run = (\<lambda>r k c. (False, c)), ce_others = (\<lambda>c. c),
      ce_interrupt_armed = (\<lambda>c. False), ce_main_thread = (\<lambda>c. True),
      ce_preview_subscribe = (\<lambda>l e c. (ESP_OK, c)), ce_preview_subscribed = (\<lambda>l c. False),
      ce_malloc = (\<lambda>n c. None), ce_stack = zero_snapshot\<rparr>"

definition demo_handlers :: "(demo_files, u8 list) handler_env" where
  "demo_handlers =
     \<lparr>he_control = demo_serving_env, he_board = demo_board,
      he_identity = \<lparr>id_device = ''0102'', id_hostname = ''esp-vision'', id_firmware = ''f'', id_version = ''1'', id_board = ''b'',
        id_arch = ''a'', id_idf = ''i'', id_usb_product = ''u'', id_tcp_port = 3333, id_msc = True\<rparr>,
      he_path_cap = 128, he_cdc = (\<lambda>c. (False, False, False)), he_mux_ready = (\<lambda>c. True), he_queue_lock = (\<lambda>c. True),
      he_special_lock = (\<lambda>c. True), he_cancel_locks = (\<lambda>c i. True), he_mux_malloc = (\<lambda>c n. None),
      he_random = (\<lambda>c. (1, 2, 3, 4)), he_acquire_others = (\<lambda>w. w), he_file = demo_file_env, he_vfs = demo_vfs,
      he_tcp_close = (\<lambda>l c. c), he_network = (\<lambda>r c. (None, c)), he_network_sent = (\<lambda>v c. c), he_err_name = (\<lambda>e. ''error''),
      he_memory = (\<lambda>n c. True), he_heap = (\<lambda>n c. 0),
      he_volume = (\<lambda>v c. \<lparr>vs_present = True, vs_mounted = True, vs_state = ''mounted'', vs_error = 0, vs_fatfs = 0, vs_format = True\<rparr>),
      he_listdir = (\<lambda>p f. (None, f)),
      he_camera = (\<lambda>c. (ESP_FAIL, \<lparr>ca_ready = False, ca_sensor_id = 0, ca_width = 0, ca_height = 0, ca_pixfmt = 0,
        ca_hmirror = False, ca_vflip = False\<rparr>)),
      he_observed_frame = (\<lambda>c. (ESP_FAIL, \<lparr>im_w = 0, im_h = 0, im_data = []\<rparr>)),
      he_display_frame = (\<lambda>c. (ESP_FAIL, \<lparr>im_w = 0, im_h = 0, im_data = []\<rparr>)),
      he_jpeg = (\<lambda>i q. (ESP_FAIL, [])), he_jpeg_low = 50, he_ring_full = (\<lambda>i c. 0), he_tcp_stack_free = (\<lambda>c. 0),
      he_ticket_others = (\<lambda>ts. (True, ts)), he_reset_close = (\<lambda>l c. (ESP_OK, c)), he_restart = (\<lambda>c. c)\<rparr>"

definition demo_platform :: "(demo_files, u8 list) platform" where
  "demo_platform =
     \<lparr>pf_mux = demo_mux, pf_tx_context = \<lparr>tc_kind = 0, tc_value = []\<rparr>, pf_ticket = 0, pf_seq = 0, pf_uart = uart_reset,
      pf_file_lock = True, pf_file = zero_file demo_file_env, pf_msc = demo_msc, pf_launcher = zero_launcher,
      pf_files = \<lparr>df_nodes = [''/a.py'' \<mapsto> [1]], df_fds = (\<lambda>fd. None)\<rparr>\<rparr>"

definition demo_serving :: "world \<Rightarrow> demo_state" where
  "demo_serving w =
     \<lparr>co_world = w, co_repl_rx = co_repl_rx demo_control, co_vm_queue = replicate 2 zero_vm_frame, co_head = 0, co_tail = 0,
      co_pending = False, co_vm_poll_active = False,
      co_response = zero_context\<lparr>rc_link := demo_link, rc_has_link := True, rc_session_id := demo_nonce, rc_vm_epoch := 7,
        rc_input_generation := 1\<rparr>,
      co_vm_response = zero_context, co_vm_task = vm_task_zero, co_stats = co_stats demo_control, co_rest = demo_platform\<rparr>"

lemma demo_calm: "calm demo_handlers" "stable demo_handlers" "quiet demo_handlers"
  by (simp_all add: calm_def stable_def quiet_def demo_handlers_def demo_serving_env_def)

lemma demo_ready_state: "mux_ready_state (demo_serving w)"
  using demo_mux_inv start_wf [of demo_arena]
  by (simp add: mux_ready_state_def demo_serving_def demo_platform_def worker_inv_def demo_mux_def)

lemma demo_parts [simp]: "co_world (demo_serving w) = w" "files (demo_serving w) = \<lparr>df_nodes = [''/a.py'' \<mapsto> [1]], df_fds = (\<lambda>fd. None)\<rparr>"
  "he_vfs demo_handlers = demo_vfs" "he_path_cap demo_handlers = 128"
  by (simp_all add: demo_serving_def demo_platform_def demo_handlers_def)

lemma demo_repl_inv: "repl_inv (co_repl_rx (demo_serving w))"
  using demo_control_ok by (simp add: demo_serving_def control_ok_def)

section \<open>Answers\<close>

definition demo_script :: script_chunk where
  "demo_script = \<lparr>sk_path = ''/a.py'', sk_content = ''AQ=='', sk_mode = ''overwrite'', sk_encoding = ''binary'',
     sk_has_offset = True, sk_has_total = True, sk_offset = 0, sk_total = 2, sk_run = False\<rparr>"

lemma demo_script_path: "ev_control_path_allowed (path_max demo_handlers) (Some ''/a.py'')"
  by (simp add: path_max_def EV_CONTROL_PATH_TMP_SUFFIX_def ev_control_path_allowed_def)


section \<open>Scripts\<close>

definition demo_second :: script_chunk where
  "demo_second = demo_script\<lparr>sk_offset := 1\<rparr>"

lemma demo_chunks:
  "\<exists>c'. publish_chunks demo_handlers (zip [demo_script, demo_second] [[5], [6]]) (demo_serving demo_owned) = Some c'"
  by (simp add: publish_chunk_def stage_chunk_def chunk_complete_def demo_script_def demo_second_def Let_def
      EV_CONTROL_PATH_TMP_SUFFIX_def ev_control_vfs_remove_if_exists_def ev_control_vfs_exists_def ev_control_vfs_write_file_def
      ev_control_vfs_append_file_def ev_control_vfs_write_file_mode_def ev_control_vfs_close_def ev_control_vfs_rename_def
      demo_vfs_def on_files_def on_platform_def)


definition demo_run_request :: cstring where
  "demo_run_request = ''{\"path\":\"/a.py\"}''"

theorem script_run_queues_one_command_witness:
  "run_outcome demo_handlers df_nodes demo_run_request (demo_serving demo_owned)
     (snd (ev_control_send_script_run demo_handlers 1 demo_run_request (demo_serving demo_owned)))"
  by (rule script_run_queues_one_command [OF _ demo_calm(3) demo_repl_inv prod.collapse [symmetric], of _ df_fds])
    (simp add: demo_vfs_laws)

section \<open>The session\<close>

lemma demo_session_inv: "session_inv (session_of (demo_serving demo_owned))"
  using demo_owned_inv by (simp add: world_inv_def)

theorem hello_settles_the_session_witness:
  "let c = demo_serving demo_owned; (ret, c') = ev_control_send_hello_acquire demo_handlers 1 ''{}'' c
   in session_of c' = session_of c \<or> ss_state (session_of c') = EV_SESSION_FREE \<or>
     (ret = ESP_OK \<and> (\<exists>sid. hello_pending demo_handlers c' (rc_link (co_response c)) sid))"
  unfolding Let_def split_beta
  by (rule hello_settles_the_session [OF demo_calm(1) demo_ready_state demo_session_inv prod.collapse [symmetric]])


end
