(* ===== verification/ControlTaskDemo.thy ===== *)
theory ControlTaskDemo
  imports ControlTaskProps UsbCdcProps ControlMethodsDemo
begin

text \<open>The task of the transport on the device of ControlMethodsDemo, whose host has just connected.\<close>

definition demo_pump_env :: "(demo_files, u8 list, nat) pump_env" where
  "demo_pump_env =
     \<lparr>pe_handlers = demo_handlers, pe_control = demo_serving_env, pe_usb = demo_usb_env, pe_uart_clock = (\<lambda>t. ESP_OK),
      pe_uart_idle = (\<lambda>t. True), pe_jtag_poll = (\<lambda>d. d), pe_ring_get = (\<lambda>i d. (-1, d)),
      pe_tcp_read = (\<lambda>l b n d. (ev_transport_result EV_IO_WOULD_BLOCK 0 ESP_OK, b, d)), pe_file_free = (\<lambda>t. True)\<rparr>"

text \<open>The device is owned over USB when the task looks at the bus for the first time.\<close>

definition demo_usb_world :: world where
  "demo_usb_world = demo_owned\<lparr>w_transport := demo_transport\<lparr>s_links := (\<lambda>i k. \<lparr>ls_generation = 1, ls_open = k = 0\<rparr>),
     s_supported := (\<lambda>i. True)\<rparr>, w_session := (w_session demo_owned)\<lparr>ss_owner_link := usb_link 1\<rparr>\<rparr>"

definition demo_pump :: "(demo_files, u8 list, nat) pump" where
  "demo_pump =
     \<lparr>pm_control = demo_serving demo_usb_world, pm_parsers = replicate 6 (idle (usb_link 1)),
      pm_cdc = \<lparr>cl_known = False, cl_mounted = False, cl_generation = 0\<rparr>, pm_usb = demo_usb,
      pm_queue_lock = True, pm_state_lock = True, pm_initialized = True, pm_task = True, pm_network_callback = True\<rparr>"

lemma demo_pump_sel:
  "pump_world demo_pump = demo_usb_world" "length (pm_parsers demo_pump) = 6" "\<not> cl_known (pm_cdc demo_pump)"
  "usb_open demo_pump" "ls_generation (usb_slot demo_pump) = 1" "owned_by demo_pump (usb_link 1)"
  by (simp_all add: demo_pump_def pump_world_def usb_open_def demo_usb_world_def owned_by_def)

theorem usb_reconnect_retires_the_link_witness:
  "owned_by demo_pump (usb_link 1) \<and> \<not> owned_by (ev_control_transport_cdc_update demo_pump_env demo_pump) (usb_link 1)"
proof -
  have "s_serial_io_lock (transport_of demo_pump) EV_TRANSPORT_USB"
    by (simp add: demo_pump_sel demo_usb_world_def demo_transport_eq)
  from usb_reconnect_retires_the_link [OF this _ refl, of demo_pump_env] show ?thesis
    by (simp add: demo_pump_sel retires_def) (simp add: demo_usb_world_def)
qed

end
