(* ===== verification/LauncherProps.thy ===== *)
theory LauncherProps
  imports Launcher
begin

text \<open>
  What the launcher promises: the paths it accepts are exactly those of a revision of an application and of a staged
  candidate, a trial starts only what was armed for it in the same virtual machine, and one program is started
  between two resets. The calls of a run are kept in a log, the oldest first, with their answers.
\<close>

section \<open>Searching a path\<close>

lemma strstr_pair:
  "strstr s [a, b] = None \<longleftrightarrow> successively (\<lambda>x y. \<not> (x = a \<and> y = b)) s"
proof (induction s)
  case (Cons c s)
  show ?case by (cases s) (use Cons in auto)
qed simp

lemma successively_away: "a \<notin> set s \<Longrightarrow> successively (\<lambda>x y. \<not> (x = a \<and> y = b)) s"
  by (induction s rule: induct_list012) auto

lemma strstr_someD: "strstr s p = Some r \<Longrightarrow> \<exists>u. s = u @ r \<and> take (length p) r = p"
proof (induction s)
  case (Cons c s)
  show ?case
  proof (cases "take (length p) (c # s) = p")
    case True then show ?thesis using Cons.prems by auto
  next
    case False
    then obtain u where "s = u @ r" "take (length p) r = p" using Cons by auto
    then show ?thesis by (intro exI [of _ "c # u"]) simp
  qed
qed (auto split: if_splits)

lemma strstr_first:
  assumes "d \<notin> set u" "p = d # p'" "take (length p) r = p"
  shows "strstr (u @ r) p = Some r"
  using assms
proof (induction u)
  case Nil
  then show ?case by (cases r) auto
qed auto

section \<open>The accepted paths\<close>

definition app_name :: "cstring \<Rightarrow> bool" where
  "app_name slug \<longleftrightarrow> slug \<noteq> [] \<and> length slug \<le> 48 \<and> CHR ''a'' \<le> hd slug \<and> hd slug \<le> CHR ''z'' \<and> list_all slug_char slug"

definition app_roots :: "cstring set" where "app_roots = {''/apps/'', ''/sdcard/apps/''}"

lemma slug_of_name:
  "ev_launcher_slug app (length app - length r) \<longleftrightarrow> app_name u" if "app = u @ r"
  using that by (cases u) (auto simp: ev_launcher_slug_def app_name_def c_at_def not_less)

lemma slug_char_plain: "slug_char c \<Longrightarrow> c \<noteq> CHR ''/'' \<and> c \<noteq> CHR ''.'' \<and> c \<noteq> CHR 0x5C"
  by (auto simp: slug_char_def less_eq_char_def)

lemma hex_char_plain: "hex_char c \<Longrightarrow> c \<noteq> CHR ''/'' \<and> c \<noteq> CHR ''.'' \<and> c \<noteq> CHR 0x5C \<and> c \<noteq> CHR ''-''"
  by (auto simp: hex_char_def less_eq_char_def)

lemma name_plain:
  assumes "app_name slug"
  shows "CHR ''/'' \<notin> set slug" "CHR ''.'' \<notin> set slug" "CHR 0x5C \<notin> set slug" "slug \<noteq> []" "length slug \<le> 48"
  using assms slug_char_plain by (auto simp: app_name_def list_all_iff)

lemma hash_plain:
  assumes "ev_launcher_hex (Some hash) EV_LAUNCHER_SOURCE_HASH_HEX_LEN"
  shows "CHR ''/'' \<notin> set hash" "CHR ''.'' \<notin> set hash" "CHR 0x5C \<notin> set hash" "length hash = 64" "hash \<noteq> []"
  using assms hex_char_plain by (auto simp: ev_launcher_hex_def launcher_consts list_all_iff)

lemma plain_ends:
  assumes "x \<notin> set s" "s \<noteq> []"
  shows "hd s \<noteq> x" "last s \<noteq> x"
  using assms hd_in_set last_in_set by metis+

lemma revision_path_exact:
  assumes hash: "ev_launcher_hex (Some hash) EV_LAUNCHER_SOURCE_HASH_HEX_LEN"
  shows "revision_path app hash \<longleftrightarrow>
    (\<exists>slug. app_name slug \<and> app = slug @ ''/revisions/'' @ hash @ ''/'' @ slug @ ''.py'')"
    (is "?l \<longleftrightarrow> (\<exists>slug. ?r slug)")
proof
  assume ?l
  then obtain r where r: "strstr app ''/revisions/'' = Some r" by (auto simp: revision_path_def split: option.splits)
  have "length ''/revisions/'' = 11" by simp
  with strstr_someD [OF r] obtain u where u: "app = u @ r" "take 11 r = ''/revisions/''" by metis
  let ?d = "drop 11 r"
  have r2: "r = ''/revisions/'' @ ?d" using u(2) append_take_drop_id [of 11 r] by simp
  have facts: "app_name u" "length ?d = 68 + length u" "take 64 ?d = hash" "?d ! 64 = CHR ''/''"
    "take (length u) (drop 65 ?d) = u" "drop (length u) (drop 65 ?d) = ''.py''"
    using \<open>?l\<close> r u slug_of_name [OF u(1)] by (simp_all add: revision_path_def Let_def launcher_consts add.commute)
  have "drop 64 ?d = CHR ''/'' # drop 65 ?d"
    using Cons_nth_drop_Suc [of 64 ?d] facts(2,4) by simp
  then have "?d = hash @ CHR ''/'' # u @ ''.py''"
    using append_take_drop_id [of 64 ?d] append_take_drop_id [of "length u" "drop 65 ?d"] facts(3,5,6) by simp
  then have "?r u" using facts(1) u(1) r2 by simp
  then show "\<exists>slug. ?r slug" by (rule exI [where x = u])
next
  assume "\<exists>slug. ?r slug"
  then obtain slug where slug: "app_name slug" and app: "app = slug @ ''/revisions/'' @ hash @ ''/'' @ slug @ ''.py''"
    by auto
  note np = name_plain [OF slug] and hp = hash_plain [OF hash]
  have "strstr app ''/revisions/'' = Some (''/revisions/'' @ hash @ ''/'' @ slug @ ''.py'')"
    unfolding app by (rule strstr_first [OF np(1)]) simp_all
  then show ?l
    using slug_of_name [OF app] slug hp(4)
    by (simp add: revision_path_def Let_def launcher_consts nth_append) (simp add: app)
qed

lemma take_prefix: "take n s = p \<Longrightarrow> s = p @ drop n s"
  by (metis append_take_drop_id)

lemma app_of_exact: "app_of s = Some app \<longleftrightarrow> (\<exists>root \<in> app_roots. s = root @ app)"
proof
  assume "app_of s = Some app"
  then show "\<exists>root \<in> app_roots. s = root @ app"
    unfolding app_of_def app_roots_def by (auto dest: take_prefix split: if_split_asm simp del: append.simps)
qed (auto simp: app_of_def app_roots_def)

lemma revision_in_bounds:
  assumes root: "root \<in> app_roots" and slug: "app_name slug"
    and hash: "ev_launcher_hex (Some hash) EV_LAUNCHER_SOURCE_HASH_HEX_LEN"
    and s: "s = root @ slug @ ''/revisions/'' @ hash @ ''/'' @ slug @ ''.py''"
  shows "length s \<le> EV_LAUNCHER_SOURCE_PATH_MAX" "strstr s ''..'' = None" "strstr s ''//'' = None" "CHR 0x5C \<notin> set s"
proof -
  note np = name_plain [OF slug] and hp = hash_plain [OF hash]
  note away = successively_away [OF np(1)] successively_away [OF np(2)] successively_away [OF hp(1)] successively_away [OF hp(2)]
  note ends = plain_ends [OF np(1,4)] plain_ends [OF np(2,4)] plain_ends [OF hp(1,5)] plain_ends [OF hp(2,5)]
  have roots: "root = ''/apps/'' \<or> root = ''/sdcard/apps/''" using root by (simp add: app_roots_def)
  show "length s \<le> EV_LAUNCHER_SOURCE_PATH_MAX" using roots np(5) hp(4) by (auto simp: s launcher_consts)
  show "CHR 0x5C \<notin> set s" using roots np(3) hp(3) by (auto simp: s)
  show "strstr s ''..'' = None" "strstr s ''//'' = None"
    using roots away ends by (auto simp: s strstr_pair successively_append_iff successively_Cons hd_append np(4) hp(5))
qed

text \<open>Property C29: a program is started at boot only from \<open>/apps/\<close> or \<open>/sdcard/apps/\<close>, from the directory of the
  revision that has exactly the given SHA-256 in its path, in the file that has the name of the application; every
  such path is accepted.\<close>
theorem active_path_exact:
  assumes "ev_launcher_hex (Some hash) EV_LAUNCHER_SOURCE_HASH_HEX_LEN"
  shows "ev_launcher_active_path (Some s) (Some hash) \<longleftrightarrow>
    (\<exists>root \<in> {''/apps/'', ''/sdcard/apps/''}. \<exists>slug. app_name slug \<and>
       s = root @ slug @ ''/revisions/'' @ hash @ ''/'' @ slug @ ''.py'')"
    (is "?l \<longleftrightarrow> ?r")
proof
  assume ?l
  then obtain app where app: "app_of s = Some app" "revision_path app hash"
    by (auto simp: ev_launcher_active_path_def split: option.splits)
  from app(1) obtain root where "root \<in> app_roots" "s = root @ app" by (auto simp: app_of_exact)
  with revision_path_exact [OF assms, of app] app(2) show ?r by (fold app_roots_def) blast
next
  assume ?r
  then obtain root slug where root: "root \<in> app_roots" and slug: "app_name slug"
    and s: "s = root @ slug @ ''/revisions/'' @ hash @ ''/'' @ slug @ ''.py''" by (fold app_roots_def) blast
  have "app_of s = Some (slug @ ''/revisions/'' @ hash @ ''/'' @ slug @ ''.py'')" using root s by (auto simp: app_of_exact)
  moreover have "revision_path (slug @ ''/revisions/'' @ hash @ ''/'' @ slug @ ''.py'') hash"
    using revision_path_exact [OF assms] slug by blast
  ultimately show ?l
    using revision_in_bounds [OF root slug assms s] assms by (simp add: ev_launcher_active_path_def)
qed

section \<open>Runs of the launcher\<close>

datatype launcher_event =
    Launcher_Init "u32 \<times> u32 \<times> u32 \<times> u32" "u8 list option"
  | Vm_Reset
  | Entry_Begin
  | Entry_End
  | Begin_Active u32 u64 "cstring option" "cstring option"
  | Finish_Active ev_launcher_outcome
  | Arm_Trial u32 "cstring option" "cstring option" "cstring option" "cstring option"
  | Begin_Trial u32 "cstring option" "cstring option" "cstring option"
  | Finish_Trial ev_launcher_outcome
  | Cancel_Trial "cstring option"

fun launcher_step :: "launcher_event \<Rightarrow> launcher \<Rightarrow> bool \<times> launcher" where
  "launcher_step (Launcher_Init words mac) l = (True, esp_vision_launcher_state_init0 words mac l)"
| "launcher_step Vm_Reset l = (True, esp_vision_launcher_state_vm_reset_begin l)"
| "launcher_step Entry_Begin l = (True, esp_vision_launcher_main_entry_begin l)"
| "launcher_step Entry_End l = (True, esp_vision_launcher_main_entry_end l)"
| "launcher_step (Begin_Active epoch generation hash path) l = esp_vision_launcher_begin_active epoch generation hash path l"
| "launcher_step (Finish_Active outcome) l = esp_vision_launcher_finish_active outcome l"
| "launcher_step (Arm_Trial epoch op runner path hash) l = esp_vision_launcher_arm_trial epoch op runner path hash l"
| "launcher_step (Begin_Trial epoch op path hash) l = esp_vision_launcher_begin_trial epoch op path hash l"
| "launcher_step (Finish_Trial outcome) l = esp_vision_launcher_finish_trial outcome l"
| "launcher_step (Cancel_Trial op) l = esp_vision_launcher_cancel_trial_arm op l"

inductive launched :: "(launcher_event \<times> bool) list \<Rightarrow> launcher \<Rightarrow> bool" where
  Start: "launched [] (esp_vision_launcher_state_init0 words mac zero_launcher)"
| Call: "launched log l \<Longrightarrow> launcher_step e l = (ok, l') \<Longrightarrow> launched (log @ [(e, ok)]) l'"

inductive_cases launched_snocE: "launched (log @ [(e, ok)]) l"

lemmas launcher_ops = esp_vision_launcher_state_init0_def esp_vision_launcher_state_vm_reset_begin_def
  esp_vision_launcher_main_entry_begin_def esp_vision_launcher_main_entry_end_def esp_vision_launcher_begin_active_def
  esp_vision_launcher_finish_active_def esp_vision_launcher_arm_trial_def esp_vision_launcher_begin_trial_def
  esp_vision_launcher_finish_trial_def esp_vision_launcher_cancel_trial_arm_def

lemma launched_initialized: "launched log l \<Longrightarrow> ln_initialized l"
proof (induction rule: launched.induct)
  case (Call log l e ok l')
  then show ?case by (cases e) (auto simp: launcher_ops Let_def split: if_splits)
qed (simp add: esp_vision_launcher_state_init0_def zero_launcher_def Let_def)

subsection \<open>Trials\<close>

fun moves_trial :: "launcher_event \<times> bool \<Rightarrow> bool" where
  "moves_trial (Vm_Reset, ok) = True"
| "moves_trial (Arm_Trial epoch op runner path hash, ok) = ok"
| "moves_trial (Begin_Trial epoch op path hash, ok) = ok"
| "moves_trial (Finish_Trial outcome, ok) = ok"
| "moves_trial (Cancel_Trial op, ok) = ok"
| "moves_trial (e, ok) = False"

definition armed :: "launcher \<Rightarrow> bool" where
  "armed l \<longleftrightarrow> ln_trial_valid l \<and> ln_trial_status l = EV_LAUNCHER_TRIAL_ARMED"

definition armed_by :: "launcher \<Rightarrow> cstring \<Rightarrow> launcher_event" where
  "armed_by l runner = Arm_Trial (ln_trial_vm_epoch l) (Some (ln_operation_id l)) (Some runner)
     (Some (ln_trial_source_path l)) (Some (ln_trial_source_hash l))"

lemma trial_untouched:
  assumes "launcher_step e l = (ok, l')" "\<not> moves_trial (e, ok)" "ln_initialized l"
  shows "armed l' = armed l" "armed_by l' = armed_by l"
  using assms
  by (atomize (full), cases e) (auto simp: armed_def armed_by_def fun_eq_iff launcher_ops Let_def split: if_splits)

lemma trial_moved:
  assumes "launcher_step e l = (ok, l')" "moves_trial (e, ok)" "armed l'"
  shows "\<exists>runner. e = armed_by l' runner \<and> ok \<and> ev_launcher_trial_paths (Some (ln_operation_id l')) (Some runner)
    (Some (ln_trial_source_path l')) (Some (ln_trial_source_hash l'))"
proof (cases e)
  case (Arm_Trial epoch op runner path hash)
  have ok: "ok" using assms(2) Arm_Trial by simp
  have paths: "ev_launcher_trial_paths op runner path hash"
    using assms(1) ok Arm_Trial by (auto simp: esp_vision_launcher_arm_trial_def split: if_splits)
  then obtain o' r' p' h' where all: "op = Some o'" "runner = Some r'" "path = Some p'" "hash = Some h'"
    by (auto simp: ev_launcher_trial_paths_def ev_launcher_hex_def split: option.splits)
  then show ?thesis
    using assms(1) ok paths Arm_Trial
    by (auto simp: esp_vision_launcher_arm_trial_def armed_by_def Let_def split: if_splits)
qed (use assms in \<open>auto simp: armed_def launcher_ops Let_def split: if_splits\<close>)

lemma armed_since:
  assumes "launched log l" "armed l"
  shows "\<exists>before runner since. log = before @ (armed_by l runner, True) # since \<and> list_all (\<lambda>c. \<not> moves_trial c) since \<and>
    ev_launcher_trial_paths (Some (ln_operation_id l)) (Some runner) (Some (ln_trial_source_path l)) (Some (ln_trial_source_hash l))"
  using assms
proof (induction rule: launched.induct)
  case (Start words mac)
  then show ?case by (simp add: armed_def esp_vision_launcher_state_init0_def zero_launcher_def Let_def)
next
  case (Call log l e ok l')
  show ?case
  proof (cases "moves_trial (e, ok)")
    case True
    from trial_moved [OF Call.hyps(2) this Call.prems] obtain runner where "e = armed_by l' runner" "ok"
      "ev_launcher_trial_paths (Some (ln_operation_id l')) (Some runner) (Some (ln_trial_source_path l')) (Some (ln_trial_source_hash l'))"
      by blast
    then show ?thesis by (intro exI [of _ log] exI [of _ runner] exI [of _ "[]"]) simp
  next
    case False
    note same = trial_untouched [OF Call.hyps(2) False launched_initialized [OF Call.hyps(1)]]
    from Call.IH Call.prems same(1) obtain before runner since
      where log: "log = before @ (armed_by l runner, True) # since" "list_all (\<lambda>c. \<not> moves_trial c) since"
        "ev_launcher_trial_paths (Some (ln_operation_id l)) (Some runner) (Some (ln_trial_source_path l)) (Some (ln_trial_source_hash l))"
      by blast
    have "log @ [(e, ok)] = before @ (armed_by l' runner, True) # since @ [(e, ok)]"
      "list_all (\<lambda>c. \<not> moves_trial c) (since @ [(e, ok)])" using log same False by simp_all
    moreover have "ln_operation_id l' = ln_operation_id l" "ln_trial_source_path l' = ln_trial_source_path l"
      "ln_trial_source_hash l' = ln_trial_source_hash l" using same(2) by (auto simp: armed_by_def fun_eq_iff)
    ultimately show ?thesis using log(3) by metis
  qed
qed

lemma staging_root_exact:
  assumes "length op = 36"
  shows "staging_root op runner = Some root \<longleftrightarrow>
    root \<in> {''/.esp-vision/staging/'' @ op @ ''/'', ''/sdcard/.esp-vision/staging/'' @ op @ ''/''} \<and>
    take (length root) runner = root"
proof -
  have flash: "take 63 (''/.esp-vision/staging/'' @ op @ ''/'') = ''/.esp-vision/staging/'' @ op @ ''/''"
    and sd: "take 71 (''/sdcard/.esp-vision/staging/'' @ op @ ''/'') = ''/sdcard/.esp-vision/staging/'' @ op @ ''/''"
    using assms by simp_all
  have apart: "\<not> (take (length (''/.esp-vision/staging/'' @ op @ ''/'')) runner = ''/.esp-vision/staging/'' @ op @ ''/'' \<and>
    take (length (''/sdcard/.esp-vision/staging/'' @ op @ ''/'')) runner = ''/sdcard/.esp-vision/staging/'' @ op @ ''/'')"
    by (cases runner) (auto, case_tac list, auto)
  show ?thesis
    unfolding staging_root_def flash sd Let_def using apart by (auto simp del: append.simps split: if_splits)
qed

lemma two_roots:
  fixes a b r s x y :: cstring
  shows "(\<exists>root. (root \<in> {a, b} \<and> take (length root) r = root) \<and> drop (length root) r = x \<and>
       drop (length root) s = y \<and> take (length root) s = root) \<longleftrightarrow>
     (\<exists>root \<in> {a, b}. r = root @ x \<and> s = root @ y)" (is "?l \<longleftrightarrow> ?r")
proof
  assume ?l then show ?r by (metis append_take_drop_id)
next
  assume ?r then show ?l by force
qed

lemma trial_paths_exact:
  "ev_launcher_trial_paths (Some op) (Some runner) (Some source) hash \<longleftrightarrow>
     ev_launcher_operation_id (Some op) \<and> ev_launcher_hex hash EV_LAUNCHER_SOURCE_HASH_HEX_LEN \<and>
     (\<exists>root \<in> {''/.esp-vision/staging/'', ''/sdcard/.esp-vision/staging/''}.
        runner = root @ op @ ''/runner.py'' \<and> source = root @ op @ ''/candidate.py'')"
proof -
  let ?roots = "{''/.esp-vision/staging/'', ''/sdcard/.esp-vision/staging/''}"
  show ?thesis
  proof (cases "ev_launcher_operation_id (Some op)")
    case True
    then have op: "length op = 36" by (simp add: ev_launcher_operation_id_def launcher_consts)
    have "(case staging_root op runner of None \<Rightarrow> False
       | Some root \<Rightarrow> drop (length root) runner = ''runner.py'' \<and> take (length root) source = root \<and>
           drop (length root) source = ''candidate.py'') \<longleftrightarrow>
      (\<exists>root. staging_root op runner = Some root \<and> drop (length root) runner = ''runner.py'' \<and>
         drop (length root) source = ''candidate.py'' \<and> take (length root) source = root)" by (auto split: option.split)
    also have "\<dots> \<longleftrightarrow> (\<exists>root \<in> ?roots. runner = root @ op @ ''/runner.py'' \<and> source = root @ op @ ''/candidate.py'')"
      unfolding staging_root_exact [OF op] two_roots by simp
    finally show ?thesis using True op by (auto simp: ev_launcher_trial_paths_def launcher_consts)
  qed (simp add: ev_launcher_trial_paths_def)
qed

lemma trial_starts_armed:
  assumes "launcher_step (Begin_Trial epoch op path hash) l = (True, l')"
  shows "armed l" "ln_trial_vm_epoch l = epoch" "op = Some (ln_operation_id l)" "path = Some (ln_trial_source_path l)"
    "hash = Some (ln_trial_source_hash l)"
  using assms
  by (auto simp: armed_def esp_vision_launcher_begin_trial_def ev_launcher_operation_id_def ev_launcher_hex_def Let_def
        split: if_splits option.splits)

text \<open>Property C30: a trial starts only with the operation identifier, the path and the hash of an accepted arming in
  the same epoch of the virtual machine, with no reset and no other change of the trial in between; the path is the
  candidate of the staging directory of that operation.\<close>
theorem started_trial_was_armed:
  assumes "launched (log @ [(Begin_Trial epoch op path hash, True)]) l"
  shows "\<exists>earlier runner since opid h. log = earlier @ (Arm_Trial epoch op (Some runner) path hash, True) # since \<and>
    list_all (\<lambda>c. \<not> moves_trial c) since \<and> op = Some opid \<and> hash = Some h \<and> ev_launcher_operation_id op \<and>
    ev_launcher_hex hash EV_LAUNCHER_SOURCE_HASH_HEX_LEN \<and>
    (\<exists>root \<in> {''/.esp-vision/staging/'', ''/sdcard/.esp-vision/staging/''}.
       runner = root @ opid @ ''/runner.py'' \<and> path = Some (root @ opid @ ''/candidate.py''))"
proof -
  from assms obtain l0 where l0: "launched log l0" "launcher_step (Begin_Trial epoch op path hash) l0 = (True, l)"
    by (auto elim: launched_snocE)
  note same = trial_starts_armed [OF l0(2)]
  from armed_since [OF l0(1) same(1)] obtain earlier runner since
    where log: "log = earlier @ (armed_by l0 runner, True) # since" "list_all (\<lambda>c. \<not> moves_trial c) since"
      "ev_launcher_trial_paths (Some (ln_operation_id l0)) (Some runner) (Some (ln_trial_source_path l0)) (Some (ln_trial_source_hash l0))"
    by blast
  have "armed_by l0 runner = Arm_Trial epoch op (Some runner) path hash" using same by (simp add: armed_by_def)
  then show ?thesis using log(1,2) log(3) [unfolded trial_paths_exact] same(3,4,5) by auto
qed

subsection \<open>The program of the boot\<close>

fun starts_program :: "launcher_event \<times> bool \<Rightarrow> bool" where
  "starts_program (Begin_Active epoch generation hash path, ok) = ok"
| "starts_program (e, ok) = False"

definition since_reset :: "(launcher_event \<times> bool) list \<Rightarrow> (launcher_event \<times> bool) list" where
  "since_reset log = takeWhile (\<lambda>c. fst c \<noteq> Vm_Reset) (rev log)"

lemma since_reset_snoc:
  "since_reset (log @ [(e, ok)]) = (if e = Vm_Reset then [] else (e, ok) # since_reset log)"
  by (simp add: since_reset_def)

definition active_by :: "launcher \<Rightarrow> (launcher_event \<times> bool) list" where
  "active_by l = (if ln_selection_valid l
     then [(Begin_Active (ln_vm_epoch l) (ln_generation l) (Some (ln_source_hash l)) (Some (ln_source_path l)), True)] else [])"

lemma program_untouched:
  assumes "launcher_step e l = (ok, l')" "\<not> starts_program (e, ok)" "e \<noteq> Vm_Reset" "ln_initialized l"
  shows "active_by l' = active_by l"
  using assms by (cases e) (auto simp: active_by_def launcher_ops Let_def split: if_splits)

lemma program_started:
  assumes "launcher_step e l = (ok, l')" "starts_program (e, ok)"
  shows "active_by l = []" "active_by l' = [(e, ok)]" "\<exists>h s. ev_launcher_active_path (Some s) (Some h) \<and>
    h = ln_source_hash l' \<and> s = ln_source_path l'"
  using assms
  by (atomize (full), cases e)
    (auto simp: active_by_def esp_vision_launcher_begin_active_def ev_launcher_active_path_def ev_launcher_hex_def Let_def
       split: if_splits option.splits)

text \<open>Property C31: between two resets of the virtual machine at most one program is started at boot, and the
  snapshot names it: epoch, generation, hash and path are those of the call that was accepted.\<close>
theorem one_program_per_boot:
  assumes "launched log l"
  shows "filter starts_program (since_reset log) =
    (if ln_selection_valid l
     then [(Begin_Active (ln_vm_epoch l) (ln_generation l) (Some (ln_source_hash l)) (Some (ln_source_path l)), True)]
     else [])"
  unfolding active_by_def [symmetric] using assms
proof (induction rule: launched.induct)
  case (Start words mac)
  then show ?case by (simp add: since_reset_def active_by_def esp_vision_launcher_state_init0_def zero_launcher_def Let_def)
next
  case (Call log l e ok l')
  consider (reset) "e = Vm_Reset" | (start) "e \<noteq> Vm_Reset" "starts_program (e, ok)"
    | (other) "e \<noteq> Vm_Reset" "\<not> starts_program (e, ok)" by blast
  then show ?case
  proof cases
    case reset
    then have "active_by l' = []"
      using Call.hyps(2) by (auto simp: active_by_def esp_vision_launcher_state_vm_reset_begin_def Let_def split: if_splits)
    then show ?thesis using reset by (simp add: since_reset_snoc)
  next
    case start
    then show ?thesis using Call.IH program_started [OF Call.hyps(2)] by (simp add: since_reset_snoc)
  next
    case other
    then show ?thesis
      using Call.IH program_untouched [OF Call.hyps(2)] launched_initialized [OF Call.hyps(1)] by (simp add: since_reset_snoc)
  qed
qed

section \<open>Witnesses\<close>

definition sample_hash :: cstring where "sample_hash = replicate 64 (CHR ''a'')"
definition sample_op :: cstring where "sample_op = ''01234567-89ab-4cde-8f01-23456789abcd''"
definition sample_app :: cstring where "sample_app = ''/apps/blink/revisions/'' @ sample_hash @ ''/blink.py''"
definition sample_stage :: cstring where "sample_stage = ''/.esp-vision/staging/'' @ sample_op"

definition sample_calls :: "launcher_event list" where
  "sample_calls = [Entry_Begin, Begin_Active 1 7 (Some sample_hash) (Some sample_app),
     Arm_Trial 1 (Some sample_op) (Some (sample_stage @ ''/runner.py'')) (Some (sample_stage @ ''/candidate.py'')) (Some sample_hash),
     Begin_Trial 1 (Some sample_op) (Some (sample_stage @ ''/candidate.py'')) (Some sample_hash)]"

fun launcher_log :: "launcher_event list \<Rightarrow> launcher \<Rightarrow> (launcher_event \<times> bool) list \<times> launcher" where
  "launcher_log [] l = ([], l)"
| "launcher_log (e # es) l = (let (ok, l1) = launcher_step e l; (log, l2) = launcher_log es l1 in ((e, ok) # log, l2))"

lemma launched_log: "launched log l \<Longrightarrow> launched (log @ fst (launcher_log es l)) (snd (launcher_log es l))"
proof (induction es arbitrary: log l)
  case (Cons e es)
  obtain ok l1 where s: "launcher_step e l = (ok, l1)" by force
  show ?case using Cons.IH [OF launched.Call [OF Cons.prems s]] s by (simp add: split_beta)
qed simp

definition launcher_zero :: launcher where
  "launcher_zero = esp_vision_launcher_state_init0 (1, 2, 3, 4) (Some [1, 2, 3, 4, 5, 6]) zero_launcher"

lemma sample_hash_ok: "ev_launcher_hex (Some sample_hash) EV_LAUNCHER_SOURCE_HASH_HEX_LEN"
  by code_simp

lemma sample_log_started: "fst (launcher_log sample_calls launcher_zero) =
    map (\<lambda>e. (e, True)) (take 3 sample_calls) @
    [(Begin_Trial 1 (Some sample_op) (Some (sample_stage @ ''/candidate.py'')) (Some sample_hash), True)]"
  by code_simp

lemma sample_log_selects: "ln_selection_valid (snd (launcher_log sample_calls launcher_zero))"
  by code_simp

lemma sample_launched: "launched (fst (launcher_log sample_calls launcher_zero)) (snd (launcher_log sample_calls launcher_zero))"
  using launched_log [OF launched.Start] unfolding launcher_zero_def by simp

theorem active_path_exact_witness:
  "ev_launcher_active_path (Some sample_app) (Some sample_hash) \<and>
   \<not> ev_launcher_active_path (Some (''/apps/blink/revisions/'' @ sample_hash @ ''/other.py'')) (Some sample_hash)"
proof
  show "ev_launcher_active_path (Some sample_app) (Some sample_hash)"
    unfolding active_path_exact [OF sample_hash_ok] sample_app_def
    by (rule bexI [of _ "''/apps/''"], rule exI [of _ "''blink''"]) (simp_all add: app_name_def slug_char_def)
qed code_simp

theorem started_trial_was_armed_witness:
  "\<exists>earlier runner since opid h. map (\<lambda>e. (e, True)) (take 3 sample_calls) =
     earlier @ (Arm_Trial 1 (Some sample_op) (Some runner) (Some (sample_stage @ ''/candidate.py'')) (Some sample_hash), True) # since \<and>
     list_all (\<lambda>c. \<not> moves_trial c) since \<and> Some sample_op = Some opid \<and> Some sample_hash = Some h \<and>
     ev_launcher_operation_id (Some sample_op) \<and> ev_launcher_hex (Some sample_hash) EV_LAUNCHER_SOURCE_HASH_HEX_LEN \<and>
     (\<exists>root \<in> {''/.esp-vision/staging/'', ''/sdcard/.esp-vision/staging/''}.
        runner = root @ opid @ ''/runner.py'' \<and> Some (sample_stage @ ''/candidate.py'') = Some (root @ opid @ ''/candidate.py''))"
  by (rule started_trial_was_armed) (rule sample_launched [unfolded sample_log_started])

theorem one_program_per_boot_witness:
  "ln_selection_valid (snd (launcher_log sample_calls launcher_zero)) \<and>
   length (filter starts_program (since_reset (fst (launcher_log sample_calls launcher_zero)))) = 1"
  using one_program_per_boot [OF sample_launched] sample_log_selects by auto

end
