(* ===== verification/Spec2Isabelle.thy ===== *)
theory Spec2Isabelle
  imports MuxStreamDemo MuxTickets ReplQueue CdcRx WriterGate StorageWriterProps JpegProps ControlTextProps ControlTaskDemo FileDemo LauncherProps
begin

text \<open>
  ESP-VISION is firmware for ESP32 boards with a camera: MicroPython runs beside a set of services
  that let a host computer talk to the board over USB-CDC, USB-serial, UART and TCP. This
  development verifies the part of it that decides who may talk to the board and what becomes of
  the bytes: \<open>src/platform/\<close>. It is a shallow embedding; every definition that models code carries the
  name of the C function, type or macro it translates, or is a named piece of one.

  The parts, from the wires upwards, and the theories that model them.

  \<^item> EvPrelude: word and list lemmas, the error codes \<open>esp_err\<close>, C strings, the collections of
    simplification rules that the components share.

  \<^item> Transport, TransportProps (\<open>ev_transport.c\<close>, \<open>ev_transport.h\<close>): the registry of endpoints. A
    link reference names an endpoint, a slot and a generation; opening, closing and advancing a
    link makes older references stale. The record \<open>transport\<close> holds the static variables; drivers and
    sockets are the parameters in \<open>board\<close>. Shown: the invariant over all runs, the refinement of a
    map of live generations, that stale references reach no driver and never become current again
    before the generations of their slot are exhausted, and the bounds of reads and writes.

  \<^item> Channel (\<open>ev_channel.c\<close>): where the output of each stream goes: the link of the session owner,
    or a local sink while nobody owns the device.

  \<^item> Session, SessionProps, SessionRoutes (\<open>ev_session.c\<close>): ownership of the device by one client:
    acquire, handshake, keepalive, release, expiry after 15000 ms, and the epoch of the virtual
    machine. Session holds the sequential operations. SessionRoutes splits every operation into its
    critical sections and the route change it schedules, and lets the sections of all tasks
    interleave; the routes still settle on the owner.

  \<^item> VmOutput, VmOutputProps (\<open>ev_vm_output.c\<close>): which client the output of a MicroPython task belongs
    to: nested scopes of depth four, and the client whose line the REPL is editing.

  \<^item> Demo: one concrete board on which these components are composed; it carries the witnesses of
    the properties about them.

  \<^item> Ring, ReplQueue (\<open>ev_repl_queue.h\<close>): the ring that carries input to the REPL, tagged with an
    input generation. Ring is an interface (a locale) of a bounded first-in first-out buffer with an
    index that wraps; ReplQueue and CdcRx interpret it on their arrays.

  \<^item> CdcRx (\<open>ev_cdc_rx.h\<close>): the receive side of the USB-CDC endpoint: connection generations and the
    filter that drops the bytes of older connections in place.

  \<^item> UartBaud (\<open>ev_uart_baud.h\<close> and the parts of \<open>ev_control_transport.c\<close> that drive it): negotiating
    the speed of the UART, with a step relation for the driver, its invariant, and that a failed
    negotiation returns to the baseline speed.

  \<^item> WriterGate (\<open>storage_writer_gate.h\<close>) and StorageWriter, StorageWriterProps
    (\<open>storage_writer_msc.c\<close>): who may write a storage volume, the USB host or MicroPython. The
    transfers, the handover between the two and the record of the lease in flash are modelled; the
    points at which the code sleeps or leaves a critical section admit any interference of the other
    tasks that the gate permits (\<open>me_others\<close>).

  \<^item> JpegValidate, JpegProps (\<open>jpeg_validate.c\<close>): the structural check of a JPEG picture before it is
    handed to a decoder. All reads are bounds-checked in the model, so that the theorem that no
    read fails is a theorem about memory safety.

  \<^item> Checked: computations that read and write buffers by index and may stop, with the notion of a
    safe one, on which the JPEG check and the JSON decoder are written.

  \<^item> ControlJson, ControlUtf8, ControlJsonProps (\<open>ev_control_json.h\<close>): the JSON decoder of the control
    protocol. ControlUtf8 specifies UTF-8 by division and remainder and shows that the bit operations
    of the decoder compute it; ControlJsonProps that the decoder stays inside its buffers, always
    returns, and delivers fields of the declared types with well-formed strings.

  \<^item> ControlText, ControlTextProps (\<open>ev_control_transport.c\<close>, the text helpers): the lookup of members,
    escaping, paths and Base64, and the round trips of escaping and Base64.

  \<^item> ControlQueue, ControlQueueProps (\<open>ev_control_transport.c\<close>): what the task of the transport and the
    task of the virtual machine share: REPL input, and the queue of the requests that run on the virtual
    machine, with the expiry and the poll that serves them. The record \<open>control\<close> holds the static
    variables of the file; the handlers of the single methods are the parameter \<open>ce_run\<close> here, which
    ControlMethods instantiates, the other tasks the parameter \<open>ce_others\<close>, of which \<open>env_ok\<close> assumes that they leave the rings well formed and do not put
    requests into the queue. Shown: an accepted request is stored exactly, and a poll leaves the
    task of the virtual machine balanced.

  \<^item> ControlFrame, ControlHeader, ControlFrameProps, ControlReceive (\<open>ev_control_transport.c\<close>): the receiver of
    frames, byte by byte, and the authorisation and dispatch of a request. ControlHeader shows
    that the header the transmitter prints is the header the receiver scans; ControlFrameProps
    that no byte sequence makes the receiver leave its buffers; ControlReceive that a frame is received
    as it was sent, that a broken one does not block its link, and that only the owner is served.
    ControlDemo has the witnesses.

  \<^item> ControlReply, ControlScript, ControlHello, ControlInfo, ControlDevice, ControlMethods
    (\<open>ev_control_transport.c\<close>): the handlers of the methods. ControlReply has the completion contexts and the
    calls by which a response is sent through the transmitter; ControlScript the files and scripts; ControlHello the
    session and the completions of its responses; ControlInfo the reports; ControlDevice uploads, cameras,
    UART speed and the storage writer; ControlMethods the dispatch by method, as the value \<open>serve\<close> of the parameter
    \<open>ce_run\<close>. The record \<open>platform\<close> is the state of the other components, \<open>handler_env\<close> what the handlers
    ask of code outside: the VFS of MicroPython, drivers, locks, the network service.

  \<^item> ControlBounds, ControlScriptProps, ControlHelloProps, ControlReleaseProps, ControlMethodsDemo: that the
    responses fit their buffers; that a script sent in chunks is published as it was sent and that an unfinished one
    leaves its target alone, under the laws \<open>vfs_laws\<close> of the file calls, each of which may fail; that a run types
    one command; that \<open>hello\<close> gives the device to nobody without telling them; that a release ends
    the session. A completion may cancel frames whose completions cancel further frames: \<open>run_completed\<close> is a
    partial function, and \<open>run_completed_returns\<close> shows that it returns, because every call takes a frame
    out of the queues.

  \<^item> UsbCdc, UsbCdcProps (\<open>overlay/micropython/shared/tinyusb/mp_usbd_cdc.c\<close>): the receive path of USB-CDC, which
    tags every byte with the generation of the connection. UsbCdcProps shows that a read returns
    exactly the bytes of the connection it asks for, under the law \<open>ringbuf_laws\<close> of MicroPython's ring buffer.

  \<^item> ControlTask, ControlTaskProps, ControlTaskDemo (\<open>ev_control_transport.c\<close>): the start and the task of the
    transport, with the record \<open>pump\<close> of its variables, one round of the task as a definition; how the link of the USB
    connection follows the bus. Shown: a new connection retires the link, its owner and the frame in reception.

  \<^item> FileTransfer, FileTransferProps, FileUpload, FileDemo (\<open>ev_file_transfer.c\<close>): the upload of a file in
    chunks to a staging file that is renamed when it is complete. The record \<open>file_transfer\<close> is the static
    variable of the file; \<open>file_world\<close> adds the session, the storage writer of StorageWriter, whose gate an
    upload holds, and the file system. The calls of the file system and of the hash are parameters;
    the laws the theorems assume of them (\<open>file_laws\<close>: what \<open>stat\<close>, \<open>open\<close>, \<open>write\<close>, \<open>fsync\<close>, \<open>rename\<close> and the
    hash do, each of them may fail) and of other tasks (\<open>file_others_ok\<close>) are named in FileTransferProps, and
    FileDemo instantiates them. The loop over \<open>write\<close> ends unless every call is interrupted
    (\<open>write_all_returns\<close>). Shown: a committed file is the upload, a failed commit keeps the old file or reports
    that it could not, only the owner reaches the upload, an abandoned one is given up, and the gate counts it.

  \<^item> Launcher, LauncherProps (\<open>ev_launcher_state.c\<close>): which program runs on the virtual machine. Shown: the paths
    that are accepted are exactly those of the revisions of an application, a trial starts only what was
    armed, and one program starts between two resets. The calls of a run are kept in a log.

  \<^item> MuxFrame, MuxQueue, MuxBlocks, MuxQueueProps (\<open>ev_mux.c\<close>): the transmitter that packs
    control replies, REPL output, logs and previews into frames and queues them per endpoint. The
    record \<open>mux\<close> holds the static variables of the file. MuxBlocks has the interface of the block
    allocator (the locale \<open>block_pool\<close>) and its interpretation on the 64-bit bitmap; MuxQueueProps the
    invariant of the queues (frames, bytes, blocks and the TCP quota are accounted exactly).

  \<^item> MuxSpecial: previews, observers and large replies, which have buffers of their own in a heap that
    is part of \<open>mux\<close>; an allocation is a parameter that may fail.

  \<^item> MuxTx: a turn of the worker for one endpoint: the choice of a frame, its authorisation, its
    checksum, its write and its end. \<open>tx_env\<close> holds the clocks, the locks and the drivers of a turn.

  \<^item> MuxPayload, MuxTxProps, MuxLive, MuxContent, MuxTurn, MuxWorker: what the bytes of a frame are in
    the arena and on the wire, that at most one frame of an endpoint has started, that no operation
    changes the bytes of a queued frame, what a turn writes, and that each operation keeps the
    invariant of the transmitter, \<open>worker_inv\<close>.

  \<^item> MuxSystem, MuxTickets, MuxDemo: the start, the step relation \<open>mux_step\<close> of all operations of the
    file on the state of the transmitter, the session and the registry, and the properties of the
    whole: the invariant of the reachable states, that an accepted submission is stored, that a
    turn writes the next bytes of the only frame that may have started, and that a ticket returns
    the result of its own frame. MuxDemo has their witnesses.

  \<^item> MuxStream, MuxStreamProps, MuxStreamDemo: the interface by which the rest of the firmware writes: where
    a stream goes (the client of the scope, the owner, or the sink of the stream), the binding of its
    metadata to a session, the stage that collects REPL output up to a line or 512 bytes, its flushes, and
    previews that may be lost. The record \<open>stream\<close> adds the stage to the transmitter, the session and the
    registry; \<open>stream_env\<close> has the locks and what the other tasks do between critical sections, of which
    \<open>stream_laws\<close> assumes that they leave the stage alone while the producer mutex is held, keep the
    transmitter in its invariant, and that a delay lets the clock advance. The list of stages a write
    returns records the submissions the queue accepted. Shown: REPL output is conserved, a write returns
    (the loops are partial functions, for which that is a theorem), and scoped output reaches its client.

  How the parts interact. A client opens a link (Transport), acquires the session (Session), which
  schedules a route change that sets the owner of the registry and of the router (Channel). A request
  of the client is authorised by Session; its output is attributed by VmOutput and sent through
  Channel or the transmitter (MuxQueue), which asks Session again before a frame reaches the wire.
  The frames of the client reach the receiver (ControlFrame), which decodes their metadata (ControlJson)
  and gives the request to a handler or to the queue of the virtual machine (ControlQueue). An upload
  (FileTransfer) holds the gate of the storage writer (StorageWriter), so that the USB host cannot take the
  volume, and is bound to the session that began it. A
  change of the owner or of the epoch changes the input generation of Session, by which ReplQueue,
  VmOutput and the transmitter recognise stale data.

  Conventions. A C integer is a word of its width (\<open>u8\<close>, \<open>u16\<close>, \<open>u32\<close>, \<open>u64\<close>), so that clocks and
  generations wrap; sizes and array indices are \<open>nat\<close> where the code bounds them before it adds. A
  pointer argument that may be NULL is an option, an out-parameter is an option that is returned, a
  static variable is a field of the record of its file. A critical section or a call under a mutex is
  one definition; where the order of sections matters, the interleaving is explicit. Loops are
  structural recursions, carry a termination proof, or are partial functions of which it is shown that they
  return (\<open>repl_write_returns\<close>, \<open>write_all_returns\<close>, \<open>run_completed_returns\<close>), and no fuel is used, except for the marker
  loop of the JPEG check: it has as many rounds as the picture has bytes, which suffices because every
  round consumes input (\<open>jpeg_validate_returns\<close>), and for the loops of the JSON decoder over members and
  elements: they have as many rounds as the text has characters, which suffices for the same reason
  (\<open>json_parse_returns\<close>). The expiry of queued requests has three rounds, one more than the queue can hold
  requests (\<open>expire_returns\<close>).

  Not modelled. The drivers, FreeRTOS, the TCP/IP stack, NVS and the clock are parameters. Of
  \<open>mp_usbd_cdc.c\<close> sending, and the callback that tells the transport of an owner change inside a session
  call, are left out: \<open>ev_control_session_changed\<close> is modelled, its call is an entry of the log of the session. The
  following parts of the repository are left out as well: \<open>components/imlib\<close> and \<open>components/zxing\<close> (vendored
  image libraries), \<open>modules/\<close> and \<open>overlay/\<close> apart from the UART functions and the receive path of USB-CDC (MicroPython bindings and
  patches of third-party code), \<open>boards/\<close> (pin tables and drivers), the camera, display and video paths
  (calls of hardware drivers), and the tools and tests in Python and JavaScript.
\<close>

end
